(* ===== verification/Prelude.thy ===== *)
theory Prelude
  imports Main "HOL-Library.Word"
begin

section \<open>Shared types, errors and effects\<close>

text \<open>
  The vocabulary every component theory uses: the Go scalar types with the wrap-around of
  \<open>int64\<close> written out, Go error values, Go maps as association lists, and the effect type
  \<open>prog\<close> in which every handler that talks to the outside world is written.

  A value of type \<open>prog\<close> is either a result or a request together with what the code does
  with the answer. Nothing is assumed of the answers, so a theorem about all executions of a
  \<open>prog\<close> holds whatever the API server, the clock and the other controllers do between two
  calls.
\<close>

named_theorems prog_simps \<open>equations that unfold effectful handlers\<close>
named_theorems errs_simps \<open>when a validator returns no error\<close>

subsection \<open>Scalars\<close>

type_synonym int64 = int
type_synonym int32 = int
type_synonym UID = string
type_synonym Time = int \<comment> \<open>nanoseconds after the zero \<open>time.Time\<close>, so that \<open>IsZero\<close> is \<open>= 0\<close>\<close>
type_synonym Duration = int \<comment> \<open>an \<open>int64\<close> of nanoseconds\<close>
type_synonym Quantity = string \<comment> \<open>a \<open>resource.Quantity\<close> in its wire form, read by library functions\<close>

definition max_int64 :: int where
  "max_int64 = 9223372036854775807"

definition min_int64 :: int where
  "min_int64 = - 9223372036854775808"

definition in_int64 :: "int \<Rightarrow> bool" where
  "in_int64 x \<longleftrightarrow> min_int64 \<le> x \<and> x \<le> max_int64"

definition in_int32 :: "int \<Rightarrow> bool" where
  "in_int32 x \<longleftrightarrow> - 2147483648 \<le> x \<and> x \<le> 2147483647"

definition wrap64 :: "int \<Rightarrow> int64" where
  "wrap64 x = (x + 9223372036854775808) mod 18446744073709551616 - 9223372036854775808"

lemma wrap64_in_int64: "in_int64 (wrap64 x)"
  using pos_mod_bound [of 18446744073709551616 "x + 9223372036854775808"]
    pos_mod_sign [of 18446744073709551616 "x + 9223372036854775808"]
  unfolding in_int64_def wrap64_def min_int64_def max_int64_def by linarith

lemma wrap64_id: "in_int64 x \<Longrightarrow> wrap64 x = x"
  by (simp add: in_int64_def wrap64_def min_int64_def max_int64_def)

lemma wrap64_overflow: "wrap64 (max_int64 + 1) = min_int64"
  by (simp add: wrap64_def min_int64_def max_int64_def)

subsection \<open>Maps\<close>

text \<open>
  A Go map is an association list with distinct keys; the order of the list is the order in
  which one \<open>range\<close> over the map visits it, which Go leaves open.
\<close>

type_synonym 'v gomap = "(string \<times> 'v) list"

definition gomap_ok :: "'v gomap \<Rightarrow> bool" where
  "gomap_ok m \<longleftrightarrow> distinct (map fst m)"

fun gomap_get :: "string gomap \<Rightarrow> string \<Rightarrow> string" where
  "gomap_get m k = (case map_of m k of None \<Rightarrow> [] | Some v \<Rightarrow> v)"

fun gomap_set :: "'v gomap \<Rightarrow> string \<Rightarrow> 'v \<Rightarrow> 'v gomap" where
  "gomap_set [] k v = [(k, v)]"
| "gomap_set ((k', v') # m) k v = (if k' = k then (k, v) # m else (k', v') # gomap_set m k v)"

lemma map_of_gomap_set: "map_of (gomap_set m k v) = (map_of m)(k \<mapsto> v)"
  by (induction m k v rule: gomap_set.induct) auto

lemma keys_gomap_set: "fst ` set (gomap_set m k v) = insert k (fst ` set m)"
  by (induction m k v rule: gomap_set.induct) auto

lemma gomap_ok_set: "gomap_ok m \<Longrightarrow> gomap_ok (gomap_set m k v)"
  unfolding gomap_ok_def
proof (induction m k v rule: gomap_set.induct)
  case (2 k' v' m k v)
  have "k' \<notin> fst ` set (gomap_set m k v)" if "k' \<noteq> k"
    using 2 that unfolding keys_gomap_set by simp
  with 2 show ?case by auto
qed simp

lemma gomap_get_set [simp]:
  "gomap_get (gomap_set m k v) k' = (if k' = k then v else gomap_get m k')"
  by (simp add: map_of_gomap_set)

declare gomap_get.simps [simp del]

subsection \<open>Errors\<close>

text \<open>
  A \<open>field.Error\<close> of the validators: its kind, its path and, for \<open>Invalid\<close> and
  \<open>Required\<close>, its detail. The offending value, which only shows in the rendered message, is
  left out. A validator returns the list of its errors; the empty list is Go's \<open>nil\<close>.
\<close>

datatype field_error =
    Invalid string string
  | NotSupported string
  | TooLong string
  | TooMany string
  | Required string string

datatype status_reason = NotFound | AlreadyExists | Conflict | OtherReason string

datatype go_error =
    ErrorString string
  | Sentinel string
  | WrapError string go_error string \<comment> \<open>text before and after the wrapped error\<close>
  | JoinError "go_error list"
  | StatusError status_reason
  | AggregateError "field_error list"
  | SpecValidationError string go_error
  | NoEligibleHostsError "string list"

type_synonym 'a res = "go_error + 'a"

text \<open>
  \<open>errors.As\<close>: the first error in the tree of wrapped errors, in preorder, that a selector
  accepts. A \<open>field\<close> aggregate has no \<open>Unwrap\<close>, so its errors are not looked at.
\<close>

primrec errorsAs :: "(go_error \<Rightarrow> 'b option) \<Rightarrow> go_error \<Rightarrow> 'b option"
  and errorsAs_list :: "(go_error \<Rightarrow> 'b option) \<Rightarrow> go_error list \<Rightarrow> 'b option" where
  "errorsAs sel (ErrorString s) = sel (ErrorString s)"
| "errorsAs sel (Sentinel s) = sel (Sentinel s)"
| "errorsAs sel (WrapError pre e post) =
     (case sel (WrapError pre e post) of Some b \<Rightarrow> Some b | None \<Rightarrow> errorsAs sel e)"
| "errorsAs sel (JoinError es) =
     (case sel (JoinError es) of Some b \<Rightarrow> Some b | None \<Rightarrow> errorsAs_list sel es)"
| "errorsAs sel (StatusError r) = sel (StatusError r)"
| "errorsAs sel (AggregateError es) = sel (AggregateError es)"
| "errorsAs sel (SpecValidationError reason e) =
     (case sel (SpecValidationError reason e) of Some b \<Rightarrow> Some b | None \<Rightarrow> errorsAs sel e)"
| "errorsAs sel (NoEligibleHostsError rs) = sel (NoEligibleHostsError rs)"
| "errorsAs_list sel [] = None"
| "errorsAs_list sel (e # es) =
     (case errorsAs sel e of Some b \<Rightarrow> Some b | None \<Rightarrow> errorsAs_list sel es)"

definition errorsIs :: "go_error \<Rightarrow> go_error \<Rightarrow> bool" where
  "errorsIs e target \<longleftrightarrow> errorsAs (\<lambda>x. if x = target then Some () else None) e = Some ()"

text \<open>\<open>apierrors.ReasonForError\<close> and the tests built on it.\<close>

definition ReasonForError :: "go_error \<Rightarrow> status_reason option" where
  "ReasonForError = errorsAs (\<lambda>e. case e of StatusError r \<Rightarrow> Some r | _ \<Rightarrow> None)"

definition IsNotFound :: "go_error \<Rightarrow> bool" where
  "IsNotFound e \<longleftrightarrow> ReasonForError e = Some NotFound"

definition IsAlreadyExists :: "go_error \<Rightarrow> bool" where
  "IsAlreadyExists e \<longleftrightarrow> ReasonForError e = Some AlreadyExists"

definition IsConflict :: "go_error \<Rightarrow> bool" where
  "IsConflict e \<longleftrightarrow> ReasonForError e = Some Conflict"

lemma status_tests [simp]:
  "IsNotFound (StatusError r) \<longleftrightarrow> r = NotFound"
  "IsAlreadyExists (StatusError r) \<longleftrightarrow> r = AlreadyExists"
  "IsConflict (StatusError r) \<longleftrightarrow> r = Conflict"
  "\<not> IsConflict (ErrorString s)" "\<not> IsNotFound (ErrorString s)" "\<not> IsAlreadyExists (ErrorString s)"
  by (simp_all add: IsNotFound_def IsAlreadyExists_def IsConflict_def ReasonForError_def)

text \<open>\<open>errors.Join\<close> of the errors of a list that has no nil.\<close>

definition joinErrors :: "go_error list \<Rightarrow> unit res" where
  "joinErrors es = (if es = [] then Inr () else Inl (JoinError es))"

definition bind_res :: "'a res \<Rightarrow> ('a \<Rightarrow> 'b res) \<Rightarrow> 'b res" where
  "bind_res r f = (case r of Inl e \<Rightarrow> Inl e | Inr a \<Rightarrow> f a)"

lemma bind_res_simps [simp]:
  "bind_res (Inl e) f = Inl e" "bind_res (Inr a) f = f a"
  by (simp_all add: bind_res_def)

lemma bind_res_Inr: "bind_res r f = Inr b \<longleftrightarrow> (\<exists>a. r = Inr a \<and> f a = Inr b)"
  by (cases r) auto

subsection \<open>Programs that make requests\<close>

datatype ('q, 'r, 'a) prog =
    Ret 'a
  | Req 'q "'r \<Rightarrow> ('q, 'r, 'a) prog"

primrec bindP :: "('q, 'r, 'a) prog \<Rightarrow> ('a \<Rightarrow> ('q, 'r, 'b) prog) \<Rightarrow> ('q, 'r, 'b) prog" where
  "bindP (Ret a) f = f a"
| "bindP (Req q k) f = Req q (\<lambda>r. bindP (k r) f)"

text \<open>The usual Go pattern: return the error, or go on with the value.\<close>

definition bindE :: "('q, 'r, 'a res) prog \<Rightarrow> ('a \<Rightarrow> ('q, 'r, 'b res) prog) \<Rightarrow> ('q, 'r, 'b res) prog" where
  "bindE p f = bindP p (\<lambda>x. case x of Inl e \<Rightarrow> Ret (Inl e) | Inr a \<Rightarrow> f a)"

lemma bindE_simps [simp]:
  "bindE (Ret (Inl e)) f = Ret (Inl e)"
  "bindE (Ret (Inr a)) f = f a"
  "bindE (Req q k) f = Req q (\<lambda>r. bindE (k r) f)"
  by (simp_all add: bindE_def)

lemma bindP_assoc: "bindP (bindP p f) g = bindP p (\<lambda>a. bindP (f a) g)"
  by (induction p) auto

text \<open>
  \<open>runs p t a\<close>: the program \<open>p\<close> can make the requests of \<open>t\<close> in this order, get the
  answers of \<open>t\<close>, and end with \<open>a\<close>. \<open>emits p t\<close>: \<open>t\<close> is the trace of an execution
  of \<open>p\<close> up to some point, finished or not.
\<close>

inductive runs :: "('q, 'r, 'a) prog \<Rightarrow> ('q \<times> 'r) list \<Rightarrow> 'a \<Rightarrow> bool" where
  runs_Ret: "runs (Ret a) [] a"
| runs_Req: "runs (k r) t a \<Longrightarrow> runs (Req q k) ((q, r) # t) a"

inductive emits :: "('q, 'r, 'a) prog \<Rightarrow> ('q \<times> 'r) list \<Rightarrow> bool" where
  emits_Nil: "emits p []"
| emits_Req: "emits (k r) t \<Longrightarrow> emits (Req q k) ((q, r) # t)"

inductive_cases runs_RetE: "runs (Ret a) t b"
inductive_cases runs_ReqE: "runs (Req q k) t b"
inductive_simps runs_Ret_iff [simp]: "runs (Ret a) t b"
inductive_simps emits_Cons_iff: "emits p (qr # t)"
inductive_simps emits_Ret_Cons [simp]: "emits (Ret a) (qr # t)"

lemma runs_Req_iff: "runs (Req q k) t b \<longleftrightarrow> (\<exists>r t'. t = (q, r) # t' \<and> runs (k r) t' b)"
  by (auto elim: runs_ReqE intro: runs.intros)

lemma emits_Req_iff:
  "emits (Req q k) t \<longleftrightarrow> t = [] \<or> (\<exists>r t'. t = (q, r) # t' \<and> emits (k r) t')"
  by (cases t) (auto simp: emits_Cons_iff intro: emits_Nil)

lemma runs_emits: "runs p t a \<Longrightarrow> emits p t"
  by (induction rule: runs.induct) (auto intro: emits.intros)

lemma emits_prefix: "emits p (t @ u) \<Longrightarrow> emits p t"
proof (induction t arbitrary: p)
  case Nil
  show ?case by (simp add: emits_Nil)
next
  case (Cons qr t)
  then show ?case by (auto simp: emits_Cons_iff)
qed

text \<open>Running a program against a server given as a function of its state.\<close>

primrec exec :: "('s \<Rightarrow> 'q \<Rightarrow> 'r \<times> 's) \<Rightarrow> ('q, 'r, 'a) prog \<Rightarrow> 's \<Rightarrow> 'a \<times> 's" where
  "exec h (Ret a) s = (a, s)"
| "exec h (Req q k) s = (case h s q of (r, s') \<Rightarrow> exec h (k r) s')"

lemma exec_runs: "\<exists>t. runs p t (fst (exec h p s))"
proof (induction p arbitrary: s)
  case (Ret a)
  then show ?case by (auto intro: runs.intros)
next
  case (Req q k)
  obtain r s' where hr: "h s q = (r, s')" by (cases "h s q")
  from Req [of "k r" s'] obtain t where "runs (k r) t (fst (exec h (k r) s'))" by auto
  then show ?case using hr by (auto intro: runs.intros)
qed

lemma exec_bindP: "exec h (bindP p f) s = (case exec h p s of (a, s') \<Rightarrow> exec h (f a) s')"
  by (induction p arbitrary: s) (auto split: prod.split)

text \<open>The trace of a program that gets a given list of answers.\<close>

fun feed :: "('q, 'r, 'a) prog \<Rightarrow> 'r list \<Rightarrow> ('q \<times> 'r) list" where
  "feed (Req q k) (r # rs) = (q, r) # feed (k r) rs"
| "feed p rs = []"

fun feed_result :: "('q, 'r, 'a) prog \<Rightarrow> 'r list \<Rightarrow> 'a option" where
  "feed_result (Ret a) [] = Some a"
| "feed_result (Req q k) (r # rs) = feed_result (k r) rs"
| "feed_result p rs = None"

fun asks :: "('q, 'r, 'a) prog \<Rightarrow> 'r list \<Rightarrow> 'q option" \<comment> \<open>the request after these answers\<close> where
  "asks (Req q k) [] = Some q"
| "asks (Req q k) (r # rs) = asks (k r) rs"
| "asks p rs = None"

lemma emits_asks: "asks p rs = Some q \<Longrightarrow> emits p (feed p rs @ (q, r) # [])"
  by (induction p rs rule: asks.induct) (auto intro: emits.intros)

lemma emits_feed: "emits p (feed p rs)"
  by (induction p rs rule: feed.induct) (auto intro: emits.intros)

lemma runs_feed: "feed_result p rs = Some a \<Longrightarrow> runs p (feed p rs) a"
  by (induction p rs rule: feed_result.induct) (auto intro: runs.intros)

text \<open>A program over one interface on top of an implementation of its requests over another.\<close>

primrec via :: "('q \<Rightarrow> ('p, 's, 'r) prog) \<Rightarrow> ('q, 'r, 'a) prog \<Rightarrow> ('p, 's, 'a) prog" where
  "via f (Ret a) = Ret a"
| "via f (Req q k) = bindP (f q) (\<lambda>r. via f (k r))"

subsection \<open>A rule for traces\<close>

text \<open>
  \<open>safe G Q h p\<close>: whatever the answers, every request \<open>q\<close> that \<open>p\<close> makes after the
  history \<open>h\<close> satisfies \<open>G\<close> at the history of that moment, and a result satisfies \<open>Q\<close>.
  It unfolds along the program, so a property of all traces of a handler is one
  simplification.
\<close>

primrec safe :: "(('q \<times> 'r) list \<Rightarrow> 'q \<Rightarrow> bool) \<Rightarrow> (('q \<times> 'r) list \<Rightarrow> 'a \<Rightarrow> bool)
    \<Rightarrow> ('q, 'r, 'a) prog \<Rightarrow> ('q \<times> 'r) list \<Rightarrow> bool" where
  "safe G Q (Ret a) h = Q h a"
| "safe G Q (Req q k) h = (G h q \<and> (\<forall>r. safe G Q (k r) (h @ [(q, r)])))"

lemma safe_bindP: "safe G Q (bindP p f) h = safe G (\<lambda>h' a. safe G Q (f a) h') p h"
  by (induction p arbitrary: h) auto

lemma safe_bindE:
  "safe G Q (bindE p f) h =
     safe G (\<lambda>h' x. case x of Inl e \<Rightarrow> Q h' (Inl e) | Inr a \<Rightarrow> safe G Q (f a) h') p h"
proof -
  have "(\<lambda>h' x. safe G Q (case x of Inl e \<Rightarrow> Ret (Inl e) | Inr a \<Rightarrow> f a) h')
      = (\<lambda>h' x. case x of Inl e \<Rightarrow> Q h' (Inl e) | Inr a \<Rightarrow> safe G Q (f a) h')"
    by (rule ext, rule ext) (simp split: sum.split)
  then show ?thesis
    by (simp add: bindE_def safe_bindP)
qed

lemma safe_mono:
  assumes "safe G Q p h"
    and "\<And>h q. G h q \<Longrightarrow> G' h q" and "\<And>h a. Q h a \<Longrightarrow> Q' h a"
  shows "safe G' Q' p h"
  using assms(1) by (induction p arbitrary: h) (auto intro: assms(2,3))

lemma runs_bindP: "runs (bindP p f) t y \<longleftrightarrow> (\<exists>u v a. t = u @ v \<and> runs p u a \<and> runs (f a) v y)"
proof (induction p arbitrary: t)
  case (Ret a)
  show ?case by (auto intro: runs.intros elim: runs.cases)
next
  case (Req q k)
  show ?case
  proof
    assume "runs (bindP (Req q k) f) t y"
    then obtain r t' where t: "t = (q, r) # t'" "runs (bindP (k r) f) t' y" by (auto elim: runs.cases)
    with Req.IH [OF rangeI] obtain u v a where "t' = u @ v" "runs (k r) u a" "runs (f a) v y" by auto
    with t show "\<exists>u v a. t = u @ v \<and> runs (Req q k) u a \<and> runs (f a) v y"
      by (intro exI [of _ "(q, r) # u"] exI [of _ v] exI [of _ a]) (auto intro: runs.intros)
  next
    assume "\<exists>u v a. t = u @ v \<and> runs (Req q k) u a \<and> runs (f a) v y"
    then obtain u v a where t: "t = u @ v" "runs (Req q k) u a" "runs (f a) v y" by blast
    then obtain r u' where u: "u = (q, r) # u'" "runs (k r) u' a" by (auto elim: runs.cases)
    then have "runs (bindP (k r) f) (u' @ v) y" using t(3) Req.IH [OF rangeI] by blast
    with t(1) u(1) show "runs (bindP (Req q k) f) t y" by (auto intro!: runs.intros)
  qed
qed

lemma safe_emits:
  "safe G Q p h \<Longrightarrow> emits p (t @ (q, r) # u) \<Longrightarrow> G (h @ t) q"
proof (induction t arbitrary: p h)
  case Nil
  then show ?case by (auto elim: emits.cases)
next
  case (Cons qr t)
  obtain q' r' where qr: "qr = (q', r')" by (cases qr)
  from Cons.prems(2) qr obtain k where p: "p = Req q' k" and e: "emits (k r') (t @ (q, r) # u)"
    by (auto simp: emits_Cons_iff)
  from Cons.prems(1) p have "safe G Q (k r') (h @ [(q', r')])" by simp
  from Cons.IH [OF this e] show ?case by (simp add: qr)
qed

lemma safe_runs: "safe G Q p h \<Longrightarrow> runs p t a \<Longrightarrow> Q (h @ t) a"
proof (induction t arbitrary: p h)
  case Nil
  then show ?case by (auto elim: runs.cases)
next
  case (Cons qr t)
  obtain q' r' where qr: "qr = (q', r')" by (cases qr)
  from Cons.prems(2) qr obtain k where p: "p = Req q' k" and e: "runs (k r') t a"
    by (auto elim: runs.cases)
  from Cons.prems(1) p have "safe G Q (k r') (h @ [(q', r')])" by simp
  from Cons.IH [OF this e] show ?case by (simp add: qr)
qed

subsection \<open>A rule for the state behind the requests\<close>

text \<open>
  \<open>track step I Q p s\<close>: if the outside world is in state \<open>s\<close> and moves by
  \<open>step (request, answer)\<close>, then whatever the answers, \<open>I\<close> holds of it before and after every
  request of \<open>p\<close>, and \<open>Q\<close> holds of it and the result at the end. A process killed at any
  moment therefore leaves a world in which \<open>I\<close> holds.
\<close>

primrec track :: "('q \<times> 'r \<Rightarrow> 's \<Rightarrow> 's) \<Rightarrow> ('s \<Rightarrow> bool) \<Rightarrow> ('s \<Rightarrow> 'a \<Rightarrow> bool)
    \<Rightarrow> ('q, 'r, 'a) prog \<Rightarrow> 's \<Rightarrow> bool" where
  "track step I Q (Ret a) s = (I s \<and> Q s a)"
| "track step I Q (Req q k) s = (I s \<and> (\<forall>r. track step I Q (k r) (step (q, r) s)))"

lemma track_inv: "track step I Q p s \<Longrightarrow> I s"
  by (cases p) auto

lemma track_bindP:
  "track step I Q (bindP p f) s = track step I (\<lambda>s' a. track step I Q (f a) s') p s"
proof (induction p arbitrary: s)
  case (Ret a)
  then show ?case by (auto dest: track_inv)
qed simp

lemma track_bindE:
  "track step I Q (bindE p f) s =
     track step I (\<lambda>s' x. case x of Inl e \<Rightarrow> I s' \<and> Q s' (Inl e) | Inr a \<Rightarrow> track step I Q (f a) s') p s"
proof -
  have "(\<lambda>s' x. track step I Q (case x of Inl e \<Rightarrow> Ret (Inl e) | Inr a \<Rightarrow> f a) s')
      = (\<lambda>s' x. case x of Inl e \<Rightarrow> I s' \<and> Q s' (Inl e) | Inr a \<Rightarrow> track step I Q (f a) s')"
    by (rule ext, rule ext) (simp split: sum.split)
  then show ?thesis
    by (simp add: bindE_def track_bindP)
qed

lemma track_mono:
  assumes "track step I Q p s" and "\<And>s a. I s \<Longrightarrow> Q s a \<Longrightarrow> Q' s a"
  shows "track step I Q' p s"
  using assms(1) by (induction p arbitrary: s) (auto intro: assms(2))

lemma track_emits: "track step I Q p s \<Longrightarrow> emits p t \<Longrightarrow> I (fold step t s)"
proof (induction t arbitrary: p s)
  case Nil
  then show ?case by (auto dest: track_inv)
next
  case (Cons qr t)
  obtain q r where qr: "qr = (q, r)" by (cases qr)
  with Cons.prems(2) obtain k where "p = Req q k" "emits (k r) t"
    by (auto simp: emits_Cons_iff)
  with Cons.prems(1) Cons.IH [of "k r"] qr show ?case by auto
qed

lemma track_runs: "track step I Q p s \<Longrightarrow> runs p t a \<Longrightarrow> Q (fold step t s) a"
proof (induction t arbitrary: p s)
  case Nil
  then show ?case by (auto elim: runs.cases)
next
  case (Cons qr t)
  obtain q r where qr: "qr = (q, r)" by (cases qr)
  with Cons.prems(2) obtain k where "p = Req q k" "runs (k r) t a"
    by (auto elim: runs.cases)
  with Cons.prems(1) Cons.IH [of "k r"] qr show ?case by auto
qed

subsection \<open>Handlers with a state\<close>

text \<open>
  A method of an object that keeps a state: a program that takes the state and returns it, updated,
  together with a result. \<open>wp\<close> is \<open>safe\<close> for such a method, with the state of the moment
  as one more argument of the postcondition.
\<close>

type_synonym ('s, 'q, 'r, 'a) act = "'s \<Rightarrow> ('q, 'r, 's \<times> 'a) prog"

definition retA :: "'a \<Rightarrow> ('s, 'q, 'r, 'a) act" where
  "retA x = (\<lambda>s. Ret (s, x))"

definition doA :: "('q, 'r, 'a) prog \<Rightarrow> ('s, 'q, 'r, 'a) act" where
  "doA p = (\<lambda>s. bindP p (\<lambda>x. Ret (s, x)))"

definition readA :: "('s \<Rightarrow> ('s, 'q, 'r, 'a) act) \<Rightarrow> ('s, 'q, 'r, 'a) act" where
  "readA f = (\<lambda>s. f s s)"

definition modA :: "('s \<Rightarrow> 's) \<Rightarrow> ('s, 'q, 'r, unit res) act" where
  "modA f = (\<lambda>s. Ret (f s, Inr ()))"

definition bindA :: "('s, 'q, 'r, 'a) act \<Rightarrow> ('a \<Rightarrow> ('s, 'q, 'r, 'b) act) \<Rightarrow> ('s, 'q, 'r, 'b) act" where
  "bindA m f = (\<lambda>s. bindP (m s) (\<lambda>(s', x). f x s'))"

definition tryA :: "('s, 'q, 'r, 'a res) act \<Rightarrow> ('a \<Rightarrow> ('s, 'q, 'r, 'b res) act) \<Rightarrow> ('s, 'q, 'r, 'b res) act" where
  "tryA m f = bindA m (\<lambda>x. case x of Inl e \<Rightarrow> retA (Inl e) | Inr a \<Rightarrow> f a)"

lemmas act_defs = retA_def doA_def readA_def modA_def bindA_def tryA_def

lemma tryA_retA [simp]: "tryA (retA (Inr v)) f = f v" "tryA (retA (Inl e)) f = retA (Inl e)"
  by (simp_all add: tryA_def bindA_def retA_def)

definition wp :: "(('q \<times> 'r) list \<Rightarrow> 'q \<Rightarrow> bool) \<Rightarrow> (('q \<times> 'r) list \<Rightarrow> 's \<Rightarrow> 'a \<Rightarrow> bool)
    \<Rightarrow> ('s, 'q, 'r, 'a) act \<Rightarrow> ('q \<times> 'r) list \<Rightarrow> 's \<Rightarrow> bool" where
  "wp G Q m h s = safe G (\<lambda>h' (s', x). Q h' s' x) (m s) h"

lemma wp_retA [simp]: "wp G Q (retA x) h s = Q h s x"
  by (simp add: wp_def retA_def)

lemma wp_modA [simp]: "wp G Q (modA f) h s = Q h (f s) (Inr ())"
  by (simp add: wp_def modA_def)

lemma wp_readA [simp]: "wp G Q (readA f) h s = wp G Q (f s) h s"
  by (simp add: wp_def readA_def)

lemma wp_doA [simp]: "wp G Q (doA p) h s = safe G (\<lambda>h' x. Q h' s x) p h"
  by (simp add: wp_def doA_def safe_bindP)

lemma wp_bindA: "wp G Q (bindA m f) h s = wp G (\<lambda>h' s' x. wp G Q (f x) h' s') m h s"
proof -
  have "(\<lambda>h' a. safe G (\<lambda>h' (s', x). Q h' s' x) (case a of (s', x) \<Rightarrow> f x s') h')
      = (\<lambda>h' (s', x). safe G (\<lambda>h' (s', x). Q h' s' x) (f x s') h')"
    by (auto simp: fun_eq_iff)
  then show ?thesis by (simp add: wp_def bindA_def safe_bindP)
qed

lemma wp_tryA:
  "wp G Q (tryA m f) h s =
     wp G (\<lambda>h' s' x. case x of Inl e \<Rightarrow> Q h' s' (Inl e) | Inr a \<Rightarrow> wp G Q (f a) h' s') m h s"
proof -
  have "(\<lambda>h' s' x. wp G Q (case x of Inl e \<Rightarrow> retA (Inl e) | Inr a \<Rightarrow> f a) h' s')
      = (\<lambda>h' s' x. case x of Inl e \<Rightarrow> Q h' s' (Inl e) | Inr a \<Rightarrow> wp G Q (f a) h' s')"
    by (rule ext)+ (simp split: sum.split)
  then show ?thesis by (simp add: tryA_def wp_bindA)
qed

lemma wp_mono:
  assumes "wp G Q m h s" and "\<And>h' s' x. Q h' s' x \<Longrightarrow> Q' h' s' x"
  shows "wp G Q' m h s"
  using assms(1) unfolding wp_def by (rule safe_mono) (auto intro: assms(2))

lemma wp_bindI:
  assumes "wp G P m h s" and "\<And>h' s' x. P h' s' x \<Longrightarrow> wp G Q (f x) h' s'"
  shows "wp G Q (bindA m f) h s"
  unfolding wp_bindA by (rule wp_mono [OF assms])

lemma wp_tryI:
  assumes "wp G P m h s" and "\<And>h' s' e. P h' s' (Inl e) \<Longrightarrow> Q h' s' (Inl e)"
    and "\<And>h' s' v. P h' s' (Inr v) \<Longrightarrow> wp G Q (f v) h' s'"
  shows "wp G Q (tryA m f) h s"
  unfolding wp_tryA by (rule wp_mono [OF assms(1)]) (auto intro: assms(2,3) split: sum.split)

text \<open>The history only grows.\<close>

lemma safe_history: "safe G Q p h \<Longrightarrow> safe G (\<lambda>h' x. Q h' x \<and> (\<exists>t. h' = h @ t)) p h"
proof -
  have "safe G Q p h' \<Longrightarrow> \<exists>t. h' = h @ t \<Longrightarrow> safe G (\<lambda>h' x. Q h' x \<and> (\<exists>t. h' = h @ t)) p h'" for h'
    by (induction p arbitrary: h') auto
  then show "safe G Q p h \<Longrightarrow> ?thesis" by auto
qed

lemma safe_any: "safe (\<lambda>h q. True) (\<lambda>h' x. True) p h"
  by (induction p arbitrary: h) auto

lemma wp_any: "(\<And>t s' x. Q (h @ t) s' x) \<Longrightarrow> wp (\<lambda>h q. True) Q m h s"
  unfolding wp_def by (rule safe_mono [OF safe_history [OF safe_any]]) auto

lemma safe_unguarded: "safe G Q p h \<Longrightarrow> safe (\<lambda>h q. True) Q p h"
  by (induction p arbitrary: h) auto

lemma wp_history: "wp G Q m h s \<Longrightarrow> wp G (\<lambda>h' s' x. Q h' s' x \<and> (\<exists>t. h' = h @ t)) m h s"
  unfolding wp_def by (drule safe_history, erule safe_mono) auto

lemma wp_emits: "wp G Q m h s \<Longrightarrow> emits (m s) (t @ (q, r) # u) \<Longrightarrow> G (h @ t) q"
  unfolding wp_def by (rule safe_emits)

lemma wp_runs: "wp G Q m h s \<Longrightarrow> runs (m s) t (s', x) \<Longrightarrow> Q (h @ t) s' x"
  unfolding wp_def by (drule safe_runs) auto

end
