(* ===== verification/Go_Std.thy ===== *)
theory Go_Std
  imports Prelude "HOL-Library.Char_ord" "HOL-Library.List_Lexorder" "HOL-Library.Sublist"
begin

section \<open>The Go standard library functions the sources use\<close>

text \<open>
  A Go string is its list of bytes, so \<open>length\<close> is Go's \<open>len\<close> and the order of
  \<open>List_Lexorder\<close> over \<open>Char_ord\<close> is Go's string order. Each definition states what the
  sources rely on of \<open>strings\<close>, \<open>strconv\<close>, \<open>fmt\<close>, \<open>unicode/utf8\<close>, \<open>time\<close> and
  \<open>encoding/hex\<close>.
\<close>

subsection \<open>Package strings\<close>

definition byte :: "char \<Rightarrow> nat" where
  "byte c = (of_char c :: nat)"

definition bytechar :: "nat \<Rightarrow> char" where
  "bytechar n = (char_of n :: char)"

lemma byte_bytechar [simp]: "byte (bytechar n) = n mod 256"
  by (simp add: byte_def bytechar_def)

lemma byte_less [simp]: "byte c < 256"
  using nat_of_char_less_256 [of c] by (simp add: byte_def)

definition char_between :: "char \<Rightarrow> char \<Rightarrow> char \<Rightarrow> bool" where
  "char_between lo hi c \<longleftrightarrow> byte lo \<le> byte c \<and> byte c \<le> byte hi"

definition is_digit :: "char \<Rightarrow> bool" where
  "is_digit = char_between (CHR ''0'') (CHR ''9'')"

definition is_lower :: "char \<Rightarrow> bool" where
  "is_lower = char_between (CHR ''a'') (CHR ''z'')"

definition is_upper :: "char \<Rightarrow> bool" where
  "is_upper = char_between (CHR ''A'') (CHR ''Z'')"

definition is_hex :: "char \<Rightarrow> bool" \<comment> \<open>lowercase hexadecimal\<close> where
  "is_hex c \<longleftrightarrow> is_digit c \<or> char_between (CHR ''a'') (CHR ''f'') c"

lemmas char_class_defs = char_between_def is_digit_def is_lower_def is_upper_def is_hex_def byte_def

definition TrimSuffix :: "string \<Rightarrow> string \<Rightarrow> string" where
  "TrimSuffix s suf = (if length suf \<le> length s \<and> drop (length s - length suf) s = suf
     then take (length s - length suf) s else s)"

definition HasPrefix :: "string \<Rightarrow> string \<Rightarrow> bool" where
  "HasPrefix s p \<longleftrightarrow> take (length p) s = p"

definition TrimPrefix :: "string \<Rightarrow> string \<Rightarrow> string" where
  "TrimPrefix s p = (if HasPrefix s p then drop (length p) s else s)"

definition ContainsNUL :: "string \<Rightarrow> bool" where
  "ContainsNUL s \<longleftrightarrow> list_ex (\<lambda>c. byte c = 0) s"

fun Join :: "string list \<Rightarrow> string \<Rightarrow> string" where
  "Join [] sep = []"
| "Join [x] sep = x"
| "Join (x # y # ys) sep = x @ sep @ Join (y # ys) sep"

text \<open>The UTF-8 encodings of the Unicode white space runes, which \<open>strings.TrimSpace\<close> removes.\<close>

definition space_runes :: "string list" where
  "space_runes =
     [[CHR 0x09], [CHR 0x0A], [CHR 0x0B], [CHR 0x0C], [CHR 0x0D], [CHR 0x20],
      [CHR 0xC2, CHR 0x85], [CHR 0xC2, CHR 0xA0], [CHR 0xE1, CHR 0x9A, CHR 0x80]]
     @ map (\<lambda>b. [CHR 0xE2, CHR 0x80, b])
         [CHR 0x80, CHR 0x81, CHR 0x82, CHR 0x83, CHR 0x84, CHR 0x85, CHR 0x86, CHR 0x87, CHR 0x88, CHR 0x89,
          CHR 0x8A, CHR 0xA8, CHR 0xA9, CHR 0xAF]
     @ [[CHR 0xE2, CHR 0x81, CHR 0x9F], [CHR 0xE3, CHR 0x80, CHR 0x80]]"

lemma HasPrefix_shorter: "HasPrefix s w \<Longrightarrow> w \<noteq> [] \<Longrightarrow> length s - length w < length s"
  unfolding HasPrefix_def by (cases s; cases w) auto

function trim_front :: "string list \<Rightarrow> string \<Rightarrow> string" where
  "trim_front ws s =
     (case find (\<lambda>w. w \<noteq> [] \<and> HasPrefix s w) ws of
        None \<Rightarrow> s
      | Some w \<Rightarrow> trim_front ws (drop (length w) s))"
  by pat_completeness auto
termination
  by (relation "measure (\<lambda>(ws, s). length s)") (auto simp: find_Some_iff intro: HasPrefix_shorter)

declare trim_front.simps [simp del]

definition TrimSpace :: "string \<Rightarrow> string" where
  "TrimSpace s = rev (trim_front (map rev space_runes) (rev (trim_front space_runes s)))"

fun LastIndex :: "string \<Rightarrow> char \<Rightarrow> int" where
  "LastIndex s c =
     (if c \<in> set s then int (length s) - 1 - int (length (takeWhile (\<lambda>d. d \<noteq> c) (rev s))) else - 1)"

declare LastIndex.simps [simp del]

subsection \<open>Package strconv and fmt\<close>

definition digit_char :: "nat \<Rightarrow> char" where
  "digit_char d = bytechar (48 + d)"

function format_nat :: "int \<Rightarrow> string" \<comment> \<open>of a non-negative number\<close> where
  "format_nat n =
     (if n < 10 then [digit_char (nat n)] else format_nat (n div 10) @ [digit_char (nat (n mod 10))])"
  by pat_completeness auto
termination
  by (relation "measure nat") auto

declare format_nat.simps [simp del]

definition FormatInt :: "int \<Rightarrow> string" where
  "FormatInt i = (if i < 0 then CHR ''-'' # format_nat (- i) else format_nat i)"

fun parse_digits :: "int \<Rightarrow> string \<Rightarrow> int option" where
  "parse_digits acc [] = Some acc"
| "parse_digits acc (c # cs) =
     (if is_digit c then parse_digits (10 * acc + (int (byte c) - 48)) cs else None)"

text \<open>\<open>strconv.ParseInt (s, 10, 64)\<close>; \<open>None\<close> is a syntax or range error.\<close>

definition ParseInt :: "string \<Rightarrow> int option" where
  "ParseInt s =
     (case s of
        [] \<Rightarrow> None
      | c # cs \<Rightarrow>
         (let neg = (c = CHR ''-''); ds = (if c = CHR ''-'' \<or> c = CHR ''+'' then cs else s)
          in if ds = [] then None
             else case parse_digits 0 ds of
                    None \<Rightarrow> None
                  | Some n \<Rightarrow>
                     (let v = (if neg then - n else n)
                      in if in_int64 v then Some v else None)))"

text \<open>\<open>%q\<close> of a string of printable runes: quotes and backslashes are escaped.\<close>

definition fmt_q :: "string \<Rightarrow> string" where
  "fmt_q s = [bytechar 34] @ concat (map (\<lambda>c. if byte c = 34 \<or> byte c = 92 then [bytechar 92, c] else [c]) s) @ [bytechar 34]"

lemma digit_char_props:
  "d < 10 \<Longrightarrow> is_digit (digit_char d) \<and> byte (digit_char d) = 48 + d"
  by (simp add: digit_char_def is_digit_def char_between_def) (simp add: byte_def)

lemma parse_digits_append:
  "parse_digits acc (xs @ ys) = (case parse_digits acc xs of None \<Rightarrow> None | Some a \<Rightarrow> parse_digits a ys)"
  by (induction xs arbitrary: acc) auto

lemma parse_format_nat: "0 \<le> n \<Longrightarrow> parse_digits 0 (format_nat n) = Some n"
proof (induction n rule: format_nat.induct)
  case (1 n)
  show ?case
  proof (cases "n < 10")
    case True
    then show ?thesis
      using digit_char_props [of "nat n"] 1(2) by (subst format_nat.simps) simp
  next
    case False
    have "nat (n mod 10) < 10" by simp
    with False 1 digit_char_props [of "nat (n mod 10)"] show ?thesis
      by (subst format_nat.simps) (simp add: parse_digits_append)
  qed
qed

lemma format_nat_digits: "0 \<le> n \<Longrightarrow> format_nat n \<noteq> [] \<and> list_all is_digit (format_nat n)"
proof (induction n rule: format_nat.induct)
  case (1 n)
  have "nat (n mod 10) < 10" by simp
  with 1 digit_char_props [of "nat n"] digit_char_props [of "nat (n mod 10)"] show ?case
    by (subst (1 2) format_nat.simps) auto
qed

lemma is_digit_not_sign: "is_digit c \<Longrightarrow> c \<noteq> CHR ''-'' \<and> c \<noteq> CHR ''+''"
  by (auto simp: char_class_defs)

lemma ParseInt_FormatInt:
  assumes "in_int64 i"
  shows "ParseInt (FormatInt i) = Some i"
proof (cases "i < 0")
  case True
  with assms show ?thesis
    using format_nat_digits [of "- i"]
    by (simp add: ParseInt_def FormatInt_def parse_format_nat Let_def)
next
  case False
  obtain c cs where c: "format_nat i = c # cs"
    using format_nat_digits [of i] False by (cases "format_nat i") auto
  with format_nat_digits [of i] False have "c \<noteq> CHR ''-''" "c \<noteq> CHR ''+''"
    using is_digit_not_sign by auto
  with False assms c parse_format_nat [of i] show ?thesis
    by (simp add: ParseInt_def FormatInt_def)
qed

lemma ParseInt_range: "ParseInt s = Some i \<Longrightarrow> in_int64 i"
  by (auto simp: ParseInt_def Let_def split: list.splits option.splits if_splits)

subsection \<open>Package unicode/utf8\<close>

definition cont_byte :: "char \<Rightarrow> bool" where
  "cont_byte c \<longleftrightarrow> 0x80 \<le> byte c \<and> byte c \<le> 0xBF"

text \<open>The bytes that the first rune of a string takes; a byte that starts no valid encoding is one rune.\<close>

fun rune_len :: "string \<Rightarrow> nat" where
  "rune_len [] = 0"
| "rune_len (a # s) =
     (let b = byte a in
      if 0xC2 \<le> b \<and> b \<le> 0xDF \<and> 1 \<le> length s \<and> cont_byte (s ! 0) then 2
      else if 0xE0 \<le> b \<and> b \<le> 0xEF \<and> 2 \<le> length s \<and> cont_byte (s ! 0) \<and> cont_byte (s ! 1)
         \<and> (b = 0xE0 \<longrightarrow> 0xA0 \<le> byte (s ! 0)) \<and> (b = 0xED \<longrightarrow> byte (s ! 0) \<le> 0x9F) then 3
      else if 0xF0 \<le> b \<and> b \<le> 0xF4 \<and> 3 \<le> length s \<and> cont_byte (s ! 0) \<and> cont_byte (s ! 1) \<and> cont_byte (s ! 2)
         \<and> (b = 0xF0 \<longrightarrow> 0x90 \<le> byte (s ! 0)) \<and> (b = 0xF4 \<longrightarrow> byte (s ! 0) \<le> 0x8F) then 4
      else 1)"

lemma rune_len_pos: "s \<noteq> [] \<Longrightarrow> 0 < rune_len s"
  by (cases s) (auto simp: Let_def)

function RuneCountInString :: "string \<Rightarrow> nat" where
  "RuneCountInString s = (if s = [] then 0 else Suc (RuneCountInString (drop (rune_len s) s)))"
  by pat_completeness auto
termination
  by (relation "measure length") (auto simp: rune_len_pos)

declare RuneCountInString.simps [simp del]

lemma RuneCount_le_length: "RuneCountInString s \<le> length s"
proof (induction s rule: RuneCountInString.induct)
  case (1 s)
  show ?case
  proof (cases "s = []")
    case True
    then show ?thesis by (simp add: RuneCountInString.simps)
  next
    case False
    then have "0 < length s" "0 < rune_len s" by (auto simp: rune_len_pos)
    moreover have "RuneCountInString (drop (rune_len s) s) \<le> length s - rune_len s"
      using 1 False by simp
    ultimately have "Suc (RuneCountInString (drop (rune_len s) s)) \<le> length s"
      by linarith
    with False show ?thesis
      by (subst RuneCountInString.simps) simp
  qed
qed

subsection \<open>Package time\<close>

definition second :: Duration where
  "second = 1000000000"

definition minute :: Duration where
  "minute = 60 * second"

text \<open>\<open>t.Sub (u)\<close> saturates at the bounds of a \<open>Duration\<close>.\<close>

definition time_Sub :: "Time \<Rightarrow> Time \<Rightarrow> Duration" where
  "time_Sub t u = max min_int64 (min max_int64 (t - u))"

lemma time_Sub_exact: "in_int64 (t - u) \<Longrightarrow> time_Sub t u = t - u"
  by (simp add: time_Sub_def in_int64_def)

lemma time_Sub_le: "d < max_int64 \<Longrightarrow> min_int64 \<le> d \<Longrightarrow> time_Sub t u \<le> d \<longleftrightarrow> t - u \<le> d"
  by (auto simp: time_Sub_def)

subsection \<open>Package sort\<close>

text \<open>
  \<open>sort.Slice\<close> with a comparison function. Go does not fix the order of elements that the
  comparison does not separate; the model keeps theirs.
\<close>

fun insert_slice :: "('a \<Rightarrow> 'a \<Rightarrow> bool) \<Rightarrow> 'a \<Rightarrow> 'a list \<Rightarrow> 'a list" where
  "insert_slice lt x [] = [x]"
| "insert_slice lt x (y # ys) = (if lt y x then y # insert_slice lt x ys else x # y # ys)"

definition sort_Slice :: "('a \<Rightarrow> 'a \<Rightarrow> bool) \<Rightarrow> 'a list \<Rightarrow> 'a list" where
  "sort_Slice lt xs = foldr (insert_slice lt) xs []"

definition strict_weak :: "('a \<Rightarrow> 'a \<Rightarrow> bool) \<Rightarrow> bool" where
  "strict_weak lt \<longleftrightarrow> (\<forall>x. \<not> lt x x) \<and> (\<forall>x y z. lt x y \<longrightarrow> lt y z \<longrightarrow> lt x z)
     \<and> (\<forall>x y z. \<not> lt x y \<longrightarrow> \<not> lt y z \<longrightarrow> \<not> lt x z)"

lemma set_insert_slice [simp]: "set (insert_slice lt x ys) = insert x (set ys)"
  by (induction ys) auto

lemma set_sort_Slice [simp]: "set (sort_Slice lt xs) = set xs"
  by (induction xs) (auto simp: sort_Slice_def)

lemma length_insert_slice [simp]: "length (insert_slice lt x ys) = Suc (length ys)"
  by (induction ys) auto

lemma length_sort_Slice [simp]: "length (sort_Slice lt xs) = length xs"
  by (induction xs) (auto simp: sort_Slice_def)

lemma mset_insert_slice: "count_list (insert_slice lt x ys) a = count_list (x # ys) a"
  by (induction ys) auto

lemma sorted_insert_slice:
  assumes "strict_weak lt" and "sorted_wrt (\<lambda>a b. \<not> lt b a) ys"
  shows "sorted_wrt (\<lambda>a b. \<not> lt b a) (insert_slice lt x ys)"
  using assms(2)
proof (induction ys)
  case (Cons y ys)
  show ?case
  proof (cases "lt y x")
    case True
    then have "\<not> lt x y"
      using assms(1) unfolding strict_weak_def by blast
    with True Cons show ?thesis by auto
  next
    case False
    have "\<not> lt z x" if "z \<in> set ys" for z
    proof -
      from that Cons.prems have "\<not> lt z y" by simp
      with False assms(1) show ?thesis unfolding strict_weak_def by blast
    qed
    with False Cons show ?thesis by auto
  qed
qed simp

lemma sorted_sort_Slice:
  assumes "strict_weak lt"
  shows "sorted_wrt (\<lambda>a b. \<not> lt b a) (sort_Slice lt xs)"
proof (induction xs)
  case Nil
  show ?case by (simp add: sort_Slice_def)
next
  case (Cons x xs)
  then show ?case
    using sorted_insert_slice [OF assms] by (simp add: sort_Slice_def)
qed

lemma distinct_insert_slice: "distinct (map f (insert_slice lt x ys)) = distinct (map f (x # ys))"
  by (induction ys) auto

lemma distinct_sort_Slice: "distinct (map f (sort_Slice lt xs)) = distinct (map f xs)"
proof (induction xs)
  case (Cons x xs)
  have "distinct (map f (sort_Slice lt (x # xs))) = distinct (map f (x # sort_Slice lt xs))"
    by (simp only: sort_Slice_def foldr.simps comp_def distinct_insert_slice)
  also have "\<dots> = distinct (map f (x # xs))" using Cons by simp
  finally show ?case .
qed (simp add: sort_Slice_def)

lemma sorted_sort_Slice_less: "sorted (sort_Slice (<) (xs :: 'a :: linorder list))"
proof -
  have "strict_weak ((<) :: 'a \<Rightarrow> 'a \<Rightarrow> bool)" by (auto simp: strict_weak_def)
  from sorted_sort_Slice [OF this, of xs] show ?thesis by (simp add: not_less)
qed

lemma sort_Slice_hd_least:
  assumes "strict_weak lt" and "x \<in> set xs"
  shows "\<not> lt x (hd (sort_Slice lt xs))"
proof -
  have ne: "sort_Slice lt xs \<noteq> []"
    using assms(2) set_sort_Slice [of lt xs] by (metis empty_iff list.set(1))
  then obtain y ys where y: "sort_Slice lt xs = y # ys" by (cases "sort_Slice lt xs") auto
  have "x \<in> set (y # ys)"
    using assms(2) by (simp flip: y)
  then consider "x = y" | "x \<in> set ys" by auto
  then show ?thesis
  proof cases
    case 1
    with assms(1) y show ?thesis by (simp add: strict_weak_def)
  next
    case 2
    with sorted_sort_Slice [OF assms(1), of xs] y show ?thesis by simp
  qed
qed

subsection \<open>Package encoding/hex\<close>

definition hex_digit :: "nat \<Rightarrow> char" where
  "hex_digit d = (if d < 10 then bytechar (48 + d) else bytechar (87 + d))"

definition hex_byte :: "nat \<Rightarrow> string" where
  "hex_byte b = [hex_digit (b div 16), hex_digit (b mod 16)]"

definition EncodeToString :: "nat list \<Rightarrow> string" where
  "EncodeToString bs = concat (map hex_byte bs)"

lemma hex_digit_is_hex: "d < 16 \<Longrightarrow> is_hex (hex_digit d)"
  by (simp add: hex_digit_def is_hex_def is_digit_def char_between_def) (simp add: byte_def)

lemma length_EncodeToString: "length (EncodeToString bs) = 2 * length bs"
  by (induction bs) (auto simp: EncodeToString_def hex_byte_def)

lemma EncodeToString_is_hex:
  "list_all (\<lambda>b. b < 256) bs \<Longrightarrow> list_all is_hex (EncodeToString bs)"
  by (induction bs) (auto simp: EncodeToString_def hex_byte_def intro!: hex_digit_is_hex)

subsection \<open>Fields of a string\<close>

text \<open>\<open>strings.Split\<close> at a one-byte separator.\<close>

fun splitOn :: "char \<Rightarrow> string \<Rightarrow> string list" where
  "splitOn c [] = [[]]"
| "splitOn c (d # s) =
     (if d = c then [] # splitOn c s
      else case splitOn c s of [] \<Rightarrow> [[d]] | f # fs \<Rightarrow> (d # f) # fs)"

lemma splitOn_none: "c \<notin> set x \<Longrightarrow> splitOn c x = [x]"
  by (induction x) auto

lemma splitOn_append: "c \<notin> set x \<Longrightarrow> splitOn c (x @ c # rest) = x # splitOn c rest"
  by (induction x) auto

lemma splitOn_nonempty: "splitOn c s \<noteq> []"
  by (induction s) (auto split: list.split)

lemma splitOn_sep: "splitOn c (x @ c # y) = splitOn c x @ splitOn c y"
  by (induction x) (auto split: list.split simp: splitOn_nonempty)

lemma Join_Cons: "Join ((d # f) # fs) sep = d # Join (f # fs) sep"
  by (cases fs) simp_all

lemma Join_splitOn: "Join (splitOn c s) [c] = s"
proof (induction s)
  case (Cons d s)
  obtain f fs where "splitOn c s = f # fs" using splitOn_nonempty by (cases "splitOn c s") auto
  with Cons show ?case by (simp add: Join_Cons)
qed simp

end
