(* ===== verification/API_Types.thy ===== *)
theory API_Types
  imports Go_Std
begin

section \<open>The native API types\<close>

text \<open>
  The resource types of \<open>api/native/v1alpha1/types.go\<close>: workloads, catalog models, hosts and
  the per-host assignment mailbox. A struct is a record whose fields carry the struct's
  initials, a pointer is an \<open>option\<close>, an enumeration stays the string it is in the code. Of
  the Kubernetes metadata types the fields the sources read or write are kept; DeepCopy is the
  identity, because values are not shared.
\<close>

subsection \<open>Constants\<close>

abbreviation "APIVersionNative \<equiv> ''ai.idleloom.io/v1alpha1''"
abbreviation "WorkloadModeServer \<equiv> ''Server''"
abbreviation "WorkloadModeBatch \<equiv> ''Batch''"
abbreviation "WorkloadModeShell \<equiv> ''Shell''"
abbreviation "WorkloadModeTrain \<equiv> ''Train''"
abbreviation "RuntimeProfileMLXLMV1 \<equiv> ''mlx-lm-v1''"
abbreviation "RuntimeProfileOllamaGGUFV1 \<equiv> ''ollama-gguf-v1''"
abbreviation "RuntimeProfileLlamaCppMetalV1 \<equiv> ''llama-cpp-metal-v1''"
abbreviation "RuntimeProfileMLXTrainV1 \<equiv> ''mlx-train-v1''"
abbreviation "RuntimeProfileShellV1 \<equiv> ''shell-v1''"
abbreviation "ModelFamilyQwen35 \<equiv> ''qwen3.5''"
abbreviation "ModelFamilyMLX \<equiv> ''mlx''"
abbreviation "ModelFamilyOllamaGGUF \<equiv> ''ollama-gguf''"
abbreviation "ModelFamilyGGUF \<equiv> ''gguf''"
abbreviation "ArtifactFormatSafetensorsV1 \<equiv> ''mlx-safetensors-v1''"
abbreviation "ArtifactFormatGGUFV1 \<equiv> ''gguf-v1''"
abbreviation "AgentProtocolV1Alpha1 \<equiv> ''native.ai.idleloom.io/v1alpha1''"
abbreviation "CapabilityBatchInferenceV1 \<equiv> ''BatchInferenceV1''"
abbreviation "CapabilityNativeServiceV1 \<equiv> ''NativeServiceV1''"
abbreviation "CapabilityNativeTrainingV1 \<equiv> ''NativeTrainingV1''"
abbreviation "CapabilityMemoryProfileV1 \<equiv> ''memory-profile-v1''"
abbreviation "NativeServingPort \<equiv> (18080 :: int32)"
abbreviation "MaxBatchInferenceTokens \<equiv> (32768 :: int32)"
abbreviation "KrunkitStateStopped \<equiv> ''Stopped''"
abbreviation "KrunkitStateRunning \<equiv> ''Running''"
abbreviation "AssignmentDesiredRunning \<equiv> ''Running''"
abbreviation "AssignmentDesiredStopped \<equiv> ''Stopped''"
abbreviation "AssignmentMailboxName \<equiv> ''active''"
abbreviation "WorkloadFinalizer \<equiv> ''native.ai.idleloom.io/stop''"
abbreviation "HostConditionReady \<equiv> ''Ready''"
abbreviation "HostConditionConnected \<equiv> ''Connected''"
abbreviation "HostConditionDevelopmentOnly \<equiv> ''DevelopmentOnly''"
abbreviation "HostConditionMemoryVerified \<equiv> ''MemoryVerified''"
abbreviation "WorkloadConditionReady \<equiv> ''Ready''"
abbreviation "ModelConditionMemoryProfileMeasured \<equiv> ''MemoryProfileMeasured''"
abbreviation "ConnectivityModeAPIOnly \<equiv> ''APIOnly''"
abbreviation "ConnectivityModeWireKubeLeaf \<equiv> ''WireKubeLeaf''"
abbreviation "ShellAccessDisabled \<equiv> ''Disabled''"
abbreviation "ShellAccessSandboxed \<equiv> ''Sandboxed''"
abbreviation "ShellAccessHost \<equiv> ''Host''"
abbreviation "ShellIsolationSandbox \<equiv> ''Sandbox''"
abbreviation "ShellIsolationHost \<equiv> ''Host''"
abbreviation "ShellNetworkNone \<equiv> ''None''"
abbreviation "ShellNetworkOutbound \<equiv> ''Outbound''"
abbreviation "PhaseScheduling \<equiv> ''Scheduling''"
abbreviation "PhaseAssigned \<equiv> ''Assigned''"
abbreviation "PhaseStarting \<equiv> ''Starting''"
abbreviation "PhaseRunning \<equiv> ''Running''"
abbreviation "PhaseBlocked \<equiv> ''Blocked''"
abbreviation "PhaseFailed \<equiv> ''Failed''"
abbreviation "PhaseFenced \<equiv> ''Fenced''"
abbreviation "PhaseStopped \<equiv> ''Stopped''"
abbreviation "PhaseSucceeded \<equiv> ''Succeeded''"

definition DefaultAgentHeartbeatTimeout :: Duration where
  "DefaultAgentHeartbeatTimeout = 45 * second"

definition HeartbeatClockSkewAllowance :: Duration where
  "HeartbeatClockSkewAllowance = minute"

subsection \<open>Kubernetes metadata\<close>

record TypeMeta =
  tm_Kind :: string
  tm_APIVersion :: string

record ObjectMeta =
  om_Name :: string
  om_Namespace :: string
  om_UID :: UID
  om_ResourceVersion :: string
  om_Generation :: int64
  om_CreationTimestamp :: Time
  om_DeletionTimestamp :: "Time option"
  om_Labels :: "string gomap"
  om_Annotations :: "string gomap"
  om_Finalizers :: "string list"

abbreviation "ConditionTrue \<equiv> ''True''"
abbreviation "ConditionFalse \<equiv> ''False''"

record Condition =
  cond_Type :: string
  cond_Status :: string
  cond_ObservedGeneration :: int64
  cond_LastTransitionTime :: Time
  cond_Reason :: string
  cond_Message :: string

subsection \<open>Object references\<close>

record WorkloadObjectReference =
  wor_Namespace :: string
  wor_Name :: string
  wor_UID :: UID
  wor_Generation :: int64

record ObjectReference =
  or_Name :: string
  or_UID :: UID

record NamespacedObjectReference =
  nor_Namespace :: string
  nor_Name :: string
  nor_UID :: UID

subsection \<open>Workloads\<close>

record WorkloadRunSpec =
  wrs_Task :: string
  wrs_Experiment :: string
  wrs_Attempt :: int32
  wrs_Parameters :: "string gomap option"

record WorkloadTrainingSource =
  wts_Inline :: string

record WorkloadTraining =
  wt_RuntimeProfile :: string
  wt_Source :: WorkloadTrainingSource
  wt_Network :: string
  wt_TimeoutSeconds :: int32

record WorkloadModelReference =
  wmr_CatalogRef :: string

record WorkloadServer =
  wsv_ServiceName :: string
  wsv_ModelAlias :: string

record WorkloadBatchInference =
  wbi_Prompt :: string
  wbi_MaxTokens :: int32
  wbi_TimeoutSeconds :: int32

record WorkloadShell =
  wsh_Script :: string
  wsh_Isolation :: string
  wsh_Network :: string
  wsh_TimeoutSeconds :: int32

record WorkloadResources =
  wr_UnifiedMemoryRequest :: Quantity

record IdleloomWorkloadSpec =
  ws_Mode :: string
  ws_Model :: "WorkloadModelReference option"
  ws_Server :: "WorkloadServer option"
  ws_Batch :: "WorkloadBatchInference option"
  ws_Shell :: "WorkloadShell option"
  ws_Train :: "WorkloadTraining option"
  ws_Run :: "WorkloadRunSpec option"
  ws_Resources :: WorkloadResources

record RunMetricSummary =
  rms_Name :: string
  rms_Value :: string
  rms_Step :: int64
  rms_ObservedAt :: Time

record RunArtifactReference =
  rar_Name :: string
  rar_URI :: string
  rar_Digest :: string
  rar_SizeBytes :: int64

record WorkloadRunStatus =
  rs_ID :: string
  rs_Task :: string
  rs_Experiment :: string
  rs_Attempt :: int32
  rs_StartedAt :: "Time option"
  rs_FinishedAt :: "Time option"
  rs_Metrics :: "RunMetricSummary list"
  rs_Artifacts :: "RunArtifactReference list"

record WorkloadSchedulingIntent =
  wsi_WorkloadGeneration :: int64
  wsi_HostRef :: NamespacedObjectReference
  wsi_ModelRef :: "ObjectReference option"
  wsi_ExecutionID :: string
  wsi_FencingEpoch :: int64

record IdleloomWorkloadStatus =
  wst_ObservedGeneration :: int64
  wst_Phase :: string
  wst_SchedulingIntent :: "WorkloadSchedulingIntent option"
  wst_AssignmentRef :: "NamespacedObjectReference option"
  wst_ResolvedArtifactDigest :: string
  wst_Run :: "WorkloadRunStatus option"
  wst_Conditions :: "Condition list"

record IdleloomWorkload =
  wl_Type :: TypeMeta
  wl_Meta :: ObjectMeta
  wl_Spec :: IdleloomWorkloadSpec
  wl_Status :: IdleloomWorkloadStatus

subsection \<open>Models\<close>

record HuggingFaceSource =
  hf_Repository :: string
  hf_Revision :: string

record SignaturePolicy =
  sp_Issuer :: string
  sp_Subject :: string

record ModelArtifact =
  ma_OCIReference :: string
  ma_OllamaModel :: string
  ma_GGUFFile :: string
  ma_HuggingFace :: "HuggingFaceSource option"
  ma_ManifestDigest :: string
  ma_Format :: string
  ma_SizeBytes :: int64
  ma_Signature :: "SignaturePolicy option"

record IdleloomModelSpec =
  ms_Family :: string
  ms_RuntimeProfile :: string
  ms_Artifact :: ModelArtifact
  ms_MinimumUnifiedMemory :: Quantity
  ms_MaxContextLength :: int32
  ms_MaxConcurrentRequests :: int32

record ModelMemoryProfile =
  mp_Architecture :: string
  mp_BlockCount :: int32
  mp_KVCacheLayers :: int32
  mp_KVBytesPerToken :: int64
  mp_TrainedContextLength :: int32

record IdleloomModelStatus =
  mst_ObservedGeneration :: int64
  mst_MemoryProfile :: "ModelMemoryProfile option"
  mst_Conditions :: "Condition list"

record IdleloomModel =
  md_Type :: TypeMeta
  md_Meta :: ObjectMeta
  md_Spec :: IdleloomModelSpec
  md_Status :: IdleloomModelStatus

subsection \<open>Hosts\<close>

record IdleloomHostSpec =
  hs_AgentID :: string
  hs_ShellAccess :: string

record HostModelStatus =
  hm_RuntimeProfile :: string
  hm_Name :: string
  hm_ManifestDigest :: string
  hm_Family :: string
  hm_Format :: string
  hm_SizeBytes :: int64
  hm_Memory :: "ModelMemoryProfile option"

record HostConnectivityStatus =
  hc_Mode :: string
  hc_Provider :: string
  hc_Transport :: string
  hc_PeerName :: string
  hc_Address :: string
  hc_InterfaceName :: string
  hc_LastHandshakeTime :: "Time option"

record IdleloomHostStatus =
  hst_ObservedGeneration :: int64
  hst_ProtocolVersion :: string
  hst_RuntimeProfiles :: "string list"
  hst_ModelFamilies :: "string list"
  hst_AvailableModels :: "HostModelStatus list"
  hst_Capabilities :: "string list"
  hst_AllocatableUnifiedMemory :: Quantity
  hst_AvailableUnifiedMemory :: Quantity
  hst_KrunkitState :: string
  hst_VulkanLeaseActive :: bool
  hst_ActiveAssignmentUID :: UID
  hst_LastHeartbeatTime :: "Time option"
  hst_Connectivity :: "HostConnectivityStatus option"
  hst_Conditions :: "Condition list"

record IdleloomHost =
  ho_Type :: TypeMeta
  ho_Meta :: ObjectMeta
  ho_Spec :: IdleloomHostSpec
  ho_Status :: IdleloomHostStatus

subsection \<open>Assignments\<close>

record ResolvedServer =
  rsv_ServiceName :: string
  rsv_ModelAlias :: string
  rsv_Port :: int32

record ResolvedModel =
  rm_CatalogRef :: ObjectReference
  rm_Family :: string
  rm_RuntimeProfile :: string
  rm_Artifact :: ModelArtifact
  rm_UnifiedMemoryRequest :: Quantity
  rm_MaxContextLength :: int32
  rm_MaxConcurrentRequests :: int32
  rm_Server :: "ResolvedServer option"
  rm_Batch :: "WorkloadBatchInference option"

record ResolvedShell =
  rsh_Script :: string
  rsh_Isolation :: string
  rsh_Network :: string
  rsh_TimeoutSeconds :: int32
  rsh_UnifiedMemoryRequest :: Quantity

record ResolvedTraining =
  rt_RuntimeProfile :: string
  rt_Source :: string
  rt_SourceDigest :: string
  rt_Network :: string
  rt_TimeoutSeconds :: int32
  rt_UnifiedMemoryRequest :: Quantity

record IdleloomWorkloadAssignmentSpec =
  as_DesiredState :: string
  as_WorkloadRef :: WorkloadObjectReference
  as_HostRef :: ObjectReference
  as_Model :: "ResolvedModel option"
  as_Shell :: "ResolvedShell option"
  as_Training :: "ResolvedTraining option"
  as_Run :: "WorkloadRunSpec option"
  as_ExecutionID :: string
  as_FencingEpoch :: int64
  as_LeaseDurationSeconds :: int32

record StopAcknowledgement =
  sa_AssignmentUID :: UID
  sa_ObservedGeneration :: int64
  sa_ExecutionID :: string
  sa_FencingEpoch :: int64
  sa_StoppedAt :: Time

record IdleloomWorkloadAssignmentStatus =
  ast_ObservedGeneration :: int64
  ast_Phase :: string
  ast_AgentID :: string
  ast_ExecutionID :: string
  ast_FencingEpoch :: int64
  ast_RuntimeVersion :: string
  ast_ResolvedArtifactDigest :: string
  ast_Run :: "WorkloadRunStatus option"
  ast_LastHeartbeatTime :: "Time option"
  ast_StopAcknowledgement :: "StopAcknowledgement option"
  ast_Conditions :: "Condition list"

record IdleloomWorkloadAssignment =
  wa_Type :: TypeMeta
  wa_Meta :: ObjectMeta
  wa_Spec :: IdleloomWorkloadAssignmentSpec
  wa_Status :: IdleloomWorkloadAssignmentStatus

subsection \<open>Names for the metadata fields of each resource\<close>

abbreviation "wl_Name w \<equiv> om_Name (wl_Meta w)"
abbreviation "wl_Namespace w \<equiv> om_Namespace (wl_Meta w)"
abbreviation "wl_UID w \<equiv> om_UID (wl_Meta w)"
abbreviation "wl_Generation w \<equiv> om_Generation (wl_Meta w)"
abbreviation "md_Name m \<equiv> om_Name (md_Meta m)"
abbreviation "md_UID m \<equiv> om_UID (md_Meta m)"
abbreviation "ho_Name h \<equiv> om_Name (ho_Meta h)"
abbreviation "ho_Namespace h \<equiv> om_Namespace (ho_Meta h)"
abbreviation "ho_UID h \<equiv> om_UID (ho_Meta h)"
abbreviation "ho_Generation h \<equiv> om_Generation (ho_Meta h)"
abbreviation "wa_Name a \<equiv> om_Name (wa_Meta a)"
abbreviation "wa_Namespace a \<equiv> om_Namespace (wa_Meta a)"
abbreviation "wa_UID a \<equiv> om_UID (wa_Meta a)"
abbreviation "wa_Generation a \<equiv> om_Generation (wa_Meta a)"

subsection \<open>Zero values\<close>

definition zero_ObjectMeta :: ObjectMeta where
  "zero_ObjectMeta = \<lparr>om_Name = [], om_Namespace = [], om_UID = [], om_ResourceVersion = [],
     om_Generation = 0, om_CreationTimestamp = 0, om_DeletionTimestamp = None,
     om_Labels = [], om_Annotations = [], om_Finalizers = []\<rparr>"

definition zero_WorkloadStatus :: IdleloomWorkloadStatus where
  "zero_WorkloadStatus = \<lparr>wst_ObservedGeneration = 0, wst_Phase = [], wst_SchedulingIntent = None,
     wst_AssignmentRef = None, wst_ResolvedArtifactDigest = [], wst_Run = None, wst_Conditions = []\<rparr>"

definition zero_AssignmentStatus :: IdleloomWorkloadAssignmentStatus where
  "zero_AssignmentStatus = \<lparr>ast_ObservedGeneration = 0, ast_Phase = [], ast_AgentID = [],
     ast_ExecutionID = [], ast_FencingEpoch = 0, ast_RuntimeVersion = [],
     ast_ResolvedArtifactDigest = [], ast_Run = None, ast_LastHeartbeatTime = None,
     ast_StopAcknowledgement = None, ast_Conditions = []\<rparr>"

definition zero_ModelStatus :: IdleloomModelStatus where
  "zero_ModelStatus = \<lparr>mst_ObservedGeneration = 0, mst_MemoryProfile = None, mst_Conditions = []\<rparr>"

subsection \<open>The Kubernetes libraries\<close>

text \<open>
  The functions of \<open>k8s.io/apimachinery\<close> and of \<open>crypto/sha256\<close> that the sources call,
  as one parameter of the model. Nothing is assumed of them in the definitions; the laws a
  theorem relies on are named below and are what the packages document.
\<close>

record k8slib =
  IsDNS1123Subdomain :: "string \<Rightarrow> string list"
  IsDNS1123Label :: "string \<Rightarrow> string list"
  IsDNS1035Label :: "string \<Rightarrow> string list"
  NewQuantity :: "int64 \<Rightarrow> Quantity"
  Quantity_Cmp :: "Quantity \<Rightarrow> Quantity \<Rightarrow> int"
  Quantity_Sign :: "Quantity \<Rightarrow> int"
  Quantity_String :: "Quantity \<Rightarrow> string"
  Quantity_Value :: "Quantity \<Rightarrow> int64"
  Aggregate_Error :: "field_error list \<Rightarrow> string"
  Status_Error :: "status_reason \<Rightarrow> string"
  Sum256 :: "string \<Rightarrow> nat list"
  FindStatusCondition :: "Condition list \<Rightarrow> string \<Rightarrow> Condition option"
  SetStatusCondition :: "Condition list \<Rightarrow> Condition \<Rightarrow> Condition list"

text \<open>
  \<open>Cmp\<close> compares and \<open>Sign\<close> tests the number a quantity stands for (\<open>val\<close>, in
  whatever unit), and \<open>NewQuantity (n)\<close> stands for \<open>n\<close> units.
\<close>

definition quantity_law :: "k8slib \<Rightarrow> (Quantity \<Rightarrow> int) \<Rightarrow> int \<Rightarrow> bool" where
  "quantity_law L val u \<longleftrightarrow> 0 < u
     \<and> (\<forall>x y. Quantity_Cmp L x y = sgn (val x - val y))
     \<and> (\<forall>x. Quantity_Sign L x = sgn (val x))
     \<and> (\<forall>n. in_int64 n \<longrightarrow> val (NewQuantity L n) = n * u)"

text \<open>A SHA-256 checksum is 32 bytes.\<close>

definition sha256_law :: "k8slib \<Rightarrow> bool" where
  "sha256_law L \<longleftrightarrow> (\<forall>s. length (Sum256 L s) = 32 \<and> list_all (\<lambda>b. b < 256) (Sum256 L s))"

text \<open>The rendering of an aggregate of at least one error is not empty.\<close>

definition aggregate_law :: "k8slib \<Rightarrow> bool" where
  "aggregate_law L \<longleftrightarrow> (\<forall>es. es \<noteq> [] \<longrightarrow> Aggregate_Error L es \<noteq> [])"

text \<open>
  A condition is found under its own type; one that has just been set is the one found, and the
  others are unchanged.
\<close>

definition condition_law :: "k8slib \<Rightarrow> bool" where
  "condition_law L \<longleftrightarrow>
     (\<forall>cs t c. FindStatusCondition L cs t = Some c \<longrightarrow> cond_Type c = t)
   \<and> (\<forall>cs c. \<exists>c'. FindStatusCondition L (SetStatusCondition L cs c) (cond_Type c) = Some c'
        \<and> cond_Status c' = cond_Status c \<and> cond_Reason c' = cond_Reason c
        \<and> cond_Message c' = cond_Message c
        \<and> cond_ObservedGeneration c' = cond_ObservedGeneration c)
   \<and> (\<forall>cs c t. t \<noteq> cond_Type c \<longrightarrow>
        FindStatusCondition L (SetStatusCondition L cs c) t = FindStatusCondition L cs t)"

lemma quantity_law_simps:
  assumes "quantity_law L val u"
  shows "Quantity_Cmp L x y < 0 \<longleftrightarrow> val x < val y"
    and "0 \<le> Quantity_Cmp L x y \<longleftrightarrow> val y \<le> val x"
    and "Quantity_Cmp L x y = 0 \<longleftrightarrow> val x = val y"
    and "Quantity_Sign L x \<le> 0 \<longleftrightarrow> val x \<le> 0"
    and "in_int64 n \<Longrightarrow> val (NewQuantity L n) = n * u"
    and "0 < u"
  using assms by (auto simp: quantity_law_def sgn_if)

end
