(* ===== verification/Regex.thy ===== *)
theory Regex
  imports Go_Std
begin

section \<open>Regular expressions\<close>

text \<open>
  The fragment of Go's \<open>regexp\<close> that the validators use: every pattern is anchored with
  \<open>^\<close> and \<open>$\<close>, so \<open>MatchString\<close> asks whether the whole string is in the language.
  \<open>in_lang\<close> is the language, \<open>matches\<close> the executable matcher (by derivatives), and
  \<open>matches_iff\<close> relates the two. Character classes are predicates on bytes.
\<close>

datatype re =
    Fail
  | Eps
  | Cls "char \<Rightarrow> bool"
  | Alt re re
  | Cat re re
  | Many re

inductive in_lang :: "re \<Rightarrow> string \<Rightarrow> bool" where
  L_Eps: "in_lang Eps []"
| L_Cls: "P c \<Longrightarrow> in_lang (Cls P) [c]"
| L_Alt1: "in_lang r s \<Longrightarrow> in_lang (Alt r r') s"
| L_Alt2: "in_lang r' s \<Longrightarrow> in_lang (Alt r r') s"
| L_Cat: "in_lang r s \<Longrightarrow> in_lang r' s' \<Longrightarrow> in_lang (Cat r r') (s @ s')"
| L_Many0: "in_lang (Many r) []"
| L_Many1: "in_lang r s \<Longrightarrow> in_lang (Many r) s' \<Longrightarrow> in_lang (Many r) (s @ s')"

inductive_simps in_lang_Fail [simp]: "in_lang Fail s"
inductive_simps in_lang_Eps [simp]: "in_lang Eps s"
inductive_simps in_lang_Cls: "in_lang (Cls P) s"
inductive_simps in_lang_Alt: "in_lang (Alt r r') s"
inductive_simps in_lang_Cat: "in_lang (Cat r r') s"
inductive_cases in_lang_ManyE: "in_lang (Many r) s"

fun nullable :: "re \<Rightarrow> bool" where
  "nullable Fail = False"
| "nullable Eps = True"
| "nullable (Cls P) = False"
| "nullable (Alt r r') = (nullable r \<or> nullable r')"
| "nullable (Cat r r') = (nullable r \<and> nullable r')"
| "nullable (Many r) = True"

text \<open>Constructors that drop the dead branches, to keep derivatives small.\<close>

fun alt :: "re \<Rightarrow> re \<Rightarrow> re" where
  "alt Fail r = r"
| "alt r Fail = r"
| "alt r r' = Alt r r'"

fun cat :: "re \<Rightarrow> re \<Rightarrow> re" where
  "cat Fail r = Fail"
| "cat Eps r = r"
| "cat r r' = Cat r r'"

fun deriv :: "char \<Rightarrow> re \<Rightarrow> re" where
  "deriv c Fail = Fail"
| "deriv c Eps = Fail"
| "deriv c (Cls P) = (if P c then Eps else Fail)"
| "deriv c (Alt r r') = alt (deriv c r) (deriv c r')"
| "deriv c (Cat r r') =
     (if nullable r then alt (cat (deriv c r) r') (deriv c r') else cat (deriv c r) r')"
| "deriv c (Many r) = cat (deriv c r) (Many r)"

fun matches :: "re \<Rightarrow> string \<Rightarrow> bool" where
  "matches r [] = nullable r"
| "matches r (c # s) = matches (deriv c r) s"

lemma nullable_iff: "nullable r \<longleftrightarrow> in_lang r []"
proof (induction r)
  case (Many r)
  show ?case by (simp add: L_Many0)
qed (auto simp: in_lang_Cls in_lang_Alt in_lang_Cat)

lemma in_lang_alt: "in_lang (alt r r') s \<longleftrightarrow> in_lang r s \<or> in_lang r' s"
  by (cases "(r, r')" rule: alt.cases) (auto simp: in_lang_Alt)

lemma in_lang_cat: "in_lang (cat r r') s \<longleftrightarrow> in_lang (Cat r r') s"
  by (cases "(r, r')" rule: cat.cases) (auto simp: in_lang_Cat)

lemma in_lang_Many_Cons:
  "in_lang (Many r) (c # s) \<longleftrightarrow> (\<exists>u v. s = u @ v \<and> in_lang r (c # u) \<and> in_lang (Many r) v)"
  (is "?L \<longleftrightarrow> ?R")
proof
  have "in_lang q t \<Longrightarrow> q = Many r \<Longrightarrow> t = c # s \<Longrightarrow> ?R" for q t
    by (induction q t arbitrary: s rule: in_lang.induct) (auto simp: append_eq_Cons_conv)
  then show "?L \<Longrightarrow> ?R" by blast
next
  assume ?R
  then obtain u v where "s = u @ v" "in_lang r (c # u)" "in_lang (Many r) v" by blast
  then show ?L using L_Many1 [of r "c # u" v] by simp
qed

lemma in_lang_deriv: "in_lang (deriv c r) s \<longleftrightarrow> in_lang r (c # s)"
proof (induction r arbitrary: s)
  case (Cat r r')
  show ?case
  proof (cases "nullable r")
    case True
    then show ?thesis
      using Cat nullable_iff [of r]
      by (auto simp: in_lang_alt in_lang_cat in_lang_Cat Cons_eq_append_conv)
  next
    case False
    then show ?thesis
      using Cat nullable_iff [of r]
      by (auto simp: in_lang_cat in_lang_Cat Cons_eq_append_conv)
  qed
next
  case (Many r)
  then show ?case by (auto simp: in_lang_cat in_lang_Cat in_lang_Many_Cons)
qed (auto simp: in_lang_Cls in_lang_Alt in_lang_alt)

theorem matches_iff: "matches r s \<longleftrightarrow> in_lang r s"
  by (induction s arbitrary: r) (auto simp: nullable_iff in_lang_deriv)

subsection \<open>Derived forms\<close>

definition lit :: "string \<Rightarrow> re" where
  "lit s = foldr (\<lambda>c r. cat (Cls (\<lambda>d. d = c)) r) s Eps"

definition opt :: "re \<Rightarrow> re" where
  "opt r = Alt Eps r"

definition some1 :: "re \<Rightarrow> re" where
  "some1 r = Cat r (Many r)"

fun rep :: "nat \<Rightarrow> re \<Rightarrow> re" \<comment> \<open>\<open>r{n}\<close>\<close> where
  "rep 0 r = Eps"
| "rep (Suc n) r = Cat r (rep n r)"

fun upto_rep :: "nat \<Rightarrow> re \<Rightarrow> re" \<comment> \<open>\<open>r{0,n}\<close>\<close> where
  "upto_rep 0 r = Eps"
| "upto_rep (Suc n) r = opt (Cat r (upto_rep n r))"

lemma in_lang_lit [simp]: "in_lang (lit t) s \<longleftrightarrow> s = t"
proof (induction t arbitrary: s)
  case Nil
  show ?case by (simp add: lit_def)
next
  case (Cons c t)
  have "lit (c # t) = cat (Cls (\<lambda>d. d = c)) (lit t)" by (simp add: lit_def)
  then show ?case using Cons by (auto simp: in_lang_cat in_lang_Cat in_lang_Cls)
qed

lemma in_lang_opt: "in_lang (opt r) s \<longleftrightarrow> s = [] \<or> in_lang r s"
  by (simp add: opt_def in_lang_Alt)

lemma in_lang_Many_Cls: "in_lang (Many (Cls P)) s \<longleftrightarrow> list_all P s"
proof (induction s)
  case Nil
  show ?case by (simp add: L_Many0)
next
  case (Cons c s)
  then show ?case by (auto simp: in_lang_Many_Cons in_lang_Cls)
qed

lemma in_lang_Cat_Cls:
  "in_lang (Cat (Cls P) r) s \<longleftrightarrow> (case s of [] \<Rightarrow> False | c # t \<Rightarrow> P c \<and> in_lang r t)"
proof -
  have "in_lang (Cat (Cls P) r) s \<longleftrightarrow> (\<exists>c t. s = [c] @ t \<and> P c \<and> in_lang r t)"
    by (auto simp only: in_lang_Cat in_lang_Cls)
  then show ?thesis by (cases s) simp_all
qed

lemma in_lang_some1_Cls: "in_lang (some1 (Cls P)) s \<longleftrightarrow> s \<noteq> [] \<and> list_all P s"
  by (cases s) (simp_all add: some1_def in_lang_Cat_Cls in_lang_Many_Cls)

lemma in_lang_rep_Cls: "in_lang (rep n (Cls P)) s \<longleftrightarrow> length s = n \<and> list_all P s"
proof (induction n arbitrary: s)
  case (Suc n)
  then show ?case by (cases s) (auto simp: in_lang_Cat_Cls)
qed auto

lemma in_lang_upto_rep_Cls: "in_lang (upto_rep n (Cls P)) s \<longleftrightarrow> length s \<le> n \<and> list_all P s"
proof (induction n arbitrary: s)
  case (Suc n)
  then show ?case by (cases s) (auto simp: in_lang_opt in_lang_Cat_Cls)
qed auto

lemmas in_lang_simps = in_lang_Cls in_lang_Alt in_lang_Cat in_lang_opt
  in_lang_Many_Cls in_lang_some1_Cls in_lang_rep_Cls in_lang_upto_rep_Cls

end
