(* ===== verification/Go_URL.thy ===== *)
theory Go_URL
  imports Go_Std
begin

section \<open>Package net/url\<close>

text \<open>
  \<open>url.Parse\<close> as the sources use it: splitting a reference into scheme, user information,
  host, path, query and fragment, with the errors Go reports. \<open>None\<close> is a parse error.
\<close>

record URL =
  Scheme :: string
  Opaque :: string
  HasUser :: bool
  Host :: string
  Path :: string
  RawQuery :: string
  Fragment :: string

definition cut :: "char \<Rightarrow> string \<Rightarrow> string \<times> string" where
  "cut c s = (takeWhile (\<lambda>d. d \<noteq> c) s, drop 1 (dropWhile (\<lambda>d. d \<noteq> c) s))"

definition unhex :: "char \<Rightarrow> nat option" where
  "unhex c =
     (if is_digit c then Some (byte c - 48)
      else if char_between (CHR ''a'') (CHR ''f'') c then Some (byte c - 87)
      else if char_between (CHR ''A'') (CHR ''F'') c then Some (byte c - 55)
      else None)"

text \<open>
  Percent decoding. \<open>literal c\<close> says which bytes may stand for themselves; in a host
  (\<open>host = True\<close>) only bytes above \<open>0x7F\<close> and the percent sign may be escaped.
\<close>

fun unescape :: "(char \<Rightarrow> bool) \<Rightarrow> bool \<Rightarrow> string \<Rightarrow> string option" where
  "unescape literal host [] = Some []"
| "unescape literal host (c # s) =
     (if c = CHR ''%'' then
        (case s of
           h # l # s' \<Rightarrow>
            (case (unhex h, unhex l) of
               (Some a, Some b) \<Rightarrow>
                 if host \<and> a < 8 \<and> \<not> (a = 2 \<and> b = 5) then None
                 else map_option ((#) (bytechar (16 * a + b))) (unescape literal host s')
             | _ \<Rightarrow> None)
         | _ \<Rightarrow> None)
      else if literal c then map_option ((#) c) (unescape literal host s)
      else None)"

definition host_literal :: "char \<Rightarrow> bool" where
  "host_literal c \<longleftrightarrow> 0x80 \<le> byte c \<or> is_digit c \<or> is_lower c \<or> is_upper c
     \<or> c \<in> set ''-_.~!$&()*+,;=:[]<>'' \<or> byte c = 34 \<or> byte c = 39"

definition userinfo_char :: "char \<Rightarrow> bool" where
  "userinfo_char c \<longleftrightarrow> is_digit c \<or> is_lower c \<or> is_upper c
     \<or> c \<in> set ''-._:~!$&()*+,;=%@'' \<or> byte c = 39"

definition validOptionalPort :: "string \<Rightarrow> bool" where
  "validOptionalPort p \<longleftrightarrow> (case p of [] \<Rightarrow> True | c # ds \<Rightarrow> c = CHR '':'' \<and> list_all is_digit ds)"

fun getScheme :: "bool \<Rightarrow> string \<Rightarrow> string \<Rightarrow> (string \<times> string) option" where
  \<comment> \<open>first character?, characters seen (reversed), rest; \<open>None\<close> is a missing scheme\<close>
  "getScheme first seen [] = Some ([], rev seen)"
| "getScheme first seen (c # s) =
     (if is_lower c \<or> is_upper c then getScheme False (c # seen) s
      else if is_digit c \<or> c \<in> set ''+-.'' then
        (if first then Some ([], rev seen @ c # s) else getScheme False (c # seen) s)
      else if c = CHR '':'' then (if first then None else Some (rev seen, s))
      else Some ([], rev seen @ c # s))"

definition lower_char :: "char \<Rightarrow> char" where
  "lower_char c = (if is_upper c then bytechar (byte c + 32) else c)"

definition parseHost :: "string \<Rightarrow> string option" where
  "parseHost h =
     (if HasPrefix h ''['' then
        (let i = LastIndex h (CHR '']'') in
         if i < 0 \<or> \<not> validOptionalPort (drop (nat i + 1) h) then None
         else unescape host_literal True h)
      else
        (let i = LastIndex h (CHR '':'') in
         if i \<noteq> - 1 \<and> \<not> validOptionalPort (drop (nat i) h) then None
         else unescape host_literal True h))"

definition parseAuthority :: "string \<Rightarrow> (bool \<times> string) option" where
  "parseAuthority a =
     (let i = LastIndex a (CHR ''@'') in
      if i < 0 then map_option (Pair False) (parseHost a)
      else case parseHost (drop (nat i + 1) a) of
             None \<Rightarrow> None
           | Some h \<Rightarrow>
              (let info = take (nat i) a in
               if list_all userinfo_char info \<and> unescape (\<lambda>_. True) False info \<noteq> None
               then Some (True, h) else None))"

definition url_parse_rest :: "string \<Rightarrow> string \<Rightarrow> string \<Rightarrow> URL option" where
  \<comment> \<open>scheme, query, and the text between them\<close>
  "url_parse_rest sch query rest =
     (if \<not> HasPrefix rest ''/'' \<and> sch \<noteq> [] then
        Some \<lparr>Scheme = sch, Opaque = rest, HasUser = False, Host = [], Path = [], RawQuery = query, Fragment = []\<rparr>
      else if \<not> HasPrefix rest ''/'' \<and> CHR '':'' \<in> set (fst (cut (CHR ''/'') rest)) then None
      else if (sch \<noteq> [] \<or> \<not> HasPrefix rest ''///'') \<and> HasPrefix rest ''//'' then
        (let auth = takeWhile (\<lambda>c. c \<noteq> CHR ''/'') (drop 2 rest);
             pathRaw = dropWhile (\<lambda>c. c \<noteq> CHR ''/'') (drop 2 rest)
         in case (parseAuthority auth, unescape (\<lambda>_. True) False pathRaw) of
              (Some (u, h), Some p) \<Rightarrow>
                Some \<lparr>Scheme = sch, Opaque = [], HasUser = u, Host = h, Path = p, RawQuery = query, Fragment = []\<rparr>
            | _ \<Rightarrow> None)
      else case unescape (\<lambda>_. True) False rest of
             None \<Rightarrow> None
           | Some p \<Rightarrow> Some \<lparr>Scheme = sch, Opaque = [], HasUser = False, Host = [], Path = p, RawQuery = query, Fragment = []\<rparr>)"

definition url_Parse :: "string \<Rightarrow> URL option" where
  "url_Parse raw =
     (let (u, frag) = cut (CHR ''#'') raw in
      if list_ex (\<lambda>c. byte c < 32 \<or> byte c = 127) u then None
      else case getScheme True [] u of
             None \<Rightarrow> None
           | Some (sch, rest) \<Rightarrow>
              (let (rest', query) = cut (CHR ''?'') rest in
               case (url_parse_rest (map lower_char sch) query rest', unescape (\<lambda>_. True) False frag) of
                 (Some url, Some f) \<Rightarrow> Some (url\<lparr>Fragment := f\<rparr>)
               | _ \<Rightarrow> None))"

subsection \<open>Parsing a plain reference\<close>

lemma takeWhile_neq_id: "c \<notin> set s \<Longrightarrow> takeWhile (\<lambda>d. d \<noteq> c) s = s"
  by (induction s) auto

lemma dropWhile_neq_Nil: "c \<notin> set s \<Longrightarrow> dropWhile (\<lambda>d. d \<noteq> c) s = []"
  by (induction s) auto

lemma takeWhile_neq_append: "c \<notin> set s \<Longrightarrow> takeWhile (\<lambda>d. d \<noteq> c) (s @ c # t) = s"
  by (induction s) auto

lemma dropWhile_neq_append: "c \<notin> set s \<Longrightarrow> dropWhile (\<lambda>d. d \<noteq> c) (s @ c # t) = c # t"
  by (induction s) auto

lemma cut_absent: "c \<notin> set s \<Longrightarrow> cut c s = (s, [])"
  by (simp add: cut_def takeWhile_neq_id dropWhile_neq_Nil)

lemma unescape_plain:
  "CHR ''%'' \<notin> set s \<Longrightarrow> list_all literal s \<Longrightarrow> unescape literal host s = Some s"
  by (induction literal host s rule: unescape.induct) (auto split: list.splits)

lemma LastIndex_absent: "c \<notin> set s \<Longrightarrow> LastIndex s c = - 1"
  by (simp add: LastIndex.simps)

lemma LastIndex_present:
  assumes "c \<notin> set t"
  shows "LastIndex (s @ c # t) c = int (length s)"
proof -
  have "takeWhile (\<lambda>d. d \<noteq> c) (rev t @ c # rev s) = rev t"
    using assms by (intro takeWhile_neq_append) simp
  then show ?thesis by (simp add: LastIndex.simps)
qed

end
