(* ===== verification/Examples.thy ===== *)
theory Examples
  imports API_Types Regex
begin

section \<open>Concrete objects\<close>

text \<open>
  An instance of the Kubernetes library parameter that satisfies every law stated of it
  (quantities are decimal integers, conditions are searched and replaced by type), and a few
  concrete objects. The witnesses of the component theories run the model on them.
\<close>

definition dns1123Label :: re where
  "dns1123Label = Cat (Cls (\<lambda>c. is_lower c \<or> is_digit c))
     (opt (Cat (Many (Cls (\<lambda>c. is_lower c \<or> is_digit c \<or> c = CHR ''-''))) (Cls (\<lambda>c. is_lower c \<or> is_digit c))))"

definition name_problems :: "bool \<Rightarrow> string list" where
  "name_problems ok = (if ok then [] else [''a lowercase RFC 1123 name is required''])"

definition qval :: "Quantity \<Rightarrow> int" where
  "qval q = (case ParseInt q of None \<Rightarrow> 0 | Some v \<Rightarrow> v)"

fun set_condition :: "Condition list \<Rightarrow> Condition \<Rightarrow> Condition list" where
  "set_condition [] c = [c]"
| "set_condition (d # ds) c =
     (if cond_Type d = cond_Type c
      then (if cond_Status d = cond_Status c then c\<lparr>cond_LastTransitionTime := cond_LastTransitionTime d\<rparr> else c) # ds
      else d # set_condition ds c)"

definition exlib :: k8slib where
  "exlib = \<lparr>IsDNS1123Subdomain = (\<lambda>s. name_problems (matches (Cat dns1123Label (Many (Cat (lit ''.'') dns1123Label))) s \<and> length s \<le> 253)),
     IsDNS1123Label = (\<lambda>s. name_problems (matches dns1123Label s \<and> length s \<le> 63)),
     IsDNS1035Label = (\<lambda>s. name_problems (matches (Cat (Cls is_lower) (opt dns1123Label)) s \<and> length s \<le> 63)),
     NewQuantity = FormatInt,
     Quantity_Cmp = (\<lambda>x y. sgn (qval x - qval y)), Quantity_Sign = (\<lambda>x. sgn (qval x)),
     Quantity_String = (\<lambda>x. x), Quantity_Value = qval,
     Aggregate_Error = (\<lambda>es. ''invalid''), Status_Error = (\<lambda>r. ''status''),
     Sum256 = (\<lambda>s. replicate 32 (length s mod 256)),
     FindStatusCondition = (\<lambda>cs t. find (\<lambda>c. cond_Type c = t) cs),
     SetStatusCondition = set_condition\<rparr>"

lemma quantity_law_ex: "quantity_law exlib qval 1"
  by (simp add: quantity_law_def exlib_def qval_def ParseInt_FormatInt)

lemma sha256_law_ex: "sha256_law exlib"
  by (simp add: sha256_law_def exlib_def list_all_iff)

lemma aggregate_law_ex: "aggregate_law exlib"
  by (simp add: aggregate_law_def exlib_def)

lemma find_set_condition_same:
  "\<exists>c'. find (\<lambda>d. cond_Type d = cond_Type c) (set_condition cs c) = Some c'
     \<and> cond_Status c' = cond_Status c \<and> cond_Reason c' = cond_Reason c
     \<and> cond_Message c' = cond_Message c \<and> cond_ObservedGeneration c' = cond_ObservedGeneration c"
  by (induction cs c rule: set_condition.induct) auto

lemma find_set_condition_other:
  "t \<noteq> cond_Type c \<Longrightarrow> find (\<lambda>d. cond_Type d = t) (set_condition cs c) = find (\<lambda>d. cond_Type d = t) cs"
  by (induction cs c rule: set_condition.induct) auto

lemma condition_law_ex: "condition_law exlib"
  using find_set_condition_same find_set_condition_other
  by (auto simp: condition_law_def exlib_def find_Some_iff)

definition exmeta :: "string \<Rightarrow> string \<Rightarrow> string \<Rightarrow> ObjectMeta" where
  "exmeta ns nm uid = zero_ObjectMeta\<lparr>om_Name := nm, om_Namespace := ns, om_UID := uid,
     om_ResourceVersion := ''1'', om_Generation := 1\<rparr>"

definition exworkload :: IdleloomWorkload where
  "exworkload = \<lparr>wl_Type = \<lparr>tm_Kind = ''IdleloomWorkload'', tm_APIVersion = APIVersionNative\<rparr>,
     wl_Meta = exmeta ''team'' ''hello'' ''w-1'',
     wl_Spec = \<lparr>ws_Mode = WorkloadModeShell, ws_Model = None, ws_Server = None, ws_Batch = None,
       ws_Shell = Some \<lparr>wsh_Script = ''echo hi'', wsh_Isolation = [], wsh_Network = [], wsh_TimeoutSeconds = 0\<rparr>,
       ws_Train = None, ws_Run = None, ws_Resources = \<lparr>wr_UnifiedMemoryRequest = ''1024''\<rparr>\<rparr>,
     wl_Status = zero_WorkloadStatus\<rparr>"

definition exhost :: "string \<Rightarrow> string \<Rightarrow> IdleloomHost" where
  "exhost ns mem = \<lparr>ho_Type = \<lparr>tm_Kind = ''IdleloomHost'', tm_APIVersion = APIVersionNative\<rparr>,
     ho_Meta = exmeta ns ''host'' (''h-'' @ ns),
     ho_Spec = \<lparr>hs_AgentID = ''agent-a'', hs_ShellAccess = ShellAccessSandboxed\<rparr>,
     ho_Status = \<lparr>hst_ObservedGeneration = 1, hst_ProtocolVersion = AgentProtocolV1Alpha1,
       hst_RuntimeProfiles = [RuntimeProfileLlamaCppMetalV1], hst_ModelFamilies = [ModelFamilyGGUF],
       hst_AvailableModels = [], hst_Capabilities = [CapabilityBatchInferenceV1, CapabilityMemoryProfileV1],
       hst_AllocatableUnifiedMemory = ''100000'', hst_AvailableUnifiedMemory = mem,
       hst_KrunkitState = KrunkitStateStopped, hst_VulkanLeaseActive = False, hst_ActiveAssignmentUID = [],
       hst_LastHeartbeatTime = Some 1000000000, hst_Connectivity = None,
       hst_Conditions = [\<lparr>cond_Type = HostConditionReady, cond_Status = ConditionTrue, cond_ObservedGeneration = 1,
         cond_LastTransitionTime = 1, cond_Reason = ''Ready'', cond_Message = []\<rparr>]\<rparr>\<rparr>"

definition exmodel :: IdleloomModel where
  "exmodel = \<lparr>md_Type = \<lparr>tm_Kind = ''IdleloomModel'', tm_APIVersion = APIVersionNative\<rparr>,
     md_Meta = exmeta [] ''tiny'' ''m-1'',
     md_Spec = \<lparr>ms_Family = ModelFamilyGGUF, ms_RuntimeProfile = RuntimeProfileLlamaCppMetalV1,
       ms_Artifact = \<lparr>ma_OCIReference = [], ma_OllamaModel = [], ma_GGUFFile = ''t.gguf'', ma_HuggingFace = None,
         ma_ManifestDigest = ''sha256:'' @ replicate 64 (CHR ''a''), ma_Format = ArtifactFormatGGUFV1,
         ma_SizeBytes = 1000, ma_Signature = None\<rparr>,
       ms_MinimumUnifiedMemory = ''600000000'', ms_MaxContextLength = 4096, ms_MaxConcurrentRequests = 1\<rparr>,
     md_Status = zero_ModelStatus\<rparr>"

end
