(* ===== verification/Validation.thy ===== *)
theory Validation
  imports API_Types Regex Go_URL Examples
begin

section \<open>Validation of the native API objects\<close>

text \<open>
  \<open>api/native/v1alpha1/validation.go\<close>. A validator returns its list of field errors, in the
  order in which the code appends them; the empty list is \<open>nil\<close>. The lemmas below the
  definitions say what an object that passes looks like, which is what the scheduler and the
  agent rely on.
\<close>

subsection \<open>Patterns\<close>

definition sha256Pattern :: re where
  "sha256Pattern = Cat (lit ''sha256:'') (rep 64 (Cls is_hex))"

definition uuidPattern :: re where
  "uuidPattern =
     Cat (rep 8 (Cls is_hex)) (Cat (lit ''-'') (Cat (rep 4 (Cls is_hex)) (Cat (lit ''-'')
       (Cat (Cls (char_between (CHR ''1'') (CHR ''5''))) (Cat (rep 3 (Cls is_hex)) (Cat (lit ''-'')
         (Cat (Cls (\<lambda>c. c \<in> set ''89ab'')) (Cat (rep 3 (Cls is_hex)) (Cat (lit ''-'')
           (rep 12 (Cls is_hex)))))))))))"

definition ociReferencePattern :: re where
  "ociReferencePattern =
     Cat (lit ''oci://'') (Cat (some1 (Cls (\<lambda>c. is_lower c \<or> is_digit c \<or> c \<in> set ''.-'')))
       (Cat (opt (Cat (lit '':'') (some1 (Cls is_digit)))) (Cat (lit ''/'')
         (Cat (some1 (Cls (\<lambda>c. is_lower c \<or> is_digit c \<or> c \<in> set ''._/-'')))
           (Cat (lit ''@sha256:'') (rep 64 (Cls is_hex)))))))"

definition ollama_char :: "char \<Rightarrow> bool" where
  "ollama_char c \<longleftrightarrow> is_lower c \<or> is_digit c \<or> c \<in> set ''._-''"

definition ollamaModelPattern :: re where
  "ollamaModelPattern =
     Cat (Cls (\<lambda>c. is_lower c \<or> is_digit c)) (Cat (upto_rep 127 (Cls ollama_char)) (Cat (lit '':'')
       (Cat (Cls (\<lambda>c. is_lower c \<or> is_digit c)) (upto_rep 63 (Cls ollama_char)))))"

definition is_alnum :: "char \<Rightarrow> bool" where
  "is_alnum c \<longleftrightarrow> is_upper c \<or> is_lower c \<or> is_digit c"

definition file_char :: "char \<Rightarrow> bool" where
  "file_char c \<longleftrightarrow> is_alnum c \<or> c \<in> set ''._-''"

definition ggufFilePattern :: re where
  "ggufFilePattern = Cat (Cls is_alnum) (Cat (upto_rep 190 (Cls file_char)) (lit ''.gguf''))"

definition hfRepositoryPattern :: re where
  "hfRepositoryPattern =
     Cat (Cls is_alnum) (Cat (Many (Cls file_char)) (Cat (lit ''/'')
       (Cat (Cls is_alnum) (Many (Cls file_char)))))"

definition hfRevisionPattern :: re where
  "hfRevisionPattern = rep 40 (Cls is_hex)"

definition runParameterPattern :: re where
  "runParameterPattern = Cat (Cls is_upper) (upto_rep 62 (Cls (\<lambda>c. is_upper c \<or> is_digit c \<or> c = CHR ''_'')))"

definition maxHFRepositoryLength :: nat where "maxHFRepositoryLength = 192"
definition maxArtifactBytes :: int64 where "maxArtifactBytes = 64 * 2 ^ 30"
definition maxContextLength :: int32 where "maxContextLength = 131072"
definition runtimeMemoryOverhead :: int64 where "runtimeMemoryOverhead = 4 * 2 ^ 30"
definition contextMemoryPerToken :: int64 where "contextMemoryPerToken = 2 ^ 20"
definition sanityMemoryOverhead :: int64 where "sanityMemoryOverhead = 512 * 2 ^ 20"
definition computeBufferBytes :: int64 where "computeBufferBytes = 512 * 2 ^ 20"
definition runtimeFixedOverhead :: int64 where "runtimeFixedOverhead = 768 * 2 ^ 20"

lemmas memory_const_defs = maxArtifactBytes_def maxContextLength_def runtimeMemoryOverhead_def
  contextMemoryPerToken_def sanityMemoryOverhead_def computeBufferBytes_def runtimeFixedOverhead_def

subsection \<open>Collecting errors\<close>

definition errIf :: "bool \<Rightarrow> field_error \<Rightarrow> field_error list" where
  "errIf b e = (if b then [e] else [])"

lemma errIf_Nil [simp]: "errIf b e = [] \<longleftrightarrow> \<not> b"
  by (simp add: errIf_def)

text \<open>The \<open>if problems := f (value); len (problems) > 0\<close> idiom.\<close>

definition errProblems :: "string list \<Rightarrow> string \<Rightarrow> field_error list" where
  "errProblems problems path = errIf (problems \<noteq> []) (Invalid path (Join problems ''; ''))"

lemma errProblems_Nil [simp]: "errProblems ps path = [] \<longleftrightarrow> ps = []"
  by (simp add: errProblems_def)

subsection \<open>Parts of a workload\<close>

definition validateRunSpec :: "k8slib \<Rightarrow> WorkloadRunSpec option \<Rightarrow> string \<Rightarrow> field_error list" where
  "validateRunSpec L run path =
     (case run of
        None \<Rightarrow> [Required path ''run metadata is required'']
      | Some r \<Rightarrow>
         errIf (wrs_Task r \<noteq> ''train'' \<and> wrs_Task r \<noteq> ''infer'' \<and> wrs_Task r \<noteq> ''serve'' \<and> wrs_Task r \<noteq> ''shell'')
           (NotSupported (path @ ''.task''))
         @ errProblems (IsDNS1123Label L (wrs_Experiment r)) (path @ ''.experiment'')
         @ errIf (wrs_Attempt r < 1 \<or> 1000 < wrs_Attempt r) (Invalid (path @ ''.attempt'') ''must be between 1 and 1000'')
         @ (let ps = (case wrs_Parameters r of None \<Rightarrow> [] | Some m \<Rightarrow> m) in
            errIf (64 < int (length ps)) (TooMany (path @ ''.parameters''))
            @ concat (map (\<lambda>(name, text).
                let p = path @ ''.parameters['' @ name @ '']'' in
                errIf (\<not> matches runParameterPattern name \<or> HasPrefix name ''IDLELOOM_'')
                  (Invalid p ''must be a safe environment name and must not use the IDLELOOM_ prefix'')
                @ errIf (4096 < int (RuneCountInString text) \<or> ContainsNUL text)
                  (Invalid p ''must not contain NUL bytes or exceed 4096 characters'')) ps)))"

definition validateTraining :: "WorkloadTraining option \<Rightarrow> string \<Rightarrow> field_error list" where
  "validateTraining training path =
     (case training of
        None \<Rightarrow> [Required path ''training intent is required'']
      | Some t \<Rightarrow>
         errIf (wt_RuntimeProfile t \<noteq> RuntimeProfileMLXTrainV1) (NotSupported (path @ ''.runtimeProfile''))
         @ errIf (wts_Inline (wt_Source t) = [] \<or> ContainsNUL (wts_Inline (wt_Source t)))
             (Invalid (path @ ''.source.inline'') ''must contain a non-empty Python program without NUL bytes'')
         @ errIf (64 * 2 ^ 10 < int (length (wts_Inline (wt_Source t)))) (TooLong (path @ ''.source.inline''))
         @ errIf (wt_Network t \<noteq> [] \<and> wt_Network t \<noteq> ShellNetworkNone \<and> wt_Network t \<noteq> ShellNetworkOutbound)
             (NotSupported (path @ ''.network''))
         @ errIf (wt_TimeoutSeconds t < 0 \<or> 86400 < wt_TimeoutSeconds t)
             (Invalid (path @ ''.timeoutSeconds'') ''must be between 1 and 86400 when set''))"

definition validateResolvedTraining :: "k8slib \<Rightarrow> ResolvedTraining option \<Rightarrow> string \<Rightarrow> field_error list" where
  "validateResolvedTraining L training path =
     (case training of
        None \<Rightarrow> [Required path ''resolved training run is required'']
      | Some t \<Rightarrow>
         validateTraining (Some \<lparr>wt_RuntimeProfile = rt_RuntimeProfile t,
             wt_Source = \<lparr>wts_Inline = rt_Source t\<rparr>,
             wt_Network = rt_Network t, wt_TimeoutSeconds = rt_TimeoutSeconds t\<rparr>) path
         @ errIf (rt_TimeoutSeconds t < 1 \<or> 86400 < rt_TimeoutSeconds t)
             (Invalid (path @ ''.timeoutSeconds'') ''must be between 1 and 86400'')
         @ errIf (\<not> matches sha256Pattern (rt_SourceDigest t))
             (Invalid (path @ ''.sourceDigest'') ''must be a sha256 digest'')
         @ errIf (Quantity_Sign L (rt_UnifiedMemoryRequest t) \<le> 0)
             (Invalid (path @ ''.unifiedMemoryRequest'') ''must be positive''))"

definition validateWorkloadServer :: "k8slib \<Rightarrow> WorkloadServer option \<Rightarrow> string \<Rightarrow> field_error list" where
  "validateWorkloadServer L server path =
     (case server of
        None \<Rightarrow> []
      | Some s \<Rightarrow>
         errProblems (IsDNS1035Label L (wsv_ServiceName s)) (path @ ''.serviceName'')
         @ errProblems (IsDNS1123Subdomain L (wsv_ModelAlias s)) (path @ ''.modelAlias''))"

definition validateResolvedServer :: "k8slib \<Rightarrow> ResolvedServer \<Rightarrow> string \<Rightarrow> field_error list" where
  "validateResolvedServer L server path =
     validateWorkloadServer L (Some \<lparr>wsv_ServiceName = rsv_ServiceName server, wsv_ModelAlias = rsv_ModelAlias server\<rparr>) path
     @ errIf (rsv_Port server \<noteq> NativeServingPort) (Invalid (path @ ''.port'') (''must be '' @ FormatInt NativeServingPort))"

definition validateBatchInference :: "WorkloadBatchInference option \<Rightarrow> string \<Rightarrow> field_error list" where
  "validateBatchInference batch path =
     (case batch of
        None \<Rightarrow> [Required path ''batch inference is required'']
      | Some b \<Rightarrow>
         errIf (TrimSpace (wbi_Prompt b) = [] \<or> ContainsNUL (wbi_Prompt b))
           (Invalid (path @ ''.prompt'') ''must contain a non-empty prompt without NUL bytes'')
         @ errIf (16 * 2 ^ 10 < int (length (wbi_Prompt b))) (TooLong (path @ ''.prompt''))
         @ errIf (wbi_MaxTokens b < 1 \<or> MaxBatchInferenceTokens < wbi_MaxTokens b)
             (Invalid (path @ ''.maxTokens'') (''must be between 1 and '' @ FormatInt MaxBatchInferenceTokens))
         @ errIf (wbi_TimeoutSeconds b < 0 \<or> 3600 < wbi_TimeoutSeconds b)
             (Invalid (path @ ''.timeoutSeconds'') ''must be between 1 and 3600 when set''))"

definition validateShell :: "WorkloadShell \<Rightarrow> field_error list" \<comment> \<open>the Shell case of \<open>ValidateWorkload\<close>\<close> where
  "validateShell s =
     errIf (TrimSpace (wsh_Script s) = [] \<or> ContainsNUL (wsh_Script s))
       (Invalid ''spec.shell.script'' ''must contain a non-empty script without NUL bytes'')
     @ errIf (64 * 2 ^ 10 < int (length (wsh_Script s))) (TooLong ''spec.shell.script'')
     @ errIf (wsh_Isolation s \<noteq> [] \<and> wsh_Isolation s \<noteq> ShellIsolationSandbox \<and> wsh_Isolation s \<noteq> ShellIsolationHost)
         (NotSupported ''spec.shell.isolation'')
     @ errIf (wsh_Network s \<noteq> [] \<and> wsh_Network s \<noteq> ShellNetworkNone \<and> wsh_Network s \<noteq> ShellNetworkOutbound)
         (NotSupported ''spec.shell.network'')
     @ errIf (wsh_Isolation s = ShellIsolationHost \<and> wsh_Network s = ShellNetworkNone)
         (Invalid ''spec.shell.network'' ''Host isolation cannot enforce network isolation; use Outbound'')
     @ errIf (wsh_TimeoutSeconds s < 0 \<or> 86400 < wsh_TimeoutSeconds s)
         (Invalid ''spec.shell.timeoutSeconds'' ''must be between 1 and 86400 when set'')"

definition expectedTask :: "string \<Rightarrow> string" where
  "expectedTask mode = gomap_get
     [(WorkloadModeServer, ''serve''), (WorkloadModeBatch, ''infer''), (WorkloadModeShell, ''shell''), (WorkloadModeTrain, ''train'')] mode"

definition validateMode :: "k8slib \<Rightarrow> IdleloomWorkloadSpec \<Rightarrow> field_error list" where
  "validateMode L s =
     (if ws_Mode s = WorkloadModeServer then
        (case (ws_Model s, ws_Server s, ws_Batch s, ws_Shell s, ws_Train s) of
           (Some m, Some _, None, None, None) \<Rightarrow>
             errProblems (IsDNS1123Subdomain L (wmr_CatalogRef m)) ''spec.model.catalogRef''
             @ validateWorkloadServer L (ws_Server s) ''spec.server''
         | _ \<Rightarrow> [Invalid ''spec'' ''Server mode requires model and server and forbids batch, shell, and train''])
      else if ws_Mode s = WorkloadModeBatch then
        (case (ws_Model s, ws_Server s, ws_Batch s, ws_Shell s, ws_Train s) of
           (Some m, None, Some _, None, None) \<Rightarrow>
             errProblems (IsDNS1123Subdomain L (wmr_CatalogRef m)) ''spec.model.catalogRef''
             @ validateBatchInference (ws_Batch s) ''spec.batch''
         | _ \<Rightarrow> [Invalid ''spec'' ''Batch mode requires model and batch and forbids server and shell''])
      else if ws_Mode s = WorkloadModeShell then
        (case (ws_Model s, ws_Server s, ws_Batch s, ws_Shell s, ws_Train s) of
           (None, None, None, Some sh, None) \<Rightarrow> validateShell sh
         | _ \<Rightarrow> [Invalid ''spec'' ''Shell mode requires shell and forbids model, server, and batch''])
      else if ws_Mode s = WorkloadModeTrain then
        (case (ws_Model s, ws_Server s, ws_Batch s, ws_Shell s, ws_Train s) of
           (None, None, None, None, Some _) \<Rightarrow>
             validateTraining (ws_Train s) ''spec.train''
             @ errIf (case ws_Run s of None \<Rightarrow> True | Some r \<Rightarrow> wrs_Task r \<noteq> ''train'')
                 (Invalid ''spec.run'' ''Train mode requires run.task=train'')
         | _ \<Rightarrow> [Invalid ''spec'' ''Train mode requires train and forbids model, server, batch, and shell''])
      else [NotSupported ''spec.mode''])"

definition ValidateWorkload :: "k8slib \<Rightarrow> IdleloomWorkload \<Rightarrow> field_error list" where
  "ValidateWorkload L w =
     (let s = wl_Spec w in
      validateMode L s
      @ (case ws_Run s of
           None \<Rightarrow> []
         | Some r \<Rightarrow>
            validateRunSpec L (ws_Run s) ''spec.run''
            @ errIf (expectedTask (ws_Mode s) \<noteq> [] \<and> wrs_Task r \<noteq> expectedTask (ws_Mode s))
                (Invalid ''spec.run.task'' (''must be '' @ fmt_q (expectedTask (ws_Mode s)) @ '' for '' @ ws_Mode s @ '' mode'')))
      @ errIf (Quantity_Sign L (wr_UnifiedMemoryRequest (ws_Resources s)) \<le> 0)
          (Invalid ''spec.resources.unifiedMemoryRequest'' ''must be positive''))"

subsection \<open>Models\<close>

definition validateOCIReference :: "string \<Rightarrow> string \<Rightarrow> field_error list" where
  \<comment> \<open>the \<open>OCIReference\<close> case of \<open>validateArtifact\<close>\<close>
  "validateOCIReference ref path =
     (case url_Parse ref of
        None \<Rightarrow> [Invalid (path @ ''.ociReference'') ''must be a credential-free OCI reference pinned by digest'']
      | Some u \<Rightarrow>
         if \<not> matches ociReferencePattern ref \<or> Scheme u \<noteq> ''oci'' \<or> Host u = [] \<or> HasUser u
            \<or> RawQuery u \<noteq> [] \<or> Fragment u \<noteq> []
         then [Invalid (path @ ''.ociReference'') ''must be a credential-free OCI reference pinned by digest'']
         else let at = LastIndex (Path u) (CHR ''@'') in
           errIf (at \<le> 1 \<or> \<not> matches sha256Pattern (drop (nat (at + 1)) (Path u)))
             (Invalid (path @ ''.ociReference'') ''must end in @sha256:<64 lowercase hex characters>''))"

definition validateArtifact :: "ModelArtifact \<Rightarrow> string \<Rightarrow> string \<Rightarrow> field_error list" where
  "validateArtifact a runtimeProfile path =
     (if ma_OCIReference a \<noteq> [] then validateOCIReference (ma_OCIReference a) path else [])
     @ errIf (ma_OllamaModel a \<noteq> [] \<and> \<not> matches ollamaModelPattern (ma_OllamaModel a))
         (Invalid (path @ ''.ollamaModel'') ''must be an unqualified lowercase Ollama model and tag'')
     @ errIf (ma_GGUFFile a \<noteq> [] \<and> \<not> matches ggufFilePattern (ma_GGUFFile a))
         (Invalid (path @ ''.ggufFile'') ''must be a safe GGUF filename without a path'')
     @ (case ma_HuggingFace a of
          None \<Rightarrow> []
        | Some src \<Rightarrow>
           errIf (maxHFRepositoryLength < length (hf_Repository src) \<or> \<not> matches hfRepositoryPattern (hf_Repository src))
             (Invalid (path @ ''.huggingFace.repository'') ''must be OWNER/NAME'')
           @ errIf (\<not> matches hfRevisionPattern (hf_Revision src))
             (Invalid (path @ ''.huggingFace.revision'') ''must be a full 40-character lowercase commit SHA; branches and tags are not accepted''))
     @ errIf (length (filter id [ma_OCIReference a \<noteq> [], ma_OllamaModel a \<noteq> [], ma_GGUFFile a \<noteq> [], ma_HuggingFace a \<noteq> None]) \<noteq> 1)
         (Invalid path ''exactly one OCI, Ollama, direct GGUF, or Hugging Face source is required'')
     @ errIf (\<not> matches sha256Pattern (ma_ManifestDigest a))
         (Invalid (path @ ''.manifestDigest'') ''must be sha256:<64 lowercase hex characters>'')
     @ (if runtimeProfile = RuntimeProfileMLXLMV1 then
          (let signedOCI = (ma_OCIReference a \<noteq> [] \<and> ma_Signature a \<noteq> None);
               unsignedHF = (ma_HuggingFace a \<noteq> None \<and> ma_Signature a = None)
           in errIf (\<not> signedOCI \<and> \<not> unsignedHF \<or> ma_Format a \<noteq> ArtifactFormatSafetensorsV1)
                (Invalid path ''mlx-lm-v1 requires a signed OCI or an unsigned Hugging Face mlx-safetensors-v1 artifact''))
        else if runtimeProfile = RuntimeProfileOllamaGGUFV1 then
          errIf (ma_OllamaModel a = [] \<or> ma_Format a \<noteq> ArtifactFormatGGUFV1 \<or> ma_Signature a \<noteq> None)
            (Invalid path ''ollama-gguf-v1 requires an unsigned local Ollama gguf-v1 artifact pinned by manifest digest'')
        else if runtimeProfile = RuntimeProfileLlamaCppMetalV1 then
          errIf (ma_GGUFFile a = [] \<or> ma_Format a \<noteq> ArtifactFormatGGUFV1 \<or> ma_Signature a \<noteq> None)
            (Invalid path ''llama-cpp-metal-v1 requires an unsigned managed GGUF file pinned by SHA-256'')
        else [])
     @ (if ma_SizeBytes a \<le> 0 then [Invalid (path @ ''.sizeBytes'') ''must be positive'']
        else errIf (maxArtifactBytes < ma_SizeBytes a)
          (Invalid (path @ ''.sizeBytes'') (''must not exceed '' @ FormatInt maxArtifactBytes @ '' bytes'')))
     @ (case ma_Signature a of
          None \<Rightarrow> []
        | Some sg \<Rightarrow> errIf (TrimSpace (sp_Issuer sg) = [] \<or> TrimSpace (sp_Subject sg) = [])
            (Invalid (path @ ''.signature'') ''issuer and subject are required''))"

definition ValidateModel :: "k8slib \<Rightarrow> IdleloomModelSpec \<Rightarrow> field_error list" where
  \<comment> \<open>the code reads only \<open>model.Spec\<close>\<close>
  "ValidateModel L s =
     errIf (ms_Family s \<noteq> ModelFamilyQwen35 \<and> ms_Family s \<noteq> ModelFamilyMLX \<and> ms_Family s \<noteq> ModelFamilyOllamaGGUF \<and> ms_Family s \<noteq> ModelFamilyGGUF)
       (NotSupported ''spec.family'')
     @ errIf (ms_RuntimeProfile s \<noteq> RuntimeProfileMLXLMV1 \<and> ms_RuntimeProfile s \<noteq> RuntimeProfileOllamaGGUFV1 \<and> ms_RuntimeProfile s \<noteq> RuntimeProfileLlamaCppMetalV1)
       (NotSupported ''spec.runtimeProfile'')
     @ errIf (ms_RuntimeProfile s = RuntimeProfileMLXLMV1 \<and> ms_Family s \<noteq> ModelFamilyQwen35 \<and> ms_Family s \<noteq> ModelFamilyMLX)
       (Invalid ''spec.family'' ''mlx-lm-v1 requires qwen3.5 or mlx'')
     @ errIf (ms_Family s = ModelFamilyMLX \<and> ms_RuntimeProfile s \<noteq> RuntimeProfileMLXLMV1)
       (Invalid ''spec.runtimeProfile'' ''mlx requires mlx-lm-v1'')
     @ errIf (ms_RuntimeProfile s = RuntimeProfileMLXLMV1 \<and> ms_Family s = ModelFamilyQwen35 \<and> ma_HuggingFace (ms_Artifact s) \<noteq> None)
       (Invalid ''spec.artifact.huggingFace'' ''qwen3.5 is the locked OCI model; use family mlx for a Hugging Face source'')
     @ errIf (ms_Family s = ModelFamilyMLX \<and> ma_HuggingFace (ms_Artifact s) = None)
       (Required ''spec.artifact.huggingFace'' ''mlx requires a Hugging Face source pinned by commit'')
     @ errIf (ms_RuntimeProfile s = RuntimeProfileOllamaGGUFV1 \<and> ms_Family s \<noteq> ModelFamilyOllamaGGUF)
       (Invalid ''spec.family'' ''ollama-gguf-v1 requires ollama-gguf'')
     @ errIf (ms_RuntimeProfile s = RuntimeProfileLlamaCppMetalV1 \<and> ms_Family s \<noteq> ModelFamilyGGUF)
       (Invalid ''spec.family'' ''llama-cpp-metal-v1 requires gguf'')
     @ validateArtifact (ms_Artifact s) (ms_RuntimeProfile s) ''spec.artifact''
     @ errIf (Quantity_Sign L (ms_MinimumUnifiedMemory s) \<le> 0)
       (Invalid ''spec.minimumUnifiedMemory'' ''must be positive'')
     @ (if ms_MaxContextLength s < 128 then [Invalid ''spec.maxContextLength'' ''must be at least 128'']
        else errIf (maxContextLength < ms_MaxContextLength s)
          (Invalid ''spec.maxContextLength'' (''must not exceed '' @ FormatInt maxContextLength)))
     @ errIf (ms_MaxConcurrentRequests s \<noteq> 1) (NotSupported ''spec.maxConcurrentRequests'')
     @ (let sanityFloor = NewQuantity L (wrap64 (ma_SizeBytes (ms_Artifact s) + sanityMemoryOverhead)) in
        errIf (Quantity_Cmp L (ms_MinimumUnifiedMemory s) sanityFloor < 0)
          (Invalid ''spec.minimumUnifiedMemory'' (''must be at least '' @ Quantity_String L sanityFloor @ '' to hold the artifact itself'')))"

definition MinimumUnifiedMemoryForModel :: "k8slib \<Rightarrow> int64 \<Rightarrow> int32 \<Rightarrow> Quantity" where
  "MinimumUnifiedMemoryForModel L artifactBytes contextLength =
     NewQuantity L (wrap64 (artifactBytes + runtimeMemoryOverhead + contextLength * contextMemoryPerToken))"

definition EstimatedUnifiedMemoryForModel :: "k8slib \<Rightarrow> int64 \<Rightarrow> int32 \<Rightarrow> ModelMemoryProfile option \<Rightarrow> Quantity" where
  "EstimatedUnifiedMemoryForModel L artifactBytes contextLength profile =
     (case profile of
        None \<Rightarrow> MinimumUnifiedMemoryForModel L artifactBytes contextLength
      | Some p \<Rightarrow>
         if mp_KVBytesPerToken p \<le> 0 then MinimumUnifiedMemoryForModel L artifactBytes contextLength
         else NewQuantity L (wrap64 (artifactBytes + contextLength * mp_KVBytesPerToken p + computeBufferBytes + runtimeFixedOverhead)))"

definition EffectiveUnifiedMemoryRequest :: "k8slib \<Rightarrow> Quantity \<Rightarrow> Quantity \<Rightarrow> Quantity" where
  "EffectiveUnifiedMemoryRequest L workload model =
     (if 0 \<le> Quantity_Cmp L workload model then workload else model)"

definition HuggingFaceArtifactName :: "HuggingFaceSource \<Rightarrow> string" where
  "HuggingFaceArtifactName source = hf_Repository source @ ''@'' @ hf_Revision source"

definition ArtifactDigestFromOCIReference :: "string \<Rightarrow> string res" where
  "ArtifactDigestFromOCIReference reference =
     (case url_Parse reference of
        None \<Rightarrow> Inl (ErrorString (''invalid OCI reference '' @ fmt_q reference))
      | Some u \<Rightarrow>
         if \<not> matches ociReferencePattern reference \<or> Scheme u \<noteq> ''oci'' \<or> Host u = [] \<or> HasUser u
            \<or> RawQuery u \<noteq> [] \<or> Fragment u \<noteq> []
         then Inl (ErrorString (''invalid OCI reference '' @ fmt_q reference))
         else let at = LastIndex (Path u) (CHR ''@'') in
           if at < 0 \<or> \<not> matches sha256Pattern (drop (nat (at + 1)) (Path u))
           then Inl (ErrorString (''the OCI reference '' @ fmt_q reference @ '' is not pinned by digest''))
           else Inr (drop (nat (at + 1)) (Path u)))"

subsection \<open>Hosts and assignments\<close>

definition ValidateHost :: "k8slib \<Rightarrow> IdleloomHost \<Rightarrow> field_error list" where
  "ValidateHost L h =
     errIf (ho_Name h \<noteq> [] \<and> ho_Name h \<noteq> ''host'') (Invalid ''metadata.name'' ''host mailbox object must be named host'')
     @ errProblems (IsDNS1123Subdomain L (hs_AgentID (ho_Spec h))) ''spec.agentID''
     @ errIf (hs_ShellAccess (ho_Spec h) \<noteq> [] \<and> hs_ShellAccess (ho_Spec h) \<noteq> ShellAccessDisabled
          \<and> hs_ShellAccess (ho_Spec h) \<noteq> ShellAccessSandboxed \<and> hs_ShellAccess (ho_Spec h) \<noteq> ShellAccessHost)
         (NotSupported ''spec.shellAccess'')"

definition validateAssignedModel :: "k8slib \<Rightarrow> ResolvedModel \<Rightarrow> WorkloadRunSpec option \<Rightarrow> field_error list" where
  \<comment> \<open>the model branch of \<open>ValidateAssignment\<close>\<close>
  "validateAssignedModel L m run =
     (case run of
        None \<Rightarrow> []
      | Some r \<Rightarrow>
         (let task = (if rm_Batch m \<noteq> None then ''infer'' else ''serve'') in
          errIf (wrs_Task r \<noteq> task)
            (Invalid ''spec.run.task'' (''must be '' @ fmt_q task @ '' for the resolved model intent''))))
     @ (let es = ValidateModel L \<lparr>ms_Family = rm_Family m, ms_RuntimeProfile = rm_RuntimeProfile m,
             ms_Artifact = rm_Artifact m, ms_MinimumUnifiedMemory = rm_UnifiedMemoryRequest m,
             ms_MaxContextLength = rm_MaxContextLength m, ms_MaxConcurrentRequests = rm_MaxConcurrentRequests m\<rparr>
        in errIf (es \<noteq> []) (Invalid ''spec.model'' (Aggregate_Error L es)))
     @ errIf (or_Name (rm_CatalogRef m) = [] \<or> or_UID (rm_CatalogRef m) = [])
         (Invalid ''spec.model.catalogRef'' ''name and UID are required'')
     @ (if rm_Batch m \<noteq> None then validateBatchInference (rm_Batch m) ''spec.model.batch'' else [])
     @ (case rm_Server m of None \<Rightarrow> [] | Some s \<Rightarrow> validateResolvedServer L s ''spec.model.server'')
     @ errIf ((rm_Batch m = None) = (rm_Server m = None))
         (Invalid ''spec.model'' ''exactly one batch or server intent is required'')"

definition validateAssignedShell :: "k8slib \<Rightarrow> ResolvedShell \<Rightarrow> WorkloadRunSpec option \<Rightarrow> field_error list" where
  \<comment> \<open>the shell branch of \<open>ValidateAssignment\<close>\<close>
  "validateAssignedShell L s run =
     errIf (case run of None \<Rightarrow> False | Some r \<Rightarrow> wrs_Task r \<noteq> ''shell'')
       (Invalid ''spec.run.task'' ''must be shell for the resolved shell intent'')
     @ errIf (TrimSpace (rsh_Script s) = [] \<or> ContainsNUL (rsh_Script s))
         (Invalid ''spec.shell.script'' ''must contain a non-empty script without NUL bytes'')
     @ errIf (64 * 2 ^ 10 < int (length (rsh_Script s))) (TooLong ''spec.shell.script'')
     @ errIf (rsh_Network s \<noteq> ShellNetworkNone \<and> rsh_Network s \<noteq> ShellNetworkOutbound) (NotSupported ''spec.shell.network'')
     @ errIf (rsh_Isolation s \<noteq> ShellIsolationSandbox \<and> rsh_Isolation s \<noteq> ShellIsolationHost) (NotSupported ''spec.shell.isolation'')
     @ errIf (rsh_Isolation s = ShellIsolationHost \<and> rsh_Network s \<noteq> ShellNetworkOutbound)
         (Invalid ''spec.shell.network'' ''Host isolation requires Outbound network'')
     @ errIf (rsh_TimeoutSeconds s < 1 \<or> 86400 < rsh_TimeoutSeconds s)
         (Invalid ''spec.shell.timeoutSeconds'' ''must be between 1 and 86400'')
     @ errIf (Quantity_Sign L (rsh_UnifiedMemoryRequest s) \<le> 0)
         (Invalid ''spec.shell.unifiedMemoryRequest'' ''must be positive'')"

definition validateIntent :: "k8slib \<Rightarrow> IdleloomWorkloadAssignmentSpec \<Rightarrow> field_error list" where
  \<comment> \<open>the part of \<open>ValidateAssignment\<close> on the resolved model, shell or training run\<close>
  "validateIntent L s =
     (if length (filter id [as_Model s \<noteq> None, as_Shell s \<noteq> None, as_Training s \<noteq> None]) \<noteq> 1
      then [Invalid ''spec'' ''exactly one model, shell, or training run is required'']
      else case as_Model s of
             Some m \<Rightarrow> validateAssignedModel L m (as_Run s)
           | None \<Rightarrow>
              (case as_Shell s of
                 Some sh \<Rightarrow> validateAssignedShell L sh (as_Run s)
               | None \<Rightarrow>
                  validateResolvedTraining L (as_Training s) ''spec.training''
                  @ errIf (case as_Run s of None \<Rightarrow> True | Some r \<Rightarrow> wrs_Task r \<noteq> ''train'')
                      (Invalid ''spec.run'' ''resolved training requires run.task=train'')))"

definition ValidateAssignment :: "k8slib \<Rightarrow> IdleloomWorkloadAssignment \<Rightarrow> field_error list" where
  "ValidateAssignment L a =
     (let s = wa_Spec a in
      errIf (wa_Name a \<noteq> [] \<and> wa_Name a \<noteq> AssignmentMailboxName)
        (Invalid ''metadata.name'' ''assignment mailbox object must be named active'')
      @ errIf (as_DesiredState s \<noteq> AssignmentDesiredRunning \<and> as_DesiredState s \<noteq> AssignmentDesiredStopped)
          (NotSupported ''spec.desiredState'')
      @ errIf (wor_Namespace (as_WorkloadRef s) = [] \<or> wor_Name (as_WorkloadRef s) = []
             \<or> wor_UID (as_WorkloadRef s) = [] \<or> wor_Generation (as_WorkloadRef s) < 1)
          (Invalid ''spec.workloadRef'' ''namespace, name, UID, and positive generation are required'')
      @ errIf (or_Name (as_HostRef s) = [] \<or> or_UID (as_HostRef s) = []) (Invalid ''spec.hostRef'' ''name and UID are required'')
      @ errIf (\<not> matches uuidPattern (as_ExecutionID s)) (Invalid ''spec.executionID'' ''must be a lowercase UUID'')
      @ errIf (as_FencingEpoch s < 1) (Invalid ''spec.fencingEpoch'' ''must be positive'')
      @ errIf (as_LeaseDurationSeconds s < 10 \<or> 300 < as_LeaseDurationSeconds s)
          (Invalid ''spec.leaseDurationSeconds'' ''must be between 10 and 300 seconds'')
      @ (if as_Run s \<noteq> None then validateRunSpec L (as_Run s) ''spec.run'' else [])
      @ validateIntent L s)"

definition ValidateStopAcknowledgement :: "IdleloomWorkloadAssignment \<Rightarrow> unit res" where
  "ValidateStopAcknowledgement a =
     (let s = wa_Spec a; st = wa_Status a in
      if as_DesiredState s \<noteq> AssignmentDesiredStopped \<or> ast_Phase st \<noteq> PhaseStopped
      then Inl (ErrorString ''assignment has not reached the requested Stopped phase'')
      else case ast_StopAcknowledgement st of
        None \<Rightarrow> Inl (ErrorString ''stop acknowledgement is missing'')
      | Some ack \<Rightarrow>
         if wa_UID a = [] \<or> sa_AssignmentUID ack \<noteq> wa_UID a
         then Inl (ErrorString ''stop acknowledgement assignment UID does not match'')
         else if sa_ObservedGeneration ack \<noteq> wa_Generation a \<or> ast_ObservedGeneration st \<noteq> wa_Generation a
         then Inl (ErrorString ''stop acknowledgement has not observed the current assignment generation'')
         else if sa_ExecutionID ack \<noteq> as_ExecutionID s \<or> ast_ExecutionID st \<noteq> as_ExecutionID s
         then Inl (ErrorString ''stop acknowledgement execution ID does not match'')
         else if sa_FencingEpoch ack \<noteq> as_FencingEpoch s \<or> ast_FencingEpoch st \<noteq> as_FencingEpoch s
         then Inl (ErrorString ''stop acknowledgement fencing epoch does not match'')
         else if ast_AgentID st = []
         then Inl (ErrorString ''stop acknowledgement has no agent identity'')
         else if sa_StoppedAt ack = 0
         then Inl (ErrorString ''stop acknowledgement timestamp is missing'')
         else (case ast_LastHeartbeatTime st of
                 None \<Rightarrow> Inl (ErrorString ''stop acknowledgement is newer than the last agent heartbeat'')
               | Some hb \<Rightarrow>
                  if hb < sa_StoppedAt ack
                  then Inl (ErrorString ''stop acknowledgement is newer than the last agent heartbeat'')
                  else Inr ()))"

subsection \<open>What an accepted object satisfies\<close>

lemma if_Nil_Cons: "(if b then [x] else errIf c y) = [] \<longleftrightarrow> \<not> b \<and> \<not> c"
  by simp

lemmas errs_split [errs_simps] = append_is_Nil_conv errIf_Nil errProblems_Nil if_Nil_Cons Let_def

lemma validateMode_cases:
  assumes "validateMode L s = []"
  obtains (server) mr sv where "ws_Mode s = WorkloadModeServer" "ws_Model s = Some mr" "ws_Server s = Some sv"
      "ws_Batch s = None" "ws_Shell s = None" "ws_Train s = None"
      "IsDNS1123Subdomain L (wmr_CatalogRef mr) = []" "validateWorkloadServer L (Some sv) ''spec.server'' = []"
  | (batch) mr b where "ws_Mode s = WorkloadModeBatch" "ws_Model s = Some mr" "ws_Server s = None"
      "ws_Batch s = Some b" "ws_Shell s = None" "ws_Train s = None"
      "IsDNS1123Subdomain L (wmr_CatalogRef mr) = []" "validateBatchInference (Some b) ''spec.batch'' = []"
  | (shell) sh where "ws_Mode s = WorkloadModeShell" "ws_Model s = None" "ws_Server s = None"
      "ws_Batch s = None" "ws_Shell s = Some sh" "ws_Train s = None" "validateShell sh = []"
  | (train) t r where "ws_Mode s = WorkloadModeTrain" "ws_Model s = None" "ws_Server s = None"
      "ws_Batch s = None" "ws_Shell s = None" "ws_Train s = Some t" "ws_Run s = Some r" "wrs_Task r = ''train''"
      "validateTraining (Some t) ''spec.train'' = []"
proof -
  consider "ws_Mode s = WorkloadModeServer" | "ws_Mode s = WorkloadModeBatch"
    | "ws_Mode s = WorkloadModeShell" | "ws_Mode s = WorkloadModeTrain"
    using assms by (auto simp: validateMode_def split: if_splits)
  then show thesis
  proof cases
    case 1
    with assms show thesis
      by (auto simp: validateMode_def split: option.splits intro: server)
  next
    case 2
    with assms show thesis
      by (auto simp: validateMode_def split: option.splits intro: batch)
  next
    case 3
    with assms show thesis
      by (auto simp: validateMode_def split: option.splits intro: shell)
  next
    case 4
    with assms show thesis
      by (auto simp: validateMode_def split: option.splits intro: train)
  qed
qed

lemma ValidateWorkload_facts:
  assumes "ValidateWorkload L w = []"
  shows "validateMode L (wl_Spec w) = []"
    and "ws_Run (wl_Spec w) = Some r \<Longrightarrow> validateRunSpec L (Some r) ''spec.run'' = []"
    and "ws_Run (wl_Spec w) = Some r \<Longrightarrow> expectedTask (ws_Mode (wl_Spec w)) \<noteq> [] \<Longrightarrow> wrs_Task r = expectedTask (ws_Mode (wl_Spec w))"
    and "0 < Quantity_Sign L (wr_UnifiedMemoryRequest (ws_Resources (wl_Spec w)))"
  using assms by (auto simp: ValidateWorkload_def Let_def not_le split: option.splits)

lemma expectedTask_simps [simp]:
  "expectedTask WorkloadModeServer = ''serve''" "expectedTask WorkloadModeBatch = ''infer''"
  "expectedTask WorkloadModeShell = ''shell''" "expectedTask WorkloadModeTrain = ''train''"
  by (simp_all add: expectedTask_def gomap_get.simps)

definition memory_floor :: "ModelArtifact \<Rightarrow> int" where
  "memory_floor a = ma_SizeBytes a + sanityMemoryOverhead"

lemma validateArtifact_size:
  assumes "validateArtifact a prof path = []"
  shows "0 < ma_SizeBytes a" "ma_SizeBytes a \<le> maxArtifactBytes"
  using assms by (auto simp: validateArtifact_def split: if_splits)


lemma ValidateModel_facts:
  assumes "ValidateModel L s = []"
  shows "validateArtifact (ms_Artifact s) (ms_RuntimeProfile s) ''spec.artifact'' = []"
    and "\<not> ms_MaxContextLength s < 128" "\<not> maxContextLength < ms_MaxContextLength s"
    and "ms_MaxConcurrentRequests s = 1"
    and "\<not> Quantity_Cmp L (ms_MinimumUnifiedMemory s) (NewQuantity L (wrap64 (ma_SizeBytes (ms_Artifact s) + sanityMemoryOverhead))) < 0"
  using assms unfolding ValidateModel_def errs_split by blast+

lemmas ValidateModel_size = validateArtifact_size [OF ValidateModel_facts(1)]

lemma in_int64_floor:
  assumes "ValidateModel L s = []"
  shows "in_int64 (ma_SizeBytes (ms_Artifact s) + sanityMemoryOverhead)" "0 < memory_floor (ms_Artifact s)"
  using ValidateModel_size [OF assms]
  by (simp_all add: in_int64_def memory_const_defs min_int64_def max_int64_def memory_floor_def)

lemma ValidateModel_min:
  assumes q: "quantity_law L val u" and v: "ValidateModel L s = []"
  shows "memory_floor (ms_Artifact s) * u \<le> val (ms_MinimumUnifiedMemory s)"
  using ValidateModel_facts(5) [OF v] quantity_law_simps [OF q] in_int64_floor [OF v]
    by (simp add: wrap64_id memory_floor_def)

lemma ValidateModel_change_memory:
  assumes q: "quantity_law L val u" and v: "ValidateModel L s = []"
    and m: "memory_floor (ms_Artifact s) * u \<le> val m"
  shows "ValidateModel L (s\<lparr>ms_MinimumUnifiedMemory := m\<rparr>) = []"
proof -
  from in_int64_floor(2) [OF v] quantity_law_simps(6) [OF q] have "0 < memory_floor (ms_Artifact s) * u" by simp
  with m have "0 < val m" by linarith
  then have "\<not> Quantity_Sign L m \<le> 0"
    and "\<not> Quantity_Cmp L m (NewQuantity L (wrap64 (ma_SizeBytes (ms_Artifact s) + sanityMemoryOverhead))) < 0"
    using m quantity_law_simps [OF q] in_int64_floor [OF v] by (simp_all add: wrap64_id memory_floor_def)
  with v show ?thesis
    by (cases s) (simp only: ValidateModel_def errs_split IdleloomModelSpec.simps, blast)
qed


subsection \<open>Memory estimates\<close>

text \<open>The \<open>Maximum\<close> marker of the CRD on \<open>kvBytesPerToken\<close>.\<close>

definition kv_marker :: "ModelMemoryProfile option \<Rightarrow> bool" where
  "kv_marker p \<longleftrightarrow> (case p of None \<Rightarrow> True | Some q \<Rightarrow> mp_KVBytesPerToken q \<le> 8388608)"

lemma model_bytes_in_int64:
  assumes "0 < s" "s \<le> maxArtifactBytes" "128 \<le> c" "c \<le> maxContextLength" "0 < k" "k \<le> 8388608"
  shows "in_int64 (s + c * k + computeBufferBytes + runtimeFixedOverhead)"
    and "in_int64 (s + runtimeMemoryOverhead + c * contextMemoryPerToken)"
    and "s + sanityMemoryOverhead \<le> s + c * k + computeBufferBytes + runtimeFixedOverhead"
    and "s + sanityMemoryOverhead \<le> s + runtimeMemoryOverhead + c * contextMemoryPerToken"
proof -
  have "0 \<le> c * k" using assms by simp
  moreover have "c * k \<le> maxContextLength * 8388608"
    using assms by (intro mult_mono) (auto simp: memory_const_defs)
  ultimately show "in_int64 (s + c * k + computeBufferBytes + runtimeFixedOverhead)"
    and "in_int64 (s + runtimeMemoryOverhead + c * contextMemoryPerToken)"
    and "s + sanityMemoryOverhead \<le> s + c * k + computeBufferBytes + runtimeFixedOverhead"
    and "s + sanityMemoryOverhead \<le> s + runtimeMemoryOverhead + c * contextMemoryPerToken"
    using assms by (simp_all add: in_int64_def memory_const_defs min_int64_def max_int64_def)
qed

lemma MinimumUnifiedMemory_exact:
  assumes "quantity_law L val u" "0 < s" "s \<le> maxArtifactBytes" "128 \<le> c" "c \<le> maxContextLength"
  shows "val (MinimumUnifiedMemoryForModel L s c) = (s + runtimeMemoryOverhead + c * contextMemoryPerToken) * u"
  using model_bytes_in_int64(2) [of s c 1] quantity_law_simps(5) [OF assms(1)] assms(2-)
  by (simp add: MinimumUnifiedMemoryForModel_def wrap64_id)

lemma EstimatedUnifiedMemory_exact:
  assumes "quantity_law L val u" "0 < s" "s \<le> maxArtifactBytes" "128 \<le> c" "c \<le> maxContextLength"
    and "0 < mp_KVBytesPerToken p" "mp_KVBytesPerToken p \<le> 8388608"
  shows "val (EstimatedUnifiedMemoryForModel L s c (Some p))
    = (s + c * mp_KVBytesPerToken p + computeBufferBytes + runtimeFixedOverhead) * u"
  using model_bytes_in_int64(1) [of s c "mp_KVBytesPerToken p"] quantity_law_simps(5) [OF assms(1)] assms(2-)
  by (simp add: EstimatedUnifiedMemoryForModel_def wrap64_id)

lemma EstimatedUnifiedMemory_floor:
  assumes q: "quantity_law L val u" and v: "ValidateModel L s = []" and k: "kv_marker prof"
  shows "memory_floor (ms_Artifact s) * u
    \<le> val (EstimatedUnifiedMemoryForModel L (ma_SizeBytes (ms_Artifact s)) (ms_MaxContextLength s) prof)"
proof -
  let ?s = "ma_SizeBytes (ms_Artifact s)" and ?c = "ms_MaxContextLength s"
  have b: "0 < ?s" "?s \<le> maxArtifactBytes" "128 \<le> ?c" "?c \<le> maxContextLength"
    using ValidateModel_size [OF v] ValidateModel_facts(2,3) [OF v] by auto
  have u: "0 \<le> u" using quantity_law_simps(6) [OF q] by simp
  have m: "memory_floor (ms_Artifact s) * u \<le> val (MinimumUnifiedMemoryForModel L ?s ?c)"
    unfolding MinimumUnifiedMemory_exact [OF q b] memory_floor_def
    using model_bytes_in_int64(4) [OF b, of 1] u by (intro mult_right_mono) auto
  show ?thesis
  proof (cases prof)
    case None
    with m show ?thesis by (simp add: EstimatedUnifiedMemoryForModel_def)
  next
    case (Some p)
    show ?thesis
    proof (cases "mp_KVBytesPerToken p \<le> 0")
      case True
      with m Some show ?thesis by (simp add: EstimatedUnifiedMemoryForModel_def)
    next
      case False
      with Some k have kv: "0 < mp_KVBytesPerToken p" "mp_KVBytesPerToken p \<le> 8388608"
        by (auto simp: kv_marker_def)
      show ?thesis
        unfolding Some EstimatedUnifiedMemory_exact [OF q b kv] memory_floor_def
        using model_bytes_in_int64(3) [OF b kv] u by (intro mult_right_mono) auto
    qed
  qed
qed

lemma EffectiveUnifiedMemory_max:
  assumes "quantity_law L val u"
  shows "val (EffectiveUnifiedMemoryRequest L w m) = max (val w) (val m)"
  using quantity_law_simps [OF assms] by (auto simp: EffectiveUnifiedMemoryRequest_def)

subsection \<open>Digests and paths\<close>

lemma matches_sha256: "length h = 64 \<Longrightarrow> list_all is_hex h \<Longrightarrow> matches sha256Pattern (''sha256:'' @ h)"
  unfolding matches_iff sha256Pattern_def in_lang_Cat in_lang_lit in_lang_rep_Cls by blast

lemma validateTraining_path: "validateTraining t p = [] \<longleftrightarrow> validateTraining t p' = []"
  by (cases t) (simp_all add: validateTraining_def)

lemma validateBatchInference_path: "validateBatchInference b p = [] \<longleftrightarrow> validateBatchInference b p' = []"
  by (cases b) (simp_all add: validateBatchInference_def)

lemma validateWorkloadServer_path: "validateWorkloadServer L s p = [] \<longleftrightarrow> validateWorkloadServer L s p' = []"
  by (cases s) (simp_all add: validateWorkloadServer_def)

subsection \<open>OCI references\<close>

definition host_char :: "char \<Rightarrow> bool" where
  "host_char c \<longleftrightarrow> is_lower c \<or> is_digit c \<or> c \<in> set ''.-''"

definition path_char :: "char \<Rightarrow> bool" where
  "path_char c \<longleftrightarrow> is_lower c \<or> is_digit c \<or> c \<in> set ''._/-''"

definition port_ok :: "string \<Rightarrow> bool" where
  "port_ok p \<longleftrightarrow> p = [] \<or> (\<exists>ds. p = '':'' @ ds \<and> ds \<noteq> [] \<and> list_all is_digit ds)"

lemma ociReference_parts:
  assumes "matches ociReferencePattern ref"
  obtains host port p hx where "ref = ''oci://'' @ host @ port @ ''/'' @ p @ ''@sha256:'' @ hx"
    "host \<noteq> []" "list_all host_char host" "port_ok port"
    "p \<noteq> []" "list_all path_char p" "length hx = 64" "list_all is_hex hx"
proof -
  have port: "in_lang (opt (Cat (lit '':'') (some1 (Cls is_digit)))) s \<longleftrightarrow> port_ok s" for s
    unfolding port_ok_def in_lang_Cat in_lang_lit in_lang_opt in_lang_some1_Cls by blast
  show thesis
    using assms
    unfolding matches_iff ociReferencePattern_def in_lang_Cat in_lang_lit port in_lang_some1_Cls in_lang_rep_Cls
      host_char_def [symmetric] path_char_def [symmetric]
    by (elim exE conjE) (rule that, hypsubst, rule refl, assumption+)
qed

lemma path_char_props: "path_char c \<Longrightarrow> c \<notin> set ''#?%@:'' \<and> \<not> (byte c < 32 \<or> byte c = 127)"
  unfolding path_char_def char_class_defs by auto

lemma host_char_props: "host_char c \<Longrightarrow> path_char c \<and> c \<noteq> CHR ''/'' \<and> host_literal c"
  unfolding host_char_def path_char_def host_literal_def char_class_defs by auto

lemma digit_props: "is_digit c \<Longrightarrow> host_char c"
  by (simp add: host_char_def)

lemma hex_props: "is_hex c \<Longrightarrow> path_char c"
  unfolding path_char_def char_class_defs by auto

definition ref_char :: "char \<Rightarrow> bool" where
  "ref_char c \<longleftrightarrow> path_char c \<or> c = CHR '':'' \<or> c = CHR ''@''"

lemma ref_char_props: "ref_char c \<Longrightarrow> c \<notin> set ''#?%'' \<and> \<not> (byte c < 32 \<or> byte c = 127)"
  using path_char_props [of c] unfolding ref_char_def by (auto simp: byte_def)

lemma ref_char_absent: "list_all ref_char s \<Longrightarrow> CHR ''#'' \<notin> set s \<and> CHR ''?'' \<notin> set s \<and> CHR ''%'' \<notin> set s"
  using ref_char_props by (fastforce simp: list_all_iff)

lemma parseHost_plain:
  assumes h: "host \<noteq> []" "list_all host_char host" and p: "port_ok port"
  shows "parseHost (host @ port) = Some (host @ port)"
proof -
  have "list_all (\<lambda>c. host_char c \<or> c = CHR '':'') (host @ port)"
    using h p digit_props by (auto simp: list_all_iff port_ok_def)
  moreover have "host_literal c \<and> c \<noteq> CHR ''%''" if "host_char c \<or> c = CHR '':''" for c
    using that
  proof
    assume "host_char c"
    then show ?thesis using host_char_props [of c] path_char_props [of c] by simp
  qed (simp add: host_literal_def)
  ultimately have lit: "list_all host_literal (host @ port)" "CHR ''%'' \<notin> set (host @ port)"
    by (auto simp: list_all_iff)
  have br: "\<not> HasPrefix (host @ port) ''[''"
  proof
    assume "HasPrefix (host @ port) ''[''"
    with h(1) have "hd host = CHR ''[''" by (cases host) (simp_all add: HasPrefix_def)
    with h have "host_char (CHR ''['')" by (metis list_all_iff hd_in_set)
    then show False by (simp add: host_char_def char_class_defs)
  qed
  have colon: "CHR '':'' \<notin> set host"
    using h host_char_props path_char_props by (fastforce simp: list_all_iff)
  have "\<not> (LastIndex (host @ port) (CHR '':'') \<noteq> - 1 \<and> \<not> validOptionalPort (drop (nat (LastIndex (host @ port) (CHR '':''))) (host @ port)))"
  proof (cases "port = []")
    case True
    with colon show ?thesis by (simp add: LastIndex_absent)
  next
    case False
    with p obtain ds where ds: "port = CHR '':'' # ds" "list_all is_digit ds" by (auto simp: port_ok_def)
    then have "CHR '':'' \<notin> set ds"
      using digit_props host_char_props path_char_props by (fastforce simp: list_all_iff)
    then show ?thesis using ds by (simp add: LastIndex_present validOptionalPort_def)
  qed
  then show ?thesis
    unfolding parseHost_def Let_def using br unescape_plain [OF lit(2,1)] by simp
qed

lemma url_Parse_oci:
  assumes h: "host \<noteq> []" "list_all host_char host" "port_ok port"
    and p: "list_all ref_char p"
  shows "url_Parse (''oci://'' @ host @ port @ ''/'' @ p) =
    Some \<lparr>Scheme = ''oci'', Opaque = [], HasUser = False, Host = host @ port, Path = ''/'' @ p, RawQuery = [], Fragment = []\<rparr>"
proof -
  let ?rest = "''//'' @ host @ port @ ''/'' @ p"
  have hp: "list_all ref_char (host @ port)" "CHR ''/'' \<notin> set (host @ port)" "CHR ''@'' \<notin> set (host @ port)"
    using h host_char_props path_char_props digit_props
    by (fastforce simp: list_all_iff port_ok_def ref_char_def)+
  have all: "list_all ref_char (''oci://'' @ host @ port @ ''/'' @ p)" "list_all ref_char ?rest" "list_all ref_char (''/'' @ p)"
    using hp(1) p by (auto simp: ref_char_def path_char_def is_lower_def char_between_def byte_def)
  have gs: "getScheme True [] (''oci://'' @ host @ port @ ''/'' @ p) = Some (''oci'', ?rest)"
    by (simp add: is_lower_def is_upper_def is_digit_def char_between_def byte_def)
  have lo: "map lower_char ''oci'' = ''oci''"
    by (simp add: lower_char_def is_upper_def char_between_def byte_def)
  have auth: "parseAuthority (host @ port) = Some (False, host @ port)"
    unfolding parseAuthority_def Let_def using LastIndex_absent [OF hp(3)] parseHost_plain [OF h] by simp
  have path: "unescape (\<lambda>_. True) False (''/'' @ p) = Some (''/'' @ p)"
    using ref_char_absent [OF all(3)] by (intro unescape_plain) (auto simp: list_all_iff)
  have tw: "takeWhile (\<lambda>c. c \<noteq> CHR ''/'') (drop 2 ?rest) = host @ port"
    "dropWhile (\<lambda>c. c \<noteq> CHR ''/'') (drop 2 ?rest) = ''/'' @ p"
    using takeWhile_neq_append [OF hp(2), of p] dropWhile_neq_append [OF hp(2), of p] by simp_all
  have "url_parse_rest ''oci'' [] ?rest =
      Some \<lparr>Scheme = ''oci'', Opaque = [], HasUser = False, Host = host @ port, Path = ''/'' @ p, RawQuery = [], Fragment = []\<rparr>"
    unfolding url_parse_rest_def Let_def tw auth path by (simp add: HasPrefix_def)
  moreover have "\<not> list_ex (\<lambda>c. byte c < 32 \<or> byte c = 127) (''oci://'' @ host @ port @ ''/'' @ p)"
    using all(1) ref_char_props by (fastforce simp: list_ex_iff list_all_iff)
  ultimately show ?thesis
    unfolding url_Parse_def cut_absent [OF ref_char_absent [OF all(1), THEN conjunct1]]
    using cut_absent [OF ref_char_absent [OF all(2), THEN conjunct2, THEN conjunct1]]
    by (simp only: Let_def prod.case gs option.case lo unescape.simps if_False) simp
qed

lemma oci_reference:
  assumes "matches ociReferencePattern ref"
  obtains u at hx where "url_Parse ref = Some u" "Scheme u = ''oci''" "Host u \<noteq> []" "\<not> HasUser u" "RawQuery u = []" "Fragment u = []"
    "LastIndex (Path u) (CHR ''@'') = int at" "2 \<le> at" "drop (at + 1) (Path u) = ''sha256:'' @ hx"
    "\<exists>pre. ref = pre @ ''@sha256:'' @ hx" "length hx = 64" "list_all is_hex hx"
proof -
  obtain host port p hx where r: "ref = ''oci://'' @ host @ port @ ''/'' @ p @ ''@sha256:'' @ hx"
    and h: "host \<noteq> []" "list_all host_char host" "port_ok port"
    and p: "p \<noteq> []" "list_all path_char p" and hx: "length hx = 64" "list_all is_hex hx"
    using ociReference_parts [OF assms] by blast
  have "list_all path_char ''sha256''"
    by (simp add: path_char_def is_lower_def is_digit_def char_between_def byte_def)
  then have "list_all ref_char (p @ ''@sha256:'' @ hx)"
    using p hx hex_props by (auto simp: ref_char_def list_all_iff)
  from url_Parse_oci [OF h this] have u: "url_Parse ref = Some \<lparr>Scheme = ''oci'', Opaque = [], HasUser = False,
    Host = host @ port, Path = ''/'' @ p @ ''@sha256:'' @ hx, RawQuery = [], Fragment = []\<rparr>"
    by (simp only: r)
  have "CHR ''@'' \<notin> set (''sha256:'' @ hx)"
    using hx hex_props path_char_props by (fastforce simp: list_all_iff)
  then have "LastIndex (''/'' @ p @ ''@sha256:'' @ hx) (CHR ''@'') = int (length (''/'' @ p))"
    using LastIndex_present [of "CHR ''@''" "''sha256:'' @ hx" "''/'' @ p"] by simp
  moreover have "drop (length (''/'' @ p) + 1) (''/'' @ p @ ''@sha256:'' @ hx) = ''sha256:'' @ hx" by simp
  moreover have "2 \<le> length (''/'' @ p)" using p(1) by (cases p) auto
  moreover have "\<exists>pre. ref = pre @ ''@sha256:'' @ hx"
    unfolding r by (rule exI [of _ "''oci://'' @ host @ port @ ''/'' @ p"]) simp
  ultimately show thesis
    by (intro that [OF u, where at = "length (''/'' @ p)" and hx = hx]) (use h(1) hx in \<open>simp_all only: URL.simps, simp_all\<close>)
qed

text \<open>
  The validator accepts an OCI reference exactly when it has the pinned form
  \<open>oci://host[:port]/path@sha256:<64 hex>\<close>, and \<open>ArtifactDigestFromOCIReference\<close>
  returns a digest for exactly these references: the one the reference ends in. So the digest a
  model is checked against is never taken from another part of the reference, such as a port,
  a user name, a query or an escaped path.
\<close>

theorem OCIReference_pinned:
  "(validateOCIReference ref path = [] \<longleftrightarrow> matches ociReferencePattern ref)
   \<and> (\<forall>d. ArtifactDigestFromOCIReference ref = Inr d \<longleftrightarrow>
        matches ociReferencePattern ref \<and> (\<exists>pre hx. ref = pre @ ''@sha256:'' @ hx \<and> length hx = 64 \<and> d = ''sha256:'' @ hx))"
proof (cases "matches ociReferencePattern ref")
  case True
  then obtain u at hx where u: "url_Parse ref = Some u" "Scheme u = ''oci''" "Host u \<noteq> []" "\<not> HasUser u" "RawQuery u = []" "Fragment u = []"
    "LastIndex (Path u) (CHR ''@'') = int at" "2 \<le> at" "drop (at + 1) (Path u) = ''sha256:'' @ hx"
    "\<exists>pre. ref = pre @ ''@sha256:'' @ hx" "length hx = 64" "list_all is_hex hx"
    by (rule oci_reference)
  have m: "matches sha256Pattern (''sha256:'' @ hx)" by (rule matches_sha256 [OF u(11,12)])
  have n: "nat (int at + 1) = at + 1" by simp
  have "validateOCIReference ref path = []"
    using True u m by (simp add: validateOCIReference_def n del: append.simps)
  moreover have "ArtifactDigestFromOCIReference ref = Inr (''sha256:'' @ hx)"
    using True u m by (simp add: ArtifactDigestFromOCIReference_def n del: append.simps)
  moreover have "hx' = hx" if "ref = pre @ ''@sha256:'' @ hx'" "length hx' = 64" for pre hx'
  proof -
    have "drop (length ref - 64) ref = hx'" using that by simp
    moreover have "drop (length ref - 64) ref = hx" using u(10,11) by auto
    ultimately show ?thesis by simp
  qed
  ultimately show ?thesis using True u(10,11) by auto
next
  case False
  then show ?thesis
    by (auto simp: validateOCIReference_def ArtifactDigestFromOCIReference_def split: option.splits)
qed

subsection \<open>Agreement with the admission rules\<close>

text \<open>
  The CEL rules of the CRD markers, which the API server enforces on every write: the ones on
  \<open>IdleloomWorkload\<close> that read one version of the object, and the one on
  \<open>ModelArtifact\<close>. A field with \<open>omitempty\<close> is absent when it is empty.
\<close>

definition crdWorkloadRules :: "k8slib \<Rightarrow> IdleloomWorkloadSpec \<Rightarrow> bool" where
  "crdWorkloadRules L s \<longleftrightarrow>
     0 < Quantity_Sign L (wr_UnifiedMemoryRequest (ws_Resources s))
   \<and> (ws_Mode s = ''Server'' \<and> ws_Model s \<noteq> None \<and> ws_Server s \<noteq> None \<and> ws_Batch s = None \<and> ws_Shell s = None \<and> ws_Train s = None
      \<or> ws_Mode s = ''Batch'' \<and> ws_Model s \<noteq> None \<and> ws_Server s = None \<and> ws_Batch s \<noteq> None \<and> ws_Shell s = None \<and> ws_Train s = None
      \<or> ws_Mode s = ''Shell'' \<and> ws_Model s = None \<and> ws_Server s = None \<and> ws_Batch s = None \<and> ws_Shell s \<noteq> None \<and> ws_Train s = None
      \<or> ws_Mode s = ''Train'' \<and> ws_Model s = None \<and> ws_Server s = None \<and> ws_Batch s = None \<and> ws_Shell s = None \<and> ws_Train s \<noteq> None
        \<and> (case ws_Run s of None \<Rightarrow> False | Some r \<Rightarrow> wrs_Task r = ''train''))
   \<and> (case ws_Shell s of None \<Rightarrow> True | Some sh \<Rightarrow>
        wsh_Isolation sh \<noteq> ''Host'' \<or> wsh_Network sh = [] \<or> wsh_Network sh = ''Outbound'')
   \<and> (case ws_Run s of None \<Rightarrow> True | Some r \<Rightarrow>
        ws_Mode s = ''Server'' \<and> wrs_Task r = ''serve'' \<or> ws_Mode s = ''Batch'' \<and> wrs_Task r = ''infer''
      \<or> ws_Mode s = ''Shell'' \<and> wrs_Task r = ''shell'' \<or> ws_Mode s = ''Train'' \<and> wrs_Task r = ''train'')
   \<and> (case ws_Run s of None \<Rightarrow> True | Some r \<Rightarrow> (case wrs_Parameters r of None \<Rightarrow> True | Some ps \<Rightarrow>
        list_all (\<lambda>(k, v). matches runParameterPattern k \<and> \<not> HasPrefix k ''IDLELOOM_'') ps))
   \<and> (case ws_Train s of None \<Rightarrow> True | Some t \<Rightarrow> \<not> ContainsNUL (wts_Inline (wt_Source t)))"

definition crdArtifactRule :: "ModelArtifact \<Rightarrow> bool" where
  "crdArtifactRule a \<longleftrightarrow>
     ma_OCIReference a \<noteq> [] \<and> ma_OllamaModel a = [] \<and> ma_GGUFFile a = [] \<and> ma_HuggingFace a = None \<and> ma_Signature a \<noteq> None
   \<or> ma_OCIReference a = [] \<and> ma_OllamaModel a \<noteq> [] \<and> ma_GGUFFile a = [] \<and> ma_HuggingFace a = None \<and> ma_Signature a = None
   \<or> ma_OCIReference a = [] \<and> ma_OllamaModel a = [] \<and> ma_GGUFFile a \<noteq> [] \<and> ma_HuggingFace a = None \<and> ma_Signature a = None
   \<or> ma_OCIReference a = [] \<and> ma_OllamaModel a = [] \<and> ma_GGUFFile a = [] \<and> ma_HuggingFace a \<noteq> None \<and> ma_Signature a = None"

lemma validateRunSpec_parameters:
  assumes "validateRunSpec L (Some r) path = []" "wrs_Parameters r = Some ps"
  shows "list_all (\<lambda>(k, v). matches runParameterPattern k \<and> \<not> HasPrefix k ''IDLELOOM_'') ps"
  using assms unfolding validateRunSpec_def option.case errs_split concat_eq_Nil_conv
  by (auto simp: list_all_iff errIf_def split: if_splits)

text \<open>
  Every workload that \<open>ValidateWorkload\<close> accepts satisfies the admission rules of the
  \<open>IdleloomWorkload\<close> CRD: the mode decides which of the intents are present, the run task
  is the one of the mode, the parameter names are safe environment names, and the memory
  request is positive.
\<close>

theorem ValidateWorkload_admission:
  assumes "ValidateWorkload L w = []"
  shows "crdWorkloadRules L (wl_Spec w)"
proof -
  note f = ValidateWorkload_facts [OF assms]
  have par: "case ws_Run (wl_Spec w) of None \<Rightarrow> True | Some r \<Rightarrow> (case wrs_Parameters r of None \<Rightarrow> True | Some ps \<Rightarrow>
        list_all (\<lambda>(k, v). matches runParameterPattern k \<and> \<not> HasPrefix k ''IDLELOOM_'') ps)"
    using f(2) validateRunSpec_parameters by (auto split: option.splits)
  have task: "ws_Run (wl_Spec w) = Some r \<Longrightarrow> expectedTask (ws_Mode (wl_Spec w)) \<noteq> [] \<Longrightarrow> wrs_Task r = expectedTask (ws_Mode (wl_Spec w))" for r
    by (rule f(3))
  from f(1) show ?thesis
  proof (cases rule: validateMode_cases)
    case (server mr sv)
    with f(4) par task show ?thesis unfolding crdWorkloadRules_def by (cases "ws_Run (wl_Spec w)") simp_all
  next
    case (batch mr b)
    with f(4) par task show ?thesis unfolding crdWorkloadRules_def by (cases "ws_Run (wl_Spec w)") simp_all
  next
    case (shell sh)
    then have "wsh_Isolation sh \<noteq> ''Host'' \<or> wsh_Network sh = [] \<or> wsh_Network sh = ''Outbound''"
      unfolding validateShell_def errs_split by blast
    with shell f(4) par task show ?thesis unfolding crdWorkloadRules_def by (cases "ws_Run (wl_Spec w)") simp_all
  next
    case (train t r)
    then have "\<not> ContainsNUL (wts_Inline (wt_Source t))"
      unfolding validateTraining_def option.case errs_split by blast
    with train f(4) par task show ?thesis unfolding crdWorkloadRules_def by simp
  qed
qed

theorem ValidateWorkload_admission_witness: "crdWorkloadRules exlib (wl_Spec exworkload)"
proof -
  have "ValidateWorkload exlib exworkload = []" by code_simp
  then show ?thesis by (rule ValidateWorkload_admission)
qed

text \<open>
  Every model that \<open>ValidateModel\<close> accepts has exactly one artifact source, signed when
  it is an OCI artifact and unsigned otherwise, as the CRD rule on \<open>ModelArtifact\<close> demands.
\<close>

theorem ValidateModel_admission:
  assumes "ValidateModel L s = []"
  shows "crdArtifactRule (ms_Artifact s)"
proof -
  let ?a = "ms_Artifact s"
  have one: "length (filter id [ma_OCIReference ?a \<noteq> [], ma_OllamaModel ?a \<noteq> [], ma_GGUFFile ?a \<noteq> [], ma_HuggingFace ?a \<noteq> None]) = 1"
    using ValidateModel_facts(1) [OF assms] unfolding validateArtifact_def errs_split by blast
  have "ms_RuntimeProfile s = RuntimeProfileMLXLMV1 \<or> ms_RuntimeProfile s = RuntimeProfileOllamaGGUFV1 \<or> ms_RuntimeProfile s = RuntimeProfileLlamaCppMetalV1"
    using assms unfolding ValidateModel_def errs_split by blast
  moreover have "ms_RuntimeProfile s = RuntimeProfileMLXLMV1 \<Longrightarrow> ma_OCIReference ?a \<noteq> [] \<and> ma_Signature ?a \<noteq> None \<or> ma_HuggingFace ?a \<noteq> None \<and> ma_Signature ?a = None"
    and "ms_RuntimeProfile s = RuntimeProfileOllamaGGUFV1 \<Longrightarrow> ma_OllamaModel ?a \<noteq> [] \<and> ma_Signature ?a = None"
    and "ms_RuntimeProfile s = RuntimeProfileLlamaCppMetalV1 \<Longrightarrow> ma_GGUFFile ?a \<noteq> [] \<and> ma_Signature ?a = None"
    using ValidateModel_facts(1) [OF assms] unfolding validateArtifact_def errs_split by auto
  ultimately show ?thesis
    using one unfolding crdArtifactRule_def by (auto split: if_splits)
qed

theorem ValidateModel_admission_witness: "crdArtifactRule (ms_Artifact (md_Spec exmodel))"
proof -
  have "ValidateModel exlib (md_Spec exmodel) = []" by code_simp
  then show ?thesis by (rule ValidateModel_admission)
qed

end
