(* ===== verification/Scheduler.thy ===== *)
theory Scheduler
  imports Validation Examples
begin

section \<open>The placement planner\<close>

text \<open>
  \<open>internal/native/scheduler/planner.go\<close>: which host a workload runs on and the assignment
  that is written into that host's mailbox. The two functions stored in a \<open>Planner\<close> appear
  as what they return: the clock as the argument \<open>now\<close>, \<open>NewExecutionID\<close> as the field
  \<open>pl_NewExecutionID\<close> (\<open>None\<close> when the field is nil), and the bytes read by
  \<open>rand.Read\<close> as the argument \<open>rand\<close>.
\<close>

definition defaultLeaseDuration :: Duration where
  "defaultLeaseDuration = 30 * second"

record Planner =
  pl_HeartbeatTimeout :: Duration
  pl_LeaseDuration :: Duration
  pl_NewExecutionID :: "string res option"

subsection \<open>Error texts\<close>

definition NoEligibleHosts_Error :: "string list \<Rightarrow> string" where
  "NoEligibleHosts_Error reasons =
     (if reasons = [] then ''no Idleloom hosts are registered''
      else ''no eligible Idleloom host: '' @ Join reasons ''; '')"

fun Error :: "k8slib \<Rightarrow> go_error \<Rightarrow> string" where
  "Error L (ErrorString s) = s"
| "Error L (Sentinel s) = s"
| "Error L (WrapError pre e post) = pre @ Error L e @ post"
| "Error L (JoinError es) = Join (map (Error L) es) [bytechar 10]"
| "Error L (StatusError r) = Status_Error L r"
| "Error L (AggregateError es) = Aggregate_Error L es"
| "Error L (SpecValidationError reason e) = Error L e"
| "Error L (NoEligibleHostsError rs) = NoEligibleHosts_Error rs"

subsection \<open>Helpers\<close>

definition contains :: "string list \<Rightarrow> string \<Rightarrow> bool" where
  "contains values expected = list_ex (\<lambda>v. v = expected) values"

lemma contains_iff [simp]: "contains vs x \<longleftrightarrow> x \<in> set vs"
  by (auto simp: contains_def list_ex_iff)

definition localArtifactName :: "ModelArtifact \<Rightarrow> string" where
  "localArtifactName artifact =
     (if ma_OllamaModel artifact \<noteq> [] then ma_OllamaModel artifact else ma_GGUFFile artifact)"

definition containsPinnedLocalModel :: "HostModelStatus list \<Rightarrow> IdleloomModelSpec \<Rightarrow> bool" where
  "containsPinnedLocalModel models spec =
     list_ex (\<lambda>m. hm_RuntimeProfile m = ms_RuntimeProfile spec \<and> hm_Name m = localArtifactName (ms_Artifact spec)
        \<and> hm_ManifestDigest m = ma_ManifestDigest (ms_Artifact spec) \<and> hm_Family m = ms_Family spec
        \<and> hm_Format m = ma_Format (ms_Artifact spec) \<and> hm_SizeBytes m = ma_SizeBytes (ms_Artifact spec)) models"

definition effectiveMemoryRequest :: "k8slib \<Rightarrow> IdleloomWorkload \<Rightarrow> IdleloomModel option \<Rightarrow> IdleloomHost \<Rightarrow> Quantity" where
  "effectiveMemoryRequest L workload model host =
     (let request = wr_UnifiedMemoryRequest (ws_Resources (wl_Spec workload)) in
      case model of
        None \<Rightarrow> request
      | Some m \<Rightarrow>
         if mst_MemoryProfile (md_Status m) \<noteq> None \<and> contains (hst_Capabilities (ho_Status host)) CapabilityMemoryProfileV1
         then EffectiveUnifiedMemoryRequest L request
           (EstimatedUnifiedMemoryForModel L (ma_SizeBytes (ms_Artifact (md_Spec m)))
              (ms_MaxContextLength (md_Spec m)) (mst_MemoryProfile (md_Status m)))
         else EffectiveUnifiedMemoryRequest L request (ms_MinimumUnifiedMemory (md_Spec m)))"

text \<open>\<open>fmt.Sprintf\<close> of \<open>%08x-%04x-%04x-%04x-%012x\<close> on the five slices of the 16 bytes.\<close>

definition randomUUID :: "nat list res \<Rightarrow> string res" where
  "randomUUID rand =
     bind_res rand (\<lambda>v.
       let v' = (v[6 := v ! 6 mod 16 + 64])[8 := v ! 8 mod 64 + 128] in
       Inr (EncodeToString (take 4 v') @ ''-'' @ EncodeToString (take 2 (drop 4 v')) @ ''-''
         @ EncodeToString (take 2 (drop 6 v')) @ ''-'' @ EncodeToString (take 2 (drop 8 v')) @ ''-''
         @ EncodeToString (take 6 (drop 10 v'))))"

subsection \<open>Eligibility\<close>

definition shellIneligible :: "IdleloomHost \<Rightarrow> WorkloadShell \<Rightarrow> string" where
  \<comment> \<open>the shell branch of \<open>hostIneligible\<close>\<close>
  "shellIneligible host shell =
     (let access = (if hs_ShellAccess (ho_Spec host) = [] then ShellAccessDisabled else hs_ShellAccess (ho_Spec host));
          isolation = (if wsh_Isolation shell = [] then ShellIsolationSandbox else wsh_Isolation shell)
      in if isolation = ShellIsolationHost \<and> access \<noteq> ShellAccessHost then ''host shell access is not enabled''
         else if isolation = ShellIsolationSandbox \<and> access \<noteq> ShellAccessSandboxed \<and> access \<noteq> ShellAccessHost
         then ''sandboxed shell access is not enabled''
         else [])"

definition intentIneligible :: "IdleloomHost \<Rightarrow> IdleloomWorkload \<Rightarrow> IdleloomModel option \<Rightarrow> string" where
  \<comment> \<open>the model, training and shell branches of \<open>hostIneligible\<close>\<close>
  "intentIneligible host workload model =
     (case model of
        Some m \<Rightarrow>
         (let s = md_Spec m in
          if \<not> contains (hst_RuntimeProfiles (ho_Status host)) (ms_RuntimeProfile s)
          then ''runtime '' @ ms_RuntimeProfile s @ '' is not supported''
          else if \<not> contains (hst_ModelFamilies (ho_Status host)) (ms_Family s)
          then ''model family '' @ ms_Family s @ '' is not supported''
          else if (ms_RuntimeProfile s = RuntimeProfileOllamaGGUFV1 \<or> ms_RuntimeProfile s = RuntimeProfileLlamaCppMetalV1)
             \<and> \<not> containsPinnedLocalModel (hst_AvailableModels (ho_Status host)) s
          then ''pinned local model '' @ localArtifactName (ms_Artifact s) @ '' is not installed''
          else if ws_Mode (wl_Spec workload) = WorkloadModeBatch
             \<and> \<not> contains (hst_Capabilities (ho_Status host)) CapabilityBatchInferenceV1
          then ''agent does not support Native batch inference''
          else if ws_Server (wl_Spec workload) \<noteq> None
             \<and> \<not> contains (hst_Capabilities (ho_Status host)) CapabilityNativeServiceV1
          then ''agent does not support connected Native serving''
          else [])
      | None \<Rightarrow>
         (case ws_Train (wl_Spec workload) of
            Some t \<Rightarrow>
              if \<not> contains (hst_RuntimeProfiles (ho_Status host)) (wt_RuntimeProfile t)
              then ''runtime '' @ wt_RuntimeProfile t @ '' is not supported''
              else if \<not> contains (hst_Capabilities (ho_Status host)) CapabilityNativeTrainingV1
              then ''agent does not support Native MLX training''
              else []
          | None \<Rightarrow>
             (case ws_Shell (wl_Spec workload) of
                Some sh \<Rightarrow> shellIneligible host sh
              | None \<Rightarrow> [])))"

definition hostIneligible :: "k8slib \<Rightarrow> IdleloomHost \<Rightarrow> IdleloomWorkload \<Rightarrow> IdleloomModel option
    \<Rightarrow> Quantity \<Rightarrow> Time \<Rightarrow> Duration \<Rightarrow> string" where
  "hostIneligible L host workload model request now heartbeatTimeout =
     (let st = ho_Status host in
      if om_DeletionTimestamp (ho_Meta host) \<noteq> None then ''host is deleting''
      else if ho_UID host = [] \<or> ho_Namespace host = [] then ''host identity is incomplete''
      else if ValidateHost L host \<noteq> [] then Aggregate_Error L (ValidateHost L host)
      else if hst_ObservedGeneration st \<noteq> ho_Generation host
      then ''agent status has not observed the current host generation''
      else if hst_ProtocolVersion st \<noteq> AgentProtocolV1Alpha1
      then ''unsupported agent protocol '' @ fmt_q (hst_ProtocolVersion st)
      else case FindStatusCondition L (hst_Conditions st) HostConditionReady of
        None \<Rightarrow> ''agent is not Ready''
      | Some ready \<Rightarrow>
         if cond_Status ready \<noteq> ConditionTrue then ''agent is not Ready''
         else if cond_ObservedGeneration ready \<noteq> ho_Generation host
         then ''Ready condition has not observed the current host generation''
         else case hst_LastHeartbeatTime st of
           None \<Rightarrow> ''agent heartbeat is missing''
         | Some heartbeat \<Rightarrow>
            if now + HeartbeatClockSkewAllowance < heartbeat then ''agent heartbeat is too far in the future''
            else if wrap64 (heartbeatTimeout + HeartbeatClockSkewAllowance) < time_Sub now heartbeat
            then ''agent heartbeat is stale''
            else if hst_KrunkitState st \<noteq> KrunkitStateStopped then ''krunkit worker is '' @ hst_KrunkitState st
            else if hst_VulkanLeaseActive st then ''a Vulkan lease is active''
            else if hst_ActiveAssignmentUID st \<noteq> [] then ''another native assignment is active''
            else if intentIneligible host workload model \<noteq> [] then intentIneligible host workload model
            else if Quantity_Cmp L (hst_AllocatableUnifiedMemory st) request < 0
            then ''allocatable unified memory '' @ Quantity_String L (hst_AllocatableUnifiedMemory st)
                 @ '' is less than request '' @ Quantity_String L request
            else if Quantity_Cmp L (hst_AvailableUnifiedMemory st) request < 0
            then ''available unified memory '' @ Quantity_String L (hst_AvailableUnifiedMemory st)
                 @ '' is less than request '' @ Quantity_String L request
            else [])"

subsection \<open>Host selection\<close>

definition heartbeatTimeoutOf :: "Planner \<Rightarrow> Duration" where
  "heartbeatTimeoutOf p =
     (if pl_HeartbeatTimeout p \<le> 0 then DefaultAgentHeartbeatTimeout else pl_HeartbeatTimeout p)"

definition checkSpec :: "k8slib \<Rightarrow> IdleloomWorkload \<Rightarrow> IdleloomModel option \<Rightarrow> unit res" where
  \<comment> \<open>the checks of \<open>SelectHost\<close> that precede the choice of a host\<close>
  "checkSpec L workload model =
     (let s = wl_Spec workload in
      if ValidateWorkload L workload \<noteq> []
      then Inl (SpecValidationError ''WorkloadValidationFailed''
             (WrapError ''validate workload: '' (AggregateError (ValidateWorkload L workload)) []))
      else bind_res
        (if ws_Mode s = WorkloadModeServer \<or> ws_Mode s = WorkloadModeBatch then
           (case model of
              None \<Rightarrow> Inl (SpecValidationError ''ModelValidationFailed'' (ErrorString ''model workload requires a resolved model''))
            | Some m \<Rightarrow>
               if ValidateModel L (md_Spec m) \<noteq> []
               then Inl (SpecValidationError ''ModelValidationFailed''
                      (WrapError ''validate model: '' (AggregateError (ValidateModel L (md_Spec m))) []))
               else case ws_Model s of
                 None \<Rightarrow> Inl (Sentinel ''panic: nil pointer dereference'')
               | Some ref \<Rightarrow>
                  if wmr_CatalogRef ref \<noteq> md_Name m
                  then Inl (SpecValidationError ''ModelValidationFailed''
                         (ErrorString (''workload requested model '' @ fmt_q (wmr_CatalogRef ref) @ '' but controller resolved '' @ fmt_q (md_Name m))))
                  else case ws_Batch s of
                    None \<Rightarrow> Inr ()
                  | Some b \<Rightarrow>
                     if ms_MaxContextLength (md_Spec m) \<le> wbi_MaxTokens b
                     then Inl (SpecValidationError ''WorkloadValidationFailed''
                            (ErrorString (''batch maxTokens '' @ FormatInt (wbi_MaxTokens b)
                               @ '' must be smaller than the model's maxContextLength '' @ FormatInt (ms_MaxContextLength (md_Spec m)))))
                     else Inr ())
         else if model \<noteq> None
         then Inl (SpecValidationError ''WorkloadValidationFailed'' (ErrorString ''non-model workload must not resolve a model''))
         else Inr ())
        (\<lambda>_. case model of
           None \<Rightarrow> Inr ()
         | Some m \<Rightarrow>
            (case mst_MemoryProfile (md_Status m) of
               None \<Rightarrow> Inr ()
             | Some pr \<Rightarrow>
                if mp_TrainedContextLength pr < ms_MaxContextLength (md_Spec m)
                then Inl (SpecValidationError ''ModelValidationFailed''
                       (ErrorString (''maxContextLength '' @ FormatInt (ms_MaxContextLength (md_Spec m))
                          @ '' exceeds the artifact's measured trained context length '' @ FormatInt (mp_TrainedContextLength pr))))
                else Inr ())))"

definition hostKey :: "IdleloomHost \<Rightarrow> string" where
  "hostKey h = ho_Namespace h @ ''/'' @ ho_Name h"

definition hostLess :: "k8slib \<Rightarrow> IdleloomHost \<Rightarrow> IdleloomHost \<Rightarrow> bool" where
  "hostLess L a b =
     (let cmp = Quantity_Cmp L (hst_AvailableUnifiedMemory (ho_Status a)) (hst_AvailableUnifiedMemory (ho_Status b)) in
      if cmp \<noteq> 0 then cmp < 0 else hostKey a < hostKey b)"

definition ineligibility :: "k8slib \<Rightarrow> Planner \<Rightarrow> Time \<Rightarrow> IdleloomWorkload \<Rightarrow> IdleloomModel option \<Rightarrow> IdleloomHost \<Rightarrow> string" where
  \<comment> \<open>the body of the loop over the hosts in \<open>SelectHost\<close>\<close>
  "ineligibility L p now workload model host =
     hostIneligible L host workload model (effectiveMemoryRequest L workload model host) now (heartbeatTimeoutOf p)"

definition SelectHost :: "k8slib \<Rightarrow> Planner \<Rightarrow> Time \<Rightarrow> IdleloomWorkload \<Rightarrow> IdleloomModel option
    \<Rightarrow> IdleloomHost list \<Rightarrow> IdleloomHost res" where
  "SelectHost L p now workload model hosts =
     bind_res (checkSpec L workload model) (\<lambda>_.
       let candidates = filter (\<lambda>h. ineligibility L p now workload model h = []) hosts;
           reasons = map (\<lambda>h. ho_Namespace h @ ''/'' @ ho_Name h @ '': '' @ ineligibility L p now workload model h)
             (filter (\<lambda>h. ineligibility L p now workload model h \<noteq> []) hosts)
       in if candidates = [] then Inl (NoEligibleHostsError (sort reasons))
          else Inr (hd (sort_Slice (hostLess L) candidates)))"

subsection \<open>The planned assignment\<close>

definition resolveShell :: "WorkloadShell \<Rightarrow> Quantity \<Rightarrow> ResolvedShell" where
  "resolveShell shell memoryRequest =
     (let isolation = (if wsh_Isolation shell = [] then ShellIsolationSandbox else wsh_Isolation shell);
          network = (if wsh_Network shell = []
                     then (if isolation = ShellIsolationHost then ShellNetworkOutbound else ShellNetworkNone)
                     else wsh_Network shell);
          timeout = (if wsh_TimeoutSeconds shell = 0 then 3600 else wsh_TimeoutSeconds shell)
      in \<lparr>rsh_Script = wsh_Script shell, rsh_Isolation = isolation, rsh_Network = network,
          rsh_TimeoutSeconds = timeout, rsh_UnifiedMemoryRequest = memoryRequest\<rparr>)"

definition resolveTraining :: "k8slib \<Rightarrow> WorkloadTraining \<Rightarrow> Quantity \<Rightarrow> ResolvedTraining" where
  "resolveTraining L train memoryRequest =
     \<lparr>rt_RuntimeProfile = wt_RuntimeProfile train, rt_Source = wts_Inline (wt_Source train),
      rt_SourceDigest = ''sha256:'' @ EncodeToString (Sum256 L (wts_Inline (wt_Source train))),
      rt_Network = (if wt_Network train = [] then ShellNetworkNone else wt_Network train),
      rt_TimeoutSeconds = (if wt_TimeoutSeconds train = 0 then 3600 else wt_TimeoutSeconds train),
      rt_UnifiedMemoryRequest = memoryRequest\<rparr>"

definition resolveModel :: "IdleloomModel \<Rightarrow> IdleloomWorkload \<Rightarrow> Quantity \<Rightarrow> ResolvedModel" where
  "resolveModel m workload memoryRequest =
     \<lparr>rm_CatalogRef = \<lparr>or_Name = md_Name m, or_UID = md_UID m\<rparr>,
      rm_Family = ms_Family (md_Spec m), rm_RuntimeProfile = ms_RuntimeProfile (md_Spec m),
      rm_Artifact = ms_Artifact (md_Spec m), rm_UnifiedMemoryRequest = memoryRequest,
      rm_MaxContextLength = ms_MaxContextLength (md_Spec m),
      rm_MaxConcurrentRequests = ms_MaxConcurrentRequests (md_Spec m),
      rm_Server = map_option (\<lambda>s. \<lparr>rsv_ServiceName = wsv_ServiceName s, rsv_ModelAlias = wsv_ModelAlias s,
        rsv_Port = NativeServingPort\<rparr>) (ws_Server (wl_Spec workload)),
      rm_Batch = map_option (\<lambda>b. if wbi_TimeoutSeconds b = 0 then b\<lparr>wbi_TimeoutSeconds := 600\<rparr> else b)
        (ws_Batch (wl_Spec workload))\<rparr>"

definition buildAssignment :: "k8slib \<Rightarrow> IdleloomWorkload \<Rightarrow> IdleloomModel option \<Rightarrow> IdleloomHost \<Rightarrow> int64
    \<Rightarrow> string \<Rightarrow> Duration \<Rightarrow> IdleloomWorkloadAssignment res" where
  \<comment> \<open>the construction part of \<open>PlanAssignment\<close>\<close>
  "buildAssignment L workload model host fencingEpoch executionID leaseDuration =
     (let memoryRequest = effectiveMemoryRequest L workload model host;
          base = \<lparr>as_DesiredState = AssignmentDesiredRunning,
            as_WorkloadRef = \<lparr>wor_Namespace = wl_Namespace workload, wor_Name = wl_Name workload,
              wor_UID = wl_UID workload, wor_Generation = wl_Generation workload\<rparr>,
            as_HostRef = \<lparr>or_Name = ho_Name host, or_UID = ho_UID host\<rparr>,
            as_Model = None, as_Shell = None, as_Training = None, as_Run = ws_Run (wl_Spec workload),
            as_ExecutionID = executionID, as_FencingEpoch = fencingEpoch,
            as_LeaseDurationSeconds = leaseDuration div second\<rparr>;
          wrap = (\<lambda>spec. \<lparr>wa_Type = \<lparr>tm_Kind = ''IdleloomWorkloadAssignment'', tm_APIVersion = APIVersionNative\<rparr>,
            wa_Meta = zero_ObjectMeta\<lparr>om_Name := AssignmentMailboxName, om_Namespace := ho_Namespace host,
              om_Labels := [(''ai.idleloom.io/host-namespace'', ho_Namespace host),
                (''ai.idleloom.io/workload-uid'', wl_UID workload),
                (''app.kubernetes.io/managed-by'', ''idleloom-controller'')]\<rparr>,
            wa_Spec = spec, wa_Status = zero_AssignmentStatus\<rparr>)
      in case model of
           Some m \<Rightarrow> Inr (wrap (base\<lparr>as_Model := Some (resolveModel m workload memoryRequest)\<rparr>))
         | None \<Rightarrow>
            (case ws_Train (wl_Spec workload) of
               Some t \<Rightarrow> Inr (wrap (base\<lparr>as_Training := Some (resolveTraining L t memoryRequest)\<rparr>))
             | None \<Rightarrow>
                (case ws_Shell (wl_Spec workload) of
                   Some sh \<Rightarrow> Inr (wrap (base\<lparr>as_Shell := Some (resolveShell sh memoryRequest)\<rparr>))
                 | None \<Rightarrow> Inl (Sentinel ''panic: nil pointer dereference''))))"

definition newExecutionID :: "Planner \<Rightarrow> nat list res \<Rightarrow> string res" where
  "newExecutionID p rand = (case pl_NewExecutionID p of None \<Rightarrow> randomUUID rand | Some r \<Rightarrow> r)"

definition leaseDurationOf :: "Planner \<Rightarrow> Duration res" where
  "leaseDurationOf p =
     (let d = (if pl_LeaseDuration p \<le> 0 then defaultLeaseDuration else pl_LeaseDuration p) in
      if d < 10 * second \<or> 300 * second < d \<or> d mod second \<noteq> 0
      then Inl (ErrorString ''lease duration must be a whole number of seconds between 10s and 5m'')
      else Inr d)"

definition PlanAssignment :: "k8slib \<Rightarrow> Planner \<Rightarrow> Time \<Rightarrow> nat list res \<Rightarrow> IdleloomWorkload \<Rightarrow> IdleloomModel option
    \<Rightarrow> IdleloomHost \<Rightarrow> int64 \<Rightarrow> IdleloomWorkloadAssignment res" where
  "PlanAssignment L p now rand workload model host fencingEpoch =
     (if wl_UID workload = [] \<or> wl_Generation workload < 1
      then Inl (ErrorString ''workload UID and positive generation are required'')
      else if (case model of None \<Rightarrow> False | Some m \<Rightarrow> md_UID m = [])
      then Inl (ErrorString ''model UID is required'')
      else if ho_UID host = [] \<or> ho_Namespace host = []
      then Inl (ErrorString ''host UID and namespace are required'')
      else if fencingEpoch < 1
      then Inl (ErrorString ''fencing epoch must be positive'')
      else bind_res (SelectHost L p now workload model [host]) (\<lambda>_.
        case newExecutionID p rand of
          Inl e \<Rightarrow> Inl (WrapError ''generate execution ID: '' e [])
        | Inr executionID \<Rightarrow>
           bind_res (leaseDurationOf p) (\<lambda>leaseDuration.
             bind_res (buildAssignment L workload model host fencingEpoch executionID leaseDuration) (\<lambda>assignment.
               if ValidateAssignment L assignment \<noteq> []
               then Inl (WrapError ''validate planned assignment: '' (AggregateError (ValidateAssignment L assignment)) [])
               else Inr assignment))))"

subsection \<open>Eligible hosts\<close>

text \<open>What \<open>hostIneligible\<close> demands of a host, as one predicate.\<close>

definition eligible :: "k8slib \<Rightarrow> IdleloomHost \<Rightarrow> IdleloomWorkload \<Rightarrow> IdleloomModel option
    \<Rightarrow> Quantity \<Rightarrow> Time \<Rightarrow> Duration \<Rightarrow> bool" where
  "eligible L host workload model request now timeout \<longleftrightarrow>
     om_DeletionTimestamp (ho_Meta host) = None
   \<and> ho_UID host \<noteq> [] \<and> ho_Namespace host \<noteq> [] \<and> ValidateHost L host = []
   \<and> hst_ObservedGeneration (ho_Status host) = ho_Generation host
   \<and> hst_ProtocolVersion (ho_Status host) = AgentProtocolV1Alpha1
   \<and> (\<exists>ready. FindStatusCondition L (hst_Conditions (ho_Status host)) HostConditionReady = Some ready
        \<and> cond_Status ready = ConditionTrue \<and> cond_ObservedGeneration ready = ho_Generation host)
   \<and> (\<exists>hb. hst_LastHeartbeatTime (ho_Status host) = Some hb
        \<and> hb \<le> now + HeartbeatClockSkewAllowance
        \<and> time_Sub now hb \<le> wrap64 (timeout + HeartbeatClockSkewAllowance))
   \<and> hst_KrunkitState (ho_Status host) = KrunkitStateStopped
   \<and> \<not> hst_VulkanLeaseActive (ho_Status host)
   \<and> hst_ActiveAssignmentUID (ho_Status host) = []
   \<and> intentIneligible host workload model = []
   \<and> 0 \<le> Quantity_Cmp L (hst_AllocatableUnifiedMemory (ho_Status host)) request
   \<and> 0 \<le> Quantity_Cmp L (hst_AvailableUnifiedMemory (ho_Status host)) request"

lemma reason_Nil: "(if b then x # xs else t) = [] \<longleftrightarrow> \<not> b \<and> t = []"
  by simp

lemma reason_self_Nil: "(if r \<noteq> [] then r else t) = [] \<longleftrightarrow> r = [] \<and> t = []"
  by simp

lemma reason_aggregate_Nil:
  "aggregate_law L \<Longrightarrow> (if es \<noteq> [] then Aggregate_Error L es else t) = [] \<longleftrightarrow> es = [] \<and> t = []"
  by (simp add: aggregate_law_def)

lemma reason_option_Nil:
  "(case x of None \<Rightarrow> c # cs | Some y \<Rightarrow> f y) = [] \<longleftrightarrow> (\<exists>y. x = Some y \<and> f y = [])"
  by (cases x) simp_all

lemma hostIneligible_Nil:
  assumes "aggregate_law L"
  shows "hostIneligible L host w m request now timeout = [] \<longleftrightarrow> eligible L host w m request now timeout"
  unfolding hostIneligible_def eligible_def Let_def append_Cons reason_Nil reason_self_Nil
    reason_option_Nil reason_aggregate_Nil [OF assms] not_less not_not
  by blast

lemma effectiveMemoryRequest_ge:
  assumes q: "quantity_law L val u"
  shows "val (wr_UnifiedMemoryRequest (ws_Resources (wl_Spec w))) \<le> val (effectiveMemoryRequest L w m h)"
  by (cases m) (auto simp: effectiveMemoryRequest_def Let_def EffectiveUnifiedMemory_max [OF q])

lemma effectiveMemoryRequest_floor:
  assumes q: "quantity_law L val u" and v: "ValidateModel L (md_Spec m) = []"
    and k: "kv_marker (mst_MemoryProfile (md_Status m))"
  shows "memory_floor (ms_Artifact (md_Spec m)) * u \<le> val (effectiveMemoryRequest L w (Some m) h)"
  using EstimatedUnifiedMemory_floor [OF q v k] ValidateModel_min [OF q v]
  by (auto simp: effectiveMemoryRequest_def Let_def EffectiveUnifiedMemory_max [OF q] max_def)

lemma checkSpec_workload: "checkSpec L w m = Inr x \<Longrightarrow> ValidateWorkload L w = []"
  by (auto simp: checkSpec_def Let_def split: if_splits)

lemma checkSpec_model:
  assumes "checkSpec L w m = Inr x" and "ws_Mode (wl_Spec w) = WorkloadModeServer \<or> ws_Mode (wl_Spec w) = WorkloadModeBatch"
  shows "\<exists>md mr. m = Some md \<and> ValidateModel L (md_Spec md) = [] \<and> ws_Model (wl_Spec w) = Some mr
    \<and> wmr_CatalogRef mr = md_Name md
    \<and> (\<forall>b. ws_Batch (wl_Spec w) = Some b \<longrightarrow> wbi_MaxTokens b < ms_MaxContextLength (md_Spec md))
    \<and> (\<forall>pr. mst_MemoryProfile (md_Status md) = Some pr \<longrightarrow> ms_MaxContextLength (md_Spec md) \<le> mp_TrainedContextLength pr)"
  using assms
  by (auto simp: checkSpec_def Let_def bind_res_Inr not_less not_le split: if_splits option.splits)

lemma checkSpec_no_model:
  assumes "checkSpec L w m = Inr x" and "\<not> (ws_Mode (wl_Spec w) = WorkloadModeServer \<or> ws_Mode (wl_Spec w) = WorkloadModeBatch)"
  shows "m = None"
  using assms by (auto simp: checkSpec_def Let_def bind_res_Inr split: if_splits option.splits)

text \<open>The memory a host reports as available, as a number.\<close>

definition freeMemory :: "(Quantity \<Rightarrow> int) \<Rightarrow> IdleloomHost \<Rightarrow> int" where
  "freeMemory val h = val (hst_AvailableUnifiedMemory (ho_Status h))"

lemma hostLess_iff:
  assumes "quantity_law L val u"
  shows "hostLess L a b \<longleftrightarrow> freeMemory val a < freeMemory val b \<or> freeMemory val a = freeMemory val b \<and> hostKey a < hostKey b"
  using quantity_law_simps [OF assms] by (auto simp: hostLess_def freeMemory_def Let_def)

lemma strict_weak_hostLess: "quantity_law L val u \<Longrightarrow> strict_weak (hostLess L)"
  unfolding strict_weak_def by (auto simp: hostLess_iff not_less)

lemma SelectHost_Inr:
  "SelectHost L p now w m hosts = Inr h \<longleftrightarrow>
     checkSpec L w m = Inr () \<and> filter (\<lambda>h. ineligibility L p now w m h = []) hosts \<noteq> []
     \<and> h = hd (sort_Slice (hostLess L) (filter (\<lambda>h. ineligibility L p now w m h = []) hosts))"
  by (auto simp: SelectHost_def Let_def bind_res_Inr)

definition eligible_on :: "k8slib \<Rightarrow> Planner \<Rightarrow> Time \<Rightarrow> IdleloomWorkload \<Rightarrow> IdleloomModel option \<Rightarrow> IdleloomHost \<Rightarrow> bool" where
  "eligible_on L p now w m h \<longleftrightarrow>
     eligible L h w m (effectiveMemoryRequest L w m h) now (heartbeatTimeoutOf p)"

lemma ineligibility_Nil: "aggregate_law L \<Longrightarrow> ineligibility L p now w m h = [] \<longleftrightarrow> eligible_on L p now w m h"
  by (simp add: ineligibility_def eligible_on_def hostIneligible_Nil)

lemma sort_Slice_Nil [simp]: "sort_Slice lt xs = [] \<longleftrightarrow> xs = []"
  by (metis length_0_conv length_sort_Slice)

subsection \<open>Planned assignments pass validation\<close>

lemma matches_source_digest:
  "sha256_law L \<Longrightarrow> matches sha256Pattern (''sha256:'' @ EncodeToString (Sum256 L s))"
  by (rule matches_sha256) (simp_all add: sha256_law_def length_EncodeToString EncodeToString_is_hex)

lemma resolveShell_valid:
  assumes "validateShell sh = []" and "0 < Quantity_Sign L mem"
    and "\<And>r. run = Some r \<Longrightarrow> wrs_Task r = ''shell''"
  shows "validateAssignedShell L (resolveShell sh mem) run = []"
  using assms
  by (auto simp: validateAssignedShell_def resolveShell_def validateShell_def Let_def split: option.splits)

lemma resolveTraining_valid:
  assumes "validateTraining (Some t) p = []" and "0 < Quantity_Sign L mem" and "sha256_law L"
  shows "validateResolvedTraining L (Some (resolveTraining L t mem)) p' = []"
  using assms(1,2) matches_source_digest [OF assms(3)]
  by (auto simp: validateResolvedTraining_def resolveTraining_def validateTraining_def)

lemma resolveModel_spec:
  "\<lparr>ms_Family = rm_Family (resolveModel m w mem), ms_RuntimeProfile = rm_RuntimeProfile (resolveModel m w mem),
    ms_Artifact = rm_Artifact (resolveModel m w mem), ms_MinimumUnifiedMemory = rm_UnifiedMemoryRequest (resolveModel m w mem),
    ms_MaxContextLength = rm_MaxContextLength (resolveModel m w mem),
    ms_MaxConcurrentRequests = rm_MaxConcurrentRequests (resolveModel m w mem)\<rparr>
   = (md_Spec m)\<lparr>ms_MinimumUnifiedMemory := mem\<rparr>"
  by (cases "md_Spec m") (simp add: resolveModel_def)

lemma WorkloadServer_eta: "\<lparr>wsv_ServiceName = wsv_ServiceName sv, wsv_ModelAlias = wsv_ModelAlias sv\<rparr> = sv"
  by (cases sv) simp

lemma resolveModel_valid_server:
  assumes "ValidateModel L ((md_Spec m)\<lparr>ms_MinimumUnifiedMemory := mem\<rparr>) = []"
    and "md_Name m \<noteq> []" "md_UID m \<noteq> []"
    and "ws_Server (wl_Spec w) = Some sv" "ws_Batch (wl_Spec w) = None"
    and "validateWorkloadServer L (Some sv) p = []"
    and "\<And>r. run = Some r \<Longrightarrow> wrs_Task r = ''serve''"
  shows "validateAssignedModel L (resolveModel m w mem) run = []"
proof -
  have "validateWorkloadServer L (Some sv) ''spec.model.server'' = []"
    using assms(6) validateWorkloadServer_path by blast
  with assms show ?thesis
    unfolding validateAssignedModel_def resolveModel_spec Let_def
    by (auto simp: resolveModel_def validateResolvedServer_def WorkloadServer_eta split: option.splits)
qed

lemma resolveModel_valid_batch:
  assumes "ValidateModel L ((md_Spec m)\<lparr>ms_MinimumUnifiedMemory := mem\<rparr>) = []"
    and "md_Name m \<noteq> []" "md_UID m \<noteq> []"
    and "ws_Server (wl_Spec w) = None" "ws_Batch (wl_Spec w) = Some b"
    and "validateBatchInference (Some b) p = []"
    and "\<And>r. run = Some r \<Longrightarrow> wrs_Task r = ''infer''"
  shows "validateAssignedModel L (resolveModel m w mem) run = []"
proof -
  have "validateBatchInference (Some b) ''spec.model.batch'' = []"
    using assms(6) validateBatchInference_path by blast
  then have "validateBatchInference (Some (if wbi_TimeoutSeconds b = 0 then b\<lparr>wbi_TimeoutSeconds := 600\<rparr> else b)) ''spec.model.batch'' = []"
    by (simp add: validateBatchInference_def)
  with assms show ?thesis
    unfolding validateAssignedModel_def resolveModel_spec Let_def
    by (auto simp: resolveModel_def split: option.splits)
qed


lemma lease_seconds:
  "leaseDurationOf p = Inr d \<Longrightarrow> 10 \<le> d div second \<and> d div second \<le> 300"
  by (auto simp: leaseDurationOf_def Let_def second_def split: if_splits)

text \<open>Metadata that the API server gives every stored object.\<close>

definition stored_ids :: "IdleloomWorkload \<Rightarrow> IdleloomModel option \<Rightarrow> IdleloomHost \<Rightarrow> bool" where
  "stored_ids w m h \<longleftrightarrow>
     wl_Namespace w \<noteq> [] \<and> wl_Name w \<noteq> [] \<and> wl_UID w \<noteq> [] \<and> 1 \<le> wl_Generation w
   \<and> ho_Namespace h \<noteq> [] \<and> ho_Name h \<noteq> [] \<and> ho_UID h \<noteq> []
   \<and> (\<forall>md. m = Some md \<longrightarrow> md_Name md \<noteq> [] \<and> md_UID md \<noteq> [])"

definition markers_ok :: "IdleloomModel option \<Rightarrow> bool" where
  "markers_ok m \<longleftrightarrow> (\<forall>md. m = Some md \<longrightarrow> kv_marker (mst_MemoryProfile (md_Status md)))"

lemma ValidateAssignment_planned:
  assumes ids: "stored_ids w m h" and uuid: "matches uuidPattern xid" and ep: "1 \<le> epoch"
    and d: "leaseDurationOf p = Inr d" and v: "ValidateWorkload L w = []"
    and s: "as_DesiredState s = AssignmentDesiredRunning"
      "as_WorkloadRef s = \<lparr>wor_Namespace = wl_Namespace w, wor_Name = wl_Name w, wor_UID = wl_UID w, wor_Generation = wl_Generation w\<rparr>"
      "as_HostRef s = \<lparr>or_Name = ho_Name h, or_UID = ho_UID h\<rparr>"
      "as_Run s = ws_Run (wl_Spec w)" "as_ExecutionID s = xid" "as_FencingEpoch s = epoch"
      "as_LeaseDurationSeconds s = d div second"
    and nm: "om_Name mt = AssignmentMailboxName" and intent: "validateIntent L s = []"
  shows "ValidateAssignment L \<lparr>wa_Type = ty, wa_Meta = mt, wa_Spec = s, wa_Status = st\<rparr> = []"
proof -
  have run: "as_Run s \<noteq> None \<longrightarrow> validateRunSpec L (as_Run s) ''spec.run'' = []"
    using ValidateWorkload_facts(2) [OF v] s(4) by auto
  show ?thesis
    unfolding ValidateAssignment_def Let_def IdleloomWorkloadAssignment.simps errs_split intent nm s
    using ids ep uuid lease_seconds [OF d] run unfolding stored_ids_def s
    by (simp add: not_less)
qed

lemma buildAssignment_valid:
  assumes L: "quantity_law L val u" "sha256_law L"
    and ids: "stored_ids w m h" and mk: "markers_ok m"
    and c: "checkSpec L w m = Inr ()" and uuid: "matches uuidPattern xid" and ep: "1 \<le> epoch"
    and d: "leaseDurationOf p = Inr d"
  shows "\<exists>a. buildAssignment L w m h epoch xid d = Inr a \<and> ValidateAssignment L a = []"
proof -
  let ?mem = "effectiveMemoryRequest L w m h" and ?s = "wl_Spec w"
  have v: "ValidateWorkload L w = []" by (rule checkSpec_workload [OF c])
  note f = ValidateWorkload_facts [OF v]
  have "0 < val (wr_UnifiedMemoryRequest (ws_Resources ?s))"
    using f(4) quantity_law_simps [OF L(1)] not_le by metis
  then have mem: "0 < Quantity_Sign L ?mem"
    using effectiveMemoryRequest_ge [OF L(1), of w m h] quantity_law_simps(4) [OF L(1)] not_le by (metis order.strict_trans2)
  have task: "ws_Run ?s = Some r \<Longrightarrow> expectedTask (ws_Mode ?s) \<noteq> [] \<Longrightarrow> wrs_Task r = expectedTask (ws_Mode ?s)" for r
    by (rule f(3))
  note va = ValidateAssignment_planned [OF ids uuid ep d v]
  from f(1) show ?thesis
  proof (cases rule: validateMode_cases)
    case (server mr sv)
    with checkSpec_model [OF c] obtain md where md: "m = Some md" "ValidateModel L (md_Spec md) = []" by auto
    have "ValidateModel L ((md_Spec md)\<lparr>ms_MinimumUnifiedMemory := ?mem\<rparr>) = []"
      using ValidateModel_change_memory [OF L(1) md(2)] effectiveMemoryRequest_floor [OF L(1) md(2)] mk md(1)
      by (auto simp: markers_ok_def)
    then have "validateAssignedModel L (resolveModel md w ?mem) (ws_Run ?s) = []"
      using resolveModel_valid_server [OF _ _ _ server(3,4,8)] ids md task server(1) by (auto simp: stored_ids_def)
    then show ?thesis
      using md(1) by (auto simp: buildAssignment_def Let_def validateIntent_def intro!: va)
  next
    case (batch mr b)
    with checkSpec_model [OF c] obtain md where md: "m = Some md" "ValidateModel L (md_Spec md) = []" by auto
    have "ValidateModel L ((md_Spec md)\<lparr>ms_MinimumUnifiedMemory := ?mem\<rparr>) = []"
      using ValidateModel_change_memory [OF L(1) md(2)] effectiveMemoryRequest_floor [OF L(1) md(2)] mk md(1)
      by (auto simp: markers_ok_def)
    then have "validateAssignedModel L (resolveModel md w ?mem) (ws_Run ?s) = []"
      using resolveModel_valid_batch [OF _ _ _ batch(3,4,8)] ids md task batch(1) by (auto simp: stored_ids_def)
    then show ?thesis
      using md(1) by (auto simp: buildAssignment_def Let_def validateIntent_def intro!: va)
  next
    case (shell sh)
    then have "m = None" using checkSpec_no_model [OF c] by simp
    moreover have "validateAssignedShell L (resolveShell sh ?mem) (ws_Run ?s) = []"
      using resolveShell_valid [OF shell(7) mem] task shell(1) by auto
    ultimately show ?thesis
      using shell by (auto simp: buildAssignment_def Let_def validateIntent_def intro!: va)
  next
    case (train t r)
    then have "m = None" using checkSpec_no_model [OF c] by simp
    moreover have "validateResolvedTraining L (Some (resolveTraining L t ?mem)) ''spec.training'' = []"
      by (rule resolveTraining_valid [OF train(9) mem L(2)])
    ultimately show ?thesis
      using train by (auto simp: buildAssignment_def Let_def validateIntent_def intro!: va)
  qed
qed

subsection \<open>The memory of an assignment\<close>

definition assignedMemory :: "IdleloomWorkloadAssignmentSpec \<Rightarrow> Quantity" where
  "assignedMemory s =
     (case as_Model s of
        Some m \<Rightarrow> rm_UnifiedMemoryRequest m
      | None \<Rightarrow> (case as_Shell s of
           Some sh \<Rightarrow> rsh_UnifiedMemoryRequest sh
         | None \<Rightarrow> (case as_Training s of Some t \<Rightarrow> rt_UnifiedMemoryRequest t | None \<Rightarrow> [])))"

lemma buildAssignment_memory:
  "buildAssignment L w m h e x d = Inr a \<Longrightarrow> assignedMemory (wa_Spec a) = effectiveMemoryRequest L w m h"
  by (auto simp: buildAssignment_def Let_def assignedMemory_def resolveModel_def resolveTraining_def resolveShell_def
      split: option.splits)

lemma PlanAssignment_Inr:
  assumes "PlanAssignment L p now rand w m h epoch = Inr a"
  obtains xid d where "SelectHost L p now w m [h] = Inr h" "newExecutionID p rand = Inr xid" "leaseDurationOf p = Inr d"
    "buildAssignment L w m h epoch xid d = Inr a" "ValidateAssignment L a = []" "1 \<le> epoch" "wl_UID w \<noteq> []" "1 \<le> wl_Generation w"
proof -
  have "SelectHost L p now w m [h] = Inr h'  \<Longrightarrow> h' = h" for h'
    by (auto simp: SelectHost_Inr sort_Slice_def)
  with assms show thesis
    by (auto simp: PlanAssignment_def bind_res_Inr split: if_splits sum.splits intro: that)
qed

subsection \<open>Random execution identifiers\<close>

lemma in_lang_CatI: "in_lang r s \<Longrightarrow> in_lang r' s' \<Longrightarrow> in_lang (Cat r r') (s @ s')"
  by (auto simp: in_lang_Cat)

lemma uuid_parts:
  assumes "list_all is_hex a" "length a = 8" "list_all is_hex b" "length b = 4"
    "char_between (CHR ''1'') (CHR ''5'') v" "list_all is_hex c" "length c = 3"
    "x \<in> set ''89ab''" "list_all is_hex d" "length d = 3" "list_all is_hex e" "length e = 12"
  shows "matches uuidPattern (a @ ''-'' @ b @ ''-'' @ [v] @ c @ ''-'' @ [x] @ d @ ''-'' @ e)"
  unfolding matches_iff uuidPattern_def
  by (intro in_lang_CatI in_lang_lit [THEN iffD2, OF refl] in_lang_rep_Cls [THEN iffD2, OF conjI] L_Cls assms)

lemma hex_digit_89ab: "hex_digit 4 = CHR ''4''" "hex_digit 8 = CHR ''8''" "hex_digit 9 = CHR ''9''" "hex_digit 10 = CHR ''a''" "hex_digit 11 = CHR ''b''"
  by code_simp+

lemma hex_digit_variant: "n < 64 \<Longrightarrow> hex_digit ((n + 128) div 16) \<in> set ''89ab''"
proof -
  assume "n < 64"
  then have "(n + 128) div 16 = 8 \<or> (n + 128) div 16 = 9 \<or> (n + 128) div 16 = 10 \<or> (n + 128) div 16 = 11" by linarith
  then show ?thesis
    by (elim disjE) (simp_all only: hex_digit_89ab list.set insert_iff simp_thms)
qed

lemma randomUUID_matches:
  assumes "length bs = 16" "list_all (\<lambda>b. b < 256) bs"
  shows "\<exists>xid. randomUUID (Inr bs) = Inr xid \<and> matches uuidPattern xid"
proof -
  obtain a b c d e f g h i j k l m n p q where bs: "bs = [a, b, c, d, e, f, g, h, i, j, k, l, m, n, p, q]"
    using assms(1) by (auto simp: numeral_eq_Suc length_Suc_conv)
  have lt: "a < 256" "b < 256" "c < 256" "d < 256" "e < 256" "f < 256" "h < 256" "j < 256"
     "k < 256" "l < 256" "m < 256" "n < 256" "p < 256" "q < 256"
    using assms(2) by (simp_all add: bs)
  have hx: "list_all is_hex (EncodeToString [a, b, c, d])" "list_all is_hex (EncodeToString [e, f])"
    "list_all is_hex (EncodeToString [k, l, m, n, p, q])"
    using lt by (auto intro!: EncodeToString_is_hex)
  have h7: "list_all is_hex [hex_digit (g mod 16), hex_digit (h div 16), hex_digit (h mod 16)]"
    and h9: "list_all is_hex [hex_digit (i mod 16), hex_digit (j div 16), hex_digit (j mod 16)]"
    using lt by (auto intro!: hex_digit_is_hex)
  have four: "char_between (CHR ''1'') (CHR ''5'') (hex_digit 4)"
    by (simp add: hex_digit_89ab char_between_def byte_def)
  have "matches uuidPattern (EncodeToString [a, b, c, d] @ ''-'' @ EncodeToString [e, f] @ ''-''
     @ [hex_digit 4] @ [hex_digit (g mod 16), hex_digit (h div 16), hex_digit (h mod 16)] @ ''-''
     @ [hex_digit ((i mod 64 + 128) div 16)] @ [hex_digit (i mod 16), hex_digit (j div 16), hex_digit (j mod 16)] @ ''-''
     @ EncodeToString [k, l, m, n, p, q])"
    by (rule uuid_parts [OF hx(1) _ hx(2) _ four h7 _ hex_digit_variant h9 _ hx(3)]) (simp_all add: length_EncodeToString)
  moreover have "(g mod 16 + 64) div 16 = 4" by linarith
  moreover have "(g mod 16 + 64) mod 16 = g mod 16"
    using mod_mult_self1 [of "g mod 16" 4 16] by simp
  moreover have "(i mod 64 + 128) mod 16 = i mod 16"
    using mod_mult_self1 [of "i mod 64" 8 16] mod_mod_cancel [of 16 64 i] by simp
  ultimately show ?thesis
    by (simp add: randomUUID_def bs EncodeToString_def hex_byte_def)
qed

subsection \<open>Properties\<close>

definition explanner :: Planner where
  "explanner = \<lparr>pl_HeartbeatTimeout = 0, pl_LeaseDuration = 0, pl_NewExecutionID = None\<rparr>"

abbreviation "exnow \<equiv> (2000000000 :: Time)"
abbreviation "exhosts \<equiv> [exhost ''big'' ''90000'', exhost ''small'' ''2048'', exhost ''tiny'' ''512'']"

lemma ex_SelectHost:
  "SelectHost exlib explanner exnow exworkload None exhosts = Inr (exhost ''small'' ''2048'')"
  by code_simp

lemma ex_SelectHost_one:
  "SelectHost exlib explanner exnow exworkload None [exhost ''small'' ''2048''] = Inr (exhost ''small'' ''2048'')"
  by code_simp

text \<open>
  C38. \<open>SelectHost\<close> is best fit: the host it returns is one of the given hosts and is eligible; every
  eligible host reports at least as much available memory as it does, and among those that report the same
  amount none has a smaller \<open>namespace/name\<close>. The order of the quantities is that of the numbers they stand for,
  and the rendering of an aggregate of errors is not empty.
\<close>

theorem SelectHost_best_fit:
  assumes "aggregate_law L" and "quantity_law L val u"
    and "SelectHost L p now w m hosts = Inr h"
  shows "h \<in> set hosts \<and> eligible_on L p now w m h \<and>
    (\<forall>h' \<in> set hosts. eligible_on L p now w m h' \<longrightarrow>
       freeMemory val h \<le> freeMemory val h'
     \<and> (freeMemory val h = freeMemory val h' \<longrightarrow> ho_Namespace h @ ''/'' @ ho_Name h \<le> ho_Namespace h' @ ''/'' @ ho_Name h'))"
proof -
  let ?cs = "filter (\<lambda>h. ineligibility L p now w m h = []) hosts"
  have ne: "?cs \<noteq> []" and h: "h = hd (sort_Slice (hostLess L) ?cs)"
    using assms(3) by (simp_all add: SelectHost_Inr)
  have "h \<in> set (sort_Slice (hostLess L) ?cs)"
    using ne h by (metis hd_in_set sort_Slice_Nil)
  then have "h \<in> set ?cs" by simp
  moreover have "\<not> hostLess L h' h" if "h' \<in> set ?cs" for h'
    unfolding h by (rule sort_Slice_hd_least [OF strict_weak_hostLess [OF assms(2)] that])
  ultimately show ?thesis
    using ineligibility_Nil [OF assms(1)] by (auto simp: hostLess_iff [OF assms(2)] hostKey_def not_less)
qed

theorem SelectHost_best_fit_witness:
  "eligible_on exlib explanner exnow exworkload None (exhost ''small'' ''2048'')
   \<and> (eligible_on exlib explanner exnow exworkload None (exhost ''big'' ''90000'')
        \<longleftrightarrow> freeMemory qval (exhost ''small'' ''2048'') \<le> freeMemory qval (exhost ''big'' ''90000''))"
proof -
  have "ineligibility exlib explanner exnow exworkload None (exhost ''big'' ''90000'') = []" by code_simp
  then have "eligible_on exlib explanner exnow exworkload None (exhost ''big'' ''90000'')"
    by (simp add: ineligibility_Nil [OF aggregate_law_ex])
  with SelectHost_best_fit [OF aggregate_law_ex quantity_law_ex ex_SelectHost] show ?thesis by simp
qed

text \<open>
  \<open>SelectHost\<close> succeeds exactly when the workload and its model pass the checks that
  precede the choice and at least one host is eligible; otherwise it returns an error.
\<close>

theorem SelectHost_total:
  assumes "aggregate_law L"
  shows "(\<exists>h. SelectHost L p now w m hosts = Inr h) \<longleftrightarrow>
     checkSpec L w m = Inr () \<and> (\<exists>h \<in> set hosts. eligible_on L p now w m h)"
  using ineligibility_Nil [OF assms]
  by (auto simp: SelectHost_Inr filter_empty_conv)

theorem SelectHost_total_witness:
  "\<exists>h \<in> set exhosts. eligible_on exlib explanner exnow exworkload None h"
proof -
  have "\<exists>h. SelectHost exlib explanner exnow exworkload None exhosts = Inr h"
    using ex_SelectHost by blast
  then show ?thesis
    using SelectHost_total [OF aggregate_law_ex, of explanner exnow exworkload None exhosts] by simp
qed

text \<open>
  C39. Planning is complete: when \<open>SelectHost\<close> accepts the host, the objects carry the
  identity the API server gave them, the measured bytes per token of the model are at most the 8388608
  of the custom resource definition (\<open>markers_ok\<close>), the execution identifier is a UUID, the epoch is positive
  and the configured lease is acceptable, and if quantities compare as the numbers they stand for and a SHA-256
  checksum is 32 bytes, \<open>PlanAssignment\<close> returns an assignment in the
  host's namespace with this execution and epoch, and the assignment passes
  \<open>ValidateAssignment\<close>. So the final validation in \<open>PlanAssignment\<close> never rejects what
  the construction built, for any of the four workload modes.
\<close>

theorem PlanAssignment_complete:
  assumes "quantity_law L val u" "sha256_law L"
    and "stored_ids w m h" "markers_ok m"
    and "SelectHost L p now w m [h] = Inr h"
    and "newExecutionID p rand = Inr xid" "matches uuidPattern xid"
    and "1 \<le> epoch" "leaseDurationOf p = Inr d"
  shows "\<exists>a. PlanAssignment L p now rand w m h epoch = Inr a \<and> ValidateAssignment L a = []
    \<and> wa_Namespace a = ho_Namespace h \<and> as_FencingEpoch (wa_Spec a) = epoch \<and> as_ExecutionID (wa_Spec a) = xid"
proof -
  have c: "checkSpec L w m = Inr ()" using assms(5) by (simp add: SelectHost_Inr)
  obtain a where a: "buildAssignment L w m h epoch xid d = Inr a" "ValidateAssignment L a = []"
    using buildAssignment_valid [OF assms(1-4) c assms(7-9)] by blast
  have "wa_Namespace a = ho_Namespace h \<and> as_FencingEpoch (wa_Spec a) = epoch \<and> as_ExecutionID (wa_Spec a) = xid"
    using a(1) by (auto simp: buildAssignment_def Let_def split: option.splits)
  moreover have "PlanAssignment L p now rand w m h epoch = Inr a"
    using assms a by (auto simp: PlanAssignment_def stored_ids_def split: option.splits)
  ultimately show ?thesis using a by blast
qed

theorem PlanAssignment_complete_witness:
  "\<exists>a. PlanAssignment exlib explanner exnow (Inr (replicate 16 7)) exworkload None (exhost ''small'' ''2048'') 5 = Inr a
     \<and> as_FencingEpoch (wa_Spec a) = 5"
proof -
  have ids: "stored_ids exworkload None (exhost ''small'' ''2048'')"
    by (simp add: stored_ids_def exworkload_def exhost_def exmeta_def zero_ObjectMeta_def)
  have "\<exists>xid. newExecutionID explanner (Inr (replicate 16 7)) = Inr xid \<and> matches uuidPattern xid"
    using randomUUID_matches [of "replicate 16 7"] by (simp add: newExecutionID_def explanner_def list_all_iff)
  then obtain xid where x: "newExecutionID explanner (Inr (replicate 16 7)) = Inr xid" "matches uuidPattern xid"
    by blast
  have "leaseDurationOf explanner = Inr 30000000000" by code_simp
  with PlanAssignment_complete [OF quantity_law_ex sha256_law_ex ids _ ex_SelectHost_one x, of 5]
  show ?thesis by (auto simp: markers_ok_def)
qed

text \<open>
  A planned assignment never asks for more memory than the host reports free, never for
  less than the workload requested, and for a model never for less than its artifact plus the
  fixed overhead of 512 MiB. The estimate is computed in \<open>int64\<close>; the bounds that
  \<open>ValidateModel\<close> and the CRD put on its inputs are what keeps it from wrapping around.
\<close>

theorem PlanAssignment_memory:
  assumes "aggregate_law L" "quantity_law L val u" "markers_ok m"
    and "PlanAssignment L p now rand w m h epoch = Inr a"
  shows "val (wr_UnifiedMemoryRequest (ws_Resources (wl_Spec w))) \<le> val (assignedMemory (wa_Spec a))
    \<and> val (assignedMemory (wa_Spec a)) \<le> val (hst_AvailableUnifiedMemory (ho_Status h))
    \<and> (\<forall>md. m = Some md \<longrightarrow> memory_floor (ms_Artifact (md_Spec md)) * u \<le> val (assignedMemory (wa_Spec a)))"
proof -
  obtain xid d where sel: "SelectHost L p now w m [h] = Inr h" and b: "buildAssignment L w m h epoch xid d = Inr a"
    using PlanAssignment_Inr [OF assms(4)] by metis
  have "eligible_on L p now w m h" and c: "checkSpec L w m = Inr ()"
    using sel ineligibility_Nil [OF assms(1)] by (auto simp: SelectHost_Inr split: if_splits)
  then have "val (effectiveMemoryRequest L w m h) \<le> val (hst_AvailableUnifiedMemory (ho_Status h))"
    by (simp add: eligible_on_def eligible_def quantity_law_simps [OF assms(2)])
  moreover have "memory_floor (ms_Artifact (md_Spec md)) * u \<le> val (effectiveMemoryRequest L w m h)" if md: "m = Some md" for md
  proof -
    have "ValidateModel L (md_Spec md) = []"
      using checkSpec_model [OF c] checkSpec_no_model [OF c] md by blast
    then show ?thesis
      using effectiveMemoryRequest_floor [OF assms(2)] assms(3) md by (simp add: markers_ok_def)
  qed
  ultimately show ?thesis
    using effectiveMemoryRequest_ge [OF assms(2), of w m h] by (simp add: buildAssignment_memory [OF b])
qed

theorem PlanAssignment_memory_witness:
  "\<exists>a. PlanAssignment exlib explanner exnow (Inr (replicate 16 7)) exworkload None (exhost ''small'' ''2048'') 5 = Inr a
     \<and> 1024 \<le> qval (assignedMemory (wa_Spec a)) \<and> qval (assignedMemory (wa_Spec a)) \<le> 2048"
proof -
  have "case PlanAssignment exlib explanner exnow (Inr (replicate 16 7)) exworkload None (exhost ''small'' ''2048'') 5 of
      Inl e \<Rightarrow> False | Inr a \<Rightarrow> True"
    by code_simp
  then obtain a where a: "PlanAssignment exlib explanner exnow (Inr (replicate 16 7)) exworkload None (exhost ''small'' ''2048'') 5 = Inr a"
    by (auto split: sum.splits)
  have "qval (wr_UnifiedMemoryRequest (ws_Resources (wl_Spec exworkload))) = 1024"
    "qval (hst_AvailableUnifiedMemory (ho_Status (exhost ''small'' ''2048''))) = 2048"
    by code_simp+
  with PlanAssignment_memory [OF aggregate_law_ex quantity_law_ex _ a] a show ?thesis
    by (auto simp: markers_ok_def)
qed

text \<open>
  The execution identifier made from 16 random bytes is a lowercase version 4 UUID, the
  form that \<open>ValidateAssignment\<close> and the CRD demand.
\<close>

theorem randomUUID_valid:
  assumes "length bs = 16" "list_all (\<lambda>b. b < 256) bs"
  shows "\<exists>xid. randomUUID (Inr bs) = Inr xid \<and> matches uuidPattern xid \<and> length xid = 36 \<and> xid ! 14 = CHR ''4''"
proof -
  obtain xid where x: "randomUUID (Inr bs) = Inr xid" "matches uuidPattern xid"
    using randomUUID_matches [OF assms] by blast
  obtain a b c d e f g h i j k l m n p q where bs: "bs = [a, b, c, d, e, f, g, h, i, j, k, l, m, n, p, q]"
    using assms(1) by (auto simp: numeral_eq_Suc length_Suc_conv)
  have "(g mod 16 + 64) div 16 = 4" by linarith
  then have "length xid = 36 \<and> xid ! 14 = CHR ''4''"
    using x(1) by (auto simp: bs randomUUID_def EncodeToString_def hex_byte_def hex_digit_89ab)
  with x show ?thesis by blast
qed

theorem randomUUID_valid_witness:
  "\<exists>xid. randomUUID (Inr (replicate 16 255)) = Inr xid \<and> matches uuidPattern xid"
  using randomUUID_valid [of "replicate 16 255"] by (auto simp: list_all_iff)

end
