(* ===== verification/Kube_API.thy ===== *)
theory Kube_API
  imports API_Types
begin

section \<open>Requests to the API server\<close>

text \<open>
  The calls that the controllers make through the Kubernetes clients, the clock and the random
  source, as requests of a \<open>prog\<close>. \<open>'u\<close> is the type of unstructured objects of the
  dynamic client; \<open>internal/native/kube/resources.go\<close> converts them with the converter of
  \<open>k8s.io/apimachinery\<close>, which is the parameter \<open>K\<close> below. An answer of the wrong kind is
  read as an error, so a theorem over all answers covers every answer a server can give.
\<close>

datatype gvr = WorkloadsGVR | ModelsGVR | HostsGVR | AssignmentsGVR

record Lease =
  le_Meta :: ObjectMeta

record ServicePort =
  sport_Name :: string
  sport_Protocol :: string

record Service =
  svc_Meta :: ObjectMeta
  svc_Selector :: "string gomap"
  svc_Type :: string
  svc_ClusterIP :: string
  svc_ExternalIPs :: "string list"
  svc_Ports :: "ServicePort list"

record OwnerReference =
  own_APIVersion :: string
  own_Kind :: string
  own_Name :: string
  own_UID :: UID
  own_Controller :: "bool option"

record EndpointPort =
  ep_Name :: "string option"
  ep_Protocol :: "string option"
  ep_Port :: "int32 option"
  ep_AppProtocol :: "string option"

record TargetReference =
  tr_APIVersion :: string
  tr_Kind :: string
  tr_Namespace :: string
  tr_Name :: string
  tr_UID :: UID

record Endpoint =
  end_Addresses :: "string list"
  end_Ready :: "bool option"
  end_Serving :: "bool option"
  end_TargetRef :: "TargetReference option"

record EndpointSlice =
  es_Meta :: ObjectMeta
  es_OwnerReferences :: "OwnerReference list"
  es_AddressType :: string
  es_Ports :: "EndpointPort list"
  es_Endpoints :: "Endpoint list"

datatype 'u request =
    Get gvr string string
  | List gvr string
  | Create gvr string 'u
  | Update gvr string 'u
  | UpdateStatus gvr string 'u
  | Delete gvr string string UID
  | GetLease string string
  | UpdateLease string Lease
  | GetService string string
  | GetSlice string string
  | CreateSlice string EndpointSlice
  | UpdateSlice string EndpointSlice
  | DeleteSlice string string UID
  | Now
  | RandRead nat

datatype 'u response =
    ObjectR "'u res"
  | ListR "'u list res"
  | LeaseR "Lease res"
  | ServiceR "Service res"
  | SliceR "EndpointSlice res"
  | DoneR "unit res"
  | TimeR Time
  | BytesR "nat list res"

type_synonym ('u, 'a) kube = "('u request, 'u response, 'a) prog"

abbreviation "unexpected \<equiv> Inl (Sentinel ''unexpected answer'')"

definition rObject :: "'u response \<Rightarrow> 'u res" where
  "rObject r = (case r of ObjectR x \<Rightarrow> x | _ \<Rightarrow> unexpected)"
definition rList :: "'u response \<Rightarrow> 'u list res" where
  "rList r = (case r of ListR x \<Rightarrow> x | _ \<Rightarrow> unexpected)"
definition rLease :: "'u response \<Rightarrow> Lease res" where
  "rLease r = (case r of LeaseR x \<Rightarrow> x | _ \<Rightarrow> unexpected)"
definition rService :: "'u response \<Rightarrow> Service res" where
  "rService r = (case r of ServiceR x \<Rightarrow> x | _ \<Rightarrow> unexpected)"
definition rSlice :: "'u response \<Rightarrow> EndpointSlice res" where
  "rSlice r = (case r of SliceR x \<Rightarrow> x | _ \<Rightarrow> unexpected)"
definition rDone :: "'u response \<Rightarrow> unit res" where
  "rDone r = (case r of DoneR x \<Rightarrow> x | _ \<Rightarrow> unexpected)"
definition rTime :: "'u response \<Rightarrow> Time" where
  "rTime r = (case r of TimeR t \<Rightarrow> t | _ \<Rightarrow> 0)"
definition rBytes :: "'u response \<Rightarrow> nat list res" where
  "rBytes r = (case r of BytesR x \<Rightarrow> x | _ \<Rightarrow> unexpected)"

lemmas answer_defs = rObject_def rList_def rLease_def rService_def rSlice_def rDone_def rTime_def rBytes_def

lemma answers [simp]:
  "rObject (ObjectR x) = x" "rList (ListR y) = y" "rLease (LeaseR l) = l" "rService (ServiceR s) = s"
  "rSlice (SliceR e) = e" "rDone (DoneR d) = d" "rTime (TimeR t) = t" "rBytes (BytesR b) = b"
  by (simp_all add: answer_defs)

lemma rObject_Inr [simp]: "rObject r = Inr x \<longleftrightarrow> r = ObjectR (Inr x)"
  by (cases r) (auto simp: answer_defs)

lemma rObject_NotFound [simp]: "rObject r = Inl (StatusError s) \<longleftrightarrow> r = ObjectR (Inl (StatusError s))"
  by (cases r) (auto simp: answer_defs)

lemma rLease_Inr [simp]: "rLease r = Inr x \<longleftrightarrow> r = LeaseR (Inr x)"
  by (cases r) (auto simp: answer_defs)

lemma rService_Inr [simp]: "rService r = Inr x \<longleftrightarrow> r = ServiceR (Inr x)"
  by (cases r) (auto simp: answer_defs)

lemma rDone_Inr [simp]: "rDone r = Inr x \<longleftrightarrow> r = DoneR (Inr x)"
  by (cases r) (auto simp: answer_defs)

subsection \<open>One call\<close>

definition kGet :: "gvr \<Rightarrow> string \<Rightarrow> string \<Rightarrow> ('u, 'u res) kube" where
  "kGet g ns n = Req (Get g ns n) (\<lambda>r. Ret (rObject r))"
definition kList :: "gvr \<Rightarrow> string \<Rightarrow> ('u, 'u list res) kube" where
  "kList g ns = Req (List g ns) (\<lambda>r. Ret (rList r))"
definition kCreate :: "gvr \<Rightarrow> string \<Rightarrow> 'u \<Rightarrow> ('u, 'u res) kube" where
  "kCreate g ns u = Req (Create g ns u) (\<lambda>r. Ret (rObject r))"
definition kUpdate :: "gvr \<Rightarrow> string \<Rightarrow> 'u \<Rightarrow> ('u, 'u res) kube" where
  "kUpdate g ns u = Req (Update g ns u) (\<lambda>r. Ret (rObject r))"
definition kUpdateStatus :: "gvr \<Rightarrow> string \<Rightarrow> 'u \<Rightarrow> ('u, 'u res) kube" where
  "kUpdateStatus g ns u = Req (UpdateStatus g ns u) (\<lambda>r. Ret (rObject r))"
definition kDelete :: "gvr \<Rightarrow> string \<Rightarrow> string \<Rightarrow> UID \<Rightarrow> ('u, unit res) kube" where
  "kDelete g ns n uid = Req (Delete g ns n uid) (\<lambda>r. Ret (rDone r))"
definition kNow :: "('u, Time) kube" where
  "kNow = Req Now (\<lambda>r. Ret (rTime r))"
definition kRandRead :: "nat \<Rightarrow> ('u, nat list res) kube" where
  "kRandRead n = Req (RandRead n) (\<lambda>r. Ret (rBytes r))"
definition kGetLease :: "string \<Rightarrow> string \<Rightarrow> ('u, Lease res) kube" where
  "kGetLease ns n = Req (GetLease ns n) (\<lambda>r. Ret (rLease r))"
definition kUpdateLease :: "string \<Rightarrow> Lease \<Rightarrow> ('u, Lease res) kube" where
  "kUpdateLease ns l = Req (UpdateLease ns l) (\<lambda>r. Ret (rLease r))"
definition kGetService :: "string \<Rightarrow> string \<Rightarrow> ('u, Service res) kube" where
  "kGetService ns n = Req (GetService ns n) (\<lambda>r. Ret (rService r))"
definition kGetSlice :: "string \<Rightarrow> string \<Rightarrow> ('u, EndpointSlice res) kube" where
  "kGetSlice ns n = Req (GetSlice ns n) (\<lambda>r. Ret (rSlice r))"
definition kCreateSlice :: "string \<Rightarrow> EndpointSlice \<Rightarrow> ('u, EndpointSlice res) kube" where
  "kCreateSlice ns e = Req (CreateSlice ns e) (\<lambda>r. Ret (rSlice r))"
definition kUpdateSlice :: "string \<Rightarrow> EndpointSlice \<Rightarrow> ('u, EndpointSlice res) kube" where
  "kUpdateSlice ns e = Req (UpdateSlice ns e) (\<lambda>r. Ret (rSlice r))"
definition kDeleteSlice :: "string \<Rightarrow> string \<Rightarrow> UID \<Rightarrow> ('u, unit res) kube" where
  "kDeleteSlice ns n uid = Req (DeleteSlice ns n uid) (\<lambda>r. Ret (rDone r))"

lemmas call_defs [prog_simps] = kGet_def kList_def kCreate_def kUpdate_def kUpdateStatus_def kDelete_def
  kNow_def kRandRead_def kGetLease_def kUpdateLease_def kGetService_def kGetSlice_def kCreateSlice_def
  kUpdateSlice_def kDeleteSlice_def

subsection \<open>Unstructured objects\<close>

record 'u converter =
  GetKind :: "'u \<Rightarrow> string"
  GetNamespace :: "'u \<Rightarrow> string"
  GetName :: "'u \<Rightarrow> string"
  toWorkload :: "'u \<Rightarrow> IdleloomWorkload res"
  toModel :: "'u \<Rightarrow> IdleloomModel res"
  toHost :: "'u \<Rightarrow> IdleloomHost res"
  toAssignment :: "'u \<Rightarrow> IdleloomWorkloadAssignment res"
  ofWorkload :: "IdleloomWorkload \<Rightarrow> 'u res"
  ofModel :: "IdleloomModel \<Rightarrow> 'u res"
  ofAssignment :: "IdleloomWorkloadAssignment \<Rightarrow> 'u res"
  ofHost :: "IdleloomHost \<Rightarrow> 'u res"

definition FromUnstructured :: "'u converter \<Rightarrow> ('u \<Rightarrow> 'a res) \<Rightarrow> 'u \<Rightarrow> 'a res" where
  "FromUnstructured K conv source =
     (case conv source of
        Inl e \<Rightarrow> Inl (WrapError (''decode '' @ GetKind K source @ '' '' @ GetNamespace K source @ ''/'' @ GetName K source @ '': '') e [])
      | Inr a \<Rightarrow> Inr a)"

definition ToUnstructured :: "('a \<Rightarrow> 'u res) \<Rightarrow> 'a \<Rightarrow> 'u res" where
  "ToUnstructured conv source =
     (case conv source of
        Inl e \<Rightarrow> Inl (WrapError ''encode native resource: '' e [])
      | Inr u \<Rightarrow> Inr u)"

lemma FromUnstructured_Inr [simp]: "FromUnstructured K conv u = Inr a \<longleftrightarrow> conv u = Inr a"
  by (simp add: FromUnstructured_def split: sum.split)

lemma ToUnstructured_Inr [simp]: "ToUnstructured conv a = Inr u \<longleftrightarrow> conv a = Inr u"
  by (simp add: ToUnstructured_def split: sum.split)

subsection \<open>Sequencing\<close>

text \<open>Turn an error value of the code into the result of a program, and run a program per element.\<close>

definition liftE :: "'a res \<Rightarrow> ('q, 'r, 'a res) prog" where
  "liftE x = Ret x"

lemma bindE_liftE [simp]:
  "bindE (liftE (Inl e)) f = Ret (Inl e)" "bindE (liftE (Inr a)) f = f a"
  by (simp_all add: liftE_def)

definition wrapE :: "string \<Rightarrow> ('q, 'r, 'a res) prog \<Rightarrow> ('q, 'r, 'a res) prog" where
  \<comment> \<open>\<open>fmt.Errorf ("text: %w", err)\<close> around the error of a call\<close>
  "wrapE pre p = bindP p (\<lambda>x. Ret (case x of Inl e \<Rightarrow> Inl (WrapError pre e []) | Inr a \<Rightarrow> Inr a))"

lemma safe_wrapE: "safe G Q (wrapE pre p) h =
    safe G (\<lambda>h' x. Q h' (case x of Inl e \<Rightarrow> Inl (WrapError pre e []) | Inr a \<Rightarrow> Inr a)) p h"
  by (simp add: wrapE_def safe_bindP)

primrec foldP :: "('a \<Rightarrow> 's \<Rightarrow> ('q, 'r, 's) prog) \<Rightarrow> 'a list \<Rightarrow> 's \<Rightarrow> ('q, 'r, 's) prog" where
  "foldP f [] s = Ret s"
| "foldP f (x # xs) s = bindP (f x s) (foldP f xs)"

lemma safe_foldP:
  assumes "\<And>x s h. x \<in> set xs \<Longrightarrow> Q h s \<Longrightarrow> safe G Q (f x s) h" and "Q h s"
  shows "safe G Q (foldP f xs s) h"
  using assms
proof (induction xs arbitrary: s h)
  case (Cons x xs)
  have IH: "Q h' a \<Longrightarrow> safe G Q (foldP f xs a) h'" for h' a
    by (rule Cons.IH) (auto intro: Cons.prems(1))
  have "safe G Q (f x s) h" using Cons.prems by simp
  then have "safe G (\<lambda>h' a. safe G Q (foldP f xs a) h') (f x s) h"
    by (rule safe_mono) (auto intro: IH)
  then show ?case by (simp add: safe_bindP)
qed simp

lemma safe_liftE [simp]: "safe G Q (liftE x) h = Q h x"
  by (simp add: liftE_def)

lemma safe_conj: "safe G Q p h \<Longrightarrow> safe G' Q' p h \<Longrightarrow> safe (\<lambda>h q. G h q \<and> G' h q) (\<lambda>h a. Q h a \<and> Q' h a) p h"
  by (induction p arbitrary: h) auto

subsection \<open>A concrete wire type\<close>

text \<open>An instance of the converter parameter, used to run the handlers on concrete objects.\<close>

datatype wire =
    WireWorkload IdleloomWorkload
  | WireModel IdleloomModel
  | WireHost IdleloomHost
  | WireAssignment IdleloomWorkloadAssignment

abbreviation "wrongKind \<equiv> Inl (ErrorString ''unexpected kind'')"

definition exconv :: "wire converter" where
  "exconv = \<lparr>GetKind = (\<lambda>_. ''Object''), GetNamespace = (\<lambda>_. []), GetName = (\<lambda>_. []),
     toWorkload = (\<lambda>u. case u of WireWorkload w \<Rightarrow> Inr w | _ \<Rightarrow> wrongKind),
     toModel = (\<lambda>u. case u of WireModel m \<Rightarrow> Inr m | _ \<Rightarrow> wrongKind),
     toHost = (\<lambda>u. case u of WireHost h \<Rightarrow> Inr h | _ \<Rightarrow> wrongKind),
     toAssignment = (\<lambda>u. case u of WireAssignment a \<Rightarrow> Inr a | _ \<Rightarrow> wrongKind),
     ofWorkload = (\<lambda>w. Inr (WireWorkload w)), ofModel = (\<lambda>m. Inr (WireModel m)),
     ofAssignment = (\<lambda>a. Inr (WireAssignment a)), ofHost = (\<lambda>h. Inr (WireHost h))\<rparr>"

lemma rSlice_Inr [simp]: "rSlice r = Inr x \<longleftrightarrow> r = SliceR (Inr x)"
  by (cases r) (auto simp: answer_defs)

end
