(* ===== verification/Go_Net.thy ===== *)
theory Go_Net
  imports Go_Std
begin

section \<open>Packages net and net/netip\<close>

text \<open>
  Textual addresses and prefixes as the sources use them: \<open>netip.ParseAddr\<close>,
  \<open>net.ParseCIDR\<close>, \<open>To4\<close>, \<open>IsLoopback\<close>, \<open>IsUnspecified\<close> and the dotted form of an
  IPv4 address. An IPv4 address is its four octets, an IPv6 address its eight groups.
\<close>

datatype IP = IPv4 "int list" | IPv6 "int list"

definition parseOctet :: "string \<Rightarrow> int option" where
  "parseOctet f =
     (if f = [] \<or> \<not> list_all is_digit f \<or> (1 < length f \<and> hd f = CHR ''0'') \<or> 3 < length f then None
      else case parse_digits 0 f of
             None \<Rightarrow> None
           | Some n \<Rightarrow> if 255 < n then None else Some n)"

fun those_list :: "'a option list \<Rightarrow> 'a list option" where
  "those_list [] = Some []"
| "those_list (None # xs) = None"
| "those_list (Some x # xs) = map_option ((#) x) (those_list xs)"

definition parseIPv4 :: "string \<Rightarrow> int list option" where
  "parseIPv4 s =
     (let fs = splitOn (CHR ''.'') s in
      if length fs \<noteq> 4 then None else those_list (map parseOctet fs))"

definition hex_val :: "char \<Rightarrow> int option" where
  "hex_val c =
     (if is_digit c then Some (int (byte c) - 48)
      else if char_between (CHR ''a'') (CHR ''f'') c then Some (int (byte c) - 87)
      else if char_between (CHR ''A'') (CHR ''F'') c then Some (int (byte c) - 55)
      else None)"

fun hex_num :: "int \<Rightarrow> string \<Rightarrow> int" where
  "hex_num acc [] = acc"
| "hex_num acc (c # s) = hex_num (16 * acc + (case hex_val c of None \<Rightarrow> 0 | Some d \<Rightarrow> d)) s"

text \<open>
  The loop of \<open>parseIPv6\<close>: groups still wanted, groups read so far, the position of the
  ellipsis, the rest of the text. It ends with the groups, the ellipsis and the text left.
\<close>

fun ip6_loop :: "nat \<Rightarrow> int list \<Rightarrow> nat option \<Rightarrow> string \<Rightarrow> (int list \<times> nat option \<times> string) option" where
  "ip6_loop 0 gs ell s = Some (gs, ell, s)"
| "ip6_loop (Suc n) gs ell s =
     (let ds = takeWhile (\<lambda>c. hex_val c \<noteq> None) s; rest = dropWhile (\<lambda>c. hex_val c \<noteq> None) s in
      if ds = [] \<or> 4 < length ds then None
      else case rest of
        [] \<Rightarrow> Some (gs @ [hex_num 0 ds], ell, [])
      | c # rest' \<Rightarrow>
         if c = CHR ''.'' then
           (if (ell = None \<and> length gs \<noteq> 6) \<or> 6 < length gs then None
            else case parseIPv4 s of
                   Some [a, b, d, e] \<Rightarrow> Some (gs @ [256 * a + b, 256 * d + e], ell, [])
                 | _ \<Rightarrow> None)
         else if c \<noteq> CHR '':'' \<or> rest' = [] then None
         else if hd rest' = CHR '':'' then
           (if ell \<noteq> None then None
            else let gs' = gs @ [hex_num 0 ds]; more = tl rest' in
              if more = [] then Some (gs', Some (length gs'), []) else ip6_loop n gs' (Some (length gs')) more)
         else ip6_loop n (gs @ [hex_num 0 ds]) ell rest')"

definition parseIPv6 :: "string \<Rightarrow> int list option" where
  "parseIPv6 s =
     (let (ell, s') = (if HasPrefix s ''::'' then (Some 0, drop 2 s) else (None, s)) in
      if ell \<noteq> None \<and> s' = [] then Some (replicate 8 0)
      else case ip6_loop 8 [] ell s' of
        None \<Rightarrow> None
      | Some (gs, e, left) \<Rightarrow>
         if left \<noteq> [] then None
         else (case e of
                 None \<Rightarrow> if length gs = 8 then Some gs else None
               | Some k \<Rightarrow> if 8 \<le> length gs then None
                   else Some (take k gs @ replicate (8 - length gs) 0 @ drop k gs)))"

text \<open>\<open>netip.ParseAddr\<close> of a text without a zone; a zone is not accepted by the callers.\<close>

definition ParseAddr :: "string \<Rightarrow> IP option" where
  "ParseAddr s =
     (case find (\<lambda>c. c = CHR ''.'' \<or> c = CHR '':'' \<or> c = CHR ''%'') s of
        Some c \<Rightarrow>
         if CHR ''%'' \<in> set s then None
         else if c = CHR ''.'' then map_option IPv4 (parseIPv4 s)
         else map_option IPv6 (parseIPv6 s)
      | None \<Rightarrow> None)"

definition BitLen :: "IP \<Rightarrow> int" where
  "BitLen ip = (case ip of IPv4 _ \<Rightarrow> 32 | IPv6 _ \<Rightarrow> 128)"

definition ParseCIDR :: "string \<Rightarrow> (IP \<times> int) option" where
  "ParseCIDR s =
     (let addr = takeWhile (\<lambda>c. c \<noteq> CHR ''/'') s; rest = dropWhile (\<lambda>c. c \<noteq> CHR ''/'') s in
      if rest = [] then None
      else case ParseAddr addr of
        None \<Rightarrow> None
      | Some ip \<Rightarrow>
         (case (tl rest, parse_digits 0 (tl rest)) of
            (_ # _, Some n) \<Rightarrow> if BitLen ip < n then None else Some (ip, n)
          | _ \<Rightarrow> None))"

definition To4 :: "IP \<Rightarrow> int list option" where
  "To4 ip = (case ip of
     IPv4 os \<Rightarrow> Some os
   | IPv6 gs \<Rightarrow> if take 6 gs = [0, 0, 0, 0, 0, 65535]
       then Some [gs ! 6 div 256, gs ! 6 mod 256, gs ! 7 div 256, gs ! 7 mod 256] else None)"

definition IsLoopback :: "IP \<Rightarrow> bool" where
  "IsLoopback ip = (case To4 ip of
     Some os \<Rightarrow> os ! 0 = 127
   | None \<Rightarrow> ip = IPv6 [0, 0, 0, 0, 0, 0, 0, 1])"

definition IsUnspecified :: "IP \<Rightarrow> bool" where
  "IsUnspecified ip \<longleftrightarrow> To4 ip = Some [0, 0, 0, 0] \<or> ip = IPv6 (replicate 8 0)"

definition dotted :: "int list \<Rightarrow> string" where
  "dotted os = Join (map (\<lambda>d. FormatInt d) os) ''.''"

lemma ParseCIDR_examples:
  "ParseCIDR ''10.1.2.3/32'' = Some (IPv4 [10, 1, 2, 3], 32)"
  "ParseCIDR ''10.1.02.3/32'' = None"
  "ParseCIDR ''fe80::1:2/64'' = Some (IPv6 [65152, 0, 0, 0, 0, 0, 1, 2], 64)"
  "map_option (\<lambda>(ip, n). To4 ip) (ParseCIDR ''::ffff:10.1.2.3/120'') = Some (Some [10, 1, 2, 3])"
  by code_simp+

end
