(* ===== verification/Serving.thy ===== *)
theory Serving
  imports Scheduler Kube_API Go_Net
begin

section \<open>The reconciler and its serving endpoints\<close>

text \<open>
  The \<open>Reconciler\<close> struct with the helpers every handler uses, and
  \<open>internal/native/controller/serving.go\<close>: when the EndpointSlice of a serving workload is
  published, refreshed and withdrawn. Whether a client is nil is a Boolean field. Reading the
  clock is a request of its own.
\<close>

record 'u Reconciler =
  rc_lib :: k8slib
  rc_conv :: "'u converter"
  rc_clients :: bool \<comment> \<open>\<open>Dynamic\<close> and \<open>Coordination\<close> are not nil\<close>
  rc_Kubernetes :: bool \<comment> \<open>\<open>Kubernetes\<close> is not nil\<close>
  rc_Planner :: Planner
  rc_retries :: nat \<comment> \<open>of \<open>retry.DefaultBackoff\<close>\<close>

subsection \<open>Shared helpers of the reconciler\<close>

definition updateWorkload :: "'u Reconciler \<Rightarrow> IdleloomWorkload \<Rightarrow> bool \<Rightarrow> ('u, unit res) kube" where
  "updateWorkload R workload status =
     bindE (liftE (ToUnstructured (ofWorkload (rc_conv R)) workload)) (\<lambda>object.
       bindE (if status then kUpdateStatus WorkloadsGVR (wl_Namespace workload) object
              else kUpdate WorkloadsGVR (wl_Namespace workload) object)
         (\<lambda>_. Ret (Inr ())))"

definition assignmentPhase :: "IdleloomWorkloadAssignment \<Rightarrow> Time \<Rightarrow> string \<times> bool" where
  "assignmentPhase assignment now =
     (let s = wa_Spec assignment; st = wa_Status assignment in
      if as_DesiredState s \<noteq> AssignmentDesiredRunning then (ast_Phase st, False)
      else
        let lease = wrap64 (as_LeaseDurationSeconds s * second);
            last = (case ast_LastHeartbeatTime st of Some t \<Rightarrow> t | None \<Rightarrow> om_CreationTimestamp (wa_Meta assignment))
        in if now + HeartbeatClockSkewAllowance < last
              \<or> wrap64 (lease + HeartbeatClockSkewAllowance) < time_Sub now last
           then (PhaseFenced, True)
           else if ast_Phase st = [] then (PhaseAssigned, False)
           else (ast_Phase st, False))"

definition readyCondition :: "string \<Rightarrow> int64 \<Rightarrow> Time \<Rightarrow> string \<Rightarrow> string \<Rightarrow> Condition" where
  \<comment> \<open>the \<open>metav1.Condition\<close> literals of type Ready\<close>
  "readyCondition status generation now reason message =
     \<lparr>cond_Type = WorkloadConditionReady, cond_Status = status, cond_ObservedGeneration = generation,
      cond_LastTransitionTime = now, cond_Reason = reason, cond_Message = message\<rparr>"

definition withReady :: "'u Reconciler \<Rightarrow> IdleloomWorkload \<Rightarrow> Condition \<Rightarrow> IdleloomWorkload" where
  \<comment> \<open>\<open>copy.Status.ObservedGeneration = workload.Generation\<close> and \<open>SetStatusCondition\<close>\<close>
  "withReady R workload condition =
     workload\<lparr>wl_Status := (wl_Status workload)\<lparr>wst_ObservedGeneration := wl_Generation workload,
       wst_Conditions := SetStatusCondition (rc_lib R) (wst_Conditions (wl_Status workload)) condition\<rparr>\<rparr>"

subsection \<open>serving.go\<close>

abbreviation "servingWorkloadAnnotation \<equiv> ''ai.idleloom.io/native-workload''"
abbreviation "servingManagedBy \<equiv> ''idleloom-controller''"
abbreviation "servingWorkloadUIDLabel \<equiv> ''ai.idleloom.io/workload-uid''"
abbreviation "LabelServiceName \<equiv> ''kubernetes.io/service-name''"
abbreviation "LabelManagedBy \<equiv> ''endpointslice.kubernetes.io/managed-by''"

record servingEndpointResult =
  se_Ready :: bool
  se_Reason :: string
  se_Message :: string

abbreviation "serving reason message \<equiv> \<lparr>se_Ready = False, se_Reason = reason, se_Message = message\<rparr>"

definition freshHostHeartbeat :: "Time option \<Rightarrow> Time \<Rightarrow> bool" where
  "freshHostHeartbeat heartbeat now =
     (case heartbeat of
        None \<Rightarrow> False
      | Some hb \<Rightarrow>
         if now + HeartbeatClockSkewAllowance < hb then False
         else time_Sub now hb \<le> wrap64 (DefaultAgentHeartbeatTimeout + HeartbeatClockSkewAllowance))"

definition validateServingService :: "Service \<Rightarrow> IdleloomWorkload \<Rightarrow> unit res" where
  "validateServingService service workload =
     (let m = svc_Meta service in
      if gomap_get (om_Annotations m) servingWorkloadAnnotation \<noteq> wl_Name workload
      then Inl (ErrorString (''service '' @ om_Namespace m @ ''/'' @ om_Name m @ '' must annotate ''
             @ servingWorkloadAnnotation @ ''='' @ wl_Name workload))
      else if svc_Selector service \<noteq> [] \<or> svc_Type service \<noteq> ''ClusterIP'' \<or> svc_ClusterIP service = ''None''
             \<or> svc_ExternalIPs service \<noteq> []
      then Inl (ErrorString ''native serving Service must be a selectorless non-headless ClusterIP Service'')
      else case svc_Ports service of
        [p] \<Rightarrow> if sport_Name p \<noteq> ''http'' \<or> sport_Protocol p \<noteq> ''TCP''
              then Inl (ErrorString ''native serving Service must expose one TCP port named http'') else Inr ()
      | _ \<Rightarrow> Inl (ErrorString ''native serving Service must expose one TCP port named http''))"

definition deleteServingEndpoint :: "'u Reconciler \<Rightarrow> IdleloomWorkload \<Rightarrow> ('u, unit res) kube" where
  "deleteServingEndpoint R workload =
     (if \<not> rc_Kubernetes R then Ret (Inr ())
      else case ws_Server (wl_Spec workload) of
        None \<Rightarrow> Ret (Inr ())
      | Some server \<Rightarrow>
         bindP (kGetSlice (wl_Namespace workload) (wsv_ServiceName server)) (\<lambda>got.
           case got of
             Inl e \<Rightarrow> if IsNotFound e then Ret (Inr ()) else Ret (Inl e)
           | Inr existing \<Rightarrow>
              if gomap_get (om_Labels (es_Meta existing)) LabelManagedBy \<noteq> servingManagedBy
                 \<or> gomap_get (om_Labels (es_Meta existing)) servingWorkloadUIDLabel \<noteq> wl_UID workload
              then Ret (Inl (ErrorString ''refusing to delete EndpointSlice outside the Native serving contract''))
              else kDeleteSlice (wl_Namespace workload) (om_Name (es_Meta existing)) (om_UID (es_Meta existing))))"

definition cleanupServingResources :: "'u Reconciler \<Rightarrow> IdleloomWorkload \<Rightarrow> string \<Rightarrow> ('u, unit res) kube" where
  "cleanupServingResources R workload hostNamespace =
     (if ws_Server (wl_Spec workload) = None \<or> \<not> rc_Kubernetes R then Ret (Inr ())
      else deleteServingEndpoint R workload)"

definition failServingEndpoint :: "'u Reconciler \<Rightarrow> IdleloomWorkload \<Rightarrow> servingEndpointResult \<Rightarrow> go_error
    \<Rightarrow> ('u, servingEndpointResult \<times> unit res) kube" where
  "failServingEndpoint R workload result cause =
     bindP (deleteServingEndpoint R workload) (\<lambda>d.
       Ret (result, joinErrors (cause # (case d of Inl e \<Rightarrow> [e] | Inr _ \<Rightarrow> []))))"

definition withdrawServingEndpoint :: "'u Reconciler \<Rightarrow> IdleloomWorkload \<Rightarrow> servingEndpointResult
    \<Rightarrow> ('u, servingEndpointResult \<times> unit res) kube" where
  \<comment> \<open>the idiom \<open>return result, r.deleteServingEndpoint (ctx, workload)\<close>\<close>
  "withdrawServingEndpoint R workload result =
     bindP (deleteServingEndpoint R workload) (\<lambda>d. Ret (result, d))"

definition desiredSlice :: "IdleloomWorkload \<Rightarrow> Service \<Rightarrow> string \<Rightarrow> EndpointSlice" where
  "desiredSlice workload service address =
     (let m = svc_Meta service in
      \<lparr>es_Meta = zero_ObjectMeta\<lparr>om_Name := om_Name m, om_Namespace := om_Namespace m,
         om_Labels := [(LabelServiceName, om_Name m), (LabelManagedBy, servingManagedBy),
           (servingWorkloadUIDLabel, wl_UID workload)]\<rparr>,
       es_OwnerReferences = [\<lparr>own_APIVersion = ''v1'', own_Kind = ''Service'', own_Name = om_Name m,
         own_UID = om_UID m, own_Controller = Some True\<rparr>],
       es_AddressType = ''IPv4'',
       es_Ports = [\<lparr>ep_Name = Some ''http'', ep_Protocol = Some ''TCP'', ep_Port = Some NativeServingPort,
         ep_AppProtocol = Some ''http''\<rparr>],
       es_Endpoints = [\<lparr>end_Addresses = [address], end_Ready = Some True, end_Serving = Some True,
         end_TargetRef = Some \<lparr>tr_APIVersion = APIVersionNative, tr_Kind = ''IdleloomWorkload'',
           tr_Namespace = wl_Namespace workload, tr_Name = wl_Name workload, tr_UID = wl_UID workload\<rparr>\<rparr>]\<rparr>)"

definition gomap_eq :: "string gomap \<Rightarrow> string gomap \<Rightarrow> bool" where
  \<comment> \<open>\<open>reflect.DeepEqual\<close> of two maps\<close>
  "gomap_eq a b \<longleftrightarrow> length a = length b \<and> list_all (\<lambda>(k, v). map_of b k = Some v) a"

definition ensureServingEndpoint :: "IdleloomWorkload \<Rightarrow> Service \<Rightarrow> string \<Rightarrow> ('u, unit res) kube" where
  "ensureServingEndpoint workload service address =
     (let m = svc_Meta service; ns = om_Namespace m; name = om_Name m; desired = desiredSlice workload service address in
      bindP (kGetSlice ns name) (\<lambda>got.
        case got of
          Inl e \<Rightarrow>
            if IsNotFound e then bindE (kCreateSlice ns desired) (\<lambda>_. Ret (Inr ())) else Ret (Inl e)
        | Inr existing \<Rightarrow>
           if gomap_get (om_Labels (es_Meta existing)) LabelManagedBy \<noteq> servingManagedBy
              \<or> gomap_get (om_Labels (es_Meta existing)) servingWorkloadUIDLabel \<noteq> wl_UID workload
              \<or> (case es_OwnerReferences existing of [owner] \<Rightarrow> own_UID owner \<noteq> om_UID m | _ \<Rightarrow> True)
           then Ret (Inl (ErrorString (''the EndpointSlice '' @ om_Namespace (es_Meta existing) @ ''/'' @ om_Name (es_Meta existing)
                  @ '' is outside the Native serving contract'')))
           else if gomap_eq (om_Labels (es_Meta existing)) (om_Labels (es_Meta desired))
              \<and> es_OwnerReferences existing = es_OwnerReferences desired \<and> es_AddressType existing = es_AddressType desired
              \<and> es_Ports existing = es_Ports desired \<and> es_Endpoints existing = es_Endpoints desired
           then Ret (Inr ())
           else bindE (kUpdateSlice ns (desired\<lparr>es_Meta := (es_Meta desired)\<lparr>om_ResourceVersion := om_ResourceVersion (es_Meta existing)\<rparr>\<rparr>))
             (\<lambda>_. Ret (Inr ()))))"

definition hostConnected :: "'u Reconciler \<Rightarrow> IdleloomHost \<Rightarrow> Time \<Rightarrow> bool" where
  "hostConnected R host now =
     ((case FindStatusCondition (rc_lib R) (hst_Conditions (ho_Status host)) HostConditionConnected of
         None \<Rightarrow> False
       | Some connected \<Rightarrow> cond_Status connected = ConditionTrue \<and> cond_ObservedGeneration connected = ho_Generation host)
      \<and> hst_ObservedGeneration (ho_Status host) = ho_Generation host
      \<and> freshHostHeartbeat (hst_LastHeartbeatTime (ho_Status host)) now
      \<and> (case hst_Connectivity (ho_Status host) of None \<Rightarrow> False | Some c \<Rightarrow> hc_Mode c = ConnectivityModeWireKubeLeaf))"

definition servingAddress :: "IdleloomHost \<Rightarrow> string option" where
  "servingAddress host =
     (case hst_Connectivity (ho_Status host) of
        None \<Rightarrow> None
      | Some c \<Rightarrow>
         (case ParseCIDR (hc_Address c) of
            None \<Rightarrow> None
          | Some (ip, _) \<Rightarrow>
             (case To4 ip of
                None \<Rightarrow> None
              | Some os \<Rightarrow> if IsLoopback ip \<or> IsUnspecified ip then None else Some (dotted os))))"

definition publishServing :: "'u Reconciler \<Rightarrow> IdleloomWorkload \<Rightarrow> Service \<Rightarrow> IdleloomWorkloadAssignment
    \<Rightarrow> ('u, servingEndpointResult \<times> unit res) kube" where
  \<comment> \<open>the part of \<open>reconcileServingEndpoint\<close> that reads the host\<close>
  "publishServing R workload service assignment =
     bindP (kGet HostsGVR (wa_Namespace assignment) (or_Name (as_HostRef (wa_Spec assignment)))) (\<lambda>got.
       case got of
         Inl e \<Rightarrow> failServingEndpoint R workload (serving ''ServingHostUnavailable'' ''the selected Native host could not be read'') e
       | Inr hostObject \<Rightarrow>
          (case FromUnstructured (rc_conv R) (toHost (rc_conv R)) hostObject of
             Inl e \<Rightarrow> failServingEndpoint R workload (serving ''ServingHostInvalid'' ''the selected Native host is invalid'') e
           | Inr host \<Rightarrow>
              if ho_UID host \<noteq> or_UID (as_HostRef (wa_Spec assignment))
              then failServingEndpoint R workload (serving ''ServingHostInvalid'' ''the selected Native host identity changed'')
                     (ErrorString ''serving host identity does not match assignment'')
              else bindP kNow (\<lambda>now.
                if \<not> hostConnected R host now
                then withdrawServingEndpoint R workload (serving ''ServingHostDisconnected'' ''the selected Native host has no ready WireKube connection'')
                else case servingAddress host of
                  None \<Rightarrow> failServingEndpoint R workload (serving ''ServingHostInvalid'' ''the selected Native host has an invalid serving address'')
                     (ErrorString ''connected Native host has an invalid serving address'')
                | Some address \<Rightarrow>
                   bindP (ensureServingEndpoint workload service address) (\<lambda>r.
                     case r of
                       Inl e \<Rightarrow> Ret (serving ''ServingEndpointUnavailable'' ''the Native serving EndpointSlice could not be reconciled'', Inl e)
                     | Inr _ \<Rightarrow> Ret (\<lparr>se_Ready = True, se_Reason = ''ServingEndpointReady'',
                         se_Message = ''the Native serving Service has a ready WireKube endpoint''\<rparr>, Inr ())))))"

definition reconcileServingAssignment :: "'u Reconciler \<Rightarrow> IdleloomWorkload \<Rightarrow> Service \<Rightarrow> NamespacedObjectReference
    \<Rightarrow> ('u, servingEndpointResult \<times> unit res) kube" where
  \<comment> \<open>the part of \<open>reconcileServingEndpoint\<close> that reads the assignment\<close>
  "reconcileServingAssignment R workload service ref =
     bindP (kGet AssignmentsGVR (nor_Namespace ref) (nor_Name ref)) (\<lambda>got.
       case got of
         Inl e \<Rightarrow>
           if IsNotFound e
           then withdrawServingEndpoint R workload (serving ''ServingAssignmentMissing'' ''the Native serving assignment no longer exists'')
           else failServingEndpoint R workload (serving ''ServingAssignmentUnavailable'' ''the Native serving assignment could not be read'') e
       | Inr assignmentObject \<Rightarrow>
          (case FromUnstructured (rc_conv R) (toAssignment (rc_conv R)) assignmentObject of
             Inl e \<Rightarrow> failServingEndpoint R workload (serving ''ServingAssignmentInvalid'' ''the Native serving assignment is invalid'') e
           | Inr assignment \<Rightarrow>
              (let s = wa_Spec assignment; st = wa_Status assignment in
               if wa_UID assignment \<noteq> nor_UID ref \<or> wor_UID (as_WorkloadRef s) \<noteq> wl_UID workload
                  \<or> (case as_Model s of None \<Rightarrow> True | Some m \<Rightarrow> rm_Server m = None)
               then failServingEndpoint R workload (serving ''ServingAssignmentInvalid'' ''the Native serving assignment identity does not match the workload'')
                      (ErrorString ''serving assignment identity does not match workload'')
               else if as_DesiredState s \<noteq> AssignmentDesiredRunning \<or> ast_ObservedGeneration st \<noteq> wa_Generation assignment
                  \<or> ast_AgentID st = [] \<or> ast_ExecutionID st \<noteq> as_ExecutionID s \<or> ast_FencingEpoch st \<noteq> as_FencingEpoch s
               then withdrawServingEndpoint R workload (serving ''ServingAssignmentNotReady'' ''the Native serving assignment has not been acknowledged by its agent'')
               else bindP kNow (\<lambda>now.
                 let (phase, stale) = assignmentPhase assignment now in
                 if stale \<or> phase \<noteq> PhaseRunning
                 then withdrawServingEndpoint R workload (serving ''ServingAssignmentNotReady'' ''the Native serving assignment is not running with a fresh heartbeat'')
                 else publishServing R workload service assignment))))"

definition reconcileServingEndpoint :: "'u Reconciler \<Rightarrow> IdleloomWorkload \<Rightarrow> ('u, servingEndpointResult \<times> unit res) kube" where
  "reconcileServingEndpoint R workload =
     (case ws_Server (wl_Spec workload) of
        None \<Rightarrow> Ret (serving [] [], Inr ())
      | Some server \<Rightarrow>
         if \<not> rc_Kubernetes R
         then Ret (serving ''ServingControllerUnavailable'' ''Kubernetes client is required for Native serving'',
                Inl (ErrorString ''kubernetes client is required for Native serving''))
         else if om_DeletionTimestamp (wl_Meta workload) \<noteq> None
         then withdrawServingEndpoint R workload (serving ''ServingStopping'' ''the Native serving endpoint is stopping'')
         else case wst_AssignmentRef (wl_Status workload) of
           None \<Rightarrow> withdrawServingEndpoint R workload (serving ''ServingAssignmentPending'' ''the Native serving assignment is not ready'')
         | Some ref \<Rightarrow>
            if wst_SchedulingIntent (wl_Status workload) = None
            then failServingEndpoint R workload (serving ''ServingIntentMissing'' ''the serving assignment has no scheduling intent'')
                   (ErrorString ''serving workload has an assignment without scheduling intent'')
            else bindP (kGetService (wl_Namespace workload) (wsv_ServiceName server)) (\<lambda>got.
              case got of
                Inl e \<Rightarrow>
                  if IsNotFound e
                  then withdrawServingEndpoint R workload (serving ''ServingServiceMissing'' ''the selectorless Native serving Service does not exist'')
                  else failServingEndpoint R workload (serving ''ServingServiceUnavailable'' ''the Native serving Service could not be read'') e
              | Inr service \<Rightarrow>
                 (case validateServingService service workload of
                    Inl e \<Rightarrow> failServingEndpoint R workload (serving ''ServingServiceInvalid'' ''the Native serving Service is outside the required contract'') e
                  | Inr _ \<Rightarrow> reconcileServingAssignment R workload service ref)))"

definition updateServingReadyCondition :: "'u Reconciler \<Rightarrow> IdleloomWorkload \<Rightarrow> servingEndpointResult \<Rightarrow> ('u, unit res) kube" where
  "updateServingReadyCondition R workload result =
     (if ws_Server (wl_Spec workload) = None \<or> om_DeletionTimestamp (wl_Meta workload) \<noteq> None then Ret (Inr ())
      else if wst_AssignmentRef (wl_Status workload) = None then Ret (Inr ())
      else bindP kNow (\<lambda>now.
        updateWorkload R (withReady R workload
          (readyCondition (if se_Ready result then ConditionTrue else ConditionFalse) (wl_Generation workload) now
             (se_Reason result) (se_Message result))) True))"

subsection \<open>What precedes a change of an EndpointSlice\<close>

text \<open>
  Predicates on the history of calls. \<open>assignmentServes\<close>: the assignment that the workload's
  status refers to was read, belongs to the workload, is acknowledged by its agent for the
  current execution and epoch, and is running with a fresh heartbeat at a time that was read.
  \<open>hostServes\<close>: its host was read, has the expected identity, is connected, and
  \<open>address\<close> is its address.
\<close>

definition ownSlice :: "IdleloomWorkload \<Rightarrow> EndpointSlice \<Rightarrow> bool" where
  "ownSlice w e \<longleftrightarrow> gomap_get (om_Labels (es_Meta e)) LabelManagedBy = servingManagedBy
     \<and> gomap_get (om_Labels (es_Meta e)) servingWorkloadUIDLabel = wl_UID w"

definition assignmentServes :: "'u Reconciler \<Rightarrow> IdleloomWorkload \<Rightarrow> ('u request \<times> 'u response) list \<Rightarrow> IdleloomWorkloadAssignment \<Rightarrow> bool" where
  "assignmentServes R w h a \<longleftrightarrow>
     om_DeletionTimestamp (wl_Meta w) = None \<and>
     (\<exists>ref obj t. wst_AssignmentRef (wl_Status w) = Some ref
       \<and> (Get AssignmentsGVR (nor_Namespace ref) (nor_Name ref), ObjectR (Inr obj)) \<in> set h
       \<and> toAssignment (rc_conv R) obj = Inr a
       \<and> wa_UID a = nor_UID ref \<and> wor_UID (as_WorkloadRef (wa_Spec a)) = wl_UID w
       \<and> as_DesiredState (wa_Spec a) = AssignmentDesiredRunning
       \<and> ast_ObservedGeneration (wa_Status a) = wa_Generation a
       \<and> ast_ExecutionID (wa_Status a) = as_ExecutionID (wa_Spec a)
       \<and> ast_FencingEpoch (wa_Status a) = as_FencingEpoch (wa_Spec a)
       \<and> t \<in> rTime ` snd ` set h \<and> assignmentPhase a t = (PhaseRunning, False))"

definition hostServes :: "'u Reconciler \<Rightarrow> ('u request \<times> 'u response) list \<Rightarrow> IdleloomWorkloadAssignment \<Rightarrow> string \<Rightarrow> bool" where
  "hostServes R h a address \<longleftrightarrow>
     (\<exists>obj host t. (Get HostsGVR (wa_Namespace a) (or_Name (as_HostRef (wa_Spec a))), ObjectR (Inr obj)) \<in> set h
       \<and> toHost (rc_conv R) obj = Inr host \<and> ho_UID host = or_UID (as_HostRef (wa_Spec a))
       \<and> t \<in> rTime ` snd ` set h \<and> hostConnected R host t \<and> servingAddress host = Some address)"

definition mayPublish :: "'u Reconciler \<Rightarrow> IdleloomWorkload \<Rightarrow> ('u request \<times> 'u response) list \<Rightarrow> EndpointSlice \<Rightarrow> bool" where
  "mayPublish R w h e \<longleftrightarrow> ownSlice w e \<and>
     (\<exists>a address. assignmentServes R w h a \<and> hostServes R h a address \<and> map end_Addresses (es_Endpoints e) = [[address]])"

definition servingGuard :: "'u Reconciler \<Rightarrow> IdleloomWorkload \<Rightarrow> ('u request \<times> 'u response) list \<Rightarrow> 'u request \<Rightarrow> bool" where
  "servingGuard R w h q = (case q of
     CreateSlice ns e \<Rightarrow> mayPublish R w h e
   | UpdateSlice ns e \<Rightarrow> mayPublish R w h e
   | DeleteSlice ns n uid \<Rightarrow> (\<exists>ns' n' e. (GetSlice ns' n', SliceR (Inr e)) \<in> set h \<and> ownSlice w e \<and> n = om_Name (es_Meta e) \<and> uid = om_UID (es_Meta e))
   | Get _ _ _ \<Rightarrow> True | GetService _ _ \<Rightarrow> True | GetSlice _ _ \<Rightarrow> True | Now \<Rightarrow> True
   | _ \<Rightarrow> False)"

definition withdrawn :: "IdleloomWorkload \<Rightarrow> string \<Rightarrow> ('u request \<times> 'u response) list \<Rightarrow> bool" where
  "withdrawn w name h \<longleftrightarrow>
     (\<exists>r e. (GetSlice (wl_Namespace w) name, r) \<in> set h \<and> rSlice r = Inl e \<and> IsNotFound e)
   \<or> (\<exists>e. (GetSlice (wl_Namespace w) name, SliceR (Inr e)) \<in> set h
        \<and> (DeleteSlice (wl_Namespace w) (om_Name (es_Meta e)) (om_UID (es_Meta e)), DoneR (Inr ())) \<in> set h)"

definition servingPost :: "IdleloomWorkload \<Rightarrow> string \<Rightarrow> ('u request \<times> 'u response) list \<Rightarrow> servingEndpointResult \<times> unit res \<Rightarrow> bool" where
  "servingPost w name h x \<longleftrightarrow> (snd x = Inr () \<longrightarrow> \<not> se_Ready (fst x) \<longrightarrow> withdrawn w name h)"

lemma safe_delete:
  assumes "rc_Kubernetes R" "ws_Server (wl_Spec w) = Some sv"
  shows "safe (servingGuard R w) (\<lambda>h r. r = Inr () \<longrightarrow> withdrawn w (wsv_ServiceName sv) h) (deleteServingEndpoint R w) h"
  using assms
  by (auto simp: deleteServingEndpoint_def kGetSlice_def kDeleteSlice_def servingGuard_def withdrawn_def ownSlice_def split: sum.split)

lemma safe_withdraw:
  assumes "rc_Kubernetes R" "ws_Server (wl_Spec w) = Some sv" "\<not> se_Ready res"
  shows "safe (servingGuard R w) (servingPost w (wsv_ServiceName sv)) (withdrawServingEndpoint R w res) h"
  unfolding withdrawServingEndpoint_def safe_bindP
  by (rule safe_mono [OF safe_delete [OF assms(1,2)]]) (auto simp: servingPost_def)

lemma safe_fail:
  assumes "rc_Kubernetes R" "ws_Server (wl_Spec w) = Some sv"
  shows "safe (servingGuard R w) (servingPost w (wsv_ServiceName sv)) (failServingEndpoint R w res cause) h"
  unfolding failServingEndpoint_def safe_bindP
  by (rule safe_mono [OF safe_delete [OF assms]]) (auto simp: servingPost_def joinErrors_def)

lemma desiredSlice_own: "ownSlice w (desiredSlice w s addr)" "map end_Addresses (es_Endpoints (desiredSlice w s addr)) = [[addr]]"
  by (simp_all add: ownSlice_def desiredSlice_def Let_def gomap_get.simps zero_ObjectMeta_def)

lemma mayPublish_mono: "mayPublish R w h e \<Longrightarrow> mayPublish R w (h @ h') e"
  unfolding mayPublish_def assignmentServes_def hostServes_def by fastforce

lemma safe_ensure:
  assumes "mayPublish R w h (desiredSlice w s addr)"
  shows "safe (servingGuard R w) (\<lambda>h r. True) (ensureServingEndpoint w s addr) h"
proof -
  have m: "mayPublish R w (h @ h') (desiredSlice w s addr)" for h' by (rule mayPublish_mono [OF assms])
  have m': "mayPublish R w (h @ h') ((desiredSlice w s addr)\<lparr>es_Meta := (es_Meta (desiredSlice w s addr))\<lparr>om_ResourceVersion := v\<rparr>\<rparr>)" for h' v
    using m [of h'] by (simp add: mayPublish_def ownSlice_def)
  show ?thesis
    unfolding ensureServingEndpoint_def Let_def
    by (auto simp: kGetSlice_def kCreateSlice_def kUpdateSlice_def servingGuard_def safe_bindE m m' split: sum.split)
qed

lemma safe_publish:
  assumes k: "rc_Kubernetes R" "ws_Server (wl_Spec w) = Some sv" and a: "assignmentServes R w h a"
  shows "safe (servingGuard R w) (servingPost w (wsv_ServiceName sv)) (publishServing R w s a) h"
proof -
  note wd = safe_withdraw [OF k] safe_fail [OF k]
  have en: "safe (servingGuard R w) (servingPost w (wsv_ServiceName sv))
      (bindP (ensureServingEndpoint w s addr) (\<lambda>r. case r of Inl e \<Rightarrow> Ret (serving x y, Inl e)
         | Inr _ \<Rightarrow> Ret (\<lparr>se_Ready = True, se_Reason = rs, se_Message = ms\<rparr>, Inr ()))) h'"
    if "mayPublish R w h' (desiredSlice w s addr)" for h' addr x y rs ms
    unfolding safe_bindP
    by (rule safe_mono [OF safe_ensure [OF that]]) (auto simp: servingPost_def split: sum.split)
  have mp: "mayPublish R w (h @ [(Get HostsGVR (wa_Namespace a) (or_Name (as_HostRef (wa_Spec a))), ObjectR (Inr obj)), (Now, r)]) (desiredSlice w s addr)"
    if "toHost (rc_conv R) obj = Inr host" "ho_UID host = or_UID (as_HostRef (wa_Spec a))" "hostConnected R host (rTime r)" "servingAddress host = Some addr"
    for obj host r addr
  proof -
    have "assignmentServes R w (h @ [(Get HostsGVR (wa_Namespace a) (or_Name (as_HostRef (wa_Spec a))), ObjectR (Inr obj)), (Now, r)]) a"
      using a unfolding assignmentServes_def by fastforce
    moreover have "hostServes R (h @ [(Get HostsGVR (wa_Namespace a) (or_Name (as_HostRef (wa_Spec a))), ObjectR (Inr obj)), (Now, r)]) a addr"
      using that unfolding hostServes_def by fastforce
    ultimately show ?thesis unfolding mayPublish_def using desiredSlice_own by blast
  qed
  show ?thesis
    unfolding publishServing_def
    by (auto simp: kGet_def kNow_def servingGuard_def wd split: sum.split option.split intro!: en mp)
qed

lemma safe_assignment:
  assumes k: "rc_Kubernetes R" "ws_Server (wl_Spec w) = Some sv"
    and w: "om_DeletionTimestamp (wl_Meta w) = None" "wst_AssignmentRef (wl_Status w) = Some ref"
  shows "safe (servingGuard R w) (servingPost w (wsv_ServiceName sv)) (reconcileServingAssignment R w s ref) h"
proof -
  note wd = safe_withdraw [OF k] safe_fail [OF k]
  have as: "assignmentServes R w (h @ [(Get AssignmentsGVR (nor_Namespace ref) (nor_Name ref), ObjectR (Inr obj)), (Now, r)]) a"
    if "toAssignment (rc_conv R) obj = Inr a" "wa_UID a = nor_UID ref" "wor_UID (as_WorkloadRef (wa_Spec a)) = wl_UID w"
       "as_DesiredState (wa_Spec a) = AssignmentDesiredRunning" "ast_ObservedGeneration (wa_Status a) = wa_Generation a"
       "ast_ExecutionID (wa_Status a) = as_ExecutionID (wa_Spec a)" "ast_FencingEpoch (wa_Status a) = as_FencingEpoch (wa_Spec a)"
       "assignmentPhase a (rTime r) = (PhaseRunning, False)" for obj a r
    unfolding assignmentServes_def using w that by fastforce
  show ?thesis
    unfolding reconcileServingAssignment_def Let_def
    by (auto simp: kGet_def kNow_def servingGuard_def wd split: sum.split option.split prod.split intro!: safe_publish [OF k] as)
qed

lemma safe_serving:
  assumes k: "rc_Kubernetes R" "ws_Server (wl_Spec w) = Some sv"
  shows "safe (servingGuard R w) (servingPost w (wsv_ServiceName sv)) (reconcileServingEndpoint R w) h"
proof -
  note wd = safe_withdraw [OF k] safe_fail [OF k]
  show ?thesis
    using k unfolding reconcileServingEndpoint_def
    by (auto simp: kGetService_def servingGuard_def wd split: sum.split option.split intro!: safe_assignment [OF k])
qed

subsection \<open>Properties\<close>

definition exservice :: Service where
  "exservice = \<lparr>svc_Meta = (exmeta ''team'' ''chat'' ''s-1'')\<lparr>om_Annotations := [(servingWorkloadAnnotation, ''hello'')]\<rparr>,
     svc_Selector = [], svc_Type = ''ClusterIP'', svc_ClusterIP = ''10.96.0.7'', svc_ExternalIPs = [],
     svc_Ports = [\<lparr>sport_Name = ''http'', sport_Protocol = ''TCP''\<rparr>]\<rparr>"

definition exserving :: IdleloomWorkload where
  "exserving = exworkload\<lparr>
     wl_Spec := (wl_Spec exworkload)\<lparr>ws_Mode := WorkloadModeServer, ws_Shell := None,
       ws_Model := Some \<lparr>wmr_CatalogRef = ''tiny''\<rparr>, ws_Server := Some \<lparr>wsv_ServiceName = ''chat'', wsv_ModelAlias = ''tiny''\<rparr>\<rparr>,
     wl_Status := (wl_Status exworkload)\<lparr>
       wst_SchedulingIntent := Some \<lparr>wsi_WorkloadGeneration = 1,
         wsi_HostRef = \<lparr>nor_Namespace = ''small'', nor_Name = ''host'', nor_UID = ''h-small''\<rparr>,
         wsi_ModelRef = Some \<lparr>or_Name = ''tiny'', or_UID = ''m-1''\<rparr>, wsi_ExecutionID = ''x-1'', wsi_FencingEpoch = 5\<rparr>,
       wst_AssignmentRef := Some \<lparr>nor_Namespace = ''small'', nor_Name = AssignmentMailboxName, nor_UID = ''a-1''\<rparr>\<rparr>\<rparr>"

definition exserver_assignment :: IdleloomWorkloadAssignment where
  "exserver_assignment = \<lparr>wa_Type = \<lparr>tm_Kind = ''IdleloomWorkloadAssignment'', tm_APIVersion = APIVersionNative\<rparr>,
     wa_Meta = exmeta ''small'' AssignmentMailboxName ''a-1'',
     wa_Spec = \<lparr>as_DesiredState = AssignmentDesiredRunning,
       as_WorkloadRef = \<lparr>wor_Namespace = ''team'', wor_Name = ''hello'', wor_UID = ''w-1'', wor_Generation = 1\<rparr>,
       as_HostRef = \<lparr>or_Name = ''host'', or_UID = ''h-small''\<rparr>,
       as_Model = Some (resolveModel exmodel exserving ''600000000''), as_Shell = None, as_Training = None, as_Run = None,
       as_ExecutionID = ''x-1'', as_FencingEpoch = 5, as_LeaseDurationSeconds = 30\<rparr>,
     wa_Status = zero_AssignmentStatus\<lparr>ast_ObservedGeneration := 1, ast_Phase := PhaseRunning, ast_AgentID := ''agent-a'',
       ast_ExecutionID := ''x-1'', ast_FencingEpoch := 5, ast_LastHeartbeatTime := Some 1500000000\<rparr>\<rparr>"

definition exconnected :: IdleloomHost where
  "exconnected = (let h = exhost ''small'' ''2048'' in
     h\<lparr>ho_Status := (ho_Status h)\<lparr>
       hst_Connectivity := Some \<lparr>hc_Mode = ConnectivityModeWireKubeLeaf, hc_Provider = ''WireKube'', hc_Transport = ''Relay'',
         hc_PeerName = ''p'', hc_Address = ''100.64.3.7/32'', hc_InterfaceName = ''utun7'', hc_LastHandshakeTime = None\<rparr>,
       hst_Conditions := [\<lparr>cond_Type = HostConditionConnected, cond_Status = ConditionTrue, cond_ObservedGeneration = 1,
         cond_LastTransitionTime = 1, cond_Reason = ''Connected'', cond_Message = []\<rparr>]\<rparr>\<rparr>)"

definition exreconciler :: "wire Reconciler" where
  "exreconciler = \<lparr>rc_lib = exlib, rc_conv = exconv, rc_clients = True, rc_Kubernetes = True,
     rc_Planner = explanner, rc_retries = 3\<rparr>"

abbreviation "exserving_answers \<equiv>
  [ServiceR (Inr exservice), ObjectR (Inr (WireAssignment exserver_assignment)), TimeR exnow,
   ObjectR (Inr (WireHost exconnected)), TimeR exnow, SliceR (Inl (StatusError NotFound))]"

text \<open>
  C7. An EndpointSlice is written only for a workload that is not being deleted, after its
  assignment was found acknowledged and running with a fresh heartbeat and its host was found
  connected; the slice carries the labels of this workload and exactly the address of that
  host. A slice is deleted only after it was read and found to belong to this workload, and
  the delete names the identity that was read.
\<close>

theorem serving_guarded:
  assumes "emits (reconcileServingEndpoint R w) (t @ (q, r) # u)"
  shows "servingGuard R w t q"
proof (cases "rc_Kubernetes R \<and> ws_Server (wl_Spec w) \<noteq> None")
  case True
  then obtain sv where "rc_Kubernetes R" "ws_Server (wl_Spec w) = Some sv" by auto
  from safe_emits [OF safe_serving [OF this, of "[]"] assms] show ?thesis by simp
next
  case False
  have "\<not> emits (reconcileServingEndpoint R w) (t @ (q, r) # u)"
    using False unfolding reconcileServingEndpoint_def by (cases t) (auto split: option.split)
  with assms show ?thesis by simp
qed

theorem serving_guarded_witness:
  "mayPublish exreconciler exserving (feed (reconcileServingEndpoint exreconciler exserving) exserving_answers)
     (desiredSlice exserving exservice ''100.64.3.7'')"
proof -
  have "asks (reconcileServingEndpoint exreconciler exserving) exserving_answers
      = Some (CreateSlice ''team'' (desiredSlice exserving exservice ''100.64.3.7''))"
    by code_simp
  from serving_guarded [OF emits_asks [OF this]] show ?thesis by (simp add: servingGuard_def)
qed

text \<open>
  C8. When the reconciler reports a serving workload as not ready and returns no error, its
  EndpointSlice was observed to be absent or was deleted: a workload that cannot serve keeps no
  endpoint behind.
\<close>

theorem serving_withdrawn:
  assumes "rc_Kubernetes R" "ws_Server (wl_Spec w) = Some sv"
    and "runs (reconcileServingEndpoint R w) t (res, Inr ())" "\<not> se_Ready res"
  shows "withdrawn w (wsv_ServiceName sv) t"
  using safe_runs [OF safe_serving [OF assms(1,2), of "[]"] assms(3)] assms(4) by (simp add: servingPost_def)

theorem serving_withdrawn_witness:
  "withdrawn exserving ''chat'' (feed (reconcileServingEndpoint exreconciler exserving)
     [ServiceR (Inl (StatusError NotFound)), SliceR (Inl (StatusError NotFound))])"
proof -
  let ?p = "reconcileServingEndpoint exreconciler exserving"
  have "feed_result ?p [ServiceR (Inl (StatusError NotFound)), SliceR (Inl (StatusError NotFound))]
      = Some (serving ''ServingServiceMissing'' ''the selectorless Native serving Service does not exist'', Inr ())"
    by code_simp
  from runs_feed [OF this]
  have "runs ?p (feed ?p [ServiceR (Inl (StatusError NotFound)), SliceR (Inl (StatusError NotFound))])
    (serving ''ServingServiceMissing'' ''the selectorless Native serving Service does not exist'', Inr ())" .
  from serving_withdrawn [OF _ _ this, of "\<lparr>wsv_ServiceName = ''chat'', wsv_ModelAlias = ''tiny''\<rparr>"] show ?thesis
    by (simp add: exreconciler_def exserving_def)
qed

end
