(* ===== verification/Model_Status.thy ===== *)
theory Model_Status
  imports Serving
begin

section \<open>Aggregation of measured memory profiles\<close>

text \<open>
  \<open>internal/native/controller/modelstatus.go\<close>: the geometry that agents measured for an
  artifact digest, as reported in the host statuses, becomes the memory profile in the status
  of the model with this digest. The map \<open>observed\<close> is an association list.
\<close>

record observation =
  ob_profile :: "ModelMemoryProfile option"
  ob_conflict :: bool
  ob_reported :: bool

definition zero_observation :: observation where
  "zero_observation = \<lparr>ob_profile = None, ob_conflict = False, ob_reported = False\<rparr>"

definition observeEntry :: "HostModelStatus \<Rightarrow> observation gomap \<Rightarrow> observation gomap" where
  "observeEntry entry observed =
     (if hm_RuntimeProfile entry = RuntimeProfileMLXLMV1 then observed
      else
        let current = (case map_of observed (hm_ManifestDigest entry) of None \<Rightarrow> zero_observation | Some ob \<Rightarrow> ob)\<lparr>ob_reported := True\<rparr>
        in gomap_set observed (hm_ManifestDigest entry)
          (case hm_Memory entry of
             None \<Rightarrow> current
           | Some m \<Rightarrow>
              (case ob_profile current of
                 None \<Rightarrow> current\<lparr>ob_profile := Some m\<rparr>
               | Some p \<Rightarrow> if p \<noteq> m then current\<lparr>ob_conflict := True\<rparr> else current)))"

definition observeHosts :: "'u Reconciler \<Rightarrow> 'u list \<Rightarrow> observation gomap" where
  "observeHosts R items =
     foldl (\<lambda>observed item.
       case FromUnstructured (rc_conv R) (toHost (rc_conv R)) item of
         Inl _ \<Rightarrow> observed
       | Inr host \<Rightarrow> foldl (\<lambda>ob entry. observeEntry entry ob) observed (hst_AvailableModels (ho_Status host)))
     [] items"

definition equalMemoryProfiles :: "ModelMemoryProfile option \<Rightarrow> ModelMemoryProfile option \<Rightarrow> bool" where
  "equalMemoryProfiles left right =
     (case (left, right) of (Some l, Some r) \<Rightarrow> l = r | (None, None) \<Rightarrow> True | _ \<Rightarrow> False)"

definition modelVerdict :: "observation \<Rightarrow> ModelMemoryProfile option \<times> string \<times> string \<times> string" where
  \<comment> \<open>the profile to publish, and the status, reason and message of the condition\<close>
  "modelVerdict report =
     (if ob_conflict report then
        (None, ConditionFalse, ''ConflictingMeasurements'',
         ''hosts reported different geometry for the same artifact digest; admission falls back to the conservative estimate'')
      else case ob_profile report of
        Some p \<Rightarrow> (Some p, ConditionTrue, ''Measured'',
          ''architecture '' @ mp_Architecture p @ '' uses '' @ FormatInt (mp_KVBytesPerToken p) @ '' KV cache bytes per context token'')
      | None \<Rightarrow> (None, ConditionFalse, ''UnparseableHeader'',
          ''no host could read this artifact's header geometry; admission falls back to the conservative estimate''))"

definition publishModelStatus :: "'u Reconciler \<Rightarrow> observation \<Rightarrow> IdleloomModel \<Rightarrow> go_error list \<Rightarrow> ('u, go_error list) kube" where
  \<comment> \<open>the body of the loop for a model that some host reports\<close>
  "publishModelStatus R report model errs =
     bindP kNow (\<lambda>now.
       let (profile, status, reason, message) = modelVerdict report;
           st = md_Status model;
           existing = FindStatusCondition (rc_lib R) (mst_Conditions st) ModelConditionMemoryProfileMeasured;
           conditionUnchanged = (case existing of None \<Rightarrow> False | Some c \<Rightarrow> cond_Status c = status \<and> cond_Reason c = reason)
       in if equalMemoryProfiles (mst_MemoryProfile st) profile \<and> conditionUnchanged then Ret errs
          else
            let copy = model\<lparr>md_Status := st\<lparr>mst_MemoryProfile := profile,
              mst_Conditions := SetStatusCondition (rc_lib R) (mst_Conditions st)
                \<lparr>cond_Type = ModelConditionMemoryProfileMeasured, cond_Status = status,
                 cond_ObservedGeneration = om_Generation (md_Meta model), cond_LastTransitionTime = now,
                 cond_Reason = reason, cond_Message = message\<rparr>\<rparr>\<rparr>
            in case ToUnstructured (ofModel (rc_conv R)) copy of
                 Inl e \<Rightarrow> Ret (errs @ [e])
               | Inr object \<Rightarrow>
                  bindP (kUpdateStatus ModelsGVR [] object) (\<lambda>r.
                    case r of
                      Inl e \<Rightarrow> Ret (errs @ [WrapError (''update model '' @ md_Name model @ '' memory profile: '') e []])
                    | Inr _ \<Rightarrow> Ret errs))"

definition reconcileModelStatus :: "'u Reconciler \<Rightarrow> observation gomap \<Rightarrow> 'u \<Rightarrow> go_error list \<Rightarrow> ('u, go_error list) kube" where
  "reconcileModelStatus R observed item errs =
     (case FromUnstructured (rc_conv R) (toModel (rc_conv R)) item of
        Inl e \<Rightarrow> Ret (errs @ [e])
      | Inr model \<Rightarrow>
         (case map_of observed (ma_ManifestDigest (ms_Artifact (md_Spec model))) of
            None \<Rightarrow> Ret errs
          | Some report \<Rightarrow> publishModelStatus R report model errs))"

definition reconcileModelStatuses :: "'u Reconciler \<Rightarrow> ('u, unit res) kube" where
  "reconcileModelStatuses R =
     bindE (wrapE ''list native models: '' (kList ModelsGVR [])) (\<lambda>models.
       bindE (wrapE ''list native hosts: '' (kList HostsGVR [])) (\<lambda>hosts.
         bindP (foldP (reconcileModelStatus R (observeHosts R hosts)) models []) (\<lambda>errs. Ret (joinErrors errs))))"

subsection \<open>The aggregate does not depend on the order of the reports\<close>

text \<open>The entries a list of hosts reports, and the geometries measured for a digest.\<close>

definition reportedEntries :: "'u Reconciler \<Rightarrow> 'u list \<Rightarrow> HostModelStatus list" where
  "reportedEntries R items =
     filter (\<lambda>e. hm_RuntimeProfile e \<noteq> RuntimeProfileMLXLMV1)
       (concat (map (\<lambda>item. case toHost (rc_conv R) item of Inl _ \<Rightarrow> [] | Inr host \<Rightarrow> hst_AvailableModels (ho_Status host)) items))"

definition measurements :: "HostModelStatus list \<Rightarrow> string \<Rightarrow> ModelMemoryProfile set" where
  "measurements es d = {m. \<exists>e \<in> set es. hm_ManifestDigest e = d \<and> hm_Memory e = Some m}"

definition matchesReports :: "HostModelStatus list \<Rightarrow> observation gomap \<Rightarrow> bool" where
  "matchesReports es obs \<longleftrightarrow> (\<forall>d. case map_of obs d of
     None \<Rightarrow> \<not> (\<exists>e \<in> set es. hm_ManifestDigest e = d)
   | Some ob \<Rightarrow> (\<exists>e \<in> set es. hm_ManifestDigest e = d)
       \<and> (ob_profile ob = None \<longleftrightarrow> measurements es d = {})
       \<and> (\<forall>p. ob_profile ob = Some p \<longrightarrow> p \<in> measurements es d)
       \<and> (ob_conflict ob \<longleftrightarrow> (\<exists>p q. p \<in> measurements es d \<and> q \<in> measurements es d \<and> p \<noteq> q)))"

lemma measurements_snoc:
  "measurements (es @ [e]) d = (case hm_Memory e of
     Some m \<Rightarrow> if hm_ManifestDigest e = d then insert m (measurements es d) else measurements es d
   | None \<Rightarrow> measurements es d)"
  by (auto simp: measurements_def split: option.split)

lemma matchesReports_entry:
  assumes "matchesReports es obs" "hm_RuntimeProfile e \<noteq> RuntimeProfileMLXLMV1"
  shows "matchesReports (es @ [e]) (observeEntry e obs)"
  unfolding matchesReports_def
proof
  fix d
  let ?cur = "case map_of obs (hm_ManifestDigest e) of None \<Rightarrow> zero_observation | Some ob \<Rightarrow> ob"
  show "case map_of (observeEntry e obs) d of
     None \<Rightarrow> \<not> (\<exists>e' \<in> set (es @ [e]). hm_ManifestDigest e' = d)
   | Some ob \<Rightarrow> (\<exists>e' \<in> set (es @ [e]). hm_ManifestDigest e' = d)
       \<and> (ob_profile ob = None \<longleftrightarrow> measurements (es @ [e]) d = {})
       \<and> (\<forall>p. ob_profile ob = Some p \<longrightarrow> p \<in> measurements (es @ [e]) d)
       \<and> (ob_conflict ob \<longleftrightarrow> (\<exists>p q. p \<in> measurements (es @ [e]) d \<and> q \<in> measurements (es @ [e]) d \<and> p \<noteq> q))"
  proof (cases "hm_ManifestDigest e = d")
    case False
    then have "measurements (es @ [e]) d = measurements es d" by (auto simp: measurements_snoc split: option.split)
    moreover have "map_of (observeEntry e obs) d = map_of obs d"
      using False by (simp add: observeEntry_def Let_def map_of_gomap_set)
    ultimately show ?thesis using assms(1) [unfolded matchesReports_def, THEN spec, of d] False by (cases "map_of obs d") simp_all
  next
    case True
    have old: "(ob_profile ?cur = None \<longleftrightarrow> measurements es d = {})
       \<and> (\<forall>p. ob_profile ?cur = Some p \<longrightarrow> p \<in> measurements es d)
       \<and> (ob_conflict ?cur \<longleftrightarrow> (\<exists>p q. p \<in> measurements es d \<and> q \<in> measurements es d \<and> p \<noteq> q))"
    proof (cases "map_of obs d")
      case None
      then have "\<not> (\<exists>e \<in> set es. hm_ManifestDigest e = d)" using assms(1) [unfolded matchesReports_def, THEN spec, of d] by simp
      then have "measurements es d = {}" by (auto simp: measurements_def)
      with None True show ?thesis by (simp add: zero_observation_def)
    next
      case (Some ob)
      with assms(1) [unfolded matchesReports_def, THEN spec, of d] True show ?thesis by simp
    qed
    have new: "map_of (observeEntry e obs) d = Some
        (case hm_Memory e of None \<Rightarrow> ?cur\<lparr>ob_reported := True\<rparr>
         | Some m \<Rightarrow> (case ob_profile ?cur of None \<Rightarrow> ?cur\<lparr>ob_reported := True, ob_profile := Some m\<rparr>
              | Some p \<Rightarrow> if p \<noteq> m then ?cur\<lparr>ob_reported := True, ob_conflict := True\<rparr> else ?cur\<lparr>ob_reported := True\<rparr>))"
      using assms(2) True
      by (cases "hm_Memory e"; cases "ob_profile ?cur") (simp_all add: observeEntry_def Let_def map_of_gomap_set)
    show ?thesis
    proof (cases "hm_Memory e")
      case None
      with old new True show ?thesis by (simp add: measurements_snoc)
    next
      case (Some m)
      show ?thesis
      proof (cases "ob_profile ?cur")
        case None
        with old new True Some show ?thesis by (simp add: measurements_snoc)
      next
        fix p assume p: "ob_profile ?cur = Some p"
        with old have "p \<in> measurements es d" by blast
        with p old new True Some show ?thesis by (auto simp: measurements_snoc)
      qed
    qed
  qed
qed

lemma matchesReports_entries:
  assumes "matchesReports es obs"
  shows "matchesReports (es @ filter (\<lambda>e. hm_RuntimeProfile e \<noteq> RuntimeProfileMLXLMV1) xs) (foldl (\<lambda>ob entry. observeEntry entry ob) obs xs)"
  using assms
proof (induction xs arbitrary: es obs)
  case (Cons x xs)
  show ?case
  proof (cases "hm_RuntimeProfile x = RuntimeProfileMLXLMV1")
    case True
    then have "observeEntry x obs = obs" by (simp add: observeEntry_def)
    with Cons True show ?thesis by simp
  next
    case False
    from Cons.IH [OF matchesReports_entry [OF Cons.prems False]] False show ?thesis by simp
  qed
qed simp

lemma matchesReports_hosts: "matchesReports (reportedEntries R items) (observeHosts R items)"
proof (induction items rule: rev_induct)
  case Nil
  show ?case by (simp add: matchesReports_def reportedEntries_def observeHosts_def)
next
  case (snoc item items)
  show ?case
  proof (cases "toHost (rc_conv R) item")
    case (Inl e)
    with snoc show ?thesis by (simp add: reportedEntries_def observeHosts_def FromUnstructured_def)
  next
    case (Inr host)
    with matchesReports_entries [OF snoc, of "hst_AvailableModels (ho_Status host)"] show ?thesis
      by (simp add: reportedEntries_def observeHosts_def FromUnstructured_def)
  qed
qed

lemma verdict_consensus:
  assumes "matchesReports es obs" "map_of obs d = Some report"
  shows "fst (modelVerdict report) = Some p \<longleftrightarrow> measurements es d = {p}"
proof -
  have r: "ob_profile report = None \<longleftrightarrow> measurements es d = {}"
    "\<And>p. ob_profile report = Some p \<Longrightarrow> p \<in> measurements es d"
    "ob_conflict report \<longleftrightarrow> (\<exists>p q. p \<in> measurements es d \<and> q \<in> measurements es d \<and> p \<noteq> q)"
    using assms(1) [unfolded matchesReports_def, THEN spec, of d] assms(2) by auto
  show ?thesis
  proof (cases "ob_conflict report")
    case True
    with r(3) show ?thesis by (auto simp: modelVerdict_def)
  next
    case False
    with r(3) have u: "p = q" if "p \<in> measurements es d" "q \<in> measurements es d" for p q using that by blast
    show ?thesis
    proof (cases "ob_profile report")
      case None
      with False r(1) show ?thesis by (simp add: modelVerdict_def)
    next
      case (Some q)
      with r(2) have "q \<in> measurements es d" by simp
      with u have "measurements es d = {q}" by blast
      with False Some show ?thesis by (simp add: modelVerdict_def)
    qed
  qed
qed

subsection \<open>Properties\<close>

text \<open>What a status update of a model says, given the hosts that were listed before it.\<close>

definition modelWriteOk :: "'u Reconciler \<Rightarrow> ('u request \<times> 'u response) list \<Rightarrow> 'u request \<Rightarrow> bool" where
  "modelWriteOk R h q = (case q of
     UpdateStatus g ns u \<Rightarrow>
       g = ModelsGVR \<and> (\<exists>items model.
         (List HostsGVR [], ListR (Inr items)) \<in> set h \<and> ofModel (rc_conv R) model = Inr u
         \<and> (let es = reportedEntries R items; d = ma_ManifestDigest (ms_Artifact (md_Spec model)) in
            (\<exists>e \<in> set es. hm_ManifestDigest e = d)
            \<and> (\<forall>p. mst_MemoryProfile (md_Status model) = Some p \<longleftrightarrow> measurements es d = {p})))
   | List _ _ \<Rightarrow> True | Now \<Rightarrow> True | _ \<Rightarrow> False)"

lemma safe_publishModelStatus:
  assumes "(List HostsGVR [], ListR (Inr items)) \<in> set h"
    and "map_of (observeHosts R items) (ma_ManifestDigest (ms_Artifact (md_Spec model))) = Some report"
  shows "safe (modelWriteOk R) (\<lambda>h s. (List HostsGVR [], ListR (Inr items)) \<in> set h) (publishModelStatus R report model errs) h"
proof -
  let ?d = "ma_ManifestDigest (ms_Artifact (md_Spec model))" and ?es = "reportedEntries R items"
  have ex: "\<exists>e \<in> set ?es. hm_ManifestDigest e = ?d"
    using matchesReports_hosts [of R items, unfolded matchesReports_def, THEN spec, of ?d] assms(2) by simp
  note con = verdict_consensus [OF matchesReports_hosts assms(2)]
  obtain profile status reason message where v: "modelVerdict report = (profile, status, reason, message)"
    by (cases "modelVerdict report") auto
  have ok: "modelWriteOk R (h @ [(Now, r)]) (UpdateStatus ModelsGVR [] u)"
    if "ofModel (rc_conv R) (model\<lparr>md_Status := st\<lparr>mst_MemoryProfile := profile, mst_Conditions := cs\<rparr>\<rparr>) = Inr u" for r u st cs
    unfolding modelWriteOk_def request.case Let_def
    using assms(1) that ex con v
    by (intro conjI refl exI [of _ items] exI [of _ "model\<lparr>md_Status := st\<lparr>mst_MemoryProfile := profile, mst_Conditions := cs\<rparr>\<rparr>"]) auto
  show ?thesis
    using assms(1) ok
    by (auto simp: publishModelStatus_def v kNow_def kUpdateStatus_def Let_def modelWriteOk_def [of R _ Now] split: sum.split)
qed

text \<open>
  C24. Every status update of a model follows from the host statuses read in the same pass:
  some host reports the artifact, and the profile written is the geometry measured for its
  digest when all measurements agree and none when there is no measurement or two disagree.
  So the outcome does not depend on the order in which hosts are listed, and a conflict
  withdraws the profile instead of picking a side.
\<close>

theorem model_status_consensus:
  assumes "emits (reconcileModelStatuses R) (t @ (q, r) # v)"
  shows "modelWriteOk R t q"
proof -
  have "safe (modelWriteOk R) (\<lambda>h s. True) (reconcileModelStatuses R) []"
  proof -
    have fold: "safe (modelWriteOk R) (\<lambda>h s. (List HostsGVR [], ListR (Inr items)) \<in> set h)
        (foldP (reconcileModelStatus R (observeHosts R items)) models es) h"
      if "(List HostsGVR [], ListR (Inr items)) \<in> set h" for items models es h
      by (rule safe_foldP)
        (use that in \<open>auto simp: reconcileModelStatus_def split: sum.split option.split intro: safe_publishModelStatus\<close>)
    have inner: "safe (modelWriteOk R) (\<lambda>h s. True)
        (bindP (foldP (reconcileModelStatus R (observeHosts R items)) models es) (\<lambda>errs. Ret (joinErrors errs))) h"
      if "(List HostsGVR [], ListR (Inr items)) \<in> set h" for items models es h
      unfolding safe_bindP by (rule safe_mono [OF fold [OF that]]) simp_all
    show ?thesis
      by (auto simp: reconcileModelStatuses_def wrapE_def kList_def safe_bindE modelWriteOk_def [of R _ "List g n" for g n]
          answer_defs inner split: sum.split response.split)
  qed
  from safe_emits [OF this assms] show ?thesis by simp
qed

definition exreporting :: IdleloomHost where
  "exreporting = (let h = exhost ''small'' ''2048'' in
     h\<lparr>ho_Status := (ho_Status h)\<lparr>hst_AvailableModels := [\<lparr>hm_RuntimeProfile = RuntimeProfileLlamaCppMetalV1, hm_Name = ''t.gguf'',
       hm_ManifestDigest = ''sha256:'' @ replicate 64 (CHR ''a''), hm_Family = ModelFamilyGGUF, hm_Format = ArtifactFormatGGUFV1,
       hm_SizeBytes = 1000, hm_Memory = Some \<lparr>mp_Architecture = ''llama'', mp_BlockCount = 2, mp_KVCacheLayers = 2,
         mp_KVBytesPerToken = 64, mp_TrainedContextLength = 8192\<rparr>\<rparr>]\<rparr>\<rparr>)"

theorem model_status_consensus_witness:
  "\<exists>u. modelWriteOk exreconciler
     (feed (reconcileModelStatuses exreconciler) [ListR (Inr [WireModel exmodel]), ListR (Inr [WireHost exreporting]), TimeR exnow])
     (UpdateStatus ModelsGVR [] u)"
proof -
  let ?p = "reconcileModelStatuses exreconciler"
  let ?as = "[ListR (Inr [WireModel exmodel]), ListR (Inr [WireHost exreporting]), TimeR exnow]"
  have "case asks ?p ?as of Some (UpdateStatus ModelsGVR [] u) \<Rightarrow> True | _ \<Rightarrow> False"
    by code_simp
  then obtain u where "asks ?p ?as = Some (UpdateStatus ModelsGVR [] u)"
    by (auto split: option.splits request.splits gvr.splits list.splits)
  from model_status_consensus [OF emits_asks [OF this]] show ?thesis by blast
qed

end
