(* ===== verification/Fencing.thy ===== *)
theory Fencing
  imports Kube_API Examples
begin

section \<open>Fencing epochs\<close>

text \<open>
  \<open>internal/native/fencing/allocator.go\<close>: the epoch counter of a host, kept in an annotation
  of a Lease and incremented under the conflict detection of the API server.
  \<open>retry.RetryOnConflict\<close> of client-go runs its function again, a bounded number of times,
  as long as it fails with a conflict; the number of further attempts is the argument
  \<open>retries\<close> (3 for \<open>retry.DefaultBackoff\<close>, which has four steps).
\<close>

abbreviation "LeaseName \<equiv> ''idleloom-fencing''"
abbreviation "EpochAnnotation \<equiv> ''ai.idleloom.io/fencing-epoch''"
abbreviation "HostUIDAnnotation \<equiv> ''ai.idleloom.io/host-uid''"
abbreviation "ManagedByLabel \<equiv> ''app.kubernetes.io/managed-by''"
abbreviation "ManagedByValue \<equiv> ''idleloom-enrollment''"

definition validateLease :: "Lease \<Rightarrow> UID \<Rightarrow> int64 res" where
  "validateLease lease hostUID =
     (let m = le_Meta lease in
      if gomap_get (om_Labels m) ManagedByLabel \<noteq> ManagedByValue
      then Inl (ErrorString (''fencing Lease '' @ om_Name m @ '' is not owned by Idleloom enrollment''))
      else if gomap_get (om_Annotations m) HostUIDAnnotation \<noteq> hostUID
      then Inl (ErrorString (''fencing Lease '' @ om_Name m @ '' belongs to a different host UID''))
      else case map_of (om_Annotations m) EpochAnnotation of
        None \<Rightarrow> Inl (ErrorString (''fencing Lease '' @ om_Name m @ '' has no epoch''))
      | Some rawEpoch \<Rightarrow>
         (case ParseInt rawEpoch of
            None \<Rightarrow> Inl (ErrorString (''fencing Lease '' @ om_Name m @ '' has invalid epoch '' @ fmt_q rawEpoch))
          | Some epoch \<Rightarrow>
             if epoch < 0
             then Inl (ErrorString (''fencing Lease '' @ om_Name m @ '' has invalid epoch '' @ fmt_q rawEpoch))
             else Inr epoch))"

definition setEpoch :: "Lease \<Rightarrow> int64 \<Rightarrow> Lease" where
  "setEpoch lease next =
     lease\<lparr>le_Meta := (le_Meta lease)\<lparr>om_Annotations :=
       gomap_set (om_Annotations (le_Meta lease)) EpochAnnotation (FormatInt next)\<rparr>\<rparr>"

definition commitEpoch :: "string \<Rightarrow> Lease \<Rightarrow> int64 \<Rightarrow> ('u, int64 res) kube" where
  "commitEpoch ns lease current =
     (let next = wrap64 (current + 1) in
      bindE (kUpdateLease ns (setEpoch lease next)) (\<lambda>_. Ret (Inr next)))"

definition allocateFrom :: "string \<Rightarrow> UID \<Rightarrow> Lease res \<Rightarrow> ('u, int64 res) kube" where
  "allocateFrom ns hostUID got =
     (case got of
        Inl e \<Rightarrow>
          if IsNotFound e
          then Ret (Inl (ErrorString (''fencing Lease '' @ LeaseName @ '' is missing; rerun host enrollment'')))
          else Ret (Inl (WrapError (''get fencing Lease '' @ LeaseName @ '': '') e []))
      | Inr lease \<Rightarrow>
         (case validateLease lease hostUID of
            Inl e \<Rightarrow> Ret (Inl e)
          | Inr current \<Rightarrow>
             if current = max_int64 then Ret (Inl (ErrorString ''fencing epoch is exhausted''))
             else commitEpoch ns lease current))"

definition allocateOnce :: "string \<Rightarrow> UID \<Rightarrow> ('u, int64 res) kube" where
  "allocateOnce ns hostUID = bindP (kGetLease ns LeaseName) (allocateFrom ns hostUID)"

primrec retryOnConflict :: "nat \<Rightarrow> ('q, 'r, 'a res) prog \<Rightarrow> ('q, 'r, 'a res) prog" where
  "retryOnConflict 0 f = f"
| "retryOnConflict (Suc n) f =
     bindP f (\<lambda>r. case r of
       Inl e \<Rightarrow> if IsConflict e then retryOnConflict n f else Ret (Inl e)
     | Inr a \<Rightarrow> Ret (Inr a))"

definition Allocate :: "nat \<Rightarrow> string \<Rightarrow> UID \<Rightarrow> ('u, int64 res) kube" where
  "Allocate retries ns hostUID =
     (if hostUID = [] then Ret (Inl (ErrorString ''host UID is required''))
      else retryOnConflict retries (allocateOnce ns hostUID))"

subsection \<open>One allocation\<close>

lemma validateLease_Inr:
  "validateLease l uid = Inr e \<longleftrightarrow>
     gomap_get (om_Labels (le_Meta l)) ManagedByLabel = ManagedByValue
   \<and> gomap_get (om_Annotations (le_Meta l)) HostUIDAnnotation = uid
   \<and> (\<exists>raw. map_of (om_Annotations (le_Meta l)) EpochAnnotation = Some raw \<and> ParseInt raw = Some e \<and> 0 \<le> e)"
  by (auto simp: validateLease_def Let_def split: option.splits)

lemma validateLease_range: "validateLease l uid = Inr e \<Longrightarrow> 0 \<le> e \<and> in_int64 e"
  by (auto simp: validateLease_Inr ParseInt_range)

lemma wrap_next: "0 \<le> e \<Longrightarrow> in_int64 e \<Longrightarrow> e \<noteq> max_int64 \<Longrightarrow> wrap64 (e + 1) = e + 1 \<and> in_int64 (e + 1)"
  by (auto simp: in_int64_def min_int64_def max_int64_def intro!: wrap64_id)

lemma setEpoch_validate:
  assumes "validateLease l uid = Inr e" "0 \<le> e'" "in_int64 e'"
  shows "validateLease (setEpoch l e') uid = Inr e'"
  using assms by (simp add: validateLease_Inr setEpoch_def map_of_gomap_set ParseInt_FormatInt)

lemma setEpoch_meta [simp]:
  "om_Labels (le_Meta (setEpoch l e)) = om_Labels (le_Meta l)"
  "om_ResourceVersion (le_Meta (setEpoch l e)) = om_ResourceVersion (le_Meta l)"
  "om_Name (le_Meta (setEpoch l e)) = om_Name (le_Meta l)"
  "k \<noteq> EpochAnnotation \<Longrightarrow> gomap_get (om_Annotations (le_Meta (setEpoch l e))) k = gomap_get (om_Annotations (le_Meta l)) k"
  by (simp_all add: setEpoch_def)

lemma bindP_Ret: "bindP p Ret = p"
  by (induction p) auto

definition retryK :: "nat \<Rightarrow> ('u, 'a res) kube \<Rightarrow> 'a res \<Rightarrow> ('u, 'a res) kube" where
  "retryK n f r = (case r of
     Inl e \<Rightarrow> if n \<noteq> 0 \<and> IsConflict e then retryOnConflict (n - 1) f else Ret (Inl e)
   | Inr a \<Rightarrow> Ret (Inr a))"

lemma retryOnConflict_eq: "retryOnConflict n f = bindP f (retryK n f)"
proof (cases n)
  case 0
  have "retryK 0 f = Ret" by (rule ext) (simp add: retryK_def split: sum.split)
  with 0 show ?thesis by (simp add: bindP_Ret)
next
  case (Suc m)
  have "retryK (Suc m) f = (\<lambda>r. case r of Inl e \<Rightarrow> if IsConflict e then retryOnConflict m f else Ret (Inl e) | Inr a \<Rightarrow> Ret (Inr a))"
    by (rule ext) (simp add: retryK_def split: sum.split)
  with Suc show ?thesis by simp
qed

subsection \<open>Concurrent allocators\<close>

text \<open>
  Any number of processes run \<open>Allocate\<close> against one Lease. The store holds the Lease and
  the resource versions it has had. A read returns the Lease; a write succeeds only with the
  current resource version and gives the Lease a new one. Beyond this a call may fail without
  effect, and a write may take effect although the caller sees an error. Another client may
  write the Lease as long as it keeps what \<open>validateLease\<close> reads.
\<close>

type_synonym 'u lease_cfg = "Lease \<times> string set \<times> (nat \<Rightarrow> ('u, int64 res) kube)"

definition withVersion :: "Lease \<Rightarrow> string \<Rightarrow> Lease" where
  "withVersion l rv = l\<lparr>le_Meta := (le_Meta l)\<lparr>om_ResourceVersion := rv\<rparr>\<rparr>"

abbreviation "rv_of l \<equiv> om_ResourceVersion (le_Meta l)"

lemma withVersion_simps [simp]:
  "rv_of (withVersion l v) = v" "validateLease (withVersion l v) uid = validateLease l uid"
  by (simp_all add: withVersion_def validateLease_def Let_def cong: option.case_cong if_cong)

inductive alloc_step :: "UID \<Rightarrow> 'u lease_cfg \<Rightarrow> 'u lease_cfg \<Rightarrow> bool" for uid :: UID where
  read_lease: "P i = Req (GetLease ns n) k \<Longrightarrow> alloc_step uid (l, U, P) (l, U, P(i := k (LeaseR (Inr l))))"
| fail_call: "P i = Req q k \<Longrightarrow> alloc_step uid (l, U, P) (l, U, P(i := k (LeaseR (Inl e))))"
| write_lease: "P i = Req (UpdateLease ns l') k \<Longrightarrow> rv_of l' = rv_of l \<Longrightarrow> v \<notin> U \<Longrightarrow>
    alloc_step uid (l, U, P) (withVersion l' v, insert v U, P(i := k (LeaseR (Inr (withVersion l' v)))))"
| write_lost: "P i = Req (UpdateLease ns l') k \<Longrightarrow> rv_of l' = rv_of l \<Longrightarrow> v \<notin> U \<Longrightarrow>
    alloc_step uid (l, U, P) (withVersion l' v, insert v U, P(i := k (LeaseR (Inl e))))"
| other_write: "rv_of l' = v \<Longrightarrow> v \<notin> U \<Longrightarrow> validateLease l' uid = validateLease l uid \<Longrightarrow>
    alloc_step uid (l, U, P) (l', insert v U, P)"

text \<open>Where a process that runs \<open>Allocate\<close> can be, with a lower bound \<open>b\<close> on what it returns.\<close>

inductive at_alloc :: "string \<Rightarrow> UID \<Rightarrow> Lease \<Rightarrow> string set \<Rightarrow> int \<Rightarrow> int \<Rightarrow> ('u, int64 res) kube \<Rightarrow> bool"
  for ns :: string and uid :: UID and l :: Lease and U :: "string set" and e :: int and b :: int where
  at_start: "at_alloc ns uid l U e b (retryOnConflict n (allocateOnce ns uid))"
| at_commit: "validateLease s uid = Inr c \<Longrightarrow> c \<noteq> max_int64 \<Longrightarrow> b \<le> c \<Longrightarrow> rv_of s \<in> U \<Longrightarrow>
    (rv_of s = rv_of l \<Longrightarrow> s = l) \<Longrightarrow>
    at_alloc ns uid l U e b (bindP (commitEpoch ns s c) (retryK n (allocateOnce ns uid)))"
| at_error: "at_alloc ns uid l U e b (Ret (Inl x))"
| at_done: "b < x \<Longrightarrow> x \<le> e \<Longrightarrow> at_alloc ns uid l U e b (Ret (Inr x))"

definition alloc_inv :: "string \<Rightarrow> UID \<Rightarrow> (nat \<Rightarrow> int) \<Rightarrow> 'u lease_cfg \<Rightarrow> bool" where
  "alloc_inv ns uid b cfg \<longleftrightarrow> (case cfg of (l, U, P) \<Rightarrow>
     rv_of l \<in> U \<and> (\<exists>e. validateLease l uid = Inr e
       \<and> (\<forall>i. b i \<le> e \<and> at_alloc ns uid l U e (b i) (P i))
       \<and> (\<forall>i j x. P i = Ret (Inr x) \<longrightarrow> P j = Ret (Inr x) \<longrightarrow> i = j)))"

lemma retry_unfold:
  "retryOnConflict n (allocateOnce ns uid) = Req (GetLease ns LeaseName)
     (\<lambda>r. bindP (allocateFrom ns uid (rLease r)) (retryK n (allocateOnce ns uid)))"
proof -
  have "bindP (allocateOnce ns uid) g = Req (GetLease ns LeaseName) (\<lambda>r. bindP (allocateFrom ns uid (rLease r)) g)" for g
    by (simp add: allocateOnce_def kGetLease_def)
  then show ?thesis unfolding retryOnConflict_eq .
qed

lemma retry_not_Ret: "retryOnConflict n (allocateOnce ns uid) \<noteq> Ret x"
  by (simp add: retry_unfold)

lemma commit_unfold:
  "bindP (commitEpoch ns s c) g = Req (UpdateLease ns (setEpoch s (wrap64 (c + 1))))
     (\<lambda>r. g (case rLease r of Inl e \<Rightarrow> Inl e | Inr l \<Rightarrow> Inr (wrap64 (c + 1))))"
proof -
  have *: "bindP (bindE (Ret (rLease r)) (\<lambda>_. Ret (Inr (wrap64 (c + 1))))) g =
      g (case rLease r of Inl e \<Rightarrow> Inl e | Inr l \<Rightarrow> Inr (wrap64 (c + 1)))" for r
    by (cases "rLease r") simp_all
  show ?thesis
    by (simp only: commitEpoch_def Let_def kUpdateLease_def bindE_simps bindP.simps *)
qed

lemma at_alloc_retryK_error: "at_alloc ns uid l U e b (retryK n (allocateOnce ns uid) (Inl x))"
  by (auto simp: retryK_def intro: at_alloc.intros)

lemma at_alloc_mono:
  assumes "at_alloc ns uid l U e b p" "e \<le> e'" "U \<subseteq> U'" "rv_of l' \<notin> U"
  shows "at_alloc ns uid l' U' e' b p"
  using assms(1)
proof (cases rule: at_alloc.cases)
  case (at_commit s c n)
  then show ?thesis unfolding at_commit(1) using assms(3,4) by (intro at_alloc.at_commit) auto
qed (use assms(2) in \<open>auto intro: at_alloc.intros\<close>)

lemma at_alloc_read:
  assumes "at_alloc ns uid l U e b (Req (GetLease ns' n') k)" "validateLease l uid = Inr e" "b \<le> e" "rv_of l \<in> U"
  shows "at_alloc ns uid l U e b (k (LeaseR (Inr l)))"
  using assms(1)
proof (cases rule: at_alloc.cases)
  case (at_start n)
  then have "k (LeaseR (Inr l)) = (if e = max_int64 then retryK n (allocateOnce ns uid) (Inl (ErrorString ''fencing epoch is exhausted''))
      else bindP (commitEpoch ns l e) (retryK n (allocateOnce ns uid)))"
    using assms(2) by (simp add: retry_unfold allocateFrom_def)
  then show ?thesis
    using assms at_alloc_retryK_error by (auto intro: at_alloc.at_commit)
qed (simp_all add: commit_unfold)

lemma at_alloc_fail:
  assumes "at_alloc ns uid l U e b (Req q k)"
  shows "at_alloc ns uid l U e b (k (LeaseR (Inl x)))"
  using assms
proof (cases rule: at_alloc.cases)
  case (at_start n)
  then have "\<exists>y. k (LeaseR (Inl x)) = retryK n (allocateOnce ns uid) (Inl y)"
    by (auto simp: retry_unfold allocateFrom_def)
  then show ?thesis using at_alloc_retryK_error by auto
next
  case (at_commit s c n)
  then have "k (LeaseR (Inl x)) = retryK n (allocateOnce ns uid) (Inl x)"
    by (auto simp: commit_unfold)
  then show ?thesis using at_alloc_retryK_error by simp
qed

lemma at_alloc_write:
  assumes "at_alloc ns uid l U e b (Req (UpdateLease ns' l') k)" "validateLease l uid = Inr e" "rv_of l' = rv_of l"
  shows "l' = setEpoch l (e + 1)" "e \<noteq> max_int64" "validateLease l' uid = Inr (e + 1)" "b \<le> e"
    "k (LeaseR (Inr l2)) = Ret (Inr (e + 1))"
proof -
  have "l' = setEpoch l (e + 1) \<and> e \<noteq> max_int64 \<and> validateLease l' uid = Inr (e + 1) \<and> b \<le> e \<and> k (LeaseR (Inr l2)) = Ret (Inr (e + 1))"
    using assms(1)
  proof (cases rule: at_alloc.cases)
    case (at_commit s c n)
    then have l': "l' = setEpoch s (wrap64 (c + 1))" by (auto simp: commit_unfold)
    then have "s = l" using at_commit assms(3) by simp
    then have "c = e" using at_commit assms(2) by simp
    moreover have "wrap64 (e + 1) = e + 1" "in_int64 (e + 1)" "0 \<le> e"
      using wrap_next validateLease_range [OF assms(2)] at_commit(3) \<open>c = e\<close> by auto
    ultimately show ?thesis
      using at_commit l' \<open>s = l\<close> assms(2) by (auto simp: commit_unfold retryK_def intro: setEpoch_validate)
  qed (auto simp: retry_unfold allocateFrom_def)
  then show "l' = setEpoch l (e + 1)" "e \<noteq> max_int64" "validateLease l' uid = Inr (e + 1)" "b \<le> e"
    "k (LeaseR (Inr l2)) = Ret (Inr (e + 1))" by blast+
qed

lemma at_alloc_done: "at_alloc ns uid l U e b (Ret (Inr x)) \<Longrightarrow> b < x \<and> x \<le> e"
  by (erule at_alloc.cases) (auto simp: retry_unfold allocateFrom_def commit_unfold)

lemma not_done_read: "at_alloc ns uid l U e b (Req (GetLease ns' n') k) \<Longrightarrow> k (LeaseR (Inr l2)) \<noteq> Ret (Inr x)"
  by (erule at_alloc.cases)
    (auto simp: retry_unfold allocateFrom_def commit_unfold retryK_def split: sum.splits if_splits)

lemma not_done_fail: "at_alloc ns uid l U e b (Req q k) \<Longrightarrow> k (LeaseR (Inl y)) \<noteq> Ret (Inr x)"
  by (erule at_alloc.cases)
    (auto simp: retry_unfold allocateFrom_def commit_unfold retryK_def split: sum.splits if_splits)

lemma alloc_invI:
  assumes "rv_of l \<in> U" "validateLease l uid = Inr e" "\<And>i. b i \<le> e" "\<And>i. at_alloc ns uid l U e (b i) (P i)"
    and "\<And>i j x. P i = Ret (Inr x) \<Longrightarrow> P j = Ret (Inr x) \<Longrightarrow> i = j"
  shows "alloc_inv ns uid b (l, U, P)"
  using assms unfolding alloc_inv_def by auto

lemma alloc_inv_step:
  assumes "alloc_step uid cfg cfg'" "alloc_inv ns uid b cfg"
  shows "alloc_inv ns uid b cfg'"
  using assms
proof (induction rule: alloc_step.induct)
  case (read_lease P i ns' n k l U)
  then obtain e where I: "rv_of l \<in> U" "validateLease l uid = Inr e" "\<And>i. b i \<le> e"
    "\<And>i. at_alloc ns uid l U e (b i) (P i)" "\<And>i j x. P i = Ret (Inr x) \<Longrightarrow> P j = Ret (Inr x) \<Longrightarrow> i = j"
    unfolding alloc_inv_def by auto
  have ai: "at_alloc ns uid l U e (b i) (Req (GetLease ns' n) k)" using I(4) [of i] read_lease by simp
  show ?case
    by (rule alloc_invI [OF I(1,2,3)]) (use at_alloc_read [OF ai I(2,3,1)] not_done_read [OF ai] I(4,5) in \<open>auto split: if_splits\<close>)
next
  case (fail_call P i q k l U x)
  then obtain e where I: "rv_of l \<in> U" "validateLease l uid = Inr e" "\<And>i. b i \<le> e"
    "\<And>i. at_alloc ns uid l U e (b i) (P i)" "\<And>i j x. P i = Ret (Inr x) \<Longrightarrow> P j = Ret (Inr x) \<Longrightarrow> i = j"
    unfolding alloc_inv_def by auto
  have ai: "at_alloc ns uid l U e (b i) (Req q k)" using I(4) [of i] fail_call by simp
  show ?case
    by (rule alloc_invI [OF I(1,2,3)]) (use at_alloc_fail [OF ai] not_done_fail [OF ai] I(4,5) in \<open>auto split: if_splits\<close>)
next
  case (write_lease P i ns' l' k l v U)
  then obtain e where I: "rv_of l \<in> U" "validateLease l uid = Inr e" "\<And>i. b i \<le> e"
    "\<And>i. at_alloc ns uid l U e (b i) (P i)" "\<And>i j x. P i = Ret (Inr x) \<Longrightarrow> P j = Ret (Inr x) \<Longrightarrow> i = j"
    unfolding alloc_inv_def by auto
  have ai: "at_alloc ns uid l U e (b i) (Req (UpdateLease ns' l') k)" using I(4) [of i] write_lease by simp
  note w = at_alloc_write [OF ai I(2) write_lease(2)]
  have m: "at_alloc ns uid (withVersion l' v) (insert v U) (e + 1) (b j) (P j)" for j
    by (rule at_alloc_mono [OF I(4)]) (use write_lease in auto)
  have small: "P j = Ret (Inr x) \<Longrightarrow> x \<le> e" for j x
    using I(4) [of j] at_alloc_done by metis
  show ?case
  proof (rule alloc_invI [where e = "e + 1"])
    show "b j \<le> e + 1" for j using I(3) [of j] by simp
    show "at_alloc ns uid (withVersion l' v) (insert v U) (e + 1) (b j) ((P(i := k (LeaseR (Inr (withVersion l' v))))) j)" for j
      using m [of j] w I(3) [of i] by (auto intro: at_alloc.at_done)
    have big: "P j \<noteq> Ret (Inr (e + 1))" for j using small [of j "e + 1"] by auto
    show "ia = j" if "(P(i := k (LeaseR (Inr (withVersion l' v))))) ia = Ret (Inr x)"
      "(P(i := k (LeaseR (Inr (withVersion l' v))))) j = Ret (Inr x)" for ia j x
      using that I(5) [of ia x j] big [of ia] big [of j] unfolding fun_upd_apply w(5)
      by (cases "ia = i"; cases "j = i") simp_all
  qed (use w in simp_all)
next
  case (write_lost P i ns' l' k l v U x)
  then obtain e where I: "rv_of l \<in> U" "validateLease l uid = Inr e" "\<And>i. b i \<le> e"
    "\<And>i. at_alloc ns uid l U e (b i) (P i)" "\<And>i j x. P i = Ret (Inr x) \<Longrightarrow> P j = Ret (Inr x) \<Longrightarrow> i = j"
    unfolding alloc_inv_def by auto
  have ai: "at_alloc ns uid l U e (b i) (Req (UpdateLease ns' l') k)" using I(4) [of i] write_lost by simp
  note w = at_alloc_write [OF ai I(2) write_lost(2)]
  have m: "at_alloc ns uid (withVersion l' v) (insert v U) (e + 1) (b j) p" if "at_alloc ns uid l U e (b j) p" for j p
    by (rule at_alloc_mono [OF that]) (use write_lost in auto)
  show ?case
  proof (rule alloc_invI [where e = "e + 1"])
    show "b j \<le> e + 1" for j using I(3) [of j] by simp
    show "at_alloc ns uid (withVersion l' v) (insert v U) (e + 1) (b j) ((P(i := k (LeaseR (Inl x)))) j)" for j
      using m [OF I(4)] m [OF at_alloc_fail [OF ai]] by simp
    show "\<And>ia j xa. (P(i := k (LeaseR (Inl x)))) ia = Ret (Inr xa) \<Longrightarrow> (P(i := k (LeaseR (Inl x)))) j = Ret (Inr xa) \<Longrightarrow> ia = j"
      using I(5) not_done_fail [OF ai] by (fastforce split: if_splits)
  qed (use w in simp_all)
next
  case (other_write l' v U l P)
  then obtain e where I: "rv_of l \<in> U" "validateLease l uid = Inr e" "\<And>i. b i \<le> e"
    "\<And>i. at_alloc ns uid l U e (b i) (P i)" "\<And>i j x. P i = Ret (Inr x) \<Longrightarrow> P j = Ret (Inr x) \<Longrightarrow> i = j"
    unfolding alloc_inv_def by auto
  have "at_alloc ns uid l' (insert v U) e (b j) (P j)" for j
    by (rule at_alloc_mono [OF I(4)]) (use other_write in auto)
  with I other_write show ?case by (intro alloc_invI) auto
qed

lemma alloc_inv_steps:
  "(alloc_step uid)\<^sup>*\<^sup>* cfg cfg' \<Longrightarrow> alloc_inv ns uid b cfg \<Longrightarrow> alloc_inv ns uid b cfg'"
  by (induction rule: rtranclp_induct) (auto intro: alloc_inv_step)

lemma alloc_inv_init:
  assumes "validateLease l uid = Inr e" "uid \<noteq> []"
  shows "alloc_inv ns uid (\<lambda>_. e) (l, {rv_of l}, \<lambda>i. Allocate (R i) ns uid)"
proof -
  have p: "Allocate (R i) ns uid = retryOnConflict (R i) (allocateOnce ns uid)" for i
    using assms(2) by (simp add: Allocate_def)
  show ?thesis
    unfolding p by (rule alloc_invI [OF _ assms(1)]) (auto intro: at_alloc.at_start simp: retry_not_Ret)
qed

text \<open>An allocator that is not disturbed between its read and its write succeeds.\<close>

lemma alloc_undisturbed:
  assumes "P i = Allocate n ns uid" "uid \<noteq> []" "validateLease l uid = Inr e" "e \<noteq> max_int64" "v \<notin> U"
  shows "(alloc_step uid)\<^sup>*\<^sup>* (l, U, P)
    (withVersion (setEpoch l (e + 1)) v, insert v U, P(i := Ret (Inr (e + 1))))"
proof -
  let ?f = "allocateOnce ns uid"
  let ?Q = "P(i := bindP (commitEpoch ns l e) (retryK n ?f))"
  have w: "wrap64 (e + 1) = e + 1" using wrap_next validateLease_range [OF assms(3)] assms(4) by simp
  have P: "P i = Req (GetLease ns LeaseName) (\<lambda>r. bindP (allocateFrom ns uid (rLease r)) (retryK n ?f))"
    using assms(1,2) by (simp add: Allocate_def retry_unfold)
  have "alloc_step uid (l, U, P) (l, U, ?Q)"
    using read_lease [of P i, OF P, of uid l U] assms(3,4) by (simp add: allocateFrom_def)
  moreover have "?Q i = Req (UpdateLease ns (setEpoch l (e + 1)))
     (\<lambda>r. retryK n ?f (case rLease r of Inl x \<Rightarrow> Inl x | Inr l \<Rightarrow> Inr (e + 1)))"
    unfolding fun_upd_same commit_unfold w ..
  then have "alloc_step uid (l, U, ?Q) (withVersion (setEpoch l (e + 1)) v, insert v U,
      ?Q(i := retryK n ?f (Inr (e + 1))))"
    using write_lease [of ?Q i ns "setEpoch l (e + 1)" _ l v U uid] assms(5) by simp
  ultimately show ?thesis by (simp add: retryK_def)
qed

subsection \<open>Properties\<close>

definition exlease :: Lease where
  "exlease = \<lparr>le_Meta = (exmeta ''host-a'' LeaseName ''l-1'')\<lparr>om_Labels := [(ManagedByLabel, ManagedByValue)],
     om_Annotations := [(HostUIDAnnotation, ''h-1''), (EpochAnnotation, ''41'')]\<rparr>\<rparr>"

lemma exlease_valid: "validateLease exlease ''h-1'' = Inr 41"
  by code_simp

lemma exlease_version: "rv_of exlease = ''1''"
  by code_simp

text \<open>
  C5. Epochs are never given out twice: whatever the interleaving of any number of allocators,
  of failing calls, of writes whose success is not reported and of unrelated writes to the
  Lease, two allocators that have returned an epoch have returned different epochs, each above
  the epoch the Lease had at the start and at most the one it has now.
\<close>

theorem Allocate_unique:
  assumes "validateLease l uid = Inr e0" "uid \<noteq> []"
    and "(alloc_step uid)\<^sup>*\<^sup>* (l, {rv_of l}, \<lambda>i. Allocate (R i) ns uid) (l', U', P)"
  shows "(\<forall>i x. P i = Ret (Inr x) \<longrightarrow> e0 < x \<and> (\<exists>e. validateLease l' uid = Inr e \<and> x \<le> e))
    \<and> (\<forall>i j x. P i = Ret (Inr x) \<longrightarrow> P j = Ret (Inr x) \<longrightarrow> i = j)"
proof -
  have "alloc_inv ns uid (\<lambda>_. e0) (l', U', P)"
    by (rule alloc_inv_steps [OF assms(3) alloc_inv_init [OF assms(1,2)]])
  then obtain e where I: "validateLease l' uid = Inr e" "\<And>i. at_alloc ns uid l' U' e e0 (P i)"
    "\<And>i j x. P i = Ret (Inr x) \<Longrightarrow> P j = Ret (Inr x) \<Longrightarrow> i = j"
    unfolding alloc_inv_def by auto
  have "e0 < x \<and> x \<le> e" if "P i = Ret (Inr x)" for i x
    using I(2) [of i] at_alloc_done that by metis
  with I show ?thesis by blast
qed

theorem Allocate_unique_witness:
  "\<exists>l' U' P. (alloc_step ''h-1'')\<^sup>*\<^sup>* (exlease, {rv_of exlease}, \<lambda>i. (Allocate 3 ''host-a'' ''h-1'' :: (unit, int64 res) kube)) (l', U', P)
     \<and> P 0 = Ret (Inr 42) \<and> P 1 \<noteq> Ret (Inr 42)"
proof -
  let ?P = "\<lambda>i :: nat. (Allocate 3 ''host-a'' ''h-1'' :: (unit, int64 res) kube)"
  let ?l = "withVersion (setEpoch exlease 42) ''2''"
  have steps: "(alloc_step ''h-1'')\<^sup>*\<^sup>* (exlease, {rv_of exlease}, ?P) (?l, insert ''2'' {rv_of exlease}, ?P(0 := Ret (Inr 42)))"
    using alloc_undisturbed [of ?P 0 3 "''host-a''" "''h-1''" exlease 41 "''2''" "{rv_of exlease}"]
    by (simp add: exlease_valid exlease_version max_int64_def)
  have "(?P(0 := Ret (Inr 42))) 1 \<noteq> Ret (Inr 42)"
    using Allocate_unique [OF exlease_valid _ steps] by (metis fun_upd_same list.simps(3) zero_neq_one)
  with steps show ?thesis by (metis fun_upd_same)
qed

text \<open>
  C6. Epochs respect real time: if one allocator has returned \<open>x\<close> before another has made
  its first call, the other one returns a larger epoch. So a host that is assigned again gets
  a larger epoch than every assignment made before.
\<close>

theorem Allocate_increasing:
  assumes "validateLease l uid = Inr e0" "uid \<noteq> []"
    and "(alloc_step uid)\<^sup>*\<^sup>* (l, {rv_of l}, \<lambda>i. Allocate (R i) ns uid) (l1, U1, P1)"
    and "P1 i = Ret (Inr x)" "P1 j = Allocate (R j) ns uid"
    and "(alloc_step uid)\<^sup>*\<^sup>* (l1, U1, P1) (l2, U2, P2)" "P2 j = Ret (Inr y)"
  shows "x < y"
proof -
  have "alloc_inv ns uid (\<lambda>_. e0) (l1, U1, P1)"
    by (rule alloc_inv_steps [OF assms(3) alloc_inv_init [OF assms(1,2)]])
  then obtain e where I: "rv_of l1 \<in> U1" "validateLease l1 uid = Inr e" "\<And>i. e0 \<le> e \<and> at_alloc ns uid l1 U1 e e0 (P1 i)"
    "\<And>i j x. P1 i = Ret (Inr x) \<Longrightarrow> P1 j = Ret (Inr x) \<Longrightarrow> i = j"
    unfolding alloc_inv_def by auto
  have "x \<le> e" using I(3) [of i] assms(4) at_alloc_done by metis
  have "at_alloc ns uid l1 U1 e e (P1 j)"
    unfolding assms(5) Allocate_def using assms(2) by (simp add: at_alloc.at_start)
  then have "alloc_inv ns uid ((\<lambda>_. e0)(j := e)) (l1, U1, P1)"
    by (intro alloc_invI [OF I(1,2)]) (use I(3,4) in auto)
  then have "alloc_inv ns uid ((\<lambda>_. e0)(j := e)) (l2, U2, P2)"
    by (rule alloc_inv_steps [OF assms(6)])
  then obtain e' where "at_alloc ns uid l2 U2 e' e (P2 j)"
    unfolding alloc_inv_def by (auto dest: spec [of _ j])
  then have "e < y" using at_alloc_done unfolding assms(7) by blast
  with \<open>x \<le> e\<close> show ?thesis by simp
qed

theorem Allocate_increasing_witness:
  "\<exists>l1 U1 P1 l2 U2 P2.
     (alloc_step ''h-1'')\<^sup>*\<^sup>* (exlease, {rv_of exlease}, \<lambda>i. (Allocate 3 ''host-a'' ''h-1'' :: (unit, int64 res) kube)) (l1, U1, P1)
   \<and> P1 0 = Ret (Inr 42) \<and> (alloc_step ''h-1'')\<^sup>*\<^sup>* (l1, U1, P1) (l2, U2, P2) \<and> P2 1 = Ret (Inr 43) \<and> (42 :: int64) < 43"
proof -
  let ?P = "\<lambda>i :: nat. (Allocate 3 ''host-a'' ''h-1'' :: (unit, int64 res) kube)"
  let ?l = "withVersion (setEpoch exlease 42) ''2''" and ?Q = "?P(0 := Ret (Inr 42))"
  let ?U = "insert ''2'' {rv_of exlease}"
  have steps: "(alloc_step ''h-1'')\<^sup>*\<^sup>* (exlease, {rv_of exlease}, ?P) (?l, ?U, ?Q)"
    using alloc_undisturbed [of ?P 0 3 "''host-a''" "''h-1''" exlease 41 "''2''" "{rv_of exlease}"]
    by (simp add: exlease_valid exlease_version max_int64_def)
  have v: "validateLease ?l ''h-1'' = Inr 42"
    using setEpoch_validate [OF exlease_valid, of 42] by (simp add: in_int64_def min_int64_def max_int64_def)
  have steps2: "(alloc_step ''h-1'')\<^sup>*\<^sup>* (?l, ?U, ?Q)
      (withVersion (setEpoch ?l 43) ''3'', insert ''3'' ?U, ?Q(1 := Ret (Inr 43)))"
    using alloc_undisturbed [of ?Q 1 3 "''host-a''" "''h-1''" ?l 42 "''3''" ?U] v
    by (simp add: exlease_version max_int64_def)
  have "(42 :: int64) < 43"
    by (rule Allocate_increasing [OF exlease_valid _ steps _ _ steps2, where i = 0 and j = 1]) simp_all
  with steps steps2 show ?thesis by (metis fun_upd_same)
qed

text \<open>An API server that holds one Lease and serves one client.\<close>

definition lease_server :: "(string \<Rightarrow> string) \<Rightarrow> Lease \<Rightarrow> 'u request \<Rightarrow> 'u response \<times> Lease" where
  "lease_server bump l q = (case q of
     GetLease ns n \<Rightarrow> (LeaseR (Inr l), l)
   | UpdateLease ns l' \<Rightarrow>
       if rv_of l' = rv_of l
       then (let s = withVersion l' (bump (rv_of l)) in (LeaseR (Inr s), s))
       else (LeaseR (Inl (StatusError Conflict)), l)
   | _ \<Rightarrow> (LeaseR (Inl (StatusError NotFound)), l))"

text \<open>
  Without contention \<open>Allocate\<close> returns the successor of the stored epoch and stores it,
  changing nothing else of the Lease; at \<open>math.MaxInt64\<close>, where the successor would wrap
  around to a negative number, it fails and leaves the Lease as it is.
\<close>

theorem Allocate_sequential:
  assumes "validateLease l uid = Inr e" "uid \<noteq> []"
  shows "exec (lease_server bump) (Allocate n ns uid) l =
    (if e = max_int64 then (Inl (ErrorString ''fencing epoch is exhausted''), l)
     else (Inr (e + 1), withVersion (setEpoch l (e + 1)) (bump (rv_of l))))"
proof -
  have w: "wrap64 (e + 1) = e + 1" if "e \<noteq> max_int64"
    using wrap_next validateLease_range [OF assms(1)] that by simp
  show ?thesis
    using assms w unfolding Allocate_def retry_unfold
    by (simp add: allocateFrom_def commit_unfold lease_server_def retryK_def Let_def)
qed

theorem Allocate_sequential_witness:
  "fst (exec (lease_server (\<lambda>v. v @ ''0'')) (Allocate 3 ''host-a'' ''h-1'' :: (unit, int64 res) kube) exlease) = Inr 42"
  by (subst Allocate_sequential [OF exlease_valid]) (simp_all add: max_int64_def)

end
