(* ===== verification/Controller.thy ===== *)
theory Controller
  imports Model_Status Fencing
begin

section \<open>The workload reconciler\<close>

text \<open>
  \<open>internal/native/controller/reconciler.go\<close>: from a workload to a scheduling intent, from the
  intent to the assignment in the host's mailbox, from the assignment's status back to the
  workload, and the finalizer protocol of deletion. Every handler is a program over API
  requests; the cache of one pass (\<open>reconcileCycle\<close>) is passed along and returned.
\<close>

record reconcileCycle =
  cy_models :: "IdleloomModel gomap"
  cy_hosts :: "IdleloomHost list"
  cy_hostsLoaded :: bool

definition remove :: "string list \<Rightarrow> string \<Rightarrow> string list" where
  "remove values v = filter (\<lambda>item. item \<noteq> v) values"

subsection \<open>Planner calls\<close>

definition selectHostNow :: "'u Reconciler \<Rightarrow> IdleloomWorkload \<Rightarrow> IdleloomModel option \<Rightarrow> IdleloomHost list \<Rightarrow> ('u, IdleloomHost res) kube" where
  "selectHostNow R workload model hosts =
     bindP kNow (\<lambda>now. Ret (SelectHost (rc_lib R) (rc_Planner R) now workload model hosts))"

definition planAssignmentNow :: "'u Reconciler \<Rightarrow> Planner \<Rightarrow> IdleloomWorkload \<Rightarrow> IdleloomModel option \<Rightarrow> IdleloomHost \<Rightarrow> int64
    \<Rightarrow> ('u, IdleloomWorkloadAssignment res) kube" where
  \<comment> \<open>\<open>PlanAssignment\<close> with the clock and, unless the planner has its own, the random source\<close>
  "planAssignmentNow R planner workload model host epoch =
     bindP kNow (\<lambda>now.
       bindP (if pl_NewExecutionID planner = None then kRandRead 16 else Ret (Inr [])) (\<lambda>rand.
         Ret (PlanAssignment (rc_lib R) planner now rand workload model host epoch)))"

subsection \<open>Status of a waiting workload\<close>

definition markWorkloadWaiting :: "'u Reconciler \<Rightarrow> IdleloomWorkload \<Rightarrow> string \<Rightarrow> string \<Rightarrow> ('u, unit res) kube" where
  "markWorkloadWaiting R workload reason message =
     bindP kNow (\<lambda>now.
       let copy = withReady R workload (readyCondition ConditionFalse (wl_Generation workload) now reason message)
       in updateWorkload R (copy\<lparr>wl_Status := (wl_Status copy)\<lparr>wst_Phase := PhaseScheduling\<rparr>\<rparr>) True)"

definition specRejection :: "go_error \<Rightarrow> (string \<times> go_error) option" where
  \<comment> \<open>\<open>errors.As\<close> to a \<open>*SpecValidationError\<close>\<close>
  "specRejection = errorsAs (\<lambda>e. case e of SpecValidationError reason err \<Rightarrow> Some (reason, err) | _ \<Rightarrow> None)"

definition noEligibleHosts :: "go_error \<Rightarrow> string list option" where
  "noEligibleHosts = errorsAs (\<lambda>e. case e of NoEligibleHostsError reasons \<Rightarrow> Some reasons | _ \<Rightarrow> None)"

definition surfaceSpecRejection :: "'u Reconciler \<Rightarrow> IdleloomWorkload \<Rightarrow> go_error \<Rightarrow> ('u, bool \<times> unit res) kube" where
  "surfaceSpecRejection R workload err =
     (case specRejection err of
        None \<Rightarrow> Ret (False, Inr ())
      | Some (reason, invalid) \<Rightarrow>
         bindP (markWorkloadWaiting R workload reason (take 2048 (Error (rc_lib R) invalid))) (\<lambda>r. Ret (True, r)))"

definition rejectOrReturn :: "'u Reconciler \<Rightarrow> IdleloomWorkload \<Rightarrow> go_error \<Rightarrow> ('u, unit res) kube" where
  \<comment> \<open>the idiom around \<open>surfaceSpecRejection\<close> at its three call sites\<close>
  "rejectOrReturn R workload err =
     bindP (surfaceSpecRejection R workload err) (\<lambda>(handled, waitErr).
       if handled \<or> waitErr \<noteq> Inr () then Ret waitErr else Ret (Inl err))"

subsection \<open>The cache of one pass\<close>

definition getModel :: "'u Reconciler \<Rightarrow> string \<Rightarrow> ('u, IdleloomModel res) kube" where
  "getModel R name =
     bindE (wrapE (''get model '' @ name @ '': '') (kGet ModelsGVR [] name)) (\<lambda>object.
       liftE (FromUnstructured (rc_conv R) (toModel (rc_conv R)) object))"

fun decodeHosts :: "'u Reconciler \<Rightarrow> 'u list \<Rightarrow> IdleloomHost list res" where
  "decodeHosts R [] = Inr []"
| "decodeHosts R (item # items) =
     bind_res (FromUnstructured (rc_conv R) (toHost (rc_conv R)) item) (\<lambda>host.
       bind_res (decodeHosts R items) (\<lambda>hosts. Inr (host # hosts)))"

definition listHosts :: "'u Reconciler \<Rightarrow> ('u, IdleloomHost list res) kube" where
  "listHosts R = bindE (wrapE ''list hosts: '' (kList HostsGVR [])) (\<lambda>items. liftE (decodeHosts R items))"

definition cycleModel :: "'u Reconciler \<Rightarrow> reconcileCycle \<Rightarrow> string \<Rightarrow> ('u, (IdleloomModel \<times> reconcileCycle) res) kube" where
  "cycleModel R cycle name =
     (case map_of (cy_models cycle) name of
        Some model \<Rightarrow> Ret (Inr (model, cycle))
      | None \<Rightarrow> bindE (getModel R name) (\<lambda>model.
          Ret (Inr (model, cycle\<lparr>cy_models := gomap_set (cy_models cycle) name model\<rparr>))))"

definition hostList :: "'u Reconciler \<Rightarrow> reconcileCycle \<Rightarrow> ('u, (IdleloomHost list \<times> reconcileCycle) res) kube" where
  "hostList R cycle =
     (if cy_hostsLoaded cycle then Ret (Inr (cy_hosts cycle, cycle))
      else bindE (listHosts R) (\<lambda>hosts.
        Ret (Inr (hosts, cycle\<lparr>cy_hosts := hosts, cy_hostsLoaded := True\<rparr>))))"

abbreviation "reservedUID \<equiv> ''reserved-in-reconcile-cycle''"

fun reserveIn :: "IdleloomHost list \<Rightarrow> UID \<Rightarrow> IdleloomHost list" where
  "reserveIn [] uid = []"
| "reserveIn (h # hs) uid =
     (if ho_UID h = uid then h\<lparr>ho_Status := (ho_Status h)\<lparr>hst_ActiveAssignmentUID := reservedUID\<rparr>\<rparr> # hs
      else h # reserveIn hs uid)"

definition reserveHost :: "reconcileCycle \<Rightarrow> UID \<Rightarrow> reconcileCycle" where
  "reserveHost cycle uid = cycle\<lparr>cy_hosts := reserveIn (cy_hosts cycle) uid\<rparr>"

subsection \<open>Scheduling\<close>

definition withIntent :: "IdleloomWorkload \<Rightarrow> IdleloomModel option \<Rightarrow> IdleloomHost \<Rightarrow> IdleloomWorkloadAssignment \<Rightarrow> IdleloomWorkload" where
  \<comment> \<open>the status that \<open>persistSchedulingIntent\<close> writes\<close>
  "withIntent workload model host planned =
     workload\<lparr>wl_Status := (wl_Status workload)\<lparr>wst_ObservedGeneration := wl_Generation workload,
       wst_Phase := PhaseScheduling,
       wst_SchedulingIntent := Some \<lparr>wsi_WorkloadGeneration = wl_Generation workload,
         wsi_HostRef = \<lparr>nor_Namespace = ho_Namespace host, nor_Name = ho_Name host, nor_UID = ho_UID host\<rparr>,
         wsi_ModelRef = map_option (\<lambda>m. \<lparr>or_Name = md_Name m, or_UID = md_UID m\<rparr>) model,
         wsi_ExecutionID = as_ExecutionID (wa_Spec planned),
         wsi_FencingEpoch = as_FencingEpoch (wa_Spec planned)\<rparr>\<rparr>\<rparr>"

definition persistSchedulingIntent :: "'u Reconciler \<Rightarrow> IdleloomWorkload \<Rightarrow> IdleloomModel option \<Rightarrow> IdleloomHost list
    \<Rightarrow> reconcileCycle \<Rightarrow> ('u, unit res \<times> reconcileCycle) kube" where
  "persistSchedulingIntent R workload model hosts cycle =
     bindP (selectHostNow R workload model hosts) (\<lambda>selected.
       case selected of
         Inl err \<Rightarrow>
           (case noEligibleHosts err of
              Some reasons \<Rightarrow>
                bindP (markWorkloadWaiting R workload ''Queued'' (NoEligibleHosts_Error reasons)) (\<lambda>r. Ret (r, cycle))
            | None \<Rightarrow> bindP (rejectOrReturn R workload err) (\<lambda>r. Ret (r, cycle)))
       | Inr host \<Rightarrow>
           bindP (Allocate (rc_retries R) (ho_Namespace host) (ho_UID host)) (\<lambda>allocated.
             case allocated of
               Inl e \<Rightarrow> Ret (Inl (WrapError ''allocate fencing epoch: '' e []), cycle)
             | Inr epoch \<Rightarrow>
                 bindP (planAssignmentNow R (rc_Planner R) workload model host epoch) (\<lambda>result.
                   case result of
                     Inl err \<Rightarrow> bindP (rejectOrReturn R workload err) (\<lambda>r. Ret (r, cycle))
                   | Inr planned \<Rightarrow>
                       bindP (updateWorkload R (withIntent workload model host planned) True) (\<lambda>r.
                         case r of
                           Inl e \<Rightarrow> Ret (Inl e, cycle)
                         | Inr _ \<Rightarrow> Ret (Inr (), reserveHost cycle (ho_UID host))))))"

definition intentMatchesModel :: "WorkloadSchedulingIntent \<Rightarrow> IdleloomModel option \<Rightarrow> bool" where
  "intentMatchesModel intent model =
     (case model of
        None \<Rightarrow> wsi_ModelRef intent = None
      | Some m \<Rightarrow>
         (case wsi_ModelRef intent of
            None \<Rightarrow> False
          | Some ref \<Rightarrow> or_Name ref = md_Name m \<and> or_UID ref = md_UID m))"

definition validateAssignmentIdentity :: "IdleloomWorkloadAssignment \<Rightarrow> IdleloomWorkload \<Rightarrow> WorkloadSchedulingIntent \<Rightarrow> unit res" where
  "validateAssignmentIdentity assignment workload intent =
     (let s = wa_Spec assignment in
      if wor_UID (as_WorkloadRef s) \<noteq> wl_UID workload \<or> wor_Generation (as_WorkloadRef s) \<noteq> wl_Generation workload
         \<or> as_ExecutionID s \<noteq> wsi_ExecutionID intent \<or> as_FencingEpoch s \<noteq> wsi_FencingEpoch intent
         \<or> or_UID (as_HostRef s) \<noteq> nor_UID (wsi_HostRef intent)
      then Inl (ErrorString ''existing assignment does not match the persisted scheduling intent'')
      else Inr ())"

definition persistAssignmentReference :: "'u Reconciler \<Rightarrow> IdleloomWorkload \<Rightarrow> IdleloomWorkloadAssignment \<Rightarrow> ('u, unit res) kube" where
  "persistAssignmentReference R workload assignment =
     updateWorkload R (workload\<lparr>wl_Status := (wl_Status workload)\<lparr>wst_Phase := PhaseAssigned,
       wst_AssignmentRef := Some \<lparr>nor_Namespace = wa_Namespace assignment, nor_Name = wa_Name assignment, nor_UID = wa_UID assignment\<rparr>\<rparr>\<rparr>) True"

subsection \<open>Completed mailboxes\<close>

definition terminalAssignment :: "IdleloomWorkloadAssignment \<Rightarrow> bool" where
  "terminalAssignment assignment =
     (let s = wa_Spec assignment; st = wa_Status assignment in
      if as_DesiredState s \<noteq> AssignmentDesiredRunning then False
      else if ast_Phase st \<noteq> PhaseSucceeded \<and> ast_Phase st \<noteq> PhaseFailed then False
      else if ast_ObservedGeneration st \<noteq> wa_Generation assignment \<or> ast_ExecutionID st \<noteq> as_ExecutionID s
         \<or> ast_FencingEpoch st \<noteq> as_FencingEpoch s \<or> ast_AgentID st = [] then False
      else as_Shell s \<noteq> None \<or> as_Training s \<noteq> None
         \<or> (case as_Model s of None \<Rightarrow> False | Some m \<Rightarrow> rm_Batch m \<noteq> None))"

definition terminalFiniteWorkload :: "IdleloomWorkload \<Rightarrow> bool" where
  "terminalFiniteWorkload workload =
     (if ws_Mode (wl_Spec workload) = WorkloadModeServer then False
      else wst_Phase (wl_Status workload) = PhaseSucceeded \<or> wst_Phase (wl_Status workload) = PhaseFailed)"

definition archiveOwner :: "'u Reconciler \<Rightarrow> IdleloomWorkload \<Rightarrow> IdleloomWorkloadAssignment \<Rightarrow> Time \<Rightarrow> IdleloomWorkload" where
  \<comment> \<open>the status that \<open>reclaimTerminalMailbox\<close> writes to the owner\<close>
  "archiveOwner R owner assignment now =
     (let (reason, message) = (if ast_Phase (wa_Status assignment) = PhaseFailed
            then (''AssignmentFailed'', ''the native run failed; inspect its logs and status'')
            else (''AssignmentSucceeded'', ''the native run completed successfully''));
          copy = withReady R owner (readyCondition ConditionFalse (wl_Generation owner) now reason message)
      in copy\<lparr>wl_Status := (wl_Status copy)\<lparr>wst_Phase := ast_Phase (wa_Status assignment),
           wst_ResolvedArtifactDigest := ast_ResolvedArtifactDigest (wa_Status assignment),
           wst_Run := ast_Run (wa_Status assignment),
           wst_SchedulingIntent := None, wst_AssignmentRef := None\<rparr>\<rparr>)"

definition deleteMailbox :: "IdleloomWorkloadAssignment \<Rightarrow> string \<Rightarrow> ('u, unit res) kube" where
  \<comment> \<open>\<open>Delete\<close> with a UID precondition, where a missing object is not an error\<close>
  "deleteMailbox assignment namespace =
     bindP (kDelete AssignmentsGVR namespace (wa_Name assignment) (wa_UID assignment)) (\<lambda>r.
       case r of Inl e \<Rightarrow> if IsNotFound e then Ret (Inr ()) else Ret (Inl e) | Inr _ \<Rightarrow> Ret (Inr ()))"

definition reclaimTerminalMailbox :: "'u Reconciler \<Rightarrow> IdleloomWorkloadAssignment \<Rightarrow> ('u, bool res) kube" where
  "reclaimTerminalMailbox R assignment =
     (if \<not> terminalAssignment assignment then Ret (Inr False)
      else
        let ref = as_WorkloadRef (wa_Spec assignment);
            reclaim = bindE (wrapE ''reclaim completed assignment mailbox: '' (deleteMailbox assignment (wa_Namespace assignment)))
              (\<lambda>_. Ret (Inr True))
        in bindP (kGet WorkloadsGVR (wor_Namespace ref) (wor_Name ref)) (\<lambda>got.
             case got of
               Inl e \<Rightarrow> if IsNotFound e then reclaim
                 else Ret (Inl (WrapError ''get completed mailbox owner: '' e []))
             | Inr ownerObject \<Rightarrow>
                bindE (liftE (FromUnstructured (rc_conv R) (toWorkload (rc_conv R)) ownerObject)) (\<lambda>owner.
                  if wl_UID owner \<noteq> wor_UID ref then reclaim
                  else if om_DeletionTimestamp (wl_Meta owner) \<noteq> None then Ret (Inr False)
                  else if wl_Generation owner \<noteq> wor_Generation ref
                  then Ret (Inl (ErrorString ''terminal assignment refers to an unexpected workload generation''))
                  else bindP kNow (\<lambda>now.
                    bindE (wrapE ''archive completed workload before reclaiming host mailbox: ''
                      (updateWorkload R (archiveOwner R owner assignment now) True)) (\<lambda>_. reclaim)))))"

subsection \<open>From the intent to the assignment\<close>

definition adoptMailbox :: "'u Reconciler \<Rightarrow> IdleloomWorkload \<Rightarrow> WorkloadSchedulingIntent \<Rightarrow> IdleloomWorkloadAssignment \<Rightarrow> ('u, unit res) kube" where
  \<comment> \<open>the branch of \<open>createAssignmentFromIntent\<close> where the mailbox is occupied\<close>
  "adoptMailbox R workload intent assignment =
     (case validateAssignmentIdentity assignment workload intent of
        Inr _ \<Rightarrow> persistAssignmentReference R workload assignment
      | Inl err \<Rightarrow>
         (let ref = as_WorkloadRef (wa_Spec assignment) in
          if wor_UID ref = wl_UID workload then Ret (Inl err)
          else bindE (reclaimTerminalMailbox R assignment) (\<lambda>reclaimed.
            if reclaimed
            then markWorkloadWaiting R workload ''MailboxReclaimed''
                   ''the previous completed run was archived; assignment will start on the next reconciliation''
            else markWorkloadWaiting R workload ''HostBusy''
                   (''host mailbox is still owned by workload '' @ wor_Namespace ref @ ''/'' @ wor_Name ref))))"

definition createMailbox :: "'u Reconciler \<Rightarrow> IdleloomWorkload \<Rightarrow> IdleloomModel option \<Rightarrow> WorkloadSchedulingIntent \<Rightarrow> IdleloomHost \<Rightarrow> ('u, unit res) kube" where
  \<comment> \<open>the part of \<open>createAssignmentFromIntent\<close> from the planning on\<close>
  "createMailbox R workload model intent host =
     bindP (planAssignmentNow R ((rc_Planner R)\<lparr>pl_NewExecutionID := Some (Inr (wsi_ExecutionID intent))\<rparr>)
         workload model host (wsi_FencingEpoch intent)) (\<lambda>result.
       case result of
         Inl err \<Rightarrow> rejectOrReturn R workload err
       | Inr planned \<Rightarrow>
          bindE (liftE (ToUnstructured (ofAssignment (rc_conv R)) planned)) (\<lambda>object.
            bindE (wrapE ''create assignment: ''
              (bindP (kCreate AssignmentsGVR (nor_Namespace (wsi_HostRef intent)) object) (\<lambda>created.
                 case created of
                   Inl e \<Rightarrow> if IsAlreadyExists e
                     then kGet AssignmentsGVR (nor_Namespace (wsi_HostRef intent)) AssignmentMailboxName
                     else Ret (Inl e)
                 | Inr u \<Rightarrow> Ret (Inr u)))) (\<lambda>created.
              bindE (liftE (FromUnstructured (rc_conv R) (toAssignment (rc_conv R)) created)) (\<lambda>assignment.
                bindE (liftE (validateAssignmentIdentity assignment workload intent)) (\<lambda>_.
                  persistAssignmentReference R workload assignment)))))"

definition createAssignmentFromIntent :: "'u Reconciler \<Rightarrow> IdleloomWorkload \<Rightarrow> IdleloomModel option \<Rightarrow> WorkloadSchedulingIntent \<Rightarrow> ('u, unit res) kube" where
  "createAssignmentFromIntent R workload model intent =
     (if wsi_WorkloadGeneration intent \<noteq> wl_Generation workload \<or> \<not> intentMatchesModel intent model
      then Ret (Inl (ErrorString ''persisted scheduling intent does not match the current workload and model''))
      else
        let ns = nor_Namespace (wsi_HostRef intent)
        in bindP (kGet AssignmentsGVR ns AssignmentMailboxName) (\<lambda>got.
          case got of
            Inr existing \<Rightarrow>
              bindE (liftE (FromUnstructured (rc_conv R) (toAssignment (rc_conv R)) existing)) (adoptMailbox R workload intent)
          | Inl e \<Rightarrow>
              if \<not> IsNotFound e then Ret (Inl (WrapError ''get assignment mailbox: '' e []))
              else bindE (wrapE ''get intended host: '' (kGet HostsGVR ns (nor_Name (wsi_HostRef intent)))) (\<lambda>hostObject.
                bindE (liftE (FromUnstructured (rc_conv R) (toHost (rc_conv R)) hostObject)) (\<lambda>host.
                  if ho_UID host \<noteq> nor_UID (wsi_HostRef intent)
                  then Ret (Inl (ErrorString ''persisted scheduling intent refers to a replaced host''))
                  else createMailbox R workload model intent host))))"

subsection \<open>From the assignment back to the workload\<close>

definition reflectedCondition :: "'u Reconciler \<Rightarrow> IdleloomWorkload \<Rightarrow> string \<Rightarrow> bool \<Rightarrow> Time \<Rightarrow> Condition" where
  \<comment> \<open>the condition that \<open>reflectAssignment\<close> builds\<close>
  "reflectedCondition R workload phase stale now =
     (let c = (\<lambda>status reason message. readyCondition status (wl_Generation workload) now reason message) in
      if stale then c ConditionFalse ''AssignmentHeartbeatStale'' ''the assigned native agent stopped renewing its execution lease''
      else if phase = PhaseRunning then
        (if ws_Server (wl_Spec workload) \<noteq> None then
           (case FindStatusCondition (rc_lib R) (wst_Conditions (wl_Status workload)) WorkloadConditionReady of
              Some existing \<Rightarrow>
                if cond_Status existing = ConditionTrue \<and> cond_Reason existing = ''ServingEndpointReady''
                   \<and> cond_ObservedGeneration existing = wl_Generation workload
                then existing
                else c ConditionFalse ''ServingEndpointPending'' ''the native assignment is running; waiting for its Service endpoint''
            | None \<Rightarrow> c ConditionFalse ''ServingEndpointPending'' ''the native assignment is running; waiting for its Service endpoint'')
         else c ConditionTrue ''AssignmentRunning'' ''the native assignment is running with a fresh heartbeat'')
      else if phase = PhaseSucceeded then c ConditionFalse ''AssignmentSucceeded'' ''the native run completed successfully''
      else if phase = PhaseFailed then c ConditionFalse ''AssignmentFailed'' ''the native run failed; inspect its logs and status''
      else c ConditionFalse ''AssignmentNotReady'' ''the native assignment is not running'')"

definition reflectAssignment :: "'u Reconciler \<Rightarrow> IdleloomWorkload \<Rightarrow> NamespacedObjectReference \<Rightarrow> ('u, unit res) kube" where
  "reflectAssignment R workload ref =
     bindP (kGet AssignmentsGVR (nor_Namespace ref) (nor_Name ref)) (\<lambda>got.
       case got of
         Inl e \<Rightarrow> if IsNotFound e then Ret (Inl (ErrorString ''assigned mailbox disappeared'')) else Ret (Inl e)
       | Inr object \<Rightarrow>
          bindE (liftE (FromUnstructured (rc_conv R) (toAssignment (rc_conv R)) object)) (\<lambda>assignment.
            let wr = as_WorkloadRef (wa_Spec assignment) in
            if wa_UID assignment \<noteq> nor_UID ref \<or> wor_UID wr \<noteq> wl_UID workload \<or> wor_Generation wr \<noteq> wl_Generation workload
            then Ret (Inl (ErrorString ''assignment identity does not match workload''))
            else bindP kNow (\<lambda>now.
              let (phase, stale) = assignmentPhase assignment now in
              bindP kNow (\<lambda>now'.
                let copy = withReady R workload (reflectedCondition R workload phase stale now')
                in updateWorkload R (copy\<lparr>wl_Status := (wl_Status copy)\<lparr>wst_Phase := phase,
                     wst_ResolvedArtifactDigest := ast_ResolvedArtifactDigest (wa_Status assignment),
                     wst_Run := ast_Run (wa_Status assignment)\<rparr>\<rparr>) True))))"

subsection \<open>Deletion\<close>

definition removeFinalizer :: "'u Reconciler \<Rightarrow> IdleloomWorkload \<Rightarrow> ('u, unit res) kube" where
  "removeFinalizer R workload =
     updateWorkload R (workload\<lparr>wl_Meta := (wl_Meta workload)\<lparr>om_Finalizers := remove (om_Finalizers (wl_Meta workload)) WorkloadFinalizer\<rparr>\<rparr>) False"

definition finalizeWithoutAssignment :: "'u Reconciler \<Rightarrow> IdleloomWorkload \<Rightarrow> string \<Rightarrow> ('u, unit res) kube" where
  "finalizeWithoutAssignment R workload namespace =
     bindE (cleanupServingResources R workload namespace) (\<lambda>_. removeFinalizer R workload)"

definition stopAssignment :: "'u Reconciler \<Rightarrow> IdleloomWorkload \<Rightarrow> string \<Rightarrow> IdleloomWorkloadAssignment \<Rightarrow> ('u, unit res) kube" where
  \<comment> \<open>the part of \<open>reconcileDeleting\<close> for the workload's own mailbox\<close>
  "stopAssignment R workload namespace assignment =
     (if as_DesiredState (wa_Spec assignment) \<noteq> AssignmentDesiredStopped
      then bindE (liftE (ToUnstructured (ofAssignment (rc_conv R))
               (assignment\<lparr>wa_Spec := (wa_Spec assignment)\<lparr>as_DesiredState := AssignmentDesiredStopped\<rparr>\<rparr>))) (\<lambda>updated.
             bindE (wrapE ''request assignment stop: '' (kUpdate AssignmentsGVR namespace updated)) (\<lambda>_. Ret (Inr ())))
      else case ValidateStopAcknowledgement assignment of
        Inl _ \<Rightarrow> Ret (Inr ())
      | Inr _ \<Rightarrow>
         bindE (wrapE ''delete stopped assignment: '' (deleteMailbox assignment namespace)) (\<lambda>_.
           finalizeWithoutAssignment R workload namespace))"

definition stopOwnMailbox :: "'u Reconciler \<Rightarrow> IdleloomWorkload \<Rightarrow> string \<Rightarrow> IdleloomWorkloadAssignment \<Rightarrow> ('u, unit res) kube" where
  \<comment> \<open>the identity checks of \<open>reconcileDeleting\<close>\<close>
  "stopOwnMailbox R workload namespace assignment =
     (let st = wl_Status workload; owner = wor_UID (as_WorkloadRef (wa_Spec assignment)) in
      case wst_AssignmentRef st of
        Some ref \<Rightarrow>
          if owner \<noteq> wl_UID workload then finalizeWithoutAssignment R workload namespace
          else if wa_UID assignment \<noteq> nor_UID ref
          then Ret (Inl (ErrorString ''refusing to stop a mailbox owned by another workload''))
          else stopAssignment R workload namespace assignment
      | None \<Rightarrow>
         (case wst_SchedulingIntent st of
            None \<Rightarrow> Ret (Inl (Sentinel ''panic: nil pointer dereference''))
          | Some intent \<Rightarrow>
             (case validateAssignmentIdentity assignment workload intent of
                Inl err \<Rightarrow>
                  if owner \<noteq> wl_UID workload then finalizeWithoutAssignment R workload namespace
                  else Ret (Inl (WrapError ''refusing to stop mailbox from scheduling intent: '' err []))
              | Inr _ \<Rightarrow> stopAssignment R workload namespace assignment)))"

definition mailboxOf :: "IdleloomWorkloadStatus \<Rightarrow> (string \<times> string) option" where
  \<comment> \<open>namespace and name of the mailbox a workload may own\<close>
  "mailboxOf st =
     (case wst_AssignmentRef st of
        Some ref \<Rightarrow> Some (nor_Namespace ref, nor_Name ref)
      | None \<Rightarrow> map_option (\<lambda>intent. (nor_Namespace (wsi_HostRef intent), AssignmentMailboxName)) (wst_SchedulingIntent st))"

definition reconcileDeleting :: "'u Reconciler \<Rightarrow> IdleloomWorkload \<Rightarrow> ('u, unit res) kube" where
  "reconcileDeleting R workload =
     (if \<not> contains (om_Finalizers (wl_Meta workload)) WorkloadFinalizer then Ret (Inr ())
      else case mailboxOf (wl_Status workload) of
        None \<Rightarrow> finalizeWithoutAssignment R workload []
      | Some (namespace, name) \<Rightarrow>
         bindP (kGet AssignmentsGVR namespace name) (\<lambda>got.
           case got of
             Inl e \<Rightarrow> if IsNotFound e then finalizeWithoutAssignment R workload namespace else Ret (Inl e)
           | Inr object \<Rightarrow>
              bindE (liftE (FromUnstructured (rc_conv R) (toAssignment (rc_conv R)) object)) (stopOwnMailbox R workload namespace)))"

subsection \<open>One workload, one pass\<close>

definition scheduleOrAssign :: "'u Reconciler \<Rightarrow> IdleloomWorkload \<Rightarrow> IdleloomModel option \<Rightarrow> reconcileCycle \<Rightarrow> ('u, unit res \<times> reconcileCycle) kube" where
  \<comment> \<open>the end of \<open>reconcileWorkloadWithCycle\<close>\<close>
  "scheduleOrAssign R workload model cycle =
     (case wst_SchedulingIntent (wl_Status workload) of
        None \<Rightarrow>
          bindP (hostList R cycle) (\<lambda>got.
            case got of
              Inl e \<Rightarrow> Ret (Inl e, cycle)
            | Inr (hosts, cycle') \<Rightarrow> persistSchedulingIntent R workload model hosts cycle')
      | Some intent \<Rightarrow> bindP (createAssignmentFromIntent R workload model intent) (\<lambda>r. Ret (r, cycle)))"

definition reconcileWorkloadWithCycle :: "'u Reconciler \<Rightarrow> IdleloomWorkload \<Rightarrow> reconcileCycle \<Rightarrow> ('u, unit res \<times> reconcileCycle) kube" where
  "reconcileWorkloadWithCycle R workload cycle =
     (let keep = (\<lambda>p. bindP p (\<lambda>r. Ret (r, cycle)))
      in if om_DeletionTimestamp (wl_Meta workload) \<noteq> None then keep (reconcileDeleting R workload)
         else if \<not> contains (om_Finalizers (wl_Meta workload)) WorkloadFinalizer
         then keep (updateWorkload R (workload\<lparr>wl_Meta := (wl_Meta workload)\<lparr>om_Finalizers := om_Finalizers (wl_Meta workload) @ [WorkloadFinalizer]\<rparr>\<rparr>) False)
         else if terminalFiniteWorkload workload then Ret (Inr (), cycle)
         else case wst_AssignmentRef (wl_Status workload) of
           Some ref \<Rightarrow> keep (reflectAssignment R workload ref)
         | None \<Rightarrow>
            if ws_Mode (wl_Spec workload) = WorkloadModeServer \<or> ws_Mode (wl_Spec workload) = WorkloadModeBatch then
              (case ws_Model (wl_Spec workload) of
                 None \<Rightarrow> Ret (Inl (ErrorString ''model workload has no model reference''), cycle)
               | Some ref \<Rightarrow>
                  bindP (cycleModel R cycle (wmr_CatalogRef ref)) (\<lambda>got.
                    case got of
                      Inl e \<Rightarrow> Ret (Inl e, cycle)
                    | Inr (model, cycle') \<Rightarrow> scheduleOrAssign R workload (Some model) cycle'))
            else scheduleOrAssign R workload None cycle)"

definition reconcileWorkload :: "'u Reconciler \<Rightarrow> IdleloomWorkload \<Rightarrow> ('u, unit res) kube" where
  "reconcileWorkload R workload =
     bindP (reconcileWorkloadWithCycle R workload \<lparr>cy_models = [], cy_hosts = [], cy_hostsLoaded = False\<rparr>) (\<lambda>(r, _). Ret r)"

definition reconcileItem :: "'u Reconciler \<Rightarrow> 'u \<Rightarrow> go_error list \<times> IdleloomWorkload list \<times> reconcileCycle
    \<Rightarrow> ('u, go_error list \<times> IdleloomWorkload list \<times> reconcileCycle) kube" where
  \<comment> \<open>the body of the first loop of \<open>ReconcileOnce\<close>\<close>
  "reconcileItem R item st =
     (case st of (errs, servingWorkloads, cycle) \<Rightarrow>
        case FromUnstructured (rc_conv R) (toWorkload (rc_conv R)) item of
          Inl e \<Rightarrow> Ret (errs @ [e], servingWorkloads, cycle)
        | Inr workload \<Rightarrow>
           bindP (reconcileWorkloadWithCycle R workload cycle) (\<lambda>(r, cycle').
             Ret (errs @ (case r of Inl e \<Rightarrow> [WrapError (''reconcile workload '' @ wl_Namespace workload @ ''/'' @ wl_Name workload @ '': '') e []] | Inr _ \<Rightarrow> []),
               servingWorkloads @ (if ws_Server (wl_Spec workload) \<noteq> None then [workload] else []), cycle')))"

definition reconcileServingItem :: "'u Reconciler \<Rightarrow> IdleloomWorkload \<Rightarrow> go_error list \<Rightarrow> ('u, go_error list) kube" where
  \<comment> \<open>the body of the second loop of \<open>ReconcileOnce\<close>\<close>
  "reconcileServingItem R workload errs =
     (let at = wl_Namespace workload @ ''/'' @ wl_Name workload @ '': '' in
      bindP (kGet WorkloadsGVR (wl_Namespace workload) (wl_Name workload)) (\<lambda>got.
        case got of
          Inl e \<Rightarrow> if IsNotFound e then Ret errs else Ret (errs @ [WrapError (''refresh serving workload '' @ at) e []])
        | Inr currentObject \<Rightarrow>
           (case FromUnstructured (rc_conv R) (toWorkload (rc_conv R)) currentObject of
              Inl e \<Rightarrow> Ret (errs @ [e])
            | Inr current \<Rightarrow>
               bindP (reconcileServingEndpoint R current) (\<lambda>(res, servingErr).
                 let res' = (if se_Reason res = [] then serving ''ServingEndpointUnavailable'' ''the Native serving endpoint could not be reconciled'' else res)
                 in bindP (updateServingReadyCondition R current res') (\<lambda>upd.
                   Ret (errs
                     @ (case upd of Inl e \<Rightarrow> [WrapError (''update Native serving readiness for workload '' @ at) e []] | Inr _ \<Rightarrow> [])
                     @ (case servingErr of Inl e \<Rightarrow> [WrapError (''reconcile Native Service for workload '' @ at) e []] | Inr _ \<Rightarrow> [])))))))"

definition ReconcileOnce :: "'u Reconciler \<Rightarrow> ('u, unit res) kube" where
  "ReconcileOnce R =
     (if \<not> rc_clients R then Ret (Inl (ErrorString ''dynamic and coordination clients are required''))
      else bindE (wrapE ''list native workloads: '' (kList WorkloadsGVR [])) (\<lambda>items.
        bindP (reconcileModelStatuses R) (\<lambda>ms.
          let errs0 = (case ms of Inl e \<Rightarrow> [WrapError ''aggregate model memory profiles: '' e []] | Inr _ \<Rightarrow> []) in
          bindP (foldP (reconcileItem R) items (errs0, [], \<lparr>cy_models = [], cy_hosts = [], cy_hostsLoaded = False\<rparr>)) (\<lambda>(errs, servingWorkloads, cycle).
            bindP (foldP (reconcileServingItem R) servingWorkloads errs) (\<lambda>errs'. Ret (joinErrors errs'))))))"

subsection \<open>What precedes the removal of the finalizer\<close>

text \<open>
  Predicates on the history of calls: the mailbox was found missing, the mailbox was read and
  held \<open>a\<close>, the mailbox holding \<open>a\<close> was deleted. \<open>stopProven\<close> is the evidence that no
  agent runs the workload.
\<close>

definition mailboxGone :: "string \<Rightarrow> string \<Rightarrow> ('u request \<times> 'u response) list \<Rightarrow> bool" where
  "mailboxGone ns n h \<longleftrightarrow> (\<exists>r e. (Get AssignmentsGVR ns n, r) \<in> set h \<and> rObject r = Inl e \<and> IsNotFound e)"

definition mailboxRead :: "'u Reconciler \<Rightarrow> string \<Rightarrow> string \<Rightarrow> IdleloomWorkloadAssignment \<Rightarrow> ('u request \<times> 'u response) list \<Rightarrow> bool" where
  "mailboxRead R ns n a h \<longleftrightarrow> (\<exists>obj. (Get AssignmentsGVR ns n, ObjectR (Inr obj)) \<in> set h \<and> toAssignment (rc_conv R) obj = Inr a)"

definition mailboxDeleted :: "string \<Rightarrow> IdleloomWorkloadAssignment \<Rightarrow> ('u request \<times> 'u response) list \<Rightarrow> bool" where
  "mailboxDeleted ns a h \<longleftrightarrow> (\<exists>r. (Delete AssignmentsGVR ns (wa_Name a) (wa_UID a), r) \<in> set h
     \<and> (rDone r = Inr () \<or> (\<exists>e. rDone r = Inl e \<and> IsNotFound e)))"

abbreviation "ownerUID a \<equiv> wor_UID (as_WorkloadRef (wa_Spec a))"

definition stopProven :: "'u Reconciler \<Rightarrow> IdleloomWorkload \<Rightarrow> ('u request \<times> 'u response) list \<Rightarrow> bool" where
  "stopProven R w h \<longleftrightarrow> (case mailboxOf (wl_Status w) of
     None \<Rightarrow> True
   | Some (ns, n) \<Rightarrow> mailboxGone ns n h
      \<or> (\<exists>a. mailboxRead R ns n a h \<and> (ownerUID a \<noteq> wl_UID w
           \<or> ValidateStopAcknowledgement a = Inr () \<and> mailboxDeleted ns a h)))"

definition deletionGuard :: "'u Reconciler \<Rightarrow> IdleloomWorkload \<Rightarrow> ('u request \<times> 'u response) list \<Rightarrow> 'u request \<Rightarrow> bool" where
  "deletionGuard R w h q = (case q of
     Update WorkloadsGVR ns u \<Rightarrow> stopProven R w h
   | Update AssignmentsGVR ns u \<Rightarrow>
       (\<exists>n a. mailboxOf (wl_Status w) = Some (ns, n) \<and> mailboxRead R ns n a h \<and> ownerUID a = wl_UID w
          \<and> ofAssignment (rc_conv R) (a\<lparr>wa_Spec := (wa_Spec a)\<lparr>as_DesiredState := AssignmentDesiredStopped\<rparr>\<rparr>) = Inr u)
   | Delete AssignmentsGVR ns n uid \<Rightarrow>
       (\<exists>n' a. mailboxOf (wl_Status w) = Some (ns, n') \<and> mailboxRead R ns n' a h \<and> ownerUID a = wl_UID w
          \<and> ValidateStopAcknowledgement a = Inr () \<and> n = wa_Name a \<and> uid = wa_UID a)
   | Get _ _ _ \<Rightarrow> True | GetSlice _ _ \<Rightarrow> True | DeleteSlice _ _ _ \<Rightarrow> True
   | _ \<Rightarrow> False)"

lemma history_mono:
  "mailboxGone ns n h \<Longrightarrow> mailboxGone ns n (h @ h')"
  "mailboxRead R ns n a h \<Longrightarrow> mailboxRead R ns n a (h @ h')"
  "mailboxDeleted ns a h \<Longrightarrow> mailboxDeleted ns a (h @ h')"
  unfolding mailboxGone_def mailboxRead_def mailboxDeleted_def set_append Un_iff by blast+

lemma stopProven_mono: "stopProven R w h \<Longrightarrow> stopProven R w (h @ h')"
  unfolding stopProven_def using history_mono by (cases "mailboxOf (wl_Status w)") (simp, clarsimp, blast)

lemma safe_finalize:
  assumes "stopProven R w h"
  shows "safe (deletionGuard R w) (\<lambda>_ _. True) (finalizeWithoutAssignment R w ns) h"
proof -
  have s: "stopProven R w (h @ h')" for h' by (rule stopProven_mono [OF assms])
  have f: "safe (deletionGuard R w) (\<lambda>_ _. True) (removeFinalizer R w) h'" if "stopProven R w h'" for h'
    using that by (auto simp: removeFinalizer_def updateWorkload_def safe_bindE kUpdate_def deletionGuard_def split: sum.split)
  have "safe (deletionGuard R w) (\<lambda>h' x. \<exists>e. h' = h @ e) (cleanupServingResources R w ns) h"
    by (auto simp: cleanupServingResources_def deleteServingEndpoint_def kGetSlice_def kDeleteSlice_def deletionGuard_def
      split: option.split sum.split)
  then show ?thesis
    unfolding finalizeWithoutAssignment_def safe_bindE
    by (rule safe_mono) (auto intro: f s split: sum.split)
qed

lemma safe_stop:
  assumes m: "mailboxOf (wl_Status w) = Some (ns, n)" "mailboxRead R ns n a h" "ownerUID a = wl_UID w"
  shows "safe (deletionGuard R w) (\<lambda>_ _. True) (stopAssignment R w ns a) h"
proof -
  have mr: "mailboxRead R ns n a (h @ h')" for h' using m(2) by (auto simp: mailboxRead_def)
  have fin: "safe (deletionGuard R w) (\<lambda>_ _. True) (finalizeWithoutAssignment R w ns) (h @ [(Delete AssignmentsGVR ns (wa_Name a) (wa_UID a), r)])"
    if "ValidateStopAcknowledgement a = Inr ()" "rDone r = Inr () \<or> (\<exists>e. rDone r = Inl e \<and> IsNotFound e)" for r
    by (rule safe_finalize) (use that m mr in \<open>auto simp: stopProven_def mailboxDeleted_def\<close>)
  have upd: "deletionGuard R w h (Update AssignmentsGVR ns u)"
    if "ofAssignment (rc_conv R) (a\<lparr>wa_Spec := (wa_Spec a)\<lparr>as_DesiredState := AssignmentDesiredStopped\<rparr>\<rparr>) = Inr u" for u
    using that m by (auto simp: deletionGuard_def)
  have del: "deletionGuard R w h (Delete AssignmentsGVR ns (wa_Name a) (wa_UID a))" if "ValidateStopAcknowledgement a = Inr ()"
    using that m by (auto simp: deletionGuard_def)
  show ?thesis
    unfolding stopAssignment_def deleteMailbox_def
    by (auto simp: safe_bindE wrapE_def kUpdate_def kDelete_def upd del intro: fin split: sum.split)
qed

lemma safe_deleting: "safe (deletionGuard R w) (\<lambda>_ _. True) (reconcileDeleting R w) []"
proof -
  have own: "safe (deletionGuard R w) (\<lambda>_ _. True) (stopOwnMailbox R w ns a) h"
    if m: "mailboxOf (wl_Status w) = Some (ns, n)" "mailboxRead R ns n a h" for ns n a h
  proof -
    have "safe (deletionGuard R w) (\<lambda>_ _. True) (finalizeWithoutAssignment R w ns) h" if "ownerUID a \<noteq> wl_UID w"
      by (rule safe_finalize) (use that m in \<open>auto simp: stopProven_def\<close>)
    moreover have "safe (deletionGuard R w) (\<lambda>_ _. True) (stopAssignment R w ns a) h" if "ownerUID a = wl_UID w"
      by (rule safe_stop [OF m that])
    moreover have "ownerUID a = wl_UID w" if "validateAssignmentIdentity a w i = Inr ()" for i
      using that by (simp add: validateAssignmentIdentity_def Let_def split: if_splits)
    ultimately show ?thesis
      unfolding stopOwnMailbox_def Let_def by (auto split: option.split sum.split)
  qed
  show ?thesis
    unfolding reconcileDeleting_def
    by (auto simp: kGet_def safe_bindE deletionGuard_def [of R w _ "Get a b c" for a b c] mailboxRead_def stopProven_def mailboxGone_def
       split: option.split sum.split intro!: safe_finalize own)
qed

subsection \<open>What precedes scheduling and assignment\<close>

lemma PlanAssignment_facts:
  assumes "PlanAssignment L p now rand w m h epoch = Inr a"
  shows "as_FencingEpoch (wa_Spec a) = epoch" "wor_UID (as_WorkloadRef (wa_Spec a)) = wl_UID w"
    "wor_Generation (as_WorkloadRef (wa_Spec a)) = wl_Generation w" "or_UID (as_HostRef (wa_Spec a)) = ho_UID h"
    "newExecutionID p rand = Inr (as_ExecutionID (wa_Spec a))" "ValidateAssignment L a = []"
    "wa_Namespace a = ho_Namespace h"
proof -
  obtain xid d where "newExecutionID p rand = Inr xid" "buildAssignment L w m h epoch xid d = Inr a" "ValidateAssignment L a = []"
    using PlanAssignment_Inr [OF assms] by metis
  then show "as_FencingEpoch (wa_Spec a) = epoch" "wor_UID (as_WorkloadRef (wa_Spec a)) = wl_UID w"
    "wor_Generation (as_WorkloadRef (wa_Spec a)) = wl_Generation w" "or_UID (as_HostRef (wa_Spec a)) = ho_UID h"
    "newExecutionID p rand = Inr (as_ExecutionID (wa_Spec a))" "ValidateAssignment L a = []"
    "wa_Namespace a = ho_Namespace h"
    by (auto simp: buildAssignment_def Let_def split: option.splits)
qed

definition epochAllocated :: "string \<Rightarrow> UID \<Rightarrow> int64 \<Rightarrow> ('u request \<times> 'u response) list \<Rightarrow> bool" where
  "epochAllocated ns uid epoch h \<longleftrightarrow>
     (\<exists>l l'. (UpdateLease ns l, LeaseR (Inr l')) \<in> set h \<and> validateLease l uid = Inr epoch)"

definition intentOk :: "IdleloomWorkload \<Rightarrow> ('u request \<times> 'u response) list \<Rightarrow> IdleloomWorkload \<Rightarrow> bool" where
  "intentOk w h w' \<longleftrightarrow> (case wst_SchedulingIntent (wl_Status w') of
     None \<Rightarrow> True
   | Some i \<Rightarrow> wst_SchedulingIntent (wl_Status w) = Some i
       \<or> epochAllocated (nor_Namespace (wsi_HostRef i)) (nor_UID (wsi_HostRef i)) (wsi_FencingEpoch i) h)"

definition scheduleGuard :: "'u Reconciler \<Rightarrow> IdleloomWorkload \<Rightarrow> ('u request \<times> 'u response) list \<Rightarrow> 'u request \<Rightarrow> bool" where
  "scheduleGuard R w h q = (case q of
     Create g ns u \<Rightarrow> g = AssignmentsGVR \<and> wst_AssignmentRef (wl_Status w) = None \<and>
       (\<exists>intent a. wst_SchedulingIntent (wl_Status w) = Some intent \<and> ns = nor_Namespace (wsi_HostRef intent)
          \<and> ofAssignment (rc_conv R) a = Inr u \<and> validateAssignmentIdentity a w intent = Inr ()
          \<and> ValidateAssignment (rc_lib R) a = [] \<and> mailboxGone ns AssignmentMailboxName h)
   | UpdateLease ns l \<Rightarrow> wst_SchedulingIntent (wl_Status w) = None \<and> wst_AssignmentRef (wl_Status w) = None
   | Delete g ns n uid \<Rightarrow> g = AssignmentsGVR \<and>
       (\<exists>ns' n' a. mailboxRead R ns' n' a h \<and> terminalAssignment a \<and> ownerUID a \<noteq> wl_UID w \<and> n = wa_Name a \<and> uid = wa_UID a)
   | Update g ns u \<Rightarrow> g = WorkloadsGVR \<and> \<not> contains (om_Finalizers (wl_Meta w)) WorkloadFinalizer
   | UpdateStatus g ns u \<Rightarrow> g = WorkloadsGVR \<and> (\<exists>w'. ofWorkload (rc_conv R) w' = Inr u \<and> intentOk w h w')
   | CreateSlice _ _ \<Rightarrow> False | UpdateSlice _ _ \<Rightarrow> False | DeleteSlice _ _ _ \<Rightarrow> False
   | _ \<Rightarrow> True)"

lemma guard_reads [simp]:
  "scheduleGuard R w h (Get g a b)" "scheduleGuard R w h (List g a)" "scheduleGuard R w h Now"
  "scheduleGuard R w h (RandRead n)" "scheduleGuard R w h (GetLease a b)"
  by (simp_all add: scheduleGuard_def)

lemma safe_updateStatus:
  assumes "intentOk w h w'"
  shows "safe (scheduleGuard R w) (\<lambda>h' _. \<exists>e. h' = h @ e) (updateWorkload R w' True) h"
  using assms by (auto simp: updateWorkload_def safe_bindE kUpdateStatus_def scheduleGuard_def split: sum.split)

lemma intentOk_same: "wst_SchedulingIntent (wl_Status w') = wst_SchedulingIntent (wl_Status w) \<Longrightarrow> intentOk w h w'"
  by (auto simp: intentOk_def split: option.split)

lemma withReady_intent [simp]: "wst_SchedulingIntent (wl_Status (withReady R w c)) = wst_SchedulingIntent (wl_Status w)"
  by (simp add: withReady_def)

lemma safe_updateSame:
  assumes "wst_SchedulingIntent (wl_Status w') = wst_SchedulingIntent (wl_Status w)"
  shows "safe (scheduleGuard R w) (\<lambda>_ _. True) (updateWorkload R w' True) h"
  by (rule safe_mono [OF safe_updateStatus [OF intentOk_same [OF assms]]]) simp_all

lemma safe_waiting: "safe (scheduleGuard R w) (\<lambda>_ _. True) (markWorkloadWaiting R w reason msg) h"
  by (simp add: markWorkloadWaiting_def kNow_def Let_def safe_updateSame)

lemma safe_reject: "safe (scheduleGuard R w) (\<lambda>_ _. True) (rejectOrReturn R w err) h"
  by (auto simp: rejectOrReturn_def surfaceSpecRejection_def safe_bindP split: option.split prod.split
      intro!: safe_mono [OF safe_waiting])

lemma safe_allocateOnce:
  assumes "wst_SchedulingIntent (wl_Status w) = None" "wst_AssignmentRef (wl_Status w) = None"
  shows "safe (scheduleGuard R w) (\<lambda>h r. \<forall>x. r = Inr x \<longrightarrow> epochAllocated ns uid x h) (allocateOnce ns uid) h"
proof -
  have e: "epochAllocated ns uid (wrap64 (c + 1)) (h @ [g, (UpdateLease ns (setEpoch l (wrap64 (c + 1))), LeaseR (Inr l'))])"
    if "validateLease l uid = Inr c" "c \<noteq> max_int64" for l c l' g
  proof -
    have "validateLease (setEpoch l (wrap64 (c + 1))) uid = Inr (wrap64 (c + 1))"
      using that validateLease_range [OF that(1)] wrap_next by (intro setEpoch_validate [OF that(1)]) auto
    then show ?thesis by (auto simp: epochAllocated_def)
  qed
  show ?thesis
    using assms e
    by (auto simp: allocateOnce_def kGetLease_def allocateFrom_def commitEpoch_def Let_def kUpdateLease_def safe_bindE scheduleGuard_def
        split: sum.split)
qed

lemma safe_Allocate:
  assumes "wst_SchedulingIntent (wl_Status w) = None" "wst_AssignmentRef (wl_Status w) = None"
  shows "safe (scheduleGuard R w) (\<lambda>h r. \<forall>x. r = Inr x \<longrightarrow> epochAllocated ns uid x h) (Allocate n ns uid) h"
proof -
  have "safe (scheduleGuard R w) (\<lambda>h r. \<forall>x. r = Inr x \<longrightarrow> epochAllocated ns uid x h) (retryOnConflict n (allocateOnce ns uid)) h" for h
  proof (induction n arbitrary: h)
    case 0
    show ?case using safe_allocateOnce [OF assms] by simp
  next
    case (Suc n)
    show ?case
      unfolding retryOnConflict.simps safe_bindP
      by (rule safe_mono [OF safe_allocateOnce [OF assms]]) (auto simp: Suc split: sum.split)
  qed
  then show ?thesis by (simp add: Allocate_def)
qed

lemma safe_persist:
  assumes u: "wst_SchedulingIntent (wl_Status w) = None" "wst_AssignmentRef (wl_Status w) = None"
  shows "safe (scheduleGuard R w) (\<lambda>_ _. True) (persistSchedulingIntent R w m hosts cycle) h"
proof -
  have wait: "safe (scheduleGuard R w) (\<lambda>_ _. True) (bindP (markWorkloadWaiting R w reason msg) (\<lambda>r. Ret (r, c))) h" for reason msg c h
    unfolding safe_bindP by (rule safe_mono [OF safe_waiting]) simp_all
  have rej: "safe (scheduleGuard R w) (\<lambda>_ _. True) (bindP (rejectOrReturn R w err) (\<lambda>r. Ret (r, c))) h" for err c h
    unfolding safe_bindP by (rule safe_mono [OF safe_reject]) simp_all
  have upd: "safe (scheduleGuard R w) (\<lambda>_ _. True) (bindP (updateWorkload R (withIntent w m host planned) True)
       (\<lambda>r. case r of Inl e \<Rightarrow> Ret (Inl e, c) | Inr _ \<Rightarrow> Ret (Inr (), c'))) h"
    if "PlanAssignment L p now rand w m host epoch = Inr planned" "epochAllocated (ho_Namespace host) (ho_UID host) epoch h"
    for L p now rand host epoch planned c c' h
  proof -
    have "intentOk w h (withIntent w m host planned)"
      using that PlanAssignment_facts(1) [OF that(1)] by (simp add: intentOk_def withIntent_def)
    from safe_updateStatus [OF this] show ?thesis
      unfolding safe_bindP by (rule safe_mono) (auto split: sum.split)
  qed
  have em: "epochAllocated ns uid e h \<Longrightarrow> epochAllocated ns uid e (h @ h')" for ns uid e h and h' :: "('a request \<times> 'a response) list"
    by (auto simp: epochAllocated_def)
  have plan: "safe (scheduleGuard R w) (\<lambda>_ _. True)
      (bindP (planAssignmentNow R p w m host epoch) (\<lambda>result.
        case result of Inl err \<Rightarrow> bindP (rejectOrReturn R w err) (\<lambda>r. Ret (r, c))
        | Inr planned \<Rightarrow> bindP (updateWorkload R (withIntent w m host planned) True)
            (\<lambda>r. case r of Inl e \<Rightarrow> Ret (Inl e, c) | Inr _ \<Rightarrow> Ret (Inr (), c')))) h"
    if "epochAllocated (ho_Namespace host) (ho_UID host) epoch h" for p host epoch c c' h
    using em [OF that] that
    by (auto simp: planAssignmentNow_def kNow_def kRandRead_def split: sum.split intro: rej upd)
  show ?thesis
    unfolding persistSchedulingIntent_def selectHostNow_def kNow_def
    by (auto simp: safe_bindP [of _ _ "Allocate a b c" for a b c] wait rej split: sum.split option.split
        intro!: safe_mono [OF safe_Allocate [OF u]] plan)
qed

lemma safe_persistRef: "safe (scheduleGuard R w) (\<lambda>_ _. True) (persistAssignmentReference R w a) h"
  unfolding persistAssignmentReference_def by (rule safe_updateSame) simp

lemma safe_reclaim:
  assumes m: "mailboxRead R ns n a h" "ownerUID a \<noteq> wl_UID w"
  shows "safe (scheduleGuard R w) (\<lambda>_ _. True) (reclaimTerminalMailbox R a) h"
proof -
  let ?reclaim = "bindE (wrapE ''reclaim completed assignment mailbox: '' (deleteMailbox a (wa_Namespace a))) (\<lambda>_. Ret (Inr True))"
  have delm: "safe (scheduleGuard R w) (\<lambda>_ _. True) (deleteMailbox a (wa_Namespace a)) h'" if "terminalAssignment a" "\<exists>e. h' = h @ e" for h'
  proof -
    have "mailboxRead R ns n a h'" using that m history_mono by blast
    then have "scheduleGuard R w h' (Delete AssignmentsGVR (wa_Namespace a) (wa_Name a) (wa_UID a))"
      using that m by (auto simp: scheduleGuard_def)
    then show ?thesis
      by (auto simp: deleteMailbox_def kDelete_def split: sum.split)
  qed
  have del: "safe (scheduleGuard R w) (\<lambda>_ _. True) ?reclaim h'" if "terminalAssignment a" "\<exists>e. h' = h @ e" for h'
    unfolding safe_bindE safe_wrapE by (rule safe_mono [OF delm [OF that]]) (auto split: sum.split)
  have arch: "safe (scheduleGuard R w) (\<lambda>_ _. True) (bindE (wrapE pre (updateWorkload R (archiveOwner R ow a now) True)) (\<lambda>_. ?reclaim)) h'"
    if "terminalAssignment a" "\<exists>e. h' = h @ e" for h' ow now pre
  proof -
    have "intentOk w h' (archiveOwner R ow a now)" by (simp add: intentOk_def archiveOwner_def Let_def)
    from safe_updateStatus [OF this] show ?thesis
      unfolding safe_bindE [of _ _ "wrapE pre p" for p] safe_wrapE [of _ _ pre]
      by (rule safe_mono) (use that in \<open>auto split: sum.split intro!: del\<close>)
  qed
  show ?thesis
    unfolding reclaimTerminalMailbox_def Let_def
    by (auto simp: kGet_def kNow_def safe_bindE [of _ _ "liftE x" for x] split: sum.split intro!: del arch)
qed

lemma safe_adopt:
  assumes "mailboxRead R ns n a h"
  shows "safe (scheduleGuard R w) (\<lambda>_ _. True) (adoptMailbox R w intent a) h"
proof -
  have "safe (scheduleGuard R w) (\<lambda>_ _. True) (bindE (reclaimTerminalMailbox R a) (\<lambda>reclaimed.
      if reclaimed then markWorkloadWaiting R w r1 m1 else markWorkloadWaiting R w r2 m2)) h" if "ownerUID a \<noteq> wl_UID w" for r1 m1 r2 m2
    unfolding safe_bindE
    by (rule safe_mono [OF safe_reclaim [OF assms that]]) (auto simp: safe_waiting split: sum.split)
  then show ?thesis
    by (auto simp: adoptMailbox_def Let_def safe_persistRef split: sum.split)
qed

lemma safe_createMailbox:
  assumes w: "wst_SchedulingIntent (wl_Status w) = Some intent" "wst_AssignmentRef (wl_Status w) = None"
    and h: "mailboxGone (nor_Namespace (wsi_HostRef intent)) AssignmentMailboxName h"
    and host: "ho_UID host = nor_UID (wsi_HostRef intent)"
  shows "safe (scheduleGuard R w) (\<lambda>_ _. True) (createMailbox R w m intent host) h"
proof -
  let ?ns = "nor_Namespace (wsi_HostRef intent)"
  have create: "scheduleGuard R w (h @ h') (Create AssignmentsGVR ?ns u)"
    if "PlanAssignment (rc_lib R) (p\<lparr>pl_NewExecutionID := Some (Inr (wsi_ExecutionID intent))\<rparr>) now rand w m host (wsi_FencingEpoch intent) = Inr planned"
      "ofAssignment (rc_conv R) planned = Inr u" for p now rand planned u h'
  proof -
    note f = PlanAssignment_facts [OF that(1)]
    have "validateAssignmentIdentity planned w intent = Inr ()"
      using f host by (simp add: validateAssignmentIdentity_def Let_def newExecutionID_def)
    then show ?thesis
      using w that(2) f(6) history_mono(1) [OF h, of h'] by (auto simp: scheduleGuard_def)
  qed
  show ?thesis
    unfolding createMailbox_def planAssignmentNow_def
    by (auto simp: kNow_def safe_bindE wrapE_def kCreate_def kGet_def safe_reject safe_persistRef create split: sum.split)
qed

lemma safe_create:
  assumes w: "wst_SchedulingIntent (wl_Status w) = Some intent" "wst_AssignmentRef (wl_Status w) = None"
  shows "safe (scheduleGuard R w) (\<lambda>_ _. True) (createAssignmentFromIntent R w m intent) h"
proof -
  have gone: "mailboxGone ns n (h @ (Get AssignmentsGVR ns n, r) # h')" if "rObject r = Inl e" "IsNotFound e" for ns n r e h'
    using that by (auto simp: mailboxGone_def)
  have read: "mailboxRead R ns n a (h @ [(Get AssignmentsGVR ns n, ObjectR (Inr obj))])" if "toAssignment (rc_conv R) obj = Inr a" for ns n obj a
    using that by (auto simp: mailboxRead_def)
  show ?thesis
    unfolding createAssignmentFromIntent_def Let_def
    by (auto simp: kGet_def safe_bindE [of _ _ "liftE x" for x] wrapE_def split: sum.split
        intro: safe_adopt [OF read] intro!: safe_createMailbox [OF w gone])
qed

lemma safe_reflect: "safe (scheduleGuard R w) (\<lambda>_ _. True) (reflectAssignment R w ref) h"
  by (auto simp: reflectAssignment_def kGet_def kNow_def Let_def safe_bindE [of _ _ "liftE x" for x] split: sum.split prod.split
      intro!: safe_updateSame)

lemma safe_keep: "safe G (\<lambda>_ _. True) p h \<Longrightarrow> safe G (\<lambda>_ _. True) (bindP p (\<lambda>r. Ret (f r))) h"
  unfolding safe_bindP by (rule safe_mono) auto

lemma safe_hostList: "safe (scheduleGuard R w) (\<lambda>_ _. True) (hostList R c) h"
  by (auto simp: hostList_def listHosts_def kList_def wrapE_def safe_bindE split: sum.split)

lemma safe_cycleModel: "safe (scheduleGuard R w) (\<lambda>_ _. True) (cycleModel R c n) h"
  by (auto simp: cycleModel_def getModel_def kGet_def wrapE_def safe_bindE split: sum.split option.split)

lemma safe_workload:
  assumes "om_DeletionTimestamp (wl_Meta w) = None"
  shows "safe (scheduleGuard R w) (\<lambda>_ _. True) (reconcileWorkloadWithCycle R w cycle) h"
proof -
  let ?ok = "\<lambda>p h. safe (scheduleGuard R w) (\<lambda>_ _. True) p h"
  have fin: "?ok (updateWorkload R (w\<lparr>wl_Meta := mt\<rparr>) False) h" if "\<not> contains (om_Finalizers (wl_Meta w)) WorkloadFinalizer" for mt h
    using that by (auto simp: updateWorkload_def safe_bindE kUpdate_def scheduleGuard_def split: sum.split)
  have sched: "?ok (scheduleOrAssign R w m c) h" if "wst_AssignmentRef (wl_Status w) = None" for m c h
  proof (cases "wst_SchedulingIntent (wl_Status w)")
    case None
    then show ?thesis
      unfolding scheduleOrAssign_def None option.case safe_bindP
      by (intro safe_mono [OF safe_hostList]) (use that safe_persist [OF None that] in \<open>auto split: sum.split\<close>)
  next
    case (Some intent)
    then show ?thesis using safe_create [OF Some that] by (auto simp: scheduleOrAssign_def intro!: safe_keep)
  qed
  have model: "?ok (bindP (cycleModel R cycle n) (\<lambda>got. case got of Inl e \<Rightarrow> Ret (Inl e, cycle)
      | Inr (model, c) \<Rightarrow> scheduleOrAssign R w (Some model) c)) h"
    if "wst_AssignmentRef (wl_Status w) = None" for n h
    unfolding safe_bindP [of _ _ "cycleModel R cycle n"]
    by (rule safe_mono [OF safe_cycleModel]) (auto intro!: sched that split: sum.split)
  show ?thesis
    unfolding reconcileWorkloadWithCycle_def Let_def
    using assms by (auto split: option.split intro!: safe_keep fin safe_reflect sched model)
qed

subsection \<open>Choosing and reserving hosts\<close>

text \<open>
  What the reconciler relies on when it schedules several workloads in one pass: the selector
  returns one of the given hosts and only one without an active assignment; reserving marks the
  host with the given identity and leaves every other host alone.
\<close>

locale host_choice =
  fixes select :: "IdleloomHost list \<Rightarrow> IdleloomHost res"
    and reserve :: "IdleloomHost list \<Rightarrow> UID \<Rightarrow> IdleloomHost list"
  assumes select_member: "select hs = Inr h \<Longrightarrow> h \<in> set hs"
    and select_free: "select hs = Inr h \<Longrightarrow> hst_ActiveAssignmentUID (ho_Status h) = []"
    and reserve_uids: "map ho_UID (reserve hs uid) = map ho_UID hs"
    and reserve_marks: "distinct (map ho_UID hs) \<Longrightarrow> h \<in> set (reserve hs uid) \<Longrightarrow> ho_UID h = uid
      \<Longrightarrow> hst_ActiveAssignmentUID (ho_Status h) \<noteq> []"
    and reserve_keeps: "h \<in> set (reserve hs uid) \<Longrightarrow> h \<in> set hs \<or> hst_ActiveAssignmentUID (ho_Status h) \<noteq> []"
begin

lemma reserve_all_uids: "map ho_UID (foldl reserve hs uids) = map ho_UID hs"
  by (induction uids arbitrary: hs) (simp_all add: reserve_uids)

lemma reserved_busy:
  assumes "distinct (map ho_UID hs)" "h \<in> set (foldl reserve hs uids)" "ho_UID h \<in> set uids"
  shows "hst_ActiveAssignmentUID (ho_Status h) \<noteq> []"
  using assms
proof (induction uids rule: rev_induct)
  case (snoc uid uids)
  show ?case
  proof (cases "ho_UID h = uid")
    case True
    with snoc.prems reserve_marks [of "foldl reserve hs uids" h uid] show ?thesis
      by (simp add: reserve_all_uids)
  next
    case False
    with snoc.prems have "ho_UID h \<in> set uids" "h \<in> set (reserve (foldl reserve hs uids) uid)" by simp_all
    with reserve_keeps [of h] snoc.IH [OF snoc.prems(1)] show ?thesis by blast
  qed
qed simp

lemma unreserved_origin:
  assumes "h \<in> set (foldl reserve hs uids)" "hst_ActiveAssignmentUID (ho_Status h) = []"
  shows "h \<in> set hs"
  using assms(1)
proof (induction uids rule: rev_induct)
  case (snoc uid uids)
  then show ?case using reserve_keeps [of h] assms(2) by auto
qed simp

lemma not_reselected:
  assumes "distinct (map ho_UID hs)" "select (foldl reserve hs uids) = Inr h"
  shows "ho_UID h \<notin> set uids \<and> h \<in> set hs"
  using reserved_busy [OF assms(1)] unreserved_origin select_member [OF assms(2)] select_free [OF assms(2)] by blast

end

lemma reserveIn_uids: "map ho_UID (reserveIn hs uid) = map ho_UID hs"
  by (induction hs uid rule: reserveIn.induct) auto

lemma reserveIn_marks:
  "distinct (map ho_UID hs) \<Longrightarrow> h \<in> set (reserveIn hs uid) \<Longrightarrow> ho_UID h = uid \<Longrightarrow> hst_ActiveAssignmentUID (ho_Status h) \<noteq> []"
  by (induction hs uid rule: reserveIn.induct) (auto split: if_splits)

lemma reserveIn_keeps:
  "h \<in> set (reserveIn hs uid) \<Longrightarrow> h \<in> set hs \<or> hst_ActiveAssignmentUID (ho_Status h) \<noteq> []"
  by (induction hs uid rule: reserveIn.induct) (auto split: if_splits)

locale lawful_library =
  fixes L :: k8slib
  assumes aggregates: "aggregate_law L"
begin

lemma selected_eligible: "SelectHost L p now w m hs = Inr h \<Longrightarrow> h \<in> set hs \<and> eligible_on L p now w m h"
proof -
  assume a: "SelectHost L p now w m hs = Inr h"
  let ?cs = "filter (\<lambda>h. ineligibility L p now w m h = []) hs"
  have "?cs \<noteq> []" and h: "h = hd (sort_Slice (hostLess L) ?cs)"
    using a by (simp_all add: SelectHost_Inr)
  then have "h \<in> set (sort_Slice (hostLess L) ?cs)"
    by (metis hd_in_set sort_Slice_Nil)
  then show ?thesis using ineligibility_Nil [OF aggregates] by simp
qed

end

sublocale lawful_library \<subseteq> choice: host_choice "SelectHost L p now w m" reserveIn for p now w m
proof
  fix hs h uid
  show "SelectHost L p now w m hs = Inr h \<Longrightarrow> h \<in> set hs"
    and "SelectHost L p now w m hs = Inr h \<Longrightarrow> hst_ActiveAssignmentUID (ho_Status h) = []"
    using selected_eligible by (auto simp: eligible_on_def eligible_def)
  show "map ho_UID (reserveIn hs uid) = map ho_UID hs" by (rule reserveIn_uids)
  show "distinct (map ho_UID hs) \<Longrightarrow> h \<in> set (reserveIn hs uid) \<Longrightarrow> ho_UID h = uid \<Longrightarrow> hst_ActiveAssignmentUID (ho_Status h) \<noteq> []"
    by (rule reserveIn_marks)
  show "h \<in> set (reserveIn hs uid) \<Longrightarrow> h \<in> set hs \<or> hst_ActiveAssignmentUID (ho_Status h) \<noteq> []"
    by (rule reserveIn_keeps)
qed

context lawful_library
begin

lemma never_twice:
  assumes "distinct (map ho_UID hs)" "SelectHost L p now w m (foldl reserveIn hs uids) = Inr h"
  shows "ho_UID h \<notin> set uids \<and> h \<in> set hs"
  using assms by (rule choice.not_reselected)

end

interpretation exlibrary: lawful_library exlib
  by unfold_locales (rule aggregate_law_ex)

subsection \<open>What a Ready condition stands for\<close>

definition reflectGuard :: "'u Reconciler \<Rightarrow> ('u request \<times> 'u response) list \<Rightarrow> 'u request \<Rightarrow> bool" where
  "reflectGuard R h q = (case q of
     UpdateStatus g ns u \<Rightarrow> g = WorkloadsGVR \<and> (\<exists>w'. ofWorkload (rc_conv R) w' = Inr u \<and>
       (\<forall>c. FindStatusCondition (rc_lib R) (wst_Conditions (wl_Status w')) WorkloadConditionReady = Some c \<longrightarrow> cond_Status c = ConditionTrue \<longrightarrow>
          wst_Phase (wl_Status w') = PhaseRunning
          \<and> (\<exists>ns n a t. mailboxRead R ns n a h \<and> t \<in> rTime ` snd ` set h \<and> assignmentPhase a t = (PhaseRunning, False))))
   | Get _ _ _ \<Rightarrow> True | Now \<Rightarrow> True | _ \<Rightarrow> False)"

lemma reflected_true:
  assumes "condition_law (rc_lib R)"
    and "FindStatusCondition (rc_lib R) (SetStatusCondition (rc_lib R) cs (reflectedCondition R w phase stale now)) WorkloadConditionReady = Some c"
    and "cond_Status c = ConditionTrue"
  shows "phase = PhaseRunning \<and> \<not> stale"
proof -
  let ?r = "reflectedCondition R w phase stale now"
  have type: "FindStatusCondition (rc_lib R) cs t = Some d \<Longrightarrow> cond_Type d = t" for cs t d
    using assms(1) by (auto simp: condition_law_def)
  have "cond_Type ?r = WorkloadConditionReady"
    using type by (auto simp: reflectedCondition_def readyCondition_def Let_def split: option.split)
  with assms(1) have "\<exists>c'. FindStatusCondition (rc_lib R) (SetStatusCondition (rc_lib R) cs ?r) WorkloadConditionReady = Some c'
      \<and> cond_Status c' = cond_Status ?r"
    unfolding condition_law_def by metis
  with assms have "cond_Status ?r = ConditionTrue" by auto
  then show ?thesis by (auto simp: reflectedCondition_def readyCondition_def Let_def split: if_splits)
qed

lemma safe_reflect_ready:
  assumes "condition_law (rc_lib R)"
  shows "safe (reflectGuard R) (\<lambda>_ _. True) (reflectAssignment R w ref) []"
proof -
  have upd: "safe (reflectGuard R) (\<lambda>_ _. True)
      (updateWorkload R w' True)
      [(Get AssignmentsGVR (nor_Namespace ref) (nor_Name ref), ObjectR (Inr obj)), (Now, r), (Now, r')]"
    if "toAssignment (rc_conv R) obj = Inr a" "assignmentPhase a (rTime r) = (phase, stale)"
      "wst_Phase (wl_Status w') = phase" "wst_Conditions (wl_Status w') = SetStatusCondition (rc_lib R) (wst_Conditions (wl_Status w)) (reflectedCondition R w phase stale (rTime r'))"
    for obj a r r' phase stale w'
  proof -
    let ?h = "[(Get AssignmentsGVR (nor_Namespace ref) (nor_Name ref), ObjectR (Inr obj)), (Now, r), (Now, r')]"
    have "mailboxRead R (nor_Namespace ref) (nor_Name ref) a ?h" using that(1) by (simp add: mailboxRead_def)
    moreover have "rTime r \<in> rTime ` snd ` set ?h" by simp
    ultimately have "reflectGuard R ?h (UpdateStatus WorkloadsGVR ns u)"
      if "ofWorkload (rc_conv R) w' = Inr u" for ns u
      unfolding reflectGuard_def request.case
      using that \<open>wst_Conditions (wl_Status w') = _\<close> \<open>wst_Phase (wl_Status w') = phase\<close> \<open>assignmentPhase a (rTime r) = _\<close> reflected_true [OF assms]
      by (intro conjI refl exI [of _ w']) fastforce+
    then show ?thesis by (auto simp: updateWorkload_def safe_bindE kUpdateStatus_def split: sum.split)
  qed
  show ?thesis
    unfolding reflectAssignment_def Let_def
    by (auto simp: kGet_def kNow_def reflectGuard_def [of R _ "Get a b c" for a b c] reflectGuard_def [of R _ Now] safe_bindE [of _ _ "liftE x" for x]
       withReady_def [of R w] split: sum.split prod.split intro!: upd)
qed

subsection \<open>Properties\<close>

definition exmailbox :: IdleloomWorkloadAssignment where
  "exmailbox = exserver_assignment\<lparr>wa_Spec := (wa_Spec exserver_assignment)\<lparr>as_DesiredState := AssignmentDesiredStopped\<rparr>,
     wa_Status := (wa_Status exserver_assignment)\<lparr>ast_Phase := PhaseStopped,
       ast_StopAcknowledgement := Some \<lparr>sa_AssignmentUID = ''a-1'', sa_ObservedGeneration = 1, sa_ExecutionID = ''x-1'',
         sa_FencingEpoch = 5, sa_StoppedAt = 1400000000\<rparr>\<rparr>\<rparr>"

definition exdeleting :: IdleloomWorkload where
  "exdeleting = exserving\<lparr>wl_Meta := (wl_Meta exserving)\<lparr>om_DeletionTimestamp := Some 1, om_Finalizers := [WorkloadFinalizer]\<rparr>\<rparr>"

text \<open>
  C1. While a workload is being deleted, its finalizer is removed only after proof that no
  agent runs it: no assignment was ever made, or the mailbox is missing, or the mailbox belongs
  to another workload, or the workload's own mailbox carries a valid stop acknowledgement for
  the current execution and epoch and has been deleted under its identity. The only other
  writes are the request to stop the workload's own assignment, the delete of that
  acknowledged assignment, and the cleanup of the endpoint.
\<close>

theorem finalizer_guarded:
  assumes "emits (reconcileDeleting R w) (t @ (q, r) # u)"
  shows "deletionGuard R w t q"
  using safe_emits [OF safe_deleting assms] by simp

theorem finalizer_guarded_witness:
  "stopProven exreconciler exdeleting
     (feed (reconcileDeleting exreconciler exdeleting)
       [ObjectR (Inr (WireAssignment exmailbox)), DoneR (Inr ()), SliceR (Inl (StatusError NotFound))])"
proof -
  let ?p = "reconcileDeleting exreconciler exdeleting"
  let ?as = "[ObjectR (Inr (WireAssignment exmailbox)), DoneR (Inr ()), SliceR (Inl (StatusError NotFound))]"
  have "case asks ?p ?as of Some (Update WorkloadsGVR ns u) \<Rightarrow> True | _ \<Rightarrow> False"
    by code_simp
  then obtain ns u where "asks ?p ?as = Some (Update WorkloadsGVR ns u)"
    by (auto split: option.splits request.splits gvr.splits)
  from finalizer_guarded [OF emits_asks [OF this]] show ?thesis by (simp add: deletionGuard_def)
qed

text \<open>
  C4. Scheduling is two-phase. For a workload that is not being deleted, a fencing epoch is
  allocated only while the workload has neither an intent nor an assignment; a status update
  never invents an intent: it keeps the stored one, clears it, or records one whose epoch was
  just committed to the Lease of the chosen host; and an assignment is created only for the
  stored intent, with its execution, epoch, host and workload identity, after the mailbox was
  found empty. A mailbox of another workload is deleted only when its run is over. Endpoints are
  not touched.
\<close>

theorem schedule_guarded:
  assumes "om_DeletionTimestamp (wl_Meta w) = None"
    and "emits (reconcileWorkloadWithCycle R w cycle) (t @ (q, r) # u)"
  shows "scheduleGuard R w t q"
  using safe_emits [OF safe_workload [OF assms(1), of R cycle "[]"] assms(2)] by simp

definition exready :: IdleloomWorkload where
  "exready = exworkload\<lparr>wl_Meta := (wl_Meta exworkload)\<lparr>om_Finalizers := [WorkloadFinalizer]\<rparr>\<rparr>"

abbreviation "excycle \<equiv> \<lparr>cy_models = [], cy_hosts = [], cy_hostsLoaded = False\<rparr>"

definition exhostlease :: Lease where
  "exhostlease = \<lparr>le_Meta = (exmeta ''small'' LeaseName ''l-2'')\<lparr>om_Labels := [(ManagedByLabel, ManagedByValue)],
     om_Annotations := [(HostUIDAnnotation, ''h-small''), (EpochAnnotation, ''41'')]\<rparr>\<rparr>"

theorem schedule_guarded_witness:
  "\<exists>w' u. ofWorkload exconv w' = Inr u \<and> intentOk exready
     (feed (reconcileWorkloadWithCycle exreconciler exready excycle)
       [ListR (Inr (map WireHost exhosts)), TimeR exnow, LeaseR (Inr exhostlease), LeaseR (Inr exhostlease), TimeR exnow, BytesR (Inr (replicate 16 7))]) w'"
proof -
  let ?p = "reconcileWorkloadWithCycle exreconciler exready excycle"
  let ?as = "[ListR (Inr (map WireHost exhosts)), TimeR exnow, LeaseR (Inr exhostlease), LeaseR (Inr exhostlease), TimeR exnow, BytesR (Inr (replicate 16 7))]"
  have "case asks ?p ?as of Some (UpdateStatus WorkloadsGVR ns u) \<Rightarrow> True | _ \<Rightarrow> False"
    by code_simp
  then obtain ns u where e: "asks ?p ?as = Some (UpdateStatus WorkloadsGVR ns u)"
    by (auto split: option.splits request.splits gvr.splits)
  have "om_DeletionTimestamp (wl_Meta exready) = None" by code_simp
  from schedule_guarded [OF this emits_asks [OF e]] show ?thesis by (auto simp: scheduleGuard_def exreconciler_def)
qed

text \<open>
  One pass never gives a host to two workloads: after any sequence of reservations the
  selector does not return a host that was reserved, and what it returns is a host as it was
  listed.
\<close>

theorem reserved_not_selected:
  assumes "aggregate_law L" "distinct (map ho_UID hs)"
    and "SelectHost L p now w m (foldl reserveIn hs uids) = Inr h"
  shows "ho_UID h \<notin> set uids \<and> h \<in> set hs"
  by (rule lawful_library.never_twice [OF lawful_library.intro [OF assms(1)] assms(2,3)])

theorem reserved_not_selected_witness:
  "\<exists>h. SelectHost exlib explanner exnow exworkload None (foldl reserveIn exhosts [''h-small'']) = Inr h \<and> ho_UID h \<noteq> ''h-small''"
proof -
  have "SelectHost exlib explanner exnow exworkload None (foldl reserveIn exhosts [''h-small'']) = Inr (exhost ''big'' ''90000'')"
    by code_simp
  moreover have "distinct (map ho_UID exhosts)" by code_simp
  ultimately show ?thesis
    using reserved_not_selected [OF aggregate_law_ex] by fastforce
qed

text \<open>
  For a lease within the accepted bounds the phase of a running assignment is decided by
  exact arithmetic: it is Fenced when the last heartbeat is more than a minute in the future or
  older than the lease plus a minute, and otherwise what the agent reported, with Assigned for
  an agent that has not reported yet. Saturation and wrap-around of durations play no role.
\<close>

theorem assignmentPhase_lease:
  assumes "10 \<le> as_LeaseDurationSeconds (wa_Spec a)" "as_LeaseDurationSeconds (wa_Spec a) \<le> 300"
    and "as_DesiredState (wa_Spec a) = AssignmentDesiredRunning"
    and "seen = (case ast_LastHeartbeatTime (wa_Status a) of Some t \<Rightarrow> t | None \<Rightarrow> om_CreationTimestamp (wa_Meta a))"
  shows "assignmentPhase a now =
    (if now + minute < seen \<or> as_LeaseDurationSeconds (wa_Spec a) * second + minute < now - seen then (PhaseFenced, True)
     else (if ast_Phase (wa_Status a) = [] then PhaseAssigned else ast_Phase (wa_Status a), False))"
proof -
  let ?d = "as_LeaseDurationSeconds (wa_Spec a) * second"
  have r: "in_int64 ?d" "in_int64 (?d + minute)" "?d + minute < max_int64" "min_int64 \<le> ?d + minute"
    using assms(1,2) by (auto simp: in_int64_def second_def minute_def min_int64_def max_int64_def)
  have "time_Sub now seen \<le> ?d + minute \<longleftrightarrow> now - seen \<le> ?d + minute"
    by (rule time_Sub_le [OF r(3,4)])
  then show ?thesis
    using assms(3) by (simp add: assignmentPhase_def HeartbeatClockSkewAllowance_def wrap64_id [OF r(1)] wrap64_id [OF r(2)] assms(4) not_le [symmetric])
qed


theorem assignmentPhase_lease_witness:
  "assignmentPhase exserver_assignment (1500000000 + 90 * second) = (PhaseRunning, False)
   \<and> assignmentPhase exserver_assignment (1500000001 + 90 * second) = (PhaseFenced, True)"
proof -
  have s: "as_LeaseDurationSeconds (wa_Spec exserver_assignment) = 30" "as_DesiredState (wa_Spec exserver_assignment) = AssignmentDesiredRunning"
    "ast_LastHeartbeatTime (wa_Status exserver_assignment) = Some 1500000000" "ast_Phase (wa_Status exserver_assignment) = PhaseRunning"
    by code_simp+
  show ?thesis
    using assignmentPhase_lease [of exserver_assignment 1500000000 "1500000000 + 90 * second"]
      assignmentPhase_lease [of exserver_assignment 1500000000 "1500000001 + 90 * second"]
    by (simp add: s minute_def second_def)
qed

text \<open>
  A workload is reported Ready by the reflection of its assignment only together with the
  phase Running, after its mailbox was read and found running with a heartbeat that is fresh at
  the time that was read.
\<close>

theorem reflect_ready:
  assumes "condition_law (rc_lib R)" "emits (reflectAssignment R w ref) (t @ (q, r) # u)"
  shows "reflectGuard R t q"
  using safe_emits [OF safe_reflect_ready [OF assms(1)] assms(2)] by simp

theorem reflect_ready_witness:
  "\<exists>g ns u. reflectGuard exreconciler
     (feed (reflectAssignment exreconciler exserving \<lparr>nor_Namespace = ''small'', nor_Name = AssignmentMailboxName, nor_UID = ''a-1''\<rparr>)
       [ObjectR (Inr (WireAssignment exserver_assignment)), TimeR exnow, TimeR exnow]) (UpdateStatus g ns u)"
proof -
  let ?p = "reflectAssignment exreconciler exserving \<lparr>nor_Namespace = ''small'', nor_Name = AssignmentMailboxName, nor_UID = ''a-1''\<rparr>"
  let ?as = "[ObjectR (Inr (WireAssignment exserver_assignment)), TimeR exnow, TimeR exnow]"
  have "case asks ?p ?as of Some (UpdateStatus g ns u) \<Rightarrow> True | _ \<Rightarrow> False"
    by code_simp
  then obtain g ns u where e: "asks ?p ?as = Some (UpdateStatus g ns u)"
    by (auto split: option.splits request.splits)
  have "condition_law (rc_lib exreconciler)" by (simp add: exreconciler_def condition_law_ex)
  from reflect_ready [OF this emits_asks [OF e]] show ?thesis by blast
qed

end
