(* ===== verification/Host_Memory.thy ===== *)
theory Host_Memory
  imports Kube_API
begin

section \<open>Host memory\<close>

text \<open>
  What a host says of its memory: the macOS measurements of \<open>internal/native/agent/platform.go\<close>
  and the tracker of \<open>memory.go\<close> that turns them into the figure the host publishes. The
  output of \<open>vm_stat\<close> and \<open>sysctl\<close> is text the model parses as the code does; the one
  floating-point computation, the used swap, is the parameter \<open>scaleFloat\<close>.

  Shown: the tracker publishes the
  minimum of the last three measurements, each clamped to the allocatable memory of its moment, and
  after the tolerance without a measurement it publishes half of the allocatable memory and says so.
\<close>

subsection \<open>Parsing\<close>

fun strIndex :: "string \<Rightarrow> string \<Rightarrow> nat option" \<comment> \<open>\<open>strings.Index\<close>\<close> where
  "strIndex [] sub = (if sub = [] then Some 0 else None)"
| "strIndex (c # s) sub = (if HasPrefix (c # s) sub then Some 0 else map_option Suc (strIndex s sub))"

definition upTo :: "char \<Rightarrow> string \<Rightarrow> string" where
  \<comment> \<open>\<open>if end := strings.IndexByte (s, c); end > 0 { s = s[:end] }\<close>\<close>
  "upTo c s = (let t = takeWhile (\<lambda>d. d \<noteq> c) s in if t = [] then s else t)"

definition parseVMLine :: "string \<Rightarrow> (string \<times> int64) option" where
  "parseVMLine line =
     (if CHR '':'' \<notin> set line then None
      else let key = takeWhile (\<lambda>d. d \<noteq> CHR '':'') line; value = drop (length key + 1) line in
        case ParseInt (TrimSuffix (TrimSpace value) ''.'') of
          None \<Rightarrow> None
        | Some count \<Rightarrow> if count < 0 then None else Some (TrimSpace key, count))"

definition parseVMStat :: "string \<Rightarrow> (int64 \<times> int64 gomap) res" where
  "parseVMStat out =
     (case splitOn (CHR 0x0A) out of
        [] \<Rightarrow> Inl (ErrorString ''empty vm_stat output'')
      | header # lines \<Rightarrow>
         (case strIndex header ''page size of '' of
            None \<Rightarrow> Inl (ErrorString (''vm_stat header missing page size: '' @ fmt_q header))
          | Some start \<Rightarrow>
             (let sizeText = upTo (CHR '' '') (drop (start + length ''page size of '') header) in
              case ParseInt sizeText of
                None \<Rightarrow> Inl (ErrorString (''invalid vm_stat page size '' @ fmt_q sizeText))
              | Some pageSize \<Rightarrow>
                 if pageSize \<le> 0 then Inl (ErrorString (''invalid vm_stat page size '' @ fmt_q sizeText))
                 else
                   (let pages = fold (\<lambda>line m. case parseVMLine line of None \<Rightarrow> m | Some (k, n) \<Rightarrow> gomap_set m k n) lines []
                    in if map_of pages ''Pages free'' = None
                       then Inl (ErrorString ''vm_stat output missing free page count'')
                       else Inr (pageSize, pages)))))"

text \<open>\<open>int64 (value * scale)\<close> of a decimal text, \<open>None\<close> when it does not parse or is negative.\<close>

type_synonym scale_float = "string \<Rightarrow> int \<Rightarrow> int64 option"

definition parseSwapUsage :: "scale_float \<Rightarrow> string \<Rightarrow> int64 res" where
  "parseSwapUsage scaleFloat out =
     (case strIndex out ''used = '' of
        None \<Rightarrow> Inl (ErrorString (''vm.swapusage output missing used figure: '' @ fmt_q (TrimSpace out)))
      | Some start \<Rightarrow>
         (let text = upTo (CHR '' '') (drop (start + length ''used = '') out) in
          if text = [] then Inl (ErrorString ''empty vm.swapusage used figure'')
          else case (if last text = CHR ''K'' then Some (2 ^ 10) else if last text = CHR ''M'' then Some (2 ^ 20)
                     else if last text = CHR ''G'' then Some (2 ^ 30) else None) of
            None \<Rightarrow> Inl (ErrorString (''unrecognised vm.swapusage unit in '' @ fmt_q text))
          | Some scale \<Rightarrow>
             (case scaleFloat (butlast text) scale of
                None \<Rightarrow> Inl (ErrorString (''invalid vm.swapusage used figure '' @ fmt_q text))
              | Some v \<Rightarrow> Inr v)))"

subsection \<open>Available memory\<close>

abbreviation "memoryPressureNormal \<equiv> (1 :: int)"
abbreviation "memoryPressureWarning \<equiv> (2 :: int)"
abbreviation "memoryPressureCritical \<equiv> (4 :: int)"
abbreviation "swapUsageGraceBytes \<equiv> (268435456 :: int64)"

definition pagesOf :: "int64 gomap \<Rightarrow> string \<Rightarrow> int64" where
  "pagesOf pages k = (case map_of pages k of None \<Rightarrow> 0 | Some n \<Rightarrow> n)"

definition availableBytes :: "int64 \<Rightarrow> int64 gomap \<Rightarrow> int \<Rightarrow> int64 \<Rightarrow> int64" where
  "availableBytes pageSize pages pressure swapUsed =
     (let p = pagesOf pages;
          pageCount =
            (if pressure \<ge> memoryPressureCritical then 0
             else if pressure \<ge> memoryPressureWarning then wrap64 (p ''Pages free'' + p ''Pages purgeable'')
             else wrap64 (p ''Pages free'' + p ''Pages inactive'' + p ''Pages purgeable'' + p ''Pages speculative''));
          available = wrap64 (pageCount * pageSize);
          penalty = wrap64 (swapUsed - swapUsageGraceBytes);
          available = (if penalty > 0 then wrap64 (available - penalty) else available)
      in if available < 0 then 0 else available)"

subsection \<open>The measurements\<close>

text \<open>Running a command gives its output or an error.\<close>

type_synonym 'a cmds = "(string list, string res, 'a) prog"

definition runOutput :: "string list \<Rightarrow> string res cmds" where
  "runOutput args = Req args Ret"

record MemorySnapshot =
  sn_Total :: int64
  sn_Allocatable :: int64
  sn_Available :: int64
  sn_PressureLevel :: int
  sn_SwapUsedBytes :: int64

definition totalMemoryBytes :: "int64 res cmds" where
  "totalMemoryBytes =
     bindE (wrapE ''read unified memory capacity: '' (runOutput [''sysctl'', ''-n'', ''hw.memsize''])) (\<lambda>out.
       Ret (case ParseInt (TrimSpace out) of
          None \<Rightarrow> Inl (ErrorString (''invalid unified memory capacity '' @ fmt_q (TrimSpace out)))
        | Some n \<Rightarrow> if n \<le> 0 then Inl (ErrorString (''invalid unified memory capacity '' @ fmt_q (TrimSpace out))) else Inr n))"

text \<open>\<open>total*7/10\<close>; a total above 2\<open>\<^sup>63\<close>/7 bytes would wrap.\<close>

definition allocatableShare :: "int64 \<Rightarrow> int64" where
  "allocatableShare n = (let x = wrap64 (n * 7) in if x \<ge> 0 then x div 10 else - ((- x) div 10))"

definition darwin_AllocatableMemory :: "int64 res cmds" where
  "darwin_AllocatableMemory = bindE totalMemoryBytes (\<lambda>memsize. Ret (Inr (allocatableShare memsize)))"

definition pressureLevel :: "string res \<Rightarrow> int" where
  "pressureLevel out =
     (case out of Inl e \<Rightarrow> memoryPressureNormal
      | Inr text \<Rightarrow> (case ParseInt (TrimSpace text) of None \<Rightarrow> memoryPressureNormal
                     | Some level \<Rightarrow> if level > 0 then level else memoryPressureNormal))"

definition swapUsedBytes :: "scale_float \<Rightarrow> string res \<Rightarrow> int64" where
  "swapUsedBytes scaleFloat out =
     (case out of Inl e \<Rightarrow> 0 | Inr text \<Rightarrow> (case parseSwapUsage scaleFloat text of Inl e \<Rightarrow> 0 | Inr n \<Rightarrow> n))"

definition darwin_MemorySnapshot :: "scale_float \<Rightarrow> MemorySnapshot res cmds" where
  "darwin_MemorySnapshot scaleFloat =
     bindE totalMemoryBytes (\<lambda>memsize.
     bindE (wrapE ''read vm_stat: '' (runOutput [''vm_stat''])) (\<lambda>vmStatOutput.
     bindE (liftE (parseVMStat vmStatOutput)) (\<lambda>(pageSize, pages).
     bindP (runOutput [''sysctl'', ''-n'', ''kern.memorystatus_vm_pressure_level'']) (\<lambda>p.
     bindP (runOutput [''sysctl'', ''-n'', ''vm.swapusage'']) (\<lambda>w.
       Ret (Inr \<lparr>sn_Total = memsize, sn_Allocatable = allocatableShare memsize,
         sn_Available = availableBytes pageSize pages (pressureLevel p) (swapUsedBytes scaleFloat w),
         sn_PressureLevel = pressureLevel p, sn_SwapUsedBytes = swapUsedBytes scaleFloat w\<rparr>))))))"

subsection \<open>The tracker\<close>

abbreviation "memoryWindowSize \<equiv> (3 :: nat)"

definition memoryStaleTolerance :: Duration where
  "memoryStaleTolerance = 30 * second"

record memoryTracker =
  mt_window :: "int64 list"
  mt_lastGood :: Time

definition halfOf :: "int64 \<Rightarrow> int64" where
  "halfOf n = (if n \<ge> 0 then n div 2 else - ((- n) div 2))"

definition clampTo :: "int64 \<Rightarrow> int64 \<Rightarrow> int64" where
  "clampTo allocatable measured =
     (let m = (if measured > allocatable then allocatable else measured) in if m < 0 then 0 else m)"

fun lowest :: "int64 list \<Rightarrow> int64" where
  "lowest (x # xs) = fold (\<lambda>sample published. if sample < published then sample else published) xs x"
| "lowest [] = 0"

definition pushSample :: "int64 list \<Rightarrow> int64 \<Rightarrow> int64 list" where
  "pushSample window m =
     (let w = window @ [m] in if length w > memoryWindowSize then drop (length w - memoryWindowSize) w else w)"

definition observe :: "memoryTracker \<Rightarrow> Time \<Rightarrow> int64 \<Rightarrow> int64 res \<Rightarrow> memoryTracker \<times> int64 \<times> bool" where
  "observe t now allocatableBytes measurement =
     (case measurement of
        Inr measured \<Rightarrow>
          (let w = pushSample (mt_window t) (clampTo allocatableBytes measured)
           in (t\<lparr>mt_window := w, mt_lastGood := now\<rparr>, lowest w, False))
      | Inl e \<Rightarrow>
          if mt_window t = [] \<or> time_Sub now (mt_lastGood t) > memoryStaleTolerance
          then (t\<lparr>mt_window := []\<rparr>, halfOf allocatableBytes, True)
          else (t, lowest (mt_window t), False))"

lemma fold_lowest: "fold (\<lambda>s p. if s < p then s else p) xs (x :: int) = Min (set (x # xs))"
proof -
  have "(\<lambda>s p. if s < p then s else p) = (min :: int \<Rightarrow> int \<Rightarrow> int)" by (auto simp: fun_eq_iff min_def)
  then show ?thesis by (simp only: Min.set_eq_fold)
qed

lemma lowest_Min: "w \<noteq> [] \<Longrightarrow> lowest w = Min (set w)"
  using fold_lowest by (cases w) auto

definition tracker_ok :: "memoryTracker \<Rightarrow> bool" where
  "tracker_ok t \<longleftrightarrow> length (mt_window t) \<le> memoryWindowSize \<and> (\<forall>m \<in> set (mt_window t). 0 \<le> m)"

lemma clampTo_bounds: "0 \<le> a \<Longrightarrow> 0 \<le> clampTo a m \<and> clampTo a m \<le> a"
  by (simp add: clampTo_def Let_def)

lemma pushSample_ok:
  "pushSample w m \<noteq> []" "m \<in> set (pushSample w m)" "set (pushSample w m) \<subseteq> insert m (set w)"
  "length (pushSample w m) \<le> memoryWindowSize"
  by (auto simp: pushSample_def Let_def dest: in_set_dropD)

text \<open>What is published, and that the window stays small and non-negative.\<close>

lemma observe_ok:
  assumes "tracker_ok t" and "observe t now allocatable m = (t', v, degraded)" and "0 \<le> allocatable"
  shows "tracker_ok t' \<and> 0 \<le> v"
    and "degraded \<Longrightarrow> v = allocatable div 2 \<and> mt_window t' = []"
    and "\<not> degraded \<Longrightarrow> mt_window t' \<noteq> [] \<and> v = Min (set (mt_window t'))"
    and "m = Inr x \<Longrightarrow> v \<le> allocatable \<and> \<not> degraded"
proof -
  define c where "c = clampTo allocatable (projr m)"
  define w where "w = pushSample (mt_window t) c"
  have c: "0 \<le> c" "c \<le> allocatable" using clampTo_bounds [OF assms(3)] by (simp_all add: c_def)
  have w: "w \<noteq> []" "c \<in> set w" "set w \<subseteq> insert c (set (mt_window t))" "length w \<le> 3"
    using pushSample_ok by (auto simp: w_def)
  have good: "t' = t\<lparr>mt_window := w, mt_lastGood := now\<rparr> \<and> v = Min (set w) \<and> \<not> degraded" if "m = Inr y" for y
    using assms(2) that w(1) by (simp add: observe_def w_def c_def Let_def lowest_Min)
  have nn: "\<forall>x \<in> set w. 0 \<le> x" using assms(1) c(1) w(3) by (auto simp: tracker_ok_def)
  have le: "Min (set w) \<le> c" using w(2) by simp
  have ge: "0 \<le> Min (set w)" using w(1) nn by (simp add: Min_ge_iff)
  have old: "mt_window t \<noteq> [] \<Longrightarrow> 0 \<le> Min (set (mt_window t))"
    using assms(1) by (simp add: tracker_ok_def Min_ge_iff)
  show "tracker_ok t' \<and> 0 \<le> v"
  proof (cases m)
    case (Inr y)
    with good [OF Inr] ge nn w show ?thesis by (auto simp: tracker_ok_def)
  next
    case (Inl e)
    with assms old show ?thesis
      by (auto simp: observe_def halfOf_def tracker_ok_def lowest_Min split: if_splits)
  qed
  show "degraded \<Longrightarrow> v = allocatable div 2 \<and> mt_window t' = []"
    using assms(2,3) good by (cases m) (auto simp: observe_def halfOf_def split: if_splits)
  show "\<not> degraded \<Longrightarrow> mt_window t' \<noteq> [] \<and> v = Min (set (mt_window t'))"
    using assms(2) good w(1) by (cases m) (auto simp: observe_def lowest_Min split: if_splits)
  show "m = Inr x \<Longrightarrow> v \<le> allocatable \<and> \<not> degraded"
    using good [of x] le c(2) by auto
qed

end
