(* ===== verification/Go_Path.thy ===== *)
theory Go_Path
  imports Go_Std
begin

section \<open>Package path/filepath\<close>

text \<open>
  \<open>Clean\<close>, \<open>Join\<close>, \<open>IsAbs\<close> and \<open>Rel\<close> on Unix, as the sources use them for the
  directories of an execution and for the artifacts a training run may publish. A path is cleaned
  by its elements: empty ones and \<open>.\<close> are dropped, \<open>..\<close> removes the element before it.
\<close>

definition rooted :: "string \<Rightarrow> bool" where
  "rooted p \<longleftrightarrow> p \<noteq> [] \<and> hd p = CHR ''/''"

fun cleanElements :: "bool \<Rightarrow> string list \<Rightarrow> string list \<Rightarrow> string list" where
  \<comment> \<open>the elements kept so far, the last one first\<close>
  "cleanElements fromRoot kept [] = rev kept"
| "cleanElements fromRoot kept (e # es) =
     (if e = [] \<or> e = ''.'' then cleanElements fromRoot kept es
      else if e = ''..'' then
        (case kept of
           [] \<Rightarrow> cleanElements fromRoot (if fromRoot then [] else [''..'']) es
         | k # ks \<Rightarrow> cleanElements fromRoot (if k = ''..'' then ''..'' # kept else ks) es)
      else cleanElements fromRoot (e # kept) es)"

definition elements :: "string \<Rightarrow> string list" where
  "elements p = cleanElements (rooted p) [] (splitOn (CHR ''/'') p)"

definition pathText :: "bool \<Rightarrow> string list \<Rightarrow> string" where
  "pathText fromRoot es = (if fromRoot then ''/'' @ Join es ''/'' else if es = [] then ''.'' else Join es ''/'')"

definition Clean :: "string \<Rightarrow> string" where
  "Clean p = pathText (rooted p) (elements p)"

definition filepath_Join :: "string list \<Rightarrow> string" where
  "filepath_Join es = (let rest = dropWhile (\<lambda>e. e = []) es in if rest = [] then [] else Clean (Join rest ''/''))"

definition filepath_Dir :: "string \<Rightarrow> string" where
  "filepath_Dir p = Clean (rev (dropWhile (\<lambda>c. c \<noteq> CHR ''/'') (rev p)))"

definition IsAbs :: "string \<Rightarrow> bool" where
  "IsAbs p \<longleftrightarrow> rooted p"

fun commonPrefix :: "'a list \<Rightarrow> 'a list \<Rightarrow> 'a list \<times> 'a list" \<comment> \<open>what is left of both\<close> where
  "commonPrefix (x # xs) (y # ys) = (if x = y then commonPrefix xs ys else (x # xs, y # ys))"
| "commonPrefix xs ys = (xs, ys)"

text \<open>\<open>None\<close> stands for the error ``can't make path relative''.\<close>

definition Rel :: "string \<Rightarrow> string \<Rightarrow> string option" where
  "Rel basepath targpath =
     (if Clean targpath = Clean basepath then Some ''.''
      else if rooted basepath \<noteq> rooted targpath then None
      else case commonPrefix (elements basepath) (elements targpath) of (b, t) \<Rightarrow>
        if b \<noteq> [] \<and> hd b = ''..'' then None
        else Some (Join (replicate (length b) ''..'' @ t) ''/''))"

lemma commonPrefix_split:
  "commonPrefix xs ys = (b, t) \<Longrightarrow> \<exists>p. xs = p @ b \<and> ys = p @ t"
proof (induction xs ys rule: commonPrefix.induct)
  case (1 x xs y ys)
  show ?case
  proof (cases "x = y")
    case True
    with 1 obtain p where "xs = p @ b" "ys = p @ t" by auto
    with True show ?thesis by (intro exI [of _ "x # p"]) simp
  qed (use 1 in auto)
qed auto

lemma cleanElements_plain:
  assumes "list_all (\<lambda>e. e \<noteq> [] \<and> e \<noteq> ''.'' \<and> e \<noteq> ''..'') es"
  shows "cleanElements fromRoot kept es = rev kept @ es"
  using assms by (induction es arbitrary: kept) auto

text \<open>What is kept: no empty element and no \<open>.\<close>; a rooted path keeps no \<open>..\<close> either.\<close>

lemma cleanElements_all:
  assumes "list_all P kept" and "\<And>e. e \<noteq> [] \<Longrightarrow> e \<noteq> ''.'' \<Longrightarrow> e \<noteq> ''..'' \<Longrightarrow> P e"
    and "\<not> fromRoot \<Longrightarrow> P ''..''"
  shows "list_all P (cleanElements fromRoot kept es)"
  using assms
proof (induction es arbitrary: kept)
  case Nil
  then show ?case by (simp add: list_all_iff)
next
  case (Cons e es)
  have "list_all P (case kept of [] \<Rightarrow> if fromRoot then [] else [''..''] | k # ks \<Rightarrow> if k = ''..'' then ''..'' # kept else ks)"
    using Cons.prems by (cases kept) auto
  then show ?case
    using Cons.prems Cons.IH [OF _ Cons.prems(2,3)] by (cases kept) (simp_all del: if_split split: if_split)
qed

lemma splitOn_no_sep: "e \<in> set (splitOn c s) \<Longrightarrow> c \<notin> set e"
proof (induction s arbitrary: e)
  case (Cons d s)
  obtain f fs where "splitOn c s = f # fs" using splitOn_nonempty by (cases "splitOn c s") auto
  with Cons show ?case by (auto split: if_splits)
qed simp

lemma cleanElements_subset: "set (cleanElements fromRoot kept es) \<subseteq> set kept \<union> set es"
  by (induction fromRoot kept es rule: cleanElements.induct) (auto split: list.splits if_splits)

lemma elements_ok:
  "e \<in> set (elements p) \<Longrightarrow> e \<noteq> [] \<and> e \<noteq> ''.'' \<and> (rooted p \<longrightarrow> e \<noteq> ''..'') \<and> CHR ''/'' \<notin> set e"
proof -
  assume e: "e \<in> set (elements p)"
  have "list_all (\<lambda>e. e \<noteq> [] \<and> e \<noteq> ''.'' \<and> (rooted p \<longrightarrow> e \<noteq> ''..'')) (elements p)"
    unfolding elements_def by (rule cleanElements_all) simp_all
  moreover have "e \<in> set (splitOn (CHR ''/'') p)"
    using e cleanElements_subset [of "rooted p" "[]"] by (auto simp: elements_def)
  ultimately show ?thesis using e splitOn_no_sep by (auto simp: list_all_iff)
qed

end
