(* ===== verification/Execution.thy ===== *)
theory Execution
  imports Kube_API Go_Path
begin

section \<open>The execution journal\<close>

text \<open>
  \<open>internal/native/execution/store.go\<close>: the file in which an agent records the one native
  execution it is responsible for, so that a restarted agent can adopt or stop the process and
  never starts a second one. Every operation is a program over file-system calls; the answers
  are unconstrained. A file system that loses what was not flushed gives the requests a meaning
  for crashes. The text of a record is made and read by \<open>encoding/json\<close>, whose two
  functions are the parameter \<open>J\<close>.

  Shown: an operation killed at any point leaves the old or the new journal, never a torn one;
  the memory of the store changes only after the file did; a journal is replaced by another
  execution only after it was cleared; a process identity and a completion are recorded once;
  a journal that is written is read back by the next \<open>Open\<close>; \<open>Open\<close> never keeps the
  lock when it fails.
\<close>

subsection \<open>File-system calls\<close>

datatype fsreq =
    MkdirAllDir string \<comment> \<open>of the directory of a path\<close>
  | OpenLockFile string | ChmodLock | Flock | FlockUnlock | CloseLock
  | OpenState string | StatState | ReadState int | ReadAll | CloseState
  | CreateTemp string | ChmodTemp | WriteTemp string | SyncTemp | CloseTemp | RenameTemp string | RemoveTemp
  | RemoveState string
  | OpenDir string | SyncDir | CloseDir

datatype fsresp =
    FDone
  | FFailed go_error
  | FShort nat go_error \<comment> \<open>a write that failed after some bytes\<close>
  | FSize int
  | FData string

type_synonym 'a fsys = "(fsreq, fsresp, 'a) prog"

definition fsCall :: "fsreq \<Rightarrow> unit res fsys" where
  "fsCall q = Req q (\<lambda>r. Ret (case r of FFailed e \<Rightarrow> Inl e | FShort n e \<Rightarrow> Inl e | _ \<Rightarrow> Inr ()))"

definition fsSize :: "fsreq \<Rightarrow> int res fsys" where
  "fsSize q = Req q (\<lambda>r. Ret (case r of FSize n \<Rightarrow> Inr n | FFailed e \<Rightarrow> Inl e | _ \<Rightarrow> unexpected))"

definition fsData :: "fsreq \<Rightarrow> string res fsys" where
  "fsData q = Req q (\<lambda>r. Ret (case r of FData d \<Rightarrow> Inr d | FFailed e \<Rightarrow> Inl e | _ \<Rightarrow> unexpected))"

lemmas fs_call_defs [prog_simps] = fsCall_def fsSize_def fsData_def

abbreviation "ErrNotExist \<equiv> Sentinel ''file does not exist''"
abbreviation "EWOULDBLOCK \<equiv> Sentinel ''resource temporarily unavailable''"

text \<open>\<open>return errors.Join (err, f ())\<close> where \<open>f\<close> may fail too.\<close>

definition joinAfter :: "go_error \<Rightarrow> unit res fsys \<Rightarrow> 'a res fsys" where
  "joinAfter e p = bindP p (\<lambda>x. Ret (Inl (JoinError (e # (case x of Inl e' \<Rightarrow> [e'] | Inr _ \<Rightarrow> [])))))"

text \<open>\<open>if err := f (); err != nil { return errors.Join (fmt.Errorf (pre + "%w", err), close ()) }\<close>\<close>

definition orClose :: "'a res fsys \<Rightarrow> string \<Rightarrow> unit res fsys \<Rightarrow> ('a \<Rightarrow> 'b res fsys) \<Rightarrow> 'b res fsys" where
  "orClose p pre close f =
     bindP p (\<lambda>x. case x of Inl e \<Rightarrow> joinAfter (WrapError pre e []) close | Inr a \<Rightarrow> f a)"

text \<open>A deferred call whose error is dropped.\<close>

definition deferP :: "unit res fsys \<Rightarrow> 'a fsys \<Rightarrow> 'a fsys" where
  "deferP d p = bindP p (\<lambda>x. bindP d (\<lambda>_. Ret x))"

subsection \<open>Packages filelock and syncdir\<close>

definition TryLock :: "bool res fsys" where
  "TryLock = bindP (fsCall Flock) (\<lambda>x. Ret (case x of
       Inr _ \<Rightarrow> Inr True
     | Inl e \<Rightarrow> if errorsIs e EWOULDBLOCK then Inr False else Inl e))"

definition Unlock :: "unit res fsys" where
  "Unlock = fsCall FlockUnlock"

definition syncdir_Sync :: "string \<Rightarrow> unit res fsys" where
  "syncdir_Sync path =
     bindE (wrapE (''open directory '' @ path @ '': '') (fsCall (OpenDir path))) (\<lambda>_.
     orClose (fsCall SyncDir) (''sync directory '' @ path @ '': '') (fsCall CloseDir) (\<lambda>_.
     wrapE (''close directory '' @ path @ '': '') (fsCall CloseDir)))"

subsection \<open>Records\<close>

definition SchemaVersionV1 :: int where "SchemaVersionV1 = 1"
definition maxStateBytes :: int where "maxStateBytes = 65536"

abbreviation "ErrExecutionBusy \<equiv> Sentinel ''another native execution is recorded''"
abbreviation "ErrStoreLocked \<equiv> Sentinel ''native execution store is locked by another agent''"
abbreviation "ErrStoreClosed \<equiv> Sentinel ''native execution store is closed''"

record Record =
  rec_SchemaVersion :: int
  rec_WorkloadUID :: string
  rec_WorkloadGeneration :: int64
  rec_AssignmentUID :: string
  rec_ExecutionID :: string
  rec_FencingEpoch :: int64
  rec_PID :: int
  rec_ProcessStartToken :: string
  rec_Executable :: string
  rec_RuntimeVersion :: string
  rec_Nonce :: string
  rec_Completed :: bool
  rec_ExitError :: string

record Store =
  st_path :: string
  st_lock :: bool \<comment> \<open>the lock file is not nil\<close>
  st_record :: "Record option"

definition sameExecution :: "Record \<Rightarrow> Record \<Rightarrow> bool" where
  "sameExecution left right \<longleftrightarrow>
     rec_WorkloadUID left = rec_WorkloadUID right
   \<and> rec_WorkloadGeneration left = rec_WorkloadGeneration right
   \<and> rec_AssignmentUID left = rec_AssignmentUID right
   \<and> rec_ExecutionID left = rec_ExecutionID right
   \<and> rec_FencingEpoch left = rec_FencingEpoch right"

definition samePlannedIdentity :: "Record \<Rightarrow> Record \<Rightarrow> bool" where
  "samePlannedIdentity left right \<longleftrightarrow>
     sameExecution left right
   \<and> rec_Executable left = rec_Executable right
   \<and> rec_RuntimeVersion left = rec_RuntimeVersion right
   \<and> rec_Nonce left = rec_Nonce right"

definition processIdentityComplete :: "Record \<Rightarrow> bool" where
  "processIdentityComplete r \<longleftrightarrow>
     rec_PID r > 0 \<and> rec_ProcessStartToken r \<noteq> [] \<and> rec_Executable r \<noteq> [] \<and> rec_RuntimeVersion r \<noteq> []
   \<and> rec_Nonce r \<noteq> []"

definition sameProcess :: "Record \<Rightarrow> Record \<Rightarrow> bool" where
  "sameProcess left right \<longleftrightarrow>
     sameExecution left right
   \<and> rec_PID left = rec_PID right
   \<and> rec_ProcessStartToken left = rec_ProcessStartToken right
   \<and> rec_Executable left = rec_Executable right
   \<and> rec_RuntimeVersion left = rec_RuntimeVersion right
   \<and> rec_Nonce left = rec_Nonce right"

definition validateRecord :: "Record \<Rightarrow> unit res" where
  "validateRecord r =
     (if rec_SchemaVersion r \<noteq> SchemaVersionV1
      then Inl (ErrorString (''unsupported native execution state schema '' @ FormatInt (rec_SchemaVersion r)))
      else if rec_WorkloadUID r = [] \<or> rec_WorkloadGeneration r < 1 \<or> rec_AssignmentUID r = []
         \<or> rec_ExecutionID r = [] \<or> rec_FencingEpoch r < 1
      then Inl (ErrorString ''workload UID/generation, assignment UID, execution ID, and positive fencing epoch are required'')
      else if rec_Executable r = [] \<or> rec_RuntimeVersion r = [] \<or> rec_Nonce r = []
      then Inl (ErrorString ''planned executable, runtime version, and nonce are required'')
      else if (rec_PID r = 0) \<noteq> (rec_ProcessStartToken r = [])
      then Inl (ErrorString ''the PID and process start token must be recorded together'')
      else if rec_Completed r \<and> \<not> processIdentityComplete r
      then Inl (ErrorString ''completed execution requires a complete process identity'')
      else if \<not> rec_Completed r \<and> rec_ExitError r \<noteq> []
      then Inl (ErrorString ''exit error requires a completed execution'')
      else Inr ())"

abbreviation "valid_record r \<equiv> validateRecord r = Inr ()"

text \<open>
  \<open>encoding/json\<close>: the indented text of a record; decoding with unknown fields disallowed
  returns the record and the input that is left, and a second \<open>Decode\<close> of that input is
  \<open>io.EOF\<close> exactly when only JSON white space is left.
\<close>

record jsonlib =
  MarshalIndent :: "Record \<Rightarrow> string res"
  Decode :: "string \<Rightarrow> (Record \<times> string) res"

definition json_space :: "char \<Rightarrow> bool" where
  "json_space c \<longleftrightarrow> byte c \<in> {9, 10, 13, 32}"

definition atEOF :: "string \<Rightarrow> bool" where
  "atEOF rest \<longleftrightarrow> list_all json_space rest"

abbreviation "newline \<equiv> [CHR 0x0A]"

subsection \<open>Operations\<close>

definition syncDirectory :: "string \<Rightarrow> unit res fsys" where
  "syncDirectory path = wrapE ''sync native execution state directory: '' (syncdir_Sync path)"

definition persistTemp :: "string \<Rightarrow> string \<Rightarrow> unit res fsys" \<comment> \<open>\<open>persist\<close> from \<open>CreateTemp\<close> on\<close> where
  "persistTemp path data =
     orClose (fsCall ChmodTemp) ''set native execution state permissions: '' (fsCall CloseTemp) (\<lambda>_.
     orClose (fsCall (WriteTemp (data @ newline))) ''write native execution state: '' (fsCall CloseTemp) (\<lambda>_.
     orClose (fsCall SyncTemp) ''sync native execution state: '' (fsCall CloseTemp) (\<lambda>_.
     bindE (wrapE ''close native execution state: '' (fsCall CloseTemp)) (\<lambda>_.
     bindE (wrapE ''replace native execution state: '' (fsCall (RenameTemp path))) (\<lambda>_.
     syncDirectory (filepath_Dir path))))))"

definition persist :: "jsonlib \<Rightarrow> string \<Rightarrow> Record \<Rightarrow> unit res fsys" where
  "persist J path r =
     bindE (wrapE ''create native execution state directory: '' (fsCall (MkdirAllDir path))) (\<lambda>_.
     bindE (wrapE ''encode native execution state: '' (liftE (MarshalIndent J r))) (\<lambda>data.
     bindE (wrapE ''create temporary native execution state: '' (fsCall (CreateTemp path))) (\<lambda>_.
     deferP (fsCall RemoveTemp) (persistTemp path data))))"

definition Store_Close :: "Store \<Rightarrow> (Store \<times> unit res) fsys" where
  "Store_Close s =
     (if \<not> st_lock s then Ret (s, Inr ())
      else bindP Unlock (\<lambda>u. bindP (fsCall CloseLock) (\<lambda>c.
        Ret (s\<lparr>st_lock := False\<rparr>,
             joinErrors ((case u of Inl e \<Rightarrow> [e] | Inr _ \<Rightarrow> []) @ (case c of Inl e \<Rightarrow> [e] | Inr _ \<Rightarrow> []))))))"

definition closeStore :: "Store \<Rightarrow> unit res fsys" where
  "closeStore s = bindP (Store_Close s) (\<lambda>x. Ret (snd x))"

definition readState :: "jsonlib \<Rightarrow> Store \<Rightarrow> Store res fsys" \<comment> \<open>\<open>Open\<close> from \<open>file.Stat\<close> on\<close> where
  "readState J store =
     orClose (fsSize StatState) ''stat native execution state: '' (closeStore store) (\<lambda>size.
     if size > maxStateBytes
     then joinAfter (ErrorString (''native execution state is '' @ FormatInt size @ '' bytes; maximum is ''
            @ FormatInt maxStateBytes)) (closeStore store)
     else
     orClose (fsData (ReadState (maxStateBytes + 1))) ''read native execution state: '' (closeStore store) (\<lambda>data.
     orClose (liftE (Decode J data)) ''decode native execution state: '' (closeStore store) (\<lambda>(r, rest).
     if \<not> atEOF rest
     then joinAfter (ErrorString ''decode native execution state: trailing data'') (closeStore store)
     else
     orClose (liftE (validateRecord r)) ''validate native execution state: '' (closeStore store) (\<lambda>_.
     Ret (Inr (store\<lparr>st_record := Some r\<rparr>))))))"

definition openState :: "jsonlib \<Rightarrow> Store \<Rightarrow> Store res fsys" \<comment> \<open>\<open>Open\<close> once the lock is held\<close> where
  "openState J store =
     bindP (fsCall (OpenState (st_path store))) (\<lambda>x. case x of
       Inl e \<Rightarrow> if e = ErrNotExist then Ret (Inr store)
                else joinAfter (WrapError ''read native execution state: '' e []) (closeStore store)
     | Inr _ \<Rightarrow> deferP (fsCall CloseState) (readState J store))"

definition Open :: "jsonlib \<Rightarrow> string \<Rightarrow> Store res fsys" where
  "Open J path =
     bindE (wrapE ''create native execution state directory: '' (fsCall (MkdirAllDir path))) (\<lambda>_.
     bindE (wrapE ''open native execution lock: '' (fsCall (OpenLockFile (path @ ''.lock'')))) (\<lambda>_.
     orClose (fsCall ChmodLock) ''set native execution lock permissions: '' (fsCall CloseLock) (\<lambda>_.
     orClose TryLock ''lock native execution store: '' (fsCall CloseLock) (\<lambda>locked.
     if \<not> locked then joinAfter ErrStoreLocked (fsCall CloseLock)
     else openState J \<lparr>st_path = path, st_lock = True, st_record = None\<rparr>))))"

definition Current :: "Store \<Rightarrow> Record option" where
  "Current s = st_record s"

text \<open>Persist a record and, if that succeeds, make it the record of the store.\<close>

definition persistInto :: "jsonlib \<Rightarrow> Store \<Rightarrow> Record \<Rightarrow> (Store \<times> unit res) fsys" where
  "persistInto J s r =
     bindP (persist J (st_path s) r) (\<lambda>x. Ret (case x of
       Inl e \<Rightarrow> (s, Inl e)
     | Inr _ \<Rightarrow> (s\<lparr>st_record := Some r\<rparr>, Inr ())))"

definition refuse :: "Store \<Rightarrow> string \<Rightarrow> (Store \<times> unit res) fsys" where
  "refuse s text = Ret (s, Inl (ErrorString text))"

definition Begin :: "jsonlib \<Rightarrow> Store \<Rightarrow> Record \<Rightarrow> (Store \<times> unit res) fsys" where
  "Begin J s r =
     (case validateRecord r of
        Inl e \<Rightarrow> Ret (s, Inl e)
      | Inr _ \<Rightarrow>
         if \<not> st_lock s then Ret (s, Inl ErrStoreClosed)
         else case st_record s of
           Some c \<Rightarrow>
             if samePlannedIdentity c r then Ret (s, Inr ())
             else Ret (s, Inl (WrapError [] ErrExecutionBusy ('': assignment='' @ rec_AssignmentUID c
                    @ '' execution='' @ rec_ExecutionID c @ '' epoch='' @ FormatInt (rec_FencingEpoch c))))
         | None \<Rightarrow>
             if rec_PID r \<noteq> 0 \<or> rec_ProcessStartToken r \<noteq> []
             then refuse s ''begin requires a planned process identity without PID or start token''
             else persistInto J s r)"

definition updateRecorded :: "jsonlib \<Rightarrow> Store \<Rightarrow> Record \<Rightarrow> Record \<Rightarrow> Record \<Rightarrow> (Store \<times> unit res) fsys" where
  \<comment> \<open>\<open>UpdateProcess\<close> with the record \<open>c\<close> of the same execution\<close>
  "updateRecorded J s c expected process =
     (if rec_Completed c then refuse s ''native execution is already completed''
      else if \<not> sameExecution expected process
      then refuse s ''process state belongs to a different native execution''
      else if rec_Executable c \<noteq> rec_Executable process \<or> rec_RuntimeVersion c \<noteq> rec_RuntimeVersion process
         \<or> rec_Nonce c \<noteq> rec_Nonce process
      then refuse s ''process identity does not match the planned executable, runtime, and nonce''
      else if rec_PID process \<le> 0 \<or> rec_ProcessStartToken process = [] \<or> rec_Executable process = []
         \<or> rec_RuntimeVersion process = [] \<or> rec_Nonce process = []
      then refuse s ''complete process identity is required''
      else if processIdentityComplete c
      then if sameProcess c process then Ret (s, Inr ())
           else refuse s ''refusing to replace an already recorded process identity''
      else persistInto J s process)"

definition UpdateProcess :: "jsonlib \<Rightarrow> Store \<Rightarrow> Record \<Rightarrow> Record \<Rightarrow> (Store \<times> unit res) fsys" where
  "UpdateProcess J s expected process =
     (if \<not> st_lock s then Ret (s, Inl ErrStoreClosed)
      else case st_record s of
        None \<Rightarrow> refuse s ''native execution changed before process state was recorded''
      | Some c \<Rightarrow>
          if \<not> sameExecution c expected
          then refuse s ''native execution changed before process state was recorded''
          else updateRecorded J s c expected process)"

text \<open>The text kept of an exit error, which only shows through \<open>exitErr.Error ()\<close>; \<open>None\<close> is nil.\<close>

definition exitText :: "string option \<Rightarrow> string" where
  "exitText exitErr = (case exitErr of None \<Rightarrow> [] | Some t \<Rightarrow> if 1024 < length t then take 1024 t else t)"

definition completeRecorded :: "jsonlib \<Rightarrow> Store \<Rightarrow> Record \<Rightarrow> string option \<Rightarrow> (Store \<times> unit res) fsys" where
  \<comment> \<open>\<open>Complete\<close> with the record \<open>c\<close> of the same execution\<close>
  "completeRecorded J s c exitErr =
     (if \<not> processIdentityComplete c
      then refuse s ''cannot complete an execution without a recorded process identity''
      else if rec_Completed c
      then if rec_ExitError c = exitText exitErr then Ret (s, Inr ())
           else refuse s ''native execution completion is already recorded''
      else persistInto J s (c\<lparr>rec_Completed := True, rec_ExitError := exitText exitErr\<rparr>))"

definition Complete :: "jsonlib \<Rightarrow> Store \<Rightarrow> Record \<Rightarrow> string option \<Rightarrow> (Store \<times> unit res) fsys" where
  "Complete J s expected exitErr =
     (if \<not> st_lock s then Ret (s, Inl ErrStoreClosed)
      else case st_record s of
        None \<Rightarrow> refuse s ''native execution changed before completion was recorded''
      | Some c \<Rightarrow>
          if \<not> sameExecution c expected
          then refuse s ''native execution changed before completion was recorded''
          else completeRecorded J s c exitErr)"

definition CanAdopt :: "Store \<Rightarrow> Record \<Rightarrow> Record \<Rightarrow> unit res" where
  "CanAdopt s expected observed =
     (if \<not> st_lock s then Inl ErrStoreClosed
      else case st_record s of
        None \<Rightarrow> Inl (ErrorString ''native execution journal does not match the assignment'')
      | Some c \<Rightarrow>
          if \<not> sameExecution c expected
          then Inl (ErrorString ''native execution journal does not match the assignment'')
          else if \<not> processIdentityComplete c \<or> \<not> processIdentityComplete observed \<or> \<not> sameProcess c observed
          then Inl (ErrorString ''observed process identity does not match the durable journal'')
          else Inr ())"

definition removeState :: "string \<Rightarrow> unit res fsys" where
  "removeState path = bindP (fsCall (RemoveState path)) (\<lambda>x. Ret (case x of
       Inl e \<Rightarrow> if e = ErrNotExist then Inr () else Inl (WrapError ''remove native execution state: '' e [])
     | Inr _ \<Rightarrow> Inr ()))"

definition Clear :: "Store \<Rightarrow> Record \<Rightarrow> (Store \<times> unit res) fsys" where
  "Clear s expected =
     (if \<not> st_lock s then Ret (s, Inl ErrStoreClosed)
      else case st_record s of
        None \<Rightarrow> Ret (s, Inr ())
      | Some c \<Rightarrow>
          if \<not> sameExecution c expected then refuse s ''refusing to clear a different native execution''
          else bindP (bindE (removeState (st_path s)) (\<lambda>_. syncDirectory (filepath_Dir (st_path s)))) (\<lambda>x. Ret (case x of
             Inl e \<Rightarrow> (s, Inl e)
           | Inr _ \<Rightarrow> (s\<lparr>st_record := None\<rparr>, Inr ()))))"

subsection \<open>What survives a crash\<close>

text \<open>
  The meaning of the calls for the state file: the content a reader sees, the temporary file and
  whether its data was flushed, the contents that may be found under the name after a power loss,
  and whether a torn content may be found. A rename or a removal takes effect at once but is only
  durable once the directory is flushed; until then both the old and the new content may survive. A
  rename of data that was not flushed may survive as anything.
\<close>

record fs =
  fs_file :: "string option"
  fs_temp :: "string option"
  fs_flushed :: bool
  fs_survivors :: "string option list"
  fs_torn :: bool

fun answered :: "fsresp \<Rightarrow> bool" where
  "answered (FFailed e) = False"
| "answered (FShort n e) = False"
| "answered r = True"

fun fs_step :: "fsreq \<times> fsresp \<Rightarrow> fs \<Rightarrow> fs" where
  "fs_step (CreateTemp p, r) s = (if answered r then s\<lparr>fs_temp := Some [], fs_flushed := False\<rparr> else s)"
| "fs_step (WriteTemp d, r) s =
     (case r of
        FFailed e \<Rightarrow> s
      | FShort n e \<Rightarrow> s\<lparr>fs_temp := Some (take n d), fs_flushed := False\<rparr>
      | _ \<Rightarrow> s\<lparr>fs_temp := Some d, fs_flushed := False\<rparr>)"
| "fs_step (SyncTemp, r) s = (if answered r then s\<lparr>fs_flushed := True\<rparr> else s)"
| "fs_step (RenameTemp p, r) s =
     (if answered r
      then s\<lparr>fs_file := fs_temp s, fs_temp := None, fs_survivors := fs_temp s # fs_survivors s,
             fs_torn := fs_torn s \<or> \<not> fs_flushed s\<rparr>
      else s)"
| "fs_step (RemoveTemp, r) s = (if answered r then s\<lparr>fs_temp := None\<rparr> else s)"
| "fs_step (RemoveState p, r) s =
     (if answered r then s\<lparr>fs_file := None, fs_survivors := None # fs_survivors s\<rparr> else s)"
| "fs_step (SyncDir, r) s = (if answered r then s\<lparr>fs_survivors := [fs_file s]\<rparr> else s)"
| "fs_step (q, r) s = s"

declare fs_step.simps(2) [simp del]

abbreviation "tracks \<equiv> track fs_step"

text \<open>Nothing torn can be found, and what can be found is one of \<open>C\<close>.\<close>

definition within :: "string option set \<Rightarrow> fs \<Rightarrow> bool" where
  "within C s \<longleftrightarrow> \<not> fs_torn s \<and> fs_file s \<in> set (fs_survivors s) \<and> set (fs_survivors s) \<subseteq> C"

definition failure :: "fsresp \<Rightarrow> go_error" where
  "failure r = (case r of FFailed e \<Rightarrow> e | FShort n e \<Rightarrow> e | _ \<Rightarrow> Sentinel [])"

lemma track_fsCall:
  "tracks I Q (fsCall q) s \<longleftrightarrow> I s \<and> (\<forall>r. I (fs_step (q, r) s)
     \<and> Q (fs_step (q, r) s) (if answered r then Inr () else Inl (failure r)))"
proof -
  have "(case r of FFailed e \<Rightarrow> Inl e | FShort n e \<Rightarrow> Inl e | _ \<Rightarrow> Inr ())
      = (if answered r then Inr () else Inl (failure r))" for r
    by (cases r) (auto simp: failure_def)
  then show ?thesis by (simp add: fsCall_def)
qed

lemma track_wrapE:
  "track st I Q (wrapE pre p) s =
     track st I (\<lambda>s' x. I s' \<and> Q s' (case x of Inl e \<Rightarrow> Inl (WrapError pre e []) | Inr a \<Rightarrow> Inr a)) p s"
  by (simp add: wrapE_def track_bindP)

lemma track_orClose:
  "tracks I Q (orClose p pre close f) s =
     tracks I (\<lambda>s' x. case x of Inl e \<Rightarrow> tracks I Q (joinAfter (WrapError pre e []) close) s'
                              | Inr a \<Rightarrow> tracks I Q (f a) s') p s"
proof -
  have "(\<lambda>s' x. tracks I Q (case x of Inl e \<Rightarrow> joinAfter (WrapError pre e []) close | Inr a \<Rightarrow> f a) s')
      = (\<lambda>s' x. case x of Inl e \<Rightarrow> tracks I Q (joinAfter (WrapError pre e []) close) s'
                        | Inr a \<Rightarrow> tracks I Q (f a) s')"
    by (rule ext, rule ext) (simp split: sum.split)
  then show ?thesis by (simp add: orClose_def track_bindP)
qed

lemma track_joinAfter:
  assumes "\<And>s' x. I s' \<Longrightarrow> fs_file s' = fs_file s \<Longrightarrow> Q s' (Inl x)"
  shows "I s \<Longrightarrow> q \<in> {CloseTemp, CloseDir, CloseLock} \<Longrightarrow> tracks I Q (joinAfter e (fsCall q)) s"
  using assms by (auto simp: joinAfter_def track_bindP track_fsCall)

lemma track_deferP:
  "tracks I Q (deferP d p) s = tracks I (\<lambda>s' x. tracks I (\<lambda>s'' _. I s'' \<and> Q s'' x) d s') p s"
  by (simp add: deferP_def track_bindP)

lemmas track_rules = track_fsCall track_wrapE track_orClose track_deferP track_bindE track_bindP

lemma within_steps [simp]:
  "within C (s\<lparr>fs_temp := t\<rparr>) = within C s"
  "within C (s\<lparr>fs_flushed := b\<rparr>) = within C s"
  by (simp_all add: within_def)

lemma within_write: "within C s \<Longrightarrow> within C (fs_step (WriteTemp d, r) s)"
  by (cases r) (auto simp: fs_step.simps(2))

lemma file_write [simp]: "fs_file (fs_step (WriteTemp d, r) s) = fs_file s"
  by (cases r) (auto simp: fs_step.simps(2))

lemma write_done: "answered r \<Longrightarrow> fs_step (WriteTemp d, r) s = s\<lparr>fs_temp := Some d, fs_flushed := False\<rparr>"
  by (cases r) (auto simp: fs_step.simps(2))

lemma syncDirectory_tracks:
  assumes "within C s"
  shows "tracks (within C) (\<lambda>s' x. fs_file s' = fs_file s \<and> (x = Inr () \<longrightarrow> fs_survivors s' = [fs_file s]))
           (syncDirectory p) s"
  using assms by (auto simp: syncDirectory_def syncdir_Sync_def track_rules joinAfter_def within_def)


lemma renamed_tracks:
  assumes "within C s" and "fs_temp s = Some d" and "fs_flushed s" and "Some d \<in> C"
  shows "tracks (within C) (\<lambda>s' x. (fs_file s' = fs_file s \<or> fs_file s' = Some d)
           \<and> (x = Inr () \<longrightarrow> fs_file s' = Some d \<and> fs_survivors s' = [fs_file s']))
         (bindE (wrapE pre (fsCall (RenameTemp p))) (\<lambda>_. syncDirectory q)) s"
proof -
  have "within C (fs_step (RenameTemp p, r) s)" for r
    using assms by (auto simp: within_def)
  moreover have "tracks (within C) (\<lambda>s' x. (fs_file s' = fs_file s \<or> fs_file s' = Some d)
           \<and> (x = Inr () \<longrightarrow> fs_file s' = Some d \<and> fs_survivors s' = [fs_file s']))
        (syncDirectory q) (fs_step (RenameTemp p, r) s)" if "answered r" for r
    by (rule track_mono, rule syncDirectory_tracks [OF calculation]) (use that assms in auto)
  ultimately show ?thesis
    using assms by (simp add: track_rules)
qed

lemma persistTemp_tracks:
  assumes "within C s" and "Some (data @ newline) \<in> C"
  shows "tracks (within C) (\<lambda>s' x. (fs_file s' = fs_file s \<or> fs_file s' = Some (data @ newline))
           \<and> (x = Inr () \<longrightarrow> fs_file s' = Some (data @ newline) \<and> fs_survivors s' = [fs_file s']))
           (persistTemp p data) s"
    (is "tracks _ ?Q _ _")
proof -
  have ren: "tracks (within C) ?Q (bindE (wrapE pre (fsCall (RenameTemp p))) (\<lambda>_. syncDirectory (filepath_Dir p)))
      (s\<lparr>fs_temp := Some (data @ newline), fs_flushed := True\<rparr>)" for pre
    using renamed_tracks [of C "s\<lparr>fs_temp := Some (data @ newline), fs_flushed := True\<rparr>" "data @ newline" pre p "filepath_Dir p"] assms
    by simp
  show ?thesis
    unfolding persistTemp_def
    apply (auto simp: track_orClose track_fsCall track_bindE [of _ _ _ "wrapE x (fsCall CloseTemp)" for x] track_wrapE
       assms within_write write_done ren intro!: track_joinAfter)
    done
qed

lemma persist_tracks:
  assumes "within C s" and "\<And>d. MarshalIndent J r = Inr d \<Longrightarrow> Some (d @ newline) \<in> C"
  shows "tracks (within C) (\<lambda>s' x.
           (fs_file s' = fs_file s \<or> (\<exists>d. MarshalIndent J r = Inr d \<and> fs_file s' = Some (d @ newline)))
         \<and> (x = Inr () \<longrightarrow> (\<exists>d. MarshalIndent J r = Inr d \<and> fs_file s' = Some (d @ newline) \<and> fs_survivors s' = [fs_file s'])))
           (persist J p r) s"
proof (cases "MarshalIndent J r")
  case (Inl e)
  then show ?thesis using assms
    by (simp add: persist_def track_rules liftE_def)
next
  case (Inr d)
  show ?thesis
    unfolding persist_def
    apply (simp add: track_bindE track_wrapE track_fsCall liftE_def Inr assms track_deferP)
    apply (intro allI impI)
    apply (rule track_mono, rule persistTemp_tracks)
    apply (use assms Inr in auto)
    done
qed


subsection \<open>The operations as one type\<close>

text \<open>
  The four operations that write, the record each of them may write, and whether it may remove the
  file.
\<close>

datatype journal_op =
    OpBegin Record
  | OpUpdateProcess Record Record
  | OpComplete Record "string option"
  | OpClear Record

fun perform :: "jsonlib \<Rightarrow> Store \<Rightarrow> journal_op \<Rightarrow> (Store \<times> unit res) fsys" where
  "perform J s (OpBegin r) = Begin J s r"
| "perform J s (OpUpdateProcess expected process) = UpdateProcess J s expected process"
| "perform J s (OpComplete expected exitErr) = Complete J s expected exitErr"
| "perform J s (OpClear expected) = Clear s expected"

fun op_record :: "Store \<Rightarrow> journal_op \<Rightarrow> Record option" where
  "op_record s (OpBegin r) = Some r"
| "op_record s (OpUpdateProcess expected process) = Some process"
| "op_record s (OpComplete expected exitErr) =
     map_option (\<lambda>c. c\<lparr>rec_Completed := True, rec_ExitError := exitText exitErr\<rparr>) (st_record s)"
| "op_record s (OpClear expected) = None"

fun op_clears :: "Store \<Rightarrow> journal_op \<Rightarrow> bool" where
  "op_clears s (OpClear expected) = (\<exists>c. st_record s = Some c \<and> sameExecution c expected)"
| "op_clears s op = False"

definition texts :: "jsonlib \<Rightarrow> Record option \<Rightarrow> string option set" where
  "texts J r = {Some (d @ newline) | d x. r = Some x \<and> MarshalIndent J x = Inr d}"

lemma within_mono: "within C s \<Longrightarrow> C \<subseteq> D \<Longrightarrow> within D s"
  by (auto simp: within_def)

text \<open>The three ways an operation can end: without a call, with an error, with a durable record.\<close>

definition quiet :: "Store \<Rightarrow> fs \<Rightarrow> fs \<Rightarrow> Store \<Rightarrow> unit res \<Rightarrow> bool" where
  "quiet s d d' s' x \<longleftrightarrow> s' = s \<and> d' = d"

definition failed :: "Store \<Rightarrow> Store \<Rightarrow> unit res \<Rightarrow> bool" where
  "failed s s' x \<longleftrightarrow> s' = s \<and> x \<noteq> Inr ()"

definition wrote :: "jsonlib \<Rightarrow> Record \<Rightarrow> Store \<Rightarrow> fs \<Rightarrow> Store \<Rightarrow> unit res \<Rightarrow> bool" where
  "wrote J r s d' s' x \<longleftrightarrow> s' = s\<lparr>st_record := Some r\<rparr> \<and> x = Inr ()
     \<and> fs_file d' \<in> texts J (Some r) \<and> fs_survivors d' = [fs_file d']"

lemma persistInto_tracks:
  assumes "within C d" and "texts J (Some r) \<subseteq> C"
  shows "tracks (within C) (\<lambda>d' (s', x). failed s s' x \<or> wrote J r s d' s' x) (persistInto J s r) d"
proof -
  have "tracks (within C) (\<lambda>d' x.
           (fs_file d' = fs_file d \<or> (\<exists>e. MarshalIndent J r = Inr e \<and> fs_file d' = Some (e @ newline)))
         \<and> (x = Inr () \<longrightarrow> (\<exists>e. MarshalIndent J r = Inr e \<and> fs_file d' = Some (e @ newline) \<and> fs_survivors d' = [fs_file d'])))
        (persist J (st_path s) r) d"
    by (rule persist_tracks) (use assms in \<open>auto simp: texts_def\<close>)
  then show ?thesis
    unfolding persistInto_def track_bindP
    by (rule track_mono) (auto simp: failed_def wrote_def texts_def split: sum.split)
qed

definition outcome :: "jsonlib \<Rightarrow> Store \<Rightarrow> journal_op \<Rightarrow> fs \<Rightarrow> fs \<Rightarrow> Store \<Rightarrow> unit res \<Rightarrow> bool" where
  "outcome J s op d d' s' x \<longleftrightarrow>
     quiet s d d' s' x \<or> failed s s' x
   \<or> (\<exists>r. op_record s op = Some r \<and> wrote J r s d' s' x)
   \<or> op_clears s op \<and> s' = s\<lparr>st_record := None\<rparr> \<and> x = Inr ()"

lemma perform_tracks:
  assumes "within C d" and "texts J (op_record s op) \<subseteq> C" and "op_clears s op \<Longrightarrow> None \<in> C"
  shows "tracks (within C) (\<lambda>d' (s', x). outcome J s op d d' s' x) (perform J s op) d"
proof (cases op)
  case (OpBegin r)
  have "tracks (within C) (\<lambda>d' (s', x). outcome J s op d d' s' x) (persistInto J s r) d"
    by (rule track_mono, rule persistInto_tracks) (use assms OpBegin in \<open>auto simp: outcome_def\<close>)
  then show ?thesis
    using assms OpBegin by (auto simp: Begin_def refuse_def outcome_def quiet_def split: sum.split option.split)
next
  case (OpUpdateProcess e p)
  have "tracks (within C) (\<lambda>d' (s', x). outcome J s op d d' s' x) (persistInto J s p) d"
    by (rule track_mono, rule persistInto_tracks) (use assms OpUpdateProcess in \<open>auto simp: outcome_def\<close>)
  then show ?thesis
    using assms OpUpdateProcess
    by (auto simp: UpdateProcess_def updateRecorded_def refuse_def outcome_def quiet_def split: sum.split option.split)
next
  case (OpComplete e x)
  have "tracks (within C) (\<lambda>d' (s', x). outcome J s op d d' s' x)
      (persistInto J s (c\<lparr>rec_Completed := True, rec_ExitError := exitText x\<rparr>)) d" if "st_record s = Some c" for c
    by (rule track_mono, rule persistInto_tracks) (use assms OpComplete that in \<open>auto simp: outcome_def\<close>)
  then show ?thesis
    using assms OpComplete
    by (auto simp: Complete_def completeRecorded_def refuse_def outcome_def quiet_def split: sum.split option.split)
next
  case (OpClear e)
  have clr: "tracks (within C) (\<lambda>d' x. True) (bindE (removeState p) (\<lambda>_. syncDirectory q)) d"
    if "op_clears s op" for p q
  proof -
    have w: "within C (fs_step (RemoveState p, r) d)" for r
      using assms(1) assms(3) [OF that] by (auto simp: within_def)
    have "tracks (within C) (\<lambda>d' x. True) (syncDirectory q) (fs_step (RemoveState p, r) d)" for r
      by (rule track_mono, rule syncDirectory_tracks [OF w]) simp
    with w assms(1) show ?thesis
      by (auto simp: removeState_def track_bindE track_bindP track_fsCall simp del: fs_step.simps split: if_split)
  qed
  have "tracks (within C) (\<lambda>d' (s', x). outcome J s op d d' s' x)
      (bindP (bindE (removeState (st_path s)) (\<lambda>_. syncDirectory (filepath_Dir (st_path s)))) (\<lambda>x. Ret (case x of
             Inl e \<Rightarrow> (s, Inl e)
           | Inr _ \<Rightarrow> (s\<lparr>st_record := None\<rparr>, Inr ())))) d" if "op_clears s op"
    unfolding track_bindP by (rule track_mono [OF clr [OF that]]) (auto simp: outcome_def failed_def that split: sum.split)
  then show ?thesis
    using assms OpClear by (auto simp: Clear_def refuse_def outcome_def quiet_def split: option.split)
qed

text \<open>
  C10. A crash never tears the journal: when \<open>Begin\<close>, \<open>UpdateProcess\<close>, \<open>Complete\<close> or
  \<open>Clear\<close> is killed at any point, whatever the file system answered so far, the content found
  afterwards is one that could be found before, or the complete text of the record the operation
  writes, or, only for a \<open>Clear\<close> of the recorded execution, no file at all.
\<close>

theorem journal_crash_atomic:
  assumes "\<not> fs_torn d" and "fs_file d \<in> set (fs_survivors d)"
    and "emits (perform J s op) t"
  defines "d' \<equiv> fold fs_step t d"
  shows "\<not> fs_torn d' \<and> (\<forall>c \<in> set (fs_survivors d').
           c \<in> set (fs_survivors d)
         \<or> (\<exists>r e. op_record s op = Some r \<and> MarshalIndent J r = Inr e \<and> c = Some (e @ newline))
         \<or> c = None \<and> op_clears s op)"
proof -
  let ?C = "set (fs_survivors d) \<union> texts J (op_record s op) \<union> (if op_clears s op then {None} else {})"
  have "tracks (within ?C) (\<lambda>d' (s', x). outcome J s op d d' s' x) (perform J s op) d"
    by (rule perform_tracks) (use assms in \<open>auto simp: within_def\<close>)
  from track_emits [OF this assms(3)] have "within ?C d'" by (simp add: d'_def)
  then show ?thesis
    by (auto simp: within_def texts_def split: if_splits)
qed

subsection \<open>Restarts\<close>

text \<open>The file system found after a power loss, and answers that tell the truth about it.\<close>

definition crashed :: "string option \<Rightarrow> fs" where
  "crashed c = \<lparr>fs_file = c, fs_temp = None, fs_flushed = False, fs_survivors = [c], fs_torn = False\<rparr>"

definition honest :: "fs \<Rightarrow> fsreq \<times> fsresp \<Rightarrow> bool" where
  "honest d qr = (case qr of
       (OpenState p, r) \<Rightarrow> (answered r \<longrightarrow> fs_file d \<noteq> None) \<and> (\<not> answered r \<and> failure r = ErrNotExist \<longrightarrow> fs_file d = None)
     | (StatState, FSize n) \<Rightarrow> map_option (\<lambda>c. int (length c)) (fs_file d) = Some n
     | (ReadState n, FData x) \<Rightarrow> map_option (take (nat n)) (fs_file d) = Some x
     | (ReadAll, FData x) \<Rightarrow> fs_file d = Some x
     | (ReadAll, FFailed e) \<Rightarrow> e \<noteq> ErrNotExist
     | _ \<Rightarrow> True)"

function ValidString :: "string \<Rightarrow> bool" \<comment> \<open>\<open>utf8.ValidString\<close>\<close> where
  "ValidString s =
     (if s = [] then True
      else if byte (hd s) < 128 \<or> 1 < rune_len s then ValidString (drop (rune_len s) s)
      else False)"
  by pat_completeness auto
termination
  by (relation "measure length") (auto simp: rune_len_pos)

declare ValidString.simps [simp del]

definition ValidRecordText :: "Record \<Rightarrow> bool" where
  "ValidRecordText r \<longleftrightarrow>
     list_all in_int64 [rec_SchemaVersion r, rec_WorkloadGeneration r, rec_FencingEpoch r, rec_PID r]
   \<and> list_all ValidString [rec_WorkloadUID r, rec_AssignmentUID r, rec_ExecutionID r, rec_ProcessStartToken r,
        rec_Executable r, rec_RuntimeVersion r, rec_Nonce r, rec_ExitError r]"

text \<open>
  What the journal relies on of \<open>encoding/json\<close>: the text of a record whose strings are valid
  UTF-8 (other bytes are replaced by U+FFFD when they are written) is read back as that record.
\<close>

definition json_law :: "jsonlib \<Rightarrow> bool" where
  "json_law J \<longleftrightarrow> (\<forall>r d. ValidRecordText r \<longrightarrow> MarshalIndent J r = Inr d \<longrightarrow> Decode J (d @ newline) = Inr (r, newline))"


lemma safe_True: "safe (\<lambda>h q. True) (\<lambda>h x. True) p h"
  by (induction p arbitrary: h) auto

lemma safe_joinAfter:
  assumes "\<And>h e. Q h (Inl e)"
  shows "safe (\<lambda>h q. True) Q (joinAfter e p) h"
  unfolding joinAfter_def safe_bindP by (rule safe_mono [OF safe_True]) (auto intro: assms)

lemma safe_orClose:
  assumes "\<And>h e. Q h (Inl e)"
  shows "safe (\<lambda>h q. True) Q (orClose p pre close f) h
     = safe (\<lambda>h q. True) (\<lambda>h' x. \<forall>a. x = Inr a \<longrightarrow> safe (\<lambda>h q. True) Q (f a) h') p h"
proof -
  have "(\<lambda>h' x. safe (\<lambda>h q. True) Q (case x of Inl e \<Rightarrow> joinAfter (WrapError pre e []) close | Inr a \<Rightarrow> f a) h')
      = (\<lambda>h' x. \<forall>a. x = Inr a \<longrightarrow> safe (\<lambda>h q. True) Q (f a) h')"
    by (rule ext, rule ext) (simp add: safe_joinAfter assms split: sum.split)
  then show ?thesis by (simp add: orClose_def safe_bindP)
qed

definition reads :: "jsonlib \<Rightarrow> fs \<Rightarrow> Store \<Rightarrow> bool" where
  "reads J d s = (case fs_file d of
       None \<Rightarrow> st_record s = None
     | Some c \<Rightarrow> (\<exists>r rest. Decode J c = Inr (r, rest) \<and> atEOF rest \<and> valid_record r \<and> st_record s = Some r))"

definition opened :: "jsonlib \<Rightarrow> string \<Rightarrow> fs \<Rightarrow> (fsreq \<times> fsresp) list \<Rightarrow> Store res \<Rightarrow> bool" where
  "opened J path d h x \<longleftrightarrow> (\<forall>s. x = Inr s \<longrightarrow> list_all (honest d) h \<longrightarrow> st_path s = path \<and> st_lock s \<and> reads J d s)"

lemma opened_Inl [simp]: "opened J path d h (Inl e)"
  by (simp add: opened_def)

lemma readState_safe:
  assumes "list_all (honest d) h \<longrightarrow> fs_file d \<noteq> None" and "st_path s = path" and "st_lock s"
  shows "safe (\<lambda>h q. True) (opened J path d) (readState J s) h"
  using assms unfolding readState_def
  by (auto simp: safe_orClose fsSize_def fsData_def liftE_def honest_def opened_def reads_def maxStateBytes_def 
    split: fsresp.split intro!: safe_joinAfter)


lemma safe_deferP:
  assumes "\<And>h r x. Q h x \<Longrightarrow> Q (h @ [(q, r)]) x"
  shows "safe (\<lambda>h q. True) Q p h \<Longrightarrow> safe (\<lambda>h q. True) Q (deferP (fsCall q) p) h"
  unfolding deferP_def safe_bindP
  by (erule safe_mono) (auto simp: fsCall_def assms)

lemma opened_snoc: "opened J path d h x \<Longrightarrow> opened J path d (h @ [qr]) x"
  by (auto simp: opened_def)

lemma openState_safe:
  assumes "st_path s = path" and "st_lock s" and "st_record s = None"
  shows "safe (\<lambda>h q. True) (opened J path d) (openState J s) h"
proof -
  have "safe (\<lambda>h q. True) (opened J path d) (deferP (fsCall CloseState) (readState J s)) (h @ [(OpenState p, r)])"
    if "answered r" for r p
    by (rule safe_deferP, erule opened_snoc, rule readState_safe) (use assms that in \<open>auto simp: honest_def\<close>)
  then show ?thesis
    using assms unfolding openState_def safe_bindP
    by (auto simp: fsCall_def opened_def reads_def honest_def failure_def split: fsresp.split intro!: safe_joinAfter)
qed

lemma Open_safe: "safe (\<lambda>h q. True) (opened J path d) (Open J path) []"
  unfolding Open_def
  by (auto simp: safe_bindE safe_wrapE safe_orClose safe_bindP fsCall_def TryLock_def split: fsresp.split sum.split
     intro!: safe_joinAfter openState_safe)

text \<open>
  What a later record keeps of an acknowledged one: the execution and the planned identity, the
  process once one is recorded, and everything once it is completed.
\<close>

definition keeps :: "Record \<Rightarrow> Record \<Rightarrow> bool" where
  "keeps c r \<longleftrightarrow> samePlannedIdentity c r
     \<and> (processIdentityComplete c \<longrightarrow> sameProcess c r)
     \<and> (rec_Completed c \<longrightarrow> r = c)"

lemmas record_relations = sameExecution_def samePlannedIdentity_def sameProcess_def processIdentityComplete_def

lemma keeps_refl [simp]: "keeps c c"
  by (simp add: keeps_def record_relations)

lemma keeps_trans: "keeps a b \<Longrightarrow> keeps b c \<Longrightarrow> keeps a c"
proof -
  assume ab: "keeps a b" and bc: "keeps b c"
  have "samePlannedIdentity a c"
    using ab bc unfolding keeps_def samePlannedIdentity_def sameExecution_def by metis
  moreover have "sameProcess a c" if "processIdentityComplete a"
  proof -
    have p: "sameProcess a b" using ab that by (simp add: keeps_def)
    then have "processIdentityComplete b"
      using that unfolding sameProcess_def processIdentityComplete_def by metis
    then have "sameProcess b c" using bc by (simp add: keeps_def)
    with p show ?thesis unfolding sameProcess_def sameExecution_def by metis
  qed
  ultimately show ?thesis
    using ab bc unfolding keeps_def by blast
qed

definition durable :: "jsonlib \<Rightarrow> Record \<Rightarrow> string option set" where
  "durable J m = {Some (e @ newline) | e r. MarshalIndent J r = Inr e \<and> keeps m r \<and> valid_record r \<and> ValidRecordText r}"

text \<open>
  The calls of a well-behaved agent: the records it passes are valid and it does not clear the
  recorded execution. \<open>UpdateProcess\<close> writes the record it is given without validating it, so
  that the caller does is part of the contract.
\<close>

fun proper :: "Store \<Rightarrow> journal_op \<Rightarrow> bool" where
  "proper s op \<longleftrightarrow> \<not> op_clears s op \<and> (\<forall>r. op_record s op = Some r \<longrightarrow> valid_record r \<and> ValidRecordText r)"

text \<open>
  One step of the agent and its store: an operation that returns, or a kill inside one, followed by
  an \<open>Open\<close> on whatever survived.
\<close>

inductive journal_step :: "jsonlib \<Rightarrow> Store \<times> fs \<Rightarrow> Store \<times> fs \<Rightarrow> bool" for J where
  operate: "proper s op \<Longrightarrow> runs (perform J s op) t (s', x) \<Longrightarrow> journal_step J (s, d) (s', fold fs_step t d)"
| restart: "proper s op \<Longrightarrow> emits (perform J s op) t \<Longrightarrow> fs_torn (fold fs_step t d) \<or> c \<in> set (fs_survivors (fold fs_step t d))
    \<Longrightarrow> runs (Open J path) u (Inr s') \<Longrightarrow> list_all (honest (crashed c)) u \<Longrightarrow> journal_step J (s, d) (s', crashed c)"

definition promised :: "jsonlib \<Rightarrow> Record \<Rightarrow> Store \<times> fs \<Rightarrow> bool" where
  "promised J c sd = (case sd of (s, d) \<Rightarrow> \<exists>m. st_record s = Some m \<and> keeps c m \<and> valid_record m \<and> within (durable J m) d)"

lemma keeps_updated:
  assumes "sameExecution c expected" and "sameExecution expected p" and "\<not> rec_Completed c"
    and "\<not> processIdentityComplete c" and "rec_Executable c = rec_Executable p"
    and "rec_RuntimeVersion c = rec_RuntimeVersion p" and "rec_Nonce c = rec_Nonce p"
  shows "keeps c p"
  using assms by (simp add: keeps_def samePlannedIdentity_def sameExecution_def)

lemma keeps_completed: "\<not> rec_Completed c \<Longrightarrow> keeps c (c\<lparr>rec_Completed := True, rec_ExitError := t\<rparr>)"
  by (simp add: keeps_def record_relations)

definition step_kept :: "jsonlib \<Rightarrow> Record \<Rightarrow> Store \<Rightarrow> fs \<Rightarrow> Store \<times> unit res \<Rightarrow> bool" where
  "step_kept J m s d' y \<longleftrightarrow> st_record (fst y) = Some m
     \<or> (\<exists>r. st_record (fst y) = Some r \<and> keeps m r \<and> valid_record r \<and> within (durable J r) d')"

lemma persistInto_kept:
  assumes "st_record s = Some m" and "within (durable J m) d" and "keeps m r" and "valid_record r" and "ValidRecordText r"
  shows "tracks (within (durable J m)) (step_kept J m s) (persistInto J s r) d"
proof -
  have sub: "texts J (Some r) \<subseteq> durable J m" and self: "texts J (Some r) \<subseteq> durable J r"
    using assms(3-5) keeps_refl unfolding texts_def durable_def by blast+
  show ?thesis
    by (rule track_mono [OF persistInto_tracks [OF assms(2) sub]])
      (use assms self in \<open>auto simp: failed_def wrote_def step_kept_def within_def\<close>)
qed

lemma perform_kept:
  assumes "st_record s = Some m" and "within (durable J m) d" and "proper s op"
  shows "tracks (within (durable J m)) (step_kept J m s) (perform J s op) d"
proof (cases op)
  case (OpBegin r)
  then show ?thesis
    using assms by (auto simp: Begin_def step_kept_def split: sum.split)
next
  case (OpUpdateProcess e p)
  have "tracks (within (durable J m)) (step_kept J m s) (updateRecorded J s m e p) d" if "sameExecution m e"
    using assms OpUpdateProcess that unfolding updateRecorded_def refuse_def
    by (auto simp: step_kept_def intro!: persistInto_kept keeps_updated)
  then show ?thesis
    using assms OpUpdateProcess by (auto simp: UpdateProcess_def step_kept_def refuse_def)
next
  case (OpComplete e x)
  have "tracks (within (durable J m)) (step_kept J m s) (completeRecorded J s m x) d"
    using assms OpComplete unfolding completeRecorded_def refuse_def
    by (auto simp: step_kept_def intro!: persistInto_kept keeps_completed)
  then show ?thesis
    using assms OpComplete by (auto simp: Complete_def step_kept_def refuse_def)
next
  case (OpClear e)
  then show ?thesis
    using assms by (auto simp: Clear_def step_kept_def refuse_def)
qed

lemma promised_step:
  assumes "journal_step J sd sd'" and "promised J c sd" and "json_law J"
  shows "promised J c sd'"
  using assms(1)
proof cases
  case (operate s op t s' x d)
  with assms(2) obtain m where m: "st_record s = Some m" "keeps c m" "valid_record m" "within (durable J m) d"
    by (auto simp: promised_def)
  note tr = perform_kept [OF m(1,4) operate(3)]
  have "within (durable J m) (fold fs_step t d)"
    using track_emits [OF tr runs_emits [OF operate(4)]] .
  moreover have "step_kept J m s (fold fs_step t d) (s', x)"
    using track_runs [OF tr operate(4)] .
  ultimately show ?thesis
    using m operate(2) by (auto simp: promised_def step_kept_def intro: keeps_trans)
next
  case (restart s op t d f path u s')
  with assms(2) obtain m where m: "st_record s = Some m" "keeps c m" "valid_record m" "within (durable J m) d"
    by (auto simp: promised_def)
  have "within (durable J m) (fold fs_step t d)"
    using track_emits [OF perform_kept [OF m(1,4) restart(3)] restart(4)] .
  with restart(5) have "f \<in> durable J m" by (auto simp: within_def)
  then obtain e r where f: "f = Some (e @ newline)" "MarshalIndent J r = Inr e" "keeps m r" "valid_record r" "ValidRecordText r"
    by (auto simp: durable_def)
  have "reads J (crashed f) s'"
    using safe_runs [OF Open_safe restart(6)] restart(7) by (simp add: opened_def)
  with f assms(3) have "st_record s' = Some r"
    by (auto simp: reads_def crashed_def json_law_def)
  moreover have "within (durable J r) (crashed f)"
    using f by (auto simp: within_def crashed_def durable_def)
  ultimately show ?thesis
    using m f restart(2) by (auto simp: promised_def intro: keeps_trans)
qed


subsection \<open>Reading back\<close>

text \<open>A file system on which every call succeeds.\<close>

definition fs_serve :: "fs \<Rightarrow> fsreq \<Rightarrow> fsresp \<times> fs" where
  "fs_serve d q =
     (let r = (case q of
          OpenState p \<Rightarrow> (case fs_file d of None \<Rightarrow> FFailed ErrNotExist | Some c \<Rightarrow> FDone)
        | StatState \<Rightarrow> (case fs_file d of None \<Rightarrow> FFailed ErrNotExist | Some c \<Rightarrow> FSize (int (length c)))
        | ReadState n \<Rightarrow> (case fs_file d of None \<Rightarrow> FFailed ErrNotExist | Some c \<Rightarrow> FData (take (nat n) c))
        | ReadAll \<Rightarrow> (case fs_file d of None \<Rightarrow> FFailed ErrNotExist | Some c \<Rightarrow> FData c)
        | _ \<Rightarrow> FDone)
      in (r, fs_step (q, r) d))"

lemmas exec_rules = exec_bindP wrapE_def bindE_def orClose_def deferP_def fsCall_def fsSize_def fsData_def liftE_def

lemma Open_reads_back:
  assumes "json_law J" and "MarshalIndent J r = Inr e" and "valid_record r" and "ValidRecordText r"
    and "fs_file d = Some (e @ newline)" and "int (length (e @ newline)) \<le> maxStateBytes"
  shows "exec fs_serve (Open J path) d = (Inr \<lparr>st_path = path, st_lock = True, st_record = Some r\<rparr>, d)"
proof -
  have "Decode J (e @ newline) = Inr (r, newline)"
    using assms by (auto simp: json_law_def)
  with assms show ?thesis
    by (simp add: Open_def openState_def readState_def TryLock_def exec_rules fs_serve_def atEOF_def json_space_def
        byte_def maxStateBytes_def)
qed

lemma persist_writes:
  assumes "MarshalIndent J r = Inr e"
  shows "fst (exec fs_serve (persist J path r) d) = Inr ()"
    and "fs_file (snd (exec fs_serve (persist J path r) d)) = Some (e @ newline)"
  using assms
  by (simp_all add: persist_def persistTemp_def syncDirectory_def syncdir_Sync_def exec_rules fs_serve_def
      fs_step.simps(2))

text \<open>
  What \<open>Begin\<close> records, the next \<open>Open\<close> returns: on a file system that works, beginning
  a planned execution on an empty open store succeeds, \<open>Current\<close> is that record, and opening the
  path again gives the same store.
\<close>

theorem journal_roundtrip:
  assumes "json_law J" and "valid_record r" and "ValidRecordText r" and "MarshalIndent J r = Inr e"
    and "int (length e) < maxStateBytes"
    and "st_lock s" and "st_record s = None" and "rec_PID r = 0"
  shows "case exec fs_serve (Begin J s r) d of ((s', x), d') \<Rightarrow>
           x = Inr () \<and> Current s' = Some r
         \<and> fst (exec fs_serve (Open J (st_path s)) d') = Inr s'"
proof -
  have t: "rec_ProcessStartToken r = []"
    using assms(2,8) by (auto simp: validateRecord_def split: if_splits)
  obtain x d' where p: "exec fs_serve (persist J (st_path s) r) d = (x, d')" by fastforce
  then have x: "x = Inr ()" and f: "fs_file d' = Some (e @ newline)"
    using persist_writes [OF assms(4), of "st_path s" d] by simp_all
  have "exec fs_serve (Begin J s r) d = ((s\<lparr>st_record := Some r\<rparr>, Inr ()), d')"
    using assms t p x by (simp add: Begin_def persistInto_def exec_bindP)
  moreover have "exec fs_serve (Open J (st_path s)) d'
      = (Inr \<lparr>st_path = st_path s, st_lock = True, st_record = Some r\<rparr>, d')"
    by (rule Open_reads_back) (use assms f in auto)
  ultimately show ?thesis
    using assms(6) by (simp add: Current_def)
qed

subsection \<open>The lock\<close>

definition lockKept :: "(fsreq \<times> fsresp) list \<Rightarrow> Store res \<Rightarrow> bool" where
  "lockKept t x = (case x of
      Inl e \<Rightarrow> (\<forall>p r. (OpenLockFile p, r) \<in> set t \<and> answered r \<longrightarrow> CloseLock \<in> fst ` set t)
    | Inr s \<Rightarrow> st_lock s \<and> (\<exists>r. (Flock, r) \<in> set t \<and> answered r) \<and> CloseLock \<notin> fst ` set t)"

lemma closeStore_lock:
  "st_lock s \<Longrightarrow> safe (\<lambda>h q. True) lockKept (joinAfter e (closeStore s)) h"
  by (simp add: joinAfter_def closeStore_def Store_Close_def Unlock_def fsCall_def safe_bindP lockKept_def)

lemma closeLock_lock: "safe (\<lambda>h q. True) lockKept (joinAfter e (fsCall CloseLock)) h"
  by (simp add: joinAfter_def fsCall_def safe_bindP lockKept_def)

definition holdsLock :: "(fsreq \<times> fsresp) list \<Rightarrow> bool" where
  "holdsLock h \<longleftrightarrow> (\<exists>r. (Flock, r) \<in> set h \<and> answered r) \<and> CloseLock \<notin> fst ` set h"

lemma holdsLock_snoc: "q \<noteq> CloseLock \<Longrightarrow> holdsLock h \<Longrightarrow> holdsLock (h @ [(q, r)])"
  by (auto simp: holdsLock_def)

lemma readState_lock:
  "st_lock s \<Longrightarrow> holdsLock h \<Longrightarrow> safe (\<lambda>h q. True) lockKept (readState J s) h"
  by (auto simp: readState_def orClose_def safe_bindP fsSize_def fsData_def closeStore_lock holdsLock_snoc
      lockKept_def [of _ "Inr _"] holdsLock_def split: sum.split)


lemma lockKept_snoc: "lockKept h x \<Longrightarrow> lockKept (h @ [(CloseState, r)]) x"
  by (auto simp: lockKept_def split: sum.splits)

lemma openState_lock:
  assumes "st_lock s" and "holdsLock h"
  shows "safe (\<lambda>h q. True) lockKept (openState J s) h"
proof -
  have "holdsLock (h @ [(OpenState p, r)])" for p r
    using assms(2) by (simp add: holdsLock_snoc)
  moreover from this have "lockKept (h @ [(OpenState p, r)]) (Inr s)" for p r
    using assms(1) by (simp add: lockKept_def holdsLock_def)
  moreover have "safe (\<lambda>h q. True) lockKept (deferP (fsCall CloseState) (readState J s)) (h @ [(OpenState p, r)])" for p r
    by (rule safe_deferP, erule lockKept_snoc, rule readState_lock [OF assms(1) calculation(1)])
  ultimately show ?thesis
    using assms(1) by (auto simp: openState_def safe_bindP fsCall_def [of "OpenState x" for x] closeStore_lock split: sum.split)
qed

lemma Open_lock: "safe (\<lambda>h q. True) lockKept (Open J path) []"
  unfolding Open_def
  by (auto simp: safe_bindE safe_wrapE orClose_def safe_bindP TryLock_def fsCall_def [of "MkdirAllDir x" for x]
      fsCall_def [of "OpenLockFile x" for x] fsCall_def [of ChmodLock] fsCall_def [of Flock] closeLock_lock
      holdsLock_def lockKept_def [of _ "Inl _"]
      split: fsresp.split sum.split intro!: openState_lock)

text \<open>
  \<open>Open\<close> hands over the lock exactly when it succeeds: a store is returned only after the
  lock was granted, with the lock file still open, and on every error path an opened lock file has
  been closed.
\<close>

theorem Open_releases_lock:
  assumes "runs (Open J path) t x"
  shows "case x of
      Inl e \<Rightarrow> (\<forall>p r. (OpenLockFile p, r) \<in> set t \<and> answered r \<longrightarrow> CloseLock \<in> fst ` set t)
    | Inr s \<Rightarrow> st_lock s \<and> (\<exists>r. (Flock, r) \<in> set t \<and> answered r) \<and> CloseLock \<notin> fst ` set t"
  using safe_runs [OF Open_lock assms] by (simp add: lockKept_def)

subsection \<open>A concrete encoding\<close>

text \<open>
  An instance of the JSON parameter: every byte is preceded by an \<open>x\<close> and every field ended by
  a full stop.
\<close>

definition exput :: "string \<Rightarrow> string" where
  "exput s = concat (map (\<lambda>c. [CHR ''x'', c]) s) @ ''.''"

fun exget :: "string \<Rightarrow> (string \<times> string) option" where
  "exget (m # rest) =
     (if m = CHR ''.'' then Some ([], rest)
      else case rest of
        [] \<Rightarrow> None
      | c # rest' \<Rightarrow> map_option (\<lambda>(s, r). (c # s, r)) (exget rest'))"
| "exget [] = None"

lemma exget_exput [simp]: "exget (exput s @ rest) = Some (s, rest)"
  by (induction s) (simp_all add: exput_def)

fun exgets :: "nat \<Rightarrow> string \<Rightarrow> (string list \<times> string) option" where
  "exgets 0 s = Some ([], s)"
| "exgets (Suc n) s =
     (case exget s of None \<Rightarrow> None | Some (x, r) \<Rightarrow> map_option (\<lambda>(xs, r'). (x # xs, r')) (exgets n r))"

lemma exgets_exput: "exgets (length xs) (concat (map exput xs) @ rest) = Some (xs, rest)"
  by (induction xs) simp_all

definition exfields :: "Record \<Rightarrow> string list" where
  "exfields r = [FormatInt (rec_SchemaVersion r), rec_WorkloadUID r, FormatInt (rec_WorkloadGeneration r),
     rec_AssignmentUID r, rec_ExecutionID r, FormatInt (rec_FencingEpoch r), FormatInt (rec_PID r),
     rec_ProcessStartToken r, rec_Executable r, rec_RuntimeVersion r, rec_Nonce r,
     (if rec_Completed r then ''true'' else []), rec_ExitError r]"

definition exparse :: "string list \<Rightarrow> Record res" where
  "exparse xs = (case map ParseInt (map ((!) xs) [0, 2, 5, 6]) of
       [Some v, Some g, Some f, Some p] \<Rightarrow>
         Inr \<lparr>rec_SchemaVersion = v, rec_WorkloadUID = xs ! 1, rec_WorkloadGeneration = g, rec_AssignmentUID = xs ! 3,
           rec_ExecutionID = xs ! 4, rec_FencingEpoch = f, rec_PID = p, rec_ProcessStartToken = xs ! 7,
           rec_Executable = xs ! 8, rec_RuntimeVersion = xs ! 9, rec_Nonce = xs ! 10,
           rec_Completed = (xs ! 11 \<noteq> []), rec_ExitError = xs ! 12\<rparr>
     | _ \<Rightarrow> Inl (ErrorString ''invalid character''))"

definition exjson :: jsonlib where
  "exjson = \<lparr>MarshalIndent = (\<lambda>r. Inr (concat (map exput (exfields r)))),
     Decode = (\<lambda>s. case exgets 13 s of
        None \<Rightarrow> Inl (ErrorString ''unexpected end of JSON input'')
      | Some (xs, rest) \<Rightarrow> bind_res (exparse xs) (\<lambda>r. Inr (r, rest)))\<rparr>"

lemma exparse_exfields: "ValidRecordText r \<Longrightarrow> exparse (exfields r) = Inr r"
  by (simp add: exparse_def exfields_def ValidRecordText_def ParseInt_FormatInt)

lemma json_law_ex: "json_law exjson"
proof -
  have "exgets 13 (concat (map exput (exfields r)) @ newline) = Some (exfields r, newline)" for r
  proof -
    have "length (exfields r) = 13" by (simp add: exfields_def)
    then show ?thesis using exgets_exput [of "exfields r" newline] by simp
  qed
  then show ?thesis
    by (simp add: json_law_def exjson_def exparse_exfields)
qed

definition exrecord :: Record where
  "exrecord = \<lparr>rec_SchemaVersion = 1, rec_WorkloadUID = ''w'', rec_WorkloadGeneration = 1, rec_AssignmentUID = ''a'',
     rec_ExecutionID = ''e'', rec_FencingEpoch = 7, rec_PID = 0, rec_ProcessStartToken = [], rec_Executable = ''llama'',
     rec_RuntimeVersion = ''1'', rec_Nonce = ''n'', rec_Completed = False, rec_ExitError = []\<rparr>"

definition exprocess :: Record where
  "exprocess = exrecord\<lparr>rec_PID := 42, rec_ProcessStartToken := ''t''\<rparr>"

definition extext :: "Record \<Rightarrow> string" where
  "extext r = concat (map exput (exfields r)) @ newline"

definition exstore :: "Record option \<Rightarrow> Store" where
  "exstore r = \<lparr>st_path = ''state'', st_lock = True, st_record = r\<rparr>"

text \<open>The agent is killed between the rename and the flush of the directory, and restarted.\<close>

definition exkilled :: "(fsreq \<times> fsresp) list" where
  "exkilled = feed (UpdateProcess exjson (exstore (Some exrecord)) exrecord exprocess) (replicate 7 FDone)"

definition exreopened :: "fsresp list" where
  "exreopened = replicate 5 FDone @ [FSize (int (length (extext exprocess))), FData (extext exprocess), FDone]"

lemma exrecord_ok: "valid_record exrecord" "ValidRecordText exrecord" "valid_record exprocess" "ValidRecordText exprocess"
  by code_simp+

lemma exkilled_eq:
  "exkilled = map (\<lambda>q. (q, FDone)) [MkdirAllDir ''state'', CreateTemp ''state'', ChmodTemp, WriteTemp (extext exprocess),
     SyncTemp, CloseTemp, RenameTemp ''state'']"
  by (simp add: exkilled_def UpdateProcess_def updateRecorded_def exstore_def exrecord_def exprocess_def
      record_relations persistInto_def persist_def persistTemp_def wrapE_def fsCall_def liftE_def deferP_def
      orClose_def exjson_def extext_def numeral_eq_Suc)

lemma exkilled_survivors:
  "fs_survivors (fold fs_step exkilled (crashed c)) = [Some (extext exprocess), c]"
  "fs_torn (fold fs_step exkilled (crashed c)) = False"
  by (simp_all add: exkilled_eq crashed_def fs_step.simps(2))

lemma exdecode: "Decode exjson (extext exprocess) = Inr (exprocess, newline)"
  using json_law_ex exrecord_ok(4) by (simp add: json_law_def exjson_def extext_def)

lemma extext_small: "int (length (extext exprocess)) \<le> maxStateBytes"
  by code_simp

lemmas Open_eval = Open_def openState_def readState_def TryLock_def wrapE_def fsCall_def fsSize_def fsData_def liftE_def
  orClose_def deferP_def atEOF_def json_space_def byte_def exreopened_def numeral_eq_Suc

lemma exreopened_runs:
  "runs (Open exjson ''state'') (feed (Open exjson ''state'') exreopened) (Inr (exstore (Some exprocess)))"
  by (rule runs_feed) (use extext_small in \<open>simp add: Open_eval exdecode exrecord_ok exstore_def\<close>)

lemma exreopened_honest: "list_all (honest (crashed (Some (extext exprocess)))) (feed (Open exjson ''state'') exreopened)"
  using extext_small
  by (simp add: Open_eval exdecode exrecord_ok honest_def crashed_def)

lemma exrestart:
  "journal_step exjson (exstore (Some exrecord), crashed (Some (extext exrecord)))
     (exstore (Some exprocess), crashed (Some (extext exprocess)))"
proof (rule journal_step.restart [where op = "OpUpdateProcess exrecord exprocess", OF _ _ _ exreopened_runs exreopened_honest])
  show "emits (perform exjson (exstore (Some exrecord)) (OpUpdateProcess exrecord exprocess)) exkilled"
    by (simp add: exkilled_def emits_feed)
qed (use exkilled_survivors exrecord_ok in simp_all)


theorem journal_crash_atomic_witness:
  "set (fs_survivors (fold fs_step exkilled (crashed (Some (extext exrecord)))))
     \<subseteq> {Some (extext exrecord), Some (extext exprocess)}"
proof -
  have "emits (perform exjson (exstore (Some exrecord)) (OpUpdateProcess exrecord exprocess)) exkilled"
    by (simp add: exkilled_def emits_feed)
  from journal_crash_atomic [OF _ _ this, of "crashed (Some (extext exrecord))"] show ?thesis
    by (auto simp: crashed_def exjson_def extext_def)
qed


theorem journal_roundtrip_witness:
  "fst (exec fs_serve (Open exjson ''state'') (snd (exec fs_serve (Begin exjson (exstore None) exrecord) (crashed None))))
     = Inr (fst (fst (exec fs_serve (Begin exjson (exstore None) exrecord) (crashed None))))"
proof -
  have "int (length (concat (map exput (exfields exrecord)))) < maxStateBytes" by code_simp
  from journal_roundtrip [OF json_law_ex exrecord_ok(1,2) _ this, of "exstore None" "crashed None"] show ?thesis
    by (simp add: exjson_def exstore_def exrecord_def split: prod.splits)
qed

theorem Open_releases_lock_witness:
  "CloseLock \<in> fst ` set (feed (Open exjson ''state'') (replicate 5 FDone @ [FSize 70000, FDone, FDone, FDone]))"
proof -
  let ?rs = "replicate 5 FDone @ [FSize 70000, FDone, FDone, FDone]"
  have r: "feed_result (Open exjson ''state'') ?rs
      = Some (Inl (JoinError [ErrorString ''native execution state is 70000 bytes; maximum is 65536'']))"
    by code_simp
  have "(OpenLockFile ''state.lock'', FDone) \<in> set (feed (Open exjson ''state'') ?rs)" by code_simp
  moreover have "answered FDone" by simp
  ultimately show ?thesis
    using Open_releases_lock [OF runs_feed [OF r]] unfolding sum.case by blast
qed
end
