(* ===== verification/Journal.thy ===== *)
theory Journal
  imports Execution
begin

section \<open>The journal as its clients see it\<close>

text \<open>
  The execution journal as its clients use it. \<open>decide\<close> is the control flow of the operations of
  \<open>internal/native/execution/store.go\<close> with the file-system calls left out: an operation is refused,
  has nothing to do, writes one record or removes the record. The agent is written over it, with
  one request for a write and one for a removal, and \<open>fileJournal\<close> puts the files under them
  (\<open>operate_files\<close>). What the journal promises is stated independently of both: \<open>life\<close> is the
  lifecycle of an execution, and every operation that succeeds is a step of it.
\<close>

subsection \<open>Decisions\<close>

datatype decision =
    Refused go_error
  | Kept \<comment> \<open>already in effect\<close>
  | Writes Record
  | Erases

fun decide :: "bool \<Rightarrow> Record option \<Rightarrow> journal_op \<Rightarrow> decision" where
  "decide isOpen c (OpBegin r) =
     (case validateRecord r of
        Inl e \<Rightarrow> Refused e
      | Inr _ \<Rightarrow>
         if \<not> isOpen then Refused ErrStoreClosed
         else case c of
           Some c \<Rightarrow>
             if samePlannedIdentity c r then Kept
             else Refused (WrapError [] ErrExecutionBusy ('': assignment='' @ rec_AssignmentUID c
                    @ '' execution='' @ rec_ExecutionID c @ '' epoch='' @ FormatInt (rec_FencingEpoch c)))
         | None \<Rightarrow>
             if rec_PID r \<noteq> 0 \<or> rec_ProcessStartToken r \<noteq> []
             then Refused (ErrorString ''begin requires a planned process identity without PID or start token'')
             else Writes r)"
| "decide isOpen c (OpUpdateProcess expected process) =
     (if \<not> isOpen then Refused ErrStoreClosed
      else case c of
        None \<Rightarrow> Refused (ErrorString ''native execution changed before process state was recorded'')
      | Some c \<Rightarrow>
          if \<not> sameExecution c expected
          then Refused (ErrorString ''native execution changed before process state was recorded'')
          else if rec_Completed c then Refused (ErrorString ''native execution is already completed'')
          else if \<not> sameExecution expected process
          then Refused (ErrorString ''process state belongs to a different native execution'')
          else if rec_Executable c \<noteq> rec_Executable process \<or> rec_RuntimeVersion c \<noteq> rec_RuntimeVersion process
             \<or> rec_Nonce c \<noteq> rec_Nonce process
          then Refused (ErrorString ''process identity does not match the planned executable, runtime, and nonce'')
          else if \<not> processIdentityComplete process
          then Refused (ErrorString ''complete process identity is required'')
          else if processIdentityComplete c
          then if sameProcess c process then Kept
               else Refused (ErrorString ''refusing to replace an already recorded process identity'')
          else Writes process)"
| "decide isOpen c (OpComplete expected exitErr) =
     (if \<not> isOpen then Refused ErrStoreClosed
      else case c of
        None \<Rightarrow> Refused (ErrorString ''native execution changed before completion was recorded'')
      | Some c \<Rightarrow>
          if \<not> sameExecution c expected
          then Refused (ErrorString ''native execution changed before completion was recorded'')
          else if \<not> processIdentityComplete c
          then Refused (ErrorString ''cannot complete an execution without a recorded process identity'')
          else if rec_Completed c
          then if rec_ExitError c = exitText exitErr then Kept
               else Refused (ErrorString ''native execution completion is already recorded'')
          else Writes (c\<lparr>rec_Completed := True, rec_ExitError := exitText exitErr\<rparr>))"
| "decide isOpen c (OpClear expected) =
     (if \<not> isOpen then Refused ErrStoreClosed
      else case c of
        None \<Rightarrow> Kept
      | Some c \<Rightarrow>
          if \<not> sameExecution c expected then Refused (ErrorString ''refusing to clear a different native execution'')
          else Erases)"

definition eraseFile :: "string \<Rightarrow> unit res fsys" where
  "eraseFile path = bindE (removeState path) (\<lambda>_. syncDirectory (filepath_Dir path))"

text \<open>A decision carried out on a store.\<close>

definition follow :: "jsonlib \<Rightarrow> Store \<Rightarrow> decision \<Rightarrow> (Store \<times> unit res) fsys" where
  "follow J s d =
     (case d of
        Refused e \<Rightarrow> Ret (s, Inl e)
      | Kept \<Rightarrow> Ret (s, Inr ())
      | Writes r \<Rightarrow> persistInto J s r
      | Erases \<Rightarrow> bindP (eraseFile (st_path s)) (\<lambda>x. Ret (case x of
             Inl e \<Rightarrow> (s, Inl e)
           | Inr _ \<Rightarrow> (s\<lparr>st_record := None\<rparr>, Inr ()))))"

text \<open>
  The decisions are those of the store: for every operation, on every store and with every argument, the
  code makes exactly the file-system calls of the decision, in the same order and with the same
  results, and returns the store and the error of the decision.
\<close>

lemma perform_follow: "perform J s op = follow J s (decide (st_lock s) (st_record s) op)"
proof (cases op)
  case (OpBegin r)
  then show ?thesis
    by (auto simp: Begin_def follow_def refuse_def split: sum.split option.split)
next
  case (OpUpdateProcess e p)
  then show ?thesis
    by (auto simp: UpdateProcess_def updateRecorded_def follow_def refuse_def processIdentityComplete_def split: option.split)
next
  case (OpComplete e x)
  then show ?thesis
    by (auto simp: Complete_def completeRecorded_def follow_def refuse_def split: option.split)
next
  case (OpClear e)
  then show ?thesis
    by (auto simp: Clear_def follow_def refuse_def eraseFile_def split: option.split)
qed

subsection \<open>What a client may rely on\<close>

text \<open>
  The decisions as an interface: a decision function with the laws the agent's proofs use. A record
  appears only for a planned execution with nothing recorded, is only refined afterwards, and goes
  away only by a removal of the same execution.
\<close>

definition recordAfter :: "decision \<Rightarrow> Record option \<Rightarrow> Record option" where
  "recordAfter d c = (case d of Writes r \<Rightarrow> Some r | Erases \<Rightarrow> None | _ \<Rightarrow> c)"

locale journal =
  fixes verdict :: "bool \<Rightarrow> Record option \<Rightarrow> journal_op \<Rightarrow> decision"
  assumes begin_writes: "verdict b c (OpBegin r) = Writes x
        \<Longrightarrow> c = None \<and> x = r \<and> rec_PID r = 0 \<and> rec_ProcessStartToken r = [] \<and> valid_record r"
    and begin_kept: "verdict b c (OpBegin r) = Kept \<Longrightarrow> \<exists>k. c = Some k \<and> samePlannedIdentity k r"
    and writes: "verdict b c op = Writes x \<Longrightarrow> (\<exists>r. op = OpBegin r) \<or> (\<exists>k. c = Some k \<and> keeps k x)"
    and erases: "verdict b c op = Erases \<Longrightarrow> \<exists>k e. op = OpClear e \<and> c = Some k \<and> sameExecution k e"
    and clear_kept: "verdict b c (OpClear e) = Kept \<Longrightarrow> c = None"
    and clear_writes: "verdict b c (OpClear e) \<noteq> Writes x"
begin

text \<open>After an accepted \<open>Begin\<close> the planned execution is the one recorded.\<close>

lemma begin_recorded:
  assumes "verdict b c (OpBegin r) = d" and "\<forall>e. d \<noteq> Refused e"
  shows "\<exists>k. recordAfter d c = Some k \<and> samePlannedIdentity k r"
proof (cases d)
  case (Writes x)
  with assms begin_writes have "x = r" by blast
  with Writes show ?thesis by (simp add: recordAfter_def samePlannedIdentity_def sameExecution_def)
qed (use assms begin_kept in \<open>auto simp: recordAfter_def dest: erases\<close>)

text \<open>A record only changes into one that keeps it, unless it is cleared.\<close>

lemma record_kept:
  assumes "verdict b (Some c) op = d" and "\<forall>e. op \<noteq> OpClear e"
  shows "\<exists>k. recordAfter d (Some c) = Some k \<and> keeps c k"
proof (cases d)
  case (Writes x)
  with assms writes begin_writes have "keeps c x" by blast
  with Writes show ?thesis by (simp add: recordAfter_def)
qed (use assms in \<open>auto simp: recordAfter_def dest: erases\<close>)

text \<open>After an accepted \<open>Clear\<close> nothing is recorded.\<close>

lemma clear_recorded:
  assumes "verdict b c (OpClear r) = d" and "\<forall>e. d \<noteq> Refused e"
  shows "recordAfter d c = None"
  using assms clear_kept clear_writes by (cases d) (auto simp: recordAfter_def)

end

lemma decide_writes:
  "decide b c op = Writes x \<Longrightarrow> (\<exists>r. op = OpBegin r) \<or> (\<exists>k. c = Some k \<and> keeps k x)"
proof (cases op)
  case (OpUpdateProcess e p)
  assume "decide b c op = Writes x"
  then show ?thesis
    using OpUpdateProcess by (auto split: option.splits if_splits intro!: keeps_updated)
qed (auto split: option.splits if_splits intro: keeps_completed)

lemma decide_erases:
  "decide b c op = Erases \<Longrightarrow> \<exists>k e. op = OpClear e \<and> c = Some k \<and> sameExecution k e"
  by (cases op) (auto split: sum.splits option.splits if_splits)

interpretation store: journal decide
proof unfold_locales
qed (auto dest!: decide_writes decide_erases split: sum.splits option.splits if_splits)

subsection \<open>Requests\<close>

text \<open>
  A client's view of an open journal, and the operations as requests to write or to remove one
  record. \<open>fileJournal\<close> answers these requests with the file-system calls of the store.
\<close>

datatype journal_req = Persist Record | Erase

record Journal =
  jn_open :: bool
  jn_record :: "Record option"

definition operate :: "(journal_req \<Rightarrow> ('q, 'r, unit res) prog) \<Rightarrow> Journal \<Rightarrow> journal_op \<Rightarrow> ('q, 'r, Journal \<times> unit res) prog" where
  "operate ask j op =
     (let d = decide (jn_open j) (jn_record j) op;
          settle = (\<lambda>x. Ret (case x of Inl e \<Rightarrow> (j, Inl e) | Inr _ \<Rightarrow> (j\<lparr>jn_record := recordAfter d (jn_record j)\<rparr>, Inr ())))
      in case d of
        Refused e \<Rightarrow> Ret (j, Inl e)
      | Kept \<Rightarrow> Ret (j, Inr ())
      | Writes r \<Rightarrow> bindP (ask (Persist r)) settle
      | Erases \<Rightarrow> bindP (ask Erase) settle)"

fun fileJournal :: "jsonlib \<Rightarrow> string \<Rightarrow> journal_req \<Rightarrow> unit res fsys" where
  "fileJournal J path (Persist r) = persist J path r"
| "fileJournal J path Erase = eraseFile path"

definition viewOf :: "Store \<Rightarrow> Journal" where
  "viewOf s = \<lparr>jn_open = st_lock s, jn_record = st_record s\<rparr>"

lemma viewOf_select [simp]: "jn_open (viewOf s) = st_lock s" "jn_record (viewOf s) = st_record s"
  by (simp_all add: viewOf_def)

lemma operate_files:
  "bindP (perform J s op) (\<lambda>(s', x). Ret (viewOf s', x)) = operate (fileJournal J (st_path s)) (viewOf s) op"
proof -
  have "bindP (follow J s d) (\<lambda>(s', x). Ret (viewOf s', x)) =
      (case d of
        Refused e \<Rightarrow> Ret (viewOf s, Inl e)
      | Kept \<Rightarrow> Ret (viewOf s, Inr ())
      | Writes r \<Rightarrow> bindP (persist J (st_path s) r) (\<lambda>x. Ret (case x of
           Inl e \<Rightarrow> (viewOf s, Inl e) | Inr _ \<Rightarrow> ((viewOf s)\<lparr>jn_record := Some r\<rparr>, Inr ())))
      | Erases \<Rightarrow> bindP (eraseFile (st_path s)) (\<lambda>x. Ret (case x of
           Inl e \<Rightarrow> (viewOf s, Inl e) | Inr _ \<Rightarrow> ((viewOf s)\<lparr>jn_record := None\<rparr>, Inr ()))))" for d
    by (cases d) (auto simp: follow_def persistInto_def viewOf_def bindP_assoc intro!: arg_cong2 [where f = bindP] ext split: sum.split)
  then show ?thesis
    by (cases "decide (st_lock s) (st_record s) op")
      (simp_all add: perform_follow operate_def, auto simp: recordAfter_def intro!: arg_cong2 [where f = bindP] ext split: sum.split)
qed

subsection \<open>The lifecycle of an execution\<close>

text \<open>
  What the journal promises, without records, error texts or files: one execution at a time is
  planned, then runs as one process, then has ended with one exit text, and is forgotten. An execution is
  named by its workload, assignment and epoch; its plan is the executable, the runtime and
  the nonce; its process is a PID with the token of its start.
\<close>

type_synonym execution = "string \<times> int64 \<times> string \<times> string \<times> int64"
type_synonym plan = "string \<times> string \<times> string"
type_synonym process = "int \<times> string"

datatype life =
    Idle
  | Planned execution plan
  | Running execution plan process
  | Ended execution plan process string

definition executionOf :: "Record \<Rightarrow> execution" where
  "executionOf r = (rec_WorkloadUID r, rec_WorkloadGeneration r, rec_AssignmentUID r, rec_ExecutionID r, rec_FencingEpoch r)"

definition planOf :: "Record \<Rightarrow> plan" where
  "planOf r = (rec_Executable r, rec_RuntimeVersion r, rec_Nonce r)"

definition processOf :: "Record \<Rightarrow> process" where
  "processOf r = (rec_PID r, rec_ProcessStartToken r)"

definition lifeOf :: "Record option \<Rightarrow> life" where
  "lifeOf c = (case c of
       None \<Rightarrow> Idle
     | Some r \<Rightarrow> if rec_Completed r then Ended (executionOf r) (planOf r) (processOf r) (rec_ExitError r)
                 else if 0 < rec_PID r then Running (executionOf r) (planOf r) (processOf r)
                 else Planned (executionOf r) (planOf r))"

fun plannedAs :: "life \<Rightarrow> (execution \<times> plan) option" where
  "plannedAs Idle = None"
| "plannedAs (Planned e p) = Some (e, p)"
| "plannedAs (Running e p q) = Some (e, p)"
| "plannedAs (Ended e p q x) = Some (e, p)"

text \<open>A record that names an execution and its plan, with both or neither of PID and token and an exit only of a process.\<close>

definition complete_plan :: "Record \<Rightarrow> bool" where
  "complete_plan r \<longleftrightarrow> rec_SchemaVersion r = 1 \<and> rec_WorkloadUID r \<noteq> [] \<and> 1 \<le> rec_WorkloadGeneration r
   \<and> rec_AssignmentUID r \<noteq> [] \<and> rec_ExecutionID r \<noteq> [] \<and> 1 \<le> rec_FencingEpoch r
   \<and> rec_Executable r \<noteq> [] \<and> rec_RuntimeVersion r \<noteq> [] \<and> rec_Nonce r \<noteq> []
   \<and> (rec_PID r = 0 \<longleftrightarrow> rec_ProcessStartToken r = [])
   \<and> (rec_Completed r \<longrightarrow> 0 < rec_PID r) \<and> (rec_ExitError r \<noteq> [] \<longrightarrow> rec_Completed r)"

lemma valid_complete_plan: "valid_record r \<longleftrightarrow> complete_plan r"
  by (auto simp: validateRecord_def complete_plan_def processIdentityComplete_def SchemaVersionV1_def)

inductive lives :: "journal_op \<Rightarrow> life \<Rightarrow> life \<Rightarrow> bool" where
  plan_new: "complete_plan r \<Longrightarrow> processOf r = (0, []) \<Longrightarrow> lives (OpBegin r) Idle (Planned (executionOf r) (planOf r))"
| plan_again: "complete_plan r \<Longrightarrow> plannedAs l = Some (executionOf r, planOf r) \<Longrightarrow> lives (OpBegin r) l l"
| start: "executionOf expected = e \<Longrightarrow> executionOf process = e \<Longrightarrow> planOf process = p
    \<Longrightarrow> 0 < fst (processOf process) \<Longrightarrow> snd (processOf process) \<noteq> []
    \<Longrightarrow> lives (OpUpdateProcess expected process) (Planned e p) (Running e p (processOf process))"
| start_again: "executionOf expected = e \<Longrightarrow> executionOf process = e \<Longrightarrow> planOf process = p \<Longrightarrow> processOf process = q
    \<Longrightarrow> lives (OpUpdateProcess expected process) (Running e p q) (Running e p q)"
| finish: "executionOf expected = e \<Longrightarrow> lives (OpComplete expected x) (Running e p q) (Ended e p q (exitText x))"
| finish_again: "executionOf expected = e \<Longrightarrow> lives (OpComplete expected x) (Ended e p q (exitText x)) (Ended e p q (exitText x))"
| clear: "plannedAs l = Some (executionOf expected, p) \<Longrightarrow> lives (OpClear expected) l Idle"
| clear_again: "lives (OpClear expected) Idle Idle"

inductive_simps lives_simps:
  "lives (OpBegin r) l m" "lives (OpUpdateProcess e p) l m" "lives (OpComplete e x) l m" "lives (OpClear e) l m"

lemma identity_simps:
  "sameExecution l r \<longleftrightarrow> executionOf l = executionOf r"
  "samePlannedIdentity l r \<longleftrightarrow> executionOf l = executionOf r \<and> planOf l = planOf r"
  "sameProcess l r \<longleftrightarrow> executionOf l = executionOf r \<and> planOf l = planOf r \<and> processOf l = processOf r"
  by (auto simp: sameExecution_def samePlannedIdentity_def sameProcess_def executionOf_def planOf_def processOf_def)

lemma complete_plan_process: "complete_plan r \<Longrightarrow> processIdentityComplete r \<longleftrightarrow> 0 < rec_PID r"
  by (auto simp: complete_plan_def processIdentityComplete_def)

lemma processOf_simps [simp]: "fst (processOf r) = rec_PID r" "snd (processOf r) = rec_ProcessStartToken r"
  by (simp_all add: processOf_def)

lemma lifeOf_simps:
  "lifeOf None = Idle"
  "rec_Completed r \<Longrightarrow> lifeOf (Some r) = Ended (executionOf r) (planOf r) (processOf r) (rec_ExitError r)"
  "\<not> rec_Completed r \<Longrightarrow> 0 < rec_PID r \<Longrightarrow> lifeOf (Some r) = Running (executionOf r) (planOf r) (processOf r)"
  "\<not> rec_Completed r \<Longrightarrow> \<not> 0 < rec_PID r \<Longrightarrow> lifeOf (Some r) = Planned (executionOf r) (planOf r)"
  by (simp_all add: lifeOf_def)

declare lifeOf_simps(1) [simp]

lemma lifeOf_Idle [simp]: "lifeOf c = Idle \<longleftrightarrow> c = None" "Idle = lifeOf c \<longleftrightarrow> c = None"
  by (auto simp: lifeOf_def split: option.splits if_splits)

lemma plannedAs_lifeOf [simp]: "plannedAs (lifeOf (Some r)) = Some (executionOf r, planOf r)"
  by (simp add: lifeOf_def)

lemma record_completed:
  assumes "complete_plan r" and "0 < rec_PID r"
  shows "complete_plan (r\<lparr>rec_Completed := True, rec_ExitError := x\<rparr>)"
    "lifeOf (Some (r\<lparr>rec_Completed := True, rec_ExitError := x\<rparr>)) = Ended (executionOf r) (planOf r) (processOf r) x"
  using assms by (simp_all add: complete_plan_def lifeOf_def executionOf_def planOf_def processOf_def)

text \<open>The record of a process that is reported to the journal names the execution and has not ended.\<close>

fun unfinished :: "journal_op \<Rightarrow> bool" where
  "unfinished (OpUpdateProcess expected process) \<longleftrightarrow> complete_plan process \<and> \<not> rec_Completed process"
| "unfinished op \<longleftrightarrow> True"

definition recorded_ok :: "Record option \<Rightarrow> bool" where
  "recorded_ok c \<longleftrightarrow> (\<forall>r. c = Some r \<longrightarrow> complete_plan r)"

lemma decide_begin:
  assumes "recorded_ok c" and "decide b c (OpBegin r) = d" and "\<forall>e. d \<noteq> Refused e"
  shows "b \<and> lives (OpBegin r) (lifeOf c) (lifeOf (recordAfter d c)) \<and> recorded_ok (recordAfter d c)"
proof -
  from assms(2,3) have v: "complete_plan r" and b: b by (auto simp: valid_complete_plan [symmetric] split: sum.splits if_splits)
  show ?thesis
  proof (cases c)
    case None
    with assms v b have d: "d = Writes r" and p: "processOf r = (0, [])"
      by (auto simp: valid_complete_plan [symmetric] processOf_def split: if_splits)
    then have "lifeOf (Some r) = Planned (executionOf r) (planOf r)"
      using v by (auto simp: lifeOf_def complete_plan_def processOf_def)
    with None b d v p show ?thesis by (simp add: recordAfter_def recorded_ok_def lifeOf_simps lives.intros)
  next
    case (Some k)
    with assms v b have "d = Kept" "executionOf k = executionOf r" "planOf k = planOf r"
      by (auto simp: valid_complete_plan [symmetric] identity_simps split: if_splits)
    with Some b v assms(1) show ?thesis by (auto simp: recordAfter_def intro: lives.plan_again)
  qed
qed

lemma decide_start:
  assumes "recorded_ok c" and "complete_plan p" and "\<not> rec_Completed p" and "decide b c (OpUpdateProcess e p) = d" and "\<forall>e. d \<noteq> Refused e"
  shows "b \<and> lives (OpUpdateProcess e p) (lifeOf c) (lifeOf (recordAfter d c)) \<and> recorded_ok (recordAfter d c)"
proof -
  from assms(4,5) obtain k where b: b and c: "c = Some k" "executionOf k = executionOf e" "\<not> rec_Completed k"
      "executionOf e = executionOf p" "planOf k = planOf p" "processIdentityComplete p"
    and d: "d = (if processIdentityComplete k then if sameProcess k p then Kept
       else Refused (ErrorString ''refusing to replace an already recorded process identity'') else Writes p)"
    by (auto simp: identity_simps planOf_def split: option.splits if_splits)
  have k: "complete_plan k" using assms(1) c(1) by (simp add: recorded_ok_def)
  have p: "0 < rec_PID p" "rec_ProcessStartToken p \<noteq> []" using c(6) by (simp_all add: processIdentityComplete_def)
  show ?thesis
  proof (cases "processIdentityComplete k")
    case True
    then have run: "d = Kept" "processOf k = processOf p" "0 < rec_PID k"
      using d assms(5) k by (auto simp: identity_simps complete_plan_process split: if_splits)
    with b c k show ?thesis by (simp add: recordAfter_def recorded_ok_def lifeOf_simps lives.start_again)
  next
    case False
    then have "d = Writes p" "\<not> 0 < rec_PID k" using d k by (simp_all add: complete_plan_process)
    with b c p assms(2,3) show ?thesis by (simp add: recordAfter_def recorded_ok_def lifeOf_simps lives.start)
  qed
qed

lemma decide_finish:
  assumes "recorded_ok c" and "decide b c (OpComplete e x) = d" and "\<forall>e. d \<noteq> Refused e"
  shows "b \<and> lives (OpComplete e x) (lifeOf c) (lifeOf (recordAfter d c)) \<and> recorded_ok (recordAfter d c)"
proof -
  from assms(2,3) obtain k where b: b and c: "c = Some k" "executionOf k = executionOf e" "processIdentityComplete k"
    and d: "d = (if rec_Completed k then if rec_ExitError k = exitText x then Kept
       else Refused (ErrorString ''native execution completion is already recorded'')
       else Writes (k\<lparr>rec_Completed := True, rec_ExitError := exitText x\<rparr>))"
    by (auto simp: identity_simps split: option.splits if_splits)
  have k: "complete_plan k" "0 < rec_PID k" using assms(1) c(1,3) by (simp_all add: recorded_ok_def complete_plan_process)
  show ?thesis
  proof (cases "rec_Completed k")
    case True
    then have "d = Kept" "rec_ExitError k = exitText x" using d assms(3) by (auto split: if_splits)
    with True b c k show ?thesis
      using lives.finish_again [of e "executionOf k" x "planOf k" "processOf k"] by (simp add: recordAfter_def recorded_ok_def lifeOf_simps)
  next
    case False
    with d have "d = Writes (k\<lparr>rec_Completed := True, rec_ExitError := exitText x\<rparr>)" by simp
    moreover have "lifeOf c = Running (executionOf e) (planOf k) (processOf k)" using False c k by (simp add: lifeOf_simps)
    ultimately show ?thesis
      using b c(2) record_completed [OF k] by (simp add: recordAfter_def recorded_ok_def lives.finish)
  qed
qed

lemma decide_clear:
  assumes "decide b c (OpClear e) = d" and "\<forall>e. d \<noteq> Refused e"
  shows "b \<and> lives (OpClear e) (lifeOf c) (lifeOf (recordAfter d c)) \<and> recorded_ok (recordAfter d c)"
proof (cases c)
  case None
  with assms show ?thesis by (auto simp: recordAfter_def recorded_ok_def lifeOf_simps intro: lives.intros split: if_splits)
next
  case (Some k)
  with assms have "b" "executionOf k = executionOf e" "d = Erases" by (auto simp: identity_simps split: if_splits)
  with Some show ?thesis
    using lives.clear [of "lifeOf (Some k)" e "planOf k"] by (simp add: recordAfter_def recorded_ok_def lifeOf_simps)
qed

lemma decide_lives:
  assumes "recorded_ok c" and "unfinished op" and "decide b c op = d" and "\<forall>e. d \<noteq> Refused e"
  shows "b \<and> lives op (lifeOf c) (lifeOf (recordAfter d c)) \<and> recorded_ok (recordAfter d c)"
proof (cases op)
  case (OpBegin r)
  with decide_begin [OF assms(1) _ assms(4)] assms(3) show ?thesis by blast
next
  case (OpUpdateProcess e p)
  with decide_start [OF assms(1) _ _ _ assms(4)] assms(2,3) show ?thesis by auto
next
  case (OpComplete e x)
  with decide_finish [OF assms(1) _ assms(4)] assms(3) show ?thesis by blast
next
  case (OpClear e)
  with decide_clear [OF _ assms(4)] assms(3) show ?thesis by blast
qed

lemma lifeOf_cases:
  assumes "recorded_ok c"
  obtains "c = None" "lifeOf c = Idle"
  | k where "c = Some k" "complete_plan k" "rec_Completed k" "0 < rec_PID k" "lifeOf c = Ended (executionOf k) (planOf k) (processOf k) (rec_ExitError k)"
  | k where "c = Some k" "complete_plan k" "\<not> rec_Completed k" "0 < rec_PID k" "lifeOf c = Running (executionOf k) (planOf k) (processOf k)"
  | k where "c = Some k" "complete_plan k" "\<not> rec_Completed k" "\<not> 0 < rec_PID k" "lifeOf c = Planned (executionOf k) (planOf k)"
  using assms by (cases c) (auto simp: recorded_ok_def complete_plan_def lifeOf_def split: if_splits)

lemma decide_accepts:
  assumes "recorded_ok c" and "lives op (lifeOf c) l"
  shows "decide True c op \<noteq> Refused e"
proof (cases op)
  case (OpBegin r)
  with assms have v: "valid_record r" "plannedAs (lifeOf c) = None \<longrightarrow> processOf r = (0, [])"
      "\<And>k. c = Some k \<Longrightarrow> executionOf k = executionOf r \<and> planOf k = planOf r"
    by (auto simp: lives_simps valid_complete_plan)
  then show ?thesis using OpBegin by (cases c) (auto simp: identity_simps lifeOf_simps processOf_def)
next
  case (OpUpdateProcess x p)
  from assms(1) show ?thesis
  proof (cases rule: lifeOf_cases)
    case (3 k)
    with assms OpUpdateProcess have s: "executionOf x = executionOf k" "executionOf p = executionOf k" "planOf p = planOf k" "processOf p = processOf k"
      by (auto simp: lives_simps)
    then have "rec_PID p = rec_PID k" "rec_ProcessStartToken p = rec_ProcessStartToken k" by (simp_all add: processOf_def)
    with s 3 have "processIdentityComplete p" "processIdentityComplete k"
      by (auto simp: processIdentityComplete_def complete_plan_def planOf_def)
    with s 3 OpUpdateProcess show ?thesis by (simp add: identity_simps planOf_def)
  next
    case (4 k)
    with assms OpUpdateProcess have s: "executionOf x = executionOf k" "executionOf p = executionOf k" "planOf p = planOf k"
        "0 < rec_PID p" "rec_ProcessStartToken p \<noteq> []"
      by (auto simp: lives_simps)
    with 4 have "processIdentityComplete p" "\<not> processIdentityComplete k"
      by (auto simp: processIdentityComplete_def complete_plan_def planOf_def)
    with s 4 OpUpdateProcess show ?thesis by (simp add: identity_simps planOf_def)
  qed (use assms OpUpdateProcess in \<open>auto simp: lives_simps\<close>)
next
  case (OpComplete x t)
  from assms(1) show ?thesis
    by (cases rule: lifeOf_cases) (use assms OpComplete in \<open>auto simp: lives_simps identity_simps complete_plan_process\<close>)
next
  case (OpClear x)
  with assms show ?thesis by (cases c) (auto simp: lives_simps identity_simps lifeOf_simps)
qed

text \<open>A decision is carried out completely or the store is left as it was; only a failing call or encoding is in the way.\<close>

definition untroubled :: "(fsreq \<times> fsresp) list \<Rightarrow> bool" where
  "untroubled t \<longleftrightarrow> (\<forall>q r. (q, r) \<in> set t \<longrightarrow> answered r)"

lemma untroubled_simps [simp]:
  "untroubled []" "untroubled (t @ u) \<longleftrightarrow> untroubled t \<and> untroubled u" "untroubled ((q, r) # t) \<longleftrightarrow> answered r \<and> untroubled t"
  by (auto simp: untroubled_def)

definition smooth :: "'a fsys \<Rightarrow> 'a \<Rightarrow> bool" where
  "smooth p a \<longleftrightarrow> (\<forall>t x. runs p t x \<and> untroubled t \<longrightarrow> x = a)"

lemma smooth_Ret [simp]: "smooth (Ret a) b \<longleftrightarrow> a = b"
  by (auto simp: smooth_def)

lemma smooth_fsCall: "smooth (fsCall q) (Inr ())"
  by (auto simp: smooth_def fsCall_def runs_Req_iff) (auto split: fsresp.splits)

lemma smooth_bindP: "smooth p a \<Longrightarrow> smooth (f a) b \<Longrightarrow> smooth (bindP p f) b"
  by (fastforce simp: smooth_def runs_bindP)

lemma smooth_bindE: "smooth p (Inr a) \<Longrightarrow> smooth (f a) b \<Longrightarrow> smooth (bindE p f) b"
  by (auto simp: bindE_def intro: smooth_bindP)

lemma smooth_wrapE: "smooth p (Inr a) \<Longrightarrow> smooth (wrapE pre p) (Inr a)"
  by (auto simp: wrapE_def intro: smooth_bindP)

lemma smooth_orClose: "smooth p (Inr a) \<Longrightarrow> smooth (f a) b \<Longrightarrow> smooth (orClose p pre c f) b"
  by (auto simp: orClose_def intro: smooth_bindP)

lemma smooth_deferP: "smooth p a \<Longrightarrow> smooth (deferP (fsCall q) p) a"
  unfolding deferP_def by (rule smooth_bindP, assumption, rule smooth_bindP [OF smooth_fsCall]) simp

lemmas smooth_intros = smooth_fsCall smooth_bindE smooth_wrapE smooth_orClose smooth_deferP

lemma smooth_syncDirectory: "smooth (syncDirectory p) (Inr ())"
  unfolding syncDirectory_def syncdir_Sync_def by (rule smooth_intros)+

lemma smooth_persist: "MarshalIndent J r = Inr d \<Longrightarrow> smooth (persist J p r) (Inr ())"
  unfolding persist_def persistTemp_def by (rule smooth_intros smooth_syncDirectory | simp add: liftE_def)+

lemma smooth_eraseFile: "smooth (eraseFile p) (Inr ())"
  unfolding eraseFile_def removeState_def
  by (intro smooth_bindE smooth_syncDirectory smooth_bindP [OF smooth_fsCall]) simp

lemma follow_runs:
  assumes "runs (follow J s d) t (s', x)"
  shows "case x of Inl e \<Rightarrow> s' = s | Inr _ \<Rightarrow> (\<forall>e. d \<noteq> Refused e) \<and> s' = s\<lparr>st_record := recordAfter d (st_record s)\<rparr>"
  using assms by (cases d; clarsimp simp: follow_def persistInto_def runs_bindP recordAfter_def; auto simp: recordAfter_def split: sum.splits)

lemma follow_smooth:
  assumes "runs (follow J s d) t (s', Inl e)" and "\<And>r e. d = Writes r \<Longrightarrow> MarshalIndent J r \<noteq> Inl e"
  shows "(\<exists>e. d = Refused e) \<and> t = [] \<or> \<not> untroubled t"
proof (cases d)
  case (Writes r)
  with assms(2) obtain y where "MarshalIndent J r = Inr y" by (cases "MarshalIndent J r") auto
  then have "smooth (follow J s d) (s\<lparr>st_record := Some r\<rparr>, Inr ())"
    unfolding follow_def Writes persistInto_def by (auto intro!: smooth_bindP [OF smooth_persist])
  with assms(1) show ?thesis by (auto simp: smooth_def)
next
  case Erases
  then have "smooth (follow J s d) (s\<lparr>st_record := None\<rparr>, Inr ())"
    unfolding follow_def by (auto intro!: smooth_bindP [OF smooth_eraseFile])
  with assms(1) show ?thesis by (auto simp: smooth_def)
qed (use assms(1) in \<open>auto simp: follow_def\<close>)

lemma decide_record: "decide b (st_record s) op = Writes r \<Longrightarrow> op_record s op = Some r"
  by (cases op) (auto split: sum.splits option.splits if_splits)



end
