(* ===== verification/Agent_Env.thy ===== *)
theory Agent_Env
  imports Host_Memory Journal Go_Path Scheduler
begin

section \<open>The surroundings of a host agent\<close>

text \<open>
  The types of \<open>internal/native/agent\<close>: the configuration and the state of a \<open>DevAgent\<close>, and
  the calls it makes. Besides the API server and the journal these are the \<open>Platform\<close>, the
  processes it starts through \<open>internal/native/devruntime\<close>, the checks and preparations of that
  package, and the directories it removes. The answers are unconstrained, an answer of the wrong kind
  is read as an error. The container log, which no decision depends on, is left out.

  A \<open>Process\<close> is a handle. Starting one is a request after which the agent waits for events: the
  runtime has spawned an operating-system process, the ticker of the lease fired, the context is done,
  or the start returned. The number of events one wait looks at is bounded by \<open>ac_events\<close>; after
  that many the wait ends as if the context were done, so a theorem for all bounds covers every
  finite execution.
\<close>

subsection \<open>Runtime values\<close>

record Layout =
  ly_Venv :: string
  ly_Work :: string
  ly_Runner :: string

record HFModel =
  hfm_Repository :: string
  hfm_Revision :: string
  hfm_ManifestDigest :: string
  hfm_SizeBytes :: int64

record HFModelReceipt =
  hfr_ManifestDigest :: string
  hfr_SizeBytes :: int64
  hfr_Sources :: "(string \<times> string) list" \<comment> \<open>repository and revision\<close>

definition Serves :: "HFModelReceipt \<Rightarrow> HFModel \<Rightarrow> bool" where
  "Serves receipt model \<longleftrightarrow>
     hfr_ManifestDigest receipt = hfm_ManifestDigest model \<and> hfr_SizeBytes receipt = hfm_SizeBytes model
   \<and> list_ex (\<lambda>(repository, revision). repository = hfm_Repository model \<and> revision = hfm_Revision model) (hfr_Sources receipt)"

definition Models :: "HFModelReceipt \<Rightarrow> HFModel list" where
  "Models receipt = map (\<lambda>(repository, revision). \<lparr>hfm_Repository = repository, hfm_Revision = revision,
     hfm_ManifestDigest = hfr_ManifestDigest receipt, hfm_SizeBytes = hfr_SizeBytes receipt\<rparr>) (hfr_Sources receipt)"

record Receipt =
  rcp_ArtifactIdentity :: string
  rcp_ManifestDigest :: string
  rcp_RuntimeVersion :: string

record LocalRuntime = \<comment> \<open>\<open>OllamaRuntime\<close> and \<open>LlamaCppRuntime\<close>\<close>
  lr_Executable :: string
  lr_Version :: string
  lr_MetalTotalMiB :: int64

record LocalModel = \<comment> \<open>\<open>OllamaModel\<close> and \<open>LlamaCppModel\<close>\<close>
  lm_Name :: string
  lm_ManifestDigest :: string
  lm_Family :: string
  lm_Format :: string
  lm_SizeBytes :: int64

definition zero_LocalRuntime :: LocalRuntime where
  "zero_LocalRuntime = \<lparr>lr_Executable = [], lr_Version = [], lr_MetalTotalMiB = 0\<rparr>"

definition zero_LocalModel :: LocalModel where
  "zero_LocalModel = \<lparr>lm_Name = [], lm_ManifestDigest = [], lm_Family = [], lm_Format = [], lm_SizeBytes = 0\<rparr>"

abbreviation "devruntime_RuntimeVersion \<equiv> ''mlx-lm-0.31.3''"

text \<open>The ways a process is started, with the configuration handed to \<open>devruntime\<close>.\<close>

datatype launch =
    StartShell string string string string Duration "string list"
      \<comment> \<open>work directory, script, isolation, network, timeout, denied paths\<close>
  | StartTraining string string string Duration "string list" "string gomap option" string string int32
      \<comment> \<open>work directory, source, network, timeout, denied paths, parameters, run, experiment, attempt\<close>
  | StartOllama LocalRuntime LocalModel int string "string list" Duration
  | StartLlamaCpp LocalRuntime LocalModel int string "string list" Duration string
  | StartMLXServe "HFModel option" int "string list" Duration
  | StartProcess "HFModel option" "string list" Duration string

datatype preparation = PrepareRuntime | PrepareHFModel HFModel | PrepareTrainingRuntime

datatype prepared = PreparedReceipt Receipt | PreparedHF HFModelReceipt | PreparedRuntime string

subsection \<open>Calls\<close>

type_synonym handle = nat

datatype event =
    Spawned int
  | Ticked
  | ContextDone go_error
  | Returned "handle res"
  | PreparedEvent "prepared res"

datatype 'u areq =
    Kube "'u request"
  | WriteJournal journal_req
  | KrunkitRunning
  | AllocatableMemory
  | TakeMemorySnapshot
  | ProcessStartToken int
  | ProcessAlive int
  | FindRunnerPIDs string string
  | KillProcessGroupAndWait int
  | Alive handle
  | Stop handle
  | WaitError handle
  | Launch launch
  | AwaitEvent Duration
  | SpawnHandled "unit res"
  | StartBatchProcess handle string int Duration
  | StartServingRelay handle string
  | VerifyFast
  | VerifyRuntimeFast
  | VerifyHFModelFast HFModel
  | Prepare preparation
  | ResolveOllama
  | ResolveLlamaCpp
  | DiscoverHFModels
  | ConnectivityStatus
  | RemoveAll string
  | ReadDirectories string

datatype 'u aresp =
    KubeA "'u response"
  | DoneA "unit res"
  | BoolA "bool res"
  | QuantityA "Quantity res"
  | TokenA "string res"
  | PidsA "int list res"
  | WaitA "go_error option"
  | HandleA "handle res"
  | EventA event
  | ReceiptA "Receipt res"
  | RuntimeA "string res" \<comment> \<open>the \<open>RuntimeVersion\<close> of a \<open>RuntimeReceipt\<close>\<close>
  | HFReceiptA "HFModelReceipt res"
  | LocalA "(LocalRuntime \<times> LocalModel list \<times> ModelMemoryProfile gomap) res"
  | HFReceiptsA "HFModelReceipt list"
  | ConnectivityA "HostConnectivityStatus \<times> go_error option"
  | DirectoriesA "(string \<times> Time) list res"

definition aKube :: "'u aresp \<Rightarrow> 'u response" where
  "aKube r = (case r of KubeA x \<Rightarrow> x | _ \<Rightarrow> DoneR unexpected)"
definition aDone :: "'u aresp \<Rightarrow> unit res" where
  "aDone r = (case r of DoneA x \<Rightarrow> x | _ \<Rightarrow> unexpected)"
definition aBool :: "'u aresp \<Rightarrow> bool res" where
  "aBool r = (case r of BoolA x \<Rightarrow> x | _ \<Rightarrow> unexpected)"
definition aQuantity :: "'u aresp \<Rightarrow> Quantity res" where
  "aQuantity r = (case r of QuantityA x \<Rightarrow> x | _ \<Rightarrow> unexpected)"
definition aToken :: "'u aresp \<Rightarrow> string res" where
  "aToken r = (case r of TokenA x \<Rightarrow> x | _ \<Rightarrow> unexpected)"
definition aPids :: "'u aresp \<Rightarrow> int list res" where
  "aPids r = (case r of PidsA x \<Rightarrow> x | _ \<Rightarrow> unexpected)"
definition aWait :: "'u aresp \<Rightarrow> go_error option" where
  "aWait r = (case r of WaitA x \<Rightarrow> x | _ \<Rightarrow> Some (Sentinel ''unexpected answer''))"
definition aHandle :: "'u aresp \<Rightarrow> handle res" where
  "aHandle r = (case r of HandleA x \<Rightarrow> x | _ \<Rightarrow> unexpected)"
definition aEvent :: "'u aresp \<Rightarrow> event" where
  "aEvent r = (case r of EventA x \<Rightarrow> x | _ \<Rightarrow> ContextDone (Sentinel ''unexpected answer''))"
definition aReceipt :: "'u aresp \<Rightarrow> Receipt res" where
  "aReceipt r = (case r of ReceiptA x \<Rightarrow> x | _ \<Rightarrow> unexpected)"
definition aRuntime :: "'u aresp \<Rightarrow> string res" where
  "aRuntime r = (case r of RuntimeA x \<Rightarrow> x | _ \<Rightarrow> unexpected)"
definition aHFReceipt :: "'u aresp \<Rightarrow> HFModelReceipt res" where
  "aHFReceipt r = (case r of HFReceiptA x \<Rightarrow> x | _ \<Rightarrow> unexpected)"
definition aLocal :: "'u aresp \<Rightarrow> (LocalRuntime \<times> LocalModel list \<times> ModelMemoryProfile gomap) res" where
  "aLocal r = (case r of LocalA x \<Rightarrow> x | _ \<Rightarrow> unexpected)"
definition aHFReceipts :: "'u aresp \<Rightarrow> HFModelReceipt list" where
  "aHFReceipts r = (case r of HFReceiptsA x \<Rightarrow> x | _ \<Rightarrow> [])"
definition zero_Connectivity :: HostConnectivityStatus where
  "zero_Connectivity = \<lparr>hc_Mode = [], hc_Provider = [], hc_Transport = [], hc_PeerName = [], hc_Address = [],
     hc_InterfaceName = [], hc_LastHandshakeTime = None\<rparr>"
definition aConnectivity :: "'u aresp \<Rightarrow> HostConnectivityStatus \<times> go_error option" where
  "aConnectivity r = (case r of ConnectivityA x \<Rightarrow> x | _ \<Rightarrow> (zero_Connectivity, Some (Sentinel ''unexpected answer'')))"
definition aDirectories :: "'u aresp \<Rightarrow> (string \<times> Time) list res" where
  "aDirectories r = (case r of DirectoriesA x \<Rightarrow> x | _ \<Rightarrow> unexpected)"

lemmas agent_answer_defs = aKube_def aDone_def aBool_def aQuantity_def aToken_def aPids_def aWait_def aHandle_def
  aEvent_def aReceipt_def aRuntime_def aHFReceipt_def aLocal_def aHFReceipts_def aConnectivity_def aDirectories_def

lemma agent_answers [simp]:
  "aKube (KubeA k) = k" "aDone (DoneA d) = d" "aBool (BoolA b) = b" "aQuantity (QuantityA q) = q" "aToken (TokenA t) = t"
  "aPids (PidsA p) = p" "aWait (WaitA w) = w" "aHandle (HandleA h) = h" "aEvent (EventA e) = e" "aReceipt (ReceiptA rc) = rc"
  "aRuntime (RuntimeA rt) = rt" "aHFReceipt (HFReceiptA hf) = hf" "aLocal (LocalA l) = l" "aHFReceipts (HFReceiptsA hs) = hs"
  "aConnectivity (ConnectivityA c) = c" "aDirectories (DirectoriesA ds) = ds"
  by (simp_all add: agent_answer_defs)

lemma aDone_Inr [simp]: "aDone r = Inr x \<longleftrightarrow> r = DoneA (Inr x)"
  by (cases r) (auto simp: agent_answer_defs)

lemma aBool_Inr [simp]: "aBool r = Inr x \<longleftrightarrow> r = BoolA (Inr x)"
  by (cases r) (auto simp: agent_answer_defs)

lemma aPids_Inr [simp]: "aPids r = Inr x \<longleftrightarrow> r = PidsA (Inr x)"
  by (cases r) (auto simp: agent_answer_defs)

lemma aToken_Inr [simp]: "aToken r = Inr x \<longleftrightarrow> r = TokenA (Inr x)"
  by (cases r) (auto simp: agent_answer_defs)

lemma aKube_ObjectR [simp]: "aKube r = ObjectR x \<longleftrightarrow> r = KubeA (ObjectR x)"
  by (cases r) (auto simp: agent_answer_defs)

subsection \<open>The agent\<close>

record 'u AgentConfig =
  ac_lib :: k8slib
  ac_conv :: "'u converter"
  ac_Namespace :: string
  ac_AgentID :: string
  ac_Layout :: Layout
  ac_StateDirectory :: string
  ac_KubeconfigPath :: string
  ac_ServeListenAddress :: string
  ac_PrepareRuntime :: bool \<comment> \<open>these functions are not nil\<close>
  ac_PrepareHFModel :: bool
  ac_PrepareTrainingRuntime :: bool
  ac_ConnectivityStatus :: bool
  ac_render :: "Duration \<Rightarrow> string" \<comment> \<open>the text of a rounded \<open>Duration\<close>\<close>
  ac_events :: nat

record DevAgent =
  da_store :: Journal
  da_process :: "handle option"
  da_assignment :: "IdleloomWorkloadAssignment option"
  da_lastAPISuccess :: Time
  da_runStatus :: "WorkloadRunStatus option"
  da_runProtocolErr :: "go_error option"
  da_memory :: memoryTracker

type_synonym ('u, 'a) agent = "(DevAgent, 'u areq, 'u aresp, 'a) act"

definition callA :: "'u areq \<Rightarrow> ('u aresp \<Rightarrow> 'a) \<Rightarrow> ('u, 'a) agent" where
  "callA q f = doA (Req q (\<lambda>r. Ret (f r)))"

definition kubeA :: "('u, 'a) kube \<Rightarrow> ('u, 'a) agent" where
  "kubeA p = doA (via (\<lambda>q. Req (Kube q) (\<lambda>r. Ret (aKube r))) p)"

lemma wp_callA [simp]: "wp G Q (callA q f) h s \<longleftrightarrow> G h q \<and> (\<forall>r. Q (h @ [(q, r)]) s (f r))"
  by (simp add: callA_def)

lemma wp_kubeA [simp]:
  "wp G Q (kubeA (kGet g ns n)) h a \<longleftrightarrow> G h (Kube (Get g ns n)) \<and> (\<forall>r. Q (h @ [(Kube (Get g ns n), r)]) a (rObject (aKube r)))"
  "wp G Q (kubeA (kUpdateStatus g ns u)) h a
     \<longleftrightarrow> G h (Kube (UpdateStatus g ns u)) \<and> (\<forall>r. Q (h @ [(Kube (UpdateStatus g ns u), r)]) a (rObject (aKube r)))"
  "wp G Qt (kubeA kNow) h a \<longleftrightarrow> G h (Kube Now) \<and> (\<forall>r. Qt (h @ [(Kube Now, r)]) a (rTime (aKube r)))"
  "wp G Qb (kubeA (kRandRead k)) h a \<longleftrightarrow> G h (Kube (RandRead k)) \<and> (\<forall>r. Qb (h @ [(Kube (RandRead k), r)]) a (rBytes (aKube r)))"
  by (simp_all add: kubeA_def call_defs)

definition journalA :: "journal_op \<Rightarrow> ('u, unit res) agent" where
  "journalA op = (\<lambda>a. bindP (operate (\<lambda>j. Req (WriteJournal j) (\<lambda>r. Ret (aDone r))) (da_store a) op)
     (\<lambda>(j, x). Ret (a\<lparr>da_store := j\<rparr>, x)))"

abbreviation "recorded a \<equiv> jn_record (da_store a)"

definition nowA :: "('u, Time) agent" where
  "nowA = kubeA kNow"

lemma wp_conj:
  assumes "wp G Q m h s" and "wp (\<lambda>h q. True) Q' m h s"
  shows "wp G (\<lambda>h s x. Q h s x \<and> Q' h s x) m h s"
  using safe_conj [OF assms [unfolded wp_def]] unfolding wp_def by (rule safe_mono) auto

text \<open>The error of a list of results, as \<open>errors.Join\<close> gives it.\<close>

definition joinResults :: "unit res list \<Rightarrow> unit res" where
  "joinResults xs = joinErrors (concat (map (\<lambda>x. case x of Inl e \<Rightarrow> [e] | Inr _ \<Rightarrow> []) xs))"

definition wrapA :: "string \<Rightarrow> ('u, 'a res) agent \<Rightarrow> ('u, 'a res) agent" where
  "wrapA pre m = bindA m (\<lambda>x. retA (case x of Inl e \<Rightarrow> Inl (WrapError pre e []) | Inr a \<Rightarrow> Inr a))"

definition failA :: "string \<Rightarrow> ('u, 'a res) agent" where
  "failA text = retA (Inl (ErrorString text))"

end
