(* ===== verification/Agent.thy ===== *)
theory Agent
  imports Agent_Env
begin

section \<open>The host agent\<close>

text \<open>
  \<open>internal/native/agent/devagent.go\<close>, \<open>validation.go\<close> and \<open>memory.go\<close>: the agent that
  reads the assignment mailbox of its host, starts and stops the one native process it is responsible
  for, and reports to the API server. Every method is an action on the state of a \<open>DevAgent\<close>;
  the methods that take the mutex of the agent are one action.
\<close>

abbreviation "ErrProcessExited \<equiv> Sentinel ''native process exited unexpectedly''"
abbreviation "ErrProcessCompleted \<equiv> Sentinel ''native process completed''"
abbreviation "ErrInsufficientMemoryAtStart \<equiv> Sentinel ''insufficient available memory to start the model process''"
abbreviation "preStartMarginBytes \<equiv> (536870912 :: int64)"

subsection \<open>Accepting a mailbox\<close>

definition ValidateMailbox :: "k8slib \<Rightarrow> IdleloomWorkloadAssignment \<Rightarrow> IdleloomHost \<Rightarrow> string \<Rightarrow> Record option \<Rightarrow> unit res" where
  "ValidateMailbox L assignment host agentID current =
     (if ValidateHost L host \<noteq> []
      then Inl (WrapError ''validate host mailbox: '' (AggregateError (ValidateHost L host)) [])
      else if ValidateAssignment L assignment \<noteq> []
      then Inl (WrapError ''validate assignment mailbox: '' (AggregateError (ValidateAssignment L assignment)) [])
      else if wa_UID assignment = [] then Inl (ErrorString ''assignment UID is required'')
      else if wa_Namespace assignment \<noteq> ho_Namespace host
      then Inl (ErrorString (''assignment namespace '' @ fmt_q (wa_Namespace assignment) @ '' does not match host namespace '' @ fmt_q (ho_Namespace host)))
      else if or_Name (as_HostRef (wa_Spec assignment)) \<noteq> ho_Name host \<or> or_UID (as_HostRef (wa_Spec assignment)) \<noteq> ho_UID host
      then Inl (ErrorString ''assignment targets a different host identity'')
      else if agentID = [] \<or> hs_AgentID (ho_Spec host) \<noteq> agentID
      then Inl (ErrorString (''agent identity '' @ fmt_q agentID @ '' does not own host mailbox '' @ fmt_q (hs_AgentID (ho_Spec host))))
      else case current of
        None \<Rightarrow> Inr ()
      | Some c \<Rightarrow>
          if as_FencingEpoch (wa_Spec assignment) < rec_FencingEpoch c
          then Inl (ErrorString (''assignment fencing epoch '' @ FormatInt (as_FencingEpoch (wa_Spec assignment))
                 @ '' is older than accepted epoch '' @ FormatInt (rec_FencingEpoch c)))
          else if as_FencingEpoch (wa_Spec assignment) = rec_FencingEpoch c
             \<and> (wa_UID assignment \<noteq> rec_AssignmentUID c \<or> as_ExecutionID (wa_Spec assignment) \<noteq> rec_ExecutionID c)
          then Inl (ErrorString (''assignment reuses fencing epoch '' @ FormatInt (as_FencingEpoch (wa_Spec assignment))
                 @ '' for a different execution''))
          else Inr ())"

subsection \<open>Small functions\<close>

definition finiteAssignment :: "IdleloomWorkloadAssignment \<Rightarrow> bool" where
  "finiteAssignment a \<longleftrightarrow> as_Shell (wa_Spec a) \<noteq> None \<or> as_Training (wa_Spec a) \<noteq> None
     \<or> (case as_Model (wa_Spec a) of None \<Rightarrow> False | Some m \<Rightarrow> rm_Batch m \<noteq> None)"

definition recordMatchesAssignment :: "Record \<Rightarrow> IdleloomWorkloadAssignment \<Rightarrow> bool" where
  "recordMatchesAssignment r a \<longleftrightarrow>
     rec_WorkloadUID r = wor_UID (as_WorkloadRef (wa_Spec a))
   \<and> rec_WorkloadGeneration r = wor_Generation (as_WorkloadRef (wa_Spec a))
   \<and> rec_AssignmentUID r = wa_UID a
   \<and> rec_ExecutionID r = as_ExecutionID (wa_Spec a)
   \<and> rec_FencingEpoch r = as_FencingEpoch (wa_Spec a)"

definition shellWorkDirectory :: "Layout \<Rightarrow> UID \<Rightarrow> string" where
  "shellWorkDirectory layout uid = filepath_Join [ly_Work layout, ''assignments'', uid]"

definition ollamaWorkDirectory :: "Layout \<Rightarrow> UID \<Rightarrow> string" where
  "ollamaWorkDirectory layout uid = filepath_Join [ly_Work layout, ''ollama'', uid]"

definition llamaCppWorkDirectory :: "Layout \<Rightarrow> UID \<Rightarrow> string" where
  "llamaCppWorkDirectory layout uid = filepath_Join [ly_Work layout, ''llama-cpp'', uid]"

definition appendUnique :: "string list \<Rightarrow> string \<Rightarrow> string list" where
  "appendUnique vs v = (if list_ex (\<lambda>e. e = v) vs then vs else vs @ [v])"

definition appendAvailableModel :: "HostModelStatus list \<Rightarrow> HostModelStatus \<Rightarrow> HostModelStatus list" where
  "appendAvailableModel vs v = (if 64 \<le> length vs then vs else vs @ [v])"

definition secureToken :: "('u, string res) agent" where
  "secureToken = tryA (kubeA (kRandRead 32)) (\<lambda>bytes. retA (Inr (EncodeToString bytes)))"

definition markAPISuccess :: "('u, unit res) agent" where
  "markAPISuccess = bindA nowA (\<lambda>now. modA (\<lambda>a. a\<lparr>da_lastAPISuccess := now\<rparr>))"

definition profileOf :: "IdleloomWorkloadAssignment \<Rightarrow> string" where \<comment> \<open>of the model, empty without one\<close>
  "profileOf a = (case as_Model (wa_Spec a) of None \<Rightarrow> [] | Some m \<Rightarrow> rm_RuntimeProfile m)"

subsection \<open>Stopping\<close>

text \<open>
  \<open>stopProcess\<close>: the standard error of the process only goes to the log. The handle is given up
  once the process has stopped, and then the work directory of the assignment is removed.
\<close>

definition stopHandle :: "('u, unit res) agent" where
  "stopHandle = readA (\<lambda>a. case da_process a of
       None \<Rightarrow> retA (Inr ())
     | Some p \<Rightarrow> tryA (callA (Stop p) aDone) (\<lambda>_. modA (\<lambda>a. a\<lparr>da_process := None\<rparr>)))"

definition removeWork :: "bool \<Rightarrow> string \<Rightarrow> string \<Rightarrow> ('u, unit res) agent" where
  "removeWork needed text dir = (if needed then wrapA text (callA (RemoveAll dir) aDone) else retA (Inr ()))"

definition stopProcess :: "'u AgentConfig \<Rightarrow> ('u, unit res) agent" where
  "stopProcess C =
     tryA stopHandle (\<lambda>_. readA (\<lambda>a. case da_assignment a of
       None \<Rightarrow> retA (Inr ())
     | Some s \<Rightarrow>
         tryA (removeWork (as_Shell (wa_Spec s) \<noteq> None) ''remove shell work directory: '' (shellWorkDirectory (ac_Layout C) (wa_UID s))) (\<lambda>_.
         tryA (removeWork (profileOf s = RuntimeProfileOllamaGGUFV1) ''remove Ollama work directory: '' (ollamaWorkDirectory (ac_Layout C) (wa_UID s))) (\<lambda>_.
         removeWork (profileOf s = RuntimeProfileLlamaCppMetalV1) ''remove llama.cpp work directory: '' (llamaCppWorkDirectory (ac_Layout C) (wa_UID s))))))"

primrec killAll :: "int list \<Rightarrow> ('u, unit res) agent" where
  "killAll [] = retA (Inr ())"
| "killAll (pid # pids) = tryA (callA (KillProcessGroupAndWait pid) aDone) (\<lambda>_. killAll pids)"

definition terminateRecorded :: "'u AgentConfig \<Rightarrow> Record \<Rightarrow> ('u, unit res) agent" where
  "terminateRecorded C r =
     (if rec_Completed r then retA (Inr ())
      else if rec_PID r > 0 then
        bindA (callA (ProcessStartToken (rec_PID r)) aToken) (\<lambda>x. case x of
          Inl err \<Rightarrow> bindA (callA (ProcessAlive (rec_PID r)) aBool) (\<lambda>y. retA (case y of
              Inl aliveErr \<Rightarrow> Inl (JoinError [err, aliveErr])
            | Inr alive \<Rightarrow> if alive then Inl err else Inr ()))
        | Inr observed \<Rightarrow>
            if observed \<noteq> rec_ProcessStartToken r
            then failA (''recorded process PID '' @ FormatInt (rec_PID r) @ '' has been reused'')
            else callA (KillProcessGroupAndWait (rec_PID r)) aDone)
      else tryA (callA (FindRunnerPIDs (ly_Runner (ac_Layout C)) (rec_Nonce r)) aPids) killAll)"

definition terminateAndClear :: "'u AgentConfig \<Rightarrow> (('u, unit res) agent \<Rightarrow> ('u, unit res) agent)
    \<Rightarrow> (('u, unit res) agent \<Rightarrow> ('u, unit res) agent) \<Rightarrow> Record \<Rightarrow> ('u, unit res) agent" where
  \<comment> \<open>\<open>terminateRecorded\<close> and \<open>Clear\<close> of the current record, with what wraps their errors\<close>
  "terminateAndClear C wrapT wrapC current =
     tryA (wrapT (terminateRecorded C current)) (\<lambda>_. wrapC (journalA (OpClear current)))"

definition clearRestartableExecution :: "'u AgentConfig \<Rightarrow> IdleloomWorkloadAssignment \<Rightarrow> ('u, unit res) agent" where
  "clearRestartableExecution C assignment = readA (\<lambda>a. case recorded a of
       None \<Rightarrow> retA (Inr ())
     | Some current \<Rightarrow>
         if \<not> recordMatchesAssignment current assignment
         then failA ''refusing to clear a journal for a different server assignment''
         else terminateAndClear C (wrapA ''terminate previous server execution: '') (wrapA ''clear previous server execution: '') current)"

definition fenceSupersededExecution :: "'u AgentConfig \<Rightarrow> IdleloomWorkloadAssignment \<Rightarrow> ('u, unit res) agent" where
  "fenceSupersededExecution C assignment = readA (\<lambda>a. case recorded a of
       None \<Rightarrow> retA (Inr ())
     | Some current \<Rightarrow>
         if recordMatchesAssignment current assignment then retA (Inr ())
         else if as_FencingEpoch (wa_Spec assignment) \<le> rec_FencingEpoch current
         then failA (''refusing assignment epoch '' @ FormatInt (as_FencingEpoch (wa_Spec assignment))
                @ '' while execution epoch '' @ FormatInt (rec_FencingEpoch current) @ '' is recorded'')
         else
           bindA (stopProcess C) (\<lambda>stopErr.
           bindA (terminateRecorded C current) (\<lambda>terminateErr.
           tryA (wrapA ''fence superseded native execution: '' (retA (joinResults [stopErr, terminateErr]))) (\<lambda>_.
           tryA (wrapA ''clear superseded native execution: '' (journalA (OpClear current))) (\<lambda>_.
           modA (\<lambda>a. a\<lparr>da_assignment := None, da_runStatus := None, da_runProtocolErr := None\<rparr>))))))"

subsection \<open>Reporting\<close>

definition assignmentRuntimeVersion :: "DevAgent \<Rightarrow> IdleloomWorkloadAssignment \<Rightarrow> string" where
  "assignmentRuntimeVersion a assignment =
     (let fallback =
        (if as_Shell (wa_Spec assignment) \<noteq> None then RuntimeProfileShellV1
         else case as_Training (wa_Spec assignment) of
           Some t \<Rightarrow> rt_RuntimeProfile t
         | None \<Rightarrow> (case as_Model (wa_Spec assignment) of Some m \<Rightarrow> rm_RuntimeProfile m | None \<Rightarrow> []))
      in case recorded a of
        Some current \<Rightarrow> if recordMatchesAssignment current assignment then rec_RuntimeVersion current else fallback
      | None \<Rightarrow> fallback)"

definition zero_RunStatus :: WorkloadRunStatus where
  "zero_RunStatus = \<lparr>rs_ID = [], rs_Task = [], rs_Experiment = [], rs_Attempt = 0, rs_StartedAt = None,
     rs_FinishedAt = None, rs_Metrics = [], rs_Artifacts = []\<rparr>"

definition runStatusAt :: "WorkloadRunStatus option \<Rightarrow> IdleloomWorkloadAssignment \<Rightarrow> WorkloadRunSpec \<Rightarrow> string \<Rightarrow> Time \<Rightarrow> WorkloadRunStatus" where
  \<comment> \<open>the run of \<open>updateAssignmentStatus\<close>, from the run the agent remembers\<close>
  "runStatusAt remembered assignment spec phase now =
     (let executionID = as_ExecutionID (wa_Spec assignment);
          run = (case remembered of
              None \<Rightarrow> ast_Run (wa_Status assignment)
            | Some r \<Rightarrow> if rs_ID r \<noteq> [] \<and> rs_ID r \<noteq> executionID then ast_Run (wa_Status assignment) else remembered);
          run = (case run of None \<Rightarrow> zero_RunStatus
            | Some r \<Rightarrow> if rs_ID r \<noteq> [] \<and> rs_ID r \<noteq> executionID then zero_RunStatus else r);
          run = run\<lparr>rs_ID := executionID, rs_Task := wrs_Task spec, rs_Experiment := wrs_Experiment spec, rs_Attempt := wrs_Attempt spec\<rparr>;
          run = (if rs_StartedAt run = None \<and> phase \<noteq> PhaseAssigned then run\<lparr>rs_StartedAt := Some now\<rparr> else run);
          terminalRun = (phase = PhaseStopped \<or> finiteAssignment assignment \<and> (phase = PhaseSucceeded \<or> phase = PhaseFailed))
      in if terminalRun \<and> rs_FinishedAt run = None then run\<lparr>rs_FinishedAt := Some now\<rparr>
         else if \<not> terminalRun then run\<lparr>rs_FinishedAt := None\<rparr> else run)"

definition reportedStatus :: "'u AgentConfig \<Rightarrow> DevAgent \<Rightarrow> IdleloomWorkloadAssignment \<Rightarrow> string \<Rightarrow> StopAcknowledgement option \<Rightarrow> Time
    \<Rightarrow> IdleloomWorkloadAssignmentStatus" where
  "reportedStatus C a assignment phase ack now =
     (let version = (if as_Model (wa_Spec assignment) = None \<and> as_Shell (wa_Spec assignment) \<noteq> None
                     then RuntimeProfileShellV1 else assignmentRuntimeVersion a assignment);
          digest = (case as_Model (wa_Spec assignment) of Some m \<Rightarrow> ma_ManifestDigest (rm_Artifact m) | None \<Rightarrow> []);
          run = (case as_Run (wa_Spec assignment) of
              None \<Rightarrow> ast_Run (wa_Status assignment)
            | Some spec \<Rightarrow> Some (runStatusAt (da_runStatus a) assignment spec phase now))
      in (wa_Status assignment)\<lparr>ast_ObservedGeneration := wa_Generation assignment, ast_Phase := phase,
           ast_AgentID := ac_AgentID C, ast_ExecutionID := as_ExecutionID (wa_Spec assignment),
           ast_FencingEpoch := as_FencingEpoch (wa_Spec assignment), ast_RuntimeVersion := version,
           ast_ResolvedArtifactDigest := digest, ast_Run := run, ast_LastHeartbeatTime := Some now,
           ast_StopAcknowledgement := ack\<rparr>)"

definition updateAssignmentStatus :: "'u AgentConfig \<Rightarrow> IdleloomWorkloadAssignment \<Rightarrow> string \<Rightarrow> StopAcknowledgement option
    \<Rightarrow> ('u, IdleloomWorkloadAssignment res) agent" where
  \<comment> \<open>returns the assignment that the caller's pointer holds afterwards\<close>
  "updateAssignmentStatus C assignment phase ack =
     bindA nowA (\<lambda>now. readA (\<lambda>a.
       let status = reportedStatus C a assignment phase ack now in
       tryA (if as_Run (wa_Spec assignment) = None then retA (Inr ()) else modA (\<lambda>a. a\<lparr>da_runStatus := ast_Run status\<rparr>)) (\<lambda>_.
       tryA (retA (ToUnstructured (ofAssignment (ac_conv C)) (assignment\<lparr>wa_Status := status\<rparr>))) (\<lambda>object.
       tryA (kubeA (kUpdateStatus AssignmentsGVR (wa_Namespace assignment) object)) (\<lambda>updated.
       retA (FromUnstructured (ac_conv C) (toAssignment (ac_conv C)) updated))))))"

definition clearStopped :: "'u AgentConfig \<Rightarrow> IdleloomWorkloadAssignment \<Rightarrow> ('u, unit res) agent" where
  \<comment> \<open>the journal part of \<open>stopAssignment\<close>\<close>
  "clearStopped C assignment = readA (\<lambda>a. case recorded a of
       None \<Rightarrow> retA (Inr ())
     | Some current \<Rightarrow>
         if rec_AssignmentUID current \<noteq> wa_UID assignment \<or> rec_ExecutionID current \<noteq> as_ExecutionID (wa_Spec assignment)
            \<or> rec_FencingEpoch current \<noteq> as_FencingEpoch (wa_Spec assignment)
         then failA ''refusing to clear a journal for a different assignment''
         else terminateAndClear C (\<lambda>m. m) (\<lambda>m. m) current)"

definition removeRunWork :: "'u AgentConfig \<Rightarrow> IdleloomWorkloadAssignment \<Rightarrow> ('u, unit res) agent" where
  "removeRunWork C assignment =
     (if as_Run (wa_Spec assignment) = None then retA (Inr ())
      else wrapA ''remove assignment work directory: ''
        (callA (RemoveAll (shellWorkDirectory (ac_Layout C) (wa_UID assignment))) aDone))"

definition stopAcknowledgement :: "IdleloomWorkloadAssignment \<Rightarrow> Time \<Rightarrow> StopAcknowledgement" where
  "stopAcknowledgement assignment now = \<lparr>sa_AssignmentUID = wa_UID assignment,
     sa_ObservedGeneration = wa_Generation assignment, sa_ExecutionID = as_ExecutionID (wa_Spec assignment),
     sa_FencingEpoch = as_FencingEpoch (wa_Spec assignment), sa_StoppedAt = now\<rparr>"

definition agentStopAssignment :: "'u AgentConfig \<Rightarrow> IdleloomWorkloadAssignment \<Rightarrow> ('u, IdleloomWorkloadAssignment res) agent" where
  "agentStopAssignment C assignment =
     tryA (stopProcess C) (\<lambda>_.
     tryA (clearStopped C assignment) (\<lambda>_.
     tryA (removeRunWork C assignment) (\<lambda>_.
     bindA nowA (\<lambda>now. updateAssignmentStatus C assignment PhaseStopped (Some (stopAcknowledgement assignment now))))))"

definition condition :: "string \<Rightarrow> string \<Rightarrow> int64 \<Rightarrow> Time \<Rightarrow> string \<Rightarrow> string \<Rightarrow> Condition" where
  "condition t status generation now reason message = \<lparr>cond_Type = t, cond_Status = status,
     cond_ObservedGeneration = generation, cond_LastTransitionTime = now, cond_Reason = reason, cond_Message = message\<rparr>"

text \<open>\<open>%s\<close> of a \<open>Duration\<close> is a library function; the message is the only thing that shows it.\<close>

definition evaluateConnectivity :: "k8slib \<Rightarrow> (Duration \<Rightarrow> string) \<Rightarrow> Time \<Rightarrow> (HostConnectivityStatus \<times> go_error option) option
    \<Rightarrow> HostConnectivityStatus \<times> string \<times> string \<times> string" where
  \<comment> \<open>connectivity, and the status, reason and message of the condition; \<open>None\<close> is a nil function\<close>
  "evaluateConnectivity L render now status =
     (case status of
        None \<Rightarrow> (zero_Connectivity\<lparr>hc_Mode := ConnectivityModeAPIOnly\<rparr>, ConditionFalse, ''APIOnly'',
                 ''host connectivity is limited to outbound Kubernetes API access'')
      | Some (connectivity, Some err) \<Rightarrow> (connectivity, ConditionFalse, ''WireKubeUnavailable'', Error L err)
      | Some (connectivity, None) \<Rightarrow>
          (let active = ''WireKube relay session and peer routing are active'' in
           case hc_LastHandshakeTime connectivity of
             None \<Rightarrow> (connectivity, ConditionTrue, ''WireKubeRelaySessionReady'', active @ ''; waiting for the first WireGuard handshake'')
           | Some t \<Rightarrow>
              if t = 0
              then (connectivity, ConditionTrue, ''WireKubeRelaySessionReady'', active @ ''; waiting for the first WireGuard handshake'')
              else if time_Sub now t < - HeartbeatClockSkewAllowance
              then (connectivity, ConditionFalse, ''WireKubeClockSkew'', ''WireGuard handshake timestamp is in the future'')
              else (connectivity, ConditionTrue, ''WireKubeRelaySessionReady'',
                    active @ ''; last handshake was '' @ render (time_Sub now t) @ '' ago'')))"

text \<open>
  \<open>updateHostStatus\<close> builds the status in stages; a stage changes the advertised lists and the
  ready condition, from what the checks of that stage answered.
\<close>

record hostDraft =
  hd_profiles :: "string list"
  hd_families :: "string list"
  hd_models :: "HostModelStatus list"
  hd_capabilities :: "string list"
  hd_ready :: string
  hd_reason :: string
  hd_message :: string

definition hostDraft0 :: hostDraft where
  "hostDraft0 = \<lparr>hd_profiles = [], hd_families = [], hd_models = [], hd_capabilities = [], hd_ready = ConditionFalse,
     hd_reason = ''DevelopmentRuntimeUnavailable'', hd_message = ''no Native runtime capability is available''\<rparr>"

definition readyAs :: "string \<Rightarrow> string \<Rightarrow> hostDraft \<Rightarrow> hostDraft" where
  "readyAs reason message d = d\<lparr>hd_ready := ConditionTrue, hd_reason := reason, hd_message := message\<rparr>"

definition draftLocked :: "bool \<Rightarrow> bool \<Rightarrow> hostDraft \<Rightarrow> hostDraft" where \<comment> \<open>the locked MLX model\<close>
  "draftLocked verified preparable d =
     (let d' = d\<lparr>hd_profiles := hd_profiles d @ [RuntimeProfileMLXLMV1], hd_families := hd_families d @ [ModelFamilyQwen35]\<rparr> in
      if verified then readyAs ''NativeRuntimeReady'' ''locked MLX inference runtime and model are available'' d'
      else if preparable
      then readyAs ''NativeRuntimePreparable'' ''locked MLX inference runtime and model will be prepared on first use'' d'
      else d)"

definition draftMLX :: "bool \<Rightarrow> bool \<Rightarrow> hostDraft \<Rightarrow> hostDraft" where \<comment> \<open>models downloaded on first use\<close>
  "draftMLX available runtimeReady d =
     (if \<not> available then d
      else let d' = d\<lparr>hd_profiles := appendUnique (hd_profiles d) RuntimeProfileMLXLMV1,
                      hd_families := appendUnique (hd_families d) ModelFamilyMLX\<rparr> in
        if hd_reason d \<noteq> ''DevelopmentRuntimeUnavailable'' then d'
        else if runtimeReady
        then readyAs ''NativeRuntimeReady'' ''locked MLX runtime is available; pinned MLX models are downloaded on first use'' d'
        else readyAs ''NativeRuntimePreparable'' ''locked MLX runtime and pinned MLX models will be prepared on first use'' d')"

definition modelEntry :: "string \<Rightarrow> LocalModel \<Rightarrow> ModelMemoryProfile option \<Rightarrow> HostModelStatus" where
  "modelEntry profile m memory = \<lparr>hm_RuntimeProfile = profile, hm_Name = lm_Name m, hm_ManifestDigest = lm_ManifestDigest m,
     hm_Family = lm_Family m, hm_Format = lm_Format m, hm_SizeBytes = lm_SizeBytes m, hm_Memory = memory\<rparr>"

definition addLocalModel :: "string \<Rightarrow> string \<Rightarrow> ModelMemoryProfile gomap \<Rightarrow> LocalModel \<Rightarrow> hostDraft \<Rightarrow> hostDraft" where
  "addLocalModel profile family profiles m d =
     (if lm_Family m \<noteq> family \<or> lm_Format m \<noteq> ArtifactFormatGGUFV1 then d
      else d\<lparr>hd_families := appendUnique (hd_families d) (lm_Family m),
             hd_models := appendAvailableModel (hd_models d) (modelEntry profile m (map_of profiles (lm_Name m)))\<rparr>)"

definition draftOllama :: "(LocalRuntime \<times> LocalModel list \<times> ModelMemoryProfile gomap) res \<Rightarrow> hostDraft \<Rightarrow> hostDraft" where
  "draftOllama x d =
     (case x of
        Inr (_, m # ms, _) \<Rightarrow>
          (let d = d\<lparr>hd_profiles := appendUnique (hd_profiles d) RuntimeProfileOllamaGGUFV1\<rparr>;
               d = fold (addLocalModel RuntimeProfileOllamaGGUFV1 ModelFamilyOllamaGGUF []) (m # ms) d
           in if hd_models d = [] then d
              else readyAs ''NativeRuntimeReady'' ''Native MLX and/or local Ollama GGUF runtime is available'' d)
      | _ \<Rightarrow> d)"

definition draftLlamaCpp :: "(LocalRuntime \<times> LocalModel list \<times> ModelMemoryProfile gomap) res \<Rightarrow> hostDraft \<Rightarrow> hostDraft" where
  "draftLlamaCpp x d =
     (case x of
        Inr (_, m # ms, profiles) \<Rightarrow>
          (let d = d\<lparr>hd_profiles := appendUnique (hd_profiles d) RuntimeProfileLlamaCppMetalV1,
                     hd_capabilities := appendUnique (hd_capabilities d) CapabilityMemoryProfileV1\<rparr>;
               d = fold (addLocalModel RuntimeProfileLlamaCppMetalV1 ModelFamilyGGUF profiles) (m # ms) d
           in if hd_models d = [] then d
              else readyAs ''NativeRuntimeReady'' ''Native MLX, Ollama, and/or llama.cpp Metal runtime is available'' d)
      | _ \<Rightarrow> d)"

definition metalTotalBytes :: "(LocalRuntime \<times> LocalModel list \<times> ModelMemoryProfile gomap) res \<Rightarrow> int64" where
  "metalTotalBytes x = (case x of Inl e \<Rightarrow> 0 | Inr (rt, _) \<Rightarrow> wrap64 (lr_MetalTotalMiB rt * 2 ^ 20))"

definition draftHFModels :: "HFModelReceipt list \<Rightarrow> hostDraft \<Rightarrow> hostDraft" where
  "draftHFModels receipts d =
     d\<lparr>hd_models := fold (\<lambda>m ms. appendAvailableModel ms
        \<lparr>hm_RuntimeProfile = RuntimeProfileMLXLMV1, hm_Name = hfm_Repository m @ ''@'' @ hfm_Revision m,
         hm_ManifestDigest = hfm_ManifestDigest m, hm_Family = ModelFamilyMLX, hm_Format = ArtifactFormatSafetensorsV1,
         hm_SizeBytes = hfm_SizeBytes m, hm_Memory = None\<rparr>) (concat (map Models receipts)) (hd_models d)\<rparr>"

definition draftTraining :: "bool \<Rightarrow> bool \<Rightarrow> hostDraft \<Rightarrow> hostDraft" where
  "draftTraining runtimeReady preparable d =
     (let d' = d\<lparr>hd_profiles := appendUnique (hd_profiles d) RuntimeProfileMLXTrainV1,
                 hd_capabilities := appendUnique (hd_capabilities d) CapabilityNativeTrainingV1\<rparr> in
      if runtimeReady then readyAs ''NativeRuntimeReady'' ''locked MLX training runtime is available'' d'
      else if preparable
      then if hd_reason d = ''DevelopmentRuntimeUnavailable''
           then readyAs ''NativeRuntimePreparable'' ''locked MLX training runtime will be prepared on first use'' d'
           else d'\<lparr>hd_ready := ConditionTrue\<rparr>
      else d)"

definition draftService :: "bool \<Rightarrow> hostDraft \<Rightarrow> hostDraft" where
  "draftService reachable d =
     (if hd_families d = [] then d
      else let d = d\<lparr>hd_capabilities := appendUnique (hd_capabilities d) CapabilityBatchInferenceV1\<rparr> in
        if reachable then d\<lparr>hd_capabilities := appendUnique (hd_capabilities d) CapabilityNativeServiceV1\<rparr> else d)"

definition draftShell :: "string \<Rightarrow> hostDraft \<Rightarrow> hostDraft" where
  "draftShell access d =
     (if access = ShellAccessSandboxed \<or> access = ShellAccessHost
      then readyAs ''NativeRuntimeReady'' ''Native shell execution is available''
             (d\<lparr>hd_profiles := appendUnique (hd_profiles d) RuntimeProfileShellV1\<rparr>)
      else d)"

definition draftMessage :: "hostDraft \<Rightarrow> hostDraft" where
  "draftMessage d =
     (if hd_ready d = ConditionTrue \<and> hd_profiles d \<noteq> []
      then d\<lparr>hd_message := ''Native host advertises runtime profiles: '' @ Join (hd_profiles d) '', ''\<rparr> else d)"

definition allocatableBytesOf :: "int64 \<Rightarrow> int64 \<Rightarrow> int64" where
  "allocatableBytesOf memory metal = (if metal > 0 \<and> metal < memory then metal else memory)"

definition isOk :: "'a res \<Rightarrow> bool" where
  "isOk x = (case x of Inl e \<Rightarrow> False | Inr _ \<Rightarrow> True)"

definition hostStatusWith :: "'u AgentConfig \<Rightarrow> IdleloomHost \<Rightarrow> bool \<Rightarrow> UID \<Rightarrow> Time \<Rightarrow> HostConnectivityStatus \<Rightarrow> hostDraft \<Rightarrow> int64 \<Rightarrow> int64
    \<Rightarrow> Condition list \<Rightarrow> IdleloomHostStatus" where
  "hostStatusWith C host krunkit activeUID now connectivity d allocatable available conditions =
     (ho_Status host)\<lparr>hst_ObservedGeneration := ho_Generation host, hst_ProtocolVersion := AgentProtocolV1Alpha1,
       hst_RuntimeProfiles := hd_profiles d, hst_ModelFamilies := hd_families d, hst_AvailableModels := hd_models d,
       hst_Capabilities := hd_capabilities d,
       hst_AllocatableUnifiedMemory := NewQuantity (ac_lib C) allocatable,
       hst_AvailableUnifiedMemory := NewQuantity (ac_lib C) available,
       hst_KrunkitState := (if krunkit then KrunkitStateRunning else KrunkitStateStopped),
       hst_VulkanLeaseActive := False, hst_ActiveAssignmentUID := activeUID, hst_LastHeartbeatTime := Some now,
       hst_Connectivity := Some connectivity, hst_Conditions := conditions\<rparr>"

definition memoryCondition :: "bool \<Rightarrow> string \<times> string \<times> string" where
  "memoryCondition degraded =
     (if degraded then (ConditionFalse, ''MeasurementDegraded'', ''memory measurement is unavailable; advertising half of allocatable until it recovers'')
      else (ConditionTrue, ''Measured'', ''available unified memory is measured on each heartbeat''))"

definition setCondition :: "'u AgentConfig \<Rightarrow> IdleloomHost \<Rightarrow> string \<Rightarrow> string \<times> string \<times> string \<Rightarrow> Condition list
    \<Rightarrow> ('u, Condition list) agent" where
  "setCondition C host t x conditions = (case x of (status, reason, message) \<Rightarrow>
     bindA nowA (\<lambda>now. retA (SetStatusCondition (ac_lib C) conditions (condition t status (ho_Generation host) now reason message))))"

definition observeHost :: "'u AgentConfig \<Rightarrow> IdleloomHost \<Rightarrow> bool \<Rightarrow> ('u, hostDraft \<times> int64) agent" where
  \<comment> \<open>the advertised lists, and the memory window of the Metal device\<close>
  "observeHost C host connected =
     bindA (callA VerifyRuntimeFast aRuntime) (\<lambda>mlxRuntime.
     bindA (callA VerifyFast aReceipt) (\<lambda>receipt.
     bindA (callA ResolveOllama aLocal) (\<lambda>ollama.
     bindA (callA ResolveLlamaCpp aLocal) (\<lambda>llama.
     let mlxModelsAvailable = isOk mlxRuntime \<or> ac_PrepareHFModel C in
     bindA (if mlxModelsAvailable then callA DiscoverHFModels aHFReceipts else retA []) (\<lambda>receipts.
     let d = draftLocked (isOk receipt) (ac_PrepareRuntime C) hostDraft0;
         d = draftMLX mlxModelsAvailable (isOk mlxRuntime) d;
         d = draftOllama ollama d;
         d = draftLlamaCpp llama d;
         d = draftHFModels receipts d;
         d = draftTraining (isOk mlxRuntime) (ac_PrepareTrainingRuntime C) d;
         d = draftService (connected \<and> ac_ServeListenAddress C \<noteq> []) d;
         d = draftShell (hs_ShellAccess (ho_Spec host)) d
     in retA (draftMessage d, metalTotalBytes llama))))))"

definition observeMemory :: "'u AgentConfig \<Rightarrow> int64 \<Rightarrow> ('u, int64 \<times> bool) agent" where
  "observeMemory C allocatable =
     bindA (callA TakeMemorySnapshot aQuantity) (\<lambda>snapshot.
     bindA nowA (\<lambda>now. readA (\<lambda>a.
       case observe (da_memory a) now allocatable (bind_res snapshot (\<lambda>q. Inr (Quantity_Value (ac_lib C) q))) of (t, available, degraded) \<Rightarrow>
       bindA (modA (\<lambda>a. a\<lparr>da_memory := t\<rparr>)) (\<lambda>_. retA (available, degraded)))))"

definition updateHostStatus :: "'u AgentConfig \<Rightarrow> IdleloomHost \<Rightarrow> bool \<Rightarrow> UID \<Rightarrow> ('u, unit res) agent" where
  "updateHostStatus C host krunkit activeUID =
     bindA nowA (\<lambda>now.
     tryA (callA AllocatableMemory aQuantity) (\<lambda>memory.
     bindA nowA (\<lambda>connectivityNow.
     bindA (if ac_ConnectivityStatus C then callA ConnectivityStatus (\<lambda>r. Some (aConnectivity r)) else retA None) (\<lambda>observed.
     case evaluateConnectivity (ac_lib C) (ac_render C) connectivityNow observed of (connectivity, connected) \<Rightarrow>
     bindA (observeHost C host (fst connected = ConditionTrue)) (\<lambda>(d, metal).
     let allocatable = allocatableBytesOf (Quantity_Value (ac_lib C) memory) metal in
     bindA (observeMemory C allocatable) (\<lambda>(available, degraded).
     bindA (setCondition C host HostConditionMemoryVerified (memoryCondition degraded) (hst_Conditions (ho_Status host))) (\<lambda>cs.
     bindA (setCondition C host HostConditionReady (hd_ready d, hd_reason d, hd_message d) cs) (\<lambda>cs.
     bindA (setCondition C host HostConditionConnected connected cs) (\<lambda>cs.
     bindA (setCondition C host HostConditionDevelopmentOnly (ConditionTrue, ''NoHostResourceArbiter'',
       ''Vulkan lease state is not authoritative; this host is eligible only for the single-host development MVP'') cs) (\<lambda>cs.
     tryA (retA (ToUnstructured (ofHost (ac_conv C))
       (host\<lparr>ho_Status := hostStatusWith C host krunkit activeUID now connectivity d allocatable available cs\<rparr>))) (\<lambda>object.
     tryA (kubeA (kUpdateStatus HostsGVR (ho_Namespace host) object)) (\<lambda>_. retA (Inr ())))))))))))))"

subsection \<open>The lease of a start\<close>

definition refreshStartupLease :: "'u AgentConfig \<Rightarrow> IdleloomWorkloadAssignment \<Rightarrow> ('u, unit res) agent" where
  "refreshStartupLease C expected =
     tryA (kubeA (kGet AssignmentsGVR (wa_Namespace expected) (wa_Name expected))) (\<lambda>object.
     tryA (retA (FromUnstructured (ac_conv C) (toAssignment (ac_conv C)) object)) (\<lambda>current.
     if wa_UID current \<noteq> wa_UID expected \<or> as_ExecutionID (wa_Spec current) \<noteq> as_ExecutionID (wa_Spec expected)
        \<or> as_FencingEpoch (wa_Spec current) \<noteq> as_FencingEpoch (wa_Spec expected)
        \<or> wa_Generation current \<noteq> wa_Generation expected \<or> as_DesiredState (wa_Spec current) \<noteq> AssignmentDesiredRunning
     then failA ''assignment changed while the native process was starting''
     else tryA (updateAssignmentStatus C current PhaseStarting None) (\<lambda>_. markAPISuccess)))"

text \<open>
  The wait of \<open>prepareWithLease\<close>. After the lease is lost or the context is done the preparation
  is cancelled and its result awaited.
\<close>

definition awaitPrepared :: "('u, prepared res) agent" where
  "awaitPrepared = callA (AwaitEvent 0) (\<lambda>r. case aEvent r of PreparedEvent x \<Rightarrow> x | _ \<Rightarrow> unexpected)"

definition joinPrepared :: "go_error \<Rightarrow> ('u, prepared res) agent" where
  "joinPrepared e = bindA awaitPrepared (\<lambda>x. retA (Inl (JoinError (e # (case x of Inl e' \<Rightarrow> [e'] | Inr _ \<Rightarrow> [])))))"

primrec prepareLoop :: "'u AgentConfig \<Rightarrow> IdleloomWorkloadAssignment \<Rightarrow> string \<Rightarrow> nat \<Rightarrow> ('u, prepared res) agent" where
  "prepareLoop C assignment lease 0 = joinPrepared (Sentinel ''context canceled'')"
| "prepareLoop C assignment lease (Suc n) =
     bindA (callA (AwaitEvent (5 * second)) aEvent) (\<lambda>ev. case ev of
       PreparedEvent x \<Rightarrow> retA x
     | Ticked \<Rightarrow> bindA (refreshStartupLease C assignment) (\<lambda>x. case x of
           Inl e \<Rightarrow> joinPrepared (WrapError (''refresh '' @ lease @ '': '') e [])
         | Inr _ \<Rightarrow> prepareLoop C assignment lease n)
     | ContextDone e \<Rightarrow> joinPrepared e
     | _ \<Rightarrow> joinPrepared (Sentinel ''unexpected answer''))"

definition prepareWithLease :: "'u AgentConfig \<Rightarrow> IdleloomWorkloadAssignment \<Rightarrow> string \<Rightarrow> preparation \<Rightarrow> ('u, prepared res) agent" where
  "prepareWithLease C assignment lease what =
     bindA (callA (Prepare what) aDone) (\<lambda>_. prepareLoop C assignment lease (ac_events C))"

subsection \<open>Resolving what an assignment runs\<close>

record resolved =
  rv_version :: string
  rv_executable :: string
  rv_ollamaRuntime :: LocalRuntime
  rv_ollamaModel :: LocalModel
  rv_llamaRuntime :: LocalRuntime
  rv_llamaModel :: LocalModel
  rv_hfModel :: "HFModel option"

definition resolved0 :: "'u AgentConfig \<Rightarrow> resolved" where
  "resolved0 C = \<lparr>rv_version = [], rv_executable = filepath_Join [ly_Venv (ac_Layout C), ''bin'', ''python''],
     rv_ollamaRuntime = zero_LocalRuntime, rv_ollamaModel = zero_LocalModel, rv_llamaRuntime = zero_LocalRuntime,
     rv_llamaModel = zero_LocalModel, rv_hfModel = None\<rparr>"

definition hfModelOf :: "ModelArtifact \<Rightarrow> HuggingFaceSource \<Rightarrow> HFModel" where
  "hfModelOf artifact source = \<lparr>hfm_Repository = hf_Repository source, hfm_Revision = hf_Revision source,
     hfm_ManifestDigest = ma_ManifestDigest artifact, hfm_SizeBytes = ma_SizeBytes artifact\<rparr>"

definition prepareAssignedHFModel :: "'u AgentConfig \<Rightarrow> IdleloomWorkloadAssignment \<Rightarrow> ResolvedModel \<Rightarrow> ('u, HFModel res) agent" where
  "prepareAssignedHFModel C assignment spec =
     (let artifact = rm_Artifact spec in
      case ma_HuggingFace artifact of
        None \<Rightarrow> failA ''assignment for the mlx family is not a Hugging Face mlx-safetensors-v1 artifact''
      | Some source \<Rightarrow>
         if ma_Format artifact \<noteq> ArtifactFormatSafetensorsV1
         then failA ''assignment for the mlx family is not a Hugging Face mlx-safetensors-v1 artifact''
         else
           (let model = hfModelOf artifact source; name = hf_Repository source @ ''@'' @ hf_Revision source in
            tryA (wrapA (''prepare MLX model '' @ name @ '': '')
              (bindA (callA (VerifyHFModelFast model) aHFReceipt) (\<lambda>x. case x of
                 Inr receipt \<Rightarrow> retA (Inr receipt)
               | Inl e \<Rightarrow>
                  if \<not> ac_PrepareHFModel C then retA (Inl e)
                  else tryA (prepareWithLease C assignment ''model preparation assignment lease'' (PrepareHFModel model)) (\<lambda>p.
                    retA (case p of PreparedHF receipt \<Rightarrow> Inr receipt | _ \<Rightarrow> unexpected))))) (\<lambda>receipt.
            if \<not> Serves receipt model then failA ''prepared MLX model does not match the assignment''
            else retA (Inr model))))"

definition resolveLocked :: "'u AgentConfig \<Rightarrow> IdleloomWorkloadAssignment \<Rightarrow> ResolvedModel \<Rightarrow> ('u, resolved res) agent" where
  "resolveLocked C assignment spec =
     tryA (wrapA ''prepare locked MLX runtime: ''
       (bindA (callA VerifyFast aReceipt) (\<lambda>x. case x of
          Inr receipt \<Rightarrow> retA (Inr receipt)
        | Inl e \<Rightarrow>
           if \<not> ac_PrepareRuntime C then retA (Inl e)
           else tryA (prepareWithLease C assignment ''preparation assignment lease'' PrepareRuntime) (\<lambda>p.
             retA (case p of PreparedReceipt receipt \<Rightarrow> Inr receipt | _ \<Rightarrow> unexpected))))) (\<lambda>receipt.
     if ma_OCIReference (rm_Artifact spec) \<noteq> rcp_ArtifactIdentity receipt
        \<or> ma_ManifestDigest (rm_Artifact spec) \<noteq> rcp_ManifestDigest receipt \<or> rm_Family spec \<noteq> ModelFamilyQwen35
     then failA ''assignment is not the exact locked MLX model''
     else retA (Inr ((resolved0 C)\<lparr>rv_version := rcp_RuntimeVersion receipt\<rparr>)))"

definition pinnedModel :: "string \<Rightarrow> ResolvedModel \<Rightarrow> LocalModel list \<Rightarrow> LocalModel option" where
  \<comment> \<open>the first model with this name and digest, if it is the one the assignment pins\<close>
  "pinnedModel name spec models =
     (let found = (case find (\<lambda>m. lm_Name m = name \<and> lm_ManifestDigest m = ma_ManifestDigest (rm_Artifact spec)) models of
          None \<Rightarrow> zero_LocalModel | Some m \<Rightarrow> m)
      in if lm_Name found = [] \<or> lm_Family found \<noteq> rm_Family spec \<or> lm_Format found \<noteq> ma_Format (rm_Artifact spec)
            \<or> lm_SizeBytes found \<noteq> ma_SizeBytes (rm_Artifact spec)
         then None else Some found)"

definition resolveOllamaModel :: "'u AgentConfig \<Rightarrow> ResolvedModel \<Rightarrow> ('u, resolved res) agent" where
  "resolveOllamaModel C spec =
     tryA (wrapA ''resolve local Ollama runtime: '' (callA ResolveOllama aLocal)) (\<lambda>(rt, models, _).
     case pinnedModel (ma_OllamaModel (rm_Artifact spec)) spec models of
       None \<Rightarrow> failA ''the exact pinned Ollama GGUF model is not installed on this host''
     | Some m \<Rightarrow> retA (Inr ((resolved0 C)\<lparr>rv_version := ''ollama-'' @ lr_Version rt, rv_executable := lr_Executable rt,
           rv_ollamaRuntime := rt, rv_ollamaModel := m\<rparr>)))"

definition resolveLlamaCppModel :: "'u AgentConfig \<Rightarrow> ResolvedModel \<Rightarrow> ('u, resolved res) agent" where
  "resolveLlamaCppModel C spec =
     tryA (wrapA ''resolve local llama.cpp runtime: '' (callA ResolveLlamaCpp aLocal)) (\<lambda>(rt, models, _).
     case pinnedModel (ma_GGUFFile (rm_Artifact spec)) spec models of
       None \<Rightarrow> failA ''the exact pinned llama.cpp GGUF model is not installed on this host''
     | Some m \<Rightarrow> retA (Inr ((resolved0 C)\<lparr>rv_version := ''llama.cpp-'' @ lr_Version rt, rv_executable := lr_Executable rt,
           rv_llamaRuntime := rt, rv_llamaModel := m\<rparr>)))"

definition resolveTrainingExecution :: "'u AgentConfig \<Rightarrow> IdleloomWorkloadAssignment \<Rightarrow> ResolvedTraining \<Rightarrow> ('u, resolved res) agent" where
  "resolveTrainingExecution C assignment spec =
     tryA (wrapA ''prepare locked MLX training runtime: ''
       (bindA (callA VerifyRuntimeFast aRuntime) (\<lambda>x. case x of
          Inr version \<Rightarrow> retA (Inr version)
        | Inl e \<Rightarrow>
           if \<not> ac_PrepareTrainingRuntime C then retA (Inl e)
           else tryA (prepareWithLease C assignment ''training runtime preparation lease'' PrepareTrainingRuntime) (\<lambda>p.
             retA (case p of PreparedRuntime version \<Rightarrow> Inr version | _ \<Rightarrow> unexpected))))) (\<lambda>version.
     if rt_RuntimeProfile spec \<noteq> RuntimeProfileMLXTrainV1 then failA ''assignment requests an unsupported training runtime''
     else if rt_SourceDigest spec \<noteq> ''sha256:'' @ EncodeToString (Sum256 (ac_lib C) (rt_Source spec))
     then failA ''training source digest does not match the resolved assignment''
     else retA (Inr ((resolved0 C)\<lparr>rv_version := version\<rparr>)))"

definition resolveExecution :: "'u AgentConfig \<Rightarrow> IdleloomWorkloadAssignment \<Rightarrow> ('u, resolved res) agent" where
  "resolveExecution C assignment =
     (case as_Model (wa_Spec assignment) of
        Some spec \<Rightarrow>
          if rm_RuntimeProfile spec = RuntimeProfileMLXLMV1 then
            (if rm_Family spec = ModelFamilyMLX
             then tryA (prepareAssignedHFModel C assignment spec) (\<lambda>model.
               retA (Inr ((resolved0 C)\<lparr>rv_version := devruntime_RuntimeVersion, rv_hfModel := Some model\<rparr>)))
             else resolveLocked C assignment spec)
          else if rm_RuntimeProfile spec = RuntimeProfileOllamaGGUFV1 then resolveOllamaModel C spec
          else if rm_RuntimeProfile spec = RuntimeProfileLlamaCppMetalV1 then resolveLlamaCppModel C spec
          else failA (''assignment requests an unsupported model runtime '' @ fmt_q (rm_RuntimeProfile spec))
      | None \<Rightarrow>
          (case as_Training (wa_Spec assignment) of
             Some spec \<Rightarrow> resolveTrainingExecution C assignment spec
           | None \<Rightarrow> retA (Inr (resolved0 C))))"

definition preStartMemoryGate :: "'u AgentConfig \<Rightarrow> IdleloomWorkloadAssignment \<Rightarrow> ('u, unit res) agent" where
  "preStartMemoryGate C assignment =
     (case as_Model (wa_Spec assignment) of
        None \<Rightarrow> retA (Inr ())
      | Some m \<Rightarrow> bindA (callA TakeMemorySnapshot aQuantity) (\<lambda>x. case x of
          Inl e \<Rightarrow> retA (Inr ())
        | Inr available \<Rightarrow>
           (let L = ac_lib C; required = wrap64 (Quantity_Value L (rm_UnifiedMemoryRequest m) - preStartMarginBytes) in
            if required \<le> 0 then retA (Inr ())
            else if Quantity_Value L available < required
            then retA (Inl (WrapError [] ErrInsufficientMemoryAtStart ('': '' @ Quantity_String L available @ '' available for a ''
                   @ Quantity_String L (rm_UnifiedMemoryRequest m) @ '' request'')))
            else retA (Inr ()))))"

subsection \<open>Starting a process\<close>

definition deniedPaths :: "'u AgentConfig \<Rightarrow> string list" where
  "deniedPaths C = [ac_StateDirectory C, ac_KubeconfigPath C]"

definition launchOf :: "'u AgentConfig \<Rightarrow> IdleloomWorkloadAssignment \<Rightarrow> resolved \<Rightarrow> string \<Rightarrow> launch" where
  "launchOf C assignment rv nonce =
     (let spec = wa_Spec assignment; work = shellWorkDirectory (ac_Layout C) (wa_UID assignment) in
      case as_Shell spec of
        Some sh \<Rightarrow> StartShell work (rsh_Script sh) (rsh_Isolation sh) (rsh_Network sh) (rsh_TimeoutSeconds sh * second) (deniedPaths C)
      | None \<Rightarrow>
      (case as_Training spec of
        Some t \<Rightarrow>
          (let run = (case as_Run spec of Some r \<Rightarrow> r | None \<Rightarrow> \<lparr>wrs_Task = [], wrs_Experiment = [], wrs_Attempt = 0, wrs_Parameters = None\<rparr>) in
           StartTraining work (rt_Source t) (rt_Network t) (rt_TimeoutSeconds t * second) (deniedPaths C) (wrs_Parameters run)
             (as_ExecutionID spec) (wrs_Experiment run) (wrs_Attempt run))
      | None \<Rightarrow>
      (case as_Model spec of
        None \<Rightarrow> StartProcess None (deniedPaths C) (5 * minute) nonce
      | Some m \<Rightarrow>
          if rm_RuntimeProfile m = RuntimeProfileOllamaGGUFV1
          then StartOllama (rv_ollamaRuntime rv) (rv_ollamaModel rv) (rm_MaxContextLength m)
                 (ollamaWorkDirectory (ac_Layout C) (wa_UID assignment)) (deniedPaths C) (2 * minute)
          else if rm_RuntimeProfile m = RuntimeProfileLlamaCppMetalV1
          then StartLlamaCpp (rv_llamaRuntime rv) (rv_llamaModel rv) (rm_MaxContextLength m)
                 (llamaCppWorkDirectory (ac_Layout C) (wa_UID assignment)) (deniedPaths C) (5 * minute)
                 (case rm_Server m of Some sv \<Rightarrow> rsv_ModelAlias sv | None \<Rightarrow> [])
          else if rm_Server m \<noteq> None
          then StartMLXServe (rv_hfModel rv) (rm_MaxContextLength m) (deniedPaths C) (5 * minute)
          else StartProcess (rv_hfModel rv) (deniedPaths C) (5 * minute) nonce)))"

definition laterTime :: "string \<times> Time \<Rightarrow> string \<times> Time \<Rightarrow> bool" where
  "laterTime x y \<longleftrightarrow> (if snd x = snd y then fst x < fst y else snd x < snd y)"

definition pruneTrainingWorkDirectories :: "'u AgentConfig \<Rightarrow> int \<Rightarrow> ('u, unit res) agent" where
  "pruneTrainingWorkDirectories C retain =
     (let root = filepath_Join [ly_Work (ac_Layout C), ''assignments''] in
      bindA (callA (ReadDirectories root) aDirectories) (\<lambda>x. case x of
        Inl e \<Rightarrow> retA (if e = ErrNotExist then Inr () else Inl e)
      | Inr candidates \<Rightarrow>
         (let sorted = sort_Slice laterTime candidates in
          foldr (\<lambda>item m. tryA (callA (RemoveAll (filepath_Join [root, fst item])) aDone) (\<lambda>_. m))
            (take (length sorted - nat (max 0 retain)) sorted) (retA (Inr ())))))"

definition prepareWork :: "'u AgentConfig \<Rightarrow> IdleloomWorkloadAssignment \<Rightarrow> ('u, unit res) agent" where
  "prepareWork C assignment =
     (let clear = (\<lambda>text. wrapA text (callA (RemoveAll (shellWorkDirectory (ac_Layout C) (wa_UID assignment))) aDone)) in
      if as_Shell (wa_Spec assignment) \<noteq> None then clear ''clear shell work directory: ''
      else if as_Training (wa_Spec assignment) \<noteq> None
      then tryA (wrapA ''prune training work directories: '' (pruneTrainingWorkDirectories C 9)) (\<lambda>_. clear ''clear training work directory: '')
      else retA (Inr ()))"

definition onSpawn :: "Record \<Rightarrow> int \<Rightarrow> ('u, unit res) agent" where
  "onSpawn planned pid =
     tryA (callA (ProcessStartToken pid) aToken) (\<lambda>startToken.
       journalA (OpUpdateProcess planned (planned\<lparr>rec_PID := pid, rec_ProcessStartToken := startToken\<rparr>)))"

definition handleSpawn :: "Record \<Rightarrow> int \<Rightarrow> ('u, unit res) agent" where
  "handleSpawn planned pid = bindA (onSpawn planned pid) (\<lambda>x. callA (SpawnHandled x) aDone)"

definition finishStart :: "'u AgentConfig \<Rightarrow> IdleloomWorkloadAssignment \<Rightarrow> handle res \<Rightarrow> ('u, handle res) agent" where
  "finishStart C assignment x =
     (case x of Inl e \<Rightarrow> retA (Inl e)
      | Inr p \<Rightarrow>
        (case as_Model (wa_Spec assignment) of
           Some m \<Rightarrow>
             tryA (case rm_Batch m of
                 Some b \<Rightarrow> callA (StartBatchProcess p (wbi_Prompt b) (wbi_MaxTokens b) (wbi_TimeoutSeconds b * second)) aHandle
               | None \<Rightarrow> retA (Inr p)) (\<lambda>p.
             if rm_Server m \<noteq> None then callA (StartServingRelay p (ac_ServeListenAddress C)) aHandle else retA (Inr p))
         | None \<Rightarrow> retA (Inr p)))"

text \<open>
  Waiting for the start that was cancelled: the runtime may still report its process, once, and then
  returns. What it returns is stopped.
\<close>

primrec drainStart :: "'u AgentConfig \<Rightarrow> IdleloomWorkloadAssignment \<Rightarrow> Record \<Rightarrow> nat \<Rightarrow> ('u, handle res) agent" where
  "drainStart C assignment planned 0 =
     bindA (callA (AwaitEvent 0) aEvent) (\<lambda>ev. case ev of Returned x \<Rightarrow> finishStart C assignment x | _ \<Rightarrow> retA unexpected)"
| "drainStart C assignment planned (Suc n) =
     bindA (callA (AwaitEvent 0) aEvent) (\<lambda>ev. case ev of
       Returned x \<Rightarrow> finishStart C assignment x
     | Spawned pid \<Rightarrow> bindA (handleSpawn planned pid) (\<lambda>_. drainStart C assignment planned n)
     | _ \<Rightarrow> retA unexpected)"

definition abandonStart :: "'u AgentConfig \<Rightarrow> IdleloomWorkloadAssignment \<Rightarrow> Record \<Rightarrow> go_error \<Rightarrow> ('u, handle res) agent" where
  "abandonStart C assignment planned e =
     bindA (drainStart C assignment planned 1) (\<lambda>x. case x of
       Inl _ \<Rightarrow> retA (Inl e)
     | Inr p \<Rightarrow> bindA (callA (Stop p) aDone) (\<lambda>_. retA (Inl e)))"

definition leaseInterval :: "IdleloomWorkloadAssignment \<Rightarrow> Duration" where
  "leaseInterval assignment =
     (let interval = as_LeaseDurationSeconds (wa_Spec assignment) * second div 3 in
      if interval < second then second else if interval > 5 * second then 5 * second else interval)"

primrec startLoop :: "'u AgentConfig \<Rightarrow> IdleloomWorkloadAssignment \<Rightarrow> Record \<Rightarrow> nat \<Rightarrow> ('u, handle res) agent" where
  "startLoop C assignment planned 0 = abandonStart C assignment planned (Sentinel ''context canceled'')"
| "startLoop C assignment planned (Suc n) =
     bindA (callA (AwaitEvent (leaseInterval assignment)) aEvent) (\<lambda>ev. case ev of
       Returned x \<Rightarrow> finishStart C assignment x
     | Spawned pid \<Rightarrow> bindA (handleSpawn planned pid) (\<lambda>_. startLoop C assignment planned n)
     | Ticked \<Rightarrow> bindA (refreshStartupLease C assignment) (\<lambda>x. case x of
           Inl e \<Rightarrow> abandonStart C assignment planned (WrapError ''refresh startup assignment lease: '' e [])
         | Inr _ \<Rightarrow> startLoop C assignment planned n)
     | ContextDone e \<Rightarrow> abandonStart C assignment planned e
     | PreparedEvent _ \<Rightarrow> abandonStart C assignment planned (Sentinel ''unexpected answer''))"

definition startProcessWithLease :: "'u AgentConfig \<Rightarrow> IdleloomWorkloadAssignment \<Rightarrow> Record \<Rightarrow> string \<Rightarrow> resolved \<Rightarrow> ('u, handle res) agent" where
  "startProcessWithLease C assignment planned nonce rv =
     tryA (prepareWork C assignment) (\<lambda>_.
     bindA (callA (Launch (launchOf C assignment rv nonce)) aDone) (\<lambda>_.
     startLoop C assignment planned (ac_events C)))"

definition plannedRecord :: "IdleloomWorkloadAssignment \<Rightarrow> resolved \<Rightarrow> string \<Rightarrow> Record" where
  "plannedRecord assignment rv nonce =
     (let shell = as_Shell (wa_Spec assignment) \<noteq> None in
      \<lparr>rec_SchemaVersion = SchemaVersionV1,
       rec_WorkloadUID = wor_UID (as_WorkloadRef (wa_Spec assignment)),
       rec_WorkloadGeneration = wor_Generation (as_WorkloadRef (wa_Spec assignment)),
       rec_AssignmentUID = wa_UID assignment,
       rec_ExecutionID = as_ExecutionID (wa_Spec assignment),
       rec_FencingEpoch = as_FencingEpoch (wa_Spec assignment),
       rec_PID = 0, rec_ProcessStartToken = [],
       rec_Executable = (if shell then ''/bin/zsh'' else rv_executable rv),
       rec_RuntimeVersion = (if shell then RuntimeProfileShellV1 else rv_version rv),
       rec_Nonce = nonce, rec_Completed = False, rec_ExitError = []\<rparr>)"

definition ignoreA :: "('u, unit res) agent \<Rightarrow> ('u, unit res) agent" where \<comment> \<open>\<open>_ = f ()\<close>\<close>
  "ignoreA m = bindA m (\<lambda>_. retA (Inr ()))"

definition cleanUpFailedStart :: "'u AgentConfig \<Rightarrow> IdleloomWorkloadAssignment \<Rightarrow> ('u, unit res) agent" where
  "cleanUpFailedStart C assignment =
     (let remove = (\<lambda>needed dir. if needed then ignoreA (callA (RemoveAll dir) aDone) else retA (Inr ()));
          uid = wa_UID assignment; layout = ac_Layout C in
      bindA (readA (\<lambda>a. case recorded a of
          None \<Rightarrow> retA (Inr ())
        | Some current \<Rightarrow> ignoreA (terminateAndClear C (\<lambda>m. m) (\<lambda>m. m) current))) (\<lambda>_.
      bindA (remove (as_Shell (wa_Spec assignment) \<noteq> None \<or> as_Training (wa_Spec assignment) \<noteq> None) (shellWorkDirectory layout uid)) (\<lambda>_.
      bindA (remove (profileOf assignment = RuntimeProfileOllamaGGUFV1) (ollamaWorkDirectory layout uid)) (\<lambda>_.
      remove (profileOf assignment = RuntimeProfileLlamaCppMetalV1) (llamaCppWorkDirectory layout uid)))))"

definition runStatusAtStart :: "IdleloomWorkloadAssignment \<Rightarrow> WorkloadRunStatus option" where
  "runStatusAtStart assignment =
     (case as_Run (wa_Spec assignment) of
        None \<Rightarrow> None
      | Some run \<Rightarrow> (case ast_Run (wa_Status assignment) of
          Some r \<Rightarrow> Some r
        | None \<Rightarrow> Some (zero_RunStatus\<lparr>rs_ID := as_ExecutionID (wa_Spec assignment), rs_Task := wrs_Task run,
            rs_Experiment := wrs_Experiment run, rs_Attempt := wrs_Attempt run\<rparr>)))"

definition startExecution :: "'u AgentConfig \<Rightarrow> IdleloomWorkloadAssignment \<Rightarrow> ('u, unit res) agent" where
  \<comment> \<open>\<open>ensureProcess\<close> once there is no process and nothing is recorded as completed\<close>
  "startExecution C assignment =
     bindA (modA (\<lambda>a. a\<lparr>da_assignment := Some assignment, da_runStatus := runStatusAtStart assignment, da_runProtocolErr := None\<rparr>)) (\<lambda>_.
     tryA (resolveExecution C assignment) (\<lambda>rv.
     tryA (preStartMemoryGate C assignment) (\<lambda>_.
     tryA secureToken (\<lambda>nonce.
     let planned = plannedRecord assignment rv nonce in
     tryA (journalA (OpBegin planned)) (\<lambda>_.
     bindA (startProcessWithLease C assignment planned nonce rv) (\<lambda>x. case x of
       Inl e \<Rightarrow> bindA (cleanUpFailedStart C assignment) (\<lambda>_. retA (Inl e))
     | Inr p \<Rightarrow> modA (\<lambda>a. a\<lparr>da_process := Some p\<rparr>)))))))"

subsection \<open>Keeping the process running\<close>

definition processRunningFor :: "IdleloomWorkloadAssignment \<Rightarrow> ('u, bool) agent" where
  "processRunningFor assignment = readA (\<lambda>a. case da_process a of
       None \<Rightarrow> retA False
     | Some p \<Rightarrow> bindA (callA (Alive p) (\<lambda>r. aBool r = Inr True)) (\<lambda>alive. retA (alive \<and>
         (case da_assignment a of None \<Rightarrow> False
          | Some s \<Rightarrow> wa_UID s = wa_UID assignment \<and> as_ExecutionID (wa_Spec s) = as_ExecutionID (wa_Spec assignment)))))"

definition joinOptions :: "go_error option list \<Rightarrow> go_error option" where
  "joinOptions es = (let xs = concat (map (\<lambda>x. case x of None \<Rightarrow> [] | Some e \<Rightarrow> [e]) es) in if xs = [] then None else Some (JoinError xs))"

definition kindOf :: "IdleloomWorkloadAssignment \<Rightarrow> string" where
  "kindOf assignment =
     (if as_Model (wa_Spec assignment) \<noteq> None then ''batch inference''
      else if as_Training (wa_Spec assignment) \<noteq> None then ''training process'' else ''shell process'')"

definition completeExecution :: "'u AgentConfig \<Rightarrow> IdleloomWorkloadAssignment \<Rightarrow> handle \<Rightarrow> ('u, unit res) agent" where
  \<comment> \<open>\<open>ensureProcess\<close> for a finite workload whose process has exited\<close>
  "completeExecution C assignment p =
     bindA (callA (WaitError p) aWait) (\<lambda>exitErr. readA (\<lambda>a.
       let waitErr = (if as_Training (wa_Spec assignment) \<noteq> None then joinOptions [exitErr, da_runProtocolErr a] else exitErr);
           mismatch = failA ''finite workload completion does not match the durable execution journal'' in
       case recorded a of
         None \<Rightarrow> mismatch
       | Some current \<Rightarrow>
          if \<not> recordMatchesAssignment current assignment then mismatch
          else
            tryA (wrapA (''persist '' @ kindOf assignment @ '' completion: '')
                   (journalA (OpComplete current (map_option (Error (ac_lib C)) waitErr)))) (\<lambda>_.
            tryA (stopProcess C) (\<lambda>_. retA (case waitErr of
                None \<Rightarrow> Inl ErrProcessCompleted
              | Some e \<Rightarrow> Inl (WrapError (kindOf assignment @ '' exited: '') e []))))))"

definition replaceExited :: "'u AgentConfig \<Rightarrow> IdleloomWorkloadAssignment \<Rightarrow> ('u, unit res) agent" where
  "replaceExited C assignment =
     tryA (stopProcess C) (\<lambda>_.
     tryA (if finiteAssignment assignment then retA (Inr ()) else clearRestartableExecution C assignment) (\<lambda>_.
     retA (Inl ErrProcessExited)))"

definition ensureReplaced :: "'u AgentConfig \<Rightarrow> IdleloomWorkloadAssignment \<Rightarrow> handle \<Rightarrow> ('u, unit res) agent" where
  \<comment> \<open>\<open>ensureProcess\<close> with a process that is not the one of the assignment or has exited\<close>
  "ensureReplaced C assignment p =
     (if finiteAssignment assignment
      then bindA (callA (Alive p) (\<lambda>r. aBool r = Inr True)) (\<lambda>alive.
             if alive then replaceExited C assignment else completeExecution C assignment p)
      else replaceExited C assignment)"

definition ensureStarted :: "'u AgentConfig \<Rightarrow> IdleloomWorkloadAssignment \<Rightarrow> ('u, unit res) agent" where
  \<comment> \<open>\<open>ensureProcess\<close> without a process\<close>
  "ensureStarted C assignment =
     tryA (if finiteAssignment assignment then retA (Inr ()) else clearRestartableExecution C assignment) (\<lambda>_. readA (\<lambda>a.
     case recorded a of
       Some current \<Rightarrow>
         if finiteAssignment assignment \<and> rec_Completed current \<and> recordMatchesAssignment current assignment
         then if rec_ExitError current = [] then retA (Inl ErrProcessCompleted)
              else failA (''finite native workload exited: '' @ rec_ExitError current)
         else startExecution C assignment
     | None \<Rightarrow> startExecution C assignment))"

definition ensureProcess :: "'u AgentConfig \<Rightarrow> IdleloomWorkloadAssignment \<Rightarrow> ('u, unit res) agent" where
  "ensureProcess C assignment =
     bindA (processRunningFor assignment) (\<lambda>running.
     if running then retA (Inr ())
     else readA (\<lambda>a. case da_process a of
       Some p \<Rightarrow> ensureReplaced C assignment p
     | None \<Rightarrow> ensureStarted C assignment))"

definition completedAssignmentPhase :: "'u AgentConfig \<Rightarrow> IdleloomWorkloadAssignment \<Rightarrow> string option" where
  "completedAssignmentPhase C assignment =
     (let st = wa_Status assignment in
      if \<not> finiteAssignment assignment \<or> ast_ObservedGeneration st \<noteq> wa_Generation assignment \<or> ast_AgentID st \<noteq> ac_AgentID C
         \<or> ast_ExecutionID st \<noteq> as_ExecutionID (wa_Spec assignment) \<or> ast_FencingEpoch st \<noteq> as_FencingEpoch (wa_Spec assignment)
      then None
      else if ast_Phase st \<noteq> PhaseSucceeded \<and> ast_Phase st \<noteq> PhaseFailed then None
      else Some (ast_Phase st))"

subsection \<open>The control loop\<close>

definition reportEnsured :: "'u AgentConfig \<Rightarrow> IdleloomHost \<Rightarrow> IdleloomWorkloadAssignment \<Rightarrow> unit res \<Rightarrow> ('u, unit res) agent" where
  \<comment> \<open>\<open>reconcile\<close> after \<open>ensureProcess\<close>\<close>
  "reportEnsured C host assignment x =
     (case x of
        Inl err \<Rightarrow>
          if errorsIs err ErrProcessCompleted
          then tryA (updateAssignmentStatus C assignment PhaseSucceeded None) (\<lambda>_. updateHostStatus C host False [])
          else
            bindA (updateAssignmentStatus C assignment PhaseFailed None) (\<lambda>statusErr.
            bindA (updateHostStatus C host False []) (\<lambda>hostErr.
            retA (joinResults [Inl err, bind_res statusErr (\<lambda>_. Inr ()), hostErr])))
      | Inr _ \<Rightarrow>
          tryA (updateAssignmentStatus C assignment PhaseRunning None) (\<lambda>assignment.
          updateHostStatus C host False (wa_UID assignment)))"

definition reconcileRunning :: "'u AgentConfig \<Rightarrow> IdleloomHost \<Rightarrow> IdleloomWorkloadAssignment \<Rightarrow> ('u, unit res) agent" where
  \<comment> \<open>\<open>reconcile\<close> for an accepted assignment that shall run, without krunkit\<close>
  "reconcileRunning C host assignment =
     (case completedAssignmentPhase C assignment of
        Some phase \<Rightarrow>
          bindA (modA (\<lambda>a. a\<lparr>da_assignment := Some assignment\<rparr>)) (\<lambda>_.
          tryA (updateAssignmentStatus C assignment phase None) (\<lambda>_.
          updateHostStatus C host False []))
      | None \<Rightarrow>
          bindA (processRunningFor assignment) (\<lambda>running.
          tryA (if running then retA (Inr assignment) else updateAssignmentStatus C assignment PhaseStarting None) (\<lambda>assignment.
          bindA (ensureProcess C assignment) (reportEnsured C host assignment))))"

definition reconcileAccepted :: "'u AgentConfig \<Rightarrow> IdleloomHost \<Rightarrow> bool \<Rightarrow> IdleloomWorkloadAssignment \<Rightarrow> ('u, unit res) agent" where
  \<comment> \<open>\<open>reconcile\<close> after the mailbox was accepted and an older execution fenced\<close>
  "reconcileAccepted C host krunkitRunning assignment =
     (if as_DesiredState (wa_Spec assignment) = AssignmentDesiredStopped
      then tryA (agentStopAssignment C assignment) (\<lambda>_. updateHostStatus C host krunkitRunning [])
      else if krunkitRunning
      then tryA (updateAssignmentStatus C assignment PhaseBlocked None) (\<lambda>_. updateHostStatus C host True [])
      else reconcileRunning C host assignment)"

definition reconcileAssignment :: "'u AgentConfig \<Rightarrow> IdleloomHost \<Rightarrow> bool \<Rightarrow> IdleloomWorkloadAssignment \<Rightarrow> ('u, unit res) agent" where
  "reconcileAssignment C host krunkitRunning assignment =
     tryA (readA (\<lambda>a. retA (ValidateMailbox (ac_lib C) assignment host (ac_AgentID C) (recorded a)))) (\<lambda>_.
     tryA (fenceSupersededExecution C assignment) (\<lambda>_.
     tryA markAPISuccess (\<lambda>_.
     reconcileAccepted C host krunkitRunning assignment)))"

definition reconcileEmpty :: "'u AgentConfig \<Rightarrow> IdleloomHost \<Rightarrow> bool \<Rightarrow> ('u, unit res) agent" where
  \<comment> \<open>\<open>reconcile\<close> without a mailbox\<close>
  "reconcileEmpty C host krunkitRunning =
     tryA markAPISuccess (\<lambda>_.
     tryA (stopProcess C) (\<lambda>_.
     tryA (readA (\<lambda>a. case recorded a of
         None \<Rightarrow> retA (Inr ())
       | Some current \<Rightarrow> terminateAndClear C (\<lambda>m. m) (\<lambda>m. m) current)) (\<lambda>_.
     updateHostStatus C host krunkitRunning [])))"

definition reconcileMailbox :: "'u AgentConfig \<Rightarrow> IdleloomHost \<Rightarrow> bool \<Rightarrow> ('u, unit res) agent" where
  "reconcileMailbox C host krunkitRunning =
     bindA (kubeA (kGet AssignmentsGVR (ac_Namespace C) AssignmentMailboxName)) (\<lambda>x. case x of
       Inl err \<Rightarrow>
         if IsNotFound err then reconcileEmpty C host krunkitRunning
         else retA (Inl (WrapError ''get assignment mailbox: '' err []))
     | Inr assignmentObject \<Rightarrow>
         tryA (retA (FromUnstructured (ac_conv C) (toAssignment (ac_conv C)) assignmentObject)) (\<lambda>assignment.
         reconcileAssignment C host krunkitRunning assignment))"

definition reconcile :: "'u AgentConfig \<Rightarrow> ('u, unit res) agent" where
  "reconcile C =
     tryA (wrapA ''get host mailbox: '' (kubeA (kGet HostsGVR (ac_Namespace C) ''host''))) (\<lambda>hostObject.
     tryA (retA (FromUnstructured (ac_conv C) (toHost (ac_conv C)) hostObject)) (\<lambda>host.
     if hs_AgentID (ho_Spec host) \<noteq> ac_AgentID C
     then failA (''host mailbox belongs to agent '' @ fmt_q (hs_AgentID (ho_Spec host)))
     else
     tryA (callA KrunkitRunning aBool) (\<lambda>krunkitRunning.
     tryA (if krunkitRunning then stopProcess C else retA (Inr ())) (\<lambda>_.
     reconcileMailbox C host krunkitRunning))))"

subsection \<open>Starting up, fencing itself and shutting down\<close>

definition recoverOrphan :: "'u AgentConfig \<Rightarrow> ('u, unit res) agent" where
  "recoverOrphan C = readA (\<lambda>a. case recorded a of
       None \<Rightarrow> retA (Inr ())
     | Some current \<Rightarrow>
         if rec_Completed current then retA (Inr ())
         else
           tryA (terminateAndClear C (\<lambda>m. m) (\<lambda>m. m) current) (\<lambda>_.
           bindA (callA (RemoveAll (shellWorkDirectory (ac_Layout C) (rec_AssignmentUID current))) aDone) (\<lambda>x.
           bindA (callA (RemoveAll (ollamaWorkDirectory (ac_Layout C) (rec_AssignmentUID current))) aDone) (\<lambda>y.
           bindA (callA (RemoveAll (llamaCppWorkDirectory (ac_Layout C) (rec_AssignmentUID current))) aDone) (\<lambda>z.
           retA (joinResults [x, y, z]))))))"

definition selfFenceIfExpired :: "'u AgentConfig \<Rightarrow> ('u, unit res) agent" where
  \<comment> \<open>one tick of \<open>runWatchdog\<close>\<close>
  "selfFenceIfExpired C = readA (\<lambda>a. case da_assignment a of
       None \<Rightarrow> retA (Inr ())
     | Some assignment \<Rightarrow>
         (let fence = bindA (stopProcess C) (\<lambda>_. readA (\<lambda>a. case recorded a of
                  None \<Rightarrow> retA (Inr ())
                | Some current \<Rightarrow> ignoreA (terminateRecorded C current))) in
          if da_lastAPISuccess a = 0 then fence
          else bindA nowA (\<lambda>now.
            if time_Sub now (da_lastAPISuccess a) > as_LeaseDurationSeconds (wa_Spec assignment) * second then fence
            else retA (Inr ()))))"

end
