(* ===== verification/Agent_Safety.thy ===== *)
theory Agent_Safety
  imports Agent
begin

section \<open>What the agent guarantees\<close>

text \<open>
  Properties of every execution of the methods of a \<open>DevAgent\<close>, whatever its surroundings answer
  and however often the wait for a start is woken up. The history of a run says which record the
  journal holds, which processes were stopped and which executions were terminated; the guard of a
  request is what the history must say when the request is made.
\<close>

subsection \<open>Reading a history\<close>

type_synonym 'u history = "('u areq \<times> 'u aresp) list"

definition extends :: "'a list \<Rightarrow> 'a list \<Rightarrow> bool" where
  "extends h h' \<longleftrightarrow> (\<exists>t. h' = h @ t)"

lemma extends_refl [simp]: "extends h h"
  by (simp add: extends_def)

lemma extends_snoc [simp]: "extends h (h @ t)"
  by (simp add: extends_def)

lemma extends_trans [trans]: "extends h h' \<Longrightarrow> extends h' h'' \<Longrightarrow> extends h h''"
  by (auto simp: extends_def)

lemma extends_mem: "extends h h' \<Longrightarrow> x \<in> set h \<Longrightarrow> x \<in> set h'"
  by (auto simp: extends_def)

definition journalStep :: "'u areq \<times> 'u aresp \<Rightarrow> Record option \<Rightarrow> Record option" where
  "journalStep qr c = (case qr of
       (WriteJournal (Persist r), DoneA (Inr _)) \<Rightarrow> Some r
     | (WriteJournal Erase, DoneA (Inr _)) \<Rightarrow> None
     | _ \<Rightarrow> c)"

definition journalOf :: "Record option \<Rightarrow> 'u history \<Rightarrow> Record option" where
  "journalOf c h = fold journalStep h c"

abbreviation "happened h q r \<equiv> (q, r) \<in> set h"

definition killed :: "'u history \<Rightarrow> int \<Rightarrow> bool" where
  "killed h pid \<longleftrightarrow> happened h (KillProcessGroupAndWait pid) (DoneA (Inr ()))"

text \<open>
  The recorded execution is over: it completed, or its process group was killed after its start token
  was checked, or its process was seen to be gone, or, when no process was recorded yet, every process
  found under its nonce was killed.
\<close>

definition terminated :: "'u AgentConfig \<Rightarrow> Record \<Rightarrow> 'u history \<Rightarrow> bool" where
  "terminated C r h \<longleftrightarrow>
     rec_Completed r
   \<or> rec_PID r > 0 \<and> (happened h (ProcessStartToken (rec_PID r)) (TokenA (Inr (rec_ProcessStartToken r))) \<and> killed h (rec_PID r)
       \<or> happened h (ProcessAlive (rec_PID r)) (BoolA (Inr False)))
   \<or> rec_PID r \<le> 0 \<and> (\<exists>pids. happened h (FindRunnerPIDs (ly_Runner (ac_Layout C)) (rec_Nonce r)) (PidsA (Inr pids))
       \<and> (\<forall>pid \<in> set pids. killed h pid))"

definition stopped :: "DevAgent \<Rightarrow> 'u history \<Rightarrow> bool" where
  "stopped a0 h \<longleftrightarrow> (\<forall>p. da_process a0 = Some p \<longrightarrow> happened h (Stop p) (DoneA (Inr ())))"

definition mailboxIn :: "'u AgentConfig \<Rightarrow> 'u history \<Rightarrow> IdleloomWorkloadAssignment \<Rightarrow> bool" where
  "mailboxIn C h s \<longleftrightarrow> (\<exists>u. happened h (Kube (Get AssignmentsGVR (ac_Namespace C) AssignmentMailboxName)) (KubeA (ObjectR (Inr u)))
     \<and> toAssignment (ac_conv C) u = Inr s)"

definition hostIn :: "'u AgentConfig \<Rightarrow> 'u history \<Rightarrow> IdleloomHost \<Rightarrow> bool" where
  "hostIn C h host \<longleftrightarrow> (\<exists>u. happened h (Kube (Get HostsGVR (ac_Namespace C) ''host'')) (KubeA (ObjectR (Inr u)))
     \<and> toHost (ac_conv C) u = Inr host)"

text \<open>The mailbox was read and accepted in this run, which started in \<open>a0\<close>.\<close>

definition accepted :: "'u AgentConfig \<Rightarrow> DevAgent \<Rightarrow> 'u history \<Rightarrow> IdleloomWorkloadAssignment \<Rightarrow> bool" where
  "accepted C a0 h s \<longleftrightarrow> mailboxIn C h s
     \<and> (\<exists>host. hostIn C h host \<and> ValidateMailbox (ac_lib C) s host (ac_AgentID C) (recorded a0) = Inr ())"

text \<open>Two versions of one object: only the status differs.\<close>

definition sameObject :: "IdleloomWorkloadAssignment \<Rightarrow> IdleloomWorkloadAssignment \<Rightarrow> bool" where
  "sameObject s t \<longleftrightarrow> wa_UID t = wa_UID s \<and> wa_Namespace t = wa_Namespace s \<and> wa_Generation t = wa_Generation s \<and> wa_Spec t = wa_Spec s"

text \<open>The accepted assignment, or what the API server answered to an update of nothing but its status.\<close>

definition versionOf :: "'u AgentConfig \<Rightarrow> 'u history \<Rightarrow> IdleloomWorkloadAssignment \<Rightarrow> IdleloomWorkloadAssignment \<Rightarrow> bool" where
  "versionOf C h s t \<longleftrightarrow> t = s \<or> (\<exists>st u v. ofAssignment (ac_conv C) (s\<lparr>wa_Status := st\<rparr>) = Inr u
     \<and> happened h (Kube (UpdateStatus AssignmentsGVR (wa_Namespace s) u)) (KubeA (ObjectR (Inr v)))
     \<and> toAssignment (ac_conv C) v = Inr t)"

subsection \<open>The guards\<close>

definition eraseOk :: "'u AgentConfig \<Rightarrow> DevAgent \<Rightarrow> 'u history \<Rightarrow> bool" where
  "eraseOk C a0 h \<longleftrightarrow> (\<exists>r. journalOf (recorded a0) h = Some r \<and> terminated C r h)"

definition previousOver :: "'u AgentConfig \<Rightarrow> DevAgent \<Rightarrow> 'u history \<Rightarrow> Record option \<Rightarrow> bool" where
  \<comment> \<open>what was recorded at first is still recorded or is over\<close>
  "previousOver C a0 h c \<longleftrightarrow> (\<forall>r. recorded a0 = Some r \<longrightarrow> (\<exists>k. keeps r k \<and> (terminated C k h \<or> c = Some k)))"

definition ackOk :: "'u AgentConfig \<Rightarrow> DevAgent \<Rightarrow> 'u history \<Rightarrow> IdleloomWorkloadAssignment \<Rightarrow> StopAcknowledgement \<Rightarrow> bool" where
  "ackOk C a0 h c ack \<longleftrightarrow>
     (\<exists>s. accepted C a0 h s \<and> as_DesiredState (wa_Spec s) = AssignmentDesiredStopped \<and> sameObject s c
        \<and> sa_AssignmentUID ack = wa_UID s \<and> sa_ObservedGeneration ack = wa_Generation s
        \<and> sa_ExecutionID ack = as_ExecutionID (wa_Spec s) \<and> sa_FencingEpoch ack = as_FencingEpoch (wa_Spec s))
   \<and> (sa_StoppedAt ack \<noteq> 0 \<longrightarrow> (\<exists>hb. ast_LastHeartbeatTime (wa_Status c) = Some hb \<and> sa_StoppedAt ack \<le> hb)
        \<longrightarrow> ValidateStopAcknowledgement c = Inr ())
   \<and> previousOver C a0 h None
   \<and> journalOf (recorded a0) h = None
   \<and> stopped a0 h"

definition launchOk :: "'u AgentConfig \<Rightarrow> DevAgent \<Rightarrow> 'u history \<Rightarrow> launch \<Rightarrow> bool" where
  "launchOk C a0 h l \<longleftrightarrow>
     (\<exists>s t rv nonce c. accepted C a0 h s \<and> as_DesiredState (wa_Spec s) \<noteq> AssignmentDesiredStopped
        \<and> versionOf C h s t
        \<and> l = launchOf C t rv nonce
        \<and> journalOf (recorded a0) h = Some c \<and> samePlannedIdentity c (plannedRecord t rv nonce)
        \<and> (c = plannedRecord t rv nonce \<or> recorded a0 = Some c)
        \<and> previousOver C a0 h (Some c))
   \<and> happened h KrunkitRunning (BoolA (Inr False))
   \<and> stopped a0 h"

definition guarded :: "'u AgentConfig \<Rightarrow> DevAgent \<Rightarrow> 'u history \<Rightarrow> 'u areq \<Rightarrow> bool" where
  "guarded C a0 h q = (case q of
       WriteJournal Erase \<Rightarrow> eraseOk C a0 h
     | Kube (UpdateStatus AssignmentsGVR ns u) \<Rightarrow>
         (\<exists>c. ofAssignment (ac_conv C) c = Inr u \<and> (\<forall>ack. ast_StopAcknowledgement (wa_Status c) = Some ack \<longrightarrow> ackOk C a0 h c ack))
     | Launch l \<Rightarrow> launchOk C a0 h l
     | _ \<Rightarrow> True)"

subsection \<open>The invariant of a run\<close>

definition runInv :: "'u AgentConfig \<Rightarrow> DevAgent \<Rightarrow> 'u history \<Rightarrow> DevAgent \<Rightarrow> bool" where
  "runInv C a0 h a \<longleftrightarrow> recorded a = journalOf (recorded a0) h
     \<and> (\<forall>p. da_process a0 = Some p \<longrightarrow> da_process a = Some p \<or> happened h (Stop p) (DoneA (Inr ())))
     \<and> previousOver C a0 h (recorded a)"

definition frame :: "DevAgent \<Rightarrow> DevAgent \<Rightarrow> bool" where
  "frame a b \<longleftrightarrow> da_store b = da_store a \<and> da_process b = da_process a \<and> da_assignment b = da_assignment a"

lemma frame_refl [simp]: "frame a a"
  by (simp add: frame_def)

lemma frame_trans: "frame a b \<Longrightarrow> frame b c \<Longrightarrow> frame a c"
  by (simp add: frame_def)

lemma journalOf_snoc: "journalOf c (h @ [qr]) = journalStep qr (journalOf c h)"
  by (simp add: journalOf_def)

lemma journalOf_other [simp]: "(\<And>j. q \<noteq> WriteJournal j) \<Longrightarrow> journalOf c (h @ [(q, r)]) = journalOf c h"
  by (auto simp: journalOf_snoc journalStep_def split: areq.splits)

lemma killed_mono: "killed h p \<Longrightarrow> killed (h @ t) p"
  by (auto simp: killed_def)

lemma terminated_mono: "terminated C r h \<Longrightarrow> terminated C r (h @ t)"
  unfolding terminated_def using killed_mono by (simp, blast)

lemma previousOver_mono: "previousOver C a0 h c \<Longrightarrow> previousOver C a0 (h @ t) c"
  unfolding previousOver_def using terminated_mono by blast

lemma accepted_mono: "accepted C a0 h s \<Longrightarrow> accepted C a0 (h @ t) s"
  by (auto simp: accepted_def mailboxIn_def hostIn_def)

lemma accepted_ext: "accepted C a0 h s \<Longrightarrow> extends h h' \<Longrightarrow> accepted C a0 h' s"
  by (auto simp: extends_def intro: accepted_mono)

lemma terminated_ext: "terminated C r h \<Longrightarrow> extends h h' \<Longrightarrow> terminated C r h'"
  by (auto simp: extends_def intro: terminated_mono)

lemma stopped_inv: "runInv C a0 h a \<Longrightarrow> da_process a = None \<Longrightarrow> stopped a0 h"
  by (auto simp: runInv_def stopped_def)

lemma runInv_start: "runInv C a0 [] a0"
  by (auto simp: runInv_def journalOf_def previousOver_def intro: keeps_refl)

lemma runInv_other:
  assumes "runInv C a0 h a" and "\<And>j. q \<noteq> WriteJournal j"
  shows "runInv C a0 (h @ [(q, r)]) a"
  using assms previousOver_mono [of C a0 h _ "[(q, r)]"] by (auto simp: runInv_def)

lemma runInv_frame: "runInv C a0 h a \<Longrightarrow> frame a b \<Longrightarrow> runInv C a0 h b"
  by (auto simp: runInv_def frame_def)

subsection \<open>Actions that only look and report\<close>

definition plain :: "'u AgentConfig \<Rightarrow> 'u areq \<Rightarrow> bool" where
  "plain C q = (case q of
       WriteJournal j \<Rightarrow> False
     | Launch l \<Rightarrow> False
     | Kube (UpdateStatus AssignmentsGVR ns u) \<Rightarrow> (\<exists>c. ofAssignment (ac_conv C) c = Inr u \<and> ast_StopAcknowledgement (wa_Status c) = None)
     | _ \<Rightarrow> True)"

definition calm :: "'u AgentConfig \<Rightarrow> ('u, 'a) agent \<Rightarrow> bool" where
  "calm C m \<longleftrightarrow> (\<forall>h a. wp (\<lambda>h q. plain C q) (\<lambda>h' a' x. frame a a') m h a)"

named_theorems calm_intros

lemma calm_retA [calm_intros]: "calm C (retA x)"
  by (simp add: calm_def)

lemma calm_failA [calm_intros]: "calm C (failA x)"
  by (simp add: calm_def failA_def)

lemma calm_callA [calm_intros]: "plain C q \<Longrightarrow> calm C (callA q f)"
  by (simp add: calm_def)

lemma calm_modA [calm_intros]: "(\<And>a. frame a (f a)) \<Longrightarrow> calm C (modA f)"
  by (simp add: calm_def)

lemma calm_readA [calm_intros]: "(\<And>a. calm C (f a)) \<Longrightarrow> calm C (readA f)"
  by (simp add: calm_def)

lemma calm_bindA [calm_intros]:
  assumes "calm C m" and "\<And>x. calm C (f x)"
  shows "calm C (bindA m f)"
  unfolding calm_def wp_bindA
proof (intro allI)
  fix h a
  show "wp (\<lambda>h. plain C) (\<lambda>h' s' x. wp (\<lambda>h. plain C) (\<lambda>h' a' x. frame a a') (f x) h' s') m h a"
  proof (rule wp_mono)
    show "wp (\<lambda>h. plain C) (\<lambda>h' a' x. frame a a') m h a" using assms(1) by (simp add: calm_def)
  next
    fix h' s' x assume f: "frame a s'"
    have "wp (\<lambda>h. plain C) (\<lambda>h' a' x. frame s' a') (f x) h' s'" using assms(2) by (simp add: calm_def)
    then show "wp (\<lambda>h. plain C) (\<lambda>h' a' x. frame a a') (f x) h' s'"
      by (rule wp_mono) (use f frame_trans in blast)
  qed
qed

lemma calm_tryA [calm_intros]:
  assumes "calm C m" and "\<And>x. calm C (f x)"
  shows "calm C (tryA m f)"
  unfolding tryA_def by (rule calm_bindA [OF assms(1)]) (auto intro: calm_retA assms(2) split: sum.split)

lemma calm_wrapA [calm_intros]: "calm C m \<Longrightarrow> calm C (wrapA t m)"
  unfolding wrapA_def by (intro calm_intros)

lemma calm_if [calm_intros]: "calm C m \<Longrightarrow> calm C n \<Longrightarrow> calm C (if b then m else n)"
  by simp

lemma calm_case_sum [calm_intros]:
  "(\<And>e. calm C (f e)) \<Longrightarrow> (\<And>v. calm C (g v)) \<Longrightarrow> calm C (case x of Inl e \<Rightarrow> f e | Inr v \<Rightarrow> g v)"
  by (simp split: sum.split)

lemma calm_case_option [calm_intros]:
  "calm C m \<Longrightarrow> (\<And>v. calm C (g v)) \<Longrightarrow> calm C (case x of None \<Rightarrow> m | Some v \<Rightarrow> g v)"
  by (simp split: option.split)

lemma calm_case_prod [calm_intros]: "(\<And>u v. calm C (f u v)) \<Longrightarrow> calm C (case x of (u, v) \<Rightarrow> f u v)"
  by (simp split: prod.split)

lemma calm_kube [calm_intros]:
  "calm C (kubeA (kGet g ns n))" "calm C nowA" "calm C (kubeA (kRandRead k))"
  "g \<noteq> AssignmentsGVR \<Longrightarrow> calm C (kubeA (kUpdateStatus g ns u))"
  by (auto simp: calm_def nowA_def plain_def split: gvr.split)

lemma plain_guarded: "plain C q \<Longrightarrow> guarded C a0 h q"
  by (auto simp: plain_def guarded_def split: areq.splits request.splits gvr.splits journal_req.splits)

lemma plain_other: "plain C q \<Longrightarrow> q \<noteq> WriteJournal j"
  by (auto simp: plain_def)

lemma plain_safe:
  "safe (\<lambda>h q. plain C q) Q p h \<Longrightarrow> runInv C a0 h a \<Longrightarrow> safe (guarded C a0) (\<lambda>h' x. Q h' x \<and> runInv C a0 h' a) p h"
  by (induction p arbitrary: h) (auto intro: plain_guarded runInv_other dest: plain_other)

lemma calm_wp:
  assumes "calm C m" and "runInv C a0 h a"
  shows "wp (guarded C a0) (\<lambda>h' a' x. runInv C a0 h' a' \<and> frame a a' \<and> extends h h') m h a"
proof -
  have "safe (\<lambda>h q. plain C q) (\<lambda>h' (a', x). frame a a') (m a) h"
    using assms(1) by (simp add: calm_def wp_def)
  from safe_history [OF plain_safe [OF this assms(2)]] show ?thesis
    unfolding wp_def by (rule safe_mono) (auto intro: runInv_frame simp: extends_def)
qed

lemma wp_calm_bind:
  assumes "calm C m" and "runInv C a0 h a"
    and "\<And>h' a' x. runInv C a0 h' a' \<Longrightarrow> frame a a' \<Longrightarrow> extends h h' \<Longrightarrow> wp (guarded C a0) Q (f x) h' a'"
  shows "wp (guarded C a0) Q (bindA m f) h a"
  by (rule wp_bindI [OF calm_wp [OF assms(1,2)]]) (use assms(3) in blast)

lemma wp_calm_try:
  assumes "calm C m" and "runInv C a0 h a"
    and "\<And>h' a' e. runInv C a0 h' a' \<Longrightarrow> frame a a' \<Longrightarrow> extends h h' \<Longrightarrow> Q h' a' (Inl e)"
    and "\<And>h' a' x. runInv C a0 h' a' \<Longrightarrow> frame a a' \<Longrightarrow> extends h h' \<Longrightarrow> wp (guarded C a0) Q (f x) h' a'"
  shows "wp (guarded C a0) Q (tryA m f) h a"
  by (rule wp_tryI [OF calm_wp [OF assms(1,2)]]) (use assms(3,4) in blast)+

lemma calm_killAll [calm_intros]: "calm C (killAll pids)"
  by (induction pids) (auto intro!: calm_intros simp: plain_def)

lemma calm_ignoreA [calm_intros]: "calm C m \<Longrightarrow> calm C (ignoreA m)"
  unfolding ignoreA_def by (intro calm_intros)

lemma calm_terminateRecorded [calm_intros]: "calm C (terminateRecorded C r)"
  unfolding terminateRecorded_def
  by (intro calm_intros; simp add: plain_def)

lemma calm_markAPISuccess [calm_intros]: "calm C markAPISuccess"
  unfolding markAPISuccess_def by (intro calm_intros) (simp add: frame_def)

lemma calm_setCondition [calm_intros]: "calm C (setCondition C host t x cs)"
  unfolding setCondition_def by (intro calm_intros)

lemma calm_observeHost [calm_intros]: "calm C (observeHost C host b)"
  unfolding observeHost_def Let_def by (intro calm_intros; simp add: plain_def)

lemma calm_observeMemory [calm_intros]: "calm C (observeMemory C n)"
  unfolding observeMemory_def by (auto intro!: calm_intros simp: plain_def frame_def split: prod.split)

lemma calm_updateHostStatus [calm_intros]: "calm C (updateHostStatus C host b uid)"
  unfolding updateHostStatus_def Let_def
  by (auto intro!: calm_intros simp: plain_def split: prod.split)

lemma calm_updateAssignmentStatus:
  "calm C (updateAssignmentStatus C s phase None)"
proof -
  have *: "calm C (kubeA (kUpdateStatus AssignmentsGVR ns u))"
    if "ofAssignment (ac_conv C) (s\<lparr>wa_Status := reportedStatus C a s phase None now\<rparr>) = Inr u" for ns u a now
    using that by (auto simp: calm_def plain_def reportedStatus_def Let_def intro!: exI)
  have body: "calm C (tryA (retA (ToUnstructured (ofAssignment (ac_conv C)) (s\<lparr>wa_Status := reportedStatus C a s phase None now\<rparr>))) (\<lambda>object.
       tryA (kubeA (kUpdateStatus AssignmentsGVR (wa_Namespace s) object)) (\<lambda>updated.
       retA (FromUnstructured (ac_conv C) (toAssignment (ac_conv C)) updated))))" for a now
  proof (cases "ofAssignment (ac_conv C) (s\<lparr>wa_Status := reportedStatus C a s phase None now\<rparr>)")
    case (Inr u)
    then have "ToUnstructured (ofAssignment (ac_conv C)) (s\<lparr>wa_Status := reportedStatus C a s phase None now\<rparr>) = Inr u" by simp
    then show ?thesis by (simp only: tryA_retA) (intro calm_intros * [OF Inr])
  qed (simp add: ToUnstructured_def calm_retA)
  show ?thesis
    unfolding updateAssignmentStatus_def Let_def
    by (intro calm_bindA calm_readA calm_kube(2) calm_tryA [OF _ body]) (auto intro!: calm_intros simp: frame_def)
qed

lemma calm_refreshStartupLease:
  "calm C (refreshStartupLease C s)"
  unfolding refreshStartupLease_def by (intro calm_intros calm_updateAssignmentStatus)

lemma calm_joinPrepared [calm_intros]: "calm C (joinPrepared e)"
  unfolding joinPrepared_def awaitPrepared_def by (intro calm_intros) (simp add: plain_def)

lemma calm_case_event [calm_intros]:
  assumes "\<And>pid. calm C (f1 pid)" "calm C m2" "\<And>e. calm C (f3 e)" "\<And>x. calm C (f4 x)" "\<And>x. calm C (f5 x)"
  shows "calm C (case ev of Spawned pid \<Rightarrow> f1 pid | Ticked \<Rightarrow> m2 | ContextDone e \<Rightarrow> f3 e | Returned x \<Rightarrow> f4 x | PreparedEvent x \<Rightarrow> f5 x)"
  using assms by (cases ev) auto

lemma calm_prepareWithLease:
  "calm C (prepareWithLease C s lease what)"
proof -
  have "calm C (prepareLoop C s lease n)" for n
    by (induction n) (auto intro!: calm_intros calm_refreshStartupLease simp: plain_def)
  then show ?thesis
    unfolding prepareWithLease_def by (intro calm_intros) (simp_all add: plain_def)
qed

lemma calm_resolveExecution:
  "calm C (resolveExecution C s)"
proof -
  note prep = calm_prepareWithLease
  have "calm C (prepareAssignedHFModel C s m)" for m
    unfolding prepareAssignedHFModel_def Let_def by (intro calm_intros prep) (simp_all add: plain_def)
  moreover have "calm C (resolveLocked C s m)" for m
    unfolding resolveLocked_def by (intro calm_intros prep) (simp_all add: plain_def)
  moreover have "calm C (resolveOllamaModel C m)" "calm C (resolveLlamaCppModel C m)" for m
    unfolding resolveOllamaModel_def resolveLlamaCppModel_def by (intro calm_intros; simp add: plain_def)+
  moreover have "calm C (resolveTrainingExecution C s t)" for t
    unfolding resolveTrainingExecution_def by (intro calm_intros prep) (simp_all add: plain_def)
  ultimately show ?thesis
    unfolding resolveExecution_def by (intro calm_intros) blast+
qed

lemma calm_preStartMemoryGate [calm_intros]: "calm C (preStartMemoryGate C s)"
  unfolding preStartMemoryGate_def Let_def by (intro calm_intros) (simp add: plain_def)

lemma calm_secureToken [calm_intros]: "calm C secureToken"
  unfolding secureToken_def by (intro calm_intros)

lemma calm_removeWork [calm_intros]: "calm C (removeWork b text dir)"
  unfolding removeWork_def by (intro calm_intros) (simp add: plain_def)

lemma calm_foldr_tryA: "calm C m \<Longrightarrow> (\<And>x. calm C (g x)) \<Longrightarrow> calm C (foldr (\<lambda>x n. tryA (g x) (\<lambda>_. n)) xs m)"
  by (induction xs) (auto intro: calm_intros)

lemma calm_prepareWork [calm_intros]: "calm C (prepareWork C s)"
  unfolding prepareWork_def pruneTrainingWorkDirectories_def Let_def
  by (intro calm_intros calm_foldr_tryA) (simp_all add: plain_def)

lemma calm_finishStart [calm_intros]: "calm C (finishStart C s x)"
  unfolding finishStart_def by (intro calm_intros; simp add: plain_def)

subsection \<open>The journal in a run\<close>

definition journalPost :: "'u AgentConfig \<Rightarrow> DevAgent \<Rightarrow> journal_op \<Rightarrow> 'u history \<Rightarrow> DevAgent \<Rightarrow> 'u history \<Rightarrow> DevAgent \<Rightarrow> unit res \<Rightarrow> bool" where
  "journalPost C a0 op h a h' a' x \<longleftrightarrow> runInv C a0 h' a' \<and> extends h h'
     \<and> a' = a\<lparr>da_store := da_store a'\<rparr>
     \<and> (x \<noteq> Inr () \<longrightarrow> da_store a' = da_store a)
     \<and> (x = Inr () \<longrightarrow> (let d = decide (jn_open (da_store a)) (recorded a) op in
          recorded a' = recordAfter d (recorded a) \<and> (\<forall>e. d \<noteq> Refused e)))"

lemma runInv_write:
  assumes "runInv C a0 h a" and "decide b (recorded a) op = Writes r"
  shows "runInv C a0 (h @ [(WriteJournal (Persist r), DoneA (Inr ()))]) (a\<lparr>da_store := (da_store a)\<lparr>jn_record := Some r\<rparr>\<rparr>)"
proof -
  have "keeps k r" if "recorded a = Some k" for k
    using assms(2) that store.writes store.begin_writes by (metis option.inject option.distinct(1))
  then have "previousOver C a0 h (Some r)"
    using assms(1) keeps_trans unfolding runInv_def previousOver_def by blast
  with assms(1) show ?thesis
    using previousOver_mono by (auto simp: runInv_def journalOf_snoc journalStep_def)
qed

lemma runInv_erase:
  assumes "runInv C a0 h a" and "eraseOk C a0 h"
  shows "runInv C a0 (h @ [(WriteJournal Erase, DoneA (Inr ()))]) (a\<lparr>da_store := (da_store a)\<lparr>jn_record := None\<rparr>\<rparr>)"
proof -
  have "previousOver C a0 h None"
    using assms unfolding runInv_def previousOver_def eraseOk_def by (metis option.inject)
  with assms(1) show ?thesis
    using previousOver_mono by (auto simp: runInv_def journalOf_snoc journalStep_def)
qed

lemma runInv_failed_write: "runInv C a0 h a \<Longrightarrow> aDone r = Inl e \<Longrightarrow> runInv C a0 (h @ [(WriteJournal j, r)]) a"
  using previousOver_mono [of C a0 h _ "[(WriteJournal j, r)]"]
  by (auto simp: runInv_def journalOf_snoc journalStep_def split: journal_req.split aresp.split sum.split)

lemma journalA_wp:
  assumes i: "runInv C a0 h a" and e: "decide (jn_open (da_store a)) (recorded a) op = Erases \<Longrightarrow> eraseOk C a0 h"
  shows "wp (guarded C a0) (journalPost C a0 op h a) (journalA op) h a"
proof -
  have same: "a\<lparr>da_store := da_store a\<rparr> = a" by simp
  have w: "runInv C a0 (h @ [(WriteJournal (Persist r), DoneA (Inr ()))]) (a\<lparr>da_store := (da_store a)\<lparr>jn_record := Some r\<rparr>\<rparr>)"
    if "decide (jn_open (da_store a)) (recorded a) op = Writes r" for r using runInv_write [OF i that] .
  have f: "runInv C a0 (h @ [(WriteJournal j, r)]) a" if "aDone r = Inl e" for j r e using runInv_failed_write [OF i that] .
  show ?thesis
    using i e w f runInv_erase [OF i]
    by (auto simp: wp_def journalA_def operate_def Let_def journalPost_def guarded_def safe_bindP recordAfter_def same
        split: decision.split sum.split)
qed

subsection \<open>Stopping and clearing in a run\<close>

lemma killAll_kills:
  "wp (\<lambda>h q. True) (\<lambda>h' a' x. extends h h' \<and> (x = Inr () \<longrightarrow> (\<forall>pid \<in> set pids. killed h' pid))) (killAll pids) h a"
proof (induction pids arbitrary: h)
  case (Cons pid pids)
  have "wp (\<lambda>h q. True) (\<lambda>h' a' x. extends h h' \<and> (x = Inr () \<longrightarrow> (\<forall>p \<in> set (pid # pids). killed h' p))) (killAll pids)
      (h @ [(KillProcessGroupAndWait pid, DoneA (Inr ()))]) a"
    by (rule wp_mono [OF Cons.IH]) (auto simp: killed_def extends_def)
  then show ?case by (auto simp: wp_tryA split: sum.split)
qed simp

lemma terminateRecorded_over:
  "wp (\<lambda>h q. True) (\<lambda>h' a' x. x = Inr () \<longrightarrow> terminated C r h') (terminateRecorded C r) h a"
proof -
  let ?find = "FindRunnerPIDs (ly_Runner (ac_Layout C)) (rec_Nonce r)"
  have "wp (\<lambda>h q. True) (\<lambda>h' a' x. x = Inr () \<longrightarrow> terminated C r h') (killAll pids) (h @ [(?find, PidsA (Inr pids))]) a"
    if "rec_PID r \<le> 0" for pids
    by (rule wp_mono [OF killAll_kills]) (use that in \<open>auto simp: terminated_def dest: extends_mem\<close>)
  then show ?thesis
    by (auto simp: terminateRecorded_def wp_bindA wp_tryA failA_def terminated_def killed_def split: sum.split)
qed

lemma terminateRecorded_wp:
  assumes "runInv C a0 h a"
  shows "wp (guarded C a0) (\<lambda>h' a' x. (runInv C a0 h' a' \<and> frame a a' \<and> extends h h') \<and> (x = Inr () \<longrightarrow> terminated C r h'))
    (terminateRecorded C r) h a"
  by (rule wp_conj [OF calm_wp [OF calm_terminateRecorded assms] terminateRecorded_over])

text \<open>Only the journal may have changed.\<close>

definition onlyStore :: "DevAgent \<Rightarrow> DevAgent \<Rightarrow> bool" where
  "onlyStore a a' \<longleftrightarrow> da_process a' = da_process a \<and> da_assignment a' = da_assignment a"

definition clearPost :: "'u AgentConfig \<Rightarrow> DevAgent \<Rightarrow> 'u history \<Rightarrow> DevAgent \<Rightarrow> 'u history \<Rightarrow> DevAgent \<Rightarrow> unit res \<Rightarrow> bool" where
  "clearPost C a0 h a h' a' x \<longleftrightarrow> runInv C a0 h' a' \<and> extends h h' \<and> onlyStore a a'
     \<and> (recorded a' = recorded a \<or> recorded a' = None) \<and> (x = Inr () \<longrightarrow> recorded a' = None)"

lemma clear_wp:
  assumes "runInv C a0 h a" and "recorded a = Some r" and "terminated C r h"
  shows "wp (guarded C a0) (clearPost C a0 h a) (journalA (OpClear r)) h a"
proof (rule wp_mono [OF journalA_wp [OF assms(1)]])
  show "eraseOk C a0 h" using assms unfolding eraseOk_def runInv_def by metis
next
  fix h' a' x assume "journalPost C a0 (OpClear r) h a h' a' x"
  moreover from this have "x = Inr () \<Longrightarrow> recorded a' = None"
    using store.clear_recorded [OF refl] by (auto simp: journalPost_def Let_def)
  ultimately show "clearPost C a0 h a h' a' x"
    by (auto simp: journalPost_def clearPost_def onlyStore_def) (metis DevAgent.select_convs(2,3) DevAgent.surjective DevAgent.update_convs(1))+
qed

lemma onlyStore_frame: "frame a b \<Longrightarrow> onlyStore b c \<Longrightarrow> onlyStore a c" "onlyStore a b \<Longrightarrow> frame b c \<Longrightarrow> onlyStore a c"
  by (auto simp: frame_def onlyStore_def)

lemma onlyStore_refl [simp]: "onlyStore a a"
  by (simp add: onlyStore_def)

lemma clearPost_wrap: "clearPost C a0 h a h' a' (case x of Inl e \<Rightarrow> Inl (WrapError t e []) | Inr u \<Rightarrow> Inr u) = clearPost C a0 h a h' a' x"
  by (cases x) (auto simp: clearPost_def)

lemma clearPost_frame:
  assumes "frame a b" and "extends h i" and "clearPost C a0 i b h' a' x"
  shows "clearPost C a0 h a h' a' x"
  using assms(1,3) extends_trans [OF assms(2), of h'] onlyStore_frame(1) [OF assms(1), of a']
  by (auto simp: clearPost_def frame_def)

lemma wp_wrapA: "wp G Q (wrapA t m) h s = wp G (\<lambda>h' s' x. Q h' s' (case x of Inl e \<Rightarrow> Inl (WrapError t e []) | Inr u \<Rightarrow> Inr u)) m h s"
  by (simp add: wrapA_def wp_bindA)

definition wrapping :: "(('u, unit res) agent \<Rightarrow> ('u, unit res) agent) \<Rightarrow> bool" where
  "wrapping w \<longleftrightarrow> w = (\<lambda>m. m) \<or> (\<exists>t. w = wrapA t)"

lemma wrapping_simps [simp]: "wrapping (\<lambda>m. m)" "wrapping (wrapA t)"
  by (auto simp: wrapping_def)

lemma wp_wrapping:
  assumes "wrapping w" and "wp G Q m h s" and "\<And>h s e e'. Q h s (Inl e) \<Longrightarrow> Q h s (Inl e')"
  shows "wp G Q (w m) h s"
proof -
  have "wp G (\<lambda>h' s' x. Q h' s' (case x of Inl e \<Rightarrow> Inl (WrapError t e []) | Inr u \<Rightarrow> Inr u)) m h s" for t
    by (rule wp_mono [OF assms(2)]) (use assms(3) in \<open>auto split: sum.split\<close>)
  then show ?thesis using assms(1,2) by (auto simp: wrapping_def wp_wrapA)
qed

lemma clearPost_errors: "clearPost C a0 h a h' a' (Inl e) \<Longrightarrow> clearPost C a0 h a h' a' (Inl e')"
  by (simp add: clearPost_def)

lemma terminateAndClear_wp:
  assumes "runInv C a0 h a" and "recorded a = Some r" and "wrapping w" and "wrapping w'"
  shows "wp (guarded C a0) (clearPost C a0 h a) (terminateAndClear C w w' r) h a"
  unfolding terminateAndClear_def
proof (rule wp_tryI)
  show "wp (guarded C a0) (\<lambda>h' a' x. (runInv C a0 h' a' \<and> frame a a' \<and> extends h h') \<and> (x = Inr () \<longrightarrow> terminated C r h'))
      (w (terminateRecorded C r)) h a"
    by (rule wp_wrapping [OF assms(3) terminateRecorded_wp [OF assms(1)]]) simp
next
  fix h' a' v assume *: "(runInv C a0 h' a' \<and> frame a a' \<and> extends h h') \<and> (Inr v = Inr () \<longrightarrow> terminated C r h')"
  with assms(2) have "wp (guarded C a0) (clearPost C a0 h' a') (journalA (OpClear r)) h' a'"
    by (auto intro!: clear_wp simp: frame_def)
  then have "wp (guarded C a0) (clearPost C a0 h' a') (w' (journalA (OpClear r))) h' a'"
    by (rule wp_wrapping [OF assms(4)]) (rule clearPost_errors)
  then show "wp (guarded C a0) (clearPost C a0 h a) (w' (journalA (OpClear r))) h' a'"
    by (rule wp_mono) (use * clearPost_frame in blast)
qed (use assms in \<open>auto simp: clearPost_def frame_def onlyStore_def\<close>)

definition stopPost :: "'u AgentConfig \<Rightarrow> DevAgent \<Rightarrow> 'u history \<Rightarrow> DevAgent \<Rightarrow> 'u history \<Rightarrow> DevAgent \<Rightarrow> unit res \<Rightarrow> bool" where
  "stopPost C a0 h a h' a' x \<longleftrightarrow> runInv C a0 h' a' \<and> extends h h' \<and> da_store a' = da_store a \<and> da_assignment a' = da_assignment a
     \<and> (da_process a' = da_process a \<or> da_process a' = None) \<and> (x = Inr () \<longrightarrow> da_process a' = None)"

lemma stopHandle_wp:
  assumes "runInv C a0 h a"
  shows "wp (guarded C a0) (stopPost C a0 h a) stopHandle h a"
proof -
  have "runInv C a0 (h @ [(Stop p, DoneA (Inr ()))]) (a\<lparr>da_process := None\<rparr>)" if "da_process a = Some p" for p
    using runInv_def [THEN iffD1, OF runInv_other [OF assms, of "Stop p" "DoneA (Inr ())"]] that by (auto simp: runInv_def)
  moreover have "runInv C a0 (h @ [(Stop p, r)]) a" for p r by (rule runInv_other [OF assms]) simp
  ultimately show ?thesis
    using assms by (auto simp: stopHandle_def wp_tryA stopPost_def guarded_def split: option.split sum.split)
qed

lemma stopProcess_wp:
  assumes "runInv C a0 h a"
  shows "wp (guarded C a0) (stopPost C a0 h a) (stopProcess C) h a"
  unfolding stopProcess_def
proof (rule wp_tryI [OF stopHandle_wp [OF assms]])
  fix h' a' v assume s: "stopPost C a0 h a h' a' (Inr v)"
  have frame: "stopPost C a0 h a h'' a'' x" if "runInv C a0 h'' a'' \<and> frame a' a'' \<and> extends h' h''" for h'' a'' x
    using s that extends_trans [of h h' h''] by (auto simp: stopPost_def frame_def)
  show "wp (guarded C a0) (stopPost C a0 h a) (readA (\<lambda>a. case da_assignment a of
       None \<Rightarrow> retA (Inr ())
     | Some s \<Rightarrow>
         tryA (removeWork (as_Shell (wa_Spec s) \<noteq> None) ''remove shell work directory: '' (shellWorkDirectory (ac_Layout C) (wa_UID s))) (\<lambda>_.
         tryA (removeWork (profileOf s = RuntimeProfileOllamaGGUFV1) ''remove Ollama work directory: '' (ollamaWorkDirectory (ac_Layout C) (wa_UID s))) (\<lambda>_.
         removeWork (profileOf s = RuntimeProfileLlamaCppMetalV1) ''remove llama.cpp work directory: '' (llamaCppWorkDirectory (ac_Layout C) (wa_UID s)))))) h' a'"
    by (rule wp_mono [OF calm_wp]) (use s frame in \<open>auto intro!: calm_intros simp: stopPost_def\<close>)
qed simp

subsection \<open>Actions that keep the invariant\<close>

definition steady :: "'u AgentConfig \<Rightarrow> DevAgent \<Rightarrow> ('u, 'a) agent \<Rightarrow> bool" where
  "steady C a0 m \<longleftrightarrow> (\<forall>h a. runInv C a0 h a \<longrightarrow> wp (guarded C a0) (\<lambda>h' a' x. runInv C a0 h' a' \<and> extends h h') m h a)"

named_theorems steady_intros

lemma steady_wp: "steady C a0 m \<Longrightarrow> runInv C a0 h a \<Longrightarrow> wp (guarded C a0) (\<lambda>h' a' x. runInv C a0 h' a' \<and> extends h h') m h a"
  by (simp add: steady_def)

lemma steady_calm: "calm C m \<Longrightarrow> steady C a0 m"
  unfolding steady_def by (blast intro: wp_mono [OF calm_wp])

lemma steady_bindA [steady_intros]:
  assumes "steady C a0 m" and "\<And>x. steady C a0 (f x)"
  shows "steady C a0 (bindA m f)"
  unfolding steady_def
proof (intro allI impI)
  fix h a assume "runInv C a0 h a"
  then show "wp (guarded C a0) (\<lambda>h' a' x. runInv C a0 h' a' \<and> extends h h') (bindA m f) h a"
    by (rule wp_bindI [OF steady_wp [OF assms(1)]], elim conjE)
      (rule wp_mono [OF steady_wp [OF assms(2)]], assumption, blast intro: extends_trans)
qed

lemma steady_retA [steady_intros]: "steady C a0 (retA x)" "steady C a0 (failA t)"
  by (simp_all add: steady_def failA_def)

lemma steady_cases [steady_intros]:
  "steady C a0 m1 \<Longrightarrow> steady C a0 m2 \<Longrightarrow> steady C a0 (if b then m1 else m2)"
  "(\<And>e. steady C a0 (f1 e)) \<Longrightarrow> (\<And>v. steady C a0 (f2 v)) \<Longrightarrow> steady C a0 (case x of Inl e \<Rightarrow> f1 e | Inr v \<Rightarrow> f2 v)"
  by (simp_all split: sum.split)

lemma steady_tryA [steady_intros]:
  assumes "steady C a0 m" and "\<And>x. steady C a0 (f x)"
  shows "steady C a0 (tryA m f)"
  unfolding tryA_def by (intro steady_intros assms)

lemma steady_wrapA [steady_intros]: "steady C a0 m \<Longrightarrow> steady C a0 (wrapA t m)"
  unfolding wrapA_def by (intro steady_intros)

lemma steady_ignoreA [steady_intros]: "steady C a0 m \<Longrightarrow> steady C a0 (ignoreA m)"
  unfolding ignoreA_def by (intro steady_intros)

lemma steady_readA [steady_intros]: "(\<And>a. steady C a0 (f a)) \<Longrightarrow> steady C a0 (readA f)"
  by (simp add: steady_def)

lemma steady_modA: "(\<And>a. da_store (f a) = da_store a \<and> da_process (f a) = da_process a) \<Longrightarrow> steady C a0 (modA f)"
  by (auto simp: steady_def runInv_def)

lemma steady_stopProcess [steady_intros]: "steady C a0 (stopProcess C)"
  unfolding steady_def by (auto intro!: wp_mono [OF stopProcess_wp] simp: stopPost_def)

lemma steady_journalA [steady_intros]: "(\<And>e. op \<noteq> OpClear e) \<Longrightarrow> steady C a0 (journalA op)"
  unfolding steady_def by (auto intro!: wp_mono [OF journalA_wp] dest!: store.erases simp: journalPost_def)

lemma steady_recorded:
  assumes "\<And>r. w r \<Longrightarrow> steady C a0 (g r)" and "wrapping v" "wrapping v'"
  shows "steady C a0 (readA (\<lambda>a. case recorded a of None \<Rightarrow> retA (Inr ())
    | Some r \<Rightarrow> if w r then g r else terminateAndClear C v v' r))"
proof -
  have "wp (guarded C a0) (\<lambda>h' a' x. runInv C a0 h' a' \<and> extends h h') (terminateAndClear C v v' r) h a"
    if "runInv C a0 h a" "recorded a = Some r" for h a r
    by (rule wp_mono [OF terminateAndClear_wp [OF that assms(2,3)]]) (simp add: clearPost_def)
  then show ?thesis
    using assms(1) by (auto simp: steady_def split: option.split)
qed

lemma steady_terminateAndClear [steady_intros]:
  assumes "wrapping v" "wrapping v'"
  shows "steady C a0 (readA (\<lambda>a. case recorded a of None \<Rightarrow> retA (Inr ()) | Some r \<Rightarrow> terminateAndClear C v v' r))"
  using steady_recorded [where w = "\<lambda>_. False" and g = "\<lambda>_. retA (Inr ())", OF _ assms] by (simp cong: option.case_cong)

lemma steady_clearRestartableExecution [steady_intros]: "steady C a0 (clearRestartableExecution C s)"
  unfolding clearRestartableExecution_def
  by (rule steady_recorded [where w = "\<lambda>r. \<not> recordMatchesAssignment r s"]) (auto intro: steady_intros)

lemma steady_handleSpawn [steady_intros]: "steady C a0 (handleSpawn planned pid)"
  unfolding handleSpawn_def onSpawn_def
  by (intro steady_intros steady_calm [OF calm_callA]) (simp_all add: plain_def)

lemma steady_case_event [steady_intros]:
  assumes "\<And>pid. steady C a0 (f1 pid)" "steady C a0 m2" "\<And>e. steady C a0 (f3 e)" "\<And>x. steady C a0 (f4 x)" "\<And>x. steady C a0 (f5 x)"
  shows "steady C a0 (case ev of Spawned pid \<Rightarrow> f1 pid | Ticked \<Rightarrow> m2 | ContextDone e \<Rightarrow> f3 e | Returned x \<Rightarrow> f4 x | PreparedEvent x \<Rightarrow> f5 x)"
  using assms by (cases ev) auto

lemma steady_abandonStart [steady_intros]: "steady C a0 (abandonStart C s planned e)"
proof -
  have "steady C a0 (drainStart C s planned n)" for n
    by (induction n) (auto intro!: steady_intros steady_calm [OF calm_finishStart] steady_calm [OF calm_callA] simp: plain_def)
  then show ?thesis
    unfolding abandonStart_def by (intro steady_intros steady_calm [OF calm_callA]) (simp_all only: plain_def areq.case)
qed

lemma steady_startLoop:
  "steady C a0 (startLoop C s planned n)"
  by (induction n) (auto intro!: steady_intros steady_calm [OF calm_finishStart] steady_calm [OF calm_callA]
      steady_calm [OF calm_refreshStartupLease] simp: plain_def)

lemma steady_cleanUpFailedStart [steady_intros]: "steady C a0 (cleanUpFailedStart C s)"
proof -
  have "steady C a0 (readA (\<lambda>a. case recorded a of None \<Rightarrow> retA (Inr ())
      | Some current \<Rightarrow> ignoreA (terminateAndClear C (\<lambda>m. m) (\<lambda>m. m) current)))"
  proof -
    have "wp (guarded C a0) (\<lambda>h' a' x. runInv C a0 h' a' \<and> extends h h') (ignoreA (terminateAndClear C (\<lambda>m. m) (\<lambda>m. m) r)) h a"
      if "runInv C a0 h a" "recorded a = Some r" for h a r
      unfolding ignoreA_def by (rule wp_bindI [OF terminateAndClear_wp [OF that]]) (simp_all add: clearPost_def)
    then show ?thesis by (auto simp: steady_def split: option.split)
  qed
  then show ?thesis
    unfolding cleanUpFailedStart_def Let_def
    by (intro steady_bindA steady_cases steady_ignoreA steady_calm [OF calm_callA] steady_retA) (simp_all add: plain_def)
qed

lemma steady_option: "steady C a0 m \<Longrightarrow> (\<And>v. steady C a0 (g v)) \<Longrightarrow> steady C a0 (case x of None \<Rightarrow> m | Some v \<Rightarrow> g v)"
  by (simp split: option.split)

lemma steady_completeExecution [steady_intros]: "steady C a0 (completeExecution C s p)"
  unfolding completeExecution_def Let_def
  by (intro steady_intros steady_option steady_calm [OF calm_callA]) (simp_all add: plain_def)

lemma steady_replaceExited [steady_intros]: "steady C a0 (replaceExited C s)"
  unfolding replaceExited_def by (intro steady_intros)

subsection \<open>Giving up what is recorded\<close>

definition recPost :: "'u AgentConfig \<Rightarrow> DevAgent \<Rightarrow> 'u history \<Rightarrow> DevAgent \<Rightarrow> 'u history \<Rightarrow> DevAgent \<Rightarrow> bool" where
  "recPost C a0 h a h' a' \<longleftrightarrow> runInv C a0 h' a' \<and> extends h h' \<and> (recorded a' = recorded a \<or> recorded a' = None)
     \<and> (da_process a' = da_process a \<or> da_process a' = None)"

lemma recPost_trans: "recPost C a0 h a h1 a1 \<Longrightarrow> recPost C a0 h1 a1 h2 a2 \<Longrightarrow> recPost C a0 h a h2 a2"
  using extends_trans [of h h1 h2] by (auto simp: recPost_def)

lemma recPost_refl: "runInv C a0 h a \<Longrightarrow> recPost C a0 h a h a"
  by (simp add: recPost_def)

lemma posts_recPost:
  "clearPost C a0 h a h' a' x \<Longrightarrow> recPost C a0 h a h' a'"
  "stopPost C a0 h a h' a' x \<Longrightarrow> recPost C a0 h a h' a'"
  "runInv C a0 h' a' \<Longrightarrow> frame a a' \<Longrightarrow> extends h h' \<Longrightarrow> recPost C a0 h a h' a'"
  by (simp_all add: clearPost_def stopPost_def recPost_def onlyStore_def frame_def)

lemma clearRestartableExecution_wp:
  assumes "runInv C a0 h a"
  shows "wp (guarded C a0) (\<lambda>h' a' x. recPost C a0 h a h' a' \<and> da_process a' = da_process a) (clearRestartableExecution C s) h a"
proof -
  have "wp (guarded C a0) (\<lambda>h' a' x. recPost C a0 h a h' a' \<and> da_process a' = da_process a)
      (terminateAndClear C (wrapA t) (wrapA u) r) h a" if "recorded a = Some r" for r t u
    by (rule wp_mono [OF terminateAndClear_wp [OF assms that]])
      (auto simp: clearPost_def onlyStore_def intro: posts_recPost(1) [unfolded clearPost_def onlyStore_def])
  then show ?thesis
    using recPost_refl [OF assms] by (auto simp: clearRestartableExecution_def failA_def split: option.split)
qed

lemma joinResults_Inr [simp]: "joinResults [x, y] = Inr () \<longleftrightarrow> x = Inr () \<and> y = Inr ()"
  by (auto simp: joinResults_def joinErrors_def split: sum.split)

lemma fence_clear_wp:
  assumes "runInv C a0 h a" and "recorded a = Some c" and "terminated C c h"
  shows "wp (guarded C a0) (\<lambda>h' a' x. recPost C a0 h a h' a')
     (tryA (wrapA t (journalA (OpClear c))) (\<lambda>_. modA (\<lambda>a. a\<lparr>da_assignment := None, da_runStatus := None, da_runProtocolErr := None\<rparr>))) h a"
proof (rule wp_tryI)
  show "wp (guarded C a0) (clearPost C a0 h a) (wrapA t (journalA (OpClear c))) h a"
    by (rule wp_wrapping [OF wrapping_simps(2) clear_wp [OF assms] clearPost_errors])
qed (auto simp: clearPost_def recPost_def runInv_def onlyStore_def)

lemma fenceSupersededExecution_wp:
  assumes "runInv C a0 h a"
  shows "wp (guarded C a0) (\<lambda>h' a' x. recPost C a0 h a h' a') (fenceSupersededExecution C s) h a"
proof -
  have "wp (guarded C a0) (\<lambda>h' a' x. recPost C a0 h a h' a')
      (bindA (stopProcess C) (\<lambda>stopErr. bindA (terminateRecorded C c) (\<lambda>terminateErr.
           tryA (wrapA t (retA (joinResults [stopErr, terminateErr]))) (\<lambda>_.
           tryA (wrapA u (journalA (OpClear c))) (\<lambda>_.
           modA (\<lambda>a. a\<lparr>da_assignment := None, da_runStatus := None, da_runProtocolErr := None\<rparr>)))))) h a"
    if c: "recorded a = Some c" for c t u
  proof (rule wp_bindI [OF stopProcess_wp [OF assms]], rule wp_bindI [OF terminateRecorded_wp])
    fix h1 a1 x1 assume s1: "stopPost C a0 h a h1 a1 x1"
    then show "runInv C a0 h1 a1" by (simp add: stopPost_def)
    fix h2 a2 and x2 :: "unit res" assume s2: "(runInv C a0 h2 a2 \<and> frame a1 a2 \<and> extends h1 h2) \<and> (x2 = Inr () \<longrightarrow> terminated C c h2)"
    have r: "recPost C a0 h a h2 a2" and c2: "recorded a2 = Some c"
      using posts_recPost(2) [OF s1] posts_recPost(3) [of C a0 h2 a2 a1 h1] s1 s2 c recPost_trans
      by (blast, simp add: stopPost_def frame_def)
    show "wp (guarded C a0) (\<lambda>h' a' x. recPost C a0 h a h' a') (tryA (wrapA t (retA (joinResults [x1, x2]))) (\<lambda>_.
        tryA (wrapA u (journalA (OpClear c))) (\<lambda>_. modA (\<lambda>a. a\<lparr>da_assignment := None, da_runStatus := None, da_runProtocolErr := None\<rparr>)))) h2 a2"
    proof (cases "joinResults [x1, x2]")
      case (Inr v)
      with s2 have "wp (guarded C a0) (\<lambda>h' a' x. recPost C a0 h2 a2 h' a') (tryA (wrapA u (journalA (OpClear c)))
          (\<lambda>_. modA (\<lambda>a. a\<lparr>da_assignment := None, da_runStatus := None, da_runProtocolErr := None\<rparr>))) h2 a2"
        by (intro fence_clear_wp c2) simp_all
      then have "wp (guarded C a0) (\<lambda>h' a' x. recPost C a0 h a h' a') (tryA (wrapA u (journalA (OpClear c)))
          (\<lambda>_. modA (\<lambda>a. a\<lparr>da_assignment := None, da_runStatus := None, da_runProtocolErr := None\<rparr>))) h2 a2"
        by (rule wp_mono) (rule recPost_trans [OF r])
      with Inr show ?thesis by (simp only: wp_tryA [of _ _ "wrapA t (retA (Inr v))"] wp_wrapA wp_retA sum.case)
    qed (use r in \<open>simp add: wp_tryA wp_wrapA\<close>)
  qed
  then show ?thesis
    using recPost_refl [OF assms] by (auto simp: fenceSupersededExecution_def failA_def split: option.split)
qed

subsection \<open>Acknowledging a stop\<close>

lemma sameObject_status [simp]: "sameObject s (s\<lparr>wa_Status := st\<rparr>)" "sameObject s s"
  by (simp_all add: sameObject_def)

lemma acknowledge_wp:
  assumes "runInv C a0 h a" and "da_process a = None" and "recorded a = None"
    and "accepted C a0 h s" and "as_DesiredState (wa_Spec s) = AssignmentDesiredStopped" and ack: "ack = stopAcknowledgement s t"
  shows "wp (guarded C a0) (\<lambda>h' a' x. runInv C a0 h' a' \<and> extends h h') (updateAssignmentStatus C s PhaseStopped (Some ack)) h a"
proof -
  have acc: "accepted C a0 (h @ [qr]) s" for qr using assms(4) by (rule accepted_mono)
  have none: "journalOf (recorded a0) h = None" "stopped a0 h" "previousOver C a0 h None"
    using assms(1,3) stopped_inv [OF assms(1,2)] by (auto simp: runInv_def)
  have ids: "wa_UID s \<noteq> []" "ac_AgentID C \<noteq> []"
    using assms(4) by (auto simp: accepted_def ValidateMailbox_def split: if_splits)
  have ok: "guarded C a0 (h @ [(Kube Now, r)]) (Kube (UpdateStatus AssignmentsGVR (wa_Namespace s) u))"
    if "ofAssignment (ac_conv C) (s\<lparr>wa_Status := reportedStatus C b s PhaseStopped (Some ack) now\<rparr>) = Inr u" for b now r u
  proof -
    let ?c = "s\<lparr>wa_Status := reportedStatus C b s PhaseStopped (Some ack) now\<rparr>"
    have "sa_StoppedAt ack \<noteq> 0 \<Longrightarrow> \<exists>hb. ast_LastHeartbeatTime (wa_Status ?c) = Some hb \<and> sa_StoppedAt ack \<le> hb
        \<Longrightarrow> ValidateStopAcknowledgement ?c = Inr ()"
      using ids assms(5) ack by (simp add: ValidateStopAcknowledgement_def reportedStatus_def stopAcknowledgement_def Let_def)
    then have "ackOk C a0 (h @ [(Kube Now, r)]) ?c ack"
      using acc assms(5) ack none previousOver_mono [OF none(3)] unfolding ackOk_def
      by (intro conjI exI [of _ s]) (auto simp: stopped_def stopAcknowledgement_def)
    with that show ?thesis by (auto simp: guarded_def reportedStatus_def Let_def intro!: exI [of _ ?c])
  qed
  have i: "runInv C a0 (h @ [(Kube q, r)]) b" "runInv C a0 (h @ [(Kube q, r), (Kube q', r')]) b" if "frame a b" for q r q' r' b
    using runInv_frame [OF runInv_other [OF assms(1), of "Kube q" r] that] runInv_other [of C a0 "h @ [(Kube q, r)]" b "Kube q'" r'] by auto
  show ?thesis
    unfolding updateAssignmentStatus_def Let_def nowA_def
    using i ok by (auto simp: wp_bindA wp_tryA guarded_def [of C a0 h "Kube Now"] frame_def ToUnstructured_def extends_def split: sum.split if_split)
qed

lemma clearStopped_wp:
  assumes "runInv C a0 h a"
  shows "wp (guarded C a0) (\<lambda>h' a' x. runInv C a0 h' a' \<and> extends h h' \<and> da_process a' = da_process a \<and> (x = Inr () \<longrightarrow> recorded a' = None))
    (clearStopped C s) h a"
proof -
  have "wp (guarded C a0) (\<lambda>h' a' x. runInv C a0 h' a' \<and> extends h h' \<and> da_process a' = da_process a \<and> (x = Inr () \<longrightarrow> recorded a' = None))
      (terminateAndClear C (\<lambda>m. m) (\<lambda>m. m) c) h a" if "recorded a = Some c" for c
    by (rule wp_mono [OF terminateAndClear_wp [OF assms that]]) (auto simp: clearPost_def onlyStore_def)
  then show ?thesis
    using assms by (auto simp: clearStopped_def failA_def split: option.split)
qed

lemma calm_removeRunWork [calm_intros]: "calm C (removeRunWork C s)"
  unfolding removeRunWork_def by (intro calm_intros) (simp add: plain_def)

lemma stopAssignment_wp:
  assumes "runInv C a0 h a"
    and acc: "accepted C a0 h s" and "as_DesiredState (wa_Spec s) = AssignmentDesiredStopped"
  shows "wp (guarded C a0) (\<lambda>h' a' x. runInv C a0 h' a' \<and> extends h h') (agentStopAssignment C s) h a"
  unfolding agentStopAssignment_def
proof (rule wp_tryI [OF stopProcess_wp [OF assms(1)]], unfold stopPost_def; (elim conjE)?)
  fix h1 a1 v assume s1: "runInv C a0 h1 a1" "extends h h1" "Inr v = Inr () \<longrightarrow> da_process a1 = None"
  show "wp (guarded C a0) (\<lambda>h' a' x. runInv C a0 h' a' \<and> extends h h') (tryA (clearStopped C s) (\<lambda>_. tryA (removeRunWork C s) (\<lambda>_.
     bindA nowA (\<lambda>now. updateAssignmentStatus C s PhaseStopped (Some (stopAcknowledgement s now)))))) h1 a1"
  proof (rule wp_tryI [OF clearStopped_wp [OF s1(1)]]; (elim conjE)?)
    fix h2 a2 v assume s2: "runInv C a0 h2 a2" "extends h1 h2" "da_process a2 = da_process a1" "Inr v = Inr () \<longrightarrow> recorded a2 = None"
    show "wp (guarded C a0) (\<lambda>h' a' x. runInv C a0 h' a' \<and> extends h h') (tryA (removeRunWork C s) (\<lambda>_.
       bindA nowA (\<lambda>now. updateAssignmentStatus C s PhaseStopped (Some (stopAcknowledgement s now))))) h2 a2"
    proof (rule wp_calm_try [OF calm_removeRunWork s2(1)], use s1 s2 extends_trans in blast, rule wp_calm_bind [OF calm_kube(2)], assumption)
      fix h3 a3 v h4 a4 now
      assume "frame a2 a3" "extends h2 h3" and s4: "runInv C a0 h4 a4" "frame a3 a4" "extends h3 h4"
      then have e: "extends h h4" and f: "frame a2 a4" using s1(2) s2(2) extends_trans frame_trans by blast+
      have "wp (guarded C a0) (\<lambda>h' a' x. runInv C a0 h' a' \<and> extends h4 h') (updateAssignmentStatus C s PhaseStopped (Some (stopAcknowledgement s now))) h4 a4"
        by (rule acknowledge_wp [OF s4(1) _ _ accepted_ext [OF acc e] assms(3) refl])
          (use f s1 s2 in \<open>simp_all add: frame_def\<close>)
      then show "wp (guarded C a0) (\<lambda>h' a' x. runInv C a0 h' a' \<and> extends h h')
          (updateAssignmentStatus C s PhaseStopped (Some (stopAcknowledgement s now))) h4 a4"
        by (rule wp_mono) (use e extends_trans in blast)
    qed
  qed (use s1 extends_trans in blast)
qed simp

subsection \<open>Starting a process\<close>

definition launchCtx :: "'u AgentConfig \<Rightarrow> DevAgent \<Rightarrow> IdleloomWorkloadAssignment \<Rightarrow> IdleloomWorkloadAssignment \<Rightarrow> 'u history \<Rightarrow> bool" where
  "launchCtx C a0 s t h \<longleftrightarrow> accepted C a0 h s \<and> as_DesiredState (wa_Spec s) \<noteq> AssignmentDesiredStopped
     \<and> happened h KrunkitRunning (BoolA (Inr False)) \<and> versionOf C h s t"

lemma versionOf_ext: "versionOf C h s t \<Longrightarrow> extends h h' \<Longrightarrow> versionOf C h' s t"
  unfolding versionOf_def by (meson extends_mem)

lemma versionOf_refl [simp]: "versionOf C h s s"
  by (simp add: versionOf_def)

lemma launchCtx_ext: "launchCtx C a0 s t h \<Longrightarrow> extends h h' \<Longrightarrow> launchCtx C a0 s t h'"
  unfolding launchCtx_def by (meson accepted_ext extends_mem versionOf_ext)

abbreviation "kept C a0 h \<equiv> (\<lambda>h' a' x. runInv C a0 h' a' \<and> extends h h')"

lemma kept_ext: "extends h i \<Longrightarrow> wp (guarded C a0) (kept C a0 i) m i a \<Longrightarrow> wp (guarded C a0) (kept C a0 h) m i a"
  by (erule wp_mono) (meson extends_trans)

lemma startProcessWithLease_wp:
  assumes i: "runInv C a0 h a" and p: "da_process a = None" and ctx: "launchCtx C a0 s t h"
    and c: "recorded a = Some c" "samePlannedIdentity c (plannedRecord t rv nonce)" "c = plannedRecord t rv nonce \<or> recorded a0 = Some c"
  shows "wp (guarded C a0) (kept C a0 h) (startProcessWithLease C t (plannedRecord t rv nonce) nonce rv) h a"
  unfolding startProcessWithLease_def
proof (rule wp_calm_try [OF calm_prepareWork i])
  fix h1 a1 x assume s1: "runInv C a0 h1 a1" "frame a a1" "extends h h1"
  have "stopped a0 h1" using stopped_inv [OF s1(1)] s1(2) p by (simp add: frame_def)
  moreover have "launchCtx C a0 s t h1" using launchCtx_ext [OF ctx s1(3)] .
  moreover have "journalOf (recorded a0) h1 = Some c" "previousOver C a0 h1 (Some c)"
    using s1(1,2) c(1) unfolding runInv_def frame_def by metis+
  ultimately have g: "guarded C a0 h1 (Launch (launchOf C t rv nonce))"
    using c(2,3) unfolding guarded_def launchOk_def launchCtx_def by auto
  have "runInv C a0 (h1 @ [(Launch (launchOf C t rv nonce), r)]) a1" for r by (rule runInv_other [OF s1(1)]) simp
  moreover have "extends h (h1 @ u)" for u using s1(3) extends_trans extends_snoc by blast
  ultimately have "wp (guarded C a0) (kept C a0 h) (startLoop C t (plannedRecord t rv nonce) (ac_events C))
      (h1 @ [(Launch (launchOf C t rv nonce), r)]) a1" for r
    by (intro kept_ext [OF _ steady_wp [OF steady_startLoop]])
  with g show "wp (guarded C a0) (kept C a0 h) (bindA (callA (Launch (launchOf C t rv nonce)) aDone)
      (\<lambda>_. startLoop C t (plannedRecord t rv nonce) (ac_events C))) h1 a1"
    by (simp add: wp_bindA)
qed simp

lemma begin_wp:
  assumes i: "runInv C a0 h a" and r: "recorded a = recorded a0 \<or> recorded a = None"
  shows "wp (guarded C a0) (\<lambda>h' a' x. runInv C a0 h' a' \<and> extends h h' \<and> da_process a' = da_process a
      \<and> (x = Inr () \<longrightarrow> (\<exists>c. recorded a' = Some c \<and> samePlannedIdentity c planned \<and> (c = planned \<or> recorded a0 = Some c))))
    (journalA (OpBegin planned)) h a"
proof (rule wp_mono [OF journalA_wp [OF i]])
  show "decide (jn_open (da_store a)) (recorded a) (OpBegin planned) = Erases \<Longrightarrow> eraseOk C a0 h"
    using store.erases by blast
next
  fix h' a' and x :: "unit res" assume post: "journalPost C a0 (OpBegin planned) h a h' a' x"
  let ?d = "decide (jn_open (da_store a)) (recorded a) (OpBegin planned)"
  have "\<exists>c. recorded a' = Some c \<and> samePlannedIdentity c planned \<and> (c = planned \<or> recorded a0 = Some c)" if "x = Inr ()"
  proof -
    have d: "recorded a' = recordAfter ?d (recorded a)" "\<forall>e. ?d \<noteq> Refused e"
      using post that by (simp_all add: journalPost_def Let_def)
    obtain c where c: "recorded a' = Some c" "samePlannedIdentity c planned"
      using store.begin_recorded [OF refl d(2)] d(1) by auto
    have "c = planned \<or> recorded a0 = Some c"
    proof (cases ?d)
      case (Writes y)
      then show ?thesis using store.begin_writes [OF Writes] c(1) d(1) by (simp add: recordAfter_def)
    next
      case Erases
      then show ?thesis using store.erases by blast
    qed (use c d r in \<open>auto simp: recordAfter_def\<close>)
    with c show ?thesis by blast
  qed
  moreover have "da_process a' = da_process a"
    using post unfolding journalPost_def by (metis DevAgent.select_convs(2) DevAgent.surjective DevAgent.update_convs(1))
  ultimately show "runInv C a0 h' a' \<and> extends h h' \<and> da_process a' = da_process a
      \<and> (x = Inr () \<longrightarrow> (\<exists>c. recorded a' = Some c \<and> samePlannedIdentity c planned \<and> (c = planned \<or> recorded a0 = Some c)))"
    using post by (auto simp: journalPost_def)
qed

lemma stopped_ext: "stopped a0 h \<Longrightarrow> extends h h' \<Longrightarrow> stopped a0 h'"
  unfolding stopped_def by (meson extends_mem)

lemma runInv_started: "runInv C a0 h a \<Longrightarrow> stopped a0 h \<Longrightarrow> runInv C a0 h (a\<lparr>da_process := Some p\<rparr>)"
  by (auto simp: runInv_def stopped_def)

lemma launch_wp:
  assumes i: "runInv C a0 h a" and p: "da_process a = None" and ctx: "launchCtx C a0 s t h"
    and c: "recorded a = Some c" "samePlannedIdentity c (plannedRecord t rv nonce)" "c = plannedRecord t rv nonce \<or> recorded a0 = Some c"
  shows "wp (guarded C a0) (kept C a0 h)
      (bindA (startProcessWithLease C t (plannedRecord t rv nonce) nonce rv) (\<lambda>x. case x of
         Inl e \<Rightarrow> bindA (cleanUpFailedStart C t) (\<lambda>_. retA (Inl e))
       | Inr p \<Rightarrow> modA (\<lambda>a. a\<lparr>da_process := Some p\<rparr>))) h a"
proof (rule wp_bindI [OF startProcessWithLease_wp [OF assms]])
  fix h' a' x assume s: "runInv C a0 h' a' \<and> extends h h'"
  have "stopped a0 h'" using stopped_inv [OF i p] stopped_ext s by blast
  moreover have "wp (guarded C a0) (kept C a0 h) (bindA (cleanUpFailedStart C t) (\<lambda>_. retA (Inl e))) h' a'" for e
    by (rule kept_ext [OF _ steady_wp]) (use s in \<open>auto intro: steady_intros\<close>)
  ultimately show "wp (guarded C a0) (kept C a0 h) (case x of
         Inl e \<Rightarrow> bindA (cleanUpFailedStart C t) (\<lambda>_. retA (Inl e))
       | Inr p \<Rightarrow> modA (\<lambda>a. a\<lparr>da_process := Some p\<rparr>)) h' a'"
    using s by (auto intro: runInv_started split: sum.split)
qed

lemma startExecution_wp:
  assumes i: "runInv C a0 h a" and p: "da_process a = None" and ctx: "launchCtx C a0 s t h"
    and r: "recorded a = recorded a0 \<or> recorded a = None"
  shows "wp (guarded C a0) (kept C a0 h) (startExecution C t) h a"
proof -
  let ?b = "a\<lparr>da_assignment := Some t, da_runStatus := runStatusAtStart t, da_runProtocolErr := None\<rparr>"
  have ib: "runInv C a0 h ?b" using i by (auto simp: runInv_def)
  have begun: "wp (guarded C a0) (kept C a0 h) (tryA (journalA (OpBegin (plannedRecord t rv nonce))) (\<lambda>_.
       bindA (startProcessWithLease C t (plannedRecord t rv nonce) nonce rv) (\<lambda>x. case x of
         Inl e \<Rightarrow> bindA (cleanUpFailedStart C t) (\<lambda>_. retA (Inl e))
       | Inr p \<Rightarrow> modA (\<lambda>a. a\<lparr>da_process := Some p\<rparr>)))) h1 a1"
    if s1: "runInv C a0 h1 a1" "frame ?b a1" "extends h h1" for h1 a1 rv nonce
  proof (rule wp_tryI [OF begin_wp [OF s1(1)]]; (elim conjE)?)
    fix h2 a2 v
    assume s2: "runInv C a0 h2 a2" "extends h1 h2" "da_process a2 = da_process a1" "Inr v = Inr () \<longrightarrow> (\<exists>c. recorded a2 = Some c
        \<and> samePlannedIdentity c (plannedRecord t rv nonce) \<and> (c = plannedRecord t rv nonce \<or> recorded a0 = Some c))"
    have e: "extends h h2" using s1(3) s2(2) by (rule extends_trans)
    from s2(3,4) s1(2) p obtain c where "da_process a2 = None" "recorded a2 = Some c"
        "samePlannedIdentity c (plannedRecord t rv nonce)" "c = plannedRecord t rv nonce \<or> recorded a0 = Some c"
      by (auto simp: frame_def)
    from kept_ext [OF e launch_wp [OF s2(1) this(1) launchCtx_ext [OF ctx e] this(2-4)]]
    show "wp (guarded C a0) (kept C a0 h) (bindA (startProcessWithLease C t (plannedRecord t rv nonce) nonce rv) (\<lambda>x. case x of
         Inl e \<Rightarrow> bindA (cleanUpFailedStart C t) (\<lambda>_. retA (Inl e))
       | Inr p \<Rightarrow> modA (\<lambda>a. a\<lparr>da_process := Some p\<rparr>))) h2 a2" .
  qed (use s1 r extends_trans in \<open>auto simp: frame_def\<close>)
  show ?thesis
    unfolding startExecution_def Let_def wp_bindA wp_modA
    by (rule wp_calm_try [OF calm_resolveExecution ib], simp,
        rule wp_calm_try [OF calm_preStartMemoryGate], assumption, blast intro: extends_trans,
        rule wp_calm_try [OF calm_secureToken], assumption, blast intro: extends_trans,
        rule begun) (blast intro: extends_trans frame_trans)+
qed

lemma calm_processRunningFor [calm_intros]: "calm C (processRunningFor s)"
  unfolding processRunningFor_def by (intro calm_intros) (simp add: plain_def)

lemma ensureStarted_wp:
  assumes i: "runInv C a0 h a" and p: "da_process a = None" and ctx: "launchCtx C a0 s t h"
    and r: "recorded a = recorded a0 \<or> recorded a = None"
  shows "wp (guarded C a0) (kept C a0 h) (ensureStarted C t) h a"
  unfolding ensureStarted_def
proof (rule wp_tryI [where P = "\<lambda>h' a' x. recPost C a0 h a h' a' \<and> da_process a' = da_process a"])
  show "wp (guarded C a0) (\<lambda>h' a' x. recPost C a0 h a h' a' \<and> da_process a' = da_process a)
      (if finiteAssignment t then retA (Inr ()) else clearRestartableExecution C t) h a"
    using clearRestartableExecution_wp [OF i] recPost_refl [OF i] by simp
next
  fix h' a' v assume s1: "recPost C a0 h a h' a' \<and> da_process a' = da_process a"
  then have e: "extends h h'" by (simp add: recPost_def)
  have "wp (guarded C a0) (kept C a0 h) (startExecution C t) h' a'"
    by (rule kept_ext [OF e startExecution_wp [OF _ _ launchCtx_ext [OF ctx e]]]) (use s1 p r in \<open>auto simp: recPost_def\<close>)
  then show "wp (guarded C a0) (kept C a0 h) (readA (\<lambda>a. case recorded a of
           Some current \<Rightarrow>
             if finiteAssignment t \<and> rec_Completed current \<and> recordMatchesAssignment current t
             then if rec_ExitError current = [] then retA (Inl ErrProcessCompleted)
                  else failA (''finite native workload exited: '' @ rec_ExitError current)
             else startExecution C t
         | None \<Rightarrow> startExecution C t)) h' a'"
    using s1 e by (auto simp: failA_def recPost_def split: option.split)
qed (simp add: recPost_def)

lemma steady_ensureReplaced [steady_intros]: "steady C a0 (ensureReplaced C t p)"
  unfolding ensureReplaced_def by (intro steady_intros steady_calm [OF calm_callA]) (simp add: plain_def)

lemma ensureProcess_wp:
  assumes i: "runInv C a0 h a" and ctx: "launchCtx C a0 s t h"
    and r: "recorded a = recorded a0 \<or> recorded a = None"
  shows "wp (guarded C a0) (kept C a0 h) (ensureProcess C t) h a"
  unfolding ensureProcess_def
proof (rule wp_calm_bind [OF calm_processRunningFor i])
  fix h1 a1 running assume s1: "runInv C a0 h1 a1" "frame a a1" "extends h h1"
  have "wp (guarded C a0) (kept C a0 h) (ensureReplaced C t p) h1 a1" for p
    by (rule kept_ext [OF s1(3) steady_wp [OF steady_ensureReplaced s1(1)]])
  moreover have "da_process a1 = None \<Longrightarrow> wp (guarded C a0) (kept C a0 h) (ensureStarted C t) h1 a1"
    by (rule kept_ext [OF s1(3) ensureStarted_wp [OF s1(1) _ launchCtx_ext [OF ctx s1(3)]]]) (use s1(2) r in \<open>auto simp: frame_def\<close>)
  ultimately show "wp (guarded C a0) (kept C a0 h) (if running then retA (Inr ())
     else readA (\<lambda>a. case da_process a of Some p \<Rightarrow> ensureReplaced C t p | None \<Rightarrow> ensureStarted C t)) h1 a1"
    using s1 by (simp split: option.split)
qed

lemma updateAssignmentStatus_version:
  "wp (\<lambda>h q. True) (\<lambda>h' a' x. \<forall>t. x = Inr t \<longrightarrow> versionOf C h' s t) (updateAssignmentStatus C s phase ack) h a"
proof -
  have "versionOf C h' s t" if "ofAssignment (ac_conv C) (s\<lparr>wa_Status := st\<rparr>) = Inr u" "toAssignment (ac_conv C) v = Inr t"
      "happened h' (Kube (UpdateStatus AssignmentsGVR (wa_Namespace s) u)) (KubeA (ObjectR (Inr v)))" for st u v t h'
    using that unfolding versionOf_def by blast
  then show ?thesis
    unfolding updateAssignmentStatus_def Let_def nowA_def
    by (auto simp: wp_bindA wp_tryA ToUnstructured_def split: sum.split if_split)
qed

lemma updateAssignmentStatus_wp:
  assumes i: "runInv C a0 h a" and ctx: "launchCtx C a0 s s h"
  shows "wp (guarded C a0) (\<lambda>h' a' x. (runInv C a0 h' a' \<and> frame a a' \<and> extends h h') \<and> (\<forall>t. x = Inr t \<longrightarrow> launchCtx C a0 s t h'))
    (updateAssignmentStatus C s phase None) h a"
proof (rule wp_mono [OF wp_conj [OF calm_wp [OF calm_updateAssignmentStatus i] updateAssignmentStatus_version]])
  fix h' a' x
  assume "(runInv C a0 h' a' \<and> frame a a' \<and> extends h h') \<and> (\<forall>t. x = Inr t \<longrightarrow> versionOf C h' s t)"
  then show "(runInv C a0 h' a' \<and> frame a a' \<and> extends h h') \<and> (\<forall>t. x = Inr t \<longrightarrow> launchCtx C a0 s t h')"
    using launchCtx_ext [OF ctx] by (auto simp: launchCtx_def)
qed

subsection \<open>The control loop\<close>

lemma steady_reportEnsured:
  "steady C a0 (reportEnsured C host t x)"
  unfolding reportEnsured_def
  by (intro steady_intros steady_calm [OF calm_updateAssignmentStatus] steady_calm [OF calm_updateHostStatus])

lemma ensureAndReport_wp:
  assumes i: "runInv C a0 h a" and ctx: "launchCtx C a0 s t h"
    and r: "recorded a = recorded a0 \<or> recorded a = None"
  shows "wp (guarded C a0) (kept C a0 h) (bindA (ensureProcess C t) (reportEnsured C host t)) h a"
proof (rule wp_bindI [OF ensureProcess_wp [OF assms]])
  fix h' a' x assume *: "runInv C a0 h' a' \<and> extends h h'"
  from kept_ext [OF conjunct2 [OF *] steady_wp [OF steady_reportEnsured conjunct1 [OF *]]]
  show "wp (guarded C a0) (kept C a0 h) (reportEnsured C host t x) h' a'" .
qed

lemma reconcileRunning_wp:
  assumes i: "runInv C a0 h a" and ctx: "launchCtx C a0 s s h"
    and r: "recorded a = recorded a0 \<or> recorded a = None"
  shows "wp (guarded C a0) (kept C a0 h) (reconcileRunning C host s) h a"
proof (cases "completedAssignmentPhase C s")
  case (Some phase)
  have "steady C a0 (bindA (modA (\<lambda>a. a\<lparr>da_assignment := Some s\<rparr>)) (\<lambda>_. tryA (updateAssignmentStatus C s phase None) (\<lambda>_. updateHostStatus C host False [])))"
    by (intro steady_intros steady_modA steady_calm [OF calm_updateAssignmentStatus] steady_calm [OF calm_updateHostStatus]) simp
  with Some show ?thesis using steady_wp [OF _ i] by (simp add: reconcileRunning_def)
next
  case None
  show ?thesis
    unfolding reconcileRunning_def None option.case
  proof (rule wp_calm_bind [OF calm_processRunningFor i])
    fix h1 a1 running assume s1: "runInv C a0 h1 a1" "frame a a1" "extends h h1"
    note ctx1 = launchCtx_ext [OF ctx s1(3)]
    let ?P = "\<lambda>h' a' x. (runInv C a0 h' a' \<and> frame a1 a' \<and> extends h1 h') \<and> (\<forall>t. x = Inr t \<longrightarrow> launchCtx C a0 s t h')"
    show "wp (guarded C a0) (kept C a0 h) (tryA (if running then retA (Inr s) else updateAssignmentStatus C s PhaseStarting None)
        (\<lambda>t. bindA (ensureProcess C t) (reportEnsured C host t))) h1 a1"
    proof (rule wp_tryI [where P = ?P])
      show "wp (guarded C a0) ?P (if running then retA (Inr s) else updateAssignmentStatus C s PhaseStarting None) h1 a1"
        using updateAssignmentStatus_wp [OF s1(1) ctx1] s1(1) ctx1 by simp
    next
      fix h2 a2 t assume s2: "?P h2 a2 (Inr t)"
      then have e: "extends h h2" using extends_trans [OF s1(3)] by blast
      show "wp (guarded C a0) (kept C a0 h) (bindA (ensureProcess C t) (reportEnsured C host t)) h2 a2"
        by (rule kept_ext [OF e ensureAndReport_wp]) (use s1(2) s2 r in \<open>auto simp: frame_def\<close>)
    qed (use extends_trans [OF s1(3)] in blast)
  qed
qed

lemma steady_reconcileEmpty: "steady C a0 (reconcileEmpty C host b)"
  unfolding reconcileEmpty_def
  by (intro steady_tryA steady_stopProcess steady_terminateAndClear steady_calm [OF calm_markAPISuccess] steady_calm [OF calm_updateHostStatus]) simp_all

lemma reconcileAccepted_wp:
  assumes i: "runInv C a0 h a" and acc: "accepted C a0 h s"
    and r: "recorded a = recorded a0 \<or> recorded a = None" and k: "happened h KrunkitRunning (BoolA (Inr krunkit))"
  shows "wp (guarded C a0) (kept C a0 h) (reconcileAccepted C host krunkit s) h a"
proof -
  have host: "steady C a0 (updateHostStatus C host b uid)" for b uid by (rule steady_calm [OF calm_updateHostStatus])
  have "wp (guarded C a0) (kept C a0 h) (tryA (agentStopAssignment C s) (\<lambda>_. updateHostStatus C host krunkit [])) h a"
    if "as_DesiredState (wa_Spec s) = AssignmentDesiredStopped"
    by (rule wp_tryI [OF stopAssignment_wp [OF i acc that]]) (use kept_ext steady_wp [OF host] in blast)+
  moreover have "wp (guarded C a0) (kept C a0 h) (tryA (updateAssignmentStatus C s PhaseBlocked None) (\<lambda>_. updateHostStatus C host True [])) h a"
    by (rule steady_wp [OF _ i]) (intro steady_intros steady_calm [OF calm_updateAssignmentStatus] host)
  moreover have "wp (guarded C a0) (kept C a0 h) (reconcileRunning C host s) h a"
    if "as_DesiredState (wa_Spec s) \<noteq> AssignmentDesiredStopped" "\<not> krunkit"
    by (rule reconcileRunning_wp [OF i _ r]) (use that k acc in \<open>auto simp: launchCtx_def\<close>)
  ultimately show ?thesis by (simp add: reconcileAccepted_def)
qed

lemma reconcileAssignment_wp:
  assumes i: "runInv C a0 h a" and r: "recorded a = recorded a0"
    and read: "mailboxIn C h s" "hostIn C h host" and k: "happened h KrunkitRunning (BoolA (Inr krunkit))"
  shows "wp (guarded C a0) (kept C a0 h) (reconcileAssignment C host krunkit s) h a"
proof (cases "ValidateMailbox (ac_lib C) s host (ac_AgentID C) (recorded a0)")
  case (Inl e)
  then show ?thesis using i r by (simp add: reconcileAssignment_def wp_tryA)
next
  case (Inr v)
  then have acc: "accepted C a0 h s" using read by (auto simp: accepted_def)
  show ?thesis
    unfolding reconcileAssignment_def wp_tryA [of _ _ "readA _"] wp_readA wp_retA r Inr sum.case
  proof (rule wp_tryI [OF fenceSupersededExecution_wp [OF i]])
    fix h1 a1 v assume s1: "recPost C a0 h a h1 a1"
    then have i1: "runInv C a0 h1 a1" by (simp add: recPost_def)
    show "wp (guarded C a0) (kept C a0 h) (tryA markAPISuccess (\<lambda>_. reconcileAccepted C host krunkit s)) h1 a1"
    proof (rule wp_calm_try [OF calm_markAPISuccess i1])
      fix h2 a2 x assume s2: "runInv C a0 h2 a2" "frame a1 a2" "extends h1 h2"
      then have e: "extends h h2" using s1 extends_trans by (auto simp: recPost_def)
      show "wp (guarded C a0) (kept C a0 h) (reconcileAccepted C host krunkit s) h2 a2"
        by (rule kept_ext [OF e reconcileAccepted_wp [OF s2(1) accepted_ext [OF acc e] _ extends_mem [OF e k]]])
          (use s1 s2(2) r in \<open>auto simp: recPost_def frame_def\<close>)
    qed (use s1 extends_trans [of h h1] in \<open>auto simp: recPost_def\<close>)
  qed (simp add: recPost_def)
qed

lemma reconcileMailbox_wp:
  assumes i: "runInv C a0 h a" and r: "recorded a = recorded a0"
    and host: "hostIn C h host" and k: "happened h KrunkitRunning (BoolA (Inr krunkit))"
  shows "wp (guarded C a0) (kept C a0 h) (reconcileMailbox C host krunkit) h a"
proof -
  let ?get = "Kube (Get AssignmentsGVR (ac_Namespace C) AssignmentMailboxName)"
  have i': "runInv C a0 (h @ [(?get, x)]) a" for x by (rule runInv_other [OF i]) simp
  have "wp (guarded C a0) (kept C a0 h) (reconcileEmpty C host krunkit) (h @ [(?get, x)]) a" for x
    by (rule kept_ext [OF extends_snoc steady_wp [OF steady_reconcileEmpty i']])
  moreover have "wp (guarded C a0) (kept C a0 h) (reconcileAssignment C host krunkit s) (h @ [(?get, KubeA (ObjectR (Inr u)))]) a"
    if "toAssignment (ac_conv C) u = Inr s" for u s
    by (rule kept_ext [OF extends_snoc reconcileAssignment_wp [OF i' r]])
      (use that host k in \<open>auto simp: mailboxIn_def hostIn_def\<close>)
  ultimately show ?thesis
    using i' by (auto simp: reconcileMailbox_def wp_bindA wp_tryA guarded_def FromUnstructured_def split: sum.split)
qed

lemma reconcileOwn_wp:
  assumes i: "runInv C a0 h a" and r: "recorded a = recorded a0" and host: "hostIn C h host"
  shows "wp (guarded C a0) (kept C a0 h) (tryA (callA KrunkitRunning aBool) (\<lambda>krunkitRunning.
     tryA (if krunkitRunning then stopProcess C else retA (Inr ())) (\<lambda>_. reconcileMailbox C host krunkitRunning))) h a"
proof -
  have beside: "wp (guarded C a0) (kept C a0 h) (tryA (if b then stopProcess C else retA (Inr ())) (\<lambda>_. reconcileMailbox C host b)) h1 a"
    if h1: "h1 = h @ [(KrunkitRunning, BoolA (Inr b))]" for b h1
  proof -
    have i1: "runInv C a0 h1 a" unfolding h1 by (rule runInv_other [OF i]) simp
    have e: "extends h h1" by (simp add: h1)
    let ?P = "\<lambda>h' a' x. runInv C a0 h' a' \<and> extends h1 h' \<and> da_store a' = da_store a"
    have "wp (guarded C a0) ?P (stopProcess C) h1 a"
      by (rule wp_mono [OF stopProcess_wp [OF i1]]) (simp add: stopPost_def)
    with i1 have p: "wp (guarded C a0) ?P (if b then stopProcess C else retA (Inr ())) h1 a" by simp
    show ?thesis
    proof (rule wp_tryI [OF p])
      fix h2 a2 v assume s2: "?P h2 a2 (Inr v)"
      then have e2: "extends h h2" using extends_trans [OF e] by blast
      show "wp (guarded C a0) (kept C a0 h) (reconcileMailbox C host b) h2 a2"
        by (rule kept_ext [OF e2 reconcileMailbox_wp])
          (use s2 r host extends_mem [OF e2] extends_mem [of h1 h2] h1 in \<open>auto simp: hostIn_def\<close>)
    qed (use extends_trans [OF e] in blast)
  qed
  have "runInv C a0 (h @ [(KrunkitRunning, x)]) a" for x by (rule runInv_other [OF i]) simp
  then show ?thesis
    using beside [OF refl] by (simp add: wp_tryA [of _ _ "callA _ _"] guarded_def split: sum.split split del: if_split)
qed

lemma reconcile_wp:
  "wp (guarded C a0) (kept C a0 []) (reconcile C) [] a0"
proof -
  let ?get = "Kube (Get HostsGVR (ac_Namespace C) ''host'')"
  have i: "runInv C a0 [(?get, x)] a0" for x using runInv_other [OF runInv_start, of ?get] by simp
  have "wp (guarded C a0) (kept C a0 []) (tryA (callA KrunkitRunning aBool) (\<lambda>krunkitRunning.
     tryA (if krunkitRunning then stopProcess C else retA (Inr ())) (\<lambda>_. reconcileMailbox C host krunkitRunning)))
     [(?get, KubeA (ObjectR (Inr u)))] a0" if "toHost (ac_conv C) u = Inr host" for u host
    by (rule kept_ext [OF _ reconcileOwn_wp [OF i refl]]) (use that in \<open>auto simp: hostIn_def extends_def\<close>)
  then show ?thesis
    using i by (auto simp: reconcile_def wp_tryA [of _ _ "wrapA _ _"] wp_tryA [of _ _ "retA _"] wp_wrapA guarded_def FromUnstructured_def failA_def extends_def
        split: sum.split)
qed

end
