(* ===== verification/Agent_Examples.thy ===== *)
theory Agent_Examples
  imports Agent
begin

section \<open>Concrete agents\<close>

text \<open>An agent, an assignment and a journal record on which the statements about the agent are evaluated.\<close>

definition exassigned :: "string \<Rightarrow> int64 \<Rightarrow> IdleloomWorkloadAssignment" where
  "exassigned desired epoch = \<lparr>wa_Type = \<lparr>tm_Kind = ''IdleloomWorkloadAssignment'', tm_APIVersion = APIVersionNative\<rparr>,
     wa_Meta = exmeta ''small'' AssignmentMailboxName ''a-1'',
     wa_Spec = \<lparr>as_DesiredState = desired,
       as_WorkloadRef = \<lparr>wor_Namespace = ''team'', wor_Name = ''hello'', wor_UID = ''w-1'', wor_Generation = 1\<rparr>,
       as_HostRef = \<lparr>or_Name = ''host'', or_UID = ''h-small''\<rparr>, as_Model = None,
       as_Shell = Some \<lparr>rsh_Script = ''echo hi'', rsh_Isolation = ShellIsolationSandbox, rsh_Network = ShellNetworkNone,
         rsh_TimeoutSeconds = 60, rsh_UnifiedMemoryRequest = ''1024''\<rparr>,
       as_Training = None, as_Run = None, as_ExecutionID = ''00000000-0000-4000-8000-000000000001'',
       as_FencingEpoch = epoch, as_LeaseDurationSeconds = 30\<rparr>,
     wa_Status = zero_AssignmentStatus\<rparr>"

definition exagent :: "wire AgentConfig" where
  "exagent = \<lparr>ac_lib = exlib, ac_conv = exconv, ac_Namespace = ''small'', ac_AgentID = ''agent-a'',
     ac_Layout = \<lparr>ly_Venv = ''/v'', ly_Work = ''/w'', ly_Runner = ''/r''\<rparr>, ac_StateDirectory = ''/s'', ac_KubeconfigPath = ''/k'',
     ac_ServeListenAddress = [], ac_PrepareRuntime = False, ac_PrepareHFModel = False, ac_PrepareTrainingRuntime = False,
     ac_ConnectivityStatus = False, ac_render = (\<lambda>d. FormatInt d), ac_events = 4\<rparr>"

definition exidle :: "handle option \<Rightarrow> Record option \<Rightarrow> DevAgent" where
  "exidle p r = \<lparr>da_store = \<lparr>jn_open = True, jn_record = r\<rparr>, da_process = p, da_assignment = None, da_lastAPISuccess = 1,
     da_runStatus = None, da_runProtocolErr = None, da_memory = \<lparr>mt_window = [], mt_lastGood = 0\<rparr>\<rparr>"

definition exrunning :: Record where
  "exrunning = (plannedRecord (exassigned AssignmentDesiredRunning 7) (resolved0 exagent) ''n'')\<lparr>rec_PID := 42, rec_ProcessStartToken := ''t''\<rparr>"

lemma exagent_fields [simp]:
  "ac_lib exagent = exlib" "ac_conv exagent = exconv" "ac_Namespace exagent = ''small''" "ac_AgentID exagent = ''agent-a''"
  "toHost exconv (WireHost x) = Inr x" "toAssignment exconv (WireAssignment s) = Inr s" "ofAssignment exconv s = Inr (WireAssignment s)"
  by (simp_all add: exagent_def exconv_def)

lemma exidle_fields [simp]:
  "da_store (exidle p r) = \<lparr>jn_open = True, jn_record = r\<rparr>" "da_process (exidle p r) = p" "da_assignment (exidle p r) = None"
  by (simp_all add: exidle_def)

lemma exassigned_fields [simp]:
  "as_DesiredState (wa_Spec (exassigned d n)) = d" "as_FencingEpoch (wa_Spec (exassigned d n)) = n"
  "as_Model (wa_Spec (exassigned d n)) = None" "as_Training (wa_Spec (exassigned d n)) = None" "as_Run (wa_Spec (exassigned d n)) = None"
  "as_Shell (wa_Spec (exassigned d n)) \<noteq> None" "finiteAssignment (exassigned d n)"
  "completedAssignmentPhase exagent (exassigned d n) = None"
  by (simp_all add: exassigned_def finiteAssignment_def completedAssignmentPhase_def zero_AssignmentStatus_def)

lemmas agent_eval = reconcile_def reconcileMailbox_def reconcileAssignment_def reconcileAccepted_def fenceSupersededExecution_def
  agentStopAssignment_def stopProcess_def stopHandle_def clearStopped_def terminateAndClear_def terminateRecorded_def
  removeRunWork_def markAPISuccess_def updateAssignmentStatus_def nowA_def journalA_def operate_def callA_def kubeA_def act_defs
  wrapA_def failA_def call_defs answer_defs agent_answer_defs FromUnstructured_def ToUnstructured_def

definition exread :: "IdleloomWorkloadAssignment \<Rightarrow> wire aresp list" where
  "exread s = [KubeA (ObjectR (Inr (WireHost (exhost ''small'' ''2048'')))), BoolA (Inr False), KubeA (ObjectR (Inr (WireAssignment s)))]"

lemma exaccepted:
  "ValidateMailbox exlib (exassigned AssignmentDesiredStopped 7) (exhost ''small'' ''2048'') ''agent-a'' (Some exrunning) = Inr ()"
  "ValidateMailbox exlib (exassigned AssignmentDesiredRunning 8) (exhost ''small'' ''2048'') ''agent-a'' (Some exrunning) = Inr ()"
  "hs_AgentID (ho_Spec (exhost ''small'' ''2048'')) = ''agent-a''"
  by code_simp+

lemma exrunning_fields:
  "\<not> rec_Completed exrunning" "rec_PID exrunning = 42" "rec_ProcessStartToken exrunning = ''t''"
  "rec_AssignmentUID exrunning = ''a-1''" "rec_ExecutionID exrunning = ''00000000-0000-4000-8000-000000000001''"
  "rec_FencingEpoch exrunning = 7" "rec_WorkloadUID exrunning = ''w-1''" "rec_WorkloadGeneration exrunning = 1"
  by code_simp+

lemma exrunning_matches: "recordMatchesAssignment exrunning (exassigned d n) \<longleftrightarrow> n = 7" "sameExecution exrunning exrunning"
  by (auto simp: recordMatchesAssignment_def exrunning_fields exassigned_def exmeta_def sameExecution_def)

end
