(* ===== verification/Agent_Guarantees.thy ===== *)
theory Agent_Guarantees
  imports Agent_Safety Agent_Examples
begin

section \<open>The guarantees of a host agent\<close>

text \<open>
  The statements about the handlers of a \<open>DevAgent\<close>, each a consequence of the invariants of
  \<open>Agent_Safety\<close>, and concrete runs in which they apply.
\<close>

subsection \<open>What a run of the control loop may do\<close>



lemma steady_removals:
  "steady C a0 (bindA (callA (RemoveAll d1) aDone) (\<lambda>x. bindA (callA (RemoveAll d2) aDone) (\<lambda>y.
     bindA (callA (RemoveAll d3) aDone) (\<lambda>z. retA (joinResults [x, y, z])))))"
  by (intro steady_calm calm_intros) (simp_all add: plain_def)

lemma steady_recoverOrphan: "steady C a0 (recoverOrphan C)"
proof -
  have "wp (guarded C a0) (\<lambda>h' a' x. runInv C a0 h' a' \<and> extends h h') (tryA (terminateAndClear C (\<lambda>m. m) (\<lambda>m. m) r) f) h a"
    if i: "runInv C a0 h a" "recorded a = Some r" and f: "\<And>u. steady C a0 (f u)" for h a r and f :: "unit \<Rightarrow> ('a, unit res) agent"
  proof (rule wp_tryI [OF terminateAndClear_wp [OF i]])
    fix h1 a1 v assume "clearPost C a0 h a h1 a1 (Inr v)"
    then have c: "runInv C a0 h1 a1" "extends h h1" by (simp_all add: clearPost_def)
    show "wp (guarded C a0) (\<lambda>h' a' x. runInv C a0 h' a' \<and> extends h h') (f v) h1 a1"
      by (rule wp_mono [OF steady_wp [OF f c(1)]]) (use extends_trans [OF c(2)] in blast)
  qed (simp_all add: clearPost_def)
  note this [OF _ _ steady_removals]
  then show ?thesis
    by (auto simp: recoverOrphan_def steady_def split: option.split)
qed

lemma steady_selfFenceIfExpired: "steady C a0 (selfFenceIfExpired C)"
  unfolding selfFenceIfExpired_def Let_def
  by (intro steady_readA steady_intros steady_option steady_calm calm_intros | simp)+

text \<open>
  C11. The agent removes a record from its journal only when the execution it records is over: it
  completed, or its process was found under the recorded start token and its group killed, or its
  process was seen to be gone, or every process found under its nonce was killed. This holds for the
  control loop, for the recovery at start-up and for the watchdog.
\<close>

theorem erase_guarded:
  assumes "m \<in> {reconcile C, recoverOrphan C, selfFenceIfExpired C}"
    and "emits (m a0) (t @ (WriteJournal Erase, r) # w)"
  shows "\<exists>k. journalOf (recorded a0) t = Some k \<and> terminated C k t"
proof -
  have "wp (guarded C a0) (\<lambda>_ _ _. True) m [] a0"
    using assms(1) reconcile_wp [of C a0] steady_wp [OF steady_recoverOrphan runInv_start, of C a0]
      steady_wp [OF steady_selfFenceIfExpired runInv_start, of C a0]
    by (auto elim: wp_mono)
  from wp_emits [OF this assms(2)] show ?thesis by (simp add: guarded_def eraseOk_def)
qed

subsection \<open>Refusing a stale assignment\<close>

lemma ValidateMailbox_stale:
  assumes "as_FencingEpoch (wa_Spec s) < rec_FencingEpoch r
     \<or> as_FencingEpoch (wa_Spec s) = rec_FencingEpoch r \<and> (wa_UID s \<noteq> rec_AssignmentUID r \<or> as_ExecutionID (wa_Spec s) \<noteq> rec_ExecutionID r)"
  shows "\<exists>e. ValidateMailbox L s host agentID (Some r) = Inl e"
  using assms by (auto simp: ValidateMailbox_def)

text \<open>What the agent does before it reads the mailbox: it looks, and it may stop its process and remove work directories.\<close>

definition cautious :: "'u areq \<Rightarrow> bool" where
  "cautious q = (case q of Kube (Get HostsGVR ns n) \<Rightarrow> True | KrunkitRunning \<Rightarrow> True | Stop p \<Rightarrow> True | RemoveAll d \<Rightarrow> True | _ \<Rightarrow> False)"

abbreviation "readMailbox C \<equiv> Kube (Get AssignmentsGVR (ac_Namespace C) AssignmentMailboxName)"

definition careful :: "DevAgent \<Rightarrow> 'u history \<Rightarrow> DevAgent \<Rightarrow> bool" where
  "careful a h a' \<longleftrightarrow> (\<forall>y \<in> set h. cautious (fst y)) \<and> da_store a' = da_store a \<and> (happened h KrunkitRunning (BoolA (Inr False)) \<longrightarrow> a' = a)"

definition refusal :: "'u AgentConfig \<Rightarrow> 'u \<Rightarrow> DevAgent \<Rightarrow> 'u history \<Rightarrow> DevAgent \<Rightarrow> unit res \<Rightarrow> bool" where
  "refusal C u a h a' x \<longleftrightarrow> (\<forall>t rest. h = t @ (readMailbox C, KubeA (ObjectR (Inr u))) # rest \<longrightarrow> (\<forall>r. \<not> happened t (readMailbox C) r)
     \<longrightarrow> rest = [] \<and> (\<exists>e. x = Inl e) \<and> careful a t a')"

lemma not_cautious [simp]: "\<not> cautious (readMailbox C)"
  by (simp add: cautious_def)

lemma careful_unread: "careful a h a' \<Longrightarrow> refusal C u a h b x"
  by (auto simp: careful_def refusal_def)

text \<open>The first request of a kind is at one place.\<close>

lemma first_request:
  assumes "h @ (q, k) # v = t @ (q, k') # rest" and "\<forall>r. (q, r) \<notin> set h" and "\<forall>r. (q, r) \<notin> set t"
  shows "t = h \<and> k' = k \<and> rest = v"
  using assms
proof (induction h arbitrary: t)
  case Nil
  then show ?case by (cases t) auto
next
  case (Cons y h)
  then show ?case by (cases t) auto
qed

lemma refusal_other:
  assumes "careful a h a'" and "k \<noteq> KubeA (ObjectR (Inr u))"
  shows "refusal C u a (h @ (readMailbox C, k) # v) b x"
  unfolding refusal_def
proof (intro allI impI)
  fix t rest
  assume eq: "h @ (readMailbox C, k) # v = t @ (readMailbox C, KubeA (ObjectR (Inr u))) # rest" and none: "\<forall>r. \<not> happened t (readMailbox C) r"
  have "\<forall>r. \<not> happened h (readMailbox C) r" using assms(1) by (auto simp: careful_def)
  from first_request [OF eq this none] assms(2) have False by simp
  then show "rest = [] \<and> (\<exists>e. x = Inl e) \<and> careful a t b" ..
qed

lemma reconcileMailbox_refusal:
  assumes "toAssignment (ac_conv C) u = Inr s" and "recorded a = Some r"
    and "\<And>host. \<exists>e. ValidateMailbox (ac_lib C) s host (ac_AgentID C) (Some r) = Inl e" and "careful a h a'"
  shows "wp (\<lambda>h q. True) (refusal C u a) (reconcileMailbox C host b) h a'"
proof -
  obtain e where e: "ValidateMailbox (ac_lib C) s host (ac_AgentID C) (Some r) = Inl e" using assms(3) by blast
  have rec: "recorded a' = Some r" using assms(2,4) by (simp add: careful_def)
  have only: "refusal C u a (h @ [(readMailbox C, KubeA (ObjectR (Inr u)))]) a' (Inl e)" for e
    unfolding refusal_def
  proof (intro allI impI)
    fix t rest
    assume eq: "h @ [(readMailbox C, KubeA (ObjectR (Inr u)))] = t @ (readMailbox C, KubeA (ObjectR (Inr u))) # rest" and none: "\<forall>r. \<not> happened t (readMailbox C) r"
    have "\<forall>r. \<not> happened h (readMailbox C) r" using assms(4) by (auto simp: careful_def)
    from first_request [OF eq this none] assms(4) show "rest = [] \<and> (\<exists>e'. Inl e = Inl e') \<and> careful a t a'" by simp
  qed
  have "wp (\<lambda>h q. True) (refusal C u a) (case rObject (aKube k) of
       Inl err \<Rightarrow> if IsNotFound err then reconcileEmpty C host b else retA (Inl (WrapError ''get assignment mailbox: '' err []))
     | Inr object \<Rightarrow> tryA (retA (FromUnstructured (ac_conv C) (toAssignment (ac_conv C)) object)) (reconcileAssignment C host b))
       (h @ [(readMailbox C, k)]) a'" for k
  proof (cases "k = KubeA (ObjectR (Inr u))")
    case True
    then show ?thesis
      using assms(1) e rec only by (simp add: FromUnstructured_def reconcileAssignment_def wp_tryA)
  qed (rule wp_any, use refusal_other [OF assms(4)] in simp)
  then show ?thesis by (simp add: reconcileMailbox_def wp_bindA)
qed

lemma stopProcess_careful:
  assumes "careful a h a" and "\<not> happened h KrunkitRunning (BoolA (Inr False))"
  shows "wp (\<lambda>h q. True) (\<lambda>h' a' x. careful a h' a') (stopProcess C) h a"
  using assms
  by (auto simp: stopProcess_def stopHandle_def removeWork_def wp_tryA wp_wrapA careful_def cautious_def split: option.split sum.split)

lemma reconcile_refusal:
  assumes "toAssignment (ac_conv C) u = Inr s" and "recorded a = Some r"
    and "\<And>host. \<exists>e. ValidateMailbox (ac_lib C) s host (ac_AgentID C) (Some r) = Inl e"
  shows "wp (\<lambda>h q. True) (refusal C u a) (reconcile C) [] a"
proof -
  have start: "careful a [(Kube (Get HostsGVR ns n), x)] a" "careful a [(Kube (Get HostsGVR ns n), x), (KrunkitRunning, y)] a" for ns n x y
    by (simp_all add: careful_def cautious_def)
  note mailbox = reconcileMailbox_refusal [OF assms]
  have stop: "wp (\<lambda>h q. True) (refusal C u a) (tryA (stopProcess C) (\<lambda>_. reconcileMailbox C host b))
      [(Kube (Get HostsGVR ns n), x), (KrunkitRunning, BoolA (Inr True))] a" for host b ns n x
    by (rule wp_tryI [OF stopProcess_careful [OF start(2)]]) (auto intro: careful_unread mailbox)
  show ?thesis
    by (auto simp: reconcile_def wp_tryA [of _ _ "wrapA _ _"] wp_tryA [of _ _ "retA _"] wp_tryA [of _ _ "callA _ _"] wp_wrapA failA_def
        intro!: careful_unread [OF start(1)] careful_unread [OF start(2)] mailbox [OF start(2)] stop split: sum.split)
qed

text \<open>
  C13. An assignment whose fencing epoch is older than the recorded one, or that reuses the recorded
  epoch for another assignment or execution, is refused: the run ends with an error at the moment the mailbox
  has been read. Until then the agent has only looked, and stopped its process and removed work directories
  if krunkit runs; its journal stays as it is, and so does everything else of the agent when krunkit does not run.
\<close>

theorem stale_refused:
  assumes "runs (reconcile C a) (t @ (readMailbox C, KubeA (ObjectR (Inr u))) # rest) (a', x)"
    and "\<forall>r. \<not> happened t (readMailbox C) r"
    and "toAssignment (ac_conv C) u = Inr s" and "recorded a = Some r"
    and "as_FencingEpoch (wa_Spec s) < rec_FencingEpoch r
       \<or> as_FencingEpoch (wa_Spec s) = rec_FencingEpoch r \<and> (wa_UID s \<noteq> rec_AssignmentUID r \<or> as_ExecutionID (wa_Spec s) \<noteq> rec_ExecutionID r)"
  shows "rest = [] \<and> (\<exists>e. x = Inl e) \<and> (\<forall>y \<in> set t. cautious (fst y)) \<and> da_store a' = da_store a
    \<and> (happened t KrunkitRunning (BoolA (Inr False)) \<longrightarrow> a' = a)"
  using wp_runs [OF reconcile_refusal [OF assms(3,4) ValidateMailbox_stale [OF assms(5)]] assms(1)] assms(2)
  by (auto simp: refusal_def careful_def)

subsection \<open>Fencing itself\<close>

definition expired :: "DevAgent \<Rightarrow> IdleloomWorkloadAssignment \<Rightarrow> Time \<Rightarrow> bool" where
  "expired a s now \<longleftrightarrow> da_lastAPISuccess a = 0 \<or> time_Sub now (da_lastAPISuccess a) > as_LeaseDurationSeconds (wa_Spec s) * second"

lemma calm_frame:
  assumes "calm C m"
  shows "wp (\<lambda>h q. True) (\<lambda>h' a' x. frame a a' \<and> extends h h') m h a"
  using assms wp_history [of "\<lambda>h q. True" "\<lambda>h' a' x. frame a a'" m h a] safe_unguarded
  unfolding calm_def wp_def extends_def by blast

lemma calm_stopRest: "calm C (readA (\<lambda>a. case da_assignment a of
       None \<Rightarrow> retA (Inr ())
     | Some s \<Rightarrow>
         tryA (removeWork (b1 s) t1 (d1 s)) (\<lambda>_. tryA (removeWork (b2 s) t2 (d2 s)) (\<lambda>_. removeWork (b3 s) t3 (d3 s)))))"
  unfolding removeWork_def by (intro calm_intros) (simp_all add: plain_def)

definition stopTried :: "DevAgent \<Rightarrow> 'u history \<Rightarrow> DevAgent \<Rightarrow> bool" where
  "stopTried a h a' \<longleftrightarrow> (\<forall>p. da_process a = Some p \<longrightarrow> (\<exists>r. happened h (Stop p) r \<and> (r = DoneA (Inr ()) \<longrightarrow> da_process a' = None)))"

definition fenced :: "DevAgent \<Rightarrow> 'u history \<Rightarrow> DevAgent \<Rightarrow> bool" where
  "fenced a t a' \<longleftrightarrow>
     stopTried a t a'
   \<and> (\<forall>k. recorded a = Some k \<longrightarrow> \<not> rec_Completed k \<longrightarrow> rec_PID k > 0 \<longrightarrow>
        (\<exists>r. happened t (ProcessStartToken (rec_PID k)) r
           \<and> (r = TokenA (Inr (rec_ProcessStartToken k)) \<longrightarrow> (\<exists>r'. happened t (KillProcessGroupAndWait (rec_PID k)) r'))))"

lemma stopTried_ext: "stopTried a h b \<Longrightarrow> extends h h' \<Longrightarrow> da_process c = da_process b \<Longrightarrow> stopTried a h' c"
  unfolding stopTried_def by (auto simp: extends_def)

lemma stopTriedI:
  "da_process a = None \<Longrightarrow> stopTried a h a'"
  "da_process a = Some p \<Longrightarrow> happened h (Stop p) r \<Longrightarrow> (r = DoneA (Inr ()) \<Longrightarrow> da_process a' = None) \<Longrightarrow> stopTried a h a'"
  by (auto simp: stopTried_def)

lemma stopProcess_tries:
  "wp (\<lambda>h q. True) (\<lambda>h' a' x. da_store a' = da_store a \<and> stopTried a h' a') (stopProcess C) h a"
proof -
  have "wp (\<lambda>h q. True) (\<lambda>h' a' x. da_store a' = da_store a \<and> stopTried a h' a') stopHandle h a"
  proof (cases "da_process a")
    case (Some p)
    have "stopTried a (h @ [(Stop p, r)]) b" if "da_process b = None \<or> aDone r = Inl e" for r b e
      by (rule stopTriedI(2) [where r = r, OF Some]) (use that in auto)
    with Some show ?thesis by (auto simp: stopHandle_def wp_tryA split: sum.split)
  qed (simp add: stopHandle_def stopTriedI)
  then show ?thesis
    unfolding stopProcess_def
  proof (rule wp_tryI)
    fix h1 a1 v assume "da_store a1 = da_store a \<and> stopTried a h1 a1"
    then show "wp (\<lambda>h q. True) (\<lambda>h' a' x. da_store a' = da_store a \<and> stopTried a h' a') (readA (\<lambda>a. case da_assignment a of
       None \<Rightarrow> retA (Inr ())
     | Some s \<Rightarrow>
         tryA (removeWork (as_Shell (wa_Spec s) \<noteq> None) ''remove shell work directory: '' (shellWorkDirectory (ac_Layout C) (wa_UID s))) (\<lambda>_.
         tryA (removeWork (profileOf s = RuntimeProfileOllamaGGUFV1) ''remove Ollama work directory: '' (ollamaWorkDirectory (ac_Layout C) (wa_UID s))) (\<lambda>_.
         removeWork (profileOf s = RuntimeProfileLlamaCppMetalV1) ''remove llama.cpp work directory: '' (llamaCppWorkDirectory (ac_Layout C) (wa_UID s)))))) h1 a1"
      by (intro wp_mono [OF calm_frame [OF calm_stopRest]]) (auto simp: frame_def intro: stopTried_ext)
  qed simp
qed

lemma terminateRecorded_kills:
  "wp (\<lambda>h q. True) (\<lambda>h' a' x. \<not> rec_Completed k \<longrightarrow> rec_PID k > 0 \<longrightarrow>
      (\<exists>r. happened h' (ProcessStartToken (rec_PID k)) r
           \<and> (r = TokenA (Inr (rec_ProcessStartToken k)) \<longrightarrow> (\<exists>r'. happened h' (KillProcessGroupAndWait (rec_PID k)) r'))))
   (terminateRecorded C k) h a"
proof (cases "\<not> rec_Completed k \<and> rec_PID k > 0")
  case True
  then show ?thesis by (auto simp: terminateRecorded_def wp_bindA failA_def split: sum.split)
next
  case False
  then show ?thesis by (auto intro: wp_any)
qed

lemma fence_wp:
  "wp (\<lambda>h q. True) (\<lambda>h' a' x. fenced a h' a') (bindA (stopProcess C) (\<lambda>_. readA (\<lambda>a. case recorded a of
       None \<Rightarrow> retA (Inr ()) | Some current \<Rightarrow> ignoreA (terminateRecorded C current)))) h a"
proof (rule wp_bindI [OF stopProcess_tries])
  fix h1 :: "'a history" and a1 and x :: "unit res" assume s: "da_store a1 = da_store a \<and> stopTried a h1 a1"
  show "wp (\<lambda>h q. True) (\<lambda>h' a' x. fenced a h' a') (readA (\<lambda>a. case recorded a of
       None \<Rightarrow> retA (Inr ()) | Some current \<Rightarrow> ignoreA (terminateRecorded C current))) h1 a1"
  proof (cases "recorded a")
    case None
    with s show ?thesis by (simp add: fenced_def stopTried_def)
  next
    case (Some k)
    have "wp (\<lambda>h q. True) (\<lambda>h' a' x. fenced a h' a') (terminateRecorded C k) h1 a1"
      by (rule wp_mono [OF wp_conj [OF terminateRecorded_kills calm_frame [OF calm_terminateRecorded]]])
        (use s Some in \<open>auto simp: fenced_def frame_def dest: stopTried_ext\<close>)
    with s Some show ?thesis by (simp add: ignoreA_def wp_bindA)
  qed
qed

text \<open>
  C12. A tick of the watchdog acts exactly when the agent holds an assignment and has not reached the API
  server within the lease of that assignment, or never: then it stops its process and, when the journal
  records a running process, checks its start token and kills its process group. Otherwise it does
  nothing but read the clock.
\<close>

theorem self_fence:
  assumes "runs (selfFenceIfExpired C a) t (a', x)" and "\<forall>r. happened t (Kube Now) r \<longrightarrow> r = KubeA (TimeR now)"
  shows "if \<exists>s. da_assignment a = Some s \<and> expired a s now then fenced a t a'
    else a' = a \<and> set t \<subseteq> {(Kube Now, KubeA (TimeR now))}"
proof -
  let ?Q = "\<lambda>h' a' x. (\<forall>r. happened h' (Kube Now) r \<longrightarrow> r = KubeA (TimeR now)) \<longrightarrow>
     (if \<exists>s. da_assignment a = Some s \<and> expired a s now then fenced a h' a' else a' = a \<and> set h' \<subseteq> {(Kube Now, KubeA (TimeR now))})"
  let ?fence = "bindA (stopProcess C) (\<lambda>_. readA (\<lambda>a. case recorded a of
       None \<Rightarrow> retA (Inr ()) | Some current \<Rightarrow> ignoreA (terminateRecorded C current)))"
  have fence: "wp (\<lambda>h q. True) ?Q ?fence h a" if "da_assignment a = Some s" "expired a s now" for s h
    by (rule wp_mono [OF fence_wp]) (use that in auto)
  have other: "wp (\<lambda>h q. True) ?Q m [(Kube Now, r)] a" if "r \<noteq> KubeA (TimeR now)" for r m
    by (rule wp_any) (use that in auto)
  have tick: "wp (\<lambda>h q. True) ?Q (if time_Sub (rTime (aKube r)) (da_lastAPISuccess a) > as_LeaseDurationSeconds (wa_Spec s) * second
      then ?fence else retA (Inr ())) [(Kube Now, r)] a" if "da_assignment a = Some s" "da_lastAPISuccess a \<noteq> 0" for s r
  proof (cases "r = KubeA (TimeR now)")
    case True
    then show ?thesis using fence [OF that(1)] that by (simp add: expired_def rTime_def)
  qed (rule other)
  have "wp (\<lambda>h q. True) ?Q (selfFenceIfExpired C) [] a"
  proof (cases "da_assignment a")
    case (Some s)
    show ?thesis
    proof (cases "da_lastAPISuccess a = 0")
      case True
      with Some fence [OF Some, of "[]"] show ?thesis by (simp add: selfFenceIfExpired_def expired_def Let_def)
    next
      case False
      with Some tick [OF Some] show ?thesis by (simp add: selfFenceIfExpired_def nowA_def wp_bindA [of _ _ "kubeA kNow"] Let_def)
    qed
  qed (simp add: selfFenceIfExpired_def)
  from mp [OF wp_runs [OF this assms(1)]] assms(2) show ?thesis by (metis append_Nil)
qed

subsection \<open>A stop, and a start that supersedes an execution\<close>

text \<open>The agent stops its process, kills the recorded group, clears the journal and acknowledges.\<close>

definition exstopping :: "wire aresp list" where
  "exstopping = exread (exassigned AssignmentDesiredStopped 7) @ [KubeA (TimeR 5), DoneA (Inr ()), TokenA (Inr ''t''), DoneA (Inr ()),
     DoneA (Inr ()), KubeA (TimeR 6), KubeA (TimeR 7)]"

definition exacknowledged :: IdleloomWorkloadAssignment where
  "exacknowledged = (let s = exassigned AssignmentDesiredStopped 7 in
     s\<lparr>wa_Status := reportedStatus exagent (exidle None None) s PhaseStopped (Some (stopAcknowledgement s 6)) 7\<rparr>)"

lemma exstopping_asks:
  "asks (reconcile exagent (exidle (Some 3) (Some exrunning))) exstopping
     = Some (Kube (UpdateStatus AssignmentsGVR ''small'' (WireAssignment exacknowledged)))"
  by (simp add: agent_eval exstopping_def exread_def exidle_def exagent_def exconv_def exaccepted exrunning_fields exrunning_matches
        exacknowledged_def Let_def recordAfter_def,
      simp add: exassigned_def exmeta_def reportedStatus_def assignmentRuntimeVersion_def stopAcknowledgement_def Let_def)


text \<open>
  The mailbox asks for epoch 8 while epoch 7 is recorded: the recorded group is killed and the record
  cleared, the new execution is recorded and then started.
\<close>

definition exrandom :: "nat list" where
  "exrandom = replicate 32 10"

definition exnonce :: string where
  "exnonce = EncodeToString exrandom"

definition exstarting :: "wire aresp list" where
  "exstarting = exread (exassigned AssignmentDesiredRunning 8) @ [TokenA (Inr ''t''), DoneA (Inr ()),
     DoneA (Inr ()), KubeA (TimeR 5), KubeA (TimeR 6), KubeA (ObjectR (Inr (WireAssignment (exassigned AssignmentDesiredRunning 8)))), 
     KubeA (BytesR (Inr exrandom)), DoneA (Inr ()), DoneA (Inr ())]"

lemma explanned: "validateRecord (plannedRecord (exassigned AssignmentDesiredRunning 8) (resolved0 exagent) exnonce) = Inr ()"
  by code_simp

lemma explanned_fields [simp]: "rec_PID (plannedRecord s rv n) = 0" "rec_ProcessStartToken (plannedRecord s rv n) = []"
  by (simp_all add: plannedRecord_def Let_def)

lemmas start_eval = reconcileRunning_def processRunningFor_def ensureProcess_def ensureStarted_def startExecution_def resolveExecution_def
  preStartMemoryGate_def secureToken_def startProcessWithLease_def prepareWork_def

lemma exstarting_asks:
  "asks (reconcile exagent (exidle None (Some exrunning))) exstarting
     = Some (Launch (launchOf exagent (exassigned AssignmentDesiredRunning 8) (resolved0 exagent) exnonce))"
  apply (simp add: agent_eval start_eval exstarting_def exread_def exaccepted exrunning_fields exrunning_matches
        Let_def recordAfter_def explanned exnonce_def[symmetric] joinResults_def joinErrors_def)
  done

lemma exclearing_asks:
  "asks (reconcile exagent (exidle None (Some exrunning))) (take 5 exstarting) = Some (WriteJournal Erase)"
  by (simp add: agent_eval exstarting_def exread_def exaccepted exrunning_fields exrunning_matches Let_def joinResults_def joinErrors_def)

theorem erase_guarded_witness:
  "\<exists>k. journalOf (Some exrunning) (feed (reconcile exagent (exidle None (Some exrunning))) (take 5 exstarting)) = Some k
     \<and> terminated exagent k (feed (reconcile exagent (exidle None (Some exrunning))) (take 5 exstarting))"
  using erase_guarded [of "reconcile exagent", OF _ emits_asks [OF exclearing_asks, of "DoneA (Inr ())"]] by simp

subsection \<open>A stale assignment, and a lease that ran out\<close>

theorem stale_refused_witness:
  "\<exists>e. feed_result (reconcile exagent (exidle (Some 3) (Some exrunning))) (exread (exassigned AssignmentDesiredRunning 6))
     = Some (exidle (Some 3) (Some exrunning), Inl e)"
proof -
  let ?a = "exidle (Some 3) (Some exrunning)" and ?s = "exassigned AssignmentDesiredRunning 6"
  have older: "as_FencingEpoch (wa_Spec ?s) < rec_FencingEpoch exrunning" by (simp add: exrunning_fields)
  then obtain e where e: "ValidateMailbox exlib ?s (exhost ''small'' ''2048'') ''agent-a'' (Some exrunning) = Inl e"
    using ValidateMailbox_stale by blast
  have run: "feed_result (reconcile exagent ?a) (exread ?s) = Some (?a, Inl e)"
    by (simp add: agent_eval exread_def exaccepted e)
  have "feed (reconcile exagent ?a) (exread ?s) = [(Kube (Get HostsGVR ''small'' ''host''), KubeA (ObjectR (Inr (WireHost (exhost ''small'' ''2048''))))),
      (KrunkitRunning, BoolA (Inr False)), (Kube (Get AssignmentsGVR ''small'' AssignmentMailboxName), KubeA (ObjectR (Inr (WireAssignment ?s))))]"
    by (simp add: agent_eval exread_def exaccepted e)
  with runs_feed [OF run] have "runs (reconcile exagent ?a) ([(Kube (Get HostsGVR ''small'' ''host''), KubeA (ObjectR (Inr (WireHost (exhost ''small'' ''2048''))))),
      (KrunkitRunning, BoolA (Inr False))] @ (readMailbox exagent, KubeA (ObjectR (Inr (WireAssignment ?s)))) # []) (?a, Inl e)"
    by simp
  from stale_refused [OF this _ _ _ disjI1 [OF older]] run show ?thesis by simp
qed

definition exholding :: DevAgent where
  "exholding = (exidle (Some 3) (Some exrunning))\<lparr>da_assignment := Some (exassigned AssignmentDesiredRunning 7)\<rparr>"

definition exfencing :: "wire aresp list" where
  "exfencing = [KubeA (TimeR 40000000000), DoneA (Inr ()), DoneA (Inr ()), TokenA (Inr ''t''), DoneA (Inr ())]"

lemma exholding_fields [simp]:
  "da_assignment exholding = Some (exassigned AssignmentDesiredRunning 7)" "da_process exholding = Some 3"
  "da_store exholding = \<lparr>jn_open = True, jn_record = Some exrunning\<rparr>" "da_lastAPISuccess exholding = 1"
  "profileOf (exassigned d n) = []" "as_LeaseDurationSeconds (wa_Spec (exassigned d n)) = 30"
  by (simp_all add: exholding_def exidle_def profileOf_def exassigned_def)

theorem self_fence_witness:
  "\<exists>t a' x. runs (selfFenceIfExpired exagent exholding) t (a', x) \<and> fenced exholding t a'"
proof -
  let ?p = "selfFenceIfExpired exagent exholding"
  have late: "30 * second < time_Sub 40000000000 1" by code_simp
  have run: "\<exists>a' x. feed_result ?p exfencing = Some (a', x)"
    and now: "\<forall>r. happened (feed ?p exfencing) (Kube Now) r \<longrightarrow> r = KubeA (TimeR 40000000000)"
    by (simp_all add: agent_eval selfFenceIfExpired_def removeWork_def ignoreA_def exfencing_def exrunning_fields late)
  from run obtain a' x where "feed_result ?p exfencing = Some (a', x)" by (elim exE)
  note run = runs_feed [OF this]
  have "\<exists>s. da_assignment exholding = Some s \<and> expired exholding s 40000000000" using late by (simp add: expired_def)
  with self_fence [OF run now] have "fenced exholding (feed ?p exfencing) a'" by (simp only: if_True)
  with run show ?thesis by (intro exI conjI)
qed

end
