(* ===== verification/Agent_Host.thy ===== *)
theory Agent_Host
  imports Agent_Examples
begin

section \<open>The published status of a host\<close>

text \<open>
  What \<open>updateHostStatus\<close> writes, whatever its checks answer: lists without duplicates that fit
  the schema, a ready condition that is backed by a runtime profile, the service capability only on a
  connected host, and the memory figures of the tracker.
\<close>

subsection \<open>The stages keep the lists well formed\<close>

definition draft_ok :: "hostDraft \<Rightarrow> bool" where
  "draft_ok d \<longleftrightarrow> distinct (hd_profiles d) \<and> distinct (hd_families d) \<and> distinct (hd_capabilities d) \<and> length (hd_models d) \<le> 64
     \<and> (hd_ready d = ConditionTrue \<longrightarrow> hd_profiles d \<noteq> [])"

abbreviation "offersService d \<equiv> CapabilityNativeServiceV1 \<in> set (hd_capabilities d)"

lemma set_appendUnique [simp]: "set (appendUnique vs v) = insert v (set vs)"
  by (auto simp: appendUnique_def list_ex_iff)

lemma distinct_appendUnique [simp]: "distinct (appendUnique vs v) = distinct vs"
  by (auto simp: appendUnique_def list_ex_iff)

lemma appendUnique_nonempty [simp]: "appendUnique vs v \<noteq> []"
  by (auto simp: appendUnique_def)

lemma length_appendAvailableModel: "length vs \<le> 64 \<Longrightarrow> length (appendAvailableModel vs v) \<le> 64"
  by (simp add: appendAvailableModel_def)

lemma fold_appendAvailableModel: "length vs \<le> 64 \<Longrightarrow> length (fold (\<lambda>m ms. appendAvailableModel ms (f m)) xs vs) \<le> 64"
  by (induction xs arbitrary: vs) (auto intro: length_appendAvailableModel)

lemma draft_ok_readyAs: "draft_ok d \<Longrightarrow> hd_profiles d \<noteq> [] \<Longrightarrow> draft_ok (readyAs r t d)"
  by (simp add: draft_ok_def readyAs_def)

lemma addLocalModel_ok:
  "draft_ok d \<Longrightarrow> draft_ok (addLocalModel p f ps m d)"
  "hd_profiles (addLocalModel p f ps m d) = hd_profiles d" "hd_capabilities (addLocalModel p f ps m d) = hd_capabilities d"
  by (simp_all add: addLocalModel_def draft_ok_def length_appendAvailableModel)

lemma addLocalModels:
  "draft_ok d \<Longrightarrow> draft_ok (fold (addLocalModel p f ps) ms d)"
  "hd_profiles (fold (addLocalModel p f ps) ms d) = hd_profiles d"
  "hd_capabilities (fold (addLocalModel p f ps) ms d) = hd_capabilities d"
  by (induction ms arbitrary: d) (simp_all add: addLocalModel_ok)

lemma draft_ok_stages:
  "draft_ok (draftLocked b b' hostDraft0)"
  "draft_ok d \<Longrightarrow> draft_ok (draftMLX b b' d)"
  "draft_ok d \<Longrightarrow> draft_ok (draftHFModels rs d)"
  "draft_ok d \<Longrightarrow> draft_ok (draftTraining b b' d)"
  "draft_ok d \<Longrightarrow> draft_ok (draftService b d)"
  "draft_ok d \<Longrightarrow> draft_ok (draftShell access d)"
  "draft_ok d \<Longrightarrow> draft_ok (draftMessage d)"
  by (auto simp: draftLocked_def hostDraft0_def draftMLX_def draftHFModels_def draftTraining_def draftService_def draftShell_def
      draftMessage_def readyAs_def draft_ok_def Let_def fold_appendAvailableModel)

lemma draft_ok_local:
  assumes "draft_ok d"
  shows "draft_ok (draftOllama x d)" "draft_ok (draftLlamaCpp x d)"
    "offersService (draftOllama x d) \<longleftrightarrow> offersService d" "offersService (draftLlamaCpp x d) \<longleftrightarrow> offersService d"
proof -
  have "draft_ok (d\<lparr>hd_profiles := appendUnique (hd_profiles d) p\<rparr>)"
    "draft_ok (d\<lparr>hd_profiles := appendUnique (hd_profiles d) p, hd_capabilities := appendUnique (hd_capabilities d) c\<rparr>)" for p c
    using assms by (simp_all add: draft_ok_def)
  then show "draft_ok (draftOllama x d)" "draft_ok (draftLlamaCpp x d)"
    using assms by (auto simp: draftOllama_def draftLlamaCpp_def Let_def draft_ok_readyAs addLocalModels addLocalModel_ok
        split: sum.split prod.split list.split)
  show "offersService (draftOllama x d) \<longleftrightarrow> offersService d" "offersService (draftLlamaCpp x d) \<longleftrightarrow> offersService d"
    by (auto simp: draftOllama_def draftLlamaCpp_def Let_def readyAs_def addLocalModels addLocalModel_ok
        split: sum.split prod.split list.split)
qed

lemma serves_stages [simp]:
  "\<not> offersService (draftLocked b b' hostDraft0)"
  "offersService (draftMLX b b' d) \<longleftrightarrow> offersService d"
  "offersService (draftHFModels rs d) \<longleftrightarrow> offersService d"
  "offersService (draftTraining b b' d) \<longleftrightarrow> offersService d"
  "offersService (draftShell access d) \<longleftrightarrow> offersService d"
  "offersService (draftMessage d) \<longleftrightarrow> offersService d"
  "\<not> offersService d \<Longrightarrow> offersService (draftService b d) \<longleftrightarrow> b \<and> hd_families d \<noteq> []"
  "hd_families (draftMessage d) = hd_families d" "hd_families (draftShell access d) = hd_families d"
  "hd_families (draftService b d) = hd_families d"
  by (auto simp: draftLocked_def hostDraft0_def draftMLX_def draftHFModels_def draftTraining_def draftService_def draftShell_def
      draftMessage_def readyAs_def Let_def)

subsection \<open>What is written\<close>

definition conditionIs :: "k8slib \<Rightarrow> Condition list \<Rightarrow> string \<Rightarrow> string \<Rightarrow> bool" where
  "conditionIs L cs t status \<longleftrightarrow> (\<exists>c. FindStatusCondition L cs t = Some c \<and> cond_Status c = status)"

text \<open>The memory of the machine as it was read, and what of it is allocatable.\<close>

definition allocated :: "'u AgentConfig \<Rightarrow> ('u areq \<times> 'u aresp) list \<Rightarrow> Quantity \<Rightarrow> int64 \<Rightarrow> bool" where
  "allocated C t q n \<longleftrightarrow> (AllocatableMemory, QuantityA (Inr q)) \<in> set t \<and> n \<le> Quantity_Value (ac_lib C) q
     \<and> (0 \<le> Quantity_Value (ac_lib C) q \<longrightarrow> 0 \<le> n)"

lemma allocated_mono [simp]: "allocated C t q n \<Longrightarrow> allocated C (t @ u) q n"
  by (simp add: allocated_def)

lemma allocated_metal: "(AllocatableMemory, QuantityA (Inr q)) \<in> set t \<Longrightarrow> allocated C t q (allocatableBytesOf (Quantity_Value (ac_lib C) q) metal)"
  by (simp add: allocated_def allocatableBytesOf_def)

definition published :: "'u AgentConfig \<Rightarrow> IdleloomHost \<Rightarrow> bool \<Rightarrow> UID \<Rightarrow> ('u areq \<times> 'u aresp) list \<Rightarrow> IdleloomHost \<Rightarrow> bool" where
  "published C host krunkit activeUID t h \<longleftrightarrow> (let st = ho_Status h; L = ac_lib C in
     ho_Meta h = ho_Meta host \<and> ho_Spec h = ho_Spec host
   \<and> hst_KrunkitState st = (if krunkit then KrunkitStateRunning else KrunkitStateStopped) \<and> hst_ActiveAssignmentUID st = activeUID
   \<and> distinct (hst_RuntimeProfiles st) \<and> distinct (hst_ModelFamilies st) \<and> distinct (hst_Capabilities st)
   \<and> length (hst_AvailableModels st) \<le> 64
   \<and> (conditionIs L (hst_Conditions st) HostConditionReady ConditionTrue \<longrightarrow> hst_RuntimeProfiles st \<noteq> [])
   \<and> (CapabilityNativeServiceV1 \<in> set (hst_Capabilities st) \<longrightarrow>
        conditionIs L (hst_Conditions st) HostConditionConnected ConditionTrue \<and> ac_ServeListenAddress C \<noteq> [] \<and> hst_ModelFamilies st \<noteq> [])
   \<and> (\<exists>q allocatable available. hst_AllocatableUnifiedMemory st = NewQuantity L allocatable
        \<and> hst_AvailableUnifiedMemory st = NewQuantity L available \<and> (AllocatableMemory, QuantityA (Inr q)) \<in> set t
        \<and> allocatable \<le> Quantity_Value L q
        \<and> (0 \<le> Quantity_Value L q \<longrightarrow> 0 \<le> allocatable \<and> 0 \<le> available
            \<and> (\<forall>q. (TakeMemorySnapshot, QuantityA (Inr q)) \<in> set t \<longrightarrow> available \<le> allocatable)
            \<and> (conditionIs L (hst_Conditions st) HostConditionMemoryVerified ConditionFalse \<longrightarrow> available = allocatable div 2))))"

definition publishGuard :: "'u AgentConfig \<Rightarrow> IdleloomHost \<Rightarrow> bool \<Rightarrow> UID \<Rightarrow> ('u areq \<times> 'u aresp) list \<Rightarrow> 'u areq \<Rightarrow> bool" where
  "publishGuard C host krunkit activeUID t q = (case q of
       Kube (UpdateStatus HostsGVR ns u) \<Rightarrow> (\<exists>h. ofHost (ac_conv C) h = Inr u \<and> published C host krunkit activeUID t h)
     | _ \<Rightarrow> True)"

definition unsnapped :: "('u areq \<times> 'u aresp) list \<Rightarrow> bool" where
  "unsnapped t \<longleftrightarrow> (\<forall>q. (TakeMemorySnapshot, QuantityA (Inr q)) \<notin> set t)"

lemma unsnapped_simps [simp]:
  "unsnapped []" "unsnapped (t @ u) \<longleftrightarrow> unsnapped t \<and> unsnapped u"
  "unsnapped ((q, r) # t) \<longleftrightarrow> (q = TakeMemorySnapshot \<longrightarrow> (\<forall>x. aQuantity r \<noteq> Inr x)) \<and> unsnapped t"
  by (auto simp: unsnapped_def aQuantity_def split: aresp.splits)

definition advertises :: "'u AgentConfig \<Rightarrow> bool \<Rightarrow> hostDraft \<Rightarrow> bool" where
  "advertises C connected d \<longleftrightarrow> draft_ok d \<and> (offersService d \<longrightarrow> connected \<and> ac_ServeListenAddress C \<noteq> [] \<and> hd_families d \<noteq> [])"

lemma observeHost_wp:
  assumes "unsnapped h"
  shows "wp (publishGuard C host k uid) (\<lambda>h' a' x. a' = a \<and> unsnapped h' \<and> advertises C connected (fst x)) (observeHost C host connected) h a"
  using assms by (simp add: observeHost_def wp_bindA publishGuard_def advertises_def draft_ok_stages draft_ok_local Let_def)

definition measured :: "int64 \<Rightarrow> ('u areq \<times> 'u aresp) list \<Rightarrow> int64 \<times> bool \<Rightarrow> bool" where
  "measured allocatable t x \<longleftrightarrow> (0 \<le> allocatable \<longrightarrow> 0 \<le> fst x \<and> (\<not> unsnapped t \<longrightarrow> fst x \<le> allocatable)
     \<and> (snd x \<longrightarrow> fst x = allocatable div 2))"

lemma observe_tracker: "tracker_ok t \<Longrightarrow> observe t now n m = (t', v, b) \<Longrightarrow> tracker_ok t'"
  using pushSample_ok(3,4) [of "mt_window t"]
  by (cases m) (force simp: observe_def tracker_ok_def clampTo_def Let_def split: if_splits)+

lemma observe_measured:
  assumes "tracker_ok t" and "observe t now n (bind_res (aQuantity r) (\<lambda>q. Inr (f q))) = (t', v, b)" and "unsnapped h"
  shows "measured n (h @ [(TakeMemorySnapshot, r), (Kube Now, r')]) (v, b)"
proof -
  note ok = observe_ok [OF assms(1,2)]
  show ?thesis
  proof (cases "aQuantity r")
    case (Inl e)
    with ok assms(3) show ?thesis by (auto simp: measured_def)
  next
    case (Inr x)
    with ok(1,2) ok(4) [of "f x"] show ?thesis by (auto simp: measured_def)
  qed
qed

lemma observeMemory_wp:
  assumes "unsnapped h" and "tracker_ok (da_memory a)"
  shows "wp (publishGuard C host k uid) (\<lambda>h' a' x. tracker_ok (da_memory a') \<and> measured allocatable h' x) (observeMemory C allocatable) h a"
  using assms by (auto simp: observeMemory_def wp_bindA nowA_def publishGuard_def split: prod.split intro: observe_tracker observe_measured)

lemma setCondition_wp:
  assumes "\<And>r. Q (h @ [(Kube Now, r)]) a (SetStatusCondition (ac_lib C) cs
    (condition t (fst x) (ho_Generation host) (rTime (aKube r)) (fst (snd x)) (snd (snd x))))"
  shows "wp (publishGuard C host k uid) Q (setCondition C host t x cs) h a"
  using assms by (cases x) (simp add: setCondition_def wp_bindA nowA_def publishGuard_def)

lemma conditionIs_set:
  assumes "condition_law L"
  shows "conditionIs L (SetStatusCondition L cs (condition t st g now r m)) t' status
     \<longleftrightarrow> (if t' = t then st = status else conditionIs L cs t' status)"
proof -
  have "cond_Type (condition t st g now r m) = t" "cond_Status (condition t st g now r m) = st" by (simp_all add: condition_def)
  then show ?thesis
    using assms unfolding condition_law_def conditionIs_def by (metis option.inject)
qed

lemma hostStatusWith_published:
  assumes law: "condition_law (ac_lib C)" and d: "advertises C (fst connected = ConditionTrue) d"
    and m: "measured allocatable t (available, degraded)" and q: "allocated C t' q allocatable"
    and cs: "cs = SetStatusCondition (ac_lib C) (SetStatusCondition (ac_lib C) (SetStatusCondition (ac_lib C) (SetStatusCondition (ac_lib C) cs0
       (condition HostConditionMemoryVerified (fst (memoryCondition degraded)) g t1 r1 m1))
       (condition HostConditionReady (hd_ready d) g t2 r2 m2))
       (condition HostConditionConnected (fst connected) g t3 r3 m3))
       (condition HostConditionDevelopmentOnly st4 g t4 r4 m4)"
    and t: "\<And>q. (TakeMemorySnapshot, QuantityA (Inr q)) \<in> set t' \<Longrightarrow> \<not> unsnapped t"
  shows "published C host krunkit uid t' (host\<lparr>ho_Status := hostStatusWith C host krunkit uid now connectivity d allocatable available cs\<rparr>)"
proof -
  have "conditionIs (ac_lib C) cs HostConditionReady ConditionTrue \<longleftrightarrow> hd_ready d = ConditionTrue"
    "conditionIs (ac_lib C) cs HostConditionConnected ConditionTrue \<longleftrightarrow> fst connected = ConditionTrue"
    "conditionIs (ac_lib C) cs HostConditionMemoryVerified ConditionFalse \<longleftrightarrow> degraded"
    by (simp_all add: cs conditionIs_set [OF law] memoryCondition_def)
  note conds = this
  have mem: "0 \<le> allocatable \<longrightarrow> 0 \<le> available \<and> (\<forall>q. (TakeMemorySnapshot, QuantityA (Inr q)) \<in> set t' \<longrightarrow> available \<le> allocatable)
      \<and> (degraded \<longrightarrow> available = allocatable div 2)"
    using m t by (auto simp: measured_def)
  have list: "distinct (hd_profiles d)" "distinct (hd_families d)" "distinct (hd_capabilities d)" "length (hd_models d) \<le> 64"
    "hd_ready d = ConditionTrue \<longrightarrow> hd_profiles d \<noteq> []"
    "offersService d \<longrightarrow> fst connected = ConditionTrue \<and> ac_ServeListenAddress C \<noteq> [] \<and> hd_families d \<noteq> []"
    using d by (simp_all add: advertises_def draft_ok_def)
  show ?thesis
    unfolding published_def Let_def
    by (intro conjI exI [of _ q] exI [of _ allocatable] exI [of _ available]) (use list conds mem q in \<open>simp_all add: hostStatusWith_def allocated_def\<close>)
qed

text \<open>The tail of \<open>updateHostStatus\<close>, once everything is observed.\<close>

lemma writeHost_wp:
  assumes "published C host k uid h (host\<lparr>ho_Status := st\<rparr>)"
  shows "wp (publishGuard C host k uid) (\<lambda>h' a' x. a' = a) (tryA (retA (ToUnstructured (ofHost (ac_conv C)) (host\<lparr>ho_Status := st\<rparr>))) (\<lambda>object.
     tryA (kubeA (kUpdateStatus HostsGVR (ho_Namespace host) object)) (\<lambda>_. retA (Inr ())))) h a"
  using assms by (auto simp: ToUnstructured_def publishGuard_def wp_tryA split: sum.split)

lemma publish_wp:
  assumes "condition_law (ac_lib C)" and "advertises C (fst connected = ConditionTrue) d"
    and "measured allocatable h (available, degraded)" and "allocated C h q allocatable" and "tracker_ok (da_memory a)"
  shows "wp (publishGuard C host k uid) (\<lambda>h' a' x. tracker_ok (da_memory a'))
    (bindA (setCondition C host HostConditionMemoryVerified (memoryCondition degraded) cs0) (\<lambda>cs.
     bindA (setCondition C host HostConditionReady (hd_ready d, hd_reason d, hd_message d) cs) (\<lambda>cs.
     bindA (setCondition C host HostConditionConnected connected cs) (\<lambda>cs.
     bindA (setCondition C host HostConditionDevelopmentOnly (s4, r4, m4) cs) (\<lambda>cs.
     tryA (retA (ToUnstructured (ofHost (ac_conv C))
       (host\<lparr>ho_Status := hostStatusWith C host k uid now connectivity d allocatable available cs\<rparr>))) (\<lambda>object.
     tryA (kubeA (kUpdateStatus HostsGVR (ho_Namespace host) object)) (\<lambda>_. retA (Inr ())))))))) h a"
  unfolding wp_bindA
  by (intro setCondition_wp wp_mono [OF writeHost_wp [OF hostStatusWith_published [where q = q, OF assms(1-3)]]])
    (auto simp: assms(4,5) unsnapped_def)

lemma updateHostStatus_wp:
  assumes "condition_law (ac_lib C)" and "tracker_ok (da_memory a)"
  shows "wp (publishGuard C host k uid) (\<lambda>h' a' x. tracker_ok (da_memory a')) (updateHostStatus C host k uid) [] a"
proof -
  let ?tail = "\<lambda>now memory connectivity connected. bindA (observeHost C host (fst connected = ConditionTrue)) (\<lambda>(d, metal).
     let allocatable = allocatableBytesOf (Quantity_Value (ac_lib C) memory) metal in
     bindA (observeMemory C allocatable) (\<lambda>(available, degraded).
     bindA (setCondition C host HostConditionMemoryVerified (memoryCondition degraded) (hst_Conditions (ho_Status host))) (\<lambda>cs.
     bindA (setCondition C host HostConditionReady (hd_ready d, hd_reason d, hd_message d) cs) (\<lambda>cs.
     bindA (setCondition C host HostConditionConnected connected cs) (\<lambda>cs.
     bindA (setCondition C host HostConditionDevelopmentOnly (ConditionTrue, ''NoHostResourceArbiter'',
       ''Vulkan lease state is not authoritative; this host is eligible only for the single-host development MVP'') cs) (\<lambda>cs.
     tryA (retA (ToUnstructured (ofHost (ac_conv C))
       (host\<lparr>ho_Status := hostStatusWith C host k uid now connectivity d allocatable available cs\<rparr>))) (\<lambda>object.
     tryA (kubeA (kUpdateStatus HostsGVR (ho_Namespace host) object)) (\<lambda>_. retA (Inr ())))))))))"
  have tail: "wp (publishGuard C host k uid) (\<lambda>h' a' x. tracker_ok (da_memory a')) (?tail now memory connectivity connected) h a"
    if "unsnapped h" "(AllocatableMemory, QuantityA (Inr memory)) \<in> set h" for h now memory connectivity connected
    unfolding Let_def
    by (rule wp_bindI [OF wp_history [OF observeHost_wp [OF that(1)]]], clarify)
      (auto intro!: wp_bindI [OF wp_history [OF observeMemory_wp]] publish_wp [OF assms(1)] allocated_metal assms(2) simp: that(2))
  have read: "ra = QuantityA (Inr memory)" if "aQuantity ra = Inr memory" for ra :: "'a aresp" and memory
    using that by (auto simp: aQuantity_def split: aresp.splits)
  show ?thesis
    using assms(2)
    by (auto intro!: tail [where connected = "(p, r, m)" for p r m, unfolded fst_conv] dest!: read simp: updateHostStatus_def wp_bindA [of _ _ nowA] nowA_def wp_tryA [of _ _ "callA _ _"] wp_bindA [of _ _ "callA _ _"]
        wp_bindA [of _ _ "kubeA kNow"] wp_bindA [of _ _ "retA _"] publishGuard_def split: sum.split prod.split)
qed

text \<open>
  C40. Every status the agent publishes for its host keeps the identity and the specification of the
  host, lists every runtime profile, model family and capability once and at most 64 models, says ready
  only with a runtime profile, and offers the service capability only when it also says connected, has
  an address to serve on and a model family. The allocatable memory is at most the memory of the machine that was
  read; if that reading is not negative, neither the allocatable nor the available memory is negative, the
  available memory is at most the allocatable one when a measurement succeeded, and exactly half of it when
  the measurement is reported as degraded. The measurements kept from before are not negative, and the library
  finds the condition that was set last.
\<close>

theorem host_published:
  assumes "condition_law (ac_lib C)" and "tracker_ok (da_memory a)"
    and "emits (updateHostStatus C host krunkit uid a) (t @ (Kube (UpdateStatus HostsGVR ns u), r) # w)"
  shows "\<exists>h. ofHost (ac_conv C) h = Inr u \<and> published C host krunkit uid t h"
  using wp_emits [OF updateHostStatus_wp [OF assms(1,2)] assms(3)] by (simp add: publishGuard_def)

definition exobserving :: "wire aresp list" where
  "exobserving = [KubeA (TimeR 5), QuantityA (Inr ''1000''), KubeA (TimeR 6), RuntimeA (Inl (ErrorString [])), ReceiptA (Inl (ErrorString [])),
     LocalA (Inl (ErrorString [])), LocalA (Inl (ErrorString [])), QuantityA (Inr ''500''), KubeA (TimeR 7), KubeA (TimeR 8),
     KubeA (TimeR 9), KubeA (TimeR 10), KubeA (TimeR 11)]"

lemma exobserving_asks:
  "\<exists>h. asks (updateHostStatus exagent (exhost ''small'' ''2048'') False [] (exidle None None)) exobserving
     = Some (Kube (UpdateStatus HostsGVR ''small'' (WireHost h)))"
proof -
  have c: "\<not> ac_ConnectivityStatus exagent" "\<not> ac_PrepareHFModel exagent" "ofHost exconv x = Inr (WireHost x)" "ho_Namespace (exhost ns q) = ns" for x ns q
    by (simp_all add: exagent_def exconv_def exhost_def exmeta_def)
  show ?thesis
    by (simp add: updateHostStatus_def observeHost_def observeMemory_def setCondition_def agent_eval exobserving_def
      evaluateConnectivity_def isOk_def case_prod_beta Let_def c)
qed

theorem host_published_witness:
  "\<exists>h. published exagent (exhost ''small'' ''2048'') False [] (feed (updateHostStatus exagent (exhost ''small'' ''2048'') False [] (exidle None None)) exobserving) h"
proof -
  obtain h where "asks (updateHostStatus exagent (exhost ''small'' ''2048'') False [] (exidle None None)) exobserving
     = Some (Kube (UpdateStatus HostsGVR ''small'' (WireHost h)))" using exobserving_asks by blast
  from host_published [OF _ _ emits_asks [OF this, of "DoneA (Inr ())"]] show ?thesis
    using condition_law_ex by (auto simp: exidle_def tracker_ok_def)
qed

end
