(* ===== verification/Mesh_IP.thy ===== *)
theory Mesh_IP
  imports Go_Net
begin

unbundle bit_operations_syntax

section \<open>Mesh addresses derived from names\<close>

text \<open>
  \<open>internal/meship/meship.go\<close>: the address a name hashes to inside the mesh CIDR and the walk
  over the other addresses. Addresses and hashes are 32-bit words, as in the source; the product of
  the walk is a 64-bit word. Shown: the loop that picks the stride ends with a stride coprime to the
  range, the walk visits every assignable address exactly once before it repeats, and every address
  it returns is one that \<open>Contains\<close> accepts.
\<close>

subsection \<open>Hash and stride\<close>

definition fnv32a :: "string \<Rightarrow> 32 word" where
  "fnv32a value = foldl (\<lambda>hash c. (hash XOR word_of_nat (byte c)) * 16777619) 2166136261 value"

function gcd32 :: "32 word \<Rightarrow> 32 word \<Rightarrow> 32 word" where
  "gcd32 a b = (if b \<noteq> 0 then gcd32 b (a mod b) else a)"
  by pat_completeness auto
termination
  by (relation "measure (\<lambda>(a, b). unat b)") (auto simp: unat_mod unat_gt_0)

declare gcd32.simps [simp del]

lemma unat_gcd32: "unat (gcd32 a b) = gcd (unat a) (unat b)"
proof (induction a b rule: gcd32.induct)
  case (1 a b)
  then show ?case
    by (subst gcd32.simps) (simp add: unat_mod gcd_red_nat [of "unat a"])
qed

lemma gcd32_1 [simp]: "gcd32 1 b = 1"
  by (simp add: word_unat_eq_iff unat_gcd32)

text \<open>How far the stride is from 1, where the loop ends at the latest.\<close>

definition stride_rank :: "32 word \<Rightarrow> 32 word \<Rightarrow> nat" where
  "stride_rank step usable =
     (if step = 1 then 0
      else if step < usable then Suc (unat usable - unat step)
      else unat usable + 2)"

lemma stride_rank_decreases:
  assumes "step \<noteq> 1"
  shows "stride_rank (if step + 1 \<ge> usable then 1 else step + 1) usable < stride_rank step usable"
proof (cases "step + 1 \<ge> usable")
  case True
  with assms show ?thesis by (simp add: stride_rank_def)
next
  case False
  then have less: "unat (step + 1) < unat usable" by (simp add: not_le word_less_nat_alt)
  show ?thesis
  proof (cases "step < usable")
    case True
    then have "unat (step + 1) = unat step + 1"
      using unsigned_less [of usable, where ?'a = nat] by (simp add: unat_plus_if' word_less_nat_alt)
    with False True assms less show ?thesis
      by (auto simp: stride_rank_def word_less_nat_alt)
  next
    case ge: False
    with False assms less show ?thesis
      by (auto simp: stride_rank_def word_less_nat_alt)
  qed
qed

function stride_loop :: "32 word \<Rightarrow> 32 word \<Rightarrow> 32 word" where
  "stride_loop step usable =
     (if gcd32 step usable \<noteq> 1 then stride_loop (if step + 1 \<ge> usable then 1 else step + 1) usable else step)"
  by pat_completeness auto
termination
proof (relation "measure (\<lambda>(step, usable). stride_rank step usable)")
  fix step usable :: "32 word"
  assume "gcd32 step usable \<noteq> 1"
  then have "step \<noteq> 1" by auto
  then show "((if step + 1 \<ge> usable then 1 else step + 1, usable), step, usable)
      \<in> measure (\<lambda>(step, usable). stride_rank step usable)"
    using stride_rank_decreases by simp
qed simp

declare stride_loop.simps [simp del]

definition stepForName :: "string \<Rightarrow> 32 word \<Rightarrow> 32 word" where
  "stepForName name usable =
     (if usable < 3 then 1
      else stride_loop (fnv32a (''step'' @ [CHR 0x00] @ name) mod (usable - 1) + 1) usable)"

subsection \<open>The mesh CIDR\<close>

text \<open>
  The network address of a parsed CIDR: \<open>IP.Mask\<close> clears the bits beyond the prefix, octet by
  octet, or group by group of an IPv6 address.
\<close>

definition maskPart :: "int \<Rightarrow> int \<Rightarrow> int \<Rightarrow> int \<Rightarrow> int" where
  "maskPart width ones i part =
     (let keep = ones - width * i; k = nat (width - keep)
      in if keep \<le> 0 then 0 else part div 2 ^ k * 2 ^ k)"

definition networkIP :: "IP \<Rightarrow> int \<Rightarrow> IP" where
  "networkIP ip ones =
     (case ip of
        IPv4 os \<Rightarrow> IPv4 (map2 (maskPart 8 ones) [0, 1, 2, 3] os)
      | IPv6 gs \<Rightarrow> IPv6 (map2 (maskPart 16 ones) [0, 1, 2, 3, 4, 5, 6, 7] gs))"

definition uint32At :: "int list \<Rightarrow> nat \<Rightarrow> 32 word" where
  "uint32At os i = word_of_int (os ! i)"

definition address32 :: "int list \<Rightarrow> 32 word" where
  "address32 os =
     push_bit 24 (uint32At os 0) OR push_bit 16 (uint32At os 1) OR push_bit 8 (uint32At os 2) OR uint32At os 3"

definition parseMesh :: "string \<Rightarrow> (32 word \<times> 32 word) res" where
  "parseMesh meshCIDR =
     (case ParseCIDR meshCIDR of
        None \<Rightarrow> Inl (ErrorString (''invalid mesh CIDR '' @ fmt_q meshCIDR))
      | Some (address, ones) \<Rightarrow>
         (case To4 (networkIP address ones) of
            None \<Rightarrow> Inl (ErrorString ''mesh CIDR must be IPv4'')
          | Some ip \<Rightarrow>
             (let sz = push_bit (nat (BitLen address - ones)) (1 :: 32 word)
              in if sz < 4 then Inl (ErrorString ''mesh CIDR is too small'')
                 else Inr (address32 ip, sz))))"

definition Capacity :: "string \<Rightarrow> int res" where
  "Capacity meshCIDR = bind_res (parseMesh meshCIDR) (\<lambda>(base, sz). Inr (uint (sz - 2)))"

subsection \<open>Addresses\<close>

definition octets :: "32 word \<Rightarrow> int list" where
  "octets value = map (\<lambda>k. uint (drop_bit k value) mod 256) [24, 16, 8, 0]"

definition walkIndex :: "string \<Rightarrow> 32 word \<Rightarrow> int \<Rightarrow> 32 word" where
  "walkIndex name usable attempt =
     (let start = fnv32a name mod usable
      in if attempt > 0
         then let step = stepForName name usable in
           word_of_int (uint ((word_of_int (uint start)
             + word_of_int (uint step) * (word_of_int attempt mod word_of_int (uint usable)))
               mod (word_of_int (uint usable) :: 64 word)))
         else start)"

definition IPForNameAttempt :: "string \<Rightarrow> string \<Rightarrow> int \<Rightarrow> string res" where
  "IPForNameAttempt name meshCIDR attempt =
     (if attempt < 0 then Inl (ErrorString (''attempt must not be negative, got '' @ FormatInt attempt))
      else bind_res (parseMesh meshCIDR) (\<lambda>(base, sz).
        Inr (dotted (octets (base + walkIndex name (sz - 2) attempt + 1)) @ ''/32'')))"

definition IPForName :: "string \<Rightarrow> string \<Rightarrow> string res" where
  "IPForName name meshCIDR = IPForNameAttempt name meshCIDR 0"

definition AddressForNameAttempt :: "string \<Rightarrow> string \<Rightarrow> int \<Rightarrow> string res" where
  "AddressForNameAttempt name meshCIDR attempt =
     bind_res (IPForNameAttempt name meshCIDR attempt) (\<lambda>value.
       case ParseCIDR value of
         Some (IPv4 os, n) \<Rightarrow> Inr (dotted os)
       | _ \<Rightarrow> Inl (ErrorString (''derive mesh address for '' @ fmt_q name)))"

definition AddressForName :: "string \<Rightarrow> string \<Rightarrow> string res" where
  "AddressForName name meshCIDR = AddressForNameAttempt name meshCIDR 0"

definition Contains :: "string \<Rightarrow> string \<Rightarrow> bool" where
  "Contains address meshCIDR =
     (case ParseCIDR address of
        None \<Rightarrow> False
      | Some (ip, ones) \<Rightarrow>
         if ones \<noteq> 32 \<or> BitLen ip \<noteq> 32 then False
         else (case parseMesh meshCIDR of
                 Inl e \<Rightarrow> False
               | Inr (base, sz) \<Rightarrow>
                  (case To4 ip of
                     None \<Rightarrow> False
                   | Some ip4 \<Rightarrow> address32 ip4 > base \<and> address32 ip4 < base + sz - 1)))"

lemma golden_vectors:
  "IPForNameAttempt ''master'' ''100.64.0.0/10'' 0 = Inr ''100.77.197.136/32''"
  "IPForNameAttempt ''master'' ''100.64.0.0/10'' 1 = Inr ''100.102.213.161/32''"
  "IPForNameAttempt ''worker1'' ''100.64.0.0/10'' 31 = Inr ''100.64.154.202/32''"
  "IPForNameAttempt ''node-a'' ''100.64.0.0/10'' 254 = Inr ''100.97.214.0/32''"
  by code_simp+

subsection \<open>The stride\<close>

lemma stride_loop_spec:
  assumes "1 < usable" and "1 \<le> step" and "step < usable"
  shows "gcd32 (stride_loop step usable) usable = 1 \<and> 1 \<le> stride_loop step usable \<and> stride_loop step usable < usable"
  using assms
proof (induction step usable rule: stride_loop.induct)
  case (1 step usable)
  let ?next = "if step + 1 \<ge> usable then 1 else step + 1"
  have "1 \<le> ?next \<and> ?next < usable"
  proof (cases "step + 1 \<ge> usable")
    case False
    then have "unat (step + 1) = unat step + 1"
      using 1(4) unsigned_less [of usable, where ?'a = nat] by (simp add: unat_plus_if' word_less_nat_alt)
    with False show ?thesis by (simp add: word_le_nat_alt word_less_nat_alt)
  qed (use 1(2) in simp)
  with 1 show ?case
    by (subst (1 2 3) stride_loop.simps) auto
qed

lemma stepForName_spec:
  assumes "3 \<le> usable"
  shows "coprime (unat (stepForName name usable)) (unat usable)"
    and "1 \<le> stepForName name usable" and "stepForName name usable < usable"
proof -
  let ?h = "fnv32a (''step'' @ [CHR 0x00] @ name)"
  have u: "unat (usable - 1) = unat usable - 1" "3 \<le> unat usable"
    using assms by (simp_all add: word_le_nat_alt unat_sub)
  have "unat (?h mod (usable - 1)) < unat usable - 1"
    using u by (simp add: unat_mod)
  then have "unat (?h mod (usable - 1) + 1) = unat (?h mod (usable - 1)) + 1"
    using unsigned_less [of usable, where ?'a = nat] by (simp add: unat_plus_if')
  with \<open>unat (?h mod (usable - 1)) < unat usable - 1\<close>
  have "1 \<le> ?h mod (usable - 1) + 1" "?h mod (usable - 1) + 1 < usable"
    by (simp_all add: word_le_nat_alt word_less_nat_alt)
  moreover have "1 < usable" using u by (simp add: word_less_nat_alt)
  moreover have "\<not> usable < 3" using assms by simp
  ultimately have g: "gcd32 (stepForName name usable) usable = 1"
      "1 \<le> stepForName name usable" "stepForName name usable < usable"
    using stride_loop_spec by (simp_all add: stepForName_def)
  have "gcd (unat (stepForName name usable)) (unat usable) = 1"
    using g(1) by (metis unat_gcd32 unat_1)
  then show "coprime (unat (stepForName name usable)) (unat usable)"
    by (simp add: coprime_iff_gcd_eq_1)
  from g(2,3) show "1 \<le> stepForName name usable" "stepForName name usable < usable" by auto
qed

lemma stepForName_coprime:
  assumes "2 \<le> usable"
  shows "coprime (unat (stepForName name usable)) (unat usable)"
proof (cases "usable < 3")
  case True
  then show ?thesis by (simp add: stepForName_def)
next
  case False
  then show ?thesis by (simp add: stepForName_spec)
qed

lemma uint_word32: "0 \<le> x \<Longrightarrow> x < 2 ^ 32 \<Longrightarrow> uint (word_of_int x :: 32 word) = x"
  by (simp add: uint_word_of_int)

lemma uint_word64: "0 \<le> x \<Longrightarrow> x < 2 ^ 64 \<Longrightarrow> uint (word_of_int x :: 64 word) = x"
  by (simp add: uint_word_of_int)

lemma walk_sum64:
  fixes s t m :: int
  assumes "0 \<le> s" "s < 2 ^ 32" "0 \<le> t" "t < 2 ^ 32" "0 \<le> m" "m < 2 ^ 32 - 1"
  shows "uint (word_of_int s + word_of_int t * word_of_int m :: 64 word) = s + t * m"
proof -
  have "t * m \<le> (2 ^ 32 - 1) * (2 ^ 32 - 2)"
    using assms by (intro mult_mono) auto
  moreover have "0 \<le> t * m" using assms by simp
  ultimately have "0 \<le> s + t * m" "s + t * m < 2 ^ 64"
    using assms by simp_all
  moreover have "(word_of_int s + word_of_int t * word_of_int m :: 64 word) = word_of_int (s + t * m)"
    by simp
  ultimately show ?thesis using uint_word64 by metis
qed

lemma walkIndex_value:
  assumes "2 \<le> usable" and "0 \<le> attempt" and "attempt < 2 ^ 63"
  shows "uint (walkIndex name usable attempt)
       = (uint (fnv32a name) + uint (stepForName name usable) * attempt) mod uint usable"
proof (cases "attempt = 0")
  case True
  then show ?thesis by (simp add: walkIndex_def uint_mod)
next
  case False
  let ?u = "uint usable" and ?t = "uint (stepForName name usable)" and ?s = "uint (fnv32a name mod usable)"
  let ?m = "attempt mod ?u"
  have u: "2 \<le> ?u" "?u < 2 ^ 32"
    using assms(1) unsigned_less [of usable, where ?'a = int] by (simp_all add: word_le_def)
  have m: "0 \<le> ?m" "?m < ?u" using u by simp_all
  have m32: "?m < 2 ^ 32 - 1" using m u by linarith
  have mod64: "(word_of_int attempt mod word_of_int ?u :: 64 word) = word_of_int ?m"
  proof -
    have "uint (word_of_int attempt mod word_of_int ?u :: 64 word) = ?m"
      using assms u by (simp add: uint_mod uint_word64 del: of_int_uint)
    then show ?thesis by (metis word_of_int_uint)
  qed
  have sum: "uint (word_of_int ?s + word_of_int ?t * word_of_int ?m :: 64 word) = ?s + ?t * ?m"
    by (rule walk_sum64) (use m u m32 unsigned_less [of "stepForName name usable", where ?'a = int]
        unsigned_less [of "fnv32a name mod usable", where ?'a = int] in auto)
  have "uint (walkIndex name usable attempt) = uint (word_of_int ((?s + ?t * ?m) mod ?u) :: 32 word)"
  proof -
    have "uint ((word_of_int ?s + word_of_int ?t * word_of_int ?m :: 64 word) mod word_of_int ?u) = (?s + ?t * ?m) mod ?u"
      using u by (simp only: uint_mod [where ?'a = 64] sum) (simp add: uint_word64 del: of_int_uint)
    then show ?thesis
      using False assms(2) by (simp only: walkIndex_def Let_def mod64) simp
  qed
  also have "\<dots> = (?s + ?t * ?m) mod ?u"
  proof -
    have "0 \<le> (?s + ?t * ?m) mod ?u" "(?s + ?t * ?m) mod ?u < 2 ^ 32"
      using u pos_mod_bound [of ?u "?s + ?t * ?m"] pos_mod_sign [of ?u "?s + ?t * ?m"] by linarith+
    then show ?thesis by (simp add: uint_word_of_int)
  qed
  also have "\<dots> = (uint (fnv32a name) + ?t * attempt) mod ?u"
    unfolding uint_mod by (metis mod_add_left_eq mod_add_right_eq mod_mult_right_eq)
  finally show ?thesis .
qed

lemma affine_period: "(s + t * (k mod n)) mod n = (s + t * k) mod (n :: int)"
  by (metis mod_add_right_eq mod_mult_right_eq)

lemma affine_inj:
  fixes n s t :: int
  assumes "coprime t n"
  shows "inj_on (\<lambda>i. (s + t * i) mod n) {0..<n}"
proof (rule inj_onI)
  fix i j
  assume i: "i \<in> {0..<n}" and j: "j \<in> {0..<n}" and eq: "(s + t * i) mod n = (s + t * j) mod n"
  from eq have "n dvd (s + t * i) - (s + t * j)" by (simp add: mod_eq_dvd_iff)
  then have "n dvd t * (i - j)" by (simp add: algebra_simps)
  with assms have "n dvd i - j" by (metis coprime_commute coprime_dvd_mult_right_iff)
  with i j show "i = j"
    by (auto dest: zdvd_imp_le zdvd_not_zless simp: mod_eq_dvd_iff [symmetric])
qed

subsection \<open>Addresses as text\<close>

lemma digit_char_0: "d < 10 \<Longrightarrow> 0 < d \<Longrightarrow> digit_char d \<noteq> CHR ''0''"
  using digit_char_props [of d] by (auto simp: byte_def)

lemma format_nat_unroll:
  "d < 10 \<Longrightarrow> format_nat d = [digit_char (nat d)]"
  "10 \<le> d \<Longrightarrow> format_nat d = format_nat (d div 10) @ [digit_char (nat (d mod 10))]"
  by (subst format_nat.simps, simp)+

lemma octet_text:
  assumes "0 \<le> d" and "d < 256"
  shows "parseOctet (FormatInt d) = Some d" and "list_all is_digit (FormatInt d)"
proof -
  show digits: "list_all is_digit (FormatInt d)"
    using assms format_nat_digits [of d] by (simp add: FormatInt_def)
  consider "d < 10" | "10 \<le> d" "d < 100" | "100 \<le> d" by linarith
  then have "length (format_nat d) \<le> 3 \<and> \<not> (1 < length (format_nat d) \<and> hd (format_nat d) = CHR ''0'')
      \<and> format_nat d \<noteq> []"
  proof cases
    case 1
    then show ?thesis by (simp add: format_nat_unroll)
  next
    case 2
    then have "d div 10 < 10" "0 < d div 10" by presburger+
    with 2 have "format_nat d = [digit_char (nat (d div 10)), digit_char (nat (d mod 10))]"
      by (simp add: format_nat_unroll)
    with \<open>d div 10 < 10\<close> \<open>0 < d div 10\<close> show ?thesis by (simp add: digit_char_0)
  next
    case 3
    have e: "10 \<le> d div 10" "d div 10 \<le> 25"
      using 3 assms zdiv_mono1 [of 100 d 10] zdiv_mono1 [of d 255 10] by simp_all
    then have q: "10 \<le> d div 10" "d div 10 div 10 < 10" "0 < d div 10 div 10"
      using zdiv_mono1 [of 10 "d div 10" 10] zdiv_mono1 [of "d div 10" 25 10] by (simp_all del: div_div_eq_right)
    have "format_nat d = format_nat (d div 10) @ [digit_char (nat (d mod 10))]"
      using 3 by (intro format_nat_unroll(2)) simp
    also have "format_nat (d div 10) = format_nat (d div 10 div 10) @ [digit_char (nat (d div 10 mod 10))]"
      using q(1) by (rule format_nat_unroll(2))
    also have "format_nat (d div 10 div 10) = [digit_char (nat (d div 10 div 10))]"
      using q(2) by (rule format_nat_unroll(1))
    finally have "format_nat d
        = [digit_char (nat (d div 10 div 10)), digit_char (nat (d div 10 mod 10)), digit_char (nat (d mod 10))]"
      by simp
    moreover have "digit_char (nat (d div 10 div 10)) \<noteq> CHR ''0''"
      using q by (intro digit_char_0) linarith+
    ultimately show ?thesis by (simp only:) simp
  qed
  with digits assms parse_format_nat [of d] show "parseOctet (FormatInt d) = Some d"
    by (simp add: parseOctet_def FormatInt_def)
qed

lemma octet_chars:
  assumes "0 \<le> d" and "d < 256" and "c \<in> set (FormatInt d)"
  shows "is_digit c"
  using octet_text(2) [OF assms(1,2)] assms(3) by (simp add: list_all_iff)

lemma not_digits: "\<not> is_digit (CHR ''.'')" "\<not> is_digit (CHR ''/'')" "\<not> is_digit (CHR '':'')" "\<not> is_digit (CHR ''%'')"
  by (simp_all add: char_class_defs)

definition is_octets :: "int list \<Rightarrow> bool" where
  "is_octets os \<longleftrightarrow> length os = 4 \<and> list_all (\<lambda>d. 0 \<le> d \<and> d < 256) os"

lemma is_octets_cases:
  assumes "is_octets os"
  obtains a b c d where "os = [a, b, c, d]" "0 \<le> a" "a < 256" "0 \<le> b" "b < 256" "0 \<le> c" "c < 256" "0 \<le> d" "d < 256"
  using assms by (auto simp: is_octets_def numeral_eq_Suc length_Suc_conv)

lemma parseIPv4_dotted: "is_octets os \<Longrightarrow> parseIPv4 (dotted os) = Some os"
proof (erule is_octets_cases)
  fix a b c d
  assume os: "os = [a, b, c, d]" and r: "0 \<le> a" "a < 256" "0 \<le> b" "b < 256" "0 \<le> c" "c < 256" "0 \<le> d" "d < 256"
  have n: "CHR ''.'' \<notin> set (FormatInt x)" if "0 \<le> x" "x < 256" for x
    using octet_chars [OF that] not_digits(1) by blast
  have "splitOn (CHR ''.'') (dotted os) = [FormatInt a, FormatInt b, FormatInt c, FormatInt d]"
    using os r n by (simp add: dotted_def splitOn_append splitOn_none)
  then show ?thesis
    using os r by (simp add: parseIPv4_def Let_def octet_text)
qed

lemma dotted_chars: "is_octets os \<Longrightarrow> ch \<in> set (dotted os) \<Longrightarrow> is_digit ch \<or> ch = CHR ''.''"
  by (erule is_octets_cases) (auto simp: dotted_def dest: octet_chars)

lemma dot_in_dotted: "is_octets os \<Longrightarrow> CHR ''.'' \<in> set (dotted os)"
  by (erule is_octets_cases) (simp add: dotted_def)

lemma ParseCIDR_dotted:
  assumes "is_octets os"
  shows "ParseCIDR (dotted os @ ''/32'') = Some (IPv4 os, 32)"
proof -
  let ?P = "\<lambda>c. c = CHR ''.'' \<or> c = CHR '':'' \<or> c = CHR ''%''"
  have no: "CHR ''/'' \<notin> set (dotted os)" "CHR ''%'' \<notin> set (dotted os)" "CHR '':'' \<notin> set (dotted os)"
    using dotted_chars [OF assms] not_digits by blast+
  have "find ?P (dotted os) = Some (CHR ''.'')"
  proof (cases "find ?P (dotted os)")
    case None
    then show ?thesis using dot_in_dotted [OF assms] by (auto simp: find_None_iff)
  next
    case (Some c)
    then have "?P c" "c \<in> set (dotted os)" by (auto simp: find_Some_iff dest: nth_mem)
    with no Some show ?thesis by auto
  qed
  with no parseIPv4_dotted [OF assms] have "ParseAddr (dotted os) = Some (IPv4 os)"
    by (simp add: ParseAddr_def)
  moreover have "takeWhile (\<lambda>c. c \<noteq> CHR ''/'') (dotted os @ ''/32'') = dotted os"
      "dropWhile (\<lambda>c. c \<noteq> CHR ''/'') (dotted os @ ''/32'') = ''/32''"
    using no(1) by (auto simp: takeWhile_append2 dropWhile_append2 takeWhile_append dropWhile_append)
  moreover have "parse_digits 0 ''32'' = Some 32" by code_simp
  ultimately show ?thesis by (simp add: ParseCIDR_def Let_def BitLen_def)
qed

lemma is_octets_octets [simp]: "is_octets (octets v)"
  by (simp add: is_octets_def octets_def)

lemma low_octet: "word_of_int (uint x mod 256) = (take_bit 8 x :: 32 word)"
proof -
  have "uint x mod 256 = uint (take_bit 8 x)"
    by (simp add: take_bit_eq_mod uint_mod)
  then show ?thesis by simp
qed

lemma address32_octets [simp]: "address32 (octets v) = v"
proof -
  have "uint32At (octets v) 0 = take_bit 8 (drop_bit 24 v)" "uint32At (octets v) 1 = take_bit 8 (drop_bit 16 v)"
    "uint32At (octets v) 2 = take_bit 8 (drop_bit 8 v)" "uint32At (octets v) 3 = take_bit 8 v"
    by (simp_all add: uint32At_def octets_def low_octet)
  then show ?thesis
    apply (simp add: address32_def)
    apply (rule bit_word_eqI)
    apply (auto simp: bit_simps)
    subgoal for n by (cases "16 \<le> n") auto
    subgoal for n by (cases "16 \<le> n"; cases "24 \<le> n") auto
    done
qed

subsection \<open>The assignable range\<close>

lemma maskPart_dvd: "2 ^ nat (width - (ones - width * i)) dvd maskPart width ones i part"
  by (simp add: maskPart_def Let_def)

lemma pow_dvd_div256:
  fixes g :: int
  assumes "2 ^ a dvd g"
  shows "2 ^ (a - 8) dvd g div 256"
proof (cases "a < 8")
  case False
  then obtain b where a: "a = 8 + b" using le_Suc_ex not_less by blast
  from assms obtain q where "g = 2 ^ a * q" by blast
  then have "g = 256 * (2 ^ b * q)" by (simp add: a power_add)
  then show ?thesis by (simp add: a)
qed simp

lemma pow_dvd_mod256:
  fixes g :: int
  assumes "2 ^ a dvd g"
  shows "2 ^ a dvd g mod 256"
proof (cases "a < 8")
  case True
  then have "(2 :: int) ^ a dvd 2 ^ 8" by (intro le_imp_power_dvd) simp
  with assms show ?thesis by (intro dvd_mod) simp_all
next
  case False
  then have "(2 :: int) ^ 8 dvd 2 ^ a" by (intro le_imp_power_dvd) simp
  with assms have "256 dvd g" by (simp add: dvd_trans)
  then have "g mod 256 = 0" by simp
  then show ?thesis by simp
qed

lemma take_push_zero:
  assumes "2 ^ (k - j) dvd x"
  shows "take_bit k (push_bit j (word_of_int x :: 32 word)) = 0"
proof -
  from assms obtain q where x: "x = 2 ^ (k - j) * q" by blast
  have "push_bit j (word_of_int x :: 32 word) = 2 ^ ((k - j) + j) * word_of_int q"
    by (simp add: x push_bit_eq_mult power_add algebra_simps)
  moreover have "(2 :: 32 word) ^ k dvd 2 ^ ((k - j) + j)"
    by (intro le_imp_power_dvd) simp
  ultimately have "2 ^ k dvd push_bit j (word_of_int x :: 32 word)"
    by (metis dvd_mult2)
  then show ?thesis by (simp add: take_bit_eq_0_iff)
qed

lemma address32_zero:
  assumes "2 ^ (k - 24) dvd a" and "2 ^ (k - 16) dvd b" and "2 ^ (k - 8) dvd c" and "2 ^ k dvd d"
  shows "take_bit k (address32 [a, b, c, d]) = 0"
  using take_push_zero [OF assms(1)] take_push_zero [OF assms(2)] take_push_zero [OF assms(3)]
    take_push_zero [of k 0 d] assms(4)
  by (simp add: address32_def uint32At_def take_bit_or)

lemma parse_digits_nonneg: "parse_digits acc s = Some n \<Longrightarrow> 0 \<le> acc \<Longrightarrow> 0 \<le> n"
  by (induction acc s rule: parse_digits.induct) (auto simp: char_class_defs split: if_splits)

lemma length_those_list: "those_list xs = Some ys \<Longrightarrow> length ys = length xs"
  by (induction xs arbitrary: ys rule: those_list.induct) auto

lemma ParseCIDR_shape:
  assumes "ParseCIDR s = Some (ip, n)"
  shows "0 \<le> n \<and> n \<le> BitLen ip \<and> (case ip of IPv4 os \<Rightarrow> length os = 4 | IPv6 gs \<Rightarrow> length gs = 8)"
proof -
  have "(case ip of IPv4 os \<Rightarrow> length os = 4 | IPv6 gs \<Rightarrow> length gs = 8)" if "ParseAddr a = Some ip" for a
    using that
    by (auto simp: ParseAddr_def parseIPv4_def parseIPv6_def Let_def dest!: length_those_list
        split: option.splits if_splits prod.splits)
  with assms show ?thesis
    by (auto simp: ParseCIDR_def Let_def simp del: parse_digits.simps
        split: if_splits option.splits list.splits IP.splits dest: parse_digits_nonneg)
qed

lemma mesh_aligned:
  assumes "parseMesh meshCIDR = Inr (base, sz)"
  shows "\<exists>k. 2 \<le> k \<and> k < 32 \<and> sz = push_bit k 1 \<and> take_bit k base = 0"
proof -
  from assms obtain ip n os where c: "ParseCIDR meshCIDR = Some (ip, n)" and o: "To4 (networkIP ip n) = Some os"
    and base: "base = address32 os" and sz: "sz = push_bit (nat (BitLen ip - n)) 1" and big: "4 \<le> sz"
    by (auto simp: parseMesh_def Let_def split: option.splits prod.splits if_splits)
  let ?k = "nat (BitLen ip - n)"
  have shape: "0 \<le> n" "n \<le> BitLen ip" "case ip of IPv4 os \<Rightarrow> length os = 4 | IPv6 gs \<Rightarrow> length gs = 8"
    using ParseCIDR_shape [OF c] by auto
  have "take_bit ?k base = 0"
  proof (cases ip)
    case (IPv4 ps)
    with shape obtain a b c d where ps: "ps = [a, b, c, d]"
      by (auto simp: numeral_eq_Suc length_Suc_conv)
    have os: "os = [maskPart 8 n 0 a, maskPart 8 n 1 b, maskPart 8 n 2 c, maskPart 8 n 3 d]"
      using o by (simp add: IPv4 ps networkIP_def To4_def)
    have e: "nat (32 - n) - 24 = nat (8 - (n - 8 * 0))" "nat (32 - n) - 16 = nat (8 - (n - 8 * 1))"
      "nat (32 - n) - 8 = nat (8 - (n - 8 * 2))" "nat (32 - n) = nat (8 - (n - 8 * 3))"
      by auto
    have "take_bit (nat (32 - n)) (address32 os) = 0"
      unfolding os by (rule address32_zero; (subst e)?; rule maskPart_dvd)
    then show ?thesis by (simp add: IPv4 base BitLen_def)
  next
    case (IPv6 gs)
    with shape obtain a b c d e f g h where gs: "gs = [a, b, c, d, e, f, g, h]"
      by (auto simp: numeral_eq_Suc length_Suc_conv)
    let ?g = "maskPart 16 n 6 g" and ?h = "maskPart 16 n 7 h"
    have os: "os = [?g div 256, ?g mod 256, ?h div 256, ?h mod 256]"
      using o by (simp add: IPv6 gs networkIP_def To4_def split: if_splits)
    have "2 ^ nat (16 - (n - 16 * 6)) dvd ?g" "2 ^ nat (16 - (n - 16 * 7)) dvd ?h"
      by (rule maskPart_dvd)+
    moreover have "nat (128 - n) - 24 = nat (16 - (n - 16 * 6)) - 8" "nat (128 - n) - 16 = nat (16 - (n - 16 * 6))"
      "nat (128 - n) - 8 = nat (16 - (n - 16 * 7)) - 8" "nat (128 - n) = nat (16 - (n - 16 * 7))"
      by auto
    ultimately have "take_bit (nat (128 - n)) (address32 os) = 0"
      unfolding os by (intro address32_zero) (metis pow_dvd_div256 pow_dvd_mod256)+
    then show ?thesis by (simp add: IPv6 base BitLen_def)
  qed
  moreover have "2 \<le> ?k \<and> ?k < 32"
  proof -
    have "?k < 32"
    proof (rule ccontr)
      assume "\<not> ?k < 32"
      then have "(2 :: 32 word) ^ ?k = 0" by (simp add: not_less)
      with big sz show False by (simp add: push_bit_eq_mult)
    qed
    moreover have "?k \<noteq> 0" "?k \<noteq> 1" using big sz by (auto simp: word_le_nat_alt)
    ultimately show ?thesis by linarith
  qed
  ultimately show ?thesis using sz by blast
qed

lemma mesh_range:
  assumes "parseMesh meshCIDR = Inr (base, sz)"
  shows "4 \<le> uint sz" and "uint base + uint sz \<le> 2 ^ 32" and "uint (sz - 2) = uint sz - 2"
proof -
  obtain k where k: "2 \<le> k" "k < 32" "sz = push_bit k 1" "take_bit k base = 0"
    using mesh_aligned [OF assms] by blast
  have s: "uint sz = 2 ^ k"
    using k by (simp add: push_bit_eq_mult uint_2p word_gt_0)
  have "(2 :: int) ^ 2 \<le> 2 ^ k" using k(1) by (intro power_increasing) simp_all
  with s show four: "4 \<le> uint sz" by simp
  then show "uint (sz - 2) = uint sz - 2"
    by (simp add: uint_sub_if' word_le_def)
  have "uint base mod 2 ^ k = 0"
    using k(4) by (metis take_bit_eq_mod unsigned_take_bit_eq unsigned_0)
  then have "uint sz dvd uint base" by (simp add: s mod_0_imp_dvd)
  moreover have "uint sz dvd 2 ^ 32" using k(2) unfolding s by (intro le_imp_power_dvd) simp
  ultimately have "uint sz dvd 2 ^ 32 - uint base" by (rule dvd_diff [rotated])
  moreover have "0 < 2 ^ 32 - uint base" using unsigned_less [of base, where ?'a = int] by simp
  ultimately have "uint sz \<le> 2 ^ 32 - uint base" by (rule zdvd_imp_le)
  then show "uint base + uint sz \<le> 2 ^ 32" by simp
qed

text \<open>The text of an address, and the addresses a mesh can hand out.\<close>

definition addressText :: "32 word \<Rightarrow> string" where
  "addressText v = dotted (octets v) @ ''/32''"

definition hosts :: "string \<Rightarrow> 32 word set" where
  "hosts meshCIDR = {v. \<exists>base sz. parseMesh meshCIDR = Inr (base, sz) \<and> base < v \<and> v < base + sz - 1}"

lemma addressText_inj: "addressText v = addressText w \<Longrightarrow> v = w"
proof -
  assume "addressText v = addressText w"
  then have "ParseCIDR (dotted (octets v) @ ''/32'') = ParseCIDR (dotted (octets w) @ ''/32'')"
    by (simp only: addressText_def)
  then have "octets v = octets w" by (simp only: ParseCIDR_dotted is_octets_octets) simp
  then have "address32 (octets v) = address32 (octets w)" by (simp only:)
  then show "v = w" by simp
qed

lemma Contains_addressText: "Contains (addressText v) meshCIDR \<longleftrightarrow> v \<in> hosts meshCIDR"
  by (auto simp: Contains_def hosts_def addressText_def ParseCIDR_dotted BitLen_def To4_def split: sum.split prod.split)

lemma host_bounds:
  assumes "parseMesh meshCIDR = Inr (base, sz)"
  shows "v \<in> hosts meshCIDR \<longleftrightarrow> uint base < uint v \<and> uint v < uint base + uint sz - 1"
proof -
  note r = mesh_range [OF assms]
  have "uint (base + sz - 1) = uint base + uint sz - 1"
  proof -
    have "base + sz - 1 = word_of_int (uint base + uint sz - 1)" by simp
    moreover have "0 \<le> uint base + uint sz - 1" "uint base + uint sz - 1 < 2 ^ 32"
      using r by (simp_all add: unsigned_greater_eq add_nonneg_pos)
    ultimately show ?thesis using uint_word32 by metis
  qed
  then show ?thesis using assms by (simp add: hosts_def word_less_def)
qed

definition walkValue :: "string \<Rightarrow> string \<Rightarrow> int \<Rightarrow> 32 word" where
  "walkValue name meshCIDR attempt =
     (case parseMesh meshCIDR of Inl e \<Rightarrow> 0 | Inr (base, sz) \<Rightarrow> base + walkIndex name (sz - 2) attempt + 1)"

lemma IPForNameAttempt_eq:
  assumes "parseMesh meshCIDR = Inr (base, sz)" and "0 \<le> attempt"
  shows "IPForNameAttempt name meshCIDR attempt = Inr (addressText (walkValue name meshCIDR attempt))"
  using assms by (simp add: IPForNameAttempt_def walkValue_def addressText_def)

lemma walkValue_value:
  assumes "parseMesh meshCIDR = Inr (base, sz)" and "0 \<le> attempt" and "attempt < 2 ^ 63"
  shows "uint (walkValue name meshCIDR attempt)
       = uint base + (uint (fnv32a name) + uint (stepForName name (sz - 2)) * attempt) mod (uint sz - 2) + 1"
proof -
  note r = mesh_range [OF assms(1)]
  let ?i = "walkIndex name (sz - 2) attempt"
  have "2 \<le> sz - 2" using r by (simp add: word_le_def)
  from walkIndex_value [OF this assms(2,3)] r(3)
  have i: "uint ?i = (uint (fnv32a name) + uint (stepForName name (sz - 2)) * attempt) mod (uint sz - 2)" by simp
  then have "0 \<le> uint ?i" "uint ?i < uint sz - 2" using r(1) by simp_all
  then have "0 \<le> uint base + uint ?i + 1" "uint base + uint ?i + 1 < 2 ^ 32"
    using r(2) unsigned_greater_eq [of base, where ?'a = int] by linarith+
  moreover have "base + ?i + 1 = word_of_int (uint base + uint ?i + 1)" by simp
  ultimately have "uint (base + ?i + 1) = uint base + uint ?i + 1" using uint_word32 by metis
  with i assms(1) show ?thesis by (simp add: walkValue_def)
qed

lemma walk_in_hosts:
  assumes "parseMesh meshCIDR = Inr (base, sz)" and "0 \<le> attempt" and "attempt < 2 ^ 63"
  shows "walkValue name meshCIDR attempt \<in> hosts meshCIDR"
proof -
  let ?n = "uint sz - 2"
  have "0 < ?n" using mesh_range [OF assms(1)] by simp
  then show ?thesis
    unfolding host_bounds [OF assms(1)] walkValue_value [OF assms]
    using pos_mod_bound [of ?n] pos_mod_sign [of ?n] by (smt (verit))
qed

lemma walk_inj:
  assumes "parseMesh meshCIDR = Inr (base, sz)"
  shows "inj_on (walkValue name meshCIDR) {0..<uint sz - 2}"
proof (rule inj_onI)
  fix i j
  assume ij: "i \<in> {0..<uint sz - 2}" "j \<in> {0..<uint sz - 2}"
    and eq: "walkValue name meshCIDR i = walkValue name meshCIDR j"
  note r = mesh_range [OF assms]
  have "uint sz < 2 ^ 32" using unsigned_less [of sz, where ?'a = int] by simp
  then have b: "0 \<le> i" "i < 2 ^ 63" "0 \<le> j" "j < 2 ^ 63" using ij by auto
  have "2 \<le> sz - 2" using r by (simp add: word_le_def)
  then have "coprime (unat (stepForName name (sz - 2))) (unat (sz - 2))" by (rule stepForName_coprime)
  then have cop: "coprime (uint (stepForName name (sz - 2))) (uint sz - 2)"
    using r(3) by (metis coprime_int_iff uint_nat)
  have "(uint (fnv32a name) + uint (stepForName name (sz - 2)) * i) mod (uint sz - 2)
      = (uint (fnv32a name) + uint (stepForName name (sz - 2)) * j) mod (uint sz - 2)"
    using arg_cong [OF eq, of uint] walkValue_value [OF assms b(1,2)] walkValue_value [OF assms b(3,4)] by simp
  from inj_onD [OF affine_inj [OF cop] this ij] show "i = j" .
qed

lemma hosts_finite_card:
  assumes "parseMesh meshCIDR = Inr (base, sz)"
  shows "card (hosts meshCIDR) \<le> nat (uint sz - 2)" and "finite (hosts meshCIDR)"
proof -
  have "uint ` hosts meshCIDR \<subseteq> {uint base + 1..uint base + uint sz - 2}"
    by (rule image_subsetI) (simp only: host_bounds [OF assms], simp)
  then have "card (uint ` hosts meshCIDR) \<le> card {uint base + 1..uint base + uint sz - 2}"
    by (intro card_mono) auto
  moreover have "card (uint ` hosts meshCIDR) = card (hosts meshCIDR)"
    by (intro card_image inj_onI) (simp add: word_uint_eq_iff)
  ultimately show "card (hosts meshCIDR) \<le> nat (uint sz - 2)" by simp
qed simp

lemma walk_bij:
  assumes "Capacity meshCIDR = Inr n"
  shows "bij_betw (IPForNameAttempt name meshCIDR) {0..<n} ((\<lambda>v. Inr (addressText v)) ` hosts meshCIDR)"
proof -
  from assms obtain base sz where m: "parseMesh meshCIDR = Inr (base, sz)" and n: "n = uint sz - 2"
    by (auto simp: Capacity_def bind_res_Inr mesh_range(3))
  have small: "i < 2 ^ 63" if "i < n" for i
    using that n unsigned_less [of sz, where ?'a = int] by simp
  have sub: "walkValue name meshCIDR ` {0..<n} \<subseteq> hosts meshCIDR"
    using walk_in_hosts [OF m] small by auto
  have "card (hosts meshCIDR) \<le> card (walkValue name meshCIDR ` {0..<n})"
    using hosts_finite_card(1) [OF m] walk_inj [OF m, of name] n by (simp add: card_image)
  with sub hosts_finite_card(2) [OF m] have "walkValue name meshCIDR ` {0..<n} = hosts meshCIDR"
    by (intro card_seteq) auto
  then have "bij_betw (walkValue name meshCIDR) {0..<n} (hosts meshCIDR)"
    using walk_inj [OF m, of name] n by (simp add: bij_betw_def)
  moreover have "bij_betw (\<lambda>v. Inr (addressText v)) (hosts meshCIDR) ((\<lambda>v. Inr (addressText v)) ` hosts meshCIDR)"
    by (intro inj_on_imp_bij_betw inj_onI) (auto dest: addressText_inj)
  ultimately have "bij_betw ((\<lambda>v. Inr (addressText v)) \<circ> walkValue name meshCIDR) {0..<n}
      ((\<lambda>v. Inr (addressText v)) ` hosts meshCIDR)"
    by (rule bij_betw_trans)
  then show ?thesis
    by (rule bij_betw_cong [THEN iffD1, rotated]) (simp add: IPForNameAttempt_eq [OF m])
qed

text \<open>
  C37. The walk is a permutation: for every name, the first \<open>Capacity\<close> attempts are distinct and
  their addresses are exactly the assignable addresses of the mesh CIDR, each as a \<open>/32\<close>, so a
  caller that probes them in order finds a free address whenever there is one.
\<close>

theorem walk_permutation:
  assumes "Capacity meshCIDR = Inr n"
  shows "bij_betw (IPForNameAttempt name meshCIDR) {0..<n} ((\<lambda>v. Inr (addressText v)) ` hosts meshCIDR)"
  using assms by (rule walk_bij)

theorem walk_permutation_witness:
  "bij_betw (IPForNameAttempt ''worker1'' ''100.64.0.0/10'') {0..<4194302}
     ((\<lambda>v. Inr (addressText v)) ` hosts ''100.64.0.0/10'')"
proof -
  have "Capacity ''100.64.0.0/10'' = Inr 4194302" by code_simp
  then show ?thesis by (rule walk_permutation)
qed

lemma attempt_host:
  assumes "Capacity meshCIDR = Inr n" and "0 \<le> attempt" and "attempt < 2 ^ 63"
  shows "\<exists>v \<in> hosts meshCIDR.
      IPForNameAttempt name meshCIDR attempt = Inr (addressText v)
    \<and> Contains (addressText v) meshCIDR
    \<and> AddressForNameAttempt name meshCIDR attempt = Inr (dotted (octets v))
    \<and> IPForNameAttempt name meshCIDR (attempt mod n) = Inr (addressText v)"
proof -
  from assms obtain base sz where m: "parseMesh meshCIDR = Inr (base, sz)" and n: "n = uint sz - 2"
    by (auto simp: Capacity_def bind_res_Inr mesh_range(3))
  have "0 < n" using n mesh_range(1) [OF m] by simp
  then have k: "0 \<le> attempt mod n" "attempt mod n < 2 ^ 63"
    using assms(2,3) zmod_le_nonneg_dividend [of attempt n] by auto
  let ?v = "walkValue name meshCIDR attempt"
  have v: "?v \<in> hosts meshCIDR" by (rule walk_in_hosts [OF m assms(2,3)])
  have ip: "IPForNameAttempt name meshCIDR attempt = Inr (addressText ?v)"
    by (rule IPForNameAttempt_eq [OF m assms(2)])
  have "uint (walkValue name meshCIDR (attempt mod n)) = uint ?v"
    unfolding walkValue_value [OF m assms(2,3)] walkValue_value [OF m k] unfolding n by (simp only: affine_period)
  then have "walkValue name meshCIDR (attempt mod n) = ?v" by (simp add: word_uint_eq_iff)
  then have "IPForNameAttempt name meshCIDR (attempt mod n) = Inr (addressText ?v)"
    using IPForNameAttempt_eq [OF m k(1)] by simp
  moreover have "AddressForNameAttempt name meshCIDR attempt = Inr (dotted (octets ?v))"
    using ip by (simp add: AddressForNameAttempt_def addressText_def ParseCIDR_dotted)
  ultimately show ?thesis
    using v ip Contains_addressText by blast
qed

text \<open>
  Every attempt yields a usable address: for every name and every non-negative attempt the
  derivation succeeds with an address that \<open>Contains\<close> accepts, never the network or the
  broadcast address and never past the end of the range; the bare form is the same address, and the
  walk repeats after \<open>Capacity\<close> attempts.
\<close>

theorem attempt_assignable:
  assumes "Capacity meshCIDR = Inr n" and "0 \<le> attempt" and "attempt < 2 ^ 63"
  shows "\<exists>v \<in> hosts meshCIDR.
      IPForNameAttempt name meshCIDR attempt = Inr (addressText v)
    \<and> Contains (addressText v) meshCIDR
    \<and> AddressForNameAttempt name meshCIDR attempt = Inr (dotted (octets v))
    \<and> IPForNameAttempt name meshCIDR (attempt mod n) = Inr (addressText v)"
  using assms by (rule attempt_host)

theorem attempt_assignable_witness:
  "\<exists>a. IPForNameAttempt ''node-a'' ''100.64.0.0/10'' 254 = Inr a \<and> Contains a ''100.64.0.0/10''"
proof -
  have "Capacity ''100.64.0.0/10'' = Inr 4194302" by code_simp
  from attempt_assignable [OF this, of 254 "''node-a''"] show ?thesis by fastforce
qed

end
