(* ===== verification/Mesh_Claim.thy ===== *)
theory Mesh_Claim
  imports Mesh_IP Kube_API
begin

section \<open>Claims on mesh addresses\<close>

text \<open>
  \<open>internal/meshclaim\<close>: the allocator that claims a mesh address for a holder by creating a
  Lease whose name stands for the address, so that the API server arbitrates between claimants. The
  interface \<open>Store\<close> is the request type; its two implementations translate the requests to
  calls of a typed and of a dynamic client. Shown: a claim is returned only for an assignable address
  whose Lease the server attributed to the holder, only Leases of the holder are deleted, exhaustion
  is reported only after every address was found taken, claimants that run concurrently never end
  with the same address, Lease names and label values are well formed, and both stores behave alike.
\<close>

subsection \<open>Leases and the store\<close>

record ClaimLease = Lease +
  cl_HolderIdentity :: "string option"
  cl_LeaseDurationSeconds :: "int32 option"

datatype storereq =
    SGet string
  | SCreate ClaimLease
  | SDelete string UID
  | SList string

datatype storeresp =
    LeaseA "ClaimLease res"
  | UnitA "unit res"
  | LeasesA "ClaimLease list res"

type_synonym 'a store = "(storereq, storeresp, 'a) prog"

definition sGet :: "string \<Rightarrow> ClaimLease res store" where
  "sGet name = Req (SGet name) (\<lambda>r. Ret (case r of LeaseA x \<Rightarrow> x | _ \<Rightarrow> unexpected))"
definition sCreate :: "ClaimLease \<Rightarrow> ClaimLease res store" where
  "sCreate lease = Req (SCreate lease) (\<lambda>r. Ret (case r of LeaseA x \<Rightarrow> x | _ \<Rightarrow> unexpected))"
definition sDelete :: "string \<Rightarrow> UID \<Rightarrow> unit res store" where
  "sDelete name uid = Req (SDelete name uid) (\<lambda>r. Ret (case r of UnitA x \<Rightarrow> x | _ \<Rightarrow> unexpected))"
definition sList :: "string \<Rightarrow> ClaimLease list res store" where
  "sList selector = Req (SList selector) (\<lambda>r. Ret (case r of LeasesA x \<Rightarrow> x | _ \<Rightarrow> unexpected))"

lemmas store_call_defs [prog_simps] = sGet_def sCreate_def sDelete_def sList_def

abbreviation "leaseName l \<equiv> om_Name (le_Meta l)"
abbreviation "leaseUID l \<equiv> om_UID (le_Meta l)"

subsection \<open>Names and labels\<close>

abbreviation "DefaultNamespace \<equiv> ''wirekube-system''"
abbreviation "meshLabel \<equiv> ''wirekube.io/mesh''"
abbreviation "peerLabel \<equiv> ''wirekube.io/peer-name''"
abbreviation "claimLabel \<equiv> ''wirekube.io/claim''"
abbreviation "claimValue \<equiv> ''address''"
abbreviation "addressAnnotation \<equiv> ''wirekube.io/address''"
abbreviation "attemptAnnotation \<equiv> ''wirekube.io/attempt''"
abbreviation "probeLimit \<equiv> (32 :: int)"
abbreviation "ErrExhausted \<equiv> Sentinel ''every address in the WireKube mesh CIDR is already claimed''"
abbreviation "ErrInUse \<equiv> Sentinel ''the mesh address is already claimed''"

abbreviation "leaseAddress l \<equiv> gomap_get (om_Annotations (le_Meta l)) addressAnnotation"

definition HolderForPeer :: "string \<Rightarrow> string" where
  "HolderForPeer name = ''wirekubepeer/'' @ name"

definition HolderForExternalPeer :: "string \<Rightarrow> string" where
  "HolderForExternalPeer name = ''wirekubeexternalpeer/'' @ name"

definition ClaimName :: "string \<Rightarrow> string \<Rightarrow> string" where
  "ClaimName mesh address =
     ''wirekube-'' @ mesh @ ''-'' @ map (\<lambda>c. if c = CHR ''.'' then CHR ''-'' else c) (TrimSuffix address ''/32'')"

definition label_char :: "char \<Rightarrow> bool" where
  "label_char c \<longleftrightarrow> is_lower c \<or> is_upper c \<or> is_digit c \<or> c = CHR ''-'' \<or> c = CHR ''_'' \<or> c = CHR ''.''"

text \<open>The loop over the runes of a name: a rune that is no label character becomes a hyphen.\<close>

function labelRunes :: "nat \<Rightarrow> string \<Rightarrow> string" where
  "labelRunes n s =
     (if n = 0 \<or> s = [] then []
      else (if label_char (hd s) then hd s else CHR ''-'') # labelRunes (n - 1) (drop (rune_len s) s))"
  by pat_completeness auto
termination
  by (relation "measure fst") auto

declare labelRunes.simps [simp del]

definition trimBoth :: "(char \<Rightarrow> bool) \<Rightarrow> string \<Rightarrow> string" where
  "trimBoth P s = rev (dropWhile P (rev (dropWhile P s)))"

definition labelSafe :: "string \<Rightarrow> string" where
  "labelSafe name = trimBoth (\<lambda>c. c \<in> {CHR ''-'', CHR ''_'', CHR ''.''}) (labelRunes 63 name)"

definition holderOf :: "ClaimLease \<Rightarrow> string" where
  "holderOf lease = (case cl_HolderIdentity lease of None \<Rightarrow> [] | Some h \<Rightarrow> h)"

definition attemptOf :: "ClaimLease \<Rightarrow> int" where
  "attemptOf lease =
     (case ParseInt (gomap_get (om_Annotations (le_Meta lease)) attemptAnnotation) of None \<Rightarrow> - 1 | Some n \<Rightarrow> n)"

definition betterClaim :: "string \<Rightarrow> ClaimLease \<Rightarrow> ClaimLease \<Rightarrow> bool" where
  "betterClaim preferred candidate incumbent =
     (let a = (leaseAddress candidate = preferred); b = (leaseAddress incumbent = preferred)
      in if preferred \<noteq> [] \<and> a \<noteq> b then a
         else if attemptOf candidate \<noteq> attemptOf incumbent then attemptOf candidate < attemptOf incumbent
         else leaseAddress candidate < leaseAddress incumbent)"

subsection \<open>The allocator\<close>

record Allocator =
  al_Store :: "string option" \<comment> \<open>the namespace of the store; \<open>None\<close> is a nil store\<close>
  al_MeshName :: string
  al_MeshCIDR :: string
  al_Grace :: Duration

record ClaimRequest =
  rq_Holder :: string
  rq_Name :: string
  rq_Preferred :: string

record ClaimResult =
  cr_Address :: string
  cr_ClaimName :: string
  cr_ClaimUID :: UID
  cr_Attempt :: int
  cr_Adopted :: bool
  cr_Moved :: bool

definition hashName :: "ClaimRequest \<Rightarrow> string" where
  "hashName r = (if rq_Name r \<noteq> [] then rq_Name r else rq_Holder r)"

definition storeNamespace :: "Allocator \<Rightarrow> string" where
  "storeNamespace a = (case al_Store a of None \<Rightarrow> [] | Some ns \<Rightarrow> ns)"

definition validateAllocator :: "Allocator \<Rightarrow> unit res" where
  "validateAllocator a =
     (if al_Store a = None then Inl (ErrorString ''no Lease store configured for mesh address claims'')
      else if al_MeshName a = [] then Inl (ErrorString ''no WireKubeMesh name configured for mesh address claims'')
      else if al_MeshCIDR a = []
      then Inl (ErrorString ''the WireKubeMesh does not publish spec.meshCIDR, so the worker node address cannot be derived'')
      else Inr ())"

text \<open>
  The seconds of the grace period go through a float64 in the source, which is exact for the
  truncation up to 48 days.
\<close>

definition leaseFor :: "Allocator \<Rightarrow> string \<Rightarrow> string \<Rightarrow> int \<Rightarrow> ClaimLease" where
  "leaseFor a peerName address attempt =
     \<lparr>le_Meta = zero_ObjectMeta\<lparr>om_Name := ClaimName (al_MeshName a) address,
        om_Namespace := storeNamespace a,
        om_Labels := [(claimLabel, claimValue), (meshLabel, al_MeshName a), (peerLabel, labelSafe peerName)],
        om_Annotations := [(addressAnnotation, address),
          (attemptAnnotation, if attempt < 0 then ''preferred'' else FormatInt attempt)]\<rparr>,
      cl_HolderIdentity = Some peerName,
      cl_LeaseDurationSeconds = (if al_Grace a > 0 then Some (al_Grace a div second) else None)\<rparr>"

definition exhausted :: "Allocator \<Rightarrow> int \<Rightarrow> go_error" where
  "exhausted a capacity =
     WrapError [] ErrExhausted ('': '' @ al_MeshCIDR a @ '' holds '' @ FormatInt capacity
       @ '' addresses and all of them are taken; widen the WireKubeMesh spec.meshCIDR'')"

text \<open>The second result of \<open>claim\<close> is false exactly when the first is zero: an option.\<close>

definition claim :: "Allocator \<Rightarrow> string \<Rightarrow> string \<Rightarrow> int \<Rightarrow> ClaimResult option res store" where
  "claim a peerName address attempt =
     bindP (sCreate (leaseFor a peerName address attempt)) (\<lambda>x. case x of
       Inr created \<Rightarrow> Ret (Inr (Some \<lparr>cr_Address = address, cr_ClaimName = leaseName created,
          cr_ClaimUID = leaseUID created, cr_Attempt = attempt, cr_Adopted = False, cr_Moved = False\<rparr>))
     | Inl e \<Rightarrow>
         if \<not> IsAlreadyExists e
         then Ret (Inl (WrapError (''claim the mesh address '' @ address @ '' for '' @ fmt_q peerName @ '': '') e []))
         else bindP (sGet (ClaimName (al_MeshName a) address)) (\<lambda>y. case y of
           Inl e' \<Rightarrow>
             if IsNotFound e' then Ret (Inr None)
             else Ret (Inl (WrapError (''read the claim on the mesh address '' @ address @ '': '') e' []))
         | Inr existing \<Rightarrow>
             if holderOf existing \<noteq> peerName then Ret (Inr None)
             else Ret (Inr (Some \<lparr>cr_Address = address, cr_ClaimName = leaseName existing,
               cr_ClaimUID = leaseUID existing, cr_Attempt = attempt, cr_Adopted = True, cr_Moved = False\<rparr>))))"

definition listClaims :: "Allocator \<Rightarrow> string \<Rightarrow> ClaimLease list res store" where
  "listClaims a extra =
     (let selector = claimLabel @ ''='' @ claimValue @ '','' @ meshLabel @ ''='' @ al_MeshName a
      in wrapE (''list WireKube mesh address claims in '' @ storeNamespace a @ '': '')
           (sList (if extra \<noteq> [] then selector @ '','' @ extra else selector)))"

definition deleteClaim :: "ClaimLease \<Rightarrow> unit res store" where
  "deleteClaim c =
     bindP (sDelete (leaseName c) (leaseUID c)) (\<lambda>x. Ret (case x of
       Inl e \<Rightarrow> if \<not> IsNotFound e \<and> \<not> IsConflict e
                then Inl (WrapError (''release the claim on the mesh address '' @ leaseAddress c @ '': '') e [])
                else Inr ()
     | Inr _ \<Rightarrow> Inr ()))"

primrec deleteClaims :: "ClaimLease list \<Rightarrow> unit res store" where
  "deleteClaims [] = Ret (Inr ())"
| "deleteClaims (c # cs) = bindE (deleteClaim c) (\<lambda>_. deleteClaims cs)"

text \<open>The label is lossy, so the holder decides; what the mesh CIDR does not cover is a leftover.\<close>

definition ownClaims :: "ClaimRequest \<Rightarrow> ClaimLease list \<Rightarrow> ClaimLease list" where
  "ownClaims request claims = filter (\<lambda>c. holderOf c = rq_Holder request \<and> leaseAddress c \<noteq> []) claims"

definition mineClaims :: "Allocator \<Rightarrow> ClaimRequest \<Rightarrow> ClaimLease list \<Rightarrow> ClaimLease list" where
  "mineClaims a request claims =
     sort_Slice (betterClaim (rq_Preferred request))
       (filter (\<lambda>c. Contains (leaseAddress c) (al_MeshCIDR a)) (ownClaims request claims))"

definition staleClaims :: "Allocator \<Rightarrow> ClaimRequest \<Rightarrow> ClaimLease list \<Rightarrow> ClaimLease list" where
  "staleClaims a request claims =
     filter (\<lambda>c. \<not> Contains (leaseAddress c) (al_MeshCIDR a)) (ownClaims request claims)"

definition keepFirst :: "ClaimLease list \<Rightarrow> ClaimResult option" where
  "keepFirst mine = (case mine of
       [] \<Rightarrow> None
     | k # rest \<Rightarrow> Some \<lparr>cr_Address = leaseAddress k, cr_ClaimName = leaseName k, cr_ClaimUID = leaseUID k,
         cr_Attempt = attemptOf k, cr_Adopted = True, cr_Moved = False\<rparr>)"

definition releaseExtra :: "Allocator \<Rightarrow> ClaimRequest \<Rightarrow> ClaimLease list \<Rightarrow> ClaimResult option res store" where
  "releaseExtra a request claims =
     bindE (deleteClaims (staleClaims a request claims)) (\<lambda>_.
     bindE (deleteClaims (tl (mineClaims a request claims))) (\<lambda>_.
     Ret (Inr (keepFirst (mineClaims a request claims)))))"

definition heldClaim :: "Allocator \<Rightarrow> ClaimRequest \<Rightarrow> ClaimResult option res store" where
  "heldClaim a request =
     bindE (listClaims a (peerLabel @ ''='' @ labelSafe (rq_Holder request))) (releaseExtra a request)"

text \<open>The two loops over attempts, on the list of the attempts that are left.\<close>

primrec probe :: "Allocator \<Rightarrow> ClaimRequest \<Rightarrow> int list \<Rightarrow> ClaimResult option res store" where
  "probe a request [] = Ret (Inr None)"
| "probe a request (attempt # rest) =
     bindE (liftE (IPForNameAttempt (hashName request) (al_MeshCIDR a) attempt)) (\<lambda>address.
     bindE (claim a (rq_Holder request) address attempt) (\<lambda>r. case r of
       Some res \<Rightarrow> Ret (Inr (Some (res\<lparr>cr_Moved := attempt \<noteq> 0\<rparr>)))
     | None \<Rightarrow> probe a request rest))"

primrec probeFree :: "Allocator \<Rightarrow> ClaimRequest \<Rightarrow> string list \<Rightarrow> int list \<Rightarrow> ClaimResult option res store" where
  "probeFree a request taken [] = Ret (Inr None)"
| "probeFree a request taken (attempt # rest) =
     bindE (liftE (IPForNameAttempt (hashName request) (al_MeshCIDR a) attempt)) (\<lambda>address.
       if address \<in> set taken then probeFree a request taken rest
       else bindE (claim a (rq_Holder request) address attempt) (\<lambda>r. case r of
         Some res \<Rightarrow> Ret (Inr (Some (res\<lparr>cr_Moved := attempt \<noteq> 0\<rparr>)))
       | None \<Rightarrow> probeFree a request (address # taken) rest))"

definition orExhausted :: "Allocator \<Rightarrow> int \<Rightarrow> ClaimResult option \<Rightarrow> ClaimResult res store" where
  "orExhausted a capacity r = Ret (case r of Some res \<Rightarrow> Inr res | None \<Rightarrow> Inl (exhausted a capacity))"

definition allocateFromFreeList :: "Allocator \<Rightarrow> ClaimRequest \<Rightarrow> int \<Rightarrow> ClaimResult res store" where
  "allocateFromFreeList a request capacity =
     bindE (listClaims a []) (\<lambda>claims.
     bindE (probeFree a request (filter (\<lambda>x. x \<noteq> []) (map (\<lambda>c. leaseAddress c) claims)) [0..capacity - 1])
       (orExhausted a capacity))"

definition claimPreferred :: "Allocator \<Rightarrow> ClaimRequest \<Rightarrow> ClaimResult option res store" where
  "claimPreferred a request =
     (if rq_Preferred request \<noteq> [] \<and> Contains (rq_Preferred request) (al_MeshCIDR a)
      then claim a (rq_Holder request) (rq_Preferred request) (- 1)
      else Ret (Inr None))"

definition allocateProbing :: "Allocator \<Rightarrow> ClaimRequest \<Rightarrow> int \<Rightarrow> ClaimResult res store" where
  "allocateProbing a request capacity =
     (let probed = min probeLimit capacity
      in bindE (probe a request [0..probed - 1]) (\<lambda>r. case r of
           Some res \<Rightarrow> Ret (Inr res)
         | None \<Rightarrow>
            if probed = capacity then Ret (Inl (exhausted a capacity))
            else allocateFromFreeList a request capacity))"

definition Allocator_Allocate :: "Allocator \<Rightarrow> ClaimRequest \<Rightarrow> ClaimResult res store" where
  "Allocator_Allocate a request =
     bindE (liftE (validateAllocator a)) (\<lambda>_.
     if rq_Holder request = [] then Ret (Inl (ErrorString ''a mesh address claim needs a holder''))
     else
     bindE (liftE (Capacity (al_MeshCIDR a))) (\<lambda>capacity.
     bindE (liftE (IPForName (hashName request) (al_MeshCIDR a))) (\<lambda>hashed.
     bindE (heldClaim a request) (\<lambda>h. case h of
       Some held \<Rightarrow> Ret (Inr (held\<lparr>cr_Moved := cr_Address held \<noteq> hashed\<rparr>))
     | None \<Rightarrow>
        bindE (claimPreferred a request) (\<lambda>p. case p of
          Some res \<Rightarrow> Ret (Inr (res\<lparr>cr_Moved := cr_Address res \<noteq> hashed\<rparr>))
        | None \<Rightarrow> allocateProbing a request capacity)))))"

definition Reserve :: "Allocator \<Rightarrow> string \<Rightarrow> string \<Rightarrow> ClaimResult res store" where
  "Reserve a holder address =
     bindE (liftE (validateAllocator a)) (\<lambda>_.
     if holder = [] then Ret (Inl (ErrorString ''a mesh address claim needs a holder''))
     else if \<not> Contains address (al_MeshCIDR a)
     then Ret (Inl (ErrorString (''the mesh address '' @ address @ '' is not one '' @ al_MeshCIDR a @ '' can hand out'')))
     else bindE (claim a holder address (- 1)) (\<lambda>r. Ret (case r of
       Some res \<Rightarrow> Inr res
     | None \<Rightarrow> Inl (WrapError [] ErrInUse ('': '' @ address)))))"

definition Release :: "Allocator \<Rightarrow> string \<Rightarrow> unit res store" where
  "Release a holder =
     bindE (liftE (validateAllocator a)) (\<lambda>_.
     bindE (listClaims a (peerLabel @ ''='' @ labelSafe holder)) (\<lambda>claims.
       deleteClaims (filter (\<lambda>c. holderOf c = holder) claims)))"

definition IsAgentDaemonSet :: "string \<Rightarrow> string gomap \<Rightarrow> bool" where
  "IsAgentDaemonSet name labels \<longleftrightarrow>
     name = ''wirekube-agent''
   \<or> gomap_get labels ''app.kubernetes.io/component'' = ''agent''
     \<and> (HasPrefix (gomap_get labels ''app.kubernetes.io/part-of'') ''wirekube''
       \<or> HasPrefix (gomap_get labels ''app.kubernetes.io/name'') ''wirekube'')"

subsection \<open>What a trace of the allocator shows\<close>

text \<open>
  The requests a client of holder \<open>holder\<close> may make after the history \<open>h\<close>: it creates only
  its own Lease for an assignable address, and deletes only a Lease that a list attributed to it, with
  the UID of that list.
\<close>

definition claimGuard :: "Allocator \<Rightarrow> string \<Rightarrow> (storereq \<times> storeresp) list \<Rightarrow> storereq \<Rightarrow> bool" where
  "claimGuard a holder h q = (case q of
       SCreate l \<Rightarrow> \<exists>address k. l = leaseFor a holder address k \<and> Contains address (al_MeshCIDR a)
     | SDelete n u \<Rightarrow> \<exists>s ls l. (SList s, LeasesA (Inr ls)) \<in> set h \<and> l \<in> set ls \<and> holderOf l = holder
         \<and> leaseName l = n \<and> leaseUID l = u
     | _ \<Rightarrow> True)"

text \<open>Answers that attribute an address to the holder, and a history after which it still holds it.\<close>

definition attributes :: "Allocator \<Rightarrow> string \<Rightarrow> string \<Rightarrow> storereq \<times> storeresp \<Rightarrow> bool" where
  "attributes a holder address qr = (case qr of
       (SCreate l, LeaseA (Inr l')) \<Rightarrow> \<exists>k. l = leaseFor a holder address k
     | (SGet n, LeaseA (Inr l)) \<Rightarrow> n = ClaimName (al_MeshName a) address \<and> holderOf l = holder
     | (SList s, LeasesA (Inr ls)) \<Rightarrow> \<exists>l \<in> set ls. holderOf l = holder \<and> leaseAddress l = address
     | _ \<Rightarrow> False)"

definition owned :: "Allocator \<Rightarrow> string \<Rightarrow> (storereq \<times> storeresp) list \<Rightarrow> string \<Rightarrow> bool" where
  "owned a holder h address \<longleftrightarrow> (\<exists>h1 qr h2. h = h1 @ qr # h2 \<and> attributes a holder address qr
     \<and> (\<forall>u r. (SDelete (ClaimName (al_MeshName a) address) u, r) \<notin> set h2))"

text \<open>Lists in which a name occurs once and names the address it is annotated with.\<close>

definition orderly :: "Allocator \<Rightarrow> (storereq \<times> storeresp) list \<Rightarrow> bool" where
  "orderly a h \<longleftrightarrow> (\<forall>s ls. (SList s, LeasesA (Inr ls)) \<in> set h \<longrightarrow> distinct (map (\<lambda>l. leaseName l) ls)
     \<and> (\<forall>l \<in> set ls. leaseName l = ClaimName (al_MeshName a) (leaseAddress l)))"

definition taken :: "Allocator \<Rightarrow> (storereq \<times> storeresp) list \<Rightarrow> string \<Rightarrow> bool" where
  "taken a h address \<longleftrightarrow>
     (\<exists>l e. (SCreate l, LeaseA (Inl e)) \<in> set h \<and> leaseName l = ClaimName (al_MeshName a) address \<and> IsAlreadyExists e)
   \<or> (\<exists>s ls l. (SList s, LeasesA (Inr ls)) \<in> set h \<and> l \<in> set ls \<and> leaseAddress l = address)"

definition ownsResult :: "Allocator \<Rightarrow> string \<Rightarrow> (storereq \<times> storeresp) list \<Rightarrow> ClaimResult \<Rightarrow> bool" where
  "ownsResult a holder h r \<longleftrightarrow> Contains (cr_Address r) (al_MeshCIDR a)
     \<and> (orderly a h \<longrightarrow> owned a holder h (cr_Address r))"

lemma ownsResult_Moved [simp]: "ownsResult a holder h (r\<lparr>cr_Moved := b\<rparr>) = ownsResult a holder h r"
  by (simp add: ownsResult_def)

lemma sentinel_tests [simp]:
  "\<not> IsNotFound (Sentinel s)" "\<not> IsAlreadyExists (Sentinel s)" "\<not> IsConflict (Sentinel s)"
  by (simp_all add: IsNotFound_def IsAlreadyExists_def IsConflict_def ReasonForError_def)

lemma taken_mono: "taken a h address \<Longrightarrow> set h \<subseteq> set h' \<Longrightarrow> taken a h' address"
  unfolding taken_def by blast

lemma taken_append: "taken a h address \<Longrightarrow> taken a (h @ u) address"
  by (rule taken_mono) auto

lemma leaseFor_simps [simp]:
  "leaseName (leaseFor a holder address k) = ClaimName (al_MeshName a) address"
  "holderOf (leaseFor a holder address k) = holder"
  "leaseAddress (leaseFor a holder address k) = address"
  by (simp_all add: leaseFor_def holderOf_def gomap_get.simps)

lemma taken_self:
  "IsAlreadyExists e \<Longrightarrow> taken a (h @ (SCreate (leaseFor a holder address k), LeaseA (Inl e)) # u) address"
  unfolding taken_def by (intro disjI1 exI [of _ "leaseFor a holder address k"] exI [of _ e]) simp

lemma owned_last: "attributes a holder address qr \<Longrightarrow> owned a holder (h @ [qr]) address"
  unfolding owned_def by (intro exI [of _ h] exI [of _ qr] exI [of _ "[]"]) simp

lemma safe_ext: "safe G Q p h \<Longrightarrow> safe G (\<lambda>h' x. Q h' x \<and> (\<exists>u. h' = h @ u)) p h"
proof (induction p arbitrary: h)
  case (Req q k)
  have "safe G (\<lambda>h' x. Q h' x \<and> (\<exists>u. h' = h @ u)) (k r) (h @ [(q, r)])" for r
    by (rule safe_mono [OF Req.IH]) (use Req.prems in auto)
  with Req.prems show ?case by simp
qed simp

lemma owned_last2: "attributes a holder address qr \<Longrightarrow> owned a holder (h @ [x, qr]) address"
  using owned_last [of a holder address qr "h @ [x]"] by simp

definition claimPost :: "Allocator \<Rightarrow> string \<Rightarrow> string \<Rightarrow> (storereq \<times> storeresp) list \<Rightarrow> ClaimResult option res \<Rightarrow> bool" where
  "claimPost a holder address h x = (case x of
       Inl e \<Rightarrow> \<forall>n. e \<noteq> exhausted a n
     | Inr None \<Rightarrow> taken a h address
     | Inr (Some r) \<Rightarrow> cr_Address r = address \<and> ownsResult a holder h r)"

lemma claim_safe:
  assumes "Contains address (al_MeshCIDR a)"
  shows "safe (claimGuard a holder) (claimPost a holder address) (claim a holder address k) h"
  unfolding claim_def sCreate_def sGet_def
  using assms
  by (auto simp: claimGuard_def claimPost_def ownsResult_def exhausted_def attributes_def taken_self
      split: storeresp.split sum.split intro!: owned_last owned_last2)

definition probePost :: "Allocator \<Rightarrow> ClaimRequest \<Rightarrow> int list \<Rightarrow> (storereq \<times> storeresp) list \<Rightarrow> ClaimResult option res \<Rightarrow> bool" where
  "probePost a request ks h x = (case x of
       Inl e \<Rightarrow> \<forall>n. e \<noteq> exhausted a n
     | Inr None \<Rightarrow> \<forall>k \<in> set ks. \<exists>address. IPForNameAttempt (hashName request) (al_MeshCIDR a) k = Inr address \<and> taken a h address
     | Inr (Some r) \<Rightarrow> ownsResult a (rq_Holder request) h r)"

lemma probe_safe:
  assumes "Capacity (al_MeshCIDR a) = Inr n" and "\<forall>k \<in> set ks. 0 \<le> k \<and> k < 2 ^ 63"
  shows "safe (claimGuard a (rq_Holder request)) (probePost a request ks) (probe a request ks) h"
  using assms(2)
proof (induction ks arbitrary: h)
  case Nil
  show ?case by (simp add: probePost_def)
next
  case (Cons k ks)
  obtain v where v: "IPForNameAttempt (hashName request) (al_MeshCIDR a) k = Inr (addressText v)"
      "Contains (addressText v) (al_MeshCIDR a)"
    using attempt_host [OF assms(1), of k "hashName request"] Cons.prems by auto
  have step: "safe (claimGuard a (rq_Holder request)) (probePost a request (k # ks)) (probe a request ks) h'"
    if "taken a h' (addressText v)" for h'
    by (rule safe_mono [OF safe_ext [OF Cons.IH]])
      (use Cons.prems that v in \<open>auto simp: probePost_def taken_append split: sum.splits option.splits\<close>)
  show ?case
    by (simp add: v safe_bindE [of _ _ "claim a' b c d" for a' b c d])
      (rule safe_mono [OF claim_safe [OF v(2)]],
        auto simp: claimPost_def step split: sum.splits option.splits, auto simp: probePost_def)
qed

definition listedOwn :: "string \<Rightarrow> (storereq \<times> storeresp) list \<Rightarrow> ClaimLease \<Rightarrow> bool" where
  "listedOwn holder h c \<longleftrightarrow> holderOf c = holder \<and> (\<exists>s ls. (SList s, LeasesA (Inr ls)) \<in> set h \<and> c \<in> set ls)"

lemma listedOwn_append: "listedOwn holder h c \<Longrightarrow> listedOwn holder (h @ u) c"
  by (auto simp: listedOwn_def)

definition deletesOf :: "ClaimLease list \<Rightarrow> (storereq \<times> storeresp) list \<Rightarrow> bool" where
  "deletesOf cs u \<longleftrightarrow> (\<forall>(q, r) \<in> set u. \<exists>c \<in> set cs. q = SDelete (leaseName c) (leaseUID c))"

definition deletePost :: "Allocator \<Rightarrow> ClaimLease list \<Rightarrow> (storereq \<times> storeresp) list \<Rightarrow> (storereq \<times> storeresp) list \<Rightarrow> unit res \<Rightarrow> bool" where
  "deletePost a cs h h' x \<longleftrightarrow> (\<exists>u. h' = h @ u \<and> deletesOf cs u) \<and> (\<forall>e n. x = Inl e \<longrightarrow> e \<noteq> exhausted a n)"

lemma deleteClaims_safe:
  assumes "\<forall>c \<in> set cs. listedOwn holder h c"
  shows "safe (claimGuard a holder) (deletePost a cs h) (deleteClaims cs) h"
  using assms
proof (induction cs arbitrary: h)
  case Nil
  show ?case by (simp add: deletePost_def deletesOf_def)
next
  case (Cons c cs)
  have g: "claimGuard a holder h (SDelete (leaseName c) (leaseUID c))"
    using Cons.prems by (auto simp: claimGuard_def listedOwn_def)
  have rest: "safe (claimGuard a holder) (deletePost a (c # cs) h) (deleteClaims cs) (h @ [(SDelete (leaseName c) (leaseUID c), r)])" for r
  proof (rule safe_mono [OF Cons.IH])
    show "\<forall>d \<in> set cs. listedOwn holder (h @ [(SDelete (leaseName c) (leaseUID c), r)]) d"
      using Cons.prems by (simp add: listedOwn_append)
  next
    fix h' x
    assume "deletePost a cs (h @ [(SDelete (leaseName c) (leaseUID c), r)]) h' x"
    then show "deletePost a (c # cs) h h' x"
      by (auto simp: deletePost_def deletesOf_def)
  qed
  show ?case
    using g rest
    by (simp add: deleteClaim_def sDelete_def safe_bindE safe_bindP)
      (auto simp: deletePost_def deletesOf_def exhausted_def split: storeresp.split sum.split)
qed

definition heldPost :: "Allocator \<Rightarrow> string \<Rightarrow> (storereq \<times> storeresp) list \<Rightarrow> ClaimResult option res \<Rightarrow> bool" where
  "heldPost a holder h x = (case x of
       Inl e \<Rightarrow> \<forall>n. e \<noteq> exhausted a n
     | Inr None \<Rightarrow> True
     | Inr (Some r) \<Rightarrow> ownsResult a holder h r)"

lemma held_owned:
  assumes "k \<in> set ls" and "holderOf k = holder" and "distinct (map (\<lambda>l. leaseName l) (k # cs))"
    and "deletesOf cs u" and "leaseName k = ClaimName (al_MeshName a) (leaseAddress k)"
  shows "owned a holder ((h @ [(SList s, LeasesA (Inr ls))]) @ u) (leaseAddress k)"
proof -
  have "attributes a holder (leaseAddress k) (SList s, LeasesA (Inr ls))"
    using assms(1,2) by (auto simp: attributes_def)
  moreover have "(SDelete (ClaimName (al_MeshName a) (leaseAddress k)) uid, r) \<notin> set u" for uid r
    using assms(3,4,5) by (force simp: deletesOf_def)
  ultimately show ?thesis
    unfolding owned_def by (intro exI [of _ h] exI [of _ "(SList s, LeasesA (Inr ls))"] exI [of _ u]) simp
qed

lemma distinct_map_partition:
  "distinct (map f xs) \<Longrightarrow> distinct (map f (filter P xs)) \<and> distinct (map f (filter (\<lambda>x. \<not> P x) xs))
     \<and> f ` set (filter P xs) \<inter> f ` set (filter (\<lambda>x. \<not> P x) xs) = {}"
  by (induction xs) auto

lemma held_distinct:
  assumes "distinct (map f xs)" and "sort_Slice lt (filter P xs) = k # rest"
  shows "distinct (map f (k # filter (\<lambda>x. \<not> P x) xs @ rest))"
proof -
  note p = distinct_map_partition [OF assms(1), of P]
  have d: "distinct (map f (k # rest))" using p distinct_sort_Slice [of f lt "filter P xs"] assms(2) by simp
  have "set (k # rest) = set (filter P xs)" using set_sort_Slice [of lt "filter P xs"] assms(2) by simp
  then have "f ` set (k # rest) \<inter> f ` set (filter (\<lambda>x. \<not> P x) xs) = {}" using p by (simp only:)
  with d p show ?thesis by (auto simp: disjoint_iff)
qed

lemma own_claims:
  "set (mineClaims a request claims) \<subseteq> set (ownClaims request claims)"
  "set (tl (mineClaims a request claims)) \<subseteq> set (ownClaims request claims)"
  "set (staleClaims a request claims) \<subseteq> set (ownClaims request claims)"
  "c \<in> set (mineClaims a request claims) \<Longrightarrow> Contains (leaseAddress c) (al_MeshCIDR a)"
proof -
  show m: "set (mineClaims a request claims) \<subseteq> set (ownClaims request claims)"
    by (auto simp: mineClaims_def)
  have "set (tl (mineClaims a request claims)) \<subseteq> set (mineClaims a request claims)"
    by (cases "mineClaims a request claims") auto
  with m show "set (tl (mineClaims a request claims)) \<subseteq> set (ownClaims request claims)" by blast
qed (auto simp: mineClaims_def staleClaims_def)

lemma keepFirst_owned:
  assumes "deletesOf (staleClaims a request claims) u" and "deletesOf (tl (mineClaims a request claims)) v"
  shows "heldPost a (rq_Holder request) (((h @ [(SList s, LeasesA (Inr claims))]) @ u) @ v)
           (Inr (keepFirst (mineClaims a request claims)))"
proof (cases "mineClaims a request claims")
  case (Cons k cs)
  let ?h = "h @ [(SList s, LeasesA (Inr claims))]"
  have k: "k \<in> set (ownClaims request claims)" "Contains (leaseAddress k) (al_MeshCIDR a)"
    using own_claims(1) [of a request claims] own_claims(4) [of k a request claims] Cons by auto
  have "owned a (rq_Holder request) (?h @ (u @ v)) (leaseAddress k)" if "orderly a ((?h @ u) @ v)"
  proof (rule held_owned)
    have d: "distinct (map (\<lambda>l. leaseName l) claims)"
      and n: "\<forall>l \<in> set claims. leaseName l = ClaimName (al_MeshName a) (leaseAddress l)"
      using that by (auto simp: orderly_def)
    show "leaseName k = ClaimName (al_MeshName a) (leaseAddress k)" "k \<in> set claims" "holderOf k = rq_Holder request"
      using k(1) n by (auto simp: ownClaims_def)
    have "distinct (map (\<lambda>l. leaseName l) (ownClaims request claims))"
      using d by (simp add: ownClaims_def distinct_map_filter)
    then show "distinct (map (\<lambda>l. leaseName l) (k # staleClaims a request claims @ cs))"
      unfolding staleClaims_def by (rule held_distinct) (use Cons in \<open>simp add: mineClaims_def\<close>)
    show "deletesOf (staleClaims a request claims @ cs) (u @ v)"
      using assms Cons by (auto simp: deletesOf_def)
  qed
  with k(2) Cons show ?thesis by (simp add: heldPost_def ownsResult_def keepFirst_def)
qed (simp add: heldPost_def keepFirst_def)

lemma releaseExtra_safe:
  fixes s and h and claims :: "ClaimLease list"
  defines "h0 \<equiv> h @ [(SList s, LeasesA (Inr claims))]"
  shows "safe (claimGuard a (rq_Holder request)) (heldPost a (rq_Holder request)) (releaseExtra a request claims) h0"
proof -
  let ?G = "claimGuard a (rq_Holder request)" and ?Q = "heldPost a (rq_Holder request)"
  let ?stale = "staleClaims a request claims" and ?mine = "mineClaims a request claims"
  have lo: "listedOwn (rq_Holder request) (h0 @ u) c" if "c \<in> set (ownClaims request claims)" for c u
    using that by (auto simp: listedOwn_def ownClaims_def h0_def)
  have second: "safe ?G ?Q (bindE (deleteClaims (tl ?mine)) (\<lambda>_. Ret (Inr (keepFirst ?mine)))) (h0 @ u)"
    if "deletesOf ?stale u" for u
  proof -
    have "\<forall>c \<in> set (tl ?mine). listedOwn (rq_Holder request) (h0 @ u) c"
      using lo own_claims(2) by blast
    from deleteClaims_safe [OF this] show ?thesis
      unfolding safe_bindE
      by (rule safe_mono)
        (use keepFirst_owned [OF that, of _ h s] in \<open>auto simp: deletePost_def h0_def split: sum.split\<close>, simp add: heldPost_def)
  qed
  have "\<forall>c \<in> set ?stale. listedOwn (rq_Holder request) h0 c" using lo [of _ "[]"] own_claims(3) [of a request claims] by auto
  from deleteClaims_safe [OF this] show ?thesis
    unfolding releaseExtra_def safe_bindE [of _ _ "deleteClaims ?stale"]
    by (rule safe_mono) (use second in \<open>auto simp: deletePost_def split: sum.split\<close>, simp add: heldPost_def)
qed

lemma heldClaim_safe:
  "safe (claimGuard a (rq_Holder request)) (heldPost a (rq_Holder request)) (heldClaim a request) h"
  unfolding heldClaim_def listClaims_def Let_def sList_def
  by (simp add: wrapE_def claimGuard_def)
    (auto simp: heldPost_def exhausted_def intro!: releaseExtra_safe split: storeresp.split sum.split)

lemma taken_listed: "l \<in> set ls \<Longrightarrow> taken a (h @ [(SList s, LeasesA (Inr ls))]) (leaseAddress l)"
  unfolding taken_def by (intro disjI2 exI [of _ s] exI [of _ ls] exI [of _ l]) simp

lemma probeFree_safe:
  assumes "Capacity (al_MeshCIDR a) = Inr n" and "\<forall>k \<in> set ks. 0 \<le> k \<and> k < 2 ^ 63"
    and "\<forall>x \<in> set ts. taken a h x"
  shows "safe (claimGuard a (rq_Holder request)) (probePost a request ks) (probeFree a request ts ks) h"
  using assms(2,3)
proof (induction ks arbitrary: h ts)
  case Nil
  show ?case by (simp add: probePost_def)
next
  case (Cons k ks)
  obtain v where v: "IPForNameAttempt (hashName request) (al_MeshCIDR a) k = Inr (addressText v)"
      "Contains (addressText v) (al_MeshCIDR a)"
    using attempt_host [OF assms(1), of k "hashName request"] Cons.prems by auto
  have step: "safe (claimGuard a (rq_Holder request)) (probePost a request (k # ks)) (probeFree a request us ks) h'"
    if "taken a h' (addressText v)" "\<forall>x \<in> set us. taken a h' x" for h' us
    by (rule safe_mono [OF safe_ext [OF Cons.IH]])
      (use Cons.prems that v in \<open>auto simp: probePost_def taken_append split: sum.splits option.splits\<close>)
  have "safe (claimGuard a (rq_Holder request)) (\<lambda>h' x. claimPost a (rq_Holder request) (addressText v) h' x \<and> (\<exists>u. h' = h @ u))
      (claim a (rq_Holder request) (addressText v) k) h"
    by (rule safe_ext [OF claim_safe [OF v(2)]])
  then show ?case
    using Cons.prems(2) step [of h ts]
    by (simp add: v safe_bindE [of _ _ "claim a' b c d" for a' b c d])
      (intro impI, erule safe_mono, auto simp: claimPost_def taken_append intro!: step split: sum.splits option.splits,
        auto simp: probePost_def)
qed

definition allocPost :: "Allocator \<Rightarrow> ClaimRequest \<Rightarrow> (storereq \<times> storeresp) list \<Rightarrow> ClaimResult res \<Rightarrow> bool" where
  "allocPost a request h x = (case x of
       Inl e \<Rightarrow> (\<forall>n. Capacity (al_MeshCIDR a) = Inr n \<longrightarrow> e = exhausted a n \<longrightarrow>
                 (\<forall>v \<in> hosts (al_MeshCIDR a). taken a h (addressText v)))
     | Inr r \<Rightarrow> ownsResult a (rq_Holder request) h r)"

lemma capacity_small:
  assumes "Capacity c = Inr n"
  shows "\<forall>k \<in> set [0..m - 1]. k < n \<longrightarrow> 0 \<le> k \<and> k < 2 ^ 63" and "2 \<le> n"
proof -
  from assms obtain base sz where m: "parseMesh c = Inr (base, sz)" and n: "n = uint sz - 2"
    by (auto simp: Capacity_def bind_res_Inr mesh_range(3))
  then have "n < 2 ^ 63" using unsigned_less [of sz, where ?'a = int] by simp
  then show "\<forall>k \<in> set [0..m - 1]. k < n \<longrightarrow> 0 \<le> k \<and> k < 2 ^ 63" by auto
  from mesh_range(1) [OF m] n show "2 \<le> n" by simp
qed

lemma all_probed:
  assumes "Capacity (al_MeshCIDR a) = Inr n"
    and "\<forall>k \<in> set [0..n - 1]. \<exists>address. IPForNameAttempt (hashName request) (al_MeshCIDR a) k = Inr address \<and> taken a h address"
    and "v \<in> hosts (al_MeshCIDR a)"
  shows "taken a h (addressText v)"
proof -
  have "Inr (addressText v) \<in> IPForNameAttempt (hashName request) (al_MeshCIDR a) ` {0..<n}"
    using walk_bij [OF assms(1), of "hashName request"] assms(3) by (auto simp: bij_betw_def)
  then obtain k where "k \<in> {0..<n}" "IPForNameAttempt (hashName request) (al_MeshCIDR a) k = Inr (addressText v)" by force
  with assms(2) show ?thesis by (auto dest: bspec [of _ _ k])
qed

lemma capacity_error: "Capacity c = Inl e \<Longrightarrow> e \<noteq> exhausted a n"
  by (auto simp: Capacity_def parseMesh_def exhausted_def Let_def split: option.splits prod.splits if_splits)

lemma exhausted_or_owned:
  assumes "Capacity (al_MeshCIDR a) = Inr n" and "probePost a request [0..n - 1] h x"
  shows "case x of
      Inl e \<Rightarrow> allocPost a request h (Inl e)
    | Inr r \<Rightarrow> safe (claimGuard a (rq_Holder request)) (allocPost a request) (orExhausted a n r) h"
  using assms all_probed [OF assms(1), of request h]
  by (auto simp: orExhausted_def allocPost_def probePost_def split: sum.split option.split)

lemma freeList_safe:
  assumes "Capacity (al_MeshCIDR a) = Inr n"
  shows "safe (claimGuard a (rq_Holder request)) (allocPost a request) (allocateFromFreeList a request n) h"
proof -
  have probe: "safe (claimGuard a (rq_Holder request)) (allocPost a request)
      (bindE (probeFree a request (filter (\<lambda>x. x \<noteq> []) (map (\<lambda>c. leaseAddress c) ls)) [0..n - 1]) (orExhausted a n))
      (h @ [(SList s, LeasesA (Inr ls))])" for s ls
    unfolding safe_bindE
  proof (rule safe_mono [OF probeFree_safe [OF assms]])
    show "\<forall>k \<in> set [0..n - 1]. 0 \<le> k \<and> k < 2 ^ 63" using capacity_small(1) [OF assms, of n] by auto
    show "\<forall>x \<in> set (filter (\<lambda>x. x \<noteq> []) (map (\<lambda>c. leaseAddress c) ls)). taken a (h @ [(SList s, LeasesA (Inr ls))]) x"
      by (auto intro: taken_listed)
  qed (use exhausted_or_owned [OF assms] in blast)+
  show ?thesis
    unfolding allocateFromFreeList_def listClaims_def Let_def sList_def
    by (simp add: wrapE_def claimGuard_def)
      (auto simp: allocPost_def exhausted_def intro!: probe split: storeresp.split sum.split)
qed

lemma probing_safe:
  assumes "Capacity (al_MeshCIDR a) = Inr n"
  shows "safe (claimGuard a (rq_Holder request)) (allocPost a request) (allocateProbing a request n) h"
proof -
  let ?m = "min probeLimit n"
  have ks: "\<forall>k \<in> set [0..?m - 1]. 0 \<le> k \<and> k < 2 ^ 63" using capacity_small(1) [OF assms, of ?m] by auto
  have "safe (claimGuard a (rq_Holder request)) (allocPost a request)
      (bindE (probe a request [0..?m - 1]) (\<lambda>r. case r of
           Some res \<Rightarrow> Ret (Inr res)
         | None \<Rightarrow> if ?m = n then Ret (Inl (exhausted a n)) else allocateFromFreeList a request n)) h"
    unfolding safe_bindE
  proof (rule safe_mono [OF probe_safe [OF assms ks]])
    fix h' x
    assume "probePost a request [0..?m - 1] h' x"
    then show "case x of
        Inl e \<Rightarrow> allocPost a request h' (Inl e)
      | Inr r \<Rightarrow> safe (claimGuard a (rq_Holder request)) (allocPost a request)
          (case r of Some res \<Rightarrow> Ret (Inr res)
           | None \<Rightarrow> if ?m = n then Ret (Inl (exhausted a n)) else allocateFromFreeList a request n) h'"
      using all_probed [OF assms, of request h'] freeList_safe [OF assms]
      by (auto simp: probePost_def allocPost_def split: sum.splits option.splits)
  qed
  then show ?thesis by (simp add: allocateProbing_def Let_def)
qed

lemma preferred_safe:
  "safe (claimGuard a (rq_Holder request)) (heldPost a (rq_Holder request)) (claimPreferred a request) h"
proof -
  have "safe (claimGuard a (rq_Holder request)) (heldPost a (rq_Holder request))
      (claim a (rq_Holder request) (rq_Preferred request) (- 1)) h" if "Contains (rq_Preferred request) (al_MeshCIDR a)"
    by (rule safe_mono [OF claim_safe [OF that]]) (auto simp: claimPost_def heldPost_def split: sum.splits option.splits)
  then show ?thesis by (simp add: claimPreferred_def heldPost_def)
qed

lemma allocatePreferring_safe:
  assumes "Capacity (al_MeshCIDR a) = Inr n"
  shows "safe (claimGuard a (rq_Holder request)) (allocPost a request)
      (bindE (claimPreferred a request) (\<lambda>p. case p of
          Some res \<Rightarrow> Ret (Inr (res\<lparr>cr_Moved := cr_Address res \<noteq> hashed\<rparr>))
        | None \<Rightarrow> allocateProbing a request n)) h"
  unfolding safe_bindE
  by (rule safe_mono [OF preferred_safe])
    (use probing_safe [OF assms] in \<open>auto simp: heldPost_def allocPost_def split: sum.splits option.splits\<close>)

lemma allocateHolding_safe:
  assumes "Capacity (al_MeshCIDR a) = Inr n"
  shows "safe (claimGuard a (rq_Holder request)) (allocPost a request)
      (bindE (heldClaim a request) (\<lambda>h. case h of
        Some held \<Rightarrow> Ret (Inr (held\<lparr>cr_Moved := cr_Address held \<noteq> hashed\<rparr>))
      | None \<Rightarrow>
         bindE (claimPreferred a request) (\<lambda>p. case p of
           Some res \<Rightarrow> Ret (Inr (res\<lparr>cr_Moved := cr_Address res \<noteq> hashed\<rparr>))
         | None \<Rightarrow> allocateProbing a request n))) h"
  unfolding safe_bindE [of _ _ "heldClaim a request"]
  by (rule safe_mono [OF heldClaim_safe])
    (use allocatePreferring_safe [OF assms] in \<open>auto simp: heldPost_def allocPost_def split: sum.splits option.splits\<close>)

lemma Allocator_safe:
  "safe (claimGuard a (rq_Holder request)) (allocPost a request) (Allocator_Allocate a request) h"
proof (cases "Capacity (al_MeshCIDR a)")
  case (Inl e)
  then show ?thesis
    by (auto simp: Allocator_Allocate_def liftE_def allocPost_def validateAllocator_def exhausted_def
        dest: capacity_error split: sum.split)
next
  case (Inr n)
  then obtain v where "IPForName (hashName request) (al_MeshCIDR a) = Inr (addressText v)"
    using attempt_host [OF Inr, of 0 "hashName request"] by (auto simp: IPForName_def)
  with Inr allocateHolding_safe [OF Inr] show ?thesis
    by (auto simp: Allocator_Allocate_def liftE_def allocPost_def validateAllocator_def exhausted_def)
qed

lemma Reserve_safe: "safe (claimGuard a holder) (\<lambda>h x. True) (Reserve a holder address) h"
proof -
  have "safe (claimGuard a holder) (\<lambda>h x. True) (claim a holder address (- 1)) h" if "Contains address (al_MeshCIDR a)"
    by (rule safe_mono [OF claim_safe [OF that]]) auto
  then have "safe (claimGuard a holder) (\<lambda>h x. True) (bindE (claim a holder address (- 1)) (\<lambda>r. Ret (f r))) h"
    if "Contains address (al_MeshCIDR a)" for f
    unfolding safe_bindE by (rule safe_mono) (use that in \<open>auto split: sum.split\<close>)
  then show ?thesis
    by (auto simp: Reserve_def liftE_def validateAllocator_def)
qed

lemma Release_safe: "safe (claimGuard a holder) (\<lambda>h x. True) (Release a holder) h"
proof -
  have "safe (claimGuard a holder) (\<lambda>h x. True) (deleteClaims (filter (\<lambda>c. holderOf c = holder) ls))
      (h @ [(SList s, LeasesA (Inr ls))])" for s ls
    by (rule safe_mono [OF deleteClaims_safe]) (auto simp: listedOwn_def)
  then show ?thesis
    unfolding Release_def listClaims_def Let_def sList_def
    by (auto simp: wrapE_def claimGuard_def [of _ _ _ "SList x" for x] liftE_def validateAllocator_def
        split: storeresp.split sum.split)
qed

text \<open>
  A claim is never stolen: whatever the API server answers, \<open>Allocate\<close>, \<open>Reserve\<close> and
  \<open>Release\<close> for a holder delete a Lease only by the name and UID under which a list showed it as
  this holder's, and create only this holder's Lease for an address the mesh CIDR can hand out.
\<close>

theorem claims_guarded:
  assumes "emits (Allocator_Allocate a request) (t @ (q, r) # u) \<and> holder = rq_Holder request
    \<or> emits (Reserve a holder address) (t @ (q, r) # u) \<or> emits (Release a holder) (t @ (q, r) # u)"
  shows "case q of
      SCreate l \<Rightarrow> \<exists>address k. l = leaseFor a holder address k \<and> Contains address (al_MeshCIDR a)
    | SDelete n uid \<Rightarrow> \<exists>s ls l. (SList s, LeasesA (Inr ls)) \<in> set t \<and> l \<in> set ls \<and> holderOf l = holder
        \<and> leaseName l = n \<and> leaseUID l = uid
    | _ \<Rightarrow> True"
proof -
  have "claimGuard a holder ([] @ t) q"
    using assms safe_emits [OF Allocator_safe [of a request "[]"], of t q r u]
      safe_emits [OF Reserve_safe [of a holder address "[]"], of t q r u]
      safe_emits [OF Release_safe [of a holder "[]"], of t q r u] by auto
  then show ?thesis by (simp add: claimGuard_def)
qed

text \<open>
  \<open>Allocate\<close> reports exhaustion only when it is true: if it returns the exhaustion error of
  the mesh, then for every single assignable address the server refused the Lease of that address
  because it exists, or listed a claim annotated with it.
\<close>

theorem Allocate_exhausted:
  assumes "runs (Allocator_Allocate a request) t (Inl (exhausted a n))"
    and "Capacity (al_MeshCIDR a) = Inr n" and "v \<in> hosts (al_MeshCIDR a)"
  shows "(\<exists>l e. (SCreate l, LeaseA (Inl e)) \<in> set t
           \<and> leaseName l = ClaimName (al_MeshName a) (addressText v) \<and> IsAlreadyExists e)
       \<or> (\<exists>s ls l. (SList s, LeasesA (Inr ls)) \<in> set t \<and> l \<in> set ls \<and> leaseAddress l = addressText v)"
  using safe_runs [OF Allocator_safe [of a request "[]"] assms(1)] assms(2,3) by (simp add: allocPost_def taken_def)

subsection \<open>Names and labels are well formed\<close>

lemma TrimSuffix_addressText: "TrimSuffix (addressText v) ''/32'' = dotted (octets v)"
  by (simp add: TrimSuffix_def addressText_def)

definition hyphens :: "string \<Rightarrow> string" where
  "hyphens s = map (\<lambda>c. if c = CHR ''.'' then CHR ''-'' else c) s"

lemma hyphens_digits: "list_all is_digit s \<Longrightarrow> hyphens s = s \<and> CHR ''-'' \<notin> set s"
  by (induction s) (auto simp: hyphens_def char_class_defs)

lemma splitOn_claim:
  "splitOn (CHR ''-'') (mesh @ ''-'' @ hyphens (dotted (octets v))) = splitOn (CHR ''-'') mesh @ map (\<lambda>d. FormatInt d) (octets v)"
proof -
  obtain a b c d where os: "octets v = [a, b, c, d]" and r: "0 \<le> a" "a < 256" "0 \<le> b" "b < 256" "0 \<le> c" "c < 256" "0 \<le> d" "d < 256"
    using is_octets_octets [of v] by (rule is_octets_cases)
  note dg = hyphens_digits [OF octet_text(2) [OF r(1,2)]] hyphens_digits [OF octet_text(2) [OF r(3,4)]]
    hyphens_digits [OF octet_text(2) [OF r(5,6)]] hyphens_digits [OF octet_text(2) [OF r(7,8)]]
  have "hyphens (dotted (octets v)) = FormatInt a @ ''-'' @ FormatInt b @ ''-'' @ FormatInt c @ ''-'' @ FormatInt d"
    using dg by (simp add: os dotted_def hyphens_def)
  then show ?thesis using dg by (simp add: os splitOn_sep splitOn_none)
qed

text \<open>
  Lease names do not collide: two claims contend for one name exactly when they are for the same
  address of the same mesh, although mesh names may contain hyphens themselves.
\<close>

theorem ClaimName_injective:
  assumes "ClaimName mesh (addressText v) = ClaimName mesh' (addressText w)"
  shows "mesh = mesh' \<and> v = w"
proof -
  have eq: "mesh @ ''-'' @ hyphens (dotted (octets v)) = mesh' @ ''-'' @ hyphens (dotted (octets w))"
    using assms by (simp add: ClaimName_def TrimSuffix_addressText hyphens_def)
  have "splitOn (CHR ''-'') mesh @ map (\<lambda>d. FormatInt d) (octets v)
      = splitOn (CHR ''-'') mesh' @ map (\<lambda>d. FormatInt d) (octets w)"
    using arg_cong [OF eq, of "splitOn (CHR ''-'')"] by (simp only: splitOn_claim)
  moreover have "length (octets v) = length (octets w)" by (simp add: octets_def)
  ultimately have m: "splitOn (CHR ''-'') mesh = splitOn (CHR ''-'') mesh'"
    and d: "map (\<lambda>d. FormatInt d) (octets v) = map (\<lambda>d. FormatInt d) (octets w)" by auto
  from m have "mesh = mesh'" by (metis Join_splitOn)
  moreover from d have "addressText v = addressText w" by (simp add: addressText_def dotted_def)
  ultimately show ?thesis by (auto dest: addressText_inj)
qed

lemma labelRunes_ok: "length (labelRunes n s) \<le> n \<and> list_all label_char (labelRunes n s)"
proof (induction n s rule: labelRunes.induct)
  case (1 n s)
  have "label_char (CHR ''-'')" by (simp add: label_char_def)
  with 1 show ?case
    by (cases "n = 0 \<or> s = []") (auto simp: labelRunes.simps [of n s])
qed

lemma trimBoth_ok:
  fixes P :: "char \<Rightarrow> bool"
  shows "length (trimBoth P s) \<le> length s" and "set (trimBoth P s) \<subseteq> set s"
    and "trimBoth P s \<noteq> [] \<Longrightarrow> \<not> P (hd (trimBoth P s)) \<and> \<not> P (List.last (trimBoth P s))"
proof -
  show "length (trimBoth P s) \<le> length s"
    unfolding trimBoth_def length_rev
    by (rule order_trans [OF length_dropWhile_le]) (simp add: length_dropWhile_le)
  show "set (trimBoth P s) \<subseteq> set s"
    by (auto simp: trimBoth_def dest!: set_dropWhileD)
  assume ne: "trimBoth P s \<noteq> []"
  let ?a = "dropWhile P s"
  have r: "dropWhile P (rev ?a) \<noteq> []" using ne by (simp add: trimBoth_def)
  then have "\<not> P (hd (dropWhile P (rev ?a)))" by (rule hd_dropWhile)
  then have l: "\<not> P (List.last (trimBoth P s))" using r by (simp add: trimBoth_def last_rev)
  have a: "?a \<noteq> []" using r by (metis dropWhile.simps(1) rev.simps(1))
  have "hd (trimBoth P s) = List.last (dropWhile P (rev ?a))" using r by (simp add: trimBoth_def hd_rev)
  also have "\<dots> = List.last (rev ?a)" using r by (metis dropWhile_eq_drop last_drop length_drop length_greater_0_conv zero_less_diff)
  also have "\<dots> = hd ?a" using a by (simp add: last_rev)
  finally show "\<not> P (hd (trimBoth P s)) \<and> \<not> P (List.last (trimBoth P s))"
    using l hd_dropWhile a by metis
qed

text \<open>
  The label value of any holder is accepted by the API server: at most 63 characters, all of them
  alphanumeric or one of hyphen, underscore and full stop, and the first and the last alphanumeric
  unless the value is empty.
\<close>

theorem labelSafe_valid:
  "length (labelSafe name) \<le> 63 \<and> list_all label_char (labelSafe name)
   \<and> (labelSafe name = [] \<or> (let bad = {CHR ''-'', CHR ''_'', CHR ''.''} in
        hd (labelSafe name) \<notin> bad \<and> List.last (labelSafe name) \<notin> bad))"
proof -
  let ?P = "\<lambda>c. c \<in> {CHR ''-'', CHR ''_'', CHR ''.''}"
  note t = trimBoth_ok [of ?P "labelRunes 63 name"] and r = labelRunes_ok [of 63 name]
  have "length (labelSafe name) \<le> 63" using t(1) r unfolding labelSafe_def by linarith
  moreover have "list_all label_char (labelSafe name)"
    using t(2) r unfolding labelSafe_def by (auto simp: list_all_iff)
  ultimately show ?thesis using t(3) unfolding labelSafe_def Let_def by blast
qed

subsection \<open>The two stores\<close>

text \<open>
  \<open>store.go\<close>: the requests of the interface as calls of a typed client, whose objects are
  Leases, and of a dynamic client, whose objects are unstructured. \<open>C\<close> is the converter of
  \<open>k8s.io/apimachinery\<close>; \<open>toUnstructured\<close> also sets the API version and kind, which a Lease
  of the model does not carry.
\<close>

datatype 'o leasereq =
    LGet string string
  | LCreate string 'o
  | LDelete string string "UID option"
  | LList string string

datatype 'o leaseresp =
    LObject "'o res"
  | LDone "unit res"
  | LObjects "'o list res"

record 'u leaseconv =
  ofLease :: "ClaimLease \<Rightarrow> 'u res"
  toLease :: "'u \<Rightarrow> ClaimLease res"
  objectName :: "'u \<Rightarrow> string"

definition lObject :: "'o leaseresp \<Rightarrow> 'o res" where
  "lObject r = (case r of LObject x \<Rightarrow> x | _ \<Rightarrow> unexpected)"
definition lDone :: "'o leaseresp \<Rightarrow> unit res" where
  "lDone r = (case r of LDone x \<Rightarrow> x | _ \<Rightarrow> unexpected)"
definition lObjects :: "'o leaseresp \<Rightarrow> 'o list res" where
  "lObjects r = (case r of LObjects x \<Rightarrow> x | _ \<Rightarrow> unexpected)"

definition orDefault :: "string \<Rightarrow> string" where
  "orDefault ns = (if ns = [] then DefaultNamespace else ns)"

definition deleteOptions :: "UID \<Rightarrow> UID option" where
  "deleteOptions uid = (if uid = [] then None else Some uid)"

definition lease_toUnstructured :: "'u leaseconv \<Rightarrow> ClaimLease \<Rightarrow> 'u res" where
  "lease_toUnstructured C lease = (case ofLease C lease of
       Inl e \<Rightarrow> Inl (WrapError (''encode mesh address claim Lease/'' @ leaseName lease @ '': '') e [])
     | Inr u \<Rightarrow> Inr u)"

definition lease_fromUnstructured :: "'u leaseconv \<Rightarrow> 'u \<Rightarrow> ClaimLease res" where
  "lease_fromUnstructured C object = (case toLease C object of
       Inl e \<Rightarrow> Inl (WrapError (''decode mesh address claim Lease/'' @ objectName C object @ '': '') e [])
     | Inr l \<Rightarrow> Inr l)"

primrec mapRes :: "('a \<Rightarrow> 'b res) \<Rightarrow> 'a list \<Rightarrow> 'b list res" where
  "mapRes f [] = Inr []"
| "mapRes f (x # xs) = bind_res (f x) (\<lambda>y. bind_res (mapRes f xs) (\<lambda>ys. Inr (y # ys)))"

fun typedStore :: "string \<Rightarrow> storereq \<Rightarrow> (ClaimLease leasereq, ClaimLease leaseresp, storeresp) prog" where
  "typedStore ns (SGet name) = Req (LGet ns name) (\<lambda>r. Ret (LeaseA (lObject r)))"
| "typedStore ns (SCreate lease) = Req (LCreate ns lease) (\<lambda>r. Ret (LeaseA (lObject r)))"
| "typedStore ns (SDelete name uid) = Req (LDelete ns name (deleteOptions uid)) (\<lambda>r. Ret (UnitA (lDone r)))"
| "typedStore ns (SList selector) = Req (LList ns selector) (\<lambda>r. Ret (LeasesA (lObjects r)))"

fun dynamicStore :: "'u leaseconv \<Rightarrow> string \<Rightarrow> storereq \<Rightarrow> ('u leasereq, 'u leaseresp, storeresp) prog" where
  "dynamicStore C ns (SGet name) =
     Req (LGet ns name) (\<lambda>r. Ret (LeaseA (bind_res (lObject r) (lease_fromUnstructured C))))"
| "dynamicStore C ns (SCreate lease) =
     (case lease_toUnstructured C lease of
        Inl e \<Rightarrow> Ret (LeaseA (Inl e))
      | Inr u \<Rightarrow> Req (LCreate ns u) (\<lambda>r. Ret (LeaseA (bind_res (lObject r) (lease_fromUnstructured C)))))"
| "dynamicStore C ns (SDelete name uid) = Req (LDelete ns name (deleteOptions uid)) (\<lambda>r. Ret (UnitA (lDone r)))"
| "dynamicStore C ns (SList selector) =
     Req (LList ns selector) (\<lambda>r. Ret (LeasesA (bind_res (lObjects r) (mapRes (lease_fromUnstructured C)))))"

text \<open>A client of the interface on top of one of its implementations.\<close>

definition Typed :: "string \<Rightarrow> 'a store \<Rightarrow> (ClaimLease leasereq, ClaimLease leaseresp, 'a) prog" where
  "Typed ns p = via (typedStore (orDefault ns)) p"

definition Dynamic :: "'u leaseconv \<Rightarrow> string \<Rightarrow> 'a store \<Rightarrow> ('u leasereq, 'u leaseresp, 'a) prog" where
  "Dynamic C ns p = via (dynamicStore C (orDefault ns)) p"

text \<open>Every Lease can be converted, and converting it back gives the Lease.\<close>

definition leaseconv_law :: "'u leaseconv \<Rightarrow> bool" where
  "leaseconv_law C \<longleftrightarrow> (\<forall>l. \<exists>u. ofLease C l = Inr u \<and> toLease C u = Inr l)"

text \<open>The server that keeps Leases, as a dynamic client sees it: objects are converted on the way.\<close>

definition encodeLease :: "'u leaseconv \<Rightarrow> ClaimLease \<Rightarrow> 'u" where
  "encodeLease C l = (case ofLease C l of Inr u \<Rightarrow> u | Inl e \<Rightarrow> undefined)"

fun encodeResp :: "'u leaseconv \<Rightarrow> ClaimLease leaseresp \<Rightarrow> 'u leaseresp" where
  "encodeResp C (LObject x) = LObject (bind_res x (\<lambda>l. Inr (encodeLease C l)))"
| "encodeResp C (LDone x) = LDone x"
| "encodeResp C (LObjects x) = LObjects (bind_res x (\<lambda>ls. Inr (map (encodeLease C) ls)))"

fun unstructuredServer :: "'u leaseconv \<Rightarrow> ('s \<Rightarrow> ClaimLease leasereq \<Rightarrow> ClaimLease leaseresp \<times> 's)
    \<Rightarrow> 's \<Rightarrow> 'u leasereq \<Rightarrow> 'u leaseresp \<times> 's" where
  "unstructuredServer C h s (LCreate ns u) = (case toLease C u of
       Inl e \<Rightarrow> (LObject (Inl e), s)
     | Inr l \<Rightarrow> map_prod (encodeResp C) (\<lambda>x. x) (h s (LCreate ns l)))"
| "unstructuredServer C h s (LGet ns name) = map_prod (encodeResp C) (\<lambda>x. x) (h s (LGet ns name))"
| "unstructuredServer C h s (LDelete ns name uid) = map_prod (encodeResp C) (\<lambda>x. x) (h s (LDelete ns name uid))"
| "unstructuredServer C h s (LList ns selector) = map_prod (encodeResp C) (\<lambda>x. x) (h s (LList ns selector))"

lemma conv_back:
  assumes "leaseconv_law C"
  shows "lease_toUnstructured C l = Inr (encodeLease C l)" and "toLease C (encodeLease C l) = Inr l"
    and "lease_fromUnstructured C (encodeLease C l) = Inr l"
    and "mapRes (lease_fromUnstructured C) (map (encodeLease C) ls) = Inr ls"
proof -
  have "\<exists>u. ofLease C l = Inr u \<and> toLease C u = Inr l" for l using assms by (simp add: leaseconv_law_def)
  then have *: "lease_toUnstructured C l = Inr (encodeLease C l)" "toLease C (encodeLease C l) = Inr l"
      "lease_fromUnstructured C (encodeLease C l) = Inr l" for l
    by (metis (no_types, lifting) encodeLease_def lease_toUnstructured_def lease_fromUnstructured_def sum.case(2))+
  then show "lease_toUnstructured C l = Inr (encodeLease C l)" "toLease C (encodeLease C l) = Inr l"
      "lease_fromUnstructured C (encodeLease C l) = Inr l" by auto
  show "mapRes (lease_fromUnstructured C) (map (encodeLease C) ls) = Inr ls"
    by (induction ls) (simp_all add: *)
qed

lemma decode_answers:
  assumes "leaseconv_law C"
  shows "bind_res (lObject (encodeResp C r)) (lease_fromUnstructured C) = lObject r"
    and "lDone (encodeResp C r) = lDone r"
    and "bind_res (lObjects (encodeResp C r)) (mapRes (lease_fromUnstructured C)) = lObjects r"
  by (cases r; simp add: lObject_def lDone_def lObjects_def conv_back [OF assms] bind_res_def split: sum.split)+

text \<open>
  Both stores arbitrate alike: any client of the interface, in particular the allocator, has the
  same result and leaves the same server behind through the dynamic client as through the typed one.
\<close>

theorem stores_equivalent:
  assumes "leaseconv_law C"
  shows "exec (unstructuredServer C h) (Dynamic C ns p) s = exec h (Typed ns p) s"
  unfolding Dynamic_def Typed_def
proof (induction p arbitrary: s)
  case (Req q k)
  then show ?case
    by (cases q) (auto simp: conv_back [OF assms] decode_answers [OF assms] split: prod.split)
qed simp

subsection \<open>Examples\<close>

definition exalloc :: Allocator where
  "exalloc = \<lparr>al_Store = Some DefaultNamespace, al_MeshName = ''m'', al_MeshCIDR = ''10.0.0.0/30'', al_Grace = 0\<rparr>"

definition exclaim :: "string \<Rightarrow> ClaimRequest" where
  "exclaim holder = \<lparr>rq_Holder = holder, rq_Name = [], rq_Preferred = []\<rparr>"

text \<open>A Lease as the server stores it, with the UID it gives it.\<close>

definition freshUID :: "nat \<Rightarrow> UID" where
  "freshUID n = replicate (Suc n) (CHR ''u'')"

definition stored :: "ClaimLease \<Rightarrow> nat \<Rightarrow> ClaimLease" where
  "stored l n = l\<lparr>le_Meta := (le_Meta l)\<lparr>om_UID := freshUID n\<rparr>\<rparr>"

text \<open>A holder with two claims keeps the first and releases the second.\<close>

definition exduplicate :: "storeresp list" where
  "exduplicate = [LeasesA (Inr [stored (leaseFor exalloc ''b'' ''10.0.0.1/32'' 1) 0, stored (leaseFor exalloc ''b'' ''10.0.0.2/32'' 0) 1])]"

theorem claims_guarded_witness:
  "\<exists>s ls l. (SList s, LeasesA (Inr ls)) \<in> set (feed (Allocator_Allocate exalloc (exclaim ''b'')) exduplicate) \<and> l \<in> set ls
     \<and> holderOf l = ''b'' \<and> leaseName l = ''wirekube-m-10-0-0-1'' \<and> leaseUID l = freshUID 0"
proof -
  have "asks (Allocator_Allocate exalloc (exclaim ''b'')) exduplicate = Some (SDelete ''wirekube-m-10-0-0-1'' (freshUID 0))"
    by code_simp
  from emits_asks [OF this, of "UnitA (Inr ())"]
  have "emits (Allocator_Allocate exalloc (exclaim ''b'')) (feed (Allocator_Allocate exalloc (exclaim ''b'')) exduplicate
      @ (SDelete ''wirekube-m-10-0-0-1'' (freshUID 0), UnitA (Inr ())) # [])" .
  from claims_guarded [OF disjI1 [OF conjI [OF this refl]]] show ?thesis by (simp add: exclaim_def)
qed

text \<open>Both addresses of a mesh of two are claimed by somebody else.\<close>

definition exfull :: "storeresp list" where
  "exfull = [LeasesA (Inr []),
     LeaseA (Inl (StatusError AlreadyExists)), LeaseA (Inr (leaseFor exalloc ''x'' ''10.0.0.2/32'' 0)),
     LeaseA (Inl (StatusError AlreadyExists)), LeaseA (Inr (leaseFor exalloc ''y'' ''10.0.0.1/32'' 0))]"

theorem Allocate_exhausted_witness:
  "(\<exists>l e. (SCreate l, LeaseA (Inl e)) \<in> set (feed (Allocator_Allocate exalloc (exclaim ''b'')) exfull)
       \<and> leaseName l = ClaimName ''m'' (addressText 0x0A000001) \<and> IsAlreadyExists e)
   \<or> (\<exists>s ls l. (SList s, LeasesA (Inr ls)) \<in> set (feed (Allocator_Allocate exalloc (exclaim ''b'')) exfull)
       \<and> l \<in> set ls \<and> leaseAddress l = addressText 0x0A000001)"
proof -
  have "feed_result (Allocator_Allocate exalloc (exclaim ''b'')) exfull = Some (Inl (exhausted exalloc 2))"
    by code_simp
  moreover have "Capacity (al_MeshCIDR exalloc) = Inr 2" by code_simp
  moreover have "Contains (addressText 0x0A000001) (al_MeshCIDR exalloc)" by code_simp
  ultimately have "runs (Allocator_Allocate exalloc (exclaim ''b'')) (feed (Allocator_Allocate exalloc (exclaim ''b'')) exfull)
      (Inl (exhausted exalloc 2))" "Capacity (al_MeshCIDR exalloc) = Inr 2" "0x0A000001 \<in> hosts (al_MeshCIDR exalloc)"
    by (auto intro: runs_feed simp: Contains_addressText)
  from Allocate_exhausted [OF this] show ?thesis by (simp add: exalloc_def)
qed

theorem ClaimName_injective_witness:
  "ClaimName ''a-1'' (addressText 0x0A000001) \<noteq> ClaimName ''a'' (addressText 0x0A000001)"
  using ClaimName_injective [of "''a-1''" "0x0A000001" "''a''" "0x0A000001"] by auto

definition exleaseconv :: "ClaimLease leaseconv" where
  "exleaseconv = \<lparr>ofLease = (\<lambda>l. Inr l), toLease = (\<lambda>l. Inr l), objectName = (\<lambda>l. leaseName l)\<rparr>"

theorem stores_equivalent_witness:
  "exec (unstructuredServer exleaseconv (\<lambda>s q. (LObjects (Inr []), s))) (Dynamic exleaseconv [] (Release exalloc ''b'')) ()
     = exec (\<lambda>s q. (LObjects (Inr []), s)) (Typed [] (Release exalloc ''b'')) ()"
proof -
  have "leaseconv_law exleaseconv" by (simp add: leaseconv_law_def exleaseconv_def)
  then show ?thesis by (rule stores_equivalent)
qed

end
