(* ===== verification/Mesh_Arbitration.thy ===== *)
theory Mesh_Arbitration
  imports Mesh_Claim
begin

section \<open>Concurrent claimants\<close>

text \<open>
  The allocator of \<open>internal/meshclaim\<close> run by many holders at once, as a step relation over one
  API server: two claimants never end with the same address. The proof rests on what
  \<open>Mesh_Claim\<close> shows of every trace of a single claimant, and on the server giving each Lease a
  fresh UID.
\<close>

text \<open>
  Any number of claimants run \<open>Allocate\<close> at the same time against one API server. The server
  holds the Leases by name, gives every Lease it creates a fresh UID, and answers each request
  atomically; a call may also fail without effect, a creation may take effect although its answer is
  lost, and a list may return any of the claims. A configuration is the server with the next UID, the
  claimants with the requests they have made so far, and what each has left to do.
\<close>

type_synonym server = "(string \<rightharpoonup> ClaimLease) \<times> nat"

inductive serves :: "server \<Rightarrow> storereq \<Rightarrow> storeresp \<Rightarrow> server \<Rightarrow> bool" where
  found: "S n = Some l \<Longrightarrow> serves (S, m) (SGet n) (LeaseA (Inr l)) (S, m)"
| missing: "S n = None \<Longrightarrow> serves (S, m) (SGet n) (LeaseA (Inl (StatusError NotFound))) (S, m)"
| created: "S (leaseName l) = None \<Longrightarrow>
    serves (S, m) (SCreate l) (LeaseA (Inr (stored l m))) (S(leaseName l \<mapsto> stored l m), Suc m)"
| lost: "S (leaseName l) = None \<Longrightarrow>
    serves (S, m) (SCreate l) (LeaseA (Inl e)) (S(leaseName l \<mapsto> stored l m), Suc m)"
| exists: "S (leaseName l) = Some l' \<Longrightarrow>
    serves (S, m) (SCreate l) (LeaseA (Inl (StatusError AlreadyExists))) (S, m)"
| deleted: "S n = Some l \<Longrightarrow> u = leaseUID l \<Longrightarrow> serves (S, m) (SDelete n u) (UnitA x) (S(n := None), m)"
| kept: "(\<And>l. S n = Some l \<Longrightarrow> u \<noteq> leaseUID l) \<Longrightarrow> serves (S, m) (SDelete n u) (UnitA x) (S, m)"
| listed: "set ls \<subseteq> ran S \<Longrightarrow> distinct ls \<Longrightarrow> serves (S, m) (SList s) (LeasesA (Inr ls)) (S, m)"
| failed: "serves (S, m) q (LeaseA (Inl e)) (S, m)"

type_synonym claimants = "nat \<Rightarrow> (storereq \<times> storeresp) list \<times> ClaimResult res store"

inductive claim_step :: "server \<times> claimants \<Rightarrow> server \<times> claimants \<Rightarrow> bool" where
  "P i = (h, Req q k) \<Longrightarrow> serves S q r S' \<Longrightarrow> claim_step (S, P) (S', P(i := (h @ [(q, r)], k r)))"

lemma freshUID_inj [simp]: "freshUID m = freshUID n \<longleftrightarrow> m = n"
  by (auto simp: freshUID_def dest: arg_cong [where f = length])

lemma stored_simps [simp]:
  "leaseName (stored l n) = leaseName l" "holderOf (stored l n) = holderOf l"
  "leaseAddress (stored l n) = leaseAddress l" "leaseUID (stored l n) = freshUID n"
  by (simp_all add: stored_def holderOf_def)

text \<open>Every UID below \<open>m\<close> was given to a Lease of the holder \<open>own\<close> tells.\<close>

definition issued :: "(nat \<Rightarrow> string) \<Rightarrow> nat \<Rightarrow> ClaimLease \<Rightarrow> bool" where
  "issued own m l \<longleftrightarrow> (\<exists>k < m. leaseUID l = freshUID k \<and> holderOf l = own k)"

definition server_ok :: "string \<Rightarrow> (nat \<Rightarrow> string) \<Rightarrow> server \<Rightarrow> bool" where
  "server_ok mesh own S \<longleftrightarrow> (\<forall>n l. fst S n = Some l \<longrightarrow> leaseName l = n
     \<and> n = ClaimName mesh (leaseAddress l) \<and> issued own (snd S) l)"

definition listed_ok :: "(nat \<Rightarrow> string) \<Rightarrow> nat \<Rightarrow> (storereq \<times> storeresp) list \<Rightarrow> bool" where
  "listed_ok own m h \<longleftrightarrow> (\<forall>s ls l. (SList s, LeasesA (Inr ls)) \<in> set h \<longrightarrow> l \<in> set ls \<longrightarrow> issued own m l)"

definition holds :: "server \<Rightarrow> string \<Rightarrow> string \<Rightarrow> string \<Rightarrow> bool" where
  "holds S mesh holder address \<longleftrightarrow> (\<exists>l. fst S (ClaimName mesh address) = Some l \<and> holderOf l = holder)"

definition claim_inv :: "string \<Rightarrow> (nat \<Rightarrow> Allocator) \<Rightarrow> (nat \<Rightarrow> ClaimRequest) \<Rightarrow> (nat \<Rightarrow> string) \<Rightarrow> server \<times> claimants \<Rightarrow> bool" where
  "claim_inv mesh a rq own cfg \<longleftrightarrow> server_ok mesh own (fst cfg)
     \<and> (\<forall>i. listed_ok own (snd (fst cfg)) (fst (snd cfg i))
          \<and> orderly (a i) (fst (snd cfg i))
          \<and> (\<forall>address. owned (a i) (rq_Holder (rq i)) (fst (snd cfg i)) address
               \<longrightarrow> holds (fst cfg) mesh (rq_Holder (rq i)) address)
          \<and> safe (claimGuard (a i) (rq_Holder (rq i))) (allocPost (a i) (rq i)) (snd (snd cfg i)) (fst (snd cfg i)))"

lemma owned_snoc:
  assumes "owned a holder (h @ [(q, r)]) address"
  shows "attributes a holder address (q, r)
    \<or> owned a holder h address \<and> (\<forall>u. q \<noteq> SDelete (ClaimName (al_MeshName a) address) u)"
proof -
  from assms obtain h1 qr h2 where h: "h @ [(q, r)] = h1 @ qr # h2" and at: "attributes a holder address qr"
    and nd: "\<forall>u r. (SDelete (ClaimName (al_MeshName a) address) u, r) \<notin> set h2"
    by (auto simp: owned_def)
  show ?thesis
  proof (cases h2 rule: rev_cases)
    case Nil
    with h at show ?thesis by simp
  next
    case (snoc ys y)
    with h have "h = h1 @ qr # ys" "y = (q, r)" by (auto simp flip: append_Cons append_assoc)
    moreover from this have "owned a holder h address"
      unfolding owned_def using at nd snoc by (intro exI [of _ h1] exI [of _ qr] exI [of _ ys]) auto
    ultimately show ?thesis using nd snoc by auto
  qed
qed

lemma issued_mono: "issued own m l \<Longrightarrow> m \<le> m' \<Longrightarrow> (\<And>k. k < m \<Longrightarrow> own' k = own k) \<Longrightarrow> issued own' m' l"
  by (auto simp: issued_def)

definition grown :: "(nat \<Rightarrow> string) \<Rightarrow> nat \<Rightarrow> storereq \<Rightarrow> nat \<Rightarrow> string" where
  "grown own m q = (case q of SCreate l \<Rightarrow> own(m := holderOf l) | _ \<Rightarrow> own)"

lemma grown_old: "k < m \<Longrightarrow> grown own m q k = own k"
  by (simp add: grown_def split: storereq.split)

lemma server_okD:
  assumes "server_ok mesh own (S, m)" and "S n = Some l"
  shows "leaseName l = n" and "n = ClaimName mesh (leaseAddress l)" and "issued own m l"
  using assms by (auto simp: server_ok_def)

lemma serves_ok:
  assumes "serves S q r S'" and "server_ok mesh own S" and "\<And>l. q = SCreate l \<Longrightarrow> leaseName l = ClaimName mesh (leaseAddress l)"
  shows "server_ok mesh (grown own (snd S) q) S' \<and> snd S \<le> snd S'"
proof -
  obtain T m where S: "S = (T, m)" by (cases S)
  have old: "issued (grown own m q) m' l" if "T n = Some l" "m \<le> m'" for n l m'
    using server_okD(3) [OF assms(2) [unfolded S] that(1)] that(2) by (auto intro: issued_mono grown_old)
  have new: "issued (grown own m (SCreate l)) (Suc m) (stored l m)" for l
    by (auto simp: issued_def grown_def)
  from assms(1) show ?thesis
    unfolding S using old new assms(2) [unfolded S] assms(3)
    by cases (auto simp: server_ok_def split: if_splits)
qed

lemma serves_kept:
  assumes "serves S q r S'" and "fst S n = Some l" and "q \<noteq> SDelete n (leaseUID l)"
  shows "fst S' n = Some l"
  using assms by cases auto

inductive_cases serves_listE: "serves S (SList s) (LeasesA (Inr ls)) S'"
inductive_cases serves_createE: "serves S (SCreate l) (LeaseA (Inr l')) S'"
inductive_cases serves_getE: "serves S (SGet n) (LeaseA (Inr l)) S'"

lemma serves_list:
  "serves S (SList s) (LeasesA (Inr ls)) S' \<Longrightarrow> S' = S \<and> set ls \<subseteq> ran (fst S) \<and> distinct ls"
  by (erule serves_listE) simp

lemma attributes_cases:
  assumes "attributes a holder address (q, r)"
  obtains (create) k l' where "q = SCreate (leaseFor a holder address k)" "r = LeaseA (Inr l')"
  | (get) l where "q = SGet (ClaimName (al_MeshName a) address)" "r = LeaseA (Inr l)" "holderOf l = holder"
  | (lst) s ls l where "q = SList s" "r = LeasesA (Inr ls)" "l \<in> set ls" "holderOf l = holder" "leaseAddress l = address"
  using assms by (auto simp: attributes_def split: storereq.splits storeresp.splits sum.splits)

lemma serves_attributes:
  assumes "serves S q r S'" and "attributes a holder address (q, r)" and "server_ok (al_MeshName a) own S"
  shows "holds S' (al_MeshName a) holder address"
  using assms(2)
proof (cases rule: attributes_cases)
  case (create k l')
  with assms(1) show ?thesis by (auto simp: holds_def elim!: serves_createE)
next
  case (get l)
  with assms(1) show ?thesis by (auto simp: holds_def elim!: serves_getE)
next
  case (lst s ls l)
  with assms(1) have "S' = S" "l \<in> ran (fst S)" using serves_list [of S s ls S'] by auto
  with lst assms(3) show ?thesis by (auto simp: holds_def server_ok_def ran_def)
qed


lemma foreign_delete:
  assumes "issued own m l" and "fst S n = Some l" and "server_ok mesh own S" and "snd S = m"
    and "listed_ok own m h" and "claimGuard a holder h (SDelete n (leaseUID l))"
  shows "holderOf l = holder"
proof -
  from assms(6) obtain s ls l' where "(SList s, LeasesA (Inr ls)) \<in> set h" "l' \<in> set ls" "holderOf l' = holder"
      "leaseUID l' = leaseUID l"
    by (auto simp: claimGuard_def)
  with assms(5) have "issued own m l'" by (auto simp: listed_ok_def)
  with assms(1) \<open>leaseUID l' = leaseUID l\<close> \<open>holderOf l' = holder\<close> show ?thesis by (auto simp: issued_def)
qed

text \<open>A claim that somebody holds survives the requests of the others.\<close>

lemma holds_kept:
  assumes "holds S mesh holder address" and "server_ok mesh own S" and "serves S q r S'"
    and "listed_ok own (snd S) h" and "claimGuard a holder' h q"
    and "holder' = holder \<Longrightarrow> \<forall>u. q \<noteq> SDelete (ClaimName mesh address) u"
  shows "holds S' mesh holder address"
proof -
  from assms(1) obtain l where l: "fst S (ClaimName mesh address) = Some l" "holderOf l = holder"
    by (auto simp: holds_def)
  have "issued own (snd S) l" using assms(2) l(1) by (auto simp: server_ok_def)
  from foreign_delete [OF this l(1) assms(2) refl assms(4)]
  have "q \<noteq> SDelete (ClaimName mesh address) (leaseUID l)"
    using assms(5,6) l(2) by auto
  from serves_kept [OF assms(3) l(1) this] l(2) show ?thesis by (auto simp: holds_def)
qed

lemma orderly_snoc:
  assumes "orderly a h" and "serves S q r S'" and "server_ok (al_MeshName a) own S"
  shows "orderly a (h @ [(q, r)])"
proof -
  have "distinct (map (\<lambda>l. leaseName l) ls) \<and> (\<forall>l \<in> set ls. leaseName l = ClaimName (al_MeshName a) (leaseAddress l))"
    if "q = SList s" "r = LeasesA (Inr ls)" for s ls
  proof -
    from that assms(2) have ls: "set ls \<subseteq> ran (fst S)" "distinct ls" using serves_list by auto
    then have key: "fst S (leaseName l) = Some l \<and> leaseName l = ClaimName (al_MeshName a) (leaseAddress l)" if "l \<in> set ls" for l
      using that assms(3) by (auto simp: ran_def server_ok_def)
    then have "inj_on (\<lambda>l. leaseName l) (set ls)" by (metis (mono_tags, lifting) inj_onI option.inject)
    with ls(2) key show ?thesis by (simp add: distinct_map)
  qed
  with assms(1) show ?thesis by (auto simp: orderly_def)
qed

lemma serves_mono: "serves S q r S' \<Longrightarrow> snd S \<le> snd S'"
  by (erule serves.cases) auto

lemma listed_grown:
  assumes "listed_ok own (snd S) h" and "serves S q r S'"
  shows "listed_ok (grown own (snd S) q) (snd S') h"
  using assms(1) serves_mono [OF assms(2)] unfolding listed_ok_def
  by (blast intro: issued_mono grown_old)

lemma listed_snoc:
  assumes "listed_ok own (snd S) h" and "serves S q r S'" and "server_ok mesh own S"
  shows "listed_ok (grown own (snd S) q) (snd S') (h @ [(q, r)])"
proof -
  have "issued (grown own (snd S) q) (snd S') l" if "q = SList s" "r = LeasesA (Inr ls)" "l \<in> set ls" for s ls l
  proof -
    from that assms(2) have l: "S' = S" "l \<in> ran (fst S)" using serves_list [of S s ls S'] by auto
    then obtain n where "fst S n = Some l" by (auto simp: ran_def)
    with assms(3) have "issued own (snd S) l" by (auto simp: server_ok_def)
    with l that(1) show ?thesis by (simp add: grown_def)
  qed
  with listed_grown [OF assms(1,2)] show ?thesis by (auto simp: listed_ok_def)
qed

lemma step_ok:
  assumes inv: "claim_inv mesh a rq own (S, P)" and pi: "P i = (h, Req q k)" and sv: "serves S q r S'"
    and mesh: "\<And>i. al_MeshName (a i) = mesh" and inj: "inj (\<lambda>i. rq_Holder (rq i))"
  shows "claim_inv mesh a rq (grown own (snd S) q) (S', P(i := (h @ [(q, r)], k r)))"
proof -
  have ok: "server_ok mesh own S"
    and li: "listed_ok own (snd S) (fst (P j))" and oj: "orderly (a j) (fst (P j))"
    and ow: "owned (a j) (rq_Holder (rq j)) (fst (P j)) address \<Longrightarrow> holds S mesh (rq_Holder (rq j)) address"
    and sj: "safe (claimGuard (a j) (rq_Holder (rq j))) (allocPost (a j) (rq j)) (snd (P j)) (fst (P j))" for j address
    using inv by (auto simp: claim_inv_def)
  have g: "claimGuard (a i) (rq_Holder (rq i)) h q" and next_safe:
    "safe (claimGuard (a i) (rq_Holder (rq i))) (allocPost (a i) (rq i)) (k r) (h @ [(q, r)])"
    using sj [of i] pi by auto
  have lh: "listed_ok own (snd S) h" and oh: "orderly (a i) h" using li [of i] oj [of i] pi by auto
  have ok': "server_ok mesh (grown own (snd S) q) S'"
  proof -
    have "leaseName l = ClaimName mesh (leaseAddress l)" if "q = SCreate l" for l
      using g that mesh by (auto simp: claimGuard_def)
    with serves_ok [OF sv ok] show ?thesis by blast
  qed
  have own: "holds S' mesh (rq_Holder (rq i)) address" if "owned (a i) (rq_Holder (rq i)) (h @ [(q, r)]) address" for address
    using owned_snoc [OF that]
  proof (elim disjE conjE)
    assume "attributes (a i) (rq_Holder (rq i)) address (q, r)"
    from serves_attributes [OF sv this] ok mesh show ?thesis by auto
  next
    assume "owned (a i) (rq_Holder (rq i)) h address" "\<forall>u. q \<noteq> SDelete (ClaimName (al_MeshName (a i)) address) u"
    with holds_kept [OF ow ok sv lh g] pi mesh show ?thesis by auto
  qed
  have other: "holds S' mesh (rq_Holder (rq j)) address" if "j \<noteq> i" "owned (a j) (rq_Holder (rq j)) (fst (P j)) address" for j address
    by (rule holds_kept [OF ow [OF that(2)] ok sv lh g]) (use that(1) inj in \<open>auto dest: injD\<close>)
  show ?thesis
    unfolding claim_inv_def
    using ok' listed_snoc [OF lh sv ok] orderly_snoc [OF oh sv] ok own next_safe other listed_grown [OF li sv] oj sj mesh
    by auto
qed

lemma claim_inv_reachable:
  assumes "claim_step\<^sup>*\<^sup>* (S, P) cfg'" and "claim_inv mesh a rq own (S, P)"
    and "\<And>i. al_MeshName (a i) = mesh" and "inj (\<lambda>i. rq_Holder (rq i))"
  shows "\<exists>own'. claim_inv mesh a rq own' cfg'"
  using assms(1,2)
proof (induction rule: rtranclp_induct)
  case (step cfg cfg')
  from step.hyps(2) obtain S P i h q k r S' where "cfg = (S, P)" "cfg' = (S', P(i := (h @ [(q, r)], k r)))"
      "P i = (h, Req q k)" "serves S q r S'"
    by (auto elim: claim_step.cases)
  with step step_ok assms(3,4) show ?case by metis
qed auto

text \<open>
  C25. Two claimants never end with the same address: when any number of holders, each its own, run
  \<open>Allocate\<close> for one mesh in any interleaving, with failures and lost answers, the addresses of
  those that returned are pairwise different, and each is still claimed by its holder on the server.
\<close>

theorem claims_exclusive:
  assumes "\<And>i. al_MeshName (a i) = mesh" and "inj (\<lambda>i. rq_Holder (rq i))"
    and "server_ok mesh own S"
    and "claim_step\<^sup>*\<^sup>* (S, \<lambda>i. ([], Allocator_Allocate (a i) (rq i))) (S', P)"
    and "P i = (h, Ret (Inr r))" and "P j = (h', Ret (Inr r'))" and "i \<noteq> j"
  shows "cr_Address r \<noteq> cr_Address r' \<and> holds S' mesh (rq_Holder (rq i)) (cr_Address r)"
proof -
  have "claim_inv mesh a rq own (S, \<lambda>i. ([], Allocator_Allocate (a i) (rq i)))"
    using assms(3) by (auto simp: claim_inv_def listed_ok_def orderly_def owned_def Allocator_safe)
  from claim_inv_reachable [OF assms(4) this assms(1,2)]
  obtain own' where inv: "claim_inv mesh a rq own' (S', P)" by auto
  have held: "holds S' mesh (rq_Holder (rq n)) (cr_Address x)" if "P n = (g, Ret (Inr x))" for n g x
    using inv that by (auto simp: claim_inv_def allocPost_def ownsResult_def dest!: spec [of _ n])
  from held [OF assms(5)] held [OF assms(6)] assms(2,7) show ?thesis
    by (auto simp: holds_def dest: injD)
qed

subsection \<open>Example\<close>

text \<open>Two holders whose names hash to one address: the second moves on.\<close>

inductive serves_all :: "server \<Rightarrow> (storereq \<times> storeresp) list \<Rightarrow> server \<Rightarrow> bool" where
  none: "serves_all S [] S"
| more: "serves S q r S' \<Longrightarrow> serves_all S' t S'' \<Longrightarrow> serves_all S ((q, r) # t) S''"

lemma claimant_runs:
  "serves_all S t S' \<Longrightarrow> P i = (h, p) \<Longrightarrow> runs p t x \<Longrightarrow> claim_step\<^sup>*\<^sup>* (S, P) (S', P(i := (h @ t, Ret x)))"
proof (induction arbitrary: P h p rule: serves_all.induct)
  case (none S)
  then have "p = Ret x" by (auto elim: runs.cases)
  with none have "P(i := (h @ [], Ret x)) = P" by auto
  then show ?case by simp
next
  case (more S q r S' t S'')
  then obtain k where p: "p = Req q k" and k: "runs (k r) t x" by (auto elim: runs.cases)
  have "claim_step (S, P) (S', P(i := (h @ [(q, r)], k r)))"
    using more.prems(1) p more.hyps(1) by (auto intro: claim_step.intros)
  also have "claim_step\<^sup>*\<^sup>* (S', P(i := (h @ [(q, r)], k r))) (S'', P(i := (h @ (q, r) # t, Ret x)))"
    using more.IH [of "P(i := (h @ [(q, r)], k r))" "h @ [(q, r)]" "k r"] k by (simp add: fun_upd_def cong: if_cong)
  finally show ?case .
qed

definition exholder :: "nat \<Rightarrow> string" where
  "exholder i = (if i = 0 then ''b'' else CHR ''d'' # replicate (i - 1) (CHR ''z''))"

abbreviation "exlease0 \<equiv> leaseFor exalloc ''b'' ''10.0.0.2/32'' 0"
abbreviation "exlease1 \<equiv> leaseFor exalloc ''d'' ''10.0.0.1/32'' 1"
abbreviation "exselector h \<equiv> ''wirekube.io/claim=address,wirekube.io/mesh=m,wirekube.io/peer-name='' @ h"

definition extrace0 :: "(storereq \<times> storeresp) list" where
  "extrace0 = [(SList (exselector ''b''), LeasesA (Inr [])), (SCreate exlease0, LeaseA (Inr (stored exlease0 0)))]"

definition extrace1 :: "(storereq \<times> storeresp) list" where
  "extrace1 = [(SList (exselector ''d''), LeasesA (Inr [])),
     (SCreate (leaseFor exalloc ''d'' ''10.0.0.2/32'' 0), LeaseA (Inl (StatusError AlreadyExists))),
     (SGet ''wirekube-m-10-0-0-2'', LeaseA (Inr (stored exlease0 0))),
     (SCreate exlease1, LeaseA (Inr (stored exlease1 1)))]"

definition exresult :: "string \<Rightarrow> string \<Rightarrow> nat \<Rightarrow> ClaimResult" where
  "exresult address name n = \<lparr>cr_Address = address, cr_ClaimName = name, cr_ClaimUID = freshUID n, cr_Attempt = int n,
     cr_Adopted = False, cr_Moved = (n \<noteq> 0)\<rparr>"

abbreviation "exresult0 \<equiv> exresult ''10.0.0.2/32'' ''wirekube-m-10-0-0-2'' 0"
abbreviation "exresult1 \<equiv> exresult ''10.0.0.1/32'' ''wirekube-m-10-0-0-1'' 1"

lemma exruns0: "runs (Allocator_Allocate exalloc (exclaim ''b'')) extrace0 (Inr exresult0)"
proof -
  let ?p = "Allocator_Allocate exalloc (exclaim ''b'')"
  have "feed ?p (map snd extrace0) = extrace0" by code_simp
  moreover have "feed_result ?p (map snd extrace0) = Some (Inr exresult0)" by code_simp
  ultimately show ?thesis using runs_feed by metis
qed

lemma exruns1: "runs (Allocator_Allocate exalloc (exclaim ''d'')) extrace1 (Inr exresult1)"
proof -
  let ?p = "Allocator_Allocate exalloc (exclaim ''d'')"
  have "feed ?p (map snd extrace1) = extrace1" by code_simp
  moreover have "feed_result ?p (map snd extrace1) = Some (Inr exresult1)" by code_simp
  ultimately show ?thesis using runs_feed by metis
qed

lemma exnames: "leaseName exlease0 = ''wirekube-m-10-0-0-2''" "leaseName exlease1 = ''wirekube-m-10-0-0-1''"
  by (simp_all, code_simp+)

definition exserver0 :: server where
  "exserver0 = ([''wirekube-m-10-0-0-2'' \<mapsto> stored exlease0 0], 1)"

definition exserver1 :: server where
  "exserver1 = ([''wirekube-m-10-0-0-2'' \<mapsto> stored exlease0 0, ''wirekube-m-10-0-0-1'' \<mapsto> stored exlease1 1], 2)"

lemma exserves0: "serves_all (Map.empty, 0) extrace0 exserver0"
proof -
  have "serves (Map.empty, 0) (SCreate exlease0) (LeaseA (Inr (stored exlease0 0))) exserver0"
    using created [of Map.empty exlease0 0] exnames(1) by (simp add: exserver0_def del: leaseFor_simps)
  then show ?thesis
    unfolding extrace0_def
    by (intro serves_all.more [OF serves.listed [of "[]" Map.empty 0]]) (simp_all, elim serves_all.more, rule serves_all.none)
qed

lemma exserves1: "serves_all exserver0 extrace1 exserver1"
proof -
  have n: "leaseName (leaseFor exalloc ''d'' ''10.0.0.2/32'' 0) = ''wirekube-m-10-0-0-2''" using exnames(1) by simp
  have "serves exserver0 (SCreate exlease1) (LeaseA (Inr (stored exlease1 1))) exserver1"
    using created [of "fst exserver0" exlease1 1] exnames(2)
    by (simp add: exserver0_def exserver1_def numeral_eq_Suc del: leaseFor_simps)
  moreover have "serves exserver0 (SGet ''wirekube-m-10-0-0-2'') (LeaseA (Inr (stored exlease0 0))) exserver0"
    unfolding exserver0_def by (rule found) simp
  moreover have "serves exserver0 (SCreate (leaseFor exalloc ''d'' ''10.0.0.2/32'' 0)) (LeaseA (Inl (StatusError AlreadyExists))) exserver0"
    unfolding exserver0_def by (rule exists) (simp add: n del: leaseFor_simps)
  moreover have "serves exserver0 (SList (exselector ''d'')) (LeasesA (Inr [])) exserver0"
    unfolding exserver0_def by (rule listed) auto
  ultimately show ?thesis
    unfolding extrace1_def by (elim serves_all.more) (rule serves_all.none)
qed

theorem claims_exclusive_witness:
  "cr_Address exresult0 \<noteq> cr_Address exresult1 \<and> holds exserver1 ''m'' ''b'' (cr_Address exresult0)"
proof -
  let ?P = "\<lambda>i. ([], Allocator_Allocate exalloc (exclaim (exholder i)))"
  let ?Q = "?P(0 := ([] @ extrace0, Ret (Inr exresult0)))"
  let ?R = "?Q(1 := ([] @ extrace1, Ret (Inr exresult1)))"
  have first: "claim_step\<^sup>*\<^sup>* ((Map.empty, 0), ?P) (exserver0, ?Q)"
    by (rule claimant_runs [OF exserves0 _ exruns0]) (simp add: exholder_def)
  have second: "claim_step\<^sup>*\<^sup>* (exserver0, ?Q) (exserver1, ?R)"
    by (rule claimant_runs [OF exserves1 _ exruns1]) (simp add: exholder_def)
  note steps = rtranclp_trans [OF first second]
  have "inj (\<lambda>i. rq_Holder (exclaim (exholder i)))"
    by (rule injI) (auto simp: exclaim_def exholder_def split: if_splits dest: arg_cong [where f = length])
  moreover have "server_ok ''m'' (\<lambda>_. []) (Map.empty, 0)" by (simp add: server_ok_def)
  ultimately show ?thesis
    using claims_exclusive [of "\<lambda>_. exalloc" "''m''" "\<lambda>i. exclaim (exholder i)", OF _ _ _ steps, of "\<lambda>_. []" 0 _ exresult0 1 _ exresult1]
    by (simp add: exalloc_def exclaim_def exholder_def)
qed

end
