(* ===== verification/GGUF.thy ===== *)
theory GGUF
  imports Go_URL Validation
begin

section \<open>Reading the header of a GGUF file\<close>

text \<open>
  \<open>internal/native/devruntime/gguf.go\<close>: the push parser that reads the memory-relevant geometry
  of a model from the stream of bytes that is being hashed, and the profile computed from it. The
  step to run next is a constructor for each method that \<open>expect\<close> is called with. A byte is a
  character, a slice a string; \<open>uint64\<close> values are natural numbers below 2\<open>\<^sup>64\<close>,
  converted to \<open>int64\<close> with the wrap-around of Go.

  Every slice and every \<open>binary.LittleEndian\<close> read that the steps make is checked: reading past the length of the data
  is the error of a panic.

  Shown: \<open>Feed\<close> returns on every input without leaving the bounds of a slice, keeps at most
  4095 bytes of unconsumed input between two calls, gives the same state however the stream is cut into chunks, and a profile satisfies the
  bounds the schema of \<open>ModelMemoryProfile\<close> demands. Its figure is the sum over the blocks that cache, unless a
  hybrid model gives a head count per block, where the code adds up the wrong blocks (\<open>hybrid_understated\<close>).
\<close>

subsection \<open>Types\<close>

record GGUFMemoryProfile =
  gp_Architecture :: string
  gp_BlockCount :: int32
  gp_KVCacheLayers :: int32
  gp_KVBytesPerToken :: int64
  gp_TrainedContextLength :: int32

definition ggufKVArchitectures :: "string list" where
  "ggufKVArchitectures = [''llama'', ''llama4'', ''qwen2'', ''qwen2moe'', ''qwen3'', ''qwen3moe'', ''qwen35'',
     ''gemma2'', ''gemma3'', ''phi3'', ''mistral'', ''mixtral'']"

definition ggufWantedSuffixes :: "string list" where
  "ggufWantedSuffixes = [''block_count'', ''embedding_length'', ''context_length'', ''attention.head_count'',
     ''attention.head_count_kv'', ''attention.key_length'', ''attention.value_length'', ''full_attention_interval'']"

abbreviation (input) "ggufMaxMetadataKVs \<equiv> (65536 :: nat)"
abbreviation (input) "ggufMaxKeyLength \<equiv> (4096 :: nat)"
abbreviation (input) "ggufMaxStringValue \<equiv> (4096 :: nat)"
abbreviation (input) "ggufMaxArrayEntries \<equiv> (4096 :: nat)"
abbreviation (input) "ggufMaxBlockCount \<equiv> (4096 :: int64)"
abbreviation (input) "ggufMaxHeadCount \<equiv> (1024 :: int64)"
abbreviation (input) "ggufMaxHeadLength \<equiv> (65536 :: int64)"
abbreviation (input) "ggufMinKVPerToken \<equiv> (1024 :: int64)"
abbreviation (input) "ggufMaxKVPerToken \<equiv> (8388608 :: int64)"
abbreviation (input) "ggufKVBytesPerValue \<equiv> (2 :: int64)"

abbreviation (input) "ggufTypeUint8 \<equiv> (0 :: nat)"
abbreviation (input) "ggufTypeInt8 \<equiv> (1 :: nat)"
abbreviation (input) "ggufTypeUint16 \<equiv> (2 :: nat)"
abbreviation (input) "ggufTypeInt16 \<equiv> (3 :: nat)"
abbreviation (input) "ggufTypeUint32 \<equiv> (4 :: nat)"
abbreviation (input) "ggufTypeInt32 \<equiv> (5 :: nat)"
abbreviation (input) "ggufTypeFloat32 \<equiv> (6 :: nat)"
abbreviation (input) "ggufTypeBool \<equiv> (7 :: nat)"
abbreviation (input) "ggufTypeString \<equiv> (8 :: nat)"
abbreviation (input) "ggufTypeArray \<equiv> (9 :: nat)"
abbreviation (input) "ggufTypeUint64 \<equiv> (10 :: nat)"
abbreviation (input) "ggufTypeInt64 \<equiv> (11 :: nat)"
abbreviation (input) "ggufTypeFloat64 \<equiv> (12 :: nat)"

definition ggufScalarSizes :: "nat \<Rightarrow> nat option" where
  "ggufScalarSizes t =
     (if t \<in> {ggufTypeUint8, ggufTypeInt8, ggufTypeBool} then Some 1
      else if t \<in> {ggufTypeUint16, ggufTypeInt16} then Some 2
      else if t \<in> {ggufTypeUint32, ggufTypeInt32, ggufTypeFloat32} then Some 4
      else if t \<in> {ggufTypeUint64, ggufTypeInt64, ggufTypeFloat64} then Some 8
      else None)"

datatype gstep =
    StepHeader
  | StepKeyLength
  | StepKey
  | StepValueType
  | StepStringLength
  | StepArchitecture
  | StepScalarValue
  | StepArrayHeader
  | StepArrayValue
  | StepSkippedArrayStringLength

record ggufScanner =
  gs_pending :: string
  gs_need :: nat
  gs_skip :: int64
  gs_step :: "gstep option"
  gs_failed :: bool
  gs_done :: bool
  gs_kvRemaining :: nat
  gs_reason :: string
  gs_arch :: string
  gs_recurrent :: bool
  gs_scalars :: "int64 gomap gomap"
  gs_arrays :: "int64 list gomap gomap"
  gs_currentKey :: string
  gs_currentType :: nat
  gs_arrayElemType :: nat
  gs_arrayRemaining :: nat
  gs_arrayValues :: "int64 list"
  gs_arrayWanted :: bool

subsection \<open>Small functions\<close>

definition sliceBounds :: go_error where
  "sliceBounds = Sentinel ''panic: slice bounds out of range''"

text \<open>\<open>data[lo:hi]\<close>, and \<open>binary.LittleEndian\<close> of the first \<open>w\<close> bytes; \<open>data[0]\<close> is that of one byte.\<close>

definition slice :: "nat \<Rightarrow> nat \<Rightarrow> string \<Rightarrow> string res" where
  "slice lo hi data = (if hi \<le> length data then Inr (take (hi - lo) (drop lo data)) else Inl sliceBounds)"

fun leUint :: "string \<Rightarrow> nat" where
  "leUint [] = 0"
| "leUint (c # cs) = byte c + 256 * leUint cs"

definition leGet :: "nat \<Rightarrow> string \<Rightarrow> nat res" where
  "leGet w data = (if length data < w then Inl sliceBounds else Inr (leUint (take w data)))"

definition toSigned :: "nat \<Rightarrow> nat \<Rightarrow> int" where \<comment> \<open>\<open>intN (uintN)\<close>\<close>
  "toSigned bits n = (if n < 2 ^ (bits - 1) then int n else int n - 2 ^ bits)"

definition ggufScalarToInt64 :: "nat \<Rightarrow> string \<Rightarrow> int64 option res" where
  "ggufScalarToInt64 valueType data =
     (if valueType = ggufTypeUint8 then bind_res (leGet 1 data) (\<lambda>n. Inr (Some (int n)))
      else if valueType = ggufTypeInt8 then bind_res (leGet 1 data) (\<lambda>n. Inr (Some (toSigned 8 n)))
      else if valueType = ggufTypeUint16 then bind_res (leGet 2 data) (\<lambda>n. Inr (Some (int n)))
      else if valueType = ggufTypeInt16 then bind_res (leGet 2 data) (\<lambda>n. Inr (Some (toSigned 16 n)))
      else if valueType = ggufTypeUint32 then bind_res (leGet 4 data) (\<lambda>n. Inr (Some (int n)))
      else if valueType = ggufTypeInt32 then bind_res (leGet 4 data) (\<lambda>n. Inr (Some (toSigned 32 n)))
      else if valueType = ggufTypeUint64 then bind_res (leGet 8 data) (\<lambda>n. Inr (if n > 2 ^ 62 then None else Some (int n)))
      else if valueType = ggufTypeInt64 then bind_res (leGet 8 data) (\<lambda>n. Inr (Some (toSigned 64 n)))
      else Inr None)"

definition splitGGUFKey :: "string \<Rightarrow> (string \<times> string) option" where
  "splitGGUFKey key =
     (let (pfx, rest) = cut (CHR ''.'') key in
      if CHR ''.'' \<notin> set key \<or> pfx = [] \<or> rest \<notin> set ggufWantedSuffixes then None else Some (pfx, rest))"

definition wantedScalarKey :: "ggufScanner \<Rightarrow> bool" where
  "wantedScalarKey s = (case splitGGUFKey (gs_currentKey s) of Some (_, sfx) \<Rightarrow> sfx \<in> set ggufWantedSuffixes | None \<Rightarrow> False)"

definition putInner :: "'v gomap gomap \<Rightarrow> string \<Rightarrow> string \<Rightarrow> 'v \<Rightarrow> 'v gomap gomap" where
  "putInner m pfx sfx v = gomap_set m pfx (gomap_set (case map_of m pfx of None \<Rightarrow> [] | Some inner \<Rightarrow> inner) sfx v)"

subsection \<open>Steps\<close>

definition expect :: "nat \<Rightarrow> gstep \<Rightarrow> ggufScanner \<Rightarrow> ggufScanner" where
  "expect need step s = s\<lparr>gs_need := need, gs_step := Some step\<rparr>"

definition failScan :: "string \<Rightarrow> ggufScanner \<Rightarrow> ggufScanner" where
  "failScan reason s = s\<lparr>gs_reason := reason, gs_failed := True\<rparr>"

definition dec64 :: "nat \<Rightarrow> nat" where
  "dec64 n = (if n = 0 then 2 ^ 64 - 1 else n - 1)"

definition nextKV :: "ggufScanner \<Rightarrow> ggufScanner" where
  "nextKV s =
     (let s = s\<lparr>gs_kvRemaining := dec64 (gs_kvRemaining s)\<rparr> in
      if gs_kvRemaining s = 0 then s\<lparr>gs_done := True\<rparr> else expect 8 StepKeyLength s)"

definition stepHeader :: "string \<Rightarrow> ggufScanner \<Rightarrow> ggufScanner res" where
  "stepHeader data s =
     bind_res (slice 0 4 data) (\<lambda>magic.
     if magic \<noteq> ''GGUF'' then Inr (failScan ''missing GGUF magic'' s)
     else bind_res (bind_res (slice 4 8 data) (leGet 4)) (\<lambda>version.
     if version \<noteq> 2 \<and> version \<noteq> 3 then Inr (failScan (''unsupported GGUF version '' @ FormatInt (int version)) s)
     else bind_res (bind_res (slice 16 24 data) (leGet 8)) (\<lambda>kvCount.
     Inr (if kvCount = 0 \<or> kvCount > ggufMaxMetadataKVs then failScan (''implausible metadata count '' @ FormatInt (int kvCount)) s
          else expect 8 StepKeyLength (s\<lparr>gs_kvRemaining := kvCount\<rparr>)))))"

definition stepKeyLength :: "string \<Rightarrow> ggufScanner \<Rightarrow> ggufScanner res" where
  "stepKeyLength data s =
     bind_res (leGet 8 data) (\<lambda>len.
     Inr (if len = 0 \<or> len > ggufMaxKeyLength then failScan (''implausible key length '' @ FormatInt (int len)) s
          else expect len StepKey s))"

definition stepKey :: "string \<Rightarrow> ggufScanner \<Rightarrow> ggufScanner" where
  "stepKey data s =
     (let (pfx, rest) = cut (CHR ''.'') data;
          s = s\<lparr>gs_currentKey := data\<rparr>;
          s = (if CHR ''.'' \<in> set data \<and> pfx \<noteq> [] \<and> HasPrefix rest ''ssm.'' then s\<lparr>gs_recurrent := True\<rparr> else s)
      in expect 4 StepValueType s)"

definition stepValueType :: "string \<Rightarrow> ggufScanner \<Rightarrow> ggufScanner res" where
  "stepValueType data s =
     bind_res (leGet 4 data) (\<lambda>valueType.
     let s = s\<lparr>gs_currentType := valueType\<rparr> in
     Inr (if gs_currentType s = ggufTypeString then expect 8 StepStringLength s
      else if gs_currentType s = ggufTypeArray then expect 12 StepArrayHeader s
      else case ggufScalarSizes (gs_currentType s) of
        None \<Rightarrow> failScan (''unknown metadata type '' @ FormatInt (int (gs_currentType s))) s
      | Some width \<Rightarrow>
          if wantedScalarKey s then expect width StepScalarValue s
          else nextKV (s\<lparr>gs_skip := int width\<rparr>)))"

definition stepStringLength :: "string \<Rightarrow> ggufScanner \<Rightarrow> ggufScanner res" where
  "stepStringLength data s =
     bind_res (leGet 8 data) (\<lambda>len.
     Inr (if gs_currentKey s = ''general.architecture'' then
        (if len = 0 \<or> len > ggufMaxStringValue then failScan (''implausible architecture length '' @ FormatInt (int len)) s
         else expect len StepArchitecture s)
      else nextKV (s\<lparr>gs_skip := wrap64 (int len)\<rparr>)))"

definition stepArchitecture :: "string \<Rightarrow> ggufScanner \<Rightarrow> ggufScanner" where
  "stepArchitecture data s = nextKV (s\<lparr>gs_arch := data\<rparr>)"

definition stepScalarValue :: "string \<Rightarrow> ggufScanner \<Rightarrow> ggufScanner res" where
  "stepScalarValue data s =
     bind_res (ggufScalarToInt64 (gs_currentType s) data) (\<lambda>v. Inr (case v of
        None \<Rightarrow> nextKV s
      | Some value \<Rightarrow>
         nextKV (case splitGGUFKey (gs_currentKey s) of
             None \<Rightarrow> s
           | Some (pfx, sfx) \<Rightarrow> s\<lparr>gs_scalars := putInner (gs_scalars s) pfx sfx value\<rparr>)))"

definition arrayHeader :: "nat \<Rightarrow> nat \<Rightarrow> ggufScanner \<Rightarrow> ggufScanner" where \<comment> \<open>\<open>stepArrayHeader\<close> after the two reads\<close>
  "arrayHeader elemType remaining s =
     (let scalar = ggufScalarSizes elemType;
          wanted = (case splitGGUFKey (gs_currentKey s) of Some (_, sfx) \<Rightarrow> sfx = ''attention.head_count_kv'' | None \<Rightarrow> False);
          s = s\<lparr>gs_arrayElemType := elemType, gs_arrayRemaining := remaining, gs_arrayWanted := wanted \<and> scalar \<noteq> None\<rparr>
      in if remaining = 0 then nextKV s
         else case scalar of
           Some width \<Rightarrow>
             if wanted then
               (if remaining > ggufMaxArrayEntries
                then failScan (''implausible per-layer array of '' @ FormatInt (int remaining) @ '' entries'') s
                else expect width StepArrayValue (s\<lparr>gs_arrayValues := []\<rparr>))
             else nextKV (s\<lparr>gs_skip := wrap64 (wrap64 (int remaining) * int width)\<rparr>)
         | None \<Rightarrow>
             if elemType = ggufTypeString then expect 8 StepSkippedArrayStringLength s
             else failScan (''unsupported array element type '' @ FormatInt (int elemType)) s)"

definition stepArrayHeader :: "string \<Rightarrow> ggufScanner \<Rightarrow> ggufScanner res" where
  "stepArrayHeader data s =
     bind_res (bind_res (slice 0 4 data) (leGet 4)) (\<lambda>elemType.
     bind_res (bind_res (slice 4 12 data) (leGet 8)) (\<lambda>remaining.
     Inr (arrayHeader elemType remaining s)))"

definition arrayValue :: "int64 \<Rightarrow> ggufScanner \<Rightarrow> ggufScanner" where \<comment> \<open>\<open>stepArrayValue\<close> with the value read\<close>
  "arrayValue value s =
     (let s = s\<lparr>gs_arrayValues := gs_arrayValues s @ [value], gs_arrayRemaining := dec64 (gs_arrayRemaining s)\<rparr> in
      if gs_arrayRemaining s > 0
      then expect (case ggufScalarSizes (gs_arrayElemType s) of Some n \<Rightarrow> n | None \<Rightarrow> 0) StepArrayValue s
      else let (pfx, sfx) = (case splitGGUFKey (gs_currentKey s) of Some x \<Rightarrow> x | None \<Rightarrow> ([], [])) in
        nextKV (s\<lparr>gs_arrays := putInner (gs_arrays s) pfx sfx (gs_arrayValues s), gs_arrayValues := []\<rparr>))"

definition stepArrayValue :: "string \<Rightarrow> ggufScanner \<Rightarrow> ggufScanner res" where
  "stepArrayValue data s =
     bind_res (ggufScalarToInt64 (gs_arrayElemType s) data) (\<lambda>v. Inr (case v of
        None \<Rightarrow> failScan ''non-integral per-layer head count'' s
      | Some value \<Rightarrow> arrayValue value s))"

definition stepSkippedArrayStringLength :: "string \<Rightarrow> ggufScanner \<Rightarrow> ggufScanner res" where
  "stepSkippedArrayStringLength data s =
     bind_res (leGet 8 data) (\<lambda>len.
     let s = s\<lparr>gs_skip := wrap64 (int len), gs_arrayRemaining := dec64 (gs_arrayRemaining s)\<rparr> in
     Inr (if gs_arrayRemaining s > 0 then expect 8 StepSkippedArrayStringLength s else nextKV s))"

fun runStep :: "gstep \<Rightarrow> string \<Rightarrow> ggufScanner \<Rightarrow> ggufScanner res" where
  "runStep StepHeader = stepHeader"
| "runStep StepKeyLength = stepKeyLength"
| "runStep StepKey = (\<lambda>data s. Inr (stepKey data s))"
| "runStep StepValueType = stepValueType"
| "runStep StepStringLength = stepStringLength"
| "runStep StepArchitecture = (\<lambda>data s. Inr (stepArchitecture data s))"
| "runStep StepScalarValue = stepScalarValue"
| "runStep StepArrayHeader = stepArrayHeader"
| "runStep StepArrayValue = stepArrayValue"
| "runStep StepSkippedArrayStringLength = stepSkippedArrayStringLength"

definition newGGUFScanner :: ggufScanner where
  "newGGUFScanner = expect 24 StepHeader \<lparr>gs_pending = [], gs_need = 0, gs_skip = 0, gs_step = None, gs_failed = False,
     gs_done = False, gs_kvRemaining = 0, gs_reason = [], gs_arch = [], gs_recurrent = False, gs_scalars = [], gs_arrays = [],
     gs_currentKey = [], gs_currentType = 0, gs_arrayElemType = 0, gs_arrayRemaining = 0, gs_arrayValues = [],
     gs_arrayWanted = False\<rparr>"

subsection \<open>The loop\<close>

text \<open>
  \<open>Feed\<close> may loop without consuming input, and it panics when it takes a negative number of
  bytes, calls a nil step or the step panics; the result is \<open>None\<close> when it does not return and an error when it
  panics.
\<close>

definition nilStep :: go_error where
  "nilStep = Sentinel ''panic: nil step''"

partial_function (option) Feed :: "ggufScanner \<Rightarrow> string \<Rightarrow> ggufScanner res option" where
  "Feed s input =
     (if input = [] \<or> gs_failed s \<or> gs_done s then Some (Inr s)
      else if gs_skip s > 0 then
        (let consumed = (if int (length input) > gs_skip s then gs_skip s else int (length input)) in
         Feed (s\<lparr>gs_skip := gs_skip s - consumed\<rparr>) (drop (nat consumed) input))
      else if gs_need s < length (gs_pending s) then Some (Inl sliceBounds)
      else
        (let n = min (gs_need s - length (gs_pending s)) (length input);
             s = s\<lparr>gs_pending := gs_pending s @ take n input\<rparr> in
         if length (gs_pending s) < gs_need s then Some (Inr s)
         else case gs_step s of
           None \<Rightarrow> Some (Inl nilStep)
         | Some step \<Rightarrow> (case runStep step (gs_pending s) (s\<lparr>gs_pending := [], gs_step := None\<rparr>) of
               Inl e \<Rightarrow> Some (Inl e)
             | Inr s \<Rightarrow> Feed s (drop n input))))"

text \<open>The same loop for a number of turns, which can be evaluated.\<close>

fun feedTurns :: "nat \<Rightarrow> ggufScanner \<Rightarrow> string \<Rightarrow> ggufScanner res option" where
  "feedTurns 0 s input = None"
| "feedTurns (Suc k) s input =
     (if input = [] \<or> gs_failed s \<or> gs_done s then Some (Inr s)
      else if gs_skip s > 0 then
        (let consumed = (if int (length input) > gs_skip s then gs_skip s else int (length input)) in
         feedTurns k (s\<lparr>gs_skip := gs_skip s - consumed\<rparr>) (drop (nat consumed) input))
      else if gs_need s < length (gs_pending s) then Some (Inl sliceBounds)
      else
        (let n = min (gs_need s - length (gs_pending s)) (length input);
             s = s\<lparr>gs_pending := gs_pending s @ take n input\<rparr> in
         if length (gs_pending s) < gs_need s then Some (Inr s)
         else case gs_step s of
           None \<Rightarrow> Some (Inl nilStep)
         | Some step \<Rightarrow> (case runStep step (gs_pending s) (s\<lparr>gs_pending := [], gs_step := None\<rparr>) of
               Inl e \<Rightarrow> Some (Inl e)
             | Inr s \<Rightarrow> feedTurns k s (drop n input))))"

lemma feedTurns_Feed: "feedTurns k s input = Some r \<Longrightarrow> Feed s input = Some r"
proof (induction k arbitrary: s input)
  case (Suc k)
  then show ?case by (subst Feed.simps) (auto simp: Let_def split: if_splits option.splits sum.splits)
qed simp

subsection \<open>The profile\<close>

definition headLengths :: "int64 gomap \<Rightarrow> (int64 \<times> int64) option" where
  "headLengths scalars =
     (let keyLength = map_of scalars ''attention.key_length''; valueLength = map_of scalars ''attention.value_length'' in
      case (keyLength, valueLength) of
        (Some k, Some v) \<Rightarrow> Some (k, v)
      | _ \<Rightarrow>
         (case (map_of scalars ''attention.head_count'', map_of scalars ''embedding_length'') of
            (Some headCount, Some embedding) \<Rightarrow>
              if headCount < 1 \<or> headCount > ggufMaxHeadCount \<or> embedding mod headCount \<noteq> 0 then None
              else let headLength = embedding div headCount in
                Some (case keyLength of Some k \<Rightarrow> k | None \<Rightarrow> headLength, case valueLength of Some v \<Rightarrow> v | None \<Rightarrow> headLength)
          | _ \<Rightarrow> None))"

definition kvHeadsOf :: "int64 gomap \<Rightarrow> int64 list option \<Rightarrow> int64 \<Rightarrow> int64 list option" where
  "kvHeadsOf scalars perLayer blockCount =
     (case perLayer of
        Some heads \<Rightarrow> if int (length heads) \<noteq> blockCount then None else Some heads
      | None \<Rightarrow>
         map_option (replicate (nat blockCount))
           (case map_of scalars ''attention.head_count_kv'' of
              Some uniform \<Rightarrow> Some uniform
            | None \<Rightarrow> map_of scalars ''attention.head_count''))"

definition cacheLayersOf :: "bool \<Rightarrow> int64 option \<Rightarrow> int64 \<Rightarrow> int64 option" where
  "cacheLayersOf recurrent interval blockCount =
     (case interval of
        None \<Rightarrow> if recurrent then None else Some blockCount
      | Some n \<Rightarrow>
          if n < 1 \<or> n > blockCount then None
          else if blockCount div n < 1 then None else Some (blockCount div n))"

fun sumKV :: "int64 \<Rightarrow> int64 list \<Rightarrow> int64 \<Rightarrow> int64 option" where
  "sumKV perHead [] acc = Some acc"
| "sumKV perHead (heads # rest) acc =
     (if heads < 0 \<or> heads > ggufMaxHeadCount then None
      else sumKV perHead rest (wrap64 (acc + wrap64 (heads * perHead))))"

definition inArch :: "'v gomap gomap \<Rightarrow> string \<Rightarrow> 'v gomap" where \<comment> \<open>a missing map reads as empty\<close>
  "inArch m arch = (case map_of m arch of None \<Rightarrow> [] | Some inner \<Rightarrow> inner)"

definition Profile :: "ggufScanner \<Rightarrow> GGUFMemoryProfile option" where
  "Profile s =
     (if gs_failed s \<or> gs_arch s = [] \<or> gs_arch s \<notin> set ggufKVArchitectures then None
      else
        (let scalars = inArch (gs_scalars s) (gs_arch s); arrays = inArch (gs_arrays s) (gs_arch s)
         in Option.bind (map_of scalars ''block_count'') (\<lambda>blockCount.
         if blockCount < 1 \<or> blockCount > ggufMaxBlockCount then None
         else Option.bind (map_of scalars ''context_length'') (\<lambda>contextLength.
         if contextLength < 1 \<or> contextLength > 2 ^ 24 then None
         else Option.bind (headLengths scalars) (\<lambda>(keyLength, valueLength).
         if keyLength < 1 \<or> keyLength > ggufMaxHeadLength \<or> valueLength < 1 \<or> valueLength > ggufMaxHeadLength then None
         else Option.bind (kvHeadsOf scalars (map_of arrays ''attention.head_count_kv'') blockCount) (\<lambda>kvHeads.
         Option.bind (cacheLayersOf (gs_recurrent s) (map_of scalars ''full_attention_interval'') blockCount) (\<lambda>cacheLayers.
         Option.bind (sumKV ((keyLength + valueLength) * ggufKVBytesPerValue) (take (nat cacheLayers) kvHeads) 0) (\<lambda>bytesPerToken.
         if bytesPerToken < ggufMinKVPerToken \<or> bytesPerToken > ggufMaxKVPerToken then None
         else Some \<lparr>gp_Architecture = gs_arch s, gp_BlockCount = blockCount, gp_KVCacheLayers = cacheLayers,
           gp_KVBytesPerToken = bytesPerToken, gp_TrainedContextLength = contextLength\<rparr>))))))))"

subsection \<open>The scanner never gets stuck\<close>

fun needOk :: "gstep \<Rightarrow> ggufScanner \<Rightarrow> bool" where
  "needOk StepHeader s \<longleftrightarrow> gs_need s = 24"
| "needOk StepKeyLength s \<longleftrightarrow> gs_need s = 8"
| "needOk StepKey s \<longleftrightarrow> 1 \<le> gs_need s \<and> gs_need s \<le> ggufMaxKeyLength"
| "needOk StepValueType s \<longleftrightarrow> gs_need s = 4"
| "needOk StepStringLength s \<longleftrightarrow> gs_need s = 8"
| "needOk StepArchitecture s \<longleftrightarrow> 1 \<le> gs_need s \<and> gs_need s \<le> ggufMaxStringValue"
| "needOk StepScalarValue s \<longleftrightarrow> ggufScalarSizes (gs_currentType s) = Some (gs_need s)"
| "needOk StepArrayHeader s \<longleftrightarrow> gs_need s = 12"
| "needOk StepArrayValue s \<longleftrightarrow> ggufScalarSizes (gs_arrayElemType s) = Some (gs_need s) \<and> 1 \<le> gs_arrayRemaining s"
| "needOk StepSkippedArrayStringLength s \<longleftrightarrow> gs_need s = 8 \<and> 1 \<le> gs_arrayRemaining s"

definition running :: "gstep \<Rightarrow> ggufScanner \<Rightarrow> bool" where
  "running st s \<longleftrightarrow> needOk st s \<and> (st \<noteq> StepHeader \<longrightarrow> 1 \<le> gs_kvRemaining s)"

definition scanner_ok :: "ggufScanner \<Rightarrow> bool" where
  "scanner_ok s \<longleftrightarrow>
     (if gs_failed s \<or> gs_done s then gs_pending s = []
      else \<exists>st. gs_step s = Some st \<and> length (gs_pending s) < gs_need s \<and> running st s)"

lemma ggufScalarSizes_pos: "ggufScalarSizes t = Some n \<Longrightarrow> 1 \<le> n \<and> n \<le> 8"
  by (auto simp: ggufScalarSizes_def split: if_splits)

lemma needOk_pos: "needOk st s \<Longrightarrow> 1 \<le> gs_need s \<and> gs_need s \<le> 4096"
  by (cases st) (auto dest: ggufScalarSizes_pos)

lemma new_ok: "scanner_ok newGGUFScanner"
  by (simp add: scanner_ok_def newGGUFScanner_def expect_def running_def)

lemma expect_ok:
  "gs_pending s = [] \<Longrightarrow> 1 \<le> n \<Longrightarrow> running st (expect n st s) \<Longrightarrow> scanner_ok (expect n st s)"
  by (simp add: scanner_ok_def expect_def)

lemma fail_ok: "gs_pending s = [] \<Longrightarrow> scanner_ok (failScan r s)"
  by (simp add: scanner_ok_def failScan_def)

lemma nextKV_ok: "gs_pending s = [] \<Longrightarrow> 1 \<le> gs_kvRemaining s \<Longrightarrow> scanner_ok (nextKV s)"
  by (auto simp: nextKV_def scanner_ok_def expect_def running_def dec64_def Let_def)

lemma arrayValue_ok:
  assumes "running StepArrayValue s" and "gs_pending s = []" and "\<not> gs_failed s" and "\<not> gs_done s"
  shows "scanner_ok (arrayValue v s)"
proof -
  let ?t = "s\<lparr>gs_arrayValues := gs_arrayValues s @ [v], gs_arrayRemaining := gs_arrayRemaining s - 1\<rparr>"
  have need: "ggufScalarSizes (gs_arrayElemType s) = Some (gs_need s)" "1 \<le> gs_arrayRemaining s" "1 \<le> gs_kvRemaining s"
    using assms(1) by (simp_all add: running_def)
  have more: "scanner_ok (expect (gs_need s) StepArrayValue ?t)" if "gs_arrayRemaining s \<noteq> 1"
    using that need assms(2) ggufScalarSizes_pos [OF need(1)] by (intro expect_ok) (auto simp: running_def expect_def)
  have final: "scanner_ok (nextKV (s\<lparr>gs_arrayRemaining := r, gs_arrays := m, gs_arrayValues := []\<rparr>))" for r m
    using need assms(2) by (intro nextKV_ok) simp_all
  show ?thesis
    using need more final by (simp add: arrayValue_def dec64_def Let_def split: prod.split)
qed

lemma arrayHeader_ok:
  assumes "gs_pending s = []" and "1 \<le> gs_kvRemaining s"
  shows "scanner_ok (arrayHeader t n s)"
  using assms
  by (auto simp: running_def arrayHeader_def Let_def expect_def dest: ggufScalarSizes_pos
      intro!: fail_ok nextKV_ok expect_ok [unfolded expect_def] split: option.split)

lemma scalar_read:
  assumes "ggufScalarSizes t = Some (length data)"
  obtains v where "ggufScalarToInt64 t data = Inr v"
proof -
  obtain n where n: "ggufScalarSizes t = Some n" "length data = n" using assms by simp
  have "leGet w data = Inr (leUint (take w data))" if "w \<le> n" for w using that n(2) by (simp add: leGet_def)
  with n(1) have "\<exists>v. ggufScalarToInt64 t data = Inr v"
    by (auto simp: ggufScalarToInt64_def ggufScalarSizes_def split: if_splits)
  then show thesis using that by blast
qed

text \<open>A step that is given as many bytes as it asked for reads within them.\<close>

lemma runStep_ok:
  assumes "running st s" and "gs_pending s = []" and "\<not> gs_failed s" and "\<not> gs_done s" and "length data = gs_need s"
  shows "\<exists>s'. runStep st data s = Inr s' \<and> scanner_ok s'"
proof (cases st)
  case StepArrayHeader
  with assms have "length data = 12" "1 \<le> gs_kvRemaining s" by (simp_all add: running_def)
  with StepArrayHeader show ?thesis
    using arrayHeader_ok [OF assms(2)] by (simp add: stepArrayHeader_def slice_def leGet_def)
next
  case StepArrayValue
  with assms(1,5) have "ggufScalarSizes (gs_arrayElemType s) = Some (length data)" by (simp add: running_def)
  then obtain v where v: "ggufScalarToInt64 (gs_arrayElemType s) data = Inr v" by (rule scalar_read)
  with StepArrayValue assms show ?thesis by (auto simp: stepArrayValue_def arrayValue_ok fail_ok split: option.split)
next
  case StepScalarValue
  with assms(1,5) have "ggufScalarSizes (gs_currentType s) = Some (length data)" by (simp add: running_def)
  then obtain v where v: "ggufScalarToInt64 (gs_currentType s) data = Inr v" by (rule scalar_read)
  with StepScalarValue assms(1,2) show ?thesis
    by (auto simp: running_def stepScalarValue_def intro!: nextKV_ok split: option.split)
qed (use assms(1,2,5) in \<open>auto simp: running_def expect_def stepHeader_def stepKeyLength_def stepKey_def stepValueType_def
    stepStringLength_def stepArchitecture_def stepSkippedArrayStringLength_def slice_def leGet_def dec64_def Let_def
    dest: ggufScalarSizes_pos intro!: fail_ok nextKV_ok expect_ok [unfolded expect_def] split: option.split prod.split\<close>)

subsection \<open>One turn of the loop\<close>

text \<open>
  The three ways a turn of the loop goes on a well-formed scanner: bytes are skipped, bytes are
  buffered until the input ends, or a step runs.
\<close>

lemma Feed_stops: "input = [] \<or> gs_failed s \<or> gs_done s \<Longrightarrow> Feed s input = Some (Inr s)"
  by (subst Feed.simps) simp

lemma Feed_skips:
  assumes "input \<noteq> []" "\<not> gs_failed s" "\<not> gs_done s" "0 < gs_skip s"
  shows "Feed s input =
    Feed (s\<lparr>gs_skip := gs_skip s - min (gs_skip s) (int (length input))\<rparr>) (drop (nat (min (gs_skip s) (int (length input)))) input)"
  using assms by (subst Feed.simps) (simp add: min_def Let_def)

lemma Feed_buffers:
  assumes "input \<noteq> []" "\<not> gs_failed s" "\<not> gs_done s" "gs_skip s \<le> 0" "length (gs_pending s) + length input < gs_need s"
  shows "Feed s input = Some (Inr (s\<lparr>gs_pending := gs_pending s @ input\<rparr>))"
  using assms by (subst Feed.simps) (simp add: Let_def)

lemma Feed_runs:
  assumes "input \<noteq> []" "\<not> gs_failed s" "\<not> gs_done s" "gs_skip s \<le> 0" "gs_step s = Some st"
    and "length (gs_pending s) + n = gs_need s" "0 < n" "n \<le> length input"
  shows "Feed s input = (case runStep st (gs_pending s @ take n input) (s\<lparr>gs_pending := [], gs_step := None\<rparr>) of
    Inl e \<Rightarrow> Some (Inl e) | Inr s' \<Rightarrow> Feed s' (drop n input))"
proof -
  have "min (gs_need s - length (gs_pending s)) (length input) = n" and "\<not> gs_need s < length (gs_pending s)"
    and "length (gs_pending s @ take n input) = gs_need s"
    using assms by simp_all
  then show ?thesis
    using assms(1-5) by (subst Feed.simps) (simp add: Let_def)
qed

lemma scanner_ok_active:
  assumes "scanner_ok s" "\<not> gs_failed s" "\<not> gs_done s"
  obtains st where "gs_step s = Some st" "length (gs_pending s) < gs_need s" "running st s"
  using assms by (auto simp: scanner_ok_def)

lemma running_update [simp]:
  "running st (s\<lparr>gs_pending := p\<rparr>) = running st s" "running st (s\<lparr>gs_step := q\<rparr>) = running st s"
  "running st (s\<lparr>gs_skip := k\<rparr>) = running st s"
  by (cases st; simp add: running_def)+

lemma scanner_ok_skip [simp]: "scanner_ok (s\<lparr>gs_skip := k\<rparr>) = scanner_ok s"
  by (simp add: scanner_ok_def)

lemma step_taken_ok:
  assumes "running st s" "\<not> gs_failed s" "\<not> gs_done s" "length data = gs_need s"
  obtains s' where "runStep st data (s\<lparr>gs_pending := [], gs_step := None\<rparr>) = Inr s'" "scanner_ok s'"
  using runStep_ok [of st "s\<lparr>gs_pending := [], gs_step := None\<rparr>" data] assms by auto

lemma Feed_turn:
  assumes "scanner_ok s" "input \<noteq> []" "\<not> gs_failed s" "\<not> gs_done s"
  obtains (skips) k where "0 < k" "k \<le> length input" "int k \<le> gs_skip s" "k < length input \<Longrightarrow> int k = gs_skip s"
      "Feed s input = Feed (s\<lparr>gs_skip := gs_skip s - int k\<rparr>) (drop k input)"
  | (buffers) "gs_skip s \<le> 0" "length (gs_pending s) + length input < gs_need s"
      "Feed s input = Some (Inr (s\<lparr>gs_pending := gs_pending s @ input\<rparr>))"
  | (runs) st n s' where "gs_skip s \<le> 0" "gs_step s = Some st" "length (gs_pending s) + n = gs_need s" "0 < n" "n \<le> length input"
      "runStep st (gs_pending s @ take n input) (s\<lparr>gs_pending := [], gs_step := None\<rparr>) = Inr s'" "scanner_ok s'"
      "Feed s input = Feed s' (drop n input)"
proof -
  obtain st where st: "gs_step s = Some st" "length (gs_pending s) < gs_need s" "running st s"
    using assms(1,3,4) by (rule scanner_ok_active)
  consider "0 < gs_skip s" | "gs_skip s \<le> 0" "length (gs_pending s) + length input < gs_need s"
    | "gs_skip s \<le> 0" "gs_need s \<le> length (gs_pending s) + length input"
    by linarith
  then show ?thesis
  proof cases
    case 1
    let ?k = "nat (min (gs_skip s) (int (length input)))"
    have "int ?k = min (gs_skip s) (int (length input))" using 1 by simp
    then show ?thesis
      using Feed_skips [OF assms(2-4) 1] 1 assms(2) by (intro skips [of ?k]) auto
  next
    case 2
    then show ?thesis using Feed_buffers [OF assms(2-4)] buffers by blast
  next
    case 3
    let ?n = "gs_need s - length (gs_pending s)"
    have n: "length (gs_pending s) + ?n = gs_need s" "0 < ?n" "?n \<le> length input" using 3 st by auto
    then have "length (gs_pending s @ take ?n input) = gs_need s" by simp
    from step_taken_ok [OF st(3) assms(3,4) this] obtain s'
      where "runStep st (gs_pending s @ take ?n input) (s\<lparr>gs_pending := [], gs_step := None\<rparr>) = Inr s'" "scanner_ok s'" .
    with Feed_runs [OF assms(2-4) 3(1) st(1) n] n 3(1) st(1) show ?thesis
      by (intro runs [of st ?n s']) simp_all
  qed
qed

lemma Feed_returns: "scanner_ok s \<Longrightarrow> \<exists>s'. Feed s input = Some (Inr s') \<and> scanner_ok s'"
proof (induction "length input" arbitrary: s input rule: less_induct)
  case less
  show ?case
  proof (cases "input = [] \<or> gs_failed s \<or> gs_done s")
    case True
    with less.prems show ?thesis by (simp add: Feed_stops)
  next
    case False
    then have "input \<noteq> []" "\<not> gs_failed s" "\<not> gs_done s" by simp_all
    with less.prems show ?thesis
    proof (cases rule: Feed_turn)
      case (skips k)
      then show ?thesis using less.hyps [of "drop k input"] less.prems by simp
    next
      case buffers
      then show ?thesis using less.prems False by (auto simp: scanner_ok_def)
    next
      case (runs st n s')
      then show ?thesis using less.hyps [of "drop n input"] by simp
    qed
  qed
qed

definition thenFeed :: "ggufScanner res option \<Rightarrow> string \<Rightarrow> ggufScanner res option" where
  "thenFeed r input = (case r of Some (Inr s) \<Rightarrow> Feed s input | _ \<Rightarrow> r)"

lemma thenFeed_Inr [simp]: "thenFeed (Some (Inr s)) input = Feed s input"
  by (simp add: thenFeed_def)

lemma thenFeed_Nil [simp]: "thenFeed r [] = r"
  by (auto simp: thenFeed_def Feed_stops split: option.split sum.split)

lemma skipped_append:
  assumes "b \<noteq> []" "\<not> gs_failed s" "\<not> gs_done s" "int (length a) < gs_skip s"
  shows "Feed s (a @ b) = Feed (s\<lparr>gs_skip := gs_skip s - int (length a)\<rparr>) b"
proof -
  let ?k = "min (gs_skip s - int (length a)) (int (length b))"
  have "min (gs_skip s) (int (length (a @ b))) = int (length a) + ?k" "0 \<le> ?k" using assms by auto
  then show ?thesis
    using assms Feed_skips [of "a @ b" s] Feed_skips [of b "s\<lparr>gs_skip := gs_skip s - int (length a)\<rparr>"]
    by (simp add: nat_add_distrib diff_diff_eq)
qed

lemma Feed_append: "scanner_ok s \<Longrightarrow> Feed s (a @ b) = thenFeed (Feed s a) b"
proof (induction "length a" arbitrary: s a rule: less_induct)
  case less
  show ?case
  proof (cases "a = [] \<or> b = [] \<or> gs_failed s \<or> gs_done s")
    case True
    then show ?thesis by (auto simp: Feed_stops)
  next
    case False
    then have f: "a \<noteq> []" "b \<noteq> []" "\<not> gs_failed s" "\<not> gs_done s" by simp_all
    from less.prems f(1,3,4) show ?thesis
    proof (cases rule: Feed_turn)
      case (skips k)
      show ?thesis
      proof (cases "int (length a) < gs_skip s")
        case True
        with skips have "k = length a" by linarith
        with True skips(5) f show ?thesis by (simp add: skipped_append Feed_stops)
      next
        case short: False
        with skips have "int k = gs_skip s" by linarith
        then have "nat (gs_skip s) = k" by linarith
        with \<open>int k = gs_skip s\<close> short skips f less.prems less.hyps [of "drop k a"] show ?thesis
          by (simp add: Feed_skips [of "a @ b"] min_def)
      qed
    next
      case buffers
      let ?s = "s\<lparr>gs_pending := gs_pending s @ a\<rparr>"
      have "Feed s (a @ b) = Feed ?s b"
      proof (cases "length (gs_pending s) + length a + length b < gs_need s")
        case True
        with f buffers(1) show ?thesis by (simp add: Feed_buffers)
      next
        case enough: False
        obtain st where st: "gs_step s = Some st" using less.prems f(3,4) by (rule scanner_ok_active)
        let ?n = "gs_need s - length (gs_pending s) - length a"
        from enough buffers have "length (gs_pending s) + (length a + ?n) = gs_need s" "0 < ?n" "?n \<le> length b" by linarith+
        with f buffers(1) st Feed_runs [of "a @ b" s st "length a + ?n"] Feed_runs [of b ?s st ?n]
        show ?thesis by (simp cong: sum.case_cong)
      qed
      with buffers(3) show ?thesis by simp
    next
      case (runs st n s')
      with f Feed_runs [of "a @ b" s st n] less.hyps [of "drop n a"] show ?thesis by simp
    qed
  qed
qed

subsection \<open>The stream cut into chunks\<close>

definition feedAll :: "ggufScanner \<Rightarrow> string list \<Rightarrow> ggufScanner res option" where
  "feedAll s chunks = fold (\<lambda>chunk r. thenFeed r chunk) chunks (Some (Inr s))"

lemma feedAll_from:
  "scanner_ok s \<Longrightarrow> fold (\<lambda>chunk r. thenFeed r chunk) chunks (Some (Inr s)) = Feed s (concat chunks)"
proof (induction chunks arbitrary: s)
  case Nil
  then show ?case by (simp add: Feed_stops)
next
  case (Cons chunk chunks)
  obtain s' where "Feed s chunk = Some (Inr s')" "scanner_ok s'" using Feed_returns [OF Cons.prems] by blast
  then show ?case using Cons by (simp add: Feed_append)
qed

lemma scanner_ok_pending: "scanner_ok s \<Longrightarrow> length (gs_pending s) < 4096"
  by (auto simp: scanner_ok_def running_def dest: needOk_pos split: if_splits)

subsection \<open>The figures of a profile\<close>

lemma sumKV_exact:
  assumes "sumKV perHead heads acc = Some n" "0 \<le> perHead" "perHead \<le> 262144"
    and "0 \<le> acc" "acc + 268435456 * int (length heads) \<le> 2 ^ 62"
  shows "(\<forall>h\<in>set heads. 0 \<le> h \<and> h \<le> ggufMaxHeadCount) \<and> n = acc + sum_list heads * perHead"
  using assms(1,4,5)
proof (induction heads arbitrary: acc)
  case (Cons h heads)
  have h: "0 \<le> h" "h \<le> 1024" using Cons.prems(1) by (auto split: if_splits)
  have "h * perHead \<le> 1024 * 262144" using h assms(2,3) by (intro mult_mono) auto
  moreover have "0 \<le> h * perHead" using h assms(2) by simp
  ultimately have "wrap64 (acc + wrap64 (h * perHead)) = acc + h * perHead"
    using Cons.prems(2,3) by (simp add: wrap64_id in_int64_def min_int64_def max_int64_def)
  with Cons.IH [of "acc + h * perHead"] Cons.prems h \<open>0 \<le> h * perHead\<close> \<open>h * perHead \<le> 1024 * 262144\<close>
  show ?case by (simp add: algebra_simps)
qed simp

lemma cacheLayersOf_bounds:
  assumes "cacheLayersOf r i n = Some k" "1 \<le> n"
  shows "1 \<le> k \<and> k \<le> n"
proof (cases i)
  case (Some m)
  with assms zdiv_mono2 [of n 1 m] show ?thesis by (auto simp: cacheLayersOf_def split: if_splits)
qed (use assms in \<open>auto simp: cacheLayersOf_def split: if_splits\<close>)

lemma kvHeadsOf_length:
  "kvHeadsOf scalars perLayer n = Some heads \<Longrightarrow> 1 \<le> n \<Longrightarrow> int (length heads) = n"
  by (auto simp: kvHeadsOf_def split: option.splits if_splits)

lemma Profile_stages:
  assumes "Profile s = Some p"
    and "scalars = inArch (gs_scalars s) (gs_arch s)" and "perLayer = map_of (inArch (gs_arrays s) (gs_arch s)) ''attention.head_count_kv''"
  obtains keyLength valueLength heads where
    "gp_Architecture p = gs_arch s" "gs_arch s \<in> set ggufKVArchitectures" "\<not> gs_failed s"
    "1 \<le> gp_BlockCount p" "gp_BlockCount p \<le> ggufMaxBlockCount"
    "1 \<le> gp_TrainedContextLength p" "gp_TrainedContextLength p \<le> 2 ^ 24"
    "1 \<le> keyLength" "keyLength \<le> ggufMaxHeadLength" "1 \<le> valueLength" "valueLength \<le> ggufMaxHeadLength"
    "headLengths scalars = Some (keyLength, valueLength)"
    "kvHeadsOf scalars perLayer (gp_BlockCount p) = Some heads"
    "cacheLayersOf (gs_recurrent s) (map_of scalars ''full_attention_interval'') (gp_BlockCount p) = Some (gp_KVCacheLayers p)"
    "sumKV ((keyLength + valueLength) * ggufKVBytesPerValue) (take (nat (gp_KVCacheLayers p)) heads) 0 = Some (gp_KVBytesPerToken p)"
    "ggufMinKVPerToken \<le> gp_KVBytesPerToken p" "gp_KVBytesPerToken p \<le> ggufMaxKVPerToken"
  using assms by (auto simp: Profile_def Let_def bind_eq_Some_conv not_less split: if_splits)

text \<open>
  What a token costs, from the metadata alone: of the blocks that cache, every one without an interval and every
  \<open>n\<close>th with the interval \<open>n\<close>, each keeps a key and a value vector of two bytes per element for each of its
  heads.
\<close>

definition metaOf :: "int64 gomap \<Rightarrow> string \<Rightarrow> int" where
  "metaOf scalars name = (case map_of scalars name of None \<Rightarrow> 0 | Some x \<Rightarrow> x)"

definition vectorLength :: "int64 gomap \<Rightarrow> string \<Rightarrow> int" where
  "vectorLength scalars name = (case map_of scalars name of
     Some x \<Rightarrow> x | None \<Rightarrow> metaOf scalars ''embedding_length'' div metaOf scalars ''attention.head_count'')"

definition headsAt :: "int64 gomap \<Rightarrow> int64 list option \<Rightarrow> nat \<Rightarrow> int" where
  "headsAt scalars perLayer i = (case perLayer of
     Some heads \<Rightarrow> heads ! i
   | None \<Rightarrow> (case map_of scalars ''attention.head_count_kv'' of Some u \<Rightarrow> u | None \<Rightarrow> metaOf scalars ''attention.head_count''))"

definition cachesAt :: "int64 option \<Rightarrow> nat \<Rightarrow> bool" where
  "cachesAt interval i = (case interval of None \<Rightarrow> True | Some n \<Rightarrow> (int i + 1) mod n = 0)"

definition cachingBlocks :: "ggufScanner \<Rightarrow> int \<Rightarrow> nat set" where
  "cachingBlocks s blockCount =
     {i. i < nat blockCount \<and> cachesAt (map_of (inArch (gs_scalars s) (gs_arch s)) ''full_attention_interval'') i}"

definition tokenCost :: "ggufScanner \<Rightarrow> int \<Rightarrow> int" where
  "tokenCost s blockCount =
     (let scalars = inArch (gs_scalars s) (gs_arch s); perLayer = map_of (inArch (gs_arrays s) (gs_arch s)) ''attention.head_count_kv''
      in (\<Sum>i\<in>cachingBlocks s blockCount.
        headsAt scalars perLayer i * (vectorLength scalars ''attention.key_length'' + vectorLength scalars ''attention.value_length'') * 2))"

lemma card_multiples: "0 < n \<Longrightarrow> card ({i. i < b \<and> n dvd Suc i}) = b div n"
proof (induction b)
  case (Suc b)
  have "{i. i < Suc b \<and> n dvd Suc i} = (if n dvd Suc b then insert b ({i. i < b \<and> n dvd Suc i}) else {i. i < b \<and> n dvd Suc i})"
    by (auto simp: less_Suc_eq)
  with Suc show ?case by (auto simp: div_Suc dvd_eq_mod_eq_0)
qed simp

lemma card_caching:
  assumes "cacheLayersOf r i n = Some k" "1 \<le> n"
  shows "int (card ({j. j < nat n \<and> cachesAt i j})) = k"
proof (cases i)
  case None
  with assms show ?thesis by (simp add: cachesAt_def cacheLayersOf_def split: if_splits)
next
  case (Some m)
  then have m: "1 \<le> m" "k = n div m" using assms by (auto simp: cacheLayersOf_def split: if_splits)
  have "cachesAt i j \<longleftrightarrow> nat m dvd Suc j" for j
    using m Some by (simp add: cachesAt_def flip: dvd_eq_mod_eq_0) (metis int_nat_eq of_nat_Suc of_nat_dvd_iff order.trans zero_le_one add.commute)
  moreover have "0 \<le> n div m" using m assms(2) by (simp add: pos_imp_zdiv_nonneg_iff)
  ultimately show ?thesis
    using card_multiples [of "nat m" "nat n"] m assms(2) by (simp add: nat_div_distrib [symmetric])
qed

lemma headLengths_vectors:
  "headLengths scalars = Some (k, v) \<Longrightarrow> k = vectorLength scalars ''attention.key_length'' \<and> v = vectorLength scalars ''attention.value_length''"
  by (auto simp: headLengths_def vectorLength_def metaOf_def Let_def split: option.splits if_splits)

lemma heads_sum:
  assumes h: "kvHeadsOf scalars perLayer n = Some heads" and c: "cacheLayersOf r i n = Some k" "1 \<le> n"
    and one: "i = None \<or> perLayer = None"
  shows "sum_list (take (nat k) heads) = (\<Sum>j\<in>{j. j < nat n \<and> cachesAt i j}. headsAt scalars perLayer j)"
proof (cases perLayer)
  case None
  define u where "u = headsAt scalars None 0"
  have at: "headsAt scalars None j = u" for j by (simp add: headsAt_def u_def)
  have "heads = replicate (nat n) u"
    using h None by (auto simp: kvHeadsOf_def headsAt_def metaOf_def u_def split: option.splits)
  moreover have "nat k \<le> nat n" using cacheLayersOf_bounds [OF c] by (intro nat_mono) simp
  ultimately have "sum_list (take (nat k) heads) = int (nat k) * u" by (simp add: sum_list_replicate min_absorb1)
  with card_caching [OF c] cacheLayersOf_bounds [OF c] show ?thesis by (simp add: None at)
next
  case (Some per)
  then have "i = None" using one by simp
  then have "k = n" using c(1) by (simp add: cacheLayersOf_def split: if_splits)
  have heads: "heads = per" "int (length heads) = n" using h Some by (auto simp: kvHeadsOf_def split: if_splits)
  then have "nat n = length heads" by simp
  then show ?thesis
    using \<open>i = None\<close> \<open>k = n\<close> heads(1)
    by (simp add: Some headsAt_def cachesAt_def sum_list_sum_nth atLeast0LessThan lessThan_def)
qed

lemma Profile_cost:
  assumes "Profile s = Some p"
  shows "1 \<le> gp_KVCacheLayers p" and "gp_KVCacheLayers p \<le> gp_BlockCount p"
    and "int (card (cachingBlocks s (gp_BlockCount p))) = gp_KVCacheLayers p"
    and "map_of (inArch (gs_scalars s) (gs_arch s)) ''full_attention_interval'' = None
       \<or> map_of (inArch (gs_arrays s) (gs_arch s)) ''attention.head_count_kv'' = None
       \<longrightarrow> gp_KVBytesPerToken p = tokenCost s (gp_BlockCount p)"
proof -
  let ?scalars = "inArch (gs_scalars s) (gs_arch s)"
    and ?perLayer = "map_of (inArch (gs_arrays s) (gs_arch s)) ''attention.head_count_kv''"
  have "1 \<le> gp_KVCacheLayers p \<and> gp_KVCacheLayers p \<le> gp_BlockCount p \<and> int (card (cachingBlocks s (gp_BlockCount p))) = gp_KVCacheLayers p
      \<and> (map_of ?scalars ''full_attention_interval'' = None \<or> ?perLayer = None \<longrightarrow> gp_KVBytesPerToken p = tokenCost s (gp_BlockCount p))"
  proof (rule Profile_stages [OF assms refl refl])
    fix keyLength valueLength heads
    assume b: "1 \<le> gp_BlockCount p" "gp_BlockCount p \<le> ggufMaxBlockCount"
      and l: "1 \<le> keyLength" "keyLength \<le> ggufMaxHeadLength" "1 \<le> valueLength" "valueLength \<le> ggufMaxHeadLength"
      and hl: "headLengths ?scalars = Some (keyLength, valueLength)"
      and h: "kvHeadsOf ?scalars ?perLayer (gp_BlockCount p) = Some heads"
      and c: "cacheLayersOf (gs_recurrent s) (map_of ?scalars ''full_attention_interval'') (gp_BlockCount p) = Some (gp_KVCacheLayers p)"
      and n: "sumKV ((keyLength + valueLength) * ggufKVBytesPerValue) (take (nat (gp_KVCacheLayers p)) heads) 0 = Some (gp_KVBytesPerToken p)"
    have k: "1 \<le> gp_KVCacheLayers p \<and> gp_KVCacheLayers p \<le> gp_BlockCount p"
      using cacheLayersOf_bounds [OF c b(1)] .
    have "gp_KVBytesPerToken p = sum_list (take (nat (gp_KVCacheLayers p)) heads) * ((keyLength + valueLength) * ggufKVBytesPerValue)"
      using sumKV_exact [OF n] kvHeadsOf_length [OF h b(1)] k b l by auto
    with k heads_sum [OF h c b(1)] headLengths_vectors [OF hl] card_caching [OF c b(1)] show ?thesis
      by (auto simp: tokenCost_def cachingBlocks_def Let_def sum_distrib_right mult.assoc)
  qed
  then show "1 \<le> gp_KVCacheLayers p" and "gp_KVCacheLayers p \<le> gp_BlockCount p"
    and "int (card (cachingBlocks s (gp_BlockCount p))) = gp_KVCacheLayers p"
    and "map_of ?scalars ''full_attention_interval'' = None \<or> ?perLayer = None \<longrightarrow> gp_KVBytesPerToken p = tokenCost s (gp_BlockCount p)"
    by blast+
qed

subsection \<open>Guarantees\<close>

text \<open>
  C34. \<open>Feed\<close> returns on every sequence of chunks of a file, well formed or not, without a slice or a read
  out of bounds, in the loop or in one of its steps, and without a call of a nil step; after the last chunk at most 4095 bytes of input are
  held in \<open>pending\<close> for the next call.
\<close>

theorem Feed_total:
  "\<exists>s. feedAll newGGUFScanner chunks = Some (Inr s) \<and> length (gs_pending s) \<le> 4095"
proof -
  obtain s where s: "Feed newGGUFScanner (concat chunks) = Some (Inr s)" "scanner_ok s"
    using Feed_returns [OF new_ok] by blast
  then show ?thesis
    using scanner_ok_pending [OF s(2)] by (auto simp: feedAll_def feedAll_from [OF new_ok])
qed

text \<open>
  C35. What the scanner has read does not depend on how the stream was cut into chunks: feeding the
  chunks one after the other is feeding their concatenation at once.
\<close>

theorem Feed_chunks: "feedAll newGGUFScanner chunks = Feed newGGUFScanner (concat chunks)"
  by (simp add: feedAll_def feedAll_from [OF new_ok])

text \<open>
  C36. A profile is within the bounds of its type and of the schema it is reported under: at least one
  and at most all of the blocks cache, and the bytes per token are between 1 KiB and 8 MiB, as the memory
  admission of a model assumes. The number of cache layers is the number of blocks that cache, every \<open>n\<close>th one when the
  metadata gives an interval. If it gives no interval or no head count per block, the bytes per token are the
  sum over the blocks that cache of both vectors of all their heads, without wrap-around; a hybrid model that gives both
  is excluded, and there the figure can be too small (\<open>hybrid_understated\<close>).
\<close>

theorem Profile_bounds:
  assumes "Profile s = Some p"
  shows "gp_Architecture p \<in> set ggufKVArchitectures
    \<and> 1 \<le> gp_KVCacheLayers p \<and> gp_KVCacheLayers p \<le> gp_BlockCount p \<and> gp_BlockCount p \<le> 4096
    \<and> 1 \<le> gp_TrainedContextLength p \<and> gp_TrainedContextLength p \<le> 2 ^ 24
    \<and> 1024 \<le> gp_KVBytesPerToken p
    \<and> kv_marker (Some \<lparr>mp_Architecture = gp_Architecture p, mp_BlockCount = gp_BlockCount p,
           mp_KVCacheLayers = gp_KVCacheLayers p, mp_KVBytesPerToken = gp_KVBytesPerToken p,
           mp_TrainedContextLength = gp_TrainedContextLength p\<rparr>)
    \<and> int (card (cachingBlocks s (gp_BlockCount p))) = gp_KVCacheLayers p
    \<and> (map_of (inArch (gs_scalars s) (gs_arch s)) ''full_attention_interval'' = None
       \<or> map_of (inArch (gs_arrays s) (gs_arch s)) ''attention.head_count_kv'' = None
       \<longrightarrow> gp_KVBytesPerToken p = tokenCost s (gp_BlockCount p))"
  using Profile_cost [OF assms] by (auto simp: kv_marker_def intro: Profile_stages [OF assms refl refl])

definition le64 :: "nat \<Rightarrow> string" where
  "le64 n = map (\<lambda>i. bytechar (n div 256 ^ i mod 256)) [0..<8]"

definition le32 :: "nat \<Rightarrow> string" where
  "le32 n = map (\<lambda>i. bytechar (n div 256 ^ i mod 256)) [0..<4]"

definition exkv :: "nat \<Rightarrow> string \<Rightarrow> nat \<Rightarrow> string" where
  "exkv len key n = le64 len @ key @ le32 ggufTypeUint32 @ le32 n"

definition exgguf :: string where
  "exgguf = ''GGUF'' @ le32 3 @ le64 0 @ le64 6
     @ le64 20 @ ''general.architecture'' @ le32 ggufTypeString @ le64 5 @ ''llama''
     @ exkv 17 ''llama.block_count'' 4 @ exkv 20 ''llama.context_length'' 2048 @ exkv 22 ''llama.embedding_length'' 256
     @ exkv 26 ''llama.attention.head_count'' 8 @ exkv 29 ''llama.attention.head_count_kv'' 2"

definition exprofile :: GGUFMemoryProfile where
  "exprofile = \<lparr>gp_Architecture = ''llama'', gp_BlockCount = 4, gp_KVCacheLayers = 4, gp_KVBytesPerToken = 1024,
     gp_TrainedContextLength = 2048\<rparr>"

definition exscanned :: ggufScanner where
  "exscanned = newGGUFScanner\<lparr>gs_need := 4, gs_step := None, gs_done := True, gs_arch := ''llama'',
     gs_scalars := [(''llama'', [(''block_count'', 4), (''context_length'', 2048), (''embedding_length'', 256),
       (''attention.head_count'', 8), (''attention.head_count_kv'', 2)])],
     gs_currentKey := ''llama.attention.head_count_kv'', gs_currentType := 4\<rparr>"

lemmas feedTurns_numeral = feedTurns.simps(2) [where k = "pred_numeral k" for k, folded numeral_eq_Suc]

lemmas exeval = exgguf_def exkv_def le64_def le32_def upt_rec newGGUFScanner_def expect_def nextKV_def dec64_def stepHeader_def
  stepKeyLength_def stepKey_def stepValueType_def stepStringLength_def stepArchitecture_def stepScalarValue_def
  wantedScalarKey_def splitGGUFKey_def ggufWantedSuffixes_def ggufScalarSizes_def ggufScalarToInt64_def slice_def leGet_def putInner_def
  gomap_set.simps cut_def HasPrefix_def feedTurns_numeral

lemma exfeed: "feedTurns 30 newGGUFScanner exgguf = Some (Inr exscanned)"
  by (simp add: exeval exscanned_def)

lemma exscanned_profile: "Profile exscanned = Some exprofile"
  by (simp add: Profile_def exscanned_def exprofile_def newGGUFScanner_def expect_def inArch_def ggufKVArchitectures_def headLengths_def
      kvHeadsOf_def cacheLayersOf_def eval_nat_numeral wrap64_def)

theorem Profile_bounds_witness:
  "Feed newGGUFScanner exgguf = Some (Inr exscanned) \<and> Profile exscanned = Some exprofile
     \<and> card (cachingBlocks exscanned 4) = 4 \<and> tokenCost exscanned 4 = 1024"
proof -
  have "map_of (inArch (gs_scalars exscanned) (gs_arch exscanned)) ''full_attention_interval'' = None"
    by (simp add: exscanned_def inArch_def newGGUFScanner_def expect_def)
  with Profile_bounds [OF exscanned_profile] feedTurns_Feed [OF exfeed] exscanned_profile show ?thesis
    by (simp add: exprofile_def)
qed

subsection \<open>Where the code and its comments part\<close>

text \<open>
  A string of 2\<open>\<^sup>63\<close> bytes is not failed: the length wraps to a negative number, nothing is
  skipped and the scan goes on as if the string were empty.
\<close>

lemma implausible_length_accepted:
  "stepStringLength (le64 (2 ^ 63)) s = Inr (nextKV (s\<lparr>gs_skip := - (2 ^ 63)\<rparr>))" if "gs_currentKey s \<noteq> ''general.architecture''"
  using that by (simp add: stepStringLength_def le64_def upt_rec leGet_def wrap64_def)

text \<open>
  The exception of the last guarantee. A hybrid model of eight blocks of which every second one attends, with eight heads, caches in four
  layers; the profile says so and adds up the heads of the first four blocks, two of which attend.
\<close>

definition exhybrid :: ggufScanner where
  "exhybrid = newGGUFScanner\<lparr>gs_done := True, gs_arch := ''qwen35'', gs_recurrent := True,
     gs_scalars := [(''qwen35'', [(''block_count'', 8), (''context_length'', 2048), (''attention.key_length'', 128),
       (''attention.value_length'', 128), (''full_attention_interval'', 2)])],
     gs_arrays := [(''qwen35'', [(''attention.head_count_kv'', [0, 8, 0, 8, 0, 8, 0, 8])])]\<rparr>"

lemma hybrid_understated:
  "map_option gp_KVBytesPerToken (Profile exhybrid) = Some (2 * 8 * (128 + 128) * 2)"
  "map_option gp_KVCacheLayers (Profile exhybrid) = Some 4"
  by (simp_all add: Profile_def exhybrid_def newGGUFScanner_def expect_def inArch_def ggufKVArchitectures_def headLengths_def
      kvHeadsOf_def cacheLayersOf_def eval_nat_numeral wrap64_def)

end
