(* ===== verification/Log_Buffer.thy ===== *)
theory Log_Buffer
  imports Kube_API Go_Std
begin

section \<open>The container log of the kubelet bridge\<close>

text \<open>
  \<open>internal/native/kubeletbridge/logs.go\<close>: the bounded buffer of log entries of the running
  assignment, the file that mirrors it and the channels that wake the followers. Every method runs
  under the mutex of the buffer, so it is one function of the state; the calls to the file system are
  requests whose answers are unconstrained. \<open>encoding/json\<close> is the parameter \<open>J\<close>. The
  channels live on the heap: \<open>lb_channels\<close> holds every channel that was made, and
  \<open>lb_subscribers\<close> the addresses of those that are subscribed.
\<close>

subsection \<open>Types\<close>

type_synonym uint64 = nat

definition inc64 :: "uint64 \<Rightarrow> uint64" where
  "inc64 n = (n + 1) mod 2 ^ 64"

abbreviation (input) "defaultLogBytes \<equiv> (1048576 :: int)"
abbreviation (input) "maxDiskLogBytes \<equiv> (4194304 :: int)"

record LogEntry =
  le_Sequence :: uint64
  le_Time :: Time
  le_Message :: string

record diskRecord =
  dr_Type :: string
  dr_Assignment :: string
  dr_Sequence :: uint64
  dr_Time :: Time
  dr_Message :: string

record chan = \<comment> \<open>a \<open>chan struct{}\<close> with room for one value\<close>
  ch_open :: bool
  ch_token :: bool

record LogBuffer =
  lb_path :: string
  lb_assignment :: string
  lb_entries :: "LogEntry list"
  lb_bytes :: int
  lb_fileBytes :: int64
  lb_maximum :: int
  lb_next :: uint64
  lb_subscribers :: "nat list"
  lb_channels :: "chan list"

subsection \<open>The file\<close>

datatype lreq =
    LOpen string | LStat | LRead int | LClose
  | LMkdirAll string | LOpenAppend string | LChmod | LWrite string | LSync | LCloseAppend
  | LCreateTemp string | LChmodTemp | LWriteTemp string | LSyncTemp | LCloseTemp | LRename string | LRemoveTemp

datatype lresp =
    LDone
  | LFailed go_error
  | LShort nat go_error \<comment> \<open>a write that failed after some bytes\<close>
  | LSize int
  | LData string "go_error option" \<comment> \<open>what was read up to the end or up to an error\<close>

type_synonym 'a lprog = "(lreq, lresp, 'a) prog"

definition lCall :: "lreq \<Rightarrow> unit res lprog" where
  "lCall q = Req q (\<lambda>r. Ret (case r of LFailed e \<Rightarrow> Inl e | LShort n e \<Rightarrow> Inl e | _ \<Rightarrow> Inr ()))"

definition lSize :: "lreq \<Rightarrow> int res lprog" where
  "lSize q = Req q (\<lambda>r. Ret (case r of LSize n \<Rightarrow> Inr n | LFailed e \<Rightarrow> Inl e | _ \<Rightarrow> unexpected))"

definition lData :: "lreq \<Rightarrow> (string \<times> go_error option) lprog" where
  "lData q = Req q (\<lambda>r. Ret (case r of LData d e \<Rightarrow> (d, e) | LFailed e \<Rightarrow> ([], Some e) | _ \<Rightarrow> ([], Some (Sentinel ''unexpected answer''))))"

abbreviation "LErrNotExist \<equiv> Sentinel ''file does not exist''"
abbreviation "LF \<equiv> CHR 0x0A"

text \<open>\<open>if err := f (); err != nil { return errors.Join (err, close ()) }\<close>\<close>

definition orJoin :: "unit res lprog \<Rightarrow> unit res lprog \<Rightarrow> 'a res lprog \<Rightarrow> 'a res lprog" where
  "orJoin p close rest =
     bindP p (\<lambda>x. case x of
       Inl e \<Rightarrow> bindP close (\<lambda>c. Ret (Inl (JoinError (e # (case c of Inl e' \<Rightarrow> [e'] | Inr _ \<Rightarrow> [])))))
     | Inr _ \<Rightarrow> rest)"

definition atomicWrite :: "string \<Rightarrow> string \<Rightarrow> unit res lprog" where
  "atomicWrite path data =
     bindE (lCall (LMkdirAll path)) (\<lambda>_.
     bindE (lCall (LCreateTemp path)) (\<lambda>_.
     bindP
      (orJoin (lCall LChmodTemp) (lCall LCloseTemp)
       (orJoin (lCall (LWriteTemp data)) (lCall LCloseTemp)
        (orJoin (lCall LSyncTemp) (lCall LCloseTemp)
         (bindE (lCall LCloseTemp) (\<lambda>_. lCall (LRename path))))))
      (\<lambda>x. bindP (lCall LRemoveTemp) (\<lambda>_. Ret x))))"

text \<open>
  \<open>encoding/json\<close> of a record: \<open>Marshal\<close>, and \<open>Unmarshal\<close> of a line with its newline.
\<close>

record logjson =
  lj_Marshal :: "diskRecord \<Rightarrow> string res"
  lj_Unmarshal :: "string \<Rightarrow> diskRecord res"

subsection \<open>The buffer\<close>

definition NewLogBuffer :: "int \<Rightarrow> LogBuffer" where
  "NewLogBuffer maximumBytes =
     \<lparr>lb_path = [], lb_assignment = [], lb_entries = [], lb_bytes = 0, lb_fileBytes = 0,
      lb_maximum = (if maximumBytes \<le> 0 then defaultLogBytes else maximumBytes), lb_next = 1,
      lb_subscribers = [], lb_channels = []\<rparr>"

fun evict :: "int \<Rightarrow> int \<Rightarrow> LogEntry list \<Rightarrow> int \<times> LogEntry list" where
  "evict maximum bytes (e # e' # es) =
     (if bytes > maximum then evict maximum (bytes - (int (length (le_Message e)) + 1)) (e' # es)
      else (bytes, e # e' # es))"
| "evict maximum bytes es = (bytes, es)"

definition appendLocked :: "LogEntry \<Rightarrow> LogBuffer \<Rightarrow> LogBuffer" where
  "appendLocked entry b =
     (let (bytes, entries) = evict (lb_maximum b) (lb_bytes b + (int (length (le_Message entry)) + 1)) (lb_entries b @ [entry])
      in b\<lparr>lb_entries := entries, lb_bytes := bytes\<rparr>)"

definition snapshotLocked :: "LogBuffer \<Rightarrow> string \<Rightarrow> Time \<Rightarrow> int64 \<Rightarrow> LogEntry list" where
  "snapshotLocked b assignment since tailLines =
     (if assignment = [] \<or> assignment \<noteq> lb_assignment b then []
      else
        let entries = filter (\<lambda>entry. since = 0 \<or> \<not> le_Time entry < since) (lb_entries b) in
        if tailLines \<ge> 0 \<and> int (length entries) > tailLines
        then drop (length entries - nat tailLines) entries
        else entries)"

definition Snapshot :: "LogBuffer \<Rightarrow> string \<Rightarrow> Time \<Rightarrow> int64 \<Rightarrow> LogEntry list" where
  "Snapshot b assignment since tailLines = snapshotLocked b assignment since tailLines"

definition MatchesAssignment :: "LogBuffer \<Rightarrow> string \<Rightarrow> bool" where
  "MatchesAssignment b assignment \<longleftrightarrow> assignment \<noteq> [] \<and> lb_assignment b = assignment"

definition SnapshotAndSubscribe :: "string \<Rightarrow> Time \<Rightarrow> int64 \<Rightarrow> LogBuffer \<Rightarrow> (LogEntry list \<times> uint64 \<times> nat) \<times> LogBuffer" where
  \<comment> \<open>the entries, the cursor and the channel\<close>
  "SnapshotAndSubscribe assignment since tailLines b =
     (let notifications = length (lb_channels b);
          entries = snapshotLocked b assignment since tailLines;
          cursor = (if lb_next b > 0 then lb_next b - 1 else 0);
          b = (if assignment = [] \<or> assignment \<noteq> lb_assignment b
               then b\<lparr>lb_channels := lb_channels b @ [\<lparr>ch_open = False, ch_token = False\<rparr>]\<rparr>
               else b\<lparr>lb_channels := lb_channels b @ [\<lparr>ch_open = True, ch_token = False\<rparr>],
                      lb_subscribers := notifications # lb_subscribers b\<rparr>)
      in ((entries, cursor, notifications), b))"

definition closeChan :: "nat \<Rightarrow> chan list \<Rightarrow> chan list" where
  "closeChan c chans = (if c < length chans then chans[c := (chans ! c)\<lparr>ch_open := False\<rparr>] else chans)"

definition unsubscribe :: "nat \<Rightarrow> LogBuffer \<Rightarrow> LogBuffer" where
  "unsubscribe notifications b =
     (if notifications \<in> set (lb_subscribers b)
      then b\<lparr>lb_subscribers := removeAll notifications (lb_subscribers b),
             lb_channels := closeChan notifications (lb_channels b)\<rparr>
      else b)"

definition EntriesAfter :: "LogBuffer \<Rightarrow> string \<Rightarrow> uint64 \<Rightarrow> LogEntry list \<times> bool" where
  "EntriesAfter b assignment sequence =
     (if assignment = [] \<or> assignment \<noteq> lb_assignment b then ([], False)
      else case lb_entries b of
        [] \<Rightarrow> ([], False)
      | e # _ \<Rightarrow> (filter (\<lambda>entry. le_Sequence entry > sequence) (lb_entries b), inc64 sequence < le_Sequence e))"

definition notify :: "nat \<Rightarrow> chan list \<Rightarrow> chan list" where \<comment> \<open>a send that never waits\<close>
  "notify c chans = (if c < length chans then chans[c := (chans ! c)\<lparr>ch_token := True\<rparr>] else chans)"

subsection \<open>Methods that write\<close>

definition resetRecord :: "LogBuffer \<Rightarrow> diskRecord" where
  "resetRecord b = \<lparr>dr_Type = ''reset'', dr_Assignment = lb_assignment b, dr_Sequence = 0, dr_Time = 0, dr_Message = []\<rparr>"

definition entryRecord :: "LogBuffer \<Rightarrow> LogEntry \<Rightarrow> diskRecord" where
  "entryRecord b e = \<lparr>dr_Type = ''entry'', dr_Assignment = lb_assignment b, dr_Sequence = le_Sequence e,
     dr_Time = le_Time e, dr_Message = le_Message e\<rparr>"

fun marshalLines :: "logjson \<Rightarrow> diskRecord list \<Rightarrow> string res" where
  "marshalLines J [] = Inr []"
| "marshalLines J (r # rs) =
     bind_res (lj_Marshal J r) (\<lambda>d. bind_res (marshalLines J rs) (\<lambda>ds. Inr (d @ LF # ds)))"

definition rewriteLocked :: "logjson \<Rightarrow> LogBuffer \<Rightarrow> (LogBuffer \<times> unit res) lprog" where
  "rewriteLocked J b =
     (if lb_path b = [] then Ret (b, Inr ())
      else case marshalLines J (resetRecord b # map (entryRecord b) (lb_entries b)) of
        Inl e \<Rightarrow> Ret (b, Inl e)
      | Inr data \<Rightarrow>
          bindP (atomicWrite (lb_path b) data) (\<lambda>x. Ret (case x of
            Inl e \<Rightarrow> (b, Inl e)
          | Inr _ \<Rightarrow> (b\<lparr>lb_fileBytes := int (length data)\<rparr>, Inr ()))))"

definition firstError :: "unit res list \<Rightarrow> unit res" where \<comment> \<open>\<open>joinErrors\<close> of this package\<close>
  "firstError xs = (case filter (\<lambda>x. x \<noteq> Inr ()) xs of [] \<Rightarrow> Inr () | x # _ \<Rightarrow> x)"

definition appendFile :: "string \<Rightarrow> string \<Rightarrow> unit res lprog" where
  "appendFile path data =
     bindE (lCall (LMkdirAll path)) (\<lambda>_.
     bindE (lCall (LOpenAppend path)) (\<lambda>_.
     bindP (lCall LChmod) (\<lambda>c. case c of
       Inl e \<Rightarrow> bindP (lCall LCloseAppend) (\<lambda>x. Ret (firstError [Inl e, x]))
     | Inr _ \<Rightarrow>
        bindP (lCall (LWrite data)) (\<lambda>writeErr.
        bindP (lCall LSync) (\<lambda>syncErr.
        bindP (lCall LCloseAppend) (\<lambda>closeErr. Ret (firstError [writeErr, syncErr, closeErr])))))))"

definition appendDiskLocked :: "logjson \<Rightarrow> LogEntry \<Rightarrow> LogBuffer \<Rightarrow> (LogBuffer \<times> unit res) lprog" where
  "appendDiskLocked J entry b =
     (if lb_path b = [] then Ret (b, Inr ())
      else case lj_Marshal J (entryRecord b entry) of
        Inl e \<Rightarrow> Ret (b, Inl e)
      | Inr d \<Rightarrow>
         let data = d @ [LF] in
         if wrap64 (lb_fileBytes b + int (length data)) > wrap64 (lb_maximum b * 2) then rewriteLocked J b
         else bindP (appendFile (lb_path b) data) (\<lambda>x. Ret (case x of
           Inl e \<Rightarrow> (b, Inl e)
         | Inr _ \<Rightarrow> (b\<lparr>lb_fileBytes := lb_fileBytes b + int (length data)\<rparr>, Inr ()))))"

definition emptied :: "string \<Rightarrow> LogBuffer \<Rightarrow> LogBuffer" where
  "emptied assignment b = b\<lparr>lb_assignment := assignment, lb_entries := [], lb_bytes := 0, lb_next := 1\<rparr>"

definition Reset :: "logjson \<Rightarrow> string \<Rightarrow> Time \<Rightarrow> string \<Rightarrow> LogBuffer \<Rightarrow> (LogBuffer \<times> unit res) lprog" where
  "Reset J assignment now message b =
     (let b = b\<lparr>lb_channels := fold closeChan (lb_subscribers b) (lb_channels b), lb_subscribers := []\<rparr>;
          b = emptied assignment b;
          b = (if message \<noteq> []
               then (appendLocked \<lparr>le_Sequence = lb_next b, le_Time = now, le_Message = message\<rparr> b)\<lparr>lb_next := inc64 (lb_next b)\<rparr>
               else b)
      in rewriteLocked J b)"

definition AppendMessage :: "logjson \<Rightarrow> Time \<Rightarrow> string \<Rightarrow> LogBuffer \<Rightarrow> (LogBuffer \<times> unit res) lprog" where
  "AppendMessage J now message b =
     (if lb_assignment b = [] then Ret (b, Inr ())
      else
        let entry = \<lparr>le_Sequence = lb_next b, le_Time = now, le_Message = message\<rparr>;
            b = appendLocked entry (b\<lparr>lb_next := inc64 (lb_next b)\<rparr>)
        in bindP (appendDiskLocked J entry b) (\<lambda>(b, x). Ret (case x of
             Inl e \<Rightarrow> (b, Inl e)
           | Inr _ \<Rightarrow> (b\<lparr>lb_channels := fold notify (lb_subscribers b) (lb_channels b)\<rparr>, Inr ()))))"

subsection \<open>Reading the file\<close>

fun splitLines :: "string \<Rightarrow> string list \<times> string" where \<comment> \<open>the complete lines and what is left\<close>
  "splitLines [] = ([], [])"
| "splitLines (c # cs) =
     (if c = LF then ([c] # fst (splitLines cs), snd (splitLines cs))
      else case splitLines cs of
        ([], rest) \<Rightarrow> ([], c # rest)
      | (l # ls, rest) \<Rightarrow> ((c # l) # ls, rest))"

definition replayRecord :: "diskRecord \<Rightarrow> LogBuffer \<Rightarrow> LogBuffer res" where
  "replayRecord r b =
     (if dr_Type r = ''reset'' then Inr (emptied (dr_Assignment r) b)
      else if dr_Type r = ''entry'' then
        (if dr_Assignment r \<noteq> lb_assignment b \<or> dr_Sequence r < lb_next b
         then Inl (ErrorString ''native container log sequence is invalid'')
         else Inr (appendLocked \<lparr>le_Sequence = dr_Sequence r, le_Time = dr_Time r, le_Message = dr_Message r\<rparr>
                (b\<lparr>lb_next := inc64 (dr_Sequence r)\<rparr>)))
      else Inl (ErrorString (''native container log record type '' @ fmt_q (dr_Type r) @ '' is invalid'')))"

definition replayLine :: "logjson \<Rightarrow> string \<Rightarrow> LogBuffer \<Rightarrow> LogBuffer res" where
  "replayLine J line b =
     (case lj_Unmarshal J line of
        Inl e \<Rightarrow> Inl (WrapError ''decode native container log: '' e [])
      | Inr r \<Rightarrow> replayRecord r b)"

fun replayLines :: "logjson \<Rightarrow> string list \<Rightarrow> LogBuffer \<Rightarrow> LogBuffer res" where
  "replayLines J [] b = Inr b"
| "replayLines J (l # ls) b = bind_res (replayLine J l b) (replayLines J ls)"

text \<open>
  The loop over \<open>ReadBytes\<close>: the complete lines; then an incomplete one is left alone at the end
  of the file and decoded before a read error is returned. The second result is
  \<open>truncatedTail\<close>.
\<close>

definition readRecords :: "logjson \<Rightarrow> string \<Rightarrow> go_error option \<Rightarrow> LogBuffer \<Rightarrow> (LogBuffer \<times> bool) res" where
  "readRecords J data readErr b =
     (let (lines, rest) = splitLines data in
      bind_res (replayLines J lines b) (\<lambda>b.
      case readErr of
        None \<Rightarrow> Inr (b, rest \<noteq> [])
      | Some e \<Rightarrow> if rest = [] then Inl e else bind_res (replayLine J rest b) (\<lambda>_. Inl e)))"

definition loadOpened :: "logjson \<Rightarrow> LogBuffer \<Rightarrow> (LogBuffer \<times> unit res) lprog" where \<comment> \<open>\<open>load\<close> from \<open>file.Stat\<close> on\<close>
  "loadOpened J b =
     bindP (lSize LStat) (\<lambda>x. case x of
       Inl e \<Rightarrow> Ret (b, Inl e)
     | Inr n \<Rightarrow>
        if n > maxDiskLogBytes
        then Ret (b, Inl (ErrorString (''native container log is too large: '' @ FormatInt n @ '' bytes'')))
        else
          bindP (lData (LRead (maxDiskLogBytes + 1))) (\<lambda>(data, readErr).
          case readRecords J data readErr (b\<lparr>lb_fileBytes := n\<rparr>) of
            Inl e \<Rightarrow> Ret (b, Inl e)
          | Inr (b, truncatedTail) \<Rightarrow> if truncatedTail then rewriteLocked J b else Ret (b, Inr ())))"

definition load :: "logjson \<Rightarrow> LogBuffer \<Rightarrow> (LogBuffer \<times> unit res) lprog" where
  "load J b =
     (if lb_path b = [] then Ret (b, Inr ())
      else bindP (lCall (LOpen (lb_path b))) (\<lambda>x. case x of
        Inl e \<Rightarrow> if e = LErrNotExist then Ret (b, Inr ())
                 else Ret (b, Inl (WrapError ''open native container log: '' e []))
      | Inr _ \<Rightarrow> bindP (loadOpened J b) (\<lambda>y. bindP (lCall LClose) (\<lambda>_. Ret y))))"

definition OpenLogBuffer :: "logjson \<Rightarrow> string \<Rightarrow> int \<Rightarrow> LogBuffer res lprog" where
  "OpenLogBuffer J path maximumBytes =
     bindP (load J ((NewLogBuffer maximumBytes)\<lparr>lb_path := path\<rparr>)) (\<lambda>(b, x). Ret (case x of Inl e \<Rightarrow> Inl e | Inr _ \<Rightarrow> Inr b))"

definition snapshotOpened :: "logjson \<Rightarrow> LogBuffer \<Rightarrow> string \<Rightarrow> Time \<Rightarrow> int64 \<Rightarrow> LogEntry list res lprog" where
  \<comment> \<open>\<open>ReadLogSnapshot\<close> from \<open>file.Stat\<close> on\<close>
  "snapshotOpened J b assignment since tailLines =
     bindE (lSize LStat) (\<lambda>n.
     if n > maxDiskLogBytes
     then Ret (Inl (ErrorString (''native container log is too large: '' @ FormatInt n @ '' bytes'')))
     else
       bindP (lData (LRead (maxDiskLogBytes + 1))) (\<lambda>(data, readErr).
       Ret (bind_res (readRecords J data readErr b) (\<lambda>(b, _). Inr (Snapshot b assignment since tailLines)))))"

definition ReadLogSnapshot :: "logjson \<Rightarrow> string \<Rightarrow> string \<Rightarrow> int \<Rightarrow> Time \<Rightarrow> int64 \<Rightarrow> LogEntry list res lprog" where
  "ReadLogSnapshot J path assignment maximumBytes since tailLines =
     bindP (lCall (LOpen path)) (\<lambda>x. case x of
       Inl e \<Rightarrow> Ret (Inl (if e = LErrNotExist
         then ErrorString (''no local workload logs exist on this Mac; --local only works on the joined host after a workload has run ''
           @ [CHR 0xE2, CHR 0x80, CHR 0x94] @ '' drop --local to read logs through the cluster'')
         else WrapError ''open native container log: '' e []))
     | Inr _ \<Rightarrow> bindP (snapshotOpened J (NewLogBuffer maximumBytes) assignment since tailLines) (\<lambda>y.
                bindP (lCall LClose) (\<lambda>_. Ret y)))"

subsection \<open>Lines\<close>

lemma splitLines_append:
  "snd (splitLines a) = [] \<Longrightarrow> splitLines (a @ b) = (fst (splitLines a) @ fst (splitLines b), snd (splitLines b))"
proof (induction a)
  case (Cons c a)
  show ?case
  proof (cases "c = LF")
    case True
    with Cons show ?thesis by simp
  next
    case False
    with Cons.prems obtain l ls where "splitLines a = (l # ls, [])"
      by (cases "splitLines a") (auto split: list.splits)
    with Cons.IH False show ?thesis by simp
  qed
qed simp

lemma splitLines_line: "LF \<notin> set d \<Longrightarrow> splitLines d = ([], d)" "LF \<notin> set d \<Longrightarrow> splitLines (d @ [LF]) = ([d @ [LF]], [])"
  by (induction d) auto

lemma replayLines_append: "replayLines J (xs @ ys) b = bind_res (replayLines J xs b) (replayLines J ys)"
proof (induction xs arbitrary: b)
  case (Cons x xs)
  then show ?case by (cases "replayLine J x b") simp_all
qed simp

text \<open>
  \<open>mirrors J b data torn\<close>: who reads \<open>data\<close> with the limits of \<open>b\<close> gets the log of
  \<open>b\<close>; \<open>torn\<close> says whether an incomplete line follows.
\<close>

definition mirrors :: "logjson \<Rightarrow> LogBuffer \<Rightarrow> string \<Rightarrow> bool \<Rightarrow> bool" where
  "mirrors J b data torn \<longleftrightarrow> readRecords J data None (emptied [] b) = Inr (b, torn)"

lemma mirrors_parts:
  "mirrors J b data torn \<longleftrightarrow>
     replayLines J (fst (splitLines data)) (emptied [] b) = Inr b \<and> torn = (snd (splitLines data) \<noteq> [])"
  by (auto simp: mirrors_def readRecords_def bind_res_Inr split: prod.split)

lemma emptied_same [simp]:
  "emptied a (emptied a' b) = emptied a b" "emptied a (b\<lparr>lb_entries := es\<rparr>) = emptied a b" "emptied a (b\<lparr>lb_bytes := n\<rparr>) = emptied a b"
  "emptied a (b\<lparr>lb_next := k\<rparr>) = emptied a b" "emptied a (b\<lparr>lb_assignment := a'\<rparr>) = emptied a b"
  by (simp_all add: emptied_def)

lemma emptied_append [simp]: "emptied a (appendLocked e b) = emptied a b"
  by (simp add: appendLocked_def split: prod.split)

lemma mirrors_torn:
  assumes "mirrors J b data False" "LF \<notin> set d"
  shows "mirrors J b (data @ d) (d \<noteq> [])"
  using assms by (simp add: mirrors_parts splitLines_append splitLines_line)

lemma mirrors_line:
  assumes "mirrors J b data False" "LF \<notin> set d" "replayLine J (d @ [LF]) b = Inr b'" "emptied [] b' = emptied [] b"
  shows "mirrors J b' (data @ d @ [LF]) False"
  using assms by (simp add: mirrors_parts splitLines_append splitLines_line replayLines_append)

subsection \<open>The invariant of the buffer\<close>

definition cost :: "LogEntry list \<Rightarrow> int" where
  "cost es = (\<Sum>e\<leftarrow>es. int (length (le_Message e)) + 1)"

lemma cost_simps [simp]: "cost [] = 0" "cost (e # es) = int (length (le_Message e)) + 1 + cost es" "cost (es @ es') = cost es + cost es'"
  by (simp_all add: cost_def)

lemma cost_nonneg: "0 \<le> cost es"
  by (induction es) simp_all

definition log_ok :: "LogBuffer \<Rightarrow> bool" where
  "log_ok b \<longleftrightarrow>
     lb_bytes b = cost (lb_entries b)
   \<and> (lb_bytes b \<le> lb_maximum b \<or> length (lb_entries b) \<le> 1)
   \<and> sorted_wrt (<) (map le_Sequence (lb_entries b))
   \<and> (\<forall>e\<in>set (lb_entries b). 1 \<le> le_Sequence e)
   \<and> lb_next b = (if lb_entries b = [] then 1 else le_Sequence (List.last (lb_entries b)) + 1)
   \<and> lb_next b < 2 ^ 64"

lemma evict_spec:
  assumes "evict m n es = (n', es')" "n = cost es"
  shows "n' = cost es' \<and> (n' \<le> m \<or> length es' \<le> 1) \<and> (\<exists>old. es = old @ es') \<and> (es \<noteq> [] \<longrightarrow> es' \<noteq> [])"
  using assms
proof (induction m n es arbitrary: n' es' rule: evict.induct)
  case (1 m n e e' es)
  show ?case
  proof (cases "n > m")
    case True
    with 1 have "n' = cost es'" "n' \<le> m \<or> length es' \<le> 1" "\<exists>old. e' # es = old @ es'" "es' \<noteq> []" by auto
    then show ?thesis by (auto intro: exI [of _ "e # old" for old])
  next
    case False
    with 1 show ?thesis by auto
  qed
qed auto

lemma evict_all: "n \<le> m \<or> length es \<le> 1 \<Longrightarrow> evict m n es = (n, es)"
  by (cases "(m, n, es)" rule: evict.cases) auto

lemma sequence_le_last: "sorted_wrt (<) (map le_Sequence es) \<Longrightarrow> e \<in> set es \<Longrightarrow> le_Sequence e \<le> le_Sequence (List.last es)"
  by (induction es) (auto simp: less_imp_le)

lemma appendLocked_ok:
  assumes "log_ok b" "lb_next b + 1 < 2 ^ 64" "le_Sequence e = lb_next b"
  shows "log_ok (appendLocked e (b\<lparr>lb_next := inc64 (lb_next b)\<rparr>))"
proof -
  obtain n es where ev: "evict (lb_maximum b) (lb_bytes b + (int (length (le_Message e)) + 1)) (lb_entries b @ [e]) = (n, es)"
    by (cases "evict (lb_maximum b) (lb_bytes b + (int (length (le_Message e)) + 1)) (lb_entries b @ [e])")
  from evict_spec [OF ev] assms(1) obtain old where es: "n = cost es" "n \<le> lb_maximum b \<or> length es \<le> 1" "es \<noteq> []"
    "lb_entries b @ [e] = old @ es"
    by (auto simp: log_ok_def)
  have "sorted_wrt (<) (map le_Sequence (lb_entries b @ [e]))" "\<forall>x\<in>set (lb_entries b @ [e]). 1 \<le> le_Sequence x"
    using assms(1,3) by (auto simp: log_ok_def sorted_wrt_append less_Suc_eq_le sequence_le_last split: if_splits)
  then have "sorted_wrt (<) (map le_Sequence es)" "\<forall>x\<in>set es. 1 \<le> le_Sequence x"
    unfolding es(4) by (simp_all add: sorted_wrt_append)
  moreover have "List.last es = e" using es(3,4) by (metis last_appendR last_snoc)
  ultimately show ?thesis
    using es assms(2,3) ev by (simp add: log_ok_def appendLocked_def inc64_def)
qed

subsection \<open>What is written is read back\<close>

text \<open>
  What the log relies on of \<open>encoding/json\<close>: a record with a time of the years up to 9999 has an
  encoding, an encoding has no newline, and strings that are \<open>clean\<close>, which stands for valid
  UTF-8, are read back as they were.
\<close>

definition jsonTime :: "Time \<Rightarrow> bool" where
  "jsonTime t \<longleftrightarrow> 0 \<le> t \<and> t < 315537897600 * second"

definition logjson_law :: "logjson \<Rightarrow> (string \<Rightarrow> bool) \<Rightarrow> bool" where
  "logjson_law J clean \<longleftrightarrow> (\<forall>r. jsonTime (dr_Time r) \<longrightarrow> (\<exists>d. lj_Marshal J r = Inr d)) \<and> clean [] \<and>
     (\<forall>r d. lj_Marshal J r = Inr d \<longrightarrow> LF \<notin> set d \<and>
        (dr_Type r \<in> {''reset'', ''entry''} \<and> clean (dr_Assignment r) \<and> clean (dr_Message r) \<and> dr_Sequence r < 2 ^ 64
           \<longrightarrow> lj_Unmarshal J (d @ [LF]) = Inr r))"

lemma law_no_newline: "logjson_law J clean \<Longrightarrow> lj_Marshal J r = Inr d \<Longrightarrow> LF \<notin> set d"
  by (auto simp: logjson_law_def)

definition log_clean :: "(string \<Rightarrow> bool) \<Rightarrow> LogBuffer \<Rightarrow> bool" where
  "log_clean clean b \<longleftrightarrow> clean (lb_assignment b) \<and> (\<forall>e\<in>set (lb_entries b). clean (le_Message e) \<and> jsonTime (le_Time e))"

definition addEntry :: "LogEntry \<Rightarrow> LogBuffer \<Rightarrow> LogBuffer" where
  "addEntry e b = appendLocked e (b\<lparr>lb_next := inc64 (le_Sequence e)\<rparr>)"

lemma LogEntry_eta [simp]: "\<lparr>le_Sequence = le_Sequence e, le_Time = le_Time e, le_Message = le_Message e\<rparr> = e"
  by simp

lemma replay_entry:
  assumes "logjson_law J clean" "clean (lb_assignment b)" "clean (le_Message e)" "lj_Marshal J (entryRecord b e) = Inr d"
    and "lb_assignment c = lb_assignment b" "lb_next c \<le> le_Sequence e" "le_Sequence e < 2 ^ 64"
  shows "replayLine J (d @ [LF]) c = Inr (addEntry e c)"
proof -
  have "lj_Unmarshal J (d @ [LF]) = Inr (entryRecord b e)"
    using assms by (simp add: logjson_law_def entryRecord_def)
  then show ?thesis
    using assms(5,6) by (simp add: replayLine_def replayRecord_def entryRecord_def addEntry_def)
qed

lemma appendLocked_next: "appendLocked e (b\<lparr>lb_next := k\<rparr>) = (appendLocked e b)\<lparr>lb_next := k\<rparr>"
  by (simp add: appendLocked_def split: prod.split)

lemma addEntry_keeps [simp]:
  "lb_assignment (addEntry e b) = lb_assignment b" "lb_next (addEntry e b) = inc64 (le_Sequence e)"
  "lb_maximum (addEntry e b) = lb_maximum b" "lb_path (addEntry e b) = lb_path b" "lb_fileBytes (addEntry e b) = lb_fileBytes b"
  by (simp_all add: addEntry_def appendLocked_def split: prod.split)

lemma replay_entries:
  assumes "logjson_law J clean" "clean (lb_assignment b)" "lb_assignment c = lb_assignment b"
    and "marshalLines J (map (entryRecord b) es) = Inr data"
    and "\<forall>e\<in>set es. clean (le_Message e) \<and> le_Sequence e + 1 < 2 ^ 64" "sorted_wrt (<) (map le_Sequence es)"
    and "es \<noteq> [] \<longrightarrow> lb_next c \<le> le_Sequence (hd es)"
  shows "snd (splitLines data) = [] \<and> replayLines J (fst (splitLines data)) c = Inr (fold addEntry es c)"
  using assms(3-)
proof (induction es arbitrary: c data)
  case (Cons e es)
  from Cons.prems(2) obtain d ds where d: "lj_Marshal J (entryRecord b e) = Inr d"
    "marshalLines J (map (entryRecord b) es) = Inr ds" "data = (d @ [LF]) @ ds"
    by (auto simp: bind_res_Inr)
  have nl: "LF \<notin> set d" using law_no_newline [OF assms(1) d(1)] .
  have "replayLine J (d @ [LF]) c = Inr (addEntry e c)"
    using Cons.prems by (intro replay_entry [OF assms(1,2) _ d(1)]) auto
  moreover have "snd (splitLines ds) = [] \<and> replayLines J (fst (splitLines ds)) (addEntry e c) = Inr (fold addEntry es (addEntry e c))"
    using Cons.prems d(2) by (intro Cons.IH) (auto simp: inc64_def neq_Nil_conv)
  ultimately show ?case
    using splitLines_append [of "d @ [LF]" ds] splitLines_line(2) [OF nl] by (simp add: d(3))
qed simp

lemma fold_addEntry:
  assumes "cost es \<le> lb_maximum b \<or> length es \<le> 1"
  shows "fold addEntry es (emptied a b) = (emptied a b)\<lparr>lb_entries := es, lb_bytes := cost es,
    lb_next := (if es = [] then 1 else inc64 (le_Sequence (List.last es)))\<rparr>"
  using assms
proof (induction es rule: rev_induct)
  case (snoc e es)
  then have "cost es \<le> lb_maximum b \<or> length es \<le> 1" by auto
  with snoc show ?case by (simp add: addEntry_def appendLocked_def emptied_def evict_all)
qed (simp add: emptied_def)

lemma rewrite_mirrors:
  assumes law: "logjson_law J clean" and clean: "log_clean clean b" and ok: "log_ok b"
    and data: "marshalLines J (resetRecord b # map (entryRecord b) (lb_entries b)) = Inr data"
  shows "mirrors J b data False"
proof -
  from data obtain d ds where d: "lj_Marshal J (resetRecord b) = Inr d"
    "marshalLines J (map (entryRecord b) (lb_entries b)) = Inr ds" "data = (d @ [LF]) @ ds"
    by (auto simp: bind_res_Inr)
  have nl: "LF \<notin> set d" using law_no_newline [OF law d(1)] .
  have un: "lj_Unmarshal J (d @ [LF]) = Inr (resetRecord b)"
    using law clean d(1) by (auto simp: logjson_law_def log_clean_def resetRecord_def)
  let ?c = "emptied (lb_assignment b) b"
  have seqs: "le_Sequence e + 1 < 2 ^ 64" if "e \<in> set (lb_entries b)" for e
    using ok sequence_le_last [of "lb_entries b" e] that by (auto simp: log_ok_def split: if_splits)
  have entries: "snd (splitLines ds) = [] \<and> replayLines J (fst (splitLines ds)) ?c = Inr (fold addEntry (lb_entries b) ?c)"
    using clean ok seqs by (intro replay_entries [OF law _ _ d(2)]) (auto simp: log_clean_def log_ok_def emptied_def neq_Nil_conv)
  have "fold addEntry (lb_entries b) ?c = b"
    using ok seqs [of "List.last (lb_entries b)"]
    by (subst fold_addEntry) (auto simp: log_ok_def emptied_def inc64_def)
  with entries un splitLines_append [of "d @ [LF]" ds] splitLines_line(2) [OF nl] show ?thesis
    by (simp add: mirrors_parts d(3) replayLine_def replayRecord_def resetRecord_def)
qed

subsection \<open>The file under a process that may be killed\<close>

record lfs =
  lf_file :: "string option"
  lf_temp :: "string option"

definition lf_data :: "lfs \<Rightarrow> string" where \<comment> \<open>a missing file reads as an empty one\<close>
  "lf_data s = (case lf_file s of None \<Rightarrow> [] | Some d \<Rightarrow> d)"

fun l_answered :: "lresp \<Rightarrow> bool" where
  "l_answered (LFailed e) = False"
| "l_answered (LShort n e) = False"
| "l_answered r = True"

definition written :: "lresp \<Rightarrow> string \<Rightarrow> string" where \<comment> \<open>the part of a write that was done\<close>
  "written r d = (case r of LFailed e \<Rightarrow> [] | LShort n e \<Rightarrow> take n d | _ \<Rightarrow> d)"

fun l_step :: "lreq \<times> lresp \<Rightarrow> lfs \<Rightarrow> lfs" where
  "l_step (LOpenAppend p, r) s = (if l_answered r then s\<lparr>lf_file := Some (lf_data s)\<rparr> else s)"
| "l_step (LWrite d, r) s = s\<lparr>lf_file := Some (lf_data s @ written r d)\<rparr>"
| "l_step (LCreateTemp p, r) s = (if l_answered r then s\<lparr>lf_temp := Some []\<rparr> else s)"
| "l_step (LWriteTemp d, r) s = s\<lparr>lf_temp := Some (written r d)\<rparr>"
| "l_step (LRename p, r) s = (if l_answered r then s\<lparr>lf_file := lf_temp s, lf_temp := None\<rparr> else s)"
| "l_step (LRemoveTemp, r) s = (if l_answered r then s\<lparr>lf_temp := None\<rparr> else s)"
| "l_step (q, r) s = s"

abbreviation "ltracks \<equiv> track l_step"

definition l_failure :: "lresp \<Rightarrow> go_error" where
  "l_failure r = (case r of LFailed e \<Rightarrow> e | LShort n e \<Rightarrow> e | _ \<Rightarrow> Sentinel [])"

lemma track_lCall:
  "ltracks I Q (lCall q) s \<longleftrightarrow> I s \<and> (\<forall>r. I (l_step (q, r) s)
     \<and> Q (l_step (q, r) s) (if l_answered r then Inr () else Inl (l_failure r)))"
proof -
  have "(case r of LFailed e \<Rightarrow> Inl e | LShort n e \<Rightarrow> Inl e | _ \<Rightarrow> Inr ()) = (if l_answered r then Inr () else Inl (l_failure r))" for r
    by (cases r) (auto simp: l_failure_def)
  then show ?thesis by (simp add: lCall_def)
qed

lemma track_orJoin:
  "ltracks I Q (orJoin p close rest) s =
     ltracks I (\<lambda>s' x. case x of
         Inl e \<Rightarrow> ltracks I (\<lambda>s'' c. I s'' \<and> Q s'' (Inl (JoinError (e # (case c of Inl e' \<Rightarrow> [e'] | Inr _ \<Rightarrow> []))))) close s'
       | Inr _ \<Rightarrow> ltracks I Q rest s') p s"
proof -
  have "(\<lambda>s' (x :: unit res). ltracks I Q (case x of
       Inl e \<Rightarrow> bindP close (\<lambda>c. Ret (Inl (JoinError (e # (case c of Inl e' \<Rightarrow> [e'] | Inr _ \<Rightarrow> [])))))
     | Inr _ \<Rightarrow> rest) s')
    = (\<lambda>s' x. case x of
         Inl e \<Rightarrow> ltracks I (\<lambda>s'' c. I s'' \<and> Q s'' (Inl (JoinError (e # (case c of Inl e' \<Rightarrow> [e'] | Inr _ \<Rightarrow> []))))) close s'
       | Inr _ \<Rightarrow> ltracks I Q rest s')"
    by (rule ext, rule ext) (simp add: track_bindP split: sum.split)
  then show ?thesis by (simp add: orJoin_def track_bindP)
qed

lemmas ltrack_rules = track_lCall track_orJoin track_bindE track_bindP

lemma written_all: "l_answered r \<Longrightarrow> written r d = d"
  by (cases r) (simp_all add: written_def)

lemma lf_data_simps [simp]: "lf_data (s\<lparr>lf_file := Some d\<rparr>) = d" "lf_data (s\<lparr>lf_temp := t\<rparr>) = lf_data s"
  by (simp_all add: lf_data_def)

lemma atomicWrite_tracks:
  assumes "I (lf_data s)" "I data"
  shows "ltracks (\<lambda>s. I (lf_data s)) (\<lambda>s' x. x = Inr () \<longrightarrow> lf_file s' = Some data) (atomicWrite path data) s"
  using assms by (auto simp: atomicWrite_def ltrack_rules written_all)

lemma appendFile_tracks:
  assumes "\<And>n. I (lf_data s @ take n data)"
  shows "ltracks (\<lambda>s. I (lf_data s)) (\<lambda>s' x. x = Inr () \<longrightarrow> lf_data s' = lf_data s @ data) (appendFile path data) s"
proof -
  have i: "I (lf_data s)" using assms [of 0] by simp
  have w: "I (lf_data s @ written r data)" for r
    using assms [of 0] assms [of "length data"] assms by (cases r) (simp_all add: written_def)
  show ?thesis
    by (auto simp: appendFile_def ltrack_rules i w written_all firstError_def split: if_splits)
qed

subsection \<open>The fields a log does not depend on\<close>

definition dress :: "string \<Rightarrow> int64 \<Rightarrow> nat list \<Rightarrow> chan list \<Rightarrow> LogBuffer \<Rightarrow> LogBuffer" where
  "dress p n ss cs b = b\<lparr>lb_path := p, lb_fileBytes := n, lb_subscribers := ss, lb_channels := cs\<rparr>"

lemma dress_appendLocked: "appendLocked e (dress p n ss cs b) = dress p n ss cs (appendLocked e b)"
  by (simp add: appendLocked_def dress_def split: prod.split)

lemma dress_emptied: "emptied a (dress p n ss cs b) = dress p n ss cs (emptied a b)"
  by (simp add: emptied_def dress_def)

lemma dress_replayLine: "replayLine J l (dress p n ss cs b) = map_sum id (dress p n ss cs) (replayLine J l b)"
proof -
  have [simp]: "dress p n ss cs (b\<lparr>lb_next := k\<rparr>) = (dress p n ss cs b)\<lparr>lb_next := k\<rparr>"
    "lb_assignment (dress p n ss cs b) = lb_assignment b" "lb_next (dress p n ss cs b) = lb_next b" for k b
    by (simp_all add: dress_def)
  show ?thesis
    by (auto simp: replayLine_def replayRecord_def dress_emptied simp flip: dress_appendLocked split: sum.split)
qed

lemma dress_replayLines: "replayLines J ls (dress p n ss cs b) = map_sum id (dress p n ss cs) (replayLines J ls b)"
proof (induction ls arbitrary: b)
  case (Cons l ls)
  then show ?case by (cases "replayLine J l b") (simp_all add: dress_replayLine)
qed simp

lemma mirrors_dress: "mirrors J b data torn \<Longrightarrow> mirrors J (dress p n ss cs b) data torn"
  by (simp add: mirrors_parts dress_emptied dress_replayLines)

lemma mirrors_fileBytes: "mirrors J b data torn \<Longrightarrow> mirrors J (b\<lparr>lb_fileBytes := n\<rparr>) data torn"
  using mirrors_dress [of J b data torn "lb_path b" n "lb_subscribers b" "lb_channels b"] by (simp add: dress_def)

lemma mirrors_channels: "mirrors J b data torn \<Longrightarrow> mirrors J (b\<lparr>lb_channels := cs\<rparr>) data torn"
  using mirrors_dress [of J b data torn "lb_path b" "lb_fileBytes b" "lb_subscribers b" cs] by (simp add: dress_def)

lemma log_fields [simp]:
  "log_ok (b\<lparr>lb_fileBytes := n\<rparr>) = log_ok b" "log_ok (b\<lparr>lb_channels := cs\<rparr>) = log_ok b"
  "log_ok (b\<lparr>lb_subscribers := ss\<rparr>) = log_ok b"
  "log_clean c (b\<lparr>lb_fileBytes := n\<rparr>) = log_clean c b" "log_clean c (b\<lparr>lb_channels := cs\<rparr>) = log_clean c b"
  "log_clean c (b\<lparr>lb_subscribers := ss\<rparr>) = log_clean c b"
  by (simp_all add: log_ok_def log_clean_def)

subsection \<open>Every operation keeps the file in step\<close>

datatype log_op = OpReset string Time string | OpAppend Time string

fun log_perform :: "logjson \<Rightarrow> log_op \<Rightarrow> LogBuffer \<Rightarrow> (LogBuffer \<times> unit res) lprog" where
  "log_perform J (OpReset assignment now message) b = Reset J assignment now message b"
| "log_perform J (OpAppend now message) b = AppendMessage J now message b"

definition nextEntry :: "Time \<Rightarrow> string \<Rightarrow> LogBuffer \<Rightarrow> LogEntry" where
  "nextEntry now message b = \<lparr>le_Sequence = lb_next b, le_Time = now, le_Message = message\<rparr>"

text \<open>The log an operation leaves in memory, whatever becomes of the file.\<close>

fun log_after :: "log_op \<Rightarrow> LogBuffer \<Rightarrow> LogBuffer" where
  "log_after (OpReset assignment now message) b =
     (let b = emptied assignment (b\<lparr>lb_channels := fold closeChan (lb_subscribers b) (lb_channels b), lb_subscribers := []\<rparr>)
      in if message \<noteq> [] then addEntry (nextEntry now message b) b else b)"
| "log_after (OpAppend now message) b =
     (if lb_assignment b = [] then b else addEntry (nextEntry now message b) b)"

fun log_op_ok :: "(string \<Rightarrow> bool) \<Rightarrow> log_op \<Rightarrow> LogBuffer \<Rightarrow> bool" where
  "log_op_ok clean (OpReset assignment now message) b \<longleftrightarrow> clean assignment \<and> clean message \<and> jsonTime now"
| "log_op_ok clean (OpAppend now message) b \<longleftrightarrow> clean message \<and> jsonTime now \<and> lb_next b + 1 < 2 ^ 64"

definition synced :: "logjson \<Rightarrow> (string \<Rightarrow> bool) \<Rightarrow> LogBuffer \<Rightarrow> lfs \<Rightarrow> bool" where
  "synced J clean b s \<longleftrightarrow>
     mirrors J b (lf_data s) False \<and> lb_fileBytes b = int (length (lf_data s)) \<and> log_ok b \<and> log_clean clean b
   \<and> lb_path b \<noteq> [] \<and> 0 < lb_maximum b"

lemma addEntry_ok:
  "log_ok b \<Longrightarrow> lb_next b + 1 < 2 ^ 64 \<Longrightarrow> log_ok (addEntry (nextEntry now message b) b)"
  using appendLocked_ok [of b "nextEntry now message b"] by (simp add: addEntry_def nextEntry_def)

lemma addEntry_clean:
  assumes "log_clean c b" "c (le_Message e)" "jsonTime (le_Time e)"
  shows "log_clean c (addEntry e b)"
proof -
  obtain n es where ev: "evict (lb_maximum b) (lb_bytes b + (int (length (le_Message e)) + 1)) (lb_entries b @ [e]) = (n, es)"
    by (cases "evict (lb_maximum b) (lb_bytes b + (int (length (le_Message e)) + 1)) (lb_entries b @ [e])")
  have "set es \<subseteq> set xs" if "evict m k xs = (n, es)" for m k xs
    using that by (induction m k xs arbitrary: n es rule: evict.induct) (auto split: if_splits)
  from this [OF ev] have "set es \<subseteq> set (lb_entries b) \<union> {e}" by simp
  with ev assms show ?thesis by (auto simp: log_clean_def addEntry_def appendLocked_def)
qed

lemma emptied_ok: "log_ok (emptied a b)" "c a \<Longrightarrow> log_clean c (emptied a b)"
  by (simp_all add: log_ok_def log_clean_def emptied_def)

lemma log_after_ok:
  assumes "log_ok b" "log_clean clean b" "log_op_ok clean op b"
  shows "log_ok (log_after op b) \<and> log_clean clean (log_after op b)"
proof (cases op)
  case (OpReset a now m)
  let ?b = "emptied a (b\<lparr>lb_channels := fold closeChan (lb_subscribers b) (lb_channels b), lb_subscribers := []\<rparr>)"
  have "log_ok (addEntry (nextEntry now m ?b) ?b)"
    by (rule addEntry_ok, rule emptied_ok) (simp add: emptied_def)
  moreover have "log_clean clean (addEntry (nextEntry now m ?b) ?b)"
    using assms(3) OpReset by (intro addEntry_clean emptied_ok) (simp_all add: nextEntry_def)
  ultimately show ?thesis
    using OpReset assms(3) by (simp add: emptied_ok Let_def)
next
  case (OpAppend now m)
  have "log_clean clean (addEntry (nextEntry now m b) b)"
    using assms OpAppend by (intro addEntry_clean) (simp_all add: nextEntry_def)
  with assms OpAppend show ?thesis by (simp add: addEntry_ok)
qed

definition same_log :: "LogBuffer \<Rightarrow> LogBuffer \<Rightarrow> bool" where
  "same_log b c \<longleftrightarrow> lb_assignment b = lb_assignment c \<and> lb_entries b = lb_entries c \<and> lb_next b = lb_next c"

text \<open>The file at any moment: the log before the operation or after it, perhaps with a torn line.\<close>

definition recoverable :: "logjson \<Rightarrow> LogBuffer \<Rightarrow> LogBuffer \<Rightarrow> string \<Rightarrow> bool" where
  "recoverable J b b' data \<longleftrightarrow> (\<exists>torn. mirrors J b data torn \<or> mirrors J b' data torn)"

lemma rewriteLocked_tracks:
  assumes "logjson_law J clean" "log_ok b'" "log_clean clean b'" "lb_path b' \<noteq> []" "0 < lb_maximum b'" "recoverable J b b' (lf_data s)"
  shows "ltracks (\<lambda>s. recoverable J b b' (lf_data s)) (\<lambda>s' (c, x). x = Inr () \<longrightarrow> synced J clean c s' \<and> same_log c b')
    (rewriteLocked J b') s"
proof (cases "marshalLines J (resetRecord b' # map (entryRecord b') (lb_entries b'))")
  case (Inl e)
  with assms show ?thesis by (simp add: rewriteLocked_def)
next
  case (Inr data)
  have m: "mirrors J b' data False" using rewrite_mirrors [OF assms(1,3,2) Inr] .
  then have "recoverable J b b' data" by (auto simp: recoverable_def)
  from atomicWrite_tracks [of "recoverable J b b'", OF assms(6) this, of "lb_path b'"] show ?thesis
    unfolding rewriteLocked_def Inr using assms(4)
    by (simp add: track_bindP)
      (auto elim!: track_mono simp: same_log_def synced_def lf_data_def mirrors_fileBytes [OF m] assms split: sum.split)
qed

lemma appendDisk_tracks:
  assumes law: "logjson_law J clean" and sy: "synced J clean b s" and e: "le_Sequence e = lb_next b" "clean (le_Message e)"
    and ok: "log_ok b'" "log_clean clean b'" and b': "b' = addEntry e b" and ne: "lb_assignment b \<noteq> []"
  shows "ltracks (\<lambda>s. recoverable J b b' (lf_data s)) (\<lambda>s' (c, x). x = Inr () \<longrightarrow> synced J clean c s' \<and> same_log c b')
    (appendDiskLocked J e b') s"
proof (cases "lj_Marshal J (entryRecord b' e)")
  case (Inl err)
  with sy show ?thesis by (auto simp: appendDiskLocked_def recoverable_def synced_def b')
next
  case (Inr d)
  have nl: "LF \<notin> set d" using law_no_newline [OF law Inr] .
  have p: "lb_path b' \<noteq> []" "0 < lb_maximum b'" using sy by (simp_all add: b' synced_def)
  have n: "lb_fileBytes b' = int (length (lf_data s))" using sy by (simp add: b' synced_def)
  have m: "mirrors J b (lf_data s) False" using sy by (simp add: synced_def)
  have "le_Sequence e < 2 ^ 64" "clean (lb_assignment b)" using sy e by (simp_all add: synced_def log_ok_def log_clean_def)
  moreover have "lj_Marshal J (entryRecord b e) = Inr d" using Inr by (simp add: b' entryRecord_def)
  ultimately have "replayLine J (d @ [LF]) b = Inr b'"
    unfolding b' using e by (intro replay_entry [OF law]) simp_all
  moreover have "emptied [] b' = emptied [] b" by (simp add: b' addEntry_def)
  ultimately have m': "mirrors J b' (lf_data s @ d @ [LF]) False" by (intro mirrors_line [OF m nl])
  have rec: "recoverable J b b' (lf_data s @ take n (d @ [LF]))" for n
  proof (cases "n \<le> length d")
    case True
    then have "LF \<notin> set (take n d)" "take n (d @ [LF]) = take n d" using nl by (auto dest: in_set_takeD)
    then show ?thesis using mirrors_torn [OF m] by (auto simp: recoverable_def)
  next
    case False
    then show ?thesis using m' by (auto simp: recoverable_def)
  qed
  have rw: "recoverable J b b' (lf_data s)" using rec [of 0] by simp
  show ?thesis
  proof (cases "wrap64 (lb_fileBytes b' + int (length (d @ [LF]))) > wrap64 (lb_maximum b' * 2)")
    case True
    with Inr p rewriteLocked_tracks [OF law ok p rw] show ?thesis by (simp add: appendDiskLocked_def Let_def)
  next
    case False
    with Inr p appendFile_tracks [of "recoverable J b b'" s "d @ [LF]" "lb_path b'", OF rec] show ?thesis
      unfolding appendDiskLocked_def
      by (simp add: track_bindP Let_def)
        (auto elim!: track_mono simp: same_log_def synced_def mirrors_fileBytes [OF m'] ok n split: sum.split)
  qed
qed

lemma log_perform_tracks:
  assumes law: "logjson_law J clean" and sy: "synced J clean b s" and op: "log_op_ok clean op b"
  shows "ltracks (\<lambda>s. recoverable J b (log_after op b) (lf_data s)) (\<lambda>s' (c, x). x = Inr () \<longrightarrow> synced J clean c s' \<and>
      same_log c (log_after op b))
    (log_perform J op b) s"
proof -
  let ?b = "log_after op b"
  have ok: "log_ok ?b" "log_clean clean ?b" using log_after_ok [of b clean op] sy op by (auto simp: synced_def)
  have start: "recoverable J b ?b (lf_data s)" using sy by (auto simp: recoverable_def synced_def)
  show ?thesis
  proof (cases op)
    case (OpReset a now m)
    have run: "log_perform J op b = rewriteLocked J ?b"
      by (simp add: Reset_def OpReset addEntry_def nextEntry_def Let_def emptied_def appendLocked_next)
    have "lb_path ?b \<noteq> []" "0 < lb_maximum ?b"
      using sy by (simp_all add: OpReset synced_def Let_def emptied_def)
    then show ?thesis
      unfolding run by (intro rewriteLocked_tracks [OF law ok _ _ start])
  next
    case (OpAppend now m)
    show ?thesis
    proof (cases "lb_assignment b = []")
      case True
      with OpAppend sy start show ?thesis by (simp add: AppendMessage_def same_log_def)
    next
      case False
      let ?e = "nextEntry now m b"
      have b': "?b = addEntry ?e b" using False by (simp add: OpAppend)
      have run: "log_perform J op b = bindP (appendDiskLocked J ?e ?b) (\<lambda>(b, x). Ret (case x of
             Inl e \<Rightarrow> (b, Inl e)
           | Inr _ \<Rightarrow> (b\<lparr>lb_channels := fold notify (lb_subscribers b) (lb_channels b)\<rparr>, Inr ())))"
        using False by (simp add: OpAppend AppendMessage_def addEntry_def nextEntry_def Let_def)
      have "ltracks (\<lambda>s. recoverable J b ?b (lf_data s)) (\<lambda>s' (c, x). x = Inr () \<longrightarrow> synced J clean c s' \<and> same_log c ?b)
         (appendDiskLocked J ?e ?b) s"
        using op by (intro appendDisk_tracks [OF law sy _ _ ok b' False]) (simp_all add: OpAppend nextEntry_def)
      then show ?thesis
        unfolding run track_bindP
        by (rule track_mono) (auto simp: synced_def same_log_def mirrors_channels split: sum.split)
    qed
  qed
qed

subsection \<open>Opening the file again\<close>

text \<open>A file system that answers every call.\<close>

definition disk :: "lfs \<Rightarrow> lreq \<Rightarrow> lresp \<times> lfs" where
  "disk s q =
     (let r = (case q of
          LOpen p \<Rightarrow> (if lf_file s = None then LFailed LErrNotExist else LDone)
        | LStat \<Rightarrow> LSize (int (length (lf_data s)))
        | LRead n \<Rightarrow> LData (take (nat n) (lf_data s)) None
        | _ \<Rightarrow> LDone)
      in (r, l_step (q, r) s))"

definition reopen :: "logjson \<Rightarrow> string \<Rightarrow> int \<Rightarrow> lfs \<Rightarrow> LogBuffer res" where
  "reopen J path maximum s = fst (exec disk (OpenLogBuffer J path maximum) s)"

lemma marshal_total:
  assumes "logjson_law J clean" "\<forall>r\<in>set rs. jsonTime (dr_Time r)"
  shows "\<exists>data. marshalLines J rs = Inr data"
  using assms(2)
proof (induction rs)
  case (Cons r rs)
  then obtain d ds where "lj_Marshal J r = Inr d" "marshalLines J rs = Inr ds"
    using assms(1) by (auto simp: logjson_law_def)
  then show ?case by simp
qed simp

lemmas exec_log = exec_bindP bindE_def orJoin_def lCall_def lSize_def lData_def disk_def Let_def

lemma exec_atomicWrite: "fst (exec disk (atomicWrite path data) s) = Inr ()"
  by (simp add: atomicWrite_def exec_log)

lemma exec_rewrite:
  assumes "logjson_law J clean" "log_clean clean b"
  shows "\<exists>n s'. exec disk (rewriteLocked J b) s = ((b\<lparr>lb_fileBytes := n\<rparr>, Inr ()), s')"
proof (cases "lb_path b = []")
  case True
  then show ?thesis by (auto simp: rewriteLocked_def intro: exI [of _ "lb_fileBytes b"])
next
  case False
  obtain data where "marshalLines J (resetRecord b # map (entryRecord b) (lb_entries b)) = Inr data"
    using marshal_total [OF assms(1), of "resetRecord b # map (entryRecord b) (lb_entries b)"] assms(2)
    by (auto simp: log_clean_def resetRecord_def entryRecord_def jsonTime_def second_def)
  with False exec_atomicWrite [of "lb_path b" data s] show ?thesis
    by (cases "exec disk (atomicWrite (lb_path b) data) s") (auto simp: rewriteLocked_def exec_bindP)
qed

lemma fresh_dress:
  assumes "0 < lb_maximum b"
  shows "(NewLogBuffer (lb_maximum b))\<lparr>lb_path := p, lb_fileBytes := n\<rparr> = dress p n [] [] (emptied [] b)"
  using assms by (simp add: NewLogBuffer_def dress_def emptied_def)

lemma reopen_mirrors:
  assumes law: "logjson_law J clean" and m: "mirrors J b (lf_data s) torn" and clean: "log_clean clean b"
    and b: "lb_path b \<noteq> []" "0 < lb_maximum b" and size: "int (length (lf_data s)) \<le> maxDiskLogBytes"
  shows "\<exists>c. reopen J (lb_path b) (lb_maximum b) s = Inr c \<and> same_log c b"
proof (cases "lf_file s")
  case None
  then have "b = emptied [] b" using m by (simp add: mirrors_parts lf_data_def)
  then have "lb_assignment b = lb_assignment (emptied [] b)" "lb_entries b = lb_entries (emptied [] b)" "lb_next b = lb_next (emptied [] b)"
    by (rule arg_cong)+
  then have "lb_assignment b = []" "lb_entries b = []" "lb_next b = 1" by (simp_all add: emptied_def)
  with None b show ?thesis
    by (simp add: reopen_def OpenLogBuffer_def load_def exec_log NewLogBuffer_def same_log_def)
next
  case (Some d)
  let ?n = "int (length d)"
  let ?b = "dress (lb_path b) ?n [] [] b"
  have d: "lf_data s = d" by (simp add: lf_data_def Some)
  have m': "readRecords J d None ((NewLogBuffer (lb_maximum b))\<lparr>lb_path := lb_path b, lb_fileBytes := ?n\<rparr>) = Inr (?b, torn)"
    using mirrors_dress [OF m, of "lb_path b" ?n "[]" "[]"] b(2) unfolding fresh_dress [OF b(2)]
    by (simp add: mirrors_def d dress_emptied)
  have "log_clean clean ?b" using clean by (simp add: log_clean_def dress_def)
  from exec_rewrite [OF law this] obtain n s' where rw: "exec disk (rewriteLocked J ?b) s = ((?b\<lparr>lb_fileBytes := n\<rparr>, Inr ()), s')" by blast
  have "same_log ?b b" "same_log (?b\<lparr>lb_fileBytes := n\<rparr>) b" by (simp_all add: same_log_def dress_def)
  with Some b size m' rw show ?thesis
    by (cases torn) (auto simp: reopen_def OpenLogBuffer_def load_def loadOpened_def exec_log d)
qed

lemma log_after_keeps: "lb_path (log_after op b) = lb_path b" "lb_maximum (log_after op b) = lb_maximum b"
  by (cases op; simp add: Let_def emptied_def)+

lemma synced_new:
  "p \<noteq> [] \<Longrightarrow> clean [] \<Longrightarrow> lf_file s = None \<Longrightarrow> synced J clean ((NewLogBuffer m)\<lparr>lb_path := p\<rparr>) s"
  by (auto simp: synced_def mirrors_parts lf_data_def NewLogBuffer_def emptied_def log_ok_def log_clean_def)

subsection \<open>Histories of a log\<close>

text \<open>
  What may happen to a log from the day its file is created: it is appended to and reset, an
  operation fails, followers come and go, and the process is killed inside an operation and opens the
  file again. The flag says that the file was complete at the start, at the last reset or at the last restart and that no
  operation has failed since; a failed append clears it, because the line it may have cut short stays in
  the file, and the reset with which the next assignment begins sets it again.
\<close>

inductive log_history :: "logjson \<Rightarrow> (string \<Rightarrow> bool) \<Rightarrow> LogBuffer \<Rightarrow> lfs \<Rightarrow> bool \<Rightarrow> bool" for J clean where
  created: "p \<noteq> [] \<Longrightarrow> lf_file s = None \<Longrightarrow> log_history J clean ((NewLogBuffer m)\<lparr>lb_path := p\<rparr>) s True"
| appended: "log_history J clean b s f \<Longrightarrow> log_op_ok clean (OpAppend now m) b \<Longrightarrow> runs (AppendMessage J now m b) t (b', Inr ())
    \<Longrightarrow> log_history J clean b' (fold l_step t s) f"
| restarted: "log_history J clean b s f \<Longrightarrow> log_op_ok clean (OpReset a now m) b \<Longrightarrow> runs (Reset J a now m b) t (b', Inr ())
    \<Longrightarrow> log_history J clean b' (fold l_step t s) True"
| failed: "log_history J clean b s f \<Longrightarrow> log_op_ok clean op b \<Longrightarrow> runs (log_perform J op b) t (b', Inl e)
    \<Longrightarrow> log_history J clean b' (fold l_step t s) False"
| followed: "log_history J clean b s f \<Longrightarrow> log_history J clean (b\<lparr>lb_subscribers := ss, lb_channels := cs\<rparr>) s f"
| killed: "log_history J clean b s True \<Longrightarrow> log_op_ok clean op b \<Longrightarrow> emits (log_perform J op b) t \<Longrightarrow> s' = fold l_step t s
    \<Longrightarrow> int (length (lf_data s')) \<le> maxDiskLogBytes \<Longrightarrow> exec disk (OpenLogBuffer J (lb_path b) (lb_maximum b)) s' = (Inr c, s'')
    \<Longrightarrow> log_history J clean c s'' True"

definition log_alive :: "(string \<Rightarrow> bool) \<Rightarrow> LogBuffer \<Rightarrow> bool" where
  "log_alive clean b \<longleftrightarrow> log_ok b \<and> log_clean clean b \<and> lb_path b \<noteq> [] \<and> 0 < lb_maximum b"

lemma log_alive_fields [simp]:
  "log_alive c (b\<lparr>lb_fileBytes := n\<rparr>) = log_alive c b" "log_alive c (b\<lparr>lb_channels := cs\<rparr>) = log_alive c b"
  "log_alive c (b\<lparr>lb_subscribers := ss\<rparr>) = log_alive c b"
  by (simp_all add: log_alive_def)

lemma synced_alive: "synced J clean b s \<longleftrightarrow> log_alive clean b \<and> mirrors J b (lf_data s) False \<and> lb_fileBytes b = int (length (lf_data s))"
  by (auto simp: synced_def log_alive_def)

lemma log_after_alive: "log_alive clean b \<Longrightarrow> log_op_ok clean op b \<Longrightarrow> log_alive clean (log_after op b)"
  using log_after_ok by (auto simp: log_alive_def log_after_keeps)

text \<open>A rewrite that succeeds puts the file in step, whatever the file was; any operation keeps the memory in order.\<close>

lemma rewrite_post:
  assumes "logjson_law J clean" "log_alive clean b"
  shows "ltracks (\<lambda>s. True) (\<lambda>s' (c, x). log_alive clean c \<and> (x = Inr () \<longrightarrow> synced J clean c s' \<and> same_log c b)) (rewriteLocked J b) s"
proof (cases "marshalLines J (resetRecord b # map (entryRecord b) (lb_entries b))")
  case (Inl e)
  with assms show ?thesis by (simp add: rewriteLocked_def log_alive_def)
next
  case (Inr data)
  have m: "mirrors J b data False" using rewrite_mirrors [OF assms(1) _ _ Inr] assms(2) by (simp add: log_alive_def)
  have p: "lb_path b \<noteq> []" using assms(2) by (simp add: log_alive_def)
  from atomicWrite_tracks [of "\<lambda>_. True" s data "lb_path b"] show ?thesis
    unfolding rewriteLocked_def Inr using p
    by (simp add: track_bindP)
      (auto elim!: track_mono simp: synced_alive lf_data_def mirrors_fileBytes [OF m] same_log_def assms split: sum.split)
qed

lemma append_post:
  assumes "logjson_law J clean" "log_alive clean b"
  shows "ltracks (\<lambda>s. True) (\<lambda>s' (c, x). log_alive clean c) (appendDiskLocked J e b) s"
proof -
  have "ltracks (\<lambda>s. True) (\<lambda>s' x. True) p s" for p :: "unit res lprog" and s by (induction p arbitrary: s) auto
  then show ?thesis
    using assms rewrite_post [OF assms, of s]
    by (auto simp: appendDiskLocked_def Let_def track_bindP elim!: track_mono split: sum.split)
qed

lemma log_perform_post:
  assumes "logjson_law J clean" "log_alive clean b" "log_op_ok clean op b"
  shows "ltracks (\<lambda>s. True) (\<lambda>s' (c, x). log_alive clean c \<and> (\<forall>a now m. op = OpReset a now m \<longrightarrow> x = Inr () \<longrightarrow> synced J clean c s' \<and> same_log c (log_after op b)))
    (log_perform J op b) s"
proof (cases op)
  case (OpReset a now m)
  have run: "log_perform J op b = rewriteLocked J (log_after op b)"
    by (simp add: Reset_def OpReset addEntry_def nextEntry_def Let_def emptied_def appendLocked_next)
  show ?thesis
    unfolding run by (rule track_mono [OF rewrite_post [OF assms(1) log_after_alive [OF assms(2,3)]]]) auto
next
  case (OpAppend now m)
  show ?thesis
  proof (cases "lb_assignment b = []")
    case True
    then show ?thesis using OpAppend assms(2) by (simp add: AppendMessage_def)
  next
    case False
    have run: "log_perform J op b = bindP (appendDiskLocked J (nextEntry now m b) (log_after op b)) (\<lambda>(b, x). Ret (case x of
             Inl e \<Rightarrow> (b, Inl e)
           | Inr _ \<Rightarrow> (b\<lparr>lb_channels := fold notify (lb_subscribers b) (lb_channels b)\<rparr>, Inr ())))"
      using False by (simp add: OpAppend AppendMessage_def addEntry_def nextEntry_def Let_def)
    show ?thesis
      unfolding run track_bindP
      by (rule track_mono [OF append_post [OF assms(1) log_after_alive [OF assms(2,3)]]]) (auto simp: OpAppend split: sum.split)
  qed
qed

lemma exec_disk_runs: "exec disk p s = (a, s') \<Longrightarrow> \<exists>t. runs p t a \<and> s' = fold l_step t s"
proof (induction p arbitrary: s)
  case (Ret x)
  then show ?case by (auto intro: exI [of _ "[]"])
next
  case (Req q k)
  obtain r where r: "disk s q = (r, l_step (q, r) s)" by (simp add: disk_def Let_def)
  with Req obtain t where "runs (k r) t a" "s' = fold l_step t (l_step (q, r) s)" by fastforce
  then show ?case by (intro exI [of _ "(q, r) # t"]) (simp add: runs.intros)
qed

lemma reopen_synced:
  assumes law: "logjson_law J clean" and m: "mirrors J b (lf_data s) torn" and b: "log_alive clean b"
    and size: "int (length (lf_data s)) \<le> maxDiskLogBytes"
    and run: "exec disk (OpenLogBuffer J (lb_path b) (lb_maximum b)) s = (Inr c, s')"
  shows "synced J clean c s'"
proof (cases "lf_file s")
  case None
  have "clean []" using law by (simp add: logjson_law_def)
  with None run b show ?thesis
    using synced_new [of "lb_path b" clean s J "lb_maximum b"]
    by (auto simp: OpenLogBuffer_def load_def exec_log log_alive_def NewLogBuffer_def)
next
  case (Some d)
  let ?n = "int (length d)"
  let ?b = "dress (lb_path b) ?n [] [] b"
  have d: "lf_data s = d" by (simp add: lf_data_def Some)
  have pos: "0 < lb_maximum b" "lb_path b \<noteq> []" using b by (simp_all add: log_alive_def)
  have m': "readRecords J d None ((NewLogBuffer (lb_maximum b))\<lparr>lb_path := lb_path b, lb_fileBytes := ?n\<rparr>) = Inr (?b, torn)"
    using mirrors_dress [OF m, of "lb_path b" ?n "[]" "[]"] unfolding fresh_dress [OF pos(1)]
    by (simp add: mirrors_def d dress_emptied)
  have alive: "log_alive clean ?b" using b by (auto simp: log_alive_def dress_def log_ok_def log_clean_def)
  show ?thesis
  proof (cases torn)
    case False
    with Some pos size m' run have "c = ?b" "s' = s" by (auto simp: OpenLogBuffer_def load_def loadOpened_def exec_log d)
    with False mirrors_dress [OF m, of "lb_path b" ?n "[]" "[]"] alive show ?thesis by (simp add: synced_alive d) (simp add: dress_def)
  next
    case True
    obtain c' x s1 where e: "exec disk (rewriteLocked J ?b) s = ((c', x), s1)" by (cases "exec disk (rewriteLocked J ?b) s") auto
    from exec_disk_runs [OF e] obtain t where t: "runs (rewriteLocked J ?b) t (c', x)" "s1 = fold l_step t s" by blast
    with track_runs [OF rewrite_post [OF law alive] t(1), of s] have "x = Inr () \<longrightarrow> synced J clean c' s1" by simp
    with True Some pos size m' run e show ?thesis
      by (auto simp: OpenLogBuffer_def load_def loadOpened_def exec_log d split: sum.splits)
  qed
qed

lemma log_history_synced:
  assumes "log_history J clean b s f" and law: "logjson_law J clean"
  shows "log_alive clean b \<and> (f \<longrightarrow> synced J clean b s)"
  using assms(1)
proof (induction rule: log_history.induct)
  case (created p s m)
  have "clean []" using law by (simp add: logjson_law_def)
  with created synced_new [of p clean s J m] show ?case by (simp add: synced_alive)
next
  case (appended b s f now m t b')
  have r: "runs (log_perform J (OpAppend now m) b) t (b', Inr ())" using appended(3) by simp
  from track_runs [OF log_perform_post [OF law _ appended(2)] r] appended(4) have "log_alive clean b'" by auto
  moreover have "synced J clean b' (fold l_step t s)" if f using track_runs [OF log_perform_tracks [OF law _ appended(2)] r] appended(4) that by auto
  ultimately show ?case by blast
next
  case (restarted b s f a now m t b')
  have r: "runs (log_perform J (OpReset a now m) b) t (b', Inr ())" using restarted(3) by simp
  from track_runs [OF log_perform_post [OF law _ restarted(2)] r] restarted(4) show ?case by auto
next
  case (failed b s f op t b' e)
  from track_runs [OF log_perform_post [OF law _ failed(2)] failed(3)] failed(4) show ?case by auto
next
  case (followed b s f cs ss)
  have "mirrors J (b\<lparr>lb_subscribers := ss, lb_channels := cs\<rparr>) (lf_data s) False" if "mirrors J b (lf_data s) False"
    using mirrors_dress [OF that, of "lb_path b" "lb_fileBytes b" ss cs] by (simp add: dress_def)
  with followed show ?case by (auto simp: synced_alive)
next
  case (killed b s op t s' c s'')
  have sy: "synced J clean b s" "log_alive clean b" using killed by simp_all
  have "recoverable J b (log_after op b) (lf_data s')"
    using track_emits [OF log_perform_tracks [OF law sy(1) killed(2)] killed(3)] by (simp add: killed(4))
  then have "synced J clean c s''"
    using reopen_synced [OF law _ sy(2) killed(5,6)]
      reopen_synced [OF law _ log_after_alive [OF sy(2) killed(2)] killed(5), unfolded log_after_keeps, OF _ killed(6)]
    by (auto simp: recoverable_def)
  then show ?case by (simp add: synced_alive)
qed

text \<open>
  C30. The log survives its writer. Take a log whose file was created, reset or opened after a kill, and no operation of which
  has failed since. When the next \<open>Reset\<close> or \<open>AppendMessage\<close> is killed between any two
  calls, or after a write that was cut short, opening the file again gives the log before the
  operation or the log after it, with the numbering continued. The conditions are that the file is not larger than
  \<open>maxDiskLogBytes\<close>, that every text is valid UTF-8 and every time has an encoding, that the sequence numbers do not
  wrap around, and that \<open>encoding/json\<close> reads back what it wrote. An append that failed may have left a torn line in the
  file (\<open>append_after_torn_write\<close>), so the log is only whole again after the next reset.
\<close>

theorem log_crash_atomic:
  assumes "logjson_law J clean" and "log_history J clean b s True" and "log_op_ok clean op b"
    and "emits (log_perform J op b) t" and "s' = fold l_step t s" and "int (length (lf_data s')) \<le> maxDiskLogBytes"
  shows "\<exists>c. reopen J (lb_path b) (lb_maximum b) s' = Inr c \<and> (same_log c b \<or> same_log c (log_after op b))"
proof -
  have sy: "synced J clean b s" using log_history_synced [OF assms(2,1)] by simp
  have b: "log_clean clean b" "lb_path b \<noteq> []" "0 < lb_maximum b" "log_clean clean (log_after op b)"
    using sy assms(3) log_after_ok [of b clean op] by (auto simp: synced_def)
  have "recoverable J b (log_after op b) (lf_data s')"
    using track_emits [OF log_perform_tracks [OF assms(1) sy assms(3)] assms(4)] by (simp add: assms(5))
  then show ?thesis
    using reopen_mirrors [OF assms(1) _ b(1-3) assms(6)]
      reopen_mirrors [OF assms(1) _ b(4) _ _ assms(6), unfolded log_after_keeps, OF _ b(2,3)]
    by (auto simp: recoverable_def)
qed

text \<open>
  C31. An operation that returns without an error has put the log on disk. If it is an append, no operation has failed
  since the file was created, last reset or opened after a kill; a reset may follow failures. Then its memory is the log it
  asked for, and opening the file gives the same assignment, entries and next number. The
  conditions are that the file is not larger than \<open>maxDiskLogBytes\<close>, which many short messages can
  exceed (\<open>log_outgrows_its_reader\<close>), that every text is valid UTF-8 and every time has an encoding,
  that the sequence numbers do not wrap around, and that \<open>encoding/json\<close> reads back what it wrote.
\<close>

theorem log_reopened:
  assumes "logjson_law J clean" and "log_history J clean b s f" and "log_op_ok clean op b"
    and "f \<or> (\<exists>a now m. op = OpReset a now m)"
    and "runs (log_perform J op b) t (b', Inr ())" and "s' = fold l_step t s" and "int (length (lf_data s')) \<le> maxDiskLogBytes"
  shows "same_log b' (log_after op b) \<and> (\<exists>c. reopen J (lb_path b') (lb_maximum b') s' = Inr c \<and> same_log c b')"
proof -
  note alive = log_history_synced [OF assms(2,1)]
  have sy: "synced J clean b' s' \<and> same_log b' (log_after op b)"
  proof (cases f)
    case True
    then show ?thesis
      using alive track_runs [OF log_perform_tracks [OF assms(1) _ assms(3)] assms(5)] by (auto simp: assms(6))
  next
    case False
    then show ?thesis
      using alive assms(4) track_runs [OF log_perform_post [OF assms(1) _ assms(3)] assms(5), of s] by (auto simp: assms(6))
  qed
  then show ?thesis
    using reopen_mirrors [OF assms(1) _ _ _ _ assms(7), of b' False] by (auto simp: synced_def)
qed

subsection \<open>A concrete encoding\<close>

definition explain :: "string \<Rightarrow> bool" where
  "explain s \<longleftrightarrow> CHR '','' \<notin> set s \<and> LF \<notin> set s"

definition exencode :: "diskRecord \<Rightarrow> string" where
  "exencode r = replicate (dr_Sequence r) (CHR ''i'') @ CHR '','' # replicate (nat (dr_Time r)) (CHR ''t'')
     @ CHR '','' # dr_Type r @ CHR '','' # dr_Assignment r @ CHR '','' # dr_Message r"

definition exlogjson :: logjson where
  "exlogjson = \<lparr>lj_Marshal = (\<lambda>r. if jsonTime (dr_Time r) then Inr (filter (\<lambda>c. c \<noteq> LF) (exencode r)) else Inl (Sentinel ''year'')),
     lj_Unmarshal = (\<lambda>l. case splitOn (CHR '','') (butlast l) of
        [i, t, k, a, m] \<Rightarrow> Inr \<lparr>dr_Type = k, dr_Assignment = a, dr_Sequence = length i, dr_Time = int (length t), dr_Message = m\<rparr>
      | _ \<Rightarrow> Inl (Sentinel ''syntax''))\<rparr>"

lemma exlogjson_law: "logjson_law exlogjson explain"
proof -
  have keep: "filter (\<lambda>c. c \<noteq> LF) x = x" if "LF \<notin> set x" for x
    using that by (induction x) auto
  have plain: "filter (\<lambda>c. c \<noteq> LF) (exencode r) = exencode r"
    if "dr_Type r \<in> {''reset'', ''entry''}" "explain (dr_Assignment r)" "explain (dr_Message r)" for r
    using that by (auto simp: exencode_def explain_def keep)
  have split: "splitOn (CHR '','') (exencode r) = [replicate (dr_Sequence r) (CHR ''i''), replicate (nat (dr_Time r)) (CHR ''t''), dr_Type r, dr_Assignment r, dr_Message r]"
    if "dr_Type r \<in> {''reset'', ''entry''}" "explain (dr_Assignment r)" "explain (dr_Message r)" for r
    using that by (auto simp: exencode_def explain_def splitOn_append splitOn_none)
  show ?thesis
    by (auto simp: logjson_law_def exlogjson_def plain split explain_def jsonTime_def butlast_append)
qed

definition exfile :: lfs where
  "exfile = \<lparr>lf_file = Some (exencode \<lparr>dr_Type = ''reset'', dr_Assignment = ''a'', dr_Sequence = 0, dr_Time = 0, dr_Message = []\<rparr> @ [LF]), lf_temp = None\<rparr>"

definition exlog :: LogBuffer where
  "exlog = (NewLogBuffer 100)\<lparr>lb_path := ''log'', lb_assignment := ''a'', lb_fileBytes := int (length (lf_data exfile))\<rparr>"

lemmas exlog_simps = exlog_def exfile_def exencode_def NewLogBuffer_def lf_data_def

text \<open>The log that a reset has just begun.\<close>

definition exbegun :: "(lreq \<times> lresp) list" where
  "exbegun = feed (Reset exlogjson ''a'' 0 [] ((NewLogBuffer 100)\<lparr>lb_path := ''log''\<rparr>)) (replicate 8 LDone)"

lemmas exreset_eval = Reset_def Let_def emptied_def rewriteLocked_def atomicWrite_def bindE_def orJoin_def lCall_def resetRecord_def
  exlog_simps exlogjson_def jsonTime_def second_def numeral_eq_Suc

lemma exbegun_runs: "runs (Reset exlogjson ''a'' 0 [] ((NewLogBuffer 100)\<lparr>lb_path := ''log''\<rparr>)) exbegun (exlog, Inr ())"
  unfolding exbegun_def by (rule runs_feed) (simp add: exreset_eval)

lemma exbegun_file: "fold l_step exbegun \<lparr>lf_file = None, lf_temp = None\<rparr> = exfile"
  by (simp add: exbegun_def exreset_eval written_def)

lemma exlog_history: "log_history exlogjson explain exlog exfile True"
proof -
  have "log_history exlogjson explain ((NewLogBuffer 100)\<lparr>lb_path := ''log''\<rparr>) \<lparr>lf_file = None, lf_temp = None\<rparr> True"
    by (rule log_history.created) simp_all
  from log_history.restarted [OF this _ exbegun_runs] show ?thesis
    unfolding exbegun_file by (simp add: explain_def jsonTime_def second_def)
qed

lemma exlog_synced: "synced exlogjson explain exlog exfile"
  using log_history_synced [OF exlog_history exlogjson_law] by simp

definition extorn :: "(lreq \<times> lresp) list" where
  "extorn = feed (log_perform exlogjson (OpAppend 0 ''hi'') exlog) [LDone, LDone, LDone, LShort 3 (Sentinel ''no space'')]"

lemma extorn_data: "lf_data (fold l_step extorn exfile) = lf_data exfile @ ''i,,''"
  by (simp add: extorn_def AppendMessage_def Let_def bindE_def appendDiskLocked_def appendFile_def lCall_def exlog_simps exlogjson_def entryRecord_def
      appendLocked_def wrap64_def jsonTime_def second_def written_def)

lemma exlog_fields: "lb_path exlog = ''log''" "lb_maximum exlog = 100" "log_op_ok explain (OpAppend 0 ''hi'') exlog"
  "int (length (lf_data exfile)) = 11"
  by (simp_all add: exlog_simps explain_def jsonTime_def second_def)

lemma extorn_emits: "emits (log_perform exlogjson (OpAppend 0 ''hi'') exlog) extorn"
  unfolding extorn_def by (rule emits_feed)

theorem log_crash_atomic_witness:
  "\<exists>c. reopen exlogjson ''log'' 100 (fold l_step extorn exfile) = Inr c \<and>
     (same_log c exlog \<or> same_log c (log_after (OpAppend 0 ''hi'') exlog))"
  using log_crash_atomic [OF exlogjson_law exlog_history exlog_fields(3) extorn_emits refl]
  by (simp add: exlog_fields extorn_data del: log_after.simps)

definition exdone :: "(lreq \<times> lresp) list" where
  "exdone = feed (log_perform exlogjson (OpAppend 0 ''hi'') exlog) [LDone, LDone, LDone, LDone, LDone, LDone]"

definition exlog' :: LogBuffer where
  "exlog' = exlog\<lparr>lb_entries := [\<lparr>le_Sequence = 1, le_Time = 0, le_Message = ''hi''\<rparr>], lb_bytes := 3, lb_next := 2,
     lb_fileBytes := int (length (lf_data exfile)) + 14\<rparr>"

lemma exdone_runs: "runs (log_perform exlogjson (OpAppend 0 ''hi'') exlog) exdone (exlog', Inr ())"
  unfolding exdone_def
  by (rule runs_feed) (simp add: AppendMessage_def Let_def bindE_def appendDiskLocked_def appendFile_def lCall_def exlog_simps exlogjson_def entryRecord_def
      appendLocked_def wrap64_def jsonTime_def second_def firstError_def inc64_def exlog'_def)

lemma exdone_data: "lf_data (fold l_step exdone exfile) = lf_data exfile @ ''i,,entry,a,hi'' @ [LF]"
  by (simp add: exdone_def AppendMessage_def Let_def bindE_def appendDiskLocked_def appendFile_def lCall_def exlog_simps exlogjson_def entryRecord_def
      appendLocked_def wrap64_def jsonTime_def second_def written_def)

theorem log_reopened_witness:
  "same_log exlog' (log_after (OpAppend 0 ''hi'') exlog) \<and>
   (\<exists>c. reopen exlogjson ''log'' 100 (fold l_step exdone exfile) = Inr c \<and> same_log c exlog')"
  using log_reopened [OF exlogjson_law exlog_history exlog_fields(3) disjI1 [OF TrueI] exdone_runs refl]
  by (simp add: exlog_fields exdone_data exlog'_def del: log_after.simps)

subsection \<open>A log that cannot be opened again\<close>

text \<open>
  The bound of the buffer counts a message and one byte; the file holds a JSON record for each. Many
  short messages therefore stay within the buffer while the file outgrows what \<open>load\<close> accepts: a
  session in which every call succeeds ends with a file that the next start refuses.
\<close>

fun log_session :: "logjson \<Rightarrow> log_op list \<Rightarrow> LogBuffer \<Rightarrow> lfs \<Rightarrow> (LogBuffer \<times> lfs) option" where
  "log_session J [] b s = Some (b, s)"
| "log_session J (op # ops) b s =
     (case exec disk (log_perform J op b) s of
        ((b', Inr _), s') \<Rightarrow> log_session J ops b' s'
      | ((b', Inl _), s') \<Rightarrow> None)"

definition bulky :: "LogBuffer \<Rightarrow> lfs \<Rightarrow> bool" where
  "bulky b s \<longleftrightarrow> 61 * length (lb_entries b) \<le> length (lf_data s)"

text \<open>The names, quotes and the time of a record take at least 60 bytes.\<close>

definition logjson_sizes :: "logjson \<Rightarrow> bool" where
  "logjson_sizes J \<longleftrightarrow> (\<forall>r d. lj_Marshal J r = Inr d \<longrightarrow> 60 \<le> length d)"

lemma law_marshal: "logjson_law J clean \<Longrightarrow> jsonTime (dr_Time r) \<Longrightarrow> \<exists>d. lj_Marshal J r = Inr d"
  by (simp add: logjson_law_def)

lemma marshalLines_length:
  assumes "logjson_sizes J" "marshalLines J rs = Inr data"
  shows "61 * length rs \<le> length data"
  using assms(2)
proof (induction rs arbitrary: data)
  case (Cons r rs)
  from Cons.prems obtain d ds where d: "lj_Marshal J r = Inr d" "marshalLines J rs = Inr ds" "data = d @ LF # ds"
    by (auto simp: bind_res_Inr)
  with assms(1) Cons.IH [OF d(2)] show ?case by (fastforce simp: logjson_sizes_def)
qed simp

lemma exec_atomicWrite_file: "lf_file (snd (exec disk (atomicWrite path data) s)) = Some data"
  by (simp add: atomicWrite_def exec_log written_def)

lemma exec_appendFile:
  "fst (exec disk (appendFile path data) s) = Inr ()" "lf_data (snd (exec disk (appendFile path data) s)) = lf_data s @ data"
  by (simp_all add: appendFile_def exec_log written_def firstError_def)

definition roomy :: "(string \<Rightarrow> bool) \<Rightarrow> string \<Rightarrow> LogBuffer \<Rightarrow> lfs \<Rightarrow> bool" where
  "roomy clean p b s \<longleftrightarrow> lb_path b = p \<and> lb_assignment b \<noteq> [] \<and> lb_bytes b = cost (lb_entries b) \<and> log_clean clean b \<and> bulky b s"

lemma addEntry_roomy:
  assumes "lb_bytes b = cost (lb_entries b)" "cost (lb_entries b @ [e]) \<le> lb_maximum b"
  shows "lb_entries (addEntry e b) = lb_entries b @ [e]" "lb_bytes (addEntry e b) = cost (lb_entries b @ [e])"
  using assms by (simp_all add: addEntry_def appendLocked_def evict_all)

lemma exec_rewrite_bulky:
  assumes law: "logjson_law J clean" and big: "logjson_sizes J"
    and b: "log_clean clean b" "lb_path b \<noteq> []"
  shows "\<exists>n s'. exec disk (rewriteLocked J b) s = ((b\<lparr>lb_fileBytes := n\<rparr>, Inr ()), s') \<and> bulky b s'"
proof -
  let ?rs = "resetRecord b # map (entryRecord b) (lb_entries b)"
  obtain data where data: "marshalLines J ?rs = Inr data"
    using marshal_total [OF law, of ?rs] b(1)
    by (auto simp: log_clean_def resetRecord_def entryRecord_def jsonTime_def second_def)
  have "61 * length ?rs \<le> length data" using marshalLines_length [OF big data] by blast
  with data b(2) exec_atomicWrite [of "lb_path b" data s] exec_atomicWrite_file [of "lb_path b" data s] show ?thesis
    by (cases "exec disk (atomicWrite (lb_path b) data) s") (auto simp: rewriteLocked_def exec_bindP bulky_def lf_data_def)
qed

lemma exec_append_bulky:
  assumes law: "logjson_law J clean" and big: "logjson_sizes J"
    and b: "roomy clean p b s" "p \<noteq> []" and m: "clean m" "jsonTime now" and fits: "cost (lb_entries b @ [nextEntry now m b]) \<le> lb_maximum b"
  shows "\<exists>b' s'. exec disk (AppendMessage J now m b) s = ((b', Inr ()), s') \<and> roomy clean p b' s'
    \<and> lb_entries b' = lb_entries b @ [nextEntry now m b] \<and> lb_maximum b' = lb_maximum b"
proof -
  let ?e = "nextEntry now m b"
  let ?b = "addEntry ?e b"
  have parts: "lb_bytes b = cost (lb_entries b)" "lb_assignment b \<noteq> []" "log_clean clean b" "bulky b s" "lb_path b = p"
    using b(1) by (simp_all add: roomy_def)
  note grown = addEntry_roomy [OF parts(1) fits]
  have clean: "log_clean clean ?b" using m by (intro addEntry_clean parts) (simp_all add: nextEntry_def)
  have run: "AppendMessage J now m b = bindP (appendDiskLocked J ?e ?b) (\<lambda>(b, x). Ret (case x of
             Inl e \<Rightarrow> (b, Inl e)
           | Inr _ \<Rightarrow> (b\<lparr>lb_channels := fold notify (lb_subscribers b) (lb_channels b)\<rparr>, Inr ())))"
    using parts(2) by (simp add: AppendMessage_def addEntry_def nextEntry_def Let_def)
  obtain d where d: "lj_Marshal J (entryRecord ?b ?e) = Inr d"
    using law_marshal [OF law, of "entryRecord ?b ?e"] m by (auto simp: entryRecord_def nextEntry_def)
  have "\<exists>n s'. exec disk (appendDiskLocked J ?e ?b) s = ((?b\<lparr>lb_fileBytes := n\<rparr>, Inr ()), s') \<and> bulky ?b s'"
  proof (cases "wrap64 (lb_fileBytes ?b + int (length (d @ [LF]))) > wrap64 (lb_maximum ?b * 2)")
    case True
    with d b(2) parts(5) exec_rewrite_bulky [OF law big clean, of s] show ?thesis
      by (simp add: appendDiskLocked_def Let_def)
  next
    case False
    have "bulky ?b s'" if "lf_data s' = lf_data s @ d @ [LF]" for s'
      using that big d parts(4) by (fastforce simp: bulky_def grown logjson_sizes_def)
    with False d b(2) parts(5) exec_appendFile [of p "d @ [LF]" s] show ?thesis
      by (cases "exec disk (appendFile p (d @ [LF])) s") (auto simp: appendDiskLocked_def Let_def exec_bindP)
  qed
  then obtain n s' where "exec disk (appendDiskLocked J ?e ?b) s = ((?b\<lparr>lb_fileBytes := n\<rparr>, Inr ()), s')" "bulky ?b s'" by blast
  then show ?thesis
    using parts grown clean by (simp add: run exec_bindP roomy_def bulky_def)
qed

lemma log_session_bulky:
  assumes law: "logjson_law J clean" and big: "logjson_sizes J"
    and b: "roomy clean p b s" "p \<noteq> []" and m: "clean m" "jsonTime now"
    and fits: "cost (lb_entries b) + int n * (int (length m) + 1) \<le> lb_maximum b"
  shows "\<exists>b' s'. log_session J (replicate n (OpAppend now m)) b s = Some (b', s') \<and> bulky b' s'
    \<and> length (lb_entries b') = length (lb_entries b) + n"
  using b(1) fits
proof (induction n arbitrary: b s)
  case (Suc n)
  have "cost (lb_entries b @ [nextEntry now m b]) \<le> lb_maximum b"
    using Suc.prems(2) by (simp add: nextEntry_def algebra_simps) (smt (verit) of_nat_0_le_iff mult_nonneg_nonneg)
  from exec_append_bulky [OF law big Suc.prems(1) b(2) m this] obtain b1 s1
    where 1: "exec disk (AppendMessage J now m b) s = ((b1, Inr ()), s1)" "roomy clean p b1 s1"
      "lb_entries b1 = lb_entries b @ [nextEntry now m b]" "lb_maximum b1 = lb_maximum b" by blast
  have "cost (lb_entries b1) + int n * (int (length m) + 1) \<le> lb_maximum b1"
    using Suc.prems(2) 1(3,4) by (simp add: nextEntry_def algebra_simps)
  from Suc.IH [OF 1(2) this] 1 show ?case by auto
qed (auto simp: roomy_def)

theorem log_outgrows_its_reader:
  assumes law: "logjson_law J clean" and big: "logjson_sizes J"
    and p: "p \<noteq> []" "a \<noteq> []" and m: "clean a" "clean ''x''" "jsonTime now"
  shows "\<exists>b s e. log_session J (OpReset a now [] # replicate 70000 (OpAppend now ''x'')) ((NewLogBuffer 0)\<lparr>lb_path := p\<rparr>)
      \<lparr>lf_file = None, lf_temp = None\<rparr> = Some (b, s) \<and> reopen J p 0 s = Inl (ErrorString e)"
proof -
  let ?b = "emptied a ((NewLogBuffer 0)\<lparr>lb_path := p\<rparr>)" and ?s = "\<lparr>lf_file = None, lf_temp = None\<rparr>"
  have reset: "Reset J a now [] ((NewLogBuffer 0)\<lparr>lb_path := p\<rparr>) = rewriteLocked J ?b"
    by (simp add: Reset_def NewLogBuffer_def emptied_def)
  have "log_clean clean ?b" "lb_path ?b \<noteq> []" using p m by (simp_all add: log_clean_def emptied_def)
  from exec_rewrite_bulky [OF law big this] obtain n s1
    where 1: "exec disk (rewriteLocked J ?b) ?s = ((?b\<lparr>lb_fileBytes := n\<rparr>, Inr ()), s1)" "bulky ?b s1" by blast
  have "roomy clean p (?b\<lparr>lb_fileBytes := n\<rparr>) s1"
    using 1(2) p m by (simp add: roomy_def bulky_def log_clean_def emptied_def)
  from log_session_bulky [OF law big this p(1) m(2,3), of 70000] obtain b2 s2
    where 2: "log_session J (replicate 70000 (OpAppend now ''x'')) (?b\<lparr>lb_fileBytes := n\<rparr>) s1 = Some (b2, s2)" "bulky b2 s2"
      "length (lb_entries b2) = 70000"
    by (auto simp: emptied_def NewLogBuffer_def)
  have len: "4270000 \<le> length (lf_data s2)" using 2(2,3) by (simp add: bulky_def)
  then obtain d where d: "lf_file s2 = Some d" by (cases "lf_file s2") (simp_all add: lf_data_def)
  have "reopen J p 0 s2 = Inl (ErrorString (''native container log is too large: '' @ FormatInt (int (length (lf_data s2))) @ '' bytes''))"
    using len p d by (simp add: reopen_def OpenLogBuffer_def load_def loadOpened_def exec_log lf_data_def)
  with 1 2 show ?thesis by (simp add: reset)
qed

text \<open>
  A write that was cut short leaves a torn line, \<open>AppendMessage\<close> returns the error, and the next
  message is appended to the torn line: the file is then refused although the second call succeeded.
\<close>

definition exfailed :: "(lreq \<times> lresp) list" where
  "exfailed = feed (log_perform exlogjson (OpAppend 0 ''hi'') exlog) [LDone, LDone, LDone, LShort 3 (Sentinel ''no space''), LDone, LDone]"

lemma exfailed_runs:
  "runs (log_perform exlogjson (OpAppend 0 ''hi'') exlog) exfailed (exlog'\<lparr>lb_fileBytes := 11\<rparr>, Inl (Sentinel ''no space''))"
  unfolding exfailed_def
  by (rule runs_feed) (simp add: AppendMessage_def Let_def bindE_def appendDiskLocked_def appendFile_def lCall_def exlog_simps exlogjson_def
      entryRecord_def appendLocked_def wrap64_def jsonTime_def second_def firstError_def inc64_def exlog'_def)

lemma exfailed_file: "lf_file (fold l_step exfailed exfile) = Some (lf_data exfile @ ''i,,'')"
  by (simp add: exfailed_def AppendMessage_def Let_def bindE_def appendDiskLocked_def appendFile_def lCall_def exlog_simps exlogjson_def
      entryRecord_def appendLocked_def wrap64_def jsonTime_def second_def written_def)

lemma append_after_torn_write:
  "log_session exlogjson [OpAppend 0 ''yo''] (exlog'\<lparr>lb_fileBytes := 11\<rparr>) (fold l_step exfailed exfile) = Some (b, s) \<Longrightarrow>
   reopen exlogjson ''log'' 100 s = Inl (WrapError ''decode native container log: '' (Sentinel ''syntax'') [])"
  using exfailed_file
  by (auto simp: AppendMessage_def appendDiskLocked_def appendFile_def exec_log exlog'_def exlog_simps exlogjson_def
      entryRecord_def appendLocked_def wrap64_def jsonTime_def second_def firstError_def inc64_def written_def reopen_def OpenLogBuffer_def load_def
      loadOpened_def readRecords_def replayLine_def replayRecord_def emptied_def numeral_2_eq_2)

end
