(* ===== verification/Kubelet_Server.thy ===== *)
theory Kubelet_Server
  imports Log_Buffer Go_URL
begin

section \<open>The kubelet bridge\<close>

text \<open>
  \<open>internal/native/kubeletbridge/server.go\<close>: the handlers behind the kubelet's port, and the
  log methods of the agent that feed them (\<open>internal/native/agent/devagent.go\<close>). A request is
  what a handler reads of it; a response is the list of what a handler does to its writer. The loop that
  follows a log runs beside the agent, so it is two atomic steps, a receive from its channel and a
  drain, that interleave with the methods of the buffer.
\<close>

subsection \<open>Types\<close>

record Target =
  tg_AssignmentUID :: string
  tg_Namespace :: string
  tg_PodName :: string
  tg_ContainerName :: string

record Certificate = \<comment> \<open>the subject of a verified client certificate\<close>
  ct_CommonName :: string
  ct_Organization :: "string list"

record hrequest =
  hr_Method :: string
  hr_Path :: string
  hr_Query :: "(string \<times> string list) list"
  hr_Peer :: "Certificate option" \<comment> \<open>\<open>None\<close> without TLS or without a certificate\<close>

datatype hout =
    HError int string \<comment> \<open>\<open>http.Error\<close>: the status and the text\<close>
  | HHeader string string
  | HWrite string
  | HFlush

record ServerConfig =
  sc_ListenAddress :: string
  sc_CertificateFile :: string
  sc_PrivateKeyFile :: string
  sc_ClientCA :: string
  sc_AllowedClientCommonNames :: "string list"
  sc_AllowedClientOrganizations :: "string list"
  sc_Logs :: bool \<comment> \<open>not nil\<close>
  sc_ResolveTarget :: bool

record logOptions =
  lo_follow :: bool
  lo_timestamps :: bool
  lo_tailLines :: int64
  lo_since :: Time

subsection \<open>Package functions\<close>

text \<open>\<open>time.RFC3339Nano\<close> of a time in UTC: the civil date of the days since 0001-01-01.\<close>

definition padded :: "nat \<Rightarrow> int \<Rightarrow> string" where
  "padded k n = (let t = FormatInt n in replicate (k - length t) (CHR ''0'') @ t)"

definition civil :: "int \<Rightarrow> int \<times> int \<times> int" where \<comment> \<open>year, month and day\<close>
  "civil days =
     (let z = days + 306; era = z div 146097; doe = z mod 146097;
          yoe = (doe - doe div 1460 + doe div 36524 - doe div 146096) div 365;
          doy = doe - (365 * yoe + yoe div 4 - yoe div 100);
          mp = (5 * doy + 2) div 153;
          d = doy - (153 * mp + 2) div 5 + 1;
          m = (if mp < 10 then mp + 3 else mp - 9);
          y = yoe + era * 400 + (if m \<le> 2 then 1 else 0)
      in (y, m, d))"

definition fraction :: "int \<Rightarrow> string" where
  "fraction ns = (if ns = 0 then [] else CHR ''.'' # rev (dropWhile (\<lambda>c. c = CHR ''0'') (rev (padded 9 ns))))"

definition RFC3339Nano :: "Time \<Rightarrow> string" where
  "RFC3339Nano t =
     (let seconds = t div second; (y, m, d) = civil (seconds div 86400); s = seconds mod 86400 in
      padded 4 y @ ''-'' @ padded 2 m @ ''-'' @ padded 2 d @ ''T'' @ padded 2 (s div 3600) @ '':''
      @ padded 2 (s div 60 mod 60) @ '':'' @ padded 2 (s mod 60) @ fraction (t mod second) @ ''Z'')"

definition ParseBool :: "string \<Rightarrow> bool option" where
  "ParseBool s =
     (if s \<in> {''1'', ''t'', ''T'', ''TRUE'', ''true'', ''True''} then Some True
      else if s \<in> {''0'', ''f'', ''F'', ''FALSE'', ''false'', ''False''} then Some False
      else None)"

definition values_Get :: "(string \<times> string list) list \<Rightarrow> string \<Rightarrow> string" where
  "values_Get values key = (case map_of values key of Some (v # _) \<Rightarrow> v | _ \<Rightarrow> [])"

definition PathUnescape :: "string \<Rightarrow> string option" where
  "PathUnescape = unescape (\<lambda>_. True) False"

subsection \<open>The server\<close>

definition NewServer :: "ServerConfig \<Rightarrow> ServerConfig res" where
  "NewServer c =
     (let c = (if sc_ListenAddress c = [] then c\<lparr>sc_ListenAddress := ''0.0.0.0:10250''\<rparr> else c) in
      if sc_CertificateFile c = [] \<or> sc_PrivateKeyFile c = [] \<or> sc_ClientCA c = [] \<or> \<not> sc_Logs c \<or> \<not> sc_ResolveTarget c
      then Inl (ErrorString ''kubelet bridge identity, client CA, log buffer, and target resolver are required'')
      else Inr (if sc_AllowedClientCommonNames c = [] \<and> sc_AllowedClientOrganizations c = []
                then c\<lparr>sc_AllowedClientCommonNames := [''kube-apiserver-kubelet-client''],
                       sc_AllowedClientOrganizations := [''system:masters'']\<rparr>
                else c))"

definition isKubeletClient :: "Certificate \<Rightarrow> string list \<Rightarrow> string list \<Rightarrow> bool" where
  "isKubeletClient certificate commonNames organizations =
     (let (commonNames, organizations) =
          (if commonNames = [] \<and> organizations = [] then ([''kube-apiserver-kubelet-client''], [''system:masters''])
           else (commonNames, organizations))
      in ct_CommonName certificate \<in> set commonNames \<or> (\<exists>organization\<in>set (ct_Organization certificate). organization \<in> set organizations))"

definition authorize :: "ServerConfig \<Rightarrow> (hrequest \<Rightarrow> hout list) \<Rightarrow> hrequest \<Rightarrow> hout list" where
  "authorize c next_handler request =
     (case hr_Peer request of
        None \<Rightarrow> [HError 403 ''forbidden'']
      | Some certificate \<Rightarrow>
          if \<not> isKubeletClient certificate (sc_AllowedClientCommonNames c) (sc_AllowedClientOrganizations c)
          then [HError 403 ''forbidden''] else next_handler request)"

definition handleUnsupportedStreaming :: "hrequest \<Rightarrow> hout list" where
  "handleUnsupportedStreaming request =
     (let operation =
        (if HasPrefix (hr_Path request) ''/exec/'' then ''kubectl exec''
         else if HasPrefix (hr_Path request) ''/attach/'' then ''kubectl attach''
         else if HasPrefix (hr_Path request) ''/portForward/'' then ''kubectl port-forward''
         else ''streaming operation'')
      in [HError 501 (operation @ '' is not supported by the Idleloom observability-only projection'')])"

definition handleHealth :: "hrequest \<Rightarrow> hout list" where
  "handleHealth request =
     (if hr_Method request \<noteq> ''GET'' then [HError 405 ''method not allowed'']
      else [HHeader ''Content-Type'' ''text/plain; charset=utf-8'', HWrite ''ok''])"

definition parseBool :: "string \<Rightarrow> bool res" where
  "parseBool v =
     (if v = [] then Inr False
      else case ParseBool v of None \<Rightarrow> Inl (ErrorString ''invalid boolean option'') | Some p \<Rightarrow> Inr p)"

definition parseLogOptions :: "(string \<times> string list) list \<Rightarrow> Time \<Rightarrow> logOptions res" where
  "parseLogOptions values now =
     bind_res (parseBool (values_Get values ''follow'')) (\<lambda>follow.
     bind_res (parseBool (values_Get values ''timestamps'')) (\<lambda>timestamps.
     bind_res
       (let v = values_Get values ''tailLines'' in
        if v = [] then Inr (-1)
        else case ParseInt v of
          None \<Rightarrow> Inl (ErrorString ''invalid tailLines'')
        | Some n \<Rightarrow> if n < 0 then Inl (ErrorString ''invalid tailLines'') else Inr n) (\<lambda>tailLines.
     bind_res
       (let v = values_Get values ''sinceSeconds'' in
        if v = [] then Inr 0
        else case ParseInt v of
          None \<Rightarrow> Inl (ErrorString ''invalid sinceSeconds'')
        | Some seconds \<Rightarrow>
            if seconds < 0 \<or> seconds > max_int64 div second then Inl (ErrorString ''invalid sinceSeconds'')
            else Inr (now + wrap64 (- seconds * second))) (\<lambda>since.
     Inr \<lparr>lo_follow = follow, lo_timestamps = timestamps, lo_tailLines = tailLines, lo_since = since\<rparr>))))"

definition pathPart :: "string \<Rightarrow> string option" where
  "pathPart part =
     (case PathUnescape part of
        None \<Rightarrow> None
      | Some v \<Rightarrow> if v = [] \<or> CHR ''/'' \<in> set v then None else Some v)"

definition parseContainerLogsPath :: "string \<Rightarrow> (string \<times> string \<times> string) option" where
  "parseContainerLogsPath path =
     (case splitOn (CHR ''/'') (TrimPrefix path ''/containerLogs/'') of
        [a, b, c] \<Rightarrow>
          (case (pathPart a, pathPart b, pathPart c) of
             (Some x, Some y, Some z) \<Rightarrow> Some (x, y, z)
           | _ \<Rightarrow> None)
      | _ \<Rightarrow> None)"

definition writeLogEntry :: "bool \<Rightarrow> LogEntry \<Rightarrow> hout" where
  "writeLogEntry timestamps entry =
     HWrite (if timestamps then RFC3339Nano (le_Time entry) @ '' '' @ le_Message entry @ [LF] else le_Message entry @ [LF])"

text \<open>
  \<open>handleLogs\<close> up to the point where it answers at once or starts to follow: what was written and,
  for a follower, the options, the target, the cursor and the channel. \<open>flusher\<close> says whether the
  writer is an \<open>http.Flusher\<close>; if it is not, the deferred \<open>unsubscribe\<close> runs.
\<close>

datatype logReply =
    Answered "hout list"
  | Following "hout list" logOptions Target uint64 nat

definition handleLogs :: "Target option \<Rightarrow> Time \<Rightarrow> bool \<Rightarrow> hrequest \<Rightarrow> LogBuffer \<Rightarrow> logReply \<times> LogBuffer" where
  "handleLogs resolved now flusher request b =
     (if hr_Method request \<noteq> ''GET'' then (Answered [HError 405 ''method not allowed''], b)
      else case resolved of
        None \<Rightarrow> (Answered [HError 404 ''no native assignment is running''], b)
      | Some target \<Rightarrow>
         if parseContainerLogsPath (hr_Path request) \<noteq> Some (tg_Namespace target, tg_PodName target, tg_ContainerName target)
         then (Answered [HError 404 ''projected container not found''], b)
         else case parseLogOptions (hr_Query request) now of
           Inl e \<Rightarrow> (Answered [HError 400 (case e of ErrorString t \<Rightarrow> t | _ \<Rightarrow> [])], b)
         | Inr options \<Rightarrow>
            let header = HHeader ''Content-Type'' ''text/plain; charset=utf-8'' in
            if \<not> lo_follow options
            then (Answered (header # map (writeLogEntry (lo_timestamps options))
                   (Snapshot b (tg_AssignmentUID target) (lo_since options) (lo_tailLines options))), b)
            else
              let ((initial, cursor, notifications), b) =
                    SnapshotAndSubscribe (tg_AssignmentUID target) (lo_since options) (lo_tailLines options) b;
                  out = header # map (writeLogEntry (lo_timestamps options)) initial
              in if \<not> flusher then (Answered (out @ [HError 500 ''streaming unsupported'']), unsubscribe notifications b)
                 else (Following (out @ [HFlush]) options target cursor notifications, b))"

text \<open>One turn of the loop of a follower, after its receive: the new cursor and what is written.\<close>

definition followDrain :: "bool \<Rightarrow> string \<Rightarrow> LogBuffer \<Rightarrow> uint64 \<Rightarrow> uint64 \<times> hout list" where
  "followDrain timestamps assignment b cursor =
     (let (entries, gap) = EntriesAfter b assignment cursor in
      (if entries = [] then cursor else le_Sequence (List.last entries),
       (if gap then [HWrite (''idleloom: log stream fell behind; older entries were evicted'' @ [LF])] else [])
       @ map (writeLogEntry timestamps) entries @ [HFlush]))"

subsection \<open>The writers in the agent\<close>

definition appendLogMessage :: "logjson \<Rightarrow> Time \<Rightarrow> string \<Rightarrow> LogBuffer \<Rightarrow> LogBuffer lprog" where \<comment> \<open>an error is logged only\<close>
  "appendLogMessage J now message b = bindP (AppendMessage J now message b) (\<lambda>(b, _). Ret b)"

definition resetLog :: "logjson \<Rightarrow> string \<Rightarrow> Time \<Rightarrow> string \<Rightarrow> LogBuffer \<Rightarrow> LogBuffer lprog" where
  "resetLog J assignment now message b = bindP (Reset J assignment now message b) (\<lambda>(b, _). Ret b)"

definition beginAssignmentLog :: "logjson \<Rightarrow> string \<Rightarrow> string \<Rightarrow> Time \<Rightarrow> LogBuffer \<Rightarrow> LogBuffer lprog" where
  "beginAssignmentLog J uid executionID now b =
     (if MatchesAssignment b uid then appendLogMessage J now (''assignment retry accepted: execution='' @ executionID) b
      else resetLog J uid now (''assignment accepted: execution='' @ executionID) b)"

end
