(* ===== verification/Log_Follow.thy ===== *)
theory Log_Follow
  imports Kubelet_Server "HOL-Library.Sublist"
begin

section \<open>A follower beside the agent\<close>

text \<open>
  A client of \<open>kubectl logs -f\<close> runs the loop of \<open>handleLogs\<close> while the agent writes. The
  state holds the buffer with its channels, the cursor of the follower, whether it has received a
  notification and not drained yet, whether it has returned, and what it has written since it started
  to follow. Three fields are only there to state the properties: the entries appended since then,
  whether a gap was announced, and whether the last append failed on disk, in which case
  \<open>AppendMessage\<close> returns before it notifies.

  Shown: a follower that was never told of a gap has written every entry up to its cursor once and in
  order; and unless an append failed on disk, whenever an entry is newer than the cursor the follower
  is awake or will be woken.
\<close>

record logsys =
  sy_buf :: LogBuffer
  sy_cursor :: uint64
  sy_woken :: bool
  sy_gone :: bool
  sy_out :: "hout list"
  sy_hist :: "LogEntry list"
  sy_gap :: bool
  sy_stalled :: bool

definition takeToken :: "nat \<Rightarrow> LogBuffer \<Rightarrow> LogBuffer" where \<comment> \<open>the effect of a receive\<close>
  "takeToken c b = b\<lparr>lb_channels := (lb_channels b)[c := (lb_channels b ! c)\<lparr>ch_token := False\<rparr>]\<rparr>"

abbreviation "chanOf c b \<equiv> lb_channels b ! c"

text \<open>
  The steps: the methods of the buffer, each whole because it holds the mutex, with any answer of the
  file system; and the steps of the follower with channel \<open>c\<close> and target \<open>a\<close>. The agent does
  not come back to an assignment whose log it has left.
\<close>

inductive follow_step :: "logjson \<Rightarrow> bool \<Rightarrow> string \<Rightarrow> nat \<Rightarrow> logsys \<Rightarrow> logsys \<Rightarrow> bool"
  for J :: logjson and ts :: bool and a :: string and c :: nat where
  wrote: "runs (AppendMessage J now m (sy_buf s)) t (b, x) \<Longrightarrow> lb_next (sy_buf s) + 1 < 2 ^ 64 \<Longrightarrow>
    follow_step J ts a c s (s\<lparr>sy_buf := b,
      sy_hist := sy_hist s @ (if lb_assignment (sy_buf s) = a then [nextEntry now m (sy_buf s)] else []),
      sy_stalled := (x \<noteq> Inr ())\<rparr>)"
| began: "runs (Reset J uid now m (sy_buf s)) t (b, x) \<Longrightarrow> uid \<noteq> a \<Longrightarrow> follow_step J ts a c s (s\<lparr>sy_buf := b\<rparr>)"
| subscribed: "SnapshotAndSubscribe uid since tail (sy_buf s) = (r, b) \<Longrightarrow> follow_step J ts a c s (s\<lparr>sy_buf := b\<rparr>)"
| unsubscribed: "d \<noteq> c \<Longrightarrow> follow_step J ts a c s (s\<lparr>sy_buf := unsubscribe d (sy_buf s)\<rparr>)"
| received: "\<not> sy_gone s \<Longrightarrow> \<not> sy_woken s \<Longrightarrow> ch_token (chanOf c (sy_buf s)) \<Longrightarrow>
    follow_step J ts a c s (s\<lparr>sy_woken := True, sy_buf := takeToken c (sy_buf s)\<rparr>)"
| drained: "\<not> sy_gone s \<Longrightarrow> sy_woken s \<Longrightarrow> followDrain ts a (sy_buf s) (sy_cursor s) = (cursor, out) \<Longrightarrow>
    follow_step J ts a c s (s\<lparr>sy_woken := False, sy_cursor := cursor, sy_out := sy_out s @ out,
      sy_gap := sy_gap s \<or> snd (EntriesAfter (sy_buf s) a (sy_cursor s))\<rparr>)"
| closed: "\<not> sy_gone s \<Longrightarrow> \<not> sy_woken s \<Longrightarrow> \<not> ch_token (chanOf c (sy_buf s)) \<Longrightarrow> \<not> ch_open (chanOf c (sy_buf s)) \<Longrightarrow>
    follow_step J ts a c s (s\<lparr>sy_gone := True, sy_buf := unsubscribe c (sy_buf s)\<rparr>)"
| cancelled: "\<not> sy_gone s \<Longrightarrow> \<not> sy_woken s \<Longrightarrow>
    follow_step J ts a c s (s\<lparr>sy_gone := True, sy_buf := unsubscribe c (sy_buf s)\<rparr>)"

inductive following :: "logjson \<Rightarrow> bool \<Rightarrow> string \<Rightarrow> nat \<Rightarrow> uint64 \<Rightarrow> logsys \<Rightarrow> bool"
  for J :: logjson and ts :: bool and a :: string and c :: nat and start :: uint64 where
  starts: "handleLogs (Some target) now True request b = (Following out options target start c, b') \<Longrightarrow>
    a = tg_AssignmentUID target \<Longrightarrow> ts = lo_timestamps options \<Longrightarrow> MatchesAssignment b a \<Longrightarrow> log_ok b \<Longrightarrow>
    \<forall>d\<in>set (lb_subscribers b). d < length (lb_channels b) \<Longrightarrow>
    following J ts a c start \<lparr>sy_buf = b', sy_cursor = start, sy_woken = False, sy_gone = False, sy_out = [], sy_hist = [],
      sy_gap = False, sy_stalled = False\<rparr>"
| goes_on: "following J ts a c start s \<Longrightarrow> follow_step J ts a c s s' \<Longrightarrow> following J ts a c start s'"

subsection \<open>What the methods do to the memory\<close>

definition refiled :: "LogBuffer \<Rightarrow> LogBuffer \<Rightarrow> bool" where
  "refiled b b' \<longleftrightarrow> (\<exists>n. b' = b\<lparr>lb_fileBytes := n\<rparr>)"

lemma refiled_simps [simp]: "refiled b b" "refiled b (b\<lparr>lb_fileBytes := n\<rparr>)"
  by (auto simp: refiled_def intro: exI [of _ "lb_fileBytes b"])

lemma rewriteLocked_safe: "safe (\<lambda>_ _. True) (\<lambda>_ (b', _). refiled b b') (rewriteLocked J b) h"
  by (auto simp: rewriteLocked_def safe_bindP intro!: safe_mono [OF safe_any] split: sum.split)

lemma appendDiskLocked_safe: "safe (\<lambda>_ _. True) (\<lambda>_ (b', _). refiled b b') (appendDiskLocked J e b) h"
  by (auto simp: appendDiskLocked_def Let_def safe_bindP rewriteLocked_safe intro!: safe_mono [OF safe_any] split: sum.split)

definition appendedTo :: "LogEntry \<Rightarrow> LogBuffer \<Rightarrow> LogBuffer \<Rightarrow> unit res \<Rightarrow> bool" where
  "appendedTo e b b' x \<longleftrightarrow>
     lb_entries b' = lb_entries (addEntry e b) \<and> lb_assignment b' = lb_assignment b \<and> lb_next b' = lb_next (addEntry e b)
   \<and> lb_subscribers b' = lb_subscribers b
   \<and> lb_channels b' = (if x = Inr () then fold notify (lb_subscribers b) (lb_channels b) else lb_channels b)"

lemma addEntry_frame [simp]: "lb_subscribers (addEntry e b) = lb_subscribers b" "lb_channels (addEntry e b) = lb_channels b"
  by (simp_all add: addEntry_def appendLocked_def split: prod.split)

lemma AppendMessage_memory:
  assumes "runs (AppendMessage J now m b) t (b', x)" and "lb_assignment b \<noteq> []"
  shows "appendedTo (nextEntry now m b) b b' x"
proof -
  let ?e = "nextEntry now m b"
  have run: "AppendMessage J now m b = bindP (appendDiskLocked J ?e (addEntry ?e b)) (\<lambda>(b, x). Ret (case x of
         Inl e \<Rightarrow> (b, Inl e)
       | Inr _ \<Rightarrow> (b\<lparr>lb_channels := fold notify (lb_subscribers b) (lb_channels b)\<rparr>, Inr ())))"
    using assms(2) by (simp add: AppendMessage_def addEntry_def nextEntry_def Let_def)
  have "safe (\<lambda>_ _. True) (\<lambda>_ (b', x). appendedTo ?e b b' x) (AppendMessage J now m b) []"
    unfolding run safe_bindP
    by (rule safe_mono [OF appendDiskLocked_safe])
      (auto simp: refiled_def appendedTo_def split: sum.split)
  from safe_runs [OF this assms(1)] show ?thesis by simp
qed

lemma AppendMessage_idle:
  assumes "runs (AppendMessage J now m b) t (b', x)" and "lb_assignment b = []"
  shows "b' = b"
  using assms by (simp add: AppendMessage_def)

lemma Reset_memory:
  assumes "runs (Reset J uid now m b) t (b', x)"
  shows "lb_assignment b' = uid" "lb_subscribers b' = []" "lb_channels b' = fold closeChan (lb_subscribers b) (lb_channels b)"
proof -
  have "safe (\<lambda>_ _. True) (\<lambda>_ (b', _). lb_assignment b' = uid \<and> lb_subscribers b' = []
      \<and> lb_channels b' = fold closeChan (lb_subscribers b) (lb_channels b)) (Reset J uid now m b) []"
    unfolding Reset_def Let_def
    by (rule safe_mono [OF rewriteLocked_safe])
      (auto simp: refiled_def appendLocked_def emptied_def split: prod.splits if_splits)
  from safe_runs [OF this assms] show "lb_assignment b' = uid" "lb_subscribers b' = []"
    "lb_channels b' = fold closeChan (lb_subscribers b) (lb_channels b)" by simp_all
qed

subsection \<open>Channels\<close>

lemma length_notify [simp]: "length (notify d chans) = length chans" "length (closeChan d chans) = length chans"
  by (simp_all add: notify_def closeChan_def)

lemma length_fold_chans [simp]: "length (fold notify ds chans) = length chans" "length (fold closeChan ds chans) = length chans"
  by (induction ds arbitrary: chans) simp_all

lemma fold_notify:
  "k < length chans \<Longrightarrow> fold notify ds chans ! k = (if k \<in> set ds then (chans ! k)\<lparr>ch_token := True\<rparr> else chans ! k)"
proof (induction ds arbitrary: chans)
  case (Cons d ds)
  then show ?case by (cases "d = k") (auto simp: notify_def)
qed simp

subsection \<open>Entries in a row\<close>

fun in_row :: "nat \<Rightarrow> LogEntry list \<Rightarrow> bool" where
  "in_row n [] \<longleftrightarrow> True"
| "in_row n (e # es) \<longleftrightarrow> le_Sequence e = Suc n \<and> in_row (Suc n) es"

lemma in_row_append: "in_row n (es @ es') \<longleftrightarrow> in_row n es \<and> in_row (n + length es) es'"
  by (induction es arbitrary: n) auto

lemma in_row_filter: "in_row n es \<Longrightarrow> filter (\<lambda>e. k < le_Sequence e) es = drop (k - n) es"
proof (induction es arbitrary: n)
  case (Cons e es)
  then have e: "le_Sequence e = Suc n" "filter (\<lambda>e. k < le_Sequence e) es = drop (k - Suc n) es" by simp_all
  show ?case
  proof (cases "k - n")
    case 0
    with e show ?thesis by simp
  next
    case (Suc i)
    then have "k - Suc n = i" "\<not> k < Suc n" by linarith+
    with e Suc show ?thesis by simp
  qed
qed simp

lemma in_row_drop: "in_row n es \<Longrightarrow> j \<le> length es \<Longrightarrow> in_row (n + j) (drop j es)"
  using in_row_append [of n "take j es" "drop j es"] by (simp add: min_absorb2)

lemma in_row_last: "in_row n es \<Longrightarrow> es \<noteq> [] \<Longrightarrow> le_Sequence (List.last es) = n + length es"
  by (cases es rule: rev_cases) (simp_all add: in_row_append)

text \<open>
  A buffer holds what is left of older entries and of those in a row; the ones above the cursor are an
  end of the row, and all of them if no gap is seen.
\<close>

definition holdsRow :: "nat \<Rightarrow> LogEntry list \<Rightarrow> LogEntry list \<Rightarrow> bool" where
  "holdsRow start h es \<longleftrightarrow> (\<exists>old i. es = drop i (old @ h) \<and> i \<le> length (old @ h) \<and> (\<forall>e\<in>set old. le_Sequence e \<le> start)) \<and> (h \<noteq> [] \<longrightarrow> es \<noteq> [])"

lemma newer_entries:
  assumes "in_row start h" "holdsRow start h es" "start \<le> k" "es \<noteq> []"
  shows "\<exists>j. filter (\<lambda>e. k < le_Sequence e) es = drop j h \<and> (h \<noteq> [] \<longrightarrow> j < length h \<or> j = k - start)
    \<and> (\<not> Suc k < le_Sequence (hd es) \<longrightarrow> j = k - start)"
proof -
  from assms(2) obtain old i where es: "es = drop i (old @ h)" "i \<le> length (old @ h)" "\<forall>e\<in>set old. le_Sequence e \<le> start"
    by (auto simp: holdsRow_def)
  let ?p = "i - length old"
  have p: "?p \<le> length h" using es(2) by simp
  have row: "in_row (start + ?p) (drop ?p h)" using in_row_drop [OF assms(1) p] .
  have "filter (\<lambda>e. k < le_Sequence e) (drop i old) = []"
    using es(3) assms(3) by (auto simp: filter_empty_conv dest!: in_set_dropD)
  then have f: "filter (\<lambda>e. k < le_Sequence e) es = drop (k - (start + ?p) + ?p) h"
    using in_row_filter [OF row, of k] by (simp add: es(1))
  have "?p < length h" if "h \<noteq> []"
    using that assms(4) es(1) p by (cases "?p = length h") (auto simp: less_le)
  moreover have "?p \<le> k - start" if "\<not> Suc k < le_Sequence (hd es)"
  proof (cases "?p = 0")
    case False
    then have "es = drop ?p h" using es(1) by simp
    with row have "in_row (start + ?p) es" by simp
    then have "le_Sequence (hd es) = Suc (start + ?p)" using assms(4) by (cases es) simp_all
    with that show ?thesis by simp
  qed simp
  ultimately show ?thesis
    using f assms(3) by (intro exI [of _ "k - (start + ?p) + ?p"]) auto
qed

lemma evict_drop: "evict m n xs = (n', es) \<Longrightarrow> xs \<noteq> [] \<Longrightarrow> \<exists>j<length xs. es = drop j xs"
proof (induction m n xs arbitrary: n' es rule: evict.induct)
  case (1 m n e e' xs)
  show ?case
  proof (cases "m < n")
    case True
    with 1 obtain j where "j < length (e' # xs)" "es = drop j (e' # xs)" by fastforce
    then show ?thesis by (intro exI [of _ "Suc j"]) simp
  next
    case False
    with 1 show ?thesis by (intro exI [of _ 0]) simp
  qed
qed auto

lemma addEntry_drop: "\<exists>j<length (lb_entries b @ [e]). lb_entries (addEntry e b) = drop j (lb_entries b @ [e])"
proof -
  obtain n es where ev: "evict (lb_maximum b) (lb_bytes b + (int (length (le_Message e)) + 1)) (lb_entries b @ [e]) = (n, es)"
    by (cases "evict (lb_maximum b) (lb_bytes b + (int (length (le_Message e)) + 1)) (lb_entries b @ [e])")
  then have "lb_entries (addEntry e b) = es" by (simp add: addEntry_def appendLocked_def)
  with evict_drop [OF ev] show ?thesis by simp
qed

lemma holds_append:
  assumes "holdsRow start h (lb_entries b)"
  shows "holdsRow start (h @ [e]) (lb_entries (addEntry e b))"
proof -
  from assms obtain old i where es: "lb_entries b = drop i (old @ h)" "i \<le> length (old @ h)" "\<forall>x\<in>set old. le_Sequence x \<le> start"
    by (auto simp: holdsRow_def)
  obtain j where j: "j < length (lb_entries b @ [e])" "lb_entries (addEntry e b) = drop j (lb_entries b @ [e])"
    using addEntry_drop by blast
  have "lb_entries b @ [e] = drop i (old @ h @ [e])" using es(2) by (simp add: es(1))
  then have d: "lb_entries (addEntry e b) = drop (j + i) (old @ h @ [e])" using j(2) by (simp only: drop_drop)
  moreover have "j + i < length (old @ h @ [e])" using j(1) es(2) by (simp add: es(1))
  ultimately show ?thesis
    unfolding holdsRow_def using es(3) by (intro conjI exI [of _ old] exI [of _ "j + i"]) auto
qed

subsection \<open>The invariant\<close>

definition written_lines :: "hout list \<Rightarrow> hout list" where
  "written_lines out = filter (\<lambda>x. case x of HWrite _ \<Rightarrow> True | _ \<Rightarrow> False) out"

lemma written_lines_simps [simp]: "written_lines (xs @ ys) = written_lines xs @ written_lines ys" "written_lines [HFlush] = []" "written_lines [] = []"
  by (simp_all add: written_lines_def)

definition follow_inv :: "bool \<Rightarrow> string \<Rightarrow> nat \<Rightarrow> uint64 \<Rightarrow> logsys \<Rightarrow> bool" where
  "follow_inv ts a c start s \<longleftrightarrow>
     a \<noteq> [] \<and> in_row start (sy_hist s) \<and> start \<le> sy_cursor s \<and> sy_cursor s \<le> start + length (sy_hist s)
   \<and> (\<not> sy_gap s \<longrightarrow> written_lines (sy_out s) = map (writeLogEntry ts) (take (sy_cursor s - start) (sy_hist s)))
   \<and> c < length (lb_channels (sy_buf s)) \<and> (\<forall>d\<in>set (lb_subscribers (sy_buf s)). d < length (lb_channels (sy_buf s)))
   \<and> (lb_assignment (sy_buf s) = a \<longrightarrow>
        lb_next (sy_buf s) = start + 1 + length (sy_hist s) \<and> lb_next (sy_buf s) < 2 ^ 64 \<and> holdsRow start (sy_hist s) (lb_entries (sy_buf s)))
   \<and> (if c \<in> set (lb_subscribers (sy_buf s))
      then lb_assignment (sy_buf s) = a \<and> ch_open (chanOf c (sy_buf s))
         \<and> (\<not> sy_woken s \<and> \<not> ch_token (chanOf c (sy_buf s)) \<and> \<not> sy_stalled s \<longrightarrow> sy_cursor s = start + length (sy_hist s))
      else sy_gone s \<or> lb_assignment (sy_buf s) \<noteq> a)"

lemma drain_other: "lb_assignment b \<noteq> a \<Longrightarrow> followDrain ts a b k = (k, [HFlush])" "lb_assignment b \<noteq> a \<Longrightarrow> \<not> snd (EntriesAfter b a k)"
  by (simp_all add: followDrain_def EntriesAfter_def)

lemma drain_row:
  assumes "a \<noteq> []" "lb_assignment b = a" "in_row start h" "holdsRow start h (lb_entries b)" "start \<le> k" "k \<le> start + length h"
    and "start + length h + 1 < 2 ^ 64" "followDrain ts a b k = (k', out)"
  shows "k' = start + length h \<and> (\<not> snd (EntriesAfter b a k) \<longrightarrow> written_lines out = map (writeLogEntry ts) (drop (k - start) h))"
proof (cases "lb_entries b")
  case Nil
  then have "h = []" using assms(4) by (simp add: holdsRow_def)
  with Nil assms show ?thesis by (auto simp: followDrain_def EntriesAfter_def written_lines_def)
next
  case (Cons e es)
  have "inc64 k = Suc k" using assms(6,7) by (simp add: inc64_def)
  then have after: "EntriesAfter b a k = (filter (\<lambda>e. k < le_Sequence e) (lb_entries b), Suc k < le_Sequence (hd (lb_entries b)))"
    using assms(1,2) Cons by (simp add: EntriesAfter_def)
  obtain j where j: "filter (\<lambda>e. k < le_Sequence e) (lb_entries b) = drop j h" "h \<noteq> [] \<longrightarrow> j < length h \<or> j = k - start"
    "\<not> Suc k < le_Sequence (hd (lb_entries b)) \<longrightarrow> j = k - start"
    using newer_entries [OF assms(3,4,5)] Cons by auto
  have k': "k' = (if drop j h = [] then k else le_Sequence (List.last (drop j h)))"
    and out: "written_lines out = (if Suc k < le_Sequence (hd (lb_entries b)) then [HWrite (''idleloom: log stream fell behind; older entries were evicted'' @ [LF])] else [])
      @ map (writeLogEntry ts) (drop j h)"
    using assms(8) by (auto simp: followDrain_def after j(1) Let_def written_lines_def writeLogEntry_def filter_map o_def)
  have "k' = start + length h"
  proof (cases "drop j h = []")
    case True
    with j(2) assms(5,6) show ?thesis by (cases "h = []") (auto simp: k')
  next
    case False
    then show ?thesis using in_row_last [OF assms(3)] by (cases "h = []") (auto simp: k' last_drop)
  qed
  with out j(3) show ?thesis by (simp add: after)
qed

lemma inv_wrote:
  assumes inv: "follow_inv ts a c start s" and run: "runs (AppendMessage J now m (sy_buf s)) t (b, x)"
    and room: "lb_next (sy_buf s) + 1 < 2 ^ 64"
  shows "follow_inv ts a c start (s\<lparr>sy_buf := b,
      sy_hist := sy_hist s @ (if lb_assignment (sy_buf s) = a then [nextEntry now m (sy_buf s)] else []), sy_stalled := (x \<noteq> Inr ())\<rparr>)"
proof (cases "lb_assignment (sy_buf s) = []")
  case True
  with AppendMessage_idle [OF run True] inv show ?thesis by (auto simp: follow_inv_def)
next
  case False
  let ?e = "nextEntry now m (sy_buf s)"
  have b: "appendedTo ?e (sy_buf s) b x" using AppendMessage_memory [OF run False] .
  show ?thesis
  proof (cases "lb_assignment (sy_buf s) = a")
    case same: True
    from inv same have h: "holdsRow start (sy_hist s) (lb_entries (sy_buf s))" by (simp add: follow_inv_def)
    have "lb_next b = inc64 (lb_next (sy_buf s))" using b by (simp add: appendedTo_def nextEntry_def)
    with inv same room have n: "lb_next b = start + 1 + length (sy_hist s @ [?e])" "lb_next b < 2 ^ 64"
      by (simp_all add: follow_inv_def inc64_def)
    have row: "in_row start (sy_hist s @ [?e])" using inv same by (simp add: follow_inv_def in_row_append nextEntry_def)
    have "take (sy_cursor s - start) (sy_hist s @ [?e]) = take (sy_cursor s - start) (sy_hist s)"
      using inv by (simp add: follow_inv_def)
    with inv same b n row holds_append [OF h, of ?e] show ?thesis
      by (auto simp: follow_inv_def appendedTo_def fold_notify)
  next
    case False
    with inv b show ?thesis by (auto simp: follow_inv_def appendedTo_def)
  qed
qed

lemma SnapshotAndSubscribe_memory:
  assumes "SnapshotAndSubscribe uid since tail b = (r, b')"
  obtains x ss where "b' = b\<lparr>lb_channels := lb_channels b @ [x], lb_subscribers := ss\<rparr>"
    "set ss \<subseteq> insert (length (lb_channels b)) (set (lb_subscribers b))" "set (lb_subscribers b) \<subseteq> set ss"
proof (cases "uid = [] \<or> uid \<noteq> lb_assignment b")
  case True
  with assms show ?thesis
    by (intro that [of "lb_subscribers b" "\<lparr>ch_open = False, ch_token = False\<rparr>"]) (auto simp: SnapshotAndSubscribe_def Let_def)
next
  case False
  with assms show ?thesis
    by (intro that [of "length (lb_channels b) # lb_subscribers b" "\<lparr>ch_open = True, ch_token = False\<rparr>"])
      (auto simp: SnapshotAndSubscribe_def Let_def)
qed

lemma inv_subscribed:
  assumes inv: "follow_inv ts a c start s" and sub: "SnapshotAndSubscribe uid since tail (sy_buf s) = (r, b)"
  shows "follow_inv ts a c start (s\<lparr>sy_buf := b\<rparr>)"
proof -
  obtain x ss where b: "b = (sy_buf s)\<lparr>lb_channels := lb_channels (sy_buf s) @ [x], lb_subscribers := ss\<rparr>"
    and ss: "set ss \<subseteq> insert (length (lb_channels (sy_buf s))) (set (lb_subscribers (sy_buf s)))" "set (lb_subscribers (sy_buf s)) \<subseteq> set ss"
    by (rule SnapshotAndSubscribe_memory [OF sub])
  have c: "c < length (lb_channels (sy_buf s))" "\<forall>d\<in>set (lb_subscribers (sy_buf s)). d < length (lb_channels (sy_buf s))"
    using inv by (simp_all add: follow_inv_def)
  then have "c \<in> set ss \<longleftrightarrow> c \<in> set (lb_subscribers (sy_buf s))" "\<forall>d\<in>set ss. d < Suc (length (lb_channels (sy_buf s)))"
    using ss by (auto intro: less_SucI)
  with inv c show ?thesis by (auto simp: follow_inv_def b nth_append split: if_splits)
qed

lemma chan_closeChan: "d \<noteq> c \<Longrightarrow> closeChan d chans ! c = chans ! c"
  by (simp add: closeChan_def)

lemma inv_unsubscribed:
  assumes "follow_inv ts a c start s" "d \<noteq> c"
  shows "follow_inv ts a c start (s\<lparr>sy_buf := unsubscribe d (sy_buf s)\<rparr>)"
  using assms by (auto simp: follow_inv_def unsubscribe_def chan_closeChan)

lemma inv_gone:
  assumes "follow_inv ts a c start s"
  shows "follow_inv ts a c start (s\<lparr>sy_gone := True, sy_buf := unsubscribe c (sy_buf s)\<rparr>)"
  using assms by (auto simp: follow_inv_def unsubscribe_def)

lemma inv_drained:
  assumes inv: "follow_inv ts a c start s" and "\<not> sy_gone s" and d: "followDrain ts a (sy_buf s) (sy_cursor s) = (k, out)"
  shows "follow_inv ts a c start (s\<lparr>sy_woken := False, sy_cursor := k, sy_out := sy_out s @ out,
      sy_gap := sy_gap s \<or> snd (EntriesAfter (sy_buf s) a (sy_cursor s))\<rparr>)"
proof (cases "lb_assignment (sy_buf s) = a")
  case True
  let ?h = "sy_hist s" and ?k = "sy_cursor s"
  have k: "start \<le> ?k" "?k \<le> start + length ?h" using inv by (simp_all add: follow_inv_def)
  have r: "k = start + length ?h \<and> (\<not> snd (EntriesAfter (sy_buf s) a ?k) \<longrightarrow> written_lines out = map (writeLogEntry ts) (drop (?k - start) ?h))"
    by (rule drain_row [OF _ True _ _ _ _ _ d]) (use inv True in \<open>simp_all add: follow_inv_def\<close>)
  have all: "map (writeLogEntry ts) (take (?k - start) ?h) @ map (writeLogEntry ts) (drop (?k - start) ?h) = map (writeLogEntry ts) ?h"
    by (simp flip: map_append)
  show ?thesis
    using inv r k True assms(2) all by (auto simp: follow_inv_def split: if_splits)
next
  case False
  with drain_other [OF False] inv d show ?thesis by (auto simp: follow_inv_def split: if_splits)
qed

lemma inv_step: "follow_step J ts a c s s' \<Longrightarrow> follow_inv ts a c start s \<Longrightarrow> follow_inv ts a c start s'"
proof (induction rule: follow_step.induct)
  case (wrote now m s t b x)
  then show ?case by (intro inv_wrote)
next
  case (began uid now m s t b x)
  from Reset_memory [OF began(1)] began show ?case by (auto simp: follow_inv_def)
next
  case (received s)
  then show ?case by (auto simp: follow_inv_def takeToken_def)
qed (blast intro: inv_subscribed inv_unsubscribed inv_drained inv_gone)+

lemma handleLogs_follows:
  assumes "handleLogs (Some target) now True request b = (Following out options target start c, b')"
  shows "\<exists>es. SnapshotAndSubscribe (tg_AssignmentUID target) (lo_since options) (lo_tailLines options) b = ((es, start, c), b')"
  using assms by (auto simp: handleLogs_def Let_def split: if_splits sum.splits prod.splits)

lemma inv_start:
  assumes "handleLogs (Some target) now True request b = (Following out options target start c, b')"
    and "a = tg_AssignmentUID target" "MatchesAssignment b a" "log_ok b" "\<forall>d\<in>set (lb_subscribers b). d < length (lb_channels b)"
  shows "follow_inv ts a c start \<lparr>sy_buf = b', sy_cursor = start, sy_woken = False, sy_gone = False, sy_out = [], sy_hist = [],
      sy_gap = False, sy_stalled = False\<rparr>"
proof -
  from handleLogs_follows [OF assms(1)] assms(2,3)
  have b': "b' = b\<lparr>lb_channels := lb_channels b @ [\<lparr>ch_open = True, ch_token = False\<rparr>], lb_subscribers := length (lb_channels b) # lb_subscribers b\<rparr>"
    and c: "c = length (lb_channels b)" and start: "start = (if lb_next b > 0 then lb_next b - 1 else 0)"
    by (auto simp: SnapshotAndSubscribe_def MatchesAssignment_def Let_def)
  have n: "lb_next b = start + 1" "lb_next b < 2 ^ 64" using assms(4) by (auto simp: start log_ok_def split: if_splits)
  have "le_Sequence e \<le> start" if "e \<in> set (lb_entries b)" for e
    using that assms(4) n sequence_le_last [of "lb_entries b" e] by (auto simp: log_ok_def split: if_splits)
  then have "holdsRow start [] (lb_entries b)"
    unfolding holdsRow_def by (intro conjI exI [of _ "lb_entries b"] exI [of _ 0]) auto
  with n assms(3,5) c show ?thesis by (auto simp: follow_inv_def b' MatchesAssignment_def nth_append intro: less_SucI)
qed

lemma following_inv: "following J ts a c start s \<Longrightarrow> follow_inv ts a c start s"
  by (induction rule: following.induct) (auto intro: inv_start inv_step)

lemma drained_all:
  assumes "follow_inv ts a c start s" "c \<in> set (lb_subscribers (sy_buf s))" "followDrain ts a (sy_buf s) (sy_cursor s) = (k, out)"
  shows "k = start + length (sy_hist s)"
  using drain_row [of a "sy_buf s" start "sy_hist s" "sy_cursor s" ts k out] assms by (auto simp: follow_inv_def split: if_splits)

lemma woken_catches_up:
  assumes "follow_inv ts a c start s" "c \<in> set (lb_subscribers (sy_buf s))" "\<not> sy_gone s" "sy_woken s"
  shows "\<exists>s'. follow_step J ts a c s s' \<and> sy_hist s' = sy_hist s \<and> sy_cursor s' + 1 = lb_next (sy_buf s')"
proof -
  obtain k out where d: "followDrain ts a (sy_buf s) (sy_cursor s) = (k, out)" by fastforce
  have "lb_next (sy_buf s) = start + 1 + length (sy_hist s)" using assms(1,2) by (simp add: follow_inv_def)
  with drained_all [OF assms(1,2) d] follow_step.drained [OF assms(3,4) d, of J c] show ?thesis by fastforce
qed

subsection \<open>Guarantees\<close>

text \<open>
  C32. A follower loses and repeats nothing: however its steps interleave with the writers, other
  followers and a reset, a follower that was not told of a gap has written exactly the entries
  appended since it subscribed up to its cursor, each once, in the order and with the numbers they
  were appended with.
\<close>

theorem follower_faithful:
  assumes "following J ts a c start s" and "\<not> sy_gap s"
  shows "in_row start (sy_hist s) \<and> written_lines (sy_out s) = map (writeLogEntry ts) (take (sy_cursor s - start) (sy_hist s))"
  using following_inv [OF assms(1)] assms(2) by (simp add: follow_inv_def)

text \<open>
  C33. No wake-up is lost: from every reachable state in which a follower is subscribed and the last
  append did not fail on disk, at most two of its own steps, a receive and a drain, bring it to the
  newest entry.
\<close>

theorem follower_catches_up:
  assumes "following J ts a c start s" and "c \<in> set (lb_subscribers (sy_buf s))" and "\<not> sy_gone s" and "\<not> sy_stalled s"
  shows "\<exists>s'. (s' = s \<or> follow_step J ts a c s s' \<or> (\<exists>m. follow_step J ts a c s m \<and> follow_step J ts a c m s'))
    \<and> sy_hist s' = sy_hist s \<and> sy_cursor s' + 1 = lb_next (sy_buf s')"
proof -
  note inv = following_inv [OF assms(1)]
  have n: "lb_next (sy_buf s) = start + 1 + length (sy_hist s)" using inv assms(2) by (simp add: follow_inv_def)
  consider (idle) "\<not> sy_woken s" "\<not> ch_token (chanOf c (sy_buf s))" | (woken) "sy_woken s" | (pending) "\<not> sy_woken s" "ch_token (chanOf c (sy_buf s))"
    by blast
  then show ?thesis
  proof cases
    case idle
    with inv assms n have "sy_cursor s + 1 = lb_next (sy_buf s)" by (simp add: follow_inv_def)
    then show ?thesis by blast
  next
    case woken
    with woken_catches_up [OF inv assms(2,3)] show ?thesis by blast
  next
    case pending
    let ?m = "s\<lparr>sy_woken := True, sy_buf := takeToken c (sy_buf s)\<rparr>"
    have m: "follow_step J ts a c s ?m" using assms(3) pending by (rule follow_step.received)
    have "\<exists>s'. follow_step J ts a c ?m s' \<and> sy_hist s' = sy_hist ?m \<and> sy_cursor s' + 1 = lb_next (sy_buf s')"
      by (rule woken_catches_up [OF inv_step [OF m inv]]) (use assms(2,3) in \<open>simp_all add: takeToken_def\<close>)
    with m show ?thesis by auto
  qed
qed

subsection \<open>An example\<close>

definition extarget :: Target where
  "extarget = \<lparr>tg_AssignmentUID = ''a'', tg_Namespace = ''ns'', tg_PodName = ''pod'', tg_ContainerName = ''main''\<rparr>"

definition exrequest :: hrequest where
  "exrequest = \<lparr>hr_Method = ''GET'', hr_Path = ''/containerLogs/ns/pod/main'', hr_Query = [(''follow'', [''true''])], hr_Peer = None\<rparr>"

definition exoptions :: logOptions where
  "exoptions = \<lparr>lo_follow = True, lo_timestamps = False, lo_tailLines = -1, lo_since = 0\<rparr>"

definition exlistening :: LogBuffer where
  "exlistening = exlog\<lparr>lb_channels := [\<lparr>ch_open = True, ch_token = False\<rparr>], lb_subscribers := [0]\<rparr>"

lemma exrequest_follows:
  "handleLogs (Some extarget) 0 True exrequest exlog =
     (Following [HHeader ''Content-Type'' ''text/plain; charset=utf-8'', HFlush] exoptions extarget 0 0, exlistening)"
  by (simp add: handleLogs_def exrequest_def extarget_def parseContainerLogsPath_def TrimPrefix_def HasPrefix_def pathPart_def PathUnescape_def
      parseLogOptions_def values_Get_def parseBool_def ParseBool_def SnapshotAndSubscribe_def snapshotLocked_def exlistening_def exlog_def
      NewLogBuffer_def exoptions_def)

definition exstate :: "nat \<Rightarrow> logsys" where
  "exstate i = (let e = \<lparr>le_Sequence = 1, le_Time = 0, le_Message = ''hi''\<rparr>;
       after = exlistening\<lparr>lb_entries := [e], lb_bytes := 3, lb_next := 2, lb_fileBytes := 25\<rparr> in
     if i = 0 then \<lparr>sy_buf = exlistening, sy_cursor = 0, sy_woken = False, sy_gone = False, sy_out = [], sy_hist = [], sy_gap = False, sy_stalled = False\<rparr>
     else if i = 1 then \<lparr>sy_buf = after\<lparr>lb_channels := [\<lparr>ch_open = True, ch_token = True\<rparr>]\<rparr>, sy_cursor = 0, sy_woken = False, sy_gone = False,
       sy_out = [], sy_hist = [e], sy_gap = False, sy_stalled = False\<rparr>
     else if i = 2 then \<lparr>sy_buf = after, sy_cursor = 0, sy_woken = True, sy_gone = False, sy_out = [], sy_hist = [e], sy_gap = False, sy_stalled = False\<rparr>
     else \<lparr>sy_buf = after, sy_cursor = 1, sy_woken = False, sy_gone = False, sy_out = [HWrite (''hi'' @ [LF]), HFlush], sy_hist = [e], sy_gap = False,
       sy_stalled = False\<rparr>)"

lemma exstate_0: "following exlogjson False ''a'' 0 0 (exstate 0)"
  using following.starts [OF exrequest_follows, of "''a''" False exlogjson] exlog_synced
  by (simp add: exstate_def extarget_def exoptions_def MatchesAssignment_def synced_def exlog_def NewLogBuffer_def)

lemma exstate_1_runs:
  "runs (AppendMessage exlogjson 0 ''hi'' (sy_buf (exstate 0)))
     (feed (AppendMessage exlogjson 0 ''hi'' (sy_buf (exstate 0))) [LDone, LDone, LDone, LDone, LDone, LDone]) (sy_buf (exstate 1), Inr ())"
  by (rule runs_feed) (simp add: AppendMessage_def Let_def bindE_def appendDiskLocked_def appendFile_def lCall_def exlistening_def exlog_simps exlogjson_def
      entryRecord_def appendLocked_def wrap64_def jsonTime_def second_def firstError_def inc64_def exstate_def notify_def)

lemma exstate_1: "following exlogjson False ''a'' 0 0 (exstate 1)"
proof -
  have "lb_next (sy_buf (exstate 0)) + 1 < 2 ^ 64" by (simp add: exstate_def exlistening_def exlog_def NewLogBuffer_def Let_def)
  from follow_step.wrote [OF exstate_1_runs this, of False "''a''" 0]
  have "follow_step exlogjson False ''a'' 0 (exstate 0) (exstate 1)"
    by (simp add: exstate_def Let_def nextEntry_def exlistening_def exlog_def NewLogBuffer_def)
  with exstate_0 show ?thesis by (rule following.goes_on)
qed

lemma exstate_3: "following exlogjson False ''a'' 0 0 (exstate 3)"
proof -
  have 2: "follow_step exlogjson False ''a'' 0 (exstate 1) (exstate 2)"
    using follow_step.received [of "exstate 1" 0 exlogjson False "''a''"]
    by (simp add: exstate_def Let_def takeToken_def exlistening_def exlog_def NewLogBuffer_def)
  have 3: "follow_step exlogjson False ''a'' 0 (exstate 2) (exstate 3)"
    using follow_step.drained [of "exstate 2" False "''a''" 1 "[HWrite (''hi'' @ [LF]), HFlush]" exlogjson 0]
    by (simp add: exstate_def Let_def followDrain_def EntriesAfter_def exlistening_def exlog_def NewLogBuffer_def writeLogEntry_def inc64_def)
  from exstate_1 2 3 show ?thesis by (blast intro: following.goes_on)
qed

theorem follower_faithful_witness:
  "written_lines (sy_out (exstate 3)) = [HWrite (''hi'' @ [LF])]"
  using follower_faithful [OF exstate_3] by (simp add: exstate_def Let_def writeLogEntry_def)

theorem follower_catches_up_witness:
  "\<exists>s'. (s' = exstate 1 \<or> follow_step exlogjson False ''a'' 0 (exstate 1) s'
      \<or> (\<exists>m. follow_step exlogjson False ''a'' 0 (exstate 1) m \<and> follow_step exlogjson False ''a'' 0 m s'))
    \<and> sy_hist s' = sy_hist (exstate 1) \<and> sy_cursor s' + 1 = lb_next (sy_buf s')"
  by (rule follower_catches_up [OF exstate_1]) (simp_all add: exstate_def Let_def exlistening_def)

end
