(* ===== verification/Projection.thy ===== *)
theory Projection
  imports Serving Fencing Go_URL
begin

section \<open>The projection of assignments as Pods and Nodes\<close>

text \<open>
  \<open>internal/native/projection/controller.go\<close>: for every assignment the controller keeps a Pod,
  bound in advance to a Node of its own, so that \<open>kubectl\<close> shows the native execution; both are
  deleted when the stop is acknowledged or the assignment is gone. Every handler is a program over
  API requests with unconstrained answers. Third-party functions are fields of the controller: the
  defaults that \<open>kubescheme\<close> sets, the semantic equality of two pod specs, whether a status can be
  encoded. The fields of a Pod and of a container that the code never names are one opaque field.
\<close>

subsection \<open>Pods and Nodes\<close>

abbreviation "LabelProjection \<equiv> ''native.idleloom.io/projection''"
abbreviation "LabelAssignmentUID \<equiv> ''native.idleloom.io/assignment-uid''"
abbreviation "LabelWorkloadUID \<equiv> ''native.idleloom.io/workload-uid''"
abbreviation "LabelExecutionID \<equiv> ''native.idleloom.io/execution-id''"
abbreviation "AnnotationContract \<equiv> ''native.idleloom.io/contract''"
abbreviation "AnnotationKubeletAPI \<equiv> ''native.idleloom.io/kubelet-api''"
abbreviation "AnnotationLogs \<equiv> ''native.idleloom.io/logs''"
abbreviation "AnnotationExec \<equiv> ''native.idleloom.io/exec''"
abbreviation "AnnotationPortForward \<equiv> ''native.idleloom.io/port-forward''"
abbreviation "AnnotationConnectivity \<equiv> ''native.idleloom.io/connectivity''"
abbreviation "AnnotationModelArtifact \<equiv> ''native.idleloom.io/model-artifact''"
abbreviation "ProjectionValue \<equiv> ''true''"
abbreviation "ContractValue \<equiv> ''observability-only-alpha''"
abbreviation "containerName \<equiv> ''native-metal''"
abbreviation "executionSlot \<equiv> ''native.idleloom.io/execution-slot''"
abbreviation "reservedTaint \<equiv> ''native.idleloom.io/reserved''"
abbreviation "TaintNodeNotReady \<equiv> ''node.kubernetes.io/not-ready''"
abbreviation "TaintNodeUnreachable \<equiv> ''node.kubernetes.io/unreachable''"
abbreviation "PodPending \<equiv> ''Pending''"
abbreviation "PodRunning \<equiv> ''Running''"
abbreviation "PodSucceeded \<equiv> ''Succeeded''"
abbreviation "PodFailed \<equiv> ''Failed''"
abbreviation "ConditionUnknown \<equiv> ''Unknown''"

record Taint =
  tn_Key :: string
  tn_Value :: string
  tn_Effect :: string

record Toleration =
  tol_Key :: string
  tol_Operator :: string
  tol_Value :: string
  tol_Effect :: string
  tol_Seconds :: "int64 option"

record Container =
  cn_Name :: string
  cn_Image :: string
  cn_ImagePullPolicy :: string
  cn_TerminationMessagePath :: string
  cn_TerminationMessagePolicy :: string
  cn_Requests :: "string gomap"
  cn_Limits :: "string gomap"
  cn_Other :: string

record PodSpec =
  ps_NodeName :: string
  ps_RestartPolicy :: string
  ps_DNSPolicy :: string
  ps_ServiceAccountName :: string
  ps_DeprecatedServiceAccount :: string
  ps_SchedulerName :: string
  ps_Priority :: "int32 option"
  ps_PreemptionPolicy :: "string option"
  ps_AutomountServiceAccountToken :: "bool option"
  ps_EnableServiceLinks :: "bool option"
  ps_TerminationGracePeriodSeconds :: "int64 option"
  ps_Tolerations :: "Toleration list"
  ps_InitContainers :: "Container list"
  ps_Containers :: "Container list"
  ps_ImagePullSecrets :: "string list"
  ps_SecurityContext :: "string option" \<comment> \<open>the empty text is the empty struct\<close>
  ps_Other :: string

record PodCondition =
  pcn_Type :: string
  pcn_Status :: string
  pcn_LastTransitionTime :: Time
  pcn_Reason :: string
  pcn_Message :: string

record ContainerStateTerminated =
  cst_ExitCode :: int32
  cst_Reason :: string
  cst_Message :: string
  cst_StartedAt :: Time
  cst_FinishedAt :: Time

record ContainerStatus =
  cs_Name :: string
  cs_Image :: string
  cs_ImageID :: string
  cs_ContainerID :: string
  cs_Ready :: bool
  cs_Started :: "bool option"
  cs_RestartCount :: int32
  cs_Running :: "Time option"
  cs_Waiting :: "(string \<times> string) option"
  cs_Terminated :: "ContainerStateTerminated option"

record PodStatus =
  pst_Phase :: string
  pst_Reason :: string
  pst_Message :: string
  pst_Conditions :: "PodCondition list"
  pst_StartTime :: "Time option"
  pst_ContainerStatuses :: "ContainerStatus list"

record Pod =
  pod_Meta :: ObjectMeta
  pod_OwnerReferences :: "OwnerReference list"
  pod_Spec :: PodSpec
  pod_Status :: PodStatus

record NodeCondition =
  ncn_Type :: string
  ncn_Status :: string
  ncn_Reason :: string
  ncn_Message :: string
  ncn_LastHeartbeatTime :: Time
  ncn_LastTransitionTime :: Time

record NodeSystemInfo =
  nsi_MachineID :: string
  nsi_SystemUUID :: string
  nsi_KubeletVersion :: string
  nsi_ContainerRuntimeVersion :: string
  nsi_OSImage :: string
  nsi_OperatingSystem :: string
  nsi_Architecture :: string

record NodeStatus =
  nst_Capacity :: "string gomap"
  nst_Allocatable :: "string gomap"
  nst_Addresses :: "(string \<times> string) list"
  nst_KubeletPort :: int32
  nst_NodeInfo :: NodeSystemInfo
  nst_Conditions :: "NodeCondition list"

record Node =
  nd_Meta :: ObjectMeta
  nd_Unschedulable :: bool
  nd_Taints :: "Taint list"
  nd_Status :: NodeStatus

abbreviation "pod_Name p \<equiv> om_Name (pod_Meta p)"
abbreviation "pod_Namespace p \<equiv> om_Namespace (pod_Meta p)"
abbreviation "pod_UID p \<equiv> om_UID (pod_Meta p)"
abbreviation "nd_Name n \<equiv> om_Name (nd_Meta n)"
abbreviation "nd_UID n \<equiv> om_UID (nd_Meta n)"
abbreviation "podLabel p k \<equiv> gomap_get (om_Labels (pod_Meta p)) k"
abbreviation "podAnnotation p k \<equiv> gomap_get (om_Annotations (pod_Meta p)) k"
abbreviation "nodeLabel n k \<equiv> gomap_get (om_Labels (nd_Meta n)) k"
abbreviation "nodeAnnotation n k \<equiv> gomap_get (om_Annotations (nd_Meta n)) k"

subsection \<open>Requests\<close>

datatype preq =
    PListAssignments
  | PGetWorkload string string
  | PGetHost string string
  | PGetPod string string
  | PListPods string
  | PCreatePod Pod
  | PUpdatePod Pod
  | PPatchPodStatus string string PodStatus
  | PDeletePod string string UID
  | PGetNode string
  | PListNodes string
  | PCreateNode Node
  | PUpdateNode Node
  | PUpdateNodeStatus Node
  | PDeleteNode string UID
  | PProbeLogs string string
  | PNow

datatype 'u presp =
    PListR "'u list res"
  | PObjectR "'u res"
  | PPodR "Pod res"
  | PPodsR "Pod list res"
  | PNodeR "Node res"
  | PNodesR "Node list res"
  | PDoneR "unit res"
  | PTimeR Time

type_synonym ('u, 'a) pprog = "(preq, 'u presp, 'a) prog"

definition askList :: "preq \<Rightarrow> ('u, 'u list res) pprog" where
  "askList q = Req q (\<lambda>r. Ret (case r of PListR x \<Rightarrow> x | _ \<Rightarrow> unexpected))"
definition askObject :: "preq \<Rightarrow> ('u, 'u res) pprog" where
  "askObject q = Req q (\<lambda>r. Ret (case r of PObjectR x \<Rightarrow> x | _ \<Rightarrow> unexpected))"
definition askPod :: "preq \<Rightarrow> ('u, Pod res) pprog" where
  "askPod q = Req q (\<lambda>r. Ret (case r of PPodR x \<Rightarrow> x | _ \<Rightarrow> unexpected))"
definition askPods :: "preq \<Rightarrow> ('u, Pod list res) pprog" where
  "askPods q = Req q (\<lambda>r. Ret (case r of PPodsR x \<Rightarrow> x | _ \<Rightarrow> unexpected))"
definition askNode :: "preq \<Rightarrow> ('u, Node res) pprog" where
  "askNode q = Req q (\<lambda>r. Ret (case r of PNodeR x \<Rightarrow> x | _ \<Rightarrow> unexpected))"
definition askNodes :: "preq \<Rightarrow> ('u, Node list res) pprog" where
  "askNodes q = Req q (\<lambda>r. Ret (case r of PNodesR x \<Rightarrow> x | _ \<Rightarrow> unexpected))"
definition askDone :: "preq \<Rightarrow> ('u, unit res) pprog" where
  "askDone q = Req q (\<lambda>r. Ret (case r of PDoneR x \<Rightarrow> x | _ \<Rightarrow> unexpected))"
definition askTime :: "('u, Time) pprog" where
  "askTime = Req PNow (\<lambda>r. Ret (case r of PTimeR t \<Rightarrow> t | _ \<Rightarrow> 0))"

lemmas ask_defs = askList_def askObject_def askPod_def askPods_def askNode_def askNodes_def askDone_def askTime_def

subsection \<open>The controller\<close>

record 'u ProjectionController =
  pc_lib :: k8slib
  pc_conv :: "'u converter"
  pc_clients :: bool
  pc_retries :: nat \<comment> \<open>of \<open>retry.DefaultRetry\<close>\<close>
  pc_Default :: "Pod \<Rightarrow> Pod" \<comment> \<open>\<open>kubescheme.Scheme.Default\<close>\<close>
  pc_equalSpec :: "PodSpec \<Rightarrow> PodSpec \<Rightarrow> bool" \<comment> \<open>\<open>apiequality.Semantic.DeepEqual\<close>\<close>
  pc_unmarshalable :: "PodStatus \<Rightarrow> go_error option" \<comment> \<open>the error of \<open>json.Marshal\<close>\<close>

record projectionRef =
  pr_NodeName :: string
  pr_PodNamespace :: string
  pr_PodName :: string

record projectionState =
  pj_podPhase :: string
  pj_nodeStatus :: string
  pj_ready :: bool
  pj_reason :: string
  pj_message :: string
  pj_exitCode :: int32

subsection \<open>Names\<close>

text \<open>UIDs are ASCII, for which \<open>strings.ToLower\<close> maps the letters A to Z.\<close>

definition compactUID :: "UID \<Rightarrow> string" where
  "compactUID uid =
     (let v = filter (\<lambda>c. c \<noteq> CHR ''-'') (map lower_char uid) in
      if length v > 20 then take 20 v else v)"

definition refForUID :: "string \<Rightarrow> projectionRef" where
  "refForUID uid = \<lparr>pr_NodeName = ''idleloom-'' @ compactUID uid, pr_PodNamespace = [], pr_PodName = ''idleloom-'' @ compactUID uid\<rparr>"

definition refFor :: "IdleloomWorkloadAssignment \<Rightarrow> projectionRef" where
  "refFor a = (refForUID (wa_UID a))\<lparr>pr_PodNamespace := wor_Namespace (as_WorkloadRef (wa_Spec a))\<rparr>"

subsection \<open>States\<close>

definition projectionComplete :: "IdleloomWorkloadAssignment \<Rightarrow> bool" where
  "projectionComplete a \<longleftrightarrow> as_DesiredState (wa_Spec a) = AssignmentDesiredStopped \<and> ValidateStopAcknowledgement a = Inr ()"

definition heartbeatStale :: "IdleloomWorkloadAssignment \<Rightarrow> Time \<Rightarrow> bool" where
  "heartbeatStale a now =
     (let last = (case ast_LastHeartbeatTime (wa_Status a) of Some t \<Rightarrow> t | None \<Rightarrow> om_CreationTimestamp (wa_Meta a)) in
      if last = 0 then False
      else
        let lease = wrap64 (as_LeaseDurationSeconds (wa_Spec a) * second) in
        now + HeartbeatClockSkewAllowance < last \<or> wrap64 (lease + HeartbeatClockSkewAllowance) < time_Sub now last)"

definition pstate :: "string \<Rightarrow> string \<Rightarrow> bool \<Rightarrow> string \<Rightarrow> string \<Rightarrow> int32 \<Rightarrow> projectionState" where
  "pstate phase node ready reason message code = \<lparr>pj_podPhase = phase, pj_nodeStatus = node, pj_ready = ready, pj_reason = reason,
     pj_message = message, pj_exitCode = code\<rparr>"

definition servesModel :: "IdleloomWorkloadAssignment \<Rightarrow> bool" where \<comment> \<open>\<open>Spec.Model != nil && Spec.Model.Server != nil\<close>\<close>
  "servesModel a = (case as_Model (wa_Spec a) of None \<Rightarrow> False | Some m \<Rightarrow> rm_Server m \<noteq> None)"

definition stateFor :: "IdleloomWorkloadAssignment \<Rightarrow> Time \<Rightarrow> projectionState" where
  "stateFor a now =
     (let phase = ast_Phase (wa_Status a) in
      if as_DesiredState (wa_Spec a) = AssignmentDesiredStopped
      then pstate PodPending ConditionFalse False ''IdleloomStopping'' ''the native execution is stopping'' 0
      else if phase = PhaseSucceeded
      then pstate PodSucceeded ConditionFalse False ''IdleloomExecutionSucceeded'' ''the native execution completed successfully'' 0
      else if phase = PhaseFailed
      then if servesModel a
           then pstate PodPending ConditionFalse False ''IdleloomServerRestarting'' ''the native serving process failed and is waiting for an agent restart'' 0
           else pstate PodFailed ConditionFalse False ''IdleloomExecutionFailed'' ''the native execution failed'' 1
      else if heartbeatStale a now
      then pstate PodPending ConditionUnknown False ''IdleloomLeaseExpired'' ''the native execution heartbeat expired'' 0
      else if phase = PhaseRunning
      then pstate PodRunning ConditionTrue True ''IdleloomAssignmentRunning'' ''the sandboxed native Metal execution is running'' 0
      else if phase = PhaseFenced
      then pstate PodPending ConditionUnknown False ''IdleloomExecutionFenced'' ''the native execution was fenced'' 0
      else if phase = PhaseBlocked
      then pstate PodPending ConditionFalse False ''IdleloomExecutionBlocked'' ''the native execution is blocked by host resource ownership'' 0
      else pstate PodPending ConditionFalse False ''IdleloomPreparing'' ''the native execution is preparing'' 0)"

definition terminalPodPhase :: "string \<Rightarrow> bool" where
  "terminalPodPhase phase \<longleftrightarrow> phase = PodSucceeded \<or> phase = PodFailed"

definition projFreshHostHeartbeat :: "Time option \<Rightarrow> Time \<Rightarrow> bool" where
  "projFreshHostHeartbeat heartbeat now =
     (case heartbeat of
        None \<Rightarrow> False
      | Some hb \<Rightarrow>
         if now + HeartbeatClockSkewAllowance < hb then False
         else time_Sub now hb \<le> wrap64 (DefaultAgentHeartbeatTimeout + HeartbeatClockSkewAllowance))"

definition connectedKubeletAddress :: "'u ProjectionController \<Rightarrow> IdleloomHost \<Rightarrow> Time \<Rightarrow> string \<times> bool" where
  "connectedKubeletAddress C host now =
     (case hst_Connectivity (ho_Status host) of
        None \<Rightarrow> ([], False)
      | Some connectivity \<Rightarrow>
         if hc_Mode connectivity \<noteq> ConnectivityModeWireKubeLeaf then ([], False)
         else case FindStatusCondition (pc_lib C) (hst_Conditions (ho_Status host)) HostConditionConnected of
           None \<Rightarrow> ([], False)
         | Some condition \<Rightarrow>
             if cond_Status condition \<noteq> ConditionTrue \<or> cond_ObservedGeneration condition \<noteq> ho_Generation host
                \<or> hst_ObservedGeneration (ho_Status host) \<noteq> ho_Generation host
                \<or> \<not> projFreshHostHeartbeat (hst_LastHeartbeatTime (ho_Status host)) now
             then ([], False)
             else case ParseCIDR (hc_Address connectivity) of
               None \<Rightarrow> ([], False)
             | Some (ip, ones) \<Rightarrow>
                 (case (ip, To4 ip) of
                    (IPv4 _, Some os) \<Rightarrow> if ones \<noteq> 32 then ([], False) else (dotted os, True)
                  | _ \<Rightarrow> ([], False)))"

subsection \<open>Desired objects\<close>

definition modelArtifactIdentity :: "ModelArtifact \<Rightarrow> string" where
  "modelArtifactIdentity artifact =
     (if ma_OCIReference artifact \<noteq> [] then ma_OCIReference artifact
      else if ma_OllamaModel artifact \<noteq> [] \<and> ma_ManifestDigest artifact \<noteq> []
      then ''ollama://local/'' @ ma_OllamaModel artifact @ ''@'' @ ma_ManifestDigest artifact
      else if ma_GGUFFile artifact \<noteq> [] \<and> ma_ManifestDigest artifact \<noteq> []
      then ''gguf://managed/'' @ ma_GGUFFile artifact @ ''@'' @ ma_ManifestDigest artifact
      else case ma_HuggingFace artifact of
        Some hf \<Rightarrow> if ma_ManifestDigest artifact \<noteq> []
                   then ''hf://'' @ hf_Repository hf @ ''@'' @ hf_Revision hf @ ''#'' @ ma_ManifestDigest artifact else []
      | None \<Rightarrow> [])"

definition projectionLabels :: "IdleloomWorkloadAssignment \<Rightarrow> string gomap" where
  "projectionLabels a = [(LabelProjection, ProjectionValue), (LabelAssignmentUID, wa_UID a),
     (LabelWorkloadUID, wor_UID (as_WorkloadRef (wa_Spec a))), (LabelExecutionID, as_ExecutionID (wa_Spec a))]"

definition projectionAnnotations :: "IdleloomWorkloadAssignment \<Rightarrow> bool \<Rightarrow> string gomap" where
  "projectionAnnotations a logsReady =
     (let m = [(AnnotationContract, ContractValue), (AnnotationKubeletAPI, ''none''), (AnnotationLogs, ''unsupported''),
               (AnnotationExec, ''unsupported''), (AnnotationPortForward, ''unsupported''), (AnnotationConnectivity, ''outbound-only'')];
          m = (case as_Run (wa_Spec a) of
                 None \<Rightarrow> m
               | Some run \<Rightarrow> gomap_set (gomap_set m ''native.idleloom.io/run-task'' (wrs_Task run)) ''native.idleloom.io/experiment'' (wrs_Experiment run));
          m = (case as_Model (wa_Spec a) of
                 Some model \<Rightarrow> gomap_set m AnnotationModelArtifact (modelArtifactIdentity (rm_Artifact model))
               | None \<Rightarrow>
                   (case as_Training (wa_Spec a) of
                      Some training \<Rightarrow> gomap_set m ''native.idleloom.io/source-digest'' (rt_SourceDigest training)
                    | None \<Rightarrow> m))
      in if logsReady
         then gomap_set (gomap_set (gomap_set m AnnotationKubeletAPI ''logs-only'') AnnotationLogs ''supported'')
                AnnotationConnectivity ''wirekube-relay''
         else m)"

definition zero_PodStatus :: PodStatus where
  "zero_PodStatus = \<lparr>pst_Phase = [], pst_Reason = [], pst_Message = [], pst_Conditions = [], pst_StartTime = None, pst_ContainerStatuses = []\<rparr>"

definition projectionImage :: "IdleloomWorkloadAssignment \<Rightarrow> string" where
  "projectionImage a =
     (if as_Shell (wa_Spec a) \<noteq> None then ''native.idleloom.invalid/shell-projection:alpha''
      else if as_Training (wa_Spec a) \<noteq> None then ''native.idleloom.invalid/training-projection:alpha''
      else ''native.idleloom.invalid/metal-projection:alpha'')"

definition managedPodSpec :: "string \<Rightarrow> string \<Rightarrow> PodSpec" where
  "managedPodSpec node img =
     \<lparr>ps_NodeName = node, ps_RestartPolicy = ''Never'', ps_DNSPolicy = ''ClusterFirst'', ps_ServiceAccountName = ''default'',
      ps_DeprecatedServiceAccount = ''default'', ps_SchedulerName = ''default-scheduler'', ps_Priority = Some 0,
      ps_PreemptionPolicy = Some ''PreemptLowerPriority'', ps_AutomountServiceAccountToken = Some False,
      ps_EnableServiceLinks = Some False, ps_TerminationGracePeriodSeconds = Some 0,
      ps_Tolerations =
        [\<lparr>tol_Key = reservedTaint, tol_Operator = ''Equal'', tol_Value = ''true'', tol_Effect = ''NoSchedule'', tol_Seconds = None\<rparr>,
         \<lparr>tol_Key = reservedTaint, tol_Operator = ''Equal'', tol_Value = ''true'', tol_Effect = ''NoExecute'', tol_Seconds = None\<rparr>],
      ps_InitContainers = [],
      ps_Containers =
        [\<lparr>cn_Name = containerName, cn_Image = img, cn_ImagePullPolicy = ''IfNotPresent'', cn_TerminationMessagePath = ''/dev/termination-log'',
          cn_TerminationMessagePolicy = ''File'', cn_Requests = [(executionSlot, ''1'')], cn_Limits = [(executionSlot, ''1'')], cn_Other = []\<rparr>],
      ps_ImagePullSecrets = [], ps_SecurityContext = None, ps_Other = []\<rparr>"

definition managedPod :: "'u ProjectionController \<Rightarrow> IdleloomWorkload \<Rightarrow> IdleloomWorkloadAssignment \<Rightarrow> projectionRef \<Rightarrow> bool \<Rightarrow> Pod" where
  "managedPod C workload a ref logsReady =
     pc_Default C \<lparr>pod_Meta = zero_ObjectMeta\<lparr>om_Name := pr_PodName ref, om_Namespace := pr_PodNamespace ref,
         om_Labels := projectionLabels a, om_Annotations := projectionAnnotations a logsReady\<rparr>,
       pod_OwnerReferences = [\<lparr>own_APIVersion = APIVersionNative, own_Kind = ''IdleloomWorkload'', own_Name = wl_Name workload,
         own_UID = wl_UID workload, own_Controller = Some True\<rparr>],
       pod_Spec = managedPodSpec (pr_NodeName ref) (projectionImage a),
       pod_Status = zero_PodStatus\<rparr>"

definition zero_NodeStatus :: NodeStatus where
  "zero_NodeStatus = \<lparr>nst_Capacity = [], nst_Allocatable = [], nst_Addresses = [], nst_KubeletPort = 0,
     nst_NodeInfo = \<lparr>nsi_MachineID = [], nsi_SystemUUID = [], nsi_KubeletVersion = [], nsi_ContainerRuntimeVersion = [], nsi_OSImage = [],
       nsi_OperatingSystem = [], nsi_Architecture = []\<rparr>,
     nst_Conditions = []\<rparr>"

definition managedNode :: "IdleloomWorkloadAssignment \<Rightarrow> string \<Rightarrow> bool \<Rightarrow> Node" where
  "managedNode a name logsReady =
     \<lparr>nd_Meta = zero_ObjectMeta\<lparr>om_Name := name,
         om_Labels := projectionLabels a @ [(''kubernetes.io/os'', ''darwin''), (''kubernetes.io/arch'', ''arm64'')],
         om_Annotations := projectionAnnotations a logsReady\<rparr>,
      nd_Unschedulable = True,
      nd_Taints = [\<lparr>tn_Key = reservedTaint, tn_Value = ''true'', tn_Effect = ''NoSchedule''\<rparr>,
                   \<lparr>tn_Key = reservedTaint, tn_Value = ''true'', tn_Effect = ''NoExecute''\<rparr>],
      nd_Status = zero_NodeStatus\<rparr>"

subsection \<open>Validation of existing objects\<close>

definition isNodeLifecycleTaint :: "Taint \<Rightarrow> bool" where
  "isNodeLifecycleTaint t \<longleftrightarrow>
     tn_Value t = [] \<and> (tn_Effect t = ''NoSchedule'' \<or> tn_Effect t = ''NoExecute'')
   \<and> (tn_Key t = TaintNodeNotReady \<or> tn_Key t = TaintNodeUnreachable)"

definition normalizedProjectionNodeTaints :: "Taint list \<Rightarrow> Taint list" where
  "normalizedProjectionNodeTaints taints = filter (\<lambda>t. \<not> isNodeLifecycleTaint t) taints"

definition validateManagedNode :: "Node \<Rightarrow> Node \<Rightarrow> IdleloomWorkloadAssignment \<Rightarrow> bool \<Rightarrow> unit res" where
  "validateManagedNode node desired a logsReady =
     (if nd_Name node \<noteq> nd_Name desired \<or> nodeLabel node LabelProjection \<noteq> ProjectionValue
         \<or> nodeLabel node LabelAssignmentUID \<noteq> wa_UID a
         \<or> \<not> gomap_eq (om_Labels (nd_Meta node)) (om_Labels (nd_Meta desired))
         \<or> \<not> nd_Unschedulable node \<or> normalizedProjectionNodeTaints (nd_Taints node) \<noteq> nd_Taints desired
      then Inl (ErrorString (''node '' @ nd_Name node @ '' exists and is not the expected projection''))
      else if \<not> gomap_eq (om_Annotations (nd_Meta node)) (om_Annotations (nd_Meta desired))
         \<and> \<not> gomap_eq (om_Annotations (nd_Meta node)) (projectionAnnotations a (\<not> logsReady))
      then Inl (ErrorString (''node '' @ nd_Name node @ '' was mutated outside the projection contract''))
      else Inr ())"

definition isDefaultNodeToleration :: "Toleration \<Rightarrow> bool" where
  "isDefaultNodeToleration t \<longleftrightarrow>
     tol_Operator t = ''Exists'' \<and> tol_Effect t = ''NoExecute'' \<and> tol_Seconds t = Some 300
   \<and> (tol_Key t = TaintNodeNotReady \<or> tol_Key t = TaintNodeUnreachable)"

definition isDefaultExtendedResourceToleration :: "Toleration \<Rightarrow> PodSpec \<Rightarrow> bool" where
  "isDefaultExtendedResourceToleration t spec \<longleftrightarrow>
     tol_Operator t = ''Exists'' \<and> tol_Effect t = ''NoSchedule'' \<and> tol_Value t = [] \<and> tol_Seconds t = None
   \<and> list_ex (\<lambda>c. map_of (cn_Requests c) (tol_Key t) \<noteq> None \<or> map_of (cn_Limits c) (tol_Key t) \<noteq> None)
       (ps_InitContainers spec @ ps_Containers spec)"

definition normalizedProjectionSpec :: "PodSpec \<Rightarrow> PodSpec" where
  "normalizedProjectionSpec spec =
     (let copy = spec\<lparr>ps_ImagePullSecrets := [],
            ps_SecurityContext := (if ps_SecurityContext spec = Some [] then None else ps_SecurityContext spec)\<rparr>
      in copy\<lparr>ps_Tolerations := filter (\<lambda>t. \<not> (isDefaultNodeToleration t \<or> isDefaultExtendedResourceToleration t copy)) (ps_Tolerations copy)\<rparr>)"

definition validateManagedPod :: "'u ProjectionController \<Rightarrow> Pod \<Rightarrow> Pod \<Rightarrow> IdleloomWorkloadAssignment \<Rightarrow> unit res" where
  "validateManagedPod C pod desired a =
     (if pod_Name pod \<noteq> pod_Name desired \<or> pod_Namespace pod \<noteq> pod_Namespace desired
         \<or> podLabel pod LabelProjection \<noteq> ProjectionValue \<or> podLabel pod LabelAssignmentUID \<noteq> wa_UID a
      then Inl (ErrorString (''pod '' @ pod_Namespace pod @ ''/'' @ pod_Name pod @ '' exists and is not the expected projection''))
      else if podAnnotation pod AnnotationContract \<noteq> ContractValue \<or> pod_OwnerReferences pod \<noteq> pod_OwnerReferences desired
         \<or> \<not> pc_equalSpec C (normalizedProjectionSpec (pod_Spec pod)) (normalizedProjectionSpec (pod_Spec desired))
      then Inl (ErrorString (''pod '' @ pod_Namespace pod @ ''/'' @ pod_Name pod @ '' was mutated outside the projection contract''))
      else Inr ())"

subsection \<open>Ensuring the objects\<close>

definition setAnnotations :: "string gomap \<Rightarrow> ObjectMeta \<Rightarrow> ObjectMeta" where
  "setAnnotations m meta = meta\<lparr>om_Annotations := m\<rparr>"

definition createPod :: "'u ProjectionController \<Rightarrow> Pod \<Rightarrow> IdleloomWorkloadAssignment \<Rightarrow> projectionRef \<Rightarrow> ('u, Pod res) pprog" where
  "createPod C desired a ref =
     bindP (askPod (PCreatePod desired)) (\<lambda>created.
     bindE (wrapE ''create managed projection Pod: ''
              (case created of
                 Inl e \<Rightarrow> if IsAlreadyExists e then askPod (PGetPod (pr_PodNamespace ref) (pr_PodName ref)) else Ret (Inl e)
               | Inr pod \<Rightarrow> Ret (Inr pod))) (\<lambda>pod.
     Ret (bind_res (validateManagedPod C pod desired a) (\<lambda>_. Inr pod))))"

definition ensurePod :: "'u ProjectionController \<Rightarrow> IdleloomWorkload \<Rightarrow> IdleloomWorkloadAssignment \<Rightarrow> projectionRef \<Rightarrow> bool \<Rightarrow> ('u, Pod res) pprog" where
  "ensurePod C workload a ref logsReady =
     (let desired = managedPod C workload a ref logsReady in
      bindP (askPod (PGetPod (pr_PodNamespace ref) (pr_PodName ref))) (\<lambda>got. case got of
        Inr existing \<Rightarrow>
          bindE (liftE (validateManagedPod C existing desired a)) (\<lambda>_.
          if \<not> gomap_eq (om_Annotations (pod_Meta existing)) (om_Annotations (pod_Meta desired))
          then askPod (PUpdatePod (existing\<lparr>pod_Meta := setAnnotations (om_Annotations (pod_Meta desired)) (pod_Meta existing)\<rparr>))
          else Ret (Inr existing))
      | Inl e \<Rightarrow> if \<not> IsNotFound e then Ret (Inl e) else createPod C desired a ref))"

definition createNode :: "Node \<Rightarrow> IdleloomWorkloadAssignment \<Rightarrow> string \<Rightarrow> bool \<Rightarrow> ('u, Node res) pprog" where
  "createNode desired a name logsReady =
     bindP (askNode (PCreateNode desired)) (\<lambda>created.
     bindE (wrapE ''create ephemeral projection Node: ''
              (case created of
                 Inl e \<Rightarrow> if IsAlreadyExists e then askNode (PGetNode name) else Ret (Inl e)
               | Inr node \<Rightarrow> Ret (Inr node))) (\<lambda>node.
     Ret (bind_res (validateManagedNode node desired a logsReady) (\<lambda>_. Inr node))))"

definition ensureNode :: "IdleloomWorkloadAssignment \<Rightarrow> string \<Rightarrow> bool \<Rightarrow> ('u, Node res) pprog" where
  "ensureNode a name logsReady =
     (let desired = managedNode a name logsReady in
      bindP (askNode (PGetNode name)) (\<lambda>got. case got of
        Inr existing \<Rightarrow>
          bindE (liftE (validateManagedNode existing desired a logsReady)) (\<lambda>_.
          if \<not> gomap_eq (om_Annotations (nd_Meta existing)) (om_Annotations (nd_Meta desired))
          then askNode (PUpdateNode (existing\<lparr>nd_Meta := setAnnotations (om_Annotations (nd_Meta desired)) (nd_Meta existing)\<rparr>))
          else Ret (Inr existing))
      | Inl e \<Rightarrow> if \<not> IsNotFound e then Ret (Inl e) else createNode desired a name logsReady))"

subsection \<open>Status\<close>

definition nodeCondition :: "projectionState \<Rightarrow> Time \<Rightarrow> Time \<Rightarrow> NodeCondition list \<Rightarrow> NodeCondition" where
  "nodeCondition state heartbeat now existing =
     fold (\<lambda>e c. if ncn_Type e = ''Ready'' \<and> ncn_Status e = ncn_Status c \<and> ncn_Reason e = ncn_Reason c
                 then c\<lparr>ncn_LastTransitionTime := ncn_LastTransitionTime e\<rparr> else c) existing
       \<lparr>ncn_Type = ''Ready'', ncn_Status = pj_nodeStatus state, ncn_Reason = pj_reason state, ncn_Message = pj_message state,
        ncn_LastHeartbeatTime = heartbeat, ncn_LastTransitionTime = now\<rparr>"

definition projectedNodeStatus :: "IdleloomWorkloadAssignment \<Rightarrow> projectionState \<Rightarrow> string \<Rightarrow> bool \<Rightarrow> Time \<Rightarrow> NodeStatus \<Rightarrow> NodeStatus" where
  "projectedNodeStatus a state address logsReady now current =
     \<lparr>nst_Capacity = [(''pods'', ''1''), (executionSlot, ''1'')], nst_Allocatable = [(''pods'', ''1''), (executionSlot, ''1'')],
      nst_Addresses = (if logsReady then [(''InternalIP'', address)] else []),
      nst_KubeletPort = (if logsReady then 10250 else 0),
      nst_NodeInfo = \<lparr>nsi_MachineID = wa_UID a, nsi_SystemUUID = as_ExecutionID (wa_Spec a), nsi_KubeletVersion = ''idleloom-projection-alpha'',
        nsi_ContainerRuntimeVersion = ''idleloom://native-metal'', nsi_OSImage = ''Idleloom Native Metal Projection'',
        nsi_OperatingSystem = ''darwin'', nsi_Architecture = ''arm64''\<rparr>,
      nst_Conditions = [nodeCondition state (case ast_LastHeartbeatTime (wa_Status a) of Some t \<Rightarrow> t | None \<Rightarrow> now) now (nst_Conditions current)]\<rparr>"

definition updateNodeStatus :: "'u ProjectionController \<Rightarrow> Node \<Rightarrow> IdleloomWorkloadAssignment \<Rightarrow> projectionState \<Rightarrow> string \<Rightarrow> bool \<Rightarrow> ('u, unit res) pprog" where
  "updateNodeStatus C node a state address logsReady =
     retryOnConflict (pc_retries C)
       (bindE (askNode (PGetNode (nd_Name node))) (\<lambda>current.
        bindP askTime (\<lambda>now.
        bindE (askNode (PUpdateNodeStatus (current\<lparr>nd_Status := projectedNodeStatus a state address logsReady now (nd_Status current)\<rparr>)))
          (\<lambda>_. Ret (Inr ())))))"

definition podConditions :: "projectionState \<Rightarrow> Time \<Rightarrow> PodCondition list \<Rightarrow> PodCondition list" where
  "podConditions state now existing =
     (let ready = (if pj_ready state then ConditionTrue else ConditionFalse);
          cond = (\<lambda>t status reason message. \<lparr>pcn_Type = t, pcn_Status = status, pcn_LastTransitionTime = now, pcn_Reason = reason, pcn_Message = message\<rparr>);
          conditions =
            [cond ''PodScheduled'' ConditionTrue ''IdleloomPrebound'' ''the projection controller assigned the managed Pod'',
             cond ''Initialized'' ConditionTrue ''IdleloomManagedProjection'' [],
             cond ''ContainersReady'' ready (pj_reason state) (pj_message state),
             cond ''Ready'' ready (pj_reason state) (pj_message state)]
      in map (\<lambda>c. case find (\<lambda>p. pcn_Type p = pcn_Type c \<and> pcn_Status p = pcn_Status c \<and> pcn_Reason p = pcn_Reason c) existing of
            None \<Rightarrow> c
          | Some p \<Rightarrow> c\<lparr>pcn_LastTransitionTime := pcn_LastTransitionTime p\<rparr>) conditions)"

definition projectedImageID :: "IdleloomWorkloadAssignment \<Rightarrow> string" where
  "projectedImageID a =
     (case as_Model (wa_Spec a) of
        Some model \<Rightarrow> modelArtifactIdentity (rm_Artifact model)
      | None \<Rightarrow>
         (case as_Training (wa_Spec a) of
            Some training \<Rightarrow> ''idleloom://training/'' @ rt_SourceDigest training
          | None \<Rightarrow> ''idleloom://shell/'' @ as_ExecutionID (wa_Spec a)))"

definition projectedPhase :: "projectionState \<Rightarrow> PodStatus \<Rightarrow> string" where
  "projectedPhase state current =
     (if pst_Phase current = PodRunning \<and> pj_podPhase state = PodPending then PodRunning else pj_podPhase state)"

definition containerStatus :: "IdleloomWorkloadAssignment \<Rightarrow> projectionState \<Rightarrow> string \<Rightarrow> string \<Rightarrow> Time \<Rightarrow> PodStatus \<Rightarrow> ContainerStatus" where
  "containerStatus a state phase img now current =
     (let base = \<lparr>cs_Name = containerName, cs_Image = img, cs_ImageID = projectedImageID a,
            cs_ContainerID = ''idleloom://'' @ as_ExecutionID (wa_Spec a), cs_Ready = pj_ready state,
            cs_Started = Some (phase \<noteq> PodPending), cs_RestartCount = 0, cs_Running = None, cs_Waiting = None, cs_Terminated = None\<rparr>
      in if phase = PodRunning
         then base\<lparr>cs_Running := Some (case pst_ContainerStatuses current of [c] \<Rightarrow> (case cs_Running c of Some t \<Rightarrow> t | None \<Rightarrow> now) | _ \<Rightarrow> now)\<rparr>
         else if phase = PodSucceeded \<or> phase = PodFailed
         then base\<lparr>cs_Terminated := Some \<lparr>cst_ExitCode = pj_exitCode state, cst_Reason = pj_reason state, cst_Message = pj_message state,
                cst_StartedAt = (case pst_StartTime current of Some t \<Rightarrow> t | None \<Rightarrow> now), cst_FinishedAt = now\<rparr>\<rparr>
         else base\<lparr>cs_Waiting := Some (pj_reason state, pj_message state)\<rparr>)"

definition projectedPodStatus :: "IdleloomWorkloadAssignment \<Rightarrow> projectionState \<Rightarrow> string \<Rightarrow> Time \<Rightarrow> PodStatus \<Rightarrow> PodStatus" where
  "projectedPodStatus a state img now current =
     (let phase = projectedPhase state current in
      \<lparr>pst_Phase = phase, pst_Reason = pj_reason state, pst_Message = pj_message state,
       pst_Conditions = podConditions state now (pst_Conditions current),
       pst_StartTime = (if pst_StartTime current = None \<and> phase \<noteq> PodPending then Some now else pst_StartTime current),
       pst_ContainerStatuses = [containerStatus a state phase img now current]\<rparr>)"

text \<open>
  \<open>copy.Spec.Containers[0]\<close> panics on a Pod without containers. The model returns an error and the pass
  goes on, so its traces include the one that ends there.
\<close>

definition noContainer :: go_error where
  "noContainer = Sentinel ''panic: index out of range''"

definition updatePodStatus :: "'u ProjectionController \<Rightarrow> Pod \<Rightarrow> IdleloomWorkloadAssignment \<Rightarrow> projectionState \<Rightarrow> ('u, unit res) pprog" where
  "updatePodStatus C pod a state =
     retryOnConflict (pc_retries C)
       (bindE (askPod (PGetPod (pod_Namespace pod) (pod_Name pod))) (\<lambda>current.
        if terminalPodPhase (pst_Phase (pod_Status current)) then Ret (Inr ())
        else
          bindP askTime (\<lambda>now.
          case ps_Containers (pod_Spec current) of
            [] \<Rightarrow> Ret (Inl noContainer)
          | c # _ \<Rightarrow>
             let status = projectedPodStatus a state (cn_Image c) now (pod_Status current) in
             case pc_unmarshalable C status of
               Some e \<Rightarrow> Ret (Inl e)
             | None \<Rightarrow> bindE (askPod (PPatchPodStatus (pod_Namespace current) (pod_Name current) status)) (\<lambda>_. Ret (Inr ())))))"

subsection \<open>Projecting an assignment\<close>

definition getHost :: "'u ProjectionController \<Rightarrow> IdleloomWorkloadAssignment \<Rightarrow> ('u, IdleloomHost res) pprog" where
  "getHost C a =
     (let ref = as_HostRef (wa_Spec a) in
      bindE (askObject (PGetHost (wa_Namespace a) (or_Name ref))) (\<lambda>object.
      bindE (liftE (FromUnstructured (pc_conv C) (toHost (pc_conv C)) object)) (\<lambda>host.
      Ret (if ho_UID host \<noteq> or_UID ref then Inl (ErrorString ''host identity does not match assignment'') else Inr host))))"

definition getWorkload :: "'u ProjectionController \<Rightarrow> IdleloomWorkloadAssignment \<Rightarrow> ('u, IdleloomWorkload res) pprog" where
  "getWorkload C a =
     (let ref = as_WorkloadRef (wa_Spec a) in
      bindE (askObject (PGetWorkload (wor_Namespace ref) (wor_Name ref))) (\<lambda>object.
      bindE (liftE (FromUnstructured (pc_conv C) (toWorkload (pc_conv C)) object)) (\<lambda>workload.
      Ret (if wl_UID workload \<noteq> wor_UID ref then Inl (ErrorString ''workload identity does not match assignment'')
           else if wl_Generation workload \<noteq> wor_Generation ref \<and> om_DeletionTimestamp (wl_Meta workload) = None
           then Inl (ErrorString ''workload generation does not match assignment'')
           else Inr workload))))"

definition probeLogs :: "string \<Rightarrow> string \<Rightarrow> ('u, unit res) pprog" where
  "probeLogs namespace pod = askDone (PProbeLogs namespace pod)"

definition projectState :: "'u ProjectionController \<Rightarrow> IdleloomWorkload \<Rightarrow> IdleloomWorkloadAssignment \<Rightarrow> projectionRef \<Rightarrow> projectionState
    \<Rightarrow> string \<Rightarrow> bool \<Rightarrow> Pod \<Rightarrow> ('u, unit res) pprog" where \<comment> \<open>\<open>project\<close> after the first status update\<close>
  "projectState C workload a ref state address candidate pod =
     bindP (if candidate
            then bindP (probeLogs (pr_PodNamespace ref) (pr_PodName ref)) (\<lambda>x. Ret (x = Inr ()))
            else Ret False) (\<lambda>logsReady.
     if logsReady \<noteq> candidate then
       bindE (ensurePod C workload a ref logsReady) (\<lambda>pod.
       bindE (ensureNode a (pr_NodeName ref) logsReady) (\<lambda>node.
       bindE (updateNodeStatus C node a state address logsReady) (\<lambda>_.
       updatePodStatus C pod a state)))
     else updatePodStatus C pod a state)"

definition project :: "'u ProjectionController \<Rightarrow> IdleloomWorkload \<Rightarrow> IdleloomHost \<Rightarrow> IdleloomWorkloadAssignment \<Rightarrow> projectionRef \<Rightarrow> ('u, unit res) pprog" where
  "project C workload host a ref =
     bindP askTime (\<lambda>t.
     let (address, candidate) = connectedKubeletAddress C host t in
     bindE (ensurePod C workload a ref candidate) (\<lambda>pod.
     bindE (ensureNode a (pr_NodeName ref) candidate) (\<lambda>node.
     bindP askTime (\<lambda>now.
     let state = stateFor a now in
     bindE (updateNodeStatus C node a state address candidate) (\<lambda>_.
     projectState C workload a ref state address candidate pod)))))"

subsection \<open>Deleting\<close>

definition deleteManagedPod :: "projectionRef \<Rightarrow> ('u, unit res) pprog" where
  "deleteManagedPod ref =
     bindP (askPod (PGetPod (pr_PodNamespace ref) (pr_PodName ref))) (\<lambda>got. case got of
       Inl e \<Rightarrow> if IsNotFound e then Ret (Inr ()) else Ret (Inl e)
     | Inr pod \<Rightarrow>
        if podLabel pod LabelProjection \<noteq> ProjectionValue \<or> podAnnotation pod AnnotationContract \<noteq> ContractValue
           \<or> pr_PodName (refForUID (podLabel pod LabelAssignmentUID)) \<noteq> pr_PodName ref
        then Ret (Inl (ErrorString (''refusing to delete Pod '' @ pr_PodNamespace ref @ ''/'' @ pr_PodName ref @ '' outside the projection contract'')))
        else askDone (PDeletePod (pr_PodNamespace ref) (pod_Name pod) (pod_UID pod)))"

definition deleteManagedNode :: "projectionRef \<Rightarrow> ('u, unit res) pprog" where
  "deleteManagedNode ref =
     bindP (askNode (PGetNode (pr_NodeName ref))) (\<lambda>got. case got of
       Inl e \<Rightarrow> if IsNotFound e then Ret (Inr ()) else Ret (Inl e)
     | Inr node \<Rightarrow>
        if nodeLabel node LabelProjection \<noteq> ProjectionValue \<or> nodeAnnotation node AnnotationContract \<noteq> ContractValue
           \<or> pr_NodeName (refForUID (nodeLabel node LabelAssignmentUID)) \<noteq> pr_NodeName ref
        then Ret (Inl (ErrorString (''refusing to delete Node '' @ pr_NodeName ref @ '' outside the projection contract'')))
        else askDone (PDeleteNode (nd_Name node) (nd_UID node)))"

definition errorOf :: "'a res \<Rightarrow> go_error list" where
  "errorOf x = (case x of Inl e \<Rightarrow> [e] | Inr _ \<Rightarrow> [])"

definition deleteProjection :: "projectionRef \<Rightarrow> ('u, unit res) pprog" where
  "deleteProjection ref =
     bindP (deleteManagedPod ref) (\<lambda>p. bindP (deleteManagedNode ref) (\<lambda>n. Ret (joinErrors (errorOf p @ errorOf n))))"

type_synonym active = "projectionRef gomap"

text \<open>The loop over the Pods, with the errors and the blocked Nodes so far.\<close>

fun collectPods :: "active \<Rightarrow> Pod list \<Rightarrow> go_error list \<times> string list \<Rightarrow> ('u, go_error list \<times> string list) pprog" where
  "collectPods active [] acc = Ret acc"
| "collectPods active (pod # pods) (errs, blocked) =
     (let uid = podLabel pod LabelAssignmentUID; expected = refForUID uid in
      if (case map_of active uid of Some ref \<Rightarrow> pr_PodNamespace ref = pod_Namespace pod \<and> pr_PodName ref = pod_Name pod | None \<Rightarrow> False)
      then collectPods active pods (errs, blocked)
      else if pr_PodName expected \<noteq> pod_Name pod \<or> podAnnotation pod AnnotationContract \<noteq> ContractValue
      then collectPods active pods
             (errs @ [ErrorString (''refusing to garbage collect Pod '' @ pod_Namespace pod @ ''/'' @ pod_Name pod @ '' outside the projection contract'')],
              pr_NodeName expected # blocked)
      else bindP (askDone (PDeletePod (pod_Namespace pod) (pod_Name pod) (pod_UID pod))) (\<lambda>x. case x of
             Inl e \<Rightarrow> if IsNotFound e then collectPods active pods (errs, blocked)
                      else collectPods active pods (errs @ [e], pr_NodeName expected # blocked)
           | Inr _ \<Rightarrow> collectPods active pods (errs, blocked)))"

fun collectNodes :: "active \<Rightarrow> string list \<Rightarrow> Node list \<Rightarrow> go_error list \<Rightarrow> ('u, go_error list) pprog" where
  "collectNodes active blocked [] errs = Ret errs"
| "collectNodes active blocked (node # nodes) errs =
     (let uid = nodeLabel node LabelAssignmentUID in
      if (case map_of active uid of Some ref \<Rightarrow> pr_NodeName ref = nd_Name node | None \<Rightarrow> False) \<or> nd_Name node \<in> set blocked
      then collectNodes active blocked nodes errs
      else if pr_NodeName (refForUID uid) \<noteq> nd_Name node \<or> nodeAnnotation node AnnotationContract \<noteq> ContractValue
      then collectNodes active blocked nodes
             (errs @ [ErrorString (''refusing to garbage collect Node '' @ nd_Name node @ '' outside the projection contract'')])
      else bindP (askDone (PDeleteNode (nd_Name node) (nd_UID node))) (\<lambda>x. case x of
             Inl e \<Rightarrow> if IsNotFound e then collectNodes active blocked nodes errs else collectNodes active blocked nodes (errs @ [e])
           | Inr _ \<Rightarrow> collectNodes active blocked nodes errs))"

definition projectionSelector :: string where
  "projectionSelector = LabelProjection @ ''='' @ ProjectionValue"

definition collectRest :: "active \<Rightarrow> go_error list \<times> string list \<Rightarrow> ('u, unit res) pprog" where \<comment> \<open>\<open>garbageCollect\<close> after the Pods\<close>
  "collectRest active acc =
     bindP (askNodes (PListNodes projectionSelector)) (\<lambda>got. case got of
        Inl e \<Rightarrow> Ret (joinErrors (fst acc @ [e]))
      | Inr nodes \<Rightarrow> bindP (collectNodes active (snd acc) nodes (fst acc)) (\<lambda>errs. Ret (joinErrors errs)))"

definition garbageCollect :: "active \<Rightarrow> ('u, unit res) pprog" where
  "garbageCollect active =
     bindE (wrapE ''list projection Pods for garbage collection: '' (askPods (PListPods projectionSelector)))
       (\<lambda>pods. bindP (collectPods active pods ([], [])) (collectRest active))"

subsection \<open>One pass\<close>

record pass =
  pa_active :: active
  pa_errs :: "go_error list"
  pa_collect :: bool \<comment> \<open>\<open>allowGarbageCollection\<close>\<close>

definition failPass :: "go_error \<Rightarrow> pass \<Rightarrow> pass" where
  "failPass e p = p\<lparr>pa_errs := pa_errs p @ [e]\<rparr>"

definition assignmentText :: "IdleloomWorkloadAssignment \<Rightarrow> string" where
  "assignmentText a = wa_Namespace a @ ''/'' @ wa_Name a"

definition failNamed :: "string \<Rightarrow> IdleloomWorkloadAssignment \<Rightarrow> go_error \<Rightarrow> pass \<Rightarrow> pass" where
  "failNamed pre a e p = failPass (WrapError (pre @ assignmentText a @ '': '') e []) p"

definition projectActive :: "'u ProjectionController \<Rightarrow> IdleloomWorkloadAssignment \<Rightarrow> pass \<Rightarrow> ('u, pass) pprog" where
  "projectActive C a p =
     (let ref = refFor a; p = p\<lparr>pa_active := gomap_set (pa_active p) (wa_UID a) ref\<rparr> in
      bindP (getWorkload C a) (\<lambda>w. case w of
        Inl e \<Rightarrow> Ret (failNamed ''resolve workload for assignment '' a e p)
      | Inr workload \<Rightarrow>
         bindP (getHost C a) (\<lambda>h. case h of
           Inl e \<Rightarrow> Ret (failNamed ''resolve host for assignment '' a e p)
         | Inr host \<Rightarrow>
            bindP (project C workload host a ref) (\<lambda>x. Ret (case x of
              Inl e \<Rightarrow> failNamed ''project assignment '' a e p
            | Inr _ \<Rightarrow> p)))))"

definition projectItem :: "'u ProjectionController \<Rightarrow> 'u \<Rightarrow> pass \<Rightarrow> ('u, pass) pprog" where
  "projectItem C item p =
     (case FromUnstructured (pc_conv C) (toAssignment (pc_conv C)) item of
        Inl e \<Rightarrow> Ret ((failPass e p)\<lparr>pa_collect := False\<rparr>)
      | Inr a \<Rightarrow>
         if wa_UID a = []
         then Ret ((failPass (ErrorString (''assignment '' @ assignmentText a @ '' has no UID'')) p)\<lparr>pa_collect := False\<rparr>)
         else if projectionComplete a
         then bindP (deleteProjection (refFor a)) (\<lambda>x. Ret (case x of
                Inl e \<Rightarrow> failNamed ''delete stopped projection for '' a e p
              | Inr _ \<Rightarrow> p))
         else projectActive C a p)"

definition ProjectOnce :: "'u ProjectionController \<Rightarrow> ('u, unit res) pprog" where \<comment> \<open>\<open>ReconcileOnce\<close> of the projection\<close>
  "ProjectOnce C =
     (if \<not> pc_clients C then Ret (Inl (ErrorString ''dynamic and Kubernetes clients are required''))
      else
        bindE (wrapE ''list native assignments: '' (askList PListAssignments)) (\<lambda>items.
        bindP (foldP (projectItem C) items \<lparr>pa_active = [], pa_errs = [], pa_collect = True\<rparr>) (\<lambda>p.
        if pa_collect p
        then bindP (garbageCollect (pa_active p)) (\<lambda>x. Ret (joinErrors (pa_errs p @ errorOf x)))
        else Ret (joinErrors (pa_errs p)))))"

end
