(* ===== verification/Projection_Safety.thy ===== *)
theory Projection_Safety
  imports Projection
begin

section \<open>What the projection deletes and what it reports\<close>

text \<open>
  Two guarantees of a pass of the projection controller, over every trace it can have. Deletions:
  each names the UID of an object that the pass read inside the projection contract, and either the
  assignment that owns the projection has acknowledged its stop or no listed assignment claims the
  object. Statuses: a Node is Ready, and a Pod Running and Ready, only for an assignment whose agent
  reported the phase Running within its lease, and an address is published only for a host whose
  connection is fresh.
\<close>

subsection \<open>What a pass has read\<close>

definition assignmentOf :: "'u ProjectionController \<Rightarrow> 'u \<Rightarrow> IdleloomWorkloadAssignment res" where
  "assignmentOf C = FromUnstructured (pc_conv C) (toAssignment (pc_conv C))"

definition activeOf :: "'u ProjectionController \<Rightarrow> 'u list \<Rightarrow> IdleloomWorkloadAssignment list" where
  "activeOf C items = concat (map (\<lambda>item. case assignmentOf C item of
     Inr a \<Rightarrow> if wa_UID a \<noteq> [] \<and> \<not> projectionComplete a then [a] else [] | Inl _ \<Rightarrow> []) items)"

definition allNamed :: "'u ProjectionController \<Rightarrow> 'u list \<Rightarrow> bool" where
  "allNamed C items = list_all (\<lambda>item. case assignmentOf C item of Inr a \<Rightarrow> wa_UID a \<noteq> [] | Inl _ \<Rightarrow> False) items"

definition listedItems :: "(preq \<times> 'u presp) list \<Rightarrow> 'u list \<Rightarrow> bool" where
  "listedItems h items \<longleftrightarrow> (PListAssignments, PListR (Inr items)) \<in> set h"

definition saidTime :: "(preq \<times> 'u presp) list \<Rightarrow> Time \<Rightarrow> bool" where
  "saidTime h t \<longleftrightarrow> (\<exists>r. (PNow, r) \<in> set h \<and> t = (case r of PTimeR u \<Rightarrow> u | _ \<Rightarrow> 0))"

definition stoppedRef :: "'u ProjectionController \<Rightarrow> (preq \<times> 'u presp) list \<Rightarrow> projectionRef \<Rightarrow> bool" where
  "stoppedRef C h ref \<longleftrightarrow> (\<exists>items item a. listedItems h items \<and> item \<in> set items \<and> assignmentOf C item = Inr a
     \<and> wa_UID a \<noteq> [] \<and> projectionComplete a \<and> refFor a = ref)"

subsection \<open>Deletions\<close>

abbreviation "podRef p \<equiv> refForUID (podLabel p LabelAssignmentUID)"
abbreviation "nodeRef n \<equiv> refForUID (nodeLabel n LabelAssignmentUID)"

definition claimsPod :: "IdleloomWorkloadAssignment \<Rightarrow> Pod \<Rightarrow> bool" where
  "claimsPod a pod \<longleftrightarrow> wa_UID a = podLabel pod LabelAssignmentUID \<and> pr_PodNamespace (refFor a) = pod_Namespace pod
     \<and> pr_PodName (refFor a) = pod_Name pod"

definition claimsNode :: "IdleloomWorkloadAssignment \<Rightarrow> Node \<Rightarrow> bool" where
  "claimsNode a node \<longleftrightarrow> wa_UID a = nodeLabel node LabelAssignmentUID \<and> pr_NodeName (refFor a) = nd_Name node"

definition podGone :: "(preq \<times> 'u presp) list \<Rightarrow> Pod \<Rightarrow> bool" where
  "podGone h pod \<longleftrightarrow> (\<exists>r. (PDeletePod (pod_Namespace pod) (pod_Name pod) (pod_UID pod), PDoneR r) \<in> set h
     \<and> (case r of Inl e \<Rightarrow> IsNotFound e | Inr _ \<Rightarrow> True))"

definition stoppedPod :: "'u ProjectionController \<Rightarrow> (preq \<times> 'u presp) list \<Rightarrow> string \<Rightarrow> Pod \<Rightarrow> bool" where
  "stoppedPod C h ns pod \<longleftrightarrow> (\<exists>ref. stoppedRef C h ref \<and> pr_PodNamespace ref = ns
     \<and> (PGetPod ns (pr_PodName ref), PPodR (Inr pod)) \<in> set h
     \<and> podLabel pod LabelProjection = ProjectionValue \<and> podAnnotation pod AnnotationContract = ContractValue
     \<and> pr_PodName (podRef pod) = pr_PodName ref)"

definition stoppedNode :: "'u ProjectionController \<Rightarrow> (preq \<times> 'u presp) list \<Rightarrow> Node \<Rightarrow> bool" where
  "stoppedNode C h node \<longleftrightarrow> (\<exists>ref. stoppedRef C h ref \<and> (PGetNode (pr_NodeName ref), PNodeR (Inr node)) \<in> set h
     \<and> nodeLabel node LabelProjection = ProjectionValue \<and> nodeAnnotation node AnnotationContract = ContractValue
     \<and> pr_NodeName (nodeRef node) = pr_NodeName ref)"

definition orphanPod :: "'u ProjectionController \<Rightarrow> (preq \<times> 'u presp) list \<Rightarrow> Pod \<Rightarrow> bool" where
  "orphanPod C h pod \<longleftrightarrow> (\<exists>items pods. listedItems h items \<and> allNamed C items
     \<and> (distinct (map wa_UID (activeOf C items)) \<longrightarrow> (\<forall>a \<in> set (activeOf C items). \<not> claimsPod a pod))
     \<and> (PListPods projectionSelector, PPodsR (Inr pods)) \<in> set h \<and> pod \<in> set pods
     \<and> podAnnotation pod AnnotationContract = ContractValue \<and> pr_PodName (podRef pod) = pod_Name pod)"

definition orphanNode :: "'u ProjectionController \<Rightarrow> (preq \<times> 'u presp) list \<Rightarrow> Node \<Rightarrow> bool" where
  "orphanNode C h node \<longleftrightarrow> (\<exists>items pods nodes. listedItems h items \<and> allNamed C items
     \<and> (\<forall>a \<in> set (activeOf C items). \<not> claimsNode a node)
     \<and> (PListPods projectionSelector, PPodsR (Inr pods)) \<in> set h
     \<and> (\<forall>pod \<in> set pods. pr_NodeName (podRef pod) = nd_Name node \<longrightarrow>
          podGone h pod \<or> (\<exists>a \<in> set (activeOf C items). claimsPod a pod))
     \<and> (PListNodes projectionSelector, PNodesR (Inr nodes)) \<in> set h \<and> node \<in> set nodes
     \<and> nodeAnnotation node AnnotationContract = ContractValue \<and> pr_NodeName (nodeRef node) = nd_Name node)"

subsection \<open>Reports\<close>

definition runningNow :: "IdleloomWorkloadAssignment \<Rightarrow> Time \<Rightarrow> bool" where
  "runningNow a t \<longleftrightarrow> as_DesiredState (wa_Spec a) \<noteq> AssignmentDesiredStopped \<and> ast_Phase (wa_Status a) = PhaseRunning
     \<and> \<not> heartbeatStale a t"

definition connectedAt :: "'u ProjectionController \<Rightarrow> (preq \<times> 'u presp) list \<Rightarrow> IdleloomWorkloadAssignment \<Rightarrow> string \<Rightarrow> bool" where
  "connectedAt C h a address \<longleftrightarrow> (\<exists>object host t.
     (PGetHost (wa_Namespace a) (or_Name (as_HostRef (wa_Spec a))), PObjectR (Inr object)) \<in> set h
     \<and> FromUnstructured (pc_conv C) (toHost (pc_conv C)) object = Inr host \<and> ho_UID host = or_UID (as_HostRef (wa_Spec a))
     \<and> saidTime h t \<and> connectedKubeletAddress C host t = (address, True))"

definition reporting :: "'u ProjectionController \<Rightarrow> (preq \<times> 'u presp) list \<Rightarrow> IdleloomWorkloadAssignment \<Rightarrow> projectionState \<Rightarrow> bool" where
  "reporting C h a state \<longleftrightarrow> (\<exists>items t. listedItems h items \<and> a \<in> set (activeOf C items) \<and> saidTime h t \<and> state = stateFor a t)"

definition truthfulNode :: "'u ProjectionController \<Rightarrow> (preq \<times> 'u presp) list \<Rightarrow> NodeStatus \<Rightarrow> bool" where
  "truthfulNode C h status \<longleftrightarrow> (\<exists>a state. reporting C h a state \<and> nsi_MachineID (nst_NodeInfo status) = wa_UID a
     \<and> (\<exists>c. nst_Conditions status = [c] \<and> ncn_Type c = ''Ready'' \<and> ncn_Status c = pj_nodeStatus state \<and> ncn_Reason c = pj_reason state)
     \<and> (nst_Addresses status = [] \<or> (\<exists>address. nst_Addresses status = [(''InternalIP'', address)] \<and> connectedAt C h a address)))"

text \<open>The Pod of an assignment: read, created or updated in this pass with the labels of the projection of this assignment.\<close>

definition labelledPod :: "IdleloomWorkloadAssignment \<Rightarrow> Pod \<Rightarrow> bool" where
  "labelledPod a pod \<longleftrightarrow> podLabel pod LabelProjection = ProjectionValue \<and> podLabel pod LabelAssignmentUID = wa_UID a"

definition podOf :: "(preq \<times> 'u presp) list \<Rightarrow> IdleloomWorkloadAssignment \<Rightarrow> Pod \<Rightarrow> bool" where
  "podOf h a pod \<longleftrightarrow>
     (\<exists>ns name. (PGetPod ns name, PPodR (Inr pod)) \<in> set h \<and> labelledPod a pod)
   \<or> (\<exists>p. (PCreatePod p, PPodR (Inr pod)) \<in> set h \<and> labelledPod a pod)
   \<or> (\<exists>p. (PUpdatePod p, PPodR (Inr pod)) \<in> set h \<and> labelledPod a p)"

definition truthfulPod :: "'u ProjectionController \<Rightarrow> (preq \<times> 'u presp) list \<Rightarrow> string \<Rightarrow> string \<Rightarrow> PodStatus \<Rightarrow> bool" where
  "truthfulPod C h ns name status \<longleftrightarrow> (\<exists>a state pod current now. reporting C h a state \<and> podOf h a pod
     \<and> (PGetPod (pod_Namespace pod) (pod_Name pod), PPodR (Inr current)) \<in> set h \<and> pod_Namespace current = ns \<and> pod_Name current = name
     \<and> \<not> terminalPodPhase (pst_Phase (pod_Status current))
     \<and> saidTime h now
     \<and> (\<exists>c cs. ps_Containers (pod_Spec current) = c # cs \<and> status = projectedPodStatus a state (cn_Image c) now (pod_Status current)))"

definition projectionGuard :: "'u ProjectionController \<Rightarrow> (preq \<times> 'u presp) list \<Rightarrow> preq \<Rightarrow> bool" where
  "projectionGuard C h q = (case q of
     PDeletePod ns name uid \<Rightarrow> (\<exists>pod. name = pod_Name pod \<and> uid = pod_UID pod
        \<and> (stoppedPod C h ns pod \<or> ns = pod_Namespace pod \<and> orphanPod C h pod))
   | PDeleteNode name uid \<Rightarrow> (\<exists>node. name = nd_Name node \<and> uid = nd_UID node \<and> (stoppedNode C h node \<or> orphanNode C h node))
   | PUpdateNodeStatus node \<Rightarrow> truthfulNode C h (nd_Status node)
   | PPatchPodStatus ns name status \<Rightarrow> truthfulPod C h ns name status
   | _ \<Rightarrow> True)"

lemmas guard_simps = projectionGuard_def

subsection \<open>The history only grows\<close>

lemma listed_mono [simp, intro]: "listedItems h items \<Longrightarrow> listedItems (h @ t) items"
  by (simp add: listedItems_def)

lemma saidTime_mono [simp, intro]: "saidTime h u \<Longrightarrow> saidTime (h @ t) u"
  by (auto simp: saidTime_def)

lemma connectedAt_mono [simp, intro]: "connectedAt C h a x \<Longrightarrow> connectedAt C (h @ t) a x"
  unfolding connectedAt_def by (metis saidTime_mono UnCI set_append)

lemma reporting_mono [simp, intro]: "reporting C h a state \<Longrightarrow> reporting C (h @ t) a state"
  unfolding reporting_def by (metis saidTime_mono listed_mono)

lemma podOf_mono [simp, intro]: "podOf h a pod \<Longrightarrow> podOf (h @ t) a pod"
  unfolding podOf_def by (metis UnCI set_append)

lemma stoppedRef_mono [simp, intro]: "stoppedRef C h ref \<Longrightarrow> stoppedRef C (h @ t) ref"
  unfolding stoppedRef_def by (metis listed_mono)

lemma podGone_mono [simp, intro]: "podGone h pod \<Longrightarrow> podGone (h @ t) pod"
  by (auto simp: podGone_def)

text \<open>A program whose every request passes the guard, whatever came before.\<close>

definition harmless :: "'u ProjectionController \<Rightarrow> ('u, 'a) pprog \<Rightarrow> bool" where
  "harmless C p \<longleftrightarrow> (\<forall>h. safe (projectionGuard C) (\<lambda>_ _. True) p h)"

lemma harmless_extends: "harmless C p \<Longrightarrow> safe (projectionGuard C) (\<lambda>h' _. \<exists>t. h' = h @ t) p h"
  unfolding harmless_def by (rule safe_mono [OF safe_history [of _ "\<lambda>_ _. True"]]) auto

lemma podOf_answers:
  "labelledPod a pod \<Longrightarrow> podOf (h @ (PGetPod ns name, PPodR (Inr pod)) # t) a pod"
  "labelledPod a pod \<Longrightarrow> podOf (h @ (PCreatePod p, PPodR (Inr pod)) # t) a pod"
  "labelledPod a p \<Longrightarrow> podOf (h @ x # (PUpdatePod p, PPodR (Inr pod)) # t) a pod"
  by (auto simp: podOf_def)

lemma safe_createPod:
  "safe (projectionGuard C) (\<lambda>h' x. (\<exists>t. h' = h @ t) \<and> (\<forall>pod. x = Inr pod \<longrightarrow> podOf h' a pod)) (createPod C desired a ref) h"
proof -
  have v: "validateManagedPod C pod d a = Inr () \<Longrightarrow> labelledPod a pod" for pod d
    by (auto simp: validateManagedPod_def labelledPod_def split: if_splits)
  show ?thesis
    by (auto simp: createPod_def ask_defs safe_bindE safe_wrapE guard_simps bind_res_Inr podOf_def dest!: v split: sum.split presp.splits)
qed

lemma safe_ensurePod:
  "safe (projectionGuard C) (\<lambda>h' x. (\<exists>t. h' = h @ t) \<and> (\<forall>pod. x = Inr pod \<longrightarrow> podOf h' a pod)) (ensurePod C workload a ref logs) h"
proof -
  let ?d = "managedPod C workload a ref logs" and ?get = "PGetPod (pr_PodNamespace ref) (pr_PodName ref)"
  have v: "validateManagedPod C pod ?d a = Inr () \<Longrightarrow> labelledPod a pod" for pod
    by (auto simp: validateManagedPod_def labelledPod_def split: if_splits)
  have u: "labelledPod a (pod\<lparr>pod_Meta := setAnnotations m (pod_Meta pod)\<rparr>) = labelledPod a pod" for pod m
    by (simp add: labelledPod_def setAnnotations_def)
  have c: "safe (projectionGuard C) (\<lambda>h' x. (\<exists>t. h' = h @ t) \<and> (\<forall>pod. x = Inr pod \<longrightarrow> podOf h' a pod)) (createPod C ?d a ref) (h @ [x])" for x
    by (rule safe_mono [OF safe_createPod]) auto
  show ?thesis
    by (auto simp: ensurePod_def Let_def ask_defs safe_bindE guard_simps u intro: c podOf_answers dest!: v split: sum.split presp.splits)
qed

lemma harmless_ensureNode: "harmless C (ensureNode a name logs)"
  by (auto simp: harmless_def ensureNode_def createNode_def Let_def ask_defs safe_bindE safe_wrapE guard_simps split: sum.split)

lemma harmless_getWorkload: "harmless C (getWorkload C a)"
  by (auto simp: harmless_def getWorkload_def Let_def ask_defs safe_bindE guard_simps split: sum.split)


lemma safe_getHost:
  "safe (projectionGuard C) (\<lambda>h' x. (\<exists>t. h' = h @ t) \<and> (\<forall>host. x = Inr host \<longrightarrow>
       (\<exists>object. (PGetHost (wa_Namespace a) (or_Name (as_HostRef (wa_Spec a))), PObjectR (Inr object)) \<in> set h'
          \<and> FromUnstructured (pc_conv C) (toHost (pc_conv C)) object = Inr host \<and> ho_UID host = or_UID (as_HostRef (wa_Spec a)))))
     (getHost C a) h"
  by (auto simp: getHost_def Let_def ask_defs safe_bindE guard_simps split: sum.split presp.splits)

lemma safe_retry:
  assumes "\<And>h. P h \<Longrightarrow> safe G (\<lambda>h' x. P h') p h" and "P h"
  shows "safe G (\<lambda>h' x. P h') (retryOnConflict n p) h"
  using assms(2)
proof (induction n arbitrary: h)
  case 0
  then show ?case by (simp add: assms(1))
next
  case (Suc n)
  show ?case
    unfolding retryOnConflict.simps safe_bindP
    by (rule safe_mono [OF assms(1) [OF Suc.prems]]) (auto intro: Suc.IH split: sum.split)
qed

lemma nodeCondition_fields:
  "ncn_Type (nodeCondition state hb now cs) = ''Ready'' \<and> ncn_Status (nodeCondition state hb now cs) = pj_nodeStatus state
   \<and> ncn_Reason (nodeCondition state hb now cs) = pj_reason state"
proof -
  have "ncn_Type (fold f cs c) = ncn_Type c \<and> ncn_Status (fold f cs c) = ncn_Status c \<and> ncn_Reason (fold f cs c) = ncn_Reason c"
    if "\<And>e c. ncn_Type (f e c) = ncn_Type c \<and> ncn_Status (f e c) = ncn_Status c \<and> ncn_Reason (f e c) = ncn_Reason c"
    for f :: "NodeCondition \<Rightarrow> NodeCondition \<Rightarrow> NodeCondition" and c
    using that by (induction cs arbitrary: c) auto
  from this [of "\<lambda>e c. if ncn_Type e = ''Ready'' \<and> ncn_Status e = ncn_Status c \<and> ncn_Reason e = ncn_Reason c
                 then c\<lparr>ncn_LastTransitionTime := ncn_LastTransitionTime e\<rparr> else c"]
  show ?thesis by (simp add: nodeCondition_def)
qed

abbreviation "laterThan h h' \<equiv> \<exists>t. h' = h @ t"

lemma safe_updateNodeStatus:
  assumes "reporting C h a state" "logs \<longrightarrow> connectedAt C h a address"
  shows "safe (projectionGuard C) (\<lambda>h' x. laterThan h h') (updateNodeStatus C node a state address logs) h"
  unfolding updateNodeStatus_def
proof (rule safe_retry)
  show "safe (projectionGuard C) (\<lambda>h' x. laterThan h h')
     (bindE (askNode (PGetNode (nd_Name node))) (\<lambda>current. bindP askTime (\<lambda>now.
        bindE (askNode (PUpdateNodeStatus (current\<lparr>nd_Status := projectedNodeStatus a state address logs now (nd_Status current)\<rparr>)))
          (\<lambda>_. Ret (Inr ()))))) h'" if "laterThan h h'" for h'
  proof -
    have "truthfulNode C (h' @ t) (projectedNodeStatus a state address logs now st)" for t now st
      using that assms unfolding truthfulNode_def projectedNodeStatus_def
      by (intro exI [of _ a] exI [of _ state]) (auto simp: nodeCondition_fields)
    moreover have "truthfulNode C (h' @ t @ u) (projectedNodeStatus a state address logs now st)" for t u now st
      using calculation [of "t @ u"] by simp
    ultimately show ?thesis
      using that by (auto simp: ask_defs safe_bindE safe_bindP guard_simps split: sum.split)
  qed
qed simp

lemma safe_updatePodStatus:
  assumes "reporting C h a state" "podOf h a pod"
  shows "safe (projectionGuard C) (\<lambda>h' x. laterThan h h') (updatePodStatus C pod a state) h"
  unfolding updatePodStatus_def
proof (rule safe_retry)
  fix h' assume "laterThan h h'"
  then obtain t where g: "h' = h @ t" by blast
  have r: "reporting C (h @ u) a state" for u using assms by auto
  have truthful: "truthfulPod C (h @ t @ [(PGetPod (pod_Namespace pod) (pod_Name pod), PPodR (Inr current)), (PNow, r)]) (pod_Namespace current) (pod_Name current)
     (projectedPodStatus a state (cn_Image c) now (pod_Status current))"
    if "now = (case r of PTimeR t \<Rightarrow> t | _ \<Rightarrow> 0)" "\<not> terminalPodPhase (pst_Phase (pod_Status current))" "ps_Containers (pod_Spec current) = c # cs" for current r c cs now
    unfolding truthfulPod_def saidTime_def using that r podOf_mono [OF assms(2)]
    by (intro exI [of _ a] exI [of _ state] exI [of _ pod] exI [of _ current]) auto
  show "safe (projectionGuard C) (\<lambda>h' x. laterThan h h')
     (bindE (askPod (PGetPod (pod_Namespace pod) (pod_Name pod))) (\<lambda>current.
        if terminalPodPhase (pst_Phase (pod_Status current)) then Ret (Inr ())
        else bindP askTime (\<lambda>now. case ps_Containers (pod_Spec current) of
            [] \<Rightarrow> Ret (Inl noContainer)
          | c # _ \<Rightarrow>
             let status = projectedPodStatus a state (cn_Image c) now (pod_Status current) in
             case pc_unmarshalable C status of
               Some e \<Rightarrow> Ret (Inl e)
             | None \<Rightarrow> bindE (askPod (PPatchPodStatus (pod_Namespace current) (pod_Name current) status)) (\<lambda>_. Ret (Inr ()))))) h'"
    using g by (auto simp: ask_defs safe_bindE safe_bindP guard_simps Let_def intro!: truthful
       split: sum.split list.split option.split presp.splits)
qed simp

subsection \<open>Projecting\<close>

lemma safe_harmless_bindE:
  assumes "harmless C p" and "\<And>h' x. laterThan h h' \<Longrightarrow> safe (projectionGuard C) (\<lambda>k _. laterThan h k) (f x) h'"
  shows "safe (projectionGuard C) (\<lambda>k _. laterThan h k) (bindE p f) h"
  unfolding safe_bindE by (rule safe_mono [OF harmless_extends [OF assms(1)]]) (auto intro: assms(2) split: sum.split)

lemma safe_pod_bindE:
  assumes "\<And>h' pod. laterThan h h' \<Longrightarrow> podOf h' a pod \<Longrightarrow> safe (projectionGuard C) (\<lambda>k _. laterThan h k) (f pod) h'"
  shows "safe (projectionGuard C) (\<lambda>k _. laterThan h k) (bindE (ensurePod C workload a ref logs) f) h"
  unfolding safe_bindE by (rule safe_mono [OF safe_ensurePod [of C h a]]) (auto intro: assms split: sum.split)

lemma safe_then:
  assumes "safe (projectionGuard C) (\<lambda>k _. laterThan h k) p h"
    and "\<And>h' x. laterThan h h' \<Longrightarrow> safe (projectionGuard C) (\<lambda>k _. laterThan h k) (f x) h'"
  shows "safe (projectionGuard C) (\<lambda>k _. laterThan h k) (bindP p f) h"
  unfolding safe_bindP by (rule safe_mono [OF assms(1)]) (auto intro: assms(2))

lemma safe_thenE:
  assumes "safe (projectionGuard C) (\<lambda>k _. laterThan h k) p h"
    and "\<And>h' x. laterThan h h' \<Longrightarrow> safe (projectionGuard C) (\<lambda>k _. laterThan h k) (f x) h'"
  shows "safe (projectionGuard C) (\<lambda>k _. laterThan h k) (bindE p f) h"
  unfolding safe_bindE by (rule safe_mono [OF assms(1)]) (auto intro: assms(2) split: sum.split)

lemma safe_later: "safe (projectionGuard C) (\<lambda>k _. laterThan h' k) p h' \<Longrightarrow> laterThan h h' \<Longrightarrow> safe (projectionGuard C) (\<lambda>k _. laterThan h k) p h'"
  by (erule safe_mono) auto

lemma safe_ensures:
  assumes "reporting C h a state" "logs \<longrightarrow> connectedAt C h a address"
  shows "safe (projectionGuard C) (\<lambda>h' _. laterThan h h')
    (bindE (ensurePod C workload a ref logs) (\<lambda>pod. bindE (ensureNode a (pr_NodeName ref) logs) (\<lambda>node.
       bindE (updateNodeStatus C node a state address logs) (\<lambda>_. updatePodStatus C pod a state)))) h"
proof (rule safe_pod_bindE)
  fix h1 pod assume 1: "laterThan h h1" and pod: "podOf h1 a pod"
  show "safe (projectionGuard C) (\<lambda>h' _. laterThan h h') (bindE (ensureNode a (pr_NodeName ref) logs) (\<lambda>node.
       bindE (updateNodeStatus C node a state address logs) (\<lambda>_. updatePodStatus C pod a state))) h1"
  proof (rule safe_later [OF safe_harmless_bindE [OF harmless_ensureNode] 1])
    fix h2 node assume 2: "laterThan h1 h2"
    show "safe (projectionGuard C) (\<lambda>h' _. laterThan h1 h') (bindE (updateNodeStatus C node a state address logs) (\<lambda>_. updatePodStatus C pod a state)) h2"
    proof (rule safe_later [OF safe_thenE [OF safe_updateNodeStatus] 2])
      show "reporting C h2 a state" "logs \<longrightarrow> connectedAt C h2 a address" using assms 1 2 by auto
      show "safe (projectionGuard C) (\<lambda>h' _. laterThan h2 h') (updatePodStatus C pod a state) h3" if 3: "laterThan h2 h3" for h3
        by (rule safe_later [OF safe_updatePodStatus 3]) (use assms(1) pod 1 2 3 in auto)
    qed
  qed
qed

lemma safe_projectState:
  assumes "reporting C h a state" "podOf h a pod" "candidate \<longrightarrow> connectedAt C h a address"
  shows "safe (projectionGuard C) (\<lambda>h' _. laterThan h h') (projectState C workload a ref state address candidate pod) h"
proof (cases candidate)
  case False
  then show ?thesis using safe_updatePodStatus [OF assms(1,2)] by (simp add: projectState_def)
next
  case True
  have "safe (projectionGuard C) (\<lambda>k _. laterThan h k)
     (if \<not> logsReady then
       bindE (ensurePod C workload a ref False) (\<lambda>pod.
       bindE (ensureNode a (pr_NodeName ref) False) (\<lambda>node.
       bindE (updateNodeStatus C node a state address False) (\<lambda>_. updatePodStatus C pod a state)))
     else updatePodStatus C pod a state) (h @ [x])" for logsReady x
  proof -
    have *: "reporting C (h @ [x]) a state" "podOf (h @ [x]) a pod" using assms(1,2) by auto
    from safe_ensures [OF *(1), of False] safe_updatePodStatus [OF *] show ?thesis
      by (auto intro!: safe_later [of C "h @ [x]" _ h])
  qed
  from this [of True] this [of False] True show ?thesis
    by (auto simp: projectState_def probeLogs_def ask_defs safe_bindP guard_simps)
qed

lemma safe_report:
  assumes "listedItems h items" "a \<in> set (activeOf C items)" "candidate \<longrightarrow> connectedAt C h a address" "podOf h a pod"
  shows "safe (projectionGuard C) (\<lambda>h' _. laterThan h h')
     (bindP askTime (\<lambda>now. bindE (updateNodeStatus C node a (stateFor a now) address candidate) (\<lambda>_.
        projectState C workload a ref (stateFor a now) address candidate pod))) h"
proof -
  have "safe (projectionGuard C) (\<lambda>k _. laterThan h k) (bindE (updateNodeStatus C node a (stateFor a now) address candidate) (\<lambda>_.
     projectState C workload a ref (stateFor a now) address candidate pod)) (h @ [(PNow, r)])"
    if now: "now = (case r of PTimeR t \<Rightarrow> t | _ \<Rightarrow> 0)" for r now
  proof (rule safe_later [OF safe_thenE [OF safe_updateNodeStatus]])
    show r: "reporting C (h @ [(PNow, r)]) a (stateFor a now)"
      unfolding reporting_def saidTime_def using assms(1,2) now by auto
    show c: "candidate \<longrightarrow> connectedAt C (h @ [(PNow, r)]) a address" using assms(3) by auto
    show "safe (projectionGuard C) (\<lambda>k _. laterThan (h @ [(PNow, r)]) k) (projectState C workload a ref (stateFor a now) address candidate pod) h4"
      if 4: "laterThan (h @ [(PNow, r)]) h4" for h4
      by (rule safe_later [OF safe_projectState 4]) (use 4 in \<open>metis r reporting_mono\<close>, use 4 assms(4) in \<open>metis podOf_mono\<close>, use 4 in \<open>metis c connectedAt_mono\<close>)
  qed simp
  then show ?thesis by (simp add: askTime_def guard_simps)
qed

lemma safe_project:
  assumes "listedItems h items" "a \<in> set (activeOf C items)"
    and "(PGetHost (wa_Namespace a) (or_Name (as_HostRef (wa_Spec a))), PObjectR (Inr object)) \<in> set h"
    and "FromUnstructured (pc_conv C) (toHost (pc_conv C)) object = Inr host" "ho_UID host = or_UID (as_HostRef (wa_Spec a))"
  shows "safe (projectionGuard C) (\<lambda>h' _. laterThan h h') (project C workload host a ref) h"
proof -
  have "safe (projectionGuard C) (\<lambda>h' _. laterThan h h')
     (bindE (ensurePod C workload a ref candidate) (\<lambda>pod. bindE (ensureNode a (pr_NodeName ref) candidate) (\<lambda>node.
      bindP askTime (\<lambda>now. bindE (updateNodeStatus C node a (stateFor a now) address candidate) (\<lambda>_.
      projectState C workload a ref (stateFor a now) address candidate pod))))) (h @ [(PNow, r)])"
    if con: "connectedKubeletAddress C host (case r of PTimeR t \<Rightarrow> t | _ \<Rightarrow> 0) = (address, candidate)" for r address candidate
  proof (rule safe_later [OF safe_pod_bindE])
    let ?h = "h @ [(PNow, r)]"
    have c: "candidate \<longrightarrow> connectedAt C ?h a address"
      using assms con unfolding connectedAt_def saidTime_def by fastforce
    fix h1 pod assume 1: "laterThan ?h h1" and pod: "podOf h1 a pod"
    show "safe (projectionGuard C) (\<lambda>k _. laterThan ?h k) (bindE (ensureNode a (pr_NodeName ref) candidate) (\<lambda>node.
        bindP askTime (\<lambda>now. bindE (updateNodeStatus C node a (stateFor a now) address candidate) (\<lambda>_.
        projectState C workload a ref (stateFor a now) address candidate pod)))) h1"
    proof (rule safe_later [OF safe_harmless_bindE [OF harmless_ensureNode] 1], rule safe_later [OF safe_report])
      fix h2 assume 2: "laterThan h1 h2"
      then obtain t where h2: "h2 = ?h @ t" using 1 by auto
      show "podOf h2 a pod" using 2 pod by auto
      show "listedItems h2 items" "candidate \<longrightarrow> connectedAt C h2 a address"
        unfolding h2 using assms(1) c connectedAt_mono [of C ?h a address t] by auto
    qed (auto simp: assms(2))
  qed simp
  then show ?thesis
    by (auto simp: project_def askTime_def guard_simps Let_def split: prod.split)
qed

subsection \<open>Deleting\<close>

lemma safe_deleteManagedPod:
  assumes "stoppedRef C h ref"
  shows "safe (projectionGuard C) (\<lambda>h' _. laterThan h h') (deleteManagedPod ref) h"
proof -
  have "stoppedPod C (h @ [(PGetPod (pr_PodNamespace ref) (pr_PodName ref), PPodR (Inr pod))]) (pr_PodNamespace ref) pod"
    if "podLabel pod LabelProjection = ProjectionValue" "podAnnotation pod AnnotationContract = ContractValue"
       "pr_PodName (podRef pod) = pr_PodName ref" for pod
    unfolding stoppedPod_def using assms that by (intro exI [of _ ref]) auto
  then show ?thesis
    by (auto simp: deleteManagedPod_def ask_defs safe_bindP guard_simps split: sum.split presp.splits)
qed

lemma safe_deleteManagedNode:
  assumes "stoppedRef C h ref"
  shows "safe (projectionGuard C) (\<lambda>h' _. laterThan h h') (deleteManagedNode ref) h"
proof -
  have "stoppedNode C (h @ [(PGetNode (pr_NodeName ref), PNodeR (Inr node))]) node"
    if "nodeLabel node LabelProjection = ProjectionValue" "nodeAnnotation node AnnotationContract = ContractValue"
       "pr_NodeName (nodeRef node) = pr_NodeName ref" for node
    unfolding stoppedNode_def using assms that by (intro exI [of _ ref]) auto
  then show ?thesis
    by (auto simp: deleteManagedNode_def ask_defs safe_bindP guard_simps split: sum.split presp.splits)
qed

lemma safe_deleteProjection:
  assumes "stoppedRef C h ref"
  shows "safe (projectionGuard C) (\<lambda>h' _. laterThan h h') (deleteProjection ref) h"
  unfolding deleteProjection_def
proof (rule safe_then [OF safe_deleteManagedPod [OF assms]])
  show "safe (projectionGuard C) (\<lambda>k _. laterThan h k) (bindP (deleteManagedNode ref) (\<lambda>n. Ret (joinErrors (errorOf p @ errorOf n)))) h1"
    if 1: "laterThan h h1" for h1 p
    by (rule safe_later [OF safe_then [OF safe_deleteManagedNode] 1]) (use assms 1 in auto)
qed

subsection \<open>Collecting\<close>

definition activePod :: "active \<Rightarrow> Pod \<Rightarrow> bool" where
  "activePod active pod = (case map_of active (podLabel pod LabelAssignmentUID) of
     Some ref \<Rightarrow> pr_PodNamespace ref = pod_Namespace pod \<and> pr_PodName ref = pod_Name pod | None \<Rightarrow> False)"

definition activeNode :: "active \<Rightarrow> Node \<Rightarrow> bool" where
  "activeNode active node = (case map_of active (nodeLabel node LabelAssignmentUID) of Some ref \<Rightarrow> pr_NodeName ref = nd_Name node | None \<Rightarrow> False)"

definition settled :: "active \<Rightarrow> (preq \<times> 'u presp) list \<Rightarrow> string list \<Rightarrow> Pod \<Rightarrow> bool" where
  "settled active h blocked pod \<longleftrightarrow> activePod active pod \<or> podGone h pod \<or> pr_NodeName (podRef pod) \<in> set blocked"

lemma settled_mono: "settled active h blocked pod \<Longrightarrow> laterThan h h' \<Longrightarrow> set blocked \<subseteq> set blocked' \<Longrightarrow> settled active h' blocked' pod"
  by (auto simp: settled_def)

lemma not_found_sentinel: "\<not> IsNotFound (Sentinel s)"
  by (simp add: IsNotFound_def ReasonForError_def)

lemma settled_cases:
  "settled active (h @ [(PDeletePod (pod_Namespace pod) (pod_Name pod) (pod_UID pod), PDoneR (Inr ()))]) blocked pod"
  "IsNotFound e \<Longrightarrow> settled active (h @ [(PDeletePod (pod_Namespace pod) (pod_Name pod) (pod_UID pod), PDoneR (Inl e))]) blocked pod"
  "settled active h (pr_NodeName (podRef pod) # blocked) pod"
  "activePod active pod \<Longrightarrow> settled active h blocked pod"
  by (auto simp: settled_def podGone_def intro: exI [of _ "Inr ()"] exI [of _ "Inl e"])

lemma safe_collectPods:
  assumes "\<And>h' pod. laterThan h h' \<Longrightarrow> pod \<in> set pods \<Longrightarrow> \<not> activePod active pod \<Longrightarrow> podAnnotation pod AnnotationContract = ContractValue
      \<Longrightarrow> pr_PodName (podRef pod) = pod_Name pod \<Longrightarrow> orphanPod C h' pod"
  shows "safe (projectionGuard C) (\<lambda>h' acc. laterThan h h' \<and> set blocked \<subseteq> set (snd acc) \<and> (\<forall>pod \<in> set pods. settled active h' (snd acc) pod))
     (collectPods active pods (errs, blocked)) h"
  using assms
proof (induction pods arbitrary: h errs blocked)
  case (Cons pod pods)
  let ?post = "\<lambda>h' acc. laterThan h h' \<and> set blocked \<subseteq> set (snd acc) \<and> (\<forall>pod \<in> set (pod # pods). settled active h' (snd acc) pod)"
  have rest: "safe (projectionGuard C) ?post (collectPods active pods (errs', blocked')) h'"
    if "laterThan h h'" "set blocked \<subseteq> set blocked'" "settled active h' blocked' pod" for h' errs' blocked'
  proof (rule safe_mono [OF Cons.IH])
    show "orphanPod C h'' p" if "laterThan h' h''" "p \<in> set pods" "\<not> activePod active p" "podAnnotation p AnnotationContract = ContractValue"
      "pr_PodName (podRef p) = pod_Name p" for h'' p
      by (rule Cons.prems) (use that \<open>laterThan h h'\<close> in auto)
  qed (use that in \<open>auto intro: settled_mono\<close>)
  have del: "safe (projectionGuard C) ?post
     (bindP (askDone (PDeletePod (pod_Namespace pod) (pod_Name pod) (pod_UID pod))) (\<lambda>x. case x of
             Inl e \<Rightarrow> if IsNotFound e then collectPods active pods (errs, blocked)
                      else collectPods active pods (errs @ [e], pr_NodeName (podRef pod) # blocked)
           | Inr _ \<Rightarrow> collectPods active pods (errs, blocked))) h" if "orphanPod C h pod"
    using that unfolding askDone_def safe_bindP safe.simps
    by (auto simp: guard_simps not_found_sentinel intro!: rest settled_cases(1-3) intro: list.set_intros simp del: list.set split: sum.split presp.splits)
  consider (live) "activePod active pod"
    | (foreign) "\<not> activePod active pod" "pr_PodName (podRef pod) \<noteq> pod_Name pod \<or> podAnnotation pod AnnotationContract \<noteq> ContractValue"
    | (orphan) "\<not> activePod active pod" "pr_PodName (podRef pod) = pod_Name pod" "podAnnotation pod AnnotationContract = ContractValue"
    by blast
  then show ?case
  proof cases
    case live
    then show ?thesis using rest [of h blocked errs] settled_cases(4) [OF live, of h blocked] by (auto simp: Let_def activePod_def)
  next
    case foreign
    have "safe (projectionGuard C) ?post (collectPods active pods (errs', pr_NodeName (podRef pod) # blocked)) h" for errs'
      by (rule rest) (auto intro: settled_cases)
    with foreign show ?thesis by (auto simp: Let_def activePod_def)
  next
    case orphan
    have "orphanPod C h pod" by (rule Cons.prems) (use orphan in auto)
    from del [OF this] orphan show ?thesis by (auto simp: Let_def activePod_def)
  qed
qed simp

lemma safe_collectNodes:
  assumes "\<And>h' node. laterThan h h' \<Longrightarrow> node \<in> set nodes \<Longrightarrow> \<not> activeNode active node \<Longrightarrow> nd_Name node \<notin> set blocked
      \<Longrightarrow> nodeAnnotation node AnnotationContract = ContractValue \<Longrightarrow> pr_NodeName (nodeRef node) = nd_Name node \<Longrightarrow> orphanNode C h' node"
  shows "safe (projectionGuard C) (\<lambda>h' _. laterThan h h') (collectNodes active blocked nodes errs) h"
  using assms
proof (induction nodes arbitrary: h errs)
  case (Cons node nodes)
  have rest: "safe (projectionGuard C) (\<lambda>h' _. laterThan h h') (collectNodes active blocked nodes errs') h'" if g: "laterThan h h'" for h' errs'
  proof (rule safe_later [OF Cons.IH g])
    show "orphanNode C h'' n" if "laterThan h' h''" "n \<in> set nodes" "\<not> activeNode active n" "nd_Name n \<notin> set blocked"
      "nodeAnnotation n AnnotationContract = ContractValue" "pr_NodeName (nodeRef n) = nd_Name n" for h'' n
      by (rule Cons.prems) (use that g in auto)
  qed
  have del: "safe (projectionGuard C) (\<lambda>h' _. laterThan h h')
     (bindP (askDone (PDeleteNode (nd_Name node) (nd_UID node))) (\<lambda>x. case x of
             Inl e \<Rightarrow> if IsNotFound e then collectNodes active blocked nodes errs else collectNodes active blocked nodes (errs @ [e])
           | Inr _ \<Rightarrow> collectNodes active blocked nodes errs)) h" if "orphanNode C h node"
    using that by (auto simp: ask_defs safe_bindP guard_simps intro!: rest split: sum.split)
  show ?case
    using Cons.prems [of h node] rest [of h] del by (auto simp: Let_def activeNode_def)
qed simp

subsection \<open>The active assignments\<close>

definition activeRefs :: "IdleloomWorkloadAssignment list \<Rightarrow> active \<Rightarrow> active" where
  "activeRefs as m = fold (\<lambda>a m. gomap_set m (wa_UID a) (refFor a)) as m"

lemma activeRefs_old: "uid \<notin> wa_UID ` set as \<Longrightarrow> map_of (activeRefs as m) uid = map_of m uid"
  by (induction as arbitrary: m) (auto simp: activeRefs_def map_of_gomap_set)

lemma activeRefs_some: "map_of (activeRefs as m) uid = Some ref \<Longrightarrow> map_of m uid = Some ref \<or> (\<exists>a \<in> set as. wa_UID a = uid \<and> refFor a = ref)"
  by (induction as arbitrary: m) (fastforce simp: activeRefs_def map_of_gomap_set split: if_splits)+

lemma activeRefs_new: "distinct (map wa_UID as) \<Longrightarrow> a \<in> set as \<Longrightarrow> map_of (activeRefs as m) (wa_UID a) = Some (refFor a)"
proof (induction as arbitrary: m)
  case (Cons b as)
  have "map_of (activeRefs as (gomap_set m (wa_UID b) (refFor b))) (wa_UID b) = Some (refFor b)"
    using Cons.prems(1) by (subst activeRefs_old) (auto simp: map_of_gomap_set)
  with Cons show ?case by (auto simp: activeRefs_def)
qed simp

lemma activeRefs_node:
  assumes "a \<in> set as"
  shows "\<exists>ref. map_of (activeRefs as m) (wa_UID a) = Some ref \<and> pr_NodeName ref = pr_NodeName (refFor a)"
  using assms
proof (induction as arbitrary: m a)
  case (Cons b as)
  show ?case
  proof (cases "wa_UID a \<in> wa_UID ` set as")
    case True
    then obtain a' where a': "a' \<in> set as" "wa_UID a' = wa_UID a" by auto
    from Cons.IH [OF this(1), of "gomap_set m (wa_UID b) (refFor b)"] a'(2) show ?thesis
      by (auto simp: activeRefs_def refFor_def)
  next
    case False
    with Cons.prems have "a = b" by auto
    with activeRefs_old [OF False, of "gomap_set m (wa_UID b) (refFor b)"] show ?thesis
      by (auto simp: activeRefs_def map_of_gomap_set)
  qed
qed simp

lemma activePod_claims: "activePod (activeRefs as []) pod \<Longrightarrow> \<exists>a \<in> set as. claimsPod a pod"
  using activeRefs_some [of as "[]"] by (fastforce simp: activePod_def claimsPod_def split: option.splits)

lemma claims_activePod: "distinct (map wa_UID as) \<Longrightarrow> a \<in> set as \<Longrightarrow> claimsPod a pod \<Longrightarrow> activePod (activeRefs as []) pod"
  using activeRefs_new [of as a "[]"] by (auto simp: activePod_def claimsPod_def)

lemma claims_activeNode: "a \<in> set as \<Longrightarrow> claimsNode a node \<Longrightarrow> activeNode (activeRefs as []) node"
  using activeRefs_node [of a as "[]"] by (auto simp: activeNode_def claimsNode_def)

subsection \<open>The pass\<close>

lemma safe_collectRest:
  assumes "listedItems h items" "allNamed C items" "(PListPods projectionSelector, PPodsR (Inr pods)) \<in> set h"
    and st: "\<forall>pod \<in> set pods. settled (activeRefs (activeOf C items) []) h (snd acc) pod"
  shows "safe (projectionGuard C) (\<lambda>h' _. laterThan h h') (collectRest (activeRefs (activeOf C items) []) acc) h"
proof -
  let ?m = "activeRefs (activeOf C items) []"
  have "orphanNode C h' node" if "laterThan (h @ [(PListNodes projectionSelector, PNodesR (Inr nodes))]) h'" "node \<in> set nodes"
      "\<not> activeNode ?m node" "nd_Name node \<notin> set (snd acc)" "nodeAnnotation node AnnotationContract = ContractValue"
      "pr_NodeName (nodeRef node) = nd_Name node" for h' nodes node
  proof -
    have "podGone h' pod \<or> (\<exists>a \<in> set (activeOf C items). claimsPod a pod)"
      if "pod \<in> set pods" "pr_NodeName (podRef pod) = nd_Name node" for pod
      using st that \<open>nd_Name node \<notin> set (snd acc)\<close> \<open>laterThan (h @ _) h'\<close> activePod_claims by (fastforce simp: settled_def)
    then show ?thesis
      unfolding orphanNode_def using assms that claims_activeNode [of _ "activeOf C items" node]
      by (intro exI [of _ items] exI [of _ pods] exI [of _ nodes]) auto
  qed
  then have "safe (projectionGuard C) (\<lambda>k _. laterThan h k) (bindP (collectNodes ?m (snd acc) nodes (fst acc)) (\<lambda>errs. Ret (joinErrors errs)))
        (h @ [(PListNodes projectionSelector, PNodesR (Inr nodes))])" for nodes
    by (intro safe_later [OF safe_then [OF safe_collectNodes]]) auto
  then show ?thesis by (auto simp: collectRest_def ask_defs safe_bindP guard_simps split: sum.split presp.splits)
qed

lemma safe_garbageCollect:
  assumes "listedItems h items" "allNamed C items"
  shows "safe (projectionGuard C) (\<lambda>h' _. laterThan h h') (garbageCollect (activeRefs (activeOf C items) [])) h"
proof -
  let ?m = "activeRefs (activeOf C items) []"
  have "safe (projectionGuard C) (\<lambda>k _. laterThan h k) (bindP (collectPods ?m pods ([], [])) (collectRest ?m))
      (h @ [(PListPods projectionSelector, PPodsR (Inr pods))])" for pods
    unfolding safe_bindP
  proof (rule safe_mono [OF safe_collectPods])
    show "orphanPod C h' pod" if "laterThan (h @ [(PListPods projectionSelector, PPodsR (Inr pods))]) h'" "pod \<in> set pods"
      "\<not> activePod ?m pod" "podAnnotation pod AnnotationContract = ContractValue" "pr_PodName (podRef pod) = pod_Name pod" for h' pod
      unfolding orphanPod_def using assms that claims_activePod [of "activeOf C items" _ pod]
      by (intro exI [of _ items] exI [of _ pods]) auto
    show "safe (projectionGuard C) (\<lambda>k _. laterThan h k) (collectRest ?m acc) h'"
      if p: "laterThan (h @ [(PListPods projectionSelector, PPodsR (Inr pods))]) h' \<and> set [] \<subseteq> set (snd acc) \<and> (\<forall>pod \<in> set pods. settled ?m h' (snd acc) pod)"
      for h' acc
    proof (rule safe_later [OF safe_collectRest])
      from p obtain t where h': "h' = h @ (PListPods projectionSelector, PPodsR (Inr pods)) # t" by auto
      show "listedItems h' items" "(PListPods projectionSelector, PPodsR (Inr pods)) \<in> set h'" "laterThan h h'"
        using assms(1) by (auto simp: h')
      show "allNamed C items" "\<forall>pod \<in> set pods. settled ?m h' (snd acc) pod" using assms(2) p by auto
    qed
  qed
  then show ?thesis
    by (auto simp: garbageCollect_def ask_defs safe_bindE safe_wrapE guard_simps split: sum.split presp.splits)
qed

lemma activeOf_Cons: "activeOf C (item # items) = (case assignmentOf C item of
     Inr a \<Rightarrow> if wa_UID a \<noteq> [] \<and> \<not> projectionComplete a then [a] else [] | Inl _ \<Rightarrow> []) @ activeOf C items"
  by (simp add: activeOf_def)

lemma activeOf_mem: "item \<in> set items \<Longrightarrow> assignmentOf C item = Inr a \<Longrightarrow> wa_UID a \<noteq> [] \<Longrightarrow> \<not> projectionComplete a \<Longrightarrow> a \<in> set (activeOf C items)"
  by (auto simp: activeOf_def intro!: bexI [of _ item])

definition passed :: "'u ProjectionController \<Rightarrow> 'u list \<Rightarrow> pass \<Rightarrow> pass \<Rightarrow> bool" where
  "passed C items p p' \<longleftrightarrow> pa_active p' = activeRefs (activeOf C items) (pa_active p) \<and> pa_collect p' = (pa_collect p \<and> allNamed C items)"

lemma safe_projectActive:
  assumes "listedItems h items" "a \<in> set (activeOf C items)"
  shows "safe (projectionGuard C) (\<lambda>h' p'. laterThan h h' \<and> pa_active p' = gomap_set (pa_active p) (wa_UID a) (refFor a) \<and> pa_collect p' = pa_collect p)
    (projectActive C a p) h"
proof -
  have project: "safe (projectionGuard C) (\<lambda>h' p'. laterThan h h' \<and> pa_active p' = gomap_set (pa_active p) (wa_UID a) (refFor a) \<and> pa_collect p' = pa_collect p)
     (bindP (project C workload host a (refFor a)) (\<lambda>x. Ret (case x of
        Inl e \<Rightarrow> failNamed ''project assignment '' a e (p\<lparr>pa_active := gomap_set (pa_active p) (wa_UID a) (refFor a)\<rparr>)
      | Inr _ \<Rightarrow> p\<lparr>pa_active := gomap_set (pa_active p) (wa_UID a) (refFor a)\<rparr>))) h'"
    if "laterThan h h'" "(PGetHost (wa_Namespace a) (or_Name (as_HostRef (wa_Spec a))), PObjectR (Inr object)) \<in> set h'"
     "FromUnstructured (pc_conv C) (toHost (pc_conv C)) object = Inr host" "ho_UID host = or_UID (as_HostRef (wa_Spec a))" for h' object host workload
    unfolding safe_bindP
    by (rule safe_mono [OF safe_project]) (use that assms in \<open>auto simp: failNamed_def failPass_def split: sum.split\<close>)
  show ?thesis
    unfolding projectActive_def Let_def safe_bindP [of _ _ "getWorkload _ _"]
  proof (rule safe_mono [OF harmless_extends [OF harmless_getWorkload]], assumption, goal_cases)
    case (1 h1 w)
    show ?case
    proof (cases w)
      case (Inr workload)
      show ?thesis
        unfolding Inr sum.case safe_bindP [of _ _ "getHost _ _"]
      proof (rule safe_mono [OF safe_getHost], assumption, goal_cases)
        case (1 h2 x)
        show ?case
        proof (cases x)
          case (Inr host)
          with 1 obtain object where o: "(PGetHost (wa_Namespace a) (or_Name (as_HostRef (wa_Spec a))), PObjectR (Inr object)) \<in> set h2"
            "FromUnstructured (pc_conv C) (toHost (pc_conv C)) object = Inr host" "ho_UID host = or_UID (as_HostRef (wa_Spec a))" by blast
          have "laterThan h h2" using 1 \<open>laterThan h h1\<close> by auto
          from project [OF this o] show ?thesis by (simp add: Inr)
        qed (use 1 \<open>laterThan h h1\<close> in \<open>auto simp: failNamed_def failPass_def\<close>)
      qed
    qed (use 1 in \<open>auto simp: failNamed_def failPass_def\<close>)
  qed
qed

lemma passed_fields:
  "pa_active (failPass e p) = pa_active p" "pa_collect (failPass e p) = pa_collect p"
  "pa_active (failNamed t a e p) = pa_active p" "pa_collect (failNamed t a e p) = pa_collect p"
  by (simp_all add: failPass_def failNamed_def)

lemma safe_projectItem:
  assumes "listedItems h items" "item \<in> set items"
  shows "safe (projectionGuard C) (\<lambda>h' p'. laterThan h h' \<and> passed C [item] p p') (projectItem C item p) h"
proof (cases "assignmentOf C item")
  case (Inl e)
  then show ?thesis
    by (simp add: projectItem_def assignmentOf_def [symmetric] passed_def activeOf_Cons allNamed_def activeRefs_def failPass_def) (simp add: activeOf_def)
next
  case (Inr a)
  have eq: "projectItem C item p = (if wa_UID a = []
         then Ret ((failPass (ErrorString (''assignment '' @ assignmentText a @ '' has no UID'')) p)\<lparr>pa_collect := False\<rparr>)
         else if projectionComplete a
         then bindP (deleteProjection (refFor a)) (\<lambda>x. Ret (case x of
                Inl e \<Rightarrow> failNamed ''delete stopped projection for '' a e p | Inr _ \<Rightarrow> p))
         else projectActive C a p)"
    using Inr unfolding projectItem_def assignmentOf_def by (simp only: sum.case)
  consider (nameless) "wa_UID a = []" | (complete) "wa_UID a \<noteq> []" "projectionComplete a" | (live) "wa_UID a \<noteq> []" "\<not> projectionComplete a"
    by blast
  then show ?thesis
  proof cases
    case nameless
    then show ?thesis
      using Inr by (simp add: eq passed_def activeOf_Cons allNamed_def activeRefs_def passed_fields) (simp add: activeOf_def)
  next
    case complete
    have "stoppedRef C h (refFor a)" unfolding stoppedRef_def using assms Inr complete by blast
    note del = safe_deleteProjection [OF this]
    show ?thesis
      unfolding eq using complete Inr
      by (auto simp: safe_bindP passed_def activeOf_Cons allNamed_def activeRefs_def passed_fields activeOf_def intro!: safe_mono [OF del] split: sum.split)
  next
    case live
    have "a \<in> set (activeOf C items)" by (rule activeOf_mem [OF assms(2) Inr]) (use live in auto)
    from safe_projectActive [OF assms(1) this, of p] live Inr show ?thesis
      unfolding eq by (auto simp: passed_def activeOf_def allNamed_def activeRefs_def elim!: safe_mono)
  qed
qed

lemma passed_trans: "passed C xs p q \<Longrightarrow> passed C ys q r \<Longrightarrow> passed C (xs @ ys) p r"
  by (auto simp: passed_def activeOf_def allNamed_def activeRefs_def)

lemma safe_items:
  assumes "listedItems h items" "set xs \<subseteq> set items"
  shows "safe (projectionGuard C) (\<lambda>h' p'. laterThan h h' \<and> passed C xs p p') (foldP (projectItem C) xs p) h"
  using assms
proof (induction xs arbitrary: h p)
  case Nil
  then show ?case by (simp add: passed_def activeOf_def allNamed_def activeRefs_def)
next
  case (Cons x xs)
  have x: "x \<in> set items" using Cons.prems by auto
  show ?case
    unfolding foldP.simps safe_bindP
  proof (rule safe_mono [OF safe_projectItem [OF Cons.prems(1) x]])
    fix h' p' assume 1: "laterThan h h' \<and> passed C [x] p p'"
    then have "listedItems h' items" using Cons.prems(1) by auto
    from Cons.IH [OF this, of p'] Cons.prems(2)
    have "safe (projectionGuard C) (\<lambda>h'' p''. laterThan h' h'' \<and> passed C xs p' p'') (foldP (projectItem C) xs p') h'" by auto
    then show "safe (projectionGuard C) (\<lambda>h'' p''. laterThan h h'' \<and> passed C (x # xs) p p'') (foldP (projectItem C) xs p') h'"
      by (rule safe_mono) (use 1 passed_trans [of C "[x]" p p' xs] in auto)
  qed
qed

lemma safe_ProjectOnce: "safe (projectionGuard C) (\<lambda>_ _. True) (ProjectOnce C) []"
proof -
  have pass: "safe (projectionGuard C) (\<lambda>_ _. True) (bindP (foldP (projectItem C) items \<lparr>pa_active = [], pa_errs = [], pa_collect = True\<rparr>) (\<lambda>p.
        if pa_collect p
        then bindP (garbageCollect (pa_active p)) (\<lambda>x. Ret (joinErrors (pa_errs p @ errorOf x)))
        else Ret (joinErrors (pa_errs p)))) [(PListAssignments, PListR (Inr items))]" for items
  proof -
    have l: "listedItems [(PListAssignments, PListR (Inr items))] items" by (simp add: listedItems_def)
    show ?thesis
      unfolding safe_bindP [of _ _ "foldP _ _ _"]
    proof (rule safe_mono [OF safe_items [OF l subset_refl]])
      fix h' p
      assume p: "laterThan [(PListAssignments, PListR (Inr items))] h' \<and> passed C items \<lparr>pa_active = [], pa_errs = [], pa_collect = True\<rparr> p"
      then have "listedItems h' items" by (auto simp: listedItems_def)
      have "pa_collect p \<Longrightarrow> safe (projectionGuard C) (\<lambda>_ _. True) (garbageCollect (pa_active p)) h'"
        using safe_garbageCollect [OF \<open>listedItems h' items\<close>, of C] p by (auto simp: passed_def intro: safe_mono)
      then show "safe (projectionGuard C) (\<lambda>_ _. True) (if pa_collect p
        then bindP (garbageCollect (pa_active p)) (\<lambda>x. Ret (joinErrors (pa_errs p @ errorOf x)))
        else Ret (joinErrors (pa_errs p))) h'"
        by (simp add: safe_bindP)
    qed
  qed
  then show ?thesis
    by (auto simp: ProjectOnce_def ask_defs safe_bindE safe_wrapE guard_simps split: sum.split presp.splits)
qed

subsection \<open>What a report says\<close>

lemma stateFor_running:
  "pj_ready (stateFor a t) \<longleftrightarrow> runningNow a t" "pj_nodeStatus (stateFor a t) = ConditionTrue \<longleftrightarrow> runningNow a t"
  "pj_podPhase (stateFor a t) = PodRunning \<longleftrightarrow> runningNow a t"
  by (auto simp: stateFor_def Let_def pstate_def runningNow_def)

lemma stateFor_terminal:
  "pj_podPhase (stateFor a t) = PodSucceeded \<longleftrightarrow> as_DesiredState (wa_Spec a) \<noteq> AssignmentDesiredStopped \<and> ast_Phase (wa_Status a) = PhaseSucceeded"
  "pj_podPhase (stateFor a t) = PodFailed \<longleftrightarrow> as_DesiredState (wa_Spec a) \<noteq> AssignmentDesiredStopped \<and> ast_Phase (wa_Status a) = PhaseFailed \<and> \<not> servesModel a"
  by (auto simp: stateFor_def Let_def pstate_def)

definition readyPod :: "PodStatus \<Rightarrow> bool" where
  "readyPod status \<longleftrightarrow> list_ex cs_Ready (pst_ContainerStatuses status)
     \<or> list_ex (\<lambda>c. (pcn_Type c = ''Ready'' \<or> pcn_Type c = ''ContainersReady'') \<and> pcn_Status c = ConditionTrue) (pst_Conditions status)"

lemma podConditions_status:
  "map (\<lambda>c. (pcn_Type c, pcn_Status c)) (podConditions state now cs) =
     [(''PodScheduled'', ConditionTrue), (''Initialized'', ConditionTrue),
      (''ContainersReady'', if pj_ready state then ConditionTrue else ConditionFalse),
      (''Ready'', if pj_ready state then ConditionTrue else ConditionFalse)]"
  by (auto simp: podConditions_def Let_def split: option.split)

lemma readyPod_projected: "readyPod (projectedPodStatus a state img now current) \<longleftrightarrow> pj_ready state"
proof -
  have c: "cs_Ready (containerStatus a state phase img now current) = pj_ready state" for phase
    by (simp add: containerStatus_def Let_def)
  have e: "list_ex (\<lambda>c. P (pcn_Type c) (pcn_Status c)) cs = list_ex (\<lambda>(t, s). P t s) (map (\<lambda>c. (pcn_Type c, pcn_Status c)) cs)" for P cs
    by (induction cs) auto
  have "list_ex (\<lambda>c. (pcn_Type c = ''Ready'' \<or> pcn_Type c = ''ContainersReady'') \<and> pcn_Status c = ConditionTrue) (podConditions state now cs)
      = pj_ready state" for cs
    unfolding e [of "\<lambda>t s. (t = ''Ready'' \<or> t = ''ContainersReady'') \<and> s = ConditionTrue"] podConditions_status by simp
  then show ?thesis
    unfolding readyPod_def projectedPodStatus_def Let_def by (simp add: c)
qed

lemma projected_phase:
  "pst_Phase (projectedPodStatus a state img now current) = projectedPhase state current"
  by (simp add: projectedPodStatus_def Let_def)

lemma projected_container: "\<exists>c. pst_ContainerStatuses (projectedPodStatus a state img now current) = [c]
    \<and> cs_ContainerID c = ''idleloom://'' @ as_ExecutionID (wa_Spec a)"
  by (simp add: projectedPodStatus_def containerStatus_def Let_def)

text \<open>An assignment that the pass listed and that is still active, and one that runs at a clock of the pass.\<close>

definition listedActive :: "'u ProjectionController \<Rightarrow> (preq \<times> 'u presp) list \<Rightarrow> IdleloomWorkloadAssignment \<Rightarrow> bool" where
  "listedActive C h a \<longleftrightarrow> (\<exists>items. listedItems h items \<and> a \<in> set (activeOf C items))"

definition runningReport :: "(preq \<times> 'u presp) list \<Rightarrow> IdleloomWorkloadAssignment \<Rightarrow> bool" where
  "runningReport h a \<longleftrightarrow> (\<exists>t. saidTime h t \<and> runningNow a t)"

subsection \<open>Guarantees\<close>

text \<open>
  C16. Every deletion of the projection controller names the UID of a Pod or Node it read inside the
  projection contract. The object belongs to a listed assignment that has acknowledged its stop, or
  the pass read every listed assignment, each with its UID, and none of those still active claims
  the object; in the second case a Node goes only after the Pods of its name are gone.
\<close>

theorem projection_deletes:
  assumes "emits (ProjectOnce C) (h @ (q, r) # u)"
  shows "(\<forall>ns name uid. q = PDeletePod ns name uid \<longrightarrow> (\<exists>pod. name = pod_Name pod \<and> uid = pod_UID pod
        \<and> (stoppedPod C h ns pod \<or> ns = pod_Namespace pod \<and> orphanPod C h pod)))
    \<and> (\<forall>name uid. q = PDeleteNode name uid \<longrightarrow> (\<exists>node. name = nd_Name node \<and> uid = nd_UID node
        \<and> (stoppedNode C h node \<or> orphanNode C h node)))"
  using safe_emits [OF safe_ProjectOnce assms] by (auto simp: projectionGuard_def)

text \<open>
  C17. What \<open>kubectl\<close> shows is what the agent reported. Every status the controller writes belongs to one
  listed assignment that is still active: a Node names it by UID; a Pod is the one read, created or updated in
  this pass with the labels of this assignment, and its only container is named after the execution. A Node is Ready, and
  a Pod ready, only if the agent reported the phase Running with a heartbeat inside its lease at a clock of the pass; an address is
  published only when the assigned host was connected. A Pod in a terminal phase is never patched; it becomes Succeeded only
  if the agent reported Succeeded and Failed only if it reported Failed for an execution that is not a server, never while it is being stopped; a
  Running Pod is not moved back to Pending.
\<close>

theorem projection_truthful:
  assumes "emits (ProjectOnce C) (h @ (q, r) # u)"
  shows "(\<forall>node. q = PUpdateNodeStatus node \<longrightarrow> (\<exists>a c. listedActive C h a \<and> nsi_MachineID (nst_NodeInfo (nd_Status node)) = wa_UID a
        \<and> nst_Conditions (nd_Status node) = [c] \<and> (ncn_Status c = ConditionTrue \<longrightarrow> runningReport h a)
        \<and> (\<forall>address. (''InternalIP'', address) \<in> set (nst_Addresses (nd_Status node)) \<longrightarrow> connectedAt C h a address)))
    \<and> (\<forall>ns name status. q = PPatchPodStatus ns name status \<longrightarrow> (\<exists>a pod current c. listedActive C h a \<and> podOf h a pod
        \<and> (PGetPod (pod_Namespace pod) (pod_Name pod), PPodR (Inr current)) \<in> set h \<and> pod_Namespace current = ns \<and> pod_Name current = name
        \<and> pst_ContainerStatuses status = [c] \<and> cs_ContainerID c = ''idleloom://'' @ as_ExecutionID (wa_Spec a)
        \<and> \<not> terminalPodPhase (pst_Phase (pod_Status current))
        \<and> (readyPod status \<longrightarrow> runningReport h a)
        \<and> (pst_Phase status = PodRunning \<longrightarrow> runningReport h a \<or> pst_Phase (pod_Status current) = PodRunning)
        \<and> (pst_Phase status = PodPending \<longrightarrow> pst_Phase (pod_Status current) \<noteq> PodRunning)
        \<and> (pst_Phase status = PodSucceeded \<longrightarrow> as_DesiredState (wa_Spec a) \<noteq> AssignmentDesiredStopped \<and> ast_Phase (wa_Status a) = PhaseSucceeded)
        \<and> (pst_Phase status = PodFailed \<longrightarrow> as_DesiredState (wa_Spec a) \<noteq> AssignmentDesiredStopped \<and> ast_Phase (wa_Status a) = PhaseFailed
             \<and> \<not> servesModel a)))"
proof (intro conjI allI impI)
  note guard = safe_emits [OF safe_ProjectOnce assms, unfolded append_Nil]
  have running: "runningReport h a" if "reporting C h a state" "pj_ready state \<or> pj_nodeStatus state = ConditionTrue \<or> pj_podPhase state = PodRunning"
    for a state
    using that unfolding reporting_def runningReport_def by (metis stateFor_running)
  have listed: "listedActive C h a" if "reporting C h a state" for a state
    using that unfolding reporting_def listedActive_def by blast
  {
    fix node assume "q = PUpdateNodeStatus node"
    with guard have "truthfulNode C h (nd_Status node)" by (simp add: projectionGuard_def)
    then show "\<exists>a c. listedActive C h a \<and> nsi_MachineID (nst_NodeInfo (nd_Status node)) = wa_UID a
        \<and> nst_Conditions (nd_Status node) = [c] \<and> (ncn_Status c = ConditionTrue \<longrightarrow> runningReport h a)
        \<and> (\<forall>address. (''InternalIP'', address) \<in> set (nst_Addresses (nd_Status node)) \<longrightarrow> connectedAt C h a address)"
      unfolding truthfulNode_def using running listed by fastforce
  next
    fix ns name status assume "q = PPatchPodStatus ns name status"
    with guard have "truthfulPod C h ns name status" by (simp add: projectionGuard_def)
    then obtain a state pod current now img where *: "reporting C h a state" "podOf h a pod"
      "(PGetPod (pod_Namespace pod) (pod_Name pod), PPodR (Inr current)) \<in> set h"
      "pod_Namespace current = ns" "pod_Name current = name" "\<not> terminalPodPhase (pst_Phase (pod_Status current))"
      and st: "status = projectedPodStatus a state img now (pod_Status current)"
      unfolding truthfulPod_def by blast
    obtain t where t: "state = stateFor a t" using *(1) unfolding reporting_def by blast
    obtain c where c: "pst_ContainerStatuses status = [c]" "cs_ContainerID c = ''idleloom://'' @ as_ExecutionID (wa_Spec a)"
      using projected_container [of a state img now "pod_Status current"] st by (elim exE conjE) (rule that, simp_all)
    have ph: "pst_Phase status = projectedPhase (stateFor a t) (pod_Status current)" by (simp add: st projected_phase t)
    show "\<exists>a pod current c. listedActive C h a \<and> podOf h a pod
        \<and> (PGetPod (pod_Namespace pod) (pod_Name pod), PPodR (Inr current)) \<in> set h \<and> pod_Namespace current = ns \<and> pod_Name current = name
        \<and> pst_ContainerStatuses status = [c] \<and> cs_ContainerID c = ''idleloom://'' @ as_ExecutionID (wa_Spec a)
        \<and> \<not> terminalPodPhase (pst_Phase (pod_Status current))
        \<and> (readyPod status \<longrightarrow> runningReport h a)
        \<and> (pst_Phase status = PodRunning \<longrightarrow> runningReport h a \<or> pst_Phase (pod_Status current) = PodRunning)
        \<and> (pst_Phase status = PodPending \<longrightarrow> pst_Phase (pod_Status current) \<noteq> PodRunning)
        \<and> (pst_Phase status = PodSucceeded \<longrightarrow> as_DesiredState (wa_Spec a) \<noteq> AssignmentDesiredStopped \<and> ast_Phase (wa_Status a) = PhaseSucceeded)
        \<and> (pst_Phase status = PodFailed \<longrightarrow> as_DesiredState (wa_Spec a) \<noteq> AssignmentDesiredStopped \<and> ast_Phase (wa_Status a) = PhaseFailed
             \<and> \<not> servesModel a)"
    proof (rule exI [of _ a], rule exI [of _ pod], rule exI [of _ current], rule exI [of _ c], intro conjI [OF listed [OF *(1)]] conjI *(2-) c)
      show "readyPod status \<longrightarrow> runningReport h a" using running [OF *(1)] by (simp add: st readyPod_projected)
      show "pst_Phase status = PodRunning \<longrightarrow> runningReport h a \<or> pst_Phase (pod_Status current) = PodRunning"
        using running [OF *(1)] by (auto simp: ph projectedPhase_def t split: if_splits)
      show "pst_Phase status = PodPending \<longrightarrow> pst_Phase (pod_Status current) \<noteq> PodRunning"
        by (auto simp: ph projectedPhase_def split: if_splits)
      show "pst_Phase status = PodSucceeded \<longrightarrow> as_DesiredState (wa_Spec a) \<noteq> AssignmentDesiredStopped \<and> ast_Phase (wa_Status a) = PhaseSucceeded"
        using stateFor_terminal(1) [of a t] by (auto simp: ph projectedPhase_def split: if_splits)
      show "pst_Phase status = PodFailed \<longrightarrow> as_DesiredState (wa_Spec a) \<noteq> AssignmentDesiredStopped \<and> ast_Phase (wa_Status a) = PhaseFailed
             \<and> \<not> servesModel a"
        using stateFor_terminal(2) [of a t] by (auto simp: ph projectedPhase_def split: if_splits)
    qed
  }
qed

subsection \<open>Concrete passes\<close>

definition exprojector :: "wire ProjectionController" where
  "exprojector = \<lparr>pc_lib = exlib, pc_conv = exconv, pc_clients = True, pc_retries = 4, pc_Default = (\<lambda>p. p),
     pc_equalSpec = (\<lambda>a b. a = b), pc_unmarshalable = (\<lambda>_. None)\<rparr>"

definition exshown :: IdleloomWorkloadAssignment where
  "exshown = \<lparr>wa_Type = \<lparr>tm_Kind = ''IdleloomWorkloadAssignment'', tm_APIVersion = APIVersionNative\<rparr>,
     wa_Meta = exmeta ''small'' AssignmentMailboxName ''A-1'',
     wa_Spec = \<lparr>as_DesiredState = ''Running'',
       as_WorkloadRef = \<lparr>wor_Namespace = ''team'', wor_Name = ''hello'', wor_UID = ''w-1'', wor_Generation = 1\<rparr>,
       as_HostRef = \<lparr>or_Name = ''host'', or_UID = ''h-small''\<rparr>, as_Model = None,
       as_Shell = Some \<lparr>rsh_Script = ''echo hi'', rsh_Isolation = ShellIsolationSandbox, rsh_Network = ShellNetworkNone,
         rsh_TimeoutSeconds = 60, rsh_UnifiedMemoryRequest = ''1024''\<rparr>,
       as_Training = None, as_Run = None, as_ExecutionID = ''e-1'', as_FencingEpoch = 7, as_LeaseDurationSeconds = 30\<rparr>,
     wa_Status = zero_AssignmentStatus\<lparr>ast_Phase := PhaseRunning, ast_LastHeartbeatTime := Some 1000\<rparr>\<rparr>"

definition expodOf :: "string \<Rightarrow> Pod" where
  "expodOf uid = (let p = managedPod exprojector exworkload exshown (refFor exshown) False in
     p\<lparr>pod_Meta := (pod_Meta p)\<lparr>om_UID := uid\<rparr>\<rparr>)"

definition exnode :: Node where
  "exnode = managedNode exshown ''idleloom-a1'' False"

text \<open>Answers up to the status of the Node of a running execution, and up to the deletion of a Pod that no assignment claims.\<close>

definition exprojecting :: "wire presp list" where
  "exprojecting = [PListR (Inr [WireAssignment exshown]), PObjectR (Inr (WireWorkload exworkload)), PObjectR (Inr (WireHost (exhost ''small'' ''2048''))),
     PTimeR 2000, PPodR (Inl (StatusError NotFound)), PPodR (Inr (expodOf ''p-1'')), PNodeR (Inl (StatusError NotFound)), PNodeR (Inr exnode),
     PTimeR 2001, PNodeR (Inr exnode), PTimeR 2002]"

definition exorphaned :: "wire presp list" where
  "exorphaned = [PListR (Inr []), PPodsR (Inr [expodOf ''p-1''])]"

lemma exprojecting_asks:
  "\<exists>n. asks (ProjectOnce exprojector) exprojecting = Some (PUpdateNodeStatus n) \<and> nsi_MachineID (nst_NodeInfo (nd_Status n)) = ''A-1''
     \<and> map ncn_Status (nst_Conditions (nd_Status n)) = [ConditionTrue]"
proof -
  have "case asks (ProjectOnce exprojector) exprojecting of
      Some (PUpdateNodeStatus n) \<Rightarrow> nsi_MachineID (nst_NodeInfo (nd_Status n)) = ''A-1'' \<and> map ncn_Status (nst_Conditions (nd_Status n)) = [ConditionTrue]
    | _ \<Rightarrow> False"
    by code_simp
  then show ?thesis by (auto split: option.splits preq.splits)
qed

lemma exorphaned_asks: "asks (ProjectOnce exprojector) exorphaned = Some (PDeletePod ''team'' ''idleloom-a1'' ''p-1'')"
  by code_simp

theorem projection_deletes_witness:
  "\<exists>pod. pod_Name pod = ''idleloom-a1'' \<and> pod_UID pod = ''p-1''
     \<and> (stoppedPod exprojector (feed (ProjectOnce exprojector) exorphaned) ''team'' pod
        \<or> pod_Namespace pod = ''team'' \<and> orphanPod exprojector (feed (ProjectOnce exprojector) exorphaned) pod)"
  using conjunct1 [OF projection_deletes [OF emits_asks [OF exorphaned_asks]], rule_format, OF refl] by metis

theorem projection_truthful_witness:
  "\<exists>a. wa_UID a = ''A-1'' \<and> listedActive exprojector (feed (ProjectOnce exprojector) exprojecting) a
     \<and> runningReport (feed (ProjectOnce exprojector) exprojecting) a"
proof -
  obtain n where n: "asks (ProjectOnce exprojector) exprojecting = Some (PUpdateNodeStatus n)" "nsi_MachineID (nst_NodeInfo (nd_Status n)) = ''A-1''"
    "map ncn_Status (nst_Conditions (nd_Status n)) = [ConditionTrue]" using exprojecting_asks by (elim exE conjE) (rule that)
  obtain a c where "listedActive exprojector (feed (ProjectOnce exprojector) exprojecting) a" "nsi_MachineID (nst_NodeInfo (nd_Status n)) = wa_UID a" "nst_Conditions (nd_Status n) = [c]"
    "ncn_Status c = ConditionTrue \<longrightarrow> runningReport (feed (ProjectOnce exprojector) exprojecting) a"
    using conjunct1 [OF projection_truthful [OF emits_asks [OF n(1)]], rule_format, OF refl] by (elim exE conjE) (rule that)
  with n(2,3) show ?thesis by (intro exI [of _ a]) simp
qed

end
