(* ===== verification/Prepared_Claims.thy ===== *)
theory Prepared_Claims
  imports Execution
begin

section \<open>The prepared claims of the DRA driver\<close>

text \<open>
  \<open>internal/state/store.go\<close>: the file in which the DRA node driver records which ResourceClaim
  each device is prepared for. Every operation is a program over the file-system calls of the
  execution journal, under the same model of crashes; \<open>encoding/json\<close> is the parameter \<open>J\<close>. The
  mutex makes each operation one step.

  Shown: no device is ever recorded for two claims, in memory or in anything a crash can leave;
  a reservation that was made durable keeps every other claim off its device until the claim is
  released, over failing calls, crashes and restarts.
\<close>

subsection \<open>State\<close>

abbreviation "ErrDeviceBusy \<equiv> Sentinel ''device is prepared for another ResourceClaim''"

record PreparedClaim =
  pcl_UID :: string
  pcl_Namespace :: string
  pcl_Name :: string
  pcl_Pool :: string
  pcl_Device :: string

type_synonym preparedMap = "PreparedClaim gomap"

record ClaimStore =
  dst_path :: string
  dst_Prepared :: preparedMap

text \<open>
  \<open>json.MarshalIndent\<close> and \<open>json.Unmarshal\<close> of \<open>diskState\<close>; \<open>None\<close> is the nil map that the text
  \<open>null\<close> gives.
\<close>

record claimsjson =
  ClaimsIndent :: "preparedMap \<Rightarrow> string res"
  ClaimsUnmarshal :: "string \<Rightarrow> preparedMap option res"

definition gomap_delete :: "'v gomap \<Rightarrow> string \<Rightarrow> 'v gomap" where
  "gomap_delete m k = filter (\<lambda>(k', _). k' \<noteq> k) m"

lemma map_of_gomap_delete: "map_of (gomap_delete m k) = (map_of m)(k := None)"
  by (induction m) (auto simp: gomap_delete_def)

lemma gomap_ok_delete: "gomap_ok m \<Longrightarrow> gomap_ok (gomap_delete m k)"
  by (induction m) (auto simp: gomap_delete_def gomap_ok_def)

subsection \<open>Operations\<close>

definition persistLocked :: "claimsjson \<Rightarrow> ClaimStore \<Rightarrow> unit res fsys" where
  "persistLocked J s =
     bindE (wrapE ''create state directory: '' (fsCall (MkdirAllDir (dst_path s)))) (\<lambda>_.
     bindE (wrapE ''encode state: '' (liftE (ClaimsIndent J (dst_Prepared s)))) (\<lambda>data.
     bindE (wrapE ''create temporary state: '' (fsCall (CreateTemp (dst_path s)))) (\<lambda>_.
     deferP (fsCall RemoveTemp)
       (orClose (fsCall ChmodTemp) ''chmod temporary state: '' (fsCall CloseTemp) (\<lambda>_.
        orClose (fsCall (WriteTemp data)) ''write temporary state: '' (fsCall CloseTemp) (\<lambda>_.
        orClose (fsCall SyncTemp) ''sync temporary state: '' (fsCall CloseTemp) (\<lambda>_.
        bindE (wrapE ''close temporary state: '' (fsCall CloseTemp)) (\<lambda>_.
        bindE (wrapE ''replace state: '' (fsCall (RenameTemp (dst_path s)))) (\<lambda>_.
        syncdir_Sync (filepath_Dir (dst_path s)))))))))))"

definition OpenClaims :: "claimsjson \<Rightarrow> string \<Rightarrow> ClaimStore res fsys" where
  "OpenClaims J path =
     bindP (bindE (fsCall (OpenState path)) (\<lambda>_. deferP (fsCall CloseState) (fsData ReadAll))) (\<lambda>x. case x of
       Inl e \<Rightarrow> if e = ErrNotExist then Ret (Inr \<lparr>dst_path = path, dst_Prepared = []\<rparr>)
                else Ret (Inl (WrapError ''read state: '' e []))
     | Inr data \<Rightarrow> Ret (case ClaimsUnmarshal J data of
         Inl e \<Rightarrow> Inl (WrapError ''decode state: '' e [])
       | Inr m \<Rightarrow> Inr \<lparr>dst_path = path, dst_Prepared = (case m of None \<Rightarrow> [] | Some m \<Rightarrow> m)\<rparr>))"

definition sameDevice :: "PreparedClaim \<Rightarrow> PreparedClaim \<Rightarrow> bool" where
  "sameDevice a b \<longleftrightarrow> pcl_Pool a = pcl_Pool b \<and> pcl_Device a = pcl_Device b"

text \<open>The loop over the map stops at any entry of the device; which one is named depends on the order of the map.\<close>

definition ReserveClaim :: "claimsjson \<Rightarrow> ClaimStore \<Rightarrow> PreparedClaim \<Rightarrow> (ClaimStore \<times> unit res) fsys" where
  "ReserveClaim J s claim =
     (case map_of (dst_Prepared s) (pcl_UID claim) of
        Some existing \<Rightarrow>
          if sameDevice existing claim then Ret (s, Inr ())
          else Ret (s, Inl (ErrorString (''claim '' @ pcl_UID claim @ '' is already prepared for '' @ pcl_Pool existing @ ''/'' @ pcl_Device existing)))
      | None \<Rightarrow>
         (case find (\<lambda>(_, existing). sameDevice existing claim) (dst_Prepared s) of
            Some (_, existing) \<Rightarrow>
              Ret (s, Inl (WrapError [] ErrDeviceBusy ('': '' @ pcl_Pool claim @ ''/'' @ pcl_Device claim @ '' is owned by claim '' @ pcl_UID existing)))
          | None \<Rightarrow>
              let s = s\<lparr>dst_Prepared := gomap_set (dst_Prepared s) (pcl_UID claim) claim\<rparr> in
              bindP (persistLocked J s) (\<lambda>x. Ret (case x of
                Inl e \<Rightarrow> (s\<lparr>dst_Prepared := gomap_delete (dst_Prepared s) (pcl_UID claim)\<rparr>, Inl e)
              | Inr _ \<Rightarrow> (s, Inr ())))))"

definition ReleaseClaim :: "claimsjson \<Rightarrow> ClaimStore \<Rightarrow> string \<Rightarrow> (ClaimStore \<times> unit res) fsys" where
  "ReleaseClaim J s uid =
     (case map_of (dst_Prepared s) uid of
        None \<Rightarrow> Ret (s, Inr ())
      | Some claim \<Rightarrow>
          let s = s\<lparr>dst_Prepared := gomap_delete (dst_Prepared s) uid\<rparr> in
          bindP (persistLocked J s) (\<lambda>x. Ret (case x of
            Inl e \<Rightarrow> (s\<lparr>dst_Prepared := gomap_set (dst_Prepared s) uid claim\<rparr>, Inl e)
          | Inr _ \<Rightarrow> (s, Inr ()))))"

subsection \<open>Maps\<close>

definition exclusive :: "preparedMap \<Rightarrow> bool" where
  "exclusive m \<longleftrightarrow> (\<forall>k c. map_of m k = Some c \<longrightarrow> pcl_UID c = k)
     \<and> (\<forall>k c k' c'. map_of m k = Some c \<longrightarrow> map_of m k' = Some c' \<longrightarrow> sameDevice c c' \<longrightarrow> k = k')"

definition ValidClaims :: "preparedMap \<Rightarrow> bool" where
  "ValidClaims m \<longleftrightarrow> (\<forall>k c. map_of m k = Some c \<longrightarrow>
     list_all ValidString [k, pcl_UID c, pcl_Namespace c, pcl_Name c, pcl_Pool c, pcl_Device c])"

text \<open>
  What the store relies on of \<open>encoding/json\<close>: a map whose strings are valid UTF-8 is read back with
  the same entries, in any order.
\<close>

definition claims_law :: "claimsjson \<Rightarrow> bool" where
  "claims_law J \<longleftrightarrow> (\<forall>m d. ValidClaims m \<longrightarrow> ClaimsIndent J m = Inr d \<longrightarrow>
     (\<exists>m'. ClaimsUnmarshal J d = Inr (Some m') \<and> map_of m' = map_of m))"

lemma exclusive_same: "map_of m = map_of m' \<Longrightarrow> exclusive m \<longleftrightarrow> exclusive m'"
  by (simp add: exclusive_def)

lemma ValidClaims_same: "map_of m = map_of m' \<Longrightarrow> ValidClaims m \<longleftrightarrow> ValidClaims m'"
  by (simp add: ValidClaims_def)

lemma exclusive_delete: "exclusive m \<Longrightarrow> exclusive (gomap_delete m k)"
  by (auto simp: exclusive_def map_of_gomap_delete)

lemma ValidClaims_delete: "ValidClaims m \<Longrightarrow> ValidClaims (gomap_delete m k)"
  by (auto simp: ValidClaims_def map_of_gomap_delete)

lemma find_None_device:
  "find (\<lambda>(_, e). sameDevice e c) m = None \<Longrightarrow> map_of m k = Some c' \<Longrightarrow> \<not> sameDevice c' c"
  by (auto simp: find_None_iff dest!: map_of_SomeD)

lemma exclusive_set:
  assumes "exclusive m" "find (\<lambda>(_, e). sameDevice e c) m = None"
  shows "exclusive (gomap_set m (pcl_UID c) c)"
proof -
  have "\<not> sameDevice c' c \<and> \<not> sameDevice c c'" if "map_of m k = Some c'" for k c'
    using find_None_device [OF assms(2) that] by (auto simp: sameDevice_def)
  then show ?thesis
    using assms(1) unfolding exclusive_def map_of_gomap_set by (auto split: if_splits)
qed

lemma ValidClaims_set: "ValidClaims m \<Longrightarrow> list_all ValidString [pcl_UID c, pcl_Namespace c, pcl_Name c, pcl_Pool c, pcl_Device c]
   \<Longrightarrow> ValidClaims (gomap_set m (pcl_UID c) c)"
  by (auto simp: ValidClaims_def map_of_gomap_set split: if_splits)

lemma delete_set_same: "map_of m k = None \<Longrightarrow> map_of (gomap_delete (gomap_set m k c) k) = map_of m"
  by (auto simp: map_of_gomap_delete map_of_gomap_set)

lemma set_delete_same: "map_of m k = Some c \<Longrightarrow> map_of (gomap_set (gomap_delete m k) k c) = map_of m"
  by (auto simp: map_of_gomap_delete map_of_gomap_set)

subsection \<open>Persisting\<close>

lemma syncdir_tracks:
  assumes "within C s"
  shows "tracks (within C) (\<lambda>s' x. fs_file s' = fs_file s \<and> (x = Inr () \<longrightarrow> fs_survivors s' = [fs_file s])) (syncdir_Sync p) s"
  using assms by (auto simp: syncdir_Sync_def track_rules joinAfter_def within_def)

lemma persistLocked_tracks:
  assumes "within C d" and "\<And>e. ClaimsIndent J (dst_Prepared s) = Inr e \<Longrightarrow> Some e \<in> C"
  shows "tracks (within C) (\<lambda>d' x. x = Inr () \<longrightarrow> (\<exists>e. ClaimsIndent J (dst_Prepared s) = Inr e \<and> fs_file d' = Some e \<and> fs_survivors d' = [Some e]))
     (persistLocked J s) d"
proof (cases "ClaimsIndent J (dst_Prepared s)")
  case (Inl x)
  then show ?thesis using assms by (simp add: persistLocked_def track_rules liftE_def)
next
  case (Inr e)
  let ?Q = "\<lambda>d' x. x = Inr () \<longrightarrow> fs_file d' = Some e \<and> fs_survivors d' = [Some e]"
  have ren: "tracks (within C) ?Q (bindE (wrapE pre (fsCall (RenameTemp p))) (\<lambda>_. syncdir_Sync q)) (d\<lparr>fs_temp := Some e, fs_flushed := True\<rparr>)" for pre p q
  proof -
    let ?d = "d\<lparr>fs_temp := Some e, fs_flushed := True\<rparr>"
    have w: "within C (fs_step (RenameTemp p, r) ?d)" for r
      using assms Inr by (auto simp: within_def)
    have "tracks (within C) ?Q (syncdir_Sync q) (fs_step (RenameTemp p, r) ?d)" if "answered r" for r
      by (rule track_mono, rule syncdir_tracks [OF w]) (use that in auto)
    with w show ?thesis using assms(1) by (simp add: track_rules)
  qed
  have body: "tracks (within C) ?Q
       (orClose (fsCall ChmodTemp) a (fsCall CloseTemp) (\<lambda>_. orClose (fsCall (WriteTemp e)) b (fsCall CloseTemp) (\<lambda>_.
        orClose (fsCall SyncTemp) c (fsCall CloseTemp) (\<lambda>_. bindE (wrapE f (fsCall CloseTemp)) (\<lambda>_.
        bindE (wrapE g (fsCall (RenameTemp p))) (\<lambda>_. syncdir_Sync q)))))) (d\<lparr>fs_temp := t, fs_flushed := False\<rparr>)" for a b c f g p q t
    by (auto simp: track_orClose track_fsCall track_bindE [of _ _ _ "wrapE x (fsCall CloseTemp)" for x] track_wrapE
       assms(1) within_write write_done ren intro!: track_joinAfter)
  show ?thesis
    using assms(1) Inr unfolding persistLocked_def
    by (auto simp: track_bindE track_wrapE track_fsCall liftE_def track_deferP intro!: track_mono [OF body])
qed

subsection \<open>Steps\<close>

text \<open>
  The operations as one type. A step is an operation that returns, whatever its calls answer, or a
  kill inside one followed by an \<open>OpenClaims\<close> on whatever survived. The identities that kubelet
  passes are valid UTF-8.
\<close>

datatype claim_op = Reserving PreparedClaim | Releasing string

fun claim_perform :: "claimsjson \<Rightarrow> ClaimStore \<Rightarrow> claim_op \<Rightarrow> (ClaimStore \<times> unit res) fsys" where
  "claim_perform J s (Reserving c) = ReserveClaim J s c"
| "claim_perform J s (Releasing uid) = ReleaseClaim J s uid"

fun claim_proper :: "claim_op \<Rightarrow> bool" where
  "claim_proper (Reserving c) = list_all ValidString [pcl_UID c, pcl_Namespace c, pcl_Name c, pcl_Pool c, pcl_Device c]"
| "claim_proper (Releasing uid) = True"

inductive claims_step :: "claimsjson \<Rightarrow> claim_op set \<Rightarrow> ClaimStore \<times> fs \<Rightarrow> ClaimStore \<times> fs \<Rightarrow> bool" for J ops where
  operate: "op \<in> ops \<Longrightarrow> claim_proper op \<Longrightarrow> runs (claim_perform J s op) t (s', x) \<Longrightarrow> claims_step J ops (s, d) (s', fold fs_step t d)"
| restart: "op \<in> ops \<Longrightarrow> claim_proper op \<Longrightarrow> emits (claim_perform J s op) t \<Longrightarrow> fs_torn (fold fs_step t d) \<or> c \<in> set (fs_survivors (fold fs_step t d))
    \<Longrightarrow> runs (OpenClaims J path) u (Inr s') \<Longrightarrow> list_all (honest (crashed c)) u \<Longrightarrow> claims_step J ops (s, d) (s', crashed c)"

text \<open>
  A property of the recorded maps that the allowed operations keep is an invariant of the store and of
  everything that can survive a crash. \<open>fresh\<close> says whether it holds of an empty store, so that the
  file may be missing.
\<close>

locale map_invariant =
  fixes P :: "preparedMap \<Rightarrow> bool" and ops :: "claim_op set"
  assumes same: "map_of m = map_of m' \<Longrightarrow> P m \<Longrightarrow> P m'"
    and valid: "P m \<Longrightarrow> ValidClaims m"
    and added: "P m \<Longrightarrow> Reserving c \<in> ops \<Longrightarrow> claim_proper (Reserving c) \<Longrightarrow> map_of m (pcl_UID c) = None
       \<Longrightarrow> find (\<lambda>(_, e). sameDevice e c) m = None \<Longrightarrow> P (gomap_set m (pcl_UID c) c)"
    and removed: "P m \<Longrightarrow> Releasing uid \<in> ops \<Longrightarrow> P (gomap_delete m uid)"
begin

definition mapTexts :: "claimsjson \<Rightarrow> string option set" where
  "mapTexts J = {Some e | e m. ClaimsIndent J m = Inr e \<and> P m} \<union> (if P [] then {None} else {})"

definition ledgered :: "claimsjson \<Rightarrow> ClaimStore \<times> fs \<Rightarrow> bool" where
  "ledgered J sd \<longleftrightarrow> P (dst_Prepared (fst sd)) \<and> within (mapTexts J) (snd sd)"

lemma persist_ledgered:
  assumes "P (dst_Prepared s)" "within (mapTexts J) d"
  shows "tracks (within (mapTexts J)) (\<lambda>d' x. True) (persistLocked J s) d"
  by (rule track_mono [OF persistLocked_tracks [OF assms(2)]]) (use assms(1) in \<open>auto simp: mapTexts_def\<close>)

lemma perform_ledgered:
  assumes "P (dst_Prepared s)" "within (mapTexts J) d" "op \<in> ops" "claim_proper op"
  shows "tracks (within (mapTexts J)) (\<lambda>d' (s', x). P (dst_Prepared s')) (claim_perform J s op) d"
proof (cases op)
  case (Reserving c)
  let ?s = "s\<lparr>dst_Prepared := gomap_set (dst_Prepared s) (pcl_UID c) c\<rparr>"
  have "tracks (within (mapTexts J)) (\<lambda>d' x. True) (persistLocked J ?s) d"
    and "P (dst_Prepared ?s)" and "P (gomap_delete (dst_Prepared ?s) (pcl_UID c))"
    if "map_of (dst_Prepared s) (pcl_UID c) = None" "find (\<lambda>(_, e). sameDevice e c) (dst_Prepared s) = None"
  proof -
    show P: "P (dst_Prepared ?s)" using added assms(1,3,4) that Reserving by auto
    show "tracks (within (mapTexts J)) (\<lambda>d' x. True) (persistLocked J ?s) d" by (rule persist_ledgered [OF P assms(2)])
    show "P (gomap_delete (dst_Prepared ?s) (pcl_UID c))"
      using same [OF delete_set_same [OF that(1), symmetric] assms(1)] by simp
  qed
  then show ?thesis
    using assms(1,2) Reserving
    by (auto simp: ReserveClaim_def track_bindP Let_def split: option.split sum.split elim!: track_mono)
next
  case (Releasing uid)
  let ?s = "s\<lparr>dst_Prepared := gomap_delete (dst_Prepared s) uid\<rparr>"
  have P: "P (dst_Prepared ?s)" using removed assms(1,3) Releasing by auto
  have "P (gomap_set (dst_Prepared ?s) uid c)" if "map_of (dst_Prepared s) uid = Some c" for c
    using same [OF set_delete_same [OF that, symmetric] assms(1)] by simp
  then show ?thesis
    using persist_ledgered [OF P assms(2)] assms(1,2) P Releasing
    by (auto simp: ReleaseClaim_def track_bindP Let_def split: option.split sum.split elim!: track_mono)
qed

end

lemma OpenClaims_reads:
  assumes "runs (OpenClaims J path) u (Inr s)" "list_all (honest (crashed c)) u"
  shows "case c of None \<Rightarrow> dst_Prepared s = []
    | Some e \<Rightarrow> (\<exists>m. ClaimsUnmarshal J e = Inr m \<and> dst_Prepared s = (case m of None \<Rightarrow> [] | Some m \<Rightarrow> m))"
proof -
  let ?post = "\<lambda>h x. \<forall>s. x = Inr s \<longrightarrow> list_all (honest (crashed c)) h \<longrightarrow> (case c of None \<Rightarrow> dst_Prepared s = []
    | Some e \<Rightarrow> (\<exists>m. ClaimsUnmarshal J e = Inr m \<and> dst_Prepared s = (case m of None \<Rightarrow> [] | Some m \<Rightarrow> m)))"
  have "safe (\<lambda>h q. True) ?post (OpenClaims J path) []"
    unfolding OpenClaims_def deferP_def
    by (auto simp: safe_bindP safe_bindE fsCall_def fsData_def honest_def crashed_def failure_def
        split: fsresp.splits sum.splits option.splits)
  from safe_runs [OF this assms(1)] assms(2) show ?thesis by simp
qed

context map_invariant
begin

lemma step_ledgered:
  assumes "claims_step J ops sd sd'" "claims_law J" "ledgered J sd"
  shows "ledgered J sd'"
  using assms(1)
proof cases
  case (operate op s t s' x d)
  note tr = perform_ledgered [of s J d op]
  have "tracks (within (mapTexts J)) (\<lambda>d' (s', x). P (dst_Prepared s')) (claim_perform J s op) d"
    by (rule tr) (use operate assms(3) in \<open>auto simp: ledgered_def\<close>)
  from track_emits [OF this runs_emits [OF operate(5)]] track_runs [OF this operate(5)] show ?thesis
    by (simp add: ledgered_def operate(2))
next
  case (restart op s t d c path u s')
  have "tracks (within (mapTexts J)) (\<lambda>d' (s', x). P (dst_Prepared s')) (claim_perform J s op) d"
    by (rule perform_ledgered) (use restart assms(3) in \<open>auto simp: ledgered_def\<close>)
  from track_emits [OF this restart(5)] have w: "within (mapTexts J) (fold fs_step t d)" .
  then have c: "c \<in> mapTexts J" using restart(6) by (auto simp: within_def)
  note read = OpenClaims_reads [OF restart(7,8)]
  have "P (dst_Prepared s')"
  proof (cases c)
    case None
    with c read show ?thesis by (auto simp: mapTexts_def split: if_splits)
  next
    case (Some e)
    with c obtain m where m: "ClaimsIndent J m = Inr e" "P m" by (auto simp: mapTexts_def split: if_splits)
    with assms(2) valid obtain m' where m': "ClaimsUnmarshal J e = Inr (Some m')" "map_of m' = map_of m"
      unfolding claims_law_def by blast
    with read Some have "dst_Prepared s' = m'" by auto
    with same [OF m'(2) [symmetric] m(2)] show ?thesis by simp
  qed
  with c show ?thesis by (auto simp: ledgered_def restart(2) within_def crashed_def)
qed

lemma steps_ledgered:
  assumes "(claims_step J ops)\<^sup>*\<^sup>* sd sd'" "claims_law J" "ledgered J sd"
  shows "ledgered J sd'"
  using assms(1,3) by (induction rule: rtranclp_induct) (auto intro: step_ledgered assms(2))

end

subsection \<open>Exclusive devices\<close>

definition sound :: "preparedMap \<Rightarrow> bool" where
  "sound m \<longleftrightarrow> exclusive m \<and> ValidClaims m"

interpretation ledger: map_invariant sound UNIV
  unfolding sound_def
proof
  show "exclusive (gomap_set m (pcl_UID c) c) \<and> ValidClaims (gomap_set m (pcl_UID c) c)"
    if "exclusive m \<and> ValidClaims m" "claim_proper (Reserving c)" "find (\<lambda>(_, e). sameDevice e c) m = None" for m c
    using that by (auto intro: exclusive_set ValidClaims_set)
qed (auto simp: exclusive_delete ValidClaims_delete dest: exclusive_same ValidClaims_same)

definition promise :: "PreparedClaim \<Rightarrow> preparedMap \<Rightarrow> bool" where
  "promise c m \<longleftrightarrow> exclusive m \<and> ValidClaims m \<and> map_of m (pcl_UID c) = Some c"

interpretation holding: map_invariant "promise c" "{op. op \<noteq> Releasing (pcl_UID c)}" for c
proof
  show "promise c m'" if "map_of m = map_of m'" "promise c m" for m m'
    using that exclusive_same [OF that(1)] ValidClaims_same [OF that(1)] by (auto simp: promise_def)
  show "promise c (gomap_set m (pcl_UID b) b)"
    if "promise c m" "claim_proper (Reserving b)" "map_of m (pcl_UID b) = None" "find (\<lambda>(_, e). sameDevice e b) m = None" for m b
    using that by (auto simp: promise_def map_of_gomap_set intro: exclusive_set ValidClaims_set)
  show "promise c (gomap_delete m uid)" if "promise c m" "Releasing uid \<in> {op. op \<noteq> Releasing (pcl_UID c)}" for m uid
    using that by (auto simp: promise_def map_of_gomap_delete intro: exclusive_delete ValidClaims_delete)
qed (simp add: promise_def)

lemma fresh_ledgered: "ledger.ledgered J (\<lparr>dst_path = path, dst_Prepared = []\<rparr>, crashed None)"
proof -
  have "sound []" by (simp add: sound_def exclusive_def ValidClaims_def)
  then show ?thesis by (simp add: ledger.ledgered_def ledger.mapTexts_def within_def crashed_def)
qed

text \<open>
  C18. No device is prepared for two claims: in every state that operations with any outcome, crashes and
  restarts can lead to, two claims of the store name different devices, and so do those of every file a
  crash can leave.
\<close>

theorem devices_exclusive:
  assumes "claims_law J" and "(claims_step J UNIV)\<^sup>*\<^sup>* (\<lparr>dst_path = path, dst_Prepared = []\<rparr>, crashed None) (s, d)"
  shows "exclusive (dst_Prepared s) \<and> (\<forall>e. Some e \<in> set (fs_survivors d) \<longrightarrow> (\<exists>m. ClaimsUnmarshal J e = Inr (Some m) \<and> exclusive m))"
proof -
  have k: "ledger.ledgered J (s, d)" by (rule ledger.steps_ledgered [OF assms(2,1) fresh_ledgered])
  have "\<exists>m. ClaimsUnmarshal J e = Inr (Some m) \<and> exclusive m" if "Some e \<in> set (fs_survivors d)" for e
  proof -
    from that k obtain m where m: "ClaimsIndent J m = Inr e" "exclusive m" "ValidClaims m"
      by (auto simp: ledger.ledgered_def ledger.mapTexts_def within_def sound_def split: if_splits)
    with assms(1) obtain m' where "ClaimsUnmarshal J e = Inr (Some m')" "map_of m' = map_of m" unfolding claims_law_def by blast
    with m(2) show ?thesis using exclusive_same by blast
  qed
  with k show ?thesis by (auto simp: ledger.ledgered_def sound_def)
qed

lemma reserve_promises:
  assumes "ledger.ledgered J (s, d)" "claim_proper (Reserving c)" "map_of (dst_Prepared s) (pcl_UID c) = None"
    and run: "runs (ReserveClaim J s c) t (s1, Inr ())"
  shows "holding.ledgered c J (s1, fold fs_step t d)"
proof -
  let ?s = "s\<lparr>dst_Prepared := gomap_set (dst_Prepared s) (pcl_UID c) c\<rparr>"
  have s: "exclusive (dst_Prepared s)" "ValidClaims (dst_Prepared s)" and w: "within (ledger.mapTexts J) d"
    using assms(1) by (auto simp: ledger.ledgered_def sound_def)
  show ?thesis
  proof (cases "find (\<lambda>(_, e). sameDevice e c) (dst_Prepared s)")
    case (Some x)
    with run assms(3) show ?thesis by (cases x) (auto simp: ReserveClaim_def elim: runs.cases)
  next
    case None
    have P: "exclusive (dst_Prepared ?s)" "ValidClaims (dst_Prepared ?s)"
      using s None assms(2) by (auto intro: exclusive_set ValidClaims_set)
    have "tracks (within (ledger.mapTexts J)) (\<lambda>d' (s', x). x = Inr () \<longrightarrow> s' = ?s \<and>
        (\<exists>e. ClaimsIndent J (dst_Prepared ?s) = Inr e \<and> fs_file d' = Some e \<and> fs_survivors d' = [Some e])) (ReserveClaim J s c) d"
      unfolding ReserveClaim_def Let_def
      by (simp add: assms(3) None track_bindP) (rule track_mono [OF persistLocked_tracks [OF w]], use P in \<open>auto simp: ledger.mapTexts_def sound_def split: sum.split\<close>)
    from track_runs [OF this run] track_emits [OF this runs_emits [OF run]] P show ?thesis
      by (auto simp: holding.ledgered_def holding.mapTexts_def promise_def within_def map_of_gomap_set
          intro!: exI [of _ "gomap_set (dst_Prepared s) (pcl_UID c) c"])
  qed
qed

text \<open>
  C19. A reservation is kept: once \<open>Reserve\<close> has recorded a claim and returned nil, the claim stays in the
  store and no other claim gets its device, whatever other operations run, fail or are cut short by a
  crash, until \<open>Release\<close> is called for it.
\<close>

theorem reservation_kept:
  assumes "claims_law J" and "(claims_step J UNIV)\<^sup>*\<^sup>* (\<lparr>dst_path = path, dst_Prepared = []\<rparr>, crashed None) (s, d)"
    and "claim_proper (Reserving c)" and "map_of (dst_Prepared s) (pcl_UID c) = None" and "runs (ReserveClaim J s c) t (s1, Inr ())"
    and "(claims_step J {op. op \<noteq> Releasing (pcl_UID c)})\<^sup>*\<^sup>* (s1, fold fs_step t d) (s2, d2)"
    and "pcl_UID b \<noteq> pcl_UID c" and "sameDevice b c" and "runs (ReserveClaim J s2 b) u (s3, x)"
  shows "map_of (dst_Prepared s2) (pcl_UID c) = Some c \<and> x \<noteq> Inr ()"
proof -
  have "ledger.ledgered J (s, d)" by (rule ledger.steps_ledgered [OF assms(2,1) fresh_ledgered])
  from reserve_promises [OF this assms(3-5)] have "holding.ledgered c J (s1, fold fs_step t d)" .
  from holding.steps_ledgered [OF assms(6,1) this] have p: "promise c (dst_Prepared s2)" by (simp add: holding.ledgered_def)
  have dev: "\<not> sameDevice e b" if "map_of (dst_Prepared s2) (pcl_UID b) = Some e" for e
  proof
    assume "sameDevice e b"
    then have "sameDevice e c" using assms(8) by (auto simp: sameDevice_def)
    with p that have "pcl_UID b = pcl_UID c" unfolding promise_def exclusive_def by blast
    with assms(7) show False by simp
  qed
  have "find (\<lambda>(_, e). sameDevice e b) (dst_Prepared s2) \<noteq> None"
    using p assms(8) by (auto simp: promise_def find_None_iff sameDevice_def dest!: map_of_SomeD)
  with assms(9) dev have "x \<noteq> Inr ()"
    by (auto simp: ReserveClaim_def elim: runs.cases split: option.splits if_splits)
  with p show ?thesis by (simp add: promise_def)
qed

subsection \<open>Concrete stores\<close>

definition exdevclaim :: "string \<Rightarrow> PreparedClaim" where
  "exdevclaim uid = \<lparr>pcl_UID = uid, pcl_Namespace = ''ns'', pcl_Name = ''claim'', pcl_Pool = ''node'', pcl_Device = ''renderd128''\<rparr>"

text \<open>An encoder that knows two maps.\<close>

definition exclaimsjson :: claimsjson where
  "exclaimsjson = \<lparr>ClaimsIndent = (\<lambda>m. if m = [] then Inr ''{}'' else if m = [(''u'', exdevclaim ''u'')] then Inr ''{u}'' else Inl (ErrorString ''json'')),
     ClaimsUnmarshal = (\<lambda>d. if d = ''{}'' then Inr (Some []) else if d = ''{u}'' then Inr (Some [(''u'', exdevclaim ''u'')]) else Inl (ErrorString ''json''))\<rparr>"

lemma exclaims_law: "claims_law exclaimsjson"
  by (auto simp: claims_law_def exclaimsjson_def)

abbreviation "exempty \<equiv> \<lparr>dst_path = ''p'', dst_Prepared = []\<rparr>"
abbreviation "exheld \<equiv> \<lparr>dst_path = ''p'', dst_Prepared = [(''u'', exdevclaim ''u'')]\<rparr>"

lemma exreserved: "feed_result (ReserveClaim exclaimsjson exempty (exdevclaim ''u'')) (replicate 11 FDone) = Some (exheld, Inr ())"
  by code_simp

lemma exproper: "claim_proper (Reserving (exdevclaim ''u''))"
  by code_simp

lemma exbusy: "\<exists>e. feed_result (ReserveClaim exclaimsjson exheld (exdevclaim ''v'')) [] = Some (exheld, Inl e)"
  by (simp add: ReserveClaim_def exdevclaim_def sameDevice_def)

theorem devices_exclusive_witness:
  "exclusive (dst_Prepared exheld)"
proof -
  have "claims_step exclaimsjson UNIV (exempty, crashed None)
      (exheld, fold fs_step (feed (ReserveClaim exclaimsjson exempty (exdevclaim ''u'')) (replicate 11 FDone)) (crashed None))"
    by (rule claims_step.operate [where op = "Reserving (exdevclaim ''u'')"]) (use runs_feed [OF exreserved] exproper in auto)
  then show ?thesis using devices_exclusive [OF exclaims_law r_into_rtranclp] by blast
qed

theorem reservation_kept_witness:
  "\<exists>e. runs (ReserveClaim exclaimsjson exheld (exdevclaim ''v'')) [] (exheld, Inl e) \<and> Inl e \<noteq> Inr ()
     \<and> map_of (dst_Prepared exheld) ''u'' = Some (exdevclaim ''u'')"
proof -
  obtain e where "feed_result (ReserveClaim exclaimsjson exheld (exdevclaim ''v'')) [] = Some (exheld, Inl e)" using exbusy by blast
  from runs_feed [OF this] have r: "runs (ReserveClaim exclaimsjson exheld (exdevclaim ''v'')) [] (exheld, Inl e)"
    by (simp add: ReserveClaim_def exdevclaim_def sameDevice_def)
  have n: "map_of (dst_Prepared exempty) (pcl_UID (exdevclaim ''u'')) = None" by simp
  have o: "pcl_UID (exdevclaim ''v'') \<noteq> pcl_UID (exdevclaim ''u'')" "sameDevice (exdevclaim ''v'') (exdevclaim ''u'')"
    by (simp_all add: exdevclaim_def sameDevice_def)
  from reservation_kept [OF exclaims_law rtranclp.rtrancl_refl exproper n runs_feed [OF exreserved] rtranclp.rtrancl_refl o r] r
  show ?thesis by (auto simp: exdevclaim_def)
qed

text \<open>
  The promise is for a reservation that was written. When \<open>Release\<close> fails after its rename, the store takes
  the claim back into memory although the file no longer has it; a \<open>Reserve\<close> for the same claim then
  returns nil without writing, and a restart gives the device to another claim.
\<close>

definition exreleasing :: "fsresp list" where
  "exreleasing = replicate 8 FDone @ [FFailed (Sentinel ''input/output error''), FDone, FDone]"

lemma rollback_forgets:
  "let t = feed (ReleaseClaim exclaimsjson exheld ''u'') exreleasing in
     (\<exists>e. runs (ReleaseClaim exclaimsjson exheld ''u'') t (exheld, Inl e))
   \<and> runs (ReserveClaim exclaimsjson exheld (exdevclaim ''u'')) [] (exheld, Inr ())
   \<and> Some ''{}'' \<in> set (fs_survivors (fold fs_step t (crashed (Some ''{u}''))))"
proof -
  have "case feed_result (ReleaseClaim exclaimsjson exheld ''u'') exreleasing of Some (s, Inl e) \<Rightarrow> s = exheld | _ \<Rightarrow> False"
    by code_simp
  then obtain e where "feed_result (ReleaseClaim exclaimsjson exheld ''u'') exreleasing = Some (exheld, Inl e)"
    by (cases "feed_result (ReleaseClaim exclaimsjson exheld ''u'') exreleasing") (auto split: sum.split_asm)
  from runs_feed [OF this] have "\<exists>e. runs (ReleaseClaim exclaimsjson exheld ''u'') (feed (ReleaseClaim exclaimsjson exheld ''u'') exreleasing) (exheld, Inl e)" by blast
  moreover have "runs (ReserveClaim exclaimsjson exheld (exdevclaim ''u'')) [] (exheld, Inr ())"
    by (auto simp: ReserveClaim_def exdevclaim_def sameDevice_def intro: runs.intros)
  moreover have "Some ''{}'' \<in> set (fs_survivors (fold fs_step (feed (ReleaseClaim exclaimsjson exheld ''u'') exreleasing) (crashed (Some ''{u}''))))"
    by code_simp
  ultimately show ?thesis by (simp add: Let_def)
qed

end
