(* ===== verification/Dra_Driver.thy ===== *)
theory Dra_Driver
  imports Prepared_Claims API_Types Go_Path
begin

section \<open>The DRA node driver\<close>

text \<open>
  \<open>internal/driver/plugin.go\<close>, \<open>internal/driver/resources.go\<close>, \<open>internal/config/config.go\<close> and the
  reconcile loop of \<open>cmd/dra-node/main.go\<close>: the driver offers the one render device of a node and
  prepares the ResourceClaims that kubelet passes. Discovery, the CDI writer and the health probe are
  interfaces to the operating system; their results are arguments. The device is read under its own
  lock before the store is asked, so only \<open>Reserve\<close> and \<open>Release\<close> change shared state.
\<close>

subsection \<open>Data\<close>

record Device =
  dv_Name :: string
  dv_Path :: string
  dv_SysfsDriver :: string

record ProbeResult =
  pb_Healthy :: bool
  pb_Err :: "go_error option"

record DeviceRequestAllocationResult =
  dra_Request :: string
  dra_Driver :: string
  dra_Pool :: string
  dra_Device :: string

record ResourceClaim =
  rc_UID :: string
  rc_Namespace :: string
  rc_Name :: string
  rc_Allocation :: "DeviceRequestAllocationResult list option"

record KubeletDevice =
  kd_Requests :: "string list"
  kd_PoolName :: string
  kd_DeviceName :: string
  kd_CDIDeviceIDs :: "string list"

record Plugin =
  pl_driverName :: string
  pl_poolName :: string
  pl_device :: "Device option"
  pl_cdiID :: string
  pl_state :: ClaimStore

definition NewPlugin :: "string \<Rightarrow> string \<Rightarrow> Device option \<Rightarrow> string \<Rightarrow> ClaimStore \<Rightarrow> Plugin" where
  "NewPlugin driverName poolName device cdiID store =
     \<lparr>pl_driverName = driverName, pl_poolName = poolName, pl_device = device, pl_cdiID = cdiID, pl_state = store\<rparr>"

definition SetDevice :: "Plugin \<Rightarrow> Device option \<Rightarrow> string \<Rightarrow> Plugin" where
  "SetDevice p device cdiID = p\<lparr>pl_device := device, pl_cdiID := cdiID\<rparr>"

subsection \<open>Preparing\<close>

text \<open>The loop over the allocation results, with what was seen so far.\<close>

fun claimDevices :: "Plugin \<Rightarrow> Device \<Rightarrow> DeviceRequestAllocationResult list \<Rightarrow> KubeletDevice list \<Rightarrow> bool \<Rightarrow> KubeletDevice list res" where
  "claimDevices p device [] devices seen =
     (if \<not> seen then Inl (ErrorString (''claim has no allocation for driver '' @ pl_driverName p)) else Inr devices)"
| "claimDevices p device (a # rest) devices seen =
     (if dra_Driver a \<noteq> pl_driverName p then claimDevices p device rest devices seen
      else if dra_Pool a \<noteq> pl_poolName p \<or> dra_Device a \<noteq> dv_Name device
      then Inl (ErrorString (''claim allocation references unexpected device '' @ dra_Pool a @ ''/'' @ dra_Device a
             @ ''; expected '' @ pl_poolName p @ ''/'' @ dv_Name device))
      else if seen then Inl (ErrorString ''claim allocates the exclusive device more than once'')
      else claimDevices p device rest
             (devices @ [\<lparr>kd_Requests = [dra_Request a], kd_PoolName = dra_Pool a, kd_DeviceName = dra_Device a, kd_CDIDeviceIDs = [pl_cdiID p]\<rparr>]) True)"

definition prepare :: "claimsjson \<Rightarrow> Plugin \<Rightarrow> ResourceClaim \<Rightarrow> ProbeResult \<Rightarrow> (Plugin \<times> KubeletDevice list res) fsys" where
  "prepare J p claim probe =
     (case pl_device p of
        None \<Rightarrow> Ret (p, Inl (ErrorString ''no healthy Apple Vulkan device is discovered''))
      | Some device \<Rightarrow>
         (case rc_Allocation claim of
            None \<Rightarrow> Ret (p, Inl (ErrorString (''the ResourceClaim '' @ rc_Namespace claim @ ''/'' @ rc_Name claim @ '' has no allocation'')))
          | Some results \<Rightarrow>
             (case claimDevices p device results [] False of
                Inl e \<Rightarrow> Ret (p, Inl e)
              | Inr devices \<Rightarrow>
                  if \<not> pb_Healthy probe
                  then Ret (p, Inl (WrapError ''device health probe failed: '' (case pb_Err probe of Some e \<Rightarrow> e | None \<Rightarrow> Sentinel ''%!w(<nil>)'') []))
                  else bindP (ReserveClaim J (pl_state p) \<lparr>pcl_UID = rc_UID claim, pcl_Namespace = rc_Namespace claim, pcl_Name = rc_Name claim,
                         pcl_Pool = pl_poolName p, pcl_Device = dv_Name device\<rparr>) (\<lambda>(s, x). Ret (p\<lparr>pl_state := s\<rparr>, case x of
                       Inl e \<Rightarrow> Inl e
                     | Inr _ \<Rightarrow> Inr devices)))))"

text \<open>The loops over the claims, with a probe for each.\<close>

fun PrepareResourceClaims :: "claimsjson \<Rightarrow> Plugin \<Rightarrow> (ResourceClaim \<times> ProbeResult) list \<Rightarrow> KubeletDevice list res gomap
    \<Rightarrow> (Plugin \<times> KubeletDevice list res gomap) fsys" where
  "PrepareResourceClaims J p [] result = Ret (p, result)"
| "PrepareResourceClaims J p ((claim, probe) # claims) result =
     bindP (prepare J p claim probe) (\<lambda>(p, x). PrepareResourceClaims J p claims (gomap_set result (rc_UID claim) x))"

fun UnprepareResourceClaims :: "claimsjson \<Rightarrow> Plugin \<Rightarrow> string list \<Rightarrow> unit res gomap \<Rightarrow> (Plugin \<times> unit res gomap) fsys" where
  "UnprepareResourceClaims J p [] result = Ret (p, result)"
| "UnprepareResourceClaims J p (uid # uids) result =
     bindP (ReleaseClaim J (pl_state p) uid) (\<lambda>(s, x). UnprepareResourceClaims J (p\<lparr>pl_state := s\<rparr>) uids (gomap_set result uid x))"

subsection \<open>Publishing\<close>

datatype attribute = StringValue string | BoolValue bool

record ResourceDevice =
  rd_Name :: string
  rd_Attributes :: "attribute gomap"

definition qualifiedName :: "string \<Rightarrow> string \<Rightarrow> string" where
  "qualifiedName driverName name = driverName @ ''/'' @ name"

text \<open>The pools by name with the devices of their slices; \<open>arch\<close> is \<open>runtime.GOARCH\<close>.\<close>

definition DesiredResources :: "string \<Rightarrow> string \<Rightarrow> string \<Rightarrow> Device option \<Rightarrow> bool \<Rightarrow> ResourceDevice list list gomap" where
  "DesiredResources arch driverName nodeName device healthy =
     (let devices = (case device of
            Some d \<Rightarrow>
              if healthy
              then [\<lparr>rd_Name = dv_Name d, rd_Attributes =
                     [(qualifiedName driverName ''backend'', StringValue ''venus''), (qualifiedName driverName ''guestAPI'', StringValue ''vulkan''),
                      (qualifiedName driverName ''virtualization'', StringValue ''krunkit''), (qualifiedName driverName ''architecture'', StringValue arch),
                      (qualifiedName driverName ''drmDriver'', StringValue (dv_SysfsDriver d)), (qualifiedName driverName ''computeHealthy'', BoolValue True)]\<rparr>]
              else []
          | None \<Rightarrow> [])
      in [(nodeName, [devices])])"

definition reconcileDevice :: "Plugin \<Rightarrow> Device list res \<Rightarrow> (Device \<Rightarrow> string res) \<Rightarrow> (Device \<Rightarrow> ProbeResult) \<Rightarrow> Plugin \<times> Device option \<times> bool" where
  "reconcileDevice p discovered ensure probe =
     (case discovered of
        Inr [device] \<Rightarrow>
          (case ensure device of
             Inl _ \<Rightarrow> (SetDevice p None [], None, False)
           | Inr cdiID \<Rightarrow> (SetDevice p (Some device) cdiID, Some device, pb_Healthy (probe device)))
      | _ \<Rightarrow> (SetDevice p None [], None, False))"

subsection \<open>Configuration\<close>

abbreviation "DevelopmentDriverName \<equiv> ''gpu.apple-vulkan.example''"

record DraConfig =
  dc_DriverName :: string
  dc_NodeName :: string
  dc_PluginDir :: string
  dc_StateFile :: string
  dc_ProbeTimeout :: int64
  dc_HealthInterval :: int64
  dc_AllowDevelopment :: bool

definition Finalize :: "DraConfig \<Rightarrow> DraConfig" where
  "Finalize c =
     (let c = (if dc_PluginDir c = [] then c\<lparr>dc_PluginDir := filepath_Join [''/var/lib/kubelet/plugins'', dc_DriverName c]\<rparr> else c)
      in if dc_StateFile c = [] then c\<lparr>dc_StateFile := filepath_Join [dc_PluginDir c, ''prepared-claims.json'']\<rparr> else c)"

definition DraConfig_Validate :: "k8slib \<Rightarrow> DraConfig \<Rightarrow> unit res" where
  "DraConfig_Validate L c =
     joinErrors
       ((let problems = IsDNS1123Subdomain L (dc_DriverName c) in
         if problems \<noteq> [] then [ErrorString (''invalid driver name '' @ fmt_q (dc_DriverName c) @ '': '' @ Join problems '', '')] else [])
      @ (if dc_DriverName c = DevelopmentDriverName \<and> \<not> dc_AllowDevelopment c
         then [ErrorString (''driver name '' @ fmt_q (dc_DriverName c)
                @ '' is reserved for development; set --allow-development-driver or choose an owned domain'')] else [])
      @ (if dc_NodeName c = [] then [ErrorString ''node name is required'']
         else let problems = IsDNS1123Subdomain L (dc_NodeName c) in
           if problems \<noteq> [] then [ErrorString (''invalid node name '' @ fmt_q (dc_NodeName c) @ '': '' @ Join problems '', '')] else [])
      @ (if dc_ProbeTimeout c \<le> 0 then [ErrorString ''probe timeout must be positive''] else [])
      @ (if dc_HealthInterval c \<le> 0 then [ErrorString ''health interval must be positive''] else []))"

subsection \<open>What a prepared claim has\<close>

abbreviation "ownResults p results \<equiv> filter (\<lambda>a. dra_Driver a = pl_driverName p) results"

lemma claimDevices_Inr:
  "claimDevices p device results devices seen = Inr ds \<longleftrightarrow>
     (if seen then ownResults p results = [] \<and> ds = devices
      else \<exists>a. ownResults p results = [a] \<and> dra_Pool a = pl_poolName p \<and> dra_Device a = dv_Name device
         \<and> ds = devices @ [\<lparr>kd_Requests = [dra_Request a], kd_PoolName = dra_Pool a, kd_DeviceName = dra_Device a, kd_CDIDeviceIDs = [pl_cdiID p]\<rparr>])"
  by (induction p device results devices seen rule: claimDevices.induct) auto

definition claimOf :: "Plugin \<Rightarrow> ResourceClaim \<Rightarrow> Device \<Rightarrow> PreparedClaim" where
  "claimOf p claim device = \<lparr>pcl_UID = rc_UID claim, pcl_Namespace = rc_Namespace claim, pcl_Name = rc_Name claim,
     pcl_Pool = pl_poolName p, pcl_Device = dv_Name device\<rparr>"

lemma runs_ReserveClaim:
  assumes "runs (ReserveClaim J s c) t (s', x)"
  shows "x = Inr () \<Longrightarrow> \<exists>c'. map_of (dst_Prepared s') (pcl_UID c) = Some c' \<and> sameDevice c' c"
    and "x \<noteq> Inr () \<Longrightarrow> map_of (dst_Prepared s') = map_of (dst_Prepared s)"
proof -
  let ?post = "\<lambda>h (s', x). (x = Inr () \<longrightarrow> (\<exists>c'. map_of (dst_Prepared s') (pcl_UID c) = Some c' \<and> sameDevice c' c))
     \<and> (x \<noteq> Inr () \<longrightarrow> map_of (dst_Prepared s') = map_of (dst_Prepared s))"
  have "safe (\<lambda>_ _. True) ?post (ReserveClaim J s c) []"
    by (auto simp: ReserveClaim_def Let_def safe_bindP map_of_gomap_set delete_set_same sameDevice_def
        intro!: safe_mono [OF safe_any] split: option.split sum.split)
  from safe_runs [OF this assms] show
    "x = Inr () \<Longrightarrow> \<exists>c'. map_of (dst_Prepared s') (pcl_UID c) = Some c' \<and> sameDevice c' c"
    "x \<noteq> Inr () \<Longrightarrow> map_of (dst_Prepared s') = map_of (dst_Prepared s)" by auto
qed

text \<open>
  C20. A claim is prepared only with the device of the driver: when \<open>prepare\<close> succeeds, the claim has exactly
  one allocation of this driver, of its pool and its discovered device, the probe was healthy, the answer
  names that device with its CDI ID and the store records it for the claim. When it fails, the store
  holds what it held.
\<close>

theorem prepare_sound:
  assumes "runs (prepare J p claim probe) t (p', x)"
  shows "(\<forall>ds. x = Inr ds \<longrightarrow> (\<exists>device results a c. pl_device p = Some device \<and> rc_Allocation claim = Some results
        \<and> ownResults p results = [a] \<and> dra_Pool a = pl_poolName p \<and> dra_Device a = dv_Name device \<and> pb_Healthy probe
        \<and> ds = [\<lparr>kd_Requests = [dra_Request a], kd_PoolName = pl_poolName p, kd_DeviceName = dv_Name device, kd_CDIDeviceIDs = [pl_cdiID p]\<rparr>]
        \<and> map_of (dst_Prepared (pl_state p')) (rc_UID claim) = Some c \<and> sameDevice c (claimOf p claim device)))
    \<and> (\<forall>e. x = Inl e \<longrightarrow> map_of (dst_Prepared (pl_state p')) = map_of (dst_Prepared (pl_state p)))"
proof (cases "pl_device p")
  case None
  with assms show ?thesis by (auto simp: prepare_def elim: runs.cases)
next
  case (Some device)
  show ?thesis
  proof (cases "\<exists>results ds. rc_Allocation claim = Some results \<and> claimDevices p device results [] False = Inr ds \<and> pb_Healthy probe")
    case False
    with assms Some show ?thesis
      by (auto simp: prepare_def elim: runs.cases split: option.splits sum.splits if_splits)
  next
    case True
    then obtain results ds where r: "rc_Allocation claim = Some results" "claimDevices p device results [] False = Inr ds" "pb_Healthy probe"
      by blast
    then have "prepare J p claim probe = bindP (ReserveClaim J (pl_state p) (claimOf p claim device))
        (\<lambda>(s, x). Ret (p\<lparr>pl_state := s\<rparr>, case x of Inl e \<Rightarrow> Inl e | Inr _ \<Rightarrow> Inr ds))"
      by (simp add: prepare_def Some claimOf_def)
    with assms obtain s y where y: "runs (ReserveClaim J (pl_state p) (claimOf p claim device)) t (s, y)"
      "p' = p\<lparr>pl_state := s\<rparr>" "x = (case y of Inl e \<Rightarrow> Inl e | Inr _ \<Rightarrow> Inr ds)"
      by (auto simp: runs_bindP elim: runs.cases split: prod.splits)
    note rs = runs_ReserveClaim [OF y(1)]
    show ?thesis
      using rs r Some y(2,3) by (auto simp: claimDevices_Inr claimOf_def split: sum.splits)
  qed
qed

text \<open>What is published can be prepared: the device in the pool is the one the plugin prepares claims with.\<close>

lemma published_device:
  assumes "reconcileDevice p discovered ensure probe = (p', device, healthy)"
    and "map_of (DesiredResources arch driver node device healthy) node = Some [[r]]"
  shows "\<exists>d. discovered = Inr [d] \<and> pl_device p' = Some d \<and> rd_Name r = dv_Name d \<and> pb_Healthy (probe d)"
  using assms by (auto simp: reconcileDevice_def DesiredResources_def SetDevice_def Let_def split: sum.splits list.splits if_splits)

definition explugin :: Plugin where
  "explugin = NewPlugin ''gpu.example.org'' ''node'' (Some \<lparr>dv_Name = ''renderd128'', dv_Path = ''/dev/dri/renderD128'', dv_SysfsDriver = ''virtio_gpu''\<rparr>)
     ''gpu.example.org/render=renderd128'' exempty"

definition exresource :: ResourceClaim where
  "exresource = \<lparr>rc_UID = ''u'', rc_Namespace = ''ns'', rc_Name = ''claim'', rc_Allocation = Some
     [\<lparr>dra_Request = ''r0'', dra_Driver = ''other.example.org'', dra_Pool = ''x'', dra_Device = ''y''\<rparr>,
      \<lparr>dra_Request = ''r1'', dra_Driver = ''gpu.example.org'', dra_Pool = ''node'', dra_Device = ''renderd128''\<rparr>]\<rparr>"

definition exprepared :: KubeletDevice where
  "exprepared = \<lparr>kd_Requests = [''r1''], kd_PoolName = ''node'', kd_DeviceName = ''renderd128'', kd_CDIDeviceIDs = [''gpu.example.org/render=renderd128'']\<rparr>"

lemma exprepare: "feed_result (prepare exclaimsjson explugin exresource \<lparr>pb_Healthy = True, pb_Err = None\<rparr>) (replicate 11 FDone)
   = Some (explugin\<lparr>pl_state := exheld\<rparr>, Inr [exprepared])"
  by code_simp

theorem prepare_sound_witness:
  "\<exists>c. map_of (dst_Prepared (pl_state (explugin\<lparr>pl_state := exheld\<rparr>))) ''u'' = Some c \<and> pcl_Device c = ''renderd128''"
  using prepare_sound [OF runs_feed [OF exprepare]] by (auto simp: exresource_def explugin_def NewPlugin_def claimOf_def sameDevice_def)

end
