(* ===== verification/Recipe.thy ===== *)
theory Recipe
  imports Validation Execution Go_URL "HOL-Library.Log_Nat"
begin

section \<open>Recipes\<close>

text \<open>
  \<open>internal/recipe\<close>: versioned templates of runs. \<open>Load\<close> reads a registry from a file tree, \<open>normalize\<close>
  checks the values of a user against the schema of a recipe and fills in the defaults, \<open>Render\<close>
  executes the template and checks every object it rendered. The decoders of JSON and YAML, the
  template engine, the compiler of regular expressions and the codecs of Kubernetes are the parameter
  \<open>R\<close>; nothing is assumed of them. A map is an association list: where the code ranges over a map and
  returns the first error, the order of the list stands for the order of the map.
\<close>

subsection \<open>Values and schemas\<close>

text \<open>A JSON value; a default of \<open>null\<close> is decoded to no default.\<close>

datatype jvalue = JNull | JBool bool | JNumber string | JString string | JArray "jvalue list" | JObject "(string \<times> jvalue) list"

text \<open>A finite \<open>float64\<close> is the rational number it stands for. \<open>float64 (n)\<close> rounds an \<open>int64\<close> to 53 bits, ties to even.\<close>

definition float_of_int :: "int64 \<Rightarrow> rat" where
  "float_of_int n =
     (let a = \<bar>n\<bar> in
      if a < 2 ^ 53 then of_int n
      else let e = floorlog 2 (nat a) - 53; m = a div 2 ^ e; r = a mod 2 ^ e; half = 2 ^ (e - 1);
               m = (if half < r \<or> r = half \<and> odd m then m + 1 else m)
           in of_int (sgn n * (m * 2 ^ e)))"

record propertySchema =
  psc_Type :: string
  psc_Description :: string
  psc_Default :: "jvalue option"
  psc_Pattern :: string
  psc_Format :: string
  psc_Minimum :: "rat option"
  psc_ExclusiveMinimum :: "rat option"
  psc_Maximum :: "rat option"
  psc_MinLength :: "int option"
  psc_MaxLength :: "int option"

record parameterSchema =
  sch_Type :: string
  sch_AdditionalProperties :: "bool option"
  sch_Properties :: "propertySchema gomap"
  sch_Required :: "string list"

record Definition =
  df_Name :: string
  df_Version :: string
  df_Description :: string
  df_Task :: string
  df_Backend :: string
  df_Runtime :: string
  df_Manifest :: string
  df_ParametersSchema :: string
  df_Example :: string
  df_Prerequisites :: "string list"

record templateData =
  td_Name :: string
  td_Namespace :: string
  td_RecipeID :: string
  td_RecipeDigest :: string
  td_InputDigest :: string
  td_Values :: "jvalue gomap"

text \<open>What the checks read of a rendered object; \<open>NoMeta\<close> is an object that is no \<open>metav1.Object\<close>.\<close>

record Metadata =
  mo_Name :: string
  mo_Namespace :: string
  mo_Labels :: "string gomap"
  mo_Annotations :: "string gomap"

record PodTemplate =
  pt_Labels :: "string gomap"
  pt_Annotations :: "string gomap"
  pt_RestartPolicy :: string
  pt_Containers :: nat

datatype kobject =
    NoMeta
  | KClaim Metadata
  | KClaimTemplate Metadata "string gomap" "string gomap"
  | KWorkload IdleloomWorkload
  | KJob Metadata PodTemplate
  | KCronJob Metadata PodTemplate
  | KDeployment Metadata PodTemplate
  | KPod Metadata nat
  | KOther Metadata

datatype trailing = AtEnd | AnotherValue | TrailingError go_error

record recipelib =
  rl_k8s :: k8slib
  rl_DecodeSchema :: "string \<Rightarrow> (parameterSchema \<times> trailing) res"
  rl_DecodeDefinition :: "string \<Rightarrow> Definition res" \<comment> \<open>\<open>yaml.UnmarshalStrict\<close>\<close>
  rl_YAMLToJSON :: "string \<Rightarrow> string res"
  rl_DecodeValues :: "string \<Rightarrow> jvalue gomap option res" \<comment> \<open>\<open>None\<close> is the nil map\<close>
  rl_MarshalInput :: "string \<Rightarrow> string \<Rightarrow> string \<Rightarrow> jvalue gomap \<Rightarrow> string res"
  rl_Regexp :: "string \<Rightarrow> (string \<Rightarrow> bool) res" \<comment> \<open>\<open>Compile\<close> and \<open>MatchString\<close>\<close>
  rl_ParseFloat :: "string \<Rightarrow> rat option" \<comment> \<open>\<open>None\<close>: an error or not finite\<close>
  rl_FormatFloat :: "rat \<Rightarrow> string"
  rl_ParseQuantity :: "string \<Rightarrow> Quantity option"
  rl_Parse :: "string \<Rightarrow> string \<Rightarrow> go_error option" \<comment> \<open>the error of \<open>template.Parse\<close>\<close>
  rl_Execute :: "(jvalue \<Rightarrow> string res) \<Rightarrow> (jvalue \<Rightarrow> string res) \<Rightarrow> string \<Rightarrow> string \<Rightarrow> templateData \<Rightarrow> string res"
    \<comment> \<open>with the functions \<open>integer\<close> and \<open>quote\<close>, the name and the text of the template\<close>
  rl_Sprint :: "jvalue \<Rightarrow> string"
  rl_MarshalString :: "string \<Rightarrow> string res"
  rl_Documents :: "string \<Rightarrow> string list \<times> go_error option" \<comment> \<open>of the YAML reader, up to its end or an error\<close>
  rl_DecodeObject :: "string \<Rightarrow> kobject res"

subsection \<open>schema.go\<close>

definition parameterNamePattern :: re where
  "parameterNamePattern = Cat (Cls is_lower) (Many (Cls (\<lambda>c. is_lower c \<or> is_upper c \<or> is_digit c)))"

definition paramError :: "string \<Rightarrow> string \<Rightarrow> 'a res" where
  "paramError name text = Inl (ErrorString (''parameter '' @ fmt_q name @ text))"

definition dnsLabel :: "recipelib \<Rightarrow> string \<Rightarrow> bool" where
  "dnsLabel R v \<longleftrightarrow> IsDNS1123Label (rl_k8s R) v = []"

definition validatePropertySchema :: "recipelib \<Rightarrow> string \<Rightarrow> propertySchema \<Rightarrow> unit res" where
  "validatePropertySchema R name p =
     (if psc_Type p \<notin> {''string'', ''integer'', ''number'', ''boolean''}
      then paramError name ('' has unsupported type '' @ fmt_q (psc_Type p))
      else if psc_Pattern p \<noteq> [] \<and> psc_Type p \<noteq> ''string''
      then paramError name '' uses pattern with non-string type''
      else case (if psc_Pattern p \<noteq> [] then rl_Regexp R (psc_Pattern p) else Inr (\<lambda>_. True)) of
        Inl e \<Rightarrow> Inl (WrapError (''parameter '' @ fmt_q name @ '' has invalid pattern: '') e [])
      | Inr _ \<Rightarrow>
        if psc_Format p \<notin> {[], ''namespace'', ''dnsLabel'', ''dnsSubdomain'', ''positiveQuantity'', ''httpsURL'', ''sha256Hex''}
        then paramError name ('' has unsupported format '' @ fmt_q (psc_Format p))
        else if psc_Format p \<noteq> [] \<and> psc_Type p \<noteq> ''string''
        then paramError name ('' uses a string format with type '' @ fmt_q (psc_Type p))
        else if (psc_MinLength p \<noteq> None \<or> psc_MaxLength p \<noteq> None) \<and> psc_Type p \<noteq> ''string''
        then paramError name ('' uses string length limits with type '' @ fmt_q (psc_Type p))
        else if (case psc_MinLength p of Some n \<Rightarrow> n < 0 | None \<Rightarrow> False) \<or> (case psc_MaxLength p of Some n \<Rightarrow> n < 0 | None \<Rightarrow> False)
        then paramError name '' has a negative string length limit''
        else if (case (psc_MinLength p, psc_MaxLength p) of (Some a, Some b) \<Rightarrow> a > b | _ \<Rightarrow> False)
        then paramError name '' has minLength greater than maxLength''
        else Inr ())"

definition validateNumberBounds :: "recipelib \<Rightarrow> string \<Rightarrow> rat \<Rightarrow> propertySchema \<Rightarrow> unit res" where
  "validateNumberBounds R name v p =
     (if (case psc_Minimum p of Some m \<Rightarrow> v < m | None \<Rightarrow> False)
      then paramError name ('' must be at least '' @ rl_FormatFloat R (the (psc_Minimum p)))
      else if (case psc_ExclusiveMinimum p of Some m \<Rightarrow> v \<le> m | None \<Rightarrow> False)
      then paramError name ('' must be greater than '' @ rl_FormatFloat R (the (psc_ExclusiveMinimum p)))
      else if (case psc_Maximum p of Some m \<Rightarrow> v > m | None \<Rightarrow> False)
      then paramError name ('' must be at most '' @ rl_FormatFloat R (the (psc_Maximum p)))
      else Inr ())"

definition validateFormat :: "recipelib \<Rightarrow> string \<Rightarrow> string \<Rightarrow> string \<Rightarrow> unit res" where
  "validateFormat R name format text =
     (let label = IsDNS1123Label (rl_k8s R) text; subdomain = IsDNS1123Subdomain (rl_k8s R) text in
      if format = ''namespace'' then
        (if label \<noteq> [] then paramError name ('' must be a Kubernetes namespace: '' @ Join label ''; '') else Inr ())
      else if format = ''dnsLabel'' then
        (if label \<noteq> [] then paramError name ('' must be a Kubernetes DNS label: '' @ Join label ''; '') else Inr ())
      else if format = ''dnsSubdomain'' then
        (if subdomain \<noteq> [] then paramError name ('' must be a Kubernetes DNS subdomain: '' @ Join subdomain ''; '') else Inr ())
      else if format = ''positiveQuantity'' then
        (case rl_ParseQuantity R text of
           Some q \<Rightarrow> if Quantity_Sign (rl_k8s R) q \<le> 0 then paramError name '' must be a positive Kubernetes quantity'' else Inr ()
         | None \<Rightarrow> paramError name '' must be a positive Kubernetes quantity'')
      else if format = ''httpsURL'' then
        (case url_Parse text of
           Some u \<Rightarrow> if Scheme u \<noteq> ''https'' \<or> Host u = [] \<or> HasUser u \<or> RawQuery u \<noteq> [] \<or> Fragment u \<noteq> []
                     then paramError name '' must be a credential-free HTTPS URL without a query or fragment'' else Inr ()
         | None \<Rightarrow> paramError name '' must be a credential-free HTTPS URL without a query or fragment'')
      else if format = ''sha256Hex'' then
        (if \<not> matches (rep 64 (Cls is_hex)) text then paramError name '' must contain 64 lowercase SHA-256 hexadecimal characters'' else Inr ())
      else Inr ())"

text \<open>\<open>regexp.MustCompile\<close> panics on a pattern that does not compile; \<open>validatePropertySchema\<close> has compiled it before.\<close>

definition matchesPattern :: "recipelib \<Rightarrow> string \<Rightarrow> string \<Rightarrow> bool res" where
  "matchesPattern R pattern text =
     (if pattern = [] then Inr True
      else case rl_Regexp R pattern of Inl e \<Rightarrow> Inl (WrapError ''panic: regexp: Compile: '' e []) | Inr f \<Rightarrow> Inr (f text))"

definition validateString :: "recipelib \<Rightarrow> string \<Rightarrow> string \<Rightarrow> propertySchema \<Rightarrow> unit res" where
  "validateString R name text p =
     bind_res (matchesPattern R (psc_Pattern p) text) (\<lambda>ok.
     if \<not> ok then paramError name ('' does not match '' @ psc_Pattern p)
     else if (case psc_MinLength p of Some n \<Rightarrow> int (length text) < n | None \<Rightarrow> False)
     then paramError name ('' must contain at least '' @ FormatInt (the (psc_MinLength p)) @ '' UTF-8 bytes'')
     else if (case psc_MaxLength p of Some n \<Rightarrow> int (length text) > n | None \<Rightarrow> False)
     then paramError name ('' must contain at most '' @ FormatInt (the (psc_MaxLength p)) @ '' UTF-8 bytes'')
     else validateFormat R name (psc_Format p) text)"

definition validateParameter :: "recipelib \<Rightarrow> string \<Rightarrow> jvalue \<Rightarrow> propertySchema \<Rightarrow> unit res" where
  "validateParameter R name v p =
     (if psc_Type p = ''string'' then
        (case v of JString text \<Rightarrow> validateString R name text p | _ \<Rightarrow> paramError name '' must be a string'')
      else if psc_Type p = ''integer'' then
        (case v of
           JNumber n \<Rightarrow> (case ParseInt n of Some i \<Rightarrow> validateNumberBounds R name (float_of_int i) p | None \<Rightarrow> paramError name '' must be an integer'')
         | _ \<Rightarrow> paramError name '' must be an integer'')
      else if psc_Type p = ''number'' then
        (case v of
           JNumber n \<Rightarrow> (case rl_ParseFloat R n of Some x \<Rightarrow> validateNumberBounds R name x p | None \<Rightarrow> paramError name '' must be a finite number'')
         | _ \<Rightarrow> paramError name '' must be a number'')
      else if psc_Type p = ''boolean'' then (case v of JBool _ \<Rightarrow> Inr () | _ \<Rightarrow> paramError name '' must be a boolean'')
      else paramError name ('' has unsupported schema type '' @ fmt_q (psc_Type p)))"

fun checkRequired :: "propertySchema gomap \<Rightarrow> string list \<Rightarrow> string list \<Rightarrow> unit res" where
  "checkRequired props seen [] = Inr ()"
| "checkRequired props seen (name # names) =
     (if map_of props name = None then Inl (ErrorString (''required parameter '' @ fmt_q name @ '' is not defined''))
      else if name \<in> set seen then Inl (ErrorString (''required parameter '' @ fmt_q name @ '' is duplicated''))
      else checkRequired props (name # seen) names)"

fun checkProperties :: "recipelib \<Rightarrow> propertySchema gomap \<Rightarrow> unit res" where
  "checkProperties R [] = Inr ()"
| "checkProperties R ((name, p) # props) =
     (if \<not> matches parameterNamePattern name then Inl (ErrorString (''parameter name '' @ fmt_q name @ '' is invalid''))
      else bind_res (validatePropertySchema R name p) (\<lambda>_.
        case psc_Default p of
          None \<Rightarrow> checkProperties R props
        | Some d \<Rightarrow> (case validateParameter R name d p of
            Inl e \<Rightarrow> Inl (WrapError ''invalid default: '' e [])
          | Inr _ \<Rightarrow> checkProperties R props)))"

definition parseParameterSchema :: "recipelib \<Rightarrow> string \<Rightarrow> parameterSchema res" where
  "parseParameterSchema R data =
     bind_res (rl_DecodeSchema R data) (\<lambda>(schema, rest). case rest of
       AnotherValue \<Rightarrow> Inl (ErrorString ''schema contains more than one JSON value'')
     | TrailingError e \<Rightarrow> Inl (WrapError ''decode trailing schema data: '' e [])
     | AtEnd \<Rightarrow>
        if sch_Type schema \<noteq> ''object'' then Inl (ErrorString ''schema type must be object'')
        else if sch_AdditionalProperties schema \<noteq> Some False then Inl (ErrorString ''additionalProperties must be false'')
        else if sch_Properties schema = [] then Inl (ErrorString ''properties must not be empty'')
        else bind_res (checkRequired (sch_Properties schema) [] (sch_Required schema)) (\<lambda>_.
             bind_res (checkProperties R (sch_Properties schema)) (\<lambda>_. Inr schema)))"

definition parseValues :: "recipelib \<Rightarrow> string \<Rightarrow> jvalue gomap res" where
  "parseValues R data =
     (if TrimSpace data = [] then Inr []
      else case rl_YAMLToJSON R data of
        Inl e \<Rightarrow> Inl (WrapError ''decode values YAML: '' e [])
      | Inr jsonData \<Rightarrow>
         (case rl_DecodeValues R jsonData of
            Inl e \<Rightarrow> Inl (WrapError ''decode values object: '' e [])
          | Inr None \<Rightarrow> Inl (ErrorString ''values must be a YAML object'')
          | Inr (Some values) \<Rightarrow> Inr values))"

fun fillValues :: "recipelib \<Rightarrow> parameterSchema \<Rightarrow> string list \<Rightarrow> jvalue gomap \<Rightarrow> jvalue gomap res" where
  "fillValues R s [] values = Inr values"
| "fillValues R s (name # names) values =
     (case map_of (sch_Properties s) name of
        None \<Rightarrow> fillValues R s names values \<comment> \<open>never: the names are those of the properties\<close>
      | Some p \<Rightarrow>
         (let values = (case (map_of values name, psc_Default p) of (None, Some d) \<Rightarrow> gomap_set values name d | _ \<Rightarrow> values) in
          case map_of values name of
            None \<Rightarrow> if name \<in> set (sch_Required s) then paramError name '' is required'' else fillValues R s names values
          | Some v \<Rightarrow> bind_res (validateParameter R name v p) (\<lambda>_. fillValues R s names values)))"

definition normalize :: "recipelib \<Rightarrow> parameterSchema \<Rightarrow> string \<Rightarrow> jvalue gomap res" where
  "normalize R s data =
     bind_res (parseValues R data) (\<lambda>values.
     case sort_Slice (<) (filter (\<lambda>n. map_of (sch_Properties s) n = None) (map fst values)) of
       u # _ \<Rightarrow> Inl (ErrorString (''unknown parameter '' @ fmt_q u))
     | [] \<Rightarrow> fillValues R s (sort_Slice (<) (map fst (sch_Properties s))) values)"

end
