(* ===== verification/Recipe_Registry.thy ===== *)
theory Recipe_Registry
  imports Recipe
begin

section \<open>The registry of recipes and rendering\<close>

text \<open>
  \<open>internal/recipe/registry.go\<close>, \<open>render.go\<close> and \<open>digest.go\<close>. The file tree is the list of the entries
  in the order of \<open>fs.WalkDir\<close> and a function that reads a file. What is shown
  of them is in \<open>Recipe_Checks\<close>.
\<close>

subsection \<open>digest.go\<close>

definition be64 :: "nat \<Rightarrow> string" \<comment> \<open>\<open>binary.BigEndian.PutUint64\<close>\<close> where
  "be64 n = map (\<lambda>i. bytechar (n div 256 ^ (7 - i) mod 256)) [0..<8]"

definition framed :: "string list \<Rightarrow> string" where
  "framed parts = concat (map (\<lambda>part. be64 (length part) @ part) parts)"

definition recipeContentDigest :: "k8slib \<Rightarrow> string list \<Rightarrow> string" where
  "recipeContentDigest L parts = ''sha256:'' @ EncodeToString (Sum256 L (framed parts))"

subsection \<open>registry.go\<close>

definition definition_ID :: "Definition \<Rightarrow> string" where
  "definition_ID d = df_Name d @ ''@'' @ df_Version d"

record recipeEntry =
  en_definition :: Definition
  en_contentDigest :: string
  en_template :: string
  en_schema :: parameterSchema
  en_example :: string
  en_exampleValues :: "jvalue gomap"

record Registry =
  rg_entries :: "recipeEntry gomap"
  rg_ids :: "string list"

definition validateDefinition :: "recipelib \<Rightarrow> Definition \<Rightarrow> unit res" where
  "validateDefinition R d =
     (case find (\<lambda>(field, v). TrimSpace v = [])
        [(''name'', df_Name d), (''version'', df_Version d), (''description'', df_Description d), (''task'', df_Task d),
         (''backend'', df_Backend d), (''runtime'', df_Runtime d), (''manifest'', df_Manifest d),
         (''parametersSchema'', df_ParametersSchema d), (''example'', df_Example d)] of
        Some (field, _) \<Rightarrow> Inl (ErrorString (field @ '' is required''))
      | None \<Rightarrow>
         if \<not> (case splitOn (CHR ''/'') (df_Name d) of [a, b] \<Rightarrow> a = df_Task d \<and> dnsLabel R a \<and> dnsLabel R b | _ \<Rightarrow> False)
         then Inl (ErrorString ''name must be TASK/NAME using DNS labels'')
         else if \<not> HasPrefix (df_Version d) ''v'' \<or> \<not> dnsLabel R (df_Version d)
         then Inl (ErrorString ''version must be a DNS label beginning with v'')
         else if df_Backend d \<noteq> ''native'' \<and> df_Backend d \<noteq> ''worker''
         then Inl (ErrorString ''backend must be native or worker'')
         else if \<not> dnsLabel R (df_Runtime d) then Inl (ErrorString ''runtime must be a DNS label'')
         else Inr ())"

definition ValidPath :: "string \<Rightarrow> bool" where
  "ValidPath name \<longleftrightarrow> ValidString name
     \<and> (name = ''.'' \<or> list_all (\<lambda>e. e \<noteq> [] \<and> e \<noteq> ''.'' \<and> e \<noteq> ''..'') (splitOn (CHR ''/'') name))"

definition path_Base :: "string \<Rightarrow> string" where
  "path_Base p =
     (if p = [] then ''.''
      else let q = rev (dropWhile (\<lambda>c. c = CHR ''/'') (rev p)) in
        if q = [] then ''/'' else rev (takeWhile (\<lambda>c. c \<noteq> CHR ''/'') (rev q)))"

record fsEntry =
  fe_path :: string
  fe_isDir :: bool
  fe_name :: string
  fe_err :: "go_error option"

definition readReferencedFile :: "(string \<Rightarrow> string res) \<Rightarrow> string \<Rightarrow> string \<Rightarrow> string res" where
  "readReferencedFile read dir name =
     (if name = [] \<or> \<not> ValidPath name \<or> path_Base name \<noteq> name
      then Inl (ErrorString (''reference '' @ fmt_q name @ '' must be a file in the recipe directory''))
      else read (filepath_Join [dir, name]))"

definition withText :: "string \<Rightarrow> 'a res \<Rightarrow> 'a res" where \<comment> \<open>\<open>fmt.Errorf (pre + "%w", err)\<close>\<close>
  "withText pre x = (case x of Inl e \<Rightarrow> Inl (WrapError pre e []) | Inr a \<Rightarrow> Inr a)"

definition loadEntry :: "recipelib \<Rightarrow> (string \<Rightarrow> string res) \<Rightarrow> string \<Rightarrow> recipeEntry res" where
  "loadEntry R read filePath =
     bind_res (read filePath) (\<lambda>definitionData.
     bind_res (withText (''decode '' @ filePath @ '': '') (rl_DecodeDefinition R definitionData)) (\<lambda>d.
     bind_res (withText (''validate '' @ filePath @ '': '') (validateDefinition R d)) (\<lambda>_.
     let dir = filepath_Dir filePath; rid = definition_ID d in
     bind_res (withText (''load manifest for '' @ rid @ '': '') (readReferencedFile read dir (df_Manifest d))) (\<lambda>template.
     bind_res (withText (''load parameter schema for '' @ rid @ '': '') (readReferencedFile read dir (df_ParametersSchema d))) (\<lambda>schemaData.
     bind_res (withText (''validate parameter schema for '' @ rid @ '': '') (parseParameterSchema R schemaData)) (\<lambda>schema.
     bind_res (withText (''load example for '' @ rid @ '': '') (readReferencedFile read dir (df_Example d))) (\<lambda>example.
     bind_res (withText (''validate example for '' @ rid @ '': '') (normalize R schema example)) (\<lambda>exampleValues.
     Inr \<lparr>en_definition = d, en_contentDigest = recipeContentDigest (rl_k8s R) [definitionData, schemaData, template],
          en_template = template, en_schema = schema, en_example = example, en_exampleValues = exampleValues\<rparr>))))))))"

fun walkEntries :: "recipelib \<Rightarrow> (string \<Rightarrow> string res) \<Rightarrow> fsEntry list \<Rightarrow> Registry \<Rightarrow> Registry res" where
  "walkEntries R read [] reg = Inr reg"
| "walkEntries R read (item # items) reg =
     (case fe_err item of
        Some e \<Rightarrow> Inl e
      | None \<Rightarrow>
         if fe_isDir item \<or> fe_name item \<noteq> ''recipe.yaml'' then walkEntries R read items reg
         else bind_res (loadEntry R read (fe_path item)) (\<lambda>en.
           let rid = definition_ID (en_definition en) in
           if map_of (rg_entries reg) rid \<noteq> None then Inl (ErrorString (''duplicate recipe '' @ rid))
           else walkEntries R read items (reg\<lparr>rg_entries := gomap_set (rg_entries reg) rid en, rg_ids := rg_ids reg @ [rid]\<rparr>)))"

definition Load :: "recipelib \<Rightarrow> (string \<Rightarrow> string res) \<Rightarrow> fsEntry list \<Rightarrow> Registry res" where
  "Load R read items =
     bind_res (walkEntries R read items \<lparr>rg_entries = [], rg_ids = []\<rparr>) (\<lambda>reg.
     if rg_entries reg = [] then Inl (ErrorString ''recipe registry is empty'')
     else Inr (reg\<lparr>rg_ids := sort_Slice (<) (rg_ids reg)\<rparr>))"

text \<open>The map lookup of an absent key is the zero definition; \<open>ids\<close> are the keys.\<close>

definition Registry_List :: "Registry \<Rightarrow> Definition list" where
  "Registry_List r = concat (map (\<lambda>rid. case map_of (rg_entries r) rid of Some en \<Rightarrow> [en_definition en] | None \<Rightarrow> []) (rg_ids r))"

definition Registry_get :: "Registry \<Rightarrow> string \<Rightarrow> recipeEntry res" where
  "Registry_get r rid =
     (if CHR ''@'' \<notin> set rid then Inl (ErrorString (''recipe '' @ fmt_q rid @ '' is not version-pinned; use NAME@VERSION''))
      else case map_of (rg_entries r) rid of
        None \<Rightarrow> Inl (ErrorString (''unknown recipe '' @ fmt_q rid))
      | Some en \<Rightarrow> Inr en)"

record recipeParameter =
  rp_Name :: string
  rp_Type :: string
  rp_Description :: string
  rp_Required :: bool
  rp_Default :: "jvalue option"

record Details =
  dt_ID :: string
  dt_Digest :: string
  dt_Description :: string
  dt_Task :: string
  dt_Backend :: string
  dt_Runtime :: string
  dt_Prerequisites :: "string list"
  dt_Parameters :: "recipeParameter list"
  dt_Example :: "jvalue gomap"

definition Registry_Details :: "Registry \<Rightarrow> string \<Rightarrow> Details res" where
  "Registry_Details r rid =
     bind_res (Registry_get r rid) (\<lambda>item.
     let s = en_schema item; d = en_definition item in
     Inr \<lparr>dt_ID = definition_ID d, dt_Digest = en_contentDigest item, dt_Description = df_Description d, dt_Task = df_Task d,
          dt_Backend = df_Backend d, dt_Runtime = df_Runtime d, dt_Prerequisites = df_Prerequisites d,
          dt_Parameters = concat (map (\<lambda>name. case map_of (sch_Properties s) name of
              Some p \<Rightarrow> [\<lparr>rp_Name = name, rp_Type = psc_Type p, rp_Description = psc_Description p,
                         rp_Required = (name \<in> set (sch_Required s)), rp_Default = psc_Default p\<rparr>]
            | None \<Rightarrow> []) (sort_Slice (<) (map fst (sch_Properties s)))),
          dt_Example = en_exampleValues item\<rparr>)"

subsection \<open>render.go\<close>

definition inputDigest :: "recipelib \<Rightarrow> string \<Rightarrow> string \<Rightarrow> string \<Rightarrow> jvalue gomap \<Rightarrow> string res" where
  "inputDigest R recipeID recipeDigest name values =
     bind_res (withText ''encode recipe input: '' (rl_MarshalInput R recipeID recipeDigest name values)) (\<lambda>data.
     Inr (''sha256:'' @ EncodeToString (Sum256 (rl_k8s R) data)))"

abbreviation "managedByLabel \<equiv> ''app.kubernetes.io/managed-by''"
abbreviation "runLabel \<equiv> ''ai.idleloom.io/run''"
abbreviation "taskLabel \<equiv> ''ai.idleloom.io/task''"
abbreviation "backendLabel \<equiv> ''ai.idleloom.io/backend''"
abbreviation "runtimeLabel \<equiv> ''ai.idleloom.io/runtime''"
abbreviation "recipeAnno \<equiv> ''ai.idleloom.io/recipe''"
abbreviation "recipeDigestAnno \<equiv> ''ai.idleloom.io/recipe-digest''"
abbreviation "inputAnno \<equiv> ''ai.idleloom.io/input-digest''"

definition wantLabels :: "Definition \<Rightarrow> templateData \<Rightarrow> string gomap" where
  "wantLabels d data = [(managedByLabel, ''idleloom''), (runLabel, td_Name data), (taskLabel, df_Task d),
     (backendLabel, df_Backend d), (runtimeLabel, df_Runtime d)]"

definition validateMetadata :: "string gomap \<Rightarrow> string gomap \<Rightarrow> Definition \<Rightarrow> templateData \<Rightarrow> unit res" where
  "validateMetadata labels annotations d data =
     (case find (\<lambda>(key, want). gomap_get labels key \<noteq> want) (wantLabels d data) of
        Some (key, want) \<Rightarrow> Inl (ErrorString (''label '' @ key @ '' must be '' @ fmt_q want))
      | None \<Rightarrow>
         if gomap_get annotations recipeAnno \<noteq> definition_ID d
         then Inl (ErrorString (''annotation '' @ recipeAnno @ '' must be '' @ fmt_q (definition_ID d)))
         else if gomap_get annotations recipeDigestAnno \<noteq> td_RecipeDigest data
         then Inl (ErrorString (''annotation '' @ recipeDigestAnno @ '' must be '' @ fmt_q (td_RecipeDigest data)))
         else if gomap_get annotations inputAnno \<noteq> td_InputDigest data
         then Inl (ErrorString (''annotation '' @ inputAnno @ '' must be '' @ fmt_q (td_InputDigest data)))
         else Inr ())"

definition workloadMetadata :: "IdleloomWorkload \<Rightarrow> Metadata" where
  "workloadMetadata w = \<lparr>mo_Name = wl_Name w, mo_Namespace = wl_Namespace w, mo_Labels = om_Labels (wl_Meta w), mo_Annotations = om_Annotations (wl_Meta w)\<rparr>"

fun metadataOf :: "kobject \<Rightarrow> Metadata option" where
  "metadataOf NoMeta = None"
| "metadataOf (KClaim m) = Some m"
| "metadataOf (KClaimTemplate m l a) = Some m"
| "metadataOf (KWorkload w) = Some (workloadMetadata w)"
| "metadataOf (KJob m t) = Some m"
| "metadataOf (KCronJob m t) = Some m"
| "metadataOf (KDeployment m t) = Some m"
| "metadataOf (KPod m n) = Some m"
| "metadataOf (KOther m) = Some m"

definition refuseText :: "string \<Rightarrow> 'a res" where
  "refuseText text = Inl (ErrorString text)"

text \<open>The checks of one object by its type; the result is the number of execution roots it counts for.\<close>

fun validateObject :: "recipelib \<Rightarrow> Definition \<Rightarrow> templateData \<Rightarrow> kobject \<Rightarrow> nat res" where
  "validateObject R d data (KClaim m) =
     (if df_Backend d \<noteq> ''worker'' then refuseText ''native recipe rendered a ResourceClaim'' else Inr 0)"
| "validateObject R d data (KClaimTemplate m labels annotations) =
     (if df_Backend d \<noteq> ''worker'' then refuseText ''native recipe rendered a ResourceClaimTemplate''
      else bind_res (withText ''resource claim template metadata: '' (validateMetadata labels annotations d data)) (\<lambda>_. Inr 0))"
| "validateObject R d data (KWorkload w) =
     (if df_Backend d \<noteq> ''native'' then refuseText ''worker recipe rendered an IdleloomWorkload''
      else if wl_Name w \<noteq> td_Name data then refuseText (''native execution root must be named '' @ fmt_q (td_Name data))
      else if ValidateWorkload (rl_k8s R) w \<noteq> [] then Inl (AggregateError (ValidateWorkload (rl_k8s R) w))
      else Inr 1)"
| "validateObject R d data (KJob m t) =
     (if df_Backend d \<noteq> ''worker'' then refuseText ''native recipe rendered a Job''
      else if mo_Name m \<noteq> td_Name data then refuseText (''worker execution root must be named '' @ fmt_q (td_Name data))
      else if pt_RestartPolicy t \<noteq> ''Never'' \<or> pt_Containers t = 0 then refuseText ''worker Job must use restartPolicy Never and define a container''
      else bind_res (withText ''pod template metadata: '' (validateMetadata (pt_Labels t) (pt_Annotations t) d data)) (\<lambda>_. Inr 1))"
| "validateObject R d data (KCronJob m t) =
     (if df_Backend d \<noteq> ''worker'' then refuseText ''native recipe rendered a CronJob''
      else if mo_Name m \<noteq> td_Name data \<or> pt_Containers t = 0
      then refuseText (''worker CronJob execution root must be named '' @ fmt_q (td_Name data) @ '' and define a container'')
      else bind_res (withText ''pod template metadata: '' (validateMetadata (pt_Labels t) (pt_Annotations t) d data)) (\<lambda>_. Inr 1))"
| "validateObject R d data (KDeployment m t) =
     (if df_Backend d \<noteq> ''worker'' then refuseText ''native recipe rendered a Deployment''
      else if mo_Name m \<noteq> td_Name data \<or> pt_Containers t = 0
      then refuseText (''worker Deployment execution root must be named '' @ fmt_q (td_Name data) @ '' and define a container'')
      else bind_res (withText ''pod template metadata: '' (validateMetadata (pt_Labels t) (pt_Annotations t) d data)) (\<lambda>_. Inr 1))"
| "validateObject R d data (KPod m n) =
     (if df_Backend d \<noteq> ''worker'' then refuseText ''native recipe rendered a Pod''
      else if mo_Name m \<noteq> td_Name data \<or> n = 0
      then refuseText (''worker Pod execution root must be named '' @ fmt_q (td_Name data) @ '' and define a container'')
      else Inr 1)"
| "validateObject R d data (KOther m) = Inr 0"
| "validateObject R d data NoMeta = refuseText ''rendered object does not expose Kubernetes metadata''"

definition validateRendered :: "recipelib \<Rightarrow> Definition \<Rightarrow> templateData \<Rightarrow> kobject \<Rightarrow> nat res" where
  "validateRendered R d data object =
     (case metadataOf object of
        None \<Rightarrow> refuseText ''rendered object does not expose Kubernetes metadata''
      | Some m \<Rightarrow>
         if mo_Name m = [] \<or> mo_Namespace m \<noteq> td_Namespace data
         then refuseText (''rendered object must have a name and namespace '' @ fmt_q (td_Namespace data))
         else bind_res (validateMetadata (mo_Labels m) (mo_Annotations m) d data) (\<lambda>_. validateObject R d data object))"

fun renderedRoots :: "recipelib \<Rightarrow> Definition \<Rightarrow> templateData \<Rightarrow> string list \<Rightarrow> go_error option \<Rightarrow> nat \<Rightarrow> nat \<Rightarrow> (nat \<times> nat) res" where
  "renderedRoots R d data [] stop documents roots = (case stop of Some e \<Rightarrow> Inl e | None \<Rightarrow> Inr (documents, roots))"
| "renderedRoots R d data (raw # rest) stop documents roots =
     (if TrimSpace raw = [] then renderedRoots R d data rest stop documents roots
      else bind_res (rl_YAMLToJSON R raw) (\<lambda>jsonData.
           bind_res (rl_DecodeObject R jsonData) (\<lambda>object.
           bind_res (validateRendered R d data object) (\<lambda>n.
           renderedRoots R d data rest stop (documents + 1) (roots + n)))))"

definition validateRenderedManifest :: "recipelib \<Rightarrow> string \<Rightarrow> Definition \<Rightarrow> templateData \<Rightarrow> unit res" where
  "validateRenderedManifest R manifest d data =
     (case rl_Documents R manifest of (raws, stop) \<Rightarrow>
      bind_res (renderedRoots R d data raws stop 0 0) (\<lambda>(documents, roots).
      if documents = 0 then refuseText ''recipe rendered no objects''
      else if roots \<noteq> 1 then refuseText (''recipe must render exactly one execution root, got '' @ FormatInt (int roots))
      else Inr ()))"

definition templateQuote :: "recipelib \<Rightarrow> jvalue \<Rightarrow> string res" where
  "templateQuote R v = rl_MarshalString R (rl_Sprint R v)"

definition templateInteger :: "recipelib \<Rightarrow> jvalue \<Rightarrow> string res" where
  "templateInteger R v =
     (case v of
        JNumber n \<Rightarrow> (case ParseInt n of None \<Rightarrow> refuseText (rl_Sprint R v @ '' is not an integer'') | Some _ \<Rightarrow> Inr n)
      | _ \<Rightarrow> refuseText (rl_Sprint R v @ '' is not an integer''))"

record RenderResult =
  rr_Definition :: Definition
  rr_RecipeDigest :: string
  rr_Values :: "jvalue gomap"
  rr_InputDigest :: string
  rr_Manifest :: string

definition renderManifest :: "recipelib \<Rightarrow> string \<Rightarrow> recipeEntry \<Rightarrow> templateData \<Rightarrow> string res" where
  "renderManifest R rid item data =
     (case rl_Parse R (df_Manifest (en_definition item)) (en_template item) of
        Some e \<Rightarrow> Inl (WrapError (''parse manifest template for '' @ rid @ '': '') e [])
      | None \<Rightarrow>
         bind_res (withText (''render manifest for '' @ rid @ '': '') 
           (rl_Execute R (templateInteger R) (templateQuote R) (df_Manifest (en_definition item)) (en_template item) data)) (\<lambda>manifest.
         let manifest = (if manifest = [] \<or> last manifest \<noteq> CHR 0x0A then manifest @ newline else manifest) in
         bind_res (withText (''validate rendered manifest for '' @ rid @ '': '') (validateRenderedManifest R manifest (en_definition item) data)) (\<lambda>_.
         Inr manifest)))"

definition Render :: "recipelib \<Rightarrow> Registry \<Rightarrow> string \<Rightarrow> string \<Rightarrow> string \<Rightarrow> RenderResult res" where
  "Render R r rid name input =
     bind_res (Registry_get r rid) (\<lambda>item.
     let problems = IsDNS1123Label (rl_k8s R) name in
     if problems \<noteq> [] then refuseText (''run name '' @ fmt_q name @ '' must be a DNS label: '' @ Join problems ''; '')
     else bind_res (normalize R (en_schema item) input) (\<lambda>values.
       case map_of values ''namespace'' of
         Some (JString namespace) \<Rightarrow>
           if namespace = [] then refuseText (''recipe '' @ rid @ '' must define a namespace parameter'')
           else bind_res (inputDigest R rid (en_contentDigest item) name values) (\<lambda>digest.
                bind_res (renderManifest R rid item \<lparr>td_Name = name, td_Namespace = namespace, td_RecipeID = rid,
                   td_RecipeDigest = en_contentDigest item, td_InputDigest = digest, td_Values = values\<rparr>) (\<lambda>manifest.
                Inr \<lparr>rr_Definition = en_definition item, rr_RecipeDigest = en_contentDigest item, rr_Values = values,
                     rr_InputDigest = digest, rr_Manifest = manifest\<rparr>))
       | _ \<Rightarrow> refuseText (''recipe '' @ rid @ '' must define a namespace parameter'')))"

end
