(* ===== verification/Recipe_Checks.thy ===== *)
theory Recipe_Checks
  imports Recipe_Registry
begin

section \<open>What recipes guarantee\<close>

text \<open>
  Normalized values satisfy the schema; every object of a rendered manifest carries the identity of the
  run, and exactly one is executed, which for a native recipe is a workload the control plane accepts; a
  loaded registry is well formed; equal content digests mean equal files or a collision of SHA-256. Nothing is
  assumed of the decoders or the template engine, and of the checksum only its length.
\<close>

subsection \<open>Values\<close>

definition defaultOf :: "parameterSchema \<Rightarrow> string \<Rightarrow> jvalue option" where
  "defaultOf s name = (case map_of (sch_Properties s) name of None \<Rightarrow> None | Some p \<Rightarrow> psc_Default p)"

lemma fillValues_Inr:
  assumes "fillValues R s names vals = Inr vals'"
  shows "map_of vals' k = (case map_of vals k of Some v \<Rightarrow> Some v | None \<Rightarrow> if k \<in> set names then defaultOf s k else None)
    \<and> (k \<in> set names \<longrightarrow> (\<forall>p. map_of (sch_Properties s) k = Some p \<longrightarrow> (case map_of vals' k of
         None \<Rightarrow> k \<notin> set (sch_Required s) | Some v \<Rightarrow> validateParameter R k v p = Inr ())))"
  using assms
proof (induction names arbitrary: vals)
  case (Cons name names)
  show ?case
  proof (cases "map_of (sch_Properties s) name")
    case None
    with Cons.prems Cons.IH [of vals] show ?thesis by (auto simp: defaultOf_def split: option.splits)
  next
    case (Some p)
    define filled where "filled = (case (map_of vals name, psc_Default p) of (None, Some d) \<Rightarrow> gomap_set vals name d | _ \<Rightarrow> vals)"
    have m: "map_of filled j = (case map_of vals j of Some v \<Rightarrow> Some v | None \<Rightarrow> if j = name then psc_Default p else None)" for j
      by (auto simp: filled_def map_of_gomap_set split: option.split)
    have eq: "fillValues R s (name # names) vals = (case map_of filled name of
        None \<Rightarrow> if name \<in> set (sch_Required s) then paramError name '' is required'' else fillValues R s names filled
      | Some v \<Rightarrow> bind_res (validateParameter R name v p) (\<lambda>_. fillValues R s names filled))"
      unfolding fillValues.simps Some option.case filled_def Let_def ..
    have rest: "fillValues R s names filled = Inr vals'"
      and here: "case map_of filled name of None \<Rightarrow> name \<notin> set (sch_Required s) | Some v \<Rightarrow> validateParameter R name v p = Inr ()"
      using Cons.prems unfolding eq by (auto simp: paramError_def bind_res_Inr split: option.splits if_splits)
    note IH = Cons.IH [OF rest]
    have d: "defaultOf s name = psc_Default p" by (simp add: defaultOf_def Some)
    show ?thesis
    proof (cases "k = name")
      case True
      have "map_of vals' name = map_of filled name"
        using IH m [of name] d by (auto simp: True split: option.splits if_splits)
      with here m [of name] d Some True show ?thesis by (auto split: option.splits)
    next
      case False
      with IH m [of k] show ?thesis by (auto split: option.splits)
    qed
  qed
qed (simp split: option.split)

text \<open>
  C23. Normalized values satisfy their schema: every parameter is one of the schema and valid for it, every
  required one is there, what the user gave is kept and what was not given has its default.
\<close>

theorem normalize_sound:
  assumes "normalize R s data = Inr vals"
  shows "\<exists>given. parseValues R data = Inr given
    \<and> (\<forall>k v. map_of vals k = Some v \<longrightarrow> (\<exists>p. map_of (sch_Properties s) k = Some p \<and> validateParameter R k v p = Inr ()))
    \<and> (\<forall>k p. map_of (sch_Properties s) k = Some p \<longrightarrow> k \<in> set (sch_Required s) \<longrightarrow> map_of vals k \<noteq> None)
    \<and> (\<forall>k. map_of vals k = (case map_of given k of Some v \<Rightarrow> Some v | None \<Rightarrow> defaultOf s k))"
proof -
  from assms obtain given where g: "parseValues R data = Inr given"
    and n: "(case sort_Slice (<) (filter (\<lambda>n. map_of (sch_Properties s) n = None) (map fst given)) of
       u # _ \<Rightarrow> Inl (ErrorString (''unknown parameter '' @ fmt_q u))
     | [] \<Rightarrow> fillValues R s (sort_Slice (<) (map fst (sch_Properties s))) given) = Inr vals"
    unfolding normalize_def bind_res_Inr by blast
  have u: "sort_Slice (<) (filter (\<lambda>n. map_of (sch_Properties s) n = None) (map fst given)) = []"
    and f: "fillValues R s (sort_Slice (<) (map fst (sch_Properties s))) given = Inr vals"
    using n by (auto split: list.splits)
  have known: "map_of (sch_Properties s) k \<noteq> None" if "map_of given k = Some v" for k v
  proof -
    have "set (sort_Slice (<) (filter (\<lambda>n. map_of (sch_Properties s) n = None) (map fst given))) = {}" using u by simp
    then have "\<forall>n \<in> set (map fst given). map_of (sch_Properties s) n \<noteq> None" by (auto simp: set_sort_Slice filter_empty_conv)
    moreover have "k \<in> set (map fst given)" using map_of_SomeD [OF that] by force
    ultimately show ?thesis by blast
  qed
  have name: "k \<in> set (sort_Slice (<) (map fst (sch_Properties s))) \<longleftrightarrow> map_of (sch_Properties s) k \<noteq> None" for k
    by (simp add: set_sort_Slice map_of_eq_None_iff)
  note fill = fillValues_Inr [OF f]
  have eq: "map_of vals k = (case map_of given k of Some v \<Rightarrow> Some v | None \<Rightarrow> defaultOf s k)" for k
    using fill [of k] name [of k] by (auto simp: defaultOf_def split: option.splits)
  have ok: "case map_of vals k of None \<Rightarrow> k \<notin> set (sch_Required s) | Some v \<Rightarrow> validateParameter R k v p = Inr ()"
    if "map_of (sch_Properties s) k = Some p" for k p
    using conjunct2 [OF fill [of k]] name [of k] that by blast
  have "\<exists>p. map_of (sch_Properties s) k = Some p \<and> validateParameter R k v p = Inr ()" if v: "map_of vals k = Some v" for k v
  proof -
    have "map_of (sch_Properties s) k \<noteq> None"
      using v eq [of k] known [of k] by (auto simp: defaultOf_def split: option.splits)
    then obtain p where "map_of (sch_Properties s) k = Some p" by blast
    with ok [OF this] v show ?thesis by simp
  qed
  moreover have "map_of vals k \<noteq> None" if "map_of (sch_Properties s) k = Some p" "k \<in> set (sch_Required s)" for k p
    using ok [OF that(1)] that(2) by (cases "map_of vals k") auto
  ultimately show ?thesis using g eq by blast
qed

subsection \<open>Manifests\<close>

fun executionRoot :: "kobject \<Rightarrow> bool" where
  "executionRoot (KWorkload w) = True"
| "executionRoot (KJob m t) = True"
| "executionRoot (KCronJob m t) = True"
| "executionRoot (KDeployment m t) = True"
| "executionRoot (KPod m n) = True"
| "executionRoot _ = False"

text \<open>The objects of a manifest, in order.\<close>

fun decodeAll :: "recipelib \<Rightarrow> string list \<Rightarrow> kobject list res" where
  "decodeAll R [] = Inr []"
| "decodeAll R (raw # rest) =
     (if TrimSpace raw = [] then decodeAll R rest
      else bind_res (rl_YAMLToJSON R raw) (\<lambda>j. bind_res (rl_DecodeObject R j) (\<lambda>obj. bind_res (decodeAll R rest) (\<lambda>objs. Inr (obj # objs)))))"

definition carriesRun :: "Definition \<Rightarrow> templateData \<Rightarrow> Metadata \<Rightarrow> bool" where
  "carriesRun d data m \<longleftrightarrow> mo_Name m \<noteq> [] \<and> mo_Namespace m = td_Namespace data
     \<and> gomap_get (mo_Labels m) managedByLabel = ''idleloom'' \<and> gomap_get (mo_Labels m) runLabel = td_Name data
     \<and> gomap_get (mo_Labels m) taskLabel = df_Task d \<and> gomap_get (mo_Labels m) backendLabel = df_Backend d
     \<and> gomap_get (mo_Labels m) runtimeLabel = df_Runtime d \<and> gomap_get (mo_Annotations m) recipeAnno = definition_ID d
     \<and> gomap_get (mo_Annotations m) recipeDigestAnno = td_RecipeDigest data \<and> gomap_get (mo_Annotations m) inputAnno = td_InputDigest data"

lemma validateMetadata_Inr:
  "validateMetadata l a d data = Inr () \<longleftrightarrow>
     gomap_get l managedByLabel = ''idleloom'' \<and> gomap_get l runLabel = td_Name data
     \<and> gomap_get l taskLabel = df_Task d \<and> gomap_get l backendLabel = df_Backend d
     \<and> gomap_get l runtimeLabel = df_Runtime d \<and> gomap_get a recipeAnno = definition_ID d
     \<and> gomap_get a recipeDigestAnno = td_RecipeDigest data \<and> gomap_get a inputAnno = td_InputDigest data"
  by (simp add: validateMetadata_def wantLabels_def split: prod.split)

lemma validateObject_root: "validateObject R d data obj = Inr n \<Longrightarrow> n = (if executionRoot obj then 1 else 0)"
  by (cases obj) (auto simp: refuseText_def bind_res_Inr split: if_splits)

definition rootOk :: "recipelib \<Rightarrow> Definition \<Rightarrow> templateData \<Rightarrow> kobject \<Rightarrow> bool" where
  "rootOk R d data obj \<longleftrightarrow> (if df_Backend d = ''native'' then \<exists>w. obj = KWorkload w \<and> wl_Name w = td_Name data \<and> ValidateWorkload (rl_k8s R) w = []
     else (\<forall>w. obj \<noteq> KWorkload w) \<and> (\<exists>m. metadataOf obj = Some m \<and> mo_Name m = td_Name data))"

lemma validateRendered_Inr:
  assumes "validateRendered R d data obj = Inr n"
  shows "n = (if executionRoot obj then 1 else 0)" and "\<exists>m. metadataOf obj = Some m \<and> carriesRun d data m"
    and "executionRoot obj \<Longrightarrow> rootOk R d data obj"
proof -
  from assms obtain m where m: "metadataOf obj = Some m" "mo_Name m \<noteq> []" "mo_Namespace m = td_Namespace data"
    "validateMetadata (mo_Labels m) (mo_Annotations m) d data = Inr ()" and o: "validateObject R d data obj = Inr n"
    by (auto simp: validateRendered_def refuseText_def bind_res_Inr split: option.splits if_splits)
  show "n = (if executionRoot obj then 1 else 0)" by (rule validateObject_root [OF o])
  show "\<exists>m. metadataOf obj = Some m \<and> carriesRun d data m"
    using m by (auto simp: carriesRun_def validateMetadata_Inr)
  show "rootOk R d data obj" if "executionRoot obj"
    using that o m(1) by (cases obj) (auto simp: rootOk_def refuseText_def bind_res_Inr split: if_splits)
qed

lemma renderedRoots_Inr:
  assumes "renderedRoots R d data raws stop documents roots = Inr (ds, rs)"
  shows "\<exists>objs. decodeAll R raws = Inr objs \<and> ds = documents + length objs \<and> rs = roots + length (filter executionRoot objs)
    \<and> (\<forall>obj \<in> set objs. (\<exists>m. metadataOf obj = Some m \<and> carriesRun d data m) \<and> (executionRoot obj \<longrightarrow> rootOk R d data obj))"
  using assms
proof (induction R d data raws stop documents roots rule: renderedRoots.induct)
  case (1 R d data stop documents roots)
  then show ?case by (auto split: option.splits)
next
  case (2 R d data raw rest stop documents roots)
  show ?case
  proof (cases "TrimSpace raw = []")
    case True
    with 2 show ?thesis by simp
  next
    case False
    with 2(3) obtain j obj n where j: "rl_YAMLToJSON R raw = Inr j" "rl_DecodeObject R j = Inr obj" "validateRendered R d data obj = Inr n"
      "renderedRoots R d data rest stop (documents + 1) (roots + n) = Inr (ds, rs)"
      by (auto simp: bind_res_Inr)
    from 2(2) [OF False j(4)] obtain objs where o: "decodeAll R rest = Inr objs" "ds = documents + 1 + length objs"
      "rs = roots + n + length (filter executionRoot objs)"
      "\<forall>obj \<in> set objs. (\<exists>m. metadataOf obj = Some m \<and> carriesRun d data m) \<and> (executionRoot obj \<longrightarrow> rootOk R d data obj)" by blast
    with False j validateRendered_Inr [OF j(3)] show ?thesis by auto
  qed
qed

text \<open>The manifest \<open>Render\<close> returns and the data its template was executed with.\<close>

definition runData :: "recipeEntry \<Rightarrow> string \<Rightarrow> string \<Rightarrow> string \<Rightarrow> RenderResult \<Rightarrow> templateData" where
  "runData item rid name namespace res = \<lparr>td_Name = name, td_Namespace = namespace, td_RecipeID = rid,
     td_RecipeDigest = en_contentDigest item, td_InputDigest = rr_InputDigest res, td_Values = rr_Values res\<rparr>"

lemma withText_Inr: "withText pre x = Inr a \<longleftrightarrow> x = Inr a"
  by (simp add: withText_def split: sum.split)

lemma validateRenderedManifest_Inr:
  assumes "validateRenderedManifest R manifest d data = Inr ()"
  shows "\<exists>objs. decodeAll R (fst (rl_Documents R manifest)) = Inr objs \<and> length (filter executionRoot objs) = 1
    \<and> (\<forall>obj \<in> set objs. (\<exists>m. metadataOf obj = Some m \<and> carriesRun d data m) \<and> (executionRoot obj \<longrightarrow> rootOk R d data obj))"
proof -
  from assms obtain ds where r: "renderedRoots R d data (fst (rl_Documents R manifest)) (snd (rl_Documents R manifest)) 0 0 = Inr (ds, 1)"
    by (auto simp: validateRenderedManifest_def refuseText_def bind_res_Inr split: prod.splits if_splits)
  show ?thesis using renderedRoots_Inr [OF r] by auto
qed

text \<open>
  C21. A rendered run is one run: \<open>Render\<close> answers only for a version-pinned recipe of the registry and a DNS label
  as the name, and every object of the manifest it returns has the namespace of the values and the
  labels and annotations that name the run, the recipe, its digest and the digest of the input; exactly one of the
  objects is executed; it has the name of the run, and it is a workload the
  control plane's validation accepts exactly when the recipe is native.
\<close>

theorem Render_one_root:
  assumes "Render R r rid name input = Inr res"
  shows "\<exists>item namespace objs. Registry_get r rid = Inr item \<and> dnsLabel R name \<and> rr_Definition res = en_definition item
    \<and> map_of (rr_Values res) ''namespace'' = Some (JString namespace) \<and> namespace \<noteq> []
    \<and> decodeAll R (fst (rl_Documents R (rr_Manifest res))) = Inr objs
    \<and> list_all (\<lambda>obj. \<exists>m. metadataOf obj = Some m \<and> carriesRun (rr_Definition res) (runData item rid name namespace res) m) objs
    \<and> (\<exists>root. filter executionRoot objs = [root] \<and> rootOk R (rr_Definition res) (runData item rid name namespace res) root)"
proof -
  from assms obtain item vals where g: "Registry_get r rid = Inr item" and l: "dnsLabel R name"
    and v: "normalize R (en_schema item) input = Inr vals"
    and rest: "(case map_of vals ''namespace'' of
         Some (JString namespace) \<Rightarrow>
           if namespace = [] then refuseText (''recipe '' @ rid @ '' must define a namespace parameter'')
           else bind_res (inputDigest R rid (en_contentDigest item) name vals) (\<lambda>digest.
                bind_res (renderManifest R rid item \<lparr>td_Name = name, td_Namespace = namespace, td_RecipeID = rid,
                   td_RecipeDigest = en_contentDigest item, td_InputDigest = digest, td_Values = vals\<rparr>) (\<lambda>manifest.
                Inr \<lparr>rr_Definition = en_definition item, rr_RecipeDigest = en_contentDigest item, rr_Values = vals,
                     rr_InputDigest = digest, rr_Manifest = manifest\<rparr>))
       | _ \<Rightarrow> refuseText (''recipe '' @ rid @ '' must define a namespace parameter'')) = Inr res"
    by (auto simp: Render_def dnsLabel_def refuseText_def bind_res_Inr Let_def simp del: option.case split: if_splits)
  from rest obtain namespace where ns: "map_of vals ''namespace'' = Some (JString namespace)"
    by (auto simp: refuseText_def split: option.splits jvalue.splits)
  with rest obtain digest manifest where m: "namespace \<noteq> []"
    "renderManifest R rid item \<lparr>td_Name = name, td_Namespace = namespace, td_RecipeID = rid,
       td_RecipeDigest = en_contentDigest item, td_InputDigest = digest, td_Values = vals\<rparr> = Inr manifest"
    "res = \<lparr>rr_Definition = en_definition item, rr_RecipeDigest = en_contentDigest item, rr_Values = vals,
       rr_InputDigest = digest, rr_Manifest = manifest\<rparr>"
    by (auto simp: refuseText_def bind_res_Inr split: if_splits)
  have "validateRenderedManifest R (rr_Manifest res) (rr_Definition res) (runData item rid name namespace res) = Inr ()"
    using m(2) by (auto simp: m(3) runData_def renderManifest_def bind_res_Inr withText_Inr Let_def split: option.splits if_splits)
  from validateRenderedManifest_Inr [OF this] obtain objs
    where o: "decodeAll R (fst (rl_Documents R (rr_Manifest res))) = Inr objs" "length (filter executionRoot objs) = 1"
      "\<forall>obj \<in> set objs. (\<exists>m. metadataOf obj = Some m \<and> carriesRun (rr_Definition res) (runData item rid name namespace res) m)
        \<and> (executionRoot obj \<longrightarrow> rootOk R (rr_Definition res) (runData item rid name namespace res) obj)" by blast
  from o(2) obtain root where root: "filter executionRoot objs = [root]" by (auto simp: length_Suc_conv)
  have "root \<in> set objs \<and> executionRoot root" using filter_eq_ConsD [OF root] by auto
  with o(3) have "rootOk R (rr_Definition res) (runData item rid name namespace res) root" by blast
  moreover have "rr_Definition res = en_definition item" "rr_Values res = vals" by (simp_all add: m(3))
  moreover have "list_all (\<lambda>obj. \<exists>m. metadataOf obj = Some m \<and> carriesRun (rr_Definition res) (runData item rid name namespace res) m) objs"
    using o(3) by (simp add: list_all_iff)
  ultimately show ?thesis using g l ns m(1) o(1) root by blast
qed

subsection \<open>Registries\<close>

text \<open>What \<open>parseParameterSchema\<close> accepts.\<close>

definition propertyOk :: "recipelib \<Rightarrow> string \<Rightarrow> propertySchema \<Rightarrow> bool" where
  "propertyOk R name p \<longleftrightarrow> matches parameterNamePattern name \<and> validatePropertySchema R name p = Inr ()
     \<and> (case psc_Default p of None \<Rightarrow> True | Some d \<Rightarrow> validateParameter R name d p = Inr ())"

definition schemaOk :: "recipelib \<Rightarrow> parameterSchema \<Rightarrow> bool" where
  "schemaOk R s \<longleftrightarrow> sch_Properties s \<noteq> [] \<and> distinct (sch_Required s) \<and> set (sch_Required s) \<subseteq> dom (map_of (sch_Properties s))
     \<and> list_all (\<lambda>(name, p). propertyOk R name p) (sch_Properties s)"

lemma checkRequired_Inr:
  "checkRequired props seen names = Inr () \<longleftrightarrow> distinct names \<and> set names \<inter> set seen = {} \<and> set names \<subseteq> dom (map_of props)"
  by (induction names arbitrary: seen) (auto split: if_splits)

lemma checkProperties_Inr:
  "checkProperties R props = Inr () \<longleftrightarrow> list_all (\<lambda>(name, p). propertyOk R name p) props"
  by (induction R props rule: checkProperties.induct) (auto simp: propertyOk_def bind_res_Inr split: option.splits sum.splits)

lemma parseParameterSchema_Inr:
  assumes "parseParameterSchema R data = Inr s"
  shows "schemaOk R s"
proof -
  from assms obtain a rest where a: "rl_DecodeSchema R data = Inr (a, rest)"
    by (auto simp: parseParameterSchema_def bind_res_Inr)
  show ?thesis
    using assms a by (cases rest) (auto simp: parseParameterSchema_def schemaOk_def bind_res_Inr checkRequired_Inr checkProperties_Inr
      split: if_splits)
qed

definition entryOk :: "recipelib \<Rightarrow> recipeEntry \<Rightarrow> bool" where
  "entryOk R en \<longleftrightarrow> validateDefinition R (en_definition en) = Inr () \<and> schemaOk R (en_schema en)
     \<and> normalize R (en_schema en) (en_example en) = Inr (en_exampleValues en)"

lemma loadEntry_Inr: "loadEntry R read filePath = Inr en \<Longrightarrow> entryOk R en"
  by (auto simp: loadEntry_def entryOk_def bind_res_Inr withText_Inr Let_def parseParameterSchema_Inr)

definition registryOk :: "recipelib \<Rightarrow> Registry \<Rightarrow> bool" where
  "registryOk R reg \<longleftrightarrow> distinct (rg_ids reg) \<and> set (rg_ids reg) = dom (map_of (rg_entries reg))
     \<and> (\<forall>rid en. map_of (rg_entries reg) rid = Some en \<longrightarrow> definition_ID (en_definition en) = rid \<and> entryOk R en)"

lemma walkEntries_registryOk:
  "registryOk R reg \<Longrightarrow> walkEntries R read items reg = Inr reg' \<Longrightarrow> registryOk R reg'"
proof (induction R read items reg rule: walkEntries.induct)
  case (2 R read item items reg)
  show ?case
  proof (cases "fe_err item = None \<and> \<not> fe_isDir item \<and> fe_name item = ''recipe.yaml''")
    case True
    with 2(4) obtain en where en: "loadEntry R read (fe_path item) = Inr en"
      and new: "map_of (rg_entries reg) (definition_ID (en_definition en)) = None"
      and rest: "walkEntries R read items (reg\<lparr>rg_entries := gomap_set (rg_entries reg) (definition_ID (en_definition en)) en,
        rg_ids := rg_ids reg @ [definition_ID (en_definition en)]\<rparr>) = Inr reg'"
      by (auto simp: bind_res_Inr Let_def split: if_splits)
    have ok: "registryOk R (reg\<lparr>rg_entries := gomap_set (rg_entries reg) (definition_ID (en_definition en)) en,
        rg_ids := rg_ids reg @ [definition_ID (en_definition en)]\<rparr>)"
      using 2(3) new loadEntry_Inr [OF en] by (auto simp: registryOk_def map_of_gomap_set domIff)
    from 2(2) [OF _ _ _ _ ok rest] True en new show ?thesis by simp
  next
    case False
    with 2 show ?thesis by (auto split: option.splits)
  qed
qed simp

text \<open>
  C22. A loaded registry is well formed: its identifiers are sorted and distinct, and every one of them is
  answered by \<open>get\<close> with an entry of this identifier whose definition is valid, whose schema is
  well formed with defaults that satisfy it, and whose example normalizes under it.
\<close>

theorem Load_wellformed:
  assumes "Load R read items = Inr reg"
  shows "rg_ids reg \<noteq> [] \<and> sorted (rg_ids reg) \<and> distinct (rg_ids reg)
    \<and> list_all (\<lambda>rid. \<exists>en. Registry_get reg rid = Inr en \<and> definition_ID (en_definition en) = rid \<and> entryOk R en) (rg_ids reg)
    \<and> map definition_ID (Registry_List reg) = rg_ids reg"
proof -
  from assms obtain reg0 where w: "walkEntries R read items \<lparr>rg_entries = [], rg_ids = []\<rparr> = Inr reg0"
    and ne: "rg_entries reg0 \<noteq> []" and reg: "reg = reg0\<lparr>rg_ids := sort_Slice (<) (rg_ids reg0)\<rparr>"
    by (auto simp: Load_def bind_res_Inr split: if_splits)
  have "registryOk R \<lparr>rg_entries = [], rg_ids = []\<rparr>" by (simp add: registryOk_def)
  from walkEntries_registryOk [OF this w] have ok: "registryOk R reg0" .
  have s: "rg_ids reg = sort_Slice (<) (rg_ids reg0)" "rg_entries reg = rg_entries reg0" by (simp_all add: reg)
  have d: "distinct (rg_ids reg)"
    using ok distinct_sort_Slice [of id "(<)" "rg_ids reg0"] by (simp add: s registryOk_def)
  have keys: "set (rg_ids reg) = dom (map_of (rg_entries reg))" using ok by (simp add: s registryOk_def)
  then have n: "rg_ids reg \<noteq> []" using ne by (metis dom_eq_empty_conv empty_set map_of_eq_empty_iff s(2))
  have en: "\<exists>en. map_of (rg_entries reg) rid = Some en \<and> definition_ID (en_definition en) = rid \<and> entryOk R en"
    if "rid \<in> set (rg_ids reg)" for rid
    using that ok keys by (auto simp: s registryOk_def)
  have get: "\<exists>en. Registry_get reg rid = Inr en \<and> definition_ID (en_definition en) = rid \<and> entryOk R en"
    if "rid \<in> set (rg_ids reg)" for rid
    using en [OF that] by (auto simp: Registry_get_def definition_ID_def)
  have "map definition_ID (concat (map (\<lambda>rid. case map_of (rg_entries reg) rid of Some en \<Rightarrow> [en_definition en] | None \<Rightarrow> []) ids)) = ids"
    if "set ids \<subseteq> set (rg_ids reg)" for ids
    using that by (induction ids) (auto dest!: en)
  then have "map definition_ID (Registry_List reg) = rg_ids reg" by (simp add: Registry_List_def)
  moreover have "sorted (rg_ids reg)" by (simp only: s(1) sorted_sort_Slice_less)
  moreover have "list_all (\<lambda>rid. \<exists>en. Registry_get reg rid = Inr en \<and> definition_ID (en_definition en) = rid \<and> entryOk R en) (rg_ids reg)"
    using get by (simp add: list_all_iff)
  ultimately show ?thesis using n d by blast
qed

subsection \<open>Digests\<close>

lemma bytes_determine:
  fixes n m :: nat
  shows "n < 256 ^ k \<Longrightarrow> m < 256 ^ k \<Longrightarrow> \<forall>i < k. n div 256 ^ i mod 256 = m div 256 ^ i mod 256 \<Longrightarrow> n = m"
proof (induction k arbitrary: n m)
  case (Suc k)
  have "n div 256 div 256 ^ i mod 256 = m div 256 div 256 ^ i mod 256" if "i < k" for i
    using Suc.prems(3) that by (auto simp: div_mult2_eq [symmetric] dest: spec [of _ "Suc i"])
  moreover have "n div 256 < 256 ^ k" "m div 256 < 256 ^ k" using Suc.prems(1,2) by (simp_all add: less_mult_imp_div_less mult.commute)
  ultimately have "n div 256 = m div 256" by (intro Suc.IH) auto
  moreover have "n mod 256 = m mod 256" using Suc.prems(3) by (auto dest: spec [of _ 0])
  ultimately show ?case by (metis div_mult_mod_eq)
qed simp

lemma length_be64 [simp]: "length (be64 n) = 8"
  by (simp add: be64_def)

lemma be64_nonempty [simp]: "be64 n \<noteq> []"
  by (simp add: be64_def)

lemma be64_inj: "be64 n = be64 m \<Longrightarrow> n < 256 ^ 8 \<Longrightarrow> m < 256 ^ 8 \<Longrightarrow> n = m"
proof (rule bytes_determine [of n 8 m], assumption, assumption, intro allI impI)
  fix i :: nat
  assume eq: "be64 n = be64 m" and "i < 8"
  then have "byte (be64 n ! (7 - i)) = byte (be64 m ! (7 - i))" and "7 - (7 - i) = i" by simp_all
  with \<open>i < 8\<close> show "n div 256 ^ i mod 256 = m div 256 ^ i mod 256" by (simp add: be64_def)
qed

text \<open>Framing is injective: the length in front of a part tells where it ends.\<close>

lemma framed_inj:
  "framed xs = framed ys \<Longrightarrow> list_all (\<lambda>p. length p < 256 ^ 8) xs \<Longrightarrow> list_all (\<lambda>p. length p < 256 ^ 8) ys \<Longrightarrow> xs = ys"
proof (induction xs arbitrary: ys)
  case Nil
  then show ?case by (cases ys) (simp_all add: framed_def)
next
  case (Cons x xs)
  show ?case
  proof (cases ys)
    case Nil
    with Cons.prems(1) show ?thesis by (simp add: framed_def)
  next
    case y: (Cons y zs)
    from Cons.prems(1) have "be64 (length x) @ (x @ framed xs) = be64 (length y) @ (y @ framed zs)"
      by (simp add: framed_def y)
    then have "be64 (length x) = be64 (length y)" and rest: "x @ framed xs = y @ framed zs"
      by (simp_all add: append_eq_append_conv)
    with Cons.prems(2,3) have "length x = length y" by (intro be64_inj) (simp_all add: y)
    with rest have "x = y" "framed xs = framed zs" by simp_all
    with Cons.IH [of zs] Cons.prems(2,3) show ?thesis by (simp add: y)
  qed
qed

lemma hex_digit_inj: "hex_digit a = hex_digit b \<Longrightarrow> a < 16 \<Longrightarrow> b < 16 \<Longrightarrow> a = b"
  by (auto simp: hex_digit_def dest!: arg_cong [where f = byte] split: if_splits)

lemma EncodeToString_inj:
  "EncodeToString xs = EncodeToString ys \<Longrightarrow> list_all (\<lambda>b. b < 256) xs \<Longrightarrow> list_all (\<lambda>b. b < 256) ys \<Longrightarrow> xs = ys"
proof (induction xs arbitrary: ys)
  case Nil
  then show ?case by (cases ys) (simp_all add: EncodeToString_def hex_byte_def)
next
  case (Cons x xs)
  then obtain y zs where y: "ys = y # zs" by (cases ys) (simp_all add: EncodeToString_def hex_byte_def)
  with Cons.prems have "x div 16 = y div 16" "x mod 16 = y mod 16"
    by (auto simp: EncodeToString_def hex_byte_def intro!: hex_digit_inj)
  then have "x = y" by (metis div_mult_mod_eq)
  with Cons y show ?case by (simp add: EncodeToString_def)
qed

text \<open>Two lists of files with one content digest are the same files, or a collision of SHA-256.\<close>

lemma recipeContentDigest_collision:
  assumes "recipeContentDigest L xs = recipeContentDigest L ys" "sha256_law L"
    and "list_all (\<lambda>p. length p < 256 ^ 8) xs" "list_all (\<lambda>p. length p < 256 ^ 8) ys"
  shows "xs = ys \<or> (framed xs \<noteq> framed ys \<and> Sum256 L (framed xs) = Sum256 L (framed ys))"
proof -
  have "Sum256 L (framed xs) = Sum256 L (framed ys)"
    using assms(1,2) by (intro EncodeToString_inj) (simp_all add: recipeContentDigest_def sha256_law_def)
  with framed_inj [OF _ assms(3,4)] show ?thesis by blast
qed

subsection \<open>A registry with one recipe\<close>

text \<open>A native recipe with two parameters; the decoders know the few documents of the example.\<close>

definition exproperty :: "string \<Rightarrow> string \<Rightarrow> jvalue option \<Rightarrow> rat option \<Rightarrow> propertySchema" where
  "exproperty type format dflt least = \<lparr>psc_Type = type, psc_Description = [], psc_Default = dflt, psc_Pattern = [],
     psc_Format = format, psc_Minimum = least, psc_ExclusiveMinimum = None, psc_Maximum = None, psc_MinLength = None, psc_MaxLength = None\<rparr>"

definition exschema :: parameterSchema where
  "exschema = \<lparr>sch_Type = ''object'', sch_AdditionalProperties = Some False,
     sch_Properties = [(''steps'', exproperty ''integer'' [] (Some (JNumber ''8'')) (Some 1)),
       (''namespace'', exproperty ''string'' ''namespace'' None None)], sch_Required = [''namespace'']\<rparr>"

definition exrecipe :: Definition where
  "exrecipe = \<lparr>df_Name = ''shell/hello'', df_Version = ''v1'', df_Description = ''hello'', df_Task = ''shell'', df_Backend = ''native'',
     df_Runtime = ''shell'', df_Manifest = ''m'', df_ParametersSchema = ''s'', df_Example = ''e'', df_Prerequisites = []\<rparr>"

definition exdigest :: "nat \<Rightarrow> string" where
  "exdigest n = ''sha256:'' @ EncodeToString (replicate 32 n)"

definition exrendered :: IdleloomWorkload where
  "exrendered = exworkload\<lparr>wl_Meta := (wl_Meta exworkload)\<lparr>
     om_Labels := [(managedByLabel, ''idleloom''), (runLabel, ''hello''), (taskLabel, ''shell''), (backendLabel, ''native''), (runtimeLabel, ''shell'')],
     om_Annotations := [(recipeAnno, ''shell/hello@v1''), (recipeDigestAnno, exdigest 27), (inputAnno, exdigest 5)]\<rparr>\<rparr>"

definition exrecipelib :: recipelib where
  "exrecipelib = \<lparr>rl_k8s = exlib, rl_DecodeSchema = (\<lambda>_. Inr (exschema, AtEnd)), rl_DecodeDefinition = (\<lambda>_. Inr exrecipe),
     rl_YAMLToJSON = Inr, rl_DecodeValues = (\<lambda>_. Inr (Some [(''namespace'', JString ''team'')])),
     rl_MarshalInput = (\<lambda>_ _ _ _. Inr ''input''), rl_Regexp = (\<lambda>_. Inr (\<lambda>_. True)), rl_ParseFloat = (\<lambda>_. None),
     rl_FormatFloat = (\<lambda>_. ''1''), rl_ParseQuantity = Some, rl_Parse = (\<lambda>_ _. None), rl_Execute = (\<lambda>_ _ _ _ _. Inr ''workload''),
     rl_Sprint = (\<lambda>_. ''value''), rl_MarshalString = Inr,
     rl_Documents = (\<lambda>text. ([text], None)), rl_DecodeObject = (\<lambda>_. Inr (KWorkload exrendered))\<rparr>"

definition exrecipeRead :: "string \<Rightarrow> string res" where
  "exrecipeRead path = (if path = ''t/recipe.yaml'' then Inr ''D'' else if path = ''t/m'' then Inr ''M'' else if path = ''t/s'' then Inr ''S''
     else if path = ''t/e'' then Inr ''E'' else Inl (ErrorString ''file does not exist''))"

definition exfiles :: "fsEntry list" where
  "exfiles = [\<lparr>fe_path = ''.'', fe_isDir = True, fe_name = ''.'', fe_err = None\<rparr>,
     \<lparr>fe_path = ''t/m'', fe_isDir = False, fe_name = ''m'', fe_err = None\<rparr>,
     \<lparr>fe_path = ''t/recipe.yaml'', fe_isDir = False, fe_name = ''recipe.yaml'', fe_err = None\<rparr>]"

definition exvalues :: "jvalue gomap" where
  "exvalues = [(''namespace'', JString ''team''), (''steps'', JNumber ''8'')]"

definition exregistry :: Registry where
  "exregistry = \<lparr>rg_entries = [(''shell/hello@v1'', \<lparr>en_definition = exrecipe, en_contentDigest = exdigest 27, en_template = ''M'',
     en_schema = exschema, en_example = ''E'', en_exampleValues = exvalues\<rparr>)], rg_ids = [''shell/hello@v1'']\<rparr>"

definition exrendering :: RenderResult where
  "exrendering = \<lparr>rr_Definition = exrecipe, rr_RecipeDigest = exdigest 27, rr_Values = exvalues, rr_InputDigest = exdigest 5,
     rr_Manifest = ''workload'' @ newline\<rparr>"

lemma exnormalize: "normalize exrecipelib exschema ''E'' = Inr exvalues"
  by code_simp

lemma exdigest_content: "recipeContentDigest exlib [''D'', ''S'', ''M''] = exdigest 27"
  by (simp add: recipeContentDigest_def exdigest_def exlib_def framed_def)

lemma exdefinition: "validateDefinition exrecipelib exrecipe = Inr ()"
  by code_simp

lemma exparsed: "parseParameterSchema exrecipelib ''S'' = Inr exschema"
  by code_simp

lemma exreferences:
  "readReferencedFile exrecipeRead ''t'' ''m'' = Inr ''M''" "readReferencedFile exrecipeRead ''t'' ''s'' = Inr ''S''"
  "readReferencedFile exrecipeRead ''t'' ''e'' = Inr ''E''" "exrecipeRead ''t/recipe.yaml'' = Inr ''D''" "filepath_Dir ''t/recipe.yaml'' = ''t''"
  by code_simp+

lemma exentry: "loadEntry exrecipelib exrecipeRead ''t/recipe.yaml'' = Inr (snd (hd (rg_entries exregistry)))"
proof -
  have "rl_DecodeDefinition exrecipelib ''D'' = Inr exrecipe" "rl_k8s exrecipelib = exlib"
    "df_Manifest exrecipe = ''m''" "df_ParametersSchema exrecipe = ''s''" "df_Example exrecipe = ''e''"
    by (simp_all add: exrecipelib_def exrecipe_def)
  then show ?thesis
    by (simp add: loadEntry_def exreferences exdefinition exparsed exnormalize exdigest_content withText_def Let_def exregistry_def)
qed

lemma exload: "Load exrecipelib exrecipeRead exfiles = Inr exregistry"
proof -
  have "definition_ID (en_definition (snd (hd (rg_entries exregistry)))) = ''shell/hello@v1''" by code_simp
  then show ?thesis
    by (simp add: Load_def exfiles_def exentry sort_Slice_def) (simp add: exregistry_def Let_def sort_Slice_def)
qed

lemma exrender: "Render exrecipelib exregistry ''shell/hello@v1'' ''hello'' ''E'' = Inr exrendering"
  by code_simp

theorem normalize_sound_witness:
  "\<exists>p. map_of (sch_Properties exschema) ''steps'' = Some p \<and> validateParameter exrecipelib ''steps'' (JNumber ''8'') p = Inr ()"
proof -
  have "map_of exvalues ''steps'' = Some (JNumber ''8'')" by (simp add: exvalues_def)
  with normalize_sound [OF exnormalize] show ?thesis by blast
qed

theorem Render_one_root_witness:
  "\<exists>item namespace objs. Registry_get exregistry ''shell/hello@v1'' = Inr item \<and> dnsLabel exrecipelib ''hello''
    \<and> rr_Definition exrendering = en_definition item
    \<and> map_of (rr_Values exrendering) ''namespace'' = Some (JString namespace) \<and> namespace \<noteq> []
    \<and> decodeAll exrecipelib (fst (rl_Documents exrecipelib (rr_Manifest exrendering))) = Inr objs
    \<and> list_all (\<lambda>obj. \<exists>m. metadataOf obj = Some m
        \<and> carriesRun (rr_Definition exrendering) (runData item ''shell/hello@v1'' ''hello'' namespace exrendering) m) objs
    \<and> (\<exists>root. filter executionRoot objs = [root]
        \<and> rootOk exrecipelib (rr_Definition exrendering) (runData item ''shell/hello@v1'' ''hello'' namespace exrendering) root)"
  by (rule Render_one_root [OF exrender])

theorem Load_wellformed_witness:
  "rg_ids exregistry \<noteq> [] \<and> sorted (rg_ids exregistry) \<and> distinct (rg_ids exregistry)
    \<and> list_all (\<lambda>rid. \<exists>en. Registry_get exregistry rid = Inr en \<and> definition_ID (en_definition en) = rid
        \<and> entryOk exrecipelib en) (rg_ids exregistry)
    \<and> map definition_ID (Registry_List exregistry) = rg_ids exregistry"
  by (rule Load_wellformed [OF exload])

end
