(* ===== verification/Mesh_Routes.thy ===== *)
theory Mesh_Routes
  imports Mesh_IP
begin

section \<open>Route safety of a mesh\<close>

text \<open>
  \<open>internal/native/wirekube/route_safety.go\<close> and the address checks of \<open>leaf.go\<close>: which mesh CIDR a
  host accepts, and that it overlaps neither a local network nor an endpoint the tunnel itself needs.
  A network is its address and the length of its prefix, as \<open>net.ParseCIDR\<close> returns them; the mask
  has the width of the address that was parsed.
\<close>

type_synonym IPNet = "IP \<times> int"

definition parseNetwork :: "string \<Rightarrow> (IP \<times> IPNet) option" where
  "parseNetwork s = map_option (\<lambda>(ip, ones). (ip, networkIP ip ones, ones)) (ParseCIDR s)"

definition ip_bytes :: "IP \<Rightarrow> int list" where
  "ip_bytes ip = (case To4 ip of
     Some os \<Rightarrow> os
   | None \<Rightarrow> (case ip of IPv4 os \<Rightarrow> os | IPv6 gs \<Rightarrow> concat (map (\<lambda>g. [g div 256, g mod 256]) gs)))"

definition IP_Equal :: "IP \<Rightarrow> IP \<Rightarrow> bool" where
  "IP_Equal a b \<longleftrightarrow> ip_bytes a = ip_bytes b"

definition cidrMaskByte :: "int \<Rightarrow> int \<Rightarrow> int" where
  "cidrMaskByte ones i =
     (let keep = ones - 8 * i in
      if keep \<ge> 8 then 255 else if keep \<le> 0 then 0 else 255 - 255 div 2 ^ nat keep)"

definition CIDRMask :: "int \<Rightarrow> int \<Rightarrow> int list" where
  "CIDRMask ones bits = map (cidrMaskByte ones) [0..bits div 8 - 1]"

text \<open>\<open>networkNumberAndMask\<close>: of an IPv4 network written as IPv6 the last four bytes of the mask count.\<close>

definition networkMask :: "IPNet \<Rightarrow> int list" where
  "networkMask n = (case n of (ip, ones) \<Rightarrow>
     let m = CIDRMask ones (BitLen ip) in if To4 ip \<noteq> None \<and> length m = 16 then drop 12 m else m)"

definition IPNet_Contains :: "IPNet \<Rightarrow> IP \<Rightarrow> bool" where
  "IPNet_Contains n ip =
     (let nn = ip_bytes (fst n); m = networkMask n; l = ip_bytes ip in
      length l = length nn \<and> list_all (\<lambda>i. nn ! i AND m ! i = l ! i AND m ! i) [0..<length l])"

text \<open>\<open>IP.String\<close> and \<open>IPNet.String\<close>: the longest run of zero groups of an IPv6 address, if it has two or more, is left out.\<close>

fun hexText :: "nat \<Rightarrow> int \<Rightarrow> string" \<comment> \<open>the digits a number below \<open>16 ^ n\<close> has\<close> where
  "hexText 0 g = []"
| "hexText (Suc n) g = (if g < 16 then [hex_digit (nat g)] else hexText n (g div 16) @ [hex_digit (nat (g mod 16))])"

definition zeroRun :: "int list \<Rightarrow> nat \<Rightarrow> nat" where
  "zeroRun gs i = length (takeWhile (\<lambda>g. g = 0) (drop i gs))"

definition IP_String :: "IP \<Rightarrow> string" where
  "IP_String ip = (case To4 ip of
     Some os \<Rightarrow> dotted os
   | None \<Rightarrow> (case ip of IPv4 os \<Rightarrow> dotted os | IPv6 gs \<Rightarrow>
       let texts = map (hexText 4) gs; best = fold max (map (zeroRun gs) [0..<length gs]) 0 in
       if best < 2 then Join texts '':''
       else let i = length (takeWhile (\<lambda>j. zeroRun gs j < best) [0..<length gs]) in
         Join (take i texts) '':'' @ ''::'' @ Join (drop (i + best) texts) '':''))"

definition IPNet_String :: "IPNet \<Rightarrow> string" where
  "IPNet_String n = IP_String (fst n) @ ''/'' @ FormatInt (if To4 (fst n) \<noteq> None \<and> BitLen (fst n) = 128 then snd n - 96 else snd n)"

subsection \<open>route_safety.go\<close>

definition cidrsOverlap :: "IPNet \<Rightarrow> IPNet \<Rightarrow> bool" where
  "cidrsOverlap left right \<longleftrightarrow> IPNet_Contains left (fst right) \<or> IPNet_Contains right (fst left)"

definition setBit :: "int list \<Rightarrow> nat \<Rightarrow> int list" where
  "setBit l b = l[b div 8 := l ! (b div 8) OR 2 ^ (7 - b mod 8)]"

definition cidrContainsNetwork :: "IPNet \<Rightarrow> IPNet \<Rightarrow> bool" where
  "cidrContainsNetwork parent child =
     (case (To4 (fst parent), To4 (fst child)) of
        (Some _, Some ip) \<Rightarrow>
          if BitLen (fst child) \<noteq> 32 then False
          else IPNet_Contains parent (fst child)
             \<and> IPNet_Contains parent (IPv4 (foldl setBit ip [nat (snd child)..<32]))
      | _ \<Rightarrow> False)"

definition safeMeshRanges :: "string list" where
  "safeMeshRanges = [''10.0.0.0/8'', ''172.16.0.0/12'', ''192.168.0.0/16'', ''100.64.0.0/10'', ''198.18.0.0/15'']"

definition isSafeMeshNetwork :: "IPNet \<Rightarrow> bool" where
  "isSafeMeshNetwork network = list_ex (\<lambda>v. case parseNetwork v of
     Some (_, allowed) \<Rightarrow> cidrContainsNetwork allowed network | None \<Rightarrow> False) safeMeshRanges"

definition validateLocalNetworkOverlap :: "string \<Rightarrow> IPNet list \<Rightarrow> unit res" where
  "validateLocalNetworkOverlap meshCIDR localNetworks =
     (case parseNetwork meshCIDR of
        None \<Rightarrow> Inl (ErrorString (''invalid CIDR address: '' @ meshCIDR))
      | Some (_, mesh) \<Rightarrow>
         (case find (\<lambda>l. To4 (fst l) \<noteq> None \<and> cidrsOverlap mesh l) localNetworks of
            Some l \<Rightarrow> Inl (ErrorString (''the WireKube mesh CIDR '' @ meshCIDR @ '' overlaps local interface network '' @ IPNet_String l))
          | None \<Rightarrow> Inr ()))"

text \<open>The interfaces of the host with their addresses in text form.\<close>

fun interfaceNetworks :: "string list \<Rightarrow> IPNet list" where
  "interfaceNetworks [] = []"
| "interfaceNetworks (a # rest) =
     (case parseNetwork a of
        Some (_, network) \<Rightarrow> if To4 (fst network) \<noteq> None then network # interfaceNetworks rest else interfaceNetworks rest
      | None \<Rightarrow> interfaceNetworks rest)"

fun localNetworks :: "(string \<times> string list res) list \<Rightarrow> IPNet list res" where
  "localNetworks [] = Inr []"
| "localNetworks ((name, addrs) # rest) =
     (case addrs of
        Inl e \<Rightarrow> Inl (WrapError (''list addresses for '' @ name @ '': '') e [])
      | Inr texts \<Rightarrow> bind_res (localNetworks rest) (\<lambda>ns. Inr (interfaceNetworks texts @ ns)))"

definition localInterfaceNetworks :: "(string \<times> string list res) list res \<Rightarrow> IPNet list res" where
  "localInterfaceNetworks interfaces =
     (case interfaces of
        Inl e \<Rightarrow> Inl (WrapError ''list local interfaces: '' e [])
      | Inr ifs \<Rightarrow> localNetworks ifs)"

definition validateEndpointOutsideMesh :: "string \<Rightarrow> IP list \<Rightarrow> string \<Rightarrow> unit res" where
  "validateEndpointOutsideMesh meshCIDR addresses label =
     (case parseNetwork meshCIDR of
        None \<Rightarrow> Inl (ErrorString (''invalid CIDR address: '' @ meshCIDR))
      | Some (_, mesh) \<Rightarrow>
         (case find (IPNet_Contains mesh) addresses of
            Some a \<Rightarrow> Inl (ErrorString (label @ '' address '' @ IP_String a @ '' is inside routed WireKube mesh CIDR '' @ meshCIDR))
          | None \<Rightarrow> Inr ()))"

subsection \<open>leaf.go and meship.go\<close>

definition validateMeshCIDR :: "string \<Rightarrow> unit res" where
  "validateMeshCIDR v =
     (case parseNetwork v of
        Some (ip, network) \<Rightarrow>
          if To4 ip = None then Inl (ErrorString (''the WireKube meshCIDR '' @ fmt_q v @ '' must be a valid IPv4 CIDR''))
          else if BitLen (fst network) \<noteq> 32 \<or> snd network > 30 then Inl (ErrorString (''the WireKube meshCIDR '' @ fmt_q v @ '' is too small''))
          else if \<not> isSafeMeshNetwork network
          then Inl (ErrorString (''the WireKube meshCIDR '' @ fmt_q v @ '' must be contained in RFC1918, CGNAT, or benchmark address space''))
          else Inr ()
      | None \<Rightarrow> Inl (ErrorString (''the WireKube meshCIDR '' @ fmt_q v @ '' must be a valid IPv4 CIDR'')))"

text \<open>The mesh CIDR was validated before; \<open>Contains\<close> of a nil network panics.\<close>

definition validateAssignedAddress :: "string \<Rightarrow> string \<Rightarrow> unit res" where
  "validateAssignedAddress address meshCIDR =
     (case parseNetwork address of
        Some (ip, network) \<Rightarrow>
          if To4 ip = None then Inl (ErrorString (''assigned mesh address '' @ fmt_q address @ '' is not an IPv4 CIDR''))
          else if BitLen (fst network) \<noteq> 32 \<or> snd network \<noteq> 32 then Inl (ErrorString (''assigned mesh address '' @ fmt_q address @ '' must be a /32''))
          else (case parseNetwork meshCIDR of
            None \<Rightarrow> Inl (ErrorString ''panic: nil pointer dereference'')
          | Some (_, mesh) \<Rightarrow>
             if \<not> IPNet_Contains mesh ip then Inl (ErrorString (''assigned mesh address '' @ fmt_q address @ '' is outside '' @ meshCIDR))
             else Inr ())
      | None \<Rightarrow> Inl (ErrorString (''assigned mesh address '' @ fmt_q address @ '' is not an IPv4 CIDR'')))"

definition sameIP :: "string \<Rightarrow> IP \<Rightarrow> bool" where
  "sameIP v expected = (case parseNetwork v of Some (ip, _) \<Rightarrow> IP_Equal ip expected | None \<Rightarrow> False)"

definition routeContainsIP :: "string \<Rightarrow> IP \<Rightarrow> bool" where
  "routeContainsIP v expected =
     (case ParseAddr v of
        Some ip \<Rightarrow> IP_Equal ip expected
      | None \<Rightarrow> (case parseNetwork v of Some (_, network) \<Rightarrow> IPNet_Contains network expected | None \<Rightarrow> False))"

lemma route_examples:
  "map isSafeMeshNetwork (map (\<lambda>s. snd (the (parseNetwork s))) [''10.1.0.0/16'', ''172.16.0.0/11'', ''100.64.0.0/10'', ''8.8.8.0/24''])
     = [True, False, True, False]"
  "routeContainsIP ''10.1.0.0/16'' (IPv4 [10, 1, 2, 3])" "\<not> routeContainsIP ''10.1.2.4'' (IPv4 [10, 1, 2, 3])"
  "routeContainsIP ''::ffff:10.1.0.0/112'' (IPv4 [10, 1, 2, 3])"
  "map IP_String [IPv6 [0xfe80, 0, 0, 0, 1, 0, 0, 0x2ab], IPv6 [1, 2, 3, 4, 5, 6, 7, 8], IPv6 [0, 0, 0, 0, 0, 0, 0, 1], IPv4 [10, 0, 0, 1]]
     = [''fe80::1:0:0:2ab'', ''1:2:3:4:5:6:7:8'', ''::1'', ''10.0.0.1'']"
  by code_simp+

subsection \<open>Prefixes bit by bit\<close>

text \<open>Bit \<open>b\<close> of an address, the most significant one first.\<close>

definition bitAt :: "int list \<Rightarrow> nat \<Rightarrow> bool" where
  "bitAt bs b \<longleftrightarrow> bit (bs ! (b div 8)) (7 - b mod 8)"

definition net4 :: "IPNet \<Rightarrow> int list \<Rightarrow> nat \<Rightarrow> bool" where
  "net4 n os ones \<longleftrightarrow> n = (IPv4 os, int ones) \<and> is_octets os \<and> ones \<le> 32 \<and> (\<forall>b. ones \<le> b \<and> b < 32 \<longrightarrow> \<not> bitAt os b)"

lemma bit_mask_byte: "bit (cidrMaskByte ones i) j \<longleftrightarrow> j < 8 \<and> 8 * i + 7 - int j < ones"
proof -
  let ?keep = "ones - 8 * i"
  have full: "(255 :: int) = mask 8" by (simp add: mask_eq_exp_minus_1)
  consider "?keep \<ge> 8" | "?keep \<le> 0" | "0 < ?keep" "?keep < 8" by linarith
  then show ?thesis
  proof cases
    case 1
    then have "cidrMaskByte ones i = mask 8" by (simp only: cidrMaskByte_def Let_def if_True full)
    with 1 show ?thesis by (auto simp: bit_mask_iff)
  next
    case 2
    then have "cidrMaskByte ones i = 0" by (simp add: cidrMaskByte_def Let_def)
    with 2 show ?thesis by auto
  next
    case 3
    define k where "k = nat ?keep"
    have k: "0 < k" "k < 8" "?keep = int k" using 3 by (auto simp: k_def)
    then have "k \<in> {1, 2, 3, 4, 5, 6, 7}" by auto
    then have "255 - 255 div 2 ^ k = (push_bit (8 - k) (mask k) :: int)"
      by (elim insertE) (simp_all add: mask_eq_exp_minus_1 push_bit_eq_mult)
    then have "cidrMaskByte ones i = push_bit (8 - k) (mask k)" using 3 by (simp add: cidrMaskByte_def Let_def k_def)
    then show ?thesis using k by (auto simp: bit_push_bit_iff bit_mask_iff)
  qed
qed

lemma bit_maskPart: "j < 8 \<Longrightarrow> bit (maskPart 8 ones i part) j \<longleftrightarrow> bit part j \<and> 8 * i + 7 - int j < ones"
  by (auto simp: maskPart_def Let_def push_bit_eq_mult [symmetric] drop_bit_eq_div [symmetric] bit_push_bit_iff bit_drop_bit_eq)

lemma octet_bit: "0 \<le> d \<Longrightarrow> d < 256 \<Longrightarrow> bit (d :: int) j \<Longrightarrow> j < 8"
proof (rule ccontr)
  assume d: "0 \<le> d" "d < 256" "bit d j" and "\<not> j < 8"
  then have "(2 :: int) ^ 8 \<le> 2 ^ j" by (intro power_increasing) simp_all
  with d have "d div 2 ^ j = 0" by (intro div_pos_pos_trivial) simp_all
  with d(3) show False by (simp add: bit_iff_odd)
qed

lemma bit_position:
  fixes i j :: nat
  assumes "j < 8"
  shows "(8 * i + (7 - j)) div 8 = i" "7 - (8 * i + (7 - j)) mod 8 = j"
proof -
  have "(8 * i + c) div 8 = i \<and> (8 * i + c) mod 8 = c" if "c < 8" for c using that by simp
  from this [of "7 - j"] assms show "(8 * i + (7 - j)) div 8 = i" "7 - (8 * i + (7 - j)) mod 8 = j" by simp_all
qed

lemma all_less_4: "(\<forall>i < 4. P i) \<longleftrightarrow> P 0 \<and> P 1 \<and> P 2 \<and> P (3 :: nat)"
  by (auto simp: numeral_eq_Suc less_Suc_eq)

lemma octets_eqI:
  assumes "is_octets xs" and "is_octets ys" and "\<forall>b < 32. bitAt xs b = bitAt ys b"
  shows "xs = ys"
proof (rule nth_equalityI)
  show "length xs = length ys" using assms by (simp add: is_octets_def)
  fix i assume "i < length xs"
  then have i: "i < 4" using assms by (simp add: is_octets_def)
  have r: "0 \<le> xs ! i" "xs ! i < 256" "0 \<le> ys ! i" "ys ! i < 256"
    using assms i by (auto simp: is_octets_def list_all_length)
  show "xs ! i = ys ! i"
  proof (rule bit_eqI)
    fix j
    show "bit (xs ! i) j = bit (ys ! i) j"
    proof (cases "j < 8")
      case True
      have "8 * i + (7 - j) < 32" using True i by simp
      with assms(3) have "bitAt xs (8 * i + (7 - j)) = bitAt ys (8 * i + (7 - j))" by blast
      then show ?thesis unfolding bitAt_def bit_position [OF True] .
    next
      case False
      with octet_bit r show ?thesis by metis
    qed
  qed
qed

lemma CIDRMask_32: "CIDRMask ones 32 = map (cidrMaskByte ones) [0, 1, 2, 3]"
  by (simp add: CIDRMask_def upto.simps)

lemma Contains4:
  assumes "is_octets os" and "is_octets xs"
  shows "IPNet_Contains (IPv4 os, int ones) (IPv4 xs) \<longleftrightarrow> (\<forall>b < min ones 32. bitAt xs b = bitAt os b)"
proof -
  have len: "length os = 4" "length xs = 4" using assms by (simp_all add: is_octets_def)
  have "IPNet_Contains (IPv4 os, int ones) (IPv4 xs) \<longleftrightarrow>
      (\<forall>i < 4. os ! i AND cidrMaskByte (int ones) (int i) = xs ! i AND cidrMaskByte (int ones) (int i))"
    unfolding all_less_4
    by (simp add: IPNet_Contains_def ip_bytes_def To4_def networkMask_def BitLen_def CIDRMask_32 Let_def len upt_rec [of _ 4])
      (simp add: numeral_2_eq_2 numeral_3_eq_3)
  also have "\<dots> \<longleftrightarrow> (\<forall>i < 4. \<forall>j < 8. 8 * i + 7 - j < ones \<longrightarrow> bit (xs ! i) j = bit (os ! i) j)"
  proof -
    have "8 * int i + 7 - int j < int ones \<longleftrightarrow> 8 * i + 7 - j < ones" if "j < 8" for i j using that by auto
    then have "os ! i AND cidrMaskByte (int ones) (int i) = xs ! i AND cidrMaskByte (int ones) (int i)
        \<longleftrightarrow> (\<forall>j < 8. 8 * i + 7 - j < ones \<longrightarrow> bit (xs ! i) j = bit (os ! i) j)" for i
      unfolding bit_eq_iff bit_and_iff bit_mask_byte by (auto simp: possible_bit_def)
    then show ?thesis by blast
  qed
  also have "\<dots> \<longleftrightarrow> (\<forall>b < min ones 32. bitAt xs b = bitAt os b)"
  proof
    assume l: "\<forall>i < 4. \<forall>j < 8. 8 * i + 7 - j < ones \<longrightarrow> bit (xs ! i) j = bit (os ! i) j"
    show "\<forall>b < min ones 32. bitAt xs b = bitAt os b"
    proof (intro allI impI)
      fix b assume b: "b < min ones 32"
      have "b div 8 < 4" "7 - b mod 8 < 8" "8 * (b div 8) + 7 - (7 - b mod 8) < ones" using b by auto
      with l show "bitAt xs b = bitAt os b" by (simp add: bitAt_def)
    qed
  next
    assume r: "\<forall>b < min ones 32. bitAt xs b = bitAt os b"
    show "\<forall>i < 4. \<forall>j < 8. 8 * i + 7 - j < ones \<longrightarrow> bit (xs ! i) j = bit (os ! i) j"
    proof (intro allI impI)
      fix i j :: nat
      assume "i < 4" "j < 8" "8 * i + 7 - j < ones"
      then have j: "j < 8" and "8 * i + (7 - j) < min ones 32" by auto
      with r have "bitAt xs (8 * i + (7 - j)) = bitAt os (8 * i + (7 - j))" by blast
      then show "bit (xs ! i) j = bit (os ! i) j" unfolding bitAt_def bit_position [OF j] .
    qed
  qed
  finally show ?thesis .
qed

lemma setBit_octets:
  assumes "is_octets l" and "b < 32"
  shows "is_octets (setBit l b)" and "c < 32 \<Longrightarrow> bitAt (setBit l b) c \<longleftrightarrow> c = b \<or> bitAt l c"
proof -
  have len: "length l = 4" and i: "b div 8 < 4" using assms by (simp_all add: is_octets_def)
  have r: "0 \<le> l ! (b div 8)" "l ! (b div 8) < 256" using assms(1) i by (auto simp: is_octets_def list_all_length)
  have "(2 :: int) ^ (7 - b mod 8) < 2 ^ 8" by (rule power_strict_increasing) simp_all
  then have "l ! (b div 8) OR 2 ^ (7 - b mod 8) < 2 ^ 8"
    using r by (intro OR_upper) simp_all
  moreover have "0 \<le> l ! (b div 8) OR 2 ^ (7 - b mod 8)" using r by simp
  ultimately show "is_octets (setBit l b)"
    using assms(1) i by (auto simp: is_octets_def setBit_def list_all_length nth_list_update)
  show "bitAt (setBit l b) c \<longleftrightarrow> c = b \<or> bitAt l c" if "c < 32"
  proof (cases "c div 8 = b div 8")
    case True
    have "7 - b mod 8 = 7 - c mod 8 \<longleftrightarrow> b mod 8 = c mod 8" by auto
    moreover have "b mod 8 = c mod 8 \<longleftrightarrow> b = c" using True by (metis mult_div_mod_eq)
    ultimately show ?thesis
      using True i by (auto simp: bitAt_def setBit_def len bit_or_iff bit_exp_iff)
  next
    case False
    then have "c \<noteq> b" by auto
    with False show ?thesis by (simp add: bitAt_def setBit_def)
  qed
qed

lemma setBits_octets:
  assumes "is_octets l" and "\<forall>b \<in> set bs. b < 32"
  shows "is_octets (foldl setBit l bs) \<and> (\<forall>c < 32. bitAt (foldl setBit l bs) c \<longleftrightarrow> c \<in> set bs \<or> bitAt l c)"
  using assms
proof (induction bs arbitrary: l)
  case (Cons b bs)
  have b: "b < 32" using Cons.prems by simp
  have "is_octets (foldl setBit (setBit l b) bs) \<and> (\<forall>c < 32. bitAt (foldl setBit (setBit l b) bs) c \<longleftrightarrow> c \<in> set bs \<or> bitAt (setBit l b) c)"
    using Cons.prems setBit_octets(1) [OF Cons.prems(1) b] by (intro Cons.IH) auto
  with setBit_octets(2) [OF Cons.prems(1) b] show ?case by auto
qed simp

text \<open>Two addresses and a length: the address with the first bits of one and the rest of the other.\<close>

lemma octets_extend:
  assumes "is_octets os"
  shows "is_octets (foldl setBit os [n..<32]) \<and> (\<forall>c < 32. bitAt (foldl setBit os [n..<32]) c \<longleftrightarrow> n \<le> c \<or> bitAt os c)"
  using setBits_octets [OF assms, of "[n..<32]"] by auto

lemma cidrContainsNetwork_prefix:
  assumes "net4 p ps m" and "net4 c cs n"
  shows "cidrContainsNetwork p c \<longleftrightarrow> m \<le> n \<and> (\<forall>b < m. bitAt cs b = bitAt ps b)"
proof -
  from assms have o: "is_octets ps" "is_octets cs" "m \<le> 32" "n \<le> 32" by (auto simp: net4_def)
  have clear: "\<not> bitAt cs b" if "n \<le> b" "b < 32" for b using that assms(2) by (simp add: net4_def)
  note e = octets_extend [OF o(2), of n]
  have "cidrContainsNetwork p c \<longleftrightarrow> (\<forall>b < m. bitAt cs b = bitAt ps b) \<and> (\<forall>b < m. bitAt (foldl setBit cs [n..<32]) b = bitAt ps b)"
    using assms o e by (simp add: net4_def cidrContainsNetwork_def To4_def BitLen_def Contains4 min_absorb1)
  also have "\<dots> \<longleftrightarrow> m \<le> n \<and> (\<forall>b < m. bitAt cs b = bitAt ps b)"
  proof (intro iffI conjI)
    assume l: "(\<forall>b < m. bitAt cs b = bitAt ps b) \<and> (\<forall>b < m. bitAt (foldl setBit cs [n..<32]) b = bitAt ps b)"
    show "m \<le> n"
    proof (rule ccontr)
      assume "\<not> m \<le> n"
      then have "bitAt (foldl setBit cs [n..<32]) n = bitAt cs n" using l by simp
      with e clear [of n] \<open>\<not> m \<le> n\<close> o(3) show False by auto
    qed
    show "\<forall>b < m. bitAt cs b = bitAt ps b" using l by blast
  next
    assume r: "m \<le> n \<and> (\<forall>b < m. bitAt cs b = bitAt ps b)"
    then show "\<forall>b < m. bitAt cs b = bitAt ps b" by blast
    from r e o(3) show "\<forall>b < m. bitAt (foldl setBit cs [n..<32]) b = bitAt ps b" by auto
  qed
  finally show ?thesis .
qed

lemma network_self: "net4 c cs n \<Longrightarrow> IPNet_Contains c (IPv4 cs)"
  by (auto simp: net4_def Contains4)

lemma cidrContainsNetwork_iff:
  assumes "net4 p ps m" and "net4 c cs n"
  shows "cidrContainsNetwork p c \<longleftrightarrow> (\<forall>xs. is_octets xs \<longrightarrow> IPNet_Contains c (IPv4 xs) \<longrightarrow> IPNet_Contains p (IPv4 xs))"
proof -
  from assms have o: "is_octets ps" "is_octets cs" "m \<le> 32" "n \<le> 32" "p = (IPv4 ps, int m)" "c = (IPv4 cs, int n)"
    by (auto simp: net4_def)
  show ?thesis
  proof
    assume "cidrContainsNetwork p c"
    then have "m \<le> n" "\<forall>b < m. bitAt cs b = bitAt ps b" by (simp_all add: cidrContainsNetwork_prefix [OF assms])
    then show "\<forall>xs. is_octets xs \<longrightarrow> IPNet_Contains c (IPv4 xs) \<longrightarrow> IPNet_Contains p (IPv4 xs)"
      using o by (auto simp: Contains4 min_absorb1)
  next
    assume all: "\<forall>xs. is_octets xs \<longrightarrow> IPNet_Contains c (IPv4 xs) \<longrightarrow> IPNet_Contains p (IPv4 xs)"
    note e = octets_extend [OF o(2), of n]
    have "IPNet_Contains c (IPv4 (foldl setBit cs [n..<32]))" using e o by (simp add: Contains4 min_absorb1)
    with all e have "IPNet_Contains p (IPv4 (foldl setBit cs [n..<32]))" by blast
    moreover have "IPNet_Contains p (IPv4 cs)" using all o(2) network_self [OF assms(2)] by blast
    ultimately show "cidrContainsNetwork p c" using o by (simp add: cidrContainsNetwork_def To4_def BitLen_def)
  qed
qed

lemma cidrsOverlap_iff:
  assumes "net4 p ps m" and "net4 c cs n"
  shows "cidrsOverlap p c \<longleftrightarrow> (\<exists>xs. is_octets xs \<and> IPNet_Contains p (IPv4 xs) \<and> IPNet_Contains c (IPv4 xs))"
proof -
  from assms have o: "is_octets ps" "is_octets cs" "m \<le> 32" "n \<le> 32" "p = (IPv4 ps, int m)" "c = (IPv4 cs, int n)"
    by (auto simp: net4_def)
  show ?thesis
  proof
    assume "cidrsOverlap p c"
    then show "\<exists>xs. is_octets xs \<and> IPNet_Contains p (IPv4 xs) \<and> IPNet_Contains c (IPv4 xs)"
      using o network_self [OF assms(1)] network_self [OF assms(2)] by (auto simp: cidrsOverlap_def)
  next
    assume "\<exists>xs. is_octets xs \<and> IPNet_Contains p (IPv4 xs) \<and> IPNet_Contains c (IPv4 xs)"
    then obtain xs where x: "\<forall>b < m. bitAt xs b = bitAt ps b" "\<forall>b < n. bitAt xs b = bitAt cs b"
      using o by (auto simp: Contains4 min_absorb1)
    then have "(\<forall>b < m. bitAt cs b = bitAt ps b) \<or> (\<forall>b < n. bitAt ps b = bitAt cs b)"
      by (cases "m \<le> n") auto
    then show "cidrsOverlap p c" using o by (auto simp: cidrsOverlap_def Contains4 min_absorb1)
  qed
qed

subsection \<open>Parsed networks\<close>

lemma parseOctet_range: "parseOctet f = Some d \<Longrightarrow> 0 \<le> d \<and> d < 256"
  by (auto simp: parseOctet_def split: if_splits option.splits dest: parse_digits_nonneg)

lemma those_list_all: "those_list xs = Some ys \<Longrightarrow> (\<And>x. Some x \<in> set xs \<Longrightarrow> P x) \<Longrightarrow> list_all P ys"
  by (induction xs arbitrary: ys rule: those_list.induct) auto

lemma parseIPv4_octets: "parseIPv4 t = Some os \<Longrightarrow> is_octets os"
  by (auto simp: parseIPv4_def Let_def is_octets_def split: if_splits dest: length_those_list
      intro!: those_list_all [of "map parseOctet (splitOn (CHR ''.'') t)"] dest!: parseOctet_range [OF sym])

lemma ParseCIDR_octets: "ParseCIDR t = Some (IPv4 os, n) \<Longrightarrow> is_octets os"
  by (auto simp: ParseCIDR_def ParseAddr_def Let_def split: if_splits option.splits list.splits dest: parseIPv4_octets)

lemma networkIP4:
  assumes "is_octets os" and "0 \<le> n"
  shows "is_octets (map2 (maskPart 8 n) [0, 1, 2, 3] os)"
    and "b < 32 \<Longrightarrow> bitAt (map2 (maskPart 8 n) [0, 1, 2, 3] os) b \<longleftrightarrow> bitAt os b \<and> b < nat n"
proof -
  have part: "0 \<le> maskPart 8 n i d \<and> maskPart 8 n i d < 256" if "0 \<le> d" "d < 256" for i d
  proof -
    have "d div 2 ^ k * 2 ^ k \<le> d" for k by (simp add: minus_mod_eq_div_mult [symmetric])
    moreover have "0 \<le> d div 2 ^ k" for k using that by (simp add: pos_imp_zdiv_nonneg_iff)
    ultimately show ?thesis using that by (auto simp: maskPart_def Let_def intro: le_less_trans)
  qed
  obtain x y z w where os: "os = [x, y, z, w]" "0 \<le> x" "x < 256" "0 \<le> y" "y < 256" "0 \<le> z" "z < 256" "0 \<le> w" "w < 256"
    using assms(1) by (rule is_octets_cases)
  show "is_octets (map2 (maskPart 8 n) [0, 1, 2, 3] os)" using os part by (simp add: is_octets_def)
  have nth: "map2 (maskPart 8 n) [0, 1, 2, 3] os ! i = maskPart 8 n (int i) (os ! i)" if "i < 4" for i
    using that by (auto simp: os(1) numeral_eq_Suc less_Suc_eq)
  show "bitAt (map2 (maskPart 8 n) [0, 1, 2, 3] os) b \<longleftrightarrow> bitAt os b \<and> b < nat n" if "b < 32"
  proof -
    have i: "b div 8 < 4" using that by simp
    have "8 * int (b div 8) + int (b mod 8) = int b" by (metis mult_div_mod_eq of_nat_add of_nat_mult of_nat_numeral)
    then have "8 * int (b div 8) + 7 - int (7 - b mod 8) = int b" by simp
    then show ?thesis using assms(2) by (simp add: bitAt_def nth [OF i] bit_maskPart zless_nat_eq_int_zless)
  qed
qed

lemma parseNetwork_net4:
  assumes "parseNetwork t = Some (ip, network)" and "BitLen (fst network) = 32"
  shows "\<exists>os n. ParseCIDR t = Some (IPv4 os, int n) \<and> ip = IPv4 os
    \<and> net4 network (map2 (maskPart 8 (int n)) [0, 1, 2, 3] os) n"
proof -
  from assms obtain n where c: "ParseCIDR t = Some (ip, n)" and net: "network = (networkIP ip n, n)"
    by (auto simp: parseNetwork_def)
  then obtain os where ip: "ip = IPv4 os" using assms(2) by (cases ip) (auto simp: networkIP_def BitLen_def)
  have n: "0 \<le> n" "n \<le> 32" using ParseCIDR_shape [OF c] by (auto simp: ip BitLen_def)
  have os: "is_octets os" using ParseCIDR_octets c ip by blast
  have "net4 network (map2 (maskPart 8 n) [0, 1, 2, 3] os) (nat n)"
    using networkIP4 [OF os n(1)] n by (auto simp: net4_def net networkIP_def ip)
  with c ip n(1) show ?thesis by (intro exI [of _ os] exI [of _ "nat n"]) simp
qed

subsection \<open>Every address of an accepted mesh is private\<close>

definition privateOctets :: "int list \<Rightarrow> bool" where
  "privateOctets os = (case os of [a, b, c, d] \<Rightarrow>
       a = 10 \<or> a = 172 \<and> 16 \<le> b \<and> b \<le> 31 \<or> a = 192 \<and> b = 168 \<or> a = 100 \<and> 64 \<le> b \<and> b \<le> 127 \<or> a = 198 \<and> 18 \<le> b \<and> b \<le> 19
     | _ \<Rightarrow> False)"

lemma masked_octets:
  "list_all (\<lambda>b. b AND 255 = b \<and> (16 AND 240 = b AND 240 \<longrightarrow> 16 \<le> b \<and> b \<le> 31) \<and> (64 AND 192 = b AND 192 \<longrightarrow> 64 \<le> b \<and> b \<le> 127)
     \<and> (18 AND 254 = b AND 254 \<longrightarrow> 18 \<le> b \<and> b \<le> 19)) [0..255 :: int]"
  by code_simp

lemma safe_range_private:
  assumes "r \<in> set safeMeshRanges" and "parseNetwork r = Some (ip, allowed)" and "is_octets xs" and "IPNet_Contains allowed (IPv4 xs)"
  shows "privateOctets xs"
proof -
  obtain a b c d where xs: "xs = [a, b, c, d]" and r: "0 \<le> a" "a < 256" "0 \<le> b" "b < 256"
    using assms(3) by (rule is_octets_cases)
  have m: "x AND 255 = x \<and> (16 AND 240 = x AND 240 \<longrightarrow> 16 \<le> x \<and> x \<le> 31) \<and> (64 AND 192 = x AND 192 \<longrightarrow> 64 \<le> x \<and> x \<le> 127)
     \<and> (18 AND 254 = x AND 254 \<longrightarrow> 18 \<le> x \<and> x \<le> 19)" if "0 \<le> x" "x < 256" for x :: int
    using masked_octets that by (simp add: list_all_iff)
  have nets: "parseNetwork ''10.0.0.0/8'' = Some (IPv4 [10, 0, 0, 0], IPv4 [10, 0, 0, 0], 8)"
    "parseNetwork ''172.16.0.0/12'' = Some (IPv4 [172, 16, 0, 0], IPv4 [172, 16, 0, 0], 12)"
    "parseNetwork ''192.168.0.0/16'' = Some (IPv4 [192, 168, 0, 0], IPv4 [192, 168, 0, 0], 16)"
    "parseNetwork ''100.64.0.0/10'' = Some (IPv4 [100, 64, 0, 0], IPv4 [100, 64, 0, 0], 10)"
    "parseNetwork ''198.18.0.0/15'' = Some (IPv4 [198, 18, 0, 0], IPv4 [198, 18, 0, 0], 15)"
    by code_simp+
  have contains: "IPNet_Contains (IPv4 [p, q, s, t], n) (IPv4 xs) \<Longrightarrow>
      p AND cidrMaskByte n 0 = a AND cidrMaskByte n 0 \<and> q AND cidrMaskByte n 1 = b AND cidrMaskByte n 1" for p q s t n
    by (simp add: xs IPNet_Contains_def ip_bytes_def To4_def networkMask_def BitLen_def CIDRMask_32 Let_def upt_rec [of _ "Suc _"])
  have bytes: "cidrMaskByte 8 0 = 255" "cidrMaskByte 12 0 = 255" "cidrMaskByte 12 1 = 240" "cidrMaskByte 16 0 = 255" "cidrMaskByte 16 1 = 255"
    "cidrMaskByte 10 0 = 255" "cidrMaskByte 10 1 = 192" "cidrMaskByte 15 0 = 255" "cidrMaskByte 15 1 = 254"
    by code_simp+
  have "r = ''10.0.0.0/8'' \<or> r = ''172.16.0.0/12'' \<or> r = ''192.168.0.0/16'' \<or> r = ''100.64.0.0/10'' \<or> r = ''198.18.0.0/15''"
    using assms(1) by (simp only: safeMeshRanges_def list.set insert_iff empty_iff simp_thms)
  moreover have "IPNet_Contains (IPv4 [10, 0, 0, 0], 8) (IPv4 xs) \<Longrightarrow> privateOctets xs"
    using contains [of 10 0 0 0 8] m [OF r(1,2)] by (simp add: bytes privateOctets_def xs)
  moreover have "IPNet_Contains (IPv4 [172, 16, 0, 0], 12) (IPv4 xs) \<Longrightarrow> privateOctets xs"
    using contains [of 172 16 0 0 12] m [OF r(1,2)] m [OF r(3,4)] by (simp add: bytes privateOctets_def xs)
  moreover have "IPNet_Contains (IPv4 [192, 168, 0, 0], 16) (IPv4 xs) \<Longrightarrow> privateOctets xs"
    using contains [of 192 168 0 0 16] m [OF r(1,2)] m [OF r(3,4)] by (simp add: bytes privateOctets_def xs)
  moreover have "IPNet_Contains (IPv4 [100, 64, 0, 0], 10) (IPv4 xs) \<Longrightarrow> privateOctets xs"
    using contains [of 100 64 0 0 10] m [OF r(1,2)] m [OF r(3,4)] by (simp add: bytes privateOctets_def xs)
  moreover have "IPNet_Contains (IPv4 [198, 18, 0, 0], 15) (IPv4 xs) \<Longrightarrow> privateOctets xs"
    using contains [of 198 18 0 0 15] m [OF r(1,2)] m [OF r(3,4)] by (simp add: bytes privateOctets_def xs)
  ultimately show ?thesis
    using assms(2,4) by (elim disjE) (simp_all add: nets, auto)
qed

lemma validateMeshCIDR_Inr:
  assumes "validateMeshCIDR meshCIDR = Inr ()"
  shows "\<exists>os n. ParseCIDR meshCIDR = Some (IPv4 os, int n) \<and> n \<le> 30
    \<and> net4 (networkIP (IPv4 os) (int n), int n) (map2 (maskPart 8 (int n)) [0, 1, 2, 3] os) n
    \<and> isSafeMeshNetwork (networkIP (IPv4 os) (int n), int n)"
proof -
  from assms obtain ip network where p: "parseNetwork meshCIDR = Some (ip, network)" and b: "BitLen (fst network) = 32"
    and s: "snd network \<le> 30" "isSafeMeshNetwork network"
    by (auto simp: validateMeshCIDR_def split: option.splits if_splits)
  from parseNetwork_net4 [OF p b] obtain os n where c: "ParseCIDR meshCIDR = Some (IPv4 os, int n)"
    and n: "net4 network (map2 (maskPart 8 (int n)) [0, 1, 2, 3] os) n" by blast
  have "network = (networkIP (IPv4 os) (int n), int n)" using p c by (auto simp: parseNetwork_def)
  with c n s show ?thesis by (intro exI [of _ os] exI [of _ n]) auto
qed

lemma mesh_address_private:
  assumes "validateMeshCIDR meshCIDR = Inr ()" and "parseNetwork meshCIDR = Some (ip, mesh)"
    and "is_octets xs" and "IPNet_Contains mesh (IPv4 xs)"
  shows "privateOctets xs"
proof -
  from validateMeshCIDR_Inr [OF assms(1)] obtain os n where c: "ParseCIDR meshCIDR = Some (IPv4 os, int n)"
    and n: "net4 (networkIP (IPv4 os) (int n), int n) (map2 (maskPart 8 (int n)) [0, 1, 2, 3] os) n"
    and s: "isSafeMeshNetwork (networkIP (IPv4 os) (int n), int n)" by blast
  have mesh: "mesh = (networkIP (IPv4 os) (int n), int n)" using assms(2) c by (auto simp: parseNetwork_def)
  from s obtain r rip allowed where r: "r \<in> set safeMeshRanges" "parseNetwork r = Some (rip, allowed)" "cidrContainsNetwork allowed mesh"
    by (auto simp: isSafeMeshNetwork_def mesh list_ex_iff split: option.splits)
  have "list_all (\<lambda>r. case parseNetwork r of Some (_, a) \<Rightarrow> BitLen (fst a) = 32 | None \<Rightarrow> False) safeMeshRanges" by code_simp
  with r(1,2) have "BitLen (fst allowed) = 32" by (auto simp: list_all_iff)
  from parseNetwork_net4 [OF r(2) this] obtain ps m where "net4 allowed ps m" by blast
  from cidrContainsNetwork_iff [OF this] n r(3) assms(3,4) have "IPNet_Contains allowed (IPv4 xs)" by (simp add: mesh)
  then show ?thesis by (rule safe_range_private [OF r(1,2) assms(3)])
qed

lemma mesh_prefix:
  assumes "validateMeshCIDR meshCIDR = Inr ()" and "ParseCIDR meshCIDR = Some (IPv4 os, int n)"
  shows "8 \<le> n"
proof -
  from validateMeshCIDR_Inr [OF assms(1)] assms(2)
  have net: "net4 (networkIP (IPv4 os) (int n), int n) (map2 (maskPart 8 (int n)) [0, 1, 2, 3] os) n"
    and s: "isSafeMeshNetwork (networkIP (IPv4 os) (int n), int n)" by auto
  from s obtain r rip allowed where r: "r \<in> set safeMeshRanges" "parseNetwork r = Some (rip, allowed)"
    "cidrContainsNetwork allowed (networkIP (IPv4 os) (int n), int n)"
    by (auto simp: isSafeMeshNetwork_def list_ex_iff split: option.splits)
  have "list_all (\<lambda>r. case parseNetwork r of Some (_, a) \<Rightarrow> BitLen (fst a) = 32 \<and> 8 \<le> snd a | None \<Rightarrow> False) safeMeshRanges" by code_simp
  with r(1,2) have a: "BitLen (fst allowed) = 32" "8 \<le> snd allowed" by (auto simp: list_all_iff)
  from parseNetwork_net4 [OF r(2) a(1)] obtain ps m where m: "net4 allowed ps m" by blast
  from cidrContainsNetwork_prefix [OF m net] r(3) have "m \<le> n" by simp
  with a(2) m show ?thesis by (auto simp: net4_def)
qed

subsection \<open>Hosts of a mesh\<close>

lemma div_eq_of_range:
  fixes c d x :: int
  assumes "d * c \<le> x" and "x < d * c + d" and "0 < d"
  shows "x div d = c"
  using assms by (intro int_div_pos_eq [of x d c "x - d * c"]) auto

lemma bitAt_octets: "b < 32 \<Longrightarrow> bitAt (octets v) b \<longleftrightarrow> bit v (31 - b)"
proof -
  assume b: "b < 32"
  have oct: "octets v ! i = uint (drop_bit (24 - 8 * i) v) mod 256" if "i < 4" for i
    using that by (auto simp: octets_def numeral_eq_Suc less_Suc_eq)
  have "bit (uint (drop_bit k v) mod 256) j \<longleftrightarrow> j < 8 \<and> bit v (k + j)" for k j
    unfolding take_bit_eq_mod [of 8 "uint (drop_bit k v)", simplified, symmetric]
    by (simp add: bit_take_bit_iff bit_uint_iff bit_drop_bit_eq) auto
  moreover have "b div 8 < 4" "24 - 8 * (b div 8) + (7 - b mod 8) = 31 - b" using b by auto
  moreover have "7 - b mod 8 < 8" by arith
  ultimately show ?thesis by (simp add: bitAt_def oct)
qed

lemma octets_address32: "is_octets os \<Longrightarrow> octets (address32 os) = os"
proof (erule is_octets_cases)
  fix a b c d
  assume os: "os = [a, b, c, d]" and r: "0 \<le> a" "a < 256" "0 \<le> b" "b < 256" "0 \<le> c" "c < 256" "0 \<le> d" "d < 256"
  have word: "bit (address32 os) m \<longleftrightarrow> m < 32 \<and> (24 \<le> m \<and> bit a (m - 24) \<or> 16 \<le> m \<and> bit b (m - 16) \<or> 8 \<le> m \<and> bit c (m - 8) \<or> bit d m)" for m
    by (auto simp: address32_def uint32At_def os bit_simps)
  note lt = octet_bit [OF r(1,2)] octet_bit [OF r(3,4)] octet_bit [OF r(5,6)] octet_bit [OF r(7,8)]
  show ?thesis
  proof (rule octets_eqI)
    show "is_octets os" using os r by (simp add: is_octets_def)
    show "\<forall>k < 32. bitAt (octets (address32 os)) k = bitAt os k"
    proof (intro allI impI)
      fix k :: nat
      assume k: "k < 32"
      then consider "k < 8" | "8 \<le> k" "k < 16" | "16 \<le> k" "k < 24" | "24 \<le> k" by linarith
      then have "bit (address32 os) (31 - k) = bitAt os k"
      proof cases
        case 1
        then have "bitAt os k = bit a (7 - k)" by (simp add: bitAt_def os)
        with 1 word [of "31 - k"] lt(2) [of "15 - k"] lt(3) [of "23 - k"] lt(4) [of "31 - k"] show ?thesis by auto
      next
        case 2
        then have "k div 8 = 1" "k mod 8 = k - 8" by presburger+
        then have "bitAt os k = bit b (15 - k)" using 2 by (simp add: bitAt_def os)
        with 2 word [of "31 - k"] lt(3) [of "23 - k"] lt(4) [of "31 - k"] show ?thesis by auto
      next
        case 3
        then have "k div 8 = 2" "k mod 8 = k - 16" by presburger+
        then have "bitAt os k = bit c (23 - k)" using 3 by (simp add: bitAt_def os)
        with 3 word [of "31 - k"] lt(4) [of "31 - k"] show ?thesis by auto
      next
        case 4
        then have "k div 8 = 3" "k mod 8 = k - 24" using k by presburger+
        then have "bitAt os k = bit d (31 - k)" using 4 k by (simp add: bitAt_def os)
        with 4 word [of "31 - k"] show ?thesis by auto
      qed
      then show "bitAt (octets (address32 os)) k = bitAt os k" by (simp add: bitAt_octets [OF k])
    qed
  qed simp
qed

lemma host_in_mesh:
  assumes "ParseCIDR meshCIDR = Some (IPv4 os, int n)" and "net4 mesh ns n" and "mesh = (networkIP (IPv4 os) (int n), int n)"
    and "v \<in> hosts meshCIDR"
  shows "IPNet_Contains mesh (IPv4 (octets v))"
proof -
  from assms(2,3) have ns: "networkIP (IPv4 os) (int n) = IPv4 ns" "is_octets ns" "n \<le> 32" by (auto simp: net4_def)
  from assms(4) obtain base sz where m: "parseMesh meshCIDR = Inr (base, sz)" by (auto simp: hosts_def)
  then have base: "base = address32 ns" and sz: "sz = push_bit (32 - n) 1"
    using assms(1) ns by (auto simp: parseMesh_def To4_def BitLen_def Let_def nat_diff_distrib split: if_splits)
  let ?k = "32 - n"
  obtain k where k: "k < 32" "sz = push_bit k 1" "take_bit k base = 0" using mesh_aligned [OF m] by blast
  have "?k < 32"
  proof (rule ccontr)
    assume "\<not> ?k < 32"
    then have "sz = 0" by (simp add: sz push_bit_eq_mult)
    with mesh_range(1) [OF m] show False by simp
  qed
  moreover have "uint (push_bit j (1 :: 32 word)) = 2 ^ j" if "j < 32" for j
    using that by (simp add: push_bit_eq_mult uint_2p word_gt_0)
  ultimately have u: "uint sz = 2 ^ ?k" "(2 :: int) ^ k = 2 ^ ?k" using k(1,2) sz by metis+
  then have "k = ?k" by simp
  with k(3) have "uint base mod 2 ^ ?k = 0" by (metis take_bit_eq_mod unsigned_take_bit_eq unsigned_0)
  moreover have "uint base \<le> uint v" "uint v < uint base + 2 ^ ?k"
    using assms(4) by (auto simp: host_bounds [OF m] u(1))
  ultimately have "uint v div 2 ^ ?k = uint base div 2 ^ ?k"
    using mult_div_mod_eq [of "2 ^ ?k" "uint base"] by (intro div_eq_of_range) simp_all
  then have bits: "bit (uint v) (?k + j) = bit (uint base) (?k + j)" for j
    using bit_drop_bit_eq [of ?k "uint v"] bit_drop_bit_eq [of ?k "uint base"] by (simp add: drop_bit_eq_div fun_eq_iff)
  have "bitAt (octets v) b = bitAt ns b" if "b < n" for b
  proof -
    have b: "b < 32" "31 - b = ?k + (n - 1 - b)" using that ns(3) by auto
    have "bitAt ns b = bitAt (octets base) b" using ns(2) by (simp add: base octets_address32)
    moreover have "31 - b < LENGTH(32)" by simp
    then have "bit v (31 - b) = bit base (31 - b)"
      using bits [of "n - 1 - b"] unfolding b(2) [symmetric] by (simp only: bit_uint_iff simp_thms)
    ultimately show ?thesis by (simp only: bitAt_octets [OF b(1)])
  qed
  then show ?thesis using assms(2) by (simp add: net4_def Contains4 min_absorb1)
qed

lemma interfaceNetworks_mem:
  "l \<in> set (interfaceNetworks texts) \<Longrightarrow> To4 (fst l) \<noteq> None \<and> (\<exists>t ip. parseNetwork t = Some (ip, l))"
  by (induction texts) (auto split: option.splits if_splits)

lemma localNetworks_mem:
  "localNetworks ifs = Inr ns \<Longrightarrow> l \<in> set ns \<Longrightarrow> To4 (fst l) \<noteq> None \<and> (\<exists>t ip. parseNetwork t = Some (ip, l))"
  by (induction ifs arbitrary: ns rule: localNetworks.induct) (auto simp: bind_res_Inr split: sum.splits dest: interfaceNetworks_mem)

text \<open>
  C29. The addresses of an accepted mesh are safe to route: when the mesh CIDR passes its check and overlaps no
  network of the host's interfaces, every address that is derived from it for any name and attempt is one
  \<open>validateAssignedAddress\<close> accepts, lies in private, carrier-grade or benchmark address space, and is an
  address of no IPv4 network the host is attached to.
\<close>

theorem mesh_routes_safe:
  assumes "validateMeshCIDR meshCIDR = Inr ()" and "localInterfaceNetworks interfaces = Inr locals"
    and "validateLocalNetworkOverlap meshCIDR locals = Inr ()" and "0 \<le> attempt" and "attempt < 2 ^ 63"
  shows "\<exists>xs. IPForNameAttempt name meshCIDR attempt = Inr (dotted xs @ ''/32'') \<and> privateOctets xs
    \<and> validateAssignedAddress (dotted xs @ ''/32'') meshCIDR = Inr ()
    \<and> list_all (\<lambda>l. BitLen (fst l) = 32 \<longrightarrow> \<not> IPNet_Contains l (IPv4 xs)) locals"
proof -
  from validateMeshCIDR_Inr [OF assms(1)] obtain os n where c: "ParseCIDR meshCIDR = Some (IPv4 os, int n)" and n: "n \<le> 30"
    and net: "net4 (networkIP (IPv4 os) (int n), int n) (map2 (maskPart 8 (int n)) [0, 1, 2, 3] os) n" by blast
  define mesh where "mesh = (networkIP (IPv4 os) (int n), int n)"
  have p: "parseNetwork meshCIDR = Some (IPv4 os, mesh)" using c by (simp add: parseNetwork_def mesh_def)
  have "8 \<le> n" using mesh_prefix [OF assms(1) c] .
  then have "2 \<le> 32 - n" "32 - n < 32" using n by auto
  then have "uint (push_bit (32 - n) (1 :: 32 word)) = 2 ^ (32 - n)" by (simp add: push_bit_eq_mult uint_2p word_gt_0)
  moreover have "(2 :: int) ^ 2 \<le> 2 ^ (32 - n)" using \<open>2 \<le> 32 - n\<close> by (intro power_increasing) simp_all
  ultimately have "\<not> push_bit (32 - n) (1 :: 32 word) < 4" by (simp add: word_less_def)
  then have "\<exists>k. Capacity meshCIDR = Inr k"
    using c n by (simp add: Capacity_def parseMesh_def networkIP_def To4_def BitLen_def Let_def nat_diff_distrib)
  then obtain v where v: "v \<in> hosts meshCIDR" "IPForNameAttempt name meshCIDR attempt = Inr (addressText v)"
    using attempt_host [OF _ assms(4,5)] by blast
  have inside: "IPNet_Contains mesh (IPv4 (octets v))"
    by (rule host_in_mesh [OF c net [folded mesh_def] mesh_def v(1)])
  have "privateOctets (octets v)" by (rule mesh_address_private [OF assms(1) p is_octets_octets inside])
  moreover have "validateAssignedAddress (dotted (octets v) @ ''/32'') meshCIDR = Inr ()"
    using inside p ParseCIDR_dotted [OF is_octets_octets, of v]
    by (simp add: validateAssignedAddress_def parseNetwork_def [of "dotted (octets v) @ ''/32''"] To4_def BitLen_def networkIP_def)
  moreover have "list_all (\<lambda>l. BitLen (fst l) = 32 \<longrightarrow> \<not> IPNet_Contains l (IPv4 (octets v))) locals"
    unfolding list_all_iff
  proof (intro ballI impI notI)
    fix l assume l: "l \<in> set locals" "BitLen (fst l) = 32" "IPNet_Contains l (IPv4 (octets v))"
    have "To4 (fst l) \<noteq> None \<and> (\<exists>t ip. parseNetwork t = Some (ip, l))"
      using assms(2) l(1) localNetworks_mem by (auto simp: localInterfaceNetworks_def split: sum.splits)
    then obtain t ip where t: "To4 (fst l) \<noteq> None" "parseNetwork t = Some (ip, l)" by blast
    from parseNetwork_net4 [OF t(2) l(2)] obtain ls m where "net4 l ls m" by blast
    from cidrsOverlap_iff [OF net [folded mesh_def] this] inside l(3) have "cidrsOverlap mesh l" by auto
    with assms(3) p t(1) l(1) show False
      by (cases l) (fastforce simp: validateLocalNetworkOverlap_def find_None_iff split: option.splits)
  qed
  ultimately show ?thesis using v(2) unfolding addressText_def by blast
qed

theorem mesh_routes_safe_witness:
  "\<exists>xs. IPForNameAttempt ''host-a'' ''100.64.0.0/10'' 3 = Inr (dotted xs @ ''/32'') \<and> privateOctets xs
    \<and> \<not> IPNet_Contains (IPv4 [192, 168, 1, 0], 24) (IPv4 xs)"
proof -
  have c: "validateMeshCIDR ''100.64.0.0/10'' = Inr ()" by code_simp
  have l: "localInterfaceNetworks (Inr [(''en0'', Inr [''192.168.1.7/24'', ''fe80::1/64''])]) = Inr [(IPv4 [192, 168, 1, 0], 24)]" by code_simp
  have o: "validateLocalNetworkOverlap ''100.64.0.0/10'' [(IPv4 [192, 168, 1, 0], 24)] = Inr ()" by code_simp
  from mesh_routes_safe [OF c l o, of 3 "''host-a''"] show ?thesis by (auto simp: BitLen_def)
qed

end
