(* ===== verification/Wire_Leaf.thy ===== *)
theory Wire_Leaf
  imports Mesh_Routes Mesh_Claim Go_URL Go_Path
begin

section \<open>WireKube leaf: state and inspection\<close>

text \<open>
  \<open>internal/native/wirekube/leaf.go\<close> and the relay lookup of \<open>wkpeer.go\<close>: the private state of a
  connected host with its WireGuard key, the file it is kept in, and the inspection of the mesh. An
  unstructured object is a record of the fields the code reads; a field that is absent or has another
  type reads as the empty value, as \<open>NestedString\<close> and its like return it. Requests cover the API server,
  the file system, the random source and the clock of a poll. JSON, the writer of kubeconfig files and
  curve25519 are parameters.
\<close>

subsection \<open>Objects\<close>

record LeafState =
  lf_Version :: int
  lf_PeerName :: string
  lf_DisplayName :: string
  lf_EnrollmentID :: string
  lf_PeerUID :: UID
  lf_PrivateKey :: string
  lf_PublicKey :: string
  lf_MeshCIDR :: string
  lf_AssignedMeshIP :: string
  lf_RelayEndpoint :: string
  lf_IngressPublicKey :: string
  lf_AllowedDestinations :: "string list"
  lf_MTU :: int
  lf_KubernetesAPIEndpoint :: string
  lf_MeshIPClaimName :: string
  lf_MeshIPClaimUID :: UID
  lf_MeshIPClaimNamespace :: string
  lf_MeshName :: string
  lf_PeerMode :: string
  lf_RelayTransport :: string
  lf_RelayTokenAudience :: string
  lf_PeerNamespace :: string
  lf_PeerServiceAccount :: string
  lf_LinkKubeconfig :: string

record DoctorReport =
  dr_MeshName :: string
  dr_MeshCIDR :: string
  dr_AgentNamespace :: string
  dr_AddressAllocation :: string
  dr_MTU :: int
  dr_RelayMode :: string
  dr_RelayProvider :: string
  dr_RelayTransport :: string
  dr_RelayEndpoint :: string
  dr_ReadyPeers :: int
  dr_Warnings :: "string list"

record relaySpec =
  re_transport :: string
  re_controlEndpoint :: string
  re_endpoint :: string

record WireKubeMesh =
  wm_Name :: string
  wm_meshCIDR :: string
  wm_addressAllocation :: string
  wm_mtu :: int
  wm_relayMode :: string
  wm_relayProvider :: string
  wm_relay :: "string \<Rightarrow> relaySpec" \<comment> \<open>\<open>spec.relay\<close> of a provider\<close>
  wm_readyPeers :: int

text \<open>\<open>sp_rest\<close> stands for every other field of the spec, which only \<open>reflect.DeepEqual\<close> looks at.\<close>

record peerSpec =
  sp_publicKey :: "string option"
  sp_allowedIPs :: "string list option"
  sp_persistentKeepalive :: "int option"
  sp_rest :: string

record OwnedMeta =
  ow_Name :: string
  ow_Namespace :: string
  ow_UID :: UID
  ow_ResourceVersion :: string
  ow_Labels :: "string gomap"
  ow_Annotations :: "string gomap"

record WireKubePeer = OwnedMeta +
  kp_Spec :: peerSpec

record WireKubeExternalPeer = OwnedMeta +
  xp_assignedMeshIP :: string
  xp_displayName :: string
  xp_publicKey :: string
  xp_allowedDestinations :: "string list"

record relayService = OwnedMeta +
  rv_type :: string
  rv_ports :: "(string \<times> string \<times> int) option list" \<comment> \<open>protocol, name and port; \<open>None\<close> is no map\<close>
  rv_ingress :: "(string \<times> string) option list" \<comment> \<open>host name and address\<close>

datatype rbacKind = ServiceAccountKind | RoleKind | RoleBindingKind | ClusterRoleKind | ClusterRoleBindingKind

record PolicyRule =
  pu_APIGroups :: "string list"
  pu_Resources :: "string list"
  pu_ResourceNames :: "string list"
  pu_Verbs :: "string list"

record RbacObject = OwnedMeta +
  rb_Rules :: "PolicyRule list"
  rb_RoleRef :: "(string \<times> string) option" \<comment> \<open>kind and name\<close>
  rb_Subjects :: "(string \<times> string) list" \<comment> \<open>service accounts: name and namespace\<close>

record fileInfo =
  fi_Symlink :: bool
  fi_Regular :: bool
  fi_Perm :: int
  fi_Identity :: nat \<comment> \<open>what \<open>os.SameFile\<close> compares\<close>

record tunnelSnapshot =
  ts_InterfaceName :: string
  ts_BytesReceived :: int
  ts_BytesSent :: int
  ts_LastHandshake :: "Time option"

subsection \<open>Requests\<close>

datatype wkreq =
    WStore string storereq \<comment> \<open>of the Lease store of a namespace\<close>
  | WGetMesh string | WListDaemonSets | WListPeers bool | WListServices | WGetNode string
  | WListExternalPeers | WGetExternalPeer string | WDeleteExternalPeer string UID
  | WGetPeer string | WCreatePeer WireKubePeer | WDeletePeer string UID | WPatchPeerStatus string tunnelSnapshot bool
  | WGetLease string string | WDeleteLease string string UID
  | WGetRbac rbacKind string string | WCreateRbac rbacKind RbacObject | WUpdateRbac rbacKind RbacObject
  | WDeleteRbac rbacKind string string "UID option"
  | WCreateToken string string "string list" int
  | WRandom nat | WWarn string | WTick
  | WDefaultRuntimeDirectory UID | WRuntimeActive string UID
  | WMkdirAll string | WChmodDir string | WLstat string | WOpen string | WStat | WReadAll | WCloseFile | WReadFile string
  | WCreateTemp string | WChmodTemp | WWriteTemp string | WSyncTemp | WCloseTemp | WRenameTemp string | WRemoveTemp
  | WRemove string

datatype wkresp =
    AStore storeresp
  | AMesh "WireKubeMesh res"
  | ADaemonSets "OwnedMeta list res"
  | APeers "WireKubePeer list res"
  | APeer "WireKubePeer res"
  | AExternalPeers "WireKubeExternalPeer list res"
  | AExternalPeer "WireKubeExternalPeer res"
  | AServices "relayService list res"
  | ALease "ClaimLease res"
  | ARbac "RbacObject res"
  | AToken "(string \<times> Time option) res"
  | ADone "unit res"
  | AText "string res"
  | ABytes "nat list res"
  | AInfo "fileInfo res"
  | AFlag "bool res"

type_synonym 'a leaf = "(wkreq, wkresp, 'a) prog"

definition wAsk :: "(wkresp \<Rightarrow> 'a res) \<Rightarrow> wkreq \<Rightarrow> 'a res leaf" where
  "wAsk sel q = Req q (\<lambda>r. Ret (sel r))"

definition wkMesh where "wkMesh r = (case r of AMesh x \<Rightarrow> x | _ \<Rightarrow> unexpected)"
definition wkDaemonSets where "wkDaemonSets r = (case r of ADaemonSets x \<Rightarrow> x | _ \<Rightarrow> unexpected)"
definition wkPeers where "wkPeers r = (case r of APeers x \<Rightarrow> x | _ \<Rightarrow> unexpected)"
definition wkPeer where "wkPeer r = (case r of APeer x \<Rightarrow> x | _ \<Rightarrow> unexpected)"
definition wkExternalPeers where "wkExternalPeers r = (case r of AExternalPeers x \<Rightarrow> x | _ \<Rightarrow> unexpected)"
definition wkExternalPeer where "wkExternalPeer r = (case r of AExternalPeer x \<Rightarrow> x | _ \<Rightarrow> unexpected)"
definition wkServices where "wkServices r = (case r of AServices x \<Rightarrow> x | _ \<Rightarrow> unexpected)"
definition wkLease where "wkLease r = (case r of ALease x \<Rightarrow> x | _ \<Rightarrow> unexpected)"
definition wkRbac where "wkRbac r = (case r of ARbac x \<Rightarrow> x | _ \<Rightarrow> unexpected)"
definition wkToken where "wkToken r = (case r of AToken x \<Rightarrow> x | _ \<Rightarrow> unexpected)"
definition wkDone where "wkDone r = (case r of ADone x \<Rightarrow> x | _ \<Rightarrow> unexpected)"
definition wkText where "wkText r = (case r of AText x \<Rightarrow> x | _ \<Rightarrow> unexpected)"
definition wkBytes where "wkBytes r = (case r of ABytes x \<Rightarrow> x | _ \<Rightarrow> unexpected)"
definition wkInfo where "wkInfo r = (case r of AInfo x \<Rightarrow> x | _ \<Rightarrow> unexpected)"
definition wkFlag where "wkFlag r = (case r of AFlag x \<Rightarrow> x | _ \<Rightarrow> unexpected)"
definition wkStore where "wkStore r = (case r of AStore x \<Rightarrow> x | _ \<Rightarrow> UnitA unexpected)"

definition wStore :: "string \<Rightarrow> 'a store \<Rightarrow> 'a leaf" where
  "wStore ns p = via (\<lambda>q. Req (WStore ns q) (\<lambda>r. Ret (wkStore r))) p"

abbreviation "errorText s \<equiv> Ret (Inl (ErrorString s))"
abbreviation "NotExistError \<equiv> Sentinel ''file does not exist''"

definition IsForbidden :: "go_error \<Rightarrow> bool" where
  "IsForbidden e \<longleftrightarrow> ReasonForError e = Some (OtherReason ''Forbidden'')"

definition joinAll :: "unit res list \<Rightarrow> unit res" \<comment> \<open>\<open>errors.Join\<close>, which drops the nil errors\<close> where
  "joinAll rs = joinErrors (concat (map (\<lambda>r. case r of Inl e \<Rightarrow> [e] | Inr _ \<Rightarrow> []) rs))"

text \<open>\<open>PollUntilContextTimeout\<close> and the ticker loop: the clock ticks at most \<open>n\<close> times before the deadline.\<close>

primrec pollUntil :: "nat \<Rightarrow> bool res leaf \<Rightarrow> unit res leaf" where
  "pollUntil 0 cond = bindE cond (\<lambda>ok. if ok then Ret (Inr ()) else Ret (Inl (Sentinel ''context deadline exceeded'')))"
| "pollUntil (Suc n) cond =
     bindE cond (\<lambda>ok. if ok then Ret (Inr ()) else bindE (wAsk wkDone WTick) (\<lambda>_. pollUntil n cond))"

subsection \<open>Keys\<close>

definition b64char :: "nat \<Rightarrow> char" where
  "b64char n = (if n < 26 then bytechar (65 + n) else if n < 52 then bytechar (71 + n) else if n < 62 then bytechar (n - 4)
     else if n = 62 then CHR ''+'' else CHR ''/'')"

definition b64val :: "char \<Rightarrow> nat option" where
  "b64val c = (if is_upper c then Some (byte c - 65) else if is_lower c then Some (byte c - 71) else if is_digit c then Some (byte c + 4)
     else if c = CHR ''+'' then Some 62 else if c = CHR ''/'' then Some 63 else None)"

fun base64_Encode :: "nat list \<Rightarrow> string" where
  "base64_Encode [] = []"
| "base64_Encode [a] = [b64char (a div 4), b64char (a mod 4 * 16), CHR ''='', CHR ''='']"
| "base64_Encode [a, b] = [b64char (a div 4), b64char (a mod 4 * 16 + b div 16), b64char (b mod 16 * 4), CHR ''='']"
| "base64_Encode (a # b # c # r) =
     b64char (a div 4) # b64char (a mod 4 * 16 + b div 16) # b64char (b mod 16 * 4 + c div 64) # b64char (c mod 64) # base64_Encode r"

fun base64_Quanta :: "string \<Rightarrow> nat list option" where
  "base64_Quanta [] = Some []"
| "base64_Quanta (p # q # s # t # r) =
     (case (b64val p, b64val q) of
        (Some w, Some x) \<Rightarrow>
          if s = CHR ''='' then (if t = CHR ''='' \<and> r = [] then Some [w * 4 + x div 16] else None)
          else (case b64val s of
            None \<Rightarrow> None
          | Some y \<Rightarrow>
             if t = CHR ''='' then (if r = [] then Some [w * 4 + x div 16, x mod 16 * 16 + y div 4] else None)
             else (case b64val t of
               None \<Rightarrow> None
             | Some z \<Rightarrow> map_option (\<lambda>bs. (w * 4 + x div 16) # (x mod 16 * 16 + y div 4) # (y mod 4 * 64 + z) # bs) (base64_Quanta r)))
      | _ \<Rightarrow> None)"
| "base64_Quanta _ = None"

definition base64_Decode :: "string \<Rightarrow> nat list option" where
  "base64_Decode s = base64_Quanta (filter (\<lambda>c. c \<noteq> CHR 0x0A \<and> c \<noteq> CHR 0x0D) s)"

record leaflib =
  wl_ScalarBaseMult :: "nat list \<Rightarrow> nat list"
  wl_Marshal :: "LeafState \<Rightarrow> string res"
  wl_Decode :: "string \<Rightarrow> LeafState res"
  wl_Kubeconfig :: "string \<times> string \<times> string \<times> string \<Rightarrow> string res" \<comment> \<open>server, CA, server name and token\<close>

definition generateKeyPair :: "leaflib \<Rightarrow> (string \<times> string) res leaf" where
  "generateKeyPair K =
     bindE (wrapE ''generate WireGuard private key: '' (wAsk wkBytes (WRandom 32))) (\<lambda>bs.
     let private = bs[0 := bs ! 0 div 8 * 8, 31 := bs ! 31 mod 64 + 64] in
     Ret (Inr (base64_Encode private, base64_Encode (wl_ScalarBaseMult K private))))"

definition validateKey :: "string \<Rightarrow> unit res" where
  "validateKey v = (case base64_Decode v of
     Some bs \<Rightarrow> if length bs \<noteq> 32 then Inl (ErrorString ''expected a base64-encoded 32-byte key'') else Inr ()
   | None \<Rightarrow> Inl (ErrorString ''expected a base64-encoded 32-byte key''))"

definition validateKeyPair :: "leaflib \<Rightarrow> string \<Rightarrow> string \<Rightarrow> unit res" where
  "validateKeyPair K privateValue publicValue =
     (case base64_Decode privateValue of
        Some bs \<Rightarrow>
          if length bs \<noteq> 32 then Inl (ErrorString ''the WireKube private key is invalid'')
          else (case validateKey publicValue of
            Inl e \<Rightarrow> Inl (WrapError ''the WireKube public key is invalid: '' e [])
          | Inr _ \<Rightarrow>
             if base64_Encode (wl_ScalarBaseMult K bs) \<noteq> publicValue
             then Inl (ErrorString ''the WireKube public key does not match the private key'') else Inr ())
      | None \<Rightarrow> Inl (ErrorString ''the WireKube private key is invalid''))"

subsection \<open>The state file\<close>

abbreviation "stateFileName \<equiv> ''wirekube-leaf.json''"
abbreviation "peerModeWireKube \<equiv> ''wkpeer''"
abbreviation "managedByValue \<equiv> ''idleloom''"
abbreviation "defaultMeshName \<equiv> ''default''"

definition StatePath :: "string \<Rightarrow> string" where
  "StatePath directory = filepath_Join [directory, stateFileName]"

definition decodeState :: "leaflib \<Rightarrow> string \<Rightarrow> LeafState res" where
  "decodeState K data =
     (case wl_Decode K data of
        Inl e \<Rightarrow> Inl (WrapError ''decode WireKube leaf state: '' e [])
      | Inr state \<Rightarrow>
         if lf_Version state \<noteq> 1 \<or> lf_PeerName state = [] \<or> lf_PeerName state \<noteq> lf_DisplayName state \<or> lf_EnrollmentID state = []
         then Inl (ErrorString ''the WireKube leaf state has an invalid identity'')
         else if lf_PeerMode state \<noteq> [] \<and> lf_PeerMode state \<noteq> peerModeWireKube
         then Inl (ErrorString (''the WireKube leaf state has an unsupported peer mode '' @ fmt_q (lf_PeerMode state)))
         else bind_res (validateKeyPair K (lf_PrivateKey state) (lf_PublicKey state)) (\<lambda>_. Inr state))"

definition closingFile :: "'a res leaf \<Rightarrow> 'a res leaf" \<comment> \<open>a deferred \<open>Close\<close> whose error is dropped\<close> where
  "closingFile p = bindP p (\<lambda>x. bindP (wAsk wkDone WCloseFile) (\<lambda>_. Ret x))"

definition Leaf_ReadState :: "leaflib \<Rightarrow> string \<Rightarrow> LeafState res leaf" where
  "Leaf_ReadState K directory =
     (let path = StatePath directory in
      bindE (wAsk wkInfo (WLstat path)) (\<lambda>info.
      if fi_Symlink info \<or> \<not> fi_Regular info then errorText ''the WireKube leaf state must be a regular file''
      else bindE (wAsk wkDone (WOpen path)) (\<lambda>_. closingFile (
        bindE (wAsk wkInfo WStat) (\<lambda>opened.
        if \<not> fi_Regular opened \<or> fi_Identity info \<noteq> fi_Identity opened
        then errorText ''the WireKube leaf state changed while opening''
        else if fi_Perm opened AND 63 \<noteq> 0 then errorText ''the WireKube leaf state permissions must be 0600 or stricter''
        else bindE (wAsk wkText WReadAll) (\<lambda>data. liftE (decodeState K data)))))))"

definition orCloseTemp :: "unit res leaf \<Rightarrow> unit res leaf \<Rightarrow> unit res leaf" where
  "orCloseTemp p rest = bindP p (\<lambda>x. case x of
       Inl e \<Rightarrow> bindP (wAsk wkDone WCloseTemp) (\<lambda>c. Ret (joinAll [Inl e, c]))
     | Inr _ \<Rightarrow> rest)"

definition writePrivate :: "string \<Rightarrow> string \<Rightarrow> unit res leaf" where
  "writePrivate name data =
     bindE (wAsk wkDone (WMkdirAll (filepath_Dir name))) (\<lambda>_.
     bindE (wAsk wkDone (WCreateTemp (filepath_Dir name))) (\<lambda>_.
     bindP (orCloseTemp (wAsk wkDone WChmodTemp)
        (orCloseTemp (wAsk wkDone (WWriteTemp data))
        (orCloseTemp (wAsk wkDone WSyncTemp)
        (bindE (wAsk wkDone WCloseTemp) (\<lambda>_. wAsk wkDone (WRenameTemp name)))))) (\<lambda>x.
     bindP (wAsk wkDone WRemoveTemp) (\<lambda>_. Ret x))))"

definition writeState :: "leaflib \<Rightarrow> string \<Rightarrow> LeafState \<Rightarrow> unit res leaf" where
  "writeState K directory state =
     bindE (liftE (wl_Marshal K state)) (\<lambda>data. writePrivate (StatePath directory) (data @ [CHR 0x0A]))"

definition zero_LeafState :: LeafState where
  "zero_LeafState = \<lparr>lf_Version = 0, lf_PeerName = [], lf_DisplayName = [], lf_EnrollmentID = [], lf_PeerUID = [], lf_PrivateKey = [],
     lf_PublicKey = [], lf_MeshCIDR = [], lf_AssignedMeshIP = [], lf_RelayEndpoint = [], lf_IngressPublicKey = [], lf_AllowedDestinations = [],
     lf_MTU = 0, lf_KubernetesAPIEndpoint = [], lf_MeshIPClaimName = [], lf_MeshIPClaimUID = [], lf_MeshIPClaimNamespace = [], lf_MeshName = [],
     lf_PeerMode = [], lf_RelayTransport = [], lf_RelayTokenAudience = [], lf_PeerNamespace = [], lf_PeerServiceAccount = [], lf_LinkKubeconfig = []\<rparr>"

definition loadOrCreateState :: "leaflib \<Rightarrow> string \<Rightarrow> string \<Rightarrow> string \<Rightarrow> LeafState res leaf" where
  "loadOrCreateState K directory peerName enrollmentID =
     bindE (wAsk wkDone (WMkdirAll directory)) (\<lambda>_.
     bindE (wAsk wkDone (WChmodDir directory)) (\<lambda>_.
     bindP (Leaf_ReadState K directory) (\<lambda>x. case x of
       Inr state \<Rightarrow>
         if lf_PeerName state \<noteq> peerName \<or> lf_DisplayName state \<noteq> peerName \<or> lf_EnrollmentID state \<noteq> enrollmentID
         then errorText ''existing WireKube leaf state belongs to a different enrollment''
         else Ret (Inr state)
     | Inl e \<Rightarrow>
         if e \<noteq> NotExistError then Ret (Inl e)
         else bindE (generateKeyPair K) (\<lambda>(private, public).
           let state = zero_LeafState\<lparr>lf_Version := 1, lf_PeerName := peerName, lf_DisplayName := peerName, lf_EnrollmentID := enrollmentID,
             lf_PrivateKey := private, lf_PublicKey := public\<rparr>
           in bindE (writeState K directory state) (\<lambda>_. Ret (Inr state))))))"

definition HasState :: "string \<Rightarrow> bool res leaf" where
  "HasState directory = bindP (wAsk wkInfo (WLstat (StatePath directory))) (\<lambda>x. Ret (case x of
     Inr _ \<Rightarrow> Inr True
   | Inl e \<Rightarrow> if e = NotExistError then Inr False else Inl e))"

definition removeLocalState :: "string \<Rightarrow> unit res leaf" where
  "removeLocalState directory = bindP (wAsk wkDone (WRemove (StatePath directory))) (\<lambda>x. Ret (case x of
     Inl e \<Rightarrow> if e \<noteq> NotExistError then Inl e else Inr ()
   | Inr _ \<Rightarrow> Inr ()))"

subsection \<open>Inspection of the mesh\<close>

definition ArbitratesAddresses :: "DoctorReport \<Rightarrow> bool" where
  "ArbitratesAddresses r \<longleftrightarrow> dr_AddressAllocation r = ''allocator''"

fun agentNamespaceOf :: "string \<Rightarrow> OwnedMeta list \<Rightarrow> string" where
  "agentNamespaceOf found [] = found"
| "agentNamespaceOf found (d # ds) =
     (if \<not> IsAgentDaemonSet (ow_Name d) (ow_Labels d) then agentNamespaceOf found ds
      else if found \<noteq> [] \<and> found \<noteq> ow_Namespace d then []
      else agentNamespaceOf (ow_Namespace d) ds)"

definition discoverAgentNamespace :: "string leaf" where
  "discoverAgentNamespace = bindP (wAsk wkDaemonSets WListDaemonSets) (\<lambda>x. Ret (case x of
     Inl _ \<Rightarrow> [] | Inr ds \<Rightarrow> agentNamespaceOf [] ds))"

definition SplitHostPort :: "string \<Rightarrow> (string \<times> string) res" where
  "SplitHostPort hostport =
     (let err = (\<lambda>why. Inl (ErrorString (''address '' @ hostport @ '': '' @ why)));
          i = LastIndex hostport (CHR '':'') in
      if i < 0 then err ''missing port in address''
      else if HasPrefix hostport ''['' then
        (let e = length (takeWhile (\<lambda>c. c \<noteq> CHR '']'') hostport) in
         if e = length hostport then err ''missing ']' in address''
         else if e + 1 = length hostport then err ''missing port in address''
         else if int e + 1 \<noteq> i then err (if hostport ! (e + 1) = CHR '':'' then ''too many colons in address'' else ''missing port in address'')
         else if CHR ''['' \<in> set (drop 1 hostport) then err ''unexpected '[' in address''
         else if CHR '']'' \<in> set (drop (e + 1) hostport) then err ''unexpected ']' in address''
         else Inr (take (e - 1) (drop 1 hostport), drop (nat i + 1) hostport))
      else if CHR '':'' \<in> set (take (nat i) hostport) then err ''too many colons in address''
      else if CHR ''['' \<in> set hostport then err ''unexpected '[' in address''
      else if CHR '']'' \<in> set hostport then err ''unexpected ']' in address''
      else Inr (take (nat i) hostport, drop (nat i + 1) hostport))"

definition JoinHostPort :: "string \<Rightarrow> string \<Rightarrow> string" where
  "JoinHostPort host port = (if CHR '':'' \<in> set host then ''['' @ host @ '']:'' @ port else host @ '':'' @ port)"

fun relayServicePort :: "string \<Rightarrow> (string \<times> string \<times> int) option list \<Rightarrow> int res" where
  "relayServicePort service [] = Inl (ErrorString (''the WireKube relay Service '' @ service @ '' has no TCP relay port''))"
| "relayServicePort service (None # ps) = relayServicePort service ps"
| "relayServicePort service (Some (protocol, name, v) # ps) =
     (if (protocol = [] \<or> protocol = ''TCP'') \<and> (name = ''relay-tcp'' \<or> v = 3478) \<and> v > 0 then Inr v
      else relayServicePort service ps)"

fun ingressHost :: "(string \<times> string) option list \<Rightarrow> string option" where
  "ingressHost [] = None"
| "ingressHost (None # is) = ingressHost is"
| "ingressHost (Some (hostname, ip) # is) =
     (let host = (if hostname = [] then ip else hostname) in if host \<noteq> [] then Some host else ingressHost is)"

definition relayTarget :: "relayService list \<Rightarrow> string res" where
  "relayTarget services =
     (case find (\<lambda>s. ow_Name s = ''wirekube-relay'' \<and> gomap_get (ow_Labels s) ''app.kubernetes.io/part-of'' = ''wirekube'') services of
        None \<Rightarrow> Inl (ErrorString ''the WireKube managed TCP relay Service was not found; configure a public WSS control endpoint'')
      | Some s \<Rightarrow>
         let service = ow_Namespace s @ ''/'' @ ow_Name s in
         if rv_type s \<noteq> ''LoadBalancer''
         then Inl (ErrorString (''the WireKube managed TCP relay Service '' @ service @ '' is '' @ rv_type s
           @ ''; configure a public WSS control endpoint or a LoadBalancer''))
         else bind_res (relayServicePort service (rv_ports s)) (\<lambda>port.
           case ingressHost (rv_ingress s) of
             Some host \<Rightarrow> Inr (JoinHostPort host (FormatInt port))
           | None \<Rightarrow> Inl (ErrorString (''the WireKube managed TCP relay LoadBalancer '' @ service @ '' has no public address yet''))))"

definition managedRelayLoadBalancer :: "string res leaf" where
  "managedRelayLoadBalancer =
     bindE (wrapE ''discover public WireKube relay Service: '' (wAsk wkServices WListServices)) (\<lambda>services. liftE (relayTarget services))"

definition relayDialTarget :: "WireKubeMesh \<Rightarrow> (string \<times> string) res leaf" where
  "relayDialTarget mesh =
     (let provider = wm_relayProvider mesh; spec = wm_relay mesh provider in
      if provider = [] then errorText ''the WireKube relay provider is not configured''
      else let transport = (if re_transport spec = [] then ''tcp'' else re_transport spec) in
      if transport = ''wss'' then
        (case url_Parse (re_controlEndpoint spec) of
           Some u \<Rightarrow> if Scheme u \<noteq> ''wss'' \<or> Host u = [] then errorText (''the WireKube '' @ provider @ '' relay requires a public wss:// controlEndpoint'')
             else Ret (Inr (transport, re_controlEndpoint spec))
         | None \<Rightarrow> errorText (''the WireKube '' @ provider @ '' relay requires a public wss:// controlEndpoint''))
      else if transport = ''ws'' then errorText ''the WireKube ws relay transport is insecure; configure wss''
      else if transport = ''tcp'' then
        (if provider = ''external'' then
           (let ext = wm_relay mesh ''external'';
                endpoint = (if re_controlEndpoint ext = [] then re_endpoint ext else re_controlEndpoint ext) in
            case SplitHostPort endpoint of
              Inl e \<Rightarrow> Ret (Inl (WrapError (''the WireKube external TCP relay endpoint '' @ fmt_q endpoint @ '' is invalid: '') e []))
            | Inr _ \<Rightarrow> Ret (Inr (transport, endpoint)))
         else bindE managedRelayLoadBalancer (\<lambda>endpoint. Ret (Inr (transport, endpoint))))
      else errorText (''the WireKube relay transport '' @ fmt_q transport @ '' is unsupported''))"

definition meshReport :: "WireKubeMesh \<Rightarrow> string \<Rightarrow> DoctorReport res" where
  "meshReport mesh agentNamespace =
     bind_res (validateMeshCIDR (wm_meshCIDR mesh)) (\<lambda>_.
     let mtu = (if wm_mtu mesh = 0 then 1420 else wm_mtu mesh) in
     if mtu < 576 \<or> mtu > 1420 then Inl (ErrorString (''the WireKube mesh MTU '' @ FormatInt mtu @ '' is unsupported''))
     else let mode = (if wm_relayMode mesh = [] then ''auto'' else wm_relayMode mesh); provider = wm_relayProvider mesh in
     if mode = ''never'' then Inl (ErrorString ''the WireKube relay mode is never; connected leaf requires a relay'')
     else if provider \<noteq> ''managed'' \<and> provider \<noteq> ''external''
     then Inl (ErrorString (''the WireKube relay provider '' @ fmt_q provider @ '' is unsupported''))
     else Inr \<lparr>dr_MeshName = wm_Name mesh, dr_MeshCIDR = wm_meshCIDR mesh, dr_AgentNamespace = agentNamespace,
       dr_AddressAllocation = wm_addressAllocation mesh, dr_MTU = mtu, dr_RelayMode = mode, dr_RelayProvider = provider,
       dr_RelayTransport = [], dr_RelayEndpoint = [], dr_ReadyPeers = wm_readyPeers mesh,
       dr_Warnings = (if wm_readyPeers mesh < 1 then [''WireKube reports no ready mesh peers''] else [])\<rparr>)"

definition Inspect :: "DoctorReport res leaf" where
  "Inspect =
     bindP (wAsk wkMesh (WGetMesh defaultMeshName)) (\<lambda>x. case x of
       Inl e \<Rightarrow>
         if IsNotFound e then errorText (''the WireKubeMesh/'' @ defaultMeshName @ '' is not installed'')
         else Ret (Inl (WrapError (''get WireKubeMesh/'' @ defaultMeshName @ '': '') e []))
     | Inr mesh \<Rightarrow>
         bindP discoverAgentNamespace (\<lambda>agentNamespace.
         bindE (liftE (meshReport mesh agentNamespace)) (\<lambda>report.
         bindP (wAsk wkPeers (WListPeers True)) (\<lambda>y. case y of
           Inl e \<Rightarrow>
             if IsNotFound e then errorText ''the WireKubePeer API is not installed''
             else Ret (Inl (WrapError ''list WireKubePeer resources: '' e []))
         | Inr _ \<Rightarrow>
             bindE (relayDialTarget mesh) (\<lambda>(transport, endpoint).
             Ret (Inr (report\<lparr>dr_RelayTransport := transport, dr_RelayEndpoint := endpoint\<rparr>)))))))"

definition Hostname :: "URL \<Rightarrow> string" where
  "Hostname u =
     (let i = LastIndex (Host u) (CHR '':'');
          h = (if i \<noteq> - 1 \<and> validOptionalPort (drop (nat i) (Host u)) then take (nat i) (Host u) else Host u) in
      if HasPrefix h ''['' \<and> last h = CHR '']'' then butlast (tl h) else h)"

definition validateAPIEndpoint :: "string \<Rightarrow> unit res" where
  "validateAPIEndpoint v =
     (case url_Parse v of
        Some u \<Rightarrow> if Scheme u \<noteq> ''https'' \<or> Hostname u = [] then Inl (ErrorString (''kubernetes API endpoint '' @ fmt_q v @ '' must be an HTTPS URL'')) else Inr ()
      | None \<Rightarrow> Inl (ErrorString (''kubernetes API endpoint '' @ fmt_q v @ '' must be an HTTPS URL'')))"

end
