(* ===== verification/Wire_Enroll.thy ===== *)
theory Wire_Enroll
  imports Wire_Leaf
begin

section \<open>WireKube enrollment and revocation\<close>

text \<open>
  \<open>meship.go\<close>, the rest of \<open>wkpeer.go\<close> and \<open>Enroll\<close>, \<open>RefreshState\<close> and \<open>Revoke\<close> of \<open>leaf.go\<close>: claiming
  the mesh address of a host, its WireKubePeer, the service account and roles of the peer, and undoing
  them. The checks on the local runtime status are requests; \<open>runtime.go\<close> reads it from a file of its own.
\<close>

subsection \<open>meship.go\<close>

abbreviation "legacyClaimNamespace \<equiv> ''idleloom-system''"

record meshIPClaim =
  mc_Name :: string
  mc_UID :: UID
  mc_Namespace :: string

definition zero_meshIPClaim :: meshIPClaim where
  "zero_meshIPClaim = \<lparr>mc_Name = [], mc_UID = [], mc_Namespace = []\<rparr>"

definition claimNamespace :: "string \<Rightarrow> string" where
  "claimNamespace agentNamespace = (if agentNamespace \<noteq> [] then agentNamespace else DefaultNamespace)"

definition MeshNameOrDefault :: "LeafState \<Rightarrow> string" where
  "MeshNameOrDefault s = (if lf_MeshName s \<noteq> [] then lf_MeshName s else defaultMeshName)"

definition MeshIPClaimNamespaceOrDefault :: "LeafState \<Rightarrow> string" where
  "MeshIPClaimNamespaceOrDefault s = (if lf_MeshIPClaimNamespace s \<noteq> [] then lf_MeshIPClaimNamespace s else DefaultNamespace)"

definition addressIP :: "string \<Rightarrow> IP" \<comment> \<open>\<open>net.ParseCIDR\<close> of an address that was derived, which has no error\<close> where
  "addressIP address = (case ParseCIDR address of Some (ip, _) \<Rightarrow> ip | None \<Rightarrow> IPv4 [])"

fun externalCollision :: "string \<Rightarrow> string \<Rightarrow> string \<Rightarrow> WireKubeExternalPeer list \<Rightarrow> unit res" where
  "externalCollision peerName meshCIDR expected [] = Inr ()"
| "externalCollision peerName meshCIDR expected (peer # peers) =
     (if ow_Name peer = peerName then externalCollision peerName meshCIDR expected peers
      else if xp_assignedMeshIP peer \<noteq> [] \<and> sameIP (xp_assignedMeshIP peer) (addressIP expected)
      then Inl (ErrorString (''deterministic mesh address '' @ expected @ '' is already assigned to WireKubeExternalPeer/'' @ ow_Name peer))
      else if xp_displayName peer = [] then externalCollision peerName meshCIDR expected peers
      else case IPForName (xp_displayName peer) meshCIDR of
        Inl e \<Rightarrow> Inl (WrapError (''derive address for WireKubeExternalPeer/'' @ ow_Name peer @ '': '') e [])
      | Inr candidate \<Rightarrow>
         if candidate = expected
         then Inl (ErrorString (''deterministic mesh address '' @ expected @ '' collides with pending WireKubeExternalPeer/'' @ ow_Name peer))
         else externalCollision peerName meshCIDR expected peers)"

definition allowedOf :: "WireKubePeer \<Rightarrow> string list" where
  "allowedOf peer = (case sp_allowedIPs (kp_Spec peer) of Some ips \<Rightarrow> ips | None \<Rightarrow> [])"

fun peerCollision :: "string \<Rightarrow> string \<Rightarrow> WireKubePeer list \<Rightarrow> unit res" where
  "peerCollision peerName expected [] = Inr ()"
| "peerCollision peerName expected (peer # peers) =
     (if ow_Name peer = peerName then peerCollision peerName expected peers
      else case find (\<lambda>allowed. routeContainsIP allowed (addressIP expected)) (allowedOf peer) of
        Some allowed \<Rightarrow> Inl (ErrorString (''deterministic mesh address '' @ expected @ '' overlaps WireKubePeer/'' @ ow_Name peer @ '' allowed IP '' @ allowed))
      | None \<Rightarrow> peerCollision peerName expected peers)"

definition validateMeshIPAvailability :: "string \<Rightarrow> string \<Rightarrow> string \<Rightarrow> string res leaf" where
  "validateMeshIPAvailability peerName displayName meshCIDR =
     bindE (liftE (IPForName displayName meshCIDR)) (\<lambda>expected.
     bindP (wAsk wkExternalPeers WListExternalPeers) (\<lambda>x.
     bindE (liftE (case x of
         Inl e \<Rightarrow> if \<not> IsNotFound e then Inl (WrapError ''list WireKubeExternalPeer resources for address collision check: '' e []) else Inr ()
       | Inr externalPeers \<Rightarrow> externalCollision peerName meshCIDR expected externalPeers)) (\<lambda>_.
     bindE (wrapE ''list WireKubePeer resources for address collision check: '' (wAsk wkPeers (WListPeers False))) (\<lambda>peers.
     bindE (liftE (peerCollision peerName expected peers)) (\<lambda>_. Ret (Inr expected))))))"

definition hour :: Duration where
  "hour = 60 * minute"

definition enrollAllocator :: "DoctorReport \<Rightarrow> Allocator" where
  "enrollAllocator report = \<lparr>al_Store = Some (claimNamespace (dr_AgentNamespace report)), al_MeshName = dr_MeshName report,
     al_MeshCIDR = dr_MeshCIDR report, al_Grace = hour\<rparr>"

definition claimedResult :: "DoctorReport \<Rightarrow> ClaimResult \<Rightarrow> string \<times> meshIPClaim \<times> bool" where
  "claimedResult report result = (cr_Address result, \<lparr>mc_Name = cr_ClaimName result, mc_UID = cr_ClaimUID result,
     mc_Namespace = claimNamespace (dr_AgentNamespace report)\<rparr>, \<not> cr_Adopted result)"

definition enrollRequest :: "LeafState \<Rightarrow> ClaimRequest" where
  "enrollRequest state = \<lparr>rq_Holder = HolderForPeer (lf_PeerName state), rq_Name = lf_DisplayName state, rq_Preferred = lf_AssignedMeshIP state\<rparr>"

definition claimMeshIP :: "LeafState \<Rightarrow> DoctorReport \<Rightarrow> (string \<times> meshIPClaim \<times> bool) res leaf" where
  "claimMeshIP state report =
     (let namespace = claimNamespace (dr_AgentNamespace report) in
      if ArbitratesAddresses report
      then bindE (wStore namespace (Allocator_Allocate (enrollAllocator report) (enrollRequest state))) (\<lambda>result.
        Ret (Inr (claimedResult report result)))
      else bindE (validateMeshIPAvailability (lf_PeerName state) (lf_DisplayName state) (dr_MeshCIDR report)) (\<lambda>expected.
        bindP (wStore namespace (Reserve (enrollAllocator report) (HolderForPeer (lf_PeerName state)) expected)) (\<lambda>x. case x of
          Inl e \<Rightarrow>
            if errorsIs e ErrInUse
            then errorText (''the mesh address '' @ expected @ '' derived from display name '' @ fmt_q (lf_DisplayName state)
              @ '' is already claimed by another enrollment; join under a different display name, or set the WireKubeMesh spec.addressAllocation to ''
              @ fmt_q ''allocator'' @ '' so WireKube assigns a free address instead'')
            else Ret (Inl e)
        | Inr result \<Rightarrow> Ret (Inr (claimedResult report result)))))"

definition dashedAddress :: "string \<Rightarrow> string" where
  "dashedAddress address =
     (case (case ParseCIDR address of Some (ip, _) \<Rightarrow> Some ip | None \<Rightarrow> ParseAddr address) of
        None \<Rightarrow> []
      | Some ip \<Rightarrow> map (\<lambda>c. if c = CHR ''.'' then CHR ''-'' else c) (IP_String ip))"

definition legacyClaimName :: "LeafState \<Rightarrow> string" where
  "legacyClaimName state =
     (let name = (\<lambda>address. ''idleloom-wirekube-'' @ dashedAddress address) in
      if lf_AssignedMeshIP state \<noteq> [] then name (lf_AssignedMeshIP state)
      else if lf_DisplayName state = [] \<or> lf_MeshCIDR state = [] then []
      else case IPForName (lf_DisplayName state) (lf_MeshCIDR state) of Inl _ \<Rightarrow> [] | Inr derived \<Rightarrow> name derived)"

definition deletedOk :: "string \<Rightarrow> unit res \<Rightarrow> unit res" \<comment> \<open>absent and changed objects are as good as deleted\<close> where
  "deletedOk pre x = (case x of
     Inl e \<Rightarrow> if \<not> IsNotFound e \<and> \<not> IsConflict e then Inl (WrapError pre e []) else Inr ()
   | Inr _ \<Rightarrow> Inr ())"

definition deleteLegacyMeshIPClaim :: "LeafState \<Rightarrow> unit res leaf" where
  "deleteLegacyMeshIPClaim state =
     (let name = legacyClaimName state in
      if lf_PeerName state = [] \<or> name = [] then Ret (Inr ())
      else bindP (wAsk wkLease (WGetLease legacyClaimNamespace name)) (\<lambda>x. case x of
        Inl e \<Rightarrow> if IsNotFound e \<or> IsForbidden e then Ret (Inr ()) else Ret (Inl (WrapError (''get legacy mesh IP claim Lease/'' @ name @ '': '') e []))
      | Inr mclaim \<Rightarrow>
         if holderOf mclaim \<noteq> lf_PeerName state then Ret (Inr ())
         else bindP (wAsk wkDone (WDeleteLease legacyClaimNamespace name (leaseUID mclaim))) (\<lambda>y.
           Ret (deletedOk (''delete legacy mesh IP claim Lease/'' @ name @ '': '') y))))"

definition waitForClaimGone :: "string \<Rightarrow> string \<Rightarrow> UID \<Rightarrow> Duration \<Rightarrow> unit res leaf" where
  "waitForClaimGone namespace name uid timeout =
     (if timeout \<le> 0 then Ret (Inr ())
      else wrapE (''wait for mesh IP claim Lease/'' @ name @ '' deletion: '') (pollUntil (nat (timeout div second))
        (bindP (wAsk wkLease (WGetLease namespace name)) (\<lambda>x. Ret (case x of
           Inl e \<Rightarrow> if IsNotFound e then Inr True else Inl e
         | Inr mclaim \<Rightarrow> Inr (uid \<noteq> [] \<and> leaseUID mclaim \<noteq> uid))))))"

definition releaseAllocator :: "LeafState \<Rightarrow> Allocator" where
  "releaseAllocator state = \<lparr>al_Store = Some (MeshIPClaimNamespaceOrDefault state), al_MeshName = MeshNameOrDefault state,
     al_MeshCIDR = lf_MeshCIDR state, al_Grace = 0\<rparr>"

definition deleteMeshIPClaim :: "LeafState \<Rightarrow> Duration \<Rightarrow> unit res leaf" where
  "deleteMeshIPClaim state timeout =
     bindE (if lf_MeshCIDR state \<noteq> []
        then wStore (MeshIPClaimNamespaceOrDefault state) (Release (releaseAllocator state) (HolderForPeer (lf_PeerName state)))
        else Ret (Inr ())) (\<lambda>_.
     bindE (deleteLegacyMeshIPClaim state) (\<lambda>_.
     if lf_MeshIPClaimName state = [] then Ret (Inr ())
     else waitForClaimGone (MeshIPClaimNamespaceOrDefault state) (lf_MeshIPClaimName state) (lf_MeshIPClaimUID state) timeout))"

definition rollbackMeshIPClaim :: "meshIPClaim \<Rightarrow> unit res leaf" where
  "rollbackMeshIPClaim mclaim =
     (if mc_Name mclaim = [] \<or> mc_UID mclaim = [] then Ret (Inr ())
      else let namespace = (if mc_Namespace mclaim = [] then DefaultNamespace else mc_Namespace mclaim) in
        bindP (wAsk wkDone (WDeleteLease namespace (mc_Name mclaim) (mc_UID mclaim))) (\<lambda>x.
        Ret (deletedOk (''rollback mesh IP claim Lease/'' @ mc_Name mclaim @ '': '') x)))"

definition confirmMeshIPStillHeld :: "LeafState \<Rightarrow> DoctorReport \<Rightarrow> meshIPClaim \<Rightarrow> string \<Rightarrow> unit res leaf" where
  "confirmMeshIPStillHeld state report mclaim address =
     (if \<not> ArbitratesAddresses report
      then bindE (validateMeshIPAvailability (lf_PeerName state) (lf_DisplayName state) (dr_MeshCIDR report)) (\<lambda>current.
        if current \<noteq> address then errorText ''deterministic WireKube mesh address changed during enrollment'' else Ret (Inr ()))
      else bindP (wAsk wkLease (WGetLease (mc_Namespace mclaim) (mc_Name mclaim))) (\<lambda>x. case x of
        Inl e \<Rightarrow>
          if IsNotFound e then errorText (''the claim on mesh address '' @ address @ '' disappeared during enrollment'')
          else Ret (Inl (WrapError (''confirm the claim on mesh address '' @ address @ '': '') e []))
      | Inr lease \<Rightarrow>
          if holderOf lease \<noteq> HolderForPeer (lf_PeerName state)
          then errorText (''the mesh address '' @ address @ '' was claimed by '' @ fmt_q (holderOf lease) @ '' during enrollment'')
          else Ret (Inr ())))"

subsection \<open>The peer\<close>

abbreviation "managedByKey \<equiv> ''app.kubernetes.io/managed-by''"
abbreviation "enrollmentKey \<equiv> ''ai.idleloom.io/enrollment-id''"

definition relayTokenAudience :: "string \<Rightarrow> string" where
  "relayTokenAudience transport = (if transport = ''wss'' then ''wirekube-relay'' else [])"

definition peerServiceAccountName :: "string \<Rightarrow> string" where
  "peerServiceAccountName peerName = ''wirekube-relay-peer-'' @ peerName"

definition peerRBACName :: "string \<Rightarrow> string" where
  "peerRBACName peerName = ''idleloom-wirekube-'' @ TrimPrefix peerName ''idleloom-''"

definition ownedBy :: "string gomap \<Rightarrow> string gomap \<Rightarrow> LeafState \<Rightarrow> bool" where
  "ownedBy labels annotations state \<longleftrightarrow> gomap_get labels managedByKey = managedByValue \<and> gomap_get annotations enrollmentKey = lf_EnrollmentID state"

definition hasOwnedPeerMetadata :: "'a OwnedMeta_scheme \<Rightarrow> LeafState \<Rightarrow> bool" where
  "hasOwnedPeerMetadata peer state \<longleftrightarrow> ownedBy (ow_Labels peer) (ow_Annotations peer) state"

definition peerLabels :: "string \<Rightarrow> string gomap" where
  "peerLabels hostID = [(managedByKey, managedByValue), (''app.kubernetes.io/part-of'', ''idleloom''), (''ai.idleloom.io/host-id'', hostID)]"

definition desiredWireKubePeer :: "LeafState \<Rightarrow> string \<Rightarrow> string \<Rightarrow> WireKubePeer" where
  "desiredWireKubePeer state hostID address = \<lparr>ow_Name = lf_PeerName state, ow_Namespace = [], ow_UID = [], ow_ResourceVersion = [],
     ow_Labels = peerLabels hostID, ow_Annotations = [(enrollmentKey, lf_EnrollmentID state)],
     kp_Spec = \<lparr>sp_publicKey = Some (lf_PublicKey state), sp_allowedIPs = Some [address], sp_persistentKeepalive = Some 25, sp_rest = []\<rparr>\<rparr>"

definition validateOwnedWireKubePeer :: "WireKubePeer \<Rightarrow> WireKubePeer \<Rightarrow> LeafState \<Rightarrow> unit res" where
  "validateOwnedWireKubePeer existing desired state =
     (if \<not> hasOwnedPeerMetadata existing state then Inl (ErrorString (''the WireKubePeer/'' @ ow_Name existing @ '' is not owned by this enrollment''))
      else if lf_PeerUID state \<noteq> [] \<and> ow_UID existing \<noteq> lf_PeerUID state
      then Inl (ErrorString (''the WireKubePeer/'' @ ow_Name existing @ '' identity changed''))
      else if kp_Spec existing \<noteq> kp_Spec desired
      then Inl (ErrorString (''the WireKubePeer/'' @ ow_Name existing @ '' does not match the enrolled key and route contract''))
      else Inr ())"

definition ensureWireKubePeer :: "WireKubePeer \<Rightarrow> LeafState \<Rightarrow> (WireKubePeer \<times> bool) res leaf" where
  "ensureWireKubePeer desired state =
     bindP (wAsk wkPeer (WGetPeer (ow_Name desired))) (\<lambda>x. case x of
       Inl e \<Rightarrow>
         if IsNotFound e
         then bindE (wrapE (''create WireKubePeer/'' @ ow_Name desired @ '': '') (wAsk wkPeer (WCreatePeer desired))) (\<lambda>created. Ret (Inr (created, True)))
         else Ret (Inl (WrapError (''get WireKubePeer/'' @ ow_Name desired @ '': '') e []))
     | Inr existing \<Rightarrow> bindE (liftE (validateOwnedWireKubePeer existing desired state)) (\<lambda>_. Ret (Inr (existing, False))))"

definition refreshWireKubePeerState :: "leaflib \<Rightarrow> string \<Rightarrow> LeafState \<Rightarrow> LeafState res leaf" where
  "refreshWireKubePeerState K directory state =
     bindE (wrapE (''get WireKubePeer/'' @ lf_PeerName state @ '': '') (wAsk wkPeer (WGetPeer (lf_PeerName state)))) (\<lambda>peer.
     if ow_UID peer \<noteq> lf_PeerUID state then errorText (''the WireKubePeer/'' @ lf_PeerName state @ '' identity changed'')
     else bindE (liftE (validateOwnedWireKubePeer peer
            (desiredWireKubePeer state (TrimPrefix (lf_PeerName state) ''idleloom-'') (lf_AssignedMeshIP state)) state)) (\<lambda>_.
       bindE (writeState K directory state) (\<lambda>_. Ret (Inr state))))"

definition RefreshState :: "leaflib \<Rightarrow> bool \<Rightarrow> string \<Rightarrow> LeafState res leaf" \<comment> \<open>the client may be nil\<close> where
  "RefreshState K client directory =
     (if \<not> client then errorText ''dynamic client is required''
      else bindE (Leaf_ReadState K directory) (\<lambda>state.
        if lf_PeerMode state = peerModeWireKube then refreshWireKubePeerState K directory state
        else errorText ''legacy WireKubeExternalPeer state can only be revoked; delete and rejoin the host''))"

definition UpdatePeerStatus :: "LeafState \<Rightarrow> tunnelSnapshot \<Rightarrow> bool \<Rightarrow> unit res leaf" where
  "UpdatePeerStatus state snapshot connected =
     wrapE (''update WireKubePeer/'' @ lf_PeerName state @ '' status: '') (wAsk wkDone (WPatchPeerStatus (lf_PeerName state) snapshot connected))"

subsection \<open>The identity of the peer\<close>

definition kindName :: "rbacKind \<Rightarrow> string" where
  "kindName k = (case k of ServiceAccountKind \<Rightarrow> ''ServiceAccount'' | RoleKind \<Rightarrow> ''Role'' | RoleBindingKind \<Rightarrow> ''RoleBinding''
     | ClusterRoleKind \<Rightarrow> ''ClusterRole'' | ClusterRoleBindingKind \<Rightarrow> ''ClusterRoleBinding'')"

definition kindResource :: "rbacKind \<Rightarrow> string" where
  "kindResource k = (case k of ServiceAccountKind \<Rightarrow> ''serviceaccounts'' | RoleKind \<Rightarrow> ''roles'' | RoleBindingKind \<Rightarrow> ''rolebindings''
     | ClusterRoleKind \<Rightarrow> ''clusterroles'' | ClusterRoleBindingKind \<Rightarrow> ''clusterrolebindings'')"

definition validateOwnedObject :: "rbacKind \<Rightarrow> RbacObject \<Rightarrow> RbacObject \<Rightarrow> LeafState \<Rightarrow> unit res" where
  "validateOwnedObject kind existing desired state =
     (if \<not> ownedBy (ow_Labels existing) (ow_Annotations existing) state
      then Inl (ErrorString (kindName kind @ '' '' @ (if kind = ClusterRoleKind \<or> kind = ClusterRoleBindingKind then [] else ow_Namespace desired @ ''/'') @ ow_Name desired
        @ '' is not owned by this enrollment''))
      else Inr ())"

definition ignoring :: "'a res leaf \<Rightarrow> unit res leaf" where
  "ignoring p = bindE p (\<lambda>_. Ret (Inr ()))"

text \<open>\<open>ensureOwnedServiceAccount\<close> leaves an account it owns alone; the four others update theirs.\<close>

definition ensureOwned :: "rbacKind \<Rightarrow> RbacObject \<Rightarrow> LeafState \<Rightarrow> unit res leaf" where
  "ensureOwned kind desired state =
     bindP (wAsk wkRbac (WGetRbac kind (ow_Namespace desired) (ow_Name desired))) (\<lambda>x. case x of
       Inl e \<Rightarrow> if IsNotFound e then ignoring (wAsk wkRbac (WCreateRbac kind desired)) else Ret (Inl e)
     | Inr existing \<Rightarrow>
         bindE (liftE (validateOwnedObject kind existing desired state)) (\<lambda>_.
         if kind = ServiceAccountKind then Ret (Inr ())
         else ignoring (wAsk wkRbac (WUpdateRbac kind (desired\<lparr>ow_ResourceVersion := ow_ResourceVersion existing\<rparr>)))))"

definition identityObject :: "LeafState \<Rightarrow> string \<Rightarrow> string \<Rightarrow> string \<Rightarrow> RbacObject" where
  "identityObject state hostID namespace name = \<lparr>ow_Name = name, ow_Namespace = namespace, ow_UID = [], ow_ResourceVersion = [],
     ow_Labels = peerLabels hostID, ow_Annotations = [(enrollmentKey, lf_EnrollmentID state)], rb_Rules = [], rb_RoleRef = None, rb_Subjects = []\<rparr>"

definition ensurePeerIdentity :: "LeafState \<Rightarrow> string \<Rightarrow> unit res leaf" where
  "ensurePeerIdentity state hostID =
     (let ns = lf_PeerNamespace state; account = lf_PeerServiceAccount state; name = peerRBACName (lf_PeerName state);
          role = (identityObject state hostID ns name)\<lparr>rb_Rules := [\<lparr>pu_APIGroups = [''''], pu_Resources = [''serviceaccounts/token''],
            pu_ResourceNames = [account], pu_Verbs = [''create'']\<rparr>]\<rparr>;
          binding = (identityObject state hostID ns name)\<lparr>rb_RoleRef := Some (''Role'', name), rb_Subjects := [(account, ns)]\<rparr>;
          clusterRole = (identityObject state hostID [] name)\<lparr>rb_Rules := [
            \<lparr>pu_APIGroups = [''wirekube.io''], pu_Resources = [''wirekubepeers''], pu_ResourceNames = [], pu_Verbs = [''list'']\<rparr>,
            \<lparr>pu_APIGroups = [''wirekube.io''], pu_Resources = [''wirekubepeers/status''], pu_ResourceNames = [lf_PeerName state], pu_Verbs = [''patch'']\<rparr>]\<rparr>;
          clusterBinding = (identityObject state hostID [] name)\<lparr>rb_RoleRef := Some (''ClusterRole'', name), rb_Subjects := [(account, ns)]\<rparr> in
      bindE (ensureOwned ServiceAccountKind (identityObject state hostID ns account) state) (\<lambda>_.
      bindE (ensureOwned RoleKind role state) (\<lambda>_.
      bindE (ensureOwned RoleBindingKind binding state) (\<lambda>_.
      bindE (ensureOwned ClusterRoleKind clusterRole state) (\<lambda>_.
      ensureOwned ClusterRoleBindingKind clusterBinding state)))))"

definition deleteOwned :: "LeafState \<Rightarrow> rbacKind \<times> string \<times> string \<Rightarrow> unit res leaf" where
  "deleteOwned state item = (case item of (kind, namespace, name) \<Rightarrow>
     bindP (wAsk wkRbac (WGetRbac kind namespace name)) (\<lambda>x. case x of
       Inl e \<Rightarrow> Ret (if IsNotFound e then Inr () else Inl e)
     | Inr existing \<Rightarrow>
         if \<not> hasOwnedPeerMetadata existing state then errorText (kindResource kind @ ''/'' @ name @ '' is not owned by this enrollment'')
         else bindP (wAsk wkDone (WDeleteRbac kind namespace name (if ow_UID existing \<noteq> [] then Some (ow_UID existing) else None))) (\<lambda>y.
           Ret (case y of Inl e \<Rightarrow> if IsNotFound e then Inr () else Inl e | Inr _ \<Rightarrow> Inr ()))))"

primrec deleteEach :: "LeafState \<Rightarrow> (rbacKind \<times> string \<times> string) list \<Rightarrow> unit res list leaf" where
  "deleteEach state [] = Ret []"
| "deleteEach state (item # items) = bindP (deleteOwned state item) (\<lambda>x. bindP (deleteEach state items) (\<lambda>xs. Ret (x # xs)))"

definition deletePeerIdentity :: "LeafState \<Rightarrow> unit res leaf" where
  "deletePeerIdentity state =
     (let name = peerRBACName (lf_PeerName state) in
      bindP (deleteEach state [(ClusterRoleBindingKind, [], name), (ClusterRoleKind, [], name), (RoleBindingKind, lf_PeerNamespace state, name),
        (RoleKind, lf_PeerNamespace state, name), (ServiceAccountKind, lf_PeerNamespace state, lf_PeerServiceAccount state)]) (\<lambda>xs.
      Ret (joinAll xs)))"

subsection \<open>Credentials\<close>

record restConfig =
  rt_Host :: string
  rt_Insecure :: bool
  rt_CAData :: string
  rt_CAFile :: string
  rt_ServerName :: string

abbreviation "linkKubeconfigName \<equiv> ''wirekube-peer.kubeconfig''"

definition LinkKubeconfigPath :: "string \<Rightarrow> string" where
  "LinkKubeconfigPath directory = filepath_Join [directory, linkKubeconfigName]"

definition writePeerKubeconfig :: "leaflib \<Rightarrow> restConfig \<Rightarrow> LeafState \<Rightarrow> string \<Rightarrow> Duration \<Rightarrow> unit res leaf" where
  "writePeerKubeconfig K source state path duration =
     bindE (wrapE ''create restricted WireKube peer token: ''
       (wAsk wkToken (WCreateToken (lf_PeerNamespace state) (lf_PeerServiceAccount state) [] (duration div second)))) (\<lambda>(token, expires).
     if token = [] \<or> expires = None then errorText ''the WireKube peer TokenRequest returned an incomplete credential''
     else if rt_Host source = [] \<or> rt_Insecure source then errorText ''a TLS Kubernetes API endpoint is required''
     else bindE (if rt_CAData source = [] \<and> rt_CAFile source \<noteq> [] then wrapE ''read cluster CA: '' (wAsk wkText (WReadFile (rt_CAFile source)))
          else Ret (Inr (rt_CAData source))) (\<lambda>ca.
       if ca = [] then errorText ''cluster CA data is required''
       else bindE (liftE (wl_Kubeconfig K (rt_Host source, ca, rt_ServerName source, token))) (\<lambda>data. writePrivate path data)))"

definition RelayTokenPath :: "string \<Rightarrow> string" where
  "RelayTokenPath directory = filepath_Join [directory, ''wirekube-relay.token'']"

text \<open>The zero time is \<open>None\<close>.\<close>

definition WriteRelayToken :: "bool \<Rightarrow> LeafState \<Rightarrow> string \<Rightarrow> Duration \<Rightarrow> Time option res leaf" where
  "WriteRelayToken client state directory duration =
     (if lf_RelayTransport state \<noteq> ''wss'' then Ret (Inr None)
      else if \<not> client \<or> lf_PeerNamespace state = [] \<or> lf_PeerServiceAccount state = [] \<or> lf_RelayTokenAudience state = []
      then errorText ''the WireKube relay credential configuration is incomplete''
      else let duration = (if duration \<le> 0 \<or> duration > hour then hour else duration) in
      bindE (wrapE ''create WireKube relay token: ''
        (wAsk wkToken (WCreateToken (lf_PeerNamespace state) (lf_PeerServiceAccount state) [lf_RelayTokenAudience state] (duration div second)))) (\<lambda>(token, expires).
      if token = [] \<or> expires = None then errorText ''the WireKube relay TokenRequest returned an incomplete credential''
      else bindE (writePrivate (RelayTokenPath directory) (token @ [CHR 0x0A])) (\<lambda>_. Ret (Inr expires))))"

subsection \<open>Enrollment\<close>

record EnrollConfig =
  ec_Clients :: bool \<comment> \<open>the dynamic and the Kubernetes client and the REST configuration are given\<close>
  ec_REST :: restConfig
  ec_HostID :: string
  ec_EnrollmentID :: string
  ec_Namespace :: string
  ec_StateDirectory :: string
  ec_APIEndpoint :: string
  ec_TokenDuration :: Duration
  ec_Warn :: bool

definition rollbackNewWireKubeEnrollment :: "WireKubePeer option \<Rightarrow> meshIPClaim \<Rightarrow> LeafState \<Rightarrow> bool \<Rightarrow> bool \<Rightarrow> unit res leaf" where
  "rollbackNewWireKubeEnrollment peer mclaim state peerCreated claimCreated =
     bindP (case peer of
         Some p \<Rightarrow>
           if peerCreated \<and> ow_UID p \<noteq> []
           then bindP (wAsk wkDone (WDeletePeer (ow_Name p) (ow_UID p))) (\<lambda>x. bindP (deletePeerIdentity state) (\<lambda>y.
             Ret [case x of Inl e \<Rightarrow> if \<not> IsNotFound e then Inl (WrapError (''rollback WireKubePeer/'' @ ow_Name p @ '': '') e []) else Inr () | Inr _ \<Rightarrow> Inr (), y]))
           else Ret []
       | None \<Rightarrow> Ret []) (\<lambda>xs.
     bindP (if claimCreated then bindP (rollbackMeshIPClaim mclaim) (\<lambda>z. Ret [z]) else Ret []) (\<lambda>zs.
     Ret (joinAll (xs @ zs))))"

definition failWith :: "go_error \<Rightarrow> unit res leaf \<Rightarrow> 'a res leaf" \<comment> \<open>\<open>errors.Join (err, rollback)\<close>\<close> where
  "failWith e rollback = bindP rollback (\<lambda>x. Ret (case joinAll [Inl e, x] of Inl e' \<Rightarrow> Inl e' | Inr _ \<Rightarrow> Inl e))"

definition orElse :: "'a res leaf \<Rightarrow> (go_error \<Rightarrow> 'b res leaf) \<Rightarrow> ('a \<Rightarrow> 'b res leaf) \<Rightarrow> 'b res leaf" where
  "orElse p handler rest = bindP p (\<lambda>x. case x of Inl e \<Rightarrow> handler e | Inr a \<Rightarrow> rest a)"

text \<open>The fields of the state that \<open>Enroll\<close> sets before it claims an address, and after.\<close>

definition enrollState :: "EnrollConfig \<Rightarrow> DoctorReport \<Rightarrow> LeafState \<Rightarrow> LeafState" where
  "enrollState c report state = state\<lparr>lf_MeshCIDR := dr_MeshCIDR report, lf_KubernetesAPIEndpoint := ec_APIEndpoint c, lf_PeerMode := peerModeWireKube,
     lf_RelayTransport := dr_RelayTransport report, lf_RelayEndpoint := dr_RelayEndpoint report,
     lf_RelayTokenAudience := relayTokenAudience (dr_RelayTransport report), lf_PeerNamespace := ec_Namespace c,
     lf_PeerServiceAccount := peerServiceAccountName (lf_PeerName state), lf_MTU := dr_MTU report, lf_AllowedDestinations := [dr_MeshCIDR report]\<rparr>"

definition claimedState :: "DoctorReport \<Rightarrow> meshIPClaim \<Rightarrow> string \<Rightarrow> LeafState \<Rightarrow> LeafState" where
  "claimedState report mclaim address state = state\<lparr>lf_MeshIPClaimName := mc_Name mclaim, lf_MeshIPClaimUID := mc_UID mclaim,
     lf_MeshIPClaimNamespace := mc_Namespace mclaim, lf_MeshName := dr_MeshName report, lf_AssignedMeshIP := address, lf_IngressPublicKey := []\<rparr>"

definition enrollIdentity :: "leaflib \<Rightarrow> EnrollConfig \<Rightarrow> DoctorReport \<Rightarrow> LeafState \<Rightarrow> string \<Rightarrow> meshIPClaim \<Rightarrow> bool \<Rightarrow> WireKubePeer \<Rightarrow> bool \<Rightarrow> LeafState res leaf" where
  "enrollIdentity K c report state0 address mclaim claimCreated peer peerCreated =
     (let state = state0\<lparr>lf_PeerUID := ow_UID peer\<rparr>;
          rollback = (\<lambda>s e. failWith e (rollbackNewWireKubeEnrollment (Some peer) mclaim s peerCreated claimCreated));
          duration = (if ec_TokenDuration c \<le> 0 \<or> ec_TokenDuration c > 24 * hour then 8 * hour else ec_TokenDuration c);
          linkKubeconfig = filepath_Join [ec_StateDirectory c, linkKubeconfigName] in
      if ow_UID peer = [] then rollback state (ErrorString (''the WireKubePeer/'' @ ow_Name peer @ '' has no UID''))
      else orElse (writeState K (ec_StateDirectory c) state) (rollback state) (\<lambda>_.
        orElse (confirmMeshIPStillHeld state report mclaim address) (rollback state) (\<lambda>_.
        orElse (ensurePeerIdentity state (ec_HostID c)) (rollback state) (\<lambda>_.
        orElse (writePeerKubeconfig K (ec_REST c) state linkKubeconfig duration) (rollback state) (\<lambda>_.
        let linked = state\<lparr>lf_LinkKubeconfig := linkKubeconfig\<rparr> in
        orElse (writeState K (ec_StateDirectory c) linked)
          (\<lambda>e. bindP (wAsk wkDone (WRemove linkKubeconfig)) (\<lambda>_. rollback linked e)) (\<lambda>_.
        Ret (Inr linked)))))))"

definition enrollClaimed :: "leaflib \<Rightarrow> EnrollConfig \<Rightarrow> DoctorReport \<Rightarrow> LeafState \<Rightarrow> string \<times> meshIPClaim \<times> bool \<Rightarrow> LeafState res leaf" where
  "enrollClaimed K c report state0 claimed = (case claimed of (address, mclaim, claimCreated) \<Rightarrow>
     let moved = lf_AssignedMeshIP state0 \<noteq> [] \<and> lf_AssignedMeshIP state0 \<noteq> address \<and> ec_Warn c;
         state = claimedState report mclaim address state0 in
     bindP (if moved then bindP (wAsk wkDone (WWarn (''the mesh address moved from '' @ lf_AssignedMeshIP state0 @ '' to '' @ address
            @ '' because the first was already claimed''))) (\<lambda>_. Ret ()) else Ret ()) (\<lambda>_.
     orElse (writeState K (ec_StateDirectory c) state)
       (\<lambda>e. if claimCreated then failWith e (rollbackMeshIPClaim mclaim) else Ret (Inl e)) (\<lambda>_.
     orElse (ensureWireKubePeer (desiredWireKubePeer state (ec_HostID c) address) state)
       (\<lambda>e. failWith e (rollbackNewWireKubeEnrollment None mclaim state False claimCreated)) (\<lambda>(peer, peerCreated).
     enrollIdentity K c report state address mclaim claimCreated peer peerCreated))))"

definition checkPeerName :: "string \<Rightarrow> unit res leaf" where
  "checkPeerName peerName = bindP (wAsk wkDone (WGetNode peerName)) (\<lambda>x. Ret (case x of
     Inr _ \<Rightarrow> Inl (ErrorString (''the WireKube peer name '' @ peerName @ '' conflicts with an existing Kubernetes Node''))
   | Inl e \<Rightarrow> if \<not> IsNotFound e then Inl (WrapError ''check WireKube peer name against Kubernetes Nodes: '' e []) else Inr ()))"

definition Enroll :: "leaflib \<Rightarrow> EnrollConfig \<Rightarrow> LeafState res leaf" where
  "Enroll K c =
     (if \<not> ec_Clients c \<or> ec_HostID c = [] \<or> ec_EnrollmentID c = [] \<or> ec_Namespace c = [] \<or> ec_StateDirectory c = [] \<or> ec_APIEndpoint c = []
      then errorText ''dynamic and Kubernetes clients, REST config, host ID, enrollment ID, namespace, state directory, and API endpoint are required''
      else bindE (liftE (validateAPIEndpoint (ec_APIEndpoint c))) (\<lambda>_.
        bindE Inspect (\<lambda>report.
        let peerName = ''idleloom-'' @ ec_HostID c in
        bindE (checkPeerName peerName) (\<lambda>_.
        bindE (loadOrCreateState K (ec_StateDirectory c) peerName (ec_EnrollmentID c)) (\<lambda>loaded.
        if lf_MeshCIDR loaded \<noteq> [] \<and> lf_MeshCIDR loaded \<noteq> dr_MeshCIDR report
        then errorText (''the WireKube mesh CIDR changed from '' @ lf_MeshCIDR loaded @ '' to '' @ dr_MeshCIDR report @ ''; repair connectivity before reenrolling'')
        else let state = enrollState c report loaded in
        if ArbitratesAddresses report \<and> dr_AgentNamespace report = []
        then errorText ''cannot tell which namespace holds WireKube's mesh address claims: found no single WireKube agent DaemonSet; remove any stale installation, or run idlectl where the agent is visible''
        else bindE (claimMeshIP state report) (enrollClaimed K c report state))))))"

subsection \<open>Revocation\<close>

record RevokeConfig =
  vc_Client :: bool
  vc_StateDirectory :: string
  vc_RuntimeDirectory :: string
  vc_WaitTimeout :: Duration
  vc_Force :: bool

definition waitTimeoutOf :: "RevokeConfig \<Rightarrow> Duration" where
  "waitTimeoutOf c = (if vc_WaitTimeout c \<le> 0 then minute else vc_WaitTimeout c)"

primrec awaitPeerGone :: "nat \<Rightarrow> string \<Rightarrow> unit res leaf" where
  "awaitPeerGone 0 name =
     bindP (wAsk wkPeer (WGetPeer name)) (\<lambda>x. case x of
       Inl e \<Rightarrow> Ret (if IsNotFound e then Inr () else Inl (WrapError (''wait for WireKubePeer/'' @ name @ '' deletion: '') e []))
     | Inr _ \<Rightarrow> errorText (''wait for WireKubePeer/'' @ name @ '' deletion: timeout''))"
| "awaitPeerGone (Suc n) name =
     bindP (wAsk wkPeer (WGetPeer name)) (\<lambda>x. case x of
       Inl e \<Rightarrow> Ret (if IsNotFound e then Inr () else Inl (WrapError (''wait for WireKubePeer/'' @ name @ '' deletion: '') e []))
     | Inr _ \<Rightarrow> bindE (wAsk wkDone WTick) (\<lambda>_. awaitPeerGone n name))"

text \<open>An absent object, which \<open>Get\<close> answers with a not-found error, is \<open>None\<close>.\<close>

definition getOptional :: "string \<Rightarrow> 'a res leaf \<Rightarrow> 'a option res leaf" where
  "getOptional pre p = bindP p (\<lambda>x. Ret (case x of
     Inl e \<Rightarrow> if \<not> IsNotFound e then Inl (WrapError pre e []) else Inr None
   | Inr a \<Rightarrow> Inr (Some a)))"

definition deleteUnlessGone :: "string \<Rightarrow> wkreq \<Rightarrow> unit res leaf" where
  "deleteUnlessGone pre q = bindP (wAsk wkDone q) (\<lambda>x. Ret (case x of
     Inl e \<Rightarrow> if \<not> IsNotFound e then Inl (WrapError pre e []) else Inr ()
   | Inr _ \<Rightarrow> Inr ()))"

definition revokePeer :: "RevokeConfig \<Rightarrow> LeafState \<Rightarrow> WireKubePeer \<Rightarrow> unit res leaf" where
  "revokePeer c state peer =
     bindE (liftE (validateOwnedWireKubePeer peer
       (desiredWireKubePeer state (TrimPrefix (lf_PeerName state) ''idleloom-'') (lf_AssignedMeshIP state)) state)) (\<lambda>_.
     if ow_UID peer = [] then errorText (''the WireKubePeer/'' @ lf_PeerName state @ '' has no UID'')
     else bindE (deleteUnlessGone (''delete WireKubePeer/'' @ lf_PeerName state @ '': '') (WDeletePeer (lf_PeerName state) (ow_UID peer))) (\<lambda>_.
       awaitPeerGone (nat (waitTimeoutOf c div (second div 4))) (lf_PeerName state)))"

definition revokeWireKubePeer :: "RevokeConfig \<Rightarrow> LeafState \<Rightarrow> unit res leaf" where
  "revokeWireKubePeer c state =
     bindE (getOptional (''get WireKubePeer/'' @ lf_PeerName state @ '': '') (wAsk wkPeer (WGetPeer (lf_PeerName state)))) (\<lambda>peer.
     bindE (case peer of Some p \<Rightarrow> revokePeer c state p | None \<Rightarrow> Ret (Inr ())) (\<lambda>_.
     bindE (wrapE ''delete WireKube peer identity: '' (deletePeerIdentity state)) (\<lambda>_.
     bindE (deleteMeshIPClaim state (waitTimeoutOf c)) (\<lambda>_.
     bindE (if lf_LinkKubeconfig state \<noteq> []
        then bindP (wAsk wkDone (WRemove (lf_LinkKubeconfig state))) (\<lambda>x. Ret (case x of
          Inl e \<Rightarrow> if e \<noteq> NotExistError then Inl e else Inr () | Inr _ \<Rightarrow> Inr ()))
        else Ret (Inr ())) (\<lambda>_.
     removeLocalState (vc_StateDirectory c))))))"

definition validateLegacyExternalPeer :: "WireKubeExternalPeer \<Rightarrow> LeafState \<Rightarrow> unit res" where
  "validateLegacyExternalPeer peer state =
     (let text = (\<lambda>why. Inl (ErrorString (''the WireKubeExternalPeer/'' @ ow_Name peer @ why))) in
      if \<not> hasOwnedPeerMetadata peer state then text '' is not owned by this enrollment''
      else if lf_PeerUID state \<noteq> [] \<and> ow_UID peer \<noteq> lf_PeerUID state then text '' identity changed''
      else if xp_displayName peer \<noteq> lf_DisplayName state \<or> xp_publicKey peer \<noteq> lf_PublicKey state
         \<or> xp_allowedDestinations peer \<noteq> [lf_MeshCIDR state]
      then text '' does not match the legacy enrollment contract''
      else Inr ())"

definition revokeExternalPeer :: "RevokeConfig \<Rightarrow> LeafState \<Rightarrow> WireKubeExternalPeer \<Rightarrow> unit res leaf" where
  "revokeExternalPeer c state peer =
     (let name = lf_PeerName state in
      if lf_PeerUID state \<noteq> [] \<and> ow_UID peer \<noteq> lf_PeerUID state then errorText (''the WireKubeExternalPeer/'' @ name @ '' identity changed'')
      else bindE (liftE (validateLegacyExternalPeer peer state)) (\<lambda>_.
        if ow_UID peer = [] then errorText (''the WireKubeExternalPeer/'' @ name @ '' has no UID'')
        else bindE (deleteUnlessGone (''delete WireKubeExternalPeer/'' @ name @ '': '') (WDeleteExternalPeer name (ow_UID peer))) (\<lambda>_.
          wrapE (''wait for WireKubeExternalPeer/'' @ name @ '' deletion: '') (pollUntil (nat (waitTimeoutOf c div second))
            (bindP (wAsk wkExternalPeer (WGetExternalPeer name)) (\<lambda>x. Ret (case x of
               Inl e \<Rightarrow> if IsNotFound e then Inr True else Inl e | Inr _ \<Rightarrow> Inr False)))))))"

definition revokeLegacy :: "RevokeConfig \<Rightarrow> LeafState \<Rightarrow> unit res leaf" where
  "revokeLegacy c state =
     (let finish = bindE (deleteMeshIPClaim state (waitTimeoutOf c)) (\<lambda>_. removeLocalState (vc_StateDirectory c)) in
      bindE (getOptional (''get WireKubeExternalPeer/'' @ lf_PeerName state @ '': '') (wAsk wkExternalPeer (WGetExternalPeer (lf_PeerName state)))) (\<lambda>peer.
      case peer of
        None \<Rightarrow> finish
      | Some p \<Rightarrow> if \<not> hasOwnedPeerMetadata p state then finish else bindE (revokeExternalPeer c state p) (\<lambda>_. finish)))"

definition Revoke :: "leaflib \<Rightarrow> RevokeConfig \<Rightarrow> unit res leaf" where
  "Revoke K c =
     (if \<not> vc_Client c \<or> vc_StateDirectory c = [] then errorText ''dynamic client and state directory are required''
      else bindE (Leaf_ReadState K (vc_StateDirectory c)) (\<lambda>state.
        bindE (if vc_RuntimeDirectory c = [] \<and> lf_PeerUID state \<noteq> [] then wAsk wkText (WDefaultRuntimeDirectory (lf_PeerUID state))
          else Ret (Inr (vc_RuntimeDirectory c))) (\<lambda>runtimeDirectory.
        bindE (if \<not> vc_Force c \<and> runtimeDirectory \<noteq> [] then wAsk wkFlag (WRuntimeActive runtimeDirectory (lf_PeerUID state)) else Ret (Inr False)) (\<lambda>active.
        if active then errorText ''the WireKube connectivity service is still running; stop it or rerun with --force''
        else if lf_PeerMode state = peerModeWireKube then revokeWireKubePeer c state
        else revokeLegacy c state))))"

end
