(* ===== verification/Wire_Safety.thy ===== *)
theory Wire_Safety
  imports Wire_Enroll
begin

section \<open>What enrollment creates, deletes and undoes\<close>

text \<open>
  Over every trace \<open>Enroll\<close> and \<open>Revoke\<close> can have: an object is deleted or updated only by the identity under
  which it was read as this enrollment's, or as which this run created it; and an enrollment that
  fails has asked for the deletion of the claim and of the peer it created.
\<close>

subsection \<open>Requests and what they need\<close>

definition ownedMeta :: "string \<Rightarrow> 'a OwnedMeta_scheme \<Rightarrow> bool" where
  "ownedMeta E m \<longleftrightarrow> gomap_get (ow_Labels m) managedByKey = managedByValue \<and> gomap_get (ow_Annotations m) enrollmentKey = E"

text \<open>The Leases a trace created, with their namespace, and the peers.\<close>

fun madeLease :: "wkreq \<times> wkresp \<Rightarrow> (string \<times> ClaimLease) list" where
  "madeLease (WStore ns (SCreate l), AStore (LeaseA (Inr l'))) = [(ns, l')]"
| "madeLease _ = []"

fun madePeer :: "wkreq \<times> wkresp \<Rightarrow> WireKubePeer list" where
  "madePeer (WCreatePeer d, APeer (Inr p)) = [p]"
| "madePeer _ = []"

definition madeLeases :: "(wkreq \<times> wkresp) list \<Rightarrow> (string \<times> ClaimLease) list" where
  "madeLeases h = concat (map madeLease h)"

definition madePeers :: "(wkreq \<times> wkresp) list \<Rightarrow> WireKubePeer list" where
  "madePeers h = concat (map madePeer h)"

lemma made_append [simp]:
  "madeLeases (h @ t) = madeLeases h @ madeLeases t" "madePeers (h @ t) = madePeers h @ madePeers t"
  "madeLeases [] = []" "madePeers [] = []" "madeLeases [x] = madeLease x" "madePeers [x] = madePeer x"
  "madeLeases (x # t) = madeLease x @ madeLeases t" "madePeers (x # t) = madePeer x @ madePeers t"
  by (simp_all add: madeLeases_def madePeers_def)

definition wireGuard :: "string \<Rightarrow> string \<Rightarrow> (wkreq \<times> wkresp) list \<Rightarrow> wkreq \<Rightarrow> bool" where
  "wireGuard E peerName h q = (case q of
     WDeletePeer name uid \<Rightarrow> (\<exists>p. (WGetPeer name, APeer (Inr p)) \<in> set h \<and> ownedMeta E p \<and> ow_UID p = uid)
       \<or> (\<exists>p \<in> set (madePeers h). ow_Name p = name \<and> ow_UID p = uid)
   | WDeleteExternalPeer name uid \<Rightarrow> \<exists>p. (WGetExternalPeer name, AExternalPeer (Inr p)) \<in> set h \<and> ownedMeta E p \<and> ow_UID p = uid
   | WDeleteRbac kind ns name uid \<Rightarrow> \<exists>x. (WGetRbac kind ns name, ARbac (Inr x)) \<in> set h \<and> ownedMeta E x
       \<and> uid = (if ow_UID x \<noteq> [] then Some (ow_UID x) else None)
   | WUpdateRbac kind d \<Rightarrow> \<exists>x. (WGetRbac kind (ow_Namespace d) (ow_Name d), ARbac (Inr x)) \<in> set h \<and> ownedMeta E x
       \<and> ow_ResourceVersion d = ow_ResourceVersion x
   | WDeleteLease ns name uid \<Rightarrow> (\<exists>l. (WGetLease ns name, ALease (Inr l)) \<in> set h \<and> holderOf l = peerName \<and> leaseUID l = uid)
       \<or> (\<exists>l. (ns, l) \<in> set (madeLeases h) \<and> leaseName l = name \<and> leaseUID l = uid)
   | WStore ns (SDelete name uid) \<Rightarrow> \<exists>s ls l. (WStore ns (SList s), AStore (LeasesA (Inr ls))) \<in> set h \<and> l \<in> set ls
       \<and> holderOf l = HolderForPeer peerName \<and> leaseName l = name \<and> leaseUID l = uid
   | WStore ns (SCreate l) \<Rightarrow> holderOf l = HolderForPeer peerName
   | _ \<Rightarrow> True)"

definition plainRequest :: "wkreq \<Rightarrow> bool" \<comment> \<open>needs nothing and makes neither a claim nor a peer\<close> where
  "plainRequest q = (case q of
     WDeletePeer _ _ \<Rightarrow> False | WDeleteExternalPeer _ _ \<Rightarrow> False | WDeleteRbac _ _ _ _ \<Rightarrow> False | WUpdateRbac _ _ \<Rightarrow> False
   | WDeleteLease _ _ _ \<Rightarrow> False | WStore _ _ \<Rightarrow> False | WCreatePeer _ \<Rightarrow> False | _ \<Rightarrow> True)"

lemma plainRequest_facts: "plainRequest q \<Longrightarrow> wireGuard E pn h q \<and> madeLease (q, r) = [] \<and> madePeer (q, r) = []"
  by (cases q) (auto simp: plainRequest_def wireGuard_def)

text \<open>A program that keeps the guard wherever it starts and makes nothing.\<close>

definition neutral :: "string \<Rightarrow> string \<Rightarrow> 'a leaf \<Rightarrow> bool" where
  "neutral E pn p \<longleftrightarrow> (\<forall>h. safe (wireGuard E pn) (\<lambda>h' _. \<exists>t. h' = h @ t \<and> madeLeases t = [] \<and> madePeers t = []) p h)"

lemma neutral_at: "neutral E pn p \<Longrightarrow> safe (wireGuard E pn) (\<lambda>h' _. \<exists>t. h' = h @ t \<and> madeLeases t = [] \<and> madePeers t = []) p h"
  by (simp add: neutral_def)

lemma neutral_Ret [simp]: "neutral E pn (Ret x)"
  by (simp add: neutral_def)

lemma neutral_bindP: "neutral E pn p \<Longrightarrow> (\<And>x. neutral E pn (f x)) \<Longrightarrow> neutral E pn (bindP p f)"
  unfolding neutral_def safe_bindP
proof (intro allI)
  fix h
  assume p: "\<forall>h. safe (wireGuard E pn) (\<lambda>h' _. \<exists>t. h' = h @ t \<and> madeLeases t = [] \<and> madePeers t = []) p h"
    and f: "\<And>x. \<forall>h. safe (wireGuard E pn) (\<lambda>h' _. \<exists>t. h' = h @ t \<and> madeLeases t = [] \<and> madePeers t = []) (f x) h"
  show "safe (wireGuard E pn) (\<lambda>h' a. safe (wireGuard E pn) (\<lambda>h' _. \<exists>t. h' = h @ t \<and> madeLeases t = [] \<and> madePeers t = []) (f a) h') p h"
    by (rule safe_mono [OF spec [OF p]], assumption, elim exE conjE) (rule safe_mono [OF spec [OF f]], auto)
qed

lemma neutral_bindE: "neutral E pn p \<Longrightarrow> (\<And>x. neutral E pn (f x)) \<Longrightarrow> neutral E pn (bindE p f)"
  unfolding bindE_def by (rule neutral_bindP) (auto split: sum.split)

lemma neutral_wrapE: "neutral E pn p \<Longrightarrow> neutral E pn (wrapE pre p)"
  unfolding wrapE_def by (rule neutral_bindP) simp_all

lemma neutral_orElse: "neutral E pn p \<Longrightarrow> (\<And>e. neutral E pn (g e)) \<Longrightarrow> (\<And>x. neutral E pn (f x)) \<Longrightarrow> neutral E pn (orElse p g f)"
  unfolding orElse_def by (rule neutral_bindP) (auto split: sum.split)

lemma neutral_ask: "plainRequest q \<Longrightarrow> neutral E pn (wAsk sel q)"
  unfolding neutral_def wAsk_def using plainRequest_facts by auto

lemma neutral_liftE [simp]: "neutral E pn (liftE x)"
  by (simp add: liftE_def)

lemma neutral_if: "(b \<Longrightarrow> neutral E pn p) \<Longrightarrow> (\<not> b \<Longrightarrow> neutral E pn q) \<Longrightarrow> neutral E pn (if b then p else q)"
  by simp

lemma neutral_sum: "(\<And>e. neutral E pn (f e)) \<Longrightarrow> (\<And>a. neutral E pn (g a)) \<Longrightarrow> neutral E pn (case x of Inl e \<Rightarrow> f e | Inr a \<Rightarrow> g a)"
  by (simp split: sum.split)

lemma neutral_option: "neutral E pn f \<Longrightarrow> (\<And>a. neutral E pn (g a)) \<Longrightarrow> neutral E pn (case x of None \<Rightarrow> f | Some a \<Rightarrow> g a)"
  by (simp split: option.split)

lemma neutral_prod: "(\<And>a b. neutral E pn (f a b)) \<Longrightarrow> neutral E pn (case x of (a, b) \<Rightarrow> f a b)"
  by (simp split: prod.split)

lemmas neutral_rules = neutral_bindP neutral_bindE neutral_wrapE neutral_orElse neutral_ask neutral_if neutral_sum neutral_option neutral_prod

lemma plainRequest_requests [simp]:
  "plainRequest (WGetMesh n)" "plainRequest WListDaemonSets" "plainRequest (WListPeers b)" "plainRequest WListServices" "plainRequest (WGetNode n)"
  "plainRequest WListExternalPeers" "plainRequest (WGetExternalPeer n)" "plainRequest (WGetPeer n)" "plainRequest (WPatchPeerStatus n s b)" "plainRequest (WGetLease ns n)"
  "plainRequest (WGetRbac k ns n)" "plainRequest (WCreateRbac k x)" "plainRequest (WCreateToken ns sa au secs)" "plainRequest (WRandom m)" "plainRequest (WWarn w)" "plainRequest WTick"
  "plainRequest (WDefaultRuntimeDirectory uid)" "plainRequest (WRuntimeActive d uid)" "plainRequest (WMkdirAll p)" "plainRequest (WChmodDir p)" "plainRequest (WLstat p)"
  "plainRequest (WOpen p)" "plainRequest WStat" "plainRequest WReadAll" "plainRequest WCloseFile" "plainRequest (WReadFile p)" "plainRequest (WCreateTemp p)" "plainRequest WChmodTemp"
  "plainRequest (WWriteTemp w)" "plainRequest WSyncTemp" "plainRequest WCloseTemp" "plainRequest (WRenameTemp p)" "plainRequest WRemoveTemp" "plainRequest (WRemove p)"
  by (simp_all add: plainRequest_def)

subsection \<open>Programs that make nothing\<close>

lemma neutral_pollUntil: "neutral E pn cond \<Longrightarrow> neutral E pn (pollUntil n cond)"
  by (induction n) (auto intro!: neutral_rules)

lemma neutral_writePrivate: "neutral E pn (writePrivate name data)"
  unfolding writePrivate_def orCloseTemp_def by (intro neutral_rules) simp_all

lemma neutral_writeState: "neutral E pn (writeState K d state)"
  unfolding writeState_def by (intro neutral_rules neutral_writePrivate) simp_all

lemma neutral_ReadState: "neutral E pn (Leaf_ReadState K d)"
  unfolding Leaf_ReadState_def Let_def closingFile_def by (intro neutral_rules) simp_all

lemma neutral_loadOrCreateState: "neutral E pn (loadOrCreateState K d name enrollment)"
  unfolding loadOrCreateState_def generateKeyPair_def Let_def
  by (intro neutral_rules neutral_ReadState neutral_writeState) simp_all

lemma neutral_relayDialTarget: "neutral E pn (relayDialTarget mesh)"
  unfolding relayDialTarget_def managedRelayLoadBalancer_def Let_def by (intro neutral_rules) simp_all

lemma neutral_Inspect: "neutral E pn Inspect"
  unfolding Inspect_def discoverAgentNamespace_def by (intro neutral_rules neutral_relayDialTarget) simp_all

lemma neutral_checkPeerName: "neutral E pn (checkPeerName name)"
  unfolding checkPeerName_def by (intro neutral_rules) simp_all

lemma neutral_validateMeshIPAvailability: "neutral E pn (validateMeshIPAvailability a b c)"
  unfolding validateMeshIPAvailability_def by (intro neutral_rules) simp_all

lemma neutral_confirm: "neutral E pn (confirmMeshIPStillHeld state report c a)"
  unfolding confirmMeshIPStillHeld_def by (intro neutral_rules neutral_validateMeshIPAvailability) simp_all

lemma neutral_writePeerKubeconfig: "neutral E pn (writePeerKubeconfig K source state path d)"
  unfolding writePeerKubeconfig_def by (intro neutral_rules neutral_writePrivate) simp_all

lemma neutral_removeLocalState: "neutral E pn (removeLocalState d)"
  unfolding removeLocalState_def by (intro neutral_rules) simp_all

lemma neutral_waitForClaimGone: "neutral E pn (waitForClaimGone ns n u d)"
  unfolding waitForClaimGone_def by (intro neutral_rules neutral_pollUntil) simp_all

lemma neutral_awaitPeerGone: "neutral E pn (awaitPeerGone n name)"
  by (induction n) (auto intro!: neutral_rules)

subsection \<open>Programs that delete or update\<close>

abbreviation "statesOf E pn state \<equiv> lf_EnrollmentID state = E \<and> lf_PeerName state = pn"

lemma ownedBy_meta: "ownedBy (ow_Labels x) (ow_Annotations x) state \<longleftrightarrow> ownedMeta (lf_EnrollmentID state) x"
  by (simp add: ownedBy_def ownedMeta_def)

lemma hasOwned_meta: "hasOwnedPeerMetadata x state \<longleftrightarrow> ownedMeta (lf_EnrollmentID state) x"
  by (simp add: hasOwnedPeerMetadata_def ownedBy_meta)

lemma neutral_ensureOwned: "lf_EnrollmentID state = E \<Longrightarrow> neutral E pn (ensureOwned kind d state)"
  by (auto simp: neutral_def ensureOwned_def ignoring_def wAsk_def liftE_def safe_bindE wireGuard_def wkRbac_def validateOwnedObject_def ownedBy_meta
      split: sum.splits wkresp.splits if_splits)

lemma neutral_ensurePeerIdentity: "lf_EnrollmentID state = E \<Longrightarrow> neutral E pn (ensurePeerIdentity state host)"
  unfolding ensurePeerIdentity_def Let_def by (intro neutral_rules neutral_ensureOwned)

lemma neutral_deleteOwned: "lf_EnrollmentID state = E \<Longrightarrow> neutral E pn (deleteOwned state item)"
  by (auto simp: neutral_def deleteOwned_def wAsk_def wireGuard_def wkRbac_def hasOwned_meta split: prod.split sum.splits wkresp.splits if_splits)

lemma neutral_deleteEach: "lf_EnrollmentID state = E \<Longrightarrow> neutral E pn (deleteEach state items)"
  by (induction items) (auto intro!: neutral_rules neutral_deleteOwned)

lemma neutral_deletePeerIdentity: "lf_EnrollmentID state = E \<Longrightarrow> neutral E pn (deletePeerIdentity state)"
  unfolding deletePeerIdentity_def Let_def by (intro neutral_rules neutral_deleteEach) simp_all

lemma neutral_deleteLegacy: "lf_PeerName state = pn \<Longrightarrow> neutral E pn (deleteLegacyMeshIPClaim state)"
  by (auto simp: neutral_def deleteLegacyMeshIPClaim_def Let_def wAsk_def wireGuard_def wkLease_def split: sum.splits wkresp.splits if_splits)

subsection \<open>The allocator behind a store\<close>

text \<open>The part of a trace that went to the store of a namespace.\<close>

fun storeStep :: "string \<Rightarrow> wkreq \<times> wkresp \<Rightarrow> (storereq \<times> storeresp) list" where
  "storeStep ns (WStore ns' q, r) = (if ns' = ns then [(q, wkStore r)] else [])"
| "storeStep ns _ = []"

definition storeTrace :: "string \<Rightarrow> (wkreq \<times> wkresp) list \<Rightarrow> (storereq \<times> storeresp) list" where
  "storeTrace ns h = concat (map (storeStep ns) h)"

lemma storeTrace_snoc [simp]: "storeTrace ns (h @ t) = storeTrace ns h @ storeTrace ns t" "storeTrace ns [x] = storeStep ns x" "storeTrace ns [] = []"
  by (simp_all add: storeTrace_def)

lemma storeTrace_mem: "(q, s) \<in> set (storeTrace ns h) \<longleftrightarrow> (\<exists>r. (WStore ns q, r) \<in> set h \<and> s = wkStore r)"
proof
  assume "(q, s) \<in> set (storeTrace ns h)"
  then obtain x where x: "x \<in> set h" "(q, s) \<in> set (storeStep ns x)" by (auto simp: storeTrace_def)
  then show "\<exists>r. (WStore ns q, r) \<in> set h \<and> s = wkStore r"
    by (cases "(ns, x)" rule: storeStep.cases) (auto split: if_splits)
next
  assume "\<exists>r. (WStore ns q, r) \<in> set h \<and> s = wkStore r"
  then obtain r where "(WStore ns q, r) \<in> set h" "(q, s) \<in> set (storeStep ns (WStore ns q, r))" by auto
  then show "(q, s) \<in> set (storeTrace ns h)" unfolding storeTrace_def set_concat set_map by blast
qed

lemma wkStore_answers:
  "wkStore r = LeasesA x \<longleftrightarrow> r = AStore (LeasesA x)" "wkStore r = LeaseA y \<longleftrightarrow> r = AStore (LeaseA y)"
  by (cases r; auto simp: wkStore_def)+

lemma safe_wStore:
  assumes "safe G Q p (storeTrace ns h)"
    and "\<And>h q. G (storeTrace ns h) q \<Longrightarrow> G' h (WStore ns q)"
    and "\<And>t x. Q (storeTrace ns (h @ t)) x \<Longrightarrow> (\<forall>y \<in> set t. \<exists>q r. y = (WStore ns q, r)) \<Longrightarrow> Q' (h @ t) x"
  shows "safe G' Q' (wStore ns p) h"
proof -
  have "safe G Q p (storeTrace ns (h @ t)) \<Longrightarrow> \<forall>y \<in> set t. \<exists>q r. y = (WStore ns q, r) \<Longrightarrow> safe G' Q' (wStore ns p) (h @ t)" for t
  proof (induction p arbitrary: t)
    case (Ret a)
    with assms(3) show ?case by (simp add: wStore_def)
  next
    case (Req q k)
    have "safe G' Q' (wStore ns (k (wkStore r))) (h @ (t @ [(WStore ns q, r)]))" for r
      using Req.prems by (intro Req.IH) auto
    with Req.prems assms(2) show ?case by (simp add: wStore_def)
  qed
  from this [of "[]"] assms(1) show ?thesis by simp
qed

lemma claimGuard_wire:
  "claimGuard a (HolderForPeer pn) (storeTrace ns h) q \<Longrightarrow> wireGuard E pn h (WStore ns q)"
proof (cases q)
  case (SDelete n u)
  assume "claimGuard a (HolderForPeer pn) (storeTrace ns h) q"
  then obtain s ls l where "(SList s, LeasesA (Inr ls)) \<in> set (storeTrace ns h)" "l \<in> set ls" "holderOf l = HolderForPeer pn"
    "leaseName l = n" "leaseUID l = u" unfolding claimGuard_def SDelete by auto
  moreover from this(1) have "(WStore ns (SList s), AStore (LeasesA (Inr ls))) \<in> set h"
    by (metis storeTrace_mem wkStore_answers(1))
  ultimately show ?thesis unfolding wireGuard_def SDelete by auto
qed (auto simp: claimGuard_def wireGuard_def)

subsection \<open>What the allocator made\<close>

fun sMade :: "(storereq \<times> storeresp) list \<Rightarrow> ClaimLease list" where
  "sMade [] = []"
| "sMade ((SCreate l, LeaseA (Inr l')) # t) = l' # sMade t"
| "sMade (_ # t) = sMade t"

lemma sMade_step: "sMade (x # t) = sMade [x] @ sMade t"
  by (cases "x # t" rule: sMade.cases) auto

lemma sMade_append [simp]: "sMade (t @ u) = sMade t @ sMade u"
proof (induction t)
  case (Cons x t)
  then show ?case using sMade_step [of x t] sMade_step [of x "t @ u"] by simp
qed simp

definition recordedAs :: "ClaimResult option \<Rightarrow> (storereq \<times> storeresp) list \<Rightarrow> bool" where
  "recordedAs ro t = (case ro of
     None \<Rightarrow> sMade t = []
   | Some r \<Rightarrow> if cr_Adopted r then sMade t = []
       else \<exists>l. sMade t = [l] \<and> cr_ClaimName r = leaseName l \<and> cr_ClaimUID r = leaseUID l)"

definition makes :: "('a \<Rightarrow> ClaimResult option) \<Rightarrow> 'a store \<Rightarrow> bool" where
  "makes g p \<longleftrightarrow> (\<forall>h. safe (\<lambda>_ _. True) (\<lambda>h' x. \<exists>t. h' = h @ t \<and> recordedAs (g x) t) p h)"

abbreviation "still \<equiv> makes (\<lambda>_. None)"

definition optRes :: "ClaimResult option res \<Rightarrow> ClaimResult option" where
  "optRes x = (case x of Inr r \<Rightarrow> r | Inl _ \<Rightarrow> None)"

definition valRes :: "ClaimResult res \<Rightarrow> ClaimResult option" where
  "valRes x = (case x of Inr r \<Rightarrow> Some r | Inl _ \<Rightarrow> None)"

lemma res_simps [simp]: "optRes (Inr r) = r" "optRes (Inl e) = None" "valRes (Inr v) = Some v" "valRes (Inl e) = None"
  by (simp_all add: optRes_def valRes_def)

lemma recordedAs_simps [simp]:
  "recordedAs None t \<longleftrightarrow> sMade t = []" "cr_Adopted r \<Longrightarrow> recordedAs (Some r) t \<longleftrightarrow> sMade t = []"
  by (simp_all add: recordedAs_def)

lemma recordedAs_Moved [simp]: "recordedAs (Some (r\<lparr>cr_Moved := b\<rparr>)) t = recordedAs (Some r) t"
  by (simp add: recordedAs_def)

lemma recordedAs_after: "sMade t = [] \<Longrightarrow> recordedAs ro u \<Longrightarrow> recordedAs ro (t @ u)"
  by (auto simp: recordedAs_def split: option.splits)

lemma makes_Ret: "g x = None \<or> (\<exists>r. g x = Some r \<and> cr_Adopted r) \<Longrightarrow> makes g (Ret x)"
  by (auto simp: makes_def)

lemma makes_bindP: "still p \<Longrightarrow> (\<And>x. makes g (f x)) \<Longrightarrow> makes g (bindP p f)"
  unfolding makes_def safe_bindP
proof (intro allI)
  fix h
  assume p: "\<forall>h. safe (\<lambda>_ _. True) (\<lambda>h' x. \<exists>t. h' = h @ t \<and> recordedAs None t) p h"
    and f: "\<And>x. \<forall>h. safe (\<lambda>_ _. True) (\<lambda>h' x. \<exists>t. h' = h @ t \<and> recordedAs (g x) t) (f x) h"
  show "safe (\<lambda>_ _. True) (\<lambda>h' a. safe (\<lambda>_ _. True) (\<lambda>h' x. \<exists>t. h' = h @ t \<and> recordedAs (g x) t) (f a) h') p h"
    by (rule safe_mono [OF spec [OF p]], assumption, elim exE conjE)
      (rule safe_mono [OF spec [OF f]], auto intro: recordedAs_after)
qed

lemma makes_bindE: "still p \<Longrightarrow> (\<And>e. g (Inl e) = None) \<Longrightarrow> (\<And>x. makes g (f x)) \<Longrightarrow> makes g (bindE p f)"
  unfolding bindE_def by (rule makes_bindP) (auto split: sum.split intro: makes_Ret)

text \<open>A call that may have claimed: its claim is handed on, or nothing was made and the program goes on.\<close>

lemma makes_then:
  assumes p: "makes optRes p" and some: "\<And>r. \<exists>y. f (Some r) = Ret y \<and> (\<forall>t. recordedAs (Some r) t \<longrightarrow> recordedAs (g y) t)"
    and none: "makes g (f None)" and err: "\<And>e. g (Inl e) = None"
  shows "makes g (bindE p f)"
  unfolding makes_def safe_bindE
proof (intro allI, rule safe_mono [OF p [unfolded makes_def, rule_format]], assumption, elim exE conjE)
  fix h h' x t
  assume h: "h' = h @ t" and r: "recordedAs (optRes x) t"
  show "case x of Inl e \<Rightarrow> \<exists>t. h' = h @ t \<and> recordedAs (g (Inl e)) t
    | Inr a \<Rightarrow> safe (\<lambda>_ _. True) (\<lambda>h' x. \<exists>t. h' = h @ t \<and> recordedAs (g x) t) (f a) h'"
  proof (cases x)
    case (Inl e)
    with h r err show ?thesis by simp
  next
    case (Inr a)
    show ?thesis
    proof (cases a)
      case None
      have "safe (\<lambda>_ _. True) (\<lambda>h'' x. \<exists>t. h'' = h' @ t \<and> recordedAs (g x) t) (f None) h'" using none by (simp add: makes_def)
      then have "safe (\<lambda>_ _. True) (\<lambda>h'' x. \<exists>t. h'' = h @ t \<and> recordedAs (g x) t) (f None) h'"
        by (rule safe_mono) (use h r Inr None in \<open>auto intro: recordedAs_after\<close>)
      then show ?thesis by (simp add: Inr None)
    next
      case (Some c)
      from some [of c] obtain y where "f (Some c) = Ret y" "\<forall>t. recordedAs (Some c) t \<longrightarrow> recordedAs (g y) t" by blast
      with h r Inr Some show ?thesis by auto
    qed
  qed
qed

lemma still_call: "(\<And>l. q \<noteq> SCreate l) \<Longrightarrow> still (Req q (\<lambda>r. Ret (k r)))"
  by (cases q) (auto simp: makes_def)

lemma still_liftE: "still (liftE x)"
  by (simp add: liftE_def makes_Ret)

lemma still_wrapE: "still p \<Longrightarrow> still (wrapE pre p)"
  unfolding wrapE_def by (rule makes_bindP) (simp_all add: makes_Ret)

lemma still_listClaims: "still (listClaims a extra)"
  unfolding listClaims_def Let_def sList_def by (intro still_wrapE still_call) simp

lemma still_deleteClaims: "still (deleteClaims cs)"
proof (induction cs)
  case (Cons c cs)
  have "still (deleteClaim c)"
    unfolding deleteClaim_def sDelete_def by (intro makes_bindP still_call makes_Ret) simp_all
  with Cons show ?case by (simp add: makes_bindE)
qed (simp add: makes_Ret)

lemma makes_claim: "makes optRes (claim a holder address k)"
  by (auto simp: makes_def claim_def sCreate_def sGet_def recordedAs_def split: storeresp.split sum.split)

lemma makes_heldClaim: "makes optRes (heldClaim a request)"
  unfolding heldClaim_def releaseExtra_def
  by (intro makes_bindE still_listClaims still_deleteClaims makes_Ret) (auto simp: keepFirst_def split: list.split)

lemma makes_probe: "makes optRes (probe a request ks)"
proof (induction ks)
  case (Cons k ks)
  show ?case
    unfolding probe.simps
    by (intro makes_bindE still_liftE makes_then [OF makes_claim]) (simp_all add: Cons)
qed (simp add: makes_Ret)

lemma makes_probeFree: "makes optRes (probeFree a request found ks)"
proof (induction ks arbitrary: found)
  case (Cons k ks)
  have "makes optRes (bindE (claim a (rq_Holder request) address k) (\<lambda>r. case r of
        Some res \<Rightarrow> Ret (Inr (Some (res\<lparr>cr_Moved := k \<noteq> 0\<rparr>)))
      | None \<Rightarrow> probeFree a request (address # found) ks))" for address
    by (intro makes_then [OF makes_claim]) (simp_all add: Cons)
  then show ?case
    unfolding probeFree.simps by (intro makes_bindE still_liftE) (simp_all add: Cons)
qed (simp add: makes_Ret)

lemma makes_freeList: "makes valRes (allocateFromFreeList a request n)"
  unfolding allocateFromFreeList_def orExhausted_def
  by (intro makes_bindE still_listClaims makes_then [OF makes_probeFree]) (simp_all add: makes_Ret)

lemma makes_Allocate: "makes valRes (Allocator_Allocate a request)"
proof -
  have p: "makes valRes (allocateProbing a request n)" for n
    unfolding allocateProbing_def Let_def
    by (intro makes_then [OF makes_probe]) (simp_all add: makes_Ret makes_freeList)
  have "makes optRes (claimPreferred a request)"
    unfolding claimPreferred_def by (simp add: makes_claim makes_Ret)
  then have c: "makes valRes (bindE (claimPreferred a request) (\<lambda>p. case p of
      Some res \<Rightarrow> Ret (Inr (res\<lparr>cr_Moved := cr_Address res \<noteq> hashed\<rparr>)) | None \<Rightarrow> allocateProbing a request n))" for hashed n
    by (rule makes_then) (simp_all add: p)
  have "makes valRes (bindE (heldClaim a request) (\<lambda>h. case h of
       Some held \<Rightarrow> Ret (Inr (held\<lparr>cr_Moved := cr_Address held \<noteq> hashed\<rparr>))
     | None \<Rightarrow> bindE (claimPreferred a request) (\<lambda>p. case p of
      Some res \<Rightarrow> Ret (Inr (res\<lparr>cr_Moved := cr_Address res \<noteq> hashed\<rparr>)) | None \<Rightarrow> allocateProbing a request n)))" for hashed n
    by (intro makes_then [OF makes_heldClaim]) (simp_all add: c)
  then show ?thesis
    unfolding Allocator_Allocate_def by (intro makes_bindE still_liftE) (simp_all add: makes_Ret makes_bindE still_liftE)
qed

lemma makes_Reserve: "makes valRes (Reserve a holder address)"
  unfolding Reserve_def by (intro makes_bindE still_liftE) (auto intro!: makes_then [OF makes_claim] makes_Ret)

lemma still_Release: "still (Release a holder)"
  unfolding Release_def by (intro makes_bindE still_liftE still_listClaims still_deleteClaims) simp_all

subsection \<open>Claiming an address\<close>

lemma made_wire:
  "\<forall>y \<in> set t. \<exists>q r. y = (WStore ns q, r) \<Longrightarrow> madeLeases t = map (Pair ns) (sMade (storeTrace ns t)) \<and> madePeers t = []"
proof (induction t)
  case (Cons y t)
  then obtain q r where y: "y = (WStore ns q, r)" by auto
  have "madeLease y = map (Pair ns) (sMade [(q, wkStore r)])"
  proof (cases q)
    case (SCreate l)
    show ?thesis
    proof (cases r)
      case (AStore x)
      show ?thesis
      proof (cases x)
        case (LeaseA z)
        then show ?thesis by (cases z) (simp_all add: y SCreate AStore wkStore_def)
      qed (simp_all add: y SCreate AStore wkStore_def)
    qed (simp_all add: y SCreate wkStore_def)
  qed (simp_all add: y)
  moreover have "sMade (storeTrace ns (y # t)) = sMade [(q, wkStore r)] @ sMade (storeTrace ns t)"
    using sMade_step [of "(q, wkStore r)" "storeTrace ns t"] by (simp add: storeTrace_def y)
  moreover have "madePeer y = []" by (simp add: y)
  ultimately show ?case using Cons by simp
qed (simp add: storeTrace_def)

lemma wire_allocation:
  assumes g: "\<And>h. safe (claimGuard a (HolderForPeer pn)) (\<lambda>_ _. True) p h" and m: "makes g' p"
  shows "safe (wireGuard E pn) (\<lambda>h' x. \<exists>t. h' = h @ t \<and> madePeers t = [] \<and> madeLeases t = map (Pair ns) (sMade (storeTrace ns t))
     \<and> recordedAs (g' x) (storeTrace ns t)) (wStore ns p) h"
proof (rule safe_wStore [OF safe_conj [OF g m [unfolded makes_def, rule_format]]])
  fix h q
  assume "claimGuard a (HolderForPeer pn) (storeTrace ns h) q \<and> True"
  then show "wireGuard E pn h (WStore ns q)" using claimGuard_wire by blast
next
  fix t x
  assume "True \<and> (\<exists>u. storeTrace ns (h @ t) = storeTrace ns h @ u \<and> recordedAs (g' x) u)" and "\<forall>y \<in> set t. \<exists>q r. y = (WStore ns q, r)"
  with made_wire show "\<exists>u. h @ t = h @ u \<and> madePeers u = [] \<and> madeLeases u = map (Pair ns) (sMade (storeTrace ns u)) \<and> recordedAs (g' x) (storeTrace ns u)"
    by (intro exI [of _ t]) auto
qed

lemma neutral_Release: "neutral E pn (wStore ns (Release a (HolderForPeer pn)))"
  unfolding neutral_def
  by (intro allI, rule safe_mono [OF wire_allocation [OF Release_safe still_Release]]) auto

lemma neutral_deleteMeshIPClaim: "lf_PeerName state = pn \<Longrightarrow> neutral E pn (deleteMeshIPClaim state d)"
  unfolding deleteMeshIPClaim_def
  by (intro neutral_rules neutral_deleteLegacy neutral_waitForClaimGone) (auto intro: neutral_Release)

text \<open>The claim a run has made, if it made one.\<close>

definition claimDone :: "(wkreq \<times> wkresp) list \<Rightarrow> (string \<times> meshIPClaim \<times> bool) res \<Rightarrow> bool" where
  "claimDone t x \<longleftrightarrow> madePeers t = [] \<and> (case x of
     Inl e \<Rightarrow> madeLeases t = []
   | Inr (address, c, created) \<Rightarrow> mc_Namespace c \<noteq> []
       \<and> (if created then \<exists>l. madeLeases t = [(mc_Namespace c, l)] \<and> mc_Name c = leaseName l \<and> mc_UID c = leaseUID l else madeLeases t = []))"

lemma claimDone_result:
  assumes "recordedAs (valRes x) u" and "madePeers t = []" and "madeLeases t = map (Pair (claimNamespace (dr_AgentNamespace report))) (sMade u)"
  shows "claimDone t (case x of Inl e \<Rightarrow> Inl e' | Inr r \<Rightarrow> Inr (claimedResult report r))"
  using assms by (cases x) (auto simp: claimDone_def claimedResult_def recordedAs_def claimNamespace_def split: if_splits)

lemma claimDone_after: "madeLeases t = [] \<Longrightarrow> madePeers t = [] \<Longrightarrow> claimDone u x \<Longrightarrow> claimDone (t @ u) x"
  by (auto simp: claimDone_def split: sum.splits prod.splits)

lemma claimMeshIP_safe:
  assumes "lf_PeerName state = pn"
  shows "safe (wireGuard E pn) (\<lambda>h' x. \<exists>t. h' = h @ t \<and> claimDone t x) (claimMeshIP state report) h"
proof (cases "ArbitratesAddresses report")
  case True
  have g: "safe (claimGuard (enrollAllocator report) (HolderForPeer pn)) (\<lambda>_ _. True) (Allocator_Allocate (enrollAllocator report) (enrollRequest state)) h" for h
    using Allocator_safe [of "enrollAllocator report" "enrollRequest state" h] assms
    by (auto simp: enrollRequest_def intro: safe_mono)
  show ?thesis
    unfolding claimMeshIP_def Let_def if_P [OF True] safe_bindE
    by (rule safe_mono [OF wire_allocation [OF g makes_Allocate]])
      (auto dest: claimDone_result [where report = report] split: sum.splits)
next
  case False
  let ?ns = "claimNamespace (dr_AgentNamespace report)"
  have g: "safe (claimGuard (enrollAllocator report) (HolderForPeer pn)) (\<lambda>_ _. True)
      (Reserve (enrollAllocator report) (HolderForPeer (lf_PeerName state)) expected) h" for h expected
    using Reserve_safe assms by simp
  have r: "safe (wireGuard E pn) (\<lambda>h'' x. \<exists>u. h'' = (h @ t) @ u \<and> claimDone u x)
      (bindP (wStore ?ns (Reserve (enrollAllocator report) (HolderForPeer (lf_PeerName state)) expected)) (\<lambda>x. case x of
          Inl e \<Rightarrow> Ret (Inl (f e)) | Inr result \<Rightarrow> Ret (Inr (claimedResult report result)))) (h @ t)" for t f expected
    unfolding safe_bindP
    by (rule safe_mono [OF wire_allocation [OF g makes_Reserve]])
      (auto dest: claimDone_result [where report = report] split: sum.splits)
  have e: "(if b then Ret (Inl x) else Ret (Inl y)) = Ret (Inl (if b then x else y))" for b x y by simp
  show ?thesis
    unfolding claimMeshIP_def Let_def if_not_P [OF False] safe_bindE [of _ _ "validateMeshIPAvailability i j k" for i j k] e
    by (rule safe_mono [OF neutral_at [OF neutral_validateMeshIPAvailability]], assumption, elim exE conjE, rule sum.split [THEN iffD2])
      (auto simp: claimDone_def [of _ "Inl e" for e] intro!: safe_mono [OF r] intro: claimDone_after)
qed

subsection \<open>Undoing a failed enrollment\<close>

definition undone :: "(wkreq \<times> wkresp) list \<Rightarrow> bool" where
  "undone t \<longleftrightarrow> (\<forall>(ns, l) \<in> set (madeLeases t). leaseName l \<noteq> [] \<and> leaseUID l \<noteq> [] \<longrightarrow> (\<exists>r. (WDeleteLease ns (leaseName l) (leaseUID l), r) \<in> set t))
     \<and> (\<forall>p \<in> set (madePeers t). ow_UID p \<noteq> [] \<longrightarrow> (\<exists>r. (WDeletePeer (ow_Name p) (ow_UID p), r) \<in> set t))"

definition inRun :: "(wkreq \<times> wkresp) list \<Rightarrow> meshIPClaim \<Rightarrow> bool \<Rightarrow> WireKubePeer list \<Rightarrow> bool" where
  "inRun t c created peers \<longleftrightarrow> mc_Namespace c \<noteq> [] \<and> madePeers t = peers
     \<and> (if created then \<exists>l. madeLeases t = [(mc_Namespace c, l)] \<and> mc_Name c = leaseName l \<and> mc_UID c = leaseUID l else madeLeases t = [])"

lemma inRun_after: "inRun t c created peers \<Longrightarrow> madeLeases u = [] \<Longrightarrow> madePeers u = [] \<Longrightarrow> inRun (t @ u) c created peers"
  by (simp add: inRun_def)

lemma claimDone_inRun: "claimDone t (Inr (address, c, created)) \<Longrightarrow> inRun t c created []"
  by (simp add: claimDone_def inRun_def)

lemma undone_nothing: "madeLeases t = [] \<Longrightarrow> madePeers t = [] \<Longrightarrow> undone t"
  by (simp add: undone_def)

lemma rollbackClaim_safe:
  assumes "inRun t c True peers"
  shows "safe (wireGuard E pn) (\<lambda>h' x. \<exists>v. h' = (h @ t @ u) @ v \<and> madeLeases v = [] \<and> madePeers v = []
      \<and> (mc_Name c \<noteq> [] \<and> mc_UID c \<noteq> [] \<longrightarrow> (\<exists>r. (WDeleteLease (mc_Namespace c) (mc_Name c) (mc_UID c), r) \<in> set v)))
    (rollbackMeshIPClaim c) (h @ t @ u)"
proof -
  from assms obtain l where l: "madeLeases t = [(mc_Namespace c, l)]" "mc_Name c = leaseName l" "mc_UID c = leaseUID l" "mc_Namespace c \<noteq> []"
    by (auto simp: inRun_def)
  have "wireGuard E pn (h @ t @ u) (WDeleteLease (mc_Namespace c) (mc_Name c) (mc_UID c))" using l by (auto simp: wireGuard_def)
  then show ?thesis
    using l(4) by (auto simp: rollbackMeshIPClaim_def Let_def wAsk_def intro!: exI [of _ "[(_, _)]"])
qed

lemma rollbackPeer_safe:
  assumes "p \<in> set (madePeers (h @ t))" and "lf_EnrollmentID state = E"
  shows "safe (wireGuard E pn) (\<lambda>h' x. \<exists>u. h' = (h @ t) @ u \<and> madeLeases u = [] \<and> madePeers u = []
      \<and> (\<exists>r. (WDeletePeer (ow_Name p) (ow_UID p), r) \<in> set u))
    (bindP (wAsk wkDone (WDeletePeer (ow_Name p) (ow_UID p))) (\<lambda>x. bindP (deletePeerIdentity state) (\<lambda>y. Ret (f x y)))) (h @ t)"
proof -
  have "wireGuard E pn (h @ t) (WDeletePeer (ow_Name p) (ow_UID p))" using assms(1) by (auto simp: wireGuard_def)
  moreover have "safe (wireGuard E pn) (\<lambda>h' x. \<exists>u. h' = (h @ t) @ u \<and> madeLeases u = [] \<and> madePeers u = []
      \<and> (\<exists>r. (WDeletePeer (ow_Name p) (ow_UID p), r) \<in> set u)) (bindP (deletePeerIdentity state) (\<lambda>y. Ret (f x y)))
      (h @ t @ [(WDeletePeer (ow_Name p) (ow_UID p), r)])" for x r
    unfolding safe_bindP
    by (rule safe_mono [OF neutral_at [OF neutral_deletePeerIdentity [OF assms(2)]]], assumption, elim exE conjE)
      (rule safe.simps(1) [THEN iffD2], rule exI [of _ "(WDeletePeer (ow_Name p) (ow_UID p), r) # _"], auto)
  ultimately show ?thesis by (simp add: wAsk_def)
qed

lemma rollback_safe:
  assumes "inRun t c created (case peer of Some p \<Rightarrow> if pc then [p] else [] | None \<Rightarrow> [])" and "lf_EnrollmentID state = E"
  shows "safe (wireGuard E pn) (\<lambda>h' x. \<exists>u. h' = (h @ t) @ u \<and> undone (t @ u)) (rollbackNewWireKubeEnrollment peer c state pc created) (h @ t)"
proof -
  define peerPost where "peerPost u \<longleftrightarrow> madeLeases u = [] \<and> madePeers u = []
    \<and> (\<forall>p. peer = Some p \<and> pc \<and> ow_UID p \<noteq> [] \<longrightarrow> (\<exists>r. (WDeletePeer (ow_Name p) (ow_UID p), r) \<in> set u))" for u
  have first: "safe (wireGuard E pn) (\<lambda>h' x. \<exists>u. h' = (h @ t) @ u \<and> peerPost u)
    (case peer of Some p \<Rightarrow> if pc \<and> ow_UID p \<noteq> []
        then bindP (wAsk wkDone (WDeletePeer (ow_Name p) (ow_UID p))) (\<lambda>x. bindP (deletePeerIdentity state) (\<lambda>y. Ret (f p x y))) else Ret []
      | None \<Rightarrow> Ret []) (h @ t)" for f :: "_ \<Rightarrow> _ \<Rightarrow> _ \<Rightarrow> unit res list"
  proof (cases "\<exists>p. peer = Some p \<and> pc \<and> ow_UID p \<noteq> []")
    case True
    then obtain p where p: "peer = Some p" "pc" "ow_UID p \<noteq> []" by blast
    with assms(1) have "p \<in> set (madePeers (h @ t))" by (simp add: inRun_def)
    from rollbackPeer_safe [OF this assms(2)] show ?thesis
      unfolding p option.case by (simp only: p simp_thms if_True) (rule safe_mono, auto simp: peerPost_def p)
  next
    case False
    then show ?thesis by (auto simp: peerPost_def split: option.split)
  qed
  have all: "undone (t @ u @ v)" if u: "peerPost u" and v: "madeLeases v = []" "madePeers v = []"
    "created \<Longrightarrow> mc_Name c \<noteq> [] \<and> mc_UID c \<noteq> [] \<longrightarrow> (\<exists>r. (WDeleteLease (mc_Namespace c) (mc_Name c) (mc_UID c), r) \<in> set v)" for u v
    using assms(1) u v by (auto simp: undone_def peerPost_def inRun_def split: if_splits option.splits) 
  show ?thesis
    unfolding rollbackNewWireKubeEnrollment_def safe_bindP
  proof (rule safe_mono [OF first], assumption, elim exE conjE)
    fix h' a u
    assume h': "h' = (h @ t) @ u" and u: "peerPost u"
    show "safe (wireGuard E pn) (\<lambda>h' zs. safe (wireGuard E pn) (\<lambda>h' x. \<exists>u. h' = (h @ t) @ u \<and> undone (t @ u)) (Ret (joinAll (a @ zs))) h')
      (if created then bindP (rollbackMeshIPClaim c) (\<lambda>z. Ret [z]) else Ret []) h'"
    proof (cases created)
      case True
      then have "inRun t c True (case peer of Some p \<Rightarrow> if pc then [p] else [] | None \<Rightarrow> [])" using assms(1) by simp
      from rollbackClaim_safe [OF this, of E pn h u] show ?thesis
        unfolding h' if_P [OF True] safe_bindP append_assoc by (rule safe_mono) (auto intro!: all [OF u])
    next
      case False
      with all [OF u, of "[]"] show ?thesis by (auto simp: h')
    qed
  qed
qed

definition enrollPost :: "(wkreq \<times> wkresp) list \<Rightarrow> (wkreq \<times> wkresp) list \<Rightarrow> LeafState res \<Rightarrow> bool" where
  "enrollPost h h' x \<longleftrightarrow> (\<forall>e. x = Inl e \<longrightarrow> (\<exists>t. h' = h @ t \<and> undone t))"

lemma failWith_safe:
  assumes "safe (wireGuard E pn) (\<lambda>h' x. \<exists>u. h' = (h @ t) @ u \<and> undone (t @ u)) rollback (h @ t)"
  shows "safe (wireGuard E pn) (enrollPost h) (failWith e rollback) (h @ t)"
  unfolding failWith_def safe_bindP
  by (rule safe_mono [OF assms]) (auto simp: enrollPost_def joinAll_def joinErrors_def)

text \<open>Histories that go on from one and make nothing more.\<close>

definition goesOn :: "(wkreq \<times> wkresp) list \<Rightarrow> (wkreq \<times> wkresp) list \<Rightarrow> bool" where
  "goesOn h h' \<longleftrightarrow> (\<exists>u. h' = h @ u \<and> madeLeases u = [] \<and> madePeers u = [])"

lemma goesOn_refl: "goesOn h h"
  by (simp add: goesOn_def)

lemma goesOn_trans: "goesOn h h' \<Longrightarrow> goesOn h' h'' \<Longrightarrow> goesOn h h''"
  by (auto simp: goesOn_def)

lemma neutral_goesOn: "neutral E pn p \<Longrightarrow> goesOn h0 h \<Longrightarrow> safe (wireGuard E pn) (\<lambda>h' _. goesOn h0 h') p h"
  by (rule safe_mono [OF neutral_at]) (auto simp: goesOn_def)

lemma safe_orElse:
  assumes "neutral E pn p" and "goesOn h0 h" and "\<And>h' e. goesOn h0 h' \<Longrightarrow> safe (wireGuard E pn) Q (g e) h'"
    and "\<And>h' x. goesOn h0 h' \<Longrightarrow> safe (wireGuard E pn) Q (f x) h'"
  shows "safe (wireGuard E pn) Q (orElse p g f) h"
  unfolding orElse_def safe_bindP
  by (rule safe_mono [OF neutral_goesOn [OF assms(1,2)]]) (auto intro: assms(3,4) split: sum.split)

lemma safe_neutral_bindE:
  assumes "neutral E pn p" and "goesOn h0 h" and "\<And>h' e. goesOn h0 h' \<Longrightarrow> Q h' (Inl e)"
    and "\<And>h' x. goesOn h0 h' \<Longrightarrow> safe (wireGuard E pn) Q (f x) h'"
  shows "safe (wireGuard E pn) Q (bindE p f) h"
  unfolding safe_bindE
  by (rule safe_mono [OF neutral_goesOn [OF assms(1,2)]]) (auto intro: assms(3,4) split: sum.split)

lemma safe_neutral_bindP:
  assumes "neutral E pn p" and "goesOn h0 h" and "\<And>h' x. goesOn h0 h' \<Longrightarrow> safe (wireGuard E pn) Q (f x) h'"
  shows "safe (wireGuard E pn) Q (bindP p f) h"
  unfolding safe_bindP by (rule safe_mono [OF neutral_goesOn [OF assms(1,2)]]) (auto intro: assms(3))

text \<open>The last steps, each of which rolls back when it fails.\<close>

lemma rolled_safe:
  assumes "inRun t c created (case peer of Some p \<Rightarrow> if pc then [p] else [] | None \<Rightarrow> [])" and "lf_EnrollmentID s = E" and "goesOn (h @ t) h'"
  shows "safe (wireGuard E pn) (enrollPost h) (failWith e (rollbackNewWireKubeEnrollment peer c s pc created)) h'"
proof -
  from assms(3) obtain u where u: "h' = h @ (t @ u)" "madeLeases u = []" "madePeers u = []" by (auto simp: goesOn_def)
  from failWith_safe [OF rollback_safe [OF inRun_after [OF assms(1) u(2,3)] assms(2)]] show ?thesis by (simp add: u(1))
qed

lemma enrollIdentity_safe:
  assumes "inRun t c created (if pc then [peer] else [])" and "lf_EnrollmentID state = E" and "goesOn (h @ t) h'"
  shows "safe (wireGuard E pn) (enrollPost h) (enrollIdentity K cfg report state address c created peer pc) h'"
proof -
  have "inRun t c created (case Some peer of Some p \<Rightarrow> if pc then [p] else [] | None \<Rightarrow> [])" using assms(1) by simp
  note roll = rolled_safe [OF this]
  have ok: "safe (wireGuard E pn) (enrollPost h) (Ret (Inr s)) h'" for s h' by (simp add: enrollPost_def)
  note steps = safe_orElse [where ?h0.0 = "h @ t"] safe_neutral_bindP [where ?h0.0 = "h @ t"]
  note neutrals = neutral_writeState neutral_confirm neutral_ensurePeerIdentity neutral_writePeerKubeconfig neutral_ask
  have "safe (wireGuard E pn) (enrollPost h)
    (orElse (writeState K d s) f (\<lambda>_. orElse (confirmMeshIPStillHeld s report c address) f (\<lambda>_. orElse (ensurePeerIdentity s host) f (\<lambda>_.
     orElse (writePeerKubeconfig K rest s path dur) f (\<lambda>_. orElse (writeState K d s') (\<lambda>e. bindP (wAsk wkDone (WRemove path)) (\<lambda>_. g e)) (\<lambda>_. Ret (Inr s'))))))) h'"
    if "lf_EnrollmentID s = E" "\<And>h' e. goesOn (h @ t) h' \<Longrightarrow> safe (wireGuard E pn) (enrollPost h) (f e) h'"
      "\<And>h' e. goesOn (h @ t) h' \<Longrightarrow> safe (wireGuard E pn) (enrollPost h) (g e) h'"
    for d s s' f g host rest path dur
    using that assms(3) by (intro steps neutrals ok that) (simp_all)
  then show ?thesis
    unfolding enrollIdentity_def Let_def using roll assms(2,3) by (auto intro!: roll)
qed

lemma ensureWireKubePeer_safe:
  assumes "inRun t c created []" and "goesOn (h @ t) h'"
  shows "safe (wireGuard E pn) (\<lambda>h'' x. \<exists>u. h'' = h @ u \<and> (case x of
      Inl e \<Rightarrow> inRun u c created [] | Inr (peer, pc) \<Rightarrow> inRun u c created (if pc then [peer] else [])))
    (ensureWireKubePeer desired state) h'"
proof -
  from assms(2) obtain u where u: "h' = h @ t @ u" "madeLeases u = []" "madePeers u = []" by (auto simp: goesOn_def)
  have i: "inRun (t @ u) c created []" using inRun_after [OF assms(1) u(2,3)] .
  have quiet: "inRun (t @ u @ v) c created []" if "madeLeases v = []" "madePeers v = []" for v
    using inRun_after [OF i that] by simp
  show ?thesis
    using quiet i
    by (auto simp: u(1) ensureWireKubePeer_def wAsk_def wrapE_def liftE_def wireGuard_def wkPeer_def validateOwnedWireKubePeer_def inRun_def
        split: sum.splits wkresp.splits if_splits)
qed

lemma goesOn_inRun:
  "goesOn (h @ t) h' \<Longrightarrow> inRun t c created peers \<Longrightarrow> \<exists>u. h' = h @ u \<and> inRun u c created peers"
  by (auto simp: goesOn_def dest: inRun_after)

lemma enrollClaimed_safe:
  assumes "inRun t c created []" and "lf_EnrollmentID state = E" and "goesOn (h @ t) h'"
  shows "safe (wireGuard E pn) (enrollPost h) (enrollClaimed K cfg report state (address, c, created)) h'"
proof -
  let ?state = "claimedState report c address state"
  have E: "lf_EnrollmentID ?state = E" using assms(2) by (simp add: claimedState_def)
  have alone: "safe (wireGuard E pn) (enrollPost h) (if created then failWith e (rollbackMeshIPClaim c) else Ret (Inl e)) h''"
    if on: "goesOn (h @ t) h''" for e h''
  proof -
    from on obtain u where u: "h'' = h @ t @ u" "madeLeases u = []" "madePeers u = []" by (auto simp: goesOn_def)
    show ?thesis
    proof (cases created)
      case True
      with assms(1) have r: "inRun t c True []" by simp
      then have "undone (t @ u @ v)" if "madeLeases v = []" "madePeers v = []"
        "mc_Name c \<noteq> [] \<and> mc_UID c \<noteq> [] \<longrightarrow> (\<exists>r. (WDeleteLease (mc_Namespace c) (mc_Name c) (mc_UID c), r) \<in> set v)" for v
        using u that by (auto simp: undone_def inRun_def)
      then have "safe (wireGuard E pn) (\<lambda>h' x. \<exists>v. h' = (h @ t @ u) @ v \<and> undone ((t @ u) @ v)) (rollbackMeshIPClaim c) (h @ t @ u)"
        by (intro safe_mono [OF rollbackClaim_safe [OF r]]) auto
      with failWith_safe [of E pn h "t @ u" "rollbackMeshIPClaim c" e] show ?thesis by (simp add: u(1) True)
    next
      case False
      with assms(1) u show ?thesis by (auto simp: enrollPost_def inRun_def intro: undone_nothing)
    qed
  qed
  have peer: "safe (wireGuard E pn) (enrollPost h) (orElse (ensureWireKubePeer desired ?state)
      (\<lambda>e. failWith e (rollbackNewWireKubeEnrollment None c ?state False created)) (\<lambda>(peer, pc).
      enrollIdentity K cfg report ?state address c created peer pc)) h''" if on: "goesOn (h @ t) h''" for desired h''
    unfolding orElse_def safe_bindP
  proof (rule safe_mono [OF ensureWireKubePeer_safe [OF assms(1) on]], assumption, elim exE conjE)
    fix h3 u and x :: "(WireKubePeer \<times> bool) res"
    assume h3: "h3 = h @ u" and x: "case x of Inl e \<Rightarrow> inRun u c created [] | Inr (peer, pc) \<Rightarrow> inRun u c created (if pc then [peer] else [])"
    show "safe (wireGuard E pn) (enrollPost h) (case x of Inl e \<Rightarrow> failWith e (rollbackNewWireKubeEnrollment None c ?state False created)
      | Inr a \<Rightarrow> (case a of (peer, pc) \<Rightarrow> enrollIdentity K cfg report ?state address c created peer pc)) h3"
      using x E by (auto simp: h3 goesOn_refl split: sum.splits intro!: rolled_safe [where t = u] enrollIdentity_safe [where t = u])
  qed
  have neutral_warn: "neutral E pn (if b then bindP (wAsk wkDone (WWarn w)) (\<lambda>_. Ret ()) else Ret ())" for b w
    by (intro neutral_rules) simp_all
  show ?thesis
    unfolding enrollClaimed_def prod.case Let_def
    by (intro safe_neutral_bindP [OF neutral_warn assms(3)] safe_orElse [OF neutral_writeState] alone peer)
qed

lemma loaded_identity:
  "safe (\<lambda>_ _. True) (\<lambda>_ x. \<forall>s. x = Inr s \<longrightarrow> lf_EnrollmentID s = enrollment \<and> lf_PeerName s = name) (loadOrCreateState K d name enrollment) h"
  unfolding loadOrCreateState_def safe_bindE safe_bindP Let_def
  by (intro safe_mono [OF safe_any])
    (auto simp: safe_bindE wAsk_def intro!: safe_mono [OF safe_any] split: sum.split)

lemma loaded_safe:
  assumes "goesOn h0 h"
  shows "safe (wireGuard E pn) (\<lambda>h' x. goesOn h0 h' \<and> (\<forall>s. x = Inr s \<longrightarrow> lf_EnrollmentID s = enrollment \<and> lf_PeerName s = name))
    (loadOrCreateState K d name enrollment) h"
  by (rule safe_mono [OF safe_conj [OF neutral_goesOn [OF neutral_loadOrCreateState assms] loaded_identity]]) auto

lemma enrollState_identity [simp]:
  "lf_EnrollmentID (enrollState c report s) = lf_EnrollmentID s" "lf_PeerName (enrollState c report s) = lf_PeerName s"
  by (simp_all add: enrollState_def)

lemma nothing_made: "goesOn [] h \<Longrightarrow> enrollPost [] h (Inl e)"
  by (auto simp: enrollPost_def goesOn_def intro: undone_nothing)

lemma claimed_safe:
  assumes "lf_EnrollmentID s = E" and "lf_PeerName s = pn" and "goesOn [] h'"
  shows "safe (wireGuard E pn) (enrollPost []) (bindE (claimMeshIP s report) (enrollClaimed K c report s)) h'"
  unfolding safe_bindE
proof (rule safe_mono [OF claimMeshIP_safe [OF assms(2)]], assumption, elim exE conjE)
  fix h3 t and x :: "(string \<times> meshIPClaim \<times> bool) res"
  assume h3: "h3 = h' @ t" and d: "claimDone t x"
  have d': "claimDone (h' @ t) x" using assms(3) d by (auto simp: goesOn_def intro: claimDone_after)
  show "case x of Inl e \<Rightarrow> enrollPost [] h3 (Inl e) | Inr a \<Rightarrow> safe (wireGuard E pn) (enrollPost []) (enrollClaimed K c report s a) h3"
  proof (cases x)
    case (Inl e)
    with d' show ?thesis by (auto simp: h3 enrollPost_def claimDone_def intro: undone_nothing)
  next
    case (Inr a)
    obtain address m created where a: "a = (address, m, created)" by (cases a)
    have "inRun (h' @ t) m created []" using d' claimDone_inRun by (simp add: Inr a)
    from enrollClaimed_safe [OF this assms(1), of "[]" h3 pn K c report address] show ?thesis by (simp add: Inr a h3 goesOn_refl)
  qed
qed

lemma loadedThen_safe:
  assumes "goesOn [] h'"
  shows "safe (wireGuard E pn) (enrollPost []) (bindE (loadOrCreateState K d pn E) (\<lambda>loaded.
        if b1 loaded then Ret (Inl (e1 loaded)) else if b2 then Ret (Inl e2)
        else bindE (claimMeshIP (enrollState c report loaded) report) (enrollClaimed K c report (enrollState c report loaded)))) h'"
  unfolding safe_bindE [of _ _ "loadOrCreateState i j k l" for i j k l]
  by (rule safe_mono [OF loaded_safe [OF assms]])
    (auto simp: nothing_made intro!: claimed_safe split: sum.split)

lemma Enroll_safe:
  "safe (wireGuard (ec_EnrollmentID c) (''idleloom-'' @ ec_HostID c)) (enrollPost []) (Enroll K c) []"
proof -
  define pn where "pn = ''idleloom-'' @ ec_HostID c"
  let ?safe = "safe (wireGuard (ec_EnrollmentID c) pn) (enrollPost [])"
  have step: "?safe (bindE (liftE v) (\<lambda>_. bindE Inspect (\<lambda>report. bindE (checkPeerName pn) (\<lambda>_. f report)))) []"
    if "\<And>report h. goesOn [] h \<Longrightarrow> ?safe (f report) h" for v f
    by (intro safe_neutral_bindE [OF neutral_liftE goesOn_refl] safe_neutral_bindE [OF neutral_Inspect] safe_neutral_bindE [OF neutral_checkPeerName]
        nothing_made that)
  show ?thesis
    unfolding Enroll_def Let_def pn_def [symmetric]
    by (rule if_split [THEN iffD2], intro conjI impI, simp add: enrollPost_def undone_def, rule step, rule loadedThen_safe)
qed

subsection \<open>Revocation\<close>

lemma neutral_getOptional: "neutral E pn p \<Longrightarrow> neutral E pn (getOptional pre p)"
  unfolding getOptional_def by (intro neutral_rules) simp_all

definition near :: "string \<Rightarrow> string \<Rightarrow> (wkreq \<times> wkresp) list \<Rightarrow> 'a leaf \<Rightarrow> bool" \<comment> \<open>neutral after one history\<close> where
  "near E pn h p \<longleftrightarrow> safe (wireGuard E pn) (\<lambda>h' _. \<exists>t. h' = h @ t \<and> madeLeases t = [] \<and> madePeers t = []) p h"

lemma neutral_near: "neutral E pn p \<Longrightarrow> near E pn h p"
  by (simp add: neutral_def near_def)

lemma near_bindP: "near E pn h p \<Longrightarrow> (\<And>x. neutral E pn (f x)) \<Longrightarrow> near E pn h (bindP p f)"
  unfolding near_def safe_bindP
proof (rule safe_mono, assumption, assumption, elim exE conjE)
  fix h' x t
  assume f: "\<And>x. neutral E pn (f x)" and t: "h' = h @ t" "madeLeases t = []" "madePeers t = []"
  show "safe (wireGuard E pn) (\<lambda>h' _. \<exists>t. h' = h @ t \<and> madeLeases t = [] \<and> madePeers t = []) (f x) h'"
    by (rule safe_mono [OF neutral_at [OF f]]) (use t in auto)
qed

lemma near_bindE: "near E pn h p \<Longrightarrow> (\<And>x. neutral E pn (f x)) \<Longrightarrow> near E pn h (bindE p f)"
  unfolding bindE_def by (rule near_bindP) (auto split: sum.split)

lemma near_liftE: "(\<And>x. v = Inr x \<Longrightarrow> near E pn h (f x)) \<Longrightarrow> near E pn h (bindE (liftE v) f)"
  by (cases v) (auto simp: near_def liftE_def)

lemma near_if: "(b \<Longrightarrow> near E pn h p) \<Longrightarrow> (\<not> b \<Longrightarrow> near E pn h q) \<Longrightarrow> near E pn h (if b then p else q)"
  by simp

lemmas near_rules = near_liftE near_if near_bindE neutral_near [OF neutral_Ret]

lemma near_delete: "wireGuard E pn h q \<Longrightarrow> (\<And>r. madeLease (q, r) = [] \<and> madePeer (q, r) = []) \<Longrightarrow> near E pn h (deleteUnlessGone pre q)"
  by (auto simp: near_def deleteUnlessGone_def wAsk_def)

lemma neutral_read:
  assumes "plainRequest q" and "\<And>h r p. sel r = Inr p \<Longrightarrow> near E pn (h @ [(q, r)]) (f (Some p))" and "neutral E pn (f None)"
  shows "neutral E pn (bindE (getOptional pre (wAsk sel q)) f)"
proof -
  have lift: "safe (wireGuard E pn) (\<lambda>h' _. \<exists>t. h' = h @ t \<and> madeLeases t = [] \<and> madePeers t = []) p (h @ [(q, r)])"
    if "near E pn (h @ [(q, r)]) p" for p :: "'b res leaf" and h r
    by (rule safe_mono [OF that [unfolded near_def]]) (use plainRequest_facts [OF assms(1)] in auto)
  show ?thesis
    using plainRequest_facts [OF assms(1)]
    by (auto simp: neutral_def getOptional_def wAsk_def intro!: lift assms(2) neutral_near [OF assms(3)] split: sum.split)
qed

text \<open>A peer is deleted by the UID it was read with, once it has been seen to be owned.\<close>

lemma near_revokePeer:
  assumes "lf_EnrollmentID state = E" and "(WGetPeer (lf_PeerName state), APeer (Inr p)) \<in> set h"
  shows "near E pn h (revokePeer c state p)"
proof -
  have del: "near E pn h (deleteUnlessGone pre (WDeletePeer (lf_PeerName state) (ow_UID p)))" if "hasOwnedPeerMetadata p state" for pre
    using that assms by (intro near_delete) (auto simp: wireGuard_def hasOwned_meta)
  have own: "validateOwnedWireKubePeer p d state = Inr u \<Longrightarrow> hasOwnedPeerMetadata p state" for d u
    by (auto simp: validateOwnedWireKubePeer_def split: if_splits)
  show ?thesis
    unfolding revokePeer_def by (intro near_rules neutral_awaitPeerGone del) (rule own)
qed

lemma near_revokeExternalPeer:
  assumes "lf_EnrollmentID state = E" and "(WGetExternalPeer (lf_PeerName state), AExternalPeer (Inr p)) \<in> set h"
  shows "near E pn h (revokeExternalPeer c state p)"
proof -
  have del: "near E pn h (deleteUnlessGone pre (WDeleteExternalPeer (lf_PeerName state) (ow_UID p)))" if "hasOwnedPeerMetadata p state" for pre
    using that assms by (intro near_delete) (auto simp: wireGuard_def hasOwned_meta)
  have poll: "neutral E pn (wrapE pre (pollUntil n (bindP (wAsk wkExternalPeer (WGetExternalPeer (lf_PeerName state))) (\<lambda>x. Ret (g x)))))" for pre n g
    by (intro neutral_rules neutral_pollUntil) simp_all
  have own: "validateLegacyExternalPeer p state = Inr u \<Longrightarrow> hasOwnedPeerMetadata p state" for u
    by (auto simp: validateLegacyExternalPeer_def Let_def split: if_splits)
  show ?thesis
    unfolding revokeExternalPeer_def Let_def by (intro near_rules poll del) (rule own)
qed

lemma neutral_revokeWireKubePeer:
  assumes "lf_EnrollmentID state = E" and "lf_PeerName state = pn"
  shows "neutral E pn (revokeWireKubePeer c state)"
proof -
  have tail: "neutral E pn (bindE (wrapE a (deletePeerIdentity state)) (\<lambda>_. bindE (deleteMeshIPClaim state n) (\<lambda>_.
      bindE (if b then bindP (wAsk wkDone (WRemove l)) (\<lambda>x. Ret (g x)) else Ret (Inr ())) (\<lambda>_. removeLocalState d))))" for a n b l g d
    by (intro neutral_rules neutral_deletePeerIdentity neutral_deleteMeshIPClaim neutral_removeLocalState assms) simp_all
  show ?thesis
    unfolding revokeWireKubePeer_def
  proof (rule neutral_read)
    fix h r p
    assume "wkPeer r = Inr p"
    then have "r = APeer (Inr p)" by (cases r) (auto simp: wkPeer_def)
    then show "near E pn (h @ [(WGetPeer (lf_PeerName state), r)]) (bindE (case Some p of Some p \<Rightarrow> revokePeer c state p | None \<Rightarrow> Ret (Inr ()))
      (\<lambda>_. bindE (wrapE ''delete WireKube peer identity: '' (deletePeerIdentity state)) (\<lambda>_. bindE (deleteMeshIPClaim state (waitTimeoutOf c)) (\<lambda>_.
        bindE (if lf_LinkKubeconfig state \<noteq> [] then bindP (wAsk wkDone (WRemove (lf_LinkKubeconfig state))) (\<lambda>x. Ret (case x of
          Inl e \<Rightarrow> if e \<noteq> NotExistError then Inl e else Inr () | Inr _ \<Rightarrow> Inr ())) else Ret (Inr ())) (\<lambda>_. removeLocalState (vc_StateDirectory c))))))"
      by (simp only: option.case) (intro near_bindE near_revokePeer assms(1) tail, simp)
  qed (simp_all only: option.case plainRequest_requests, intro neutral_bindE neutral_Ret tail)
qed

lemma neutral_revokeLegacy:
  assumes "lf_EnrollmentID state = E" and "lf_PeerName state = pn"
  shows "neutral E pn (revokeLegacy c state)"
proof -
  have tail: "neutral E pn (bindE (deleteMeshIPClaim state n) (\<lambda>_. removeLocalState d))" for n d
    by (intro neutral_rules neutral_deleteMeshIPClaim neutral_removeLocalState assms)
  show ?thesis
    unfolding revokeLegacy_def Let_def
  proof (rule neutral_read)
    fix h r p
    assume "wkExternalPeer r = Inr p"
    then have "r = AExternalPeer (Inr p)" by (cases r) (auto simp: wkExternalPeer_def)
    then have "near E pn (h @ [(WGetExternalPeer (lf_PeerName state), r)]) (bindE (revokeExternalPeer c state p) (\<lambda>_. q))" if "neutral E pn q" for q :: "unit res leaf"
      by (intro near_bindE near_revokeExternalPeer assms(1) that) simp
    then show "near E pn (h @ [(WGetExternalPeer (lf_PeerName state), r)]) (case Some p of None \<Rightarrow> bindE (deleteMeshIPClaim state (waitTimeoutOf c)) (\<lambda>_. removeLocalState (vc_StateDirectory c))
      | Some p \<Rightarrow> if \<not> hasOwnedPeerMetadata p state then bindE (deleteMeshIPClaim state (waitTimeoutOf c)) (\<lambda>_. removeLocalState (vc_StateDirectory c))
          else bindE (revokeExternalPeer c state p) (\<lambda>_. bindE (deleteMeshIPClaim state (waitTimeoutOf c)) (\<lambda>_. removeLocalState (vc_StateDirectory c))))"
      using tail by (simp add: neutral_near)
  qed (simp_all add: tail)
qed

lemma safe_from:
  assumes "safe G Q p h" and "\<And>t q. G (h @ t) q \<Longrightarrow> G' (h @ t) q"
  shows "safe G' (\<lambda>_ _. True) p h"
  using assms
proof (induction p arbitrary: h)
  case (Req q k)
  have "safe G' (\<lambda>_ _. True) (k r) (h @ [(q, r)])" for r
    using Req.prems(1) Req.prems(2) [of "(q, r) # t" for t] by (intro Req.IH) auto
  with Req.prems(1) Req.prems(2) [of "[]"] show ?case by auto
qed simp

definition revokeGuard :: "leaflib \<Rightarrow> (wkreq \<times> wkresp) list \<Rightarrow> wkreq \<Rightarrow> bool" where
  "revokeGuard K h q \<longleftrightarrow> plainRequest q \<or> (\<exists>data state. (WReadAll, AText (Inr data)) \<in> set h \<and> decodeState K data = Inr state
     \<and> wireGuard (lf_EnrollmentID state) (lf_PeerName state) h q)"

lemma readState_revoke:
  "safe (revokeGuard K) (\<lambda>h x. \<forall>state. x = Inr state \<longrightarrow> (\<exists>data. (WReadAll, AText (Inr data)) \<in> set h \<and> decodeState K data = Inr state)) (Leaf_ReadState K d) h"
  by (auto simp: Leaf_ReadState_def Let_def closingFile_def safe_bindE safe_bindP wAsk_def liftE_def revokeGuard_def wkText_def
      split: sum.split wkresp.split)

lemma Revoke_safe: "safe (revokeGuard K) (\<lambda>_ _. True) (Revoke K c) []"
proof -
  have rest: "safe (revokeGuard K) (\<lambda>_ _. True) p h"
    if read: "(WReadAll, AText (Inr data)) \<in> set h" "decodeState K data = Inr state"
      and p: "neutral (lf_EnrollmentID state) (lf_PeerName state) p" for p :: "unit res leaf" and h data state
    by (rule safe_from [OF neutral_at [OF p]]) (use read in \<open>auto simp: revokeGuard_def\<close>)
  have body: "neutral (lf_EnrollmentID state) (lf_PeerName state) (bindE (if b1 then wAsk wkText (WDefaultRuntimeDirectory u) else Ret (Inr v)) (\<lambda>dir.
    bindE (if b2 dir then wAsk wkFlag (WRuntimeActive dir u) else Ret (Inr False)) (\<lambda>active.
      if active then Ret (Inl e) else if b3 then revokeWireKubePeer c state else revokeLegacy c state)))" for state b1 b2 b3 e u v
    by (intro neutral_rules neutral_revokeWireKubePeer neutral_revokeLegacy) simp_all
  have read: "safe (revokeGuard K) (\<lambda>_ _. True) (bindE (Leaf_ReadState K d) f) []"
    if "\<And>state. neutral (lf_EnrollmentID state) (lf_PeerName state) (f state)" for d and f :: "LeafState \<Rightarrow> unit res leaf"
    unfolding safe_bindE
    by (rule safe_mono [OF readState_revoke], assumption) (auto split: sum.split intro: rest that)
  show ?thesis
    unfolding Revoke_def
    by (rule if_split [THEN iffD2], intro conjI impI, simp, rule read, rule body)
qed

subsection \<open>Properties\<close>

text \<open>
  C26. Whatever an enrollment deletes or updates is its own: before each of its requests, a peer, an external peer or a
  role object that it deletes or updates was read as carrying this enrollment's identity, or the peer was created by
  this very run, and the request names the UID (or the resource version) that was seen; a Lease is deleted only when it
  was listed or read as held by this peer, or was created by this run; and a Lease is created only for this peer.
\<close>

theorem enroll_guarded:
  assumes "emits (Enroll K c) (t @ (q, r) # u)"
  shows "wireGuard (ec_EnrollmentID c) (''idleloom-'' @ ec_HostID c) t q"
  using safe_emits [OF Enroll_safe assms] by simp

text \<open>
  C27. An enrollment that fails asks for the removal of what it made: for every address claim and every peer that
  this run created and the server gave a UID, the trace has a request to delete exactly that object, by name and UID.
\<close>

theorem enroll_rolled_back:
  assumes "runs (Enroll K c) t (Inl e)"
  shows "undone t"
  using safe_runs [OF Enroll_safe assms] by (simp add: enrollPost_def)

text \<open>
  C28. A revocation only removes what belongs to the enrollment of the state file it read: every request before the file
  was read, and decoded to a state with a valid key pair, is harmless; after it, each deletion of a peer, an external
  peer, a role object or a Lease names the UID under which this run read it as owned by that enrollment.
\<close>

theorem revoke_guarded:
  assumes "emits (Revoke K c) (t @ (q, r) # u)"
  shows "revokeGuard K t q"
  using safe_emits [OF Revoke_safe assms] by simp

subsection \<open>A run that fails after it created its peer\<close>

definition exleaflib :: leaflib where
  "exleaflib = \<lparr>wl_ScalarBaseMult = (\<lambda>bs. bs), wl_Marshal = (\<lambda>s. Inr (lf_PeerName s)), wl_Decode = (\<lambda>data. Inr (zero_LeafState\<lparr>lf_Version := 1,
     lf_PeerName := data, lf_DisplayName := data, lf_EnrollmentID := ''e'', lf_PeerMode := peerModeWireKube,
     lf_PrivateKey := base64_Encode (replicate 32 0), lf_PublicKey := base64_Encode (replicate 32 0)\<rparr>)),
     wl_Kubeconfig = (\<lambda>_. Inr [])\<rparr>"

definition exenroll :: EnrollConfig where
  "exenroll = \<lparr>ec_Clients = True, ec_REST = \<lparr>rt_Host = ''https://k'', rt_Insecure = False, rt_CAData = ''ca'', rt_CAFile = [], rt_ServerName = []\<rparr>,
     ec_HostID = ''h'', ec_EnrollmentID = ''e'', ec_Namespace = ''n'', ec_StateDirectory = ''/s'', ec_APIEndpoint = ''https://k'', ec_TokenDuration = 0, ec_Warn = False\<rparr>"

definition exowned :: "string \<Rightarrow> string \<Rightarrow> OwnedMeta" where
  "exowned name uid = \<lparr>ow_Name = name, ow_Namespace = ''w'', ow_UID = uid, ow_ResourceVersion = [], ow_Labels = [(managedByKey, managedByValue)], ow_Annotations = [(enrollmentKey, ''e'')]\<rparr>"

definition exmesh :: WireKubeMesh where
  "exmesh = \<lparr>wm_Name = ''m'', wm_meshCIDR = ''10.0.0.0/30'', wm_addressAllocation = ''allocator'', wm_mtu = 0, wm_relayMode = [], wm_relayProvider = ''external'',
     wm_relay = (\<lambda>_. \<lparr>re_transport = [], re_controlEndpoint = [], re_endpoint = ''r:1''\<rparr>), wm_readyPeers = 1\<rparr>"

definition expeer :: "WireKubePeer" where
  "expeer = OwnedMeta.extend (exowned ''idleloom-h'' ''p'') \<lparr>kp_Spec = \<lparr>sp_publicKey = None, sp_allowedIPs = None, sp_persistentKeepalive = None, sp_rest = []\<rparr>\<rparr>"

abbreviation "exanswered \<equiv> ADone (Inr ())"
abbreviation "exabsent \<equiv> StatusError NotFound"

definition exfailing :: "wkresp list" where
  "exfailing = [AMesh (Inr exmesh), ADaemonSets (Inr [exowned ''wirekube-agent'' []]), APeers (Inr []), ADone (Inl exabsent)]
     @ [exanswered, exanswered, AInfo (Inl NotExistError), ABytes (Inr (replicate 32 0))] @ replicate 8 exanswered
     @ [AStore (LeasesA (Inr [])), AStore (LeaseA (Inr (stored (leaseFor exalloc (HolderForPeer ''idleloom-h'') ''10.0.0.1/32'' 0) 0)))] @ replicate 8 exanswered
     @ [APeer (Inl exabsent), APeer (Inr expeer), ADone (Inl (ErrorString ''disk full''))]"

theorem enroll_guarded_witness:
  "wireGuard ''e'' ''idleloom-h'' (feed (Enroll exleaflib exenroll) (exfailing @ exanswered # replicate 5 (ARbac (Inl exabsent))))
     (WDeleteLease ''w'' ''wirekube-m-10-0-0-1'' (freshUID 0))"
proof -
  have "asks (Enroll exleaflib exenroll) (exfailing @ exanswered # replicate 5 (ARbac (Inl exabsent)))
    = Some (WDeleteLease ''w'' ''wirekube-m-10-0-0-1'' (freshUID 0))" by code_simp
  from enroll_guarded [OF emits_asks [OF this, of exanswered]] show ?thesis by (simp add: exenroll_def)
qed

theorem enroll_rolled_back_witness:
  "undone (feed (Enroll exleaflib exenroll) (exfailing @ exanswered # replicate 5 (ARbac (Inl exabsent)) @ [exanswered]))"
proof -
  have "feed_result (Enroll exleaflib exenroll) (exfailing @ exanswered # replicate 5 (ARbac (Inl exabsent)) @ [exanswered])
    = Some (Inl (JoinError [ErrorString ''disk full'']))" by code_simp
  from enroll_rolled_back [OF runs_feed [OF this]] show ?thesis .
qed

text \<open>A revocation that finds its peer gone and a role binding of its own.\<close>

definition exrevoke :: RevokeConfig where
  "exrevoke = \<lparr>vc_Client = True, vc_StateDirectory = ''/s'', vc_RuntimeDirectory = [], vc_WaitTimeout = 0, vc_Force = True\<rparr>"

definition exrevoking :: "wkresp list" where
  "exrevoking = (let file = AInfo (Inr \<lparr>fi_Symlink = False, fi_Regular = True, fi_Perm = 0, fi_Identity = 0\<rparr>) in
     [file, exanswered, file, AText (Inr ''idleloom-h''), exanswered, APeer (Inl exabsent),
      ARbac (Inr (OwnedMeta.extend (exowned ''idleloom-wirekube-h'' ''r'') \<lparr>rb_Rules = [], rb_RoleRef = None, rb_Subjects = []\<rparr>))])"

theorem revoke_guarded_witness:
  "revokeGuard exleaflib (feed (Revoke exleaflib exrevoke) exrevoking) (WDeleteRbac ClusterRoleBindingKind [] ''idleloom-wirekube-h'' (Some ''r''))"
proof -
  have "asks (Revoke exleaflib exrevoke) exrevoking = Some (WDeleteRbac ClusterRoleBindingKind [] ''idleloom-wirekube-h'' (Some ''r''))" by code_simp
  from revoke_guarded [OF emits_asks [OF this, of exanswered]] show ?thesis .
qed

end
