(* ===== verification/Spec2Isabelle.thy ===== *)
theory Spec2Isabelle
  imports Controller Agent_Guarantees Agent_Host Mesh_Arbitration GGUF Log_Follow Projection_Safety Dra_Driver Recipe_Checks Wire_Safety
begin

text \<open>
  \<^bold>\<open>idleloom: the native control plane, its agents and their networks\<close>

  The program lends idle machines to a Kubernetes cluster. A user creates a workload; a controller chooses
  a host and writes an assignment, the mailbox of that host; the agent on the host reads the mailbox, starts
  one native process and reports its state; a second controller projects the execution as a Pod and a Node,
  and a third publishes its network endpoint. Fencing epochs decide which assignment of a host is the newest,
  and the journal of an agent survives its crashes. Hosts outside the cluster network join a WireKube mesh, in
  which each claims an address. Beside these stand a DRA driver for GPUs inside Linux workers and a registry of
  recipes from which runs are rendered. The theories model the Go sources of these parts, one theory per component.

  \<^bold>\<open>How code becomes definitions\<close>

  Structs are records with the fields of the source (with a prefix per type), tagged values are datatypes, a
  Go string is its list of bytes, a Go map an association list without order of its own, an \<open>int64\<close> an integer
  with its wrap-around written out (\<open>wrap64\<close>) and a \<open>uint32\<close> a word of 32 bits. An error is a value of
  \<open>go_error\<close>, with its message and the errors it wraps, and a fallible function returns \<open>go_error + 'a\<close>.
  Pure functions are HOL functions. Code with effects is a \<open>prog\<close> (\<open>Prelude\<close>): a tree of the requests it makes,
  each with a continuation for every answer. Requests are the calls of the Kubernetes API, of the file system, of
  processes, of the clock and of the random source. \<open>runs p t a\<close> says that \<open>p\<close> can return \<open>a\<close> after the requests and
  answers \<open>t\<close>, \<open>emits p t\<close> that it can have got as far as \<open>t\<close>; \<open>safe\<close> is the proof rule for what holds
  before each request and at the end. No answer is excluded: a server may refuse, lose or reorder, and a file
  system may fail, at every call; a theorem that needs more says so. \<open>asks\<close>, \<open>feed\<close> and \<open>feed_result\<close> evaluate a
  program on a list of answers; the witnesses run the model with them.

  \<^bold>\<open>Theories and sources\<close> (paths under \<open>src/\<close>; \<open>native\<close> is \<open>internal/native\<close>)

  \<^item> \<open>Prelude\<close>, \<open>Go_Std\<close>, \<open>Go_URL\<close>, \<open>Go_Path\<close>, \<open>Go_Net\<close>, \<open>Regex\<close>: scalars, errors, maps and programs, and what the
    sources use of the packages strings, strconv, sort, time, net/url, filepath, net and regexp.
  \<^item> \<open>API_Types\<close>, \<open>Validation\<close>: \<open>api/native/v1alpha1/types.go\<close> and \<open>validation.go\<close>; \<open>Examples\<close> has the concrete objects.
  \<^item> \<open>Kube_API\<close>: \<open>native/kube/resources.go\<close> and the requests of the controllers.
  \<^item> \<open>Scheduler\<close>: \<open>native/scheduler/planner.go\<close>. \<open>Fencing\<close>: \<open>native/fencing/allocator.go\<close>.
  \<^item> \<open>Serving\<close>, \<open>Model_Status\<close>, \<open>Controller\<close>: \<open>native/controller/serving.go\<close>, \<open>modelstatus.go\<close>, \<open>reconciler.go\<close>.
  \<^item> \<open>Execution\<close>, \<open>Journal\<close>: \<open>native/execution/store.go\<close> with the lock and directory helpers, and its contract.
  \<^item> \<open>Host_Memory\<close>, \<open>Agent_Env\<close>, \<open>Agent\<close>: \<open>native/agent/platform.go\<close>, \<open>memory.go\<close>, \<open>validation.go\<close>, \<open>devagent.go\<close>.
    \<open>Agent_Safety\<close>, \<open>Agent_Guarantees\<close>, \<open>Agent_Host\<close> and \<open>Agent_Examples\<close> hold the invariants and statements.
  \<^item> \<open>Log_Buffer\<close>, \<open>Kubelet_Server\<close>, \<open>Log_Follow\<close>: \<open>native/kubeletbridge/logs.go\<close>, \<open>server.go\<close> and the followers of a log.
  \<^item> \<open>Projection\<close>, \<open>Projection_Safety\<close>: \<open>native/projection/controller.go\<close>.
  \<^item> \<open>Mesh_IP\<close>, \<open>Mesh_Claim\<close>, \<open>Mesh_Arbitration\<close>: \<open>internal/meship\<close>, \<open>internal/meshclaim\<close>, and many allocators at once.
  \<^item> \<open>Mesh_Routes\<close>, \<open>Wire_Leaf\<close>, \<open>Wire_Enroll\<close>, \<open>Wire_Safety\<close>: \<open>native/wirekube/route_safety.go\<close>, \<open>leaf.go\<close>,
    \<open>meship.go\<close> and \<open>wkpeer.go\<close>.
  \<^item> \<open>Prepared_Claims\<close>, \<open>Dra_Driver\<close>: \<open>internal/state/store.go\<close>, \<open>internal/driver\<close>, \<open>internal/config/config.go\<close> and
    the reconcile step of \<open>cmd/dra-node/main.go\<close>.
  \<^item> \<open>Recipe\<close>, \<open>Recipe_Registry\<close>, \<open>Recipe_Checks\<close>: \<open>internal/recipe\<close>.
  \<^item> \<open>GGUF\<close>: \<open>native/devruntime/gguf.go\<close>.
  \<^item> This theory: that what the planner writes the agent accepts.

  \<^bold>\<open>What the lemmas show\<close>

  \<^item> Controllers (C1, C4, C7, C8, C16, C17, C24, C38, C39): what must have been read before a finalizer is removed, an
    assignment created, an endpoint written or an object deleted; what a published status means; that the planner is
    best fit and complete. The locale \<open>host_choice\<close> states what the controller relies on in a planner.
  \<^item> Fencing (C5, C6): uniqueness and order of epochs over every interleaving of allocators.
  \<^item> Journal (C9, C10, C14): what crashes leave, and that the store implements the lifecycle \<open>lives\<close> of one execution, which
    is stated without records, error texts or files. \<open>decide\<close> is the control flow of the operations without their file-system
    calls; the agent uses the journal through it, over the locale \<open>journal\<close>.
  \<^item> Agent (C2, C3, C11-C13, C15, C40): a process is started, stopped, acknowledged and forgotten only in the right order
    and only for the newest accepted assignment; the watchdog; what is published of the host.
  \<^item> Logs (C30-C33): crash atomicity and reopening over the histories of a log (\<open>log_history\<close>) up to the first failed
    append, and followers that neither lose, repeat nor miss an entry.
  \<^item> Mesh (C25-C29, C37): the walk over addresses is a permutation, claims are exclusive, derived addresses are private and
    off the local networks; enrollment and revocation touch only their own objects, and a failed enrollment is undone.
  \<^item> DRA driver (C18-C20), over the locale \<open>map_invariant\<close>; recipes (C21-C23); the scanner (C34-C36).

  \<^bold>\<open>Bounds, crashes and assumptions\<close>

  The retry counts of client-go (\<open>rc_retries\<close>, \<open>pc_retries\<close>) and the number of events one wait of the agent looks at
  (\<open>ac_events\<close>) are fields of the configuration and arbitrary; statements hold for all of them. A poll ticks
  timeout div interval times. The other loops recurse on their data or have a termination proof. A crash ends a program between
  two requests; data that was not synced may then be torn, and a rename or removal that was not followed
  by a sync of the directory may be undone. The servers of \<open>Fencing\<close> and \<open>Mesh_Arbitration\<close> are step relations with
  optimistic concurrency that give fresh UIDs, fail at will and may apply a write whose answer is lost. Third-party code is a
  parameter with named laws: \<open>aggregate_law\<close>, \<open>quantity_law\<close> and \<open>condition_law\<close> for the helpers of Kubernetes,
  \<open>sha256_law\<close> for the checksum, \<open>json_law\<close>, \<open>logjson_law\<close> and \<open>claims_law\<close> for
  encoding/json; each has an instance on which the witnesses run. The conversion of unstructured objects has no law: a
  written object is the encoding of the typed one, and nothing is assumed about reading it back. The decoders and the template engine of the recipes, the JSON and
  kubeconfig writers and curve25519 of the enrollment have no law at all.

  \<^bold>\<open>Not modelled\<close>

  The wiring of the agent (defaults of \<open>NewDevAgent\<close>, \<open>Run\<close> and \<open>Close\<close>), so that a tick of the watchdog and a run of
  \<open>reconcile\<close> are each one program and do not interleave inside; the TLS listener and serving certificate of the
  kubelet bridge; leader election; the processes, downloads and servers of \<open>native/devruntime\<close> other than the scanner; installation,
  credentials and service files; the tunnels, devices and runtime status of \<open>native/wirekube\<close>; the Linux worker VM
  of \<open>internal/idleloom\<close>; probe, discovery and CDI files of the DRA driver and its registration with kubelet; the commands.
  These are operating-system and process I/O, glue of libraries, or flags. Generated deep copies are the identity, since values are not shared.
\<close>

section \<open>The planner and the agent\<close>

text \<open>What the API server adds when it stores a created object: its UID.\<close>

definition storedAssignment :: "UID \<Rightarrow> IdleloomWorkloadAssignment \<Rightarrow> IdleloomWorkloadAssignment" where
  "storedAssignment uid a = a\<lparr>wa_Meta := (wa_Meta a)\<lparr>om_UID := uid\<rparr>\<rparr>"

lemma stored_fields [simp]:
  "wa_UID (storedAssignment uid a) = uid" "wa_Namespace (storedAssignment uid a) = wa_Namespace a" "wa_Spec (storedAssignment uid a) = wa_Spec a"
  by (simp_all add: storedAssignment_def)

lemma ValidateAssignment_stored [simp]: "ValidateAssignment L (storedAssignment uid a) = ValidateAssignment L a"
  by (simp add: storedAssignment_def ValidateAssignment_def)

text \<open>
  C15. The planner and the agent agree: an assignment that \<open>PlanAssignment\<close> returns for a host is
  accepted by \<open>ValidateMailbox\<close> on that host once the API server has stored it, whatever UID it got,
  provided the host names its agent and its epoch is newer than the one in the agent's journal.
\<close>

theorem planned_accepted:
  assumes "aggregate_law L" and "PlanAssignment L p now rand w m h epoch = Inr a"
    and "hs_AgentID (ho_Spec h) \<noteq> []" and "uid \<noteq> []"
    and "\<forall>c. current = Some c \<longrightarrow> rec_FencingEpoch c < epoch"
  shows "ValidateMailbox L (storedAssignment uid a) h (hs_AgentID (ho_Spec h)) current = Inr ()"
proof -
  obtain xid d where sel: "SelectHost L p now w m [h] = Inr h" and b: "buildAssignment L w m h epoch xid d = Inr a"
    and v: "ValidateAssignment L a = []"
    using PlanAssignment_Inr [OF assms(2)] by metis
  have "ValidateHost L h = []"
    using sel ineligibility_Nil [OF assms(1)] by (auto simp: SelectHost_Inr eligible_on_def eligible_def split: if_splits)
  moreover from b have "wa_Namespace a = ho_Namespace h \<and> or_Name (as_HostRef (wa_Spec a)) = ho_Name h
      \<and> or_UID (as_HostRef (wa_Spec a)) = ho_UID h \<and> as_FencingEpoch (wa_Spec a) = epoch"
    by (auto simp: buildAssignment_def Let_def split: option.splits)
  ultimately show ?thesis
    using v assms(3-5) by (auto simp: ValidateMailbox_def split: option.split)
qed

theorem planned_accepted_witness:
  "\<exists>a. PlanAssignment exlib explanner exnow (Inr (replicate 16 7)) exworkload None (exhost ''small'' ''2048'') 8 = Inr a
     \<and> ValidateMailbox exlib (storedAssignment ''a-1'' a) (exhost ''small'' ''2048'') ''agent-a'' (Some exrunning) = Inr ()"
proof -
  have "case PlanAssignment exlib explanner exnow (Inr (replicate 16 7)) exworkload None (exhost ''small'' ''2048'') 8 of
      Inl e \<Rightarrow> False | Inr a \<Rightarrow> True"
    by code_simp
  then obtain a where a: "PlanAssignment exlib explanner exnow (Inr (replicate 16 7)) exworkload None (exhost ''small'' ''2048'') 8 = Inr a"
    by (auto split: sum.splits)
  have "hs_AgentID (ho_Spec (exhost ''small'' ''2048'')) = ''agent-a''" by (rule exaccepted)
  with planned_accepted [OF aggregate_law_ex a, of "''a-1''" "Some exrunning"] a show ?thesis
    by (simp add: exrunning_fields)
qed

end
